(* ===== verification/Prelude.thy ===== *)
theory Prelude
imports Main "HOL-Library.Multiset"
begin

text \<open>
  Shared vocabulary of the development.

  \<^item> \<open>('e, 'a, 'w) prog\<close>: an effectful C++ operation.  It takes the state it runs in and yields
    \<open>None\<close> when it never returns (it blocks forever or loops), or \<open>Some\<close> of an outcome:
    it returned a value (\<open>Ret\<close>), it left by an exception (\<open>Exc\<close>), or it called
    \<open>std::terminate()\<close> (\<open>Term\<close>), each with the state reached.
  \<^item> the combinators of C++ control flow: sequencing, \<open>throw\<close>, \<open>try/catch\<close>, the
    \<open>noexcept\<close> barrier, and the run of a destructor at the end of a scope (\<open>scoped\<close>), which
    happens on the normal exit and during unwinding.
  \<^item> member functions run on a pair of the outer state and the object; \<open>env\<close> runs an operation of
    the outer state, \<open>this\<close> reads and \<open>modify\<close> updates the object.
  \<^item> a partial-correctness triple with one postcondition for the normal exit and one for the
    exceptional exit, and its proof rules.
\<close>

named_theorems prog_simps "unfolding of the control flow combinators"
named_theorems triple_intros "rules that decompose a triple along the program"

section \<open>Outcomes and programs\<close>

datatype ('e, 'a, 'w) res = Ret (ret_val: 'a) (res_state: 'w) | Exc (exc_val: 'e) (res_state: 'w) | Term (res_state: 'w)

type_synonym ('e, 'a, 'w) prog = "'w \<Rightarrow> ('e, 'a, 'w) res option"

definition ret :: "'a \<Rightarrow> ('e, 'a, 'w) prog" where
  "ret a = (\<lambda>w. Some (Ret a w))"

definition throw :: "'e \<Rightarrow> ('e, 'a, 'w) prog" where
  "throw e = (\<lambda>w. Some (Exc e w))"

definition bind :: "('e, 'a, 'w) prog \<Rightarrow> ('a \<Rightarrow> ('e, 'b, 'w) prog) \<Rightarrow> ('e, 'b, 'w) prog" where
  "bind m k = (\<lambda>w. Option.bind (m w) (\<lambda>r. case r of
      Ret a w' \<Rightarrow> k a w'
    | Exc e w' \<Rightarrow> Some (Exc e w')
    | Term w' \<Rightarrow> Some (Term w')))"

abbreviation andthen :: "('e, 'a, 'w) prog \<Rightarrow> ('e, 'b, 'w) prog \<Rightarrow> ('e, 'b, 'w) prog" where
  "andthen m k \<equiv> bind m (\<lambda>_. k)"

definition catch :: "('e, 'a, 'w) prog \<Rightarrow> ('e \<Rightarrow> ('e, 'a, 'w) prog) \<Rightarrow> ('e, 'a, 'w) prog" where
  "catch m h = (\<lambda>w. Option.bind (m w) (\<lambda>r. case r of
      Ret a w' \<Rightarrow> Some (Ret a w')
    | Exc e w' \<Rightarrow> h e w'
    | Term w' \<Rightarrow> Some (Term w')))"

text \<open>An exception that reaches a \<open>noexcept\<close> specification calls \<open>std::terminate()\<close>.\<close>

definition noexcept :: "('e, 'a, 'w) prog \<Rightarrow> ('e, 'a, 'w) prog" where
  "noexcept m = catch m (\<lambda>e w. Some (Term w))"

text \<open>\<open>scoped body dtor\<close>: the body of a block with a local object whose destructor is \<open>dtor\<close>.
  The destructors of the program are declared \<open>noexcept\<close>, so leaving one by an exception ends the
  program.\<close>

definition scoped :: "('e, 'a, 'w) prog \<Rightarrow> ('e, unit, 'w) prog \<Rightarrow> ('e, 'a, 'w) prog" where
  "scoped body dtor = bind (catch body (\<lambda>e. andthen (noexcept dtor) (throw e)))
     (\<lambda>a w. case noexcept dtor w of None \<Rightarrow> None
        | Some (Ret _ w') \<Rightarrow> Some (Ret a w') | Some (Exc e w') \<Rightarrow> Some (Exc e w') | Some (Term w') \<Rightarrow> Some (Term w'))"

text \<open>The throw of a failed check (\<open>if (!(expr)) throw ...\<close>).\<close>

definition check :: "bool \<Rightarrow> 'e \<Rightarrow> ('e, unit, 'w) prog" where
  "check b e = (if b then ret () else throw e)"

text \<open>Calls of functions of the operating system: one that always returns, one that may block.\<close>

definition call :: "('w \<Rightarrow> 'a \<times> 'w) \<Rightarrow> ('e, 'a, 'w) prog" where
  "call f = (\<lambda>w. let (a, w') = f w in Some (Ret a w'))"

definition call_blocking :: "('w \<Rightarrow> ('a \<times> 'w) option) \<Rightarrow> ('e, 'a, 'w) prog" where
  "call_blocking f = (\<lambda>w. case f w of None \<Rightarrow> None | Some (a, w') \<Rightarrow> Some (Ret a w'))"

text \<open>An assertion: nothing in a release build (\<open>NDEBUG\<close>), the end of the program when it fails in a
  debug build.\<close>

definition cpp_assert :: "bool \<Rightarrow> bool \<Rightarrow> ('e, unit, 'w) prog" where
  "cpp_assert ndebug b = (\<lambda>w. if ndebug \<or> b then Some (Ret () w) else Some (Term w))"

section \<open>Member functions\<close>

definition env :: "('e, 'a, 'w) prog \<Rightarrow> ('e, 'a, 'w \<times> 'o) prog" where
  "env m = (\<lambda>(w, obj). Option.bind (m w) (\<lambda>r. case r of
      Ret a w' \<Rightarrow> Some (Ret a (w', obj))
    | Exc e w' \<Rightarrow> Some (Exc e (w', obj))
    | Term w' \<Rightarrow> Some (Term (w', obj))))"

definition this :: "('o \<Rightarrow> 'a) \<Rightarrow> ('e, 'a, 'w \<times> 'o) prog" where
  "this f = (\<lambda>(w, obj). Some (Ret (f obj) (w, obj)))"

definition modify :: "('o \<Rightarrow> 'o) \<Rightarrow> ('e, unit, 'w \<times> 'o) prog" where
  "modify f = (\<lambda>(w, obj). Some (Ret () (w, f obj)))"

text \<open>A block with a local object: its constructor, the rest of the block, its destructor.  When the
  constructor throws there is no object to destroy.\<close>

definition drop_object :: "('e, 'a, 'w \<times> 'o) prog \<Rightarrow> 'o \<Rightarrow> ('e, 'a, 'w) prog" where
  "drop_object m obj = (\<lambda>w. map_option (map_res id id fst) (m (w, obj)))"

definition local_object :: "'o \<Rightarrow> ('e, unit, 'w \<times> 'o) prog \<Rightarrow> ('e, 'a, 'w \<times> 'o) prog \<Rightarrow> ('e, unit, 'w \<times> 'o) prog
    \<Rightarrow> ('e, 'a, 'w) prog" where
  "local_object obj ctor body dtor = drop_object (andthen ctor (scoped body dtor)) obj"

section \<open>Equations\<close>

lemma ret_app [simp, prog_simps]: "ret a w = Some (Ret a w)"
  by (simp add: ret_def)

lemma throw_app [simp, prog_simps]: "throw e w = Some (Exc e w)"
  by (simp add: throw_def)

lemma bind_simps [simp, prog_simps]:
  "m w = None \<Longrightarrow> bind m k w = None"
  "m w = Some (Ret a w') \<Longrightarrow> bind m k w = k a w'"
  "m w = Some (Exc e w') \<Longrightarrow> bind m k w = Some (Exc e w')"
  "m w = Some (Term w') \<Longrightarrow> bind m k w = Some (Term w')"
  by (simp_all add: bind_def)

text \<open>The simplifier cannot match a Boolean literal against the variable of the condition above.\<close>

lemma bind_bool_simps [simp, prog_simps]:
  "m w = Some (Ret True w') \<Longrightarrow> bind m k w = k True w'"
  "m w = Some (Ret False w') \<Longrightarrow> bind m k w = k False w'"
  by (simp_all add: bind_def)

lemma catch_simps [simp, prog_simps]:
  "m w = None \<Longrightarrow> catch m h w = None"
  "m w = Some (Ret a w') \<Longrightarrow> catch m h w = Some (Ret a w')"
  "m w = Some (Exc e w') \<Longrightarrow> catch m h w = h e w'"
  "m w = Some (Term w') \<Longrightarrow> catch m h w = Some (Term w')"
  by (simp_all add: catch_def)

lemma noexcept_simps [simp, prog_simps]:
  "m w = None \<Longrightarrow> noexcept m w = None"
  "m w = Some (Ret a w') \<Longrightarrow> noexcept m w = Some (Ret a w')"
  "m w = Some (Exc e w') \<Longrightarrow> noexcept m w = Some (Term w')"
  "m w = Some (Term w') \<Longrightarrow> noexcept m w = Some (Term w')"
  by (simp_all add: noexcept_def)

lemma env_simps [simp, prog_simps]:
  "m w = None \<Longrightarrow> env m (w, obj) = None"
  "m w = Some (Ret a w') \<Longrightarrow> env m (w, obj) = Some (Ret a (w', obj))"
  "m w = Some (Exc e w') \<Longrightarrow> env m (w, obj) = Some (Exc e (w', obj))"
  "m w = Some (Term w') \<Longrightarrow> env m (w, obj) = Some (Term (w', obj))"
  by (simp_all add: env_def)

lemma this_app [simp, prog_simps]: "this f (w, obj) = Some (Ret (f obj) (w, obj))"
  by (simp add: this_def)

lemma modify_app [simp, prog_simps]: "modify f (w, obj) = Some (Ret () (w, f obj))"
  by (simp add: modify_def)

lemma check_app [simp, prog_simps]: "check b e w = (if b then Some (Ret () w) else Some (Exc e w))"
  by (simp add: check_def)

lemma call_app [simp, prog_simps]: "f w = (a, w') \<Longrightarrow> call f w = Some (Ret a w')"
  by (simp add: call_def)

lemma call_blocking_app [simp, prog_simps]:
  "f w = None \<Longrightarrow> call_blocking f w = None"
  "f w = Some (a, w') \<Longrightarrow> call_blocking f w = Some (Ret a w')"
  by (simp_all add: call_blocking_def)

lemma cpp_assert_app [simp, prog_simps]:
  "cpp_assert ndebug b w = (if ndebug \<or> b then Some (Ret () w) else Some (Term w))"
  by (simp add: cpp_assert_def)

lemma bind_ret_left [simp]: "bind (ret a) k = k a"
  by (rule ext) simp

lemma bind_throw_left [simp]: "bind (throw e) k = throw e"
  by (rule ext) simp

lemma bind_ret_right [simp]: "bind m ret = m"
proof
  fix w show "bind m ret w = m w"
    by (cases "m w") (auto simp: bind_def split: res.splits)
qed

lemma bind_assoc: "bind (bind m k) h = bind m (\<lambda>a. bind (k a) h)"
proof
  fix w show "bind (bind m k) h w = bind m (\<lambda>a. bind (k a) h) w"
    by (cases "m w") (auto simp: bind_def split: res.splits)
qed

lemma check_True [simp]: "check True e = ret ()" and check_False [simp]: "check False e = throw e"
  by (simp_all add: check_def)

lemma noexcept_no_exc: "noexcept m w \<noteq> Some (Exc e w')"
proof (cases "m w")
  case (Some r) then show ?thesis by (cases r) auto
qed simp

lemma bind_mono [partial_function_mono]:
  assumes "mono_option (\<lambda>f. m f w)" and "\<And>a w'. mono_option (\<lambda>f. k f a w')"
  shows "mono_option (\<lambda>f. bind (m f) (k f) w)"
proof -
  have "mono_option (\<lambda>f. case r of Ret a w' \<Rightarrow> k f a w' | Exc e w' \<Rightarrow> Some (Exc e w') | Term w' \<Rightarrow> Some (Term w'))"
    for r by (cases r) (auto simp: assms(2) intro: option.const_mono)
  then show ?thesis unfolding bind_def by (intro bind_mono assms(1))
qed

section \<open>Triples\<close>

definition triple :: "('w \<Rightarrow> bool) \<Rightarrow> ('e, 'a, 'w) prog \<Rightarrow> ('a \<Rightarrow> 'w \<Rightarrow> bool) \<Rightarrow> ('e \<Rightarrow> 'w \<Rightarrow> bool) \<Rightarrow> bool" where
  "triple P m Q E = (\<forall>w r. P w \<longrightarrow> m w = Some r \<longrightarrow>
     (case r of Ret a w' \<Rightarrow> Q a w' | Exc e w' \<Rightarrow> E e w' | Term _ \<Rightarrow> False))"

lemma tripleI:
  assumes "\<And>w a w'. P w \<Longrightarrow> m w = Some (Ret a w') \<Longrightarrow> Q a w'"
    and "\<And>w e w'. P w \<Longrightarrow> m w = Some (Exc e w') \<Longrightarrow> E e w'"
    and "\<And>w w'. P w \<Longrightarrow> m w \<noteq> Some (Term w')"
  shows "triple P m Q E"
  using assms by (auto simp: triple_def split: res.split)

lemma triple_Ret: "triple P m Q E \<Longrightarrow> P w \<Longrightarrow> m w = Some (Ret a w') \<Longrightarrow> Q a w'"
  and triple_Exc: "triple P m Q E \<Longrightarrow> P w \<Longrightarrow> m w = Some (Exc e w') \<Longrightarrow> E e w'"
  and triple_Term: "triple P m Q E \<Longrightarrow> P w \<Longrightarrow> m w = Some (Term w') \<Longrightarrow> False"
  by (fastforce simp: triple_def)+

lemma triple_conseq:
  assumes "triple P m Q E" "\<And>w. P' w \<Longrightarrow> P w" "\<And>a w. Q a w \<Longrightarrow> Q' a w" "\<And>e w. E e w \<Longrightarrow> E' e w"
  shows "triple P' m Q' E'"
  using assms by (fastforce simp: triple_def split: res.splits)

lemma triple_ret [triple_intros]: "(\<And>w. P w \<Longrightarrow> Q a w) \<Longrightarrow> triple P (ret a) Q E"
  by (simp add: triple_def)

lemma triple_throw [triple_intros]: "(\<And>w. P w \<Longrightarrow> E e w) \<Longrightarrow> triple P (throw e) Q E"
  by (simp add: triple_def)

lemma triple_bind:
  assumes m: "triple P m R E" and k: "\<And>a. triple (R a) (k a) Q E"
  shows "triple P (bind m k) Q E"
  unfolding triple_def
proof (intro allI impI)
  fix w r assume "P w" and r: "bind m k w = Some r"
  show "case r of Ret a w' \<Rightarrow> Q a w' | Exc e w' \<Rightarrow> E e w' | Term _ \<Rightarrow> False"
  proof (cases "m w")
    case (Some s)
    then show ?thesis
      using r \<open>P w\<close> m k by (cases s) (fastforce simp: triple_def)+
  qed (use r in simp)
qed

lemma triple_catch:
  assumes m: "triple P m Q R" and h: "\<And>e. triple (R e) (h e) Q E"
  shows "triple P (catch m h) Q E"
  unfolding triple_def
proof (intro allI impI)
  fix w r assume "P w" and r: "catch m h w = Some r"
  show "case r of Ret a w' \<Rightarrow> Q a w' | Exc e w' \<Rightarrow> E e w' | Term _ \<Rightarrow> False"
  proof (cases "m w")
    case (Some s)
    then show ?thesis
      using r \<open>P w\<close> m h by (cases s) (fastforce simp: triple_def)+
  qed (use r in simp)
qed

lemma triple_noexcept:
  "triple P m Q (\<lambda>_ _. False) \<Longrightarrow> triple P (noexcept m) Q E"
  unfolding noexcept_def by (rule triple_catch) (auto simp: triple_def)

lemma triple_check [triple_intros]:
  "(\<And>w. P w \<Longrightarrow> b \<Longrightarrow> Q () w) \<Longrightarrow> (\<And>w. P w \<Longrightarrow> \<not> b \<Longrightarrow> E e w) \<Longrightarrow> triple P (check b e) Q E"
  by (auto simp: triple_def)

lemma triple_call [triple_intros]:
  "(\<And>w a w'. P w \<Longrightarrow> f w = (a, w') \<Longrightarrow> Q a w') \<Longrightarrow> triple P (call f) Q E"
  by (auto simp: triple_def call_def split: prod.splits)

lemma triple_call_blocking [triple_intros]:
  "(\<And>w a w'. P w \<Longrightarrow> f w = Some (a, w') \<Longrightarrow> Q a w') \<Longrightarrow> triple P (call_blocking f) Q E"
  by (auto simp: triple_def call_blocking_def split: prod.splits option.splits)

lemma triple_cpp_assert [triple_intros]:
  "(\<And>w. P w \<Longrightarrow> ndebug \<or> b) \<Longrightarrow> (\<And>w. P w \<Longrightarrow> Q () w) \<Longrightarrow> triple P (cpp_assert ndebug b) Q E"
  by (auto simp: triple_def)

lemma triple_if [triple_intros]:
  "(b \<Longrightarrow> triple P m Q E) \<Longrightarrow> (\<not> b \<Longrightarrow> triple P m' Q E) \<Longrightarrow> triple P (if b then m else m') Q E"
  by simp

lemma triple_pre: "(\<And>w. P w \<Longrightarrow> triple (\<lambda>w'. w' = w) m Q E) \<Longrightarrow> triple P m Q E"
  by (simp add: triple_def)

text \<open>A member function that runs an operation of the outer state.\<close>

lemma triple_env:
  assumes "\<And>obj. triple (\<lambda>w. P (w, obj)) m (\<lambda>a w. Q a (w, obj)) (\<lambda>e w. E e (w, obj))"
  shows "triple P (env m) Q E"
  unfolding triple_def
proof (intro allI impI)
  fix s r assume s: "P s" and r: "env m s = Some r"
  obtain w obj where [simp]: "s = (w, obj)" by (cases s)
  show "case r of Ret a s' \<Rightarrow> Q a s' | Exc e s' \<Rightarrow> E e s' | Term _ \<Rightarrow> False"
  proof (cases "m w")
    case (Some q)
    then show ?thesis
      using s r assms[of obj] by (cases q) (fastforce simp: triple_def)+
  qed (use r in simp)
qed

lemma triple_this [triple_intros]:
  "(\<And>w obj. P (w, obj) \<Longrightarrow> Q (f obj) (w, obj)) \<Longrightarrow> triple P (this f) Q E"
  by (auto simp: triple_def)

lemma triple_bind_this:
  "(\<And>obj. triple (\<lambda>s. P s \<and> snd s = obj) (k (f obj)) Q E) \<Longrightarrow> triple P (bind (this f) k) Q E"
  by (auto simp: triple_def)

lemma triple_modify [triple_intros]:
  "(\<And>w obj. P (w, obj) \<Longrightarrow> Q () (w, f obj)) \<Longrightarrow> triple P (modify f) Q E"
  by (auto simp: triple_def)

lemma triple_False [simp]: "triple (\<lambda>_. False) m Q E"
  by (simp add: triple_def)

lemma triple_scoped:
  assumes m: "triple P m (\<lambda>a. D (Q a)) (\<lambda>e. D (E e))"
    and d: "\<And>R. triple (D R) dtor (\<lambda>_. R) (\<lambda>_ _. False)"
  shows "triple P (scoped m dtor) Q E"
proof -
  have "triple (D (Q a)) (\<lambda>w. case noexcept dtor w of None \<Rightarrow> None
        | Some (Ret _ w') \<Rightarrow> Some (Ret a w') | Some (Exc e w') \<Rightarrow> Some (Exc e w') | Some (Term w') \<Rightarrow> Some (Term w')) Q E" for a
    using triple_noexcept[OF d[of "Q a"], of "\<lambda>_ _. False"]
    by (fastforce simp: triple_def split: option.splits res.splits)
  moreover have "triple (D (E e)) (andthen (noexcept dtor) (throw e)) (\<lambda>a. D (Q a)) E" for e
    by (rule triple_bind[OF triple_noexcept[OF d[of "E e"]]]) (simp add: triple_throw)
  ultimately show ?thesis
    unfolding scoped_def by (intro triple_bind[OF triple_catch[OF m]])
qed

lemma triple_drop_object:
  assumes "triple (\<lambda>s. P (fst s) \<and> snd s = obj) m (\<lambda>a s. Q a (fst s)) (\<lambda>e s. E e (fst s))"
  shows "triple P (drop_object m obj) Q E"
  unfolding triple_def drop_object_def
proof (intro allI impI)
  fix w r assume "P w" and r: "map_option (map_res id id fst) (m (w, obj)) = Some r"
  then obtain s where "m (w, obj) = Some s" "r = map_res id id fst s" by auto
  then show "case r of Ret a w' \<Rightarrow> Q a w' | Exc e w' \<Rightarrow> E e w' | Term _ \<Rightarrow> False"
    using assms \<open>P w\<close> by (cases s) (fastforce simp: triple_def)+
qed

lemma triple_local_object:
  assumes ctor: "triple (\<lambda>s. P (fst s) \<and> snd s = obj) ctor (\<lambda>_. R) (\<lambda>e s. E e (fst s))"
    and body: "triple R body (\<lambda>a. D (Q a)) (\<lambda>e. D (E e))"
    and dtor: "\<And>R. triple (D R) dtor (\<lambda>_ s. R (fst s)) (\<lambda>_ _. False)"
  shows "triple P (local_object obj ctor body dtor) Q E"
  unfolding local_object_def
proof (rule triple_drop_object, rule triple_bind[OF ctor])
  let ?D = "\<lambda>T s. \<exists>R. D R s \<and> (\<forall>s'. R (fst s') \<longrightarrow> T s')"
  show "triple R (scoped body dtor) (\<lambda>a s. Q a (fst s)) (\<lambda>e s. E e (fst s))"
  proof (rule triple_scoped[where D = ?D])
    show "triple R body (\<lambda>a. ?D (\<lambda>s. Q a (fst s))) (\<lambda>e. ?D (\<lambda>s. E e (fst s)))"
      by (rule triple_conseq[OF body]) auto
    show "triple (?D T) dtor (\<lambda>_. T) (\<lambda>_ _. False)" for T
      using dtor by (fastforce simp: triple_def split: res.splits)
  qed
qed

end
