(* ===== verification/ErrorCodes.thy ===== *)
theory ErrorCodes
imports Prelude
begin

text \<open>
  Error codes, error conditions and their categories
  (\<open>include/cppdevtk/base/error_code.hpp\<close>, \<open>error_condition.hpp\<close>, \<open>error_category.hpp\<close>,
  \<open>error_code_lnx.hpp\<close>, \<open>future_errc.hpp\<close>, \<open>src/base/error_code.cpp\<close>, \<open>error_code_unx.cpp\<close>,
  \<open>error_condition.cpp\<close>, \<open>error_category.cpp\<close>, \<open>error_category_unx.cpp\<close>).

  A category object is identified with its constructor: there is one object of each of the three
  categories of the library, and client code may add others (\<open>UserCategory\<close>) that inherit the
  default virtual functions.  The order of categories is the order of their addresses, a parameter
  \<open>addr\<close>.  The values of \<open>errno\<close> are those of Linux (\<open>asm-generic/errno.h\<close>).
\<close>

section \<open>errno\<close>

abbreviation (input) "ESUCCESS \<equiv> (0::int)"
abbreviation (input) "EPERM \<equiv> (1::int)"
abbreviation (input) "ENOENT \<equiv> (2::int)"
abbreviation (input) "ESRCH \<equiv> (3::int)"
abbreviation (input) "EINTR \<equiv> (4::int)"
abbreviation (input) "EIO \<equiv> (5::int)"
abbreviation (input) "ENXIO \<equiv> (6::int)"
abbreviation (input) "E2BIG \<equiv> (7::int)"
abbreviation (input) "ENOEXEC \<equiv> (8::int)"
abbreviation (input) "EBADF \<equiv> (9::int)"
abbreviation (input) "ECHILD \<equiv> (10::int)"
abbreviation (input) "EAGAIN \<equiv> (11::int)"
abbreviation (input) "ENOMEM \<equiv> (12::int)"
abbreviation (input) "EACCES \<equiv> (13::int)"
abbreviation (input) "EFAULT \<equiv> (14::int)"
abbreviation (input) "ENOTBLK \<equiv> (15::int)"
abbreviation (input) "EBUSY \<equiv> (16::int)"
abbreviation (input) "EEXIST \<equiv> (17::int)"
abbreviation (input) "EXDEV \<equiv> (18::int)"
abbreviation (input) "ENODEV \<equiv> (19::int)"
abbreviation (input) "ENOTDIR \<equiv> (20::int)"
abbreviation (input) "EISDIR \<equiv> (21::int)"
abbreviation (input) "EINVAL \<equiv> (22::int)"
abbreviation (input) "ENFILE \<equiv> (23::int)"
abbreviation (input) "EMFILE \<equiv> (24::int)"
abbreviation (input) "ENOTTY \<equiv> (25::int)"
abbreviation (input) "ETXTBSY \<equiv> (26::int)"
abbreviation (input) "EFBIG \<equiv> (27::int)"
abbreviation (input) "ENOSPC \<equiv> (28::int)"
abbreviation (input) "ESPIPE \<equiv> (29::int)"
abbreviation (input) "EROFS \<equiv> (30::int)"
abbreviation (input) "EMLINK \<equiv> (31::int)"
abbreviation (input) "EPIPE \<equiv> (32::int)"
abbreviation (input) "EDOM \<equiv> (33::int)"
abbreviation (input) "ERANGE \<equiv> (34::int)"
abbreviation (input) "EDEADLK \<equiv> (35::int)"
abbreviation (input) "ENAMETOOLONG \<equiv> (36::int)"
abbreviation (input) "ENOLCK \<equiv> (37::int)"
abbreviation (input) "ENOSYS \<equiv> (38::int)"
abbreviation (input) "ENOTEMPTY \<equiv> (39::int)"
abbreviation (input) "ELOOP \<equiv> (40::int)"
abbreviation (input) "ENOMSG \<equiv> (42::int)"
abbreviation (input) "EIDRM \<equiv> (43::int)"
abbreviation (input) "ECHRNG \<equiv> (44::int)"
abbreviation (input) "EL2NSYNC \<equiv> (45::int)"
abbreviation (input) "EL3HLT \<equiv> (46::int)"
abbreviation (input) "EL3RST \<equiv> (47::int)"
abbreviation (input) "ELNRNG \<equiv> (48::int)"
abbreviation (input) "EUNATCH \<equiv> (49::int)"
abbreviation (input) "ENOCSI \<equiv> (50::int)"
abbreviation (input) "EL2HLT \<equiv> (51::int)"
abbreviation (input) "EBADE \<equiv> (52::int)"
abbreviation (input) "EBADR \<equiv> (53::int)"
abbreviation (input) "EXFULL \<equiv> (54::int)"
abbreviation (input) "ENOANO \<equiv> (55::int)"
abbreviation (input) "EBADRQC \<equiv> (56::int)"
abbreviation (input) "EBADSLT \<equiv> (57::int)"
abbreviation (input) "EBFONT \<equiv> (59::int)"
abbreviation (input) "ENOSTR \<equiv> (60::int)"
abbreviation (input) "ENODATA \<equiv> (61::int)"
abbreviation (input) "ETIME \<equiv> (62::int)"
abbreviation (input) "ENOSR \<equiv> (63::int)"
abbreviation (input) "ENONET \<equiv> (64::int)"
abbreviation (input) "ENOPKG \<equiv> (65::int)"
abbreviation (input) "EREMOTE \<equiv> (66::int)"
abbreviation (input) "ENOLINK \<equiv> (67::int)"
abbreviation (input) "EADV \<equiv> (68::int)"
abbreviation (input) "ESRMNT \<equiv> (69::int)"
abbreviation (input) "ECOMM \<equiv> (70::int)"
abbreviation (input) "EPROTO \<equiv> (71::int)"
abbreviation (input) "EDOTDOT \<equiv> (73::int)"
abbreviation (input) "EBADMSG \<equiv> (74::int)"
abbreviation (input) "EOVERFLOW \<equiv> (75::int)"
abbreviation (input) "ENOTUNIQ \<equiv> (76::int)"
abbreviation (input) "EBADFD \<equiv> (77::int)"
abbreviation (input) "EREMCHG \<equiv> (78::int)"
abbreviation (input) "ELIBACC \<equiv> (79::int)"
abbreviation (input) "ELIBBAD \<equiv> (80::int)"
abbreviation (input) "ELIBSCN \<equiv> (81::int)"
abbreviation (input) "ELIBMAX \<equiv> (82::int)"
abbreviation (input) "ELIBEXEC \<equiv> (83::int)"
abbreviation (input) "EILSEQ \<equiv> (84::int)"
abbreviation (input) "ERESTART \<equiv> (85::int)"
abbreviation (input) "ESTRPIPE \<equiv> (86::int)"
abbreviation (input) "EUSERS \<equiv> (87::int)"
abbreviation (input) "ENOTSOCK \<equiv> (88::int)"
abbreviation (input) "EDESTADDRREQ \<equiv> (89::int)"
abbreviation (input) "EMSGSIZE \<equiv> (90::int)"
abbreviation (input) "EPROTOTYPE \<equiv> (91::int)"
abbreviation (input) "ENOPROTOOPT \<equiv> (92::int)"
abbreviation (input) "EPROTONOSUPPORT \<equiv> (93::int)"
abbreviation (input) "ESOCKTNOSUPPORT \<equiv> (94::int)"
abbreviation (input) "EOPNOTSUPP \<equiv> (95::int)"
abbreviation (input) "EPFNOSUPPORT \<equiv> (96::int)"
abbreviation (input) "EAFNOSUPPORT \<equiv> (97::int)"
abbreviation (input) "EADDRINUSE \<equiv> (98::int)"
abbreviation (input) "EADDRNOTAVAIL \<equiv> (99::int)"
abbreviation (input) "ENETDOWN \<equiv> (100::int)"
abbreviation (input) "ENETUNREACH \<equiv> (101::int)"
abbreviation (input) "ENETRESET \<equiv> (102::int)"
abbreviation (input) "ECONNABORTED \<equiv> (103::int)"
abbreviation (input) "ECONNRESET \<equiv> (104::int)"
abbreviation (input) "ENOBUFS \<equiv> (105::int)"
abbreviation (input) "EISCONN \<equiv> (106::int)"
abbreviation (input) "ENOTCONN \<equiv> (107::int)"
abbreviation (input) "ESHUTDOWN \<equiv> (108::int)"
abbreviation (input) "ETOOMANYREFS \<equiv> (109::int)"
abbreviation (input) "ETIMEDOUT \<equiv> (110::int)"
abbreviation (input) "ECONNREFUSED \<equiv> (111::int)"
abbreviation (input) "EHOSTDOWN \<equiv> (112::int)"
abbreviation (input) "EHOSTUNREACH \<equiv> (113::int)"
abbreviation (input) "EALREADY \<equiv> (114::int)"
abbreviation (input) "EINPROGRESS \<equiv> (115::int)"
abbreviation (input) "EUCLEAN \<equiv> (117::int)"
abbreviation (input) "ENOTNAM \<equiv> (118::int)"
abbreviation (input) "ENAVAIL \<equiv> (119::int)"
abbreviation (input) "EISNAM \<equiv> (120::int)"
abbreviation (input) "EREMOTEIO \<equiv> (121::int)"
abbreviation (input) "ENOMEDIUM \<equiv> (123::int)"
abbreviation (input) "EMEDIUMTYPE \<equiv> (124::int)"
abbreviation (input) "ECANCELED \<equiv> (125::int)"
abbreviation (input) "ENOKEY \<equiv> (126::int)"
abbreviation (input) "EKEYEXPIRED \<equiv> (127::int)"
abbreviation (input) "EKEYREVOKED \<equiv> (128::int)"
abbreviation (input) "EKEYREJECTED \<equiv> (129::int)"
abbreviation (input) "EOWNERDEAD \<equiv> (130::int)"
abbreviation (input) "ENOTRECOVERABLE \<equiv> (131::int)"
abbreviation (input) "EWOULDBLOCK \<equiv> EAGAIN"
abbreviation (input) "ENOTSUP \<equiv> EOPNOTSUPP"


section \<open>Enumerations\<close>

datatype (plugins only:) errc_t =
    errc_success
  | errc_address_family_not_supported
  | errc_address_in_use
  | errc_address_not_available
  | errc_already_connected
  | errc_argument_list_too_long
  | errc_argument_out_of_domain
  | errc_bad_address
  | errc_bad_file_descriptor
  | errc_bad_message
  | errc_broken_pipe
  | errc_connection_aborted
  | errc_connection_already_in_progress
  | errc_connection_refused
  | errc_connection_reset
  | errc_cross_device_link
  | errc_destination_address_required
  | errc_device_or_resource_busy
  | errc_directory_not_empty
  | errc_executable_format_error
  | errc_file_exists
  | errc_file_too_large
  | errc_filename_too_long
  | errc_function_not_supported
  | errc_host_unreachable
  | errc_identifier_removed
  | errc_illegal_byte_sequence
  | errc_inappropriate_io_control_operation
  | errc_interrupted
  | errc_invalid_argument
  | errc_invalid_seek
  | errc_io_error
  | errc_is_a_directory
  | errc_message_size
  | errc_network_down
  | errc_network_reset
  | errc_network_unreachable
  | errc_no_buffer_space
  | errc_no_child_process
  | errc_no_link
  | errc_no_lock_available
  | errc_no_message_available
  | errc_no_message
  | errc_no_protocol_option
  | errc_no_space_on_device
  | errc_no_stream_resources
  | errc_no_such_device_or_address
  | errc_no_such_device
  | errc_no_such_file_or_directory
  | errc_no_such_process
  | errc_not_a_directory
  | errc_not_a_socket
  | errc_not_a_stream
  | errc_not_connected
  | errc_not_enough_memory
  | errc_not_supported
  | errc_operation_canceled
  | errc_operation_in_progress
  | errc_operation_not_permitted
  | errc_operation_not_supported
  | errc_operation_would_block
  | errc_owner_dead
  | errc_permission_denied
  | errc_protocol_error
  | errc_protocol_not_supported
  | errc_read_only_file_system
  | errc_resource_deadlock_would_occur
  | errc_resource_unavailable_try_again
  | errc_result_out_of_range
  | errc_state_not_recoverable
  | errc_stream_timeout
  | errc_text_file_busy
  | errc_timed_out
  | errc_too_many_files_open_in_system
  | errc_too_many_files_open
  | errc_too_many_links
  | errc_too_many_symbolic_link_levels
  | errc_value_too_large
  | errc_wrong_protocol_type

fun errc_value :: "errc_t \<Rightarrow> int" where
  "errc_value errc_success = ESUCCESS"
| "errc_value errc_address_family_not_supported = EAFNOSUPPORT"
| "errc_value errc_address_in_use = EADDRINUSE"
| "errc_value errc_address_not_available = EADDRNOTAVAIL"
| "errc_value errc_already_connected = EISCONN"
| "errc_value errc_argument_list_too_long = E2BIG"
| "errc_value errc_argument_out_of_domain = EDOM"
| "errc_value errc_bad_address = EFAULT"
| "errc_value errc_bad_file_descriptor = EBADF"
| "errc_value errc_bad_message = EBADMSG"
| "errc_value errc_broken_pipe = EPIPE"
| "errc_value errc_connection_aborted = ECONNABORTED"
| "errc_value errc_connection_already_in_progress = EALREADY"
| "errc_value errc_connection_refused = ECONNREFUSED"
| "errc_value errc_connection_reset = ECONNRESET"
| "errc_value errc_cross_device_link = EXDEV"
| "errc_value errc_destination_address_required = EDESTADDRREQ"
| "errc_value errc_device_or_resource_busy = EBUSY"
| "errc_value errc_directory_not_empty = ENOTEMPTY"
| "errc_value errc_executable_format_error = ENOEXEC"
| "errc_value errc_file_exists = EEXIST"
| "errc_value errc_file_too_large = EFBIG"
| "errc_value errc_filename_too_long = ENAMETOOLONG"
| "errc_value errc_function_not_supported = ENOSYS"
| "errc_value errc_host_unreachable = EHOSTUNREACH"
| "errc_value errc_identifier_removed = EIDRM"
| "errc_value errc_illegal_byte_sequence = EILSEQ"
| "errc_value errc_inappropriate_io_control_operation = ENOTTY"
| "errc_value errc_interrupted = EINTR"
| "errc_value errc_invalid_argument = EINVAL"
| "errc_value errc_invalid_seek = ESPIPE"
| "errc_value errc_io_error = EIO"
| "errc_value errc_is_a_directory = EISDIR"
| "errc_value errc_message_size = EMSGSIZE"
| "errc_value errc_network_down = ENETDOWN"
| "errc_value errc_network_reset = ENETRESET"
| "errc_value errc_network_unreachable = ENETUNREACH"
| "errc_value errc_no_buffer_space = ENOBUFS"
| "errc_value errc_no_child_process = ECHILD"
| "errc_value errc_no_link = ENOLINK"
| "errc_value errc_no_lock_available = ENOLCK"
| "errc_value errc_no_message_available = ENODATA"
| "errc_value errc_no_message = ENOMSG"
| "errc_value errc_no_protocol_option = ENOPROTOOPT"
| "errc_value errc_no_space_on_device = ENOSPC"
| "errc_value errc_no_stream_resources = ENOSR"
| "errc_value errc_no_such_device_or_address = ENXIO"
| "errc_value errc_no_such_device = ENODEV"
| "errc_value errc_no_such_file_or_directory = ENOENT"
| "errc_value errc_no_such_process = ESRCH"
| "errc_value errc_not_a_directory = ENOTDIR"
| "errc_value errc_not_a_socket = ENOTSOCK"
| "errc_value errc_not_a_stream = ENOSTR"
| "errc_value errc_not_connected = ENOTCONN"
| "errc_value errc_not_enough_memory = ENOMEM"
| "errc_value errc_not_supported = ENOTSUP"
| "errc_value errc_operation_canceled = ECANCELED"
| "errc_value errc_operation_in_progress = EINPROGRESS"
| "errc_value errc_operation_not_permitted = EPERM"
| "errc_value errc_operation_not_supported = EOPNOTSUPP"
| "errc_value errc_operation_would_block = EWOULDBLOCK"
| "errc_value errc_owner_dead = EOWNERDEAD"
| "errc_value errc_permission_denied = EACCES"
| "errc_value errc_protocol_error = EPROTO"
| "errc_value errc_protocol_not_supported = EPROTONOSUPPORT"
| "errc_value errc_read_only_file_system = EROFS"
| "errc_value errc_resource_deadlock_would_occur = EDEADLK"
| "errc_value errc_resource_unavailable_try_again = EAGAIN"
| "errc_value errc_result_out_of_range = ERANGE"
| "errc_value errc_state_not_recoverable = ENOTRECOVERABLE"
| "errc_value errc_stream_timeout = ETIME"
| "errc_value errc_text_file_busy = ETXTBSY"
| "errc_value errc_timed_out = ETIMEDOUT"
| "errc_value errc_too_many_files_open_in_system = ENFILE"
| "errc_value errc_too_many_files_open = EMFILE"
| "errc_value errc_too_many_links = EMLINK"
| "errc_value errc_too_many_symbolic_link_levels = ELOOP"
| "errc_value errc_value_too_large = EOVERFLOW"
| "errc_value errc_wrong_protocol_type = EPROTOTYPE"

datatype (plugins only:) sys_err_t =
    sys_err_success
  | sys_err_advertise_error
  | sys_err_bad_exchange
  | sys_err_bad_file_number
  | sys_err_bad_font_format
  | sys_err_bad_request_code
  | sys_err_bad_request_descriptor
  | sys_err_bad_slot
  | sys_err_channel_range
  | sys_err_communication_error
  | sys_err_dot_dot_error
  | sys_err_exchange_full
  | sys_err_host_down
  | sys_err_is_named_file_type
  | sys_err_key_expired
  | sys_err_key_rejected
  | sys_err_key_revoked
  | sys_err_level2_halt
  | sys_err_level2_no_syncronized
  | sys_err_level3_halt
  | sys_err_level3_reset
  | sys_err_link_range
  | sys_err_medium_type
  | sys_err_no_anode
  | sys_err_no_block_device
  | sys_err_no_csi
  | sys_err_no_key
  | sys_err_no_medium
  | sys_err_no_network
  | sys_err_no_package
  | sys_err_not_avail
  | sys_err_not_named_file_type
  | sys_err_not_recoverable
  | sys_err_not_unique
  | sys_err_owner_dead
  | sys_err_protocol_no_supported
  | sys_err_remote_address_changed
  | sys_err_remote_io_error
  | sys_err_remote_object
  | sys_err_restart_needed
  | sys_err_shared_library_access
  | sys_err_shared_library_bad
  | sys_err_shared_library_execute
  | sys_err_shared_library_max
  | sys_err_shared_library_section
  | sys_err_shutdown
  | sys_err_socket_type_not_supported
  | sys_err_srmount_error
  | sys_err_stream_pipe_error
  | sys_err_too_many_references
  | sys_err_too_many_users
  | sys_err_unattached
  | sys_err_unclean

fun sys_err_value :: "sys_err_t \<Rightarrow> int" where
  "sys_err_value sys_err_success = ESUCCESS"
| "sys_err_value sys_err_advertise_error = EADV"
| "sys_err_value sys_err_bad_exchange = EBADE"
| "sys_err_value sys_err_bad_file_number = EBADFD"
| "sys_err_value sys_err_bad_font_format = EBFONT"
| "sys_err_value sys_err_bad_request_code = EBADRQC"
| "sys_err_value sys_err_bad_request_descriptor = EBADR"
| "sys_err_value sys_err_bad_slot = EBADSLT"
| "sys_err_value sys_err_channel_range = ECHRNG"
| "sys_err_value sys_err_communication_error = ECOMM"
| "sys_err_value sys_err_dot_dot_error = EDOTDOT"
| "sys_err_value sys_err_exchange_full = EXFULL"
| "sys_err_value sys_err_host_down = EHOSTDOWN"
| "sys_err_value sys_err_is_named_file_type = EISNAM"
| "sys_err_value sys_err_key_expired = EKEYEXPIRED"
| "sys_err_value sys_err_key_rejected = EKEYREJECTED"
| "sys_err_value sys_err_key_revoked = EKEYREVOKED"
| "sys_err_value sys_err_level2_halt = EL2HLT"
| "sys_err_value sys_err_level2_no_syncronized = EL2NSYNC"
| "sys_err_value sys_err_level3_halt = EL3HLT"
| "sys_err_value sys_err_level3_reset = EL3RST"
| "sys_err_value sys_err_link_range = ELNRNG"
| "sys_err_value sys_err_medium_type = EMEDIUMTYPE"
| "sys_err_value sys_err_no_anode = ENOANO"
| "sys_err_value sys_err_no_block_device = ENOTBLK"
| "sys_err_value sys_err_no_csi = ENOCSI"
| "sys_err_value sys_err_no_key = ENOKEY"
| "sys_err_value sys_err_no_medium = ENOMEDIUM"
| "sys_err_value sys_err_no_network = ENONET"
| "sys_err_value sys_err_no_package = ENOPKG"
| "sys_err_value sys_err_not_avail = ENAVAIL"
| "sys_err_value sys_err_not_named_file_type = ENOTNAM"
| "sys_err_value sys_err_not_recoverable = ENOTRECOVERABLE"
| "sys_err_value sys_err_not_unique = ENOTUNIQ"
| "sys_err_value sys_err_owner_dead = EOWNERDEAD"
| "sys_err_value sys_err_protocol_no_supported = EPFNOSUPPORT"
| "sys_err_value sys_err_remote_address_changed = EREMCHG"
| "sys_err_value sys_err_remote_io_error = EREMOTEIO"
| "sys_err_value sys_err_remote_object = EREMOTE"
| "sys_err_value sys_err_restart_needed = ERESTART"
| "sys_err_value sys_err_shared_library_access = ELIBACC"
| "sys_err_value sys_err_shared_library_bad = ELIBBAD"
| "sys_err_value sys_err_shared_library_execute = ELIBEXEC"
| "sys_err_value sys_err_shared_library_max = ELIBMAX"
| "sys_err_value sys_err_shared_library_section = ELIBSCN"
| "sys_err_value sys_err_shutdown = ESHUTDOWN"
| "sys_err_value sys_err_socket_type_not_supported = ESOCKTNOSUPPORT"
| "sys_err_value sys_err_srmount_error = ESRMNT"
| "sys_err_value sys_err_stream_pipe_error = ESTRPIPE"
| "sys_err_value sys_err_too_many_references = ETOOMANYREFS"
| "sys_err_value sys_err_too_many_users = EUSERS"
| "sys_err_value sys_err_unattached = EUNATCH"
| "sys_err_value sys_err_unclean = EUCLEAN"

datatype future_errc_t = broken_promise | promise_already_satisfied | no_state

fun future_errc_value :: "future_errc_t \<Rightarrow> int" where
  "future_errc_value broken_promise = 0"
| "future_errc_value promise_already_satisfied = 1"
| "future_errc_value no_state = 2"

section \<open>Codes, conditions, categories\<close>

datatype category = GenericCategory | SystemCategory | FutureCategory | UserCategory nat

record ErrorCode =
  ec_value :: int
  ec_category :: category

record ErrorCondition =
  en_value :: int
  en_category :: category

definition mk_code :: "int \<Rightarrow> category \<Rightarrow> ErrorCode" where
  "mk_code v c = \<lparr>ec_value = v, ec_category = c\<rparr>"

definition mk_condition :: "int \<Rightarrow> category \<Rightarrow> ErrorCondition" where
  "mk_condition v c = \<lparr>en_value = v, en_category = c\<rparr>"

definition ErrorCode_default :: ErrorCode where
  "ErrorCode_default = mk_code (sys_err_value sys_err_success) SystemCategory"

definition ErrorCode_Clear :: "ErrorCode \<Rightarrow> ErrorCode" where
  "ErrorCode_Clear e = e\<lparr>ec_value := sys_err_value sys_err_success, ec_category := SystemCategory\<rparr>"

definition ErrorCode_Assign :: "int \<Rightarrow> category \<Rightarrow> ErrorCode \<Rightarrow> ErrorCode" where
  "ErrorCode_Assign v c e = e\<lparr>ec_value := v, ec_category := c\<rparr>"

text \<open>The conversion to bool (a null member pointer is false) and \<open>operator!\<close>.\<close>

definition ErrorCode_bool :: "ErrorCode \<Rightarrow> bool" where
  "ErrorCode_bool e = (if ec_value e = sys_err_value sys_err_success then False else True)"

definition ErrorCode_not :: "ErrorCode \<Rightarrow> bool" where
  "ErrorCode_not e = (ec_value e = sys_err_value sys_err_success)"

definition ErrorCondition_default :: ErrorCondition where
  "ErrorCondition_default = mk_condition (errc_value errc_success) GenericCategory"

definition ErrorCondition_Clear :: "ErrorCondition \<Rightarrow> ErrorCondition" where
  "ErrorCondition_Clear e = e\<lparr>en_value := errc_value errc_success, en_category := GenericCategory\<rparr>"

definition ErrorCondition_Assign :: "int \<Rightarrow> category \<Rightarrow> ErrorCondition \<Rightarrow> ErrorCondition" where
  "ErrorCondition_Assign v c e = e\<lparr>en_value := v, en_category := c\<rparr>"

definition ErrorCondition_bool :: "ErrorCondition \<Rightarrow> bool" where
  "ErrorCondition_bool e = (if en_value e = errc_value errc_success then False else True)"

definition ErrorCondition_not :: "ErrorCondition \<Rightarrow> bool" where
  "ErrorCondition_not e = (en_value e = errc_value errc_success)"

definition sys_err_MakeErrorCode :: "sys_err_t \<Rightarrow> ErrorCode" where
  "sys_err_MakeErrorCode s = mk_code (sys_err_value s) SystemCategory"

definition errc_MakeErrorCode :: "errc_t \<Rightarrow> ErrorCode" where
  "errc_MakeErrorCode c = mk_code (errc_value c) GenericCategory"

definition MakeSystemErrorCode :: "int \<Rightarrow> ErrorCode" where
  "MakeSystemErrorCode v = mk_code v SystemCategory"

definition future_MakeErrorCode :: "future_errc_t \<Rightarrow> ErrorCode" where
  "future_MakeErrorCode f = mk_code (future_errc_value f) FutureCategory"

definition future_MakeErrorCondition :: "future_errc_t \<Rightarrow> ErrorCondition" where
  "future_MakeErrorCondition f = mk_condition (future_errc_value f) FutureCategory"

definition MakeErrorCondition :: "errc_t \<Rightarrow> ErrorCondition" where
  "MakeErrorCondition c = mk_condition (errc_value c) GenericCategory"

definition MakeGenericErrorCondition :: "int \<Rightarrow> ErrorCondition" where
  "MakeGenericErrorCondition v = mk_condition v GenericCategory"

section \<open>Default conditions\<close>

text \<open>The switch of \<open>SystemErrorCategory::GetDefaultErrorCondition\<close>, one entry per case.  The two
  cases whose labels coincide with another one on Linux (\<open>EWOULDBLOCK\<close>, \<open>EOPNOTSUPP\<close>) are removed
  by the preprocessor.\<close>

definition default_condition_table :: "(int \<times> errc_t) list" where
  "default_condition_table =
   [(ESUCCESS, errc_success),
    (E2BIG, errc_argument_list_too_long),
    (EACCES, errc_permission_denied),
    (EADDRINUSE, errc_address_in_use),
    (EADDRNOTAVAIL, errc_address_not_available),
    (EAFNOSUPPORT, errc_address_family_not_supported),
    (EAGAIN, errc_resource_unavailable_try_again),
    (EALREADY, errc_connection_already_in_progress),
    (EBADF, errc_bad_file_descriptor),
    (EBADMSG, errc_bad_message),
    (EBUSY, errc_device_or_resource_busy),
    (ECANCELED, errc_operation_canceled),
    (ECHILD, errc_no_child_process),
    (ECONNABORTED, errc_connection_aborted),
    (ECONNREFUSED, errc_connection_refused),
    (ECONNRESET, errc_connection_reset),
    (EDEADLK, errc_resource_deadlock_would_occur),
    (EDESTADDRREQ, errc_destination_address_required),
    (EDOM, errc_argument_out_of_domain),
    (EEXIST, errc_file_exists),
    (EFAULT, errc_bad_address),
    (EFBIG, errc_file_too_large),
    (EHOSTUNREACH, errc_host_unreachable),
    (EIDRM, errc_identifier_removed),
    (EILSEQ, errc_illegal_byte_sequence),
    (EINPROGRESS, errc_operation_in_progress),
    (EINTR, errc_interrupted),
    (EINVAL, errc_invalid_argument),
    (EIO, errc_io_error),
    (EISCONN, errc_already_connected),
    (EISDIR, errc_is_a_directory),
    (ELOOP, errc_too_many_symbolic_link_levels),
    (EMFILE, errc_too_many_files_open),
    (EMLINK, errc_too_many_links),
    (EMSGSIZE, errc_message_size),
    (ENAMETOOLONG, errc_filename_too_long),
    (ENETDOWN, errc_network_down),
    (ENETRESET, errc_network_reset),
    (ENETUNREACH, errc_network_unreachable),
    (ENFILE, errc_too_many_files_open_in_system),
    (ENOBUFS, errc_no_buffer_space),
    (ENODATA, errc_no_message_available),
    (ENODEV, errc_no_such_device),
    (ENOENT, errc_no_such_file_or_directory),
    (ENOEXEC, errc_executable_format_error),
    (ENOLCK, errc_no_lock_available),
    (ENOLINK, errc_no_link),
    (ENOMEM, errc_not_enough_memory),
    (ENOMSG, errc_no_message),
    (ENOPROTOOPT, errc_no_protocol_option),
    (ENOSPC, errc_no_space_on_device),
    (ENOSR, errc_no_stream_resources),
    (ENOSTR, errc_not_a_stream),
    (ENOSYS, errc_function_not_supported),
    (ENOTCONN, errc_not_connected),
    (ENOTDIR, errc_not_a_directory),
    (ENOTEMPTY, errc_directory_not_empty),
    (ENOTRECOVERABLE, errc_state_not_recoverable),
    (ENOTSOCK, errc_not_a_socket),
    (ENOTSUP, errc_not_supported),
    (ENOTTY, errc_inappropriate_io_control_operation),
    (ENXIO, errc_no_such_device_or_address),
    (EOVERFLOW, errc_value_too_large),
    (EOWNERDEAD, errc_owner_dead),
    (EPERM, errc_operation_not_permitted),
    (EPIPE, errc_broken_pipe),
    (EPROTO, errc_protocol_error),
    (EPROTONOSUPPORT, errc_protocol_not_supported),
    (EPROTOTYPE, errc_wrong_protocol_type),
    (ERANGE, errc_result_out_of_range),
    (EROFS, errc_read_only_file_system),
    (ESPIPE, errc_invalid_seek),
    (ESRCH, errc_no_such_process),
    (ETIME, errc_stream_timeout),
    (ETIMEDOUT, errc_timed_out),
    (ETXTBSY, errc_text_file_busy),
    (EXDEV, errc_cross_device_link)]"

definition System_GetDefaultErrorCondition :: "int \<Rightarrow> ErrorCondition" where
  "System_GetDefaultErrorCondition v = (case map_of default_condition_table v of
      Some c \<Rightarrow> MakeErrorCondition c
    | None \<Rightarrow> mk_condition v SystemCategory)"

text \<open>The virtual call: the base class version is overridden by the system category only.\<close>

definition GetDefaultErrorCondition :: "category \<Rightarrow> int \<Rightarrow> ErrorCondition" where
  "GetDefaultErrorCondition c v =
     (if c = SystemCategory then System_GetDefaultErrorCondition v else mk_condition v c)"

definition ErrorCode_GetDefaultErrorCondition :: "ErrorCode \<Rightarrow> ErrorCondition" where
  "ErrorCode_GetDefaultErrorCondition e = GetDefaultErrorCondition (ec_category e) (ec_value e)"

section \<open>Comparisons\<close>

definition ErrorCondition_eq :: "ErrorCondition \<Rightarrow> ErrorCondition \<Rightarrow> bool" where
  "ErrorCondition_eq l r = (en_category l = en_category r \<and> en_value l = en_value r)"

definition ErrorCondition_less :: "(category \<Rightarrow> nat) \<Rightarrow> ErrorCondition \<Rightarrow> ErrorCondition \<Rightarrow> bool" where
  "ErrorCondition_less addr l r = (addr (en_category l) < addr (en_category r)
     \<or> en_category l = en_category r \<and> en_value l < en_value r)"

definition ErrorCode_eq :: "ErrorCode \<Rightarrow> ErrorCode \<Rightarrow> bool" where
  "ErrorCode_eq l r = (ec_category l = ec_category r \<and> ec_value l = ec_value r)"

definition ErrorCode_less :: "(category \<Rightarrow> nat) \<Rightarrow> ErrorCode \<Rightarrow> ErrorCode \<Rightarrow> bool" where
  "ErrorCode_less addr l r = (addr (ec_category l) < addr (ec_category r)
     \<or> ec_category l = ec_category r \<and> ec_value l < ec_value r)"

text \<open>The two overloads of \<open>ErrorCategory::IsEquivalent\<close>.\<close>

definition IsEquivalent_cond :: "category \<Rightarrow> int \<Rightarrow> ErrorCondition \<Rightarrow> bool" where
  "IsEquivalent_cond c code condition = ErrorCondition_eq (GetDefaultErrorCondition c code) condition"

definition IsEquivalent_code :: "category \<Rightarrow> ErrorCode \<Rightarrow> int \<Rightarrow> bool" where
  "IsEquivalent_code c code condition = (c = ec_category code \<and> ec_value code = condition)"

text \<open>\<open>operator==(const ErrorCode&, const ErrorCondition&)\<close> and the mirrored overload.\<close>

definition ErrorCode_eq_cond :: "ErrorCode \<Rightarrow> ErrorCondition \<Rightarrow> bool" where
  "ErrorCode_eq_cond l r = (IsEquivalent_cond (ec_category l) (ec_value l) r
     \<or> IsEquivalent_code (en_category r) l (en_value r))"

definition ErrorCondition_eq_code :: "ErrorCondition \<Rightarrow> ErrorCode \<Rightarrow> bool" where
  "ErrorCondition_eq_code l r = (IsEquivalent_code (en_category l) r (en_value l)
     \<or> IsEquivalent_cond (ec_category r) (ec_value r) l)"

section \<open>Lemmas\<close>

lemmas code_defs = mk_code_def mk_condition_def ErrorCode_default_def ErrorCondition_default_def
  sys_err_MakeErrorCode_def errc_MakeErrorCode_def MakeSystemErrorCode_def future_MakeErrorCode_def
  future_MakeErrorCondition_def MakeErrorCondition_def MakeGenericErrorCondition_def

lemmas equiv_defs = ErrorCode_eq_cond_def ErrorCondition_eq_code_def IsEquivalent_cond_def
  IsEquivalent_code_def ErrorCondition_eq_def ErrorCode_eq_def GetDefaultErrorCondition_def

lemma table_values: "map (\<lambda>(v, c). errc_value c) default_condition_table = map fst default_condition_table"
  by (simp add: default_condition_table_def)

lemma table_complete: "errc_value c \<in> fst ` set default_condition_table"
  by (cases c) (simp_all add: default_condition_table_def)

lemma table_lookup: "map_of default_condition_table v = Some c \<Longrightarrow> errc_value c = v"
  using table_values by (auto dest!: map_of_SomeD simp: list_eq_iff_nth_eq in_set_conv_nth split: prod.splits)

lemma table_lookup_None: "map_of default_condition_table v = None \<longleftrightarrow> v \<notin> range errc_value"
proof
  assume "map_of default_condition_table v = None"
  then show "v \<notin> range errc_value" using table_complete by (auto simp: map_of_eq_None_iff)
next
  assume "v \<notin> range errc_value"
  then show "map_of default_condition_table v = None" using table_lookup by (metis not_None_eq rangeI)
qed

lemma System_default_spec:
  "System_GetDefaultErrorCondition v =
     mk_condition v (if v \<in> range errc_value then GenericCategory else SystemCategory)"
  by (auto simp: System_GetDefaultErrorCondition_def code_defs table_lookup_None table_lookup
      split: option.split)

lemma ErrorCode_eq_iff [simp]: "ErrorCode_eq l r \<longleftrightarrow> l = r"
  by (auto simp: ErrorCode_eq_def)

lemma ErrorCondition_eq_iff [simp]: "ErrorCondition_eq l r \<longleftrightarrow> l = r"
  by (auto simp: ErrorCondition_eq_def)

section \<open>Properties\<close>

text \<open>A system error code equals the condition of a generic error exactly when
  it carries the same \<open>errno\<close> value: the table of default conditions covers every enumerator of
  \<open>errc_t\<close> and maps no code to a foreign condition.\<close>

theorem system_code_eq_condition_iff:
  "ErrorCode_eq_cond (MakeSystemErrorCode v) (MakeErrorCondition c) \<longleftrightarrow> v = errc_value c"
  by (auto simp: equiv_defs code_defs System_default_spec)

text \<open>Code/condition equality: both overloads agree, a code equals its own default condition, and across
  categories equality is decided by the default condition or by an exact match of category and
  value.\<close>

theorem code_condition_equality:
  "ErrorCode_eq_cond e n = ErrorCondition_eq_code n e
   \<and> ErrorCode_eq_cond e (ErrorCode_GetDefaultErrorCondition e)
   \<and> (ErrorCode_eq_cond e n \<longleftrightarrow> en_value n = ec_value e \<and>
        (en_category n = ec_category e \<or>
         ec_category e = SystemCategory \<and> en_category n = GenericCategory \<and> ec_value e \<in> range errc_value))"
  by (cases e; cases n) (auto simp: equiv_defs code_defs System_default_spec ErrorCode_GetDefaultErrorCondition_def)

text \<open>\<open>operator<\<close> on error codes is a strict total order compatible with \<open>operator==\<close>, for
  any placement of the category objects at distinct addresses.\<close>

theorem ErrorCode_less_strict_total:
  assumes "inj addr"
  shows "\<not> ErrorCode_less addr a a
    \<and> (ErrorCode_less addr a b \<and> ErrorCode_less addr b c \<longrightarrow> ErrorCode_less addr a c)
    \<and> (ErrorCode_less addr a b \<or> ErrorCode_less addr b a \<or> ErrorCode_eq a b)
    \<and> (ErrorCode_less addr a b \<longrightarrow> \<not> ErrorCode_eq a b)"
proof -
  have *: "ErrorCode_less addr x y \<longleftrightarrow> addr (ec_category x) < addr (ec_category y)
      \<or> addr (ec_category x) = addr (ec_category y) \<and> ec_value x < ec_value y" for x y
    using assms by (auto simp: ErrorCode_less_def dest: injD)
  have eq: "ErrorCode_eq x y \<longleftrightarrow> addr (ec_category x) = addr (ec_category y) \<and> ec_value x = ec_value y" for x y
    using assms by (auto simp only: ErrorCode_eq_def dest: injD)
  show ?thesis
    unfolding * eq by auto
qed

text \<open>A placement of the categories, for the witness of the order.\<close>

fun example_addr :: "category \<Rightarrow> nat" where
  "example_addr GenericCategory = 0"
| "example_addr SystemCategory = 1"
| "example_addr FutureCategory = 2"
| "example_addr (UserCategory n) = n + 3"

lemma inj_example_addr: "inj example_addr"
proof (rule injI)
  fix x y assume "example_addr x = example_addr y"
  then show "x = y" by (cases x; cases y) auto
qed

theorem ErrorCode_less_strict_total_witness:
  "ErrorCode_less example_addr (errc_MakeErrorCode errc_io_error) (MakeSystemErrorCode 1)
   \<and> \<not> ErrorCode_eq (errc_MakeErrorCode errc_io_error) (MakeSystemErrorCode 1)"
proof -
  have "ErrorCode_less example_addr (errc_MakeErrorCode errc_io_error) (MakeSystemErrorCode 1)"
    by (simp add: ErrorCode_less_def code_defs)
  then show ?thesis
    using ErrorCode_less_strict_total[OF inj_example_addr] by blast
qed

end
