(* ===== verification/Exceptions.thy ===== *)
theory Exceptions
imports ErrorCodes
begin

text \<open>
  The exception hierarchy and the two translations between exceptions and \<open>errno\<close>
  (\<open>src/util/throw_exception_from_errno.cpp\<close>, \<open>src/util/set_errno_from_exception.cpp\<close>).

  An exception object is its dynamic class and, for the classes that derive from
  \<open>SystemException\<close> (and \<open>std::system_error\<close>), its error code; texts, throw points and stack traces
  are left out.  \<open>class_bases\<close> is the list of direct bases of each class as its header declares them,
  and a handler \<open>catch (const C&)\<close> accepts an object when \<open>C\<close> is reachable from its class.
\<close>

datatype exc_class =
    Exception | UnknownException | BadCastException | BadAnyCastException | BadOptionalAccessException
  | LogicException | DomainException | InvalidArgumentException | LengthException | OutOfRangeException
  | FutureException | NullPointerException | InvalidStateException | EmptyArgumentException | NullArgumentException
  | RuntimeException | RangeException | OverflowException | UnderflowException
  | InvalidStringConversionException | DBusException | DynamicLoaderException
  | SystemException | LockException | DeadlockException | ThreadException | ThreadInterruptedException
  | TaskCanceledException | IosFailureException | FilesystemException | NoSuchFileOrDirectoryException
  | std_exception | std_bad_alloc | std_logic_error | std_invalid_argument | std_runtime_error
  | std_system_error | std_ios_failure
  | not_an_exception_class

fun class_bases :: "exc_class \<Rightarrow> exc_class list" where
  "class_bases Exception = [std_exception]"
| "class_bases UnknownException = [Exception]"
| "class_bases BadCastException = [Exception]"
| "class_bases BadAnyCastException = [BadCastException]"
| "class_bases BadOptionalAccessException = [Exception]"
| "class_bases LogicException = [Exception]"
| "class_bases DomainException = [LogicException]"
| "class_bases InvalidArgumentException = [LogicException]"
| "class_bases LengthException = [LogicException]"
| "class_bases OutOfRangeException = [LogicException]"
| "class_bases FutureException = [LogicException]"
| "class_bases NullPointerException = [LogicException]"
| "class_bases InvalidStateException = [LogicException]"
| "class_bases EmptyArgumentException = [InvalidArgumentException]"
| "class_bases NullArgumentException = [LogicException, NullPointerException, InvalidArgumentException]"
| "class_bases RuntimeException = [Exception]"
| "class_bases RangeException = [RuntimeException]"
| "class_bases OverflowException = [RuntimeException]"
| "class_bases UnderflowException = [RuntimeException]"
| "class_bases InvalidStringConversionException = [RuntimeException]"
| "class_bases DBusException = [RuntimeException]"
| "class_bases DynamicLoaderException = [RuntimeException]"
| "class_bases SystemException = [RuntimeException]"
| "class_bases LockException = [SystemException]"
| "class_bases DeadlockException = [LockException]"
| "class_bases ThreadException = [SystemException]"
| "class_bases ThreadInterruptedException = [ThreadException]"
| "class_bases TaskCanceledException = [SystemException]"
| "class_bases IosFailureException = [SystemException]"
| "class_bases FilesystemException = [IosFailureException]"
| "class_bases NoSuchFileOrDirectoryException = [FilesystemException]"
| "class_bases std_exception = []"
| "class_bases std_bad_alloc = [std_exception]"
| "class_bases std_logic_error = [std_exception]"
| "class_bases std_invalid_argument = [std_logic_error]"
| "class_bases std_runtime_error = [std_exception]"
| "class_bases std_system_error = [std_runtime_error]"
| "class_bases std_ios_failure = [std_system_error]"
| "class_bases not_an_exception_class = []"

text \<open>The depth of a class below the roots, the measure of the search through its bases.\<close>

fun class_depth :: "exc_class \<Rightarrow> nat" where
  "class_depth Exception = 1"
| "class_depth UnknownException = 2"
| "class_depth BadCastException = 2"
| "class_depth BadAnyCastException = 3"
| "class_depth BadOptionalAccessException = 2"
| "class_depth LogicException = 2"
| "class_depth DomainException = 3"
| "class_depth InvalidArgumentException = 3"
| "class_depth LengthException = 3"
| "class_depth OutOfRangeException = 3"
| "class_depth FutureException = 3"
| "class_depth NullPointerException = 3"
| "class_depth InvalidStateException = 3"
| "class_depth EmptyArgumentException = 4"
| "class_depth NullArgumentException = 4"
| "class_depth RuntimeException = 2"
| "class_depth RangeException = 3"
| "class_depth OverflowException = 3"
| "class_depth UnderflowException = 3"
| "class_depth InvalidStringConversionException = 3"
| "class_depth DBusException = 3"
| "class_depth DynamicLoaderException = 3"
| "class_depth SystemException = 3"
| "class_depth LockException = 4"
| "class_depth DeadlockException = 5"
| "class_depth ThreadException = 4"
| "class_depth ThreadInterruptedException = 5"
| "class_depth TaskCanceledException = 4"
| "class_depth IosFailureException = 4"
| "class_depth FilesystemException = 5"
| "class_depth NoSuchFileOrDirectoryException = 6"
| "class_depth std_exception = 0"
| "class_depth std_bad_alloc = 1"
| "class_depth std_logic_error = 1"
| "class_depth std_invalid_argument = 2"
| "class_depth std_runtime_error = 1"
| "class_depth std_system_error = 2"
| "class_depth std_ios_failure = 3"
| "class_depth not_an_exception_class = 0"

lemma class_depth_bases: "b \<in> set (class_bases c) \<Longrightarrow> class_depth b < class_depth c"
  by (cases c) auto

function derived_from :: "exc_class \<Rightarrow> exc_class \<Rightarrow> bool" where
  "derived_from c d = (c = d \<or> list_ex (\<lambda>b. derived_from b d) (class_bases c))"
  by pat_completeness auto
termination
  by (relation "measure (\<lambda>(c, d). class_depth c)") (auto intro: class_depth_bases)

declare derived_from.simps [simp del]

record exn =
  exn_class :: exc_class
  exn_code :: ErrorCode

definition mk_exn :: "exc_class \<Rightarrow> exn" where
  "mk_exn c = \<lparr>exn_class = c, exn_code = ErrorCode_default\<rparr>"

definition mk_exn_ec :: "exc_class \<Rightarrow> ErrorCode \<Rightarrow> exn" where
  "mk_exn_ec c e = \<lparr>exn_class = c, exn_code = e\<rparr>"

text \<open>The constructors that fix the code of the base class.\<close>

definition Deadlock :: exn where
  "Deadlock = mk_exn_ec DeadlockException (errc_MakeErrorCode errc_resource_deadlock_would_occur)"

definition TaskCanceled :: exn where
  "TaskCanceled = mk_exn_ec TaskCanceledException (errc_MakeErrorCode errc_operation_canceled)"

definition ThreadInterrupted :: exn where
  "ThreadInterrupted = mk_exn_ec ThreadInterruptedException (errc_MakeErrorCode errc_interrupted)"

definition IosFailure :: exn where
  "IosFailure = mk_exn_ec IosFailureException (errc_MakeErrorCode errc_io_error)"

definition NoSuchFileOrDirectory :: exn where
  "NoSuchFileOrDirectory = mk_exn_ec NoSuchFileOrDirectoryException (errc_MakeErrorCode errc_no_such_file_or_directory)"

definition LockExc :: "ErrorCode \<Rightarrow> exn" where "LockExc e = mk_exn_ec LockException e"
definition SystemExc :: "ErrorCode \<Rightarrow> exn" where "SystemExc e = mk_exn_ec SystemException e"
definition InvalidArgument :: exn where "InvalidArgument = mk_exn InvalidArgumentException"
definition LogicError :: exn where "LogicError = mk_exn LogicException"
definition bad_alloc :: exn where "bad_alloc = mk_exn std_bad_alloc"

section \<open>Catch clauses\<close>

text \<open>The first handler whose class the object derives from runs; \<open>catch (...)\<close> is the default.\<close>

fun dispatch :: "(exc_class \<times> (exn \<Rightarrow> 'a)) list \<Rightarrow> (exn \<Rightarrow> 'a) \<Rightarrow> exn \<Rightarrow> 'a" where
  "dispatch [] dflt e = dflt e"
| "dispatch ((c, h) # hs) dflt e = (if derived_from (exn_class e) c then h e else dispatch hs dflt e)"

section \<open>ThrowExceptionFromErrNo\<close>

definition ThrowExceptionFromErrNo :: "int \<Rightarrow> exn" where
  "ThrowExceptionFromErrNo errNo =
     (if \<not> (errNo \<noteq> ESUCCESS) then InvalidArgument
      else let kErrorCode = mk_code errNo SystemCategory in
        if errNo = ESUCCESS then InvalidArgument
        else if errNo = EDEADLK then Deadlock
        else if errNo = ECANCELED then TaskCanceled
        else if errNo = ENOENT then NoSuchFileOrDirectory
        else if errNo = EIO then IosFailure
        else if errNo = EINVAL then InvalidArgument
        else if errNo = ENOMEM then bad_alloc
        else if errNo = ENODATA then mk_exn RuntimeException
        else SystemExc kErrorCode)"

section \<open>SetErrNoFromException\<close>

text \<open>The handlers for \<open>SystemException\<close> and \<open>std::system_error\<close>: the value of a generic or system
  code, else the value of its default condition when that is generic or system, else (and when the
  value is zero) \<open>ENODATA\<close>.\<close>

definition errno_of_code :: "ErrorCode \<Rightarrow> int" where
  "errno_of_code kErrorCode =
     (let errCodeErrNo =
        (if ec_category kErrorCode = GenericCategory \<or> ec_category kErrorCode = SystemCategory
         then ec_value kErrorCode
         else let kErrorCondition = ErrorCode_GetDefaultErrorCondition kErrorCode in
           if en_category kErrorCondition = GenericCategory \<or> en_category kErrorCondition = SystemCategory
           then en_value kErrorCondition else ESUCCESS)
      in if errCodeErrNo \<noteq> ESUCCESS then errCodeErrNo else ENODATA)"

definition SetErrNo_handlers :: "(exc_class \<times> (exn \<Rightarrow> int)) list" where
  "SetErrNo_handlers =
    [(DeadlockException, \<lambda>_. EDEADLK),
     (TaskCanceledException, \<lambda>_. ECANCELED),
     (NoSuchFileOrDirectoryException, \<lambda>_. ENOENT),
     (IosFailureException, \<lambda>_. EIO),
     (SystemException, \<lambda>e. errno_of_code (exn_code e)),
     (RuntimeException, \<lambda>_. ENODATA),
     (InvalidArgumentException, \<lambda>_. EINVAL),
     (LogicException, \<lambda>_. EINVAL),
     (Exception, \<lambda>_. ENODATA),
     (std_ios_failure, \<lambda>_. EIO),
     (std_system_error, \<lambda>e. errno_of_code (exn_code e)),
     (std_runtime_error, \<lambda>_. ENODATA),
     (std_invalid_argument, \<lambda>_. EINVAL),
     (std_logic_error, \<lambda>_. EINVAL),
     (std_bad_alloc, \<lambda>_. ENOMEM),
     (std_exception, \<lambda>_. ENODATA)]"

text \<open>The new value of \<open>errno\<close> for the exception being handled.\<close>

definition SetErrNoFromException :: "exn \<Rightarrow> int" where
  "SetErrNoFromException e = dispatch SetErrNo_handlers (\<lambda>_. ENODATA) e"

section \<open>Lemmas\<close>

lemmas exn_defs = mk_exn_def mk_exn_ec_def Deadlock_def TaskCanceled_def ThreadInterrupted_def IosFailure_def
  NoSuchFileOrDirectory_def LockExc_def SystemExc_def InvalidArgument_def LogicError_def bad_alloc_def

text \<open>The superclasses of every class, computed once from the bases.\<close>

fun superclasses :: "exc_class \<Rightarrow> exc_class set" where
  "superclasses c = {d. derived_from c d}"

declare superclasses.simps [simp del]

lemma superclasses_rec: "superclasses c = insert c (\<Union>b \<in> set (class_bases c). superclasses b)"
proof (rule set_eqI)
  fix d
  have "derived_from c d \<longleftrightarrow> c = d \<or> (\<exists>b \<in> set (class_bases c). derived_from b d)"
    by (subst derived_from.simps) (simp add: list_ex_iff)
  then show "d \<in> superclasses c \<longleftrightarrow> d \<in> insert c (\<Union>b \<in> set (class_bases c). superclasses b)"
    by (auto simp: superclasses.simps)
qed

lemma derived_from_iff: "derived_from c d \<longleftrightarrow> d \<in> superclasses c"
  by (simp add: superclasses.simps)

text \<open>The equations are proved from the roots down, each from those of its direct bases.\<close>

lemma superclasses_0 [simp]:
  "superclasses std_exception = {std_exception}"
  "superclasses not_an_exception_class = {not_an_exception_class}"
  by (simp_all add: superclasses_rec[of std_exception] superclasses_rec[of not_an_exception_class] insert_commute)

lemma superclasses_1 [simp]:
  "superclasses Exception = {Exception, std_exception}"
  "superclasses std_bad_alloc = {std_bad_alloc, std_exception}"
  "superclasses std_logic_error = {std_logic_error, std_exception}"
  "superclasses std_runtime_error = {std_runtime_error, std_exception}"
  by (simp_all add: superclasses_rec[of Exception] superclasses_rec[of std_bad_alloc] superclasses_rec[of std_logic_error] superclasses_rec[of std_runtime_error] insert_commute)

lemma superclasses_2 [simp]:
  "superclasses UnknownException = {UnknownException, Exception, std_exception}"
  "superclasses BadCastException = {BadCastException, Exception, std_exception}"
  "superclasses BadOptionalAccessException = {BadOptionalAccessException, Exception, std_exception}"
  "superclasses LogicException = {LogicException, Exception, std_exception}"
  "superclasses RuntimeException = {RuntimeException, Exception, std_exception}"
  "superclasses std_invalid_argument = {std_invalid_argument, std_logic_error, std_exception}"
  "superclasses std_system_error = {std_system_error, std_runtime_error, std_exception}"
  by (simp_all add: superclasses_rec[of UnknownException] superclasses_rec[of BadCastException] superclasses_rec[of BadOptionalAccessException] superclasses_rec[of LogicException] superclasses_rec[of RuntimeException] superclasses_rec[of std_invalid_argument] superclasses_rec[of std_system_error] insert_commute)

lemma superclasses_3 [simp]:
  "superclasses BadAnyCastException = {BadAnyCastException, BadCastException, Exception, std_exception}"
  "superclasses DomainException = {DomainException, LogicException, Exception, std_exception}"
  "superclasses InvalidArgumentException = {InvalidArgumentException, LogicException, Exception, std_exception}"
  "superclasses LengthException = {LengthException, LogicException, Exception, std_exception}"
  "superclasses OutOfRangeException = {OutOfRangeException, LogicException, Exception, std_exception}"
  "superclasses FutureException = {FutureException, LogicException, Exception, std_exception}"
  "superclasses NullPointerException = {NullPointerException, LogicException, Exception, std_exception}"
  "superclasses InvalidStateException = {InvalidStateException, LogicException, Exception, std_exception}"
  "superclasses RangeException = {RangeException, RuntimeException, Exception, std_exception}"
  "superclasses OverflowException = {OverflowException, RuntimeException, Exception, std_exception}"
  "superclasses UnderflowException = {UnderflowException, RuntimeException, Exception, std_exception}"
  "superclasses InvalidStringConversionException = {InvalidStringConversionException, RuntimeException, Exception, std_exception}"
  "superclasses DBusException = {DBusException, RuntimeException, Exception, std_exception}"
  "superclasses DynamicLoaderException = {DynamicLoaderException, RuntimeException, Exception, std_exception}"
  "superclasses SystemException = {SystemException, RuntimeException, Exception, std_exception}"
  "superclasses std_ios_failure = {std_ios_failure, std_system_error, std_runtime_error, std_exception}"
  by (simp_all add: superclasses_rec[of BadAnyCastException] superclasses_rec[of DomainException] superclasses_rec[of InvalidArgumentException] superclasses_rec[of LengthException] superclasses_rec[of OutOfRangeException] superclasses_rec[of FutureException] superclasses_rec[of NullPointerException] superclasses_rec[of InvalidStateException] superclasses_rec[of RangeException] superclasses_rec[of OverflowException] superclasses_rec[of UnderflowException] superclasses_rec[of InvalidStringConversionException] superclasses_rec[of DBusException] superclasses_rec[of DynamicLoaderException] superclasses_rec[of SystemException] superclasses_rec[of std_ios_failure] insert_commute)

lemma superclasses_4 [simp]:
  "superclasses EmptyArgumentException = {EmptyArgumentException, InvalidArgumentException, LogicException, Exception, std_exception}"
  "superclasses NullArgumentException = {NullArgumentException, LogicException, Exception, std_exception, NullPointerException, InvalidArgumentException}"
  "superclasses LockException = {LockException, SystemException, RuntimeException, Exception, std_exception}"
  "superclasses ThreadException = {ThreadException, SystemException, RuntimeException, Exception, std_exception}"
  "superclasses TaskCanceledException = {TaskCanceledException, SystemException, RuntimeException, Exception, std_exception}"
  "superclasses IosFailureException = {IosFailureException, SystemException, RuntimeException, Exception, std_exception}"
  by (simp_all add: superclasses_rec[of EmptyArgumentException] superclasses_rec[of NullArgumentException] superclasses_rec[of LockException] superclasses_rec[of ThreadException] superclasses_rec[of TaskCanceledException] superclasses_rec[of IosFailureException] insert_commute)

lemma superclasses_5 [simp]:
  "superclasses DeadlockException = {DeadlockException, LockException, SystemException, RuntimeException, Exception, std_exception}"
  "superclasses ThreadInterruptedException = {ThreadInterruptedException, ThreadException, SystemException, RuntimeException, Exception, std_exception}"
  "superclasses FilesystemException = {FilesystemException, IosFailureException, SystemException, RuntimeException, Exception, std_exception}"
  by (simp_all add: superclasses_rec[of DeadlockException] superclasses_rec[of ThreadInterruptedException] superclasses_rec[of FilesystemException] insert_commute)

lemma superclasses_6 [simp]:
  "superclasses NoSuchFileOrDirectoryException = {NoSuchFileOrDirectoryException, FilesystemException, IosFailureException, SystemException, RuntimeException, Exception, std_exception}"
  by (simp_all add: superclasses_rec[of NoSuchFileOrDirectoryException] insert_commute)

lemma errno_of_code_spec:
  "errno_of_code c = (if ec_category c \<in> {GenericCategory, SystemCategory} \<and> ec_value c \<noteq> ESUCCESS
     then ec_value c else ENODATA)"
  by (auto simp: errno_of_code_def Let_def ErrorCode_GetDefaultErrorCondition_def GetDefaultErrorCondition_def
      mk_condition_def)

section \<open>Properties\<close>

text \<open>C40: \<open>ThrowExceptionFromErrNo\<close> followed by \<open>SetErrNoFromException\<close> gives back every non-zero
  \<open>errno\<close>; the rejected zero comes back as \<open>EINVAL\<close>.\<close>

theorem errno_exception_round_trip:
  "SetErrNoFromException (ThrowExceptionFromErrNo n) = (if n = ESUCCESS then EINVAL else n)"
  by (auto simp: SetErrNoFromException_def SetErrNo_handlers_def ThrowExceptionFromErrNo_def Let_def exn_defs
      derived_from_iff errno_of_code_spec mk_code_def)

text \<open>For the exceptions of the \<open>SystemException\<close> family \<open>errno\<close> is the fixed value of the
  dedicated classes, \<open>EIO\<close> for every other I/O failure whatever its code, and otherwise the value of a
  non-zero generic or system code; a code of another category gives \<open>ENODATA\<close>.  No exception at all sets
  \<open>errno\<close> to zero.\<close>

theorem SetErrNo_spec:
  "SetErrNoFromException e \<noteq> ESUCCESS \<and>
   (derived_from (exn_class e) SystemException \<longrightarrow>
     SetErrNoFromException e =
       (if exn_class e = DeadlockException then EDEADLK
        else if exn_class e = TaskCanceledException then ECANCELED
        else if exn_class e = NoSuchFileOrDirectoryException then ENOENT
        else if derived_from (exn_class e) IosFailureException then EIO
        else if ec_category (exn_code e) \<in> {GenericCategory, SystemCategory} \<and> ec_value (exn_code e) \<noteq> ESUCCESS
        then ec_value (exn_code e) else ENODATA))"
  by (cases "exn_class e")
     (simp_all add: SetErrNoFromException_def SetErrNo_handlers_def derived_from_iff errno_of_code_spec)

theorem SetErrNo_spec_witness:
  "SetErrNoFromException (mk_exn_ec FilesystemException (errc_MakeErrorCode errc_no_space_on_device)) = EIO"
  using SetErrNo_spec[of "mk_exn_ec FilesystemException (errc_MakeErrorCode errc_no_space_on_device)"]
  by (simp add: mk_exn_ec_def derived_from_iff)

text \<open>The handlers are ordered from derived to base: none is shadowed by an earlier one.\<close>

theorem SetErrNo_handlers_unshadowed:
  "sorted_wrt (\<lambda>c d. \<not> derived_from d c) (map fst SetErrNo_handlers)"
  by (simp add: SetErrNo_handlers_def derived_from_iff)

end
