(* ===== verification/Optionals.thy ===== *)
theory Optionals
imports Exceptions "HOL-Library.Option_ord"
begin

text \<open>
  \<open>Optional<TValue>\<close> (\<open>include/cppdevtk/base/optional.hpp\<close>): a value on the heap behind a pointer.

  The state has the heap cells that hold values, the number of allocations made so far (the address of
  the next one), and the pointer \<open>pValue_\<close> of every \<open>Optional\<close> object.  Objects are numbers; object \<open>0\<close>
  is the local temporary of the assignments.  The parameter \<open>fail n\<close> says whether the n-th \<open>new
  TValue(value)\<close> throws (no memory, or the copy constructor of the value; the language frees the cell
  then), \<open>dtor_throws v\<close> whether the destructor of a value throws.  The model stops (\<open>Term\<close>) where the
  code calls \<open>terminate\<close> and where it would free a cell twice.

  The refinement: seen through \<open>opt_val\<close>, an object is a HOL option and every operation is the obvious
  one, and on the heap every cell has exactly one owner.
\<close>

record 'v opt_world =
  cells :: "nat \<Rightarrow> 'v option"
  allocs :: nat
  pValue :: "nat \<Rightarrow> nat option"

type_synonym ('v, 'a) opt_prog = "(exn, 'a, 'v opt_world) prog"

definition tmp :: nat where "tmp = 0"

definition bad_optional_access :: exn where "bad_optional_access = mk_exn BadOptionalAccessException"

definition new_value :: "(nat \<Rightarrow> exn option) \<Rightarrow> 'v \<Rightarrow> ('v, nat) opt_prog" where
  "new_value fail v = (\<lambda>w. case fail (allocs w) of
      Some e \<Rightarrow> Some (Exc e (w\<lparr>allocs := allocs w + 1\<rparr>))
    | None \<Rightarrow> Some (Ret (allocs w) (w\<lparr>cells := (cells w)(allocs w \<mapsto> v), allocs := allocs w + 1\<rparr>)))"

definition set_ptr :: "nat \<Rightarrow> nat option \<Rightarrow> ('v, unit) opt_prog" where
  "set_ptr i p = (\<lambda>w. Some (Ret () (w\<lparr>pValue := (pValue w)(i := p)\<rparr>)))"

definition get_ptr :: "nat \<Rightarrow> ('v, nat option) opt_prog" where
  "get_ptr i = (\<lambda>w. Some (Ret (pValue w i) w))"

text \<open>\<open>delete pValue_\<close> inside the \<open>try\<close> block, whose handlers end the program.\<close>

definition delete_value :: "('v \<Rightarrow> bool) \<Rightarrow> nat \<Rightarrow> ('v, unit) opt_prog" where
  "delete_value dtor_throws a = (\<lambda>w. case cells w a of
      None \<Rightarrow> Some (Term w)
    | Some v \<Rightarrow> if dtor_throws v then Some (Term w) else Some (Ret () (w\<lparr>cells := (cells w)(a := None)\<rparr>)))"

definition HasValue :: "nat \<Rightarrow> ('v, bool) opt_prog" where
  "HasValue i = bind (get_ptr i) (\<lambda>p. ret (p \<noteq> None))"

text \<open>\<open>operator->\<close> and \<open>operator*\<close>: both check the precondition.\<close>

definition arrow :: "nat \<Rightarrow> ('v, nat option) opt_prog" where
  "arrow i = bind (HasValue i) (\<lambda>b. andthen (check b LogicError) (get_ptr i))"

definition deref :: "nat \<Rightarrow> ('v, 'v) opt_prog" where
  "deref i = bind (HasValue i) (\<lambda>b. andthen (check b LogicError) (bind (arrow i) (\<lambda>p w. case p of
      None \<Rightarrow> Some (Term w)
    | Some a \<Rightarrow> (case cells w a of None \<Rightarrow> Some (Term w) | Some v \<Rightarrow> Some (Ret v w)))))"

definition Opt_Reset :: "('v \<Rightarrow> bool) \<Rightarrow> nat \<Rightarrow> ('v, unit) opt_prog" where
  "Opt_Reset dtor_throws i = bind (get_ptr i) (\<lambda>p. case p of
      None \<Rightarrow> ret ()
    | Some a \<Rightarrow> andthen (delete_value dtor_throws a) (set_ptr i None))"

definition Opt_Reset_value :: "(nat \<Rightarrow> exn option) \<Rightarrow> ('v \<Rightarrow> bool) \<Rightarrow> nat \<Rightarrow> 'v \<Rightarrow> ('v, unit) opt_prog" where
  "Opt_Reset_value fail dtor_throws i v =
     bind (new_value fail v) (\<lambda>pTmpValue. andthen (Opt_Reset dtor_throws i) (set_ptr i (Some pTmpValue)))"

definition Opt_Swap :: "nat \<Rightarrow> nat \<Rightarrow> ('v, unit) opt_prog" where
  "Opt_Swap i j = bind (get_ptr i) (\<lambda>p. bind (get_ptr j) (\<lambda>q. andthen (set_ptr i q) (set_ptr j p)))"

definition Opt_ctor :: "nat \<Rightarrow> ('v, unit) opt_prog" where
  "Opt_ctor i = set_ptr i None"

definition Opt_ctor_value :: "(nat \<Rightarrow> exn option) \<Rightarrow> nat \<Rightarrow> 'v \<Rightarrow> ('v, unit) opt_prog" where
  "Opt_ctor_value fail i v = bind (new_value fail v) (\<lambda>a. set_ptr i (Some a))"

definition Opt_ctor_cond :: "(nat \<Rightarrow> exn option) \<Rightarrow> nat \<Rightarrow> bool \<Rightarrow> 'v \<Rightarrow> ('v, unit) opt_prog" where
  "Opt_ctor_cond fail i cond v = andthen (set_ptr i None)
     (if cond then bind (new_value fail v) (\<lambda>a. set_ptr i (Some a)) else ret ())"

definition Opt_ctor_copy :: "(nat \<Rightarrow> exn option) \<Rightarrow> nat \<Rightarrow> nat \<Rightarrow> ('v, unit) opt_prog" where
  "Opt_ctor_copy fail i other = andthen (set_ptr i None) (bind (HasValue other) (\<lambda>b.
     if b then bind (deref other) (\<lambda>v. bind (new_value fail v) (\<lambda>a. set_ptr i (Some a))) else ret ()))"

definition Opt_dtor :: "('v \<Rightarrow> bool) \<Rightarrow> nat \<Rightarrow> ('v, unit) opt_prog" where
  "Opt_dtor dtor_throws i = noexcept (Opt_Reset dtor_throws i)"

definition Opt_assign_null :: "('v \<Rightarrow> bool) \<Rightarrow> nat \<Rightarrow> ('v, unit) opt_prog" where
  "Opt_assign_null dtor_throws i = Opt_Reset dtor_throws i"

definition Opt_assign_value :: "(nat \<Rightarrow> exn option) \<Rightarrow> ('v \<Rightarrow> bool) \<Rightarrow> nat \<Rightarrow> 'v \<Rightarrow> ('v, unit) opt_prog" where
  "Opt_assign_value fail dtor_throws i v =
     andthen (Opt_ctor_value fail tmp v) (scoped (Opt_Swap i tmp) (Opt_dtor dtor_throws tmp))"

definition Opt_assign :: "(nat \<Rightarrow> exn option) \<Rightarrow> ('v \<Rightarrow> bool) \<Rightarrow> nat \<Rightarrow> nat \<Rightarrow> ('v, unit) opt_prog" where
  "Opt_assign fail dtor_throws i other =
     (if i \<noteq> other then bind (HasValue other) (\<lambda>b.
        if b then andthen (Opt_ctor_copy fail tmp other) (scoped (Opt_Swap i tmp) (Opt_dtor dtor_throws tmp))
        else Opt_Reset dtor_throws i)
      else ret ())"

definition GetValue :: "nat \<Rightarrow> ('v, 'v) opt_prog" where
  "GetValue i = bind (HasValue i) (\<lambda>b. if \<not> b then throw bad_optional_access else deref i)"

definition GetValuePtr :: "nat \<Rightarrow> ('v, nat option) opt_prog" where
  "GetValuePtr i = bind (HasValue i) (\<lambda>b. if b then arrow i else ret None)"

definition GetValueOr :: "nat \<Rightarrow> 'v \<Rightarrow> ('v, 'v) opt_prog" where
  "GetValueOr i defaultValue = bind (HasValue i) (\<lambda>b. if b then deref i else ret defaultValue)"

section \<open>Comparisons\<close>

text \<open>On the values of the objects, for the operators \<open>==\<close> and \<open><\<close> of the value type.  The suffixes: \<open>oo\<close>
  two optionals, \<open>on\<close> and \<open>no\<close> with the null option, \<open>ov\<close> and \<open>vo\<close> with a value.\<close>

definition eq_oo :: "('v \<Rightarrow> 'v \<Rightarrow> bool) \<Rightarrow> 'v option \<Rightarrow> 'v option \<Rightarrow> bool" where
  "eq_oo eqv lhs rhs = (if lhs = None then (if rhs \<noteq> None then False else True)
     else if rhs = None then False else eqv (the lhs) (the rhs))"

definition lt_oo :: "('v \<Rightarrow> 'v \<Rightarrow> bool) \<Rightarrow> 'v option \<Rightarrow> 'v option \<Rightarrow> bool" where
  "lt_oo lessv lhs rhs = (if lhs = None then (if rhs \<noteq> None then True else False)
     else if rhs = None then False else lessv (the lhs) (the rhs))"

definition ne_oo :: "('v \<Rightarrow> 'v \<Rightarrow> bool) \<Rightarrow> 'v option \<Rightarrow> 'v option \<Rightarrow> bool" where
  "ne_oo eqv lhs rhs = (\<not> eq_oo eqv lhs rhs)"

definition le_oo :: "('v \<Rightarrow> 'v \<Rightarrow> bool) \<Rightarrow> 'v option \<Rightarrow> 'v option \<Rightarrow> bool" where
  "le_oo lessv lhs rhs = (\<not> lt_oo lessv rhs lhs)"

definition gt_oo :: "('v \<Rightarrow> 'v \<Rightarrow> bool) \<Rightarrow> 'v option \<Rightarrow> 'v option \<Rightarrow> bool" where
  "gt_oo lessv lhs rhs = lt_oo lessv rhs lhs"

definition ge_oo :: "('v \<Rightarrow> 'v \<Rightarrow> bool) \<Rightarrow> 'v option \<Rightarrow> 'v option \<Rightarrow> bool" where
  "ge_oo lessv lhs rhs = (\<not> lt_oo lessv lhs rhs)"

definition eq_on :: "'v option \<Rightarrow> bool" where
  "eq_on lhs = (if lhs \<noteq> None then False else True)"

definition eq_no :: "'v option \<Rightarrow> bool" where
  "eq_no rhs = (if rhs \<noteq> None then False else True)"

definition lt_on :: "'v option \<Rightarrow> bool" where
  "lt_on lhs = False"

definition lt_no :: "'v option \<Rightarrow> bool" where
  "lt_no rhs = (rhs \<noteq> None)"

definition ne_on :: "'v option \<Rightarrow> bool" where
  "ne_on lhs = (\<not> eq_on lhs)"

definition ne_no :: "'v option \<Rightarrow> bool" where
  "ne_no rhs = (\<not> eq_no rhs)"

definition le_on :: "'v option \<Rightarrow> bool" where
  "le_on lhs = (\<not> lt_no lhs)"

definition le_no :: "'v option \<Rightarrow> bool" where
  "le_no rhs = (\<not> lt_on rhs)"

definition gt_on :: "'v option \<Rightarrow> bool" where
  "gt_on lhs = lt_no lhs"

definition gt_no :: "'v option \<Rightarrow> bool" where
  "gt_no rhs = lt_on rhs"

definition ge_on :: "'v option \<Rightarrow> bool" where
  "ge_on lhs = (\<not> lt_on lhs)"

definition ge_no :: "'v option \<Rightarrow> bool" where
  "ge_no rhs = (\<not> lt_no rhs)"

definition eq_ov :: "('v \<Rightarrow> 'v \<Rightarrow> bool) \<Rightarrow> 'v option \<Rightarrow> 'v \<Rightarrow> bool" where
  "eq_ov eqv lhs rhs = (if lhs \<noteq> None then eq_oo eqv lhs (Some rhs) else False)"

definition eq_vo :: "('v \<Rightarrow> 'v \<Rightarrow> bool) \<Rightarrow> 'v \<Rightarrow> 'v option \<Rightarrow> bool" where
  "eq_vo eqv lhs rhs = (if rhs \<noteq> None then eq_oo eqv (Some lhs) rhs else False)"

definition lt_ov :: "('v \<Rightarrow> 'v \<Rightarrow> bool) \<Rightarrow> 'v option \<Rightarrow> 'v \<Rightarrow> bool" where
  "lt_ov lessv lhs rhs = (if lhs \<noteq> None then lt_oo lessv lhs (Some rhs) else True)"

definition lt_vo :: "('v \<Rightarrow> 'v \<Rightarrow> bool) \<Rightarrow> 'v \<Rightarrow> 'v option \<Rightarrow> bool" where
  "lt_vo lessv lhs rhs = (if rhs \<noteq> None then lt_oo lessv (Some lhs) rhs else False)"

definition ne_ov :: "('v \<Rightarrow> 'v \<Rightarrow> bool) \<Rightarrow> 'v option \<Rightarrow> 'v \<Rightarrow> bool" where
  "ne_ov eqv lhs rhs = (\<not> eq_ov eqv lhs rhs)"

definition ne_vo :: "('v \<Rightarrow> 'v \<Rightarrow> bool) \<Rightarrow> 'v \<Rightarrow> 'v option \<Rightarrow> bool" where
  "ne_vo eqv lhs rhs = (\<not> eq_vo eqv lhs rhs)"

definition le_ov :: "('v \<Rightarrow> 'v \<Rightarrow> bool) \<Rightarrow> 'v option \<Rightarrow> 'v \<Rightarrow> bool" where
  "le_ov lessv lhs rhs = (\<not> lt_vo lessv rhs lhs)"

definition le_vo :: "('v \<Rightarrow> 'v \<Rightarrow> bool) \<Rightarrow> 'v \<Rightarrow> 'v option \<Rightarrow> bool" where
  "le_vo lessv lhs rhs = (\<not> lt_ov lessv rhs lhs)"

definition gt_ov :: "('v \<Rightarrow> 'v \<Rightarrow> bool) \<Rightarrow> 'v option \<Rightarrow> 'v \<Rightarrow> bool" where
  "gt_ov lessv lhs rhs = lt_vo lessv rhs lhs"

definition gt_vo :: "('v \<Rightarrow> 'v \<Rightarrow> bool) \<Rightarrow> 'v \<Rightarrow> 'v option \<Rightarrow> bool" where
  "gt_vo lessv lhs rhs = lt_ov lessv rhs lhs"

definition ge_ov :: "('v \<Rightarrow> 'v \<Rightarrow> bool) \<Rightarrow> 'v option \<Rightarrow> 'v \<Rightarrow> bool" where
  "ge_ov lessv lhs rhs = (\<not> lt_ov lessv lhs rhs)"

definition ge_vo :: "('v \<Rightarrow> 'v \<Rightarrow> bool) \<Rightarrow> 'v \<Rightarrow> 'v option \<Rightarrow> bool" where
  "ge_vo lessv lhs rhs = (\<not> lt_vo lessv lhs rhs)"

lemmas comparison_defs =
  eq_oo_def ne_oo_def lt_oo_def le_oo_def gt_oo_def ge_oo_def eq_on_def ne_on_def lt_on_def le_on_def gt_on_def ge_on_def eq_no_def ne_no_def lt_no_def le_no_def gt_no_def ge_no_def eq_ov_def ne_ov_def lt_ov_def le_ov_def gt_ov_def ge_ov_def eq_vo_def ne_vo_def lt_vo_def le_vo_def gt_vo_def ge_vo_def

section \<open>The heap invariant and the abstraction\<close>

text \<open>Every pointer points to a cell of its own, every cell belongs to an object or to the rest of the
  program (\<open>F\<close>), and the cells not yet allocated are free.\<close>

definition heap_ok :: "nat set \<Rightarrow> 'v opt_world \<Rightarrow> bool" where
  "heap_ok F w \<longleftrightarrow>
     (\<forall>i a. pValue w i = Some a \<longrightarrow> cells w a \<noteq> None \<and> a \<notin> F)
   \<and> (\<forall>a \<in> F. cells w a \<noteq> None)
   \<and> (\<forall>a. cells w a \<noteq> None \<longrightarrow> a < allocs w \<and> (a \<in> F \<or> (\<exists>i. pValue w i = Some a)))
   \<and> (\<forall>i j a. pValue w i = Some a \<longrightarrow> pValue w j = Some a \<longrightarrow> i = j)"

definition opt_val :: "'v opt_world \<Rightarrow> nat \<Rightarrow> 'v option" where
  "opt_val w i = (case pValue w i of None \<Rightarrow> None | Some a \<Rightarrow> cells w a)"

lemma heap_okD:
  assumes "heap_ok F w"
  shows "pValue w i = Some a \<Longrightarrow> \<exists>v. cells w a = Some v" and "pValue w i = Some a \<Longrightarrow> a \<notin> F"
    and "a \<in> F \<Longrightarrow> \<exists>v. cells w a = Some v" and "cells w a = Some v \<Longrightarrow> a < allocs w"
    and "cells w a = Some v \<Longrightarrow> a \<in> F \<or> (\<exists>i. pValue w i = Some a)"
    and "pValue w i = Some a \<Longrightarrow> pValue w j = Some a \<Longrightarrow> i = j"
  using assms unfolding heap_ok_def by blast+

lemma heap_okI:
  assumes "\<And>i a. pValue w i = Some a \<Longrightarrow> cells w a \<noteq> None \<and> a \<notin> F"
    and "\<And>a. a \<in> F \<Longrightarrow> cells w a \<noteq> None"
    and "\<And>a. cells w a \<noteq> None \<Longrightarrow> a < allocs w"
    and "\<And>a. cells w a \<noteq> None \<Longrightarrow> a \<in> F \<or> (\<exists>i. pValue w i = Some a)"
    and "\<And>i j a. pValue w i = Some a \<Longrightarrow> pValue w j = Some a \<Longrightarrow> i = j"
  shows "heap_ok F w"
  using assms unfolding heap_ok_def by blast

lemma heap_ok_fresh: "heap_ok F w \<Longrightarrow> cells w (allocs w) = None \<and> (\<forall>i. pValue w i \<noteq> Some (allocs w)) \<and> allocs w \<notin> F"
  by (metis heap_okD(1,3,4) nat_less_le option.exhaust)

lemma opt_val_None: "heap_ok F w \<Longrightarrow> opt_val w i = None \<longleftrightarrow> pValue w i = None"
  by (auto simp: opt_val_def dest: heap_okD(1) split: option.splits)

lemma new_value_ok:
  assumes ok: "heap_ok F w" and "fail (allocs w) = None"
  shows "\<exists>w'. new_value fail v w = Some (Ret (allocs w) w') \<and> heap_ok (insert (allocs w) F) w'
    \<and> pValue w' = pValue w \<and> cells w' = (cells w)(allocs w \<mapsto> v)
    \<and> allocs w \<notin> F \<and> (\<forall>i. pValue w i \<noteq> Some (allocs w)) \<and> opt_val w' = opt_val w"
proof -
  let ?w = "w\<lparr>cells := (cells w)(allocs w \<mapsto> v), allocs := allocs w + 1\<rparr>"
  note fresh = heap_ok_fresh[OF ok]
  have "heap_ok (insert (allocs w) F) ?w"
    by (rule heap_okI; use fresh in \<open>auto dest: heap_okD[OF ok] split: if_splits\<close>)
  moreover have "opt_val ?w i = opt_val w i" for i
    using fresh by (cases "pValue w i") (auto simp: opt_val_def)
  ultimately show ?thesis using assms(2) fresh by (auto simp: new_value_def fun_eq_iff)
qed

lemma Opt_Reset_ok:
  assumes ok: "heap_ok F w" and "\<And>v. opt_val w i = Some v \<Longrightarrow> \<not> dtor_throws v"
  shows "\<exists>w'. Opt_Reset dtor_throws i w = Some (Ret () w') \<and> heap_ok F w'
    \<and> opt_val w' = (opt_val w)(i := None) \<and> pValue w' = (pValue w)(i := None)
    \<and> (\<forall>a. pValue w i \<noteq> Some a \<longrightarrow> cells w' a = cells w a) \<and> allocs w' = allocs w"
proof (cases "pValue w i")
  case None
  then have "Opt_Reset dtor_throws i w = Some (Ret () w)"
    by (simp add: Opt_Reset_def get_ptr_def)
  then show ?thesis
    using None ok by (auto simp: opt_val_def fun_eq_iff)
next
  case (Some a)
  obtain v where v: "cells w a = Some v" using heap_okD(1)[OF ok Some] by blast
  let ?w = "w\<lparr>cells := (cells w)(a := None), pValue := (pValue w)(i := None)\<rparr>"
  have r: "Opt_Reset dtor_throws i w = Some (Ret () ?w)"
    using Some v assms(2) by (simp add: Opt_Reset_def get_ptr_def delete_value_def set_ptr_def opt_val_def)
  have other: "pValue w j \<noteq> Some a" if "j \<noteq> i" for j
    using heap_okD(6)[OF ok Some] that by blast
  have "heap_ok F ?w"
    by (rule heap_okI; use other heap_okD(2)[OF ok Some] in \<open>auto dest: heap_okD[OF ok] split: if_splits\<close>)
       (metis Some heap_okD(5) ok option.inject)
  moreover have "opt_val ?w j = ((opt_val w)(i := None)) j" for j
    using other[of j] by (cases "pValue w j") (auto simp: opt_val_def)
  ultimately show ?thesis using r Some by (auto simp: fun_eq_iff)
qed

lemma opt_val_ptr: "opt_val (w\<lparr>pValue := p\<rparr>) j = (case p j of None \<Rightarrow> None | Some a \<Rightarrow> cells w a)"
  by (simp add: opt_val_def cong: option.case_cong)

lemma set_ptr_own:
  assumes ok: "heap_ok (insert a F) w" and a: "a \<notin> F" and i: "pValue w i = None"
  shows "heap_ok F (w\<lparr>pValue := (pValue w)(i \<mapsto> a)\<rparr>)"
    and "opt_val (w\<lparr>pValue := (pValue w)(i \<mapsto> a)\<rparr>) = (opt_val w)(i := cells w a)"
proof -
  have free: "pValue w j \<noteq> Some a" for j using heap_okD(2)[OF ok] by blast
  show "heap_ok F (w\<lparr>pValue := (pValue w)(i \<mapsto> a)\<rparr>)"
  proof (rule heap_okI)
    fix b assume "cells (w\<lparr>pValue := (pValue w)(i \<mapsto> a)\<rparr>) b \<noteq> None"
    then obtain v where b: "cells w b = Some v" by auto
    show "b < allocs (w\<lparr>pValue := (pValue w)(i \<mapsto> a)\<rparr>)" using heap_okD(4)[OF ok b] by simp
    show "b \<in> F \<or> (\<exists>j. pValue (w\<lparr>pValue := (pValue w)(i \<mapsto> a)\<rparr>) j = Some b)"
    proof (cases "b \<in> insert a F")
      case True
      then show ?thesis by (cases "b = a") auto
    next
      case False
      then obtain j where "pValue w j = Some b" using heap_okD(5)[OF ok b] by blast
      then have "pValue (w\<lparr>pValue := (pValue w)(i \<mapsto> a)\<rparr>) j = Some b" using i by auto
      then show ?thesis by blast
    qed
  qed (use a free heap_okD(3)[OF ok] in \<open>auto dest: heap_okD[OF ok] split: if_splits\<close>)
  show "opt_val (w\<lparr>pValue := (pValue w)(i \<mapsto> a)\<rparr>) = (opt_val w)(i := cells w a)"
    by (auto simp: fun_eq_iff opt_val_ptr) (simp add: opt_val_def)
qed

lemma opt_val_allocs: "opt_val (w\<lparr>allocs := n\<rparr>) = opt_val w"
  by (rule ext) (simp add: opt_val_def cong: option.case_cong)

lemma fail_new: "fail (allocs w) = Some e \<Longrightarrow> new_value fail v w = Some (Exc e (w\<lparr>allocs := allocs w + 1\<rparr>))"
  by (simp add: new_value_def)

lemma heap_ok_skip: "heap_ok F w \<Longrightarrow> heap_ok F (w\<lparr>allocs := allocs w + 1\<rparr>) \<and> opt_val (w\<lparr>allocs := allocs w + 1\<rparr>) = opt_val w"
  by (auto simp: opt_val_allocs intro!: heap_okI dest: heap_okD less_SucI)

text \<open>The outcome of an operation that may fail to allocate: it did the assignment, or it left by the
  exception with the values unchanged; in both cases the heap is in order.\<close>

definition assigned :: "(nat \<Rightarrow> exn option) \<Rightarrow> nat set \<Rightarrow> 'v opt_world \<Rightarrow> (nat \<Rightarrow> 'v option) \<Rightarrow> (exn, unit, 'v opt_world) res option \<Rightarrow> bool" where
  "assigned fail F w val r \<longleftrightarrow> (\<exists>w'. heap_ok F w' \<and>
     (case fail (allocs w) of None \<Rightarrow> r = Some (Ret () w') \<and> opt_val w' = val
        | Some e \<Rightarrow> r = Some (Exc e w') \<and> opt_val w' = opt_val w))"

lemma Opt_Reset_value_ok:
  assumes ok: "heap_ok F w" and d: "\<And>v. opt_val w i = Some v \<Longrightarrow> \<not> dtor_throws v"
  shows "assigned fail F w ((opt_val w)(i \<mapsto> v)) (Opt_Reset_value fail dtor_throws i v w)"
proof (cases "fail (allocs w)")
  case (Some e)
  then show ?thesis
    using heap_ok_skip[OF ok] by (auto simp: assigned_def Opt_Reset_value_def fail_new)
next
  case None
  obtain w1 where n: "new_value fail v w = Some (Ret (allocs w) w1)" "heap_ok (insert (allocs w) F) w1"
    "pValue w1 = pValue w" "cells w1 = (cells w)(allocs w \<mapsto> v)" "allocs w \<notin> F"
    "\<forall>i. pValue w i \<noteq> Some (allocs w)" "opt_val w1 = opt_val w"
    using new_value_ok[where fail = fail and v = v, OF ok None] by blast
  obtain w2 where r: "Opt_Reset dtor_throws i w1 = Some (Ret () w2)" "heap_ok (insert (allocs w) F) w2"
    "opt_val w2 = (opt_val w1)(i := None)" "pValue w2 = (pValue w1)(i := None)"
    "\<forall>a. pValue w1 i \<noteq> Some a \<longrightarrow> cells w2 a = cells w1 a"
    using Opt_Reset_ok[OF n(2), of i dtor_throws] d n(7) by auto
  let ?w = "w2\<lparr>pValue := (pValue w2)(i \<mapsto> allocs w)\<rparr>"
  have "Opt_Reset_value fail dtor_throws i v w = Some (Ret () ?w)"
    using n(1) r(1) by (simp add: Opt_Reset_value_def set_ptr_def)
  moreover have "heap_ok F ?w" "opt_val ?w = (opt_val w)(i \<mapsto> v)"
    using set_ptr_own[OF r(2) n(5), of i] r n by auto
  ultimately show ?thesis
    using None by (auto simp: assigned_def)
qed

lemma Opt_ctor_value_ok:
  assumes ok: "heap_ok F w" and i: "pValue w i = None"
  shows "case fail (allocs w) of
      None \<Rightarrow> \<exists>w'. Opt_ctor_value fail i v w = Some (Ret () w') \<and> heap_ok F w' \<and> opt_val w' = (opt_val w)(i \<mapsto> v)
        \<and> (\<forall>j. j \<noteq> i \<longrightarrow> pValue w' j = pValue w j)
    | Some e \<Rightarrow> \<exists>w'. Opt_ctor_value fail i v w = Some (Exc e w') \<and> heap_ok F w' \<and> opt_val w' = opt_val w"
proof (cases "fail (allocs w)")
  case (Some e)
  then show ?thesis using heap_ok_skip[OF ok] by (auto simp: Opt_ctor_value_def fail_new)
next
  case None
  obtain w1 where n: "new_value fail v w = Some (Ret (allocs w) w1)" "heap_ok (insert (allocs w) F) w1"
    "pValue w1 = pValue w" "cells w1 = (cells w)(allocs w \<mapsto> v)" "allocs w \<notin> F" "opt_val w1 = opt_val w"
    using new_value_ok[where fail = fail and v = v, OF ok None] by blast
  have p: "pValue w1 i = None" using i n(3) by simp
  show ?thesis
    using None n set_ptr_own[OF n(2,5) p] by (auto simp: Opt_ctor_value_def set_ptr_def)
qed

lemma deref_ok: "heap_ok F w \<Longrightarrow> opt_val w i = Some v \<Longrightarrow> deref i w = Some (Ret v w)"
  by (auto simp: deref_def arrow_def HasValue_def get_ptr_def opt_val_def split: option.splits)

lemma HasValue_ok: "heap_ok F w \<Longrightarrow> HasValue i w = Some (Ret (opt_val w i \<noteq> None) w)"
  by (simp add: HasValue_def get_ptr_def opt_val_None)

lemma Opt_ctor_copy_eq:
  assumes "heap_ok F w" "pValue w i = None" "opt_val w j = Some v"
  shows "Opt_ctor_copy fail i j w = Opt_ctor_value fail i v w"
proof -
  have "w\<lparr>pValue := (pValue w)(i := None)\<rparr> = w" using assms(2) by (simp add: fun_upd_idem)
  then show ?thesis
    using assms by (simp add: Opt_ctor_copy_def Opt_ctor_value_def set_ptr_def HasValue_ok deref_ok)
qed

lemma Opt_Swap_ok:
  assumes ok: "heap_ok F w" "i \<noteq> j"
  shows "\<exists>w'. Opt_Swap i j w = Some (Ret () w') \<and> heap_ok F w'
    \<and> opt_val w' = (opt_val w)(i := opt_val w j, j := opt_val w i)"
proof -
  let ?w = "w\<lparr>pValue := (pValue w)(i := pValue w j, j := pValue w i)\<rparr>"
  have "heap_ok F ?w"
    by (rule heap_okI; use assms(2) in \<open>auto dest: heap_okD[OF ok(1)] split: if_splits\<close>)
       (metis heap_okD(5) ok(1))
  moreover have "opt_val ?w = (opt_val w)(i := opt_val w j, j := opt_val w i)"
    by (auto simp: fun_eq_iff opt_val_ptr) (simp_all add: opt_val_def)
  ultimately show ?thesis
    by (simp add: Opt_Swap_def get_ptr_def set_ptr_def)
qed

text \<open>Copy and swap: the temporary takes the old value and destroys it.\<close>

lemma swap_out_ok:
  assumes ok: "heap_ok F w" and i: "i \<noteq> tmp" and d: "\<And>v. opt_val w i = Some v \<Longrightarrow> \<not> dtor_throws v"
  shows "\<exists>w'. scoped (Opt_Swap i tmp) (Opt_dtor dtor_throws tmp) w = Some (Ret () w') \<and> heap_ok F w'
    \<and> opt_val w' = (opt_val w)(i := opt_val w tmp, tmp := None)"
proof -
  obtain w1 where s: "Opt_Swap i tmp w = Some (Ret () w1)" "heap_ok F w1"
    "opt_val w1 = (opt_val w)(i := opt_val w tmp, tmp := opt_val w i)"
    using Opt_Swap_ok[OF ok i] by blast
  obtain w2 where r: "Opt_Reset dtor_throws tmp w1 = Some (Ret () w2)" "heap_ok F w2" "opt_val w2 = (opt_val w1)(tmp := None)"
    using Opt_Reset_ok[OF s(2), of tmp dtor_throws] s(3) d by auto
  show ?thesis
    using s r by (auto simp: scoped_def Opt_dtor_def)
qed

lemma assign_tmp_ok:
  assumes ok: "heap_ok F w" and i: "i \<noteq> tmp" and t: "pValue w tmp = None"
    and d: "\<And>v. opt_val w i = Some v \<Longrightarrow> \<not> dtor_throws v"
  shows "assigned fail F w ((opt_val w)(i \<mapsto> v))
    (andthen (Opt_ctor_value fail tmp v) (scoped (Opt_Swap i tmp) (Opt_dtor dtor_throws tmp)) w)"
proof (cases "fail (allocs w)")
  case (Some e)
  then show ?thesis using Opt_ctor_value_ok[OF ok t, of fail v] by (auto simp: assigned_def)
next
  case None
  obtain w1 where c: "Opt_ctor_value fail tmp v w = Some (Ret () w1)" "heap_ok F w1" "opt_val w1 = (opt_val w)(tmp \<mapsto> v)"
    using Opt_ctor_value_ok[OF ok t, of fail v] None by auto
  obtain w2 where s: "scoped (Opt_Swap i tmp) (Opt_dtor dtor_throws tmp) w1 = Some (Ret () w2)" "heap_ok F w2"
    "opt_val w2 = (opt_val w1)(i := opt_val w1 tmp, tmp := None)"
    using swap_out_ok[OF c(2) i, of dtor_throws] c(3) d i by auto
  have "opt_val w tmp = None" using t by (simp add: opt_val_def)
  then have "opt_val w2 = (opt_val w)(i \<mapsto> v)"
    using s(3) c(3) i by (auto simp: fun_eq_iff)
  then show ?thesis using None c s by (auto simp: assigned_def)
qed

section \<open>Properties\<close>

text \<open>C37: the assignments of an \<open>Optional\<close> refine assignment of a HOL option, with the strong exception
  guarantee: when the copy of the value cannot be made the objects are unchanged; on every path each cell of
  the heap keeps exactly one owner (nothing leaks and nothing is freed twice).\<close>

theorem Optional_assignments_refine:
  assumes "heap_ok F w" and "i \<noteq> tmp" and "pValue w tmp = None" and "\<And>v. \<not> dtor_throws v"
  shows "assigned fail F w ((opt_val w)(i \<mapsto> v)) (Opt_assign_value fail dtor_throws i v w)
    \<and> assigned fail F w ((opt_val w)(i \<mapsto> v)) (Opt_Reset_value fail dtor_throws i v w)
    \<and> (opt_val w j \<noteq> None \<and> i \<noteq> j \<longrightarrow>
        assigned fail F w ((opt_val w)(i := opt_val w j)) (Opt_assign fail dtor_throws i j w))
    \<and> (opt_val w j = None \<or> i = j \<longrightarrow>
        assigned (\<lambda>_. None) F w ((opt_val w)(i := opt_val w j)) (Opt_assign fail dtor_throws i j w))
    \<and> assigned (\<lambda>_. None) F w ((opt_val w)(i := None)) (Opt_assign_null dtor_throws i w)"
proof -
  note ok = assms(1) and d = assms(4)
  have assign_v: "assigned fail F w ((opt_val w)(i \<mapsto> v)) (andthen (Opt_ctor_value fail tmp v) (scoped (Opt_Swap i tmp) (Opt_dtor dtor_throws tmp)) w)" for v
    by (rule assign_tmp_ok[OF assms(1-3)]) (use d in auto)
  have reset: "assigned (\<lambda>_. None) F w ((opt_val w)(i := None)) (Opt_Reset dtor_throws i w)"
    using Opt_Reset_ok[OF ok, of i dtor_throws] d by (auto simp: assigned_def)
  have some: "assigned fail F w ((opt_val w)(i := opt_val w j)) (Opt_assign fail dtor_throws i j w)"
    if nn: "opt_val w j \<noteq> None" and ij: "i \<noteq> j"
  proof -
    obtain u where u: "opt_val w j = Some u" using nn by blast
    have "Opt_assign fail dtor_throws i j w
        = andthen (Opt_ctor_copy fail tmp j) (scoped (Opt_Swap i tmp) (Opt_dtor dtor_throws tmp)) w"
      using u ij by (simp add: Opt_assign_def HasValue_ok[OF ok])
    also have "\<dots> = andthen (Opt_ctor_value fail tmp u) (scoped (Opt_Swap i tmp) (Opt_dtor dtor_throws tmp)) w"
      unfolding bind_def Opt_ctor_copy_eq[OF ok assms(3) u] ..
    finally show ?thesis using assign_v[of u] u by simp
  qed
  have none: "assigned (\<lambda>_. None) F w ((opt_val w)(i := opt_val w j)) (Opt_assign fail dtor_throws i j w)"
    if "opt_val w j = None \<or> i = j"
    using that reset ok by (cases "i = j") (auto simp: Opt_assign_def HasValue_ok[OF ok] assigned_def)
  show ?thesis
    using assign_v[of v] Opt_Reset_value_ok[OF ok, of i dtor_throws fail v] d reset some none
    by (simp add: Opt_assign_value_def Opt_assign_null_def)
qed

definition example_world :: "int opt_world" where
  "example_world = \<lparr>cells = [0 \<mapsto> 7], allocs = 1, pValue = [5 \<mapsto> 0]\<rparr>"

theorem Optional_assignments_refine_witness:
  "\<exists>w'. Opt_assign (\<lambda>_. None) (\<lambda>_. False) 4 5 example_world = Some (Ret () w') \<and> heap_ok {} w'
     \<and> opt_val w' 4 = Some 7 \<and> opt_val w' 5 = Some 7"
proof -
  have "heap_ok {} example_world"
    by (rule heap_okI) (auto simp: example_world_def split: if_splits)
  moreover have "pValue example_world tmp = None" "opt_val example_world 5 = Some 7"
    by (simp_all add: example_world_def tmp_def opt_val_def)
  ultimately show ?thesis
    using Optional_assignments_refine[of "{}" example_world 4 "\<lambda>_. False" "\<lambda>_. None" 0 5]
    by (auto simp: assigned_def tmp_def)
qed

text \<open>Reading: \<open>GetValue\<close> throws \<open>BadOptionalAccessException\<close> exactly on an empty object,
  dereferencing an empty object throws \<open>LogicException\<close>, \<open>GetValueOr\<close> gives the default, \<open>GetValuePtr\<close>
  null; none of them changes the state.\<close>

theorem Optional_reads:
  assumes "heap_ok F w"
  shows "GetValue i w = Some (case opt_val w i of Some v \<Rightarrow> Ret v w | None \<Rightarrow> Exc bad_optional_access w)
    \<and> deref i w = Some (case opt_val w i of Some v \<Rightarrow> Ret v w | None \<Rightarrow> Exc LogicError w)
    \<and> GetValueOr i dflt w = Some (Ret (case opt_val w i of Some v \<Rightarrow> v | None \<Rightarrow> dflt) w)
    \<and> GetValuePtr i w = Some (Ret (pValue w i) w)"
proof (cases "opt_val w i")
  case None
  then have "pValue w i = None" using opt_val_None[OF assms] by blast
  then show ?thesis
    using None by (simp add: GetValue_def GetValueOr_def GetValuePtr_def deref_def HasValue_ok[OF assms])
next
  case (Some v)
  then have "pValue w i \<noteq> None" using opt_val_None[OF assms, of i] by auto
  then show ?thesis
    using Some deref_ok[OF assms Some]
    by (auto simp: GetValue_def GetValueOr_def GetValuePtr_def HasValue_ok[OF assms] arrow_def get_ptr_def)
qed

theorem Optional_reads_witness:
  "GetValue 5 example_world = Some (Ret 7 example_world) \<and> GetValueOr 6 9 example_world = Some (Ret 9 example_world)"
proof -
  have "heap_ok {} example_world"
    by (rule heap_okI) (auto simp: example_world_def split: if_splits)
  from Optional_reads[OF this, of 5 9] Optional_reads[OF this, of 6 9] show ?thesis
    by (simp add: example_world_def opt_val_def)
qed

text \<open>For a value type ordered by \<open>==\<close> and \<open><\<close>, the thirty comparison operators are those of the linear
  order on options in which the empty option is least, whichever of the three argument forms is used.\<close>

theorem Optional_comparisons:
  fixes a b :: "'v::linorder option" and x :: 'v
  shows "(eq_oo (=) a b \<longleftrightarrow> a = b) \<and> (ne_oo (=) a b \<longleftrightarrow> a \<noteq> b)
    \<and> (lt_oo (<) a b \<longleftrightarrow> a < b) \<and> (le_oo (<) a b \<longleftrightarrow> a \<le> b) \<and> (gt_oo (<) a b \<longleftrightarrow> a > b) \<and> (ge_oo (<) a b \<longleftrightarrow> a \<ge> b)
    \<and> (eq_on a \<longleftrightarrow> a = None) \<and> (ne_on a \<longleftrightarrow> a \<noteq> None)
    \<and> (lt_on a \<longleftrightarrow> a < None) \<and> (le_on a \<longleftrightarrow> a \<le> None) \<and> (gt_on a \<longleftrightarrow> a > None) \<and> (ge_on a \<longleftrightarrow> a \<ge> None)
    \<and> (eq_no b \<longleftrightarrow> None = b) \<and> (ne_no b \<longleftrightarrow> None \<noteq> b)
    \<and> (lt_no b \<longleftrightarrow> None < b) \<and> (le_no b \<longleftrightarrow> None \<le> b) \<and> (gt_no b \<longleftrightarrow> None > b) \<and> (ge_no b \<longleftrightarrow> None \<ge> b)
    \<and> (eq_ov (=) a x \<longleftrightarrow> a = Some x) \<and> (ne_ov (=) a x \<longleftrightarrow> a \<noteq> Some x)
    \<and> (lt_ov (<) a x \<longleftrightarrow> a < Some x) \<and> (le_ov (<) a x \<longleftrightarrow> a \<le> Some x) \<and> (gt_ov (<) a x \<longleftrightarrow> a > Some x) \<and> (ge_ov (<) a x \<longleftrightarrow> a \<ge> Some x)
    \<and> (eq_vo (=) x b \<longleftrightarrow> Some x = b) \<and> (ne_vo (=) x b \<longleftrightarrow> Some x \<noteq> b)
    \<and> (lt_vo (<) x b \<longleftrightarrow> Some x < b) \<and> (le_vo (<) x b \<longleftrightarrow> Some x \<le> b) \<and> (gt_vo (<) x b \<longleftrightarrow> Some x > b) \<and> (ge_vo (<) x b \<longleftrightarrow> Some x \<ge> b)"
  by (cases a; cases b) (auto simp: comparison_defs)

end
