(* ===== verification/Anys.thy ===== *)
theory Anys
imports Optionals
begin

text \<open>
  \<open>Any\<close> (\<open>include/cppdevtk/base/any.hpp\<close>, \<open>src/base/any.cpp\<close>): a value of any copyable type on the heap behind a pointer.

  The heap and the objects are those of \<open>Optionals\<close>; a cell holds a \<open>Value<TValue>\<close>: the type and the value.  Copying clones
  the cell, which \<open>fail\<close> may refuse.  \<open>typeid(void)\<close> is \<open>None\<close>;
  the copy that a cast by value returns is its result.
\<close>

type_synonym 'v typed = "nat \<times> 'v"

definition bad_any_cast :: exn where "bad_any_cast = mk_exn BadAnyCastException"

definition read_cell :: "nat \<Rightarrow> ('v, 'v) opt_prog" where
  "read_cell a = (\<lambda>w. case cells w a of None \<Rightarrow> Some (Term w) | Some v \<Rightarrow> Some (Ret v w))"

definition Any_ctor :: "nat \<Rightarrow> ('v typed, unit) opt_prog" where
  "Any_ctor i = set_ptr i None"

definition Any_ctor_value :: "(nat \<Rightarrow> exn option) \<Rightarrow> nat \<Rightarrow> nat \<Rightarrow> 'v \<Rightarrow> ('v typed, unit) opt_prog" where
  "Any_ctor_value fail i t v = bind (new_value fail (t, v)) (\<lambda>a. set_ptr i (Some a))"

definition Clone :: "(nat \<Rightarrow> exn option) \<Rightarrow> nat \<Rightarrow> ('v typed, nat) opt_prog" where
  "Clone fail a = bind (read_cell a) (new_value fail)"

definition Any_ctor_copy :: "(nat \<Rightarrow> exn option) \<Rightarrow> nat \<Rightarrow> nat \<Rightarrow> ('v typed, unit) opt_prog" where
  "Any_ctor_copy fail i other = bind (get_ptr other) (\<lambda>p. case p of None \<Rightarrow> set_ptr i None
     | Some a \<Rightarrow> bind (Clone fail a) (\<lambda>a'. set_ptr i (Some a')))"

text \<open>Both handlers of \<open>Reset\<close> end the program.\<close>

definition Any_Reset :: "('v typed \<Rightarrow> bool) \<Rightarrow> nat \<Rightarrow> ('v typed, unit) opt_prog" where
  "Any_Reset dtor_throws i = bind (get_ptr i) (\<lambda>p. case p of None \<Rightarrow> ret ()
     | Some a \<Rightarrow> andthen (delete_value dtor_throws a) (set_ptr i None))"

definition Any_dtor :: "('v typed \<Rightarrow> bool) \<Rightarrow> nat \<Rightarrow> ('v typed, unit) opt_prog" where
  "Any_dtor dtor_throws i = noexcept (Any_Reset dtor_throws i)"

definition Any_Swap :: "nat \<Rightarrow> nat \<Rightarrow> ('v typed, unit) opt_prog" where
  "Any_Swap i j = bind (get_ptr i) (\<lambda>p. bind (get_ptr j) (\<lambda>q. andthen (set_ptr i q) (set_ptr j p)))"

definition Any_assign :: "(nat \<Rightarrow> exn option) \<Rightarrow> ('v typed \<Rightarrow> bool) \<Rightarrow> nat \<Rightarrow> nat \<Rightarrow> ('v typed, unit) opt_prog" where
  "Any_assign fail dtor_throws i other = andthen (Any_ctor_copy fail tmp other) (scoped (Any_Swap i tmp) (Any_dtor dtor_throws tmp))"

definition Any_assign_value :: "(nat \<Rightarrow> exn option) \<Rightarrow> ('v typed \<Rightarrow> bool) \<Rightarrow> nat \<Rightarrow> nat \<Rightarrow> 'v \<Rightarrow> ('v typed, unit) opt_prog" where
  "Any_assign_value fail dtor_throws i t v = andthen (Any_ctor_value fail tmp t v) (scoped (Any_Swap i tmp) (Any_dtor dtor_throws tmp))"

definition Any_HasValue :: "nat \<Rightarrow> ('v typed, bool) opt_prog" where
  "Any_HasValue i = bind (get_ptr i) (\<lambda>p. ret (p \<noteq> None))"

definition GetTypeInfo :: "nat \<Rightarrow> ('v typed, nat option) opt_prog" where
  "GetTypeInfo i = bind (get_ptr i) (\<lambda>p. case p of None \<Rightarrow> ret None | Some a \<Rightarrow> bind (read_cell a) (\<lambda>(t, v). ret (Some t)))"

definition AnyCast_ptr :: "nat \<Rightarrow> nat option \<Rightarrow> ('v typed, nat option) opt_prog" where
  "AnyCast_ptr t pAny = (case pAny of None \<Rightarrow> ret None
     | Some i \<Rightarrow> bind (GetTypeInfo i) (\<lambda>ti. if ti = Some t then get_ptr i else ret None))"

definition AnyCast :: "nat \<Rightarrow> nat \<Rightarrow> ('v typed, 'v) opt_prog" where
  "AnyCast t i = bind (AnyCast_ptr t (Some i)) (\<lambda>p. case p of None \<Rightarrow> throw bad_any_cast | Some a \<Rightarrow> bind (read_cell a) (\<lambda>(t, v). ret v))"

section \<open>On a heap in order\<close>

lemma any_as_optional:
  "Any_Reset = Opt_Reset" "Any_dtor = Opt_dtor" "Any_Swap = Opt_Swap" "Any_ctor_value fail i t v = Opt_ctor_value fail i (t, v)"
  by (simp_all add: fun_eq_iff Any_Reset_def Opt_Reset_def Any_dtor_def Opt_dtor_def Any_Swap_def Opt_Swap_def Any_ctor_value_def Opt_ctor_value_def)

lemma read_cell_ok: "heap_ok F w \<Longrightarrow> pValue w i = Some a \<Longrightarrow> \<exists>v. opt_val w i = Some v \<and> read_cell a w = Some (Ret v w)"
  by (auto simp: read_cell_def opt_val_def dest: heap_okD(1))

lemma Any_copy_eq:
  assumes "heap_ok F w" "opt_val w j = Some (t, v)"
  shows "Any_ctor_copy fail i j w = Opt_ctor_value fail i (t, v) w"
proof -
  obtain a where a: "pValue w j = Some a" using assms(2) by (auto simp: opt_val_def split: option.splits)
  then show ?thesis using read_cell_ok[OF assms(1) a] assms(2)
    by (auto simp: Any_ctor_copy_def Clone_def Opt_ctor_value_def get_ptr_def bind_def)
qed

lemma AnyCast_ok:
  assumes "heap_ok F w"
  shows "AnyCast t i w = Some (case opt_val w i of Some (t', v) \<Rightarrow> if t' = t then Ret v w else Exc bad_any_cast w | None \<Rightarrow> Exc bad_any_cast w)"
proof (cases "pValue w i")
  case None
  then show ?thesis by (simp add: AnyCast_def AnyCast_ptr_def GetTypeInfo_def get_ptr_def opt_val_def)
next
  case (Some a)
  from read_cell_ok[OF assms Some] show ?thesis using Some
    by (auto simp: AnyCast_def AnyCast_ptr_def GetTypeInfo_def get_ptr_def)
qed

section \<open>Properties\<close>

text \<open>C38: An \<open>Any\<close> refines an optional value with its type: assignment from a value and from another object (also from itself or from an
  empty one) does what it says, or leaves by the exception of the failed copy with all objects unchanged, and every cell of the
  heap keeps exactly one owner; a cast gives the value for exactly its type and otherwise throws.\<close>

theorem Any_refines_typed_option:
  assumes "heap_ok F w" "i \<noteq> tmp" "pValue w tmp = None" "\<And>v. \<not> dtor_throws v"
  shows "assigned fail F w ((opt_val w)(i \<mapsto> (t, v))) (Any_assign_value fail dtor_throws i t v w)
    \<and> (opt_val w j \<noteq> None \<longrightarrow> assigned fail F w ((opt_val w)(i := opt_val w j)) (Any_assign fail dtor_throws i j w))
    \<and> (opt_val w j = None \<longrightarrow> assigned (\<lambda>_. None) F w ((opt_val w)(i := None)) (Any_assign fail dtor_throws i j w))
    \<and> AnyCast t i w = Some (case opt_val w i of Some (t', v) \<Rightarrow> if t' = t then Ret v w else Exc bad_any_cast w | None \<Rightarrow> Exc bad_any_cast w)"
proof (intro conjI impI AnyCast_ok[OF assms(1)])
  note assign = assign_tmp_ok[OF assms(1-3), of dtor_throws fail]
  show "assigned fail F w ((opt_val w)(i \<mapsto> (t, v))) (Any_assign_value fail dtor_throws i t v w)"
    using assign assms(4) by (simp add: Any_assign_value_def any_as_optional)
  show "assigned fail F w ((opt_val w)(i := opt_val w j)) (Any_assign fail dtor_throws i j w)" if some: "opt_val w j \<noteq> None"
  proof -
    obtain t' v' where j: "opt_val w j = Some (t', v')" using some by (cases "opt_val w j") auto
    show ?thesis using assign[of "(t', v')"] assms(4) j by (simp add: Any_assign_def any_as_optional bind_def Any_copy_eq[OF assms(1) j])
  qed
  show "assigned (\<lambda>_. None) F w ((opt_val w)(i := None)) (Any_assign fail dtor_throws i j w)" if "opt_val w j = None"
  proof -
    have "w\<lparr>pValue := (pValue w)(tmp := None)\<rparr> = w" using assms(3) by (simp add: fun_upd_idem)
    then have "Any_ctor_copy fail tmp j w = Some (Ret () w)" using that opt_val_None[OF assms(1), of j]
      by (simp add: Any_ctor_copy_def get_ptr_def set_ptr_def)
    moreover have t: "opt_val w tmp = None" using assms(3) by (simp add: opt_val_def)
    moreover have "(opt_val w)(i := None, tmp := None) = (opt_val w)(i := None)" using t by (simp add: fun_eq_iff)
    ultimately show ?thesis using swap_out_ok[OF assms(1,2), of dtor_throws] assms(4)
      by (auto simp: Any_assign_def any_as_optional assigned_def)
  qed
qed

definition any_world :: "int typed opt_world" where
  "any_world = \<lparr>cells = [0 \<mapsto> (3, 7)], allocs = 1, pValue = [5 \<mapsto> 0]\<rparr>"

lemma Any_refines_typed_option_witness:
  "AnyCast 3 5 any_world = Some (Ret 7 any_world) \<and> AnyCast 4 5 any_world = Some (Exc bad_any_cast any_world)
    \<and> (\<exists>w'. Any_assign (\<lambda>_. None) (\<lambda>_. False) 4 5 any_world = Some (Ret () w') \<and> opt_val w' 4 = Some (3, 7))"
proof -
  have w: "heap_ok {} any_world" by (rule heap_okI) (auto simp: any_world_def split: if_splits)
  have p: "pValue any_world tmp = None" "opt_val any_world 5 = Some (3, 7)" by (simp_all add: any_world_def tmp_def opt_val_def)
  have five: "5 \<noteq> tmp" "4 \<noteq> tmp" by (simp_all add: tmp_def)
  show ?thesis
    using Any_refines_typed_option[OF w five(1) p(1), of "\<lambda>_. False" "\<lambda>_. None" 3 0 5]
      Any_refines_typed_option[OF w five(1) p(1), of "\<lambda>_. False" "\<lambda>_. None" 4 0 5]
      Any_refines_typed_option[OF w five(2) p(1), of "\<lambda>_. False" "\<lambda>_. None" 4 0 5] p
    by (auto simp: assigned_def)
qed

end
