(* ===== verification/TimeUtils.thy ===== *)
theory TimeUtils
imports Exceptions "HOL-Library.Signed_Division" "HOL-Library.Word"
begin

text \<open>
  Time helpers (\<open>src/base/time_utils.cpp\<close>) and the \<open>DBC\<close> checks.

  The operating system is a record of parameters: the functions the code calls, on a state \<open>'w\<close> that
  is left abstract.  A function that may block returns an option, \<open>None\<close> when it never returns.
  Times are integers (\<open>time_t\<close> has 64 bits on Linux, and the sums formed here stay far below); a
  relative time is a C \<open>int\<close>: where the code converts a wider value to it, the conversion
  \<open>to_int\<close> keeps the low 32 bits in two's complement.  Division and remainder truncate toward zero.
\<close>

record timespec =
  tv_sec :: int
  tv_nsec :: int

record 'w clock_api =
  os_time :: "'w \<Rightarrow> int \<times> 'w"
  os_clock_gettime :: "'w \<Rightarrow> (int \<times> timespec) \<times> 'w"
  os_errno :: "'w \<Rightarrow> int"

definition to_int :: "int \<Rightarrow> int" where
  "to_int x = signed_take_bit 31 x"

definition int_value :: "int \<Rightarrow> bool" where
  "int_value x \<longleftrightarrow> - 2147483648 \<le> x \<and> x \<le> 2147483647"

lemma to_int_id: "int_value x \<Longrightarrow> to_int x = x"
  by (simp add: to_int_def int_value_def signed_take_bit_int_eq_self_iff)

lemma to_int_range: "int_value (to_int x)"
  using signed_take_bit_int_greater_eq_minus_exp[of 31 x] signed_take_bit_int_less_exp[of 31 x]
  by (simp add: to_int_def int_value_def)

text \<open>\<open>GetCurrentTime\<close>: \<open>(time_t)-1\<close> is the error value of \<open>time\<close>.\<close>

definition GetCurrentTime :: "('w, 'x) clock_api_scheme \<Rightarrow> (exn, int, 'w) prog" where
  "GetCurrentTime api = (\<lambda>w. let (kCurrTime, w') = os_time api w in
     if kCurrTime = -1 then throw (SystemExc (mk_code (os_errno api w') GenericCategory)) w'
     else ret kCurrTime w')"

definition RelTimeToAbsTime :: "('w, 'x) clock_api_scheme \<Rightarrow> int \<Rightarrow> (exn, timespec, 'w) prog" where
  "RelTimeToAbsTime api relTime = (\<lambda>w. let ((kRetCode, absTime), w') = os_clock_gettime api w in
     if kRetCode \<noteq> ESUCCESS then throw (SystemExc (MakeSystemErrorCode kRetCode)) w'
     else
       let absTime1 = absTime\<lparr>tv_sec := tv_sec absTime + relTime sdiv 1000,
                              tv_nsec := tv_nsec absTime + (relTime smod 1000) * 1000000\<rparr>;
           absTime2 = (if tv_nsec absTime1 \<ge> 1000000000
             then absTime1\<lparr>tv_sec := tv_sec absTime1 + tv_nsec absTime1 sdiv 1000000000,
                           tv_nsec := tv_nsec absTime1 smod 1000000000\<rparr>
             else absTime1)
       in ret absTime2 w')"

definition nanoseconds :: "timespec \<Rightarrow> int" where
  "nanoseconds t = tv_sec t * 1000000000 + tv_nsec t"

definition normalized :: "timespec \<Rightarrow> bool" where
  "normalized t \<longleftrightarrow> 0 \<le> tv_nsec t \<and> tv_nsec t < 1000000000"

section \<open>Lemmas\<close>

lemma sdiv_smod_nonneg: "0 \<le> (a::int) \<Longrightarrow> 0 < b \<Longrightarrow> a sdiv b = a div b \<and> a smod b = a mod b"
  by (simp add: signed_divide_int_def signed_modulo_int_def sgn_if)

lemma sdiv_smod_split: "(a::int) sdiv 1000 * 1000000000 + a smod 1000 * 1000000 = a * 1000000"
  using sdiv_mult_smod_eq[of a 1000] by linarith

lemma normalize_exact:
  assumes "tv_nsec t \<ge> 1000000000"
  shows "nanoseconds (t\<lparr>tv_sec := tv_sec t + tv_nsec t sdiv 1000000000, tv_nsec := tv_nsec t smod 1000000000\<rparr>)
      = nanoseconds t"
    and "normalized (t\<lparr>tv_sec := tv_sec t + tv_nsec t sdiv 1000000000, tv_nsec := tv_nsec t smod 1000000000\<rparr>)"
  using assms sdiv_mult_smod_eq[of "tv_nsec t" 1000000000]
  by (auto simp: nanoseconds_def normalized_def sdiv_smod_nonneg)

lemma RelTimeToAbsTime_exact:
  assumes clock: "os_clock_gettime api w = ((0, now), w')" and now: "normalized now"
  shows "\<exists>t. RelTimeToAbsTime api relTime w = Some (Ret t w')
          \<and> nanoseconds t = nanoseconds now + relTime * 1000000
          \<and> tv_nsec t < 1000000000 \<and> (0 \<le> relTime \<longrightarrow> normalized t)"
proof -
  define t1 where "t1 = now\<lparr>tv_sec := tv_sec now + relTime sdiv 1000,
      tv_nsec := tv_nsec now + (relTime smod 1000) * 1000000\<rparr>"
  have n1: "nanoseconds t1 = nanoseconds now + relTime * 1000000"
    using sdiv_smod_split[of relTime] by (simp add: t1_def nanoseconds_def algebra_simps)
  have low: "0 \<le> relTime \<longrightarrow> 0 \<le> tv_nsec t1"
    using now by (simp add: t1_def normalized_def sdiv_smod_nonneg)
  define t2 where "t2 = (if tv_nsec t1 \<ge> 1000000000
      then t1\<lparr>tv_sec := tv_sec t1 + tv_nsec t1 sdiv 1000000000, tv_nsec := tv_nsec t1 smod 1000000000\<rparr> else t1)"
  have r: "RelTimeToAbsTime api relTime w = Some (Ret t2 w')"
    by (simp add: RelTimeToAbsTime_def clock Let_def t1_def t2_def)
  have "nanoseconds t2 = nanoseconds t1 \<and> (if tv_nsec t1 \<ge> 1000000000 then normalized t2 else t2 = t1)"
    using normalize_exact[of t1] by (simp add: t2_def)
  then show ?thesis
    using n1 low r by (auto simp: normalized_def split: if_splits)
qed

section \<open>Properties\<close>

text \<open>\<open>RelTimeToAbsTime\<close> fails exactly when \<open>clock_gettime\<close> does; otherwise the deadline is the
  current time plus \<open>relTime\<close> milliseconds, exact to the nanosecond for negative arguments too.  For a
  non-negative \<open>relTime\<close> it is a normalised \<open>timespec\<close>, as \<open>pthread_mutex_timedlock\<close> demands.\<close>

theorem RelTimeToAbsTime_spec:
  assumes clock: "os_clock_gettime api w = ((rc, now), w')" and now: "normalized now"
  shows "(rc \<noteq> 0 \<longrightarrow> RelTimeToAbsTime api relTime w = Some (Exc (SystemExc (MakeSystemErrorCode rc)) w'))
    \<and> (rc = 0 \<longrightarrow> (\<exists>t. RelTimeToAbsTime api relTime w = Some (Ret t w')
          \<and> nanoseconds t = nanoseconds now + relTime * 1000000
          \<and> tv_nsec t < 1000000000 \<and> (0 \<le> relTime \<longrightarrow> normalized t)))"
proof (cases "rc = 0")
  case True
  then show ?thesis using RelTimeToAbsTime_exact[OF _ now, of api w w' relTime] clock by auto
qed (use clock in \<open>simp add: RelTimeToAbsTime_def\<close>)

definition example_clock :: "int clock_api" where
  "example_clock = \<lparr>os_time = (\<lambda>w. (w, w + 1)),
     os_clock_gettime = (\<lambda>w. ((0, \<lparr>tv_sec = w, tv_nsec = 999000000\<rparr>), w + 1)),
     os_errno = (\<lambda>_. 0)\<rparr>"

theorem RelTimeToAbsTime_spec_witness:
  "\<exists>t. RelTimeToAbsTime example_clock 1500 7 = Some (Ret t 8) \<and> nanoseconds t = 9499000000 \<and> normalized t"
proof -
  have "os_clock_gettime example_clock 7 = ((0, \<lparr>tv_sec = 7, tv_nsec = 999000000\<rparr>), 8)"
    by (simp add: example_clock_def)
  from RelTimeToAbsTime_spec[OF this, of 1500] show ?thesis
    by (auto simp: normalized_def nanoseconds_def)
qed

end
