(* ===== verification/Retry.thy ===== *)
theory Retry
imports TimeUtils
begin

text \<open>
  Calls of the system that a signal may interrupt (\<open>config/platform_compiler/unix_gcc.hpp\<close>).
\<close>

text \<open>\<open>TEMP_FAILURE_RETRY\<close>: evaluate again while the value is \<open>-1\<close> with \<open>errno\<close> equal to \<open>EINTR\<close>.\<close>

partial_function (option) TEMP_FAILURE_RETRY :: "('s \<Rightarrow> int) \<Rightarrow> ('s \<Rightarrow> (int \<times> 's) option) \<Rightarrow> 's \<Rightarrow> (int \<times> 's) option" where
  [code]: "TEMP_FAILURE_RETRY errno expr s = Option.bind (expr s) (\<lambda>p.
     if fst p = - 1 \<and> errno (snd p) = EINTR then TEMP_FAILURE_RETRY errno expr (snd p) else Some p)"

text \<open>What every single evaluation guarantees holds of the value the retried one gives, which is never that of
  an interrupted call; and the retried call returns when the interruptions are finitely many.\<close>

lemma retry_result:
  assumes r: "TEMP_FAILURE_RETRY errno expr s = Some p" and s: "I s"
    and step: "\<And>s rc s'. I s \<Longrightarrow> expr s = Some (rc, s') \<Longrightarrow> if rc = - 1 \<and> errno s' = EINTR then I s' else Q rc s'"
  shows "Q (fst p) (snd p) \<and> \<not> (fst p = - 1 \<and> errno (snd p) = EINTR)"
proof -
  have "e = errno \<longrightarrow> f = expr \<longrightarrow> I s \<longrightarrow> Q (fst p) (snd p) \<and> \<not> (fst p = - 1 \<and> errno (snd p) = EINTR)"
    if "TEMP_FAILURE_RETRY e f s = Some p" for e f s p
  proof (rule TEMP_FAILURE_RETRY.raw_induct[OF _ that])
    fix loop e f s p
    assume IH: "\<And>e f s p. loop e f s = Some p \<Longrightarrow> e = errno \<longrightarrow> f = expr \<longrightarrow> I s \<longrightarrow>
          Q (fst p) (snd p) \<and> \<not> (fst p = - 1 \<and> errno (snd p) = EINTR)"
      and b: "Option.bind (f s) (\<lambda>p. if fst p = - 1 \<and> e (snd p) = EINTR then loop e f (snd p) else Some p) = Some p"
    show "e = errno \<longrightarrow> f = expr \<longrightarrow> I s \<longrightarrow> Q (fst p) (snd p) \<and> \<not> (fst p = - 1 \<and> errno (snd p) = EINTR)"
    proof (intro impI)
      assume ef: "e = errno" "f = expr" and I: "I s"
      obtain rc s' where x: "expr s = Some (rc, s')" using b ef by (cases "expr s") auto
      show "Q (fst p) (snd p) \<and> \<not> (fst p = - 1 \<and> errno (snd p) = EINTR)"
        using step[OF I x] b x ef IH[of errno expr s' p] by (auto split: if_splits)
    qed
  qed
  then show ?thesis using r s by blast
qed

lemma retry_returns:
  assumes step: "\<And>s. I s \<Longrightarrow> \<exists>rc s'. expr s = Some (rc, s') \<and> (rc = - 1 \<and> errno s' = EINTR \<longrightarrow> I s' \<and> m s' < (m s :: nat))"
    and s: "I s"
  shows "\<exists>p. TEMP_FAILURE_RETRY errno expr s = Some p"
  using s
proof (induction "m s" arbitrary: s rule: less_induct)
  case less
  from step[OF less.prems] obtain rc s' where e: "expr s = Some (rc, s')" "rc = - 1 \<and> errno s' = EINTR \<longrightarrow> I s' \<and> m s' < m s"
    by blast
  show ?case
  proof (cases "rc = - 1 \<and> errno s' = EINTR")
    case True
    then show ?thesis using e less.hyps[of s'] by (subst TEMP_FAILURE_RETRY.simps) simp
  next
    case False
    then show ?thesis using e(1) by (subst TEMP_FAILURE_RETRY.simps) auto
  qed
qed

end
