(* ===== verification/SignalsWatcher.thy ===== *)
theory SignalsWatcher
imports Retry
begin

text \<open>
  The watcher of POSIX signals (\<open>src/base/posix_signals_watcher_unx.cpp\<close>, \<open>socket_pair_unx.cpp\<close>): a signal handler
  writes a byte into a socket pair, and the event loop reads it and emits a Qt signal.

  The static members are the object of the operations; the functions of the system and the allocation of a
  \<open>QSocketNotifier\<close> are fields of \<open>signal_api\<close>.  Connecting a signal to a slot does not fail.
\<close>

section \<open>The state\<close>

datatype action = Watcher_Handler | Other_Action nat

type_synonym sock = int

record 'w signal_api =
  sg_ndebug :: bool
  sg_errno :: "'w \<Rightarrow> int"
  os_socketpair :: "'w \<Rightarrow> (int \<times> sock \<times> sock) \<times> 'w"
  os_getfl :: "sock \<Rightarrow> 'w \<Rightarrow> int \<times> 'w"
  os_setfl_nonblock :: "sock \<Rightarrow> int \<Rightarrow> 'w \<Rightarrow> int \<times> 'w"
  os_close_sock :: "sock \<Rightarrow> 'w \<Rightarrow> int \<times> 'w"
  os_sigaction :: "int \<Rightarrow> action \<Rightarrow> 'w \<Rightarrow> (int \<times> action) \<times> 'w"
  os_read_byte :: "sock \<Rightarrow> 'w \<Rightarrow> (int \<times> int) \<times> 'w"
  os_write_byte :: "sock \<Rightarrow> int \<Rightarrow> 'w \<Rightarrow> int \<times> 'w"
  qt_new_notifier :: "'w \<Rightarrow> bool \<times> 'w"

datatype qsignal = Raised int | SigTerm | SigInt | SigHUp | SigChld | SigTStp | SigTtOu | SigTtIn

record watcher =
  readSockets :: "int \<Rightarrow> sock"
  writeSockets :: "int \<Rightarrow> sock"
  socketNotifiers :: "int \<Rightarrow> sock option"
  oldSigActions :: "int \<Rightarrow> action"
  emitted :: "qsignal list"

abbreviation (input) "kInvalidSocket \<equiv> (- 1 :: sock)"
abbreviation (input) "SIGNULL \<equiv> (0 :: int)"
abbreviation (input) "SIGHUP \<equiv> (1 :: int)"
abbreviation (input) "SIGINT \<equiv> (2 :: int)"
abbreviation (input) "SIGKILL \<equiv> (9 :: int)"
abbreviation (input) "SIGTERM \<equiv> (15 :: int)"
abbreviation (input) "SIGCHLD \<equiv> (17 :: int)"
abbreviation (input) "SIGSTOP \<equiv> (19 :: int)"
abbreviation (input) "SIGTSTP \<equiv> (20 :: int)"
abbreviation (input) "SIGTTIN \<equiv> (21 :: int)"
abbreviation (input) "SIGTTOU \<equiv> (22 :: int)"
abbreviation (input) "kNumSigs \<equiv> (64 :: int)"

type_synonym ('a, 'w) sprog = "(exn, 'a, 'w \<times> watcher) prog"

abbreviation sg_assert :: "('w, 'x) signal_api_scheme \<Rightarrow> bool \<Rightarrow> (unit, 'w) sprog" where
  "sg_assert api b \<equiv> cpp_assert (sg_ndebug api) b"

definition OutOfRange :: exn where "OutOfRange = mk_exn OutOfRangeException"

section \<open>Watching\<close>

definition assert_sig :: "('w, 'x) signal_api_scheme \<Rightarrow> int \<Rightarrow> (unit, 'w) sprog" where
  "assert_sig api sig = andthen (sg_assert api (sig \<noteq> SIGNULL)) (andthen (sg_assert api (sig \<noteq> SIGKILL))
     (andthen (sg_assert api (sig \<noteq> SIGSTOP)) (sg_assert api (1 \<le> sig \<and> sig \<le> kNumSigs))))"

definition slot_consistent :: "int \<Rightarrow> watcher \<Rightarrow> bool" where
  "slot_consistent sig s \<longleftrightarrow>
     (readSockets s sig = kInvalidSocket \<and> writeSockets s sig = kInvalidSocket \<and> socketNotifiers s sig = None)
   \<or> (readSockets s sig \<noteq> kInvalidSocket \<and> writeSockets s sig \<noteq> kInvalidSocket \<and> socketNotifiers s sig \<noteq> None)"

definition IsWatched :: "('w, 'x) signal_api_scheme \<Rightarrow> int \<Rightarrow> (bool, 'w) sprog" where
  "IsWatched api sig = andthen (check (sig \<noteq> SIGNULL) InvalidArgument) (andthen (check (sig \<noteq> SIGKILL) InvalidArgument)
     (andthen (check (sig \<noteq> SIGSTOP) InvalidArgument) (andthen (check (1 \<le> sig \<and> sig \<le> kNumSigs) OutOfRange)
     (bind (this (slot_consistent sig)) (\<lambda>ok. andthen (sg_assert api ok) (this (\<lambda>s. socketNotifiers s sig \<noteq> None)))))))"

definition set_sockets :: "int \<Rightarrow> sock \<Rightarrow> sock \<Rightarrow> (unit, 'w) sprog" where
  "set_sockets sig rd wr = modify (\<lambda>s. s\<lparr>readSockets := (readSockets s)(sig := rd), writeSockets := (writeSockets s)(sig := wr)\<rparr>)"

definition SocketPair :: "('w, 'x) signal_api_scheme \<Rightarrow> int \<Rightarrow> (int, 'w) sprog" where
  "SocketPair api sig = bind (env (call (os_socketpair api))) (\<lambda>(retCode, rd, wr).
     andthen (if retCode \<noteq> ESUCCESS then set_sockets sig kInvalidSocket kInvalidSocket else set_sockets sig rd wr) (ret retCode))"

definition MakeWriteSocketNonBlocking :: "('w, 'x) signal_api_scheme \<Rightarrow> int \<Rightarrow> (bool, 'w) sprog" where
  "MakeWriteSocketNonBlocking api sig = andthen (assert_sig api sig) (bind (this (\<lambda>s. writeSockets s sig)) (\<lambda>writeSocket.
     andthen (sg_assert api (writeSocket \<noteq> kInvalidSocket)) (bind (env (call (os_getfl api writeSocket))) (\<lambda>socketFlags.
       if socketFlags = - 1 then ret False
       else bind (env (call (os_setfl_nonblock api writeSocket socketFlags))) (\<lambda>rc. ret (rc \<noteq> - 1))))))"

definition CloseSocketPair :: "('w, 'x) signal_api_scheme \<Rightarrow> int \<Rightarrow> (bool, 'w) sprog" where
  "CloseSocketPair api sig = andthen (assert_sig api sig) (bind (this (\<lambda>s. writeSockets s sig)) (\<lambda>writeSocket.
     andthen (sg_assert api (writeSocket \<noteq> kInvalidSocket)) (bind (env (call (os_close_sock api writeSocket))) (\<lambda>rc.
     andthen (modify (\<lambda>s. s\<lparr>writeSockets := (writeSockets s)(sig := kInvalidSocket)\<rparr>))
       (bind (this (\<lambda>s. readSockets s sig)) (\<lambda>readSocket.
       andthen (sg_assert api (readSocket \<noteq> kInvalidSocket)) (bind (env (call (os_close_sock api readSocket))) (\<lambda>rc'.
       andthen (modify (\<lambda>s. s\<lparr>readSockets := (readSockets s)(sig := kInvalidSocket)\<rparr>)) (ret (rc = 0 \<and> rc' = 0))))))))))"

text \<open>The \<open>try\<close> block of \<open>Watch\<close>.\<close>

definition RegisterHandler :: "('w, 'x) signal_api_scheme \<Rightarrow> int \<Rightarrow> (unit, 'w) sprog" where
  "RegisterHandler api sig = bind (this (\<lambda>s. socketNotifiers s sig)) (\<lambda>notifier. andthen (sg_assert api (notifier = None))
     (bind (env (call (qt_new_notifier api))) (\<lambda>allocated. if \<not> allocated then throw bad_alloc
      else andthen (modify (\<lambda>s. s\<lparr>socketNotifiers := (socketNotifiers s)(sig := Some (readSockets s sig))\<rparr>))
        (bind (env (call (os_sigaction api sig Watcher_Handler))) (\<lambda>(rc, old).
           if rc \<noteq> 0 then andthen (modify (\<lambda>s. s\<lparr>socketNotifiers := (socketNotifiers s)(sig := None)\<rparr>))
             (\<lambda>(w, s). throw (SystemExc (mk_code (sg_errno api w) SystemCategory)) (w, s))
           else modify (\<lambda>s. s\<lparr>oldSigActions := (oldSigActions s)(sig := old)\<rparr>))))))"

text \<open>\<open>catch (const std::runtime_error&)\<close>: other exceptions leave the function.\<close>

definition catch_runtime_error :: "('a, 'w) sprog \<Rightarrow> ('a, 'w) sprog \<Rightarrow> ('a, 'w) sprog" where
  "catch_runtime_error m h = catch m (\<lambda>e. if derived_from (exn_class e) std_runtime_error then h else throw e)"

definition Watch :: "('w, 'x) signal_api_scheme \<Rightarrow> int \<Rightarrow> (bool, 'w) sprog" where
  "Watch api sig = bind (IsWatched api sig) (\<lambda>watched. andthen (check (\<not> watched) InvalidArgument)
     (bind (this (\<lambda>s. (readSockets s sig, writeSockets s sig))) (\<lambda>(rd, wr).
      andthen (sg_assert api (rd = kInvalidSocket)) (andthen (sg_assert api (wr = kInvalidSocket))
      (bind (SocketPair api sig) (\<lambda>rc. if rc \<noteq> 0
        then bind (this (\<lambda>s. (readSockets s sig, writeSockets s sig))) (\<lambda>(rd, wr).
          andthen (sg_assert api (rd = kInvalidSocket)) (andthen (sg_assert api (wr = kInvalidSocket)) (ret False)))
        else bind (MakeWriteSocketNonBlocking api sig) (\<lambda>ok. if \<not> ok then andthen (CloseSocketPair api sig) (ret False)
        else catch_runtime_error (andthen (RegisterHandler api sig) (ret True)) (andthen (CloseSocketPair api sig) (ret False)))))))))"

definition Unwatch :: "('w, 'x) signal_api_scheme \<Rightarrow> int \<Rightarrow> (bool, 'w) sprog" where
  "Unwatch api sig = bind (IsWatched api sig) (\<lambda>watched. andthen (check watched InvalidArgument)
     (bind (this (\<lambda>s. oldSigActions s sig)) (\<lambda>old. bind (env (call (os_sigaction api sig old))) (\<lambda>(rc, _).
        if rc \<noteq> 0 then ret False
        else bind (this (\<lambda>s. socketNotifiers s sig)) (\<lambda>notifier. andthen (sg_assert api (notifier \<noteq> None))
          (andthen (modify (\<lambda>s. s\<lparr>socketNotifiers := (socketNotifiers s)(sig := None)\<rparr>))
          (andthen (CloseSocketPair api sig) (ret True))))))))"

definition watcher_ctor :: watcher where
  "watcher_ctor = \<lparr>readSockets = (\<lambda>_. kInvalidSocket), writeSockets = (\<lambda>_. kInvalidSocket), socketNotifiers = (\<lambda>_. None),
     oldSigActions = (\<lambda>_. Other_Action 0), emitted = []\<rparr>"

fun unwatch_each :: "('w, 'x) signal_api_scheme \<Rightarrow> int list \<Rightarrow> (unit, 'w) sprog" where
  "unwatch_each api [] = ret ()"
| "unwatch_each api (sig # sigs) = andthen
     (if sig \<noteq> SIGKILL \<and> sig \<noteq> SIGSTOP
      then bind (IsWatched api sig) (\<lambda>watched. if watched then andthen (Unwatch api sig) (ret ()) else ret ()) else ret ())
     (unwatch_each api sigs)"

definition watcher_dtor :: "('w, 'x) signal_api_scheme \<Rightarrow> (unit, 'w) sprog" where
  "watcher_dtor api = noexcept (unwatch_each api [1..kNumSigs])"

section \<open>Signals\<close>

text \<open>The signal handler.  The codes of \<open>write\<close> that are given up silently; all others are asserted not to occur.\<close>

definition PosixSignalHandler :: "('w, 'x) signal_api_scheme \<Rightarrow> int \<Rightarrow> (unit, 'w) sprog" where
  "PosixSignalHandler api sig = andthen (assert_sig api sig) (bind (this (\<lambda>s. writeSockets s sig)) (\<lambda>writeSocket.
     andthen (sg_assert api (writeSocket \<noteq> kInvalidSocket))
     (bind (env (call_blocking (TEMP_FAILURE_RETRY (sg_errno api) (\<lambda>w. Some (os_write_byte api writeSocket sig w))))) (\<lambda>kWritten.
        if kWritten = - 1 then (\<lambda>(w, s). sg_assert api (sg_errno api w \<in> {EAGAIN, EIO, ENOBUFS, ENOSPC}) (w, s))
        else sg_assert api (kWritten = 1)))))"

definition Dispatch :: "('w, 'x) signal_api_scheme \<Rightarrow> int \<Rightarrow> (unit, 'w) sprog" where
  "Dispatch api sig = andthen (assert_sig api sig)
     (let emit = (\<lambda>q. modify (\<lambda>s. s\<lparr>emitted := emitted s @ [q]\<rparr>)) in
      if sig = SIGTERM then emit SigTerm else if sig = SIGINT then emit SigInt else if sig = SIGHUP then emit SigHUp
      else if sig = SIGCHLD then emit SigChld else if sig = SIGTSTP then emit SigTStp else if sig = SIGTTOU then emit SigTtOu
      else if sig = SIGTTIN then emit SigTtIn else ret ())"

definition find_sig :: "sock \<Rightarrow> watcher \<Rightarrow> int" where
  "find_sig socket s = (case List.find (\<lambda>sig. readSockets s sig = socket) [1..kNumSigs] of None \<Rightarrow> SIGNULL | Some sig \<Rightarrow> sig)"

text \<open>\<open>Raised\<close> is connected to \<open>Dispatch\<close>.\<close>

definition QtSignalHandler :: "('w, 'x) signal_api_scheme \<Rightarrow> sock \<Rightarrow> (unit, 'w) sprog" where
  "QtSignalHandler api socket = andthen (sg_assert api (socket \<noteq> kInvalidSocket)) (bind (this (find_sig socket)) (\<lambda>sig.
     if sig = SIGNULL then ret ()
     else bind (this (\<lambda>s. readSockets s sig)) (\<lambda>readSocket.
       bind (env (call_blocking (\<lambda>w. map_option (\<lambda>(rc, msg, w'). ((rc, msg), w'))
          (TEMP_FAILURE_RETRY (\<lambda>(msg, w). sg_errno api w) (\<lambda>(msg, w). Some (let ((rc, m), w') = os_read_byte api readSocket w in (rc, m, w')))
             (SIGNULL, w))))) (\<lambda>(kReaded, msg).
         if kReaded = - 1 then ret ()
         else andthen (if kReaded = 1 then sg_assert api (msg = sig) else sg_assert api False)
           (andthen (modify (\<lambda>s. s\<lparr>emitted := emitted s @ [Raised sig]\<rparr>)) (Dispatch api sig))))))"

section \<open>The contract of the system\<close>

text \<open>\<open>peer\<close> maps the write end of a pair to its read end, \<open>pipe\<close> gives what is to be read at a read end.  A write
  to a non-blocking socket fails only when its buffer is full, and then there is something to read.\<close>

locale signal_system =
  fixes api :: "('w, 'x) signal_api_scheme" and open_socks :: "'w \<Rightarrow> sock set" and disposition :: "'w \<Rightarrow> int \<Rightarrow> action"
    and peer :: "'w \<Rightarrow> sock \<Rightarrow> sock option" and pipe :: "'w \<Rightarrow> sock \<Rightarrow> int list"
  assumes socketpair: "os_socketpair api w = ((rc, a, b), w') \<Longrightarrow>
      rc = 0 \<and> a \<noteq> b \<and> a \<noteq> - 1 \<and> b \<noteq> - 1 \<and> a \<notin> open_socks w \<and> b \<notin> open_socks w \<and> open_socks w' = insert a (insert b (open_socks w))
        \<and> disposition w' = disposition w \<and> peer w' = (peer w)(b \<mapsto> a) \<and> pipe w' = (pipe w)(a := [])
      \<or> rc \<noteq> 0 \<and> open_socks w' = open_socks w \<and> disposition w' = disposition w \<and> peer w' = peer w \<and> pipe w' = pipe w"
    and getfl: "os_getfl api a w = (rc, w') \<Longrightarrow>
      open_socks w' = open_socks w \<and> disposition w' = disposition w \<and> peer w' = peer w \<and> pipe w' = pipe w"
    and setfl: "os_setfl_nonblock api a fl w = (rc, w') \<Longrightarrow>
      open_socks w' = open_socks w \<and> disposition w' = disposition w \<and> peer w' = peer w \<and> pipe w' = pipe w"
    and notifier: "qt_new_notifier api w = (ok, w') \<Longrightarrow>
      open_socks w' = open_socks w \<and> disposition w' = disposition w \<and> peer w' = peer w \<and> pipe w' = pipe w"
    and close_sock: "os_close_sock api a w = (rc, w') \<Longrightarrow> a \<in> open_socks w \<Longrightarrow>
      open_socks w' = open_socks w - {a} \<and> disposition w' = disposition w \<and> peer w' = peer w \<and> pipe w' = pipe w"
    and sigaction: "os_sigaction api sig act w = ((rc, old), w') \<Longrightarrow>
      open_socks w' = open_socks w \<and> peer w' = peer w \<and> pipe w' = pipe w
        \<and> (rc = 0 \<and> old = disposition w sig \<and> disposition w' = (disposition w)(sig := act) \<or> rc \<noteq> 0 \<and> disposition w' = disposition w)"
    and read_byte: "os_read_byte api a w = ((rc, m), w') \<Longrightarrow> a \<in> open_socks w \<Longrightarrow> pipe w a \<noteq> [] \<Longrightarrow>
      open_socks w' = open_socks w \<and> disposition w' = disposition w \<and> peer w' = peer w
        \<and> (rc = 1 \<and> m = hd (pipe w a) \<and> pipe w' = (pipe w)(a := tl (pipe w a)) \<or> rc = - 1 \<and> sg_errno api w' \<noteq> EINTR \<and> pipe w' = pipe w)"
    and write_byte: "os_write_byte api b m w = (rc, w') \<Longrightarrow> b \<in> open_socks w \<Longrightarrow> peer w b = Some a \<Longrightarrow>
      open_socks w' = open_socks w \<and> disposition w' = disposition w \<and> peer w' = peer w
        \<and> (rc = 1 \<and> pipe w' = (pipe w)(a := pipe w a @ [m]) \<or> rc = - 1 \<and> sg_errno api w' = EAGAIN \<and> pipe w a \<noteq> [] \<and> pipe w' = pipe w)"
begin

definition same :: "'w \<Rightarrow> 'w \<Rightarrow> bool" where
  "same w w' \<longleftrightarrow> open_socks w' = open_socks w \<and> disposition w' = disposition w \<and> peer w' = peer w \<and> pipe w' = pipe w"

text \<open>The slot of a signal, seen from the state before anything was watched.\<close>

definition slot_ok :: "'w \<Rightarrow> 'w \<Rightarrow> watcher \<Rightarrow> int \<Rightarrow> bool" where
  "slot_ok w0 w s sig \<longleftrightarrow> (case socketNotifiers s sig of
     None \<Rightarrow> readSockets s sig = - 1 \<and> writeSockets s sig = - 1 \<and> disposition w sig = disposition w0 sig
   | Some a \<Rightarrow> a = readSockets s sig \<and> a \<noteq> - 1 \<and> writeSockets s sig \<noteq> - 1 \<and> writeSockets s sig \<noteq> a
       \<and> {a, writeSockets s sig} \<subseteq> open_socks w \<and> peer w (writeSockets s sig) = Some a
       \<and> disposition w sig = Watcher_Handler \<and> oldSigActions s sig = disposition w0 sig \<and> set (pipe w a) \<subseteq> {sig}
       \<and> sig \<notin> {SIGNULL, SIGKILL, SIGSTOP} \<and> 1 \<le> sig \<and> sig \<le> kNumSigs)"

definition sockets_of :: "watcher \<Rightarrow> int \<Rightarrow> sock set" where
  "sockets_of s sig = (if socketNotifiers s sig = None then {} else {readSockets s sig, writeSockets s sig})"

definition watcher_inv :: "'w \<Rightarrow> 'w \<Rightarrow> watcher \<Rightarrow> bool" where
  "watcher_inv w0 w s \<longleftrightarrow> (\<forall>sig. slot_ok w0 w s sig) \<and> (\<forall>sig sig'. sig \<noteq> sig' \<longrightarrow> sockets_of s sig \<inter> sockets_of s sig' = {})
     \<and> open_socks w = open_socks w0 \<union> (\<Union>sig. sockets_of s sig) \<and> open_socks w0 \<inter> (\<Union>sig. sockets_of s sig) = {}"

lemma slot_consistent_ok: "slot_ok w0 w s sig \<Longrightarrow> slot_consistent sig s"
  by (auto simp: slot_ok_def slot_consistent_def split: option.splits)

lemma slot_ok_same: "same w w' \<Longrightarrow> slot_ok w0 w' s = slot_ok w0 w s"
  by (rule ext) (simp add: slot_ok_def same_def split: option.splits)

lemma watcher_inv_same: "watcher_inv w0 w s \<Longrightarrow> same w w' \<Longrightarrow> watcher_inv w0 w' s"
  unfolding watcher_inv_def by (simp only: slot_ok_same) (auto simp: same_def)

end

abbreviation watchable :: "int \<Rightarrow> bool" where
  "watchable sig \<equiv> sig \<noteq> SIGNULL \<and> sig \<noteq> SIGKILL \<and> sig \<noteq> SIGSTOP \<and> 1 \<le> sig \<and> sig \<le> kNumSigs"

lemma assert_sig_eval [simp]: "watchable sig \<Longrightarrow> assert_sig api sig ws = Some (Ret () ws)"
  by (cases ws) (simp add: assert_sig_def)

lemma IsWatched_eval:
  assumes "slot_consistent sig s" "watchable sig"
  shows "IsWatched api sig (w, s) = Some (Ret (socketNotifiers s sig \<noteq> None) (w, s))"
  using assms by (simp add: IsWatched_def)

lemma IsWatched_invalid: "\<not> watchable sig \<Longrightarrow> \<exists>e. IsWatched api sig st = Some (Exc e st)"
  by (cases st; cases "sig = 0"; cases "sig = 9"; cases "sig = 19") (auto simp: IsWatched_def)

lemma CloseSocketPair_eval:
  assumes "watchable sig" "writeSockets s sig \<noteq> - 1" "readSockets s sig \<noteq> - 1"
    and "os_close_sock api (writeSockets s sig) w = (rc, w1)" "os_close_sock api (readSockets s sig) w1 = (rc', w2)"
  shows "CloseSocketPair api sig (w, s) = Some (Ret (rc = 0 \<and> rc' = 0)
    (w2, s\<lparr>writeSockets := (writeSockets s)(sig := - 1), readSockets := (readSockets s)(sig := - 1)\<rparr>))"
  using assms by (simp add: CloseSocketPair_def)

lemma MakeWriteSocketNonBlocking_eval:
  assumes "watchable sig" "writeSockets s sig \<noteq> - 1" "os_getfl api (writeSockets s sig) w = (fl, w1)"
    "os_setfl_nonblock api (writeSockets s sig) fl w1 = (rc, w2)"
  shows "MakeWriteSocketNonBlocking api sig (w, s) = Some (if fl = - 1 then Ret False (w1, s) else Ret (rc \<noteq> - 1) (w2, s))"
  using assms by (simp add: MakeWriteSocketNonBlocking_def)


context signal_system
begin

lemma same_trans: "same w w' \<Longrightarrow> same w' w'' \<Longrightarrow> same w w''"
  by (simp add: same_def)

text \<open>The state after a successful \<open>Watch\<close>, with the sockets \<open>a\<close> and \<open>b\<close>.\<close>

definition starts_watching :: "int \<Rightarrow> sock \<Rightarrow> sock \<Rightarrow> 'w \<Rightarrow> watcher \<Rightarrow> 'w \<Rightarrow> watcher \<Rightarrow> bool" where
  "starts_watching sig a b w s w' s' \<longleftrightarrow> a \<noteq> b \<and> a \<noteq> - 1 \<and> b \<noteq> - 1 \<and> a \<notin> open_socks w \<and> b \<notin> open_socks w
     \<and> s' = s\<lparr>readSockets := (readSockets s)(sig := a), writeSockets := (writeSockets s)(sig := b),
          socketNotifiers := (socketNotifiers s)(sig := Some a), oldSigActions := (oldSigActions s)(sig := disposition w sig)\<rparr>
     \<and> open_socks w' = insert a (insert b (open_socks w)) \<and> disposition w' = (disposition w)(sig := Watcher_Handler)
     \<and> peer w' = (peer w)(b \<mapsto> a) \<and> pipe w' = (pipe w)(a := [])"

lemma CloseSocketPair_undoes:
  assumes "open_socks w' = insert a (insert b (open_socks w))" "a \<notin> open_socks w" "b \<notin> open_socks w" "a \<noteq> b" "a \<noteq> - 1" "b \<noteq> - 1"
    and "watchable sig" "readSockets s sig = a" "writeSockets s sig = b"
  shows "\<exists>r w''. CloseSocketPair api sig (w', s) = Some (Ret r (w'', s\<lparr>writeSockets := (writeSockets s)(sig := - 1), readSockets := (readSockets s)(sig := - 1)\<rparr>))
    \<and> open_socks w'' = open_socks w \<and> disposition w'' = disposition w' \<and> peer w'' = peer w' \<and> pipe w'' = pipe w'"
proof -
  obtain rc w1 where c1: "os_close_sock api b w' = (rc, w1)" by fastforce
  obtain rc' w2 where c2: "os_close_sock api a w1 = (rc', w2)" by fastforce
  have w1: "open_socks w1 = open_socks w' - {b}" "disposition w1 = disposition w'" "peer w1 = peer w'" "pipe w1 = pipe w'"
    using close_sock[OF c1] assms(1) by auto
  have "a \<in> open_socks w1" using w1(1) assms(1,4) by simp
  from close_sock[OF c2 this] w1 have "open_socks w2 = open_socks w" "disposition w2 = disposition w'" "peer w2 = peer w'" "pipe w2 = pipe w'"
    using assms(1-4) by auto
  then show ?thesis using CloseSocketPair_eval[of sig s api w' rc w1 rc' w2] c1 c2 assms(5-9) by auto
qed

lemma Watch_unwatched:
  assumes ok: "slot_ok w0 w s sig" and sig: "watchable sig" "socketNotifiers s sig = None"
  shows "(\<exists>w'. Watch api sig (w, s) = Some (Ret False (w', s)) \<and> open_socks w' = open_socks w \<and> disposition w' = disposition w
        \<and> (\<forall>b. b \<in> open_socks w \<longrightarrow> peer w' b = peer w b \<and> pipe w' b = pipe w b))
    \<or> (\<exists>a b w' s'. Watch api sig (w, s) = Some (Ret True (w', s')) \<and> starts_watching sig a b w s w' s')
    \<or> (\<exists>e w' s'. Watch api sig (w, s) = Some (Exc e (w', s')))"
proof -
  have un: "readSockets s sig = - 1" "writeSockets s sig = - 1" using ok sig(2) by (auto simp: slot_ok_def)
  have isw: "IsWatched api sig (w, s) = Some (Ret False (w, s))" using IsWatched_eval[OF slot_consistent_ok[OF ok] sig(1)] sig(2) by simp
  obtain rc a b w1 where sp: "os_socketpair api w = ((rc, a, b), w1)" by (metis surj_pair)
  show ?thesis
  proof (cases "rc = 0")
    case False
    then have "Watch api sig (w, s) = Some (Ret False (w1, s))"
      using isw un sp by (simp add: Watch_def SocketPair_def set_sockets_def fun_upd_idem)
    then show ?thesis using socketpair[OF sp] False by auto
  next
    case True
    then have w1: "a \<noteq> b" "a \<noteq> - 1" "b \<noteq> - 1" "a \<notin> open_socks w" "b \<notin> open_socks w" "open_socks w1 = insert a (insert b (open_socks w))"
        "disposition w1 = disposition w" "peer w1 = (peer w)(b \<mapsto> a)" "pipe w1 = (pipe w)(a := [])"
      using socketpair[OF sp] by auto
    let ?s1 = "s\<lparr>readSockets := (readSockets s)(sig := a), writeSockets := (writeSockets s)(sig := b)\<rparr>"
    have restored: "?s1\<lparr>writeSockets := (writeSockets ?s1)(sig := - 1), readSockets := (readSockets ?s1)(sig := - 1)\<rparr> = s"
      using un by (simp add: fun_upd_idem)
    obtain fl w2 where gf: "os_getfl api b w1 = (fl, w2)" by fastforce
    obtain rc2 w3 where sf: "os_setfl_nonblock api b fl w2 = (rc2, w3)" by fastforce
    have w23: "same w1 w2" "same w1 w3" using getfl[OF gf] setfl[OF sf] by (simp_all add: same_def)
    define w4 where "w4 = (if fl = - 1 then w2 else w3)"
    have w4: "same w1 w4" using w23 by (simp add: w4_def)
    obtain r5 w5 where cl: "CloseSocketPair api sig (w4, ?s1) = Some (Ret r5 (w5, s))"
        "open_socks w5 = open_socks w" "disposition w5 = disposition w4" "peer w5 = peer w4" "pipe w5 = pipe w4"
      using CloseSocketPair_undoes[of w4 a b w sig ?s1] w4 w1(1-6) sig(1) restored by (auto simp: same_def)
    have nb: "MakeWriteSocketNonBlocking api sig (w1, ?s1) = Some (Ret (fl \<noteq> - 1 \<and> rc2 \<noteq> - 1) (w4, ?s1))"
      using MakeWriteSocketNonBlocking_eval[OF sig(1), of ?s1 api w1 fl w2 rc2 w3] gf sf w1(3) by (simp add: w4_def)
    have run: "Watch api sig (w, s) = (if fl \<noteq> - 1 \<and> rc2 \<noteq> - 1
        then catch_runtime_error (andthen (RegisterHandler api sig) (ret True)) (andthen (CloseSocketPair api sig) (ret False)) (w4, ?s1)
        else Some (Ret False (w5, s)))"
      using isw un sp True nb cl(1) by (simp add: Watch_def SocketPair_def set_sockets_def)
    show ?thesis
    proof (cases "fl \<noteq> - 1 \<and> rc2 \<noteq> - 1")
      case False
      then have "Watch api sig (w, s) = Some (Ret False (w5, s))" using run by presburger
      moreover have "peer w5 b' = peer w b'" "pipe w5 b' = pipe w b'" if "b' \<in> open_socks w" for b'
        using that cl w4 w1 by (auto simp: same_def)
      ultimately show ?thesis using cl w4 w1 by (auto simp: same_def)
    next
      case nonblocking: True
      obtain al w6 where n: "qt_new_notifier api w4 = (al, w6)" by fastforce
      obtain rc7 old w7 where sa: "os_sigaction api sig Watcher_Handler w6 = ((rc7, old), w7)" by (metis surj_pair)
      have w6: "same w1 w6" using notifier[OF n] w4 by (simp add: same_def)
      show ?thesis
      proof (cases "al \<and> rc7 = 0")
        case True
        let ?s7 = "?s1\<lparr>socketNotifiers := (socketNotifiers s)(sig := Some a), oldSigActions := (oldSigActions s)(sig := old)\<rparr>"
        have "Watch api sig (w, s) = Some (Ret True (w7, ?s7))"
          using run nonblocking n sa True sig(2) by (simp add: RegisterHandler_def catch_runtime_error_def)
        moreover have "starts_watching sig a b w s w7 ?s7"
          using w1 w6 sigaction[OF sa] True by (simp add: starts_watching_def same_def)
        ultimately show ?thesis by blast
      next
        case failed: False
        then have "\<exists>e w' s'. RegisterHandler api sig (w4, ?s1) = Some (Exc e (w', s')) \<and> \<not> derived_from (exn_class e) std_runtime_error"
          using n sa sig(2) by (cases al) (simp_all add: RegisterHandler_def bad_alloc_def SystemExc_def mk_exn_def mk_exn_ec_def derived_from_iff)
        then show ?thesis using run nonblocking by (auto simp: catch_runtime_error_def)
      qed
    qed
  qed
qed

text \<open>A step that touches no socket that is open keeps the invariant.\<close>

lemma watcher_inv_quiet:
  assumes "watcher_inv w0 w s" "open_socks w' = open_socks w" "disposition w' = disposition w"
    and "\<And>b. b \<in> open_socks w \<Longrightarrow> peer w' b = peer w b \<and> set (pipe w' b) \<subseteq> set (pipe w b)"
  shows "watcher_inv w0 w' s"
proof -
  have "slot_ok w0 w' s sig" for sig
  proof -
    have "slot_ok w0 w s sig" using assms(1) by (simp add: watcher_inv_def)
    then show ?thesis using assms(2-4) by (auto simp: slot_ok_def split: option.splits)
  qed
  then show ?thesis using assms(1,2) by (auto simp: watcher_inv_def)
qed

lemma watcher_inv_outside:
  assumes "watcher_inv w0 w s"
  shows "open_socks w0 \<inter> sockets_of s i = {}" "open_socks w = open_socks w0 \<union> (\<Union>sig. sockets_of s sig)"
  using assms unfolding watcher_inv_def by blast+

lemma starts_watching_inv:
  assumes inv: "watcher_inv w0 w s" and sig: "watchable sig" "socketNotifiers s sig = None" and st: "starts_watching sig a b w s w' s'"
  shows "watcher_inv w0 w' s'"
proof -
  have slots: "slot_ok w0 w s sig'" for sig' using inv by (simp add: watcher_inv_def)
  have st': "a \<noteq> b" "a \<noteq> - 1" "b \<noteq> - 1" "a \<notin> open_socks w" "b \<notin> open_socks w" "open_socks w' = insert a (insert b (open_socks w))"
     "disposition w' = (disposition w)(sig := Watcher_Handler)" "peer w' = (peer w)(b \<mapsto> a)" "pipe w' = (pipe w)(a := [])"
     "socketNotifiers s' = (socketNotifiers s)(sig := Some a)" "readSockets s' = (readSockets s)(sig := a)"
     "writeSockets s' = (writeSockets s)(sig := b)" "oldSigActions s' = (oldSigActions s)(sig := disposition w sig)"
    using st by (auto simp: starts_watching_def)
  have old: "sockets_of s sig' \<subseteq> open_socks w" for sig' using inv by (auto simp: watcher_inv_def)
  have socks: "sockets_of s' sig' = (if sig' = sig then {a, b} else sockets_of s sig')" for sig'
    using st' by (simp add: sockets_of_def)
  have "slot_ok w0 w' s' sig'" for sig'
  proof (cases "sig' = sig")
    case True
    then show ?thesis using slots[of sig] sig st' by (simp add: slot_ok_def)
  next
    case False
    then show ?thesis using slots[of sig'] st' by (auto simp: slot_ok_def split: option.splits)
  qed
  moreover have "open_socks w' = open_socks w0 \<union> (\<Union>sig. sockets_of s' sig)"
  proof -
    have "sockets_of s sig = {}" using sig(2) by (simp add: sockets_of_def)
    then have "(\<Union>sig. sockets_of s' sig) = {a, b} \<union> (\<Union>sig. sockets_of s sig)"
      unfolding socks by (auto split: if_splits)
    then show ?thesis using inv st'(6) by (auto simp: watcher_inv_def)
  qed
  moreover have "open_socks w0 \<inter> (\<Union>sig. sockets_of s' sig) = {}"
  proof -
    have "open_socks w0 \<inter> sockets_of s i = {}" "a \<notin> open_socks w0" "b \<notin> open_socks w0" for i
      using watcher_inv_outside[OF inv] st'(4,5) by auto
    then show ?thesis by (auto simp: socks split: if_splits)
  qed
  moreover have "sockets_of s' i \<inter> sockets_of s' j = {}" if "i \<noteq> j" for i j
    using inv that st'(4,5) old[of i] old[of j] by (auto simp: socks watcher_inv_def split: if_splits)
  ultimately show ?thesis unfolding watcher_inv_def by blast
qed

text \<open>The state after a successful \<open>Unwatch\<close>.\<close>

definition stops_watching :: "int \<Rightarrow> 'w \<Rightarrow> watcher \<Rightarrow> 'w \<Rightarrow> watcher \<Rightarrow> bool" where
  "stops_watching sig w s w' s' \<longleftrightarrow>
       s' = s\<lparr>socketNotifiers := (socketNotifiers s)(sig := None), writeSockets := (writeSockets s)(sig := - 1), readSockets := (readSockets s)(sig := - 1)\<rparr>
     \<and> open_socks w' = open_socks w - {readSockets s sig, writeSockets s sig} \<and> disposition w' = (disposition w)(sig := oldSigActions s sig)
     \<and> peer w' = peer w \<and> pipe w' = pipe w"

lemma Unwatch_watched:
  assumes ok: "slot_ok w0 w s sig" and sig: "socketNotifiers s sig \<noteq> None"
  shows "(\<exists>w'. Unwatch api sig (w, s) = Some (Ret False (w', s)) \<and> same w w')
    \<or> (\<exists>w' s'. Unwatch api sig (w, s) = Some (Ret True (w', s')) \<and> stops_watching sig w s w' s')"
proof -
  have slot: "watchable sig" "socketNotifiers s sig = Some (readSockets s sig)" "readSockets s sig \<noteq> - 1" "writeSockets s sig \<noteq> - 1"
      "writeSockets s sig \<noteq> readSockets s sig" "readSockets s sig \<in> open_socks w" "writeSockets s sig \<in> open_socks w"
    using ok sig by (auto simp: slot_ok_def split: option.splits)
  have isw: "IsWatched api sig (w, s) = Some (Ret True (w, s))" using IsWatched_eval[OF slot_consistent_ok[OF ok] slot(1)] slot(2) by simp
  obtain rc old w1 where sa: "os_sigaction api sig (oldSigActions s sig) w = ((rc, old), w1)" by (metis surj_pair)
  have w1: "open_socks w1 = open_socks w" "peer w1 = peer w" "pipe w1 = pipe w" using sigaction[OF sa] by auto
  show ?thesis
  proof (cases "rc = 0")
    case False
    then have "Unwatch api sig (w, s) = Some (Ret False (w1, s))" using isw sa by (simp add: Unwatch_def)
    then show ?thesis using sigaction[OF sa] False by (auto simp: same_def)
  next
    case True
    let ?s1 = "s\<lparr>socketNotifiers := (socketNotifiers s)(sig := None)\<rparr>"
    obtain rc2 w2 where c1: "os_close_sock api (writeSockets s sig) w1 = (rc2, w2)" by fastforce
    obtain rc3 w3 where c2: "os_close_sock api (readSockets s sig) w2 = (rc3, w3)" by fastforce
    have w2: "open_socks w2 = open_socks w - {writeSockets s sig}" "disposition w2 = disposition w1" "peer w2 = peer w" "pipe w2 = pipe w"
      using close_sock[OF c1] w1 slot(7) by auto
    have w3: "open_socks w3 = open_socks w - {readSockets s sig, writeSockets s sig}" "disposition w3 = disposition w1" "peer w3 = peer w" "pipe w3 = pipe w"
      using close_sock[OF c2] w2 slot(5,6) by auto
    have "CloseSocketPair api sig (w1, ?s1) = Some (Ret (rc2 = 0 \<and> rc3 = 0)
        (w3, ?s1\<lparr>writeSockets := (writeSockets s)(sig := - 1), readSockets := (readSockets s)(sig := - 1)\<rparr>))"
      using CloseSocketPair_eval[OF slot(1), of ?s1 api w1 rc2 w2 rc3 w3] c1 c2 slot(3,4) by simp
    then have "Unwatch api sig (w, s) = Some (Ret True (w3, ?s1\<lparr>writeSockets := (writeSockets s)(sig := - 1), readSockets := (readSockets s)(sig := - 1)\<rparr>))"
      using isw sa True slot(2) by (simp add: Unwatch_def)
    then show ?thesis using w3 sigaction[OF sa] True by (auto simp: stops_watching_def)
  qed
qed

lemma stops_watching_inv:
  assumes inv: "watcher_inv w0 w s" and sig: "socketNotifiers s sig \<noteq> None" and st: "stops_watching sig w s w' s'"
  shows "watcher_inv w0 w' s'"
proof -
  have slots: "slot_ok w0 w s sig'" for sig' using inv by (simp add: watcher_inv_def)
  have apart: "i \<noteq> j \<Longrightarrow> sockets_of s i \<inter> sockets_of s j = {}" for i j using inv by (simp add: watcher_inv_def)
  have own: "sockets_of s sig = {readSockets s sig, writeSockets s sig}" using sig by (simp add: sockets_of_def)
  have st': "open_socks w' = open_socks w - sockets_of s sig" "disposition w' = (disposition w)(sig := oldSigActions s sig)" "peer w' = peer w" "pipe w' = pipe w"
     "socketNotifiers s' = (socketNotifiers s)(sig := None)" "readSockets s' = (readSockets s)(sig := - 1)"
     "writeSockets s' = (writeSockets s)(sig := - 1)" "oldSigActions s' = oldSigActions s"
    using st by (auto simp: stops_watching_def own)
  have socks: "sockets_of s' sig' = (if sig' = sig then {} else sockets_of s sig')" for sig'
    using st' by (simp add: sockets_of_def)
  have "slot_ok w0 w' s' sig'" for sig'
  proof (cases "sig' = sig")
    case True
    then show ?thesis using slots[of sig] sig st' by (auto simp: slot_ok_def)
  next
    case False
    have "sockets_of s sig' \<inter> sockets_of s sig = {}" using apart[OF False] .
    then show ?thesis using slots[of sig'] st' False by (auto simp: slot_ok_def sockets_of_def split: option.splits)
  qed
  moreover have "open_socks w' = open_socks w0 \<union> (\<Union>sig. sockets_of s' sig)"
  proof -
    have "x \<notin> sockets_of s sig" if "x \<in> sockets_of s i" "i \<noteq> sig" for x i using apart[OF that(2)] that(1) by blast
    then have u: "(\<Union>sig. sockets_of s' sig) = (\<Union>sig. sockets_of s sig) - sockets_of s sig"
      unfolding socks by (auto split: if_splits) metis
    have "open_socks w = open_socks w0 \<union> (\<Union>sig. sockets_of s sig)" "open_socks w0 \<inter> sockets_of s sig = {}"
      using watcher_inv_outside[OF inv] by auto
    then show ?thesis unfolding st'(1) u by blast
  qed
  moreover have "open_socks w0 \<inter> (\<Union>sig. sockets_of s' sig) = {}" using watcher_inv_outside(1)[OF inv] by (auto simp: socks split: if_splits)
  moreover have "i \<noteq> j \<Longrightarrow> sockets_of s' i \<inter> sockets_of s' j = {}" for i j using apart by (simp add: socks)
  ultimately show ?thesis unfolding watcher_inv_def by blast
qed

lemma PosixSignalHandler_watched:
  assumes ok: "slot_ok w0 w s sig" and sig: "socketNotifiers s sig = Some a"
  shows "\<exists>w'. PosixSignalHandler api sig (w, s) = Some (Ret () (w', s))
    \<and> open_socks w' = open_socks w \<and> disposition w' = disposition w \<and> peer w' = peer w
    \<and> (pipe w' = (pipe w)(a := pipe w a @ [sig]) \<or> pipe w a \<noteq> [] \<and> pipe w' = pipe w)"
proof -
  have slot: "watchable sig" "writeSockets s sig \<noteq> - 1" "writeSockets s sig \<in> open_socks w" "peer w (writeSockets s sig) = Some a"
    using ok sig by (auto simp: slot_ok_def)
  obtain rc w' where wr: "os_write_byte api (writeSockets s sig) sig w = (rc, w')" by fastforce
  note law = write_byte[OF wr slot(3,4)]
  have "TEMP_FAILURE_RETRY (sg_errno api) (\<lambda>w. Some (os_write_byte api (writeSockets s sig) sig w)) w = Some (rc, w')"
    using wr law by (subst TEMP_FAILURE_RETRY.simps) auto
  then have "PosixSignalHandler api sig (w, s) = Some (Ret () (w', s))"
    using slot(1,2) law by (auto simp: PosixSignalHandler_def)
  then show ?thesis using law by auto
qed

definition convenience :: "int \<Rightarrow> qsignal list" where
  "convenience sig = (if sig = SIGTERM then [SigTerm] else if sig = SIGINT then [SigInt] else if sig = SIGHUP then [SigHUp]
     else if sig = SIGCHLD then [SigChld] else if sig = SIGTSTP then [SigTStp] else if sig = SIGTTOU then [SigTtOu]
     else if sig = SIGTTIN then [SigTtIn] else [])"

lemma convenience_not_raised: "Raised i \<notin> set (convenience sig)"
  by (simp add: convenience_def)

lemma Dispatch_eval:
  assumes "watchable sig"
  shows "Dispatch api sig (w, s) = Some (Ret () (w, s\<lparr>emitted := emitted s @ convenience sig\<rparr>))"
  unfolding Dispatch_def Let_def convenience_def using assms by (simp split: if_split)

lemma find_sig_watched:
  assumes inv: "watcher_inv w0 w s" and sig: "socketNotifiers s sig = Some a"
  shows "find_sig a s = sig"
proof -
  have ok: "slot_ok w0 w s i" for i using inv by (simp add: watcher_inv_def)
  have a: "a = readSockets s sig" "a \<noteq> - 1" "1 \<le> sig" "sig \<le> 64" using ok[of sig] sig by (auto simp: slot_ok_def)
  have own: "i = sig" if "readSockets s i = a" for i
  proof (rule ccontr)
    assume "i \<noteq> sig"
    then have "sockets_of s i \<inter> sockets_of s sig = {}" using inv by (simp add: watcher_inv_def)
    moreover have "socketNotifiers s i \<noteq> None" using ok[of i] a(2) that by (auto simp: slot_ok_def split: option.splits)
    ultimately show False using that a(1) sig by (auto simp: sockets_of_def)
  qed
  have "List.find (\<lambda>i. readSockets s i = a) [1..64] = Some sig"
  proof (cases "List.find (\<lambda>i. readSockets s i = a) [1..64]")
    case None
    then have "\<not> (\<exists>i \<in> {1..64}. readSockets s i = a)" by (auto simp: find_None_iff)
    then show ?thesis using a by auto
  next
    case (Some i)
    then show ?thesis using own by (auto simp: find_Some_iff)
  qed
  then show ?thesis by (simp add: find_sig_def)
qed

text \<open>The event loop reads one byte and emits \<open>Raised\<close>, or the read fails and nothing changes.\<close>

lemma QtSignalHandler_watched:
  assumes inv: "watcher_inv w0 w s" and sig: "socketNotifiers s sig = Some a" and data: "pipe w a \<noteq> []"
  shows "\<exists>w' s'. QtSignalHandler api a (w, s) = Some (Ret () (w', s'))
    \<and> open_socks w' = open_socks w \<and> disposition w' = disposition w \<and> peer w' = peer w \<and> s' = s\<lparr>emitted := emitted s'\<rparr>
    \<and> ((\<exists>more. emitted s' = emitted s @ Raised sig # more \<and> (\<forall>i. Raised i \<notin> set more)) \<and> pipe w' = (pipe w)(a := tl (pipe w a))
       \<or> emitted s' = emitted s \<and> pipe w' = pipe w)"
proof -
  have ok: "slot_ok w0 w s sig" using inv by (simp add: watcher_inv_def)
  have slot: "watchable sig" "a = readSockets s sig" "a \<noteq> - 1" "a \<in> open_socks w" "set (pipe w a) \<subseteq> {sig}" using ok sig by (auto simp: slot_ok_def)
  have f: "find_sig a s = sig" by (rule find_sig_watched[OF inv sig])
  obtain rc m w' where rd: "os_read_byte api a w = ((rc, m), w')" by (metis surj_pair)
  note law = read_byte[OF rd slot(4) data]
  have once: "TEMP_FAILURE_RETRY (\<lambda>(msg, w). sg_errno api w) (\<lambda>(msg, w). Some (let ((rc, m), w') = os_read_byte api a w in (rc, m, w'))) (SIGNULL, w) = Some (rc, m, w')"
    using rd law by (subst TEMP_FAILURE_RETRY.simps) auto
  show ?thesis
  proof (cases "rc = - 1")
    case True
    then have "QtSignalHandler api a (w, s) = Some (Ret () (w', s))"
      using once f slot(1-3) by (simp add: QtSignalHandler_def call_blocking_def)
    then show ?thesis using law True by (intro exI[of _ w'] exI[of _ s]) auto
  next
    case False
    then have m: "rc = 1" "m = sig" "pipe w' = (pipe w)(a := tl (pipe w a))" using law slot(5) data by (auto dest!: hd_in_set)
    let ?s = "s\<lparr>emitted := emitted s @ Raised sig # convenience sig\<rparr>"
    have "QtSignalHandler api a (w, s) = Some (Ret () (w', ?s))"
      using once f slot(1-3) m by (simp add: QtSignalHandler_def call_blocking_def Dispatch_eval)
    then show ?thesis using law m convenience_not_raised by (intro exI[of _ w'], intro exI[of _ ?s]) auto
  qed
qed

lemma Watch_Ret:
  assumes "slot_ok w0 w s sig" "Watch api sig (w, s) = Some (Ret r st)"
  shows "watchable sig \<and> socketNotifiers s sig = None"
proof -
  have "watchable sig"
  proof (rule ccontr)
    assume "\<not> watchable sig"
    then obtain e where "IsWatched api sig (w, s) = Some (Exc e (w, s))" using IsWatched_invalid by blast
    then show False using assms(2) by (simp add: Watch_def)
  qed
  then show ?thesis using assms(2) IsWatched_eval[OF slot_consistent_ok[OF assms(1)], of api] by (cases "socketNotifiers s sig") (auto simp: Watch_def)
qed

lemma Unwatch_Ret:
  assumes "slot_ok w0 w s sig" "Unwatch api sig (w, s) = Some (Ret r st)"
  shows "watchable sig \<and> socketNotifiers s sig \<noteq> None"
proof -
  have "watchable sig"
  proof (rule ccontr)
    assume "\<not> watchable sig"
    then obtain e where "IsWatched api sig (w, s) = Some (Exc e (w, s))" using IsWatched_invalid by blast
    then show False using assms(2) by (simp add: Unwatch_def)
  qed
  then show ?thesis using assms(2) IsWatched_eval[OF slot_consistent_ok[OF assms(1)], of api] by (cases "socketNotifiers s sig") (auto simp: Unwatch_def)
qed

end

section \<open>Runs\<close>

datatype wevent = Watched int bool | Unwatched int bool | Delivered int | Activated int bool

text \<open>A program that watches and unwatches, with signals delivered and sockets read by the event loop in between.
  Calls that return are steps; the flag of \<open>Activated\<close> says that Qt signals were emitted.\<close>

inductive watcher_run :: "('w, 'x) signal_api_scheme \<Rightarrow> ('w \<Rightarrow> int \<Rightarrow> action) \<Rightarrow> ('w \<Rightarrow> sock \<Rightarrow> int list) \<Rightarrow> 'w
    \<Rightarrow> wevent list \<Rightarrow> 'w \<Rightarrow> watcher \<Rightarrow> bool"
  for api disp data w0 where
  start: "watcher_run api disp data w0 [] w0 watcher_ctor"
| watch: "watcher_run api disp data w0 es w s \<Longrightarrow> Watch api sig (w, s) = Some (Ret r (w', s')) \<Longrightarrow>
    watcher_run api disp data w0 (es @ [Watched sig r]) w' s'"
| unwatch: "watcher_run api disp data w0 es w s \<Longrightarrow> Unwatch api sig (w, s) = Some (Ret r (w', s')) \<Longrightarrow>
    watcher_run api disp data w0 (es @ [Unwatched sig r]) w' s'"
| deliver: "watcher_run api disp data w0 es w s \<Longrightarrow> disp w sig = Watcher_Handler \<Longrightarrow>
    PosixSignalHandler api sig (w, s) = Some (Ret () (w', s')) \<Longrightarrow> watcher_run api disp data w0 (es @ [Delivered sig]) w' s'"
| activate: "watcher_run api disp data w0 es w s \<Longrightarrow> socketNotifiers s sig = Some a \<Longrightarrow> data w a \<noteq> [] \<Longrightarrow>
    QtSignalHandler api a (w, s) = Some (Ret () (w', s')) \<Longrightarrow>
    watcher_run api disp data w0 (es @ [Activated sig (emitted s' \<noteq> emitted s)]) w' s'"

definition pending_step :: "int \<Rightarrow> wevent \<Rightarrow> bool \<Rightarrow> bool" where
  "pending_step sig ev b = (case ev of Delivered i \<Rightarrow> i = sig \<or> b | Activated i raised \<Rightarrow> if i = sig \<and> raised then False else b
     | Unwatched i ok \<Rightarrow> if i = sig \<and> ok then False else b | Watched i ok \<Rightarrow> b)"

text \<open>A signal was delivered and neither was \<open>Raised\<close> emitted for it since, nor was it unwatched.\<close>

definition pending :: "int \<Rightarrow> wevent list \<Rightarrow> bool" where
  "pending sig es = fold (pending_step sig) es False"

definition deliveries :: "int \<Rightarrow> wevent list \<Rightarrow> nat" where
  "deliveries sig es = length (filter (\<lambda>ev. ev = Delivered sig) es)"

definition raises :: "int \<Rightarrow> watcher \<Rightarrow> nat" where
  "raises sig s = length (filter (\<lambda>q. q = Raised sig) (emitted s))"

lemma pending_snoc [simp]: "pending sig (es @ [ev]) = pending_step sig ev (pending sig es)"
  by (simp add: pending_def)

lemma pending_Nil [simp]: "\<not> pending sig []"
  by (simp add: pending_def)

lemma deliveries_snoc [simp]: "deliveries sig (es @ [ev]) = deliveries sig es + (if ev = Delivered sig then 1 else 0)"
  by (simp add: deliveries_def)

context signal_system
begin

definition waiting :: "int \<Rightarrow> 'w \<Rightarrow> watcher \<Rightarrow> int list" where
  "waiting sig w s = (case socketNotifiers s sig of None \<Rightarrow> [] | Some a \<Rightarrow> pipe w a)"

definition run_inv :: "'w \<Rightarrow> wevent list \<Rightarrow> 'w \<Rightarrow> watcher \<Rightarrow> bool" where
  "run_inv w0 es w s \<longleftrightarrow> watcher_inv w0 w s
     \<and> (\<forall>sig. (pending sig es \<longrightarrow> waiting sig w s \<noteq> []) \<and> raises sig s + length (waiting sig w s) \<le> deliveries sig es)"

lemma run_inv_start: "run_inv w0 [] w0 watcher_ctor"
  by (simp add: run_inv_def watcher_inv_def slot_ok_def watcher_ctor_def sockets_of_def waiting_def raises_def)

text \<open>When only the data of one socket changes, the other signals keep theirs.\<close>

lemma waiting_other:
  assumes "watcher_inv w0 w s" "socketNotifiers s sig = Some a" "pipe w' = (pipe w)(a := x)" "socketNotifiers s' = socketNotifiers s"
  shows "waiting i w' s' = (if i = sig then x else waiting i w s)"
proof (cases "i = sig")
  case False
  have ok: "slot_ok w0 w s j" for j using assms(1) by (simp add: watcher_inv_def)
  have "sockets_of s i \<inter> sockets_of s sig = {}" using assms(1) False by (simp add: watcher_inv_def)
  then have "b \<noteq> a" if "socketNotifiers s i = Some b" for b
    using ok[of i] ok[of sig] assms(2) that by (auto simp: slot_ok_def sockets_of_def)
  then show ?thesis using False assms(3,4) by (auto simp: waiting_def split: option.splits)
qed (use assms in \<open>simp add: waiting_def\<close>)

lemma run_inv_watch:
  assumes inv: "run_inv w0 es w s" and r: "Watch api sig (w, s) = Some (Ret r (w', s'))"
  shows "run_inv w0 (es @ [Watched sig r]) w' s'"
proof -
  have wi: "watcher_inv w0 w s" using inv by (simp add: run_inv_def)
  then have ok: "slot_ok w0 w s i" for i by (simp add: watcher_inv_def)
  have un: "watchable sig" "socketNotifiers s sig = None" using Watch_Ret[OF ok r] by auto
  from Watch_unwatched[OF ok un] r consider
      "s' = s" "open_socks w' = open_socks w" "disposition w' = disposition w" "\<forall>b. b \<in> open_socks w \<longrightarrow> peer w' b = peer w b \<and> pipe w' b = pipe w b"
    | a b where "starts_watching sig a b w s w' s'"
    by fastforce
  then show ?thesis
  proof cases
    case 1
    have "watcher_inv w0 w' s" by (rule watcher_inv_quiet[OF wi 1(2,3)]) (use 1(4) in auto)
    moreover have "waiting i w' s = waiting i w s" for i
      using ok[of i] 1(4) by (auto simp: waiting_def slot_ok_def split: option.splits)
    ultimately show ?thesis using inv 1(1) by (simp add: run_inv_def pending_step_def)
  next
    case 2
    have "waiting i w' s' = waiting i w s" for i
      using ok[of i] 2 un(2) by (auto simp: waiting_def slot_ok_def starts_watching_def split: option.splits)
    moreover have "raises i s' = raises i s" for i using 2 by (simp add: raises_def starts_watching_def)
    ultimately show ?thesis using inv starts_watching_inv[OF wi un 2] by (simp add: run_inv_def pending_step_def)
  qed
qed

lemma run_inv_unwatch:
  assumes inv: "run_inv w0 es w s" and r: "Unwatch api sig (w, s) = Some (Ret r (w', s'))"
  shows "run_inv w0 (es @ [Unwatched sig r]) w' s'"
proof -
  have wi: "watcher_inv w0 w s" using inv by (simp add: run_inv_def)
  then have ok: "slot_ok w0 w s i" for i by (simp add: watcher_inv_def)
  have un: "socketNotifiers s sig \<noteq> None" using Unwatch_Ret[OF ok r] by auto
  from Unwatch_watched[OF ok un] r consider "\<not> r" "s' = s" "same w w'" | "r" "stops_watching sig w s w' s'" by fastforce
  then show ?thesis
  proof cases
    case 1
    have "waiting i w' s = waiting i w s" for i using 1(3) by (simp add: waiting_def same_def split: option.split)
    then show ?thesis using inv watcher_inv_same[OF wi 1(3)] 1(1,2) by (simp add: run_inv_def pending_step_def)
  next
    case 2
    have "waiting i w' s' = (if i = sig then [] else waiting i w s)" for i
      using 2(2) by (simp add: waiting_def stops_watching_def split: option.split)
    moreover have "raises i s' = raises i s" for i using 2(2) by (simp add: raises_def stops_watching_def)
    moreover have "raises sig s \<le> deliveries sig es" using inv add_leD1 unfolding run_inv_def by blast
    ultimately show ?thesis using inv stops_watching_inv[OF wi un 2(2)] 2(1) by (simp add: run_inv_def pending_step_def)
  qed
qed

lemma run_inv_deliver:
  assumes inv: "run_inv w0 es w s" and none: "disposition w0 sig \<noteq> Watcher_Handler" and d: "disposition w sig = Watcher_Handler"
    and r: "PosixSignalHandler api sig (w, s) = Some (Ret () (w', s'))"
  shows "run_inv w0 (es @ [Delivered sig]) w' s'"
proof -
  have wi: "watcher_inv w0 w s" using inv by (simp add: run_inv_def)
  then have ok: "slot_ok w0 w s i" for i by (simp add: watcher_inv_def)
  obtain a where a: "socketNotifiers s sig = Some a" using ok[of sig] none d by (auto simp: slot_ok_def split: option.splits)
  obtain w1 where w1: "PosixSignalHandler api sig (w, s) = Some (Ret () (w1, s))" "open_socks w1 = open_socks w" "disposition w1 = disposition w"
      "peer w1 = peer w" "pipe w1 = (pipe w)(a := pipe w a @ [sig]) \<or> pipe w a \<noteq> [] \<and> pipe w1 = pipe w"
    using PosixSignalHandler_watched[OF ok a] by blast
  define x where "x = pipe w1 a"
  have w': "w' = w1" "s' = s" using r w1(1) by auto
  have p: "pipe w1 = (pipe w)(a := x)" using w1(5) by (auto simp: x_def)
  have x: "x \<noteq> []" "length x \<le> Suc (length (pipe w a))" "set x \<subseteq> insert sig (set (pipe w a))" using w1(5) by (auto simp: x_def)
  have "watcher_inv w0 w1 s"
  proof -
    have "slot_ok w0 w1 s i" for i
    proof (cases "i = sig")
      case True then show ?thesis using ok[of sig] a w1(2-4) p x(3) by (auto simp: slot_ok_def)
    next
      case False
      then have "waiting i w1 s = waiting i w s" using waiting_other[OF wi a p, of s i] by simp
      then show ?thesis using ok[of i] w1(2-4) by (auto simp: slot_ok_def waiting_def split: option.splits)
    qed
    then show ?thesis using wi w1(2) by (simp add: watcher_inv_def)
  qed
  moreover have "(pending i (es @ [Delivered sig]) \<longrightarrow> waiting i w1 s \<noteq> []) \<and> raises i s + length (waiting i w1 s) \<le> deliveries i (es @ [Delivered sig])" for i
  proof -
    have b: "(pending i es \<longrightarrow> waiting i w s \<noteq> []) \<and> raises i s + length (waiting i w s) \<le> deliveries i es" using inv unfolding run_inv_def by blast
    have wait: "waiting i w1 s = (if i = sig then x else waiting i w s)" by (rule waiting_other[OF wi a p]) simp
    have own: "waiting sig w s = pipe w a" using a by (simp add: waiting_def)
    show ?thesis using b wait own x(1,2) by (cases "i = sig") (simp_all add: pending_step_def)
  qed
  ultimately show ?thesis unfolding run_inv_def w' by blast
qed

lemma run_inv_activate:
  assumes inv: "run_inv w0 es w s" and a: "socketNotifiers s sig = Some a" and data: "pipe w a \<noteq> []"
    and r: "QtSignalHandler api a (w, s) = Some (Ret () (w', s'))"
  shows "run_inv w0 (es @ [Activated sig (emitted s' \<noteq> emitted s)]) w' s'"
proof -
  have wi: "watcher_inv w0 w s" using inv by (simp add: run_inv_def)
  then have ok: "slot_ok w0 w s i" for i by (simp add: watcher_inv_def)
  from QtSignalHandler_watched[OF wi a data] r have q: "open_socks w' = open_socks w" "disposition w' = disposition w" "peer w' = peer w"
      "s' = s\<lparr>emitted := emitted s'\<rparr>" and
      c: "(\<exists>more. emitted s' = emitted s @ Raised sig # more \<and> (\<forall>i. Raised i \<notin> set more)) \<and> pipe w' = (pipe w)(a := tl (pipe w a))
       \<or> emitted s' = emitted s \<and> pipe w' = pipe w"
    by auto
  define x where "x = pipe w' a"
  have p: "pipe w' = (pipe w)(a := x)" using c by (auto simp: x_def)
  have ns: "socketNotifiers s' = socketNotifiers s" "readSockets s' = readSockets s" "writeSockets s' = writeSockets s" "oldSigActions s' = oldSigActions s"
    using arg_cong[OF q(4), of socketNotifiers] arg_cong[OF q(4), of readSockets] arg_cong[OF q(4), of writeSockets]
      arg_cong[OF q(4), of oldSigActions] by simp_all
  have x: "set x \<subseteq> set (pipe w a)" using c by (auto simp: x_def dest: list.set_sel(2)[OF data])
  have wait: "waiting i w' s' = (if i = sig then x else waiting i w s)" for i by (rule waiting_other[OF wi a p ns(1)])
  have own: "waiting sig w s = pipe w a" using a by (simp add: waiting_def)
  have "watcher_inv w0 w' s'"
  proof -
    have "slot_ok w0 w' s' i" for i
    proof (cases "i = sig")
      case True then show ?thesis using ok[of sig] a q(1-3) p x ns by (auto simp: slot_ok_def)
    next
      case False
      then have "waiting i w' s' = waiting i w s" using wait by simp
      then show ?thesis using ok[of i] q(1-3) ns by (auto simp: slot_ok_def waiting_def split: option.splits)
    qed
    moreover have "sockets_of s' = sockets_of s" by (rule ext) (simp add: sockets_of_def ns)
    ultimately show ?thesis using wi q(1) by (simp add: watcher_inv_def)
  qed
  moreover have "(pending i (es @ [Activated sig (emitted s' \<noteq> emitted s)]) \<longrightarrow> waiting i w' s' \<noteq> [])
      \<and> raises i s' + length (waiting i w' s') \<le> deliveries i (es @ [Activated sig (emitted s' \<noteq> emitted s)])" for i
  proof -
    have b: "(pending i es \<longrightarrow> waiting i w s \<noteq> []) \<and> raises i s + length (waiting i w s) \<le> deliveries i es" using inv unfolding run_inv_def by blast
    from c show ?thesis
    proof
      assume "emitted s' = emitted s \<and> pipe w' = pipe w"
      then have "x = pipe w a" "raises i s' = raises i s" by (simp_all add: x_def raises_def)
      then show ?thesis using b wait[of i] own \<open>emitted s' = emitted s \<and> pipe w' = pipe w\<close> data by (cases "i = sig") (simp_all add: pending_step_def)
    next
      assume e: "(\<exists>more. emitted s' = emitted s @ Raised sig # more \<and> (\<forall>i. Raised i \<notin> set more)) \<and> pipe w' = (pipe w)(a := tl (pipe w a))"
      then obtain more where m: "emitted s' = emitted s @ Raised sig # more" "\<forall>i. Raised i \<notin> set more" by blast
      have "filter (\<lambda>q. q = Raised i) more = []" using m(2) by (auto simp: filter_empty_conv)
      then have "raises i s' = raises i s + (if i = sig then 1 else 0)" using m(1) by (cases "i = sig") (simp_all add: raises_def)
      moreover have "x = tl (pipe w a)" using e by (simp add: x_def)
      ultimately show ?thesis using b wait[of i] own m(1) data by (cases "i = sig"; cases "pipe w a") (simp_all add: pending_step_def)
    qed
  qed
  ultimately show ?thesis unfolding run_inv_def by simp
qed

lemma run_inv_run:
  assumes "watcher_run api disposition pipe w0 es w s" "\<forall>sig. disposition w0 sig \<noteq> Watcher_Handler"
  shows "run_inv w0 es w s"
  using assms
proof (induction rule: watcher_run.induct)
  case start show ?case by (rule run_inv_start)
qed (blast intro: run_inv_watch run_inv_unwatch run_inv_deliver run_inv_activate)+

lemma run_owns:
  assumes "\<forall>sig. disposition w0 sig \<noteq> Watcher_Handler" "watcher_run api disposition pipe w0 es w s"
  shows "(disposition w sig = Watcher_Handler) = (socketNotifiers s sig \<noteq> None)
    \<and> (socketNotifiers s sig = None \<longrightarrow> disposition w sig = disposition w0 sig)
    \<and> open_socks w = open_socks w0 \<union> {a. \<exists>i. socketNotifiers s i \<noteq> None \<and> (a = readSockets s i \<or> a = writeSockets s i)}
    \<and> (disposition w sig = Watcher_Handler \<longrightarrow> (\<exists>w'. PosixSignalHandler api sig (w, s) = Some (Ret () (w', s))))"
proof -
  have inv: "watcher_inv w0 w s" using run_inv_run[OF assms(2,1)] by (simp add: run_inv_def)
  then have ok: "slot_ok w0 w s sig" by (simp add: watcher_inv_def)
  have d: "(disposition w sig = Watcher_Handler) = (socketNotifiers s sig \<noteq> None)" "socketNotifiers s sig = None \<longrightarrow> disposition w sig = disposition w0 sig"
    using ok assms(1) by (auto simp: slot_ok_def split: option.splits)
  moreover have "(\<Union>i. sockets_of s i) = {a. \<exists>i. socketNotifiers s i \<noteq> None \<and> (a = readSockets s i \<or> a = writeSockets s i)}"
    by (auto simp: sockets_of_def)
  moreover have "\<exists>w'. PosixSignalHandler api sig (w, s) = Some (Ret () (w', s))" if "socketNotifiers s sig \<noteq> None"
    using PosixSignalHandler_watched[OF ok] that by blast
  ultimately show ?thesis using watcher_inv_outside(2)[OF inv] by simp
qed

lemma run_delivers:
  assumes "\<forall>sig. disposition w0 sig \<noteq> Watcher_Handler" "watcher_run api disposition pipe w0 es w s"
  shows "raises sig s \<le> deliveries sig es \<and> (pending sig es \<longrightarrow> (\<exists>a w' s'. socketNotifiers s sig = Some a \<and> pipe w a \<noteq> []
    \<and> QtSignalHandler api a (w, s) = Some (Ret () (w', s')) \<and> (raises sig s' = Suc (raises sig s) \<or> emitted s' = emitted s \<and> pipe w' a = pipe w a)))"
proof -
  have ri: "run_inv w0 es w s" by (rule run_inv_run[OF assms(2,1)])
  then have inv: "watcher_inv w0 w s" and b: "(pending sig es \<longrightarrow> waiting sig w s \<noteq> []) \<and> raises sig s + length (waiting sig w s) \<le> deliveries sig es"
    unfolding run_inv_def by blast+
  have "\<exists>a w' s'. socketNotifiers s sig = Some a \<and> pipe w a \<noteq> []
    \<and> QtSignalHandler api a (w, s) = Some (Ret () (w', s')) \<and> (raises sig s' = Suc (raises sig s) \<or> emitted s' = emitted s \<and> pipe w' a = pipe w a)" if "pending sig es"
  proof -
    obtain a where a: "socketNotifiers s sig = Some a" "pipe w a \<noteq> []" using b \<open>pending sig es\<close> by (auto simp: waiting_def split: option.splits)
    obtain w' s' where r: "QtSignalHandler api a (w, s) = Some (Ret () (w', s'))"
      and c: "(\<exists>more. emitted s' = emitted s @ Raised sig # more \<and> (\<forall>i. Raised i \<notin> set more)) \<and> pipe w' = (pipe w)(a := tl (pipe w a))
         \<or> emitted s' = emitted s \<and> pipe w' = pipe w"
      using QtSignalHandler_watched[OF inv a] by blast
    have "raises sig s' = Suc (raises sig s)" if "emitted s' = emitted s @ Raised sig # more" "\<forall>i. Raised i \<notin> set more" for more
    proof -
      have "filter (\<lambda>q. q = Raised sig) more = []" using that(2) by (auto simp: filter_empty_conv)
      then show ?thesis using that(1) by (simp add: raises_def)
    qed
    then show ?thesis using a r c by metis
  qed
  then show ?thesis using b by simp
qed

end

end
