(* ===== verification/SignalRuns.thy ===== *)
theory SignalRuns
imports SignalsWatcher
begin

text \<open>
  Signals and sockets that compute, on which the contract of \<open>SignalsWatcher\<close> holds, and the properties of the
  watcher.
\<close>

section \<open>A system\<close>

record sigworld =
  socks :: "sock list"
  actions :: "int \<Rightarrow> action"
  peers :: "sock \<Rightarrow> sock option"
  pipes :: "sock \<Rightarrow> int list"
  sig_errno :: int

text \<open>The buffer of a socket holds \<open>cap + 1\<close> bytes; \<open>sigaction\<close> fails for the signals in \<open>bad\<close>.\<close>

definition new_sock :: "sigworld \<Rightarrow> sock" where "new_sock w = Max (insert 2 (set (socks w))) + 1"

definition sample_signals :: "nat \<Rightarrow> int list \<Rightarrow> sigworld signal_api" where
  "sample_signals cap bad = \<lparr>sg_ndebug = False, sg_errno = sig_errno,
     os_socketpair = (\<lambda>w. let a = new_sock w in ((0, a, a + 1),
        w\<lparr>socks := a # (a + 1) # socks w, peers := (peers w)(a + 1 \<mapsto> a), pipes := (pipes w)(a := [])\<rparr>)),
     os_getfl = (\<lambda>a w. (0, w)), os_setfl_nonblock = (\<lambda>a fl w. (0, w)),
     os_close_sock = (\<lambda>a w. (0, w\<lparr>socks := removeAll a (socks w)\<rparr>)),
     os_sigaction = (\<lambda>sig act w. if sig \<in> set bad then ((- 1, Other_Action 0), w\<lparr>sig_errno := EINVAL\<rparr>)
        else ((0, actions w sig), w\<lparr>actions := (actions w)(sig := act)\<rparr>)),
     os_read_byte = (\<lambda>a w. case pipes w a of [] \<Rightarrow> ((0, 0), w) | m # ms \<Rightarrow> ((1, m), w\<lparr>pipes := (pipes w)(a := ms)\<rparr>)),
     os_write_byte = (\<lambda>b m w. case peers w b of None \<Rightarrow> (- 1, w\<lparr>sig_errno := EPIPE\<rparr>)
        | Some a \<Rightarrow> if length (pipes w a) \<le> cap then (1, w\<lparr>pipes := (pipes w)(a := pipes w a @ [m])\<rparr>) else (- 1, w\<lparr>sig_errno := EAGAIN\<rparr>)),
     qt_new_notifier = (\<lambda>w. (True, w))\<rparr>"

lemma new_sock_fresh: "new_sock w \<notin> set (socks w)" "new_sock w + 1 \<notin> set (socks w)" "new_sock w > 2"
proof -
  have le: "x \<le> Max (insert 2 (set (socks w)))" if "x \<in> insert 2 (set (socks w))" for x using that by (intro Max_ge) auto
  then show "new_sock w > 2" by (simp add: new_sock_def)
  have "x < new_sock w" if "x \<in> set (socks w)" for x using le[of x] that by (simp add: new_sock_def)
  then show "new_sock w \<notin> set (socks w)" "new_sock w + 1 \<notin> set (socks w)" by force+
qed

lemma sample_signals_simps [simp]:
  "\<not> sg_ndebug (sample_signals cap bad)" "sg_errno (sample_signals cap bad) = sig_errno"
  "os_socketpair (sample_signals cap bad) w = (let a = new_sock w in ((0, a, a + 1),
     w\<lparr>socks := a # (a + 1) # socks w, peers := (peers w)(a + 1 \<mapsto> a), pipes := (pipes w)(a := [])\<rparr>))"
  "os_getfl (sample_signals cap bad) a w = (0, w)" "os_setfl_nonblock (sample_signals cap bad) a fl w = (0, w)"
  "os_close_sock (sample_signals cap bad) a w = (0, w\<lparr>socks := removeAll a (socks w)\<rparr>)"
  "os_sigaction (sample_signals cap bad) sig act w = (if sig \<in> set bad then ((- 1, Other_Action 0), w\<lparr>sig_errno := EINVAL\<rparr>)
     else ((0, actions w sig), w\<lparr>actions := (actions w)(sig := act)\<rparr>))"
  "os_read_byte (sample_signals cap bad) a w = (case pipes w a of [] \<Rightarrow> ((0, 0), w) | m # ms \<Rightarrow> ((1, m), w\<lparr>pipes := (pipes w)(a := ms)\<rparr>))"
  "os_write_byte (sample_signals cap bad) b m w = (case peers w b of None \<Rightarrow> (- 1, w\<lparr>sig_errno := EPIPE\<rparr>)
     | Some a \<Rightarrow> if length (pipes w a) \<le> cap then (1, w\<lparr>pipes := (pipes w)(a := pipes w a @ [m])\<rparr>) else (- 1, w\<lparr>sig_errno := EAGAIN\<rparr>))"
  "qt_new_notifier (sample_signals cap bad) w = (True, w)"
  by (simp_all add: sample_signals_def)

interpretation sample_signals: signal_system "sample_signals cap bad" "\<lambda>w. set (socks w)" actions peers pipes for cap bad
proof (standard, goal_cases)
  case (1 w rc a b w')
  then show ?case using new_sock_fresh[of w] by (auto simp: Let_def)
next
  case (5 a w rc w')
  then show ?case by auto
next
  case (6 sig act w rc old w')
  then show ?case by (auto split: if_splits)
next
  case (7 a w rc m w')
  then show ?case by (auto split: list.splits)
next
  case (8 b m w rc w' a)
  then show ?case by (auto split: if_splits)
qed auto

section \<open>Properties\<close>



definition first_world :: sigworld where
  "first_world = \<lparr>socks = [], actions = (\<lambda>_. Other_Action 0), peers = (\<lambda>_. None), pipes = (\<lambda>_. []), sig_errno = 0\<rparr>"

lemmas watch_evals = Watch_def IsWatched_def SocketPair_def set_sockets_def MakeWriteSocketNonBlocking_def RegisterHandler_def
  catch_runtime_error_def watcher_ctor_def first_world_def new_sock_def slot_consistent_def

definition watching_state :: watcher where
  "watching_state = watcher_ctor\<lparr>readSockets := (\<lambda>_. - 1)(SIGTERM := 3), writeSockets := (\<lambda>_. - 1)(SIGTERM := 4),
     socketNotifiers := [SIGTERM \<mapsto> 3]\<rparr>"

definition watching_world :: "int list \<Rightarrow> sigworld" where
  "watching_world data = first_world\<lparr>socks := [3, 4], actions := (\<lambda>_. Other_Action 0)(SIGTERM := Watcher_Handler),
     peers := [4 \<mapsto> 3], pipes := (\<lambda>_. [])(3 := data)\<rparr>"

lemma sample_watch:
  "watcher_run (sample_signals 3 []) actions pipes first_world [Watched SIGTERM True] (watching_world []) watching_state"
proof -
  have "Watch (sample_signals 3 []) SIGTERM (first_world, watcher_ctor) = Some (Ret True (watching_world [], watching_state))"
    by (simp add: watch_evals watching_world_def watching_state_def fun_upd_idem)
  then show ?thesis using watcher_run.watch[OF watcher_run.start] by fastforce
qed

lemma sample_delivery:
  "watcher_run (sample_signals 3 []) actions pipes first_world [Watched SIGTERM True, Delivered SIGTERM] (watching_world [SIGTERM]) watching_state"
proof -
  have "PosixSignalHandler (sample_signals 3 []) SIGTERM (watching_world [], watching_state) = Some (Ret () (watching_world [SIGTERM], watching_state))"
    by (simp add: PosixSignalHandler_def call_blocking_def TEMP_FAILURE_RETRY.simps watching_world_def watching_state_def)
  then show ?thesis using watcher_run.deliver[OF sample_watch] by (fastforce simp: watching_world_def)
qed

lemma first_world_free: "\<forall>sig. actions first_world sig \<noteq> Watcher_Handler"
  by (simp add: first_world_def)



text \<open>A failed registration throws a \<open>SystemException\<close>, which is no \<open>std::runtime_error\<close>: the catch clause of \<open>Watch\<close>
  does not see it.  The exception leaves \<open>Watch\<close>, and the sockets stay open with no notifier.\<close>

lemma Watch_leaks_sockets:
  "\<exists>e w s. Watch (sample_signals 3 [SIGTERM]) SIGTERM (first_world, watcher_ctor) = Some (Exc e (w, s)) \<and> exn_class e = SystemException
     \<and> socks w = [3, 4] \<and> socketNotifiers s SIGTERM = None \<and> \<not> slot_consistent SIGTERM s"
  by (simp add: watch_evals SystemExc_def mk_exn_ec_def derived_from_iff)

text \<open>The handler does not save \<open>errno\<close>: when the buffer is full, the code it interrupts finds \<open>EAGAIN\<close> there.\<close>

lemma PosixSignalHandler_changes_errno:
  assumes "peers w b = Some a" "length (pipes w a) > cap" "writeSockets s SIGTERM = b" "b \<noteq> - 1"
  shows "PosixSignalHandler (sample_signals cap bad) SIGTERM (w, s) = Some (Ret () (w\<lparr>sig_errno := EAGAIN\<rparr>, s))"
  using assms by (simp add: PosixSignalHandler_def call_blocking_def TEMP_FAILURE_RETRY.simps)

end
