(* ===== verification/Applications.thy ===== *)
theory Applications
imports SignalRuns
begin

text \<open>
  Quitting on termination signals (\<open>src/util/core_application_base_unx.cpp\<close>), on top of the signal watcher.

  An operation of the application runs on the pair of the state of the watcher and the members of the application.
  \<open>termQuits\<close> and \<open>intQuits\<close> say whether \<open>SigTerm\<close> and \<open>SigInt\<close> are connected to \<open>quit()\<close>; the connections
  are unique.
\<close>

section \<open>The application\<close>

record app =
  quitOnTerminationSignals :: bool
  unwatchSigTerm :: bool
  unwatchSigInt :: bool
  termQuits :: bool
  intQuits :: bool

type_synonym ('a, 'w) aprog = "(exn, 'a, ('w \<times> watcher) \<times> app) prog"

definition app_ctor :: app where
  "app_ctor = \<lparr>quitOnTerminationSignals = False, unwatchSigTerm = False, unwatchSigInt = False, termQuits = False, intQuits = False\<rparr>"

text \<open>\<open>throw CPPDEVTK_SYSTEM_EXCEPTION_W_EC_WA(GetLastSystemErrorCode(), ...)\<close>\<close>

definition throw_last_error :: "('w, 'x) signal_api_scheme \<Rightarrow> (unit, 'w) aprog" where
  "throw_last_error api = (\<lambda>((w, s), a). throw (SystemExc (mk_code (sg_errno api w) SystemCategory)) ((w, s), a))"

text \<open>\<open>connect\<close> of a unique connection and \<open>disconnect\<close> tell whether they changed anything.\<close>

definition connect_term :: "(bool, 'w) aprog" where
  "connect_term = bind (this termQuits) (\<lambda>c. andthen (modify (termQuits_update (\<lambda>_. True))) (ret (\<not> c)))"

definition disconnect_term :: "(bool, 'w) aprog" where
  "disconnect_term = bind (this termQuits) (\<lambda>c. andthen (modify (termQuits_update (\<lambda>_. False))) (ret c))"

definition connect_int :: "(bool, 'w) aprog" where
  "connect_int = bind (this intQuits) (\<lambda>c. andthen (modify (intQuits_update (\<lambda>_. True))) (ret (\<not> c)))"

definition disconnect_int :: "(bool, 'w) aprog" where
  "disconnect_int = bind (this intQuits) (\<lambda>c. andthen (modify (intQuits_update (\<lambda>_. False))) (ret c))"

abbreviation app_assert :: "('w, 'x) signal_api_scheme \<Rightarrow> bool \<Rightarrow> (unit, 'w) aprog" where
  "app_assert api b \<equiv> cpp_assert (sg_ndebug api) b"

section \<open>\<open>SetQuitOnTerminationSignals\<close>\<close>

text \<open>Watch a signal nobody watches, and remember to unwatch it.\<close>

definition watch_for_quit :: "('w, 'x) signal_api_scheme \<Rightarrow> int \<Rightarrow> (app \<Rightarrow> app) \<Rightarrow> (unit, 'w) aprog" where
  "watch_for_quit api sig remember = bind (env (IsWatched api sig)) (\<lambda>watched. if watched then ret ()
     else bind (env (Watch api sig)) (\<lambda>ok. if ok then modify remember else throw_last_error api))"

definition unwatch_for_quit :: "('w, 'x) signal_api_scheme \<Rightarrow> int \<Rightarrow> (app \<Rightarrow> bool) \<Rightarrow> (app \<Rightarrow> app) \<Rightarrow> (unit, 'w) aprog" where
  "unwatch_for_quit api sig unwatch forget = bind (this unwatch) (\<lambda>u. if \<not> u then ret ()
     else andthen (bind (env (IsWatched api sig)) (\<lambda>watched. if \<not> watched then ret ()
       else bind (env (Unwatch api sig)) (\<lambda>ok. if ok then ret () else throw_last_error api))) (modify forget))"

abbreviation "remember_term \<equiv> unwatchSigTerm_update (\<lambda>_. True)"
abbreviation "forget_term \<equiv> unwatchSigTerm_update (\<lambda>_. False)"
abbreviation "remember_int \<equiv> unwatchSigInt_update (\<lambda>_. True)"
abbreviation "forget_int \<equiv> unwatchSigInt_update (\<lambda>_. False)"

text \<open>What the two block-exit objects do when they find \<open>commit\<close> false.\<close>

definition undo_start :: "('w, 'x) signal_api_scheme \<Rightarrow> (unit, 'w) aprog" where
  "undo_start api = bind disconnect_term (\<lambda>ok. andthen (app_assert api ok) (bind (this unwatchSigTerm) (\<lambda>u. if \<not> u then ret ()
     else bind (env (IsWatched api SIGTERM)) (\<lambda>watched. andthen (app_assert api watched)
       (bind (env (Unwatch api SIGTERM)) (\<lambda>ok. if ok then modify forget_term else ret ()))))))"

definition undo_stop :: "('w, 'x) signal_api_scheme \<Rightarrow> (unit, 'w) aprog" where
  "undo_stop api = bind (this unwatchSigInt) (\<lambda>u. andthen (app_assert api (\<not> u)) (bind (env (IsWatched api SIGINT)) (\<lambda>watched.
     andthen (app_assert api (\<not> watched)) (bind (env (Watch api SIGINT)) (\<lambda>ok. if \<not> ok then ret ()
       else bind connect_int (\<lambda>ok. andthen (app_assert api ok) (modify remember_int)))))))"

text \<open>The two branches run with the local variable \<open>commit\<close> as the object.  The block-exit object lives in the block of
  its branch, and runs at the end of that block.\<close>

definition start_quitting :: "('w, 'x) signal_api_scheme \<Rightarrow> (exn, unit, (('w \<times> watcher) \<times> app) \<times> bool) prog" where
  "start_quitting api = andthen (env (watch_for_quit api SIGTERM remember_term)) (andthen (env connect_term)
     (scoped (andthen (env (watch_for_quit api SIGINT remember_int)) (andthen (env connect_int) (ret ())))
        (bind (this id) (\<lambda>commit. if commit then ret () else env (undo_start api)))))"

definition stop_quitting :: "('w, 'x) signal_api_scheme \<Rightarrow> (exn, unit, (('w \<times> watcher) \<times> app) \<times> bool) prog" where
  "stop_quitting api = andthen (env disconnect_int) (andthen (env (unwatch_for_quit api SIGINT unwatchSigInt forget_int))
     (scoped (andthen (env disconnect_term) (env (unwatch_for_quit api SIGTERM unwatchSigTerm forget_term)))
        (bind (this id) (\<lambda>commit. if commit then ret () else env (undo_stop api)))))"

definition SetQuitOnTerminationSignals :: "('w, 'x) signal_api_scheme \<Rightarrow> bool \<Rightarrow> (unit, 'w) aprog" where
  "SetQuitOnTerminationSignals api b = bind (this quitOnTerminationSignals) (\<lambda>old. if old = b then ret ()
     else drop_object (andthen (if b then start_quitting api else stop_quitting api)
       (andthen (env (modify (quitOnTerminationSignals_update (\<lambda>_. b)))) (modify (\<lambda>_. True)))) False)"

section \<open>Information and notification\<close>

text \<open>\<open>SetInfo\<close> and \<open>GetUniqueId\<close> (\<open>core_application_base.cpp\<close>); the check of the component tests the product.\<close>

record app_info =
  organizationName :: string
  organizationDomain :: string
  applicationName :: string
  applicationVersion :: string

definition SetInfo :: "string \<Rightarrow> string \<Rightarrow> string \<Rightarrow> string \<Rightarrow> string \<Rightarrow> (exn, unit, 'w \<times> app_info) prog" where
  "SetInfo companyName companyHomepage productName productVersion componentName =
     andthen (check (companyName \<noteq> []) (mk_exn EmptyArgumentException)) (andthen (check (companyHomepage \<noteq> []) (mk_exn EmptyArgumentException))
     (andthen (check (productName \<noteq> []) (mk_exn EmptyArgumentException)) (andthen (check (productVersion \<noteq> []) (mk_exn EmptyArgumentException))
     (andthen (check (productName \<noteq> []) (mk_exn EmptyArgumentException))
     (modify (\<lambda>s. s\<lparr>organizationName := companyName, organizationDomain := companyHomepage,
        applicationName := productName @ ''.'' @ componentName, applicationVersion := productVersion\<rparr>))))))"

definition GetUniqueId :: "(exn, string, 'w \<times> app_info) prog" where
  "GetUniqueId = bind (this id) (\<lambda>s. andthen (check (organizationName s \<noteq> []) (mk_exn LogicException))
     (andthen (check (applicationName s \<noteq> []) (mk_exn LogicException))
     (ret (''com.'' @ organizationName s @ ''.'' @ applicationName s))))"

lemma SetInfo_then_GetUniqueId:
  assumes "companyName \<noteq> []" "companyHomepage \<noteq> []" "productName \<noteq> []" "productVersion \<noteq> []"
  shows "\<exists>s'. andthen (SetInfo companyName companyHomepage productName productVersion componentName) GetUniqueId (w, s) =
    Some (Ret (''com.'' @ companyName @ ''.'' @ productName @ ''.'' @ componentName) (w, s'))"
  using assms by (simp add: SetInfo_def GetUniqueId_def)

text \<open>An empty component is accepted: the last check tests \<open>productName\<close> again.\<close>

lemma SetInfo_accepts_empty_component:
  "\<exists>s'. SetInfo ''c'' ''h'' ''p'' ''v'' [] (w, s) = Some (Ret () (w, s')) \<and> applicationName s' = ''p.''"
  by (simp add: SetInfo_def)

text \<open>What \<open>notify\<close> does with an exception of an event handler; the object counts the calls of \<open>quit()\<close>.\<close>

datatype notify_action = ntaRethrow | ntaQuit | ntaAbsorb

definition NotifyThrowHandler :: "notify_action \<Rightarrow> exn \<Rightarrow> (exn, bool, 'w \<times> nat) prog" where
  "NotifyThrowHandler action e = (if action = ntaRethrow then throw e
     else andthen (if action = ntaQuit then modify Suc else ret ()) (ret False))"

definition notify :: "notify_action \<Rightarrow> (exn, bool, 'w \<times> nat) prog \<Rightarrow> (exn, bool, 'w \<times> nat) prog" where
  "notify action handler = catch handler (NotifyThrowHandler action)"

lemma notify_exception:
  assumes "handler st = Some (Exc e (w, quits))"
  shows "notify action handler st = Some (case action of ntaRethrow \<Rightarrow> Exc e (w, quits) | ntaQuit \<Rightarrow> Ret False (w, Suc quits) | ntaAbsorb \<Rightarrow> Ret False (w, quits))"
  using assms by (cases action) (simp_all add: notify_def NotifyThrowHandler_def)

section \<open>Runs\<close>

text \<open>A program whose parts watch and unwatch signals and whose application is told to quit on them.  Other parts
  unwatch only what the application did not watch.\<close>

inductive app_run :: "('w, 'x) signal_api_scheme \<Rightarrow> ('w \<Rightarrow> int \<Rightarrow> action) \<Rightarrow> ('w \<Rightarrow> sock \<Rightarrow> int list) \<Rightarrow> 'w
    \<Rightarrow> 'w \<Rightarrow> watcher \<Rightarrow> app \<Rightarrow> bool"
  for api disp data w0 where
  start: "app_run api disp data w0 w0 watcher_ctor app_ctor"
| watch: "app_run api disp data w0 w s a \<Longrightarrow> Watch api sig (w, s) = Some (Ret r (w', s')) \<Longrightarrow> app_run api disp data w0 w' s' a"
| unwatch: "app_run api disp data w0 w s a \<Longrightarrow> Unwatch api sig (w, s) = Some (Ret r (w', s')) \<Longrightarrow>
    \<not> (sig = SIGTERM \<and> unwatchSigTerm a) \<Longrightarrow> \<not> (sig = SIGINT \<and> unwatchSigInt a) \<Longrightarrow> app_run api disp data w0 w' s' a"
| deliver: "app_run api disp data w0 w s a \<Longrightarrow> disp w sig = Watcher_Handler \<Longrightarrow>
    PosixSignalHandler api sig (w, s) = Some (Ret () (w', s')) \<Longrightarrow> app_run api disp data w0 w' s' a"
| activate: "app_run api disp data w0 w s a \<Longrightarrow> socketNotifiers s sig = Some fd \<Longrightarrow> data w fd \<noteq> [] \<Longrightarrow>
    QtSignalHandler api fd (w, s) = Some (Ret () (w', s')) \<Longrightarrow> app_run api disp data w0 w' s' a"
| set_quit: "app_run api disp data w0 w s a \<Longrightarrow> SetQuitOnTerminationSignals api b ((w, s), a) = Some (Ret () ((w', s'), a')) \<Longrightarrow>
    app_run api disp data w0 w' s' a'"

lemma bind_RetE:
  assumes "bind m k w = Some (Ret b w'')"
  obtains a w' where "m w = Some (Ret a w')" "k a w' = Some (Ret b w'')"
proof (cases "m w")
  case (Some r)
  then show ?thesis using assms that by (cases r) auto
qed (use assms in simp)

lemma env_RetE:
  assumes "env m st = Some (Ret a st')"
  obtains w' where "m (fst st) = Some (Ret a w')" "st' = (w', snd st)"
proof (cases "m (fst st)")
  case (Some r)
  then show ?thesis using assms that by (cases st; cases r) auto
qed (use assms in \<open>cases st; simp\<close>)

lemma noexcept_RetD: "noexcept m w = Some (Ret a w') \<Longrightarrow> m w = Some (Ret a w')"
  by (cases "m w"; cases "the (m w)") auto

lemma scoped_RetE:
  assumes "scoped m d w = Some (Ret a w')"
  obtains w1 where "m w = Some (Ret a w1)" "d w1 = Some (Ret () w')"
proof -
  from assms obtain b w1 where m: "catch m (\<lambda>e. andthen (noexcept d) (throw e)) w = Some (Ret b w1)"
    and k: "(case noexcept d w1 of None \<Rightarrow> None | Some (Ret _ w') \<Rightarrow> Some (Ret b w') | Some (Exc e w') \<Rightarrow> Some (Exc e w')
      | Some (Term w') \<Rightarrow> Some (Term w')) = Some (Ret a w')"
    unfolding scoped_def by (rule bind_RetE)
  have "m w = Some (Ret b w1)"
    using m by (cases "m w"; cases "the (m w)") (auto elim!: bind_RetE)
  moreover have "d w1 = Some (Ret () w')" "b = a"
    using k by (auto split: option.splits res.splits dest!: noexcept_RetD)
  ultimately show ?thesis using that by blast
qed

section \<open>What the parts do\<close>

lemma env_bool_simps [simp]:
  "m w = Some (Ret True w') \<Longrightarrow> env m (w, obj) = Some (Ret True (w', obj))"
  "m w = Some (Ret False w') \<Longrightarrow> env m (w, obj) = Some (Ret False (w', obj))"
  by (simp_all add: env_def)

definition others_same :: "int \<Rightarrow> watcher \<Rightarrow> watcher \<Rightarrow> bool" where
  "others_same sig s s' \<longleftrightarrow> (\<forall>i. i \<noteq> sig \<longrightarrow> socketNotifiers s' i = socketNotifiers s i)"

text \<open>What the flags of the application say of the watcher.\<close>

definition flags_ok :: "watcher \<Rightarrow> app \<Rightarrow> bool" where
  "flags_ok s a \<longleftrightarrow> (unwatchSigTerm a \<longrightarrow> socketNotifiers s SIGTERM \<noteq> None) \<and> (unwatchSigInt a \<longrightarrow> socketNotifiers s SIGINT \<noteq> None)"

lemmas conn_defs = connect_term_def disconnect_term_def connect_int_def disconnect_int_def

context signal_system
begin

definition reached :: "'w \<Rightarrow> 'w \<Rightarrow> watcher \<Rightarrow> bool" where
  "reached w0 w s \<longleftrightarrow> (\<forall>sig. disposition w0 sig \<noteq> Watcher_Handler) \<and> (\<exists>es. watcher_run api disposition pipe w0 es w s)"

lemma reached_slot: "reached w0 w s \<Longrightarrow> slot_ok w0 w s sig"
  using run_inv_run by (fastforce simp: reached_def run_inv_def watcher_inv_def)

lemma reached_IsWatched:
  "reached w0 w s \<Longrightarrow> watchable sig \<Longrightarrow> IsWatched api sig (w, s) = Some (Ret (socketNotifiers s sig \<noteq> None) (w, s))"
  by (rule IsWatched_eval[OF slot_consistent_ok[OF reached_slot]])

lemma reached_Watch: "reached w0 w s \<Longrightarrow> Watch api sig (w, s) = Some (Ret r (w', s')) \<Longrightarrow> reached w0 w' s'"
  unfolding reached_def using watcher_run.watch by fastforce

lemma reached_Unwatch: "reached w0 w s \<Longrightarrow> Unwatch api sig (w, s) = Some (Ret r (w', s')) \<Longrightarrow> reached w0 w' s'"
  unfolding reached_def using watcher_run.unwatch by fastforce

text \<open>How \<open>Watch\<close> and \<open>Unwatch\<close> end in a state that is reached.\<close>

lemma Watch_outcome:
  assumes "reached w0 w s" "watchable sig" "socketNotifiers s sig = None"
  shows "(\<exists>w'. Watch api sig (w, s) = Some (Ret False (w', s)) \<and> reached w0 w' s)
    \<or> (\<exists>w' s'. Watch api sig (w, s) = Some (Ret True (w', s')) \<and> reached w0 w' s' \<and> socketNotifiers s' sig \<noteq> None \<and> others_same sig s s')
    \<or> (\<exists>e w' s'. Watch api sig (w, s) = Some (Exc e (w', s')))"
proof -
  have "(\<exists>w'. Watch api sig (w, s) = Some (Ret False (w', s)))
    \<or> (\<exists>a b w' s'. Watch api sig (w, s) = Some (Ret True (w', s')) \<and> starts_watching sig a b w s w' s')
    \<or> (\<exists>e w' s'. Watch api sig (w, s) = Some (Exc e (w', s')))"
    using Watch_unwatched[OF reached_slot[OF assms(1)] assms(2,3)] by blast
  then show ?thesis
  proof (elim disjE exE conjE)
    fix w' assume r: "Watch api sig (w, s) = Some (Ret False (w', s))"
    then show ?thesis using reached_Watch[OF assms(1) r] by blast
  next
    fix x y w' s' assume r: "Watch api sig (w, s) = Some (Ret True (w', s'))" and st: "starts_watching sig x y w s w' s'"
    have "socketNotifiers s' = (socketNotifiers s)(sig := Some x)" using st by (simp add: starts_watching_def)
    then show ?thesis using r reached_Watch[OF assms(1) r] by (auto simp: others_same_def)
  qed blast
qed

lemma Unwatch_outcome:
  assumes "reached w0 w s" "socketNotifiers s sig \<noteq> None"
  shows "(\<exists>w'. Unwatch api sig (w, s) = Some (Ret False (w', s)) \<and> reached w0 w' s)
    \<or> (\<exists>w' s'. Unwatch api sig (w, s) = Some (Ret True (w', s')) \<and> reached w0 w' s' \<and> socketNotifiers s' sig = None \<and> others_same sig s s')"
proof -
  have "(\<exists>w'. Unwatch api sig (w, s) = Some (Ret False (w', s)))
    \<or> (\<exists>w' s'. Unwatch api sig (w, s) = Some (Ret True (w', s')) \<and> stops_watching sig w s w' s')"
    using Unwatch_watched[OF reached_slot[OF assms(1)] assms(2)] by blast
  then show ?thesis
  proof (elim disjE exE conjE)
    fix w' assume r: "Unwatch api sig (w, s) = Some (Ret False (w', s))"
    then show ?thesis using reached_Unwatch[OF assms(1) r] by blast
  next
    fix w' s' assume r: "Unwatch api sig (w, s) = Some (Ret True (w', s'))" and st: "stops_watching sig w s w' s'"
    have "socketNotifiers s' = (socketNotifiers s)(sig := None)" using st by (simp add: stops_watching_def)
    then show ?thesis using r reached_Unwatch[OF assms(1) r] by (auto simp: others_same_def)
  qed
qed

lemma watch_for_quit_Ret:
  assumes "reached w0 w s" "watchable sig" "watch_for_quit api sig f ((w, s), a) = Some (Ret () ((w', s'), a'))"
  shows "reached w0 w' s' \<and> socketNotifiers s' sig \<noteq> None \<and> others_same sig s s' \<and> a' = (if socketNotifiers s sig = None then f a else a)"
proof (cases "socketNotifiers s sig")
  case None
  show ?thesis using Watch_outcome[OF assms(1,2) None] assms(3) reached_IsWatched[OF assms(1,2)] None
    by (elim disjE exE conjE) (auto simp: watch_for_quit_def throw_last_error_def)
next
  case (Some n)
  then show ?thesis using assms reached_IsWatched[OF assms(1,2)] by (simp add: watch_for_quit_def others_same_def)
qed

lemma unwatch_for_quit_outcome:
  assumes "reached w0 w s" "watchable sig" "u a \<longrightarrow> socketNotifiers s sig \<noteq> None"
  shows "(\<exists>e w'. unwatch_for_quit api sig u f ((w, s), a) = Some (Exc e ((w', s), a)) \<and> reached w0 w' s \<and> u a)
    \<or> (\<exists>w' s'. unwatch_for_quit api sig u f ((w, s), a) = Some (Ret () ((w', s'), if u a then f a else a)) \<and> reached w0 w' s'
        \<and> others_same sig s s' \<and> socketNotifiers s' sig = (if u a then None else socketNotifiers s sig))"
proof (cases "u a")
  case True
  have n: "socketNotifiers s sig \<noteq> None" using assms(3) True by blast
  show ?thesis using Unwatch_outcome[OF assms(1) n] reached_IsWatched[OF assms(1,2)] n True
    by (elim disjE exE conjE) (auto simp: unwatch_for_quit_def throw_last_error_def)
next
  case False
  then show ?thesis using assms(1) by (simp add: unwatch_for_quit_def others_same_def)
qed

lemma undo_start_outcome:
  assumes "reached w0 w s" "termQuits a" "unwatchSigTerm a \<Longrightarrow> socketNotifiers s SIGTERM \<noteq> None"
  shows "\<exists>w' s' u. undo_start api ((w, s), a) = Some (Ret () ((w', s'), a\<lparr>termQuits := False, unwatchSigTerm := u\<rparr>))
    \<and> reached w0 w' s' \<and> others_same SIGTERM s s' \<and> (u \<longrightarrow> socketNotifiers s' SIGTERM \<noteq> None)"
proof (cases "unwatchSigTerm a")
  case True
  have a: "a\<lparr>termQuits := False, unwatchSigTerm := True\<rparr> = a\<lparr>termQuits := False\<rparr>" using True by (cases a) simp
  show ?thesis using Unwatch_outcome[OF assms(1) assms(3)[OF True]]
  proof (elim disjE exE conjE)
    fix w' assume "Unwatch api SIGTERM (w, s) = Some (Ret False (w', s))" "reached w0 w' s"
    then show ?thesis using reached_IsWatched[OF assms(1), of SIGTERM] assms(2,3) True a
      by (intro exI[of _ w'] exI[of _ s] exI[of _ True]) (simp add: undo_start_def conn_defs others_same_def)
  next
    fix w' s' assume "Unwatch api SIGTERM (w, s) = Some (Ret True (w', s'))" "reached w0 w' s'" "others_same SIGTERM s s'"
    then show ?thesis using reached_IsWatched[OF assms(1), of SIGTERM] assms(2,3) True
      by (intro exI[of _ w'] exI[of _ s'] exI[of _ False]) (simp add: undo_start_def conn_defs)
  qed
next
  case False
  have a: "a\<lparr>termQuits := False, unwatchSigTerm := False\<rparr> = a\<lparr>termQuits := False\<rparr>" using False by (cases a) simp
  then show ?thesis using assms False
    by (intro exI[of _ w] exI[of _ s] exI[of _ False]) (simp add: undo_start_def conn_defs others_same_def)
qed

lemma undo_stop_Ret:
  assumes "reached w0 w s" "\<not> unwatchSigInt a" "\<not> intQuits a" "undo_stop api ((w, s), a) = Some (Ret () ((w', s'), a'))"
  shows "reached w0 w' s' \<and> others_same SIGINT s s'
    \<and> (a' = a \<and> socketNotifiers s' SIGINT = None \<or> a' = a\<lparr>intQuits := True, unwatchSigInt := True\<rparr> \<and> socketNotifiers s' SIGINT \<noteq> None)"
proof (cases "socketNotifiers s SIGINT")
  case None
  have sig: "watchable SIGINT" by simp
  show ?thesis using Watch_outcome[OF assms(1) sig None] assms reached_IsWatched[OF assms(1) sig] None
    by (elim disjE exE conjE) (auto simp: undo_stop_def conn_defs others_same_def)
next
  case (Some n)
  then have "Watch api SIGINT (w, s) = Some (Exc InvalidArgument (w, s))"
    using reached_IsWatched[OF assms(1), of SIGINT] by (simp add: Watch_def)
  then show ?thesis using Some assms reached_IsWatched[OF assms(1), of SIGINT] by (cases "sg_ndebug api") (simp_all add: undo_stop_def)
qed

lemma undo_stop_watched:
  assumes "reached w0 w s" "socketNotifiers s SIGINT \<noteq> None" "\<not> unwatchSigInt a"
  shows "\<exists>st. noexcept (undo_stop api) ((w, s), a) = Some (Term st)"
proof -
  have "Watch api SIGINT (w, s) = Some (Exc InvalidArgument (w, s))"
    using assms reached_IsWatched[OF assms(1), of SIGINT] by (simp add: Watch_def)
  then show ?thesis using assms reached_IsWatched[OF assms(1), of SIGINT] by (cases "sg_ndebug api") (simp_all add: undo_stop_def)
qed

section \<open>What the operation does\<close>

lemma start_quitting_Ret:
  assumes r: "reached w0 w s" and f: "flags_ok s a"
    and run: "start_quitting api (((w, s), a), False) = Some (Ret () (((w', s'), a'), c))"
  shows "reached w0 w' s' \<and> flags_ok s' a' \<and> \<not> termQuits a' \<and> intQuits a'"
proof -
  from run obtain w1 s1 a1 where 1: "watch_for_quit api SIGTERM remember_term ((w, s), a) = Some (Ret () ((w1, s1), a1))"
    and run1: "scoped (andthen (env (watch_for_quit api SIGINT remember_int)) (andthen (env connect_int) (ret ())))
        (bind (this id) (\<lambda>commit. if commit then ret () else env (undo_start api))) (((w1, s1), a1\<lparr>termQuits := True\<rparr>), False)
      = Some (Ret () (((w', s'), a'), c))"
    unfolding start_quitting_def by (auto elim!: bind_RetE env_RetE simp: conn_defs)
  have sig: "watchable SIGTERM" "watchable SIGINT" by simp_all
  note w1 = watch_for_quit_Ret[OF r sig(1) 1]
  from run1 obtain w2 s2 a2 where 2: "watch_for_quit api SIGINT remember_int ((w1, s1), a1\<lparr>termQuits := True\<rparr>) = Some (Ret () ((w2, s2), a2))"
    and u: "undo_start api ((w2, s2), a2\<lparr>intQuits := True\<rparr>) = Some (Ret () ((w', s'), a'))"
    by (auto elim!: scoped_RetE bind_RetE env_RetE simp: conn_defs)
  note w2 = watch_for_quit_Ret[OF conjunct1[OF w1] sig(2) 2]
  have "termQuits (a2\<lparr>intQuits := True\<rparr>)" using w2 by simp
  moreover have "socketNotifiers s2 SIGTERM \<noteq> None" using w1 w2 by (simp add: others_same_def)
  ultimately obtain x where x: "a' = a2\<lparr>intQuits := True, termQuits := False, unwatchSigTerm := x\<rparr>" "reached w0 w' s'"
      "others_same SIGTERM s2 s'" "x \<longrightarrow> socketNotifiers s' SIGTERM \<noteq> None"
    using undo_start_outcome[OF conjunct1[OF w2], of "a2\<lparr>intQuits := True\<rparr>"] u by auto
  then have "socketNotifiers s' SIGINT \<noteq> None" using w2 by (simp add: others_same_def)
  then show ?thesis using x by (simp add: flags_ok_def)
qed

lemma stop_quitting_Ret:
  assumes r: "reached w0 w s" and f: "flags_ok s a"
    and run: "stop_quitting api (((w, s), a), False) = Some (Ret () (((w', s'), a'), c))"
  shows "reached w0 w' s' \<and> flags_ok s' a' \<and> \<not> termQuits a' \<and> (intQuits a' = (socketNotifiers s' SIGINT \<noteq> None))
    \<and> intQuits a' = unwatchSigInt a' \<and> \<not> unwatchSigTerm a'"
proof -
  from run obtain w1 s1 a1 where 1: "unwatch_for_quit api SIGINT unwatchSigInt forget_int ((w, s), a\<lparr>intQuits := False\<rparr>) = Some (Ret () ((w1, s1), a1))"
    and run1: "scoped (andthen (env disconnect_term) (env (unwatch_for_quit api SIGTERM unwatchSigTerm forget_term)))
        (bind (this id) (\<lambda>commit. if commit then ret () else env (undo_stop api))) (((w1, s1), a1), False)
      = Some (Ret () (((w', s'), a'), c))"
    unfolding stop_quitting_def by (auto elim!: bind_RetE env_RetE simp: conn_defs)
  have sig: "watchable SIGTERM" "watchable SIGINT" by simp_all
  have 11: "reached w0 w1 s1 \<and> others_same SIGINT s s1 \<and> a1 = (if unwatchSigInt a then forget_int (a\<lparr>intQuits := False\<rparr>) else a\<lparr>intQuits := False\<rparr>)"
    using unwatch_for_quit_outcome[OF r sig(2), of unwatchSigInt "a\<lparr>intQuits := False\<rparr>" forget_int] 1 f by (auto simp: flags_ok_def)
  from run1 obtain w2 s2 a2 where 2: "unwatch_for_quit api SIGTERM unwatchSigTerm forget_term ((w1, s1), a1\<lparr>termQuits := False\<rparr>) = Some (Ret () ((w2, s2), a2))"
    and u: "undo_stop api ((w2, s2), a2) = Some (Ret () ((w', s'), a'))"
    by (auto elim!: scoped_RetE bind_RetE env_RetE simp: conn_defs)
  have a1: "unwatchSigTerm a1 = unwatchSigTerm a" "\<not> unwatchSigInt a1" "\<not> intQuits a1" using 11 by (auto split: if_splits)
  have t: "unwatchSigTerm (a1\<lparr>termQuits := False\<rparr>) \<longrightarrow> socketNotifiers s1 SIGTERM \<noteq> None"
    using f a1(1) 11 by (auto simp: flags_ok_def others_same_def)
  have 22: "reached w0 w2 s2 \<and> others_same SIGTERM s1 s2 \<and> a2 = (if unwatchSigTerm a then forget_term (a1\<lparr>termQuits := False\<rparr>) else a1\<lparr>termQuits := False\<rparr>)"
    using unwatch_for_quit_outcome[OF conjunct1[OF 11] sig(1), of unwatchSigTerm "a1\<lparr>termQuits := False\<rparr>" forget_term, OF t] 2 a1(1) by auto
  have a2: "\<not> unwatchSigInt a2" "\<not> intQuits a2" "\<not> termQuits a2" "\<not> unwatchSigTerm a2" using 22 a1 by (auto split: if_splits)
  show ?thesis using undo_stop_Ret[OF conjunct1[OF 22] a2(1,2) u] a2 by (auto simp: flags_ok_def)
qed

lemma drop_object_RetE:
  assumes "drop_object m obj w = Some (Ret a w')"
  obtains obj' where "m (w, obj) = Some (Ret a (w', obj'))"
proof -
  from assms obtain r where r: "m (w, obj) = Some r" "map_res id id fst r = Ret a w'"
    by (auto simp: drop_object_def)
  then show ?thesis using that by (cases r) auto
qed

lemma SetQuit_Ret:
  assumes r: "reached w0 w s" and f: "flags_ok s a" "\<not> termQuits a" "quitOnTerminationSignals a \<Longrightarrow> intQuits a"
    and run: "SetQuitOnTerminationSignals api b ((w, s), a) = Some (Ret () ((w', s'), a'))"
  shows "reached w0 w' s' \<and> flags_ok s' a' \<and> \<not> termQuits a' \<and> quitOnTerminationSignals a' = b \<and> (b \<longrightarrow> intQuits a')
    \<and> (\<not> b \<longrightarrow> quitOnTerminationSignals a \<longrightarrow> intQuits a' = (socketNotifiers s' SIGINT \<noteq> None) \<and> intQuits a' = unwatchSigInt a')"
proof (cases "quitOnTerminationSignals a = b")
  case True
  then show ?thesis using assms by (auto simp: SetQuitOnTerminationSignals_def)
next
  case False
  with run obtain obj where "andthen (if b then start_quitting api else stop_quitting api)
       (andthen (env (modify (quitOnTerminationSignals_update (\<lambda>_. b)))) (modify (\<lambda>_. True))) (((w, s), a), False) = Some (Ret () (((w', s'), a'), obj))"
    by (auto simp: SetQuitOnTerminationSignals_def elim: drop_object_RetE)
  then obtain a1 c where go: "(if b then start_quitting api else stop_quitting api) (((w, s), a), False) = Some (Ret () (((w', s'), a1), c))"
      "a' = a1\<lparr>quitOnTerminationSignals := b\<rparr>"
    by (auto elim!: bind_RetE env_RetE)
  then show ?thesis
    using start_quitting_Ret[OF r f(1), of w' s' a1 c] stop_quitting_Ret[OF r f(1), of w' s' a1 c] by (cases b) (auto simp: flags_ok_def)
qed

lemma app_run_ok:
  assumes "app_run api disposition pipe w0 w s a" "\<forall>sig. disposition w0 sig \<noteq> Watcher_Handler"
  shows "reached w0 w s \<and> flags_ok s a \<and> \<not> termQuits a \<and> (quitOnTerminationSignals a \<longrightarrow> intQuits a)"
  using assms
proof (induction rule: app_run.induct)
  case start
  then show ?case unfolding reached_def using watcher_run.start by (fastforce simp: flags_ok_def app_ctor_def)
next
  case (watch w s a sig r w' s')
  then have IH: "reached w0 w s" "flags_ok s a" by auto
  have "socketNotifiers s i \<noteq> None \<Longrightarrow> socketNotifiers s' i \<noteq> None" for i
  proof -
    assume n: "socketNotifiers s i \<noteq> None"
    note pre = Watch_Ret[OF reached_slot[OF IH(1)] watch.hyps(2)]
    show "socketNotifiers s' i \<noteq> None"
      using Watch_outcome[OF IH(1) conjunct1[OF pre] conjunct2[OF pre]] watch.hyps(2) n pre by (cases "i = sig") (auto simp: others_same_def)
  qed
  then show ?case using watch reached_Watch[OF IH(1) watch.hyps(2)] by (auto simp: flags_ok_def)
next
  case (unwatch w s a sig r w' s')
  then have IH: "reached w0 w s" "flags_ok s a" by auto
  note pre = Unwatch_Ret[OF reached_slot[OF IH(1)] unwatch.hyps(2)]
  have "others_same sig s s'" using Unwatch_outcome[OF IH(1) conjunct2[OF pre]] unwatch.hyps(2) by (auto simp: others_same_def)
  then show ?case using unwatch reached_Unwatch[OF IH(1) unwatch.hyps(2)] by (auto simp: flags_ok_def others_same_def)
next
  case (deliver w s a sig w' s')
  then have IH: "reached w0 w s" "flags_ok s a" by auto
  have "socketNotifiers s sig \<noteq> None" using reached_slot[OF IH(1), of sig] deliver IH(1)
    by (auto simp: slot_ok_def reached_def split: option.splits)
  then have "s' = s" using PosixSignalHandler_watched[OF reached_slot[OF IH(1)]] deliver.hyps(3) by fastforce
  then show ?case using deliver IH(1) watcher_run.deliver unfolding reached_def by fastforce
next
  case (activate w s a sig fd w' s')
  then have IH: "reached w0 w s" "flags_ok s a" by auto
  have inv: "watcher_inv w0 w s" using IH(1) run_inv_run by (fastforce simp: reached_def run_inv_def)
  have "s' = s\<lparr>emitted := emitted s'\<rparr>" using QtSignalHandler_watched[OF inv activate.hyps(2,3)] activate.hyps(4) by auto
  then have "socketNotifiers s' = socketNotifiers s" by (metis watcher.ext_inject watcher.surjective watcher.update_convs(5))
  moreover have "reached w0 w' s'" using IH(1) watcher_run.activate[where api = api and disp = disposition and data = pipe, OF _ activate.hyps(2-4)] unfolding reached_def by fastforce
  ultimately show ?case using activate IH by (auto simp: flags_ok_def)
next
  case (set_quit w s a b w' s' a')
  then show ?case using SetQuit_Ret[of w0 w s a b w' s' a'] by auto
qed

text \<open>The end of the program when another part watches \<open>SIGINT\<close>.\<close>

lemma stop_quitting_watched:
  assumes r: "reached w0 w s" and f: "flags_ok s a" and i: "\<not> unwatchSigInt a" "socketNotifiers s SIGINT \<noteq> None"
  shows "\<exists>st. stop_quitting api (((w, s), a), False) = Some (Term st)"
proof -
  let ?a = "a\<lparr>intQuits := False, termQuits := False\<rparr>"
  have sig: "watchable SIGTERM" by simp
  have t: "unwatchSigTerm ?a \<longrightarrow> socketNotifiers s SIGTERM \<noteq> None" using f by (simp add: flags_ok_def)
  have dtor: "\<exists>st. noexcept (bind (this id) (\<lambda>commit. if commit then ret () else env (undo_stop api))) (((w', s'), a'), False) = Some (Term st)"
    if "reached w0 w' s'" "socketNotifiers s' SIGINT \<noteq> None" "\<not> unwatchSigInt a'" for w' s' a'
  proof -
    from undo_stop_watched[OF that] obtain st e where "undo_stop api ((w', s'), a') = Some (Term st) \<or> undo_stop api ((w', s'), a') = Some (Exc e st)"
      by (cases "undo_stop api ((w', s'), a')"; cases "the (undo_stop api ((w', s'), a'))") auto
    moreover have "Ex Not" by (rule exI[of _ False]) simp
    ultimately show ?thesis by (elim disjE; cases st) (simp_all add: exI)
  qed
  have start: "stop_quitting api (((w, s), a), False) = scoped (andthen (env disconnect_term) (env (unwatch_for_quit api SIGTERM unwatchSigTerm forget_term)))
     (bind (this id) (\<lambda>commit. if commit then ret () else env (undo_stop api))) (((w, s), a\<lparr>intQuits := False\<rparr>), False)"
    using i(1) by (simp add: stop_quitting_def unwatch_for_quit_def conn_defs)
  from unwatch_for_quit_outcome[OF r sig, of unwatchSigTerm ?a forget_term, OF t]
  show ?thesis
  proof (elim disjE exE conjE)
    fix e w' assume u: "unwatch_for_quit api SIGTERM unwatchSigTerm forget_term ((w, s), ?a) = Some (Exc e ((w', s), ?a))" "reached w0 w' s"
    then show ?thesis using dtor[OF u(2) i(2), of ?a] i(1) unfolding start by (auto simp: scoped_def conn_defs)
  next
    fix w' s' assume u: "unwatch_for_quit api SIGTERM unwatchSigTerm forget_term ((w, s), ?a) =
        Some (Ret () ((w', s'), if unwatchSigTerm ?a then forget_term ?a else ?a))" "reached w0 w' s'" "others_same SIGTERM s s'"
    have "socketNotifiers s' SIGINT \<noteq> None" using u(3) i(2) by (simp add: others_same_def)
    then show ?thesis using dtor[OF u(2), of "if unwatchSigTerm ?a then forget_term ?a else ?a"] i(1) u(1)
      unfolding start by (auto simp: scoped_def conn_defs split: if_splits)
  qed
qed

lemma SetQuit_watched:
  assumes "reached w0 w s" "flags_ok s a" "\<not> unwatchSigInt a" "socketNotifiers s SIGINT \<noteq> None" "quitOnTerminationSignals a"
  shows "\<exists>st. SetQuitOnTerminationSignals api False ((w, s), a) = Some (Term st)"
  using stop_quitting_watched[OF assms(1-4)] assms(5) by (auto simp: SetQuitOnTerminationSignals_def drop_object_def)

lemma SetQuit_false:
  assumes "\<forall>sig. disposition w0 sig \<noteq> Watcher_Handler" "app_run api disposition pipe w0 w s a" "quitOnTerminationSignals a"
  shows "(SetQuitOnTerminationSignals api False ((w, s), a) = Some (Ret () ((w', s'), a')) \<longrightarrow>
        \<not> quitOnTerminationSignals a' \<and> intQuits a' = (disposition w' SIGINT = Watcher_Handler) \<and> unwatchSigInt a' = intQuits a')
    \<and> (\<not> unwatchSigInt a \<and> disposition w SIGINT = Watcher_Handler \<longrightarrow>
        (\<exists>st. SetQuitOnTerminationSignals api False ((w, s), a) = Some (Term st)))"
proof -
  have ok: "reached w0 w s" "flags_ok s a" "\<not> termQuits a" "quitOnTerminationSignals a \<Longrightarrow> intQuits a"
    using app_run_ok[OF assms(2,1)] by auto
  have handled: "(disposition w SIGINT = Watcher_Handler) = (socketNotifiers s SIGINT \<noteq> None)" if "reached w0 w s" for w s
    using reached_slot[OF that, of SIGINT] assms(1) by (auto simp: slot_ok_def split: option.splits)
  show ?thesis
    using SetQuit_Ret[OF ok, of False w' s' a'] SetQuit_watched[OF ok(1,2) _ _ assms(3)] handled[of w s] handled[of w' s'] ok(1) assms(3) by auto
qed

end

section \<open>Properties\<close>


text \<open>Turning quitting off: when the call returns, \<open>SIGINT\<close> still quits the application as long as it could be
  watched again; and when another part of the program watches \<open>SIGINT\<close>, the call ends the program.\<close>

theorem SetQuit_false_keeps_SIGINT:
  assumes "signal_system api open_socks disposition peer pipe" "\<forall>sig. disposition w0 sig \<noteq> Watcher_Handler"
    and "app_run api disposition pipe w0 w s a" "quitOnTerminationSignals a"
  shows "(SetQuitOnTerminationSignals api False ((w, s), a) = Some (Ret () ((w', s'), a')) \<longrightarrow>
        \<not> quitOnTerminationSignals a' \<and> intQuits a' = (disposition w' SIGINT = Watcher_Handler) \<and> unwatchSigInt a' = intQuits a')
    \<and> (\<not> unwatchSigInt a \<and> disposition w SIGINT = Watcher_Handler \<longrightarrow>
        (\<exists>st. SetQuitOnTerminationSignals api False ((w, s), a) = Some (Term st)))"
  by (rule signal_system.SetQuit_false[OF assms])

text \<open>Turning quitting on and off on a system where every call succeeds: afterwards \<open>SIGTERM\<close> ends the process, as it did
  before, and \<open>SIGINT\<close> quits the application.\<close>

definition quitting_world :: sigworld where
  "quitting_world = first_world\<lparr>socks := [5, 6], actions := (\<lambda>_. Other_Action 0)(SIGINT := Watcher_Handler),
     peers := [4 \<mapsto> 3, 6 \<mapsto> 5], pipes := (\<lambda>_. [])\<rparr>"

definition quitting_watcher :: watcher where
  "quitting_watcher = watcher_ctor\<lparr>readSockets := (\<lambda>_. - 1)(SIGINT := 5), writeSockets := (\<lambda>_. - 1)(SIGINT := 6),
     socketNotifiers := [SIGINT \<mapsto> 5]\<rparr>"

definition quitting_app :: app where
  "quitting_app = app_ctor\<lparr>quitOnTerminationSignals := True, unwatchSigInt := True, intQuits := True\<rparr>"

text \<open>The states in between: both signals watched, and none.\<close>

definition both_watcher :: watcher where
  "both_watcher = watching_state\<lparr>readSockets := (readSockets watching_state)(SIGINT := 5),
     writeSockets := (writeSockets watching_state)(SIGINT := 6), socketNotifiers := [SIGTERM \<mapsto> 3, SIGINT \<mapsto> 5]\<rparr>"

definition both_world :: sigworld where
  "both_world = (watching_world [])\<lparr>socks := [5, 6, 3, 4], actions := (\<lambda>_. Other_Action 0)(SIGTERM := Watcher_Handler, SIGINT := Watcher_Handler),
     peers := [4 \<mapsto> 3, 6 \<mapsto> 5]\<rparr>"

definition idle_world :: sigworld where
  "idle_world = first_world\<lparr>socks := [], peers := [4 \<mapsto> 3, 6 \<mapsto> 5]\<rparr>"

definition again_world :: sigworld where
  "again_world = first_world\<lparr>socks := [3, 4], actions := (\<lambda>_. Other_Action 0)(SIGINT := Watcher_Handler), peers := [4 \<mapsto> 3, 6 \<mapsto> 5]\<rparr>"

definition again_watcher :: watcher where
  "again_watcher = watcher_ctor\<lparr>readSockets := (\<lambda>_. - 1)(SIGINT := 3), writeSockets := (\<lambda>_. - 1)(SIGINT := 4),
     socketNotifiers := [SIGINT \<mapsto> 3]\<rparr>"

lemmas sample_states = first_world_def watcher_ctor_def watching_world_def watching_state_def both_world_def both_watcher_def
  quitting_world_def quitting_watcher_def idle_world_def again_world_def again_watcher_def

lemmas call_evals = Watch_def IsWatched_def SocketPair_def set_sockets_def MakeWriteSocketNonBlocking_def RegisterHandler_def
  catch_runtime_error_def new_sock_def slot_consistent_def Unwatch_def CloseSocketPair_def sample_states

lemma sample_Watch_term:
  "Watch (sample_signals 3 []) SIGTERM (first_world, watcher_ctor) = Some (Ret True (watching_world [], watching_state))"
  by (simp add: call_evals fun_upd_idem)

lemma sample_Watch_int:
  "Watch (sample_signals 3 []) SIGINT (watching_world [], watching_state) = Some (Ret True (both_world, both_watcher))"
  by (simp add: call_evals fun_upd_idem)

lemma sample_Unwatch_term:
  "Unwatch (sample_signals 3 []) SIGTERM (both_world, both_watcher) = Some (Ret True (quitting_world, quitting_watcher))"
  by (simp add: call_evals fun_upd_idem)

lemma sample_Unwatch_int:
  "Unwatch (sample_signals 3 []) SIGINT (quitting_world, quitting_watcher) = Some (Ret True (idle_world, watcher_ctor))"
  by (simp add: call_evals fun_upd_idem)

lemma sample_Watch_again:
  "Watch (sample_signals 3 []) SIGINT (idle_world, watcher_ctor) = Some (Ret True (again_world, again_watcher))"
  by (simp add: call_evals fun_upd_idem)

lemmas sample_calls = sample_Watch_term sample_Watch_int sample_Unwatch_term sample_Unwatch_int sample_Watch_again

lemma sample_checks:
  "IsWatched (sample_signals 3 []) SIGTERM (first_world, watcher_ctor) = Some (Ret False (first_world, watcher_ctor))"
  "IsWatched (sample_signals 3 []) SIGINT (watching_world [], watching_state) = Some (Ret False (watching_world [], watching_state))"
  "IsWatched (sample_signals 3 []) SIGTERM (both_world, both_watcher) = Some (Ret True (both_world, both_watcher))"
  "IsWatched (sample_signals 3 []) SIGINT (quitting_world, quitting_watcher) = Some (Ret True (quitting_world, quitting_watcher))"
  "IsWatched (sample_signals 3 []) SIGINT (idle_world, watcher_ctor) = Some (Ret False (idle_world, watcher_ctor))"
  by (simp_all add: IsWatched_def slot_consistent_def sample_states)

lemmas quit_evals = SetQuitOnTerminationSignals_def start_quitting_def stop_quitting_def watch_for_quit_def unwatch_for_quit_def
  undo_start_def undo_stop_def conn_defs drop_object_def scoped_def app_ctor_def quitting_app_def sample_calls sample_checks

lemma sample_start_quitting:
  "SetQuitOnTerminationSignals (sample_signals 3 []) True ((first_world, watcher_ctor), app_ctor)
    = Some (Ret () ((quitting_world, quitting_watcher), quitting_app))"
  by (simp add: quit_evals)

lemma sample_app_run: "app_run (sample_signals 3 []) actions pipes first_world quitting_world quitting_watcher quitting_app"
  by (rule app_run.set_quit[OF app_run.start sample_start_quitting])


lemma sample_stop_quitting:
  "SetQuitOnTerminationSignals (sample_signals 3 []) False ((quitting_world, quitting_watcher), quitting_app)
    = Some (Ret () ((again_world, again_watcher), quitting_app\<lparr>quitOnTerminationSignals := False\<rparr>))"
  by (simp add: quit_evals)

lemma SetQuit_false_keeps_SIGINT_witness:
  "\<exists>w s a. SetQuitOnTerminationSignals (sample_signals 3 []) False ((quitting_world, quitting_watcher), quitting_app)
    = Some (Ret () ((w, s), a)) \<and> \<not> quitOnTerminationSignals a \<and> intQuits a"
proof -
  have "quitOnTerminationSignals quitting_app" "actions again_world SIGINT = Watcher_Handler"
    by (simp_all add: quitting_app_def again_world_def)
  then show ?thesis
    using SetQuit_false_keeps_SIGINT[OF sample_signals.signal_system_axioms first_world_free sample_app_run,
        of again_world again_watcher "quitting_app\<lparr>quitOnTerminationSignals := False\<rparr>"] sample_stop_quitting by blast
qed

end
