(* ===== verification/ByteArrays.thy ===== *)
theory ByteArrays
imports Exceptions "HOL-Library.Word"
begin

text \<open>
  The text of a byte array (\<open>include/cppdevtk/base/dynamic_byte_array.hpp\<close>, \<open>src/base/dynamic_byte_array.cpp\<close>).

  \<open>num base prefix n\<close> is how \<open>QTextStream\<close> writes a number in a base, with the prefix of the base or without.
\<close>

definition size_of_int :: "int \<Rightarrow> 64 word" where
  "size_of_int len = word_of_int len"

definition byte_line :: "(int \<Rightarrow> bool \<Rightarrow> nat \<Rightarrow> string) \<Rightarrow> int \<Rightarrow> nat \<Rightarrow> 8 word \<Rightarrow> string" where
  "byte_line num base idx b = ''byte '' @ num 10 False idx @ '': '' @ num base (base \<noteq> 10 \<and> base \<noteq> 0) (unat b) @ [CHR 0x0A]"

fun byte_lines :: "(int \<Rightarrow> bool \<Rightarrow> nat \<Rightarrow> string) \<Rightarrow> int \<Rightarrow> nat \<Rightarrow> 8 word list \<Rightarrow> string" where
  "byte_lines num base idx [] = []"
| "byte_lines num base idx (b # bs) = byte_line num base idx b @ byte_lines num base (Suc idx) bs"

definition Stringize :: "(int \<Rightarrow> bool \<Rightarrow> nat \<Rightarrow> string) \<Rightarrow> 8 word list \<Rightarrow> int \<Rightarrow> int \<Rightarrow> (exn, string, 'w) prog" where
  "Stringize num bytes len base =
     andthen (check (- 1 \<le> len \<and> unat (size_of_int len) \<le> length bytes) (mk_exn InvalidArgumentException))
     (andthen (check (base \<in> {0, 2, 8, 10, 16}) (mk_exn InvalidArgumentException))
     (let kMaxIdx = (if len = - 1 then length bytes else nat len) in
      ret (''size: '' @ num 10 False (length bytes) @ [CHR 0x0A] @
        (if kMaxIdx > 0 then (if kMaxIdx = length bytes then ''all elements:'' @ [CHR 0x0A] @ ''['' @ [CHR 0x0A]
            else ''first '' @ num 10 False kMaxIdx @ '' elements:'' @ [CHR 0x0A] @ ''['' @ [CHR 0x0A])
          @ byte_lines num base 0 (take kMaxIdx bytes) @ '']'' else []))))"

text \<open>The check compares the length as an unsigned number: the default argument \<open>-1\<close>, which means all elements, is refused for every
  array that fits in memory.\<close>

lemma default_length_refused:
  assumes "length bytes < 2 ^ 64 - 1"
  shows "Stringize num bytes (- 1) base w = Some (Exc (mk_exn InvalidArgumentException) w)"
proof -
  have "unat (size_of_int (- 1)) = 2 ^ 64 - 1" by (simp only: size_of_int_def unat_eq_nat_uint uint_word_of_int) simp
  then show ?thesis using assms by (simp add: Stringize_def)
qed

text \<open>A length that is given is honoured: as many lines as bytes.\<close>

lemma lines_of_bytes: "length (filter (\<lambda>c. c = CHR 0x0A) (byte_lines num base idx bs)) = length bs"
  if "\<And>b p n. CHR 0x0A \<notin> set (num b p n)"
proof -
  have "filter (\<lambda>c. c = CHR 0x0A) (num b p n) = []" for b p n using that[of b p n] by (auto simp: filter_empty_conv)
  then show ?thesis by (induction bs arbitrary: idx) (auto simp: byte_line_def)
qed

lemma given_length:
  assumes "0 < len" "nat len \<le> length bytes" "nat len < 2 ^ 31" "base \<in> {0, 2, 8, 10, 16}" "\<And>b p n. CHR 0x0A \<notin> set (num b p n)"
  shows "\<exists>out. Stringize num bytes len base w = Some (Ret out w) \<and> length (filter (\<lambda>c. c = CHR 0x0A) out) = nat len + 3"
proof -
  have "unat (size_of_int len) = nat len" using assms(1,3) by (simp add: size_of_int_def unat_eq_nat_uint uint_word_of_int_eq take_bit_int_eq_self)
  moreover have "filter (\<lambda>c. c = CHR 0x0A) (num b p n) = []" for b p n using assms(5)[of b p n] by (auto simp: filter_empty_conv)
  ultimately show ?thesis using assms(1,2,4) lines_of_bytes[of num base 0 "take (nat len) bytes", OF assms(5)]
    by (simp add: Stringize_def Let_def)
qed

end
