(* ===== verification/Cancelables.thy ===== *)
theory Cancelables
imports Main
begin

text \<open>
  Cancelable tasks shared by threads (\<open>include/cppdevtk/base/cancelable.hpp\<close>): \<open>ClassicCancelable\<close> keeps a flag behind a
  mutex.  Any number of threads run calls on any number of objects; a step locks, unlocks, reads or writes.

  A lock guard locks at its construction and unlocks at the end of its block.  The assignment locks its target and
  then, inside \<open>other.IsCanceled()\<close>, its source.
\<close>

section \<open>Calls and steps\<close>

datatype ccall = Cancel nat | IsCanceled nat | Assign nat nat

datatype micro = Lock nat | Unlock nat | Load nat | Store_True nat | Store_Loaded nat

fun steps_of :: "ccall \<Rightarrow> micro list" where
  "steps_of (Cancel x) = [Lock x, Store_True x, Unlock x]"
| "steps_of (IsCanceled x) = [Lock x, Load x, Unlock x]"
| "steps_of (Assign x y) = (if x = y then [] else [Lock x, Lock y, Load y, Unlock y, Store_Loaded x, Unlock x])"

record cthread =
  now :: "micro list"
  todo :: "ccall list"
  returned :: bool

record csystem =
  holder :: "nat \<Rightarrow> nat option"
  isCanceled :: "nat \<Rightarrow> bool"
  threads :: "nat \<Rightarrow> cthread"

definition set_thread :: "nat \<Rightarrow> (cthread \<Rightarrow> cthread) \<Rightarrow> csystem \<Rightarrow> csystem" where
  "set_thread i f s = s\<lparr>threads := (threads s)(i := f (threads s i))\<rparr>"

text \<open>One step of a thread; \<open>None\<close> when it has nothing to do or waits for a mutex.\<close>

definition cancel_step :: "nat \<Rightarrow> csystem \<Rightarrow> csystem option" where
  "cancel_step i s = (case now (threads s i) of
     [] \<Rightarrow> (case todo (threads s i) of [] \<Rightarrow> None | c # cs \<Rightarrow> Some (set_thread i (\<lambda>t. t\<lparr>now := steps_of c, todo := cs\<rparr>) s))
   | m # ms \<Rightarrow> (let s' = set_thread i (\<lambda>t. t\<lparr>now := ms\<rparr>) s in case m of
       Lock x \<Rightarrow> if holder s x = None then Some (s'\<lparr>holder := (holder s)(x \<mapsto> i)\<rparr>) else None
     | Unlock x \<Rightarrow> Some (s'\<lparr>holder := (holder s)(x := None)\<rparr>)
     | Load x \<Rightarrow> Some (set_thread i (\<lambda>t. t\<lparr>returned := isCanceled s x\<rparr>) s')
     | Store_True x \<Rightarrow> Some (s'\<lparr>isCanceled := (isCanceled s)(x := True)\<rparr>)
     | Store_Loaded x \<Rightarrow> Some (s'\<lparr>isCanceled := (isCanceled s)(x := returned (threads s i))\<rparr>)))"

definition cancel_start :: "(nat \<Rightarrow> ccall list) \<Rightarrow> (nat \<Rightarrow> bool) \<Rightarrow> csystem" where
  "cancel_start calls flags = \<lparr>holder = (\<lambda>_. None), isCanceled = flags, threads = (\<lambda>i. \<lparr>now = [], todo = calls i, returned = False\<rparr>)\<rparr>"

inductive cancel_run :: "(nat \<Rightarrow> ccall list) \<Rightarrow> (nat \<Rightarrow> bool) \<Rightarrow> nat list \<Rightarrow> csystem \<Rightarrow> bool" for calls flags where
  start: "cancel_run calls flags [] (cancel_start calls flags)"
| step: "cancel_run calls flags js s \<Longrightarrow> cancel_step i s = Some s' \<Longrightarrow> cancel_run calls flags (js @ [i]) s'"

definition at_end :: "csystem \<Rightarrow> nat \<Rightarrow> bool" where
  "at_end s i \<longleftrightarrow> now (threads s i) = [] \<and> todo (threads s i) = []"

section \<open>Invariant\<close>

fun tails :: "'a list \<Rightarrow> 'a list list" where
  "tails [] = [[]]"
| "tails (x # xs) = (x # xs) # tails xs"

text \<open>The mutexes a thread holds before the rest of a call: those it unlocks without locking them.\<close>

fun held :: "micro list \<Rightarrow> nat set" where
  "held [] = {}"
| "held (Unlock x # ms) = insert x (held ms)"
| "held (Lock x # ms) = held ms - {x}"
| "held (_ # ms) = held ms"

lemma tails_here [simp]: "xs \<in> set (tails xs)"
  by (cases xs) auto

lemma held_start [simp]: "held (steps_of c) = {}"
  by (cases c) auto

lemma tail_step:
  assumes "m # ms \<in> set (tails (steps_of c))"
  shows "ms \<in> set (tails (steps_of c))"
    and "held ms = (case m of Lock x \<Rightarrow> insert x (held (m # ms)) | Unlock x \<Rightarrow> held (m # ms) - {x} | _ \<Rightarrow> held (m # ms))"
    and "m = Lock y \<Longrightarrow> x \<in> held (m # ms) \<Longrightarrow> c = Assign x y \<and> x \<noteq> y"
    and "m = Store_Loaded x \<Longrightarrow> \<exists>y. c = Assign x y"
  using assms by (cases c; auto split: if_splits)+

definition cancel_inv :: "(nat \<Rightarrow> ccall list) \<Rightarrow> csystem \<Rightarrow> bool" where
  "cancel_inv calls s \<longleftrightarrow> (\<forall>i. now (threads s i) = [] \<or> (\<exists>c \<in> set (calls i). now (threads s i) \<in> set (tails (steps_of c))))
     \<and> (\<forall>i. set (todo (threads s i)) \<subseteq> set (calls i)) \<and> (\<forall>x i. holder s x = Some i \<longleftrightarrow> x \<in> held (now (threads s i)))"

lemma thread_fields [simp]:
  "holder (set_thread i f s) = holder s" "isCanceled (set_thread i f s) = isCanceled s"
  "threads (set_thread i f s) = (threads s)(i := f (threads s i))"
  by (simp_all add: set_thread_def)

text \<open>How a step changes the rest of the calls and the mutexes.\<close>

lemma step_cases:
  assumes "cancel_step i s = Some s'"
  obtains c cs where "now (threads s i) = []" "todo (threads s i) = c # cs" "now (threads s' i) = steps_of c" "todo (threads s' i) = cs"
      "holder s' = holder s" "\<forall>j. j \<noteq> i \<longrightarrow> threads s' j = threads s j" "isCanceled s' = isCanceled s"
    | m ms where "now (threads s i) = m # ms" "now (threads s' i) = ms" "todo (threads s' i) = todo (threads s i)"
      "\<forall>j. j \<noteq> i \<longrightarrow> threads s' j = threads s j"
      "holder s' = (case m of Lock x \<Rightarrow> (holder s)(x \<mapsto> i) | Unlock x \<Rightarrow> (holder s)(x := None) | _ \<Rightarrow> holder s)"
      "\<forall>x. m = Lock x \<longrightarrow> holder s x = None"
      "isCanceled s' = (case m of Store_True x \<Rightarrow> (isCanceled s)(x := True) | Store_Loaded x \<Rightarrow> (isCanceled s)(x := returned (threads s i)) | _ \<Rightarrow> isCanceled s)"
proof (cases "now (threads s i)")
  case Nil
  then obtain c cs where "todo (threads s i) = c # cs" using assms by (cases "todo (threads s i)") (auto simp: cancel_step_def)
  then show ?thesis using assms Nil by (intro that(1)[of c cs]) (auto simp: cancel_step_def)
next
  case (Cons m ms)
  then show ?thesis using assms
    by (intro that(2)[of m ms]) (cases m; auto simp: cancel_step_def Let_def split: if_splits)+
qed

lemma current_call:
  assumes "cancel_inv calls s" "now (threads s i) = m # ms"
  obtains c where "c \<in> set (calls i)" "m # ms \<in> set (tails (steps_of c))"
proof -
  have "now (threads s i) = [] \<or> (\<exists>c \<in> set (calls i). now (threads s i) \<in> set (tails (steps_of c)))"
    using assms(1) by (simp add: cancel_inv_def)
  then show ?thesis using assms(2) that by auto
qed

lemma inv_step:
  assumes inv: "cancel_inv calls s" and st: "cancel_step i s = Some s'"
  shows "cancel_inv calls s'"
  using st
proof (cases rule: step_cases)
  case (1 c cs)
  have "set (todo (threads s i)) \<subseteq> set (calls i)" using inv by (simp add: cancel_inv_def)
  then have c: "c \<in> set (calls i)" "set cs \<subseteq> set (calls i)" using 1(2) by auto
  have n: "now (threads s' j) = (if j = i then steps_of c else now (threads s j))" "todo (threads s' j) = (if j = i then cs else todo (threads s j))" for j
    using 1 by auto
  have h: "held (now (threads s' j)) = held (now (threads s j))" for j using n(1)[of j] 1(1) by simp
  show ?thesis unfolding cancel_inv_def
  proof (intro conjI allI)
    show "now (threads s' j) = [] \<or> (\<exists>c \<in> set (calls j). now (threads s' j) \<in> set (tails (steps_of c)))" for j
      using inv c(1) n(1)[of j] by (cases "j = i") (auto simp: cancel_inv_def intro!: bexI[of _ c])
    show "set (todo (threads s' j)) \<subseteq> set (calls j)" for j using inv c(2) n(2)[of j] by (simp add: cancel_inv_def)
    show "(holder s' x = Some j) = (x \<in> held (now (threads s' j)))" for x j using inv h 1(5) by (simp add: cancel_inv_def)
  qed
next
  case (2 m ms)
  have n: "now (threads s' j) = (if j = i then ms else now (threads s j))" "todo (threads s' j) = todo (threads s j)" for j
    using 2 by auto
  obtain c where c: "c \<in> set (calls i)" "m # ms \<in> set (tails (steps_of c))" by (rule current_call[OF inv 2(1)])
  note t = tail_step[OF c(2)]
  have h: "holder s x = Some j \<longleftrightarrow> x \<in> held (now (threads s j))" for x j using inv unfolding cancel_inv_def by blast
  have "holder s' x = Some j \<longleftrightarrow> x \<in> held (now (threads s' j))" for x j
  proof (cases m)
    case (Lock y)
    have "holder s y = None" using 2(6) Lock by blast
    moreover have "y \<in> held ms" using t(2) Lock by auto
    ultimately show ?thesis using h[of x j] h[of y j] h[of x i] 2(1,5) Lock n(1)[of j] by (cases "j = i"; cases "x = y") simp_all
  next
    case (Unlock y)
    have "holder s y = Some i" using h[of y i] 2(1) Unlock by simp
    moreover have "y \<notin> held ms" using t(2) Unlock by auto
    ultimately show ?thesis using h[of x j] h[of y j] h[of x i] 2(1,5) Unlock n(1)[of j] by (cases "j = i"; cases "x = y") simp_all
  qed (use h[of x j] h[of x i] 2(1,5) n(1)[of j] in \<open>cases "j = i"; simp\<close>)+
  moreover have "now (threads s' j) = [] \<or> (\<exists>c \<in> set (calls j). now (threads s' j) \<in> set (tails (steps_of c)))" for j
    using inv c(1) t(1) n(1)[of j] by (cases "j = i") (auto simp: cancel_inv_def)
  moreover have "set (todo (threads s' j)) \<subseteq> set (calls j)" for j using inv n(2)[of j] by (simp add: cancel_inv_def)
  ultimately show ?thesis unfolding cancel_inv_def by blast
qed

lemma inv_run: "cancel_run calls flags js s \<Longrightarrow> cancel_inv calls s"
proof (induction rule: cancel_run.induct)
  case start
  then show ?case by (simp add: cancel_inv_def cancel_start_def)
next
  case (step js s i s')
  then show ?case by (blast intro: inv_step)
qed

section \<open>Progress\<close>

definition work :: "csystem \<Rightarrow> nat \<Rightarrow> nat" where
  "work s i = length (now (threads s i)) + (\<Sum>c \<leftarrow> todo (threads s i). Suc (length (steps_of c)))"

lemma work_step: "cancel_step i s = Some s' \<Longrightarrow> work s i = Suc (work s' i) \<and> (\<forall>j. j \<noteq> i \<longrightarrow> work s' j = work s j)"
  by (erule step_cases) (simp_all add: work_def)

lemma work_run:
  assumes "cancel_run calls flags js s" "\<forall>i \<ge> n. calls i = []"
  shows "length js + (\<Sum>i<n. work s i) = (\<Sum>i<n. \<Sum>c \<leftarrow> calls i. Suc (length (steps_of c))) \<and> (\<forall>i \<ge> n. work s i = 0)"
  using assms
proof (induction rule: cancel_run.induct)
  case start
  then show ?case by (simp add: work_def cancel_start_def)
next
  case (step js s i s')
  note w = work_step[OF step.hyps(2)]
  then have i: "i < n" using step.IH[OF step.prems] by (metis Zero_not_Suc not_le)
  have "(\<Sum>j<n. work s j) = work s i + (\<Sum>j \<in> {..<n} - {i}. work s j)" using i by (simp add: sum.remove)
  also have "(\<Sum>j \<in> {..<n} - {i}. work s j) = (\<Sum>j \<in> {..<n} - {i}. work s' j)" using w by (intro sum.cong) auto
  also have "work s i + (\<Sum>j \<in> {..<n} - {i}. work s' j) = Suc (\<Sum>j<n. work s' j)" using i w by (simp add: sum.remove[of _ i])
  finally show ?case using step.IH[OF step.prems] w i by auto
qed

lemma blocked:
  assumes "cancel_step i s = None" "\<not> at_end s i"
  obtains x ms j where "now (threads s i) = Lock x # ms" "holder s x = Some j"
proof (cases "now (threads s i)")
  case Nil
  then show ?thesis using assms by (cases "todo (threads s i)") (auto simp: cancel_step_def at_end_def)
next
  case (Cons m ms)
  then show ?thesis using assms(1) that by (cases m) (auto simp: cancel_step_def Let_def split: if_splits)
qed

section \<open>Properties\<close>

text \<open>C29: If the objects can be ranked such that every assignment goes from an object of higher rank to one of lower rank, the
  calls of all threads return: no run has more steps than the calls have together, and while some thread is not at its end
  some thread can step.\<close>

theorem ranked_assignments_return:
  assumes "\<forall>i x y. Assign x y \<in> set (calls i) \<longrightarrow> x \<noteq> y \<longrightarrow> rank x < (rank y :: nat)" "\<forall>i \<ge> n. calls i = []"
    and "cancel_run calls flags js s"
  shows "length js \<le> (\<Sum>i<n. \<Sum>c \<leftarrow> calls i. Suc (length (steps_of c))) \<and> ((\<exists>i. \<not> at_end s i) \<longrightarrow> (\<exists>i. cancel_step i s \<noteq> None))"
proof -
  have inv: "cancel_inv calls s" by (rule inv_run[OF assms(3)])
  note w = work_run[OF assms(3,2)]
  define wanted where "wanted = {x. \<exists>i ms. now (threads s i) = Lock x # ms}"
  have stuck: "\<exists>y \<in> wanted. rank x < rank y" if all: "\<forall>i. cancel_step i s = None" and x: "x \<in> wanted" for x
  proof -
    from x obtain i ms where i: "now (threads s i) = Lock x # ms" by (auto simp: wanted_def)
    then have "\<not> at_end s i" "cancel_step i s = None" using all by (auto simp: at_end_def)
    then obtain j where "holder s x = Some j" using i by (auto elim: blocked)
    then have j: "x \<in> held (now (threads s j))" using inv by (simp add: cancel_inv_def)
    then have "now (threads s j) \<noteq> []" by auto
    then have "\<not> at_end s j" "cancel_step j s = None" using all by (auto simp: at_end_def)
    then obtain y ns where y: "now (threads s j) = Lock y # ns" by (auto elim: blocked)
    obtain c where c: "c \<in> set (calls j)" "Lock y # ns \<in> set (tails (steps_of c))" by (rule current_call[OF inv y])
    have "c = Assign x y" "x \<noteq> y" using tail_step(3)[OF c(2) refl, of x] j y by simp_all
    then show ?thesis using assms(1) c(1) y by (auto simp: wanted_def)
  qed
  have "finite wanted"
  proof (rule finite_subset)
    show "wanted \<subseteq> (\<lambda>i. case now (threads s i) of Lock x # _ \<Rightarrow> x | _ \<Rightarrow> 0) ` {..<n}"
    proof
      fix x assume "x \<in> wanted"
      then obtain i ms where i: "now (threads s i) = Lock x # ms" by (auto simp: wanted_def)
      then have "work s i \<noteq> 0" by (simp add: work_def)
      then have "i < n" using conjunct2[OF w] by (metis not_le)
      then show "x \<in> (\<lambda>i. case now (threads s i) of Lock x # _ \<Rightarrow> x | _ \<Rightarrow> 0) ` {..<n}" using i by force
    qed
  qed simp
  have "\<exists>i. cancel_step i s \<noteq> None" if i: "\<not> at_end s i" for i
  proof (rule ccontr)
    assume "\<not> ?thesis"
    then have all: "\<forall>i. cancel_step i s = None" by blast
    then have "cancel_step i s = None" by blast
    then obtain x ms j where "now (threads s i) = Lock x # ms" using blocked[OF _ i] by metis
    then have "x \<in> wanted" by (auto simp: wanted_def)
    then have "Max (rank ` wanted) \<in> rank ` wanted" using \<open>finite wanted\<close> by (intro Max_in) auto
    then obtain z where z: "z \<in> wanted" "rank z = Max (rank ` wanted)" by force
    obtain y where "y \<in> wanted" "rank z < rank y" using stuck[OF all z(1)] by blast
    then show False using z(2) \<open>finite wanted\<close> by (metis Max_ge finite_imageI image_eqI not_le)
  qed
  moreover have "length js \<le> (\<Sum>i<n. \<Sum>c \<leftarrow> calls i. Suc (length (steps_of c)))" using w by linarith
  ultimately show ?thesis by blast
qed

definition acyclic_calls :: "nat \<Rightarrow> ccall list" where
  "acyclic_calls i = (if i = 0 then [Assign 0 1] else if i = 1 then [Cancel 1] else [])"

lemma ranked_assignments_return_witness: "\<exists>i. cancel_step i (cancel_start acyclic_calls (\<lambda>_. False)) \<noteq> None"
proof -
  have "\<forall>i x y. Assign x y \<in> set (acyclic_calls i) \<longrightarrow> x \<noteq> y \<longrightarrow> id x < id y" "\<forall>i \<ge> 2. acyclic_calls i = []"
    by (auto simp: acyclic_calls_def)
  moreover have "\<not> at_end (cancel_start acyclic_calls (\<lambda>_. False)) 0" by (simp add: at_end_def cancel_start_def acyclic_calls_def)
  ultimately show ?thesis using ranked_assignments_return[OF _ _ cancel_run.start[of acyclic_calls "\<lambda>_. False"], of id 2] by blast
qed

definition crossed :: "nat \<Rightarrow> ccall list" where
  "crossed i = (if i = 0 then [Assign 0 1] else if i = 1 then [Assign 1 0] else [])"

text \<open>Two threads that assign two objects to each other can block each other for good: after \<open>a = b\<close> has locked \<open>a\<close> and
  \<open>b = a\<close> has locked \<open>b\<close>, no thread can step and neither call has returned.\<close>

theorem crossed_assignments_deadlock:
  "\<exists>s. cancel_run crossed flags [0, 1, 0, 1] s \<and> \<not> at_end s 0 \<and> \<not> at_end s 1 \<and> (\<forall>i. cancel_step i s = None)"
proof -
  have start: "now (threads (cancel_start crossed flags) i) = []" "todo (threads (cancel_start crossed flags) i) = crossed i"
    "holder (cancel_start crossed flags) x = None" for i x by (simp_all add: cancel_start_def)
  obtain s1 where 1: "cancel_step 0 (cancel_start crossed flags) = Some s1" by (simp add: cancel_step_def start crossed_def)
  obtain s2 where 2: "cancel_step 1 s1 = Some s2" using 1 by (auto simp: cancel_step_def start crossed_def)
  obtain s3 where 3: "cancel_step 0 s2 = Some s3" using 1 2 by (auto simp: cancel_step_def start crossed_def Let_def)
  obtain s4 where 4: "cancel_step 1 s3 = Some s4" using 1 2 3 by (auto simp: cancel_step_def start crossed_def Let_def)
  have "cancel_run crossed flags ((([] @ [0]) @ [1]) @ [0]) s3"
    by (rule cancel_run.step[OF cancel_run.step[OF cancel_run.step[OF cancel_run.start 1] 2] 3])
  then have "cancel_run crossed flags [0, 1, 0, 1] s4" using cancel_run.step[OF _ 4] by fastforce
  moreover have "\<not> at_end s4 0" "\<not> at_end s4 1" "cancel_step i s4 = None" for i
    using 1 2 3 4 by (auto simp: cancel_step_def start crossed_def Let_def at_end_def)
  ultimately show ?thesis by blast
qed

text \<open>An object that is not assigned to stays canceled.\<close>

lemma canceled_stays:
  assumes "cancel_run calls flags js s" "cancel_step i s = Some s'" "isCanceled s x" "\<forall>i y. Assign x y \<notin> set (calls i)"
  shows "isCanceled s' x"
  using assms(2)
proof (cases rule: step_cases)
  case (2 m ms)
  obtain c where c: "c \<in> set (calls i)" "m # ms \<in> set (tails (steps_of c))" by (rule current_call[OF inv_run[OF assms(1)] 2(1)])
  have "m \<noteq> Store_Loaded x" using tail_step(4)[OF c(2)] c(1) assms(4) by blast
  then show ?thesis using assms(3) 2(7) by (cases m) auto
qed (use assms(3) in simp)

end
