(* ===== verification/Lockable.thy ===== *)
theory Lockable
imports Exceptions
begin

text \<open>
  The interface the locks and the locking algorithms use of a lockable object
  (\<open>Lock\<close>, \<open>TryLock\<close>, \<open>Unlock\<close>, and for timed ones \<open>TryLockFor\<close>, \<open>TryLockUntil\<close>), and its
  contract as locales.

  The contract is stated from the view of one thread: \<open>held w\<close> is the multiset of lockables this
  thread holds in state \<open>w\<close> (a multiset, since recursive mutexes may be locked several times).
  Steps of other threads happen inside the operations and do not change it.
\<close>

record ('l, 'w) lock_ops =
  lk_lock :: "'l \<Rightarrow> (exn, unit, 'w) prog"
  lk_try :: "'l \<Rightarrow> (exn, bool, 'w) prog"
  lk_unlock :: "'l \<Rightarrow> (exn, unit, 'w) prog"

record ('l, 'w) timed_lock_ops = "('l, 'w) lock_ops" +
  lk_try_for :: "'l \<Rightarrow> int \<Rightarrow> (exn, bool, 'w) prog"
  lk_try_until :: "'l \<Rightarrow> int \<Rightarrow> (exn, bool, 'w) prog"

text \<open>The postcondition of an attempt to lock.\<close>

abbreviation attempt :: "('w \<Rightarrow> 'l multiset) \<Rightarrow> 'l multiset \<Rightarrow> 'l \<Rightarrow> bool \<Rightarrow> 'w \<Rightarrow> bool" where
  "attempt held H l b w \<equiv> held w = (if b then add_mset l H else H)"

text \<open>\<open>TryLock\<close> and \<open>Unlock\<close>: a failed or throwing attempt leaves the thread with what it held; unlocking
  a lock that is held does not throw.\<close>

locale try_lockable =
  fixes ops :: "('l, 'w, 'x) lock_ops_scheme" and held :: "'w \<Rightarrow> 'l multiset"
  assumes try_spec: "triple (\<lambda>w. held w = H) (lk_try ops l) (attempt held H l) (\<lambda>_ w. held w = H)"
    and unlock_spec: "triple (\<lambda>w. held w = add_mset l H) (lk_unlock ops l) (\<lambda>_ w. held w = H) (\<lambda>_ _. False)"

text \<open>\<open>Lock\<close> at one particular set of held locks: the form the proofs of the algorithms use, which blocks
  only while holding exactly \<open>H0\<close>.\<close>

locale lockable_at = try_lockable +
  fixes H0 :: "'a multiset"
  assumes lock_at_spec: "triple (\<lambda>w. held w = H0) (lk_lock ops l) (\<lambda>_ w. held w = add_mset l H0) (\<lambda>_ w. held w = H0)"

locale lockable = try_lockable +
  assumes lock_spec: "triple (\<lambda>w. held w = H) (lk_lock ops l) (\<lambda>_ w. held w = add_mset l H) (\<lambda>_ w. held w = H)"

sublocale lockable \<subseteq> at: lockable_at ops held H0 for H0
  by unfold_locales (rule lock_spec)

text \<open>Operations that stop the program when \<open>Lock\<close>, the blocking operation, is called while the thread
  holds anything but \<open>H0\<close>.\<close>

definition guarded :: "('w \<Rightarrow> 'l multiset) \<Rightarrow> 'l multiset \<Rightarrow> ('l, 'w, 'x) lock_ops_scheme \<Rightarrow> ('l, 'w, 'x) lock_ops_scheme" where
  "guarded held H0 ops = ops\<lparr>lk_lock := \<lambda>l w. if held w = H0 then lk_lock ops l w else Some (Term w)\<rparr>"

context lockable begin

lemma axioms_at: "lockable_at ops held H0"
  by (rule at.lockable_at_axioms)

lemma guarded_lockable_at: "lockable_at (guarded held H0 ops) held H0"
proof unfold_locales
  show "triple (\<lambda>w. held w = H) (lk_try (guarded held H0 ops) l) (attempt held H l) (\<lambda>_ w. held w = H)" for H l
    using try_spec[of H l] by (simp add: guarded_def)
  show "triple (\<lambda>w. held w = add_mset l H) (lk_unlock (guarded held H0 ops) l) (\<lambda>_ w. held w = H) (\<lambda>_ _. False)" for H l
    using unlock_spec[of l H] by (simp add: guarded_def)
  show "triple (\<lambda>w. held w = H0) (lk_lock (guarded held H0 ops) l) (\<lambda>_ w. held w = add_mset l H0) (\<lambda>_ w. held w = H0)" for l
    using lock_spec[of H0 l] by (simp add: guarded_def triple_def)
qed

end

locale timed_lockable = lockable ops held
  for ops :: "('l, 'w, 'x) timed_lock_ops_scheme" and held :: "'w \<Rightarrow> 'l multiset" +
  assumes try_for_spec:
      "triple (\<lambda>w. held w = H) (lk_try_for ops l relTime) (attempt held H l) (\<lambda>_ w. held w = H)"
    and try_until_spec:
      "triple (\<lambda>w. held w = H) (lk_try_until ops l absTime) (attempt held H l) (\<lambda>_ w. held w = H)"

end
