(* ===== verification/Locks.thy ===== *)
theory Locks
imports Lockable
begin

text \<open>
  \<open>LockGuard\<close> and \<open>UniqueLock\<close> (\<open>include/cppdevtk/base/locks.hpp\<close>), over any lockable type: the
  operations of the mutex are the argument \<open>ops\<close>.  A member function runs on the pair of the outer
  state and the lock object.
\<close>

section \<open>LockGuard\<close>

definition LockGuard_ctor :: "('l, 'w, 'x) lock_ops_scheme \<Rightarrow> (exn, unit, 'w \<times> 'l) prog" where
  "LockGuard_ctor ops = bind (this id) (\<lambda>mutex. env (lk_lock ops mutex))"

definition LockGuard_ctor_adopt :: "(exn, unit, 'w \<times> 'l) prog" where
  "LockGuard_ctor_adopt = ret ()"

definition LockGuard_dtor :: "('l, 'w, 'x) lock_ops_scheme \<Rightarrow> (exn, unit, 'w \<times> 'l) prog" where
  "LockGuard_dtor ops = noexcept (bind (this id) (\<lambda>mutex. env (lk_unlock ops mutex)))"

text \<open>A block that starts with \<open>LockGuard<TMutex> lockGuard(mutex);\<close>.\<close>

definition with_guard :: "('l, 'w, 'x) lock_ops_scheme \<Rightarrow> 'l \<Rightarrow> (exn, 'a, 'w) prog \<Rightarrow> (exn, 'a, 'w) prog" where
  "with_guard ops mutex body = local_object mutex (LockGuard_ctor ops) (env body) (LockGuard_dtor ops)"

section \<open>UniqueLock\<close>

record 'l unique_lock =
  pMutex :: "'l option"
  ownsLock :: bool

definition not_permitted :: exn where
  "not_permitted = LockExc (errc_MakeErrorCode errc_operation_not_permitted)"

definition UniqueLock_default :: "'l unique_lock" where
  "UniqueLock_default = \<lparr>pMutex = None, ownsLock = False\<rparr>"

definition UniqueLock_defer :: "'l \<Rightarrow> 'l unique_lock" where
  "UniqueLock_defer mutex = \<lparr>pMutex = Some mutex, ownsLock = False\<rparr>"

definition UniqueLock_adopt :: "'l \<Rightarrow> 'l unique_lock" where
  "UniqueLock_adopt mutex = \<lparr>pMutex = Some mutex, ownsLock = True\<rparr>"

definition UniqueLock_Lock :: "('l, 'w, 'x) lock_ops_scheme \<Rightarrow> (exn, unit, 'w \<times> 'l unique_lock) prog" where
  "UniqueLock_Lock ops = bind (this id) (\<lambda>u. case pMutex u of
      None \<Rightarrow> throw not_permitted
    | Some m \<Rightarrow> if ownsLock u then throw Deadlock
        else andthen (env (lk_lock ops m)) (modify (ownsLock_update (\<lambda>_. True))))"

definition UniqueLock_TryLock :: "('l, 'w, 'x) lock_ops_scheme \<Rightarrow> (exn, bool, 'w \<times> 'l unique_lock) prog" where
  "UniqueLock_TryLock ops = bind (this id) (\<lambda>u. case pMutex u of
      None \<Rightarrow> throw not_permitted
    | Some m \<Rightarrow> if ownsLock u then throw Deadlock
        else bind (env (lk_try ops m)) (\<lambda>b. andthen (modify (ownsLock_update (\<lambda>_. b))) (this ownsLock)))"

definition UniqueLock_TryLockFor :: "('l, 'w, 'x) timed_lock_ops_scheme \<Rightarrow> int \<Rightarrow> (exn, bool, 'w \<times> 'l unique_lock) prog" where
  "UniqueLock_TryLockFor ops relTime = bind (this id) (\<lambda>u. case pMutex u of
      None \<Rightarrow> throw not_permitted
    | Some m \<Rightarrow> if ownsLock u then throw Deadlock
        else bind (env (lk_try_for ops m relTime)) (\<lambda>b. andthen (modify (ownsLock_update (\<lambda>_. b))) (this ownsLock)))"

definition UniqueLock_TryLockUntil :: "('l, 'w, 'x) timed_lock_ops_scheme \<Rightarrow> int \<Rightarrow> (exn, bool, 'w \<times> 'l unique_lock) prog" where
  "UniqueLock_TryLockUntil ops absTime = bind (this id) (\<lambda>u. case pMutex u of
      None \<Rightarrow> throw not_permitted
    | Some m \<Rightarrow> if ownsLock u then throw Deadlock
        else bind (env (lk_try_until ops m absTime)) (\<lambda>b. andthen (modify (ownsLock_update (\<lambda>_. b))) (this ownsLock)))"

definition UniqueLock_Unlock :: "('l, 'w, 'x) lock_ops_scheme \<Rightarrow> (exn, unit, 'w \<times> 'l unique_lock) prog" where
  "UniqueLock_Unlock ops = bind (this id) (\<lambda>u.
     if \<not> ownsLock u then throw not_permitted
     else case pMutex u of None \<Rightarrow> throw not_permitted
       | Some m \<Rightarrow> andthen (env (lk_unlock ops m)) (modify (ownsLock_update (\<lambda>_. False))))"

definition UniqueLock_Release :: "(exn, 'l option, 'w \<times> 'l unique_lock) prog" where
  "UniqueLock_Release = bind (this pMutex) (\<lambda>pRetValue.
     andthen (modify (\<lambda>u. u\<lparr>pMutex := None, ownsLock := False\<rparr>)) (ret pRetValue))"

definition UniqueLock_OwnsLock :: "(exn, bool, 'w \<times> 'l unique_lock) prog" where
  "UniqueLock_OwnsLock = this ownsLock"

definition UniqueLock_dtor :: "('l, 'w, 'x) lock_ops_scheme \<Rightarrow> (exn, unit, 'w \<times> 'l unique_lock) prog" where
  "UniqueLock_dtor ops = noexcept (bind UniqueLock_OwnsLock (\<lambda>b. if b then UniqueLock_Unlock ops else ret ()))"

text \<open>\<open>Swap\<close> of two distinct objects.\<close>

definition UniqueLock_Swap :: "'l unique_lock \<Rightarrow> 'l unique_lock \<Rightarrow> 'l unique_lock \<times> 'l unique_lock" where
  "UniqueLock_Swap x y = (x\<lparr>pMutex := pMutex y, ownsLock := ownsLock y\<rparr>, y\<lparr>pMutex := pMutex x, ownsLock := ownsLock x\<rparr>)"

text \<open>The constructors that lock start from the deferred object and run the named operation; blocks with
  such an object.\<close>

definition with_unique_lock :: "('l, 'w, 'x) lock_ops_scheme \<Rightarrow> 'l \<Rightarrow> (exn, 'a, 'w \<times> 'l unique_lock) prog \<Rightarrow> (exn, 'a, 'w) prog" where
  "with_unique_lock ops m body = local_object (UniqueLock_defer m) (UniqueLock_Lock ops) body (UniqueLock_dtor ops)"

definition with_try_lock :: "('l, 'w, 'x) lock_ops_scheme \<Rightarrow> 'l \<Rightarrow> (exn, 'a, 'w \<times> 'l unique_lock) prog \<Rightarrow> (exn, 'a, 'w) prog" where
  "with_try_lock ops m body = local_object (UniqueLock_defer m)
     (andthen (UniqueLock_TryLock ops) (ret ())) body (UniqueLock_dtor ops)"

definition UniqueLock_ctor_for :: "('l, 'w, 'x) timed_lock_ops_scheme \<Rightarrow> int \<Rightarrow> (exn, unit, 'w \<times> 'l unique_lock) prog" where
  "UniqueLock_ctor_for ops relTime = andthen (UniqueLock_TryLockFor ops relTime) (ret ())"

definition UniqueLock_ctor_until :: "('l, 'w, 'x) timed_lock_ops_scheme \<Rightarrow> int \<Rightarrow> (exn, unit, 'w \<times> 'l unique_lock) prog" where
  "UniqueLock_ctor_until ops absTime = andthen (UniqueLock_TryLockUntil ops absTime) (ret ())"

section \<open>The ownership invariant\<close>

text \<open>\<open>H\<close> is what the thread holds apart from the lock object.\<close>

definition owned :: "('w \<Rightarrow> 'l multiset) \<Rightarrow> 'l multiset \<Rightarrow> 'w \<times> 'l unique_lock \<Rightarrow> bool" where
  "owned held H s = (if ownsLock (snd s)
     then (case pMutex (snd s) of None \<Rightarrow> False | Some m \<Rightarrow> held (fst s) = add_mset m H)
     else held (fst s) = H)"

lemma unique_lock_on: "pMutex u = Some m \<longleftrightarrow> (\<exists>b. u = \<lparr>pMutex = Some m, ownsLock = b\<rparr>)"
  by (cases u) auto

context try_lockable begin

lemma UniqueLock_TryLock_spec:
  "triple (\<lambda>s. owned held H s \<and> snd s = u) (UniqueLock_TryLock ops)
     (\<lambda>b s. owned held H s \<and> pMutex (snd s) = pMutex u \<and> ownsLock (snd s) = b)
     (\<lambda>_ s. owned held H s \<and> snd s = u)"
proof -
  have "triple (\<lambda>w. held w = H) (lk_try ops l) (attempt held H l) (\<lambda>_ w. held w = H)" for l
    by (rule try_spec)
  then show ?thesis
    unfolding UniqueLock_TryLock_def triple_def
    by (auto simp: owned_def bind_def env_def split: option.splits res.splits if_splits bind_splits) (fastforce)+
qed

lemma UniqueLock_Unlock_spec:
  "triple (\<lambda>s. owned held H s \<and> snd s = u) (UniqueLock_Unlock ops)
     (\<lambda>_ s. owned held H s \<and> pMutex (snd s) = pMutex u \<and> \<not> ownsLock (snd s))
     (\<lambda>e s. owned held H s \<and> snd s = u \<and> e = not_permitted \<and> \<not> ownsLock u)"
proof -
  have "triple (\<lambda>w. held w = add_mset l H) (lk_unlock ops l) (\<lambda>_ w. held w = H) (\<lambda>_ _. False)" for l
    by (rule unlock_spec)
  then show ?thesis
    unfolding UniqueLock_Unlock_def triple_def
    by (auto simp: owned_def bind_def env_def split: option.splits res.splits if_splits bind_splits) (fastforce)+
qed

lemma UniqueLock_Release_spec:
  "triple (\<lambda>s. owned held H s \<and> snd s = u) UniqueLock_Release
     (\<lambda>m s. m = pMutex u \<and> snd s = UniqueLock_default
        \<and> owned held (if ownsLock u then add_mset (the (pMutex u)) H else H) s) E"
  by (auto simp: UniqueLock_Release_def triple_def bind_def owned_def UniqueLock_default_def split: option.splits)

lemma UniqueLock_dtor_spec:
  "triple (owned held H) (UniqueLock_dtor ops) (\<lambda>_ s. held (fst s) = H) (\<lambda>_ _. False)"
  unfolding UniqueLock_dtor_def
proof (rule triple_noexcept, rule triple_pre)
  fix s0 assume s0: "owned held H s0"
  show "triple (\<lambda>s. s = s0) (bind UniqueLock_OwnsLock (\<lambda>b. if b then UniqueLock_Unlock ops else ret ()))
      (\<lambda>_ s. held (fst s) = H) (\<lambda>_ _. False)"
  proof (cases "ownsLock (snd s0)")
    case True
    have "triple (\<lambda>s. s = s0) (UniqueLock_Unlock ops) (\<lambda>_ s. held (fst s) = H) (\<lambda>_ _. False)"
      by (rule triple_conseq[OF UniqueLock_Unlock_spec[of H "snd s0"]]) (use s0 True in \<open>auto simp: owned_def\<close>)
    then show ?thesis
      using True by (cases s0) (simp add: UniqueLock_OwnsLock_def triple_def)
  next
    case False
    then show ?thesis
      using s0 by (cases s0) (simp add: UniqueLock_OwnsLock_def owned_def triple_def)
  qed
qed

text \<open>What a block may leave to the destructor: any ownership from which unlocking yields \<open>R\<close>.\<close>

lemma UniqueLock_dtor_any:
  "triple (\<lambda>s. \<exists>H. owned held H s \<and> (\<forall>w. held w = H \<longrightarrow> R w)) (UniqueLock_dtor ops) (\<lambda>_ s. R (fst s)) (\<lambda>_ _. False)"
  using UniqueLock_dtor_spec by (fastforce simp: triple_def split: res.splits)

lemma with_try_lock_triple:
  assumes body: "\<And>b. triple (\<lambda>s. owned held H s \<and> snd s = \<lparr>pMutex = Some m, ownsLock = b\<rparr>) body
      (\<lambda>a s. \<exists>H'. owned held H' s \<and> Q a H') (\<lambda>e s. \<exists>H'. owned held H' s \<and> E e H')"
    and exc: "\<And>e. E e H"
  shows "triple (\<lambda>w. held w = H) (with_try_lock ops m body) (\<lambda>a w. Q a (held w)) (\<lambda>e w. E e (held w))"
  unfolding with_try_lock_def
proof (rule triple_local_object[where D = "\<lambda>R s. \<exists>H. owned held H s \<and> (\<forall>w. held w = H \<longrightarrow> R w)"
      and R = "\<lambda>s. \<exists>b. owned held H s \<and> snd s = \<lparr>pMutex = Some m, ownsLock = b\<rparr>"])
  have "triple (\<lambda>s. held (fst s) = H \<and> snd s = UniqueLock_defer m) (UniqueLock_TryLock ops)
      (\<lambda>b s. owned held H s \<and> pMutex (snd s) = pMutex (UniqueLock_defer m) \<and> ownsLock (snd s) = b)
      (\<lambda>e s. E e (held (fst s)))"
    by (rule triple_conseq[OF UniqueLock_TryLock_spec[of H "UniqueLock_defer m"]])
       (auto simp: owned_def UniqueLock_defer_def exc)
  then show "triple (\<lambda>s. held (fst s) = H \<and> snd s = UniqueLock_defer m) (andthen (UniqueLock_TryLock ops) (ret ()))
      (\<lambda>_ s. \<exists>b. owned held H s \<and> snd s = \<lparr>pMutex = Some m, ownsLock = b\<rparr>) (\<lambda>e s. E e (held (fst s)))"
    by (rule triple_bind) (auto simp: triple_def UniqueLock_defer_def unique_lock_on)
  show "triple (\<lambda>s. \<exists>b. owned held H s \<and> snd s = \<lparr>pMutex = Some m, ownsLock = b\<rparr>) body
      (\<lambda>a s. \<exists>H. owned held H s \<and> (\<forall>w. held w = H \<longrightarrow> Q a (held w)))
      (\<lambda>e s. \<exists>H. owned held H s \<and> (\<forall>w. held w = H \<longrightarrow> E e (held w)))"
    using body by (fastforce simp: triple_def split: res.splits)
qed (rule UniqueLock_dtor_any)

end

context lockable_at begin

lemma UniqueLock_Lock_spec:
  "triple (\<lambda>s. owned held H0 s \<and> snd s = u) (UniqueLock_Lock ops)
     (\<lambda>_ s. owned held H0 s \<and> pMutex (snd s) = pMutex u \<and> ownsLock (snd s))
     (\<lambda>_ s. owned held H0 s \<and> snd s = u)"
proof -
  have "triple (\<lambda>w. held w = H0) (lk_lock ops l) (\<lambda>_ w. held w = add_mset l H0) (\<lambda>_ w. held w = H0)" for l
    by (rule lock_at_spec)
  then show ?thesis
    unfolding UniqueLock_Lock_def triple_def
    by (auto simp: owned_def bind_def env_def split: option.splits res.splits if_splits bind_splits) (fastforce)+
qed

lemma with_unique_lock_triple:
  assumes body: "triple (\<lambda>s. owned held H0 s \<and> snd s = \<lparr>pMutex = Some m, ownsLock = True\<rparr>) body
      (\<lambda>a s. \<exists>H'. owned held H' s \<and> Q a H') (\<lambda>e s. \<exists>H'. owned held H' s \<and> E e H')"
    and exc: "\<And>e. E e H0"
  shows "triple (\<lambda>w. held w = H0) (with_unique_lock ops m body) (\<lambda>a w. Q a (held w)) (\<lambda>e w. E e (held w))"
  unfolding with_unique_lock_def
proof (rule triple_local_object[where D = "\<lambda>R s. \<exists>H. owned held H s \<and> (\<forall>w. held w = H \<longrightarrow> R w)"
      and R = "\<lambda>s. owned held H0 s \<and> snd s = \<lparr>pMutex = Some m, ownsLock = True\<rparr>"])
  show "triple (\<lambda>s. held (fst s) = H0 \<and> snd s = UniqueLock_defer m) (UniqueLock_Lock ops)
      (\<lambda>_ s. owned held H0 s \<and> snd s = \<lparr>pMutex = Some m, ownsLock = True\<rparr>) (\<lambda>e s. E e (held (fst s)))"
    by (rule triple_conseq[OF UniqueLock_Lock_spec[of "UniqueLock_defer m"]])
       (auto simp: owned_def UniqueLock_defer_def exc)
  show "triple (\<lambda>s. owned held H0 s \<and> snd s = \<lparr>pMutex = Some m, ownsLock = True\<rparr>) body
      (\<lambda>a s. \<exists>H. owned held H s \<and> (\<forall>w. held w = H \<longrightarrow> Q a (held w)))
      (\<lambda>e s. \<exists>H. owned held H s \<and> (\<forall>w. held w = H \<longrightarrow> E e (held w)))"
    using body by (fastforce simp: triple_def split: res.splits)
qed (rule UniqueLock_dtor_any)

lemma with_guard_triple:
  assumes body: "triple (\<lambda>w. held w = add_mset m H0) body (\<lambda>a w. held w = add_mset m (Q a)) (\<lambda>e w. held w = add_mset m (E e))"
  shows "triple (\<lambda>w. held w = H0) (with_guard ops m body) (\<lambda>a w. held w = Q a) (\<lambda>e w. held w = H0 \<or> held w = E e)"
  unfolding with_guard_def
proof (rule triple_local_object[where D = "\<lambda>R s. snd s = m \<and> m \<in># held (fst s) \<and> (\<forall>w. held w = held (fst s) - {#m#} \<longrightarrow> R w)"
      and R = "\<lambda>s. held (fst s) = add_mset m H0 \<and> snd s = m"])
  show "triple (\<lambda>s. held (fst s) = H0 \<and> snd s = m) (LockGuard_ctor ops)
      (\<lambda>_ s. held (fst s) = add_mset m H0 \<and> snd s = m) (\<lambda>e s. held (fst s) = H0 \<or> held (fst s) = E e)"
    unfolding LockGuard_ctor_def
    by (rule triple_bind_this, rule triple_env, rule triple_pre, rule triple_conseq[OF lock_at_spec]) auto
  show "triple (\<lambda>s. held (fst s) = add_mset m H0 \<and> snd s = m) (env body)
      (\<lambda>a s. snd s = m \<and> m \<in># held (fst s) \<and> (\<forall>w. held w = held (fst s) - {#m#} \<longrightarrow> held w = Q a))
      (\<lambda>e s. snd s = m \<and> m \<in># held (fst s) \<and> (\<forall>w. held w = held (fst s) - {#m#} \<longrightarrow> held w = H0 \<or> held w = E e))"
    by (rule triple_env, rule triple_pre, rule triple_conseq[OF body]) auto
next
  fix R :: "'b \<Rightarrow> bool"
  have unlock: "triple (\<lambda>w. l \<in># held w \<and> (\<forall>w'. held w' = held w - {#l#} \<longrightarrow> R w')) (lk_unlock ops l) (\<lambda>_. R) (\<lambda>_ _. False)" for l
    by (rule triple_pre, rule triple_conseq[OF unlock_spec]) (auto dest: multi_member_split)
  show "triple (\<lambda>s. snd s = m \<and> m \<in># held (fst s) \<and> (\<forall>w. held w = held (fst s) - {#m#} \<longrightarrow> R w))
      (LockGuard_dtor ops) (\<lambda>_ s. R (fst s)) (\<lambda>_ _. False)"
    unfolding LockGuard_dtor_def
    by (rule triple_noexcept, rule triple_bind_this, rule triple_env, rule triple_pre, rule triple_conseq[OF unlock]) auto
qed

end

end
