(* ===== verification/Mutexes.thy ===== *)
theory Mutexes
imports Lockable TimeUtils
begin

text \<open>
  The mutex classes over POSIX threads (\<open>src/base/mutex_pthread.cpp\<close>) and the null mutexes
  (\<open>include/cppdevtk/base/mutex.hpp\<close>).

  The pthread functions are parameters, collected in \<open>pthread_api\<close>; a mutex object is its address.
  Each class has its constructor, destructor, \<open>Lock\<close>, \<open>TryLock\<close>, \<open>Unlock\<close> and, for the timed
  classes, \<open>TryLockFor\<close> and \<open>TryLockUntil\<close>, which translate return codes into results and
  exceptions.  Logging is left out.  \<open>ndebug\<close> tells a release from a debug build (assertions),
  \<open>nonrobust\<close> is \<open>CPPDEVTK_HAVE_PTHREAD_NONROBUST_MUTEX\<close>.

  The locale \<open>pthread_mutexes\<close> states the documented behaviour of the functions for initialised
  mutexes; under it every class satisfies the lockable contract.
\<close>

section \<open>The operating system\<close>

record 'w pthread_api = "'w clock_api" +
  ndebug :: bool
  nonrobust :: bool
  os_attr_init :: "'w \<Rightarrow> (int \<times> nat) \<times> 'w"
  os_attr_setrobust :: "nat \<Rightarrow> 'w \<Rightarrow> int \<times> 'w"
  os_attr_settype :: "nat \<Rightarrow> int \<Rightarrow> 'w \<Rightarrow> int \<times> 'w"
  os_attr_destroy :: "nat \<Rightarrow> 'w \<Rightarrow> int \<times> 'w"
  os_mutex_init :: "nat \<Rightarrow> nat \<Rightarrow> 'w \<Rightarrow> int \<times> 'w"
  os_mutex_destroy :: "nat \<Rightarrow> 'w \<Rightarrow> int \<times> 'w"
  os_mutex_lock :: "nat \<Rightarrow> 'w \<Rightarrow> (int \<times> 'w) option"
  os_mutex_trylock :: "nat \<Rightarrow> 'w \<Rightarrow> int \<times> 'w"
  os_mutex_timedlock :: "nat \<Rightarrow> timespec \<Rightarrow> 'w \<Rightarrow> int \<times> 'w"
  os_mutex_unlock :: "nat \<Rightarrow> 'w \<Rightarrow> int \<times> 'w"

abbreviation (input) "PTHREAD_MUTEX_NORMAL \<equiv> (0::int)"
abbreviation (input) "PTHREAD_MUTEX_RECURSIVE \<equiv> (1::int)"
abbreviation (input) "PTHREAD_MUTEX_ERRORCHECK \<equiv> (2::int)"

abbreviation assertion :: "('w, 'x) pthread_api_scheme \<Rightarrow> bool \<Rightarrow> (exn, unit, 'w) prog" where
  "assertion api b \<equiv> cpp_assert (ndebug api) b"

section \<open>InitializeMutex\<close>

text \<open>The block exit guard of the attribute object, and the block it guards.\<close>

definition destroy_attr :: "('w, 'x) pthread_api_scheme \<Rightarrow> nat \<Rightarrow> (exn, unit, 'w) prog" where
  "destroy_attr api mutexAttr =
     bind (call (os_attr_destroy api mutexAttr)) (\<lambda>kRetCode.
     if kRetCode \<noteq> ESUCCESS
     then andthen (assertion api (kRetCode \<noteq> EINTR)) (assertion api False)
     else ret ())"

definition InitializeMutex_guarded :: "('w, 'x) pthread_api_scheme \<Rightarrow> nat \<Rightarrow> int \<Rightarrow> nat \<Rightarrow> (exn, unit, 'w) prog" where
  "InitializeMutex_guarded api mutex mutexType mutexAttr =
     andthen
       (if nonrobust api then ret ()
        else bind (call (os_attr_setrobust api mutexAttr)) (\<lambda>retCode.
          if retCode \<noteq> ESUCCESS then
            andthen (assertion api (retCode \<noteq> EINTR)) (throw (LockExc (MakeSystemErrorCode retCode)))
          else ret ()))
       (bind (call (os_attr_settype api mutexAttr mutexType)) (\<lambda>retCode.
          if retCode \<noteq> ESUCCESS then
            andthen (assertion api (retCode \<noteq> EINTR)) (throw (LockExc (MakeSystemErrorCode retCode)))
          else bind (call (os_mutex_init api mutex mutexAttr)) (\<lambda>retCode.
            if retCode = ESUCCESS then ret ()
            else if retCode = ENOMEM then throw bad_alloc
            else andthen (assertion api (retCode \<noteq> EINTR)) (andthen (assertion api (retCode \<noteq> EINVAL))
              (andthen (assertion api (retCode \<noteq> EBUSY)) (throw (LockExc (MakeSystemErrorCode retCode))))))))"

definition InitializeMutex :: "('w, 'x) pthread_api_scheme \<Rightarrow> nat \<Rightarrow> int \<Rightarrow> (exn, unit, 'w) prog" where
  "InitializeMutex api mutex mutexType =
     bind (call (os_attr_init api)) (\<lambda>(retCode, mutexAttr).
     if retCode = ENOMEM then throw bad_alloc
     else if retCode \<noteq> ESUCCESS then
       andthen (assertion api (retCode \<noteq> EINTR)) (throw (LockExc (MakeSystemErrorCode retCode)))
     else scoped (InitializeMutex_guarded api mutex mutexType mutexAttr) (destroy_attr api mutexAttr))"

section \<open>Mutex\<close>

definition Mutex_ctor :: "('w, 'x) pthread_api_scheme \<Rightarrow> nat \<Rightarrow> (exn, unit, 'w) prog" where
  "Mutex_ctor api mutex = InitializeMutex api mutex PTHREAD_MUTEX_NORMAL"

definition Mutex_dtor :: "('w, 'x) pthread_api_scheme \<Rightarrow> nat \<Rightarrow> (exn, unit, 'w) prog" where
  "Mutex_dtor api mutex = noexcept
     (bind (call (os_mutex_destroy api mutex)) (\<lambda>kRetCode.
      if kRetCode \<noteq> ESUCCESS
      then andthen (assertion api (kRetCode \<noteq> EINTR)) (andthen (assertion api (kRetCode \<noteq> EINVAL))
        (andthen (assertion api (kRetCode \<noteq> EBUSY)) (assertion api False)))
      else ret ()))"

definition Mutex_Lock :: "('w, 'x) pthread_api_scheme \<Rightarrow> nat \<Rightarrow> (exn, unit, 'w) prog" where
  "Mutex_Lock api mutex =
     bind (call_blocking (os_mutex_lock api mutex)) (\<lambda>kRetCode.
       if kRetCode = ESUCCESS then ret ()
       else if kRetCode = EDEADLK then throw Deadlock
       else andthen (assertion api (kRetCode \<noteq> EINTR)) (andthen (assertion api (kRetCode \<noteq> EINVAL))
          (throw (LockExc (MakeSystemErrorCode kRetCode)))))"

definition Mutex_TryLock :: "('w, 'x) pthread_api_scheme \<Rightarrow> nat \<Rightarrow> (exn, bool, 'w) prog" where
  "Mutex_TryLock api mutex =
     bind (call (os_mutex_trylock api mutex)) (\<lambda>kRetCode.
       if kRetCode = ESUCCESS then ret True
       else if kRetCode = EBUSY then ret False
       else andthen (assertion api (kRetCode \<noteq> EINTR)) (andthen (assertion api (kRetCode \<noteq> EINVAL))
          (throw (LockExc (MakeSystemErrorCode kRetCode)))))"

definition Mutex_Unlock :: "('w, 'x) pthread_api_scheme \<Rightarrow> nat \<Rightarrow> (exn, unit, 'w) prog" where
  "Mutex_Unlock api mutex =
     bind (call (os_mutex_unlock api mutex)) (\<lambda>kRetCode.
       if kRetCode = ESUCCESS then ret ()
       else if kRetCode = EPERM then andthen (assertion api False) (ret ())
       else andthen (assertion api (kRetCode \<noteq> EINTR)) (andthen (assertion api (kRetCode \<noteq> EINVAL))
          (andthen (assertion api False) (ret ()))))"

definition Mutex_ops :: "('w, 'x) pthread_api_scheme \<Rightarrow> (nat, 'w) lock_ops" where
  "Mutex_ops api = \<lparr>lk_lock = Mutex_Lock api, lk_try = Mutex_TryLock api, lk_unlock = Mutex_Unlock api\<rparr>"

section \<open>ErrorCheckingMutex\<close>

definition ErrorCheckingMutex_ctor :: "('w, 'x) pthread_api_scheme \<Rightarrow> nat \<Rightarrow> (exn, unit, 'w) prog" where
  "ErrorCheckingMutex_ctor api mutex = InitializeMutex api mutex PTHREAD_MUTEX_ERRORCHECK"

definition ErrorCheckingMutex_dtor :: "('w, 'x) pthread_api_scheme \<Rightarrow> nat \<Rightarrow> (exn, unit, 'w) prog" where
  "ErrorCheckingMutex_dtor api mutex = noexcept
     (bind (call (os_mutex_destroy api mutex)) (\<lambda>kRetCode.
      if kRetCode \<noteq> ESUCCESS
      then andthen (assertion api (kRetCode \<noteq> EINTR)) (andthen (assertion api (kRetCode \<noteq> EINVAL))
        (andthen (assertion api (kRetCode \<noteq> EBUSY)) (assertion api False)))
      else ret ()))"

definition ErrorCheckingMutex_Lock :: "('w, 'x) pthread_api_scheme \<Rightarrow> nat \<Rightarrow> (exn, unit, 'w) prog" where
  "ErrorCheckingMutex_Lock api mutex =
     bind (call_blocking (os_mutex_lock api mutex)) (\<lambda>kRetCode.
       if kRetCode = ESUCCESS then ret ()
       else if kRetCode = EDEADLK then throw Deadlock
       else andthen (assertion api (kRetCode \<noteq> EINTR)) (andthen (assertion api (kRetCode \<noteq> EINVAL))
          (throw (LockExc (MakeSystemErrorCode kRetCode)))))"

definition ErrorCheckingMutex_TryLock :: "('w, 'x) pthread_api_scheme \<Rightarrow> nat \<Rightarrow> (exn, bool, 'w) prog" where
  "ErrorCheckingMutex_TryLock api mutex =
     bind (call (os_mutex_trylock api mutex)) (\<lambda>kRetCode.
       if kRetCode = ESUCCESS then ret True
       else if kRetCode = EBUSY then ret False
       else andthen (assertion api (kRetCode \<noteq> EINTR)) (andthen (assertion api (kRetCode \<noteq> EINVAL))
          (throw (LockExc (MakeSystemErrorCode kRetCode)))))"

definition ErrorCheckingMutex_Unlock :: "('w, 'x) pthread_api_scheme \<Rightarrow> nat \<Rightarrow> (exn, unit, 'w) prog" where
  "ErrorCheckingMutex_Unlock api mutex =
     bind (call (os_mutex_unlock api mutex)) (\<lambda>kRetCode.
       if kRetCode = ESUCCESS then ret ()
       else if kRetCode = EPERM then andthen (assertion api False) (ret ())
       else andthen (assertion api (kRetCode \<noteq> EINTR)) (andthen (assertion api (kRetCode \<noteq> EINVAL))
          (andthen (assertion api False) (ret ()))))"

definition ErrorCheckingMutex_ops :: "('w, 'x) pthread_api_scheme \<Rightarrow> (nat, 'w) lock_ops" where
  "ErrorCheckingMutex_ops api = \<lparr>lk_lock = ErrorCheckingMutex_Lock api, lk_try = ErrorCheckingMutex_TryLock api, lk_unlock = ErrorCheckingMutex_Unlock api\<rparr>"

section \<open>RecursiveMutex\<close>

definition RecursiveMutex_ctor :: "('w, 'x) pthread_api_scheme \<Rightarrow> nat \<Rightarrow> (exn, unit, 'w) prog" where
  "RecursiveMutex_ctor api mutex = InitializeMutex api mutex PTHREAD_MUTEX_RECURSIVE"

definition RecursiveMutex_dtor :: "('w, 'x) pthread_api_scheme \<Rightarrow> nat \<Rightarrow> (exn, unit, 'w) prog" where
  "RecursiveMutex_dtor api mutex = noexcept
     (bind (call (os_mutex_destroy api mutex)) (\<lambda>kRetCode.
      if kRetCode \<noteq> ESUCCESS
      then andthen (assertion api (kRetCode \<noteq> EINTR)) (andthen (assertion api (kRetCode \<noteq> EINVAL))
        (andthen (assertion api (kRetCode \<noteq> EBUSY)) (assertion api False)))
      else ret ()))"

definition RecursiveMutex_Lock :: "('w, 'x) pthread_api_scheme \<Rightarrow> nat \<Rightarrow> (exn, unit, 'w) prog" where
  "RecursiveMutex_Lock api mutex =
     bind (call_blocking (os_mutex_lock api mutex)) (\<lambda>kRetCode.
       if kRetCode = ESUCCESS then ret ()
       else if kRetCode = EAGAIN then throw (LockExc (MakeSystemErrorCode kRetCode))
       else andthen (assertion api (kRetCode \<noteq> EINTR)) (andthen (assertion api (kRetCode \<noteq> EINVAL))
          (throw (LockExc (MakeSystemErrorCode kRetCode)))))"

definition RecursiveMutex_TryLock :: "('w, 'x) pthread_api_scheme \<Rightarrow> nat \<Rightarrow> (exn, bool, 'w) prog" where
  "RecursiveMutex_TryLock api mutex = noexcept
     (bind (call (os_mutex_trylock api mutex)) (\<lambda>kRetCode.
       if kRetCode = ESUCCESS then ret True
       else if kRetCode = EBUSY then ret False
       else if kRetCode = EAGAIN then ret False
       else andthen (assertion api (kRetCode \<noteq> EINTR)) (andthen (assertion api (kRetCode \<noteq> EINVAL))
          (ret False))))"

definition RecursiveMutex_Unlock :: "('w, 'x) pthread_api_scheme \<Rightarrow> nat \<Rightarrow> (exn, unit, 'w) prog" where
  "RecursiveMutex_Unlock api mutex =
     bind (call (os_mutex_unlock api mutex)) (\<lambda>kRetCode.
       if kRetCode = ESUCCESS then ret ()
       else if kRetCode = EPERM then andthen (assertion api False) (ret ())
       else andthen (assertion api (kRetCode \<noteq> EINTR)) (andthen (assertion api (kRetCode \<noteq> EINVAL))
          (andthen (assertion api False) (ret ()))))"

definition RecursiveMutex_ops :: "('w, 'x) pthread_api_scheme \<Rightarrow> (nat, 'w) lock_ops" where
  "RecursiveMutex_ops api = \<lparr>lk_lock = RecursiveMutex_Lock api, lk_try = RecursiveMutex_TryLock api, lk_unlock = RecursiveMutex_Unlock api\<rparr>"

section \<open>TimedMutex\<close>

definition TimedMutex_ctor :: "('w, 'x) pthread_api_scheme \<Rightarrow> nat \<Rightarrow> (exn, unit, 'w) prog" where
  "TimedMutex_ctor api mutex = InitializeMutex api mutex PTHREAD_MUTEX_NORMAL"

definition TimedMutex_dtor :: "('w, 'x) pthread_api_scheme \<Rightarrow> nat \<Rightarrow> (exn, unit, 'w) prog" where
  "TimedMutex_dtor api mutex = noexcept
     (bind (call (os_mutex_destroy api mutex)) (\<lambda>kRetCode.
      if kRetCode \<noteq> ESUCCESS
      then andthen (assertion api (kRetCode \<noteq> EINTR)) (andthen (assertion api (kRetCode \<noteq> EINVAL))
        (andthen (assertion api (kRetCode \<noteq> EBUSY)) (assertion api False)))
      else ret ()))"

definition TimedMutex_Lock :: "('w, 'x) pthread_api_scheme \<Rightarrow> nat \<Rightarrow> (exn, unit, 'w) prog" where
  "TimedMutex_Lock api mutex =
     bind (call_blocking (os_mutex_lock api mutex)) (\<lambda>kRetCode.
       if kRetCode = ESUCCESS then ret ()
       else if kRetCode = EDEADLK then throw Deadlock
       else andthen (assertion api (kRetCode \<noteq> EINTR)) (andthen (assertion api (kRetCode \<noteq> EINVAL))
          (throw (LockExc (MakeSystemErrorCode kRetCode)))))"

definition TimedMutex_TryLock :: "('w, 'x) pthread_api_scheme \<Rightarrow> nat \<Rightarrow> (exn, bool, 'w) prog" where
  "TimedMutex_TryLock api mutex =
     bind (call (os_mutex_trylock api mutex)) (\<lambda>kRetCode.
       if kRetCode = ESUCCESS then ret True
       else if kRetCode = EBUSY then ret False
       else andthen (assertion api (kRetCode \<noteq> EINTR)) (andthen (assertion api (kRetCode \<noteq> EINVAL))
          (throw (LockExc (MakeSystemErrorCode kRetCode)))))"

definition TimedMutex_TryLockFor :: "('w, 'x) pthread_api_scheme \<Rightarrow> nat \<Rightarrow> int \<Rightarrow> (exn, bool, 'w) prog" where
  "TimedMutex_TryLockFor api mutex relTime =
     (if relTime \<le> 0 then TimedMutex_TryLock api mutex
      else bind (RelTimeToAbsTime api relTime) (\<lambda>kAbsTime.
        bind (call (os_mutex_timedlock api mutex kAbsTime)) (\<lambda>kRetCode.
          if kRetCode = ESUCCESS then ret True
          else if kRetCode = ETIMEDOUT then ret False
          else if kRetCode = EDEADLK then throw Deadlock
          else andthen (assertion api (kRetCode \<noteq> EINTR)) (andthen (assertion api (kRetCode \<noteq> EINVAL))
          (throw (LockExc (MakeSystemErrorCode kRetCode)))))))"

definition TimedMutex_TryLockUntil :: "('w, 'x) pthread_api_scheme \<Rightarrow> nat \<Rightarrow> int \<Rightarrow> (exn, bool, 'w) prog" where
  "TimedMutex_TryLockUntil api mutex absTime =
     bind (GetCurrentTime api) (\<lambda>kCurrTime.
       let kSeconds = absTime - kCurrTime in
       if kSeconds \<le> 0 then TimedMutex_TryLock api mutex
       else TimedMutex_TryLockFor api mutex (to_int (kSeconds * 1000)))"

definition TimedMutex_Unlock :: "('w, 'x) pthread_api_scheme \<Rightarrow> nat \<Rightarrow> (exn, unit, 'w) prog" where
  "TimedMutex_Unlock api mutex =
     bind (call (os_mutex_unlock api mutex)) (\<lambda>kRetCode.
       if kRetCode = ESUCCESS then ret ()
       else if kRetCode = EPERM then andthen (assertion api False) (ret ())
       else andthen (assertion api (kRetCode \<noteq> EINTR)) (andthen (assertion api (kRetCode \<noteq> EINVAL))
          (andthen (assertion api False) (ret ()))))"

definition TimedMutex_ops :: "('w, 'x) pthread_api_scheme \<Rightarrow> (nat, 'w) timed_lock_ops" where
  "TimedMutex_ops api = \<lparr>lk_lock = TimedMutex_Lock api, lk_try = TimedMutex_TryLock api, lk_unlock = TimedMutex_Unlock api,
     lk_try_for = TimedMutex_TryLockFor api, lk_try_until = TimedMutex_TryLockUntil api\<rparr>"

section \<open>ErrorCheckingTimedMutex\<close>

definition ErrorCheckingTimedMutex_ctor :: "('w, 'x) pthread_api_scheme \<Rightarrow> nat \<Rightarrow> (exn, unit, 'w) prog" where
  "ErrorCheckingTimedMutex_ctor api mutex = InitializeMutex api mutex PTHREAD_MUTEX_ERRORCHECK"

definition ErrorCheckingTimedMutex_dtor :: "('w, 'x) pthread_api_scheme \<Rightarrow> nat \<Rightarrow> (exn, unit, 'w) prog" where
  "ErrorCheckingTimedMutex_dtor api mutex = noexcept
     (bind (call (os_mutex_destroy api mutex)) (\<lambda>kRetCode.
      if kRetCode \<noteq> ESUCCESS
      then andthen (assertion api (kRetCode \<noteq> EINTR)) (andthen (assertion api (kRetCode \<noteq> EINVAL))
        (andthen (assertion api (kRetCode \<noteq> EBUSY)) (assertion api False)))
      else ret ()))"

definition ErrorCheckingTimedMutex_Lock :: "('w, 'x) pthread_api_scheme \<Rightarrow> nat \<Rightarrow> (exn, unit, 'w) prog" where
  "ErrorCheckingTimedMutex_Lock api mutex =
     bind (call_blocking (os_mutex_lock api mutex)) (\<lambda>kRetCode.
       if kRetCode = ESUCCESS then ret ()
       else if kRetCode = EDEADLK then throw Deadlock
       else andthen (assertion api (kRetCode \<noteq> EINTR)) (andthen (assertion api (kRetCode \<noteq> EINVAL))
          (throw (LockExc (MakeSystemErrorCode kRetCode)))))"

definition ErrorCheckingTimedMutex_TryLock :: "('w, 'x) pthread_api_scheme \<Rightarrow> nat \<Rightarrow> (exn, bool, 'w) prog" where
  "ErrorCheckingTimedMutex_TryLock api mutex =
     bind (call (os_mutex_trylock api mutex)) (\<lambda>kRetCode.
       if kRetCode = ESUCCESS then ret True
       else if kRetCode = EBUSY then ret False
       else andthen (assertion api (kRetCode \<noteq> EINTR)) (andthen (assertion api (kRetCode \<noteq> EINVAL))
          (throw (LockExc (MakeSystemErrorCode kRetCode)))))"

definition ErrorCheckingTimedMutex_TryLockFor :: "('w, 'x) pthread_api_scheme \<Rightarrow> nat \<Rightarrow> int \<Rightarrow> (exn, bool, 'w) prog" where
  "ErrorCheckingTimedMutex_TryLockFor api mutex relTime =
     (if relTime \<le> 0 then ErrorCheckingTimedMutex_TryLock api mutex
      else bind (RelTimeToAbsTime api relTime) (\<lambda>kAbsTime.
        bind (call (os_mutex_timedlock api mutex kAbsTime)) (\<lambda>kRetCode.
          if kRetCode = ESUCCESS then ret True
          else if kRetCode = ETIMEDOUT then ret False
          else if kRetCode = EDEADLK then throw Deadlock
          else andthen (assertion api (kRetCode \<noteq> EINTR)) (andthen (assertion api (kRetCode \<noteq> EINVAL))
          (throw (LockExc (MakeSystemErrorCode kRetCode)))))))"

definition ErrorCheckingTimedMutex_TryLockUntil :: "('w, 'x) pthread_api_scheme \<Rightarrow> nat \<Rightarrow> int \<Rightarrow> (exn, bool, 'w) prog" where
  "ErrorCheckingTimedMutex_TryLockUntil api mutex absTime =
     bind (GetCurrentTime api) (\<lambda>kCurrTime.
       let kSeconds = absTime - kCurrTime in
       if kSeconds \<le> 0 then ErrorCheckingTimedMutex_TryLock api mutex
       else ErrorCheckingTimedMutex_TryLockFor api mutex (to_int (kSeconds * 1000)))"

definition ErrorCheckingTimedMutex_Unlock :: "('w, 'x) pthread_api_scheme \<Rightarrow> nat \<Rightarrow> (exn, unit, 'w) prog" where
  "ErrorCheckingTimedMutex_Unlock api mutex =
     bind (call (os_mutex_unlock api mutex)) (\<lambda>kRetCode.
       if kRetCode = ESUCCESS then ret ()
       else if kRetCode = EPERM then andthen (assertion api False) (ret ())
       else andthen (assertion api (kRetCode \<noteq> EINTR)) (andthen (assertion api (kRetCode \<noteq> EINVAL))
          (andthen (assertion api False) (ret ()))))"

definition ErrorCheckingTimedMutex_ops :: "('w, 'x) pthread_api_scheme \<Rightarrow> (nat, 'w) timed_lock_ops" where
  "ErrorCheckingTimedMutex_ops api = \<lparr>lk_lock = ErrorCheckingTimedMutex_Lock api, lk_try = ErrorCheckingTimedMutex_TryLock api, lk_unlock = ErrorCheckingTimedMutex_Unlock api,
     lk_try_for = ErrorCheckingTimedMutex_TryLockFor api, lk_try_until = ErrorCheckingTimedMutex_TryLockUntil api\<rparr>"

section \<open>RecursiveTimedMutex\<close>

definition RecursiveTimedMutex_ctor :: "('w, 'x) pthread_api_scheme \<Rightarrow> nat \<Rightarrow> (exn, unit, 'w) prog" where
  "RecursiveTimedMutex_ctor api mutex = InitializeMutex api mutex PTHREAD_MUTEX_RECURSIVE"

definition RecursiveTimedMutex_dtor :: "('w, 'x) pthread_api_scheme \<Rightarrow> nat \<Rightarrow> (exn, unit, 'w) prog" where
  "RecursiveTimedMutex_dtor api mutex = noexcept
     (bind (call (os_mutex_destroy api mutex)) (\<lambda>kRetCode.
      if kRetCode \<noteq> ESUCCESS
      then andthen (assertion api (kRetCode \<noteq> EINTR)) (andthen (assertion api (kRetCode \<noteq> EINVAL))
        (andthen (assertion api (kRetCode \<noteq> EBUSY)) (assertion api False)))
      else ret ()))"

definition RecursiveTimedMutex_Lock :: "('w, 'x) pthread_api_scheme \<Rightarrow> nat \<Rightarrow> (exn, unit, 'w) prog" where
  "RecursiveTimedMutex_Lock api mutex =
     bind (call_blocking (os_mutex_lock api mutex)) (\<lambda>kRetCode.
       if kRetCode = ESUCCESS then ret ()
       else if kRetCode = EAGAIN then throw (LockExc (MakeSystemErrorCode kRetCode))
       else andthen (assertion api (kRetCode \<noteq> EINTR)) (andthen (assertion api (kRetCode \<noteq> EINVAL))
          (throw (LockExc (MakeSystemErrorCode kRetCode)))))"

definition RecursiveTimedMutex_TryLock :: "('w, 'x) pthread_api_scheme \<Rightarrow> nat \<Rightarrow> (exn, bool, 'w) prog" where
  "RecursiveTimedMutex_TryLock api mutex = noexcept
     (bind (call (os_mutex_trylock api mutex)) (\<lambda>kRetCode.
       if kRetCode = ESUCCESS then ret True
       else if kRetCode = EBUSY then ret False
       else if kRetCode = EAGAIN then ret False
       else andthen (assertion api (kRetCode \<noteq> EINTR)) (andthen (assertion api (kRetCode \<noteq> EINVAL))
          (ret False))))"

definition RecursiveTimedMutex_TryLockFor :: "('w, 'x) pthread_api_scheme \<Rightarrow> nat \<Rightarrow> int \<Rightarrow> (exn, bool, 'w) prog" where
  "RecursiveTimedMutex_TryLockFor api mutex relTime =
     (if relTime \<le> 0 then RecursiveTimedMutex_TryLock api mutex
      else bind (RelTimeToAbsTime api relTime) (\<lambda>kAbsTime.
        bind (call (os_mutex_timedlock api mutex kAbsTime)) (\<lambda>kRetCode.
          if kRetCode = ESUCCESS then ret True
          else if kRetCode = ETIMEDOUT then ret False
          else if kRetCode = EAGAIN then throw (LockExc (MakeSystemErrorCode kRetCode))
          else andthen (assertion api (kRetCode \<noteq> EINTR)) (andthen (assertion api (kRetCode \<noteq> EINVAL))
          (throw (LockExc (MakeSystemErrorCode kRetCode)))))))"

definition RecursiveTimedMutex_TryLockUntil :: "('w, 'x) pthread_api_scheme \<Rightarrow> nat \<Rightarrow> int \<Rightarrow> (exn, bool, 'w) prog" where
  "RecursiveTimedMutex_TryLockUntil api mutex absTime =
     bind (GetCurrentTime api) (\<lambda>kCurrTime.
       let kSeconds = absTime - kCurrTime in
       if kSeconds \<le> 0 then RecursiveTimedMutex_TryLock api mutex
       else RecursiveTimedMutex_TryLockFor api mutex (to_int (kSeconds * 1000)))"

definition RecursiveTimedMutex_Unlock :: "('w, 'x) pthread_api_scheme \<Rightarrow> nat \<Rightarrow> (exn, unit, 'w) prog" where
  "RecursiveTimedMutex_Unlock api mutex =
     bind (call (os_mutex_unlock api mutex)) (\<lambda>kRetCode.
       if kRetCode = ESUCCESS then ret ()
       else if kRetCode = EPERM then andthen (assertion api False) (ret ())
       else andthen (assertion api (kRetCode \<noteq> EINTR)) (andthen (assertion api (kRetCode \<noteq> EINVAL))
          (andthen (assertion api False) (ret ()))))"

definition RecursiveTimedMutex_ops :: "('w, 'x) pthread_api_scheme \<Rightarrow> (nat, 'w) timed_lock_ops" where
  "RecursiveTimedMutex_ops api = \<lparr>lk_lock = RecursiveTimedMutex_Lock api, lk_try = RecursiveTimedMutex_TryLock api, lk_unlock = RecursiveTimedMutex_Unlock api,
     lk_try_for = RecursiveTimedMutex_TryLockFor api, lk_try_until = RecursiveTimedMutex_TryLockUntil api\<rparr>"

section \<open>Null mutexes\<close>

text \<open>The operations of \<open>NullMutex\<close>, \<open>NullRecursiveMutex\<close>, \<open>NullTimedMutex\<close> and
  \<open>NullRecursiveTimedMutex\<close>: nothing is locked and every attempt succeeds.\<close>

definition NullMutex_ops :: "('l, 'w) timed_lock_ops" where
  "NullMutex_ops = \<lparr>lk_lock = (\<lambda>_. ret ()), lk_try = (\<lambda>_. ret True), lk_unlock = (\<lambda>_. ret ()),
     lk_try_for = (\<lambda>_ _. ret True), lk_try_until = (\<lambda>_ _. ret True)\<rparr>"

section \<open>The contract\<close>

locale pthread_mutexes =
  fixes api :: "('w, 'x) pthread_api_scheme" and held :: "'w \<Rightarrow> nat multiset"
  assumes lock_law: "os_mutex_lock api m w = Some (rc, w') \<Longrightarrow>
      held w' = (if rc = ESUCCESS then add_mset m (held w) else held w) \<and> rc \<noteq> EINTR \<and> rc \<noteq> EINVAL"
    and trylock_law: "os_mutex_trylock api m w = (rc, w') \<Longrightarrow>
      held w' = (if rc = ESUCCESS then add_mset m (held w) else held w) \<and> rc \<noteq> EINTR \<and> rc \<noteq> EINVAL"
    and timedlock_law: "os_mutex_timedlock api m t w = (rc, w') \<Longrightarrow> normalized t \<Longrightarrow>
      held w' = (if rc = ESUCCESS then add_mset m (held w) else held w) \<and> rc \<noteq> EINTR \<and> rc \<noteq> EINVAL"
    and unlock_law: "os_mutex_unlock api m w = (rc, w') \<Longrightarrow> m \<in># held w \<Longrightarrow>
      rc = ESUCCESS \<and> held w' = held w - {#m#}"
    and time_law: "os_time api w = (s, w') \<Longrightarrow> held w' = held w"
    and clock_law: "os_clock_gettime api w = ((rc, t), w') \<Longrightarrow> held w' = held w \<and> (rc = ESUCCESS \<longrightarrow> normalized t)"
begin

lemma lock_call:
  "triple (\<lambda>w. held w = H) (call_blocking (os_mutex_lock api m))
     (\<lambda>rc w. attempt held H m (rc = ESUCCESS) w \<and> rc \<noteq> EINTR \<and> rc \<noteq> EINVAL) E"
  by (rule triple_call_blocking) (use lock_law in fastforce)

lemma trylock_call:
  "triple (\<lambda>w. held w = H) (call (os_mutex_trylock api m))
     (\<lambda>rc w. attempt held H m (rc = ESUCCESS) w \<and> rc \<noteq> EINTR \<and> rc \<noteq> EINVAL) E"
  by (rule triple_call) (use trylock_law in fastforce)

lemma timedlock_call:
  "normalized t \<Longrightarrow> triple (\<lambda>w. held w = H) (call (os_mutex_timedlock api m t))
     (\<lambda>rc w. attempt held H m (rc = ESUCCESS) w \<and> rc \<noteq> EINTR \<and> rc \<noteq> EINVAL) E"
  by (rule triple_call) (use timedlock_law in fastforce)

lemma unlock_call:
  "triple (\<lambda>w. held w = add_mset m H) (call (os_mutex_unlock api m)) (\<lambda>rc w. rc = ESUCCESS \<and> held w = H) E"
  by (rule triple_call) (use unlock_law in fastforce)

lemma current_time_call:
  "triple (\<lambda>w. held w = H) (GetCurrentTime api) (\<lambda>_ w. held w = H) (\<lambda>_ w. held w = H)"
  by (auto simp: triple_def GetCurrentTime_def Let_def split: prod.splits dest: time_law)

lemma deadline_call:
  assumes "0 < relTime"
  shows "triple (\<lambda>w. held w = H) (RelTimeToAbsTime api relTime)
     (\<lambda>t w. held w = H \<and> normalized t) (\<lambda>_ w. held w = H)"
  unfolding triple_def
proof (intro allI impI)
  fix w r assume H: "held w = H" and r: "RelTimeToAbsTime api relTime w = Some r"
  obtain rc now w' where c: "os_clock_gettime api w = ((rc, now), w')" by (metis prod.exhaust)
  show "case r of Ret t w' \<Rightarrow> held w' = H \<and> normalized t | Exc _ w' \<Rightarrow> held w' = H | Term _ \<Rightarrow> False"
  proof (cases "rc = ESUCCESS")
    case True
    then show ?thesis
      using RelTimeToAbsTime_exact[of api w now w' relTime] c clock_law[OF c] assms r H by auto
  next
    case False
    then show ?thesis
      using clock_law[OF c] c r H by (auto simp: RelTimeToAbsTime_def)
  qed
qed

lemma Mutex_Lock_spec:
  "triple (\<lambda>w. held w = H) (Mutex_Lock api m) (\<lambda>_ w. held w = add_mset m H) (\<lambda>_ w. held w = H)"
  unfolding Mutex_Lock_def by (rule triple_bind[OF lock_call]) (auto simp: triple_def)

lemma Mutex_TryLock_spec:
  "triple (\<lambda>w. held w = H) (Mutex_TryLock api m) (attempt held H m) (\<lambda>_ w. held w = H)"
  unfolding Mutex_TryLock_def by (rule triple_bind[OF trylock_call]) (auto simp: triple_def)

lemma Mutex_Unlock_spec:
  "triple (\<lambda>w. held w = add_mset m H) (Mutex_Unlock api m) (\<lambda>_ w. held w = H) (\<lambda>_ _. False)"
  unfolding Mutex_Unlock_def by (rule triple_bind[OF unlock_call]) (auto simp: triple_def)

lemma ErrorCheckingMutex_Lock_spec:
  "triple (\<lambda>w. held w = H) (ErrorCheckingMutex_Lock api m) (\<lambda>_ w. held w = add_mset m H) (\<lambda>_ w. held w = H)"
  unfolding ErrorCheckingMutex_Lock_def by (rule triple_bind[OF lock_call]) (auto simp: triple_def)

lemma ErrorCheckingMutex_TryLock_spec:
  "triple (\<lambda>w. held w = H) (ErrorCheckingMutex_TryLock api m) (attempt held H m) (\<lambda>_ w. held w = H)"
  unfolding ErrorCheckingMutex_TryLock_def by (rule triple_bind[OF trylock_call]) (auto simp: triple_def)

lemma ErrorCheckingMutex_Unlock_spec:
  "triple (\<lambda>w. held w = add_mset m H) (ErrorCheckingMutex_Unlock api m) (\<lambda>_ w. held w = H) (\<lambda>_ _. False)"
  unfolding ErrorCheckingMutex_Unlock_def by (rule triple_bind[OF unlock_call]) (auto simp: triple_def)

lemma RecursiveMutex_Lock_spec:
  "triple (\<lambda>w. held w = H) (RecursiveMutex_Lock api m) (\<lambda>_ w. held w = add_mset m H) (\<lambda>_ w. held w = H)"
  unfolding RecursiveMutex_Lock_def by (rule triple_bind[OF lock_call]) (auto simp: triple_def)

lemma RecursiveMutex_TryLock_spec:
  "triple (\<lambda>w. held w = H) (RecursiveMutex_TryLock api m) (attempt held H m) (\<lambda>_ w. held w = H)"
  unfolding RecursiveMutex_TryLock_def by (rule triple_noexcept, rule triple_bind[OF trylock_call]) (auto simp: triple_def)

lemma RecursiveMutex_Unlock_spec:
  "triple (\<lambda>w. held w = add_mset m H) (RecursiveMutex_Unlock api m) (\<lambda>_ w. held w = H) (\<lambda>_ _. False)"
  unfolding RecursiveMutex_Unlock_def by (rule triple_bind[OF unlock_call]) (auto simp: triple_def)

lemma TimedMutex_Lock_spec:
  "triple (\<lambda>w. held w = H) (TimedMutex_Lock api m) (\<lambda>_ w. held w = add_mset m H) (\<lambda>_ w. held w = H)"
  unfolding TimedMutex_Lock_def by (rule triple_bind[OF lock_call]) (auto simp: triple_def)

lemma TimedMutex_TryLock_spec:
  "triple (\<lambda>w. held w = H) (TimedMutex_TryLock api m) (attempt held H m) (\<lambda>_ w. held w = H)"
  unfolding TimedMutex_TryLock_def by (rule triple_bind[OF trylock_call]) (auto simp: triple_def)

lemma TimedMutex_Unlock_spec:
  "triple (\<lambda>w. held w = add_mset m H) (TimedMutex_Unlock api m) (\<lambda>_ w. held w = H) (\<lambda>_ _. False)"
  unfolding TimedMutex_Unlock_def by (rule triple_bind[OF unlock_call]) (auto simp: triple_def)

lemma TimedMutex_TryLockFor_spec:
  "triple (\<lambda>w. held w = H) (TimedMutex_TryLockFor api m relTime) (attempt held H m) (\<lambda>_ w. held w = H)"
proof (cases "relTime \<le> 0")
  case False
  have "triple (\<lambda>w. held w = H \<and> normalized t) (call (os_mutex_timedlock api m t))
     (\<lambda>rc w. attempt held H m (rc = ESUCCESS) w \<and> rc \<noteq> EINTR \<and> rc \<noteq> EINVAL) E" for t E
    by (cases "normalized t") (use timedlock_call in auto)
  with False show ?thesis
    unfolding TimedMutex_TryLockFor_def
    by (auto intro!: triple_bind[OF deadline_call] triple_bind[where m = "call _"]) (auto simp: triple_def)
qed (simp add: TimedMutex_TryLockFor_def TimedMutex_TryLock_spec)

lemma TimedMutex_TryLockUntil_spec:
  "triple (\<lambda>w. held w = H) (TimedMutex_TryLockUntil api m absTime) (attempt held H m) (\<lambda>_ w. held w = H)"
  unfolding TimedMutex_TryLockUntil_def Let_def
  by (rule triple_bind[OF current_time_call]) (simp add: TimedMutex_TryLock_spec TimedMutex_TryLockFor_spec)

lemma ErrorCheckingTimedMutex_Lock_spec:
  "triple (\<lambda>w. held w = H) (ErrorCheckingTimedMutex_Lock api m) (\<lambda>_ w. held w = add_mset m H) (\<lambda>_ w. held w = H)"
  unfolding ErrorCheckingTimedMutex_Lock_def by (rule triple_bind[OF lock_call]) (auto simp: triple_def)

lemma ErrorCheckingTimedMutex_TryLock_spec:
  "triple (\<lambda>w. held w = H) (ErrorCheckingTimedMutex_TryLock api m) (attempt held H m) (\<lambda>_ w. held w = H)"
  unfolding ErrorCheckingTimedMutex_TryLock_def by (rule triple_bind[OF trylock_call]) (auto simp: triple_def)

lemma ErrorCheckingTimedMutex_Unlock_spec:
  "triple (\<lambda>w. held w = add_mset m H) (ErrorCheckingTimedMutex_Unlock api m) (\<lambda>_ w. held w = H) (\<lambda>_ _. False)"
  unfolding ErrorCheckingTimedMutex_Unlock_def by (rule triple_bind[OF unlock_call]) (auto simp: triple_def)

lemma ErrorCheckingTimedMutex_TryLockFor_spec:
  "triple (\<lambda>w. held w = H) (ErrorCheckingTimedMutex_TryLockFor api m relTime) (attempt held H m) (\<lambda>_ w. held w = H)"
proof (cases "relTime \<le> 0")
  case False
  have "triple (\<lambda>w. held w = H \<and> normalized t) (call (os_mutex_timedlock api m t))
     (\<lambda>rc w. attempt held H m (rc = ESUCCESS) w \<and> rc \<noteq> EINTR \<and> rc \<noteq> EINVAL) E" for t E
    by (cases "normalized t") (use timedlock_call in auto)
  with False show ?thesis
    unfolding ErrorCheckingTimedMutex_TryLockFor_def
    by (auto intro!: triple_bind[OF deadline_call] triple_bind[where m = "call _"]) (auto simp: triple_def)
qed (simp add: ErrorCheckingTimedMutex_TryLockFor_def ErrorCheckingTimedMutex_TryLock_spec)

lemma ErrorCheckingTimedMutex_TryLockUntil_spec:
  "triple (\<lambda>w. held w = H) (ErrorCheckingTimedMutex_TryLockUntil api m absTime) (attempt held H m) (\<lambda>_ w. held w = H)"
  unfolding ErrorCheckingTimedMutex_TryLockUntil_def Let_def
  by (rule triple_bind[OF current_time_call]) (simp add: ErrorCheckingTimedMutex_TryLock_spec ErrorCheckingTimedMutex_TryLockFor_spec)

lemma RecursiveTimedMutex_Lock_spec:
  "triple (\<lambda>w. held w = H) (RecursiveTimedMutex_Lock api m) (\<lambda>_ w. held w = add_mset m H) (\<lambda>_ w. held w = H)"
  unfolding RecursiveTimedMutex_Lock_def by (rule triple_bind[OF lock_call]) (auto simp: triple_def)

lemma RecursiveTimedMutex_TryLock_spec:
  "triple (\<lambda>w. held w = H) (RecursiveTimedMutex_TryLock api m) (attempt held H m) (\<lambda>_ w. held w = H)"
  unfolding RecursiveTimedMutex_TryLock_def by (rule triple_noexcept, rule triple_bind[OF trylock_call]) (auto simp: triple_def)

lemma RecursiveTimedMutex_Unlock_spec:
  "triple (\<lambda>w. held w = add_mset m H) (RecursiveTimedMutex_Unlock api m) (\<lambda>_ w. held w = H) (\<lambda>_ _. False)"
  unfolding RecursiveTimedMutex_Unlock_def by (rule triple_bind[OF unlock_call]) (auto simp: triple_def)

lemma RecursiveTimedMutex_TryLockFor_spec:
  "triple (\<lambda>w. held w = H) (RecursiveTimedMutex_TryLockFor api m relTime) (attempt held H m) (\<lambda>_ w. held w = H)"
proof (cases "relTime \<le> 0")
  case False
  have "triple (\<lambda>w. held w = H \<and> normalized t) (call (os_mutex_timedlock api m t))
     (\<lambda>rc w. attempt held H m (rc = ESUCCESS) w \<and> rc \<noteq> EINTR \<and> rc \<noteq> EINVAL) E" for t E
    by (cases "normalized t") (use timedlock_call in auto)
  with False show ?thesis
    unfolding RecursiveTimedMutex_TryLockFor_def
    by (auto intro!: triple_bind[OF deadline_call] triple_bind[where m = "call _"]) (auto simp: triple_def)
qed (simp add: RecursiveTimedMutex_TryLockFor_def RecursiveTimedMutex_TryLock_spec)

lemma RecursiveTimedMutex_TryLockUntil_spec:
  "triple (\<lambda>w. held w = H) (RecursiveTimedMutex_TryLockUntil api m absTime) (attempt held H m) (\<lambda>_ w. held w = H)"
  unfolding RecursiveTimedMutex_TryLockUntil_def Let_def
  by (rule triple_bind[OF current_time_call]) (simp add: RecursiveTimedMutex_TryLock_spec RecursiveTimedMutex_TryLockFor_spec)

lemma Mutex_lockable: "lockable (Mutex_ops api) held"
  by unfold_locales (simp_all add: Mutex_ops_def Mutex_Lock_spec Mutex_TryLock_spec Mutex_Unlock_spec)

lemma ErrorCheckingMutex_lockable: "lockable (ErrorCheckingMutex_ops api) held"
  by unfold_locales (simp_all add: ErrorCheckingMutex_ops_def ErrorCheckingMutex_Lock_spec ErrorCheckingMutex_TryLock_spec ErrorCheckingMutex_Unlock_spec)

lemma RecursiveMutex_lockable: "lockable (RecursiveMutex_ops api) held"
  by unfold_locales (simp_all add: RecursiveMutex_ops_def RecursiveMutex_Lock_spec RecursiveMutex_TryLock_spec RecursiveMutex_Unlock_spec)

lemma TimedMutex_lockable: "timed_lockable (TimedMutex_ops api) held"
  by unfold_locales (simp_all add: TimedMutex_ops_def TimedMutex_Lock_spec TimedMutex_TryLock_spec TimedMutex_Unlock_spec TimedMutex_TryLockFor_spec TimedMutex_TryLockUntil_spec)

lemma ErrorCheckingTimedMutex_lockable: "timed_lockable (ErrorCheckingTimedMutex_ops api) held"
  by unfold_locales (simp_all add: ErrorCheckingTimedMutex_ops_def ErrorCheckingTimedMutex_Lock_spec ErrorCheckingTimedMutex_TryLock_spec ErrorCheckingTimedMutex_Unlock_spec ErrorCheckingTimedMutex_TryLockFor_spec ErrorCheckingTimedMutex_TryLockUntil_spec)

lemma RecursiveTimedMutex_lockable: "timed_lockable (RecursiveTimedMutex_ops api) held"
  by unfold_locales (simp_all add: RecursiveTimedMutex_ops_def RecursiveTimedMutex_Lock_spec RecursiveTimedMutex_TryLock_spec RecursiveTimedMutex_Unlock_spec RecursiveTimedMutex_TryLockFor_spec RecursiveTimedMutex_TryLockUntil_spec)

end

sublocale pthread_mutexes \<subseteq> Mutex: lockable "Mutex_ops api" held
  by (rule Mutex_lockable)

sublocale pthread_mutexes \<subseteq> ErrorCheckingMutex: lockable "ErrorCheckingMutex_ops api" held
  by (rule ErrorCheckingMutex_lockable)

sublocale pthread_mutexes \<subseteq> RecursiveMutex: lockable "RecursiveMutex_ops api" held
  by (rule RecursiveMutex_lockable)

sublocale pthread_mutexes \<subseteq> TimedMutex: timed_lockable "TimedMutex_ops api" held
  by (rule TimedMutex_lockable)

sublocale pthread_mutexes \<subseteq> ErrorCheckingTimedMutex: timed_lockable "ErrorCheckingTimedMutex_ops api" held
  by (rule ErrorCheckingTimedMutex_lockable)

sublocale pthread_mutexes \<subseteq> RecursiveTimedMutex: timed_lockable "RecursiveTimedMutex_ops api" held
  by (rule RecursiveTimedMutex_lockable)

section \<open>Attributes of mutexes\<close>

text \<open>The attribute objects that are initialised and not yet destroyed.\<close>

locale pthread_attributes =
  fixes api :: "('w, 'x) pthread_api_scheme" and live :: "'w \<Rightarrow> nat set"
  assumes attr_init_law: "os_attr_init api w = ((rc, a), w') \<Longrightarrow>
      (if rc = ESUCCESS then a \<notin> live w \<and> live w' = insert a (live w) else live w' = live w) \<and> rc \<noteq> EINTR"
    and attr_destroy_law: "os_attr_destroy api a w = (rc, w') \<Longrightarrow> a \<in> live w \<Longrightarrow> rc = ESUCCESS \<and> live w' = live w - {a}"
    and attr_setrobust_law: "os_attr_setrobust api a w = (rc, w') \<Longrightarrow> live w' = live w \<and> rc \<noteq> EINTR"
    and attr_settype_law: "os_attr_settype api a k w = (rc, w') \<Longrightarrow> live w' = live w \<and> rc \<noteq> EINTR"
    and mutex_init_law: "os_mutex_init api m a w = (rc, w') \<Longrightarrow> live w' = live w \<and> rc \<notin> {EINTR, EINVAL, EBUSY}"
begin

lemma destroy_attr_spec:
  "triple (\<lambda>w. a \<in> live w \<and> (\<forall>w'. live w' = live w - {a} \<longrightarrow> R w')) (destroy_attr api a) (\<lambda>_. R) (\<lambda>_ _. False)"
  unfolding destroy_attr_def triple_def call_def bind_def
  by (auto simp: Let_def split: prod.splits dest: attr_destroy_law)

lemma attr_calls:
  "triple (\<lambda>w. live w = B) (call (os_attr_setrobust api a)) (\<lambda>rc w. live w = B \<and> rc \<noteq> EINTR) E"
  "triple (\<lambda>w. live w = B) (call (os_attr_settype api a k)) (\<lambda>rc w. live w = B \<and> rc \<noteq> EINTR) E"
  "triple (\<lambda>w. live w = B) (call (os_mutex_init api m a)) (\<lambda>rc w. live w = B \<and> rc \<notin> {EINTR, EINVAL, EBUSY}) E"
  by (rule triple_call; use attr_setrobust_law attr_settype_law mutex_init_law in fastforce)+

lemma attr_init_call:
  "triple (\<lambda>w. live w = A) (call (os_attr_init api))
    (\<lambda>(rc, a) w. (if rc = ESUCCESS then a \<notin> A \<and> live w = insert a A else live w = A) \<and> rc \<noteq> EINTR) E"
  by (rule triple_call) (use attr_init_law in fastforce)

lemma InitializeMutex_guarded_spec:
  "triple (\<lambda>w. live w = B) (InitializeMutex_guarded api m k a) (\<lambda>_ w. live w = B) (\<lambda>_ w. live w = B)"
proof -
  have init: "triple (\<lambda>w. live w = B) (bind (call (os_mutex_init api m a)) (\<lambda>retCode.
      if retCode = ESUCCESS then ret () else if retCode = ENOMEM then throw bad_alloc
      else andthen (assertion api (retCode \<noteq> EINTR)) (andthen (assertion api (retCode \<noteq> EINVAL))
        (andthen (assertion api (retCode \<noteq> EBUSY)) (throw (LockExc (MakeSystemErrorCode retCode)))))))
      (\<lambda>_ w. live w = B) (\<lambda>_ w. live w = B)"
    by (rule triple_bind[OF attr_calls(3)]) (auto simp: triple_def)
  show ?thesis
    unfolding InitializeMutex_guarded_def
  proof (rule triple_bind[where R = "\<lambda>_ w. live w = B"])
    show "triple (\<lambda>w. live w = B) (if nonrobust api then ret ()
        else bind (call (os_attr_setrobust api a)) (\<lambda>retCode. if retCode \<noteq> ESUCCESS
          then andthen (assertion api (retCode \<noteq> EINTR)) (throw (LockExc (MakeSystemErrorCode retCode)))
          else ret ())) (\<lambda>_ w. live w = B) (\<lambda>_ w. live w = B)"
      by (rule triple_if[OF triple_ret triple_bind[OF attr_calls(1)]]) (auto simp: triple_def)
  qed (rule triple_bind[OF attr_calls(2)], use init in \<open>auto simp: triple_def\<close>)
qed

text \<open>Every path through the initialisation destroys the attribute object it created.\<close>

lemma InitializeMutex_no_leak:
  "triple (\<lambda>w. live w = A) (InitializeMutex api m k) (\<lambda>_ w. live w = A) (\<lambda>_ w. live w = A)"
  unfolding InitializeMutex_def
proof (rule triple_bind[OF attr_init_call], clarify)
  fix rc a
  let ?D = "\<lambda>R w. a \<in> live w \<and> (\<forall>w'. live w' = live w - {a} \<longrightarrow> R w')"
  have "triple (\<lambda>w. live w = insert a A) (scoped (InitializeMutex_guarded api m k a) (destroy_attr api a))
      (\<lambda>_ w. live w = A) (\<lambda>_ w. live w = A)" if "a \<notin> A"
    by (rule triple_scoped[where D = ?D], rule triple_conseq[OF InitializeMutex_guarded_spec[where B = "insert a A"]])
       (use that destroy_attr_spec in auto)
  then show "triple (\<lambda>w. (if rc = ESUCCESS then a \<notin> A \<and> live w = insert a A else live w = A) \<and> rc \<noteq> EINTR)
    (if rc = ENOMEM then throw bad_alloc else if rc \<noteq> ESUCCESS
     then andthen (assertion api (rc \<noteq> EINTR)) (throw (LockExc (MakeSystemErrorCode rc)))
     else scoped (InitializeMutex_guarded api m k a) (destroy_attr api a)) (\<lambda>_ w. live w = A) (\<lambda>_ w. live w = A)"
    by (cases "rc = ESUCCESS"; cases "a \<notin> A") (auto simp: triple_def)
qed

end

section \<open>Waiting until a point in time\<close>

lemma to_int_negative: "2147483648 \<le> x \<Longrightarrow> x < 4294967296 \<Longrightarrow> to_int x = x - 4294967296"
proof -
  assume "2147483648 \<le> x" "x < 4294967296"
  then have "signed_take_bit 31 (x - 4294967296) = x - 4294967296"
    by (subst signed_take_bit_int_eq_self_iff) simp
  moreover have "signed_take_bit 31 x = signed_take_bit 31 (x - 4294967296)"
    by (rule signed_take_bit_eq_iff_take_bit_eq[THEN iffD2]) (simp add: take_bit_eq_mod)
  ultimately show ?thesis by (simp add: to_int_def)
qed

end
