(* ===== verification/PosixThreads.thy ===== *)
theory PosixThreads
imports Mutexes
begin

text \<open>
  POSIX threads as documented, seen from one thread: the instance on which the contracts of the
  mutexes are discharged and on which witnesses run.  This is not code of the repository.

  \<open>pw_mine\<close> are the mutexes this thread holds (with multiplicity).  \<open>pw_others\<close> is the schedule of the
  other threads: a mutex occurs in it once for every coming attempt of this thread that will find it
  owned by somebody else; a blocking lock waits until the owner is done.
\<close>

record posix_world =
  pw_kind :: "nat \<Rightarrow> int"
  pw_mine :: "nat multiset"
  pw_others :: "nat multiset"
  pw_now :: int
  pw_attrs :: "nat \<Rightarrow> int option"
  pw_next :: nat

definition posix_max_recursion :: nat where "posix_max_recursion = 255"

definition posix_relock :: "nat \<Rightarrow> 'z posix_world_scheme \<Rightarrow> int \<times> 'z posix_world_scheme" where
  "posix_relock m w = (if pw_kind w m \<noteq> PTHREAD_MUTEX_RECURSIVE then (EDEADLK, w)
     else if count (pw_mine w) m \<ge> posix_max_recursion then (EAGAIN, w)
     else (ESUCCESS, w\<lparr>pw_mine := add_mset m (pw_mine w)\<rparr>))"

definition posix_lock :: "nat \<Rightarrow> 'z posix_world_scheme \<Rightarrow> (int \<times> 'z posix_world_scheme) option" where
  "posix_lock m w =
     (if m \<in># pw_mine w then
        (if pw_kind w m = PTHREAD_MUTEX_NORMAL then None else Some (posix_relock m w))
      else Some (ESUCCESS, w\<lparr>pw_mine := add_mset m (pw_mine w), pw_others := filter_mset (\<lambda>x. x \<noteq> m) (pw_others w)\<rparr>))"

definition posix_trylock :: "nat \<Rightarrow> 'z posix_world_scheme \<Rightarrow> int \<times> 'z posix_world_scheme" where
  "posix_trylock m w =
     (if m \<in># pw_mine w then
        (if pw_kind w m = PTHREAD_MUTEX_RECURSIVE then posix_relock m w else (EBUSY, w))
      else if m \<in># pw_others w then (EBUSY, w\<lparr>pw_others := pw_others w - {#m#}\<rparr>)
      else (ESUCCESS, w\<lparr>pw_mine := add_mset m (pw_mine w)\<rparr>))"

definition posix_timedlock :: "nat \<Rightarrow> timespec \<Rightarrow> 'z posix_world_scheme \<Rightarrow> int \<times> 'z posix_world_scheme" where
  "posix_timedlock m t w =
     (if m \<in># pw_mine w then
        (if pw_kind w m = PTHREAD_MUTEX_NORMAL then (ETIMEDOUT, w\<lparr>pw_now := tv_sec t\<rparr>) else posix_relock m w)
      else if m \<in># pw_others w then (ETIMEDOUT, w\<lparr>pw_others := pw_others w - {#m#}, pw_now := tv_sec t\<rparr>)
      else (ESUCCESS, w\<lparr>pw_mine := add_mset m (pw_mine w)\<rparr>))"

definition posix_unlock :: "nat \<Rightarrow> 'z posix_world_scheme \<Rightarrow> int \<times> 'z posix_world_scheme" where
  "posix_unlock m w = (if m \<in># pw_mine w then (ESUCCESS, w\<lparr>pw_mine := pw_mine w - {#m#}\<rparr>) else (EPERM, w))"

definition posix_attr_init :: "'z posix_world_scheme \<Rightarrow> (int \<times> nat) \<times> 'z posix_world_scheme" where
  "posix_attr_init w = ((ESUCCESS, pw_next w), w\<lparr>pw_attrs := (pw_attrs w)(pw_next w \<mapsto> PTHREAD_MUTEX_NORMAL), pw_next := pw_next w + 1\<rparr>)"

definition posix_live :: "'z posix_world_scheme \<Rightarrow> nat set" where
  "posix_live w = {a. a < pw_next w \<and> pw_attrs w a \<noteq> None}"

definition posix_attr_destroy :: "nat \<Rightarrow> 'z posix_world_scheme \<Rightarrow> int \<times> 'z posix_world_scheme" where
  "posix_attr_destroy a w = (if a \<in> posix_live w then (ESUCCESS, w\<lparr>pw_attrs := (pw_attrs w)(a := None)\<rparr>) else (EINVAL, w))"

definition posix_attr_settype :: "nat \<Rightarrow> int \<Rightarrow> 'z posix_world_scheme \<Rightarrow> int \<times> 'z posix_world_scheme" where
  "posix_attr_settype a k w = (if a \<in> posix_live w then (ESUCCESS, w\<lparr>pw_attrs := (pw_attrs w)(a \<mapsto> k)\<rparr>) else (EINVAL, w))"

definition posix_mutex_init :: "nat \<Rightarrow> nat \<Rightarrow> 'z posix_world_scheme \<Rightarrow> int \<times> 'z posix_world_scheme" where
  "posix_mutex_init m a w = (case pw_attrs w a of
      Some k \<Rightarrow> (ESUCCESS, w\<lparr>pw_kind := (pw_kind w)(m := k)\<rparr>) | None \<Rightarrow> (ENOMEM, w))"

definition posix_mutex_destroy :: "nat \<Rightarrow> 'z posix_world_scheme \<Rightarrow> int \<times> 'z posix_world_scheme" where
  "posix_mutex_destroy m w = (if m \<in># pw_mine w + pw_others w then (EBUSY, w) else (ESUCCESS, w))"

definition posix_api :: "bool \<Rightarrow> bool \<Rightarrow> 'z posix_world_scheme pthread_api" where
  "posix_api nd nr = \<lparr>os_time = (\<lambda>w. (pw_now w, w)),
     os_clock_gettime = (\<lambda>w. ((0, \<lparr>tv_sec = pw_now w, tv_nsec = 0\<rparr>), w)),
     os_errno = (\<lambda>_. 0),
     ndebug = nd, nonrobust = nr,
     os_attr_init = posix_attr_init, os_attr_setrobust = (\<lambda>_ w. (ESUCCESS, w)),
     os_attr_settype = posix_attr_settype, os_attr_destroy = posix_attr_destroy,
     os_mutex_init = posix_mutex_init, os_mutex_destroy = posix_mutex_destroy,
     os_mutex_lock = posix_lock, os_mutex_trylock = posix_trylock,
     os_mutex_timedlock = posix_timedlock, os_mutex_unlock = posix_unlock\<rparr>"

lemmas posix_defs = posix_lock_def posix_trylock_def posix_timedlock_def posix_unlock_def posix_relock_def

interpretation posix: pthread_mutexes "posix_api nd nr" pw_mine
  by unfold_locales (auto simp: posix_api_def posix_defs normalized_def split: if_splits)

interpretation posix_attr: pthread_attributes "posix_api nd nr" posix_live
  by unfold_locales
     (auto simp: posix_api_def posix_live_def posix_attr_init_def posix_attr_destroy_def
       posix_attr_settype_def posix_mutex_init_def split: if_splits option.splits)

definition posix_idle :: posix_world where
  "posix_idle = \<lparr>pw_kind = (\<lambda>_. PTHREAD_MUTEX_NORMAL), pw_mine = {#}, pw_others = {#}, pw_now = 1000,
     pw_attrs = (\<lambda>_. None), pw_next = 0\<rparr>"

section \<open>Properties of the mutexes\<close>



text \<open>The initialisation of a mutex leaves no attribute object behind, on success and on every
  failure.\<close>

theorem mutex_init_no_leak:
  assumes "pthread_attributes api live" and "InitializeMutex api m k w = Some r"
  shows "live (res_state r) = live w"
  using pthread_attributes.InitializeMutex_no_leak[OF assms(1), of "live w" m k] assms(2)
  by (cases r) (auto simp: triple_def)

theorem mutex_init_no_leak_witness:
  "\<exists>r. RecursiveMutex_ctor (posix_api True False) 5 posix_idle = Some r \<and> posix_live (res_state r) = {}
     \<and> pw_kind (res_state r) 5 = PTHREAD_MUTEX_RECURSIVE"
proof -
  define w where "w = posix_idle\<lparr>pw_attrs := (\<lambda>_. None)(0 := None), pw_next := 1,
    pw_kind := (\<lambda>_. PTHREAD_MUTEX_NORMAL)(5 := PTHREAD_MUTEX_RECURSIVE)\<rparr>"
  have r: "InitializeMutex (posix_api True False) 5 PTHREAD_MUTEX_RECURSIVE posix_idle = Some (Ret () w)"
    by (simp add: InitializeMutex_def InitializeMutex_guarded_def destroy_attr_def scoped_def posix_api_def call_def
        bind_def catch_def noexcept_def posix_attr_init_def posix_attr_settype_def posix_attr_destroy_def
        posix_mutex_init_def posix_live_def posix_idle_def w_def)
  show ?thesis
    using mutex_init_no_leak[OF posix_attr.pthread_attributes_axioms r] r
    by (simp add: RecursiveMutex_ctor_def w_def posix_idle_def posix_live_def)
qed

text \<open>\<open>TryLockUntil\<close> waits for the whole remaining time only while it is at most 2147483 seconds;
  a deadline further away overflows the \<open>int\<close> of milliseconds, and for the next 24 days of distance the
  call does not wait at all.\<close>

theorem TryLockUntil_far_deadline:
  assumes now: "GetCurrentTime api w = Some (Ret now w')" and future: "now < absTime"
  shows "(absTime - now \<le> 2147483 \<longrightarrow>
      TimedMutex_TryLockUntil api m absTime w = TimedMutex_TryLockFor api m ((absTime - now) * 1000) w')
    \<and> (2147484 \<le> absTime - now \<and> absTime - now \<le> 4294967 \<longrightarrow>
      TimedMutex_TryLockUntil api m absTime w = TimedMutex_TryLock api m w')"
proof -
  have "TimedMutex_TryLockUntil api m absTime w = TimedMutex_TryLockFor api m (to_int ((absTime - now) * 1000)) w'"
    using now future by (simp add: TimedMutex_TryLockUntil_def Let_def)
  then show ?thesis
    using future by (auto simp: to_int_id int_value_def to_int_negative TimedMutex_TryLockFor_def)
qed

theorem TryLockUntil_far_deadline_witness:
  "TimedMutex_TryLockUntil (posix_api True True) 3 (1000 + 2592000) (posix_idle\<lparr>pw_others := {#3#}\<rparr>)
     = Some (Ret False posix_idle)"
proof -
  have "GetCurrentTime (posix_api True True) (posix_idle\<lparr>pw_others := {#3#}\<rparr>)
      = Some (Ret 1000 (posix_idle\<lparr>pw_others := {#3#}\<rparr>))"
    by (simp add: GetCurrentTime_def posix_api_def posix_idle_def)
  from TryLockUntil_far_deadline[OF this, of "1000 + 2592000" 3] show ?thesis
    by (simp add: TimedMutex_TryLock_def posix_api_def posix_trylock_def posix_idle_def call_def bind_def)
qed

end
