(* ===== verification/Interruption.thy ===== *)
theory Interruption
imports Locks PosixThreads Retry
begin

text \<open>
  Thread interruption (\<open>src/base/thread_data.hpp\<close>: \<open>ThreadData::InterruptionInfo\<close>;
  \<open>src/base/thread.cpp\<close>: \<open>this_thread::InterruptionPoint\<close> and the two guards;
  \<open>src/base/thread_unx.cpp\<close>: \<open>this_thread::SleepFor\<close>), from the view of one thread.

  A program runs on the outer state and the interruption data of the running thread: \<open>None\<close> when
  \<open>pThreadLocalData\<close> is null (a thread not created by \<open>Thread\<close>).  Another thread asks for an interruption
  by setting \<open>interruptionRequested_\<close> under \<open>interruptionRequestedMtx_\<close>; the requests made since this
  thread last held that mutex (\<open>os_requests\<close>) become visible when it acquires it.
\<close>

section \<open>State and interface\<close>

record interruption_info =
  interruptionEnabled :: bool
  pWaitingConditionVariable :: "nat option"
  interruptionRequested :: bool

type_synonym ('a, 'w) tprog = "(exn, 'a, 'w \<times> interruption_info option) prog"

record 'w thread_api = "'w pthread_api" +
  info_mtx :: nat
  os_requests :: "'w \<Rightarrow> bool \<times> 'w"
  os_nanosleep :: "timespec \<Rightarrow> 'w \<Rightarrow> (int \<times> timespec) \<times> 'w"
  os_cond_init :: "nat \<Rightarrow> 'w \<Rightarrow> int \<times> 'w"
  os_cond_destroy :: "nat \<Rightarrow> 'w \<Rightarrow> int \<times> 'w"
  os_cond_signal :: "nat \<Rightarrow> 'w \<Rightarrow> int \<times> 'w"
  os_cond_broadcast :: "nat \<Rightarrow> 'w \<Rightarrow> int \<times> 'w"
  os_cond_wait :: "nat \<Rightarrow> nat \<Rightarrow> 'w \<Rightarrow> (int \<times> 'w) option"
  os_cond_timedwait :: "nat \<Rightarrow> nat \<Rightarrow> timespec \<Rightarrow> 'w \<Rightarrow> (int \<times> 'w) option"

text \<open>\<open>DefaultMutex\<close>: the error checking class in a debug build.\<close>

definition DefaultMutex_ops :: "('w, 'x) pthread_api_scheme \<Rightarrow> (nat, 'w) lock_ops" where
  "DefaultMutex_ops api = (if ndebug api then Mutex_ops api else ErrorCheckingMutex_ops api)"

definition observe_requests :: "('w, 'x) thread_api_scheme \<Rightarrow> (unit, 'w) tprog" where
  "observe_requests api = bind (env (call (os_requests api)))
     (\<lambda>b. if b then modify (map_option (interruptionRequested_update (\<lambda>_. True))) else ret ())"

definition info_ops :: "('w, 'x) thread_api_scheme \<Rightarrow> (nat, 'w \<times> interruption_info option) lock_ops" where
  "info_ops api = \<lparr>
     lk_lock = \<lambda>m. andthen (env (lk_lock (DefaultMutex_ops api) m)) (observe_requests api),
     lk_try = \<lambda>m. bind (env (lk_try (DefaultMutex_ops api) m))
       (\<lambda>b. andthen (if b then observe_requests api else ret ()) (ret b)),
     lk_unlock = \<lambda>m. env (lk_unlock (DefaultMutex_ops api) m)\<rparr>"

section \<open>InterruptionInfo\<close>

definition InterruptionInfo_ctor :: interruption_info where
  "InterruptionInfo_ctor = \<lparr>interruptionEnabled = True, pWaitingConditionVariable = None, interruptionRequested = False\<rparr>"

definition SetInterruptionEnabled :: "bool \<Rightarrow> (unit, 'w) tprog" where
  "SetInterruptionEnabled value = modify (map_option (interruptionEnabled_update (\<lambda>_. value)))"

definition SetWaitingConditionVariable :: "('w, 'x) thread_api_scheme \<Rightarrow> nat option \<Rightarrow> (unit, 'w) tprog" where
  "SetWaitingConditionVariable api cv = with_guard (info_ops api) (info_mtx api)
     (modify (map_option (pWaitingConditionVariable_update (\<lambda>_. cv))))"

definition Info_IsInterruptionRequested :: "('w, 'x) thread_api_scheme \<Rightarrow> (bool, 'w) tprog" where
  "Info_IsInterruptionRequested api = with_guard (info_ops api) (info_mtx api)
     (this (\<lambda>td. case td of None \<Rightarrow> False | Some i \<Rightarrow> interruptionRequested i))"

definition InterruptionRequest :: "('w, 'x) thread_api_scheme \<Rightarrow> (unit, 'w) tprog" where
  "InterruptionRequest api = with_guard (info_ops api) (info_mtx api)
     (bind (this (\<lambda>td. case td of None \<Rightarrow> False | Some i \<Rightarrow> interruptionRequested i)) (\<lambda>requested.
        if requested then andthen (modify (map_option (interruptionRequested_update (\<lambda>_. False)))) (throw ThreadInterrupted)
        else ret ()))"

section \<open>this_thread\<close>

definition IsInterruptionEnabled :: "(bool, 'w) tprog" where
  "IsInterruptionEnabled = this (\<lambda>td. case td of None \<Rightarrow> False | Some i \<Rightarrow> interruptionEnabled i)"

definition IsInterruptionRequested :: "('w, 'x) thread_api_scheme \<Rightarrow> (bool, 'w) tprog" where
  "IsInterruptionRequested api = bind (this (\<lambda>td. td \<noteq> None)) (\<lambda>own.
     if own then Info_IsInterruptionRequested api else ret False)"

definition InterruptionPoint :: "('w, 'x) thread_api_scheme \<Rightarrow> (unit, 'w) tprog" where
  "InterruptionPoint api = bind IsInterruptionEnabled (\<lambda>enabled. if enabled
     then bind (this (\<lambda>td. td \<noteq> None)) (\<lambda>own. andthen (cpp_assert (ndebug api) own) (InterruptionRequest api))
     else ret ())"

text \<open>The guards keep \<open>kInterruptionWasEnabled_\<close>, read by the constructor before anything can change it.\<close>

definition DisableInterruptionGuard_ctor :: "bool \<Rightarrow> (unit, 'w) tprog" where
  "DisableInterruptionGuard_ctor kInterruptionWasEnabled =
     (if kInterruptionWasEnabled then SetInterruptionEnabled False else ret ())"

definition DisableInterruptionGuard_dtor :: "bool \<Rightarrow> (unit, 'w) tprog" where
  "DisableInterruptionGuard_dtor kInterruptionWasEnabled = SetInterruptionEnabled kInterruptionWasEnabled"

definition RestoreInterruptionGuard_ctor :: "bool \<Rightarrow> (unit, 'w) tprog" where
  "RestoreInterruptionGuard_ctor wasEnabled = (if wasEnabled then SetInterruptionEnabled True else ret ())"

definition RestoreInterruptionGuard_dtor :: "(unit, 'w) tprog" where
  "RestoreInterruptionGuard_dtor = SetInterruptionEnabled False"

text \<open>Blocks with a guard; the body of the first may refer to the guard.\<close>

definition with_disabled :: "(bool \<Rightarrow> ('a, 'w) tprog) \<Rightarrow> ('a, 'w) tprog" where
  "with_disabled body = bind IsInterruptionEnabled (\<lambda>k.
     andthen (DisableInterruptionGuard_ctor k) (scoped (body k) (DisableInterruptionGuard_dtor k)))"

definition with_restored :: "bool \<Rightarrow> ('a, 'w) tprog \<Rightarrow> ('a, 'w) tprog" where
  "with_restored k body = andthen (RestoreInterruptionGuard_ctor k) (scoped body RestoreInterruptionGuard_dtor)"

section \<open>SleepFor\<close>

definition nap :: "('w, 'x) thread_api_scheme \<Rightarrow> timespec \<Rightarrow> (exn, unit, 'w) prog" where
  "nap api t = bind (call_blocking (\<lambda>w. map_option (\<lambda>(rc, w', t'). (rc, w'))
       (TEMP_FAILURE_RETRY (\<lambda>(w, t). os_errno api w)
          (\<lambda>(w, t). Some (let ((rc, t'), w') = os_nanosleep api t w in (rc, w', t'))) (w, t))))
     (\<lambda>kRetCode w. if kRetCode \<noteq> ESUCCESS
        then throw (mk_exn_ec ThreadException (mk_code (os_errno api w) SystemCategory)) w
        else ret () w)"

definition CHECK_INTERRUPT_REL_TIME :: int where "CHECK_INTERRUPT_REL_TIME = 25"

text \<open>The \<open>do ... while\<close> loop, from the value of \<open>slept\<close> at the start of a round.\<close>

function sleep_rounds :: "('w, 'x) thread_api_scheme \<Rightarrow> int \<Rightarrow> int \<Rightarrow> (unit, 'w) tprog" where
  "sleep_rounds api kAdjustedRelTime slept =
     andthen (env (nap api \<lparr>tv_sec = 0, tv_nsec = CHECK_INTERRUPT_REL_TIME * 1000000\<rparr>))
       (andthen (InterruptionPoint api)
         (let slept = slept + CHECK_INTERRUPT_REL_TIME in
          if slept + CHECK_INTERRUPT_REL_TIME < kAdjustedRelTime then sleep_rounds api kAdjustedRelTime slept else ret ()))"
  by pat_completeness auto
termination
  by (relation "measure (\<lambda>(api, adj, slept). nat (adj - slept))") (auto simp: CHECK_INTERRUPT_REL_TIME_def)

declare sleep_rounds.simps [simp del]

definition SleepFor :: "('w, 'x) thread_api_scheme \<Rightarrow> int \<Rightarrow> (unit, 'w) tprog" where
  "SleepFor api relTime = andthen (check (relTime \<ge> 0) InvalidArgument)
     (let kAdjustedRelTime = (if relTime \<ge> 0 then relTime else 0);
          timeSpecRelTime = \<lparr>tv_sec = kAdjustedRelTime sdiv 1000, tv_nsec = (kAdjustedRelTime smod 1000) * 1000000\<rparr>
      in andthen (InterruptionPoint api)
        (if kAdjustedRelTime = 0 then andthen (env (nap api timeSpecRelTime)) (InterruptionPoint api)
         else sleep_rounds api kAdjustedRelTime 0))"

definition SleepUntil :: "('w, 'x) thread_api_scheme \<Rightarrow> int \<Rightarrow> (unit, 'w) tprog" where
  "SleepUntil api absTime = bind (env (GetCurrentTime api)) (\<lambda>kCurrTime.
     let kSeconds = absTime - kCurrTime in
     andthen (check (kSeconds \<ge> 0) InvalidArgument) (SleepFor api (to_int (kSeconds * 1000))))"


section \<open>The contract of the operating system\<close>

text \<open>\<open>kept\<close> is data that other threads change only while they hold the mutex \<open>mtx\<close>; the laws say so of the
  calls this thread can make while it holds \<open>mtx\<close> itself.\<close>

locale interruptible_threads = pthread_mutexes api held
  for api :: "('w, 'x) thread_api_scheme" and held :: "'w \<Rightarrow> nat multiset" +
  fixes mtx :: nat and kept :: "'w \<Rightarrow> 'd"
  assumes info_mtx_private: "info_mtx api \<noteq> mtx"
    and lock_kept: "os_mutex_lock api m w = Some (rc, w') \<Longrightarrow> mtx \<in># held w \<Longrightarrow> kept w' = kept w"
    and unlock_kept: "os_mutex_unlock api m w = (rc, w') \<Longrightarrow> m \<noteq> mtx \<Longrightarrow> mtx \<in># held w \<Longrightarrow> kept w' = kept w"
    and requests_law: "os_requests api w = (b, w') \<Longrightarrow> held w' = held w \<and> (mtx \<in># held w \<longrightarrow> kept w' = kept w)"
    and nanosleep_law: "os_nanosleep api t w = (r, w') \<Longrightarrow> held w' = held w \<and> (mtx \<in># held w \<longrightarrow> kept w' = kept w)"

lemma triple_at_state: "m s = m' s \<Longrightarrow> triple P m' Q E \<Longrightarrow> P s \<Longrightarrow> triple (\<lambda>s'. s' = s) m Q E"
  by (auto simp: triple_def)

lemma triple_env_frame:
  assumes "triple P m Q E"
  shows "triple (\<lambda>s. P (fst s) \<and> T (snd s)) (env m) (\<lambda>a s. Q a (fst s) \<and> T (snd s)) (\<lambda>e s. E e (fst s) \<and> T (snd s))"
  by (rule triple_env, rule triple_pre, rule triple_conseq[OF assms]) auto

lemma triple_this_env:
  assumes "triple P (f m) Q E"
  shows "triple (\<lambda>s. P (fst s) \<and> snd s = m) (bind (this id) (\<lambda>x. env (f x)))
    (\<lambda>a s. snd s = m \<and> Q a (fst s)) (\<lambda>e s. snd s = m \<and> E e (fst s))"
proof (rule triple_pre)
  fix s assume s: "P (fst s) \<and> snd s = m"
  have "bind (this id) (\<lambda>x. env (f x)) s = env (f m) s"
    using s by (cases s) simp
  moreover have "triple (\<lambda>s'. s' = s) (env (f m)) (\<lambda>a s. snd s = m \<and> Q a (fst s)) (\<lambda>e s. snd s = m \<and> E e (fst s))"
    by (rule triple_env, rule triple_pre, rule triple_conseq[OF assms]) (use s in auto)
  ultimately show "triple (\<lambda>s'. s' = s) (bind (this id) (\<lambda>x. env (f x)))
      (\<lambda>a s. snd s = m \<and> Q a (fst s)) (\<lambda>e s. snd s = m \<and> E e (fst s))"
    by (simp add: triple_def)
qed

text \<open>A block under a lock guard, with any state that locking and unlocking relate to what is held.\<close>

lemma triple_with_guard:
  assumes lock: "triple P (lk_lock ops m) (\<lambda>_. P1) E"
    and body: "triple P1 body (\<lambda>a. D (Q a)) (\<lambda>e. D (E e))"
    and unlock: "\<And>R. triple (D R) (lk_unlock ops m) (\<lambda>_. R) (\<lambda>_ _. False)"
  shows "triple P (with_guard ops m body) Q E"
  unfolding with_guard_def
proof (rule triple_local_object[where D = "\<lambda>R s. snd s = m \<and> D R (fst s)" and R = "\<lambda>s. snd s = m \<and> P1 (fst s)"])
  show "triple (\<lambda>s. P (fst s) \<and> snd s = m) (LockGuard_ctor ops) (\<lambda>_ s. snd s = m \<and> P1 (fst s)) (\<lambda>e s. E e (fst s))"
    unfolding LockGuard_ctor_def by (rule triple_conseq[OF triple_this_env[where f = "lk_lock ops", OF lock]]) auto
  show "triple (\<lambda>s. snd s = m \<and> P1 (fst s)) (env body) (\<lambda>a s. snd s = m \<and> D (Q a) (fst s)) (\<lambda>e s. snd s = m \<and> D (E e) (fst s))"
    by (rule triple_env, rule triple_pre, rule triple_conseq[OF body]) auto
  show "triple (\<lambda>s. snd s = m \<and> D R (fst s)) (LockGuard_dtor ops) (\<lambda>_ s. R (fst s)) (\<lambda>_ _. False)" for R
    unfolding LockGuard_dtor_def
    by (rule triple_noexcept, rule triple_conseq[OF triple_this_env[where f = "lk_unlock ops", OF unlock]]) auto
qed

abbreviation lock_failure :: "exn \<Rightarrow> bool" where
  "lock_failure e \<equiv> derived_from (exn_class e) LockException"

lemma lock_failures:
  "lock_failure Deadlock" "lock_failure (LockExc c)" "\<not> lock_failure ThreadInterrupted"
  by (simp_all add: derived_from_iff exn_defs)

text \<open>What locking the data of the thread can change: a request becomes visible.\<close>

definition seen :: "interruption_info option \<Rightarrow> interruption_info option \<Rightarrow> bool" where
  "seen td td' \<longleftrightarrow> td' = td \<or> td' = map_option (interruptionRequested_update (\<lambda>_. True)) td"

lemma seen_refl [simp]: "seen td td"
  by (simp add: seen_def)

lemma seen_fields:
  "seen (Some i) td \<Longrightarrow> \<exists>i'. td = Some i' \<and> interruptionEnabled i' = interruptionEnabled i
     \<and> pWaitingConditionVariable i' = pWaitingConditionVariable i \<and> (interruptionRequested i \<longrightarrow> interruptionRequested i')"
  by (auto simp: seen_def)

text \<open>The outcome of an interruption point: nothing was requested, or the request was taken.\<close>

definition point_exit :: "interruption_info option \<Rightarrow> exn \<Rightarrow> interruption_info option \<Rightarrow> bool" where
  "point_exit td e t \<longleftrightarrow> (lock_failure e \<and> t = td)
     \<or> (e = ThreadInterrupted \<and> (\<exists>i. td = Some i \<and> interruptionEnabled i \<and> t = Some (i\<lparr>interruptionRequested := False\<rparr>)))"

context interruptible_threads begin

text \<open>The state of the thread: it holds \<open>H\<close>, the protected data is \<open>d\<close> if \<open>H\<close> has its mutex, and the thread
  data satisfies \<open>T\<close>.\<close>

definition keeps :: "nat multiset \<Rightarrow> 'd \<Rightarrow> 'w \<Rightarrow> bool" where
  "keeps H d w \<longleftrightarrow> held w = H \<and> (mtx \<in># H \<longrightarrow> kept w = d)"

abbreviation at :: "nat multiset \<Rightarrow> 'd \<Rightarrow> (interruption_info option \<Rightarrow> bool) \<Rightarrow> 'w \<times> interruption_info option \<Rightarrow> bool" where
  "at H d T s \<equiv> keeps H d (fst s) \<and> T (snd s)"

lemma lock_keeps:
  "m \<noteq> mtx \<Longrightarrow> triple (keeps H d) (call_blocking (os_mutex_lock api m))
     (\<lambda>rc w. (if rc = ESUCCESS then keeps (add_mset m H) d w else keeps H d w) \<and> rc \<noteq> EINTR \<and> rc \<noteq> EINVAL) E"
  by (rule triple_call_blocking) (auto simp: keeps_def dest: lock_law lock_kept)

lemma unlock_keeps:
  "m \<noteq> mtx \<Longrightarrow> triple (keeps (add_mset m H) d) (call (os_mutex_unlock api m)) (\<lambda>rc w. rc = ESUCCESS \<and> keeps H d w) E"
  by (rule triple_call) (auto simp: keeps_def dest: unlock_law unlock_kept)

lemma DefaultMutex_Lock_spec:
  assumes "m \<noteq> mtx"
  shows "triple (keeps H d) (lk_lock (DefaultMutex_ops api) m) (\<lambda>_. keeps (add_mset m H) d) (\<lambda>e w. keeps H d w \<and> lock_failure e)"
proof -
  have "triple (keeps H d) (Mutex_Lock api m) (\<lambda>_. keeps (add_mset m H) d) (\<lambda>e w. keeps H d w \<and> lock_failure e)"
    "triple (keeps H d) (ErrorCheckingMutex_Lock api m) (\<lambda>_. keeps (add_mset m H) d) (\<lambda>e w. keeps H d w \<and> lock_failure e)"
    unfolding Mutex_Lock_def ErrorCheckingMutex_Lock_def
    by (rule triple_bind[OF lock_keeps[OF assms]]; auto simp: triple_def lock_failures)+
  then show ?thesis
    by (simp add: DefaultMutex_ops_def Mutex_ops_def ErrorCheckingMutex_ops_def)
qed

lemma DefaultMutex_Unlock_spec:
  assumes "m \<noteq> mtx"
  shows "triple (keeps (add_mset m H) d) (lk_unlock (DefaultMutex_ops api) m) (\<lambda>_. keeps H d) (\<lambda>_ _. False)"
proof -
  have "triple (keeps (add_mset m H) d) (Mutex_Unlock api m) (\<lambda>_. keeps H d) (\<lambda>_ _. False)"
    "triple (keeps (add_mset m H) d) (ErrorCheckingMutex_Unlock api m) (\<lambda>_. keeps H d) (\<lambda>_ _. False)"
    unfolding Mutex_Unlock_def ErrorCheckingMutex_Unlock_def
    by (rule triple_bind[OF unlock_keeps[OF assms]]; auto simp: triple_def)+
  then show ?thesis
    by (simp add: DefaultMutex_ops_def Mutex_ops_def ErrorCheckingMutex_ops_def)
qed

lemma observe_requests_spec:
  "triple (at H d (\<lambda>t. t = td)) (observe_requests api) (\<lambda>_. at H d (seen td)) E"
proof -
  have c: "triple (keeps H d) (call (os_requests api)) (\<lambda>_. keeps H d) (\<lambda>_ _. False)"
    by (rule triple_call) (auto simp: keeps_def dest: requests_law)
  have "triple (at H d (\<lambda>t. t = td)) (env (call (os_requests api))) (\<lambda>_. at H d (\<lambda>t. t = td)) E"
    by (rule triple_conseq[OF triple_env_frame[OF c]]) auto
  then show ?thesis
    unfolding observe_requests_def by (rule triple_bind) (auto simp: triple_def seen_def)
qed

lemma info_lock:
  assumes "m \<noteq> mtx"
  shows "triple (at H d (\<lambda>t. t = td)) (lk_lock (info_ops api) m)
    (\<lambda>_. at (add_mset m H) d (seen td)) (\<lambda>e. at H d (\<lambda>t. t = td \<and> lock_failure e))"
proof -
  have "triple (at H d (\<lambda>t. t = td)) (env (lk_lock (DefaultMutex_ops api) m))
      (\<lambda>_. at (add_mset m H) d (\<lambda>t. t = td)) (\<lambda>e. at H d (\<lambda>t. t = td \<and> lock_failure e))"
    by (rule triple_conseq[OF triple_env_frame[OF DefaultMutex_Lock_spec[OF assms]]]) auto
  then show ?thesis
    by (simp add: info_ops_def triple_bind[OF _ observe_requests_spec])
qed

lemma info_unlock:
  assumes "m \<noteq> mtx"
  shows "triple (\<lambda>s. \<exists>H d. keeps (add_mset m H) d (fst s) \<and> (\<forall>w. keeps H d w \<longrightarrow> R (w, snd s)))
     (lk_unlock (info_ops api) m) (\<lambda>_. R) (\<lambda>_ _. False)"
proof (rule triple_pre)
  fix s assume "\<exists>H d. keeps (add_mset m H) d (fst s) \<and> (\<forall>w. keeps H d w \<longrightarrow> R (w, snd s))"
  then obtain H d where s: "keeps (add_mset m H) d (fst s)" and R: "\<And>w. keeps H d w \<Longrightarrow> R (w, snd s)" by blast
  show "triple (\<lambda>s'. s' = s) (lk_unlock (info_ops api) m) (\<lambda>_. R) (\<lambda>_ _. False)"
    unfolding info_ops_def
    by (simp, rule triple_env, rule triple_pre, rule triple_conseq[OF DefaultMutex_Unlock_spec[OF assms, of H d]])
       (use s R in auto)
qed

text \<open>A block that holds the mutex of the data and changes only the data.\<close>

lemma with_info_guard_at:
  assumes lock: "triple (at H d (\<lambda>t. t = td)) (lk_lock (info_ops api) (info_mtx api))
      (\<lambda>_. at (add_mset (info_mtx api) H) d (seen td)) (\<lambda>e. at H d (E e))"
    and body: "\<And>td'. seen td td' \<Longrightarrow>
    triple (at (add_mset (info_mtx api) H) d (\<lambda>t. t = td')) body
      (\<lambda>a. at (add_mset (info_mtx api) H) d (Q a)) (\<lambda>e. at (add_mset (info_mtx api) H) d (E e))"
  shows "triple (at H d (\<lambda>t. t = td)) (with_guard (info_ops api) (info_mtx api) body) (\<lambda>a. at H d (Q a)) (\<lambda>e. at H d (E e))"
proof (rule triple_with_guard[OF lock _ info_unlock[OF info_mtx_private]], rule triple_pre)
  fix s assume s: "at (add_mset (info_mtx api) H) d (seen td) s"
  show "triple (\<lambda>s'. s' = s) body
     (\<lambda>a s. \<exists>H' d'. keeps (add_mset (info_mtx api) H') d' (fst s) \<and> (\<forall>w. keeps H' d' w \<longrightarrow> at H d (Q a) (w, snd s)))
     (\<lambda>e s. \<exists>H' d'. keeps (add_mset (info_mtx api) H') d' (fst s) \<and> (\<forall>w. keeps H' d' w \<longrightarrow> at H d (E e) (w, snd s)))"
    by (rule triple_conseq[OF body[of "snd s"]]) (use s in auto)
qed

text \<open>What is thrown while the mutex is held is an interruption.\<close>

lemma request_body_spec:
  assumes seen: "seen (Some i) td'"
  shows "triple (at H d (\<lambda>t. t = td'))
     (bind (this (\<lambda>td. case td of None \<Rightarrow> False | Some i \<Rightarrow> interruptionRequested i)) (\<lambda>requested.
        if requested then andthen (modify (map_option (interruptionRequested_update (\<lambda>_. False)))) (throw ThreadInterrupted)
        else ret ()))
     (\<lambda>_. at H d (\<lambda>t. t = Some i \<and> \<not> interruptionRequested i))
     (\<lambda>e. at H d (\<lambda>t. e = ThreadInterrupted \<and> t = Some (i\<lparr>interruptionRequested := False\<rparr>)))" (is "triple _ ?body _ _")
proof -
  have eval: "?body (w, Some j) = Some (if interruptionRequested j
      then Exc ThreadInterrupted (w, Some (j\<lparr>interruptionRequested := False\<rparr>)) else Ret () (w, Some j))" for w j
    by (simp add: bind_def)
  show ?thesis
    using seen_fields[OF seen] seen eval by (auto simp: triple_def seen_def)
qed

lemma InterruptionRequest_spec:
  "triple (at H d (\<lambda>t. t = Some i)) (InterruptionRequest api)
     (\<lambda>_. at H d (\<lambda>t. t = Some i \<and> \<not> interruptionRequested i))
     (\<lambda>e. at H d (\<lambda>t. lock_failure e \<and> t = Some i \<or> e = ThreadInterrupted \<and> t = Some (i\<lparr>interruptionRequested := False\<rparr>)))"
  unfolding InterruptionRequest_def
  by (rule with_info_guard_at[OF triple_conseq[OF info_lock[OF info_mtx_private]] triple_conseq[OF request_body_spec]]) auto

lemma InterruptionPoint_spec:
  "triple (at H d (\<lambda>t. t = td)) (InterruptionPoint api)
     (\<lambda>_. at H d (\<lambda>t. t = td \<and> (\<forall>i. td = Some i \<and> interruptionEnabled i \<longrightarrow> \<not> interruptionRequested i)))
     (\<lambda>e. at H d (point_exit td e))"
proof (cases "\<exists>i. td = Some i \<and> interruptionEnabled i")
  case True
  then obtain i where i: "td = Some i" "interruptionEnabled i" by blast
  have "InterruptionPoint api (w, td) = InterruptionRequest api (w, td)" for w
    using i by (simp add: InterruptionPoint_def IsInterruptionEnabled_def)
  then show ?thesis
    using InterruptionRequest_spec[of H d i] i
    by (force simp: triple_def point_exit_def split: res.splits)
next
  case False
  then have "InterruptionPoint api (w, td) = Some (Ret () (w, td))" for w
    by (auto simp: InterruptionPoint_def IsInterruptionEnabled_def split: option.splits)
  then show ?thesis
    using False by (auto simp: triple_def)
qed

end

section \<open>Guards\<close>

text \<open>Code with interruption points and guards.  \<open>Restored\<close> is a block with a \<open>RestoreInterruptionGuard\<close> on
  the innermost enclosing \<open>DisableInterruptionGuard\<close>, which is its precondition; a second one inside it
  would leave interruption disabled for the rest of the outer block.\<close>

datatype guarded_code = Point | Seq guarded_code guarded_code | Disabled guarded_code | Restored guarded_code

fun run_code :: "('w, 'x) thread_api_scheme \<Rightarrow> bool \<Rightarrow> guarded_code \<Rightarrow> (unit, 'w) tprog" where
  "run_code api k Point = InterruptionPoint api"
| "run_code api k (Seq c d) = andthen (run_code api k c) (run_code api k d)"
| "run_code api k (Disabled c) = with_disabled (\<lambda>k. run_code api k c)"
| "run_code api k (Restored c) = with_restored k (run_code api k c)"

fun well_nested :: "bool \<Rightarrow> guarded_code \<Rightarrow> bool" where
  "well_nested b Point = True"
| "well_nested b (Seq c d) = (well_nested b c \<and> well_nested b d)"
| "well_nested b (Disabled c) = well_nested True c"
| "well_nested b (Restored c) = (b \<and> well_nested False c)"

definition data_is :: "bool \<Rightarrow> nat option \<Rightarrow> interruption_info option \<Rightarrow> bool" where
  "data_is e p td \<longleftrightarrow> (\<exists>i. td = Some i \<and> interruptionEnabled i = e \<and> pWaitingConditionVariable i = p)"

lemma data_is_set: "data_is e p td \<Longrightarrow> data_is v p (map_option (interruptionEnabled_update (\<lambda>_. v)) td)"
  by (auto simp: data_is_def)

lemma triple_scoped_set:
  assumes "triple P body (\<lambda>a s. Q a (fst s, map_option (interruptionEnabled_update (\<lambda>_. v)) (snd s)))
      (\<lambda>e s. E e (fst s, map_option (interruptionEnabled_update (\<lambda>_. v)) (snd s)))"
  shows "triple P (scoped body (SetInterruptionEnabled v)) Q E"
  by (rule triple_scoped[where D = "\<lambda>R s. R (fst s, map_option (interruptionEnabled_update (\<lambda>_. v)) (snd s))", OF assms])
     (auto simp: SetInterruptionEnabled_def intro!: triple_modify)

lemma set_same_enabled: "map_option (interruptionEnabled_update (\<lambda>_. interruptionEnabled i)) (Some i) = Some i"
  by simp

text \<open>While interruption is disabled nothing happens at the points of the thread.\<close>

lemma run_code_disabled:
  assumes "\<not> interruptionEnabled i"
  shows "run_code api False c (w, Some i) = Some (Ret () (w, Some i))"
proof -
  have set: "i\<lparr>interruptionEnabled := False\<rparr> = i" using assms by (cases i) simp
  show ?thesis
    by (induction c) (simp_all add: assms set InterruptionPoint_def IsInterruptionEnabled_def with_disabled_def with_restored_def
        DisableInterruptionGuard_ctor_def DisableInterruptionGuard_dtor_def RestoreInterruptionGuard_ctor_def
        RestoreInterruptionGuard_dtor_def SetInterruptionEnabled_def scoped_def)
qed

lemma InterruptionPoint_adopted: "InterruptionPoint api (w, None) = Some (Ret () (w, None))"
  by (simp add: InterruptionPoint_def IsInterruptionEnabled_def)

context interruptible_threads begin

lemma InterruptionPoint_data:
  "triple (at H d (data_is e p)) (InterruptionPoint api) (\<lambda>_. at H d (data_is e p))
     (\<lambda>x. at H d (\<lambda>t. data_is e p t \<and> (lock_failure x \<or> x = ThreadInterrupted)))"
  by (rule triple_pre, rule triple_conseq[OF InterruptionPoint_spec]) (auto simp: data_is_def point_exit_def)

lemma run_code_data:
  assumes "well_nested b c" and "b \<longrightarrow> \<not> e"
  shows "triple (at H d (data_is e p)) (run_code api k c) (\<lambda>_. at H d (data_is e p))
     (\<lambda>x. at H d (\<lambda>t. data_is e p t \<and> (lock_failure x \<or> x = ThreadInterrupted)))"
  using assms
proof (induction c arbitrary: b e k)
  case (Disabled c)
  have body: "triple (at H d (data_is False p)) (scoped (run_code api e c) (SetInterruptionEnabled e)) (\<lambda>_. at H d (data_is e p))
     (\<lambda>x. at H d (\<lambda>t. data_is e p t \<and> (lock_failure x \<or> x = ThreadInterrupted)))"
    by (rule triple_scoped_set, rule triple_conseq[OF Disabled.IH[of True]]) (use Disabled.prems in \<open>auto dest: data_is_set\<close>)
  show ?case
  proof (rule triple_pre)
    fix s assume s: "at H d (data_is e p) s"
    then obtain w i where i: "s = (w, Some i)" "interruptionEnabled i = e" "pWaitingConditionVariable i = p" "keeps H d w"
      by (cases s) (auto simp: data_is_def)
    define j where "j = (if e then i\<lparr>interruptionEnabled := False\<rparr> else i)"
    have "run_code api k (Disabled c) s = scoped (run_code api e c) (SetInterruptionEnabled e) (w, Some j)"
      using i by (cases e) (simp_all add: with_disabled_def IsInterruptionEnabled_def DisableInterruptionGuard_ctor_def
          DisableInterruptionGuard_dtor_def SetInterruptionEnabled_def j_def)
    moreover have "at H d (data_is False p) (w, Some j)"
      using i by (auto simp: data_is_def j_def)
    ultimately show "triple (\<lambda>s'. s' = s) (run_code api k (Disabled c)) (\<lambda>_. at H d (data_is e p))
       (\<lambda>x. at H d (\<lambda>t. data_is e p t \<and> (lock_failure x \<or> x = ThreadInterrupted)))"
      using body by (simp add: triple_def)
  qed
next
  case (Restored c)
  then have e: "\<not> e" and wn: "well_nested False c" by auto
  have body: "triple (at H d (data_is k p)) (scoped (run_code api k c) (SetInterruptionEnabled False)) (\<lambda>_. at H d (data_is e p))
     (\<lambda>x. at H d (\<lambda>t. data_is e p t \<and> (lock_failure x \<or> x = ThreadInterrupted)))"
    by (rule triple_scoped_set, rule triple_conseq[OF Restored.IH[OF wn]]) (use e in \<open>auto dest: data_is_set\<close>)
  have ctor: "triple (at H d (data_is e p)) (RestoreInterruptionGuard_ctor k) (\<lambda>_. at H d (data_is k p)) E" for E
    using e by (auto simp: RestoreInterruptionGuard_ctor_def SetInterruptionEnabled_def triple_def data_is_def)
  show ?case
    unfolding run_code.simps with_restored_def RestoreInterruptionGuard_dtor_def by (rule triple_bind[OF ctor body])
next
  case (Seq c d)
  then have "well_nested b c" "well_nested b d" by simp_all
  from triple_bind[OF Seq.IH(1)[OF this(1) Seq.prems(2)] Seq.IH(2)[OF this(2) Seq.prems(2)]]
  show ?case by simp
qed (simp add: InterruptionPoint_data)

lemma InterruptionPoint_outcome:
  assumes r: "InterruptionPoint api (w, td) = Some r"
  shows "held (fst (res_state r)) = held w
    \<and> (\<forall>i. td = Some i \<and> interruptionEnabled i \<and> interruptionRequested i \<longrightarrow> (\<exists>w'. (\<exists>e. lock_failure e \<and> r = Exc e (w', td))
          \<or> r = Exc ThreadInterrupted (w', Some (i\<lparr>interruptionRequested := False\<rparr>))))
    \<and> (\<forall>w' td'. r = Ret () (w', td') \<longrightarrow> td' = td)
    \<and> (td = None \<or> \<not> interruptionEnabled (the td) \<longrightarrow> r = Ret () (w, td))"
proof -
  have start: "at (held w) (kept w) (\<lambda>t. t = td) (w, td)" by (simp add: keeps_def)
  have "td = None \<or> \<not> interruptionEnabled (the td) \<Longrightarrow> r = Ret () (w, td)"
    using r run_code_disabled[of "the td" api Point w] InterruptionPoint_adopted[of api w] by (cases td) auto
  moreover have "held (fst (res_state r)) = held w \<and> (\<forall>i. td = Some i \<and> interruptionEnabled i \<and> interruptionRequested i
      \<longrightarrow> (\<exists>w'. (\<exists>e. lock_failure e \<and> r = Exc e (w', td))
          \<or> r = Exc ThreadInterrupted (w', Some (i\<lparr>interruptionRequested := False\<rparr>))))
    \<and> (\<forall>w' td'. r = Ret () (w', td') \<longrightarrow> td' = td)"
  proof (cases r)
    case (Ret a s)
    from triple_Ret[OF InterruptionPoint_spec start r[unfolded Ret]] show ?thesis
      using Ret by (auto simp: keeps_def)
  next
    case (Exc e s)
    from triple_Exc[OF InterruptionPoint_spec start r[unfolded Exc]] show ?thesis
      using Exc by (cases s) (auto simp: keeps_def point_exit_def)
  next
    case (Term s)
    from triple_Term[OF InterruptionPoint_spec start r[unfolded Term]] show ?thesis ..
  qed
  ultimately show ?thesis by blast
qed

lemma run_code_outcome:
  assumes wn: "well_nested False c" and r: "run_code api False c (w, Some i) = Some r"
  shows "held (fst (res_state r)) = held w
    \<and> data_is (interruptionEnabled i) (pWaitingConditionVariable i) (snd (res_state r))
    \<and> (r = Ret () (res_state r) \<or> (\<exists>e. r = Exc e (res_state r) \<and> (e = ThreadInterrupted \<or> lock_failure e)))"
proof -
  have start: "at (held w) (kept w) (data_is (interruptionEnabled i) (pWaitingConditionVariable i)) (w, Some i)"
    by (simp add: keeps_def data_is_def)
  note sp = run_code_data[OF wn, of "interruptionEnabled i" "held w" "kept w" "pWaitingConditionVariable i" False]
  show ?thesis
  proof (cases r)
    case (Ret a s)
    from triple_Ret[OF sp start r[unfolded Ret]] show ?thesis using Ret by (auto simp: keeps_def)
  next
    case (Exc e s)
    from triple_Exc[OF sp start r[unfolded Exc]] show ?thesis using Exc by (auto simp: keeps_def)
  next
    case (Term s)
    from triple_Term[OF sp start r[unfolded Term]] show ?thesis by simp
  qed
qed

end

section \<open>Properties\<close>

text \<open>An instance for the witnesses: \<open>tw_requests\<close> says for every coming acquisition of the mutex of the
  data whether a request was made before it, \<open>tw_signals\<close> how many of the next sleeps a signal
  interrupts, \<open>tw_feed\<close> the values other threads store in the shared variable \<open>tw_data\<close> while this one waits.\<close>

record thread_world = posix_world +
  tw_requests :: "bool list"
  tw_nanos :: int
  tw_signals :: nat
  tw_errno :: int
  tw_data :: nat
  tw_feed :: "nat list"

definition sample_requests :: "thread_world \<Rightarrow> bool \<times> thread_world" where
  "sample_requests w = (case tw_requests w of [] \<Rightarrow> (False, w) | b # bs \<Rightarrow> (b, w\<lparr>tw_requests := bs\<rparr>))"

definition sample_nanosleep :: "timespec \<Rightarrow> thread_world \<Rightarrow> (int \<times> timespec) \<times> thread_world" where
  "sample_nanosleep t w = (case tw_signals w of
     0 \<Rightarrow> ((0, t), w\<lparr>tw_nanos := tw_nanos w + nanoseconds t\<rparr>)
   | Suc n \<Rightarrow> ((- 1, t), w\<lparr>tw_signals := n, tw_errno := EINTR\<rparr>))"

definition sample_cond_wait :: "nat \<Rightarrow> nat \<Rightarrow> thread_world \<Rightarrow> (int \<times> thread_world) option" where
  "sample_cond_wait cv m w = (if m \<in># pw_mine w
     then (case tw_feed w of [] \<Rightarrow> None | d # ds \<Rightarrow> Some (ESUCCESS, w\<lparr>tw_data := d, tw_feed := ds\<rparr>))
     else Some (EPERM, w))"

definition sample_cond_timedwait :: "nat \<Rightarrow> nat \<Rightarrow> timespec \<Rightarrow> thread_world \<Rightarrow> (int \<times> thread_world) option" where
  "sample_cond_timedwait cv m t w = (if m \<in># pw_mine w
     then Some (case tw_feed w of [] \<Rightarrow> (ETIMEDOUT, w\<lparr>pw_now := max (pw_now w) (tv_sec t)\<rparr>)
       | d # ds \<Rightarrow> (ESUCCESS, w\<lparr>tw_data := d, tw_feed := ds\<rparr>))
     else Some (EPERM, w))"

definition sample_threads :: "bool \<Rightarrow> thread_world thread_api" where
  "sample_threads nd = pthread_api.extend (posix_api nd True\<lparr>os_errno := tw_errno\<rparr>)
     \<lparr>info_mtx = 7, os_requests = sample_requests, os_nanosleep = sample_nanosleep,
      os_cond_init = \<lambda>_ w. (ESUCCESS, w), os_cond_destroy = \<lambda>_ w. (ESUCCESS, w),
      os_cond_signal = \<lambda>_ w. (ESUCCESS, w), os_cond_broadcast = \<lambda>_ w. (ESUCCESS, w),
      os_cond_wait = sample_cond_wait, os_cond_timedwait = sample_cond_timedwait\<rparr>"

lemmas sample_threads_defs = sample_threads_def posix_api_def pthread_api.defs

interpretation sample: interruptible_threads "sample_threads nd" pw_mine 5 tw_data
  by unfold_locales
     (auto simp: sample_threads_defs posix_defs normalized_def sample_requests_def sample_nanosleep_def
       split: if_splits list.splits nat.splits)

definition thread_idle :: thread_world where
  "thread_idle = posix_world.extend posix_idle \<lparr>tw_requests = [], tw_nanos = 0, tw_signals = 0, tw_errno = 0,
     tw_data = 0, tw_feed = []\<rparr>"

section \<open>The length of a sleep\<close>

text \<open>\<open>nanosleep\<close> as documented when no signal arrives: the clock advances by the requested time.\<close>

definition undisturbed :: "('w, 'x) thread_api_scheme \<Rightarrow> ('w \<Rightarrow> int) \<Rightarrow> ('w \<Rightarrow> bool) \<Rightarrow> bool" where
  "undisturbed api clock quiet \<longleftrightarrow> (\<forall>t w. quiet w \<longrightarrow> (\<exists>t' w'. os_nanosleep api t w = ((0, t'), w')
     \<and> clock w' = clock w + nanoseconds t \<and> quiet w'))"

lemma nap_eval:
  assumes "undisturbed api clock quiet" "quiet w"
  shows "\<exists>w'. nap api t w = Some (Ret () w') \<and> clock w' = clock w + nanoseconds t \<and> quiet w'"
proof -
  obtain t' w' where n: "os_nanosleep api t w = ((0, t'), w')" "clock w' = clock w + nanoseconds t" "quiet w'"
    using assms unfolding undisturbed_def by blast
  then have "TEMP_FAILURE_RETRY (\<lambda>(w, t). os_errno api w)
      (\<lambda>(w, t). Some (let ((rc, t'), w') = os_nanosleep api t w in (rc, w', t'))) (w, t) = Some (0, w', t')"
    by (subst TEMP_FAILURE_RETRY.simps) simp
  then show ?thesis
    using n by (auto simp: nap_def)
qed

text \<open>The number of rounds of the loop.\<close>

definition rounds :: "int \<Rightarrow> int" where
  "rounds time = max 1 ((time + 24) div 25 - 1)"

lemma sleep_rounds_eval:
  assumes u: "undisturbed api clock quiet" and "quiet w"
  shows "\<exists>w'. sleep_rounds api adj slept (w, None) = Some (Ret () (w', None))
    \<and> clock w' = clock w + rounds (adj - slept) * 25000000 \<and> quiet w'"
  using assms(2)
proof (induction "nat (adj - slept)" arbitrary: slept w rule: less_induct)
  case less
  obtain w1 where w1: "nap api \<lparr>tv_sec = 0, tv_nsec = CHECK_INTERRUPT_REL_TIME * 1000000\<rparr> w = Some (Ret () w1)"
    "clock w1 = clock w + 25000000" "quiet w1"
    using nap_eval[OF u less.prems] by (force simp: nanoseconds_def CHECK_INTERRUPT_REL_TIME_def)
  show ?case
  proof (cases "slept + 50 < adj")
    case True
    obtain w2 where w2: "sleep_rounds api adj (slept + 25) (w1, None) = Some (Ret () (w2, None))"
      "clock w2 = clock w1 + rounds (adj - (slept + 25)) * 25000000" "quiet w2"
      using less.hyps[of "slept + 25" w1] True w1(3) by auto
    have "rounds (adj - slept) = rounds (adj - (slept + 25)) + 1"
      using True by (simp add: rounds_def)
    then show ?thesis
      using w1 w2 True by (subst sleep_rounds.simps)
        (auto simp: InterruptionPoint_adopted CHECK_INTERRUPT_REL_TIME_def Let_def algebra_simps)
  next
    case False
    then have "rounds (adj - slept) = 1" by (simp add: rounds_def)
    then show ?thesis
      using w1 False by (subst sleep_rounds.simps)
        (auto simp: InterruptionPoint_adopted CHECK_INTERRUPT_REL_TIME_def Let_def)
  qed
qed

section \<open>Properties\<close>

text \<open>An interruption point never returns while interruption is enabled and requested: it clears the
  request and throws \<open>ThreadInterruptedException\<close>, unless locking the mutex of the data fails, and then
  the request stays.  When it returns, nothing was requested and the data of the thread is unchanged.  With
  interruption disabled, and in a thread without data, it does nothing.  It keeps what the thread holds.\<close>

theorem InterruptionPoint_delivers:
  assumes os: "interruptible_threads api held mtx kept" and r: "InterruptionPoint api (w, td) = Some r"
  shows "held (fst (res_state r)) = held w
    \<and> (\<forall>i. td = Some i \<and> interruptionEnabled i \<and> interruptionRequested i \<longrightarrow> (\<exists>w'. (\<exists>e. lock_failure e \<and> r = Exc e (w', td))
          \<or> r = Exc ThreadInterrupted (w', Some (i\<lparr>interruptionRequested := False\<rparr>))))
    \<and> (\<forall>w' td'. r = Ret () (w', td') \<longrightarrow> td' = td)
    \<and> (td = None \<or> \<not> interruptionEnabled (the td) \<longrightarrow> r = Ret () (w, td))"
  by (rule interruptible_threads.InterruptionPoint_outcome[OF os r])

lemma with_guard_eval:
  assumes "lk_lock ops m s = Some (Ret () s1)" and "body s1 = Some r" and "lk_unlock ops m (res_state r) = Some (Ret () s2)"
    and "\<forall>s'. r \<noteq> Term s'"
  shows "with_guard ops m body s = Some (case r of Ret a _ \<Rightarrow> Ret a s2 | Exc e _ \<Rightarrow> Exc e s2 | Term _ \<Rightarrow> Term s2)"
  using assms
  by (cases r) (simp_all add: with_guard_def local_object_def drop_object_def scoped_def LockGuard_ctor_def LockGuard_dtor_def)

lemma sample_info_lock:
  "7 \<notin># pw_mine w \<Longrightarrow> tw_requests w = [] \<Longrightarrow> pw_others w = {#} \<Longrightarrow>
     lk_lock (info_ops (sample_threads nd)) 7 (w, td) = Some (Ret () (w\<lparr>pw_mine := add_mset 7 (pw_mine w)\<rparr>, td))"
  by (simp add: info_ops_def DefaultMutex_ops_def Mutex_ops_def ErrorCheckingMutex_ops_def Mutex_Lock_def
      ErrorCheckingMutex_Lock_def sample_threads_defs posix_lock_def observe_requests_def sample_requests_def)

lemma sample_info_unlock:
  "7 \<in># pw_mine w \<Longrightarrow> lk_unlock (info_ops (sample_threads nd)) 7 (w, td) = Some (Ret () (w\<lparr>pw_mine := pw_mine w - {#7#}\<rparr>, td))"
  by (simp add: info_ops_def DefaultMutex_ops_def Mutex_ops_def ErrorCheckingMutex_ops_def Mutex_Unlock_def
      ErrorCheckingMutex_Unlock_def sample_threads_defs posix_unlock_def)

lemma thread_idle_simps [simp]:
  "pw_mine thread_idle = {#}" "pw_others thread_idle = {#}" "tw_requests thread_idle = []" "info_mtx (sample_threads nd) = 7"
  "ndebug (sample_threads nd) = nd"
  by (simp_all add: thread_idle_def posix_world.defs posix_idle_def sample_threads_defs)

theorem InterruptionPoint_delivers_witness:
  "\<exists>w'. InterruptionPoint (sample_threads False) (thread_idle, Some (InterruptionInfo_ctor\<lparr>interruptionRequested := True\<rparr>))
     = Some (Exc ThreadInterrupted (w', Some InterruptionInfo_ctor)) \<and> pw_mine w' = {#}"
proof -
  let ?i = "InterruptionInfo_ctor\<lparr>interruptionRequested := True\<rparr>"
  have r: "InterruptionPoint (sample_threads False) (thread_idle, Some ?i)
      = Some (Exc ThreadInterrupted (thread_idle\<lparr>pw_mine := {#}\<rparr>, Some InterruptionInfo_ctor))"
    unfolding InterruptionPoint_def
    by (simp add: IsInterruptionEnabled_def InterruptionRequest_def with_guard_eval sample_info_lock sample_info_unlock
        InterruptionInfo_ctor_def)
  show ?thesis
    using InterruptionPoint_delivers[OF sample.interruptible_threads_axioms r] r by auto
qed

fun unrestored :: "guarded_code \<Rightarrow> bool" where
  "unrestored Point = True"
| "unrestored (Seq c d) = (unrestored c \<and> unrestored d)"
| "unrestored (Disabled c) = unrestored c"
| "unrestored (Restored c) = False"

lemma run_code_quiet:
  assumes "\<not> interruptionEnabled i" "unrestored c"
  shows "run_code api k c (w, Some i) = Some (Ret () (w, Some i))"
proof -
  have set: "i\<lparr>interruptionEnabled := False\<rparr> = i" using assms(1) by (cases i) simp
  show ?thesis using assms(2)
    by (induction c arbitrary: k) (simp_all add: assms(1) set InterruptionPoint_def IsInterruptionEnabled_def with_disabled_def
        DisableInterruptionGuard_ctor_def DisableInterruptionGuard_dtor_def SetInterruptionEnabled_def scoped_def)
qed

lemma Disabled_quiet:
  assumes "unrestored c"
  shows "run_code api k (Disabled c) (w, Some i) = Some (Ret () (w, Some i))"
proof -
  have "run_code api (interruptionEnabled i) c (w, Some (i\<lparr>interruptionEnabled := False\<rparr>))
      = Some (Ret () (w, Some (i\<lparr>interruptionEnabled := False\<rparr>)))"
    by (rule run_code_quiet) (simp_all add: assms)
  moreover have "\<not> interruptionEnabled i \<Longrightarrow> i\<lparr>interruptionEnabled := False\<rparr> = i" by (cases i) simp
  moreover have "interruptionEnabled i \<Longrightarrow> i\<lparr>interruptionEnabled := True\<rparr> = i" by (cases i) simp
  ultimately show ?thesis
    by (cases "interruptionEnabled i") (simp_all add: with_disabled_def IsInterruptionEnabled_def
        DisableInterruptionGuard_ctor_def DisableInterruptionGuard_dtor_def SetInterruptionEnabled_def scoped_def)
qed

text \<open>C5: the interruption guards nest.  Whatever points and guards a piece of code has, and however it is
  left, the thread ends with interruption enabled exactly when it was, with the same registered condition
  variable and the same locks; the only exceptions are interruptions and failures to lock.  When
  interruption is disabled at the start, the code does nothing at all, and a block with a
  \<open>DisableInterruptionGuard\<close> and no \<open>RestoreInterruptionGuard\<close> is never interrupted.\<close>

theorem interruption_guards_nest:
  assumes os: "interruptible_threads api held mtx kept" and wn: "well_nested False c"
    and r: "run_code api False c (w, Some i) = Some r"
  shows "held (fst (res_state r)) = held w
    \<and> data_is (interruptionEnabled i) (pWaitingConditionVariable i) (snd (res_state r))
    \<and> (r = Ret () (res_state r) \<or> (\<exists>e. r = Exc e (res_state r) \<and> (e = ThreadInterrupted \<or> lock_failure e)))
    \<and> (\<not> interruptionEnabled i \<longrightarrow> r = Ret () (w, Some i))
    \<and> (\<forall>d k. unrestored d \<longrightarrow> run_code api k (Disabled d) (w, Some i) = Some (Ret () (w, Some i)))"
  using interruptible_threads.run_code_outcome[OF os wn r] run_code_disabled[of i api c w] Disabled_quiet r by auto

theorem interruption_guards_nest_witness:
  "\<exists>w'. run_code (sample_threads False) False (Seq (Disabled (Seq Point (Restored Point))) Point)
      (thread_idle, Some (InterruptionInfo_ctor\<lparr>interruptionRequested := True\<rparr>))
     = Some (Exc ThreadInterrupted (w', Some InterruptionInfo_ctor)) \<and> pw_mine w' = {#}"
proof -
  let ?i = "InterruptionInfo_ctor\<lparr>interruptionRequested := True\<rparr>"
  have r: "run_code (sample_threads False) False (Seq (Disabled (Seq Point (Restored Point))) Point) (thread_idle, Some ?i)
      = Some (Exc ThreadInterrupted (thread_idle\<lparr>pw_mine := {#}\<rparr>, Some InterruptionInfo_ctor))"
    by (simp add: IsInterruptionEnabled_def InterruptionRequest_def with_guard_eval sample_info_lock sample_info_unlock
        InterruptionInfo_ctor_def InterruptionPoint_def with_disabled_def with_restored_def scoped_def
        DisableInterruptionGuard_ctor_def DisableInterruptionGuard_dtor_def SetInterruptionEnabled_def
        RestoreInterruptionGuard_ctor_def RestoreInterruptionGuard_dtor_def)
  show ?thesis
    using interruption_guards_nest[OF sample.interruptible_threads_axioms _ r] r by auto
qed

text \<open>How long \<open>SleepFor\<close> sleeps.  When no signal arrives, a call with \<open>relTime\<close> milliseconds sleeps
  \<open>rounds relTime\<close> times 25 milliseconds: at most 25 too long when \<open>relTime\<close> is at most 25, and always less
  than asked when it is more.  A negative argument is refused.  (Above 2147483597 the counter of the loop
  overflows \<open>int\<close>.)\<close>

theorem SleepFor_duration:
  assumes u: "undisturbed api clock quiet" and q: "quiet w" and range: "relTime \<le> 2147483597"
  shows "(relTime < 0 \<longrightarrow> SleepFor api relTime (w, None) = Some (Exc InvalidArgument (w, None)))
    \<and> (0 \<le> relTime \<longrightarrow> (\<exists>w'. SleepFor api relTime (w, None) = Some (Ret () (w', None))
        \<and> clock w' - clock w = (if relTime = 0 then 0 else rounds relTime * 25000000)
        \<and> (25 < relTime \<longrightarrow> clock w' - clock w < relTime * 1000000 \<and> (relTime - 25) * 1000000 \<le> clock w' - clock w)))"
proof (intro conjI impI)
  assume "relTime < 0" then show "SleepFor api relTime (w, None) = Some (Exc InvalidArgument (w, None))"
    by (simp add: SleepFor_def)
next
  assume pos: "0 \<le> relTime"
  show "\<exists>w'. SleepFor api relTime (w, None) = Some (Ret () (w', None))
        \<and> clock w' - clock w = (if relTime = 0 then 0 else rounds relTime * 25000000)
        \<and> (25 < relTime \<longrightarrow> clock w' - clock w < relTime * 1000000 \<and> (relTime - 25) * 1000000 \<le> clock w' - clock w)"
  proof (cases "relTime = 0")
    case True
    obtain w' where "nap api \<lparr>tv_sec = 0, tv_nsec = 0\<rparr> w = Some (Ret () w')" "clock w' = clock w"
      using nap_eval[OF u q] by (force simp: nanoseconds_def)
    then show ?thesis using True by (auto simp: SleepFor_def InterruptionPoint_adopted)
  next
    case False
    obtain w' where w': "sleep_rounds api relTime 0 (w, None) = Some (Ret () (w', None))"
      "clock w' = clock w + rounds (relTime - 0) * 25000000"
      using sleep_rounds_eval[OF u q] by blast
    have "25 < relTime \<Longrightarrow> rounds relTime * 25 < relTime \<and> relTime - 25 \<le> rounds relTime * 25"
      by (simp add: rounds_def max_def) presburger
    then show ?thesis
      using w' False pos by (auto simp: SleepFor_def InterruptionPoint_adopted Let_def)
  qed
qed

theorem SleepFor_duration_witness:
  "\<exists>w'. SleepFor (sample_threads True) 100 (thread_idle, None) = Some (Ret () (w', None)) \<and> tw_nanos w' = 75000000"
proof -
  have "undisturbed (sample_threads True) tw_nanos (\<lambda>w. tw_signals w = 0)"
    by (auto simp: undisturbed_def sample_threads_defs sample_nanosleep_def)
  moreover have "tw_signals thread_idle = 0" "tw_nanos thread_idle = 0" by (simp_all add: thread_idle_def posix_world.defs)
  ultimately show ?thesis
    using SleepFor_duration[of "sample_threads True" tw_nanos "\<lambda>w. tw_signals w = 0" thread_idle 100] by (auto simp: rounds_def)
qed

end
