(* ===== verification/ConditionVariables.thy ===== *)
theory ConditionVariables
imports Interruption
begin

text \<open>
  Condition variables: the pthread functions behind \<open>ConditionVariable\<close>
  (\<open>src/base/condition_variable_pthread.cpp\<close>), the waits with their interruption points
  (\<open>src/base/condition_variable.cpp\<close>, \<open>include/cppdevtk/base/condition_variable.hpp\<close>) and
  \<open>ConditionVariableAny\<close>.  A condition variable is its address.  The waits only read the \<open>UniqueLock\<close>
  they get, which is passed by value.  \<open>ConditionVariableAny::WaitFor\<close> without a predicate ends without a
  \<open>return\<close> and is not modelled.
\<close>

datatype cv_status = no_timeout | timeout

section \<open>The pthread condition variable\<close>

definition ConditionVariable_ctor :: "('w, 'x) thread_api_scheme \<Rightarrow> nat \<Rightarrow> (exn, unit, 'w) prog" where
  "ConditionVariable_ctor api cv = bind (call (os_cond_init api cv)) (\<lambda>kRetCode.
     if kRetCode = ESUCCESS then ret ()
     else if kRetCode = ENOMEM then throw bad_alloc
     else andthen (assertion api (kRetCode \<noteq> EINTR)) (andthen (assertion api (kRetCode \<noteq> EINVAL))
       (throw (LockExc (MakeSystemErrorCode kRetCode)))))"

definition ConditionVariable_dtor :: "('w, 'x) thread_api_scheme \<Rightarrow> nat \<Rightarrow> (exn, unit, 'w) prog" where
  "ConditionVariable_dtor api cv = noexcept (bind (call (os_cond_destroy api cv)) (\<lambda>kRetCode.
     if kRetCode \<noteq> ESUCCESS then
       andthen (assertion api (kRetCode \<noteq> EINTR)) (andthen (assertion api (kRetCode \<noteq> EINVAL))
         (andthen (assertion api (kRetCode \<noteq> EBUSY)) (assertion api False)))
     else ret ()))"

definition NotifyOne :: "('w, 'x) thread_api_scheme \<Rightarrow> nat \<Rightarrow> (exn, unit, 'w) prog" where
  "NotifyOne api cv = noexcept (bind (call (os_cond_signal api cv)) (\<lambda>kRetCode.
     if kRetCode \<noteq> ESUCCESS then
       andthen (assertion api (kRetCode \<noteq> EINTR)) (andthen (assertion api (kRetCode \<noteq> EINVAL)) (assertion api False))
     else ret ()))"

definition NotifyAll :: "('w, 'x) thread_api_scheme \<Rightarrow> nat \<Rightarrow> (exn, unit, 'w) prog" where
  "NotifyAll api cv = noexcept (bind (call (os_cond_broadcast api cv)) (\<lambda>kRetCode.
     if kRetCode \<noteq> ESUCCESS then
       andthen (assertion api (kRetCode \<noteq> EINTR)) (andthen (assertion api (kRetCode \<noteq> EINVAL)) (assertion api False))
     else ret ()))"

definition DoWait :: "('w, 'x) thread_api_scheme \<Rightarrow> nat \<Rightarrow> nat unique_lock \<Rightarrow> (exn, unit, 'w) prog" where
  "DoWait api cv uniqueLock = andthen (assertion api (ownsLock uniqueLock))
     (bind (call_blocking (os_cond_wait api cv (the (pMutex uniqueLock)))) (\<lambda>kRetCode.
       if kRetCode \<noteq> ESUCCESS then
         andthen (assertion api (kRetCode \<noteq> EINTR)) (andthen (assertion api (kRetCode \<noteq> EINVAL))
           (throw (LockExc (MakeSystemErrorCode kRetCode))))
       else ret ()))"

definition DoWaitFor :: "('w, 'x) thread_api_scheme \<Rightarrow> nat \<Rightarrow> nat unique_lock \<Rightarrow> int \<Rightarrow> (exn, cv_status, 'w) prog" where
  "DoWaitFor api cv uniqueLock relTime = andthen (assertion api (ownsLock uniqueLock))
     (bind (RelTimeToAbsTime api relTime) (\<lambda>kAbsTime.
      bind (call_blocking (os_cond_timedwait api cv (the (pMutex uniqueLock)) kAbsTime)) (\<lambda>kRetCode.
        if kRetCode = ESUCCESS then ret no_timeout
        else if kRetCode = ETIMEDOUT then ret timeout
        else andthen (assertion api (kRetCode \<noteq> EINTR)) (throw (LockExc (MakeSystemErrorCode kRetCode))))))"

section \<open>Waits with interruption points\<close>

text \<open>Registering the condition variable a thread waits for, and the block during which it is registered.\<close>

definition register :: "('w, 'x) thread_api_scheme \<Rightarrow> nat option \<Rightarrow> (unit, 'w) tprog" where
  "register api cv = bind (this (\<lambda>td. td \<noteq> None)) (\<lambda>own. if own then SetWaitingConditionVariable api cv else ret ())"

definition waiting_on :: "('w, 'x) thread_api_scheme \<Rightarrow> nat \<Rightarrow> (cv_status, 'w) tprog \<Rightarrow> (cv_status, 'w) tprog" where
  "waiting_on api cv wait = andthen (InterruptionPoint api) (andthen (register api (Some cv))
     (scoped (andthen (InterruptionPoint api) (bind wait (\<lambda>kRetValue. andthen (InterruptionPoint api) (ret kRetValue))))
       (register api None)))"

definition Wait :: "('w, 'x) thread_api_scheme \<Rightarrow> nat \<Rightarrow> nat unique_lock \<Rightarrow> (unit, 'w) tprog" where
  "Wait api cv uniqueLock = andthen (check (ownsLock uniqueLock) LogicError)
     (andthen (waiting_on api cv (env (DoWaitFor api cv uniqueLock CHECK_INTERRUPT_REL_TIME))) (ret ()))"

definition WaitFor :: "('w, 'x) thread_api_scheme \<Rightarrow> nat \<Rightarrow> nat unique_lock \<Rightarrow> int \<Rightarrow> (cv_status, 'w) tprog" where
  "WaitFor api cv uniqueLock relTime = andthen (check (ownsLock uniqueLock) LogicError)
     (waiting_on api cv (env (if relTime > 0 then DoWaitFor api cv uniqueLock CHECK_INTERRUPT_REL_TIME
        else DoWaitFor api cv uniqueLock relTime)))"

definition WaitUntil :: "('w, 'x) thread_api_scheme \<Rightarrow> nat \<Rightarrow> nat unique_lock \<Rightarrow> int \<Rightarrow> (cv_status, 'w) tprog" where
  "WaitUntil api cv uniqueLock absTime = bind (env (GetCurrentTime api)) (\<lambda>kCurrTime.
     let kSeconds = absTime - kCurrTime in WaitFor api cv uniqueLock (to_int (kSeconds * 1000)))"

text \<open>The overloads with a predicate.\<close>

partial_function (option) wait_loop :: "(bool, 'w) tprog \<Rightarrow> (unit, 'w) tprog \<Rightarrow> 'w \<times> interruption_info option
    \<Rightarrow> (exn, unit, 'w \<times> interruption_info option) res option" where
  [code]: "wait_loop predicate wait s = bind predicate (\<lambda>b s. if b then ret () s
     else bind wait (\<lambda>_ s. wait_loop predicate wait s) s) s"

definition Wait_pred :: "('w, 'x) thread_api_scheme \<Rightarrow> nat \<Rightarrow> nat unique_lock \<Rightarrow> (bool, 'w) tprog \<Rightarrow> (unit, 'w) tprog" where
  "Wait_pred api cv uniqueLock predicate = andthen (check (ownsLock uniqueLock) LogicError)
     (andthen (InterruptionPoint api) (andthen (wait_loop predicate (Wait api cv uniqueLock)) (InterruptionPoint api)))"

text \<open>The loop of \<open>WaitFor\<close> returns the value of the predicate after a timeout, true otherwise; both
  exits pass an interruption point.\<close>

partial_function (option) wait_for_loop :: "(bool, 'w) tprog \<Rightarrow> (cv_status, 'w) tprog \<Rightarrow> 'w \<times> interruption_info option
    \<Rightarrow> (exn, bool, 'w \<times> interruption_info option) res option" where
  [code]: "wait_for_loop predicate wait s = bind predicate (\<lambda>b s. if b then ret True s
     else bind wait (\<lambda>st s. if st = timeout then predicate s else wait_for_loop predicate wait s) s) s"

definition WaitFor_pred :: "('w, 'x) thread_api_scheme \<Rightarrow> nat \<Rightarrow> nat unique_lock \<Rightarrow> int \<Rightarrow> (bool, 'w) tprog \<Rightarrow> (bool, 'w) tprog" where
  "WaitFor_pred api cv uniqueLock relTime predicate = andthen (check (ownsLock uniqueLock) LogicError)
     (andthen (InterruptionPoint api) (bind (wait_for_loop predicate (WaitFor api cv uniqueLock relTime))
       (\<lambda>kRetValue. andthen (InterruptionPoint api) (ret kRetValue))))"

definition WaitUntil_pred :: "('w, 'x) thread_api_scheme \<Rightarrow> nat \<Rightarrow> nat unique_lock \<Rightarrow> int \<Rightarrow> (bool, 'w) tprog \<Rightarrow> (bool, 'w) tprog" where
  "WaitUntil_pred api cv uniqueLock absTime predicate = bind (env (GetCurrentTime api)) (\<lambda>kCurrTime.
     let kSeconds = absTime - kCurrTime in WaitFor_pred api cv uniqueLock (to_int (kSeconds * 1000)) predicate)"

section \<open>ConditionVariableAny\<close>

text \<open>\<open>pMtx\<close> is the internal mutex, \<open>lops\<close> the operations of the caller's lock \<open>l\<close>.\<close>

definition thread_ops :: "('l, 'w, 'x) lock_ops_scheme \<Rightarrow> ('l, 'w \<times> 'o) lock_ops" where
  "thread_ops ops = \<lparr>lk_lock = \<lambda>m. env (lk_lock ops m), lk_try = \<lambda>m. env (lk_try ops m), lk_unlock = \<lambda>m. env (lk_unlock ops m)\<rparr>"

text \<open>Unlocking the internal mutex, with the caller's lock taken again when that throws.\<close>

definition unlock_or_relock :: "(nat, 'v, 'x) lock_ops_scheme \<Rightarrow> ('l, 'v, 'y) lock_ops_scheme \<Rightarrow> 'l \<Rightarrow> (exn, unit, 'v \<times> nat unique_lock) prog" where
  "unlock_or_relock ops lops l = catch (UniqueLock_Unlock ops) (\<lambda>e. andthen (env (lk_lock lops l)) (throw e))"

definition Any_Wait :: "('w, 'x) thread_api_scheme \<Rightarrow> nat \<Rightarrow> nat \<Rightarrow> ('l, 'w \<times> interruption_info option, 'y) lock_ops_scheme \<Rightarrow> 'l
    \<Rightarrow> (unit, 'w) tprog" where
  "Any_Wait api pMtx cv lops l = (let ops = thread_ops (Mutex_ops api) in
     andthen (InterruptionPoint api) (with_unique_lock ops pMtx
       (andthen (env (lk_unlock lops l))
       (andthen (catch (bind (this id) (\<lambda>uniqueLock. env (Wait api cv uniqueLock)))
          (\<lambda>exc. bind UniqueLock_OwnsLock (\<lambda>owns.
             if owns then andthen (unlock_or_relock ops lops l) (andthen (env (lk_lock lops l)) (throw exc))
             else andthen (env (lk_lock lops l)) (throw exc))))
       (andthen (unlock_or_relock ops lops l)
       (andthen (env (lk_lock lops l)) (env (InterruptionPoint api))))))))"

definition Any_NotifyOne :: "('w, 'x) thread_api_scheme \<Rightarrow> nat \<Rightarrow> nat \<Rightarrow> (exn, unit, 'w) prog" where
  "Any_NotifyOne api pMtx cv = noexcept (local_object (UniqueLock_defer pMtx) (ret ())
     (andthen (catch (UniqueLock_Lock (Mutex_ops api)) (\<lambda>_. ret ())) (env (NotifyOne api cv)))
     (UniqueLock_dtor (Mutex_ops api)))"

definition Any_NotifyAll :: "('w, 'x) thread_api_scheme \<Rightarrow> nat \<Rightarrow> nat \<Rightarrow> (exn, unit, 'w) prog" where
  "Any_NotifyAll api pMtx cv = noexcept (local_object (UniqueLock_defer pMtx) (ret ())
     (andthen (catch (UniqueLock_Lock (Mutex_ops api)) (\<lambda>_. ret ())) (env (NotifyAll api cv)))
     (UniqueLock_dtor (Mutex_ops api)))"

section \<open>The contract of the pthread functions\<close>

locale condition_vars = interruptible_threads api held mtx kept
  for api :: "('w, 'x) thread_api_scheme" and held :: "'w \<Rightarrow> nat multiset" and mtx :: nat and kept :: "'w \<Rightarrow> 'd" +
  assumes timedwait_law: "os_cond_timedwait api cv m t w = Some (rc, w') \<Longrightarrow> m \<in># held w \<Longrightarrow> held w' = held w \<and> rc \<noteq> EINTR"
    and clock_kept: "os_clock_gettime api w = (r, w') \<Longrightarrow> mtx \<in># held w \<Longrightarrow> kept w' = kept w"
    and time_kept: "os_time api w = (n, w') \<Longrightarrow> mtx \<in># held w \<Longrightarrow> kept w' = kept w"
    and signal_law: "os_cond_signal api cv w = (rc, w') \<Longrightarrow> rc = ESUCCESS \<and> held w' = held w"
    and broadcast_law: "os_cond_broadcast api cv w = (rc, w') \<Longrightarrow> rc = ESUCCESS \<and> held w' = held w"
    and info_lock_ok: "os_mutex_lock api (info_mtx api) w = Some (rc, w') \<Longrightarrow> info_mtx api \<notin># held w \<Longrightarrow> rc = ESUCCESS"

text \<open>The data of a thread that waits for \<open>p\<close>; \<open>own\<close> is none for a thread without data and tells whether
  its interruption is enabled.\<close>

definition registered :: "bool option \<Rightarrow> nat option \<Rightarrow> interruption_info option \<Rightarrow> bool" where
  "registered own p td = (case own of None \<Rightarrow> td = None | Some e \<Rightarrow> data_is e p td)"

lemma registered_seen: "registered own p td \<Longrightarrow> seen td td' \<Longrightarrow> registered own p td'"
  by (auto simp: registered_def data_is_def seen_def split: option.splits)

lemma registered_own: "registered own p td \<Longrightarrow> (td \<noteq> None) = (own \<noteq> None)"
  by (auto simp: registered_def data_is_def split: option.splits)

context condition_vars begin

lemma info_lock_ok_spec:
  assumes "info_mtx api \<notin># H"
  shows "triple (at H d (\<lambda>t. t = td)) (lk_lock (info_ops api) (info_mtx api))
    (\<lambda>_. at (add_mset (info_mtx api) H) d (seen td)) (\<lambda>_ _. False)"
proof -
  have c: "triple (keeps H d) (call_blocking (os_mutex_lock api (info_mtx api)))
      (\<lambda>rc w. rc = ESUCCESS \<and> keeps (add_mset (info_mtx api) H) d w) (\<lambda>_ _. False)"
  proof (rule triple_call_blocking)
    fix w rc w' assume w: "keeps H d w" and l: "os_mutex_lock api (info_mtx api) w = Some (rc, w')"
    show "rc = ESUCCESS \<and> keeps (add_mset (info_mtx api) H) d w'"
      using info_lock_ok[OF l] lock_law[OF l] lock_kept[OF l] w assms info_mtx_private by (auto simp: keeps_def)
  qed
  have "triple (keeps H d) (lk_lock (DefaultMutex_ops api) (info_mtx api)) (\<lambda>_. keeps (add_mset (info_mtx api) H) d) (\<lambda>_ _. False)"
    unfolding DefaultMutex_ops_def Mutex_ops_def ErrorCheckingMutex_ops_def
    by (simp add: Mutex_Lock_def ErrorCheckingMutex_Lock_def) (intro conjI impI triple_bind[OF c]; auto simp: triple_def)
  from triple_env_frame[OF this, of "\<lambda>t. t = td"] show ?thesis
    by (simp add: info_ops_def triple_bind[OF triple_conseq observe_requests_spec])
qed

lemma point_ok:
  assumes "info_mtx api \<notin># H"
  shows "triple (at H d (registered own p)) (InterruptionPoint api) (\<lambda>_. at H d (registered own p))
     (\<lambda>e. at H d (\<lambda>t. registered own p t \<and> e = ThreadInterrupted))"
proof (rule triple_pre)
  fix s assume s: "at H d (registered own p) s"
  show "triple (\<lambda>s'. s' = s) (InterruptionPoint api) (\<lambda>_. at H d (registered own p))
     (\<lambda>e. at H d (\<lambda>t. registered own p t \<and> e = ThreadInterrupted))"
  proof (cases "\<exists>i. snd s = Some i \<and> interruptionEnabled i")
    case True
    then obtain w i where i: "s = (w, Some i)" "interruptionEnabled i" by (cases s) auto
    have "InterruptionPoint api s = InterruptionRequest api s"
      using i by (simp add: InterruptionPoint_def IsInterruptionEnabled_def)
    moreover have "triple (at H d (\<lambda>t. t = Some i)) (InterruptionRequest api)
        (\<lambda>_. at H d (\<lambda>t. t = Some i)) (\<lambda>e. at H d (\<lambda>t. e = ThreadInterrupted \<and> t = Some (i\<lparr>interruptionRequested := False\<rparr>)))"
      unfolding InterruptionRequest_def
      by (rule with_info_guard_at[OF triple_conseq[OF info_lock_ok_spec[OF assms]] triple_conseq[OF request_body_spec]]) auto
    ultimately have "triple (\<lambda>s'. s' = s) (InterruptionPoint api)
        (\<lambda>_. at H d (\<lambda>t. t = Some i)) (\<lambda>e. at H d (\<lambda>t. e = ThreadInterrupted \<and> t = Some (i\<lparr>interruptionRequested := False\<rparr>)))"
      by (rule triple_at_state) (use s i in simp)
    then show ?thesis
      by (rule triple_conseq) (use s i in \<open>auto simp: registered_def data_is_def split: option.splits\<close>)
  next
    case False
    then have "InterruptionPoint api s = Some (Ret () s)"
      by (cases s) (auto simp: InterruptionPoint_def IsInterruptionEnabled_def split: option.splits)
    then show ?thesis using s by (simp add: triple_def)
  qed
qed

lemma register_ok:
  assumes "info_mtx api \<notin># H"
  shows "triple (at H d (registered own p)) (register api q) (\<lambda>_. at H d (registered own q)) (\<lambda>_ _. False)"
proof (rule triple_pre)
  fix s assume s: "at H d (registered own p) s"
  show "triple (\<lambda>s'. s' = s) (register api q) (\<lambda>_. at H d (registered own q)) (\<lambda>_ _. False)"
  proof (cases "snd s")
    case None
    then have "register api q s = Some (Ret () s)" by (cases s) (simp add: register_def)
    then show ?thesis using s None by (auto simp: triple_def registered_def data_is_def split: option.splits)
  next
    case (Some i)
    have "triple (at H d (\<lambda>t. t = Some i)) (SetWaitingConditionVariable api q) (\<lambda>_. at H d (registered own q)) (\<lambda>e. at H d (\<lambda>_. False))"
      unfolding SetWaitingConditionVariable_def
    proof (rule with_info_guard_at[OF triple_conseq[OF info_lock_ok_spec[OF assms]]])
      fix td' assume "seen (Some i) td'"
      then have "registered own q (map_option (pWaitingConditionVariable_update (\<lambda>_. q)) td')"
        using s Some by (auto simp: registered_def data_is_def seen_def split: option.splits)
      then show "triple (at (add_mset (info_mtx api) H) d (\<lambda>t. t = td')) (modify (map_option (pWaitingConditionVariable_update (\<lambda>_. q))))
          (\<lambda>_. at (add_mset (info_mtx api) H) d (registered own q)) (\<lambda>e. at (add_mset (info_mtx api) H) d (\<lambda>_. False))"
        by (intro triple_modify) auto
    qed auto
    then have set: "triple (at H d (\<lambda>t. t = Some i)) (SetWaitingConditionVariable api q) (\<lambda>_. at H d (registered own q)) (\<lambda>_ _. False)"
      by simp
    have "register api q s = SetWaitingConditionVariable api q s"
      using Some by (cases s) (simp add: register_def)
    then show ?thesis by (rule triple_at_state[OF _ set]) (use s Some in simp)
  qed
qed

text \<open>Waiting releases the mutex in between: its data may be another afterwards.\<close>

abbreviation somewhere :: "nat multiset \<Rightarrow> (interruption_info option \<Rightarrow> bool) \<Rightarrow> 'w \<times> interruption_info option \<Rightarrow> bool" where
  "somewhere H T s \<equiv> \<exists>d. at H d T s"

lemma triple_ex: "(\<And>d. triple (P d) m Q E) \<Longrightarrow> triple (\<lambda>s. \<exists>d. P d s) m Q E"
  by (fastforce simp: triple_def)

lemma point_somewhere:
  "info_mtx api \<notin># H \<Longrightarrow> triple (somewhere H (registered own p)) (InterruptionPoint api) (\<lambda>_. somewhere H (registered own p))
     (\<lambda>e. somewhere H (\<lambda>t. registered own p t \<and> e = ThreadInterrupted))"
  by (rule triple_ex, rule triple_conseq[OF point_ok]) auto

lemma DoWaitFor_spec:
  assumes "ownsLock uniqueLock" "pMutex uniqueLock = Some m" "m \<in># H"
  shows "triple (\<lambda>w. held w = H) (DoWaitFor api cv uniqueLock relTime) (\<lambda>_ w. held w = H) (\<lambda>_ w. held w = H)"
proof -
  have clock: "triple (\<lambda>w. held w = H) (RelTimeToAbsTime api relTime) (\<lambda>_ w. held w = H) (\<lambda>_ w. held w = H)"
    by (auto simp: triple_def RelTimeToAbsTime_def Let_def split: prod.splits if_splits dest: clock_law)
  have wait: "triple (\<lambda>w. held w = H) (call_blocking (os_cond_timedwait api cv m t)) (\<lambda>rc w. held w = H \<and> rc \<noteq> EINTR) E" for t E
    by (rule triple_call_blocking) (use assms(3) in \<open>auto dest: timedwait_law\<close>)
  show ?thesis
    unfolding DoWaitFor_def
    by (simp add: assms cpp_assert_def) (rule triple_bind[OF _ triple_bind[OF clock triple_bind[OF wait]]]; auto simp: triple_def assms)
qed

lemma waiting_on_spec:
  assumes info: "info_mtx api \<notin># H"
    and wait: "triple (somewhere H (registered own (Some cv))) wait
      (\<lambda>_. somewhere H (registered own (Some cv))) (\<lambda>_. somewhere H (registered own (Some cv)))"
  shows "triple (somewhere H (registered own None)) (waiting_on api cv wait)
    (\<lambda>_. somewhere H (registered own None)) (\<lambda>_. somewhere H (registered own None))"
proof -
  have unregister: "triple (somewhere H (registered own (Some cv))) (register api None) (\<lambda>_. somewhere H (registered own None)) (\<lambda>_ _. False)"
    by (rule triple_ex, rule triple_conseq[OF register_ok[OF info]]) auto
  have set: "triple (somewhere H (registered own None)) (register api (Some cv)) (\<lambda>_. somewhere H (registered own (Some cv))) (\<lambda>_ _. False)"
    by (rule triple_ex, rule triple_conseq[OF register_ok[OF info]]) auto
  have pt: "triple (somewhere H (registered own p)) (InterruptionPoint api) (\<lambda>_. somewhere H (registered own p)) (\<lambda>_. somewhere H (registered own p))" for p
    by (rule triple_conseq[OF point_somewhere[OF info]]) auto
  have "triple (somewhere H (registered own (Some cv)))
      (andthen (InterruptionPoint api) (bind wait (\<lambda>kRetValue. andthen (InterruptionPoint api) (ret kRetValue))))
      (\<lambda>_. somewhere H (registered own (Some cv))) (\<lambda>_. somewhere H (registered own (Some cv)))"
    by (rule triple_bind[OF pt triple_bind[OF wait triple_bind[OF pt triple_ret]]])
  moreover have "triple (\<lambda>s. somewhere H (registered own (Some cv)) s \<and> (\<forall>s'. somewhere H (registered own None) s' \<longrightarrow> R s'))
      (register api None) (\<lambda>_. R) (\<lambda>_ _. False)" for R
    by (rule triple_pre, rule triple_conseq[OF unregister]; blast)
  ultimately have "triple (somewhere H (registered own (Some cv)))
      (scoped (andthen (InterruptionPoint api) (bind wait (\<lambda>kRetValue. andthen (InterruptionPoint api) (ret kRetValue)))) (register api None))
      (\<lambda>_. somewhere H (registered own None)) (\<lambda>_. somewhere H (registered own None))"
    by (intro triple_scoped[where D = "\<lambda>R s. somewhere H (registered own (Some cv)) s \<and> (\<forall>s'. somewhere H (registered own None) s' \<longrightarrow> R s')"])
       simp_all
  then show ?thesis
    unfolding waiting_on_def by (intro triple_bind[OF pt triple_bind[OF triple_conseq[OF set]]]) auto
qed

lemma Wait_spec:
  assumes "info_mtx api \<notin># H" "ownsLock uniqueLock" "pMutex uniqueLock = Some m" "m \<in># H"
  shows "triple (somewhere H (registered own None)) (Wait api cv uniqueLock)
    (\<lambda>_. somewhere H (registered own None)) (\<lambda>_. somewhere H (registered own None))"
    and "triple (somewhere H (registered own None)) (WaitFor api cv uniqueLock relTime)
    (\<lambda>_. somewhere H (registered own None)) (\<lambda>_. somewhere H (registered own None))"
proof -
  have do: "triple (somewhere H T) (env (DoWaitFor api cv uniqueLock r)) (\<lambda>_. somewhere H T) (\<lambda>_. somewhere H T)" for r T
    by (rule triple_conseq[OF triple_env_frame[OF DoWaitFor_spec[OF assms(2-4)]]]) (auto simp: keeps_def)
  show "triple (somewhere H (registered own None)) (Wait api cv uniqueLock)
    (\<lambda>_. somewhere H (registered own None)) (\<lambda>_. somewhere H (registered own None))"
    unfolding Wait_def
    by (simp only: assms(2) check_True bind_ret_left) (rule triple_bind[OF waiting_on_spec[OF assms(1) do] triple_ret])
  show "triple (somewhere H (registered own None)) (WaitFor api cv uniqueLock relTime)
    (\<lambda>_. somewhere H (registered own None)) (\<lambda>_. somewhere H (registered own None))"
    unfolding WaitFor_def
    by (simp only: assms(2) check_True bind_ret_left) (rule waiting_on_spec[OF assms(1)], cases "relTime > 0"; simp only: if_True if_False do)
qed

end

section \<open>The loops\<close>

lemma triple_app: "triple P m Q E \<Longrightarrow> P s \<Longrightarrow> m s = Some r \<Longrightarrow>
    (case r of Ret a s' \<Rightarrow> Q a s' | Exc e s' \<Rightarrow> E e s' | Term _ \<Rightarrow> False)"
  by (simp add: triple_def)

lemma triple_wait_loop:
  assumes pred: "triple I predicate (\<lambda>b s. if b then Q s else I s) E" and wait: "triple I wait (\<lambda>_. I) E"
  shows "triple I (wait_loop predicate wait) (\<lambda>_. Q) E"
proof -
  have "p = predicate \<longrightarrow> v = wait \<longrightarrow> I s \<longrightarrow> (case r of Ret a s' \<Rightarrow> Q s' | Exc e s' \<Rightarrow> E e s' | Term _ \<Rightarrow> False)"
    if "wait_loop p v s = Some r" for p v s r
  proof (rule wait_loop.raw_induct[OF _ that])
    fix loop p v s r
    assume IH: "\<And>p v s r. loop p v s = Some r \<Longrightarrow> p = predicate \<longrightarrow> v = wait \<longrightarrow> I s \<longrightarrow>
          (case r of Ret a s' \<Rightarrow> Q s' | Exc e s' \<Rightarrow> E e s' | Term _ \<Rightarrow> False)"
      and r: "bind p (\<lambda>b s. if b then ret () s else bind v (\<lambda>_ s. loop p v s) s) s = Some r"
    have "triple I (loop predicate wait) (\<lambda>_. Q) E"
      using IH by (simp add: triple_def)
    from triple_bind[OF wait this] have w: "triple I (bind wait (\<lambda>_ s. loop predicate wait s)) (\<lambda>_. Q) E" .
    have body: "triple I (bind predicate (\<lambda>b s. if b then ret () s else bind wait (\<lambda>_ s. loop predicate wait s) s)) (\<lambda>_. Q) E"
    proof (rule triple_bind[OF pred])
      show "triple (\<lambda>s. if b then Q s else I s) (\<lambda>s. if b then ret () s else bind wait (\<lambda>_ s. loop predicate wait s) s) (\<lambda>_. Q) E" for b
        using w by (cases b) (simp_all add: triple_def)
    qed
    show "p = predicate \<longrightarrow> v = wait \<longrightarrow> I s \<longrightarrow> (case r of Ret a s' \<Rightarrow> Q s' | Exc e s' \<Rightarrow> E e s' | Term _ \<Rightarrow> False)"
    proof (intro impI)
      assume pv: "p = predicate" "v = wait" and I: "I s"
      show "case r of Ret a s' \<Rightarrow> Q s' | Exc e s' \<Rightarrow> E e s' | Term _ \<Rightarrow> False"
        by (rule triple_app[OF body I r[unfolded pv]])
    qed
  qed
  then show ?thesis by (simp add: triple_def)
qed

lemma triple_wait_for_loop:
  assumes pred: "triple I predicate (\<lambda>b s. I s \<and> (b \<longrightarrow> Q s)) E" and wait: "triple I wait (\<lambda>_. I) E"
  shows "triple I (wait_for_loop predicate wait) (\<lambda>b s. I s \<and> (b \<longrightarrow> Q s)) E"
proof -
  let ?Q = "\<lambda>b s. I s \<and> (b \<longrightarrow> Q s)"
  have "p = predicate \<longrightarrow> v = wait \<longrightarrow> I s \<longrightarrow> (case r of Ret b s' \<Rightarrow> ?Q b s' | Exc e s' \<Rightarrow> E e s' | Term _ \<Rightarrow> False)"
    if "wait_for_loop p v s = Some r" for p v s r
  proof (rule wait_for_loop.raw_induct[OF _ that])
    fix loop p v s r
    assume IH: "\<And>p v s r. loop p v s = Some r \<Longrightarrow> p = predicate \<longrightarrow> v = wait \<longrightarrow> I s \<longrightarrow>
          (case r of Ret b s' \<Rightarrow> ?Q b s' | Exc e s' \<Rightarrow> E e s' | Term _ \<Rightarrow> False)"
      and r: "bind p (\<lambda>b s. if b then ret True s
        else bind v (\<lambda>st s. if st = timeout then p s else loop p v s) s) s = Some r"
    have loop: "triple I (loop predicate wait) ?Q E"
      using IH by (simp add: triple_def)
    have w: "triple I (bind wait (\<lambda>st s. if st = timeout then predicate s else loop predicate wait s)) ?Q E"
    proof (rule triple_bind[OF wait])
      show "triple I (\<lambda>s. if st = timeout then predicate s else loop predicate wait s) ?Q E" for st
        using loop pred by (cases "st = timeout") simp_all
    qed
    have body: "triple I (bind predicate (\<lambda>b s. if b then ret True s
        else bind wait (\<lambda>st s. if st = timeout then predicate s else loop predicate wait s) s)) ?Q E"
    proof (rule triple_bind[OF pred])
      show "triple (\<lambda>s. I s \<and> (b \<longrightarrow> Q s)) (\<lambda>s. if b then ret True s
        else bind wait (\<lambda>st s. if st = timeout then predicate s else loop predicate wait s) s) ?Q E" for b
        using w by (cases b) (simp_all add: triple_def)
    qed
    show "p = predicate \<longrightarrow> v = wait \<longrightarrow> I s \<longrightarrow> (case r of Ret b s' \<Rightarrow> ?Q b s' | Exc e s' \<Rightarrow> E e s' | Term _ \<Rightarrow> False)"
    proof (intro impI)
      assume pv: "p = predicate" "v = wait" and I: "I s"
      show "case r of Ret b s' \<Rightarrow> ?Q b s' | Exc e s' \<Rightarrow> E e s' | Term _ \<Rightarrow> False"
        by (rule triple_app[OF body I r[unfolded pv]])
    qed
  qed
  then show ?thesis by (simp add: triple_def)
qed

section \<open>Waits under a predicate\<close>

text \<open>A predicate that reads the protected data.\<close>

definition reads :: "('w \<Rightarrow> 'd) \<Rightarrow> ('d \<Rightarrow> bool) \<Rightarrow> (bool, 'w) tprog" where
  "reads kept P = (\<lambda>s. Some (Ret (P (kept (fst s))) s))"

context condition_vars begin

lemma reads_spec:
  assumes "mtx \<in># H"
  shows "triple (somewhere H (registered own None)) (reads kept P)
    (\<lambda>b s. (b \<longrightarrow> (\<exists>d. P d \<and> at H d (registered own None) s)) \<and> somewhere H (registered own None) s) E"
  using assms by (auto simp: triple_def reads_def keeps_def)

lemma holds_after_point:
  assumes "info_mtx api \<notin># H"
  shows "triple (\<lambda>s. \<exists>d. P d \<and> at H d (registered own None) s) (InterruptionPoint api)
    (\<lambda>_ s. \<exists>d. P d \<and> at H d (registered own None) s) (\<lambda>_. somewhere H (registered own None))"
proof (rule triple_ex)
  fix d
  show "triple (\<lambda>s. P d \<and> at H d (registered own None) s) (InterruptionPoint api)
    (\<lambda>_ s. \<exists>d. P d \<and> at H d (registered own None) s) (\<lambda>_. somewhere H (registered own None))"
  proof (cases "P d")
    case True
    show ?thesis by (rule triple_conseq[OF point_ok[OF assms, of d own None]]) (use True in auto)
  qed (simp add: triple_def)
qed

lemma Wait_pred_spec:
  assumes l: "info_mtx api \<notin># H" "ownsLock uniqueLock" "pMutex uniqueLock = Some mtx" "mtx \<in># H"
  shows "triple (somewhere H (registered own None)) (Wait_pred api cv uniqueLock (reads kept P))
    (\<lambda>_ s. \<exists>d. P d \<and> at H d (registered own None) s) (\<lambda>_. somewhere H (registered own None))"
proof -
  have pt: "triple (somewhere H (registered own None)) (InterruptionPoint api) (\<lambda>_. somewhere H (registered own None)) (\<lambda>_. somewhere H (registered own None))"
    by (rule triple_conseq[OF point_somewhere[OF l(1)]]) auto
  have "triple (somewhere H (registered own None)) (wait_loop (reads kept P) (Wait api cv uniqueLock))
    (\<lambda>_ s. \<exists>d. P d \<and> at H d (registered own None) s) (\<lambda>_. somewhere H (registered own None))"
    by (rule triple_wait_loop[OF triple_conseq[OF reads_spec[OF l(4), of own P]] Wait_spec(1)[OF l]]) (auto split: if_splits)
  then have "triple (somewhere H (registered own None))
      (andthen (InterruptionPoint api) (andthen (wait_loop (reads kept P) (Wait api cv uniqueLock)) (InterruptionPoint api)))
    (\<lambda>_ s. \<exists>d. P d \<and> at H d (registered own None) s) (\<lambda>_. somewhere H (registered own None))"
    by (rule triple_bind[OF pt triple_bind[OF _ holds_after_point[OF l(1)]]])
  then show ?thesis by (simp only: Wait_pred_def l(2) check_True bind_ret_left)
qed

lemma WaitFor_pred_spec:
  assumes l: "info_mtx api \<notin># H" "ownsLock uniqueLock" "pMutex uniqueLock = Some mtx" "mtx \<in># H"
  shows "triple (somewhere H (registered own None)) (WaitFor_pred api cv uniqueLock relTime (reads kept P))
    (\<lambda>b s. (b \<longrightarrow> (\<exists>d. P d \<and> at H d (registered own None) s)) \<and> somewhere H (registered own None) s)
    (\<lambda>_. somewhere H (registered own None))"
proof -
  let ?Q = "\<lambda>b s. somewhere H (registered own None) s \<and> (b \<longrightarrow> (\<exists>d. P d \<and> at H d (registered own None) s))"
  have pt: "triple (somewhere H (registered own None)) (InterruptionPoint api) (\<lambda>_. somewhere H (registered own None)) (\<lambda>_. somewhere H (registered own None))"
    by (rule triple_conseq[OF point_somewhere[OF l(1)]]) auto
  have loop: "triple (somewhere H (registered own None)) (wait_for_loop (reads kept P) (WaitFor api cv uniqueLock relTime)) ?Q
     (\<lambda>_. somewhere H (registered own None))"
    by (rule triple_wait_for_loop[OF triple_conseq[OF reads_spec[OF l(4), of own P]] Wait_spec(2)[OF l]]) auto
  have last: "triple (?Q b) (andthen (InterruptionPoint api) (ret b)) ?Q (\<lambda>_. somewhere H (registered own None))" for b
  proof (cases b)
    case True
    have "triple (\<lambda>s. \<exists>d. P d \<and> at H d (registered own None) s) (andthen (InterruptionPoint api) (ret b)) ?Q (\<lambda>_. somewhere H (registered own None))"
      by (rule triple_bind[OF holds_after_point[OF l(1)] triple_ret]) auto
    then show ?thesis by (rule triple_conseq) (use True in auto)
  next
    case False
    show ?thesis by (rule triple_conseq[OF triple_bind[OF pt triple_ret]]) (use False in auto)
  qed
  have "triple (somewhere H (registered own None)) (WaitFor_pred api cv uniqueLock relTime (reads kept P)) ?Q
     (\<lambda>_. somewhere H (registered own None))"
    unfolding WaitFor_pred_def
    by (simp only: l(2) check_True bind_ret_left) (rule triple_bind[OF pt triple_bind[OF loop last]])
  then show ?thesis by (rule triple_conseq) auto
qed

end

section \<open>ConditionVariableAny\<close>

text \<open>The caller's lock is a pthread mutex \<open>l\<close>.  \<open>inside X b\<close>: the thread holds \<open>X\<close>, is not registered, and the
  local \<open>UniqueLock\<close> on the internal mutex owns it when \<open>b\<close>.\<close>

lemma thread_ops_try_lockable:
  assumes "try_lockable ops held"
  shows "try_lockable (thread_ops ops) (\<lambda>s. held (fst s))"
proof
  show "triple (\<lambda>w. held (fst w) = H) (lk_try (thread_ops ops) l) (attempt (\<lambda>s. held (fst s)) H l) (\<lambda>_ w. held (fst w) = H)" for H l
    unfolding thread_ops_def lock_ops.simps
    by (rule triple_conseq[OF triple_env_frame[OF try_lockable.try_spec[OF assms], where T = "\<lambda>_. True"]]) auto
  show "triple (\<lambda>w. held (fst w) = add_mset l H) (lk_unlock (thread_ops ops) l) (\<lambda>_ w. held (fst w) = H) (\<lambda>_ _. False)" for H l
    unfolding thread_ops_def lock_ops.simps
    by (rule triple_conseq[OF triple_env_frame[OF try_lockable.unlock_spec[OF assms], where T = "\<lambda>_. True"]]) auto
qed

context condition_vars begin

abbreviation inside :: "nat \<Rightarrow> bool option \<Rightarrow> nat multiset \<Rightarrow> bool \<Rightarrow> ('w \<times> interruption_info option) \<times> nat unique_lock \<Rightarrow> bool" where
  "inside p own X b s \<equiv> held (fst (fst s)) = X \<and> registered own None (snd (fst s)) \<and> snd s = \<lparr>pMutex = Some p, ownsLock = b\<rparr>"

abbreviation mops :: "(nat, 'w \<times> interruption_info option) lock_ops" where
  "mops \<equiv> thread_ops (Mutex_ops api)"

lemma Mutex_Lock_failure:
  "triple (\<lambda>w. held w = H) (Mutex_Lock api m) (\<lambda>_ w. held w = add_mset m H) (\<lambda>e w. held w = H \<and> lock_failure e)"
  unfolding Mutex_Lock_def by (rule triple_bind[OF lock_call]) (auto simp: triple_def lock_failures)

lemma inside_unlock: "triple (inside p own (add_mset l X) b) (env (lk_unlock mops l)) (\<lambda>_. inside p own X b) (\<lambda>_ _. False)"
  and inside_lock: "triple (inside p own X b) (env (lk_lock mops l)) (\<lambda>_. inside p own (add_mset l X) b) (\<lambda>e s. inside p own X b s \<and> lock_failure e)"
proof -
  have "triple (\<lambda>w. held w = add_mset l X) (lk_unlock (Mutex_ops api) l) (\<lambda>_ w. held w = X) (\<lambda>_ _. False)"
    using Mutex_Unlock_spec by (simp add: Mutex_ops_def)
  from triple_env_frame[OF triple_env_frame[OF this, where T = "registered own None"], where T = "\<lambda>u. u = \<lparr>pMutex = Some p, ownsLock = b\<rparr>"]
  show "triple (inside p own (add_mset l X) b) (env (lk_unlock mops l)) (\<lambda>_. inside p own X b) (\<lambda>_ _. False)"
    by (simp add: thread_ops_def conj_assoc)
  have "triple (\<lambda>w. held w = X) (lk_lock (Mutex_ops api) l) (\<lambda>_ w. held w = add_mset l X) (\<lambda>e w. held w = X \<and> lock_failure e)"
    using Mutex_Lock_failure by (simp add: Mutex_ops_def)
  from triple_env_frame[OF triple_env_frame[OF this, where T = "registered own None"], where T = "\<lambda>u. u = \<lparr>pMutex = Some p, ownsLock = b\<rparr>"]
  show "triple (inside p own X b) (env (lk_lock mops l)) (\<lambda>_. inside p own (add_mset l X) b) (\<lambda>e s. inside p own X b s \<and> lock_failure e)"
    unfolding thread_ops_def lock_ops.simps by (rule triple_conseq) auto
qed

lemma inside_release:
  "triple (inside p own (add_mset p X) True) (UniqueLock_Unlock mops) (\<lambda>_. inside p own X False) (\<lambda>_ _. False)"
proof (rule triple_pre)
  fix s assume s: "inside p own (add_mset p X) True s"
  have "UniqueLock_Unlock mops s = andthen (env (lk_unlock mops p)) (modify (ownsLock_update (\<lambda>_. False))) s"
    using s by (cases s) (auto simp: UniqueLock_Unlock_def)
  moreover have "triple (inside p own (add_mset p X) True) (andthen (env (lk_unlock mops p)) (modify (ownsLock_update (\<lambda>_. False))))
      (\<lambda>_. inside p own X False) (\<lambda>_ _. False)"
    by (rule triple_bind[OF inside_unlock triple_modify]) auto
  ultimately show "triple (\<lambda>s'. s' = s) (UniqueLock_Unlock mops) (\<lambda>_. inside p own X False) (\<lambda>_ _. False)"
    by (rule triple_at_state) (rule s)
qed

lemma unlock_or_relock_spec:
  "triple (inside p own (add_mset p X) True) (unlock_or_relock mops mops l) (\<lambda>_. inside p own X False) (\<lambda>_ _. False)"
  unfolding unlock_or_relock_def by (rule triple_catch[OF inside_release]) simp

lemma inside_wait:
  assumes "info_mtx api \<notin># X" "p \<in># X"
  shows "triple (inside p own X True) (bind (this id) (\<lambda>uniqueLock. env (Wait api cv uniqueLock)))
    (\<lambda>_. inside p own X True) (\<lambda>_. inside p own X True)"
proof (rule triple_pre)
  fix s assume s: "inside p own X True s"
  let ?u = "\<lparr>pMutex = Some p, ownsLock = True\<rparr>"
  have w: "triple (\<lambda>ws. held (fst ws) = X \<and> registered own None (snd ws)) (Wait api cv ?u)
      (\<lambda>_ ws. held (fst ws) = X \<and> registered own None (snd ws)) (\<lambda>_ ws. held (fst ws) = X \<and> registered own None (snd ws))"
    by (rule triple_conseq[OF Wait_spec(1)[OF assms(1) _ _ assms(2), of ?u]]) (auto simp: keeps_def)
  have "bind (this id) (\<lambda>uniqueLock. env (Wait api cv uniqueLock)) s = env (Wait api cv ?u) s"
    using s by (cases s) simp
  moreover have "triple (inside p own X True) (env (Wait api cv ?u)) (\<lambda>_. inside p own X True) (\<lambda>_. inside p own X True)"
    by (rule triple_conseq[OF triple_env_frame[OF w, where T = "\<lambda>u. u = ?u"]]) auto
  ultimately show "triple (\<lambda>s'. s' = s) (bind (this id) (\<lambda>uniqueLock. env (Wait api cv uniqueLock)))
    (\<lambda>_. inside p own X True) (\<lambda>_. inside p own X True)"
    by (rule triple_at_state) (rule s)
qed

lemma inside_point:
  assumes "info_mtx api \<notin># X"
  shows "triple (inside p own X b) (env (InterruptionPoint api)) (\<lambda>_. inside p own X b) (\<lambda>_. inside p own X b)"
  by (rule triple_conseq[OF triple_env_frame[OF point_somewhere[OF assms], where T = "\<lambda>u. u = \<lparr>pMutex = Some p, ownsLock = b\<rparr>"]])
     (auto simp: keeps_def)

text \<open>The body of \<open>Any_Wait\<close>, from the lock of the internal mutex on.\<close>

lemma Any_Wait_body:
  assumes "info_mtx api \<notin># add_mset p (add_mset l H)"
  shows "triple (inside p own (add_mset p (add_mset l H)) True)
      (andthen (env (lk_unlock mops l))
       (andthen (catch (bind (this id) (\<lambda>uniqueLock. env (Wait api cv uniqueLock)))
          (\<lambda>exc. bind UniqueLock_OwnsLock (\<lambda>owns.
             if owns then andthen (unlock_or_relock mops mops l) (andthen (env (lk_lock mops l)) (throw exc))
             else andthen (env (lk_lock mops l)) (throw exc))))
       (andthen (unlock_or_relock mops mops l)
       (andthen (env (lk_lock mops l)) (env (InterruptionPoint api))))))
     (\<lambda>_. inside p own (add_mset l H) False)
     (\<lambda>e s. inside p own (add_mset l H) False s \<or> lock_failure e \<and> inside p own H False s)"
proof -
  let ?E = "\<lambda>e s. inside p own (add_mset l H) False s \<or> lock_failure e \<and> inside p own H False s"
  have relock: "triple (inside p own H False) (env (lk_lock mops l)) (\<lambda>_. inside p own (add_mset l H) False) ?E"
    by (rule triple_conseq[OF inside_lock]) auto
  have release: "triple (inside p own (add_mset p H) True) (unlock_or_relock mops mops l) (\<lambda>_. inside p own H False) ?E"
    by (rule triple_conseq[OF unlock_or_relock_spec]) auto
  have handler: "triple (inside p own (add_mset p H) True) (bind UniqueLock_OwnsLock (\<lambda>owns.
             if owns then andthen (unlock_or_relock mops mops l) (andthen (env (lk_lock mops l)) (throw exc))
             else andthen (env (lk_lock mops l)) (throw exc))) (\<lambda>_. inside p own (add_mset p H) True) ?E" for exc
  proof (rule triple_pre)
    fix s assume s: "inside p own (add_mset p H) True s"
    have "bind UniqueLock_OwnsLock (\<lambda>owns.
             if owns then andthen (unlock_or_relock mops mops l) (andthen (env (lk_lock mops l)) (throw exc))
             else andthen (env (lk_lock mops l)) (throw exc)) s
        = andthen (unlock_or_relock mops mops l) (andthen (env (lk_lock mops l)) (throw exc)) s"
      using s by (cases s) (auto simp: UniqueLock_OwnsLock_def)
    moreover have "triple (inside p own (add_mset p H) True)
        (andthen (unlock_or_relock mops mops l) (andthen (env (lk_lock mops l)) (throw exc))) (\<lambda>_. inside p own (add_mset p H) True) ?E"
      by (rule triple_bind[OF release], rule triple_bind[OF relock], rule triple_throw) auto
    ultimately show "triple (\<lambda>s'. s' = s) (bind UniqueLock_OwnsLock (\<lambda>owns.
             if owns then andthen (unlock_or_relock mops mops l) (andthen (env (lk_lock mops l)) (throw exc))
             else andthen (env (lk_lock mops l)) (throw exc))) (\<lambda>_. inside p own (add_mset p H) True) ?E"
      by (rule triple_at_state) (rule s)
  qed
  have wait: "triple (inside p own (add_mset p H) True) (catch (bind (this id) (\<lambda>uniqueLock. env (Wait api cv uniqueLock)))
          (\<lambda>exc. bind UniqueLock_OwnsLock (\<lambda>owns.
             if owns then andthen (unlock_or_relock mops mops l) (andthen (env (lk_lock mops l)) (throw exc))
             else andthen (env (lk_lock mops l)) (throw exc)))) (\<lambda>_. inside p own (add_mset p H) True) ?E"
    by (rule triple_catch[OF inside_wait handler]) (use assms in auto)
  have unlock: "triple (inside p own (add_mset p (add_mset l H)) True) (env (lk_unlock mops l)) (\<lambda>_. inside p own (add_mset p H) True) ?E"
    using inside_unlock[where p = p and own = own and l = l and X = "add_mset p H" and b = True] by (rule triple_conseq) (auto simp: add_mset_commute)
  have point: "triple (inside p own (add_mset l H) False) (env (InterruptionPoint api)) (\<lambda>_. inside p own (add_mset l H) False) ?E"
    by (rule triple_conseq[OF inside_point]) (use assms in auto)
  show ?thesis
    by (rule triple_bind[OF unlock triple_bind[OF wait triple_bind[OF release triple_bind[OF relock point]]]])
qed

end

context condition_vars begin

lemma Any_Wait_spec:
  assumes "info_mtx api \<notin># add_mset p (add_mset l H)"
  shows "triple (\<lambda>s. held (fst s) = add_mset l H \<and> registered own None (snd s)) (Any_Wait api p cv mops l)
    (\<lambda>_ s. held (fst s) = add_mset l H) (\<lambda>e s. held (fst s) = add_mset l H \<or> lock_failure e \<and> held (fst s) = H)"
proof -
  let ?D = "\<lambda>R s. \<exists>K. owned (\<lambda>s. held (fst s)) K s \<and> (\<forall>w. held (fst w) = K \<longrightarrow> R w)"
  let ?E = "\<lambda>e s. held (fst s) = add_mset l H \<or> lock_failure e \<and> held (fst s) = H"
  have mutex: "try_lockable (Mutex_ops api) held" using Mutex.try_lockable_axioms .
  have point: "triple (\<lambda>s. held (fst s) = add_mset l H \<and> registered own None (snd s)) (InterruptionPoint api)
      (\<lambda>_ s. held (fst s) = add_mset l H \<and> registered own None (snd s)) ?E"
    by (rule triple_conseq[OF point_somewhere[where H = "add_mset l H" and own = own and p = None]]) (use assms in \<open>auto simp: keeps_def\<close>)
  have ctor: "triple (\<lambda>s. (held (fst (fst s)) = add_mset l H \<and> registered own None (snd (fst s))) \<and> snd s = UniqueLock_defer p)
      (UniqueLock_Lock mops) (\<lambda>_. inside p own (add_mset p (add_mset l H)) True) (\<lambda>e s. ?E e (fst s))"
  proof (rule triple_pre)
    fix s assume s: "(held (fst (fst s)) = add_mset l H \<and> registered own None (snd (fst s))) \<and> snd s = UniqueLock_defer p"
    have eq: "UniqueLock_Lock mops s = andthen (env (lk_lock mops p)) (modify (ownsLock_update (\<lambda>_. True))) s"
      using s by (cases s) (auto simp: UniqueLock_Lock_def UniqueLock_defer_def)
    have lk: "triple (inside p own (add_mset l H) False) (env (lk_lock mops p))
        (\<lambda>_. inside p own (add_mset p (add_mset l H)) False) (\<lambda>e s. ?E e (fst s))"
      by (rule triple_conseq[OF inside_lock]) auto
    have "triple (inside p own (add_mset l H) False) (andthen (env (lk_lock mops p)) (modify (ownsLock_update (\<lambda>_. True))))
        (\<lambda>_. inside p own (add_mset p (add_mset l H)) True) (\<lambda>e s. ?E e (fst s))"
      by (rule triple_bind[OF lk triple_modify]) auto
    with eq show "triple (\<lambda>s'. s' = s) (UniqueLock_Lock mops)
        (\<lambda>_. inside p own (add_mset p (add_mset l H)) True) (\<lambda>e s. ?E e (fst s))"
      by (rule triple_at_state) (use s in \<open>auto simp: UniqueLock_defer_def\<close>)
  qed
  show ?thesis
    unfolding Any_Wait_def Let_def with_unique_lock_def
  proof (rule triple_bind[OF point], rule triple_local_object[OF ctor triple_conseq[OF Any_Wait_body[OF assms, where own = own]], where D = ?D])
    show "triple (?D R) (UniqueLock_dtor mops) (\<lambda>_ s. R (fst s)) (\<lambda>_ _. False)" for R
      by (rule try_lockable.UniqueLock_dtor_any[OF thread_ops_try_lockable[OF mutex]])
  qed (auto simp: owned_def)
qed

lemma Any_Notify_spec:
  shows "triple (\<lambda>w. held w = H) (Any_NotifyOne api p cv) (\<lambda>_ w. held w = H) (\<lambda>_ _. False)"
    and "triple (\<lambda>w. held w = H) (Any_NotifyAll api p cv) (\<lambda>_ w. held w = H) (\<lambda>_ _. False)"
proof -
  have "triple (\<lambda>s. held (fst s) = H \<and> snd s = UniqueLock_defer p) (UniqueLock_Lock (Mutex_ops api)) (\<lambda>_. owned held H) (\<lambda>_. owned held H)"
    by (rule triple_conseq[OF lockable_at.UniqueLock_Lock_spec[OF lockable.axioms_at[OF Mutex_lockable], of H "UniqueLock_defer p"]])
       (auto simp: owned_def UniqueLock_defer_def)
  then have lock: "triple (\<lambda>s. held (fst s) = H \<and> snd s = UniqueLock_defer p) (catch (UniqueLock_Lock (Mutex_ops api)) (\<lambda>_. ret ()))
      (\<lambda>_. owned held H) (\<lambda>_ _. False)"
    by (rule triple_catch) (rule triple_ret)
  have n: "triple (owned held H) (env (NotifyOne api cv)) (\<lambda>_. owned held H) (\<lambda>_ _. False)"
    "triple (owned held H) (env (NotifyAll api cv)) (\<lambda>_. owned held H) (\<lambda>_ _. False)"
    unfolding NotifyOne_def NotifyAll_def
    by (auto simp: triple_def env_def noexcept_def catch_def bind_def call_def owned_def
        split: prod.splits option.splits if_splits dest!: signal_law broadcast_law)
  have block: "triple (\<lambda>w. held w = H) (local_object (UniqueLock_defer p) (ret ())
      (andthen (catch (UniqueLock_Lock (Mutex_ops api)) (\<lambda>_. ret ())) (env m)) (UniqueLock_dtor (Mutex_ops api)))
      (\<lambda>_ w. held w = H) (\<lambda>_ _. False)"
    if m: "triple (owned held H) (env m) (\<lambda>_. owned held H) (\<lambda>_ _. False)" for m :: "(exn, unit, 'w) prog"
  proof (rule triple_local_object[where D = "\<lambda>R s. \<exists>K. owned held K s \<and> (\<forall>w. held w = K \<longrightarrow> R w)"
        and R = "\<lambda>s. held (fst s) = H \<and> snd s = UniqueLock_defer p"])
    show "triple (\<lambda>s. held (fst s) = H \<and> snd s = UniqueLock_defer p) (andthen (catch (UniqueLock_Lock (Mutex_ops api)) (\<lambda>_. ret ())) (env m))
      (\<lambda>a s. \<exists>K. owned held K s \<and> (\<forall>w. held w = K \<longrightarrow> held w = H)) (\<lambda>e s. \<exists>K. owned held K s \<and> (\<forall>w. held w = K \<longrightarrow> False))"
      by (rule triple_conseq[OF triple_bind[OF lock m]]) auto
  qed (auto intro: triple_ret Mutex.UniqueLock_dtor_any)
  show "triple (\<lambda>w. held w = H) (Any_NotifyOne api p cv) (\<lambda>_ w. held w = H) (\<lambda>_ _. False)"
    "triple (\<lambda>w. held w = H) (Any_NotifyAll api p cv) (\<lambda>_ w. held w = H) (\<lambda>_ _. False)"
    unfolding Any_NotifyOne_def Any_NotifyAll_def by (rule triple_noexcept, rule block, rule n)+
qed

end

section \<open>Outcomes\<close>

text \<open>The calls that wait, with their results forgotten.\<close>

datatype cv_call = Call_Wait | Call_WaitFor int | Call_WaitUntil int

fun run_cv_call :: "('w, 'x) thread_api_scheme \<Rightarrow> nat \<Rightarrow> nat unique_lock \<Rightarrow> cv_call \<Rightarrow> (unit, 'w) tprog" where
  "run_cv_call api cv uniqueLock Call_Wait = Wait api cv uniqueLock"
| "run_cv_call api cv uniqueLock (Call_WaitFor relTime) = andthen (WaitFor api cv uniqueLock relTime) (ret ())"
| "run_cv_call api cv uniqueLock (Call_WaitUntil absTime) = andthen (WaitUntil api cv uniqueLock absTime) (ret ())"

context condition_vars begin

lemma run_cv_call_spec:
  assumes l: "info_mtx api \<notin># H" "ownsLock uniqueLock" "pMutex uniqueLock = Some m" "m \<in># H"
  shows "triple (somewhere H (registered own None)) (run_cv_call api cv uniqueLock c)
    (\<lambda>_. somewhere H (registered own None)) (\<lambda>_. somewhere H (registered own None))"
proof (cases c)
  case Call_Wait
  then show ?thesis using Wait_spec(1)[OF l] by simp
next
  case (Call_WaitFor relTime)
  show ?thesis unfolding Call_WaitFor run_cv_call.simps by (rule triple_bind[OF Wait_spec(2)[OF l] triple_ret])
next
  case (Call_WaitUntil absTime)
  have now: "triple (somewhere H (registered own None)) (env (GetCurrentTime api))
      (\<lambda>_. somewhere H (registered own None)) (\<lambda>_. somewhere H (registered own None))"
    by (rule triple_conseq[OF triple_env_frame[OF current_time_call[of H]]]) (auto simp: keeps_def)
  have "triple (somewhere H (registered own None)) (WaitUntil api cv uniqueLock absTime)
      (\<lambda>_. somewhere H (registered own None)) (\<lambda>_. somewhere H (registered own None))"
    unfolding WaitUntil_def Let_def by (rule triple_bind[OF now Wait_spec(2)[OF l]])
  then show ?thesis unfolding Call_WaitUntil run_cv_call.simps by (rule triple_bind) (rule triple_ret)
qed

lemma somewhere_start: "registered own None td \<Longrightarrow> somewhere (held w) (registered own None) (w, td)"
  by (auto simp: keeps_def)

lemma run_cv_call_outcome:
  assumes l: "info_mtx api \<notin># held w" "ownsLock uniqueLock" "pMutex uniqueLock = Some m" "m \<in># held w"
    and "registered own None td" and "run_cv_call api cv uniqueLock c (w, td) = Some r"
  shows "held (fst (res_state r)) = held w \<and> registered own None (snd (res_state r)) \<and> (\<forall>s. r \<noteq> Term s)"
  using triple_app[OF run_cv_call_spec[OF l] somewhere_start[OF assms(5)] assms(6)]
  by (cases r) (auto simp: keeps_def)

lemma waits_with_predicate_outcome:
  assumes l: "info_mtx api \<notin># held w" "ownsLock uniqueLock" "pMutex uniqueLock = Some mtx" "mtx \<in># held w"
    and td: "registered own None td"
  shows "(\<forall>r. Wait_pred api cv uniqueLock (reads kept P) (w, td) = Some r \<longrightarrow>
      held (fst (res_state r)) = held w \<and> registered own None (snd (res_state r)) \<and> (\<forall>s. r \<noteq> Term s)
      \<and> (\<forall>s. r = Ret () s \<longrightarrow> P (kept (fst s))))
    \<and> (\<forall>r. WaitFor_pred api cv uniqueLock relTime (reads kept P) (w, td) = Some r \<longrightarrow>
      held (fst (res_state r)) = held w \<and> registered own None (snd (res_state r)) \<and> (\<forall>s. r \<noteq> Term s)
      \<and> (\<forall>s. r = Ret True s \<longrightarrow> P (kept (fst s))))"
proof (intro conjI allI impI)
  note outcome = triple_app[OF Wait_pred_spec[OF l] somewhere_start[OF td]] triple_app[OF WaitFor_pred_spec[OF l] somewhere_start[OF td]]
  {
    fix r assume "Wait_pred api cv uniqueLock (reads kept P) (w, td) = Some r"
    note o = outcome(1)[OF this]
    show "held (fst (res_state r)) = held w" "registered own None (snd (res_state r))"
      using o by (cases r; auto simp: keeps_def)+
    show "r \<noteq> Term s" for s using o by auto
    show "P (kept (fst s))" if "r = Ret () s" for s using o that l(4) by (auto simp: keeps_def)
  next
    fix r assume "WaitFor_pred api cv uniqueLock relTime (reads kept P) (w, td) = Some r"
    note o = outcome(2)[OF this]
    show "held (fst (res_state r)) = held w" "registered own None (snd (res_state r))"
      using o by (cases r; auto simp: keeps_def)+
    show "r \<noteq> Term s" for s using o by auto
    show "P (kept (fst s))" if "r = Ret True s" for s using o that l(4) by (auto simp: keeps_def)
  }
qed

lemma Any_outcome:
  assumes "info_mtx api \<notin># add_mset pMtx (held w)" "l \<in># held w" "registered own None td"
    and "Any_Wait api pMtx cv mops l (w, td) = Some r"
  shows "(\<forall>s. r \<noteq> Term s) \<and> (held (fst (res_state r)) = held w
     \<or> (\<exists>e s. r = Exc e s \<and> lock_failure e \<and> held (fst s) = held w - {#l#}))"
proof -
  obtain H where H: "held w = add_mset l H" using assms(2) by (metis mset_add)
  have "held (fst (w, td)) = add_mset l H \<and> registered own None (snd (w, td))" using H assms(3) by simp
  from triple_app[OF Any_Wait_spec this assms(4)] assms(1) H show ?thesis
    by (cases r) auto
qed

end

interpretation sample_cv: condition_vars "sample_threads nd" pw_mine 5 tw_data
  by unfold_locales
     (auto simp: sample_threads_defs posix_lock_def posix_relock_def sample_cond_timedwait_def split: if_splits list.splits)

section \<open>Properties\<close>

text \<open>C6: the waits of a condition variable are balanced.  However \<open>Wait\<close>, \<open>WaitFor\<close> or \<open>WaitUntil\<close> of a lock
  that owns its mutex ends - notified, timed out, interrupted or with an error - the thread holds exactly the
  mutexes it held, is no longer registered as waiting, and interruption is enabled as before.\<close>

theorem cv_waits_balanced:
  assumes "condition_vars api held mtx kept"
    and "info_mtx api \<notin># held w" "ownsLock uniqueLock" "pMutex uniqueLock = Some m" "m \<in># held w"
    and "registered own None td" and "run_cv_call api cv uniqueLock c (w, td) = Some r"
  shows "held (fst (res_state r)) = held w \<and> registered own None (snd (res_state r)) \<and> (\<forall>s. r \<noteq> Term s)"
  by (rule condition_vars.run_cv_call_outcome[OF assms])

definition waiting_world :: "nat list \<Rightarrow> thread_world" where
  "waiting_world feed = thread_idle\<lparr>pw_mine := {#5#}, tw_feed := feed\<rparr>"

lemma waiting_world_simps [simp]:
  "pw_mine (waiting_world feed) = {#5#}" "pw_others (waiting_world feed) = {#}" "tw_requests (waiting_world feed) = []"
  "tw_feed (waiting_world feed) = feed" "tw_data (waiting_world feed) = 0" "pw_now (waiting_world feed) = 1000"
  by (simp_all add: waiting_world_def thread_idle_def posix_world.defs posix_idle_def)

definition own_lock :: "nat unique_lock" where
  "own_lock = UniqueLock_adopt 5"

lemma own_lock_simps [simp]: "ownsLock own_lock" "pMutex own_lock = Some 5"
  by (simp_all add: own_lock_def UniqueLock_adopt_def)

text \<open>The waits of a thread without data, evaluated.\<close>

lemma waiting_on_adopted:
  "wait (w, None) = Some (Ret st (w', None)) \<Longrightarrow> waiting_on api cv wait (w, None) = Some (Ret st (w', None))"
  by (simp add: waiting_on_def InterruptionPoint_adopted register_def scoped_def)

lemma sample_DoWaitFor:
  "ownsLock u \<Longrightarrow> pMutex u = Some m \<Longrightarrow> m \<in># pw_mine w \<Longrightarrow> tw_feed w = d # ds \<Longrightarrow>
     DoWaitFor (sample_threads nd) cv u relTime w = Some (Ret no_timeout (w\<lparr>tw_data := d, tw_feed := ds\<rparr>))"
  by (simp add: DoWaitFor_def RelTimeToAbsTime_def sample_threads_defs sample_cond_timedwait_def Let_def call_blocking_def)

lemma sample_timeout:
  assumes "5 \<in># pw_mine w" "tw_feed w = []"
  shows "\<exists>n. DoWaitFor (sample_threads nd) cv own_lock relTime w = Some (Ret timeout (w\<lparr>pw_now := n\<rparr>))"
proof -
  have "DoWaitFor (sample_threads nd) cv own_lock relTime w = Some (Ret timeout (w\<lparr>pw_now := max (pw_now w) (tv_sec t)\<rparr>))"
    if "RelTimeToAbsTime (sample_threads nd) relTime w = Some (Ret t w)" for t
    using assms that by (simp add: DoWaitFor_def sample_threads_defs sample_cond_timedwait_def)
  moreover have "\<exists>t. RelTimeToAbsTime (sample_threads nd) relTime w = Some (Ret t w)"
    by (simp add: RelTimeToAbsTime_def sample_threads_defs Let_def)
  ultimately show ?thesis by blast
qed

theorem cv_waits_balanced_witness:
  "\<exists>n. run_cv_call (sample_threads False) 9 own_lock (Call_WaitFor 1000) (waiting_world [], None)
      = Some (Ret () ((waiting_world [])\<lparr>pw_now := n\<rparr>, None)) \<and> pw_mine ((waiting_world [])\<lparr>pw_now := n\<rparr>) = {#5#}"
proof -
  obtain n where "DoWaitFor (sample_threads False) 9 own_lock CHECK_INTERRUPT_REL_TIME (waiting_world [])
      = Some (Ret timeout ((waiting_world [])\<lparr>pw_now := n\<rparr>))"
    using sample_timeout[of "waiting_world []" False 9 CHECK_INTERRUPT_REL_TIME] by auto
  then have r: "run_cv_call (sample_threads False) 9 own_lock (Call_WaitFor 1000) (waiting_world [], None)
      = Some (Ret () ((waiting_world [])\<lparr>pw_now := n\<rparr>, None))"
    by (simp add: WaitFor_def waiting_on_adopted)
  from cv_waits_balanced[OF sample_cv.condition_vars_axioms _ _ _ _ _ r, of 5 None] r show ?thesis
    by (auto simp: registered_def)
qed

text \<open>\<open>Wait\<close> with a predicate over the data its mutex protects returns only when the predicate holds, with
  the mutex held; \<open>WaitFor\<close> with a predicate returns true only then.\<close>

theorem cv_wait_predicate:
  assumes "condition_vars api held mtx kept"
    and "info_mtx api \<notin># held w" "ownsLock uniqueLock" "pMutex uniqueLock = Some mtx" "mtx \<in># held w"
    and "registered own None td"
  shows "(\<forall>r. Wait_pred api cv uniqueLock (reads kept P) (w, td) = Some r \<longrightarrow>
      held (fst (res_state r)) = held w \<and> registered own None (snd (res_state r)) \<and> (\<forall>s. r \<noteq> Term s)
      \<and> (\<forall>s. r = Ret () s \<longrightarrow> P (kept (fst s))))
    \<and> (\<forall>r. WaitFor_pred api cv uniqueLock relTime (reads kept P) (w, td) = Some r \<longrightarrow>
      held (fst (res_state r)) = held w \<and> registered own None (snd (res_state r)) \<and> (\<forall>s. r \<noteq> Term s)
      \<and> (\<forall>s. r = Ret True s \<longrightarrow> P (kept (fst s))))"
  by (rule condition_vars.waits_with_predicate_outcome[OF assms])

theorem cv_wait_predicate_witness:
  "\<exists>w'. Wait_pred (sample_threads False) 9 own_lock (reads tw_data (\<lambda>d. d = 2)) (waiting_world [4, 2, 3], None)
     = Some (Ret () (w', None)) \<and> tw_data w' = 2"
proof -
  let ?w1 = "(waiting_world [4, 2, 3])\<lparr>tw_data := 4, tw_feed := [2, 3]\<rparr>"
  let ?w2 = "?w1\<lparr>tw_data := 2, tw_feed := [3]\<rparr>"
  have step: "Wait (sample_threads False) 9 own_lock (w, None) = Some (Ret () (w\<lparr>tw_data := d, tw_feed := ds\<rparr>, None))"
    if "5 \<in># pw_mine w" "tw_feed w = d # ds" for w d ds
    using sample_DoWaitFor[OF own_lock_simps that] by (simp add: Wait_def waiting_on_adopted)
  have r: "Wait_pred (sample_threads False) 9 own_lock (reads tw_data (\<lambda>d. d = 2)) (waiting_world [4, 2, 3], None) = Some (Ret () (?w2, None))"
  proof -
    let ?loop = "wait_loop (reads tw_data (\<lambda>d. d = 2)) (Wait (sample_threads False) 9 own_lock)"
    have "?loop (?w2, None) = Some (Ret () (?w2, None))"
      by (subst wait_loop.simps) (simp add: reads_def)
    then have "?loop (?w1, None) = Some (Ret () (?w2, None))"
      by (subst wait_loop.simps) (simp add: reads_def step)
    then have "?loop (waiting_world [4, 2, 3], None) = Some (Ret () (?w2, None))"
      by (subst wait_loop.simps) (simp add: reads_def step)
    then show ?thesis by (simp add: Wait_pred_def InterruptionPoint_adopted)
  qed
  show ?thesis
    using cv_wait_predicate[OF sample_cv.condition_vars_axioms, where w = "waiting_world [4, 2, 3]" and uniqueLock = own_lock
        and td = None and own = None and cv = 9 and P = "\<lambda>d. d = 2"] r
    by (auto simp: registered_def)
qed

text \<open>With thread interruption compiled in, \<open>WaitFor\<close> does not wait for the time it is given: every
  positive time is replaced by 25 milliseconds, so a call that times out after 25 milliseconds reports a
  timeout, and \<open>WaitFor\<close> with a predicate gives up then.\<close>

theorem WaitFor_ignores_time:
  assumes "0 < relTime"
  shows "WaitFor api cv uniqueLock relTime = WaitFor api cv uniqueLock 25
    \<and> WaitFor_pred api cv uniqueLock relTime predicate = WaitFor_pred api cv uniqueLock 25 predicate
    \<and> (ownsLock uniqueLock \<longrightarrow> DoWaitFor api cv uniqueLock 25 w = Some (Ret timeout w') \<longrightarrow>
        WaitFor api cv uniqueLock relTime (w, None) = Some (Ret timeout (w', None)))"
  using assms by (simp add: WaitFor_def WaitFor_pred_def CHECK_INTERRUPT_REL_TIME_def waiting_on_adopted)

theorem WaitFor_ignores_time_witness:
  "\<exists>n. WaitFor (sample_threads True) 9 own_lock 3600000 (waiting_world [], None)
    = Some (Ret timeout ((waiting_world [])\<lparr>pw_now := n\<rparr>, None))"
proof -
  obtain n where n: "DoWaitFor (sample_threads True) 9 own_lock 25 (waiting_world []) = Some (Ret timeout ((waiting_world [])\<lparr>pw_now := n\<rparr>))"
    using sample_timeout[of "waiting_world []" True 9 25] by auto
  have pos: "(0::int) < 3600000" by simp
  have "WaitFor (sample_threads True) 9 own_lock 3600000 (waiting_world [], None)
      = Some (Ret timeout ((waiting_world [])\<lparr>pw_now := n\<rparr>, None))"
    using WaitFor_ignores_time[where relTime = 3600000 and api = "sample_threads True" and cv = 9 and uniqueLock = own_lock
        and w = "waiting_world []" and predicate = "\<lambda>_. None"
        and w' = "(waiting_world [])\<lparr>pw_now := n\<rparr>"] own_lock_simps(1) n pos by blast
  then show ?thesis ..
qed

text \<open>\<open>ConditionVariableAny::Wait\<close> on a mutex the caller holds ends, in every way, without the internal
  mutex and with the caller's lock taken again; only when that last \<open>Lock\<close> itself throws is it left
  unlocked.\<close>

theorem Any_Wait_relocks:
  assumes "condition_vars api held mtx kept" "info_mtx api \<notin># add_mset pMtx (held w)" "l \<in># held w" "registered own None td"
    and "Any_Wait api pMtx cv (thread_ops (Mutex_ops api)) l (w, td) = Some r"
  shows "(\<forall>s. r \<noteq> Term s) \<and> (held (fst (res_state r)) = held w
     \<or> (\<exists>e s. r = Exc e s \<and> lock_failure e \<and> held (fst s) = held w - {#l#}))"
  by (rule condition_vars.Any_outcome[OF assms])

lemma sample_Mutex:
  "m \<notin># pw_mine w \<Longrightarrow> pw_others w = {#} \<Longrightarrow> Mutex_Lock (sample_threads nd) m w = Some (Ret () (w\<lparr>pw_mine := add_mset m (pw_mine w)\<rparr>))"
  "m \<in># pw_mine w \<Longrightarrow> Mutex_Unlock (sample_threads nd) m w = Some (Ret () (w\<lparr>pw_mine := pw_mine w - {#m#}\<rparr>))"
  by (simp_all add: Mutex_Lock_def Mutex_Unlock_def sample_threads_defs posix_lock_def posix_unlock_def)

theorem Any_Wait_relocks_witness:
  "\<exists>w'. Any_Wait (sample_threads False) 8 9 (thread_ops (Mutex_ops (sample_threads False))) 5 (waiting_world [4], None)
     = Some (Ret () (w', None)) \<and> tw_data w' = 4 \<and> pw_mine w' = {#5#}"
proof -
  let ?api = "sample_threads False" and ?u = "\<lparr>pMutex = Some 8, ownsLock = True\<rparr>"
  let ?ops = "thread_ops (Mutex_ops ?api)" and ?w = "waiting_world [4]"
  let ?w1 = "?w\<lparr>pw_mine := {#8#}, tw_data := 4, tw_feed := []\<rparr>"
  have wait: "Wait ?api 9 ?u (?w\<lparr>pw_mine := {#8#}\<rparr>, None) = Some (Ret () (?w1, None))"
    using sample_DoWaitFor[of ?u 8 "?w\<lparr>pw_mine := {#8#}\<rparr>" 4 "[]"] by (simp add: Wait_def waiting_on_adopted)
  have r: "Any_Wait ?api 8 9 ?ops 5 (?w, None) = Some (Ret () (?w1\<lparr>pw_mine := {#5#}\<rparr>, None))"
    unfolding Any_Wait_def Let_def
    by (simp add: InterruptionPoint_adopted with_unique_lock_def local_object_def drop_object_def scoped_def
        UniqueLock_Lock_def UniqueLock_Unlock_def UniqueLock_defer_def UniqueLock_dtor_def UniqueLock_OwnsLock_def
        unlock_or_relock_def thread_ops_def Mutex_ops_def sample_Mutex wait)
  show ?thesis
    using Any_Wait_relocks[OF sample_cv.condition_vars_axioms _ _ _ r, of None] r by (auto simp: registered_def)
qed

end
