(* ===== verification/Files.thy ===== *)
theory Files
imports Retry "HOL-Library.Sublist"
begin

text \<open>
  File system utilities (\<open>src/util/filesystem_utils.cpp\<close>, \<open>filesystem_utils_unx.cpp\<close>).

  A path is the list of its components: \<open>path @ [name]\<close> is \<open>path + '/' + name\<close>, and \<open>QDir::toNativeSeparators\<close>
  is the identity on Unix.  Paths are absolute and clean; the root itself, the empty list, is not an
  argument of these functions.  The functions of the system and of Qt are fields of \<open>file_api\<close>; errors of
  the system are read from \<open>errno\<close>.  The overloads with an error code return it with the result.
\<close>

type_synonym path = "string list"
type_synonym byte = "8 word"

record 'w file_api =
  fs_ndebug :: bool
  fs_errno :: "'w \<Rightarrow> int"
  qt_dirs :: "path \<Rightarrow> 'w \<Rightarrow> string list"
  qt_files :: "path \<Rightarrow> 'w \<Rightarrow> string list"
  qt_exists :: "path \<Rightarrow> 'w \<Rightarrow> bool"
  os_unlink :: "path \<Rightarrow> 'w \<Rightarrow> int \<times> 'w"
  os_rmdir :: "path \<Rightarrow> 'w \<Rightarrow> int \<times> 'w"
  os_mkdir :: "path \<Rightarrow> 'w \<Rightarrow> int \<times> 'w"
  os_open_read :: "path \<Rightarrow> 'w \<Rightarrow> int \<times> 'w"
  os_open_write :: "path \<Rightarrow> bool \<Rightarrow> 'w \<Rightarrow> int \<times> 'w"
  os_fstat :: "int \<Rightarrow> 'w \<Rightarrow> (int \<times> nat) \<times> 'w"
  os_read :: "int \<Rightarrow> nat \<Rightarrow> 'w \<Rightarrow> int \<times> byte list \<times> 'w"
  os_write :: "int \<Rightarrow> byte list \<Rightarrow> 'w \<Rightarrow> int \<times> 'w"
  os_fsync :: "int \<Rightarrow> 'w \<Rightarrow> int \<times> 'w"
  os_close :: "int \<Rightarrow> 'w \<Rightarrow> int \<times> 'w"

text \<open>\<open>os_open_write path excl\<close> opens for appending, creating the file, with \<open>O_EXCL\<close> or else \<open>O_TRUNC\<close>.\<close>

type_synonym ('a, 'w) fprog = "(exn, 'a, 'w) prog"

section \<open>Single files and directories\<close>

definition IsValidPath :: "path \<Rightarrow> bool \<Rightarrow> bool" where
  "IsValidPath path ignorePathSeparator = (if path = [] then False
     else if \<exists>name \<in> set path. CHR 0x5C \<in> set name then False
     else if ignorePathSeparator then True else length path = 1)"

definition fs_error :: "('w, 'x) file_api_scheme \<Rightarrow> (ErrorCode \<Rightarrow> ('a, 'w) fprog) \<Rightarrow> ('a, 'w) fprog" where
  "fs_error api k = (\<lambda>w. k (mk_code (fs_errno api w) SystemCategory) w)"

definition FilesystemExc :: "ErrorCode \<Rightarrow> exn" where "FilesystemExc e = mk_exn_ec FilesystemException e"

abbreviation fs_assert :: "('w, 'x) file_api_scheme \<Rightarrow> bool \<Rightarrow> (unit, 'w) fprog" where
  "fs_assert api b \<equiv> cpp_assert (fs_ndebug api) b"

definition DeleteFile :: "('w, 'x) file_api_scheme \<Rightarrow> path \<Rightarrow> bool \<Rightarrow> (unit, 'w) fprog" where
  "DeleteFile api fileName failIfNotExists = andthen (check (IsValidPath fileName True) InvalidArgument)
     (bind (call (os_unlink api fileName)) (\<lambda>rc.
        if rc \<noteq> ESUCCESS then fs_error api (\<lambda>kErrorCode.
          andthen (fs_assert api (ec_value kErrorCode \<noteq> EINTR))
            (if \<not> failIfNotExists \<and> ec_value kErrorCode = ENOENT then ret ()
             else if ec_value kErrorCode = ENOENT then throw NoSuchFileOrDirectory
             else throw (FilesystemExc kErrorCode)))
        else ret ()))"

definition MakeDirectory :: "('w, 'x) file_api_scheme \<Rightarrow> path \<Rightarrow> bool \<Rightarrow> (unit, 'w) fprog" where
  "MakeDirectory api dirName failIfExists = andthen (check (IsValidPath dirName True) InvalidArgument)
     (bind (call (os_mkdir api dirName)) (\<lambda>rc.
        if rc \<noteq> ESUCCESS then fs_error api (\<lambda>kErrorCode.
          andthen (fs_assert api (ec_value kErrorCode \<noteq> EINTR))
            (if \<not> failIfExists \<and> ec_value kErrorCode = EEXIST then ret () else throw (FilesystemExc kErrorCode)))
        else ret ()))"

definition RemoveDirectory :: "('w, 'x) file_api_scheme \<Rightarrow> path \<Rightarrow> bool \<Rightarrow> (unit, 'w) fprog" where
  "RemoveDirectory api path failIfNotExists = andthen (check (IsValidPath path True) InvalidArgument)
     (bind (call (os_rmdir api path)) (\<lambda>rc.
        if rc \<noteq> ESUCCESS then fs_error api (\<lambda>kErrorCode.
          andthen (fs_assert api (ec_value kErrorCode \<noteq> EINTR))
            (if \<not> failIfNotExists \<and> ec_value kErrorCode = ENOENT then ret ()
             else if ec_value kErrorCode = ENOENT then throw NoSuchFileOrDirectory
             else throw (FilesystemExc kErrorCode)))
        else ret ()))"

text \<open>\<open>MakePath\<close> makes every proper prefix, then the path itself.\<close>

fun make_prefixes :: "('w, 'x) file_api_scheme \<Rightarrow> path list \<Rightarrow> (unit, 'w) fprog" where
  "make_prefixes api [] = ret ()"
| "make_prefixes api (p # ps) = andthen (MakeDirectory api p False) (make_prefixes api ps)"

definition MakePath :: "('w, 'x) file_api_scheme \<Rightarrow> path \<Rightarrow> bool \<Rightarrow> (unit, 'w) fprog" where
  "MakePath api dirPath failIfExists = andthen (check (IsValidPath dirPath True) InvalidArgument)
     (andthen (make_prefixes api (map (\<lambda>n. take n dirPath) [1..<length dirPath])) (MakeDirectory api dirPath failIfExists))"

text \<open>The overloads with an error code: every exception becomes a code and the result false.\<close>

definition code_of_exception :: "exn \<Rightarrow> ErrorCode" where
  "code_of_exception e = (if derived_from (exn_class e) SystemException then exn_code e
     else if derived_from (exn_class e) std_bad_alloc then errc_MakeErrorCode errc_not_enough_memory
     else errc_MakeErrorCode errc_no_message_available)"

definition with_error_code :: "(unit, 'w) fprog \<Rightarrow> (bool \<times> ErrorCode, 'w) fprog" where
  "with_error_code m = catch (andthen m (ret (True, ErrorCode_default))) (\<lambda>e. ret (False, code_of_exception e))"

section \<open>Removing a tree\<close>

text \<open>The paths of the directories to remove, in the order in which the growing list is traversed.\<close>

partial_function (option) walk :: "(path \<Rightarrow> string list) \<Rightarrow> path list \<Rightarrow> path list option" where
  [code]: "walk entries pending = (case pending of [] \<Rightarrow> Some []
     | p # ps \<Rightarrow> Option.bind (walk entries (ps @ map (\<lambda>name. p @ [name]) (entries p))) (\<lambda>rest. Some (p # rest)))"

fun delete_files :: "('w, 'x) file_api_scheme \<Rightarrow> path \<Rightarrow> string list \<Rightarrow> bool \<times> ErrorCode \<Rightarrow> (bool \<times> ErrorCode, 'w) fprog" where
  "delete_files api kPath [] acc = ret acc"
| "delete_files api kPath (name # names) acc = bind (with_error_code (DeleteFile api (kPath @ [name]) False)) (\<lambda>(ok, tmpErrorCode).
     delete_files api kPath names (if ok then acc else (False, tmpErrorCode)))"

text \<open>The \<open>do ... while\<close> loop over the list, from its end.\<close>

fun remove_all :: "('w, 'x) file_api_scheme \<Rightarrow> bool \<Rightarrow> path list \<Rightarrow> bool \<times> ErrorCode \<Rightarrow> (bool \<times> ErrorCode, 'w) fprog" where
  "remove_all api failIfNotExists [] acc = ret acc"
| "remove_all api failIfNotExists (kPath # paths) acc = (\<lambda>w.
     bind (delete_files api kPath (qt_files api kPath w) acc) (\<lambda>acc.
     bind (with_error_code (RemoveDirectory api kPath (if paths = [] then failIfNotExists else False))) (\<lambda>(ok, tmpErrorCode).
       remove_all api failIfNotExists paths (if ok then acc else (False, tmpErrorCode)))) w)"

definition RemoveDirectoryRecursively :: "('w, 'x) file_api_scheme \<Rightarrow> path \<Rightarrow> bool \<Rightarrow> (bool \<times> ErrorCode, 'w) fprog" where
  "RemoveDirectoryRecursively api path failIfNotExists = andthen (check (IsValidPath path True) InvalidArgument)
     (\<lambda>w. case walk (\<lambda>p. qt_dirs api p w) [path] of None \<Rightarrow> None
        | Some paths \<Rightarrow> remove_all api failIfNotExists (rev paths) (True, ErrorCode_default) w)"

section \<open>Copying a file\<close>

definition fs_retry :: "('w, 'x) file_api_scheme \<Rightarrow> ('w \<Rightarrow> int \<times> 'w) \<Rightarrow> (int, 'w) fprog" where
  "fs_retry api f = call_blocking (TEMP_FAILURE_RETRY (fs_errno api) (\<lambda>w. Some (f w)))"

definition read_retry :: "('w, 'x) file_api_scheme \<Rightarrow> int \<Rightarrow> nat \<Rightarrow> (int \<times> byte list, 'w) fprog" where
  "read_retry api fd bufSize = call_blocking (\<lambda>w. map_option (\<lambda>(rc, buf, w'). ((rc, buf), w'))
     (TEMP_FAILURE_RETRY (\<lambda>(buf, w). fs_errno api w) (\<lambda>(buf, w). Some (os_read api fd bufSize w)) ([], w)))"

text \<open>A failed call on a file: the codes that would mean a wrong call are asserted away.\<close>

definition io_failed :: "('w, 'x) file_api_scheme \<Rightarrow> int set \<Rightarrow> ('a, 'w) fprog" where
  "io_failed api excluded = fs_error api (\<lambda>e. andthen (fs_assert api (ec_value e \<notin> excluded)) (throw (FilesystemExc e)))"

definition open_failed :: "('w, 'x) file_api_scheme \<Rightarrow> ('a, 'w) fprog" where
  "open_failed api = fs_error api (\<lambda>e. if ec_value e = ENOENT then throw NoSuchFileOrDirectory else throw (FilesystemExc e))"

text \<open>Writing what was read; \<open>rest\<close> is what \<open>totalWritten\<close> leaves of it.\<close>

partial_function (option) write_all :: "('w, 'x) file_api_scheme \<Rightarrow> int \<Rightarrow> byte list \<Rightarrow> 'w \<Rightarrow> (exn, unit, 'w) res option" where
  [code]: "write_all api fd rest w = bind (fs_retry api (os_write api fd rest)) (\<lambda>kCurrentWritten w.
     if kCurrentWritten = - 1 then io_failed api {EINTR, EAGAIN, EBADF} w
     else if kCurrentWritten = 0 then fs_error api (\<lambda>e. throw (FilesystemExc e)) w
     else bind (fs_assert api (kCurrentWritten > 0)) (\<lambda>_ w. bind (fs_assert api (kCurrentWritten \<le> int (length rest))) (\<lambda>_ w.
       if kCurrentWritten = int (length rest) then ret () w else write_all api fd (drop (nat kCurrentWritten) rest) w) w) w) w"

partial_function (option) copy_loop :: "('w, 'x) file_api_scheme \<Rightarrow> int \<Rightarrow> int \<Rightarrow> nat \<Rightarrow> 'w \<Rightarrow> (exn, unit, 'w) res option" where
  [code]: "copy_loop api kSrcFd kDstFd bufSize w = bind (read_retry api kSrcFd bufSize) (\<lambda>(kReaded, buf) w.
     if kReaded = - 1 then io_failed api {EINTR, EAGAIN, EBADF, EFAULT, EINVAL} w
     else if kReaded = 0 then ret () w
     else bind (fs_assert api (kReaded > 0)) (\<lambda>_ w. bind (write_all api kDstFd buf) (\<lambda>_ w.
       copy_loop api kSrcFd kDstFd bufSize w) w) w) w"

definition close_quietly :: "('w, 'x) file_api_scheme \<Rightarrow> int \<Rightarrow> (unit, 'w) fprog" where
  "close_quietly api fd = andthen (call (os_close api fd)) (ret ())"

text \<open>\<open>closeDstFd\<close> is true during the copy, so an exception there closes the file, and false when the file is
  closed at the end.\<close>

definition copy_opened :: "('w, 'x) file_api_scheme \<Rightarrow> int \<Rightarrow> int \<Rightarrow> nat \<Rightarrow> (unit, 'w) fprog" where
  "copy_opened api kSrcFd kDstFd bufSize = andthen
     (catch (andthen (copy_loop api kSrcFd kDstFd bufSize) (andthen (fs_retry api (os_fsync api kDstFd)) (ret ())))
       (\<lambda>e. andthen (close_quietly api kDstFd) (throw e)))
     (bind (call (os_close api kDstFd)) (\<lambda>rc. if rc = - 1
        then fs_error api (\<lambda>e. if ec_value e \<noteq> EINTR
           then andthen (fs_assert api (ec_value e \<noteq> EBADF)) (throw (FilesystemExc e)) else ret ())
        else ret ()))"

definition copy_from :: "('w, 'x) file_api_scheme \<Rightarrow> int \<Rightarrow> path \<Rightarrow> bool \<Rightarrow> (unit, 'w) fprog" where
  "copy_from api kSrcFd dstFileName failIfExists = bind (call (os_fstat api kSrcFd)) (\<lambda>(rc, st_blksize).
     if rc \<noteq> ESUCCESS then io_failed api {EINTR}
     else bind (fs_retry api (os_open_write api dstFileName failIfExists)) (\<lambda>kDstFd.
       if kDstFd = - 1 then open_failed api else copy_opened api kSrcFd kDstFd st_blksize))"

definition CopyFile :: "('w, 'x) file_api_scheme \<Rightarrow> path \<Rightarrow> path \<Rightarrow> bool \<Rightarrow> (unit, 'w) fprog" where
  "CopyFile api srcFileName dstFileName failIfExists =
     andthen (check (IsValidPath srcFileName True) InvalidArgument) (andthen (check (IsValidPath dstFileName True) InvalidArgument)
     (bind (fs_retry api (os_open_read api srcFileName)) (\<lambda>kSrcFd. if kSrcFd = - 1 then open_failed api
        else scoped (copy_from api kSrcFd dstFileName failIfExists) (close_quietly api kSrcFd))))"

section \<open>Copying a tree\<close>

fun copy_files :: "('w, 'x) file_api_scheme \<Rightarrow> path \<Rightarrow> path \<Rightarrow> bool \<Rightarrow> string list \<Rightarrow> bool \<times> ErrorCode \<Rightarrow> (bool \<times> ErrorCode, 'w) fprog" where
  "copy_files api kSrcPath kDstPath failIfFileExists [] acc = ret acc"
| "copy_files api kSrcPath kDstPath failIfFileExists (name # names) acc =
     bind (with_error_code (CopyFile api (kSrcPath @ [name]) (kDstPath @ [name]) failIfFileExists)) (\<lambda>(ok, tmpErrorCode).
       copy_files api kSrcPath kDstPath failIfFileExists names (if ok then acc else (False, tmpErrorCode)))"

text \<open>A round of the loop on a pair of directories, and the loop over the queue.\<close>

definition copy_directory :: "('w, 'x) file_api_scheme \<Rightarrow> bool \<Rightarrow> path \<Rightarrow> path \<Rightarrow> bool \<times> ErrorCode \<Rightarrow> (bool \<times> ErrorCode, 'w) fprog" where
  "copy_directory api failIfFileExists kSrcPath kDstPath acc =
     bind (with_error_code (MakeDirectory api kDstPath False)) (\<lambda>(ok, tmpErrorCode). \<lambda>w.
       copy_files api kSrcPath kDstPath failIfFileExists (qt_files api kSrcPath w) (if ok then acc else (False, tmpErrorCode)) w)"

partial_function (option) copy_queue :: "('w, 'x) file_api_scheme \<Rightarrow> bool \<Rightarrow> (path \<times> path) list \<Rightarrow> bool \<times> ErrorCode \<Rightarrow> 'w
    \<Rightarrow> (exn, bool \<times> ErrorCode, 'w) res option" where
  [code]: "copy_queue api failIfFileExists queue acc w = (case queue of [] \<Rightarrow> ret acc w
     | (kSrcPath, kDstPath) # rest \<Rightarrow>
        if \<not> qt_exists api kSrcPath w
        then copy_queue api failIfFileExists rest (False, errc_MakeErrorCode errc_no_such_file_or_directory) w
        else bind (copy_directory api failIfFileExists kSrcPath kDstPath acc) (\<lambda>acc w.
          copy_queue api failIfFileExists (rest @ map (\<lambda>name. (kSrcPath @ [name], kDstPath @ [name])) (qt_dirs api kSrcPath w)) acc w) w)"

definition CopyDirectoryRecursively :: "('w, 'x) file_api_scheme \<Rightarrow> path \<Rightarrow> path \<Rightarrow> bool \<Rightarrow> bool \<Rightarrow> (bool \<times> ErrorCode, 'w) fprog" where
  "CopyDirectoryRecursively api srcPath dstPath failIfDstPathExists failIfFileExists =
     andthen (check (IsValidPath srcPath True) InvalidArgument) (andthen (check (IsValidPath dstPath True) InvalidArgument)
     (bind (with_error_code (MakePath api dstPath failIfDstPathExists)) (\<lambda>(ok, tmpErrorCode).
        if \<not> ok then ret (False, tmpErrorCode)
        else copy_queue api failIfFileExists [(srcPath, dstPath)] (True, ErrorCode_default))))"

end
