(* ===== verification/Languages.thy ===== *)
theory Languages
imports Exceptions
begin

text \<open>
  Languages of an application: \<open>LanguageInfo\<close> (\<open>language_info.hpp\<close>, \<open>language_info.cpp\<close>), the supported languages, the
  current one and its translators (\<open>core_application_base.cpp\<close>, \<open>src/gui/application_base.cpp\<close>).

  A \<open>QLocale\<close> is its name.  What Qt and the translation files answer is in \<open>lang_api\<close>; the files do not change.
\<close>

section \<open>\<open>LanguageInfo\<close>\<close>

record language_info =
  li_name :: string
  li_nativeName :: string

record lang_api =
  la_ndebug :: bool
  qlocale :: "string \<Rightarrow> string"
  system_locale :: string
  register_meta_type :: bool
  qm_entries :: "string \<Rightarrow> string \<Rightarrow> string list"
  tr_load :: "string \<Rightarrow> string \<Rightarrow> bool"
  tr_native :: "string \<Rightarrow> string \<Rightarrow> string"
  qt_qm_dir :: string
  qt_sort :: "(language_info \<Rightarrow> language_info \<Rightarrow> bool) \<Rightarrow> language_info list \<Rightarrow> language_info list"

definition GetCodeName :: string where "GetCodeName = ''en_US''"
definition GetCodeNativeName :: string where "GetCodeNativeName = ''English''"
abbreviation (input) "CName \<equiv> ''C''"

definition EmptyArgument :: exn where "EmptyArgument = mk_exn EmptyArgumentException"
definition RuntimeError :: exn where "RuntimeError = mk_exn RuntimeException"

definition locale_format :: "string \<Rightarrow> bool" where
  "locale_format n \<longleftrightarrow> length n = 2 \<or> length n = 5 \<and> n ! 2 = CHR ''_''"

definition LanguageInfo_Set :: "lang_api \<Rightarrow> string \<Rightarrow> string \<Rightarrow> (exn, language_info, 's) prog" where
  "LanguageInfo_Set api localeName nativeName = andthen (check (localeName \<noteq> CName \<or> nativeName = CName) InvalidArgument)
     (andthen (check (localeName \<noteq> GetCodeName \<or> nativeName = GetCodeNativeName) InvalidArgument)
     (andthen (check (nativeName \<noteq> []) EmptyArgument)
     (andthen (cpp_assert (la_ndebug api) (qlocale api [] = CName)) (andthen (cpp_assert (la_ndebug api) (qlocale api ''en'' = GetCodeName))
     (andthen (cpp_assert (la_ndebug api) (qlocale api ''en_US'' = GetCodeName)) (andthen (check (register_meta_type api) RuntimeError)
     (ret \<lparr>li_name = localeName, li_nativeName = nativeName\<rparr>)))))))"

definition LanguageInfo_Set_name :: "lang_api \<Rightarrow> string \<Rightarrow> string \<Rightarrow> (exn, language_info, 's) prog" where
  "LanguageInfo_Set_name api name nativeName = andthen (check (name \<noteq> []) EmptyArgument)
     (andthen (check (locale_format name) InvalidArgument) (LanguageInfo_Set api (qlocale api name) nativeName))"

definition GetCodeLanguageInfo :: "lang_api \<Rightarrow> (exn, language_info, 's) prog" where
  "GetCodeLanguageInfo api = LanguageInfo_Set api GetCodeName GetCodeNativeName"

definition GetCLanguageInfo :: "lang_api \<Rightarrow> (exn, language_info, 's) prog" where
  "GetCLanguageInfo api = LanguageInfo_Set api CName CName"

definition li_eq :: "lang_api \<Rightarrow> language_info \<Rightarrow> language_info \<Rightarrow> (exn, bool, 's) prog" where
  "li_eq api a b = andthen (cpp_assert (la_ndebug api) (li_name a = li_name b \<and> li_nativeName a = li_nativeName b
       \<or> li_name a \<noteq> li_name b \<and> li_nativeName a \<noteq> li_nativeName b)) (ret (li_name a = li_name b))"

text \<open>\<open>QString\<close>s are compared by the values of their characters.\<close>

fun qstring_less :: "string \<Rightarrow> string \<Rightarrow> bool" where
  "qstring_less _ [] = False"
| "qstring_less [] (_ # _) = True"
| "qstring_less (a # as) (b # bs) = ((of_char a :: nat) < of_char b \<or> a = b \<and> qstring_less as bs)"

definition li_less :: "language_info \<Rightarrow> language_info \<Rightarrow> bool" where
  "li_less a b = qstring_less (li_nativeName a) (li_nativeName b)"

section \<open>The application\<close>

datatype translator = Qt_Translator | Base_Translator | Util_Translator | CopyDialog_Translator | Gui_Translator

record lang_app =
  qmPath :: string
  qmNamePrefix :: string
  isSystemLocalePreferred :: bool
  currentLanguageInfo :: language_info
  loaded :: "translator \<Rightarrow> (string \<times> string) option"
  installed :: "translator list"

type_synonym ('a, 'w) lprog = "(exn, 'a, 'w \<times> lang_app) prog"

fun contains :: "lang_api \<Rightarrow> language_info \<Rightarrow> language_info list \<Rightarrow> (exn, bool, 's) prog" where
  "contains api x [] = ret False"
| "contains api x (y # ys) = bind (li_eq api y x) (\<lambda>eq. if eq then ret True else contains api x ys)"

definition valid_qm_path :: "string \<Rightarrow> bool" where
  "valid_qm_path path \<longleftrightarrow> path \<noteq> [] \<and> CHR 0x5C \<notin> set path"

definition SetQmInfo :: "string \<Rightarrow> string \<Rightarrow> (unit, 'w) lprog" where
  "SetQmInfo path prefix = andthen (check (valid_qm_path path) InvalidArgument) (andthen (check (prefix \<noteq> []) EmptyArgument)
     (modify (\<lambda>s. s\<lparr>qmPath := path, qmNamePrefix := prefix\<rparr>)))"

definition locale_of_entry :: "string \<Rightarrow> string \<Rightarrow> string" where
  "locale_of_entry prefix entry = (let n = drop (length prefix) entry in take (length n - 3) n)"

fun locales_loop :: "lang_api \<Rightarrow> string \<Rightarrow> string list \<Rightarrow> string list \<Rightarrow> (string list, 'w) lprog" where
  "locales_loop api prefix [] acc = ret acc"
| "locales_loop api prefix (entry # entries) acc = andthen (check (locale_format (locale_of_entry prefix entry)) RuntimeError)
     (let l = qlocale api (locale_of_entry prefix entry) in andthen (check (l \<noteq> CName) RuntimeError)
     (andthen (check (l \<noteq> GetCodeName) RuntimeError) (andthen (cpp_assert (la_ndebug api) (l \<notin> set acc))
       (locales_loop api prefix entries (acc @ [l])))))"

definition GetSupportedLocales :: "lang_api \<Rightarrow> (string list, 'w) lprog" where
  "GetSupportedLocales api = bind (this id) (\<lambda>s. if qmPath s = [] then ret [GetCodeName] else if qmNamePrefix s = [] then ret [GetCodeName]
     else locales_loop api (qmNamePrefix s) (qm_entries api (qmPath s) (qmNamePrefix s)) [GetCodeName])"

fun infos_loop :: "lang_api \<Rightarrow> string \<Rightarrow> string \<Rightarrow> string list \<Rightarrow> language_info list \<Rightarrow> (language_info list, 'w) lprog" where
  "infos_loop api path prefix [] acc = ret acc"
| "infos_loop api path prefix (l # ls) acc = (if l = GetCodeName
     then bind (GetCodeLanguageInfo api) (\<lambda>info. infos_loop api path prefix ls (acc @ [info]))
     else andthen (check (tr_load api (prefix @ l) path) RuntimeError) (let native = tr_native api (prefix @ l) path in
       andthen (check (native \<noteq> []) RuntimeError) (andthen (check (native \<noteq> GetCodeNativeName) RuntimeError)
       (bind (LanguageInfo_Set api l native) (\<lambda>info.
         andthen (if la_ndebug api then ret () else bind (contains api info acc) (\<lambda>dup. cpp_assert False (\<not> dup)))
           (infos_loop api path prefix ls (acc @ [info])))))))"

definition GetSupportedLanguageInfos :: "lang_api \<Rightarrow> (language_info list, 'w) lprog" where
  "GetSupportedLanguageInfos api = bind (GetSupportedLocales api) (\<lambda>ls. bind (this id) (\<lambda>s.
     bind (infos_loop api (qmPath s) (qmNamePrefix s) ls []) (\<lambda>infos. ret (qt_sort api li_less infos))))"

definition GetDefaultLanguageInfo :: "lang_api \<Rightarrow> (language_info, 'w) lprog" where
  "GetDefaultLanguageInfo api = bind (GetCodeLanguageInfo api) (\<lambda>def. bind (this isSystemLocalePreferred) (\<lambda>pref.
     if \<not> pref \<or> system_locale api = GetCodeName then ret def
     else bind (GetSupportedLanguageInfos api) (\<lambda>infos.
       ret (case List.find (\<lambda>info. li_name info = system_locale api) infos of None \<Rightarrow> def | Some info \<Rightarrow> info))))"

section \<open>Translators\<close>

text \<open>\<open>removeTranslator\<close> of a translator that holds something, and loading with \<open>installTranslator\<close>, which puts the
  translator first.  A failed \<open>load\<close> leaves the translator empty.\<close>

definition remove_translator :: "translator \<Rightarrow> (unit, 'w) lprog" where
  "remove_translator t = modify (\<lambda>s. if loaded s t \<noteq> None then s\<lparr>installed := removeAll t (installed s)\<rparr> else s)"

definition load_translator :: "lang_api \<Rightarrow> translator \<Rightarrow> string \<Rightarrow> string \<Rightarrow> (bool, 'w) lprog" where
  "load_translator api t file dir = (let ok = tr_load api file dir in
     andthen (modify (\<lambda>s. s\<lparr>loaded := (loaded s)(t := if ok then Some (file, dir) else None)\<rparr>))
       (andthen (if ok then modify (\<lambda>s. s\<lparr>installed := t # installed s\<rparr>) else ret ()) (ret ok)))"

definition Core_SetupTranslators :: "lang_api \<Rightarrow> (bool, 'w) lprog" where
  "Core_SetupTranslators api = andthen (remove_translator Util_Translator) (andthen (remove_translator Base_Translator)
     (andthen (remove_translator Qt_Translator) (bind (this currentLanguageInfo) (\<lambda>lang. bind (GetCodeLanguageInfo api) (\<lambda>code.
      bind (li_eq api lang code) (\<lambda>isCode. if isCode then ret True
      else bind (load_translator api Qt_Translator (''qtbase_'' @ li_name lang) (qt_qm_dir api)) (\<lambda>ok1.
        bind (load_translator api Base_Translator (''tr_'' @ li_name lang) '':/cppdevtk/base/res/tr'') (\<lambda>ok2.
        bind (load_translator api Util_Translator (''tr_'' @ li_name lang) '':/cppdevtk/util/res/tr'') (\<lambda>ok3.
          ret (ok1 \<and> ok2 \<and> ok3))))))))))"

definition Gui_SetupTranslators :: "lang_api \<Rightarrow> (bool, 'w) lprog" where
  "Gui_SetupTranslators api = andthen (remove_translator Gui_Translator) (andthen (remove_translator CopyDialog_Translator)
     (bind (Core_SetupTranslators api) (\<lambda>ok. bind (this currentLanguageInfo) (\<lambda>lang. if li_name lang = GetCodeName then ret ok
      else bind (load_translator api CopyDialog_Translator (''tr_'' @ li_name lang) '':/cppdevtk/QtSolutions/QtCopyDialog/res/tr'') (\<lambda>ok1.
        bind (load_translator api Gui_Translator (''tr_'' @ li_name lang) '':/cppdevtk/gui/res/tr'') (\<lambda>ok2. ret (ok \<and> ok1 \<and> ok2)))))))"

text \<open>\<open>SetupTranslators\<close> is virtual: \<open>gui\<close> says which class the application has.\<close>

definition SetCurrentLanguageInfo :: "lang_api \<Rightarrow> bool \<Rightarrow> language_info \<Rightarrow> (unit, 'w) lprog" where
  "SetCurrentLanguageInfo api gui info = bind (GetCLanguageInfo api) (\<lambda>c. bind (li_eq api info c) (\<lambda>isC. andthen (check (\<not> isC) InvalidArgument)
     (bind (GetSupportedLanguageInfos api) (\<lambda>infos. bind (contains api info infos) (\<lambda>sup. andthen (check sup InvalidArgument)
     (andthen (modify (\<lambda>s. s\<lparr>currentLanguageInfo := info\<rparr>))
       (andthen (if gui then Gui_SetupTranslators api else Core_SetupTranslators api) (ret ()))))))))"

text \<open>The constructors of the applications set the default language.\<close>

definition Application_ctor :: "lang_api \<Rightarrow> bool \<Rightarrow> (unit, 'w) lprog" where
  "Application_ctor api gui = bind (GetDefaultLanguageInfo api) (SetCurrentLanguageInfo api gui)"

datatype luse = Use_Language language_info | Use_QmInfo string string | Use_System bool | Use_Default

fun lang_use :: "lang_api \<Rightarrow> bool \<Rightarrow> luse \<Rightarrow> (unit, 'w) lprog" where
  "lang_use api gui (Use_Language info) = SetCurrentLanguageInfo api gui info"
| "lang_use api gui (Use_QmInfo path prefix) = SetQmInfo path prefix"
| "lang_use api gui (Use_System b) = modify (\<lambda>s. s\<lparr>isSystemLocalePreferred := b\<rparr>)"
| "lang_use api gui Use_Default = Application_ctor api gui"

definition first_lang_app :: lang_app where
  "first_lang_app = \<lparr>qmPath = [], qmNamePrefix = [], isSystemLocalePreferred = False,
     currentLanguageInfo = \<lparr>li_name = GetCodeName, li_nativeName = GetCodeNativeName\<rparr>, loaded = (\<lambda>_. None), installed = []\<rparr>"

inductive lang_run :: "lang_api \<Rightarrow> bool \<Rightarrow> luse list \<Rightarrow> lang_app \<Rightarrow> bool" for api gui where
  start: "lang_run api gui [] first_lang_app"
| returns: "lang_run api gui us s \<Longrightarrow> lang_use api gui u ((), s) = Some (Ret () ((), s')) \<Longrightarrow> lang_run api gui (us @ [u]) s'"
| throws: "lang_run api gui us s \<Longrightarrow> lang_use api gui u ((), s) = Some (Exc e ((), s')) \<Longrightarrow> lang_run api gui (us @ [u]) s'"

section \<open>What Qt promises\<close>

definition code_info :: language_info where
  "code_info = \<lparr>li_name = GetCodeName, li_nativeName = GetCodeNativeName\<rparr>"

text \<open>The translator of a language a file holds, and the order in which installed translators are asked.\<close>

fun qm_file :: "lang_api \<Rightarrow> translator \<Rightarrow> string \<Rightarrow> string \<times> string" where
  "qm_file api Qt_Translator l = (''qtbase_'' @ l, qt_qm_dir api)"
| "qm_file api Base_Translator l = (''tr_'' @ l, '':/cppdevtk/base/res/tr'')"
| "qm_file api Util_Translator l = (''tr_'' @ l, '':/cppdevtk/util/res/tr'')"
| "qm_file api CopyDialog_Translator l = (''tr_'' @ l, '':/cppdevtk/QtSolutions/QtCopyDialog/res/tr'')"
| "qm_file api Gui_Translator l = (''tr_'' @ l, '':/cppdevtk/gui/res/tr'')"

definition translators :: "bool \<Rightarrow> translator list" where
  "translators gui = (if gui then [Gui_Translator, CopyDialog_Translator] else []) @ [Util_Translator, Base_Translator, Qt_Translator]"

text \<open>The languages that are supported, the code language and those of the files, and the default one among them.\<close>

definition info_of :: "lang_api \<Rightarrow> string \<Rightarrow> string \<Rightarrow> string \<Rightarrow> language_info" where
  "info_of api path prefix l = (if l = GetCodeName then code_info else \<lparr>li_name = l, li_nativeName = tr_native api (prefix @ l) path\<rparr>)"

definition locales_of :: "lang_api \<Rightarrow> lang_app \<Rightarrow> string list" where
  "locales_of api s = GetCodeName # (if qmPath s = [] \<or> qmNamePrefix s = [] then []
     else map (\<lambda>e. qlocale api (locale_of_entry (qmNamePrefix s) e)) (qm_entries api (qmPath s) (qmNamePrefix s)))"

definition infos_of :: "lang_api \<Rightarrow> lang_app \<Rightarrow> language_info list" where
  "infos_of api s = qt_sort api li_less (map (info_of api (qmPath s) (qmNamePrefix s)) (locales_of api s))"

definition default_of :: "lang_api \<Rightarrow> lang_app \<Rightarrow> language_info" where
  "default_of api s = (if \<not> isSystemLocalePreferred s \<or> system_locale api = GetCodeName then code_info
     else case List.find (\<lambda>info. li_name info = system_locale api) (infos_of api s) of None \<Rightarrow> code_info | Some info \<Rightarrow> info)"

locale qt_languages =
  fixes api :: lang_api
  assumes names: "qlocale api [] = CName" "qlocale api ''en'' = GetCodeName" "qlocale api ''en_US'' = GetCodeName"
    and registers: "register_meta_type api"
    and sorts: "mset (qt_sort api li_less infos) = mset infos" "sorted_wrt (\<lambda>a b. \<not> li_less b a) (qt_sort api li_less infos)"
begin

lemma Set_eval:
  assumes "l \<noteq> CName" "l \<noteq> GetCodeName" "n \<noteq> []"
  shows "LanguageInfo_Set api l n st = Some (Ret \<lparr>li_name = l, li_nativeName = n\<rparr> st)"
  using assms names registers by (simp add: LanguageInfo_Set_def)

lemma code_eval: "GetCodeLanguageInfo api st = Some (Ret code_info st)"
  using names registers by (simp add: GetCodeLanguageInfo_def LanguageInfo_Set_def code_info_def GetCodeName_def GetCodeNativeName_def)

lemma C_eval: "GetCLanguageInfo api st = Some (Ret \<lparr>li_name = CName, li_nativeName = CName\<rparr> st)"
  using names registers by (simp add: GetCLanguageInfo_def LanguageInfo_Set_def GetCodeName_def)

text \<open>Assertions end the program in a debug build.\<close>

definition aborts :: "('e, 'a, 's) res option \<Rightarrow> 's \<Rightarrow> bool" where
  "aborts r st \<longleftrightarrow> \<not> la_ndebug api \<and> r = Some (Term st)"

lemma li_eq_outcome: "li_eq api a b st = Some (Ret (li_name a = li_name b) st) \<or> aborts (li_eq api a b st) st"
  by (auto simp: li_eq_def aborts_def bind_def cpp_assert_def)

lemma contains_outcome: "contains api x ys st = Some (Ret (li_name x \<in> li_name ` set ys) st) \<or> aborts (contains api x ys st) st"
proof (induction ys)
  case (Cons y ys)
  then show ?case using li_eq_outcome[of y x st]
    by (cases "li_name y = li_name x") (auto simp: aborts_def)
qed simp

lemma locales_outcome:
  "(let ls = map (\<lambda>e. qlocale api (locale_of_entry prefix e)) entries in locales_loop api prefix entries acc st = Some (Ret (acc @ ls) st)
      \<and> (\<forall>l \<in> set ls. l \<noteq> CName \<and> l \<noteq> GetCodeName) \<and> (\<not> la_ndebug api \<longrightarrow> distinct acc \<longrightarrow> distinct (acc @ ls)))
    \<or> locales_loop api prefix entries acc st = Some (Exc RuntimeError st) \<or> aborts (locales_loop api prefix entries acc st) st"
proof (induction entries arbitrary: acc)
  case (Cons e entries)
  let ?l = "qlocale api (locale_of_entry prefix e)"
  show ?case
  proof (cases "locale_format (locale_of_entry prefix e) \<and> ?l \<noteq> CName \<and> ?l \<noteq> GetCodeName")
    case False
    then show ?thesis by (cases "locale_format (locale_of_entry prefix e)"; cases "?l = CName") (auto simp: Let_def)
  next
    case ok: True
    show ?thesis
    proof (cases "la_ndebug api \<or> ?l \<notin> set acc")
      case False
      then show ?thesis using ok by (simp add: aborts_def Let_def)
    next
      case True
      then have "locales_loop api prefix (e # entries) acc st = locales_loop api prefix entries (acc @ [?l]) st"
        using ok by (simp add: Let_def)
      then show ?thesis using Cons.IH[of "acc @ [?l]"] ok True by (auto simp: Let_def)
    qed
  qed
qed simp

definition info_ok :: "string \<Rightarrow> string \<Rightarrow> string \<Rightarrow> bool" where
  "info_ok path prefix l \<longleftrightarrow> l = GetCodeName \<or> tr_load api (prefix @ l) path \<and> tr_native api (prefix @ l) path \<notin> {[], GetCodeNativeName}"

lemma infos_outcome:
  assumes "\<forall>l \<in> set ls. l \<noteq> CName"
  shows "infos_loop api path prefix ls acc st = Some (Ret (acc @ map (info_of api path prefix) ls) st) \<and> (\<forall>l \<in> set ls. info_ok path prefix l)
    \<or> infos_loop api path prefix ls acc st = Some (Exc RuntimeError st) \<or> aborts (infos_loop api path prefix ls acc st) st"
  using assms
proof (induction ls arbitrary: acc)
  case (Cons l ls)
  show ?case
  proof (cases "info_ok path prefix l")
    case False
    then show ?thesis by (cases "tr_load api (prefix @ l) path"; cases "tr_native api (prefix @ l) path = []") (auto simp: info_ok_def Let_def)
  next
    case ok: True
    let ?i = "info_of api path prefix l"
    consider "infos_loop api path prefix (l # ls) acc st = infos_loop api path prefix ls (acc @ [?i]) st"
      | "aborts (infos_loop api path prefix (l # ls) acc st) st"
    proof (cases "l = GetCodeName")
      case True
      then show ?thesis using that(1) by (simp add: code_eval info_of_def)
    next
      case False
      then have e: "LanguageInfo_Set api l (tr_native api (prefix @ l) path) st = Some (Ret ?i st)"
        using ok Cons.prems Set_eval by (auto simp: info_ok_def info_of_def)
      show ?thesis using contains_outcome[of ?i acc st] that False ok e
        by (cases "la_ndebug api"; cases "li_name ?i \<in> li_name ` set acc") (auto simp: info_ok_def Let_def aborts_def)
    qed
    then show ?thesis using Cons.IH[of "acc @ [?i]"] Cons.prems ok by cases auto
  qed
qed simp

definition files_ok :: "lang_app \<Rightarrow> bool" where
  "files_ok s \<longleftrightarrow> (\<forall>l \<in> set (tl (locales_of api s)). l \<noteq> CName \<and> l \<noteq> GetCodeName) \<and> (\<forall>l \<in> set (locales_of api s). info_ok (qmPath s) (qmNamePrefix s) l)
     \<and> (\<not> la_ndebug api \<longrightarrow> distinct (locales_of api s))"

lemma supported_outcome:
  "GetSupportedLanguageInfos api (w, s) = Some (Ret (infos_of api s) (w, s)) \<and> files_ok s
    \<or> GetSupportedLanguageInfos api (w, s) = Some (Exc RuntimeError (w, s)) \<or> aborts (GetSupportedLanguageInfos api (w, s)) (w, s)"
proof -
  have code: "GetCodeName \<noteq> CName" by (simp add: GetCodeName_def)
  have l: "GetSupportedLocales api (w, s) = Some (Ret (locales_of api s) (w, s)) \<and> (\<forall>l \<in> set (tl (locales_of api s)). l \<noteq> CName \<and> l \<noteq> GetCodeName)
        \<and> (\<not> la_ndebug api \<longrightarrow> distinct (locales_of api s))
      \<or> GetSupportedLocales api (w, s) = Some (Exc RuntimeError (w, s)) \<or> aborts (GetSupportedLocales api (w, s)) (w, s)"
    using locales_outcome[of "qmNamePrefix s" "qm_entries api (qmPath s) (qmNamePrefix s)" "[GetCodeName]" "(w, s)"]
    by (cases "qmPath s = [] \<or> qmNamePrefix s = []") (auto simp: GetSupportedLocales_def locales_of_def Let_def)
  then consider "GetSupportedLocales api (w, s) = Some (Ret (locales_of api s) (w, s))" "\<forall>l \<in> set (tl (locales_of api s)). l \<noteq> CName \<and> l \<noteq> GetCodeName"
      "\<not> la_ndebug api \<longrightarrow> distinct (locales_of api s)" | "GetSupportedLocales api (w, s) = Some (Exc RuntimeError (w, s))" | "aborts (GetSupportedLocales api (w, s)) (w, s)"
    by blast
  then show ?thesis
  proof cases
    case 1
    have "\<forall>l \<in> set (locales_of api s). l \<noteq> CName" using 1(2) code by (simp add: locales_of_def)
    from infos_outcome[OF this, of "qmPath s" "qmNamePrefix s" "[]" "(w, s)"]
    show ?thesis
    proof (elim disjE conjE)
      assume i: "infos_loop api (qmPath s) (qmNamePrefix s) (locales_of api s) [] (w, s) = Some (Ret ([] @ map (info_of api (qmPath s) (qmNamePrefix s)) (locales_of api s)) (w, s))"
        "\<forall>l \<in> set (locales_of api s). info_ok (qmPath s) (qmNamePrefix s) l"
      then have "files_ok s" using 1(2,3) by (simp only: files_ok_def simp_thms)
      moreover have "GetSupportedLanguageInfos api (w, s) = Some (Ret (infos_of api s) (w, s))"
        using 1(1) i(1) by (simp add: GetSupportedLanguageInfos_def infos_of_def)
      ultimately show ?thesis by blast
    next
      assume "infos_loop api (qmPath s) (qmNamePrefix s) (locales_of api s) [] (w, s) = Some (Exc RuntimeError (w, s))"
      then show ?thesis using 1(1) by (simp add: GetSupportedLanguageInfos_def)
    next
      assume "aborts (infos_loop api (qmPath s) (qmNamePrefix s) (locales_of api s) [] (w, s)) (w, s)"
      then show ?thesis using 1(1) by (simp add: GetSupportedLanguageInfos_def aborts_def)
    qed
  next
    case 2
    then show ?thesis by (simp add: GetSupportedLanguageInfos_def)
  next
    case 3
    then show ?thesis by (simp add: GetSupportedLanguageInfos_def aborts_def)
  qed
qed

lemma infos_members: "set (infos_of api s) = info_of api (qmPath s) (qmNamePrefix s) ` set (locales_of api s)"
proof -
  have "set (infos_of api s) = set_mset (mset (infos_of api s))" by simp
  also have "\<dots> = info_of api (qmPath s) (qmNamePrefix s) ` set (locales_of api s)" unfolding infos_of_def sorts by simp
  finally show ?thesis .
qed

lemma info_name [simp]: "li_name (info_of api path prefix l) = l"
  by (simp add: info_of_def code_info_def)

lemma supported_Ret:
  assumes r: "GetSupportedLanguageInfos api (w, s) = Some (Ret infos (w', s'))"
  shows "w' = w \<and> s' = s \<and> sorted_wrt (\<lambda>a b. \<not> li_less b a) infos \<and> size (filter_mset (\<lambda>i. li_name i = GetCodeName) (mset infos)) = 1
    \<and> (\<forall>i \<in> set infos. i = code_info \<or> (\<exists>e \<in> set (qm_entries api (qmPath s) (qmNamePrefix s)).
         li_name i = qlocale api (locale_of_entry (qmNamePrefix s) e) \<and> li_name i \<noteq> CName
         \<and> tr_load api (qmNamePrefix s @ li_name i) (qmPath s) \<and> li_nativeName i = tr_native api (qmNamePrefix s @ li_name i) (qmPath s)
         \<and> li_nativeName i \<noteq> [] \<and> li_nativeName i \<noteq> GetCodeNativeName))
    \<and> (\<not> la_ndebug api \<longrightarrow> distinct (map li_name infos))"
proof -
  have i: "infos = infos_of api s" "w' = w" "s' = s" and f: "files_ok s"
    using supported_outcome[of w s] r by (auto simp: aborts_def)
  have m: "mset infos = image_mset (info_of api (qmPath s) (qmNamePrefix s)) (mset (locales_of api s))"
    unfolding i(1) infos_of_def sorts by simp
  have names: "image_mset li_name (mset infos) = mset (locales_of api s)"
    unfolding m multiset.map_comp comp_def info_name by simp
  have "size (filter_mset (\<lambda>i. li_name i = GetCodeName) (mset infos)) = count (mset (locales_of api s)) GetCodeName"
    unfolding names[symmetric] count_image_mset' by (auto simp: size_multiset_overloaded_eq intro!: sum.cong)
  moreover have "count (mset (locales_of api s)) GetCodeName = 1"
    using f by (auto simp: files_ok_def locales_of_def count_eq_zero_iff)
  moreover have "sorted_wrt (\<lambda>a b. \<not> li_less b a) infos" unfolding i(1) infos_of_def by (rule sorts)
  moreover have "distinct (map li_name infos)" if "\<not> la_ndebug api"
  proof -
    have "mset (map li_name infos) = mset (locales_of api s)" using names by simp
    then have "distinct (map li_name infos) = distinct (locales_of api s)" by (rule mset_eq_imp_distinct_iff)
    then show ?thesis using f that by (simp add: files_ok_def)
  qed
  moreover have "\<exists>e \<in> set (qm_entries api (qmPath s) (qmNamePrefix s)).
         li_name x = qlocale api (locale_of_entry (qmNamePrefix s) e) \<and> li_name x \<noteq> CName
         \<and> tr_load api (qmNamePrefix s @ li_name x) (qmPath s) \<and> li_nativeName x = tr_native api (qmNamePrefix s @ li_name x) (qmPath s)
         \<and> li_nativeName x \<noteq> [] \<and> li_nativeName x \<noteq> GetCodeNativeName" if x: "x \<in> set infos" "x \<noteq> code_info" for x
  proof -
    obtain l where l: "l \<in> set (locales_of api s)" "x = info_of api (qmPath s) (qmNamePrefix s) l"
      using x(1) unfolding i(1) infos_members by blast
    then have c: "l \<noteq> GetCodeName" using x(2) by (auto simp: info_of_def)
    then have t: "l \<in> set (tl (locales_of api s))" using l(1) by (auto simp: locales_of_def)
    then obtain e where "e \<in> set (qm_entries api (qmPath s) (qmNamePrefix s))" "l = qlocale api (locale_of_entry (qmNamePrefix s) e)"
      by (auto simp: locales_of_def split: if_splits)
    moreover have "l \<noteq> CName" "info_ok (qmPath s) (qmNamePrefix s) l" using f t l(1) by (auto simp: files_ok_def)
    ultimately show ?thesis using l(2) c by (auto simp: info_of_def info_ok_def)
  qed
  ultimately show ?thesis using i(2,3) by auto
qed

lemma default_outcome:
  "GetDefaultLanguageInfo api (w, s) = Some (Ret (default_of api s) (w, s))
    \<or> GetDefaultLanguageInfo api (w, s) = Some (Exc RuntimeError (w, s)) \<or> aborts (GetDefaultLanguageInfo api (w, s)) (w, s)"
proof (cases "\<not> isSystemLocalePreferred s \<or> system_locale api = GetCodeName")
  case True
  then show ?thesis by (auto simp: GetDefaultLanguageInfo_def default_of_def code_eval)
next
  case False
  from supported_outcome[of w s] show ?thesis
  proof (elim disjE conjE)
    assume "GetSupportedLanguageInfos api (w, s) = Some (Ret (infos_of api s) (w, s))"
    then show ?thesis using False by (simp add: GetDefaultLanguageInfo_def default_of_def code_eval)
  next
    assume "GetSupportedLanguageInfos api (w, s) = Some (Exc RuntimeError (w, s))"
    then show ?thesis using False by (simp add: GetDefaultLanguageInfo_def code_eval)
  next
    assume "aborts (GetSupportedLanguageInfos api (w, s)) (w, s)"
    then show ?thesis using False by (simp add: GetDefaultLanguageInfo_def code_eval aborts_def)
  qed
qed

lemma code_supported: "code_info \<in> set (infos_of api s)"
proof -
  have "info_of api (qmPath s) (qmNamePrefix s) GetCodeName = code_info" by (simp add: info_of_def)
  then show ?thesis unfolding infos_members by (force simp: locales_of_def)
qed

lemma default_supported: "default_of api s \<in> set (infos_of api s)"
  using code_supported by (auto simp: default_of_def find_Some_iff split: option.splits)

section \<open>The invariant of the translators\<close>

definition lang_inv :: "bool \<Rightarrow> lang_app \<Rightarrow> bool" where
  "lang_inv gui s \<longleftrightarrow> (\<forall>t. t \<notin> set (translators gui) \<longrightarrow> loaded s t = None)
     \<and> installed s = (if li_name (currentLanguageInfo s) = GetCodeName then [] else filter (\<lambda>t. loaded s t \<noteq> None) (translators gui))
     \<and> (\<forall>t \<in> set (installed s). loaded s t = Some (qm_file api t (li_name (currentLanguageInfo s))))"

text \<open>What is known before the translators are set up: the current language may have changed already.\<close>

definition lang_pre :: "bool \<Rightarrow> lang_app \<Rightarrow> bool" where
  "lang_pre gui s \<longleftrightarrow> (\<forall>t. t \<notin> set (translators gui) \<longrightarrow> loaded s t = None) \<and> (\<forall>t \<in> set (installed s). loaded s t \<noteq> None)"

lemma remove_eval:
  assumes "\<forall>t \<in> set (installed s). loaded s t \<noteq> None"
  shows "remove_translator t (w, s) = Some (Ret () (w, s\<lparr>installed := removeAll t (installed s)\<rparr>))"
proof (cases "loaded s t")
  case None
  then have "t \<notin> set (installed s)" using assms by auto
  then show ?thesis using None by (simp add: remove_translator_def)
qed (simp add: remove_translator_def)

lemma load_eval:
  "load_translator api t file dir (w, s) = Some (Ret (tr_load api file dir)
     (w, s\<lparr>loaded := (loaded s)(t := if tr_load api file dir then Some (file, dir) else None),
        installed := (if tr_load api file dir then [t] else []) @ installed s\<rparr>))"
  by (cases "tr_load api file dir") (simp_all add: load_translator_def)

text \<open>The state after the translators of \<open>ts\<close>, the first of them last, were loaded for a language.\<close>

definition works :: "translator \<Rightarrow> string \<Rightarrow> bool" where
  "works t l \<longleftrightarrow> tr_load api (fst (qm_file api t l)) (snd (qm_file api t l))"

fun load_all :: "translator list \<Rightarrow> string \<Rightarrow> lang_app \<Rightarrow> lang_app" where
  "load_all [] l s = s"
| "load_all (t # ts) l s = (let s = load_all ts l s in s\<lparr>loaded := (loaded s)(t := if works t l then Some (qm_file api t l) else None),
     installed := (if works t l then [t] else []) @ installed s\<rparr>)"

lemma load_one: "load_translator api t (fst (qm_file api t l)) (snd (qm_file api t l)) (w, s) =
    Some (Ret (works t l) (w, load_all [t] l s))"
  by (simp add: load_eval works_def Let_def)

lemma load_all_fields [simp]:
  "currentLanguageInfo (load_all ts l s) = currentLanguageInfo s" "qmPath (load_all ts l s) = qmPath s"
  "qmNamePrefix (load_all ts l s) = qmNamePrefix s"
  by (induction ts) (simp_all add: Let_def)

lemma load_all_loaded: "loaded (load_all ts l s) t = (if t \<in> set ts then if works t l then Some (qm_file api t l) else None else loaded s t)"
  by (induction ts) (auto simp: Let_def)

lemma load_all_installed: "installed (load_all ts l s) = filter (\<lambda>t. works t l) ts @ installed s"
  by (induction ts) (auto simp: Let_def)

lemma load_all_inv:
  assumes "installed s = []" "li_name (currentLanguageInfo s) \<noteq> GetCodeName" "\<forall>t. t \<notin> set (translators gui) \<longrightarrow> loaded s t = None"
  shows "lang_inv gui (load_all (translators gui) (li_name (currentLanguageInfo s)) s)"
proof -
  have "filter (\<lambda>t. works t l) ts = filter (\<lambda>t. loaded (load_all ts l s) t \<noteq> None) ts" for ts l
    by (rule filter_cong) (simp_all add: load_all_loaded)
  then show ?thesis using assms by (auto simp: lang_inv_def load_all_installed load_all_loaded)
qed

lemma core_outcome:
  assumes pre: "\<forall>t \<in> set (installed s). loaded s t \<noteq> None"
  shows "let l = li_name (currentLanguageInfo s); s0 = s\<lparr>installed := removeAll Qt_Translator (removeAll Base_Translator (removeAll Util_Translator (installed s)))\<rparr> in
    (\<exists>b. Core_SetupTranslators api (w, s) = Some (Ret b (w, if l = GetCodeName then s0 else load_all [Util_Translator, Base_Translator, Qt_Translator] l s0)))
    \<or> aborts (Core_SetupTranslators api (w, s)) (w, s0)"
proof -
  define l where "l = li_name (currentLanguageInfo s)"
  define s0 where "s0 = s\<lparr>installed := removeAll Qt_Translator (removeAll Base_Translator (removeAll Util_Translator (installed s)))\<rparr>"
  have cur: "currentLanguageInfo s0 = currentLanguageInfo s" by (simp add: s0_def)
  have rm: "Core_SetupTranslators api (w, s) = bind (this currentLanguageInfo) (\<lambda>lang. bind (GetCodeLanguageInfo api) (\<lambda>code.
      bind (li_eq api lang code) (\<lambda>isCode. if isCode then ret True
      else bind (load_translator api Qt_Translator (''qtbase_'' @ li_name lang) (qt_qm_dir api)) (\<lambda>ok1.
        bind (load_translator api Base_Translator (''tr_'' @ li_name lang) '':/cppdevtk/base/res/tr'') (\<lambda>ok2.
        bind (load_translator api Util_Translator (''tr_'' @ li_name lang) '':/cppdevtk/util/res/tr'') (\<lambda>ok3.
          ret (ok1 \<and> ok2 \<and> ok3))))))) (w, s0)"
    using pre by (simp add: Core_SetupTranslators_def remove_eval s0_def)
  have eq: "li_eq api (currentLanguageInfo s) code_info (w, s0) = Some (Ret (l = GetCodeName) (w, s0)) \<or> aborts (li_eq api (currentLanguageInfo s) code_info (w, s0)) (w, s0)"
    using li_eq_outcome[of "currentLanguageInfo s" code_info "(w, s0)"] by (simp add: l_def code_info_def)
  then have "(\<exists>b. Core_SetupTranslators api (w, s) = Some (Ret b (w, if l = GetCodeName then s0 else load_all [Util_Translator, Base_Translator, Qt_Translator] l s0)))
    \<or> aborts (Core_SetupTranslators api (w, s)) (w, s0)"
  proof
    assume e: "li_eq api (currentLanguageInfo s) code_info (w, s0) = Some (Ret (l = GetCodeName) (w, s0))"
    show ?thesis
    proof (cases "l = GetCodeName")
      case True
      then have "Core_SetupTranslators api (w, s) = Some (Ret True (w, s0))" unfolding rm using e by (simp add: code_eval cur)
      then show ?thesis using True by (intro disjI1 exI[of _ True]) simp
    next
      case False
      note one = load_one[of Qt_Translator l w] load_one[of Base_Translator l w] load_one[of Util_Translator l w]
      have "\<exists>b. Core_SetupTranslators api (w, s) = Some (Ret b (w, load_all [Util_Translator] l (load_all [Base_Translator] l (load_all [Qt_Translator] l s0))))"
        unfolding rm using e False one by (simp add: code_eval cur l_def[symmetric] del: load_all.simps)
      then show ?thesis using False by simp
    qed
  next
    assume "aborts (li_eq api (currentLanguageInfo s) code_info (w, s0)) (w, s0)"
    then show ?thesis unfolding rm by (simp add: code_eval cur aborts_def)
  qed
  then show ?thesis unfolding Let_def l_def s0_def .
qed

lemma nothing_installed:
  assumes "lang_pre gui s"
  shows "filter (\<lambda>t. t \<notin> set (translators gui)) (installed s) = []"
  using assms by (fastforce simp: lang_pre_def filter_empty_conv)

lemma setup_outcome:
  assumes pre: "lang_pre gui s"
  shows "(\<exists>b s'. (if gui then Gui_SetupTranslators api else Core_SetupTranslators api) (w, s) = Some (Ret b (w, s')) \<and> lang_inv gui s'
      \<and> currentLanguageInfo s' = currentLanguageInfo s)
    \<or> (\<exists>s'. aborts ((if gui then Gui_SetupTranslators api else Core_SetupTranslators api) (w, s)) (w, s'))"
proof -
  let ?l = "li_name (currentLanguageInfo s)"
  have ins: "\<forall>t \<in> set (installed s). loaded s t \<noteq> None" and un: "\<forall>t. t \<notin> set (translators gui) \<longrightarrow> loaded s t = None"
    using pre by (simp_all add: lang_pre_def)
  have none: "installed s0 = [] \<Longrightarrow> loaded s0 = loaded s \<Longrightarrow> currentLanguageInfo s0 = currentLanguageInfo s \<Longrightarrow>
      lang_inv gui (if ?l = GetCodeName then s0 else load_all (translators gui) ?l s0)" for s0
  proof (cases "?l = GetCodeName")
    case True
    assume "installed s0 = []" "loaded s0 = loaded s" "currentLanguageInfo s0 = currentLanguageInfo s"
    then show ?thesis using True un by (simp add: lang_inv_def)
  next
    case False
    assume a: "installed s0 = []" "loaded s0 = loaded s" "currentLanguageInfo s0 = currentLanguageInfo s"
    have "lang_inv gui (load_all (translators gui) (li_name (currentLanguageInfo s0)) s0)"
      by (rule load_all_inv) (use a un False in simp_all)
    then show ?thesis using False a(3) by simp
  qed
  show ?thesis
  proof (cases gui)
    case False
    define s0 where "s0 = s\<lparr>installed := removeAll Qt_Translator (removeAll Base_Translator (removeAll Util_Translator (installed s)))\<rparr>"
    have "installed s0 = []" using nothing_installed[OF pre] False
      by (auto simp: s0_def translators_def removeAll_filter_not_eq filter_empty_conv)
    then have i: "lang_inv gui (if ?l = GetCodeName then s0 else load_all (translators gui) ?l s0)" by (intro none) (simp_all add: s0_def)
    have t: "translators gui = [Util_Translator, Base_Translator, Qt_Translator]" using False by (simp add: translators_def)
    from core_outcome[OF ins, of w] have "(\<exists>b. Core_SetupTranslators api (w, s) = Some (Ret b (w, if ?l = GetCodeName then s0 else load_all (translators gui) ?l s0)))
      \<or> aborts (Core_SetupTranslators api (w, s)) (w, s0)" by (simp only: Let_def s0_def t)
    moreover have "currentLanguageInfo (if ?l = GetCodeName then s0 else load_all (translators gui) ?l s0) = currentLanguageInfo s"
      by (simp add: s0_def del: load_all.simps)
    ultimately show ?thesis using i False by auto
  next
    case True
    define s1 where "s1 = s\<lparr>installed := removeAll CopyDialog_Translator (removeAll Gui_Translator (installed s))\<rparr>"
    define s0 where "s0 = s1\<lparr>installed := removeAll Qt_Translator (removeAll Base_Translator (removeAll Util_Translator (installed s1)))\<rparr>"
    have "installed s0 = []" using nothing_installed[OF pre] True
      by (auto simp: s0_def s1_def translators_def removeAll_filter_not_eq filter_empty_conv)
    then have i: "lang_inv gui (if ?l = GetCodeName then s0 else load_all (translators gui) ?l s0)" by (intro none) (simp_all add: s0_def s1_def)
    let ?s2 = "if ?l = GetCodeName then s0 else load_all [Util_Translator, Base_Translator, Qt_Translator] ?l s0"
    have t: "translators gui = [Gui_Translator, CopyDialog_Translator, Util_Translator, Base_Translator, Qt_Translator]" using True by (simp add: translators_def)
    have cur: "currentLanguageInfo s1 = currentLanguageInfo s" by (simp add: s1_def)
    have ins1: "\<forall>t \<in> set (installed s1). loaded s1 t \<noteq> None" using ins by (simp add: s1_def)
    have c: "(\<exists>b. Core_SetupTranslators api (w, s1) = Some (Ret b (w, ?s2))) \<or> aborts (Core_SetupTranslators api (w, s1)) (w, s0)"
      unfolding s0_def using core_outcome[OF ins1, of w, unfolded Let_def cur] .
    have rm: "Gui_SetupTranslators api (w, s) = bind (Core_SetupTranslators api) (\<lambda>ok. bind (this currentLanguageInfo) (\<lambda>lang. if li_name lang = GetCodeName then ret ok
      else bind (load_translator api CopyDialog_Translator (''tr_'' @ li_name lang) '':/cppdevtk/QtSolutions/QtCopyDialog/res/tr'') (\<lambda>ok1.
        bind (load_translator api Gui_Translator (''tr_'' @ li_name lang) '':/cppdevtk/gui/res/tr'') (\<lambda>ok2. ret (ok \<and> ok1 \<and> ok2))))) (w, s1)"
      using ins by (simp add: Gui_SetupTranslators_def remove_eval s1_def)
    have cur2: "currentLanguageInfo ?s2 = currentLanguageInfo s" by (simp add: s0_def cur del: load_all.simps)
    have "(\<exists>b. Gui_SetupTranslators api (w, s) = Some (Ret b (w, if ?l = GetCodeName then s0 else load_all (translators gui) ?l s0)))
      \<or> aborts (Gui_SetupTranslators api (w, s)) (w, s0)"
      using c
    proof
      assume "\<exists>b. Core_SetupTranslators api (w, s1) = Some (Ret b (w, ?s2))"
      then obtain b where b: "Core_SetupTranslators api (w, s1) = Some (Ret b (w, ?s2))" by blast
      show ?thesis
      proof (cases "?l = GetCodeName")
        case True
        then show ?thesis unfolding rm using b cur2 by simp
      next
        case False
        note one = load_one[of CopyDialog_Translator ?l w] load_one[of Gui_Translator ?l w]
        have "\<exists>b. Gui_SetupTranslators api (w, s) = Some (Ret b (w, load_all [Gui_Translator] ?l (load_all [CopyDialog_Translator] ?l ?s2)))"
          unfolding rm using b cur2 False one by (simp del: load_all.simps)
        moreover have "load_all [Gui_Translator] ?l (load_all [CopyDialog_Translator] ?l ?s2) = load_all (translators gui) ?l s0"
          unfolding t using False by simp
        ultimately show ?thesis using False by simp
      qed
    next
      assume "aborts (Core_SetupTranslators api (w, s1)) (w, s0)"
      then show ?thesis unfolding rm by (simp add: aborts_def)
    qed
    moreover have "currentLanguageInfo (if ?l = GetCodeName then s0 else load_all (translators gui) ?l s0) = currentLanguageInfo s"
      by (simp add: s0_def cur del: load_all.simps)
    ultimately show ?thesis using i True by auto
  qed
qed

lemma set_language_outcome:
  assumes inv: "lang_inv gui s"
  shows "(\<exists>s'. SetCurrentLanguageInfo api gui info (w, s) = Some (Ret () (w, s')) \<and> lang_inv gui s' \<and> currentLanguageInfo s' = info
        \<and> files_ok s \<and> li_name info \<in> li_name ` set (infos_of api s))
    \<or> SetCurrentLanguageInfo api gui info (w, s) = Some (Exc RuntimeError (w, s))
    \<or> SetCurrentLanguageInfo api gui info (w, s) = Some (Exc InvalidArgument (w, s)) \<and> li_name info \<notin> li_name ` (set (infos_of api s) - {x. li_name x = CName})
    \<or> (\<exists>st. aborts (SetCurrentLanguageInfo api gui info (w, s)) st)"
proof -
  let ?c = "\<lparr>li_name = CName, li_nativeName = CName\<rparr>"
  from li_eq_outcome[of info ?c "(w, s)"] show ?thesis
  proof
    assume "aborts (li_eq api info ?c (w, s)) (w, s)"
    then show ?thesis by (auto simp: SetCurrentLanguageInfo_def C_eval aborts_def)
  next
    assume c: "li_eq api info ?c (w, s) = Some (Ret (li_name info = li_name ?c) (w, s))"
    show ?thesis
    proof (cases "li_name info = CName")
      case True
      then show ?thesis using c by (auto simp: SetCurrentLanguageInfo_def C_eval)
    next
      case notC: False
      have run: "SetCurrentLanguageInfo api gui info (w, s) = bind (GetSupportedLanguageInfos api) (\<lambda>infos. bind (contains api info infos) (\<lambda>sup.
          andthen (check sup InvalidArgument) (andthen (modify (\<lambda>s. s\<lparr>currentLanguageInfo := info\<rparr>))
            (andthen (if gui then Gui_SetupTranslators api else Core_SetupTranslators api) (ret ()))))) (w, s)"
        using c notC by (simp add: SetCurrentLanguageInfo_def C_eval)
      from supported_outcome[of w s] show ?thesis
      proof (elim disjE conjE)
        assume g: "GetSupportedLanguageInfos api (w, s) = Some (Ret (infos_of api s) (w, s))" "files_ok s"
        from contains_outcome[of info "infos_of api s" "(w, s)"] show ?thesis
        proof
          assume "aborts (contains api info (infos_of api s) (w, s)) (w, s)"
          then show ?thesis unfolding run using g by (auto simp: aborts_def)
        next
          assume k: "contains api info (infos_of api s) (w, s) = Some (Ret (li_name info \<in> li_name ` set (infos_of api s)) (w, s))"
          show ?thesis
          proof (cases "li_name info \<in> li_name ` set (infos_of api s)")
            case False
            then have "SetCurrentLanguageInfo api gui info (w, s) = Some (Exc InvalidArgument (w, s))" unfolding run using g k by simp
            then show ?thesis using False by blast
          next
            case True
            let ?s = "s\<lparr>currentLanguageInfo := info\<rparr>"
            have r: "SetCurrentLanguageInfo api gui info (w, s) = andthen (if gui then Gui_SetupTranslators api else Core_SetupTranslators api) (ret ()) (w, ?s)"
              unfolding run using g k True by simp
            have "lang_pre gui ?s" using inv by (auto simp: lang_pre_def lang_inv_def)
            from setup_outcome[OF this, of w] show ?thesis
            proof (elim disjE exE conjE)
              fix b s' assume "(if gui then Gui_SetupTranslators api else Core_SetupTranslators api) (w, ?s) = Some (Ret b (w, s'))" "lang_inv gui s'"
                "currentLanguageInfo s' = currentLanguageInfo ?s"
              then show ?thesis using g(2) True unfolding r by (intro disjI1 exI[of _ s']) simp
            next
              fix s' assume "aborts ((if gui then Gui_SetupTranslators api else Core_SetupTranslators api) (w, ?s)) (w, s')"
              then show ?thesis unfolding r by (auto simp: aborts_def)
            qed
          qed
        qed
      next
        assume "GetSupportedLanguageInfos api (w, s) = Some (Exc RuntimeError (w, s))"
        then show ?thesis unfolding run by simp
      next
        assume "aborts (GetSupportedLanguageInfos api (w, s)) (w, s)"
        then show ?thesis unfolding run by (auto simp: aborts_def)
      qed
    qed
  qed
qed

lemma no_C:
  assumes f: "files_ok s" and x: "x \<in> set (infos_of api s)"
  shows "li_name x \<noteq> CName"
proof -
  obtain l where l: "l \<in> set (locales_of api s)" "li_name x = l" using x unfolding infos_members by auto
  have "l \<in> set (tl (locales_of api s)) \<or> l = GetCodeName" using l(1) by (auto simp: locales_of_def split: if_splits)
  then show ?thesis using f l(2) by (auto simp: files_ok_def GetCodeName_def)
qed

lemma ctor_outcome:
  assumes inv: "lang_inv gui s"
  shows "(\<exists>s'. Application_ctor api gui (w, s) = Some (Ret () (w, s')) \<and> lang_inv gui s' \<and> currentLanguageInfo s' = default_of api s)
    \<or> Application_ctor api gui (w, s) = Some (Exc RuntimeError (w, s)) \<or> (\<exists>st. aborts (Application_ctor api gui (w, s)) st)"
proof -
  have code: "GetCodeName \<noteq> CName" by (simp add: GetCodeName_def)
  from default_outcome[of w s] show ?thesis
  proof (elim disjE)
    assume d: "GetDefaultLanguageInfo api (w, s) = Some (Ret (default_of api s) (w, s))"
    then have r: "Application_ctor api gui (w, s) = SetCurrentLanguageInfo api gui (default_of api s) (w, s)" by (simp add: Application_ctor_def)
    from set_language_outcome[OF inv, of "default_of api s" w] show ?thesis
    proof (elim disjE exE conjE)
      fix s' assume "SetCurrentLanguageInfo api gui (default_of api s) (w, s) = Some (Ret () (w, s'))" "lang_inv gui s'" "currentLanguageInfo s' = default_of api s"
      then show ?thesis unfolding r by blast
    next
      assume "SetCurrentLanguageInfo api gui (default_of api s) (w, s) = Some (Exc RuntimeError (w, s))"
      then show ?thesis unfolding r by blast
    next
      assume e: "SetCurrentLanguageInfo api gui (default_of api s) (w, s) = Some (Exc InvalidArgument (w, s))"
        "li_name (default_of api s) \<notin> li_name ` (set (infos_of api s) - {x. li_name x = CName})"
      have "li_name (default_of api s) = CName" using e(2) default_supported[of s] by blast
      moreover have "li_name (default_of api s) \<noteq> CName" if "files_ok s" by (rule no_C[OF that default_supported])
      ultimately have n: "GetSupportedLanguageInfos api (w, s) = Some (Exc RuntimeError (w, s)) \<or> aborts (GetSupportedLanguageInfos api (w, s)) (w, s)"
        using supported_outcome[of w s] by blast
      have pref: "isSystemLocalePreferred s \<and> system_locale api \<noteq> GetCodeName"
        using \<open>li_name (default_of api s) = CName\<close> code by (auto simp: default_of_def code_info_def split: if_splits)
      then show ?thesis using n d by (auto simp: GetDefaultLanguageInfo_def code_eval aborts_def)
    next
      fix st assume "aborts (SetCurrentLanguageInfo api gui (default_of api s) (w, s)) st"
      then show ?thesis unfolding r by blast
    qed
  next
    assume "GetDefaultLanguageInfo api (w, s) = Some (Exc RuntimeError (w, s))"
    then show ?thesis by (simp add: Application_ctor_def)
  next
    assume "aborts (GetDefaultLanguageInfo api (w, s)) (w, s)"
    then show ?thesis by (auto simp: Application_ctor_def aborts_def)
  qed
qed

lemma inv_other: "lang_inv gui (s\<lparr>qmPath := p, qmNamePrefix := n\<rparr>) = lang_inv gui s" "lang_inv gui (s\<lparr>isSystemLocalePreferred := b\<rparr>) = lang_inv gui s"
  by (simp_all add: lang_inv_def)

lemma SetQmInfo_outcome:
  "SetQmInfo p n (w, s) = Some (Ret () (w, s\<lparr>qmPath := p, qmNamePrefix := n\<rparr>)) \<or> (\<exists>e. SetQmInfo p n (w, s) = Some (Exc e (w, s)))"
  by (cases "valid_qm_path p"; cases "n = []") (simp_all add: SetQmInfo_def)

lemma use_outcome:
  assumes "lang_inv gui s"
  shows "(\<exists>s'. lang_use api gui u (w, s) = Some (Ret () (w, s')) \<and> lang_inv gui s') \<or> (\<exists>e. lang_use api gui u (w, s) = Some (Exc e (w, s)))
    \<or> (\<exists>st. aborts (lang_use api gui u (w, s)) st)"
proof (cases u)
  case (Use_Language info)
  then show ?thesis using set_language_outcome[OF assms, of info w] by auto
next
  case (Use_QmInfo p n)
  then show ?thesis using SetQmInfo_outcome[of p n w s] assms by (auto simp: inv_other)
next
  case (Use_System b)
  then show ?thesis using assms by (simp add: inv_other)
next
  case Use_Default
  then show ?thesis using ctor_outcome[OF assms, of w] by auto
qed

lemma lang_run_inv: "lang_run api gui us s \<Longrightarrow> lang_inv gui s"
proof (induction rule: lang_run.induct)
  case start
  then show ?case by (simp add: lang_inv_def first_lang_app_def)
next
  case (returns us s u s')
  then show ?case using use_outcome[OF returns.IH, of u "()"] by (auto simp: aborts_def)
next
  case (throws us s u e s')
  then show ?case using use_outcome[OF throws.IH, of u "()"] by (auto simp: aborts_def)
qed

end

end
