(* ===== verification/MountPoints.thy ===== *)
theory MountPoints
imports Files Languages
begin

text \<open>
  Mount points, devices and space of file systems (\<open>src/util/filesystem_utils_lnx.cpp\<close>, \<open>filesystem_utils_unx.cpp\<close>,
  \<open>filesystem_utils.cpp\<close>) over the table of mounted file systems, \<open>libudev\<close> and \<open>statvfs\<close>.

  Paths are strings here; on Unix the native separator is the one of Qt.  A \<open>FILE*\<close> or a reference of \<open>libudev\<close> is a
  number.  The fields of a table entry are not \<open>NULL\<close>, as \<open>getmntent\<close> documents and the code asserts.
\<close>

section \<open>The table of mounted file systems\<close>

record mntent =
  mnt_fsname :: string
  mnt_dir :: string
  mnt_type :: string

record file_stat =
  st_dev :: nat
  st_isblk :: bool
  st_size :: int

record 'w mount_api =
  mt_ndebug :: bool
  mt_errno :: "'w \<Rightarrow> int"
  os_stat :: "string \<Rightarrow> 'w \<Rightarrow> (int \<times> file_stat) \<times> 'w"
  os_setmntent :: "'w \<Rightarrow> nat option \<times> 'w"
  os_getmntent :: "nat \<Rightarrow> 'w \<Rightarrow> mntent option \<times> 'w"
  os_endmntent :: "nat \<Rightarrow> 'w \<Rightarrow> unit \<times> 'w"

abbreviation (input) "PATH_DEV \<equiv> ''/dev/''"
abbreviation (input) "MNTTYPE_IGNORE \<equiv> ''ignore''"
abbreviation (input) "MNTTYPE_SWAP \<equiv> ''swap''"

definition with_slash :: "string \<Rightarrow> string" where
  "with_slash d = (if d \<noteq> [] \<and> last d = CHR ''/'' then d else d @ ''/'')"

definition mt_error :: "('w, 'x) mount_api_scheme \<Rightarrow> (ErrorCode \<Rightarrow> ('a, 'w) fprog) \<Rightarrow> ('a, 'w) fprog" where
  "mt_error api k = (\<lambda>w. k (mk_code (mt_errno api w) SystemCategory) w)"

definition mt_assert_not_interrupted :: "('w, 'x) mount_api_scheme \<Rightarrow> (unit, 'w) fprog" where
  "mt_assert_not_interrupted api = (\<lambda>w. cpp_assert (mt_ndebug api) (mt_errno api w \<noteq> EINTR) w)"

text \<open>The table is opened, read entry by entry until the end or a \<open>break\<close> (\<open>False\<close>), and closed when the block is left.\<close>

definition with_mtab :: "('w, 'x) mount_api_scheme \<Rightarrow> (nat \<Rightarrow> ('a, 'w) fprog) \<Rightarrow> ('a, 'w) fprog" where
  "with_mtab api body = bind (call (os_setmntent api)) (\<lambda>f. case f of
     None \<Rightarrow> mt_error api (\<lambda>e. throw (FilesystemExc e)) | Some h \<Rightarrow> scoped (body h) (call (os_endmntent api h)))"

partial_function (option) mnt_loop :: "('w, 'x) mount_api_scheme \<Rightarrow> nat \<Rightarrow> (mntent \<Rightarrow> 'a \<Rightarrow> ('a \<times> bool, 'w) fprog) \<Rightarrow> 'a \<Rightarrow> 'w
    \<Rightarrow> (exn, 'a, 'w) res option" where
  [code]: "mnt_loop api h body acc w = bind (call (os_getmntent api h)) (\<lambda>r w. case r of None \<Rightarrow> ret acc w
     | Some e \<Rightarrow> bind (body e acc) (\<lambda>(acc, go_on) w. if go_on then mnt_loop api h body acc w else ret acc w) w) w"

definition path_entry :: "('w, 'x) mount_api_scheme \<Rightarrow> file_stat \<Rightarrow> mntent \<Rightarrow> string list \<Rightarrow> (string list \<times> bool, 'w) fprog" where
  "path_entry api statPath e mountPoints = bind (call (os_stat api (mnt_dir e))) (\<lambda>(rc, statMntDir).
     if rc \<noteq> ESUCCESS then andthen (mt_assert_not_interrupted api) (ret (mountPoints, True))
     else if st_dev statPath = st_dev statMntDir then andthen (cpp_assert (mt_ndebug api) (mnt_dir e \<noteq> []))
       (ret (mountPoints @ [with_slash (mnt_dir e)], True))
     else ret (mountPoints, True))"

definition GetMountPointsFromPath :: "('w, 'x) mount_api_scheme \<Rightarrow> string \<Rightarrow> (string list, 'w) fprog" where
  "GetMountPointsFromPath api path = andthen (check (valid_qm_path path) InvalidArgument)
     (bind (call (os_stat api path)) (\<lambda>(rc, statPath).
        if rc \<noteq> ESUCCESS then andthen (mt_assert_not_interrupted api)
          (mt_error api (\<lambda>e. throw (if ec_value e = ENOENT then NoSuchFileOrDirectory else FilesystemExc e)))
        else with_mtab api (\<lambda>h. mnt_loop api h (path_entry api statPath) [])))"

definition device_entry :: "('w, 'x) mount_api_scheme \<Rightarrow> string \<Rightarrow> mntent \<Rightarrow> string list \<Rightarrow> (string list \<times> bool, 'w) fprog" where
  "device_entry api deviceName e mountPoints = (if \<not> prefix PATH_DEV (mnt_fsname e) then ret (mountPoints, True)
     else if deviceName = mnt_fsname e then andthen (cpp_assert (mt_ndebug api) (mnt_dir e \<noteq> []))
       (ret (mountPoints @ [with_slash (mnt_dir e)], True))
     else ret (mountPoints, True))"

definition GetMountPointsFromDeviceName :: "('w, 'x) mount_api_scheme \<Rightarrow> string \<Rightarrow> (string list, 'w) fprog" where
  "GetMountPointsFromDeviceName api deviceName = andthen (check (valid_qm_path deviceName) InvalidArgument)
     (andthen (check (prefix PATH_DEV deviceName) InvalidArgument)
       (with_mtab api (\<lambda>h. mnt_loop api h (device_entry api deviceName) [])))"

definition mount_entry :: "('w, 'x) mount_api_scheme \<Rightarrow> string \<Rightarrow> mntent \<Rightarrow> string \<Rightarrow> (string \<times> bool, 'w) fprog" where
  "mount_entry api mountPoint e deviceName = andthen (cpp_assert (mt_ndebug api) (mnt_dir e \<noteq> []))
     (if mountPoint = with_slash (mnt_dir e) then andthen (cpp_assert (mt_ndebug api) (mnt_fsname e \<noteq> []))
       (if \<not> prefix PATH_DEV (mnt_fsname e) then ret ([], True) else ret (mnt_fsname e, False))
     else ret (deviceName, True))"

definition GetDeviceNameFromMountPoint :: "('w, 'x) mount_api_scheme \<Rightarrow> string \<Rightarrow> (string, 'w) fprog" where
  "GetDeviceNameFromMountPoint api mountPoint = andthen (check (valid_qm_path mountPoint) InvalidArgument)
     (andthen (check (last mountPoint = CHR ''/'') InvalidArgument)
       (with_mtab api (\<lambda>h. mnt_loop api h (mount_entry api mountPoint) [])))"

definition any_entry :: "('w, 'x) mount_api_scheme \<Rightarrow> bool \<Rightarrow> mntent \<Rightarrow> string list \<Rightarrow> (string list \<times> bool, 'w) fprog" where
  "any_entry api ignoreSpecial e mountPoints =
     (let skip = ret (mountPoints, True);
          found = andthen (cpp_assert (mt_ndebug api) (mnt_dir e \<noteq> [])) (ret (mountPoints @ [with_slash (mnt_dir e)], True))
      in if \<not> ignoreSpecial then found
         else if mnt_type e = MNTTYPE_IGNORE \<or> mnt_type e = MNTTYPE_SWAP then skip
         else bind (call (os_stat api (mnt_fsname e))) (\<lambda>(rc1, buf1). if rc1 \<noteq> 0 then skip
           else if \<not> st_isblk buf1 then skip
           else bind (call (os_stat api (mnt_dir e))) (\<lambda>(rc2, buf2). if rc2 \<noteq> 0 then skip
             else if st_size buf2 = 0 then skip else found)))"

definition GetMountPoints :: "('w, 'x) mount_api_scheme \<Rightarrow> bool \<Rightarrow> (string list, 'w) fprog" where
  "GetMountPoints api ignoreSpecial = with_mtab api (\<lambda>h. mnt_loop api h (any_entry api ignoreSpecial) [])"

text \<open>The overloads with an error code, which return it with the (then empty) result.\<close>

definition catching_code :: "('a, 'w) fprog \<Rightarrow> 'a \<Rightarrow> ('a \<times> ErrorCode, 'w) fprog" where
  "catching_code m none = catch (bind m (\<lambda>a. ret (a, ErrorCode_default))) (\<lambda>e. ret (none, code_of_exception e))"

section \<open>Devices\<close>

datatype device_type = dtDisk | dtCd

record 'w udev_api =
  ud_ndebug :: bool
  load_lib1 :: "'w \<Rightarrow> bool \<times> 'w"
  load_lib0 :: "'w \<Rightarrow> bool \<times> 'w"
  udev_new :: "'w \<Rightarrow> nat option \<times> 'w"
  udev_unref :: "nat \<Rightarrow> 'w \<Rightarrow> unit \<times> 'w"
  enumerate_new :: "nat \<Rightarrow> 'w \<Rightarrow> nat option \<times> 'w"
  enumerate_unref :: "nat \<Rightarrow> 'w \<Rightarrow> unit \<times> 'w"
  match_subsystem :: "nat \<Rightarrow> string \<Rightarrow> 'w \<Rightarrow> int \<times> 'w"
  match_property :: "nat \<Rightarrow> string \<Rightarrow> string \<Rightarrow> 'w \<Rightarrow> int \<times> 'w"
  scan_devices :: "nat \<Rightarrow> 'w \<Rightarrow> int \<times> 'w"
  get_list_entry :: "nat \<Rightarrow> 'w \<Rightarrow> nat option"
  entry_name :: "nat \<Rightarrow> 'w \<Rightarrow> string option"
  entry_next :: "nat \<Rightarrow> 'w \<Rightarrow> nat option"
  device_new :: "nat \<Rightarrow> string \<Rightarrow> 'w \<Rightarrow> nat option \<times> 'w"
  device_unref :: "nat \<Rightarrow> 'w \<Rightarrow> unit \<times> 'w"
  get_devtype :: "nat \<Rightarrow> 'w \<Rightarrow> string option"
  get_property :: "nat \<Rightarrow> string \<Rightarrow> 'w \<Rightarrow> string option"
  get_devnode :: "nat \<Rightarrow> 'w \<Rightarrow> string option"

text \<open>\<open>QString::number(n, 16)\<close> in lower case: no leading zeros.\<close>

definition hex_digit :: "nat \<Rightarrow> char" where
  "hex_digit n = ''0123456789abcdef'' ! n"

fun hex_number :: "nat \<Rightarrow> string" where
  "hex_number n = (if n < 16 then [hex_digit n] else hex_number (n div 16) @ [hex_digit (n mod 16)])"

declare hex_number.simps [simp del]

definition DynamicLoaderError :: exn where "DynamicLoaderError = mk_exn DynamicLoaderException"

definition load_library :: "('w \<Rightarrow> bool \<times> 'w) \<Rightarrow> (unit, 'w) fprog" where
  "load_library load = bind (call load) (\<lambda>ok. check ok DynamicLoaderError)"

definition LibUDev :: "('w, 'x) udev_api_scheme \<Rightarrow> (unit, 'w) fprog" where
  "LibUDev api = catch (load_library (load_lib1 api)) (dispatch [(std_runtime_error, \<lambda>e. load_library (load_lib0 api))] throw)"

definition with_ref :: "('w \<Rightarrow> nat option \<times> 'w) \<Rightarrow> (nat \<Rightarrow> 'w \<Rightarrow> unit \<times> 'w) \<Rightarrow> ('a, 'w) fprog \<Rightarrow> (nat \<Rightarrow> ('a, 'w) fprog) \<Rightarrow> ('a, 'w) fprog" where
  "with_ref new unref failed body = bind (call new) (\<lambda>r. case r of None \<Rightarrow> failed | Some p \<Rightarrow> scoped (body p) (call (unref p)))"

text \<open>The tests of a device: its name when it is the one looked for, or \<open>None\<close> (\<open>continue\<close>).\<close>

definition device_name :: "device_type \<Rightarrow> string option \<Rightarrow> (string \<Rightarrow> string option) \<Rightarrow> string option \<Rightarrow> string option" where
  "device_name deviceType devType property devNode =
     (if devType \<noteq> Some (if deviceType = dtCd then ''disk'' else ''partition'') then None
      else if property ''ID_FS_USAGE'' \<noteq> Some ''filesystem'' then None
      else if property ''ID_TYPE'' \<noteq> Some (if deviceType = dtCd then ''cd'' else ''disk'') then None
      else case devNode of None \<Rightarrow> None | Some node \<Rightarrow> if prefix PATH_DEV node then Some node else None)"

definition check_entry :: "('w, 'x) udev_api_scheme \<Rightarrow> device_type \<Rightarrow> nat \<Rightarrow> nat \<Rightarrow> (string option, 'w) fprog" where
  "check_entry api deviceType udev entry = (\<lambda>w. case entry_name api entry w of None \<Rightarrow> ret None w
     | Some path \<Rightarrow> andthen (cpp_assert (ud_ndebug api) (path \<noteq> [])) (with_ref (device_new api udev path) (device_unref api) (ret None)
         (\<lambda>d w. ret (device_name deviceType (get_devtype api d w) (\<lambda>p. get_property api d p w) (get_devnode api d w)) w)) w)"

partial_function (option) device_loop :: "('w, 'x) udev_api_scheme \<Rightarrow> device_type \<Rightarrow> nat \<Rightarrow> nat \<Rightarrow> 'w \<Rightarrow> (exn, string, 'w) res option" where
  [code]: "device_loop api deviceType udev entry w = bind (check_entry api deviceType udev entry) (\<lambda>r w. case r of Some name \<Rightarrow> ret name w
     | None \<Rightarrow> (case entry_next api entry w of None \<Rightarrow> ret [] w | Some next \<Rightarrow> device_loop api deviceType udev next w)) w"

definition must :: "('w \<Rightarrow> int \<times> 'w) \<Rightarrow> (unit, 'w) fprog" where
  "must f = bind (call f) (\<lambda>rc. check (rc = 0) RuntimeError)"

text \<open>The enumeration with its matches, and the loop over its list.\<close>

definition enumerate_devices :: "('w, 'x) udev_api_scheme \<Rightarrow> device_type \<Rightarrow> string \<Rightarrow> nat \<Rightarrow> nat \<Rightarrow> nat \<Rightarrow> nat \<Rightarrow> (string, 'w) fprog" where
  "enumerate_devices api deviceType serialNumber vendorId productId udev enum = andthen (must (match_subsystem api enum ''block''))
     (andthen (must (match_property api enum ''ID_SERIAL_SHORT'' serialNumber))
     (andthen (must (match_property api enum ''ID_VENDOR_ID'' (hex_number vendorId)))
     (andthen (must (match_property api enum ''ID_MODEL_ID'' (hex_number productId)))
     (andthen (must (scan_devices api enum))
     (\<lambda>w. case get_list_entry api enum w of None \<Rightarrow> throw RuntimeError w
        | Some entry \<Rightarrow> device_loop api deviceType udev entry w)))))"

definition GetDeviceName :: "('w, 'x) udev_api_scheme \<Rightarrow> device_type \<Rightarrow> string \<Rightarrow> nat \<Rightarrow> nat \<Rightarrow> (string, 'w) fprog" where
  "GetDeviceName api deviceType serialNumber vendorId productId = andthen (check (serialNumber \<noteq> []) EmptyArgument) (andthen (LibUDev api)
     (with_ref (udev_new api) (udev_unref api) (throw RuntimeError) (\<lambda>udev.
        with_ref (enumerate_new api udev) (enumerate_unref api) (throw RuntimeError)
          (enumerate_devices api deviceType serialNumber vendorId productId udev))))"

definition GetMountPoints_device :: "('w, 'x) mount_api_scheme \<Rightarrow> ('w, 'y) udev_api_scheme \<Rightarrow> device_type \<Rightarrow> string \<Rightarrow> nat \<Rightarrow> nat \<Rightarrow> (string list, 'w) fprog" where
  "GetMountPoints_device mt ud deviceType serialNumber vendorId productId = andthen (check (serialNumber \<noteq> []) EmptyArgument)
     (bind (GetDeviceName ud deviceType serialNumber vendorId productId) (\<lambda>kDeviceName.
        if kDeviceName = [] then ret [] else GetMountPointsFromDeviceName mt kDeviceName))"

section \<open>Space\<close>

type_synonym size_type = "64 word"

record stat_vfs =
  f_frsize :: size_type
  f_blocks :: size_type
  f_bfree :: size_type
  f_bavail :: size_type

record space_info =
  space_size :: size_type
  totalFree :: size_type
  userFree :: size_type

record 'w space_api =
  sp_ndebug :: bool
  sp_errno :: "'w \<Rightarrow> int"
  qt_absolutePath :: "string \<Rightarrow> string"
  os_statvfs :: "string \<Rightarrow> 'w \<Rightarrow> int \<times> stat_vfs \<times> 'w"

definition space_of :: "stat_vfs \<Rightarrow> space_info" where
  "space_of s = \<lparr>space_size = f_blocks s * f_frsize s, totalFree = f_bfree s * f_frsize s, userFree = f_bavail s * f_frsize s\<rparr>"

definition GetFileSystemSpaceInfo :: "('w, 'x) space_api_scheme \<Rightarrow> string \<Rightarrow> (space_info, 'w) fprog" where
  "GetFileSystemSpaceInfo api path = andthen (check (valid_qm_path path) InvalidArgument)
     (bind (call_blocking (\<lambda>w. map_option (\<lambda>(rc, buf, w'). ((rc, buf), w'))
        (TEMP_FAILURE_RETRY (\<lambda>(buf, w). sp_errno api w) (\<lambda>(buf, w). Some (os_statvfs api (qt_absolutePath api path) w))
          (\<lparr>f_frsize = 0, f_blocks = 0, f_bfree = 0, f_bavail = 0\<rparr>, w)))) (\<lambda>(rc, statVfs).
      if rc \<noteq> ESUCCESS then (\<lambda>w. throw (if sp_errno api w = ENOENT then NoSuchFileOrDirectory
          else FilesystemExc (mk_code (sp_errno api w) SystemCategory)) w)
      else let info = space_of statVfs in andthen (cpp_assert (sp_ndebug api) (space_size info > 0))
        (andthen (cpp_assert (sp_ndebug api) (space_size info \<ge> totalFree info))
        (andthen (cpp_assert (sp_ndebug api) (totalFree info \<ge> userFree info)) (ret info)))))"

section \<open>Localized files\<close>

text \<open>The language of a locale name; \<open>QFile::exists\<close> is a parameter.\<close>

definition language_of :: "string \<Rightarrow> string" where
  "language_of name = takeWhile (\<lambda>c. c \<noteq> CHR ''_'') (dropWhile (\<lambda>c. c = CHR ''_'') name)"

definition localized_candidates :: "string \<Rightarrow> string \<Rightarrow> string \<Rightarrow> string list" where
  "localized_candidates fileNamePrefix fileExt localeName =
     [fileNamePrefix @ localeName @ ''.'' @ fileExt, fileNamePrefix @ language_of localeName @ ''.'' @ fileExt]
     @ (if localeName \<noteq> GetCodeName then [fileNamePrefix @ GetCodeName @ ''.'' @ fileExt, fileNamePrefix @ language_of GetCodeName @ ''.'' @ fileExt] else [])
     @ [fileNamePrefix @ ''.'' @ fileExt]"

definition GetLocalizedFileName :: "(string \<Rightarrow> 'w \<Rightarrow> bool) \<Rightarrow> string \<Rightarrow> string \<Rightarrow> string \<Rightarrow> (string, 'w) fprog" where
  "GetLocalizedFileName exists fileNamePrefix fileExt localeName = andthen (check (valid_qm_path fileNamePrefix) InvalidArgument)
     (\<lambda>w. ret (case List.find (\<lambda>f. exists f w) (localized_candidates fileNamePrefix fileExt localeName) of None \<Rightarrow> [] | Some f \<Rightarrow> f) w)"

section \<open>What the system promises: the table\<close>

lemma scoped_call: "scoped body (call f) w = map_option (\<lambda>r. case r of Ret a w' \<Rightarrow> Ret a (snd (f w'))
    | Exc e w' \<Rightarrow> Exc e (snd (f w')) | Term w' \<Rightarrow> Term w') (body w)"
  by (cases "body w") (auto simp: scoped_def call_def noexcept_def catch_def bind_def split_beta split: res.splits)

text \<open>The loop over a list of entries.\<close>

fun mnt_fold :: "(mntent \<Rightarrow> 'a \<Rightarrow> 'a \<times> bool) \<Rightarrow> mntent list \<Rightarrow> 'a \<Rightarrow> 'a" where
  "mnt_fold f [] acc = acc"
| "mnt_fold f (e # es) acc = (if snd (f e acc) then mnt_fold f es (fst (f e acc)) else fst (f e acc))"

locale mount_table =
  fixes api :: "('w, 'x) mount_api_scheme"
    and entries :: "nat \<Rightarrow> 'w \<Rightarrow> mntent list"
    and opened :: "'w \<Rightarrow> nat set"
    and table :: "mntent list"
    and stat_of :: "string \<Rightarrow> file_stat option"
  assumes setmntent: "os_setmntent api w = (r, w') \<Longrightarrow> (case r of None \<Rightarrow> opened w' = opened w
        | Some h \<Rightarrow> h \<notin> opened w \<and> opened w' = insert h (opened w) \<and> entries h w' = table)"
    and getmntent: "h \<in> opened w \<Longrightarrow> os_getmntent api h w = (entry, w') \<Longrightarrow> opened w' = opened w \<and> (case entries h w of [] \<Rightarrow> entry = None
        | e # es \<Rightarrow> entry = Some e \<and> entries h w' = es)"
    and endmntent: "opened (snd (os_endmntent api h w)) = opened w - {h}"
    and stat: "os_stat api p w = ((rc, st), w') \<Longrightarrow> opened w' = opened w \<and> entries h w' = entries h w
        \<and> (if rc = 0 then stat_of p = Some st else stat_of p = None \<and> mt_errno api w' \<noteq> EINTR)"
    and filled: "e \<in> set table \<Longrightarrow> mnt_dir e \<noteq> [] \<and> mnt_fsname e \<noteq> []"
begin

definition computes :: "(mntent \<Rightarrow> 'a \<Rightarrow> ('a \<times> bool, 'w) fprog) \<Rightarrow> (mntent \<Rightarrow> 'a \<Rightarrow> 'a \<times> bool) \<Rightarrow> bool" where
  "computes body f \<longleftrightarrow> (\<forall>e acc w. e \<in> set table \<longrightarrow> (\<exists>w'. body e acc w = Some (Ret (f e acc) w') \<and> opened w' = opened w
     \<and> (\<forall>h. entries h w' = entries h w)))"

lemma loop_folds:
  assumes "computes body f" "h \<in> opened w" "set (entries h w) \<subseteq> set table"
  shows "\<exists>w'. mnt_loop api h body acc w = Some (Ret (mnt_fold f (entries h w) acc) w') \<and> opened w' = opened w"
  using assms(2,3)
proof (induction "entries h w" arbitrary: acc w)
  case Nil
  obtain r w' where g: "os_getmntent api h w = (r, w')" by fastforce
  then have "r = None" "opened w' = opened w" using getmntent[OF Nil.prems(1) g] Nil.hyps[symmetric] by auto
  then show ?case using g Nil.hyps[symmetric] by (subst mnt_loop.simps) simp
next
  case (Cons e es)
  obtain r w1 where g: "os_getmntent api h w = (r, w1)" by fastforce
  have 1: "r = Some e" "opened w1 = opened w" "entries h w1 = es" using getmntent[OF Cons.prems(1) g] Cons.hyps(2)[symmetric] by auto
  have "e \<in> set table" using Cons.prems(2) Cons.hyps(2)[symmetric] by auto
  then obtain w2 where 2: "body e acc w1 = Some (Ret (f e acc) w2)" "opened w2 = opened w1" "entries h w2 = entries h w1"
    using assms(1) unfolding computes_def by blast
  have step: "mnt_loop api h body acc w = (if snd (f e acc) then mnt_loop api h body (fst (f e acc)) w2 else Some (Ret (fst (f e acc)) w2))"
    using g 1(1) 2(1) by (subst mnt_loop.simps) (simp add: split_beta)
  show ?case
  proof (cases "snd (f e acc)")
    case True
    have "h \<in> opened w2" "set (entries h w2) \<subseteq> set table" "es = entries h w2"
      using Cons.prems Cons.hyps(2)[symmetric] 1 2 by auto
    from Cons.hyps(1)[OF this(3,1,2), of "fst (f e acc)"] show ?thesis using step True 1 2 Cons.hyps(2)[symmetric] by auto
  next
    case False
    then show ?thesis using step 1 2 Cons.hyps(2)[symmetric] by auto
  qed
qed

text \<open>A table that was opened is closed again, on every exit.\<close>

lemma with_mtab_folds:
  assumes "computes body f"
  shows "\<exists>w'. opened w' = opened w \<and> (if fst (os_setmntent api w) \<noteq> None then with_mtab api (\<lambda>h. mnt_loop api h body acc) w = Some (Ret (mnt_fold f table acc) w')
    else \<exists>e. with_mtab api (\<lambda>h. mnt_loop api h body acc) w = Some (Exc e w'))"
proof -
  obtain r w1 where o: "os_setmntent api w = (r, w1)" by fastforce
  show ?thesis
  proof (cases r)
    case None
    then show ?thesis using setmntent[OF o] o by (auto simp: with_mtab_def mt_error_def)
  next
    case (Some h)
    then have 1: "h \<notin> opened w" "opened w1 = insert h (opened w)" "entries h w1 = table" using setmntent[OF o] by auto
    obtain w2 where 2: "mnt_loop api h body acc w1 = Some (Ret (mnt_fold f table acc) w2)" "opened w2 = opened w1"
      using loop_folds[OF assms, of h w1 acc] 1 by auto
    have "opened (snd (os_endmntent api h w2)) = opened w" using endmntent[of h w2] 1 2 by auto
    then show ?thesis using o Some 2(1) by (auto simp: with_mtab_def scoped_call)
  qed
qed

definition path_f :: "file_stat \<Rightarrow> mntent \<Rightarrow> string list \<Rightarrow> string list \<times> bool" where
  "path_f s e ms = (if map_option st_dev (stat_of (mnt_dir e)) = Some (st_dev s) then ms @ [with_slash (mnt_dir e)] else ms, True)"

lemma path_computes: "computes (path_entry api s) (path_f s)"
  unfolding computes_def
proof (intro allI impI)
  fix e acc w assume e: "e \<in> set table"
  obtain rc st w' where st: "os_stat api (mnt_dir e) w = ((rc, st), w')" by (metis prod.exhaust)
  show "\<exists>w'. path_entry api s e acc w = Some (Ret (path_f s e acc) w') \<and> opened w' = opened w \<and> (\<forall>h. entries h w' = entries h w)"
    using stat[OF st] st filled[OF e]
    by (auto simp: path_entry_def path_f_def mt_assert_not_interrupted_def cpp_assert_def bind_def split: if_splits)
qed

definition device_f :: "string \<Rightarrow> mntent \<Rightarrow> string list \<Rightarrow> string list \<times> bool" where
  "device_f d e ms = (if prefix PATH_DEV (mnt_fsname e) \<and> d = mnt_fsname e then ms @ [with_slash (mnt_dir e)] else ms, True)"

lemma device_computes: "computes (device_entry api d) (device_f d)"
  using filled by (auto simp: computes_def device_entry_def device_f_def)

definition mount_f :: "string \<Rightarrow> mntent \<Rightarrow> string \<Rightarrow> string \<times> bool" where
  "mount_f m e d = (if m = with_slash (mnt_dir e) then (if prefix PATH_DEV (mnt_fsname e) then (mnt_fsname e, False) else ([], True)) else (d, True))"

lemma mount_computes: "computes (mount_entry api m) (mount_f m)"
  using filled by (auto simp: computes_def mount_entry_def mount_f_def)

definition special :: "mntent \<Rightarrow> bool" where
  "special e \<longleftrightarrow> mnt_type e = MNTTYPE_IGNORE \<or> mnt_type e = MNTTYPE_SWAP \<or> (case stat_of (mnt_fsname e) of None \<Rightarrow> True | Some s \<Rightarrow> \<not> st_isblk s)
     \<or> (case stat_of (mnt_dir e) of None \<Rightarrow> True | Some s \<Rightarrow> st_size s = 0)"

definition any_f :: "bool \<Rightarrow> mntent \<Rightarrow> string list \<Rightarrow> string list \<times> bool" where
  "any_f ignore e ms = (if ignore \<and> special e then ms else ms @ [with_slash (mnt_dir e)], True)"

lemma any_computes: "computes (any_entry api ignore) (any_f ignore)"
  unfolding computes_def
proof (intro allI impI)
  fix e acc w assume e: "e \<in> set table"
  obtain rc1 st1 w1 where 1: "os_stat api (mnt_fsname e) w = ((rc1, st1), w1)" by (metis prod.exhaust)
  obtain rc2 st2 w2 where 2: "os_stat api (mnt_dir e) w1 = ((rc2, st2), w2)" by (metis prod.exhaust)
  show "\<exists>w'. any_entry api ignore e acc w = Some (Ret (any_f ignore e acc) w') \<and> opened w' = opened w \<and> (\<forall>h. entries h w' = entries h w)"
    using stat[OF 1] stat[OF 2] 1 2 filled[OF e] by (auto simp: any_entry_def any_f_def special_def Let_def split: if_splits)
qed

lemma fold_path: "mnt_fold (path_f s) es ms = ms @ map (with_slash \<circ> mnt_dir) (filter (\<lambda>e. map_option st_dev (stat_of (mnt_dir e)) = Some (st_dev s)) es)"
  by (induction es arbitrary: ms) (auto simp: path_f_def)

lemma fold_device: "prefix PATH_DEV d \<Longrightarrow> mnt_fold (device_f d) es ms = ms @ map (with_slash \<circ> mnt_dir) (filter (\<lambda>e. mnt_fsname e = d) es)"
  by (induction es arbitrary: ms) (auto simp: device_f_def)

lemma fold_any: "mnt_fold (any_f ignore) es ms = ms @ map (with_slash \<circ> mnt_dir) (filter (\<lambda>e. \<not> (ignore \<and> special e)) es)"
  by (induction es arbitrary: ms) (auto simp: any_f_def)

lemma fold_mount: "mnt_fold (mount_f m) es [] =
    (case List.find (\<lambda>e. with_slash (mnt_dir e) = m \<and> prefix PATH_DEV (mnt_fsname e)) es of None \<Rightarrow> [] | Some e \<Rightarrow> mnt_fsname e)"
  by (induction es) (auto simp: mount_f_def)

text \<open>The functions, whichever call fails: what they return, and that the table is closed.\<close>

definition outcome :: "bool \<Rightarrow> ('a, 'w) fprog \<Rightarrow> 'w \<Rightarrow> 'a \<Rightarrow> bool" where
  "outcome ok m w a \<longleftrightarrow> (\<exists>w'. opened w' = opened w \<and> (if ok then m w = Some (Ret a w') else \<exists>e. m w = Some (Exc e w')))"

lemma from_device:
  assumes "prefix PATH_DEV d"
  shows "outcome (valid_qm_path d \<and> fst (os_setmntent api w) \<noteq> None) (GetMountPointsFromDeviceName api d) w
    (map (with_slash \<circ> mnt_dir) (filter (\<lambda>e. mnt_fsname e = d) table))"
  using with_mtab_folds[OF device_computes, of w d "[]"] fold_device[OF assms, of table "[]"] assms
  by (cases "valid_qm_path d") (auto simp: outcome_def GetMountPointsFromDeviceName_def)

lemma from_mount_point:
  "outcome (valid_qm_path m \<and> last m = CHR ''/'' \<and> fst (os_setmntent api w) \<noteq> None) (GetDeviceNameFromMountPoint api m) w
     (case List.find (\<lambda>e. with_slash (mnt_dir e) = m \<and> prefix PATH_DEV (mnt_fsname e)) table of None \<Rightarrow> [] | Some e \<Rightarrow> mnt_fsname e)"
  using with_mtab_folds[OF mount_computes, of w m "[]"] fold_mount[of m table]
  by (cases "valid_qm_path m"; cases "last m = CHR ''/''") (auto simp: outcome_def GetDeviceNameFromMountPoint_def)

lemma all_mount_points:
  "outcome (fst (os_setmntent api w) \<noteq> None) (GetMountPoints api ignore) w (map (with_slash \<circ> mnt_dir) (filter (\<lambda>e. \<not> (ignore \<and> special e)) table))"
  using with_mtab_folds[OF any_computes, of w ignore "[]"] fold_any[of ignore table "[]"] by (auto simp: outcome_def GetMountPoints_def)

lemma from_path:
  "outcome (valid_qm_path p \<and> stat_of p \<noteq> None \<and> fst (os_setmntent api (snd (os_stat api p w))) \<noteq> None) (GetMountPointsFromPath api p) w
     (map (with_slash \<circ> mnt_dir) (filter (\<lambda>e. map_option st_dev (stat_of (mnt_dir e)) = map_option st_dev (stat_of p)) table))"
proof (cases "valid_qm_path p")
  case True
  obtain rc st w1 where s: "os_stat api p w = ((rc, st), w1)" by (metis prod.exhaust)
  show ?thesis
  proof (cases "rc = 0")
    case rc: True
    then have "stat_of p = Some st" "opened w1 = opened w" using stat[OF s] by auto
    then show ?thesis using with_mtab_folds[OF path_computes, of w1 st "[]"] fold_path[of st table "[]"] True s rc
      by (auto simp: outcome_def GetMountPointsFromPath_def)
  next
    case False
    then have "opened w1 = opened w" "stat_of p = None" "mt_errno api w1 \<noteq> EINTR" using stat[OF s] by auto
    then show ?thesis using True s False
      by (auto simp: outcome_def GetMountPointsFromPath_def mt_assert_not_interrupted_def mt_error_def cpp_assert_def bind_def)
  qed
qed (auto simp: outcome_def GetMountPointsFromPath_def)

end

lemma must_app: "must f w = (if fst (f w) = 0 then Some (Ret () (snd (f w))) else Some (Exc RuntimeError (snd (f w))))"
  by (cases "f w") (simp add: must_def)

section \<open>What the system promises: devices\<close>

text \<open>\<open>refs\<close> are the references the program holds.  A device is what its path in \<open>sysfs\<close> names.  The properties that were asked
  for restrict the list of an enumeration.\<close>

record sys_device =
  devtype :: "string option"
  device_property :: "string \<Rightarrow> string option"
  devnode :: "string option"

lemma not_std_runtime_error [simp]: "\<not> derived_from (exn_class DynamicLoaderError) std_runtime_error"
  by (simp add: DynamicLoaderError_def mk_exn_def derived_from.simps[of DynamicLoaderException] derived_from.simps[of RuntimeException]
      derived_from.simps[of Exception] derived_from.simps[of std_exception])

locale udev_library =
  fixes api :: "('w, 'x) udev_api_scheme"
    and refs :: "'w \<Rightarrow> nat multiset"
    and device_at :: "string \<Rightarrow> sys_device option"
    and wanted :: "nat \<Rightarrow> 'w \<Rightarrow> (string \<times> string) list"
    and remaining :: "nat \<Rightarrow> 'w \<Rightarrow> string list"
  assumes loads: "refs (snd (load_lib1 api w)) = refs w" "refs (snd (load_lib0 api w)) = refs w"
    and new: "udev_new api w = (r, w') \<Longrightarrow> refs w' = refs w + mset_set (set_option r)"
    and enumerate_new: "enumerate_new api u w = (r, w') \<Longrightarrow> refs w' = refs w + mset_set (set_option r) \<and> (\<forall>n. r = Some n \<longrightarrow> wanted n w' = [])"
    and unrefs: "refs (snd (udev_unref api u w)) = refs w - {#u#}" "refs (snd (enumerate_unref api u w)) = refs w - {#u#}"
      "refs (snd (device_unref api u w)) = refs w - {#u#}"
    and match_subsystem: "refs (snd (match_subsystem api n sub w)) = refs w" "wanted n (snd (match_subsystem api n sub w)) = wanted n w"
    and match_property: "match_property api n p v w = (rc, w') \<Longrightarrow> refs w' = refs w \<and> (rc = 0 \<longrightarrow> wanted n w' = wanted n w @ [(p, v)])"
    and scan: "refs (snd (scan_devices api n w)) = refs w" "wanted n (snd (scan_devices api n w)) = wanted n w"
    and first: "get_list_entry api n w = Some e \<Longrightarrow> path \<in> set (remaining e w) \<Longrightarrow>
        \<exists>d. device_at path = Some d \<and> (\<forall>(p, v) \<in> set (wanted n w). device_property d p = Some v)"
    and entry: "entry_name api e w = Some path \<Longrightarrow> path \<noteq> [] \<and> path \<in> set (remaining e w)"
    and entry_next: "entry_next api e w = Some e' \<Longrightarrow> length (remaining e' w) < length (remaining e w) \<and> set (remaining e' w) \<subseteq> set (remaining e w)"
    and device_new: "device_new api u path w = (r, w') \<Longrightarrow> refs w' = refs w + mset_set (set_option r) \<and> remaining e w' = remaining e w
        \<and> (\<forall>d. r = Some d \<longrightarrow> (\<exists>dev. device_at path = Some dev \<and> get_devtype api d w' = devtype dev
             \<and> (\<forall>p. get_property api d p w' = device_property dev p) \<and> get_devnode api d w' = devnode dev))"
    and device_unref: "remaining e (snd (device_unref api d w)) = remaining e w"
begin

text \<open>A device of a list that passes the tests.\<close>

definition found_in :: "device_type \<Rightarrow> string set \<Rightarrow> string \<Rightarrow> bool" where
  "found_in t paths name \<longleftrightarrow> (\<exists>path \<in> paths. \<exists>d. device_at path = Some d \<and> device_name t (devtype d) (device_property d) (devnode d) = Some name)"

lemma check_entry_ends:
  "\<exists>r w'. check_entry api t u e w = Some (Ret r w') \<and> refs w' = refs w \<and> (\<forall>e. remaining e w' = remaining e w)
    \<and> (\<forall>name. r = Some name \<longrightarrow> found_in t (set (remaining e w)) name)"
proof (cases "entry_name api e w")
  case None
  then show ?thesis by (simp add: check_entry_def)
next
  case (Some path)
  obtain r w1 where d: "device_new api u path w = (r, w1)" by fastforce
  note new = device_new[OF d] and path = entry[OF Some]
  show ?thesis
  proof (cases r)
    case None
    then show ?thesis using new d Some path by (auto simp: check_entry_def with_ref_def)
  next
    case dev: (Some d')
    let ?n = "device_name t (get_devtype api d' w1) (\<lambda>p. get_property api d' p w1) (get_devnode api d' w1)"
    have run: "check_entry api t u e w = Some (Ret ?n (snd (device_unref api d' w1)))"
      using d Some path dev by (simp add: check_entry_def with_ref_def scoped_call)
    obtain sd where sd: "device_at path = Some sd" "?n = device_name t (devtype sd) (device_property sd) (devnode sd)"
      using new dev by fastforce
    have "refs (snd (device_unref api d' w1)) = refs w" using unrefs(3)[of d' w1] new dev by simp
    moreover have "remaining e (snd (device_unref api d' w1)) = remaining e w" for e using device_unref new by metis
    moreover have "?n = Some name \<Longrightarrow> found_in t (set (remaining e w)) name" for name
      unfolding found_in_def using path sd by metis
    ultimately show ?thesis using run by blast
  qed
qed

lemma device_loop_ends:
  "\<exists>name w'. device_loop api t u e w = Some (Ret name w') \<and> refs w' = refs w \<and> (name \<noteq> [] \<longrightarrow> found_in t (set (remaining e w)) name)"
proof (induction "length (remaining e w)" arbitrary: e w rule: less_induct)
  case less
  obtain r w1 where c: "check_entry api t u e w = Some (Ret r w1)" "refs w1 = refs w" "\<forall>e. remaining e w1 = remaining e w"
    "\<forall>name. r = Some name \<longrightarrow> found_in t (set (remaining e w)) name" using check_entry_ends by blast
  show ?case
  proof (cases r)
    case (Some name)
    then show ?thesis using c by (subst device_loop.simps) simp
  next
    case None
    show ?thesis
    proof (cases "entry_next api e w1")
      case last: None
      then show ?thesis using c None by (subst device_loop.simps) simp
    next
      case next': (Some e')
      have n: "length (remaining e' w1) < length (remaining e w)" "set (remaining e' w1) \<subseteq> set (remaining e w)"
        using entry_next[OF next'] c(3) by auto
      obtain name w2 where l: "device_loop api t u e' w1 = Some (Ret name w2)" "refs w2 = refs w1" "name \<noteq> [] \<longrightarrow> found_in t (set (remaining e' w1)) name"
        using less[OF n(1)] by blast
      have "device_loop api t u e w = Some (Ret name w2)" using c(1) None next' l(1) by (subst device_loop.simps) simp
      moreover have "name \<noteq> [] \<longrightarrow> found_in t (set (remaining e w)) name" using l(3) n(2) unfolding found_in_def by blast
      ultimately show ?thesis using l(2) c(2) by auto
    qed
  qed
qed

text \<open>An operation that returns or throws and holds the references it held.\<close>

definition ends :: "('a, 'w) fprog \<Rightarrow> 'w \<Rightarrow> ('a \<Rightarrow> bool) \<Rightarrow> bool" where
  "ends m w Q \<longleftrightarrow> (\<exists>w'. refs w' = refs w \<and> ((\<exists>a. m w = Some (Ret a w') \<and> Q a) \<or> (\<exists>e \<in> {EmptyArgument, RuntimeError, DynamicLoaderError}. m w = Some (Exc e w'))))"

lemma ends_bind:
  assumes "m w = Some (Ret a w1)" "refs w1 = refs w" "ends (k a) w1 Q"
  shows "ends (bind m k) w Q"
  using assms by (simp add: ends_def)

lemma ends_must:
  assumes "refs (snd (f w)) = refs w" "fst (f w) = 0 \<Longrightarrow> ends m (snd (f w)) Q"
  shows "ends (andthen (must f) m) w Q"
  using assms by (cases "fst (f w) = 0") (auto simp: ends_def must_app)

lemma ends_ref:
  assumes "refs (snd (new w)) = refs w + mset_set (set_option (fst (new w)))" "\<And>p w. refs (snd (unref p w)) = refs w - {#p#}"
    and "\<And>p. fst (new w) = Some p \<Longrightarrow> ends (body p) (snd (new w)) Q"
  shows "ends (with_ref new unref (throw RuntimeError) body) w Q"
proof (cases "new w")
  case (Pair r w1)
  show ?thesis
  proof (cases r)
    case None
    then show ?thesis using Pair assms(1) by (simp add: ends_def with_ref_def)
  next
    case (Some p)
    obtain w2 where 2: "refs w2 = refs w1" "(\<exists>a. body p w1 = Some (Ret a w2) \<and> Q a) \<or> (\<exists>e \<in> {EmptyArgument, RuntimeError, DynamicLoaderError}. body p w1 = Some (Exc e w2))"
      using assms(3)[of p] Pair Some unfolding ends_def by auto
    have "refs (snd (unref p w2)) = refs w" using assms(1) assms(2)[of p w2] 2(1) Pair Some by simp
    then show ?thesis using 2(2) Pair Some unfolding ends_def
      by (intro exI[of _ "snd (unref p w2)"]) (auto simp: with_ref_def scoped_call)
  qed
qed

lemma load_ends: "\<exists>w'. refs w' = refs w \<and> LibUDev api w = Some (if fst (load_lib1 api w) then Ret () w' else Exc DynamicLoaderError w')"
proof (cases "load_lib1 api w")
  case (Pair ok w1)
  then show ?thesis using loads(1)[of w] by (cases ok) (auto simp: LibUDev_def load_library_def call_def)
qed

text \<open>The device that is looked for.\<close>

definition is_device :: "device_type \<Rightarrow> string \<Rightarrow> nat \<Rightarrow> nat \<Rightarrow> string \<Rightarrow> bool" where
  "is_device t serialNumber vendorId productId name \<longleftrightarrow> (\<exists>path d. device_at path = Some d \<and> device_name t (devtype d) (device_property d) (devnode d) = Some name
     \<and> device_property d ''ID_SERIAL_SHORT'' = Some serialNumber \<and> device_property d ''ID_VENDOR_ID'' = Some (hex_number vendorId)
     \<and> device_property d ''ID_MODEL_ID'' = Some (hex_number productId))"

lemma GetDeviceName_ends: "ends (GetDeviceName api t serialNumber vendorId productId) w (\<lambda>name. name = [] \<or> is_device t serialNumber vendorId productId name)"
proof (cases "serialNumber = []")
  case True
  then show ?thesis by (simp add: GetDeviceName_def ends_def)
next
  case False
  let ?Q = "\<lambda>name. name = [] \<or> is_device t serialNumber vendorId productId name"
  have found: "ends (\<lambda>w. case get_list_entry api n w of None \<Rightarrow> throw RuntimeError w | Some entry \<Rightarrow> device_loop api t u entry w) w ?Q"
    if "wanted n w = [(''ID_SERIAL_SHORT'', serialNumber), (''ID_VENDOR_ID'', hex_number vendorId), (''ID_MODEL_ID'', hex_number productId)]" for n u w
  proof (cases "get_list_entry api n w")
    case (Some e)
    obtain name w' where l: "device_loop api t u e w = Some (Ret name w')" "refs w' = refs w" "name \<noteq> [] \<longrightarrow> found_in t (set (remaining e w)) name"
      using device_loop_ends by blast
    have "name \<noteq> [] \<longrightarrow> is_device t serialNumber vendorId productId name"
    proof
      assume "name \<noteq> []"
      then obtain path d where "path \<in> set (remaining e w)" "device_at path = Some d" "device_name t (devtype d) (device_property d) (devnode d) = Some name"
        using l(3) unfolding found_in_def by blast
      then show "is_device t serialNumber vendorId productId name" using first[OF Some] that unfolding is_device_def by fastforce
    qed
    then show ?thesis using l Some by (auto simp: ends_def)
  qed (simp add: ends_def)
  have property: "ends (andthen (must (match_property api n p v)) m) w Q"
    if "\<And>w'. refs w' = refs w \<Longrightarrow> wanted n w' = wanted n w @ [(p, v)] \<Longrightarrow> ends m w' Q" for n p v m w and Q :: "string \<Rightarrow> bool"
    using that match_property[of n p v w] by (intro ends_must) (metis prod.collapse)+
  obtain w1 where 1: "refs w1 = refs w" "LibUDev api w = Some (if fst (load_lib1 api w) then Ret () w1 else Exc DynamicLoaderError w1)" using load_ends by blast
  show ?thesis
  proof (cases "fst (load_lib1 api w)")
    case True
    have enum: "ends (enumerate_devices api t serialNumber vendorId productId u n) w ?Q" if "wanted n w = []" for u n w
      unfolding enumerate_devices_def by (intro ends_must property found) (use that in \<open>simp_all add: match_subsystem scan\<close>)
    have "ends (with_ref (udev_new api) (udev_unref api) (throw RuntimeError) (\<lambda>udev. with_ref (enumerate_new api udev) (enumerate_unref api)
        (throw RuntimeError) (enumerate_devices api t serialNumber vendorId productId udev))) w1 ?Q"
    proof (intro ends_ref)
      fix u n w assume "fst (enumerate_new api u w) = Some n"
      then show "ends (enumerate_devices api t serialNumber vendorId productId u n) (snd (enumerate_new api u w)) ?Q"
        using enum enumerate_new[of u w] by (metis prod.collapse)
    qed (use new[of w1] enumerate_new unrefs in \<open>auto simp: prod_eq_iff\<close>)
    then show ?thesis using True False 1 unfolding GetDeviceName_def by (simp add: ends_def)
  qed (use 1 False in \<open>auto simp: GetDeviceName_def ends_def\<close>)
qed

end

end
