(* ===== verification/MountRuns.thy ===== *)
theory MountRuns
imports MountPoints
begin

text \<open>
  Systems that compute and keep the contracts of \<open>MountPoints\<close>, and the properties of mount points, devices and space.
\<close>

section \<open>A table in memory\<close>

record mworld =
  m_open :: "nat list"
  m_rest :: "nat \<Rightarrow> mntent list"
  m_errno :: int

definition sample_mounts :: "mntent list \<Rightarrow> (string \<Rightarrow> file_stat option) \<Rightarrow> mworld mount_api" where
  "sample_mounts tab stats = \<lparr>mt_ndebug = False, mt_errno = m_errno,
     os_stat = (\<lambda>p w. case stats p of Some st \<Rightarrow> ((0, st), w) | None \<Rightarrow> ((- 1, \<lparr>st_dev = 0, st_isblk = False, st_size = 0\<rparr>), w\<lparr>m_errno := ENOENT\<rparr>)),
     os_setmntent = (\<lambda>w. let h = Suc (sum_list (m_open w)) in (Some h, w\<lparr>m_open := h # m_open w, m_rest := (m_rest w)(h := tab)\<rparr>)),
     os_getmntent = (\<lambda>h w. case m_rest w h of [] \<Rightarrow> (None, w) | e # es \<Rightarrow> (Some e, w\<lparr>m_rest := (m_rest w)(h := es)\<rparr>)),
     os_endmntent = (\<lambda>h w. ((), w\<lparr>m_open := removeAll h (m_open w)\<rparr>))\<rparr>"

definition filled_table :: "mntent list \<Rightarrow> mntent list" where
  "filled_table tab = filter (\<lambda>e. mnt_dir e \<noteq> [] \<and> mnt_fsname e \<noteq> []) tab"

interpretation sample_mounts: mount_table "sample_mounts (filled_table tab) stats" "\<lambda>h w. m_rest w h" "\<lambda>w. set (m_open w)" "filled_table tab" stats
  for tab stats
proof (unfold_locales, goal_cases)
  case (1 w r w')
  have "Suc (sum_list (m_open w)) \<notin> set (m_open w)" using member_le_sum_list by fastforce
  then show ?case using 1 by (auto simp: sample_mounts_def Let_def)
next
  case (2 h w entry w')
  then show ?case by (auto simp: sample_mounts_def split: list.splits)
next
  case (4 p w rc st w' h)
  then show ?case by (auto simp: sample_mounts_def split: option.splits)
qed (auto simp: sample_mounts_def filled_table_def)

section \<open>Devices in memory\<close>

record uworld =
  u_held :: "nat list"
  u_current :: nat
  u_wanted :: "nat \<Rightarrow> (string \<times> string) list"
  u_device :: string

definition fits :: "(string \<Rightarrow> sys_device option) \<Rightarrow> (string \<times> string) list \<Rightarrow> string \<Rightarrow> bool" where
  "fits devs props path \<longleftrightarrow> path \<noteq> [] \<and> (case devs path of None \<Rightarrow> False | Some d \<Rightarrow> list_all (\<lambda>(p, v). device_property d p = Some v) props)"

definition hits :: "string list \<Rightarrow> (string \<Rightarrow> sys_device option) \<Rightarrow> uworld \<Rightarrow> string list" where
  "hits paths devs w = filter (fits devs (u_wanted w (u_current w))) paths"

definition sample_udev :: "string list \<Rightarrow> (string \<Rightarrow> sys_device option) \<Rightarrow> uworld udev_api" where
  "sample_udev paths devs = \<lparr>ud_ndebug = False, load_lib1 = (\<lambda>w. (True, w)), load_lib0 = (\<lambda>w. (True, w)),
     udev_new = (\<lambda>w. (Some 0, w\<lparr>u_held := 0 # u_held w\<rparr>)), udev_unref = (\<lambda>n w. ((), w\<lparr>u_held := remove1 n (u_held w)\<rparr>)),
     enumerate_new = (\<lambda>u w. (Some 1, w\<lparr>u_held := 1 # u_held w, u_current := 1, u_wanted := (u_wanted w)(1 := [])\<rparr>)),
     enumerate_unref = (\<lambda>n w. ((), w\<lparr>u_held := remove1 n (u_held w)\<rparr>)),
     match_subsystem = (\<lambda>n s w. (0, w)), match_property = (\<lambda>n p v w. (0, w\<lparr>u_wanted := (u_wanted w)(n := u_wanted w n @ [(p, v)])\<rparr>)),
     scan_devices = (\<lambda>n w. (0, w)), get_list_entry = (\<lambda>n w. if n = u_current w \<and> hits paths devs w \<noteq> [] then Some 0 else None),
     entry_name = (\<lambda>i w. if i < length (hits paths devs w) then Some (hits paths devs w ! i) else None),
     entry_next = (\<lambda>i w. if Suc i < length (hits paths devs w) then Some (Suc i) else None),
     device_new = (\<lambda>u path w. if devs path = None then (None, w) else (Some 2, w\<lparr>u_held := 2 # u_held w, u_device := path\<rparr>)),
     device_unref = (\<lambda>n w. ((), w\<lparr>u_held := remove1 n (u_held w)\<rparr>)), get_devtype = (\<lambda>d w. devtype (the (devs (u_device w)))),
     get_property = (\<lambda>d p w. device_property (the (devs (u_device w))) p), get_devnode = (\<lambda>d w. devnode (the (devs (u_device w))))\<rparr>"

lemma hits_keep [simp]: "hits paths devs (w\<lparr>u_held := x\<rparr>) = hits paths devs w" "hits paths devs (w\<lparr>u_device := y\<rparr>) = hits paths devs w"
  by (simp_all add: hits_def)

interpretation sample_udev: udev_library "sample_udev paths devs" "\<lambda>w. mset (u_held w)" devs "\<lambda>n w. u_wanted w n" "\<lambda>e w. drop e (hits paths devs w)"
  for paths devs
proof (unfold_locales, goal_cases)
  case (13 n w e path)
  then show ?case by (auto simp: sample_udev_def hits_def fits_def list_all_iff split: if_splits option.splits)
next
  case (14 e w path)
  then have "e < length (hits paths devs w)" "path = hits paths devs w ! e" by (auto simp: sample_udev_def split: if_splits)
  moreover from this have "path \<in> set (hits paths devs w)" by simp
  moreover have "drop e (hits paths devs w) = path # drop (Suc e) (hits paths devs w)" using calculation by (simp add: Cons_nth_drop_Suc)
  ultimately show ?case by (auto simp: hits_def fits_def)
next
  case (15 e w e')
  then show ?case by (auto simp: sample_udev_def split: if_splits dest: subsetD[OF set_drop_subset_set_drop[of e "Suc e"], rotated])
qed (auto simp: sample_udev_def split: if_splits)

section \<open>Properties\<close>

lemma find_mount:
  assumes "distinct (map g es)" "e \<in> set es" "P e"
  shows "List.find (\<lambda>x. g x = g e \<and> P x) es = Some e"
  using assms
proof (induction es)
  case (Cons a es)
  then show ?case by (cases "a = e") auto
qed simp


text \<open>The two directions agree: where no two file systems are mounted on one directory, every mount point found for a device gives
  back that device.\<close>

theorem device_of_its_mount_points:
  assumes "mount_table api entries opened table stat_of" "distinct (map (with_slash \<circ> mnt_dir) table)"
    and "GetMountPointsFromDeviceName api d w = Some (Ret ms w1)" "m \<in> set ms" "valid_qm_path m" "fst (os_setmntent api w1) \<noteq> None"
  shows "\<exists>w2. GetDeviceNameFromMountPoint api m w1 = Some (Ret d w2)"
proof -
  have d: "prefix ''/dev/'' d" using assms(3)
    by (cases "valid_qm_path d"; cases "prefix ''/dev/'' d") (simp_all add: GetMountPointsFromDeviceName_def)
  have "ms = map (with_slash \<circ> mnt_dir) (filter (\<lambda>e. mnt_fsname e = d) table)"
    using mount_table.from_device[OF assms(1) d, of w] assms(3) by (auto simp: mount_table.outcome_def[OF assms(1)] split: if_splits)
  then obtain e where e: "e \<in> set table" "mnt_fsname e = d" "m = with_slash (mnt_dir e)" using assms(4) by auto
  have "List.find (\<lambda>x. with_slash (mnt_dir x) = m \<and> prefix ''/dev/'' (mnt_fsname x)) table = Some e"
    using find_mount[OF assms(2) e(1), of "\<lambda>x. prefix ''/dev/'' (mnt_fsname x)"] e d by (simp add: comp_def)
  moreover have "last m = CHR ''/''" using e(3) by (simp add: with_slash_def)
  ultimately show ?thesis using mount_table.from_mount_point[OF assms(1), of m w1] e(2) assms(5,6) by (auto simp: mount_table.outcome_def[OF assms(1)])
qed

text \<open>C31: \<open>GetDeviceName\<close> always ends, and has then given back every reference of \<open>libudev\<close> it obtained, also when it throws; a name
  that is not empty is the node, in \<open>/dev/\<close>, of a device with the serial number and identifiers asked for that passes the tests.\<close>

theorem device_name_sound:
  assumes "udev_library api refs device_at wanted remaining"
  shows "\<exists>w'. refs w' = refs w \<and> ((\<exists>e \<in> {EmptyArgument, RuntimeError, DynamicLoaderError}. GetDeviceName api t serial vendor product w = Some (Exc e w'))
    \<or> (\<exists>name. GetDeviceName api t serial vendor product w = Some (Ret name w') \<and> (name = [] \<or> prefix ''/dev/'' name
        \<and> (\<exists>path d. device_at path = Some d \<and> devnode d = Some name \<and> device_property d ''ID_SERIAL_SHORT'' = Some serial
             \<and> device_property d ''ID_FS_USAGE'' = Some ''filesystem'' \<and> device_property d ''ID_VENDOR_ID'' = Some (hex_number vendor)
             \<and> device_property d ''ID_MODEL_ID'' = Some (hex_number product)))))"
proof -
  have "prefix ''/dev/'' name \<and> (\<exists>path d. device_at path = Some d \<and> devnode d = Some name \<and> device_property d ''ID_SERIAL_SHORT'' = Some serial
      \<and> device_property d ''ID_FS_USAGE'' = Some ''filesystem'' \<and> device_property d ''ID_VENDOR_ID'' = Some (hex_number vendor)
      \<and> device_property d ''ID_MODEL_ID'' = Some (hex_number product))"
    if dev: "udev_library.is_device device_at t serial vendor product name" for name
  proof -
    obtain path d where d: "device_at path = Some d" "device_name t (devtype d) (device_property d) (devnode d) = Some name"
      "device_property d ''ID_SERIAL_SHORT'' = Some serial" "device_property d ''ID_VENDOR_ID'' = Some (hex_number vendor)"
      "device_property d ''ID_MODEL_ID'' = Some (hex_number product)"
      using dev unfolding udev_library.is_device_def[OF assms] by blast
    moreover have "devnode d = Some name \<and> prefix ''/dev/'' name \<and> device_property d ''ID_FS_USAGE'' = Some ''filesystem''"
      using d(2) by (auto simp: device_name_def split: if_splits option.splits)
    ultimately show ?thesis by blast
  qed
  then show ?thesis using udev_library.GetDeviceName_ends[OF assms, of t serial vendor product w] unfolding udev_library.ends_def[OF assms] by blast
qed


section \<open>Witnesses\<close>

definition two_table :: "mntent list" where
  "two_table = [\<lparr>mnt_fsname = ''/dev/sda1'', mnt_dir = ''/'', mnt_type = ''ext4''\<rparr>, \<lparr>mnt_fsname = ''/dev/sdb1'', mnt_dir = ''/media/usb'', mnt_type = ''vfat''\<rparr>]"

definition two_stats :: "string \<Rightarrow> file_stat option" where
  "two_stats p = (if p = ''/'' then Some \<lparr>st_dev = 1, st_isblk = False, st_size = 4096\<rparr>
     else if p = ''/media/usb'' then Some \<lparr>st_dev = 2, st_isblk = False, st_size = 4096\<rparr> else None)"

abbreviation "two_api \<equiv> sample_mounts (filled_table two_table) two_stats"

definition first_mworld :: mworld where
  "first_mworld = \<lparr>m_open = [], m_rest = (\<lambda>_. []), m_errno = 0\<rparr>"

lemma two_filled [simp]: "filled_table two_table = two_table"
  by (simp add: filled_table_def two_table_def)

lemma sample_opens [simp]: "fst (os_setmntent (sample_mounts tab stats) w) \<noteq> None"
  by (simp add: sample_mounts_def Let_def)


lemma usb_mount_points:
  "\<exists>w1. GetMountPointsFromDeviceName two_api ''/dev/sdb1'' first_mworld = Some (Ret [''/media/usb/''] w1)"
  using sample_mounts.from_device[of "''/dev/sdb1''" two_table two_stats first_mworld]
  by (auto simp: sample_mounts.outcome_def valid_qm_path_def two_table_def filled_table_def with_slash_def)

lemma device_of_its_mount_points_witness:
  "\<exists>w1 w2. GetDeviceNameFromMountPoint two_api ''/media/usb/'' w1 = Some (Ret ''/dev/sdb1'' w2)"
proof -
  obtain w1 where w1: "GetMountPointsFromDeviceName two_api ''/dev/sdb1'' first_mworld = Some (Ret [''/media/usb/''] w1)" using usb_mount_points by blast
  have "distinct (map (with_slash \<circ> mnt_dir) (filled_table two_table))" by (simp, simp add: two_table_def with_slash_def)
  from device_of_its_mount_points[OF sample_mounts.mount_table_axioms this w1] show ?thesis by (auto simp: valid_qm_path_def)
qed

definition stick :: sys_device where
  "stick = \<lparr>devtype = Some ''partition'', device_property = [''ID_SERIAL_SHORT'' \<mapsto> ''S1'', ''ID_VENDOR_ID'' \<mapsto> ''046d'', ''ID_MODEL_ID'' \<mapsto> ''c52b'',
     ''ID_FS_USAGE'' \<mapsto> ''filesystem'', ''ID_TYPE'' \<mapsto> ''disk''], devnode = Some ''/dev/sdb1''\<rparr>"

definition first_uworld :: uworld where
  "first_uworld = \<lparr>u_held = [], u_current = 0, u_wanted = (\<lambda>_. []), u_device = []\<rparr>"

lemma device_name_sound_witness:
  "\<exists>w'. u_held w' = [] \<and> ((\<exists>e. GetDeviceName (sample_udev [''/sys/sdb1''] [''/sys/sdb1'' \<mapsto> stick]) dtDisk ''S1'' 1 2 first_uworld = Some (Exc e w'))
    \<or> (\<exists>name. GetDeviceName (sample_udev [''/sys/sdb1''] [''/sys/sdb1'' \<mapsto> stick]) dtDisk ''S1'' 1 2 first_uworld = Some (Ret name w')))"
  using device_name_sound[OF sample_udev.udev_library_axioms, of first_uworld "[''/sys/sdb1'']" "[''/sys/sdb1'' \<mapsto> stick]" dtDisk "''S1''" 1 2]
  by (fastforce simp: first_uworld_def)

definition sample_space :: "stat_vfs \<Rightarrow> unit space_api" where
  "sample_space s = \<lparr>sp_ndebug = False, sp_errno = (\<lambda>_. 0), qt_absolutePath = id, os_statvfs = (\<lambda>p w. (0, s, w))\<rparr>"

abbreviation "some_space \<equiv> \<lparr>f_frsize = 4096, f_blocks = 1000, f_bfree = 300, f_bavail = 200\<rparr>"


section \<open>Findings\<close>

text \<open>\<open>libudev\<close> has four hexadecimal digits for the identifiers; \<open>QString::number\<close> writes no leading zeros, and an empty list is \<open>NULL\<close>: the
  stick with the vendor \<open>046d\<close> is not found, and not finding one throws instead of returning the empty name.\<close>

lemma unpadded_identifier_finds_nothing:
  "\<exists>w. GetDeviceName (sample_udev [''/sys/sdb1''] [''/sys/sdb1'' \<mapsto> stick]) dtDisk ''S1'' 0x46d 0xc52b first_uworld = Some (Exc RuntimeError w)"
proof -
  have "hex_number 0x46d = ''46d''" "hex_number 0xc52b = ''c52b''"
    by (simp_all add: hex_number.simps[of 1133] hex_number.simps[of 70] hex_number.simps[of 4] hex_number.simps[of 50475]
        hex_number.simps[of 3154] hex_number.simps[of 197] hex_number.simps[of 12] hex_digit_def)
  then show ?thesis
    by (simp add: GetDeviceName_def enumerate_devices_def LibUDev_def load_library_def with_ref_def scoped_call must_app sample_udev_def first_uworld_def
        hits_def fits_def stick_def)
qed

text \<open>Of two devices on one directory the first one is found, which the second one hides.\<close>

definition stacked_table :: "mntent list" where
  "stacked_table = [\<lparr>mnt_fsname = ''/dev/sda1'', mnt_dir = ''/mnt'', mnt_type = ''ext4''\<rparr>, \<lparr>mnt_fsname = ''/dev/sdb1'', mnt_dir = ''/mnt'', mnt_type = ''ext4''\<rparr>]"

lemma hidden_device_found:
  "\<exists>w'. GetDeviceNameFromMountPoint (sample_mounts (filled_table stacked_table) two_stats) ''/mnt/'' w = Some (Ret ''/dev/sda1'' w')"
  using sample_mounts.from_mount_point[of "''/mnt/''" stacked_table two_stats w]
  by (auto simp: sample_mounts.outcome_def valid_qm_path_def stacked_table_def filled_table_def with_slash_def)

text \<open>A file system without blocks, such as \<open>/proc\<close>, ends a debug build; and a path without a slash at its end is answered with the
  space of its parent.\<close>

lemma empty_file_system_aborts:
  "GetFileSystemSpaceInfo (sample_space \<lparr>f_frsize = 4096, f_blocks = 0, f_bfree = 0, f_bavail = 0\<rparr>) ''/proc/'' () = Some (Term ())"
  by (simp add: GetFileSystemSpaceInfo_def TEMP_FAILURE_RETRY.simps sample_space_def valid_qm_path_def space_of_def Let_def)

lemma space_of_the_parent:
  assumes "qt_absolutePath api ''/mnt/usb'' = ''/mnt''" "qt_absolutePath api ''/mnt/'' = ''/mnt''"
  shows "GetFileSystemSpaceInfo api ''/mnt/usb'' = GetFileSystemSpaceInfo api ''/mnt/''"
  by (simp add: GetFileSystemSpaceInfo_def assms valid_qm_path_def)

text \<open>\<open>DynamicLoaderException\<close> is no \<open>std::runtime_error\<close>: when the first version of the library is missing the second is not tried.\<close>

lemma second_library_not_tried:
  assumes "serial \<noteq> []" "\<not> fst (load_lib1 api w)"
  shows "GetDeviceName api t serial vendor product w = Some (Exc DynamicLoaderError (snd (load_lib1 api w)))"
  using assms by (cases "load_lib1 api w") (simp add: GetDeviceName_def LibUDev_def load_library_def)

end
