(* ===== verification/DiskSpaceWidgets.thy ===== *)
theory DiskSpaceWidgets
imports Complex_Main MountRuns "HOL-Library.Signed_Division"
begin

text \<open>
  \<open>DiskSpaceWidget\<close> (\<open>src/gui/disk_space_widget.cpp\<close>) over \<open>GetFileSystemSpaceInfo\<close> and \<open>GetMountPointsFromPath\<close>.

  A \<open>qreal\<close> is the rational number it stands for: an operation on them is the exact one followed by \<open>qr_round\<close>.  \<open>qr_int\<close> is the
  conversion of an integral \<open>qreal\<close> to \<open>int\<close>.  The progress bar is its maximum (its minimum is always 0) and its value; \<open>setRange\<close> and
  \<open>setValue\<close> of Qt are parameters, as are \<open>QString::number\<close> with two decimals and \<open>tr\<close>.  A colour is its name.
\<close>

record progress_bar =
  bar_max :: int
  bar_value :: int

record disk_api =
  dw_ndebug :: bool
  qr_round :: "rat \<Rightarrow> rat"
  qr_int :: "rat \<Rightarrow> int"
  qs_fixed2 :: "rat \<Rightarrow> string"
  dw_tr :: "string \<Rightarrow> string"
  bar_setRange :: "int \<Rightarrow> progress_bar \<Rightarrow> progress_bar"
  bar_setValue :: "int \<Rightarrow> progress_bar \<Rightarrow> progress_bar"

record disk_widget =
  visible :: bool
  diskNameColor :: string
  spaceInfoColor :: string
  path :: string
  mountPoint :: string
  bar :: progress_bar
  label :: string
  bold :: bool
  interval :: int
  timerActive :: bool

type_synonym ('a, 'w) dprog = "(exn, 'a, 'w \<times> disk_widget) prog"

text \<open>The two formats.\<close>

definition disk_name_text :: "string \<Rightarrow> string \<Rightarrow> string" where
  "disk_name_text color name = ''<FONT COLOR='' @ color @ ''>'' @ name @ '': </FONT>''"

definition space_info_text :: "disk_api \<Rightarrow> string \<Rightarrow> string \<Rightarrow> string \<Rightarrow> string" where
  "space_info_text dw color free allOf = ''<FONT COLOR='' @ color @ ''>'' @ free @ '' '' @ dw_tr dw ''free of'' @ '' '' @ allOf @ '' '' @ dw_tr dw ''GB'' @ ''</FONT>''"

section \<open>Refreshing\<close>

definition on_bar :: "(progress_bar \<Rightarrow> progress_bar) \<Rightarrow> (unit, 'w) dprog" where
  "on_bar f = modify (\<lambda>s. s\<lparr>bar := f (bar s)\<rparr>)"

text \<open>The mount point is looked up once; the block catches \<open>std::runtime_error\<close>.\<close>

definition find_mount_point :: "disk_api \<Rightarrow> (string \<Rightarrow> (string list, 'w) fprog) \<Rightarrow> (unit, 'w) dprog" where
  "find_mount_point dw getMountPoints = bind (this mountPoint) (\<lambda>m. if m \<noteq> [] then ret () else
     catch (bind (this path) (\<lambda>p. bind (env (getMountPoints p)) (\<lambda>kMountPoints. if kMountPoints \<noteq> []
        then andthen (modify (\<lambda>s. s\<lparr>mountPoint := kMountPoints ! 0\<rparr>)) (cpp_assert (dw_ndebug dw) (kMountPoints ! 0 \<noteq> []))
        else ret ())))
       (dispatch [(std_runtime_error, \<lambda>exc. ret ())] throw))"

definition disk_name :: "disk_widget \<Rightarrow> string" where
  "disk_name s = (if mountPoint s = [] then path s else mountPoint s)"

definition DoRefresh :: "disk_api \<Rightarrow> ('w, 'x) mount_api_scheme \<Rightarrow> rat \<Rightarrow> rat \<Rightarrow> (unit, 'w) dprog" where
  "DoRefresh dw mt totalSize freeSpace = andthen (cpp_assert (dw_ndebug dw) (totalSize \<ge> 0)) (andthen (cpp_assert (dw_ndebug dw) (freeSpace \<ge> 0))
     (andthen (cpp_assert (dw_ndebug dw) (totalSize \<ge> freeSpace)) (bind (this path) (\<lambda>p. andthen (cpp_assert (dw_ndebug dw) (p \<noteq> []))
     (let kRoundedTotalSize = qr_int dw (of_int \<lceil>qr_round dw (totalSize * 100)\<rceil>); kRoundedFreeSpace = qr_int dw (of_int \<lceil>qr_round dw (freeSpace * 100)\<rceil>) in
      andthen (on_bar (bar_setRange dw kRoundedTotalSize)) (andthen (cpp_assert (dw_ndebug dw) (kRoundedTotalSize \<ge> kRoundedFreeSpace))
      (andthen (on_bar (bar_setValue dw (kRoundedTotalSize - kRoundedFreeSpace)))
      (andthen (find_mount_point dw (\<lambda>p. bind (catching_code (GetMountPointsFromPath mt p) []) (\<lambda>(ps, errorCode). ret ps)))
        (modify (\<lambda>s. s\<lparr>label := disk_name_text (diskNameColor s) (disk_name s)
           @ space_info_text dw (spaceInfoColor s) (qs_fixed2 dw freeSpace) (qs_fixed2 dw totalSize)\<rparr>))))))))))"

definition reset_bar :: "disk_api \<Rightarrow> (unit, 'w) dprog" where
  "reset_bar dw = andthen (on_bar (bar_setRange dw 0)) (on_bar (bar_setValue dw 0))"

definition Reset :: "disk_api \<Rightarrow> (unit, 'w) dprog" where
  "Reset dw = bind (this path) (\<lambda>p. andthen (cpp_assert (dw_ndebug dw) (p = [])) (andthen (reset_bar dw)
     (modify (\<lambda>s. s\<lparr>label := disk_name_text (diskNameColor s) (dw_tr dw ''No Disk'') @ space_info_text dw (spaceInfoColor s) ''?'' ''?''\<rparr>))))"

definition FileSystemSpaceInfoNotAvailable :: "disk_api \<Rightarrow> ('w, 'x) mount_api_scheme \<Rightarrow> (unit, 'w) dprog" where
  "FileSystemSpaceInfoNotAvailable dw mt = bind (this path) (\<lambda>p. andthen (cpp_assert (dw_ndebug dw) (p \<noteq> [])) (andthen (reset_bar dw)
     (andthen (find_mount_point dw (GetMountPointsFromPath mt))
       (modify (\<lambda>s. s\<lparr>label := disk_name_text (diskNameColor s) (disk_name s) @ space_info_text dw (spaceInfoColor s) ''?'' ''?''\<rparr>)))))"

text \<open>The size of a file system in GB.\<close>

definition in_gb :: "disk_api \<Rightarrow> size_type \<Rightarrow> rat" where
  "in_gb dw n = qr_round dw (qr_round dw (of_nat (unat n)) / (1024 * 1024 * 1024))"

definition RefreshSpace :: "disk_api \<Rightarrow> ('w, 'x) mount_api_scheme \<Rightarrow> ('w, 'y) space_api_scheme \<Rightarrow> (unit, 'w) dprog" where
  "RefreshSpace dw mt sp = bind (this visible) (\<lambda>v. if \<not> v then ret () else
     bind (this path) (\<lambda>p. if p = [] then Reset dw else
       bind (env (catching_code (bind (GetFileSystemSpaceInfo sp p) (\<lambda>info. ret (Some info))) None)) (\<lambda>(info, errorCode). case info of
         None \<Rightarrow> FileSystemSpaceInfoNotAvailable dw mt
       | Some i \<Rightarrow> DoRefresh dw mt (in_gb dw (space_size i)) (in_gb dw (userFree i)))))"

section \<open>The other operations\<close>

definition SetDiskNameColor :: "disk_api \<Rightarrow> ('w, 'x) mount_api_scheme \<Rightarrow> ('w, 'y) space_api_scheme \<Rightarrow> string \<Rightarrow> (unit, 'w) dprog" where
  "SetDiskNameColor dw mt sp color = andthen (modify (\<lambda>s. s\<lparr>diskNameColor := color\<rparr>)) (RefreshSpace dw mt sp)"

definition SetSpaceInfoColor :: "disk_api \<Rightarrow> ('w, 'x) mount_api_scheme \<Rightarrow> ('w, 'y) space_api_scheme \<Rightarrow> string \<Rightarrow> (unit, 'w) dprog" where
  "SetSpaceInfoColor dw mt sp color = andthen (modify (\<lambda>s. s\<lparr>spaceInfoColor := color\<rparr>)) (RefreshSpace dw mt sp)"

definition SetPath :: "disk_api \<Rightarrow> ('w, 'x) mount_api_scheme \<Rightarrow> ('w, 'y) space_api_scheme \<Rightarrow> string \<Rightarrow> (unit, 'w) dprog" where
  "SetPath dw mt sp p = andthen (modify (\<lambda>s. s\<lparr>path := p, mountPoint := []\<rparr>)) (RefreshSpace dw mt sp)"

definition SetBold :: "bool \<Rightarrow> (unit, 'w) dprog" where
  "SetBold value = bind (this bold) (\<lambda>b. if b \<noteq> value then modify (\<lambda>s. s\<lparr>bold := value\<rparr>) else ret ())"

text \<open>Seconds whose milliseconds fit an \<open>int\<close>.\<close>

definition SetAutoRefreshInterval :: "int \<Rightarrow> (unit, 'w) dprog" where
  "SetAutoRefreshInterval sec = modify (\<lambda>s. s\<lparr>interval := sec * 1000\<rparr>)"

definition GetAutoRefreshInterval :: "(int, 'w) dprog" where
  "GetAutoRefreshInterval = this (\<lambda>s. interval s sdiv 1000)"

definition SetAutoRefreshEnabled :: "bool \<Rightarrow> (unit, 'w) dprog" where
  "SetAutoRefreshEnabled value = modify (\<lambda>s. s\<lparr>timerActive := value\<rparr>)"

definition IsAutoRefreshEnabled :: "(bool, 'w) dprog" where
  "IsAutoRefreshEnabled = this timerActive"

text \<open>The widget as it is constructed: not shown, with the label and the bar of the form.\<close>

definition DiskSpaceWidget_ctor :: "progress_bar \<Rightarrow> string \<Rightarrow> disk_widget" where
  "DiskSpaceWidget_ctor formBar formLabel = \<lparr>visible = False, diskNameColor = ''#000000'', spaceInfoColor = ''#000080'', path = [], mountPoint = [],
     bar = formBar, label = formLabel, bold = False, interval = 5 * 1000, timerActive = False\<rparr>"

definition GetDiskNameColor :: "(string, 'w) dprog" where
  "GetDiskNameColor = this diskNameColor"

definition GetSpaceInfoColor :: "(string, 'w) dprog" where
  "GetSpaceInfoColor = this spaceInfoColor"

definition GetPath :: "(string, 'w) dprog" where
  "GetPath = this path"

definition GetBold :: "(bool, 'w) dprog" where
  "GetBold = this bold"

text \<open>Events; only a change of the language matters to \<open>changeEvent\<close>.\<close>

definition showEvent :: "disk_api \<Rightarrow> ('w, 'x) mount_api_scheme \<Rightarrow> ('w, 'y) space_api_scheme \<Rightarrow> (unit, 'w) dprog" where
  "showEvent dw mt sp = RefreshSpace dw mt sp"

definition changeEvent :: "disk_api \<Rightarrow> ('w, 'x) mount_api_scheme \<Rightarrow> ('w, 'y) space_api_scheme \<Rightarrow> bool \<Rightarrow> (unit, 'w) dprog" where
  "changeEvent dw mt sp languageChange = (if languageChange then RefreshSpace dw mt sp else ret ())"

text \<open>What the program, the user and the timer do.\<close>

datatype disk_use = UsePath string | UseNameColor string | UseInfoColor string | UseBold bool | UseInterval int | UseEnabled bool
  | Shown | Hidden | LanguageChanged | TimerFired

definition disk_use :: "disk_api \<Rightarrow> ('w, 'x) mount_api_scheme \<Rightarrow> ('w, 'y) space_api_scheme \<Rightarrow> disk_use \<Rightarrow> (unit, 'w) dprog" where
  "disk_use dw mt sp u = (case u of UsePath p \<Rightarrow> SetPath dw mt sp p | UseNameColor c \<Rightarrow> SetDiskNameColor dw mt sp c
     | UseInfoColor c \<Rightarrow> SetSpaceInfoColor dw mt sp c | UseBold b \<Rightarrow> SetBold b | UseInterval n \<Rightarrow> SetAutoRefreshInterval n
     | UseEnabled b \<Rightarrow> SetAutoRefreshEnabled b | Shown \<Rightarrow> andthen (modify (\<lambda>s. s\<lparr>visible := True\<rparr>)) (showEvent dw mt sp)
     | Hidden \<Rightarrow> modify (\<lambda>s. s\<lparr>visible := False\<rparr>) | LanguageChanged \<Rightarrow> changeEvent dw mt sp True
     | TimerFired \<Rightarrow> bind (this timerActive) (\<lambda>a. if a then RefreshSpace dw mt sp else ret ()))"

section \<open>What Qt and the arithmetic promise\<close>

text \<open>GB, and hundredths of them rounded up.\<close>

definition gigabytes :: "size_type \<Rightarrow> rat" where
  "gigabytes n = of_nat (unat n) / 2 ^ 30"

definition hundredths :: "size_type \<Rightarrow> int" where
  "hundredths n = \<lceil>(of_nat (100 * unat n) / 2 ^ 30 :: rat)\<rceil>"

lemma gigabytes_order: "0 \<le> gigabytes n" "m \<le> n \<Longrightarrow> gigabytes m \<le> gigabytes n"
  unfolding gigabytes_def word_le_nat_alt by (simp_all only: of_nat_0_le_iff divide_nonneg_nonneg divide_right_mono of_nat_le_iff zero_le_power zero_le_numeral)

lemma hundredths_order: "0 \<le> hundredths n" "m \<le> n \<Longrightarrow> hundredths m \<le> hundredths n"
proof -
  show mono: "hundredths m \<le> hundredths n" if "m \<le> n" for m n
    unfolding hundredths_def using that
    by (intro ceiling_mono divide_right_mono) (simp_all only: of_nat_le_iff word_le_nat_alt mult_le_mono2 zero_le_power zero_le_numeral)
  have "hundredths 0 = 0" by (simp add: hundredths_def)
  then show "0 \<le> hundredths n" using mono[of 0 n] by simp
qed

text \<open>A \<open>double\<close> holds 53 bits, so that fractions with small enough numerators are not rounded.\<close>

locale disk_toolkit =
  fixes dw :: disk_api
  assumes range: "0 \<le> m \<Longrightarrow> bar_max (bar_setRange dw m b) = m"
    and set_value: "0 \<le> v \<Longrightarrow> v \<le> bar_max b \<Longrightarrow> bar_value (bar_setValue dw v b) = v"
      "0 \<le> v \<Longrightarrow> v \<le> bar_max b \<Longrightarrow> bar_max (bar_setValue dw v b) = bar_max b"
    and exact: "\<bar>n\<bar> \<le> 2 ^ 53 \<Longrightarrow> k \<le> 30 \<Longrightarrow> qr_round dw (of_int n / 2 ^ k) = of_int n / 2 ^ k"
    and to_int: "\<bar>n\<bar> < 2 ^ 31 \<Longrightarrow> qr_int dw (of_int n) = n"
begin

lemma exact_nat: "m \<le> 2 ^ 53 \<Longrightarrow> k \<le> 30 \<Longrightarrow> qr_round dw (of_nat m / 2 ^ k) = of_nat m / 2 ^ k"
  using exact[of "int m" k] by simp

lemma in_gb_exact:
  assumes "unat n \<le> 2 ^ 46"
  shows "in_gb dw n = gigabytes n"
proof -
  have m: "unat n \<le> 2 ^ 53" using assms by simp
  have "qr_round dw (of_nat (unat n)) = of_nat (unat n)" using exact_nat[OF m, of 0] by simp
  moreover have "(1024 * 1024 * 1024 :: rat) = 2 ^ 30" by simp
  ultimately show ?thesis unfolding in_gb_def gigabytes_def using exact_nat[OF m, of 30] by simp
qed

lemma rounded_exact:
  assumes "unat n \<le> 2 ^ 46"
  shows "qr_int dw (of_int \<lceil>qr_round dw (gigabytes n * 100)\<rceil>) = hundredths n"
proof -
  let ?q = "of_nat (100 * unat n) / 2 ^ 30 :: rat"
  have "100 * unat n \<le> 2 ^ 53" using assms by simp
  moreover have "gigabytes n * 100 = ?q" by (simp add: gigabytes_def)
  ultimately have 1: "qr_round dw (gigabytes n * 100) = ?q" using exact_nat[of "100 * unat n" 30] by (simp only: order_refl)
  have "100 * unat n \<le> 100 * 2 ^ 46" using assms by simp
  then have "(of_nat (100 * unat n) :: rat) \<le> of_nat (100 * 2 ^ 46)" unfolding of_nat_le_iff .
  then have "?q \<le> of_int (100 * 2 ^ 16)" by simp
  then have "\<lceil>?q\<rceil> \<le> 100 * 2 ^ 16" by (simp only: ceiling_le_iff)
  then show ?thesis using hundredths_order(1)[of n] unfolding 1 hundredths_def by (intro to_int) simp
qed

text \<open>The bar after a refresh.\<close>

lemma bar_shown:
  assumes "u \<le> n"
  shows "bar_value (bar_setValue dw (hundredths n - hundredths u) (bar_setRange dw (hundredths n) b)) = hundredths n - hundredths u"
    and "bar_max (bar_setValue dw (hundredths n - hundredths u) (bar_setRange dw (hundredths n) b)) = hundredths n"
  using range[of "hundredths n" b] set_value[of "hundredths n - hundredths u" "bar_setRange dw (hundredths n) b"]
    hundredths_order(2)[OF assms] hundredths_order(1)[of u] hundredths_order(1)[of n] by linarith+

end

section \<open>What is shown\<close>

definition first_of :: "(exn, string list, 'w) res \<Rightarrow> string" where
  "first_of r = (case r of Ret (p # ps) w \<Rightarrow> p | _ \<Rightarrow> [])"

text \<open>The lookup of the mount point with an error code does not throw.\<close>

lemma find_mount_point_quiet:
  assumes "GetMountPointsFromPath mt (path s) w = Some r" "\<And>w'. r \<noteq> Term w'" "\<And>ps w'. r \<noteq> Ret ([] # ps) w'"
  shows "\<exists>w'. find_mount_point dw (\<lambda>p. bind (catching_code (GetMountPointsFromPath mt p) []) (\<lambda>(ps, errorCode). ret ps)) (w, s)
    = Some (Ret () (w', s\<lparr>mountPoint := (if mountPoint s = [] then first_of r else mountPoint s)\<rparr>))"
proof (cases r)
  case (Ret ps w')
  then show ?thesis using assms by (cases ps) (auto simp: find_mount_point_def catching_code_def first_of_def this_def modify_def env_def catch_def bind_def)
next
  case (Exc e w')
  then show ?thesis using assms by (auto simp: find_mount_point_def catching_code_def first_of_def this_def modify_def env_def catch_def bind_def)
qed (use assms in auto)

text \<open>A toolkit that computes, with fixed point arithmetic.\<close>

definition sample_disk :: disk_api where
  "sample_disk = \<lparr>dw_ndebug = False, qr_round = (\<lambda>q. of_int \<lfloor>q * 2 ^ 30\<rfloor> / 2 ^ 30), qr_int = floor, qs_fixed2 = (\<lambda>q. replicate (nat \<lfloor>q\<rfloor>) CHR ''I''), dw_tr = id,
     bar_setRange = (\<lambda>m b. \<lparr>bar_max = max 0 m, bar_value = if bar_value b \<le> m then bar_value b else - 1\<rparr>),
     bar_setValue = (\<lambda>v b. if 0 \<le> v \<and> v \<le> bar_max b then b\<lparr>bar_value := v\<rparr> else b)\<rparr>"

lemma fixed_point:
  assumes "k \<le> m"
  shows "of_int \<lfloor>of_int n / 2 ^ k * (2 :: rat) ^ m\<rfloor> / 2 ^ m = (of_int n / 2 ^ k :: rat)"
proof -
  obtain c where m: "m = k + c" using assms le_Suc_ex by blast
  have "of_int n / 2 ^ k * (2 :: rat) ^ m = of_int (n * 2 ^ c)" by (simp add: m power_add)
  then show ?thesis by (simp add: m power_add)
qed

interpretation sample_disk: disk_toolkit sample_disk
proof (unfold_locales, goal_cases)
  case (4 n k)
  then show ?case using fixed_point[of k 30 n] by (simp add: sample_disk_def)
qed (auto simp: sample_disk_def)


text \<open>\<open>FilesystemException\<close> is no \<open>std::runtime_error\<close>: with a path that cannot be examined the exception leaves the slot, and the label still
  shows the path before.\<close>

lemma file_errors_not_std_runtime_error [simp]:
  "\<not> derived_from (exn_class NoSuchFileOrDirectory) std_runtime_error" "\<not> derived_from (exn_class (FilesystemExc e)) std_runtime_error"
  by (simp_all add: derived_from_iff NoSuchFileOrDirectory_def FilesystemExc_def mk_exn_ec_def)

lemma missing_path_escapes:
  assumes "visible s" "valid_qm_path p" "GetFileSystemSpaceInfo sp p w = Some (Exc e w1)" "fst (fst (os_stat mt p w1)) \<noteq> 0"
    and "mt_errno mt (snd (os_stat mt p w1)) \<noteq> EINTR"
  shows "\<exists>e' w' s'. SetPath dw mt sp p (w, s) = Some (Exc e' (w', s')) \<and> path s' = p \<and> label s' = label s"
proof -
  have p: "p \<noteq> []" using assms(2) by (simp add: valid_qm_path_def)
  show ?thesis using assms p
    by (cases "os_stat mt p w1") (auto simp: SetPath_def RefreshSpace_def FileSystemSpaceInfoNotAvailable_def find_mount_point_def GetMountPointsFromPath_def
      catching_code_def this_def modify_def env_def catch_def bind_def on_bar_def reset_bar_def mt_error_def mt_assert_not_interrupted_def Let_def split: if_splits)
qed

lemma SetAutoRefreshInterval_seconds:
  "andthen (SetAutoRefreshInterval n) GetAutoRefreshInterval (w, s) = Some (Ret n (w, s\<lparr>interval := n * 1000\<rparr>))"
  by (simp add: SetAutoRefreshInterval_def GetAutoRefreshInterval_def this_def modify_def signed_divide_int_def abs_mult sgn_mult sgn_mult_abs)

lemma hidden_widget_not_refreshed: "\<not> visible s \<Longrightarrow> RefreshSpace dw mt sp (w, s) = Some (Ret () (w, s))"
  by (simp add: RefreshSpace_def this_def)

section \<open>An example\<close>

text \<open>A disk of 4 GiB of which 1 GiB is free, mounted on \<open>/mnt\<close>.\<close>

definition usb_space :: "mworld space_api" where
  "usb_space = \<lparr>sp_ndebug = False, sp_errno = m_errno, qt_absolutePath = id,
     os_statvfs = (\<lambda>p w. (0, \<lparr>f_frsize = 4096, f_blocks = 1048576, f_bfree = 262144, f_bavail = 262144\<rparr>, w))\<rparr>"

abbreviation "usb_table \<equiv> [\<lparr>mnt_fsname = ''/dev/sdb1'', mnt_dir = ''/mnt'', mnt_type = ''vfat''\<rparr>]"
abbreviation "usb_stats \<equiv> (\<lambda>p :: string. Some \<lparr>st_dev = 7, st_isblk = False, st_size = 1\<rparr>)"
abbreviation "usb_info \<equiv> \<lparr>space_size = 4294967296, totalFree = 1073741824, userFree = 1073741824\<rparr> :: space_info"

definition empty_mworld :: mworld where
  "empty_mworld = \<lparr>m_open = [], m_rest = (\<lambda>h. []), m_errno = 0\<rparr>"

definition shown_widget :: disk_widget where
  "shown_widget = (DiskSpaceWidget_ctor \<lparr>bar_max = 100, bar_value = 24\<rparr> [])\<lparr>visible := True\<rparr>"


end
