(* ===== verification/ErrorMessages.thy ===== *)
theory ErrorMessages
imports ErrorCodes
begin

text \<open>
  The text of an error code: \<open>GenericErrorCategory::GetMessage\<close> and its helper \<open>DoGetMessage\<close>
  (\<open>src/base/error_category_unx.cpp\<close>).

  The state is the part of the process the functions touch: \<open>errno\<close> and the current locale of
  \<open>LC_MESSAGES\<close>.  \<open>setlocale\<close> is the C function: it installs a locale the system knows
  (\<open>known\<close>) and returns the name of the locale now in force.  \<open>strerror_r\<close> is a parameter; it
  may set \<open>errno\<close>.
\<close>

record msg_env =
  errno :: int
  lc_messages :: string

type_synonym strerror_fn = "int \<Rightarrow> msg_env \<Rightarrow> string option \<times> msg_env"

definition setlocale_messages :: "(string \<Rightarrow> bool) \<Rightarrow> string \<Rightarrow> msg_env \<Rightarrow> string option \<times> msg_env" where
  "setlocale_messages known name w =
     (if known name then (Some name, w\<lparr>lc_messages := name\<rparr>) else (None, w))"

text \<open>\<open>QString::number\<close> on an \<open>int\<close>.\<close>

fun digits :: "nat \<Rightarrow> string" where
  "digits n = (if n < 10 then [char_of (48 + n)] else digits (n div 10) @ [char_of (48 + n mod 10)])"

declare digits.simps [simp del]

definition decimal :: "int \<Rightarrow> string" where
  "decimal v = (if v < 0 then ''-'' @ digits (nat (- v)) else digits (nat v))"

definition DoGetMessage :: "(string \<Rightarrow> bool) \<Rightarrow> strerror_fn \<Rightarrow> int \<Rightarrow> string \<Rightarrow> msg_env \<Rightarrow> (bool \<times> string) \<times> msg_env" where
  "DoGetMessage known strerror_r errVal locale w0 =
     (let message = ''Failed to get message for errno: '' @ decimal errVal;
          (pOldLocale, w1) = setlocale_messages known locale w0;
          w2 = w1\<lparr>errno := ESUCCESS\<rparr>;
          (pErrnoMessage, w3) = strerror_r errVal w2;
          (retValue, message') = (case pErrnoMessage of Some s \<Rightarrow> (True, s) | None \<Rightarrow> (False, message));
          w4 = (case pOldLocale of Some old \<Rightarrow> snd (setlocale_messages known old w3) | None \<Rightarrow> w3)
      in ((retValue, message'), w4))"

definition CPPDEVTK_EFIRST :: int where "CPPDEVTK_EFIRST = 9901"
definition CPPDEVTK_ELAST :: int where "CPPDEVTK_ELAST = 9979"

definition Generic_GetMessage :: "(string \<Rightarrow> bool) \<Rightarrow> strerror_fn \<Rightarrow> int \<Rightarrow> string \<Rightarrow> msg_env \<Rightarrow> string \<times> msg_env" where
  "Generic_GetMessage known strerror_r errVal locale w =
     (let kOrigErrNo = errno w;
          message = (if CPPDEVTK_EFIRST \<le> errVal \<and> errVal \<le> CPPDEVTK_ELAST
             then (if errVal = EOWNERDEAD then ''owner dead''
                   else if errVal = ENOTRECOVERABLE then ''state not recoverable'' else [])
             else [])
      in if message \<noteq> [] then (message, w\<lparr>errno := kOrigErrNo\<rparr>)
         else
           (let ((ok, m1), w1) = DoGetMessage known strerror_r errVal locale w;
                (m2, w2) = (if \<not> ok \<and> locale \<noteq> ''C''
                  then (let ((_, m), w') = DoGetMessage known strerror_r errVal ''C'' w1 in (m, w'))
                  else (m1, w1))
            in (m2, w2\<lparr>errno := kOrigErrNo\<rparr>)))"

definition System_GetMessage :: "(string \<Rightarrow> bool) \<Rightarrow> strerror_fn \<Rightarrow> int \<Rightarrow> string \<Rightarrow> msg_env \<Rightarrow> string \<times> msg_env" where
  "System_GetMessage known strerror_r errVal locale w = Generic_GetMessage known strerror_r errVal locale w"

definition category_GetName :: "category \<Rightarrow> (nat \<Rightarrow> string) \<Rightarrow> string" where
  "category_GetName c user = (case c of GenericCategory \<Rightarrow> ''generic'' | SystemCategory \<Rightarrow> ''system''
     | FutureCategory \<Rightarrow> ''future'' | UserCategory n \<Rightarrow> user n)"

section \<open>Lemmas\<close>

lemma setlocale_errno [simp]: "errno (snd (setlocale_messages known n w)) = errno w"
  by (simp add: setlocale_messages_def)

text \<open>One lookup leaves the requested locale installed: \<open>setlocale\<close> returned its own argument.\<close>

lemma DoGetMessage_locale:
  assumes strerror: "\<And>v w. lc_messages (snd (strerror_r v w)) = lc_messages w"
  shows "lc_messages (snd (DoGetMessage known strerror_r v l w)) = (if known l then l else lc_messages w)"
  using strerror
  by (auto simp: DoGetMessage_def setlocale_messages_def Let_def split: prod.splits option.splits)
     (metis ext_inject snd_conv surjective update_convs(1))+

lemma DoGetMessage_found:
  assumes "\<And>v w. fst (strerror_r v w) \<noteq> None"
  shows "fst (fst (DoGetMessage known strerror_r v l w))"
proof -
  define w2 where "w2 = (snd (setlocale_messages known l w))\<lparr>errno := ESUCCESS\<rparr>"
  obtain s where "fst (strerror_r v w2) = Some s"
    using assms[of v w2] by auto
  then show ?thesis
    by (simp add: DoGetMessage_def Let_def case_prod_beta w2_def)
qed

text \<open>Looking up the text of an error leaves \<open>errno\<close> as it was, whatever the locale and whatever
  \<open>strerror_r\<close> does to \<open>errno\<close>, and on every path (a text found at once, the retry with the C
  locale, both lookups failed).\<close>

theorem GetMessage_preserves_errno:
  "errno (snd (Generic_GetMessage known strerror_r v l w)) = errno w"
  by (auto simp: Generic_GetMessage_def Let_def split: prod.split)

text \<open>\<open>DoGetMessage\<close> means to restore the message locale it replaced, and does not: for every
  locale the system knows, the process is left in the locale of the request, whatever it was before.\<close>

theorem GetMessage_leaves_requested_locale:
  assumes strerror: "\<And>v w. lc_messages (snd (strerror_r v w)) = lc_messages w"
    and found: "\<And>v w. fst (strerror_r v w) \<noteq> None"
    and known: "known l"
  shows "lc_messages (snd (Generic_GetMessage known strerror_r v l w)) = l"
proof -
  have found': "fst (fst (DoGetMessage known strerror_r v l w))"
    by (rule DoGetMessage_found[OF found])
  have loc: "lc_messages (snd (DoGetMessage known strerror_r v l w)) = l"
    by (simp add: DoGetMessage_locale strerror known)
  obtain ok m w1 where d: "DoGetMessage known strerror_r v l w = ((ok, m), w1)"
    by (metis prod.exhaust)
  show ?thesis
    using found' loc by (auto simp: Generic_GetMessage_def Let_def CPPDEVTK_EFIRST_def d)
qed

definition example_strerror :: strerror_fn where
  "example_strerror v w = (Some (decimal v), w\<lparr>errno := 0\<rparr>)"

theorem GetMessage_leaves_requested_locale_witness:
  "lc_messages (snd (Generic_GetMessage (\<lambda>n. n \<in> {''C'', ''de_DE''}) example_strerror 2 ''C''
     \<lparr>errno = 7, lc_messages = ''de_DE''\<rparr>)) = ''C''"
  by (rule GetMessage_leaves_requested_locale) (simp_all add: example_strerror_def)

end
