(* ===== verification/Factories.thy ===== *)
theory Factories
imports Exceptions
begin

text \<open>
  \<open>Factory\<close> (\<open>include/cppdevtk/base/factory.hpp\<close>): creators of products by identifier.  The object is the map of creators; a
  creator without target is \<open>None\<close>, a creator that returns \<open>NULL\<close> gives \<open>None\<close>.  The factory is constant while a creator runs.
\<close>

type_synonym ('p, 'w) creator = "(exn, 'p option, 'w) prog option"

definition IsEmpty :: "(exn, bool, 'w \<times> ('k \<rightharpoonup> 'c)) prog" where
  "IsEmpty = this (\<lambda>m. dom m = {})"

definition GetSize :: "(exn, nat, 'w \<times> ('k \<rightharpoonup> 'c)) prog" where
  "GetSize = this (\<lambda>m. card (dom m))"

definition Clear :: "(exn, unit, 'w \<times> ('k \<rightharpoonup> 'c)) prog" where
  "Clear = modify (\<lambda>m. Map.empty)"

definition IsConcreteProductRegistered :: "'k \<Rightarrow> (exn, bool, 'w \<times> ('k \<rightharpoonup> 'c)) prog" where
  "IsConcreteProductRegistered k = this (\<lambda>m. m k \<noteq> None)"

text \<open>\<open>insert\<close> of a map does not replace.\<close>

definition RegisterConcreteProduct :: "'k \<Rightarrow> 'c option \<Rightarrow> (exn, bool, 'w \<times> ('k \<rightharpoonup> 'c)) prog" where
  "RegisterConcreteProduct k creator = (case creator of None \<Rightarrow> throw InvalidArgument
     | Some c \<Rightarrow> bind (this (\<lambda>m. m k = None)) (\<lambda>new. andthen (if new then modify (\<lambda>m. m(k \<mapsto> c)) else ret ()) (ret new)))"

definition UnregisterConcreteProduct :: "'k \<Rightarrow> (exn, bool, 'w \<times> ('k \<rightharpoonup> 'c)) prog" where
  "UnregisterConcreteProduct k = bind (this (\<lambda>m. m k \<noteq> None)) (\<lambda>old. andthen (modify (\<lambda>m. m(k := None))) (ret old))"

definition CreateConcreteProduct :: "'k \<Rightarrow> (exn, 'p, 'w \<times> ('k \<rightharpoonup> (exn, 'p option, 'w) prog)) prog" where
  "CreateConcreteProduct k = bind (IsConcreteProductRegistered k) (\<lambda>b. andthen (check b LogicError)
     (bind (this (\<lambda>m. m k)) (\<lambda>c. case c of None \<Rightarrow> throw LogicError
        | Some creator \<Rightarrow> bind (env creator) (\<lambda>p. case p of None \<Rightarrow> throw (mk_exn NullPointerException) | Some product \<Rightarrow> ret product))))"

lemmas factory_defs = IsEmpty_def GetSize_def Clear_def IsConcreteProductRegistered_def RegisterConcreteProduct_def
  UnregisterConcreteProduct_def CreateConcreteProduct_def

section \<open>Sequences of calls\<close>

datatype ('k, 'c) factory_use = Register 'k 'c | Unregister 'k | Clear_All

fun factory_run :: "('k, 'c) factory_use list \<Rightarrow> (exn, unit, 'w \<times> ('k \<rightharpoonup> 'c)) prog" where
  "factory_run [] = ret ()"
| "factory_run (Register k c # us) = andthen (RegisterConcreteProduct k (Some c)) (factory_run us)"
| "factory_run (Unregister k # us) = andthen (UnregisterConcreteProduct k) (factory_run us)"
| "factory_run (Clear_All # us) = andthen Clear (factory_run us)"

text \<open>The creator of an identifier: the first one registered since it was last removed.\<close>

fun registered :: "'c option \<Rightarrow> 'k \<Rightarrow> ('k, 'c) factory_use list \<Rightarrow> 'c option" where
  "registered c k [] = c"
| "registered c k (Register k' c' # us) = registered (if k' = k \<and> c = None then Some c' else c) k us"
| "registered c k (Unregister k' # us) = registered (if k' = k then None else c) k us"
| "registered c k (Clear_All # us) = registered None k us"

lemma register_eval: "RegisterConcreteProduct k (Some c) (w, m) = Some (Ret (m k = None) (w, if m k = None then m(k \<mapsto> c) else m))"
  by (cases "m k") (simp_all add: factory_defs)

lemma factory_run_registered: "factory_run us (w, m) = Some (Ret () (w, \<lambda>k. registered (m k) k us))"
proof (induction us arbitrary: m)
  case (Cons u us)
  then show ?case
  proof (cases u)
    case (Register k c)
    have "(\<lambda>k'. registered ((if m k = None then m(k \<mapsto> c) else m) k') k' us) = (\<lambda>k'. registered (m k') k' (u # us))"
      using Register by (auto simp: fun_eq_iff)
    then show ?thesis using Cons Register by (simp add: register_eval)
  qed (auto simp: factory_defs fun_eq_iff)
qed simp

lemma create_registered:
  assumes "factory_run us (w, Map.empty) = Some (Ret () (w, m))"
  shows "CreateConcreteProduct k (w, m) = (case registered None k us of None \<Rightarrow> Some (Exc LogicError (w, m))
    | Some creator \<Rightarrow> map_option (\<lambda>r. case r of Ret None w' \<Rightarrow> Exc (mk_exn NullPointerException) (w', m) | Ret (Some p) w' \<Rightarrow> Ret p (w', m)
        | Exc e w' \<Rightarrow> Exc e (w', m) | Term w' \<Rightarrow> Term (w', m)) (creator w))"
proof -
  have m: "m = (\<lambda>k. registered None k us)" using assms by (simp add: factory_run_registered)
  show ?thesis
  proof (cases "registered None k us")
    case (Some creator)
    then show ?thesis using m by (cases "creator w") (auto simp: factory_defs split: res.splits option.splits)
  qed (simp add: m factory_defs)
qed

section \<open>Properties\<close>

text \<open>After any sequence of registrations, removals and clearings, creating a product calls the first creator that was registered for its
  identifier since it was last removed, throws \<open>NullPointerException\<close> when it gives \<open>NULL\<close> and \<open>LogicException\<close> when there is none.\<close>

theorem factory_creates_first_registered:
  "\<exists>m. factory_run us (w, Map.empty) = Some (Ret () (w, m)) \<and> CreateConcreteProduct k (w, m) = (case registered None k us of None \<Rightarrow> Some (Exc LogicError (w, m))
    | Some creator \<Rightarrow> map_option (\<lambda>r. case r of Ret None w' \<Rightarrow> Exc (mk_exn NullPointerException) (w', m) | Ret (Some p) w' \<Rightarrow> Ret p (w', m)
        | Exc e w' \<Rightarrow> Exc e (w', m) | Term w' \<Rightarrow> Term (w', m)) (creator w))"
  using create_registered[OF factory_run_registered] factory_run_registered[of us w Map.empty] by simp

end
