(* ===== verification/FileTrees.thy ===== *)
theory FileTrees
imports Files
begin

text \<open>
  The contract of a file system, as a tree of directories and files, and what the operations of \<open>Files\<close> do to
  the tree.  Symbolic links are not part of the tree; how they change the behaviour is shown on an example.
\<close>

section \<open>Trees\<close>

datatype node = Dir | File "byte list"

text \<open>Parents of what exists are directories.\<close>

definition closed :: "(path \<Rightarrow> node option) \<Rightarrow> bool" where
  "closed t \<longleftrightarrow> (\<forall>p n. t (p @ [n]) \<noteq> None \<and> p \<noteq> [] \<longrightarrow> t p = Some Dir)"

definition subdirs :: "(path \<Rightarrow> node option) \<Rightarrow> path \<Rightarrow> path set" where
  "subdirs t p = insert p {q. t q = Some Dir \<and> strict_prefix p q}"

definition cover :: "(path \<Rightarrow> node option) \<Rightarrow> path list \<Rightarrow> path set" where
  "cover t ps = (\<Union>p \<in> set ps. subdirs t p)"

definition independent :: "path list \<Rightarrow> bool" where
  "independent ps \<longleftrightarrow> distinct ps \<and> (\<forall>p \<in> set ps. \<forall>q \<in> set ps. p \<noteq> q \<longrightarrow> \<not> prefix p q) \<and> [] \<notin> set ps"

lemma closed_above:
  assumes "closed t" "t q \<noteq> None" "prefix r q" "r \<noteq> []" "r \<noteq> q"
  shows "t r = Some Dir"
  using assms(2,3,5)
proof (induction q rule: rev_induct)
  case (snoc n q)
  then have r: "prefix r q" by (auto simp: prefix_snoc)
  then have "q \<noteq> []" using assms(4) by auto
  then have "t q = Some Dir" using assms(1) snoc.prems(1) by (auto simp: closed_def)
  then show ?case using snoc.IH r by (cases "r = q") auto
qed simp

lemma strict_prefix_step: "strict_prefix p q \<longleftrightarrow> (\<exists>n. prefix (p @ [n]) q)"
  by (auto simp: strict_prefix_def prefix_def) (metis append_Cons append_Nil list.exhaust)+

lemma strict_prefix_snoc:
  assumes "strict_prefix p q" obtains r n where "q = r @ [n]"
  using assms that by (cases q rule: rev_cases) auto

lemma subdirs_children:
  assumes "closed t" "p \<noteq> []"
  shows "subdirs t p = insert p (\<Union>n \<in> {n. t (p @ [n]) = Some Dir}. subdirs t (p @ [n]))"
proof -
  have "\<exists>n. t (p @ [n]) = Some Dir \<and> q \<in> subdirs t (p @ [n])" if q: "t q = Some Dir" "strict_prefix p q" for q
  proof -
    obtain n where n: "prefix (p @ [n]) q" using q(2) by (auto simp: strict_prefix_step)
    then have "t (p @ [n]) = Some Dir" using closed_above[OF assms(1), of q "p @ [n]"] q(1) by (cases "p @ [n] = q") auto
    then show ?thesis using n q(1) by (auto simp: subdirs_def strict_prefix_def)
  qed
  then show ?thesis by (auto simp: subdirs_def strict_prefix_def prefix_def)
qed

lemma independent_children:
  assumes "independent (p # ps)" "distinct ns"
  shows "independent (ps @ map (\<lambda>n. p @ [n]) ns)"
proof -
  have apart: "\<not> prefix p q" "\<not> prefix q p" if "q \<in> set ps" for q
    using assms(1) that by (auto simp: independent_def)
  have "\<not> prefix q (p @ [n])" "\<not> prefix (p @ [n]) q" if "q \<in> set ps" for q n
    using apart[OF that] that by (auto simp: prefix_snoc dest: append_prefixD)
  moreover have "inj_on (\<lambda>n. p @ [n]) (set ns)" by (auto simp: inj_on_def)
  ultimately show ?thesis
    using assms by (auto simp: independent_def distinct_map prefix_snoc)
qed

lemma cover_children:
  assumes "closed t" "independent (p # ps)" "set ns = {n. t (p @ [n]) = Some Dir}"
  shows "cover t (p # ps) = insert p (cover t (ps @ map (\<lambda>n. p @ [n]) ns))" "p \<notin> cover t (ps @ map (\<lambda>n. p @ [n]) ns)"
proof -
  have "p \<noteq> []" using assms(2) by (auto simp: independent_def)
  then show "cover t (p # ps) = insert p (cover t (ps @ map (\<lambda>n. p @ [n]) ns))"
    using subdirs_children[OF assms(1)] assms(3) by (auto simp: cover_def)
  show "p \<notin> cover t (ps @ map (\<lambda>n. p @ [n]) ns)"
    using assms(2) by (auto simp: cover_def subdirs_def independent_def strict_prefix_def prefix_def)
qed

text \<open>The order of the list: the directories in a directory come after it.\<close>

definition parents_first :: "(path \<Rightarrow> node option) \<Rightarrow> path list \<Rightarrow> bool" where
  "parents_first t ps \<longleftrightarrow> (\<forall>as p bs n. ps = as @ p # bs \<and> t (p @ [n]) = Some Dir \<longrightarrow> p @ [n] \<in> set bs)"

lemma walk_covers:
  assumes "closed t" "finite {p. t p \<noteq> None}" "\<And>p. distinct (entries p) \<and> set (entries p) = {n. t (p @ [n]) = Some Dir}"
    and "independent ps"
  shows "\<exists>L. walk entries ps = Some L \<and> distinct L \<and> set L = cover t ps \<and> parents_first t L"
proof -
  have fin: "finite (cover t ps)" for ps
    by (rule finite_subset[of _ "set ps \<union> {p. t p \<noteq> None}"]) (use assms(2) in \<open>auto simp: cover_def subdirs_def\<close>)
  show ?thesis
    using assms(4)
  proof (induction "card (cover t ps)" arbitrary: ps rule: less_induct)
    case less
    show ?case
    proof (cases ps)
      case Nil
      then show ?thesis by (subst walk.simps) (simp add: cover_def parents_first_def)
    next
      case (Cons p rest)
      let ?ps = "rest @ map (\<lambda>n. p @ [n]) (entries p)"
      have ind: "independent ?ps" using independent_children less.prems assms(3) Cons by blast
      have cov: "cover t ps = insert p (cover t ?ps)" "p \<notin> cover t ?ps"
        using cover_children[OF assms(1), of p rest "entries p"] less.prems assms(3) Cons by auto
      then have "card (cover t ?ps) < card (cover t ps)" using fin by (simp add: card_insert_if)
      then obtain L where L: "walk entries ?ps = Some L" "distinct L" "set L = cover t ?ps" "parents_first t L"
        using less.hyps ind by blast
      have "p @ [n] \<in> set L" if "t (p @ [n]) = Some Dir" for n
        using that assms(3)[of p] by (auto simp: L(3) cover_def subdirs_def)
      then have "parents_first t (p # L)"
        using L(4) by (auto simp: parents_first_def Cons_eq_append_conv)
      then show ?thesis using L cov Cons by (subst walk.simps) auto
    qed
  qed
qed

section \<open>The contract\<close>

text \<open>A call succeeds and changes the tree, or fails, reports a reason and changes nothing.  \<open>permits\<close> are the
  paths that the process may delete; for them a call fails only when the tree does not allow it.\<close>

definition fails :: "('w, 'x) file_api_scheme \<Rightarrow> ('w \<Rightarrow> path \<Rightarrow> node option) \<Rightarrow> 'w \<Rightarrow> 'w \<Rightarrow> bool" where
  "fails api tree w w' \<longleftrightarrow> tree w' = tree w \<and> fs_errno api w' \<noteq> 0 \<and> fs_errno api w' \<noteq> EINTR"

lemma code_of_exception_simps [simp]:
  "code_of_exception NoSuchFileOrDirectory = exn_code NoSuchFileOrDirectory" "code_of_exception (FilesystemExc e) = e"
  "code_of_exception InvalidArgument = errc_MakeErrorCode errc_no_message_available"
  by (simp_all add: code_of_exception_def NoSuchFileOrDirectory_def FilesystemExc_def InvalidArgument_def mk_exn_ec_def mk_exn_def derived_from_iff)

lemma error_values [simp]:
  "ec_value (exn_code NoSuchFileOrDirectory) \<noteq> 0" "ec_value (errc_MakeErrorCode errc_no_message_available) \<noteq> 0"
  "ec_value (errc_MakeErrorCode errc_no_such_file_or_directory) \<noteq> 0" "ec_value (mk_code v c) = v"
  by (simp_all add: NoSuchFileOrDirectory_def mk_exn_ec_def errc_MakeErrorCode_def mk_code_def)

text \<open>The overloads with an error code, evaluated.\<close>

definition removal_code :: "int \<Rightarrow> ErrorCode" where
  "removal_code e = (if e = ENOENT then exn_code NoSuchFileOrDirectory else mk_code e SystemCategory)"

lemma removal_code_value [simp]: "e \<noteq> 0 \<Longrightarrow> ec_value (removal_code e) \<noteq> 0"
  by (simp add: removal_code_def)

lemma with_error_code_invalid [simp]:
  "with_error_code (throw InvalidArgument) w = Some (Ret (False, errc_MakeErrorCode errc_no_message_available) w)"
  by (simp add: with_error_code_def)

lemma DeleteFile_eval:
  assumes "IsValidPath p True" "os_unlink api p w = (rc, w')" "rc \<noteq> 0 \<Longrightarrow> fs_errno api w' \<noteq> EINTR"
  shows "with_error_code (DeleteFile api p failIfNotExists) w = Some (Ret
    (if rc = 0 \<or> \<not> failIfNotExists \<and> fs_errno api w' = ENOENT then (True, ErrorCode_default)
     else (False, removal_code (fs_errno api w'))) w')"
  using assms
  by (cases "rc = 0"; cases "fs_errno api w' = ENOENT"; cases failIfNotExists)
    (simp_all add: with_error_code_def DeleteFile_def fs_error_def removal_code_def)

lemma RemoveDirectory_eval:
  assumes "IsValidPath p True" "os_rmdir api p w = (rc, w')" "rc \<noteq> 0 \<Longrightarrow> fs_errno api w' \<noteq> EINTR"
  shows "with_error_code (RemoveDirectory api p failIfNotExists) w = Some (Ret
    (if rc = 0 \<or> \<not> failIfNotExists \<and> fs_errno api w' = ENOENT then (True, ErrorCode_default)
     else (False, removal_code (fs_errno api w'))) w')"
  using assms
  by (cases "rc = 0"; cases "fs_errno api w' = ENOENT"; cases failIfNotExists)
    (simp_all add: with_error_code_def RemoveDirectory_def fs_error_def removal_code_def)

locale directory_tree =
  fixes api :: "('w, 'x) file_api_scheme" and tree :: "'w \<Rightarrow> path \<Rightarrow> node option" and permits :: "path \<Rightarrow> bool"
  assumes finite_tree: "finite {p. tree w p \<noteq> None}"
    and list_dirs: "distinct (qt_dirs api p w)" "set (qt_dirs api p w) = {n. tree w (p @ [n]) = Some Dir}"
    and list_files: "distinct (qt_files api p w)" "set (qt_files api p w) = {n. \<exists>c. tree w (p @ [n]) = Some (File c)}"
    and unlink: "os_unlink api p w = (rc, w') \<Longrightarrow>
      rc = 0 \<and> (\<exists>c. tree w p = Some (File c)) \<and> tree w' = (tree w)(p := None)
      \<or> rc = - 1 \<and> fails api tree w w' \<and> (fs_errno api w' = ENOENT \<longrightarrow> tree w p = None)"
    and unlink_permitted: "permits p \<Longrightarrow> tree w p = Some (File c) \<Longrightarrow> fst (os_unlink api p w) = 0"
    and rmdir: "os_rmdir api p w = (rc, w') \<Longrightarrow>
      rc = 0 \<and> tree w p = Some Dir \<and> (\<forall>n. tree w (p @ [n]) = None) \<and> tree w' = (tree w)(p := None)
      \<or> rc = - 1 \<and> fails api tree w w' \<and> (fs_errno api w' = ENOENT \<longrightarrow> tree w p = None)"
    and rmdir_permitted: "permits p \<Longrightarrow> tree w p = Some Dir \<Longrightarrow> \<forall>n. tree w (p @ [n]) = None \<Longrightarrow> fst (os_rmdir api p w) = 0"
begin

text \<open>\<open>shrinks S w w'\<close>: the tree lost some of the paths in \<open>S\<close>, and changed nowhere else.\<close>

definition shrinks :: "path set \<Rightarrow> 'w \<Rightarrow> 'w \<Rightarrow> bool" where
  "shrinks S w w' \<longleftrightarrow> (\<forall>q. tree w' q = tree w q \<or> q \<in> S \<and> tree w' q = None)"

definition removable :: "path \<Rightarrow> bool" where
  "removable p \<longleftrightarrow> permits p \<and> IsValidPath p True"

lemma shrinks_refl [simp]: "shrinks S w w"
  by (simp add: shrinks_def)

lemma shrinks_trans: "shrinks S w w' \<Longrightarrow> shrinks T w' w'' \<Longrightarrow> shrinks (S \<union> T) w w''"
  unfolding shrinks_def by (metis UnCI)

lemma shrinks_mono: "shrinks S w w' \<Longrightarrow> S \<subseteq> T \<Longrightarrow> shrinks T w w'"
  unfolding shrinks_def by blast

lemma shrinks_None: "shrinks S w w' \<Longrightarrow> tree w q = None \<Longrightarrow> tree w' q = None"
  by (metis shrinks_def)

lemma DeleteFile_spec:
  obtains ok e w' where "with_error_code (DeleteFile api p False) w = Some (Ret (ok, e) w')" "shrinks {p} w w'"
    "ok \<longrightarrow> (\<forall>c. tree w' p \<noteq> Some (File c))" "\<not> ok \<longrightarrow> ec_value e \<noteq> 0"
    "(\<exists>c. tree w p = Some (File c)) \<and> removable p \<longrightarrow> ok"
proof (cases "IsValidPath p True")
  case True
  obtain rc w' where u: "os_unlink api p w = (rc, w')" by fastforce
  let ?r = "if rc = 0 \<or> \<not> False \<and> fs_errno api w' = ENOENT then (True, ErrorCode_default) else (False, removal_code (fs_errno api w'))"
  note law = unlink[OF u]
  have "with_error_code (DeleteFile api p False) w = Some (Ret (fst ?r, snd ?r) w')"
    using DeleteFile_eval[OF True u, of False] law by (auto simp: fails_def)
  then show thesis
    by (rule that) (use law unlink_permitted[of p w] u in \<open>auto simp: shrinks_def fails_def removable_def split: if_splits\<close>)
next
  case False
  then show thesis using that[of False _ w] by (simp add: DeleteFile_def removable_def)
qed

lemma RemoveDirectory_spec:
  obtains ok e w' where "with_error_code (RemoveDirectory api p fail) w = Some (Ret (ok, e) w')" "shrinks {p} w w'"
    "ok \<longrightarrow> tree w' p = None" "\<not> ok \<longrightarrow> ec_value e \<noteq> 0"
    "tree w p = Some Dir \<and> (\<forall>n. tree w (p @ [n]) = None) \<and> removable p \<longrightarrow> ok"
proof (cases "IsValidPath p True")
  case True
  obtain rc w' where u: "os_rmdir api p w = (rc, w')" by fastforce
  let ?r = "if rc = 0 \<or> \<not> fail \<and> fs_errno api w' = ENOENT then (True, ErrorCode_default) else (False, removal_code (fs_errno api w'))"
  note law = rmdir[OF u]
  have "with_error_code (RemoveDirectory api p fail) w = Some (Ret (fst ?r, snd ?r) w')"
    using RemoveDirectory_eval[OF True u, of fail] law by (auto simp: fails_def)
  then show thesis
    by (rule that) (use law rmdir_permitted[of p w] u in \<open>auto simp: shrinks_def fails_def removable_def split: if_splits\<close>)
next
  case False
  then show thesis using that[of False _ w] by (simp add: RemoveDirectory_def removable_def)
qed

text \<open>Deleting the files of a directory.\<close>

definition deletes :: "path \<Rightarrow> string list \<Rightarrow> bool \<times> ErrorCode \<Rightarrow> 'w \<Rightarrow> bool \<Rightarrow> ErrorCode \<Rightarrow> 'w \<Rightarrow> bool" where
  "deletes p names acc w ok e w' \<longleftrightarrow> shrinks ((\<lambda>n. p @ [n]) ` set names) w w'
     \<and> (ok \<longrightarrow> fst acc \<and> (\<forall>n \<in> set names. \<forall>c. tree w' (p @ [n]) \<noteq> Some (File c)))
     \<and> (\<not> ok \<longrightarrow> ec_value e \<noteq> 0 \<or> \<not> fst acc \<and> e = snd acc)
     \<and> (\<forall>n \<in> set names. (\<exists>c. tree w (p @ [n]) = Some (File c)) \<and> removable (p @ [n]) \<longrightarrow> (\<forall>c. tree w' (p @ [n]) \<noteq> Some (File c)))
     \<and> (distinct names \<and> fst acc \<and> (\<forall>n \<in> set names. (\<exists>c. tree w (p @ [n]) = Some (File c)) \<and> removable (p @ [n])) \<longrightarrow> ok)"

lemma shrinks_file: "shrinks S w w' \<Longrightarrow> tree w' p = Some x \<Longrightarrow> tree w p = Some x"
  by (metis shrinks_def option.distinct(1))

lemma shrinks_outside: "shrinks S w w' \<Longrightarrow> p \<notin> S \<Longrightarrow> tree w' p = tree w p"
  by (auto simp: shrinks_def)

lemma delete_files_spec:
  "\<exists>ok e w'. delete_files api p names acc w = Some (Ret (ok, e) w') \<and> deletes p names acc w ok e w'"
proof (induction names arbitrary: acc w)
  case Nil
  show ?case by (cases acc) (auto simp: deletes_def)
next
  case (Cons n names)
  obtain ok1 e1 w1 where d: "with_error_code (DeleteFile api (p @ [n]) False) w = Some (Ret (ok1, e1) w1)" "shrinks {p @ [n]} w w1"
      "ok1 \<longrightarrow> (\<forall>c. tree w1 (p @ [n]) \<noteq> Some (File c))" "\<not> ok1 \<longrightarrow> ec_value e1 \<noteq> 0"
      "(\<exists>c. tree w (p @ [n]) = Some (File c)) \<and> removable (p @ [n]) \<longrightarrow> ok1"
    by (rule DeleteFile_spec)
  define acc1 where "acc1 = (if ok1 then acc else (False, e1))"
  obtain ok e w' where r: "delete_files api p names acc1 w1 = Some (Ret (ok, e) w')" and del: "deletes p names acc1 w1 ok e w'"
    using Cons.IH by blast
  have shrunk: "shrinks ((\<lambda>n. p @ [n]) ` set names) w1 w'" using del by (simp add: deletes_def)
  have first: "tree w (p @ [n]) = Some (File c) \<Longrightarrow> removable (p @ [n]) \<Longrightarrow> tree w' (p @ [n]) \<noteq> Some (File d)"
      "ok1 \<Longrightarrow> tree w' (p @ [n]) \<noteq> Some (File d)" for c d
    using d(3,5) shrinks_file[OF shrunk] by blast+
  have "\<forall>m \<in> set (n # names). (\<exists>c. tree w (p @ [m]) = Some (File c)) \<and> removable (p @ [m]) \<longrightarrow> (\<forall>c. tree w' (p @ [m]) \<noteq> Some (File c))"
  proof (intro ballI impI)
    fix m assume m: "m \<in> set (n # names)" "(\<exists>c. tree w (p @ [m]) = Some (File c)) \<and> removable (p @ [m])"
    show "\<forall>c. tree w' (p @ [m]) \<noteq> Some (File c)"
    proof (cases "m = n")
      case True then show ?thesis using first(1) m by blast
    next
      case False
      then have "tree w1 (p @ [m]) = tree w (p @ [m])" using shrinks_outside[OF d(2)] by simp
      moreover have "\<forall>n \<in> set names. (\<exists>c. tree w1 (p @ [n]) = Some (File c)) \<and> removable (p @ [n]) \<longrightarrow> (\<forall>c. tree w' (p @ [n]) \<noteq> Some (File c))"
        using del unfolding deletes_def by blast
      ultimately show ?thesis using m False by simp
    qed
  qed
  moreover have ok if "distinct (n # names)" "fst acc" "\<forall>m \<in> set (n # names). (\<exists>c. tree w (p @ [m]) = Some (File c)) \<and> removable (p @ [m])"
  proof -
    have "tree w1 (p @ [m]) = tree w (p @ [m])" if "m \<in> set names" for m
      using shrinks_outside[OF d(2), of "p @ [m]"] \<open>distinct (n # names)\<close> that by auto
    then show ?thesis using del that d(5) by (simp add: deletes_def acc1_def)
  qed
  moreover have "ok \<Longrightarrow> fst acc \<and> ok1" "\<not> ok \<Longrightarrow> ec_value e \<noteq> 0 \<or> \<not> fst acc \<and> e = snd acc"
    using del d(4) by (auto simp: deletes_def acc1_def split: if_splits)
  moreover have "ok \<Longrightarrow> \<forall>m \<in> set (n # names). \<forall>c. tree w' (p @ [m]) \<noteq> Some (File c)"
    using del first(2) d(4) by (auto simp: deletes_def acc1_def split: if_splits)
  moreover have "shrinks ((\<lambda>n. p @ [n]) ` set (n # names)) w w'"
    using shrinks_trans[OF d(2) shrunk] by simp
  ultimately have "deletes p (n # names) acc w ok e w'"
    unfolding deletes_def by blast
  then show ?case using d(1) r by (auto simp: acc1_def)
qed

text \<open>What removing the directories of a list may delete.\<close>

definition contents :: "path list \<Rightarrow> path set" where
  "contents ps = set ps \<union> {p @ [n] | p n. p \<in> set ps}"

text \<open>When the loop can empty every directory before it removes it.\<close>

definition leaves_first :: "'w \<Rightarrow> path list \<Rightarrow> bool" where
  "leaves_first w ps \<longleftrightarrow> distinct ps \<and> (\<forall>p \<in> set ps. tree w p = Some Dir)
     \<and> (\<forall>as p bs n. ps = as @ p # bs \<and> tree w (p @ [n]) = Some Dir \<longrightarrow> p @ [n] \<in> set as)"

lemma leaves_first_step:
  assumes "leaves_first w (p # ps)" "shrinks (insert p {p @ [n] | n. \<exists>c. tree w (p @ [n]) = Some (File c)}) w w'" "tree w' p = None"
  shows "leaves_first w' ps"
proof -
  have "q @ [n] \<in> set as" if "ps = as @ q # bs" "tree w' (q @ [n]) = Some Dir" for as q bs n
  proof -
    have "tree w (q @ [n]) = Some Dir" using shrinks_file[OF assms(2)] that(2) by blast
    moreover have "p # ps = (p # as) @ q # bs" using that(1) by simp
    ultimately have "q @ [n] \<in> set (p # as)" using assms(1) unfolding leaves_first_def by blast
    then show ?thesis using that(2) assms(3) by auto
  qed
  note children = this
  have "tree w' q = Some Dir" if "q \<in> set ps" for q
  proof -
    have q: "q \<noteq> p" "tree w q = Some Dir" using assms(1) that by (auto simp: leaves_first_def)
    then have "q \<notin> insert p {p @ [n] | n. \<exists>c. tree w (p @ [n]) = Some (File c)}" by auto
    then have "tree w' q = tree w q" using assms(2) unfolding shrinks_def by blast
    then show ?thesis using q(2) by simp
  qed
  moreover have "distinct ps" using assms(1) by (simp add: leaves_first_def)
  ultimately show ?thesis unfolding leaves_first_def using children by blast
qed

definition removes :: "path list \<Rightarrow> bool \<times> ErrorCode \<Rightarrow> 'w \<Rightarrow> bool \<Rightarrow> ErrorCode \<Rightarrow> 'w \<Rightarrow> bool" where
  "removes ps acc w ok e w' \<longleftrightarrow> shrinks (contents ps) w w'
     \<and> (ok \<longrightarrow> fst acc \<and> (\<forall>p \<in> set ps. tree w' p = None \<and> (\<forall>n c. tree w' (p @ [n]) \<noteq> Some (File c))))
     \<and> (\<not> ok \<longrightarrow> ec_value e \<noteq> 0 \<or> \<not> fst acc \<and> e = snd acc)
     \<and> (\<forall>p \<in> set ps. \<forall>n. (\<exists>c. tree w (p @ [n]) = Some (File c)) \<and> removable (p @ [n]) \<longrightarrow> (\<forall>c. tree w' (p @ [n]) \<noteq> Some (File c)))
     \<and> (fst acc \<and> leaves_first w ps \<and> (\<forall>q \<in> contents ps. tree w q \<noteq> None \<longrightarrow> removable q) \<longrightarrow> ok)"

lemma remove_all_spec:
  "\<exists>ok e w'. remove_all api fail ps acc w = Some (Ret (ok, e) w') \<and> removes ps acc w ok e w'"
proof (induction ps arbitrary: acc w)
  case Nil
  show ?case by (cases acc) (auto simp: removes_def)
next
  case (Cons k ps)
  let ?names = "qt_files api k w"
  obtain ok1 e1 w1 where d: "delete_files api k ?names acc w = Some (Ret (ok1, e1) w1)" and del: "deletes k ?names acc w ok1 e1 w1"
    using delete_files_spec by blast
  obtain ok2 e2 w2 where r: "with_error_code (RemoveDirectory api k (if ps = [] then fail else False)) w1 = Some (Ret (ok2, e2) w2)"
      "shrinks {k} w1 w2" "ok2 \<longrightarrow> tree w2 k = None" "\<not> ok2 \<longrightarrow> ec_value e2 \<noteq> 0"
      "tree w1 k = Some Dir \<and> (\<forall>n. tree w1 (k @ [n]) = None) \<and> removable k \<longrightarrow> ok2"
    by (rule RemoveDirectory_spec)
  define acc2 where "acc2 = (if ok2 then (ok1, e1) else (False, e2))"
  obtain ok e w' where a: "remove_all api fail ps acc2 w2 = Some (Ret (ok, e) w')" and rem: "removes ps acc2 w2 ok e w'"
    using Cons.IH by blast
  have s: "shrinks ((\<lambda>n. k @ [n]) ` set ?names) w w1" "shrinks (contents ps) w2 w'"
    using del rem by (simp_all add: deletes_def removes_def)
  have s2: "shrinks (insert k ((\<lambda>n. k @ [n]) ` set ?names)) w w2" using shrinks_trans[OF s(1) r(2)] by (simp add: insert_commute)
  have files: "n \<in> set ?names \<longleftrightarrow> (\<exists>c. tree w (k @ [n]) = Some (File c))" for n by (simp add: list_files(2))
  have gone: "tree w1 (k @ [n]) \<noteq> Some (File c)" if "ok1 \<or> removable (k @ [n])" for n c
  proof
    assume c: "tree w1 (k @ [n]) = Some (File c)"
    then have "n \<in> set ?names" using shrinks_file[OF s(1)] files by blast
    then show False using del that c files unfolding deletes_def by blast
  qed
  have gone': "tree w' (k @ [n]) \<noteq> Some (File c)" if "ok1 \<or> removable (k @ [n])" for n c
    using gone[OF that] shrinks_file[OF r(2)] shrinks_file[OF s(2)] by blast
  have oks: "ok \<Longrightarrow> fst acc \<and> ok1 \<and> ok2" "\<not> ok \<Longrightarrow> ec_value e \<noteq> 0 \<or> \<not> fst acc \<and> e = snd acc"
  proof -
    have "ok \<longrightarrow> fst acc2" "\<not> ok \<longrightarrow> ec_value e \<noteq> 0 \<or> \<not> fst acc2 \<and> e = snd acc2" "ok1 \<longrightarrow> fst acc"
        "\<not> ok1 \<longrightarrow> ec_value e1 \<noteq> 0 \<or> \<not> fst acc \<and> e1 = snd acc"
      using del rem unfolding deletes_def removes_def by blast+
    then show "ok \<Longrightarrow> fst acc \<and> ok1 \<and> ok2" "\<not> ok \<Longrightarrow> ec_value e \<noteq> 0 \<or> \<not> fst acc \<and> e = snd acc"
      using r(4) by (auto simp: acc2_def split: if_splits)
  qed
  have "shrinks (contents (k # ps)) w w'"
    by (rule shrinks_mono[OF shrinks_trans[OF s2 s(2)]]) (auto simp: contents_def)
  moreover have "tree w' p = None \<and> (\<forall>n c. tree w' (p @ [n]) \<noteq> Some (File c))" if ok "p \<in> set (k # ps)" for p
  proof (cases "p = k")
    case True
    have "tree w' k = None" "\<forall>n c. tree w' (k @ [n]) \<noteq> Some (File c)"
      using oks(1)[OF that(1)] r(3) shrinks_None[OF s(2)] gone' by blast+
    then show ?thesis using True by simp
  next
    case False
    moreover have "\<forall>p \<in> set ps. tree w' p = None \<and> (\<forall>n c. tree w' (p @ [n]) \<noteq> Some (File c))"
      using rem \<open>ok\<close> unfolding removes_def by blast
    ultimately show ?thesis using that(2) by simp
  qed
  moreover have "tree w' (p @ [n]) \<noteq> Some (File c)" if "p \<in> set (k # ps)" "removable (p @ [n])" for p n c
  proof (cases "p = k")
    case False
    show ?thesis
    proof
      assume c: "tree w' (p @ [n]) = Some (File c)"
      then have "tree w2 (p @ [n]) = Some (File c)" by (rule shrinks_file[OF s(2)])
      moreover have "\<forall>p \<in> set ps. \<forall>n. (\<exists>c. tree w2 (p @ [n]) = Some (File c)) \<and> removable (p @ [n]) \<longrightarrow> (\<forall>c. tree w' (p @ [n]) \<noteq> Some (File c))"
        using rem unfolding removes_def by blast
      ultimately show False using that False c by simp
    qed
  qed (use gone' that in simp)
  moreover have ok if "fst acc" "leaves_first w (k # ps)" "\<forall>q \<in> contents (k # ps). tree w q \<noteq> None \<longrightarrow> removable q"
  proof -
    have can: "tree w q \<noteq> None \<Longrightarrow> q \<in> contents (k # ps) \<Longrightarrow> removable q" for q using that(3) by blast
    have k: "tree w k = Some Dir" "k \<notin> set ps" using that(2) by (auto simp: leaves_first_def)
    have nodir: "tree w (k @ [n]) \<noteq> Some Dir" for n
      using that(2) unfolding leaves_first_def by (metis append_Nil empty_iff empty_set)
    have "removable (k @ [n])" if "n \<in> set ?names" for n
      using can[of "k @ [n]"] that files by (auto simp: contents_def)
    then have "ok1" using del that(1) list_files(1) files unfolding deletes_def by blast
    have "tree w1 (k @ [n]) = None" for n
    proof (cases "tree w1 (k @ [n])")
      case (Some x)
      then show ?thesis using gone[of n] \<open>ok1\<close> nodir[of n] shrinks_file[OF s(1) Some] by (cases x) auto
    qed
    moreover have "tree w1 k = Some Dir" using shrinks_outside[OF s(1), of k] k(1) by auto
    ultimately have ok2 using r(5) can[of k] k(1) by (simp add: contents_def)
    have "leaves_first w2 ps"
      by (rule leaves_first_step[OF that(2) shrinks_mono[OF s2]]) (use files r(3) \<open>ok2\<close> in auto)
    moreover have "\<forall>q \<in> contents ps. tree w2 q \<noteq> None \<longrightarrow> removable q"
      using can shrinks_file[OF s2] by (auto simp: contents_def)
    ultimately show ok using rem \<open>ok1\<close> \<open>ok2\<close> unfolding removes_def by (simp add: acc2_def)
  qed
  ultimately have "removes (k # ps) acc w ok e w'" unfolding removes_def using oks by blast
  moreover have "remove_all api fail (k # ps) acc w = Some (Ret (ok, e) w')"
    using d r(1) a by (simp add: acc2_def)
  ultimately show ?case by blast
qed


lemma leaves_first_rev:
  assumes "parents_first (tree w) L" "distinct L" "\<forall>p \<in> set L. tree w p = Some Dir"
  shows "leaves_first w (rev L)"
proof -
  have "p @ [n] \<in> set as" if "rev L = as @ p # bs" "tree w (p @ [n]) = Some Dir" for as p bs n
  proof -
    have "L = rev bs @ p # rev as" using that(1) by (simp add: rev_swap)
    then show ?thesis using assms(1) that(2) unfolding parents_first_def by fastforce
  qed
  then show ?thesis using assms(2,3) unfolding leaves_first_def by simp
qed

lemma parent_listed:
  assumes "closed (tree w)" "strict_prefix path (q @ [n])" "tree w (q @ [n]) \<noteq> None" "path \<noteq> []"
  shows "q \<in> subdirs (tree w) path"
proof -
  have p: "prefix path q" using assms(2) by (auto simp: strict_prefix_def prefix_snoc)
  then have "q \<noteq> []" using assms(4) by auto
  then have "tree w q = Some Dir" using assms(1,3) by (auto simp: closed_def)
  then show ?thesis using p by (auto simp: subdirs_def strict_prefix_def)
qed

lemma RemoveDirectoryRecursively_outcome:
  assumes cl: "closed (tree w)" and v: "IsValidPath path True"
  shows "\<exists>ok e w'. RemoveDirectoryRecursively api path fail w = Some (Ret (ok, e) w')
    \<and> (\<forall>q. tree w' q = tree w q \<or> prefix path q \<and> tree w' q = None)
    \<and> (ok \<longrightarrow> (\<forall>q. prefix path q \<longrightarrow> tree w' q = None)) \<and> (\<not> ok \<longrightarrow> ec_value e \<noteq> 0)
    \<and> (\<forall>q c. strict_prefix path q \<and> tree w q = Some (File c) \<and> removable q \<longrightarrow> tree w' q = None)
    \<and> (tree w path = Some Dir \<and> (\<forall>q. prefix path q \<and> tree w q \<noteq> None \<longrightarrow> removable q) \<longrightarrow> ok)"
proof -
  have ne: "path \<noteq> []" using v by (auto simp: IsValidPath_def)
  obtain L where L: "walk (\<lambda>p. qt_dirs api p w) [path] = Some L" "distinct L" "set L = subdirs (tree w) path" "parents_first (tree w) L"
    using walk_covers[OF cl finite_tree, of "\<lambda>p. qt_dirs api p w" "[path]"] list_dirs ne by (auto simp: independent_def cover_def)
  obtain ok e w' where r: "remove_all api fail (rev L) (True, ErrorCode_default) w = Some (Ret (ok, e) w')"
      and rem: "removes (rev L) (True, ErrorCode_default) w ok e w'"
    using remove_all_spec by blast
  have shrunk: "shrinks (contents (rev L)) w w'" and all: "ok \<longrightarrow> (\<forall>p \<in> set L. tree w' p = None \<and> (\<forall>n c. tree w' (p @ [n]) \<noteq> Some (File c)))"
    and bad: "\<not> ok \<longrightarrow> ec_value e \<noteq> 0"
    and files: "\<forall>p \<in> set L. \<forall>n. (\<exists>c. tree w (p @ [n]) = Some (File c)) \<and> removable (p @ [n]) \<longrightarrow> (\<forall>c. tree w' (p @ [n]) \<noteq> Some (File c))"
    and good: "leaves_first w (rev L) \<and> (\<forall>q \<in> contents (rev L). tree w q \<noteq> None \<longrightarrow> removable q) \<longrightarrow> ok"
    using rem unfolding removes_def by simp_all
  have below: "prefix path q" if "q \<in> contents (rev L)" for q
    using that L(3) by (auto simp: contents_def subdirs_def strict_prefix_def prefix_def)
  have "tree w' q = tree w q \<or> prefix path q \<and> tree w' q = None" for q
    using shrunk below unfolding shrinks_def by blast
  moreover have "tree w' q = None" if ok "prefix path q" for q
  proof (rule ccontr)
    assume "tree w' q \<noteq> None"
    then obtain x where x: "tree w' q = Some x" "tree w q = Some x" using shrinks_file[OF shrunk] by blast
    have "q \<notin> set L" using all \<open>ok\<close> x(1) by auto
    then have q: "strict_prefix path q" "x \<noteq> Dir" using that(2) x(2) L(3) by (auto simp: subdirs_def strict_prefix_def)
    from q(1) obtain p n where "q = p @ [n]" by (rule strict_prefix_snoc)
    then show False using parent_listed[OF cl, of path p n] q x ne all \<open>ok\<close> L(3) by (cases x) auto
  qed
  moreover have "tree w' q = None" if "strict_prefix path q" "tree w q = Some (File c)" "removable q" for q c
  proof (rule ccontr)
    assume "tree w' q \<noteq> None"
    then have x: "tree w' q = Some (File c)" using shrinks_file[OF shrunk] that(2) by fastforce
    from that(1) obtain p n where "q = p @ [n]" by (rule strict_prefix_snoc)
    then show False using parent_listed[OF cl, of path p n] that x ne files L(3) by auto
  qed
  moreover have ok if "tree w path = Some Dir" "\<forall>q. prefix path q \<and> tree w q \<noteq> None \<longrightarrow> removable q"
    using good leaves_first_rev[OF L(4,2)] that below L(3) by (auto simp: subdirs_def)
  moreover have "RemoveDirectoryRecursively api path fail w = Some (Ret (ok, e) w')"
    using L(1) r v by (simp add: RemoveDirectoryRecursively_def)
  ultimately show ?thesis using bad by blast
qed

end

end
