(* ===== verification/FileCopies.thy ===== *)
theory FileCopies
imports FileTrees
begin

text \<open>
  Copying a file: the contract of the calls on open files, and \<open>CopyFile\<close> under it.  Partial reads and writes,
  interrupted calls and failures at any point are part of the contract; other processes do not change the tree.
\<close>

section \<open>The contract of open files\<close>

text \<open>\<open>fds\<close> maps an open descriptor to the path it was opened with and the offset of the next read; \<open>signals\<close> bounds
  the interruptions to come.\<close>

locale file_tree = directory_tree api tree permits
  for api :: "('w, 'x) file_api_scheme" and tree :: "'w \<Rightarrow> path \<Rightarrow> node option" and permits :: "path \<Rightarrow> bool" +
  fixes fds :: "'w \<Rightarrow> int \<Rightarrow> (path \<times> nat) option" and signals :: "'w \<Rightarrow> nat"
  assumes open_read: "os_open_read api p w = (fd, w') \<Longrightarrow>
      fd \<noteq> - 1 \<and> fds w fd = None \<and> tree w p \<noteq> None \<and> tree w' = tree w \<and> fds w' = (fds w)(fd \<mapsto> (p, 0)) \<and> signals w' \<le> signals w
      \<or> fd = - 1 \<and> tree w' = tree w \<and> fds w' = fds w \<and> signals w' \<le> signals w \<and> (fs_errno api w' = EINTR \<longrightarrow> signals w' < signals w)"
    and open_write: "os_open_write api p excl w = (fd, w') \<Longrightarrow>
      fd \<noteq> - 1 \<and> fds w fd = None \<and> tree w p \<noteq> Some Dir \<and> (excl \<longrightarrow> tree w p = None)
        \<and> tree w' = (tree w)(p \<mapsto> File []) \<and> fds w' = (fds w)(fd \<mapsto> (p, 0)) \<and> signals w' \<le> signals w
      \<or> fd = - 1 \<and> tree w' = tree w \<and> fds w' = fds w \<and> signals w' \<le> signals w \<and> (fs_errno api w' = EINTR \<longrightarrow> signals w' < signals w)"
    and fstat_fd: "os_fstat api fd w = ((rc, blksize), w') \<Longrightarrow> fds w fd \<noteq> None \<Longrightarrow>
      tree w' = tree w \<and> fds w' = fds w \<and> signals w' \<le> signals w
        \<and> (rc = 0 \<and> blksize > 0 \<or> rc = - 1 \<and> fs_errno api w' \<noteq> EINTR)"
    and read_fd: "os_read api fd n w = (rc, buf, w') \<Longrightarrow> fds w fd = Some (p, off) \<Longrightarrow> n > 0 \<Longrightarrow>
      (\<exists>c. tree w p = Some (File c) \<and> rc = int (length buf) \<and> length buf \<le> n \<and> buf = take (length buf) (drop off c)
         \<and> (buf = [] \<longrightarrow> length c \<le> off) \<and> tree w' = tree w \<and> fds w' = (fds w)(fd \<mapsto> (p, off + length buf)) \<and> signals w' \<le> signals w)
      \<or> rc = - 1 \<and> tree w' = tree w \<and> fds w' = fds w \<and> signals w' \<le> signals w \<and> (fs_errno api w' = EINTR \<longrightarrow> signals w' < signals w)
         \<and> fs_errno api w' \<notin> {EAGAIN, EBADF, EFAULT, EINVAL}"
    and write_fd: "os_write api fd buf w = (rc, w') \<Longrightarrow> fds w fd = Some (p, off) \<Longrightarrow> tree w p = Some (File c) \<Longrightarrow> buf \<noteq> [] \<Longrightarrow>
      0 \<le> rc \<and> rc \<le> int (length buf) \<and> tree w' = (tree w)(p \<mapsto> File (c @ take (nat rc) buf)) \<and> fds w' = fds w \<and> signals w' \<le> signals w
      \<or> rc = - 1 \<and> tree w' = tree w \<and> fds w' = fds w \<and> signals w' \<le> signals w \<and> (fs_errno api w' = EINTR \<longrightarrow> signals w' < signals w)
         \<and> fs_errno api w' \<notin> {EAGAIN, EBADF}"
    and fsync_fd: "os_fsync api fd w = (rc, w') \<Longrightarrow> fds w fd \<noteq> None \<Longrightarrow>
      tree w' = tree w \<and> fds w' = fds w \<and> signals w' \<le> signals w
        \<and> (rc = 0 \<or> rc = - 1 \<and> (fs_errno api w' = EINTR \<longrightarrow> signals w' < signals w))"
    and close_fd: "os_close api fd w = (rc, w') \<Longrightarrow> fds w fd \<noteq> None \<Longrightarrow>
      tree w' = tree w \<and> fds w' = (fds w)(fd := None) \<and> signals w' \<le> signals w \<and> (rc = 0 \<or> rc = - 1 \<and> fs_errno api w' \<noteq> EBADF)"
begin

definition quiet_step :: "'w \<Rightarrow> 'w \<Rightarrow> bool" where
  "quiet_step w w' \<longleftrightarrow> tree w' = tree w \<and> fds w' = fds w \<and> signals w' \<le> signals w"

lemma quiet_refl [simp]: "quiet_step w w"
  by (simp add: quiet_step_def)

text \<open>A retried call ends in a success, or in a failure that is no interruption and changed nothing.\<close>

lemma fs_retry_spec:
  assumes law: "\<And>s rc s'. quiet_step w s \<Longrightarrow> f s = (rc, s') \<Longrightarrow> S rc s' \<and> rc \<noteq> - 1
      \<or> rc = - 1 \<and> quiet_step s s' \<and> (fs_errno api s' = EINTR \<longrightarrow> signals s' < signals s) \<and> F (fs_errno api s')"
  shows "\<exists>rc w'. fs_retry api f w = Some (Ret rc w') \<and> (S rc w' \<and> rc \<noteq> - 1
      \<or> rc = - 1 \<and> quiet_step w w' \<and> fs_errno api w' \<noteq> EINTR \<and> F (fs_errno api w'))"
proof -
  have trans: "quiet_step w s \<Longrightarrow> quiet_step s s' \<Longrightarrow> quiet_step w s'" for s s' by (auto simp: quiet_step_def)
  have "\<exists>p. TEMP_FAILURE_RETRY (fs_errno api) (\<lambda>w. Some (f w)) w = Some p"
  proof (rule retry_returns[where I = "quiet_step w" and m = signals])
    show "\<exists>rc s'. Some (f s) = Some (rc, s') \<and> (rc = - 1 \<and> fs_errno api s' = EINTR \<longrightarrow> quiet_step w s' \<and> signals s' < signals s)"
      if "quiet_step w s" for s
      using law[OF that] trans[OF that] by (cases "f s") fastforce
  qed simp
  then obtain rc w' where p: "TEMP_FAILURE_RETRY (fs_errno api) (\<lambda>w. Some (f w)) w = Some (rc, w')" by force
  have "(\<lambda>rc w'. S rc w' \<and> rc \<noteq> - 1 \<or> rc = - 1 \<and> quiet_step w w' \<and> F (fs_errno api w')) (fst (rc, w')) (snd (rc, w'))
      \<and> \<not> (fst (rc, w') = - 1 \<and> fs_errno api (snd (rc, w')) = EINTR)"
    by (rule retry_result[OF p, where I = "quiet_step w"]) (use law trans in fastforce)+
  then show ?thesis using p by (auto simp: fs_retry_def)
qed

lemma open_read_spec:
  "\<exists>fd w'. fs_retry api (os_open_read api p) w = Some (Ret fd w') \<and>
    ((fds w fd = None \<and> tree w p \<noteq> None \<and> tree w' = tree w \<and> fds w' = (fds w)(fd \<mapsto> (p, 0))) \<and> fd \<noteq> - 1
     \<or> fd = - 1 \<and> quiet_step w w' \<and> fs_errno api w' \<noteq> EINTR \<and> True)"
  by (rule fs_retry_spec[where F = "\<lambda>_. True"], drule open_read) (auto simp: quiet_step_def)

lemma open_write_spec:
  "\<exists>fd w'. fs_retry api (os_open_write api p excl) w = Some (Ret fd w') \<and>
    ((fds w fd = None \<and> tree w p \<noteq> Some Dir \<and> (excl \<longrightarrow> tree w p = None)
        \<and> tree w' = (tree w)(p \<mapsto> File []) \<and> fds w' = (fds w)(fd \<mapsto> (p, 0))) \<and> fd \<noteq> - 1
     \<or> fd = - 1 \<and> quiet_step w w' \<and> fs_errno api w' \<noteq> EINTR \<and> True)"
  by (rule fs_retry_spec[where F = "\<lambda>_. True"], drule open_write) (auto simp: quiet_step_def)

lemma fsync_spec:
  assumes "fds w fd \<noteq> None"
  shows "\<exists>rc w'. fs_retry api (os_fsync api fd) w = Some (Ret rc w') \<and> quiet_step w w'"
proof -
  have "\<exists>rc w'. fs_retry api (os_fsync api fd) w = Some (Ret rc w') \<and> (quiet_step w w' \<and> rc \<noteq> - 1
      \<or> rc = - 1 \<and> quiet_step w w' \<and> fs_errno api w' \<noteq> EINTR \<and> True)"
    by (rule fs_retry_spec[where F = "\<lambda>_. True"], drule fsync_fd) (use assms in \<open>auto simp: quiet_step_def\<close>)
  then show ?thesis by blast
qed

lemma write_spec:
  assumes "fds w fd = Some (p, off)" "tree w p = Some (File c)" "buf \<noteq> []"
  shows "\<exists>rc w'. fs_retry api (os_write api fd buf) w = Some (Ret rc w') \<and>
    ((0 \<le> rc \<and> rc \<le> int (length buf) \<and> tree w' = (tree w)(p \<mapsto> File (c @ take (nat rc) buf)) \<and> fds w' = fds w) \<and> rc \<noteq> - 1
     \<or> rc = - 1 \<and> quiet_step w w' \<and> fs_errno api w' \<noteq> EINTR \<and> fs_errno api w' \<notin> {EAGAIN, EBADF})"
  by (rule fs_retry_spec[where F = "\<lambda>e. e \<notin> {EAGAIN, EBADF}"], drule write_fd) (use assms in \<open>auto simp: quiet_step_def\<close>)

text \<open>The read, with its buffer.\<close>

lemma read_spec:
  assumes fd: "fds w fd = Some (p, off)" and n: "n > 0"
  shows "\<exists>rc buf w'. read_retry api fd n w = Some (Ret (rc, buf) w') \<and>
    ((\<exists>c. tree w p = Some (File c) \<and> rc = int (length buf) \<and> buf = take (length buf) (drop off c)
         \<and> (buf = [] \<longrightarrow> length c \<le> off) \<and> tree w' = tree w \<and> fds w' = (fds w)(fd \<mapsto> (p, off + length buf)))
     \<or> rc = - 1 \<and> quiet_step w w' \<and> fs_errno api w' \<notin> {EINTR, EAGAIN, EBADF, EFAULT, EINVAL})"
proof -
  let ?e = "\<lambda>(buf :: byte list, w). fs_errno api w" and ?f = "\<lambda>(buf :: byte list, w). Some (os_read api fd n w)"
  have law: "(\<exists>c. tree w p = Some (File c) \<and> rc = int (length buf) \<and> buf = take (length buf) (drop off c)
         \<and> (buf = [] \<longrightarrow> length c \<le> off) \<and> tree s' = tree w \<and> fds s' = (fds w)(fd \<mapsto> (p, off + length buf)))
     \<or> rc = - 1 \<and> quiet_step w s' \<and> (fs_errno api s' = EINTR \<longrightarrow> signals s' < signals s) \<and> fs_errno api s' \<notin> {EAGAIN, EBADF, EFAULT, EINVAL}"
    if "quiet_step w s" "os_read api fd n s = (rc, buf, s')" for s rc buf s'
    using read_fd[OF that(2), of p off] that(1) fd n by (auto simp: quiet_step_def)
  have "\<exists>q. TEMP_FAILURE_RETRY ?e ?f ([], w) = Some q"
  proof (rule retry_returns[where I = "\<lambda>s. quiet_step w (snd s)" and m = "\<lambda>s. signals (snd s)"])
    show "\<exists>rc s'. ?f s = Some (rc, s') \<and> (rc = - 1 \<and> ?e s' = EINTR \<longrightarrow> quiet_step w (snd s') \<and> signals (snd s') < signals (snd s))"
      if s: "quiet_step w (snd s)" for s
    proof -
      obtain b v where [simp]: "s = (b, v)" by (cases s)
      obtain rc buf s' where r: "os_read api fd n v = (rc, buf, s')" by (cases "os_read api fd n v")
      show ?thesis using law[OF _ r] s r by fastforce
    qed
  qed simp
  then obtain rc buf w' where q: "TEMP_FAILURE_RETRY ?e ?f ([], w) = Some (rc, buf, w')" by force
  define G where "G rc s \<longleftrightarrow> (\<exists>c. tree w p = Some (File c) \<and> rc = int (length (fst s)) \<and> fst s = take (length (fst s)) (drop off c)
         \<and> (fst s = [] \<longrightarrow> length c \<le> off) \<and> tree (snd s) = tree w \<and> fds (snd s) = (fds w)(fd \<mapsto> (p, off + length (fst s))))
     \<or> rc = - 1 \<and> quiet_step w (snd s) \<and> fs_errno api (snd s) \<notin> {EAGAIN, EBADF, EFAULT, EINVAL}" for rc s
  have "G (fst (rc, buf, w')) (snd (rc, buf, w')) \<and> \<not> (fst (rc, buf, w') = - 1 \<and> ?e (snd (rc, buf, w')) = EINTR)"
  proof (rule retry_result[OF q, where I = "\<lambda>s. quiet_step w (snd s)"])
    show "if rc = - 1 \<and> ?e s' = EINTR then quiet_step w (snd s') else G rc s'"
      if "quiet_step w (snd s)" "?f s = Some (rc, s')" for s rc s'
      using law[of "snd s" rc "fst s'" "snd s'"] that by (cases s; cases s') (auto simp: G_def)
  qed simp
  then show ?thesis using q by (auto simp: read_retry_def G_def)
qed


section \<open>The loops\<close>

text \<open>Everything is written, or an error leaves a part of it.\<close>

lemma write_all_spec:
  assumes "fds w fd = Some (p, off)" "tree w p = Some (File c)" "buf \<noteq> []"
  shows "\<exists>k w'. (write_all api fd buf w = Some (Ret () w') \<and> k = length buf \<or> (\<exists>e. write_all api fd buf w = Some (Exc e w')))
      \<and> tree w' = (tree w)(p \<mapsto> File (c @ take k buf)) \<and> fds w' = fds w"
  using assms
proof (induction "length buf" arbitrary: buf c w rule: less_induct)
  case less
  obtain rc w1 where r: "fs_retry api (os_write api fd buf) w = Some (Ret rc w1)"
    and c: "(0 \<le> rc \<and> rc \<le> int (length buf) \<and> tree w1 = (tree w)(p \<mapsto> File (c @ take (nat rc) buf)) \<and> fds w1 = fds w) \<and> rc \<noteq> - 1
     \<or> rc = - 1 \<and> quiet_step w w1 \<and> fs_errno api w1 \<noteq> EINTR \<and> fs_errno api w1 \<notin> {EAGAIN, EBADF}"
    using write_spec[OF less.prems] by blast
  have same: "(tree w)(p \<mapsto> File (c @ take 0 buf)) = tree w" using less.prems(2) by (simp add: fun_upd_idem)
  consider "rc = - 1" | "rc = 0" | "0 < rc" "rc < int (length buf)" | "rc = int (length buf)" using c by linarith
  then show ?case
  proof cases
    case 1
    then have "write_all api fd buf w = Some (Exc (FilesystemExc (mk_code (fs_errno api w1) SystemCategory)) w1)"
      using r c by (subst write_all.simps) (simp add: io_failed_def fs_error_def)
    moreover have "tree w1 = tree w" "fds w1 = fds w" using 1 c by (auto simp: quiet_step_def)
    ultimately show ?thesis using same by (intro exI[of _ 0] exI[of _ w1]) auto
  next
    case 2
    then have "write_all api fd buf w = Some (Exc (FilesystemExc (mk_code (fs_errno api w1) SystemCategory)) w1)"
      using r by (subst write_all.simps) (simp add: fs_error_def)
    then show ?thesis using 2 c by (intro exI[of _ 0] exI[of _ w1]) auto
  next
    case 3
    let ?rest = "drop (nat rc) buf"
    have step: "write_all api fd buf w = write_all api fd ?rest w1" using 3 r by (subst write_all.simps) simp
    have "length ?rest < length buf" "?rest \<noteq> []" using 3 by auto
    moreover have "fds w1 fd = Some (p, off)" "tree w1 p = Some (File (c @ take (nat rc) buf))" using c 3 less.prems(1) by auto
    ultimately obtain k w' where k: "write_all api fd ?rest w1 = Some (Ret () w') \<and> k = length ?rest \<or> (\<exists>e. write_all api fd ?rest w1 = Some (Exc e w'))"
        "tree w' = (tree w1)(p \<mapsto> File ((c @ take (nat rc) buf) @ take k ?rest))" "fds w' = fds w1"
      using less.hyps[of ?rest w1 "c @ take (nat rc) buf"] by blast
    have "take (nat rc) buf @ take k ?rest = take (nat rc + k) buf" by (simp add: take_add)
    then have "tree w' = (tree w)(p \<mapsto> File (c @ take (nat rc + k) buf))" "fds w' = fds w" using k(2,3) c 3 by auto
    moreover have "nat rc + length ?rest = length buf" using 3 by simp
    ultimately show ?thesis using k(1) step by (intro exI[of _ "nat rc + k"] exI[of _ w']) auto
  next
    case 4
    have "write_all api fd buf w = Some (Ret () w1)" using 4 r less.prems(3) by (subst write_all.simps) simp
    then show ?thesis using 4 c less.prems(3) by (intro exI[of _ "length buf"] exI[of _ w1]) auto
  qed
qed

text \<open>The destination holds what was read so far, whether the loop ends or fails.\<close>

lemma copy_loop_spec:
  assumes "fds w src = Some (s, off)" "fds w dst = Some (d, off')" "src \<noteq> dst" "s \<noteq> d" "n > 0"
    and "tree w d = Some (File (take off c))" "off \<le> length c" "\<forall>c'. tree w s = Some (File c') \<longrightarrow> c' = c"
  shows "\<exists>k o2 w'. (copy_loop api src dst n w = Some (Ret () w') \<and> tree w s = Some (File c) \<and> k = length c
        \<or> (\<exists>e. copy_loop api src dst n w = Some (Exc e w')))
      \<and> tree w' = (tree w)(d \<mapsto> File (take k c)) \<and> fds w' = (fds w)(src \<mapsto> (s, o2))"
  using assms(1,2,6,7,8)
proof (induction "length c - off" arbitrary: off w rule: less_induct)
  case less
  have same: "(tree w)(d \<mapsto> File (take off c)) = tree w" "(fds w)(src \<mapsto> (s, off)) = fds w"
    using less.prems by (simp_all add: fun_upd_idem)
  obtain rc buf w1 where r: "read_retry api src n w = Some (Ret (rc, buf) w1)"
    and c: "(\<exists>c. tree w s = Some (File c) \<and> rc = int (length buf) \<and> buf = take (length buf) (drop off c)
         \<and> (buf = [] \<longrightarrow> length c \<le> off) \<and> tree w1 = tree w \<and> fds w1 = (fds w)(src \<mapsto> (s, off + length buf)))
     \<or> rc = - 1 \<and> quiet_step w w1 \<and> fs_errno api w1 \<notin> {EINTR, EAGAIN, EBADF, EFAULT, EINVAL}"
    using read_spec[OF less.prems(1) assms(5)] by blast
  consider "rc = - 1" "quiet_step w w1" "fs_errno api w1 \<notin> {EINTR, EAGAIN, EBADF, EFAULT, EINVAL}"
    | "tree w s = Some (File c)" "rc = int (length buf)" "buf = take (length buf) (drop off c)" "buf = [] \<longrightarrow> length c \<le> off"
        "tree w1 = tree w" "fds w1 = (fds w)(src \<mapsto> (s, off + length buf))"
    using c less.prems(5) by blast
  then show ?case
  proof cases
    case 1
    then have "copy_loop api src dst n w = Some (Exc (FilesystemExc (mk_code (fs_errno api w1) SystemCategory)) w1)"
      using r by (subst copy_loop.simps) (simp add: io_failed_def fs_error_def)
    moreover have "tree w1 = tree w" "fds w1 = fds w" using 1 by (auto simp: quiet_step_def)
    ultimately show ?thesis using same by (intro exI[of _ off] exI[of _ w1]) auto
  next
    case 2
    note two = 2(1,5,6)
    show ?thesis
    proof (cases "buf = []")
      case True
      then have "copy_loop api src dst n w = Some (Ret () w1)" using r 2(2) by (subst copy_loop.simps) simp
      moreover have "off = length c" using True 2(4) less.prems(4) by simp
      ultimately show ?thesis using True two same by (intro exI[of _ off] exI[of _ w1]) auto
    next
      case False
      have len: "off + length buf \<le> length c" using arg_cong[OF 2(3), of length] less.prems(4) by (simp add: min_def split: if_splits)
      have w1: "fds w1 dst = Some (d, off')" "tree w1 d = Some (File (take off c))" using less.prems(2,3) two assms(3) by simp_all
      obtain k w2 where k: "write_all api dst buf w1 = Some (Ret () w2) \<and> k = length buf \<or> (\<exists>e. write_all api dst buf w1 = Some (Exc e w2))"
          "tree w2 = (tree w1)(d \<mapsto> File (take off c @ take k buf))" "fds w2 = fds w1"
        using write_all_spec[OF w1 False] by blast
      have step: "copy_loop api src dst n w = bind (write_all api dst buf) (\<lambda>_. copy_loop api src dst n) w1"
        using r 2(2) False by (subst copy_loop.simps) simp
      have whole: "take off c @ take k buf = take (off + min k (length buf)) c"
        using arg_cong[OF 2(3), of "take k"] by (simp add: take_add min.commute)
      show ?thesis
      proof (cases "\<exists>e. write_all api dst buf w1 = Some (Exc e w2)")
        case True
        show ?thesis by (rule exI[of _ "off + min k (length buf)"], rule exI[of _ "off + length buf"], rule exI[of _ w2])
          (use True step k two whole in auto)
      next
        case ok: False
        then have w2: "write_all api dst buf w1 = Some (Ret () w2)" "k = length buf" using k(1) by auto
        have t: "tree w2 = (tree w)(d \<mapsto> File (take (off + length buf) c))" "fds w2 = (fds w)(src \<mapsto> (s, off + length buf))"
          using k(2,3) w2(2) whole two by simp_all
        have "length c - (off + length buf) < length c - off" using False len less.prems(4) by (cases buf) auto
        moreover have "fds w2 src = Some (s, off + length buf)" "fds w2 dst = Some (d, off')"
            "tree w2 d = Some (File (take (off + length buf) c))" "\<forall>c'. tree w2 s = Some (File c') \<longrightarrow> c' = c"
          using t less.prems(2) assms(3,4) 2(1) by auto
        ultimately obtain k' o2 w' where IH: "copy_loop api src dst n w2 = Some (Ret () w') \<and> tree w2 s = Some (File c) \<and> k' = length c
              \<or> (\<exists>e. copy_loop api src dst n w2 = Some (Exc e w'))"
            "tree w' = (tree w2)(d \<mapsto> File (take k' c))" "fds w' = (fds w2)(src \<mapsto> (s, o2))"
          using less.hyps[OF _ _ _ _ len, of w2] by blast
        have "copy_loop api src dst n w = copy_loop api src dst n w2" using step w2(1) by simp
        moreover have "tree w' = (tree w)(d \<mapsto> File (take k' c))" "fds w' = (fds w)(src \<mapsto> (s, o2))" using IH(2,3) t by simp_all
        ultimately show ?thesis using IH(1) 2(1) by fastforce
      qed
    qed
  qed
qed

section \<open>The copy\<close>

lemma close_spec:
  assumes "fds w fd \<noteq> None"
  shows "\<exists>rc w'. os_close api fd w = (rc, w') \<and> tree w' = tree w \<and> fds w' = (fds w)(fd := None) \<and> (rc = - 1 \<longrightarrow> fs_errno api w' \<noteq> EBADF)"
  by (cases "os_close api fd w") (use close_fd[OF _ assms] in fastforce)

text \<open>After the loop the descriptor of the destination is closed, whatever happened.\<close>

lemma copy_opened_closes:
  assumes loop: "copy_loop api src dst n w = Some (Ret () w1) \<or> (\<exists>e. copy_loop api src dst n w = Some (Exc e w1))"
    and fd: "fds w1 dst \<noteq> None"
  shows "\<exists>w'. (copy_opened api src dst n w = Some (Ret () w') \<and> copy_loop api src dst n w = Some (Ret () w1)
        \<or> (\<exists>e. copy_opened api src dst n w = Some (Exc e w'))) \<and> tree w' = tree w1 \<and> fds w' = (fds w1)(dst := None)"
  using loop
proof
  assume "\<exists>e. copy_loop api src dst n w = Some (Exc e w1)"
  then obtain e where e: "copy_loop api src dst n w = Some (Exc e w1)" by blast
  obtain rc w2 where c: "os_close api dst w1 = (rc, w2)" "tree w2 = tree w1" "fds w2 = (fds w1)(dst := None)" using close_spec[OF fd] by blast
  have "copy_opened api src dst n w = Some (Exc e w2)" using e c(1) by (simp add: copy_opened_def close_quietly_def)
  then show ?thesis using c by auto
next
  assume ok: "copy_loop api src dst n w = Some (Ret () w1)"
  obtain rc2 w2 where f: "fs_retry api (os_fsync api dst) w1 = Some (Ret rc2 w2)" "quiet_step w1 w2" using fsync_spec[OF fd] by blast
  have "fds w2 dst \<noteq> None" using f(2) fd by (simp add: quiet_step_def)
  then obtain rc w3 where c: "os_close api dst w2 = (rc, w3)" "tree w3 = tree w2" "fds w3 = (fds w2)(dst := None)"
      "rc = - 1 \<longrightarrow> fs_errno api w3 \<noteq> EBADF"
    using close_spec by blast
  have "copy_opened api src dst n w = Some (Ret () w3) \<or> (\<exists>e. copy_opened api src dst n w = Some (Exc e w3))"
    using ok f(1) c(1,4) by (cases "rc = - 1 \<and> fs_errno api w3 \<noteq> EINTR") (auto simp: copy_opened_def fs_error_def)
  moreover have "tree w3 = tree w1" "fds w3 = (fds w1)(dst := None)" using c f(2) by (simp_all add: quiet_step_def)
  ultimately show ?thesis using ok by blast
qed

lemma copy_opened_spec:
  assumes "fds w src = Some (s, 0)" "fds w dst = Some (d, 0)" "src \<noteq> dst" "s \<noteq> d" "n > 0"
    and "tree w d = Some (File [])" "\<forall>c'. tree w s = Some (File c') \<longrightarrow> c' = c"
  shows "\<exists>k o2 w'. (copy_opened api src dst n w = Some (Ret () w') \<and> tree w s = Some (File c) \<and> k = length c
        \<or> (\<exists>e. copy_opened api src dst n w = Some (Exc e w')))
      \<and> tree w' = (tree w)(d \<mapsto> File (take k c)) \<and> fds w' = (fds w)(src \<mapsto> (s, o2), dst := None)"
proof -
  obtain k o2 w1 where loop: "copy_loop api src dst n w = Some (Ret () w1) \<and> tree w s = Some (File c) \<and> k = length c
        \<or> (\<exists>e. copy_loop api src dst n w = Some (Exc e w1))"
      and w1: "tree w1 = (tree w)(d \<mapsto> File (take k c))" "fds w1 = (fds w)(src \<mapsto> (s, o2))"
    using copy_loop_spec[OF assms(1-5), of c] assms(6,7) by auto
  have fd: "fds w1 dst \<noteq> None" using w1(2) assms(2,3) by simp
  have "copy_loop api src dst n w = Some (Ret () w1) \<or> (\<exists>e. copy_loop api src dst n w = Some (Exc e w1))" using loop by blast
  then obtain w' where "copy_opened api src dst n w = Some (Ret () w') \<and> copy_loop api src dst n w = Some (Ret () w1)
        \<or> (\<exists>e. copy_opened api src dst n w = Some (Exc e w'))" "tree w' = tree w1" "fds w' = (fds w1)(dst := None)"
    using copy_opened_closes[OF _ fd] by blast
  then show ?thesis using loop w1 by auto
qed

text \<open>The source and the destination are the same file, which opening has truncated.\<close>

lemma copy_opened_same:
  assumes "fds w src = Some (p, 0)" "fds w dst = Some (p, 0)" "src \<noteq> dst" "n > 0" "tree w p = Some (File [])"
  shows "\<exists>w'. (copy_opened api src dst n w = Some (Ret () w') \<or> (\<exists>e. copy_opened api src dst n w = Some (Exc e w')))
      \<and> tree w' = tree w \<and> fds w' = (fds w)(dst := None)"
proof -
  obtain rc buf w1 where r: "read_retry api src n w = Some (Ret (rc, buf) w1)"
    and c: "(\<exists>c. tree w p = Some (File c) \<and> rc = int (length buf) \<and> buf = take (length buf) (drop 0 c)
         \<and> (buf = [] \<longrightarrow> length c \<le> 0) \<and> tree w1 = tree w \<and> fds w1 = (fds w)(src \<mapsto> (p, 0 + length buf)))
     \<or> rc = - 1 \<and> quiet_step w w1 \<and> fs_errno api w1 \<notin> {EINTR, EAGAIN, EBADF, EFAULT, EINVAL}"
    using read_spec[OF assms(1,4)] by blast
  have buf: "buf = [] \<and> rc = 0 \<or> rc = - 1 \<and> fs_errno api w1 \<notin> {EINTR, EAGAIN, EBADF, EFAULT, EINVAL}" and w1: "tree w1 = tree w" "fds w1 = fds w"
    using c assms(1,5) by (auto simp: quiet_step_def fun_upd_idem)
  then have "copy_loop api src dst n w = Some (Ret () w1) \<or> (\<exists>e. copy_loop api src dst n w = Some (Exc e w1))"
    using r by (subst (1 2) copy_loop.simps) (auto simp: io_failed_def fs_error_def)
  then show ?thesis using copy_opened_closes w1 assms(2) by fastforce
qed

text \<open>What a copy from \<open>s\<close> to \<open>d\<close> does to the tree, with \<open>ok\<close> when it returns and not when it throws.\<close>

definition copies :: "path \<Rightarrow> path \<Rightarrow> bool \<Rightarrow> 'w \<Rightarrow> bool \<Rightarrow> 'w \<Rightarrow> bool" where
  "copies s d excl w ok w' \<longleftrightarrow> (if s = d then tree w' = tree w \<and> \<not> ok \<or> \<not> excl \<and> tree w' = (tree w)(d \<mapsto> File [])
     else if ok then (excl \<longrightarrow> tree w d = None) \<and> (\<exists>c. tree w s = Some (File c) \<and> tree w' = (tree w)(d \<mapsto> File c))
     else tree w' = tree w \<or> (excl \<longrightarrow> tree w d = None)
       \<and> (\<exists>c k. tree w' = (tree w)(d \<mapsto> File (take k c)) \<and> (\<forall>c'. tree w s = Some (File c') \<longrightarrow> c' = c)))"

lemma copies_none [simp]: "tree w' = tree w \<Longrightarrow> copies s d excl w False w'"
  by (simp add: copies_def)

lemma copy_from_spec:
  assumes fd: "fds w src = Some (s, 0)" and s: "tree w s \<noteq> None"
  shows "\<exists>o2 w'. (copy_from api src d excl w = Some (Ret () w') \<and> copies s d excl w True w'
        \<or> (\<exists>e. copy_from api src d excl w = Some (Exc e w')) \<and> copies s d excl w False w')
      \<and> fds w' = (fds w)(src \<mapsto> (s, o2))"
proof -
  obtain rc n w1 where f: "os_fstat api src w = ((rc, n), w1)" by (metis surj_pair)
  have w1: "tree w1 = tree w" "fds w1 = fds w" "rc = 0 \<and> n > 0 \<or> rc = - 1 \<and> fs_errno api w1 \<noteq> EINTR"
    using fstat_fd[OF f] fd by auto
  have same: "(fds w)(src \<mapsto> (s, 0)) = fds w" using fd by (simp add: fun_upd_idem)
  show ?thesis
  proof (cases "rc = 0")
    case False
    then have "copy_from api src d excl w = Some (Exc (FilesystemExc (mk_code (fs_errno api w1) SystemCategory)) w1)"
      using f w1(3) by (simp add: copy_from_def io_failed_def fs_error_def)
    then show ?thesis by (intro exI[of _ 0], intro exI[of _ w1]) (simp add: w1 same)
  next
    case rc: True
    obtain dst w2 where o: "fs_retry api (os_open_write api d excl) w1 = Some (Ret dst w2)"
      and w2: "(fds w1 dst = None \<and> tree w1 d \<noteq> Some Dir \<and> (excl \<longrightarrow> tree w1 d = None)
        \<and> tree w2 = (tree w1)(d \<mapsto> File []) \<and> fds w2 = (fds w1)(dst \<mapsto> (d, 0))) \<and> dst \<noteq> - 1
     \<or> dst = - 1 \<and> quiet_step w1 w2 \<and> fs_errno api w2 \<noteq> EINTR \<and> True"
      using open_write_spec by blast
    show ?thesis
    proof (cases "dst = - 1")
      case True
      then have "\<exists>e. copy_from api src d excl w = Some (Exc e w2)"
        using f rc o by (simp add: copy_from_def open_failed_def fs_error_def)
      moreover have "tree w2 = tree w" "fds w2 = fds w" using True w1 w2 by (auto simp: quiet_step_def)
      ultimately show ?thesis by (intro exI[of _ 0], intro exI[of _ w2]) (simp add: same)
    next
      case False
      then have op: "fds w dst = None" "excl \<longrightarrow> tree w d = None" "tree w2 = (tree w)(d \<mapsto> File [])" "fds w2 = (fds w)(dst \<mapsto> (d, 0))"
        using w1 w2 by auto
      have run: "copy_from api src d excl w = copy_opened api src dst n w2"
        using f rc o False by (simp add: copy_from_def)
      have n: "n > 0" and ne: "src \<noteq> dst" using w1(3) rc op(1) fd by auto
      have fds2: "fds w2 src = Some (s, 0)" "fds w2 dst = Some (d, 0)" "tree w2 d = Some (File [])" using op fd ne by auto
      have undo: "((fds w2)(src \<mapsto> (s, o2)))(dst := None) = (fds w)(src \<mapsto> (s, o2))" for o2
        using op(1,4) ne by (auto simp: fun_eq_iff)
      show ?thesis
      proof (cases "s = d")
        case True
        have "fds w2 src = Some (d, 0)" using fds2(1) True by simp
        then obtain w' where "copy_opened api src dst n w2 = Some (Ret () w') \<or> (\<exists>e. copy_opened api src dst n w2 = Some (Exc e w'))"
            "tree w' = tree w2" "fds w' = (fds w2)(dst := None)"
          using copy_opened_same[OF _ fds2(2) ne n fds2(3)] by blast
        moreover have "(fds w2)(dst := None) = (fds w)(src \<mapsto> (s, 0))" using op(1,4) same by (auto simp: fun_eq_iff)
        moreover have "copies s d excl w ok w'" if "tree w' = tree w2" for ok w'
          using that op(2,3) True s by (cases excl) (simp_all add: copies_def)
        ultimately show ?thesis using run by (intro exI[of _ 0], intro exI[of _ w']) auto
      next
        case ne': False
        define c where "c = (case tree w s of Some (File c) \<Rightarrow> c | _ \<Rightarrow> [])"
        have c: "\<forall>c'. tree w2 s = Some (File c') \<longrightarrow> c' = c" "tree w2 s = tree w s" using op(3) ne' by (auto simp: c_def)
        obtain k o2 w' where r: "copy_opened api src dst n w2 = Some (Ret () w') \<and> tree w2 s = Some (File c) \<and> k = length c
            \<or> (\<exists>e. copy_opened api src dst n w2 = Some (Exc e w'))"
          "tree w' = (tree w2)(d \<mapsto> File (take k c))" "fds w' = (fds w2)(src \<mapsto> (s, o2), dst := None)"
          using copy_opened_spec[OF fds2(1,2) ne ne' n fds2(3) c(1)] by blast
        have t: "tree w' = (tree w)(d \<mapsto> File (take k c))" using r(2) op(3) by simp
        have "copies s d excl w False w'" using t op(2) c ne' by (auto simp: copies_def)
        moreover have "copies s d excl w True w'" if "tree w2 s = Some (File c)" "k = length c"
        proof -
          have "tree w s = Some (File c)" "tree w' = (tree w)(d \<mapsto> File c)" using t c(2) that by simp_all
          then have "\<exists>c. tree w s = Some (File c) \<and> tree w' = (tree w)(d \<mapsto> File c)" by blast
          then show ?thesis using op(2) ne' unfolding copies_def by presburger
        qed
        ultimately show ?thesis using r(1,3) run undo by (intro exI[of _ o2], intro exI[of _ w']) auto
      qed
    qed
  qed
qed

lemma CopyFile_outcome:
  assumes v: "IsValidPath s True" "IsValidPath d True"
  shows "\<exists>w'. (CopyFile api s d excl w = Some (Ret () w') \<and> copies s d excl w True w'
        \<or> (\<exists>e. CopyFile api s d excl w = Some (Exc e w')) \<and> copies s d excl w False w') \<and> fds w' = fds w"
proof -
  obtain src w1 where o: "fs_retry api (os_open_read api s) w = Some (Ret src w1)"
    and w1: "(fds w src = None \<and> tree w s \<noteq> None \<and> tree w1 = tree w \<and> fds w1 = (fds w)(src \<mapsto> (s, 0))) \<and> src \<noteq> - 1
     \<or> src = - 1 \<and> quiet_step w w1 \<and> fs_errno api w1 \<noteq> EINTR \<and> True"
    using open_read_spec[of s w] by (elim exE conjE) (rule that)
  show ?thesis
  proof (cases "src = - 1")
    case True
    then have "\<exists>e. CopyFile api s d excl w = Some (Exc e w1)"
      using o v by (simp add: CopyFile_def open_failed_def fs_error_def)
    moreover have "tree w1 = tree w" "fds w1 = fds w" using True w1 by (auto simp: quiet_step_def)
    ultimately show ?thesis by (intro exI[of _ w1]) simp
  next
    case False
    then have op: "fds w src = None" "tree w s \<noteq> None" "tree w1 = tree w" "fds w1 = (fds w)(src \<mapsto> (s, 0))" using w1 by auto
    obtain o2 w2 where c: "copy_from api src d excl w1 = Some (Ret () w2) \<and> copies s d excl w1 True w2
        \<or> (\<exists>e. copy_from api src d excl w1 = Some (Exc e w2)) \<and> copies s d excl w1 False w2" "fds w2 = (fds w1)(src \<mapsto> (s, o2))"
      using copy_from_spec[of w1 src s d excl] op by auto
    obtain rc w3 where cl: "os_close api src w2 = (rc, w3)" "tree w3 = tree w2" "fds w3 = (fds w2)(src := None)"
      using close_spec[of w2 src] c(2) by auto
    have q: "close_quietly api src w2 = Some (Ret () w3)" using cl(1) by (simp add: close_quietly_def)
    have same: "copies s d excl w1 ok w2 = copies s d excl w ok w3" for ok using op(3) cl(2) by (simp add: copies_def)
    have closed: "fds w3 = fds w" using cl(3) c(2) op(1,4) by (auto simp: fun_eq_iff)
    have run: "CopyFile api s d excl w = scoped (copy_from api src d excl) (close_quietly api src) w1"
      using o v False by (simp add: CopyFile_def)
    from c(1) show ?thesis
    proof (elim disjE conjE exE)
      assume r: "copy_from api src d excl w1 = Some (Ret () w2)" "copies s d excl w1 True w2"
      have "CopyFile api s d excl w = Some (Ret () w3)" unfolding run using r(1) q by (simp add: scoped_def)
      then show ?thesis using r(2) same closed by blast
    next
      fix e assume r: "copy_from api src d excl w1 = Some (Exc e w2)" "copies s d excl w1 False w2"
      have "CopyFile api s d excl w = Some (Exc e w3)" unfolding run using r(1) q by (simp add: scoped_def)
      then show ?thesis using r(2) same closed by blast
    qed
  qed
qed

end

end
