(* ===== verification/Disks.thy ===== *)
theory Disks
imports FileCopies "HOL-Library.Word"
begin

text \<open>
  A file system that computes, which keeps the contracts of \<open>FileTrees\<close> and \<open>FileCopies\<close>: the operations of
  \<open>Files\<close> are evaluated on it.  It delivers signals, reads and writes in parts, protects some paths from deletion
  and limits the depth of paths; with links to directories it shows what the contract leaves out.
\<close>

record disk =
  nodes :: "(path \<times> node) list"
  handles :: "(int \<times> path \<times> nat) list"
  pending :: nat
  disk_errno :: int

record disk_config =
  protected :: "path list"
  links :: "(path \<times> path) list"
  chunk :: nat
  depth :: nat

definition lookup :: "disk \<Rightarrow> path \<Rightarrow> node option" where "lookup w = map_of (nodes w)"

definition put :: "path \<Rightarrow> node \<Rightarrow> disk \<Rightarrow> disk" where
  "put p x w = w\<lparr>nodes := (p, x) # filter (\<lambda>(q, _). q \<noteq> p) (nodes w)\<rparr>"

definition del :: "path \<Rightarrow> disk \<Rightarrow> disk" where
  "del p w = w\<lparr>nodes := filter (\<lambda>(q, _). q \<noteq> p) (nodes w)\<rparr>"

definition resolve :: "disk_config \<Rightarrow> path \<Rightarrow> path" where
  "resolve k p = (case find (\<lambda>(l, t). prefix l p) (links k) of None \<Rightarrow> p | Some (l, t) \<Rightarrow> t @ drop (length l) p)"

definition resolve_parent :: "disk_config \<Rightarrow> path \<Rightarrow> path" where
  "resolve_parent k p = (if p = [] then [] else resolve k (butlast p) @ [last p])"

definition is_link :: "disk_config \<Rightarrow> path \<Rightarrow> bool" where
  "is_link k p = (resolve_parent k p \<in> fst ` set (links k))"

definition is_file :: "node option \<Rightarrow> bool" where
  "is_file x = (case x of Some (File _) \<Rightarrow> True | _ \<Rightarrow> False)"

definition entries :: "(node option \<Rightarrow> bool) \<Rightarrow> path \<Rightarrow> disk \<Rightarrow> string list" where
  "entries kind p w = remdups (map last (filter (\<lambda>q. q \<noteq> [] \<and> butlast q = p \<and> kind (lookup w q)) (map fst (nodes w))))"

definition linked :: "disk_config \<Rightarrow> path \<Rightarrow> string list" where
  "linked k p = map last (filter (\<lambda>l. butlast l = p) (map fst (links k)))"

definition fail_with :: "int \<Rightarrow> disk \<Rightarrow> int \<times> disk" where "fail_with e w = (- 1, w\<lparr>disk_errno := e\<rparr>)"

text \<open>A signal interrupts the call when one is pending.\<close>

definition interrupted :: "disk \<Rightarrow> (int \<times> disk) \<Rightarrow> int \<times> disk" where
  "interrupted w r = (if pending w > 0 then fail_with EINTR (w\<lparr>pending := pending w - 1\<rparr>) else r)"

definition fresh :: "disk \<Rightarrow> int" where "fresh w = fold max (map fst (handles w)) 2 + 1"

definition new_handle :: "path \<Rightarrow> disk \<Rightarrow> int \<times> disk" where
  "new_handle p w = (fresh w, w\<lparr>handles := (fresh w, p, 0) # handles w\<rparr>)"

definition disk_unlink :: "disk_config \<Rightarrow> path \<Rightarrow> disk \<Rightarrow> int \<times> disk" where
  "disk_unlink k p w = (let q = resolve_parent k p in
     if is_link k p then fail_with EPERM w
     else case lookup w q of None \<Rightarrow> fail_with ENOENT w | Some Dir \<Rightarrow> fail_with EISDIR w
        | Some (File _) \<Rightarrow> if p \<in> set (protected k) then fail_with EACCES w else (0, del q w))"

definition disk_rmdir :: "disk_config \<Rightarrow> path \<Rightarrow> disk \<Rightarrow> int \<times> disk" where
  "disk_rmdir k p w = (let q = resolve_parent k p in
     if is_link k p then fail_with ENOTDIR w
     else case lookup w q of None \<Rightarrow> fail_with ENOENT w | Some (File _) \<Rightarrow> fail_with ENOTDIR w
        | Some Dir \<Rightarrow> if p \<in> set (protected k) then fail_with EACCES w
            else if entries (\<lambda>x. x \<noteq> None) q w \<noteq> [] \<or> linked k q \<noteq> [] then fail_with ENOTEMPTY w else (0, del q w))"

definition disk_mkdir :: "disk_config \<Rightarrow> path \<Rightarrow> disk \<Rightarrow> int \<times> disk" where
  "disk_mkdir k p w = (if lookup w p \<noteq> None then fail_with EEXIST w
     else if length p > depth k then fail_with ENAMETOOLONG w
     else if length p \<noteq> 1 \<and> lookup w (butlast p) \<noteq> Some Dir then fail_with ENOENT w else (0, put p Dir w))"

definition disk_open_read :: "path \<Rightarrow> disk \<Rightarrow> int \<times> disk" where
  "disk_open_read p w = interrupted w (if lookup w p = None then fail_with ENOENT w else new_handle p w)"

definition disk_open_write :: "path \<Rightarrow> bool \<Rightarrow> disk \<Rightarrow> int \<times> disk" where
  "disk_open_write p excl w = interrupted w (
     if lookup w p = Some Dir then fail_with EISDIR w
     else if excl \<and> lookup w p \<noteq> None then fail_with EEXIST w
     else if length p \<noteq> 1 \<and> lookup w (butlast p) \<noteq> Some Dir then fail_with ENOENT w
     else new_handle p (put p (File []) w))"

definition disk_read :: "disk_config \<Rightarrow> int \<Rightarrow> nat \<Rightarrow> disk \<Rightarrow> int \<times> byte list \<times> disk" where
  "disk_read k fd n w = (if pending w > 0 then (- 1, [], snd (interrupted w (0, w))) else
     case map_of (handles w) fd of None \<Rightarrow> (- 1, [], w\<lparr>disk_errno := EBADF\<rparr>)
     | Some (p, off) \<Rightarrow> (case lookup w p of
          Some (File c) \<Rightarrow> (let buf = take (min n (max 1 (chunk k))) (drop off c) in
            (int (length buf), buf, w\<lparr>handles := (fd, p, off + length buf) # filter (\<lambda>(h, _). h \<noteq> fd) (handles w)\<rparr>))
        | _ \<Rightarrow> (- 1, [], w\<lparr>disk_errno := EISDIR\<rparr>)))"

definition disk_write :: "disk_config \<Rightarrow> int \<Rightarrow> byte list \<Rightarrow> disk \<Rightarrow> int \<times> disk" where
  "disk_write k fd buf w = interrupted w (case map_of (handles w) fd of None \<Rightarrow> fail_with EBADF w
     | Some (p, off) \<Rightarrow> (case lookup w p of
          Some (File c) \<Rightarrow> (let n = min (length buf) (max 1 (chunk k)) in (int n, put p (File (c @ take n buf)) w))
        | _ \<Rightarrow> fail_with EIO w))"

definition disk_api :: "disk_config \<Rightarrow> disk file_api" where
  "disk_api k = \<lparr>fs_ndebug = True, fs_errno = disk_errno,
     qt_dirs = (\<lambda>p w. entries (\<lambda>x. x = Some Dir) (resolve k p) w @ linked k (resolve k p)),
     qt_files = (\<lambda>p w. entries is_file (resolve k p) w),
     qt_exists = (\<lambda>p w. lookup w (resolve k p) = Some Dir),
     os_unlink = disk_unlink k, os_rmdir = disk_rmdir k, os_mkdir = disk_mkdir k,
     os_open_read = disk_open_read, os_open_write = disk_open_write,
     os_fstat = (\<lambda>fd w. ((0, 4), w)),
     os_read = disk_read k, os_write = disk_write k,
     os_fsync = (\<lambda>fd w. interrupted w (0, w)),
     os_close = (\<lambda>fd w. (0, w\<lparr>handles := filter (\<lambda>(h, _). h \<noteq> fd) (handles w)\<rparr>))\<rparr>"

section \<open>It keeps the contracts\<close>

lemma map_of_filter_ne: "map_of (filter (\<lambda>(q, _). q \<noteq> p) xs) = (map_of xs)(p := None)"
  by (induction xs) (auto simp: fun_eq_iff)

lemma lookup_put [simp]: "lookup (put p x w) = (lookup w)(p \<mapsto> x)"
  by (simp add: lookup_def put_def map_of_filter_ne)

lemma lookup_del [simp]: "lookup (del p w) = (lookup w)(p := None)"
  by (simp add: lookup_def del_def map_of_filter_ne)

lemma lookup_updates [simp]:
  "lookup (w\<lparr>handles := h\<rparr>) = lookup w" "lookup (w\<lparr>pending := n\<rparr>) = lookup w" "lookup (w\<lparr>disk_errno := e\<rparr>) = lookup w"
  by (simp_all add: lookup_def)

lemma set_entries: "\<not> kind None \<Longrightarrow> set (entries kind p w) = {n. kind (lookup w (p @ [n]))}"
proof -
  assume k: "\<not> kind None"
  have dom: "kind (lookup w q) \<Longrightarrow> q \<in> fst ` set (nodes w)" for q
    using k unfolding lookup_def by (metis map_of_eq_None_iff)
  show ?thesis
  proof (rule set_eqI)
    fix n
    show "n \<in> set (entries kind p w) \<longleftrightarrow> n \<in> {n. kind (lookup w (p @ [n]))}"
    proof
      assume "n \<in> {n. kind (lookup w (p @ [n]))}"
      then have "p @ [n] \<in> set (filter (\<lambda>q. q \<noteq> [] \<and> butlast q = p \<and> kind (lookup w q)) (map fst (nodes w)))"
        using dom by simp
      then have "last (p @ [n]) \<in> set (entries kind p w)" unfolding entries_def set_remdups set_map by (rule imageI)
      then show "n \<in> set (entries kind p w)" by simp
    next
      assume "n \<in> set (entries kind p w)"
      then obtain q where "q \<noteq> []" "butlast q = p" "kind (lookup w q)" "n = last q" by (auto simp: entries_def)
      moreover from this have "p @ [n] = q" by (metis append_butlast_last_id)
      ultimately show "n \<in> {n. kind (lookup w (p @ [n]))}" by simp
    qed
  qed
qed

lemma distinct_entries [simp]: "distinct (entries kind p w)"
  by (simp add: entries_def)

lemma no_links [simp]:
  "links k = [] \<Longrightarrow> resolve k p = p" "links k = [] \<Longrightarrow> linked k p = []" "links k = [] \<Longrightarrow> \<not> is_link k p"
  "links k = [] \<Longrightarrow> resolve_parent k p = p"
  by (simp_all add: resolve_def linked_def is_link_def resolve_parent_def)

lemma fold_max_start: "a \<le> fold max xs (a :: int)"
proof (induction xs arbitrary: a)
  case (Cons x xs) show ?case using order_trans[OF max.cobounded2 Cons[of "max x a"]] by simp
qed simp

lemma fold_max_less: "\<forall>x \<in> set xs. x \<le> fold max xs (a :: int)"
proof (induction xs arbitrary: a)
  case (Cons x xs) then show ?case using Cons[of "max x a"] fold_max_start[of "max x a" xs] by simp
qed simp

lemma fresh_handle: "map_of (handles w) (fresh w) = None" "fresh w \<noteq> - 1" "fresh w > 2"
proof -
  have "fst h \<le> fold max (map fst (handles w)) 2" if "h \<in> set (handles w)" for h
    using fold_max_less[of "map fst (handles w)" 2] that by simp
  then show "map_of (handles w) (fresh w) = None" unfolding fresh_def map_of_eq_None_iff by fastforce
  show "fresh w > 2" using fold_max_start[of 2 "map fst (handles w)"] by (simp add: fresh_def)
  then show "fresh w \<noteq> - 1" by simp
qed

lemma finite_lookup: "finite {p. lookup w p \<noteq> None}"
  using finite_dom_map_of[of "nodes w"] by (simp add: lookup_def dom_def)

lemma disk_api_simps [simp]:
  "fs_ndebug (disk_api k)" "fs_errno (disk_api k) = disk_errno" "os_unlink (disk_api k) = disk_unlink k" "os_rmdir (disk_api k) = disk_rmdir k"
  "os_mkdir (disk_api k) = disk_mkdir k" "os_open_read (disk_api k) = disk_open_read" "os_open_write (disk_api k) = disk_open_write"
  "os_fstat (disk_api k) fd w = ((0, 4), w)" "os_read (disk_api k) = disk_read k" "os_write (disk_api k) = disk_write k"
  "os_fsync (disk_api k) fd w = interrupted w (0, w)"
  "os_close (disk_api k) fd w = (0, w\<lparr>handles := filter (\<lambda>(h, _). h \<noteq> fd) (handles w)\<rparr>)"
  "qt_dirs (disk_api k) p w = entries (\<lambda>x. x = Some Dir) (resolve k p) w @ linked k (resolve k p)"
  "qt_files (disk_api k) p w = entries is_file (resolve k p) w" "qt_exists (disk_api k) p w = (lookup w (resolve k p) = Some Dir)"
  by (simp_all add: disk_api_def)

definition handle_map :: "disk \<Rightarrow> int \<Rightarrow> (path \<times> nat) option" where "handle_map w = map_of (handles w)"

lemma handle_map_simps [simp]:
  "handle_map (w\<lparr>disk_errno := e\<rparr>) = handle_map w" "handle_map (w\<lparr>pending := n\<rparr>) = handle_map w"
  "handle_map (put p x w) = handle_map w" "handle_map (del p w) = handle_map w"
  "handle_map (w\<lparr>handles := (fd, h) # handles w\<rparr>) = (handle_map w)(fd \<mapsto> h)"
  "handle_map ((put p x w)\<lparr>handles := (fd, h) # handles w\<rparr>) = (handle_map w)(fd \<mapsto> h)"
  "handle_map (w\<lparr>handles := (fd, h) # filter (\<lambda>(h, _). h \<noteq> fd) (handles w)\<rparr>) = (handle_map w)(fd \<mapsto> h)"
  "handle_map (w\<lparr>handles := filter (\<lambda>(h, _). h \<noteq> fd) (handles w)\<rparr>) = (handle_map w)(fd := None)"
  "handle_map w (fresh w) = None"
  by (simp_all add: handle_map_def put_def del_def map_of_filter_ne fresh_handle)

lemma pending_simps [simp]: "pending (put p x w) = pending w" "pending (del p w) = pending w"
  by (simp_all add: put_def del_def)

lemmas disk_step_defs = disk_unlink_def disk_rmdir_def fail_with_def fails_def Let_def

lemma fresh_put [simp]: "fresh (put p x w) = fresh w" "handles (put p x w) = handles w"
  by (simp_all add: fresh_def put_def)

lemmas disk_io_defs = interrupted_def fail_with_def new_handle_def Let_def handle_map_def[symmetric]

lemma disk_directory_tree:
  assumes "links k = []"
  shows "directory_tree (disk_api k) lookup (\<lambda>p. p \<notin> set (protected k))"
proof
  fix w :: disk and w' p rc c
  show "finite {p. lookup w p \<noteq> None}" by (rule finite_lookup)
  show "distinct (qt_dirs (disk_api k) p w)" "set (qt_dirs (disk_api k) p w) = {n. lookup w (p @ [n]) = Some Dir}"
    using assms by (simp_all add: set_entries)
  show "distinct (qt_files (disk_api k) p w)" by simp
  show "set (qt_files (disk_api k) p w) = {n. \<exists>c. lookup w (p @ [n]) = Some (File c)}"
    using assms by (simp add: set_entries is_file_def) (auto split: option.splits node.splits, metis node.exhaust)
  show "rc = 0 \<and> (\<exists>c. lookup w p = Some (File c)) \<and> lookup w' = (lookup w)(p := None)
      \<or> rc = - 1 \<and> fails (disk_api k) lookup w w' \<and> (fs_errno (disk_api k) w' = ENOENT \<longrightarrow> lookup w p = None)"
    if "os_unlink (disk_api k) p w = (rc, w')"
    using that assms by (auto simp: disk_step_defs split: option.splits node.splits if_splits)
  show "fst (os_unlink (disk_api k) p w) = 0" if "p \<notin> set (protected k)" "lookup w p = Some (File c)"
    using that assms by (simp add: disk_step_defs)
  have none: "entries (\<lambda>x. x \<noteq> None) p w = [] \<longleftrightarrow> (\<forall>n. lookup w (p @ [n]) = None)"
    by (subst set_empty[symmetric], subst set_entries) auto
  show "rc = 0 \<and> lookup w p = Some Dir \<and> (\<forall>n. lookup w (p @ [n]) = None) \<and> lookup w' = (lookup w)(p := None)
      \<or> rc = - 1 \<and> fails (disk_api k) lookup w w' \<and> (fs_errno (disk_api k) w' = ENOENT \<longrightarrow> lookup w p = None)"
    if "os_rmdir (disk_api k) p w = (rc, w')"
    using that assms none by (auto simp: disk_step_defs split: option.splits node.splits if_splits)
  show "fst (os_rmdir (disk_api k) p w) = 0"
    if "p \<notin> set (protected k)" "lookup w p = Some Dir" "\<forall>n. lookup w (p @ [n]) = None"
    using that assms none by (simp add: disk_step_defs)
qed

lemma take_length_take: "take (length (take m xs)) xs = take m xs"
  by (cases "m \<le> length xs") simp_all

lemma disk_read_cases:
  assumes r: "disk_read k fd n w = (rc, buf, w')" and fd: "handle_map w fd = Some (p, off)" and n: "n > 0"
  shows "(\<exists>c. lookup w p = Some (File c) \<and> rc = int (length buf) \<and> length buf \<le> n \<and> buf = take (length buf) (drop off c)
         \<and> (buf = [] \<longrightarrow> length c \<le> off) \<and> lookup w' = lookup w \<and> handle_map w' = (handle_map w)(fd \<mapsto> (p, off + length buf)) \<and> pending w' \<le> pending w)
      \<or> rc = - 1 \<and> lookup w' = lookup w \<and> handle_map w' = handle_map w \<and> pending w' \<le> pending w
         \<and> (disk_errno w' = EINTR \<longrightarrow> pending w' < pending w) \<and> disk_errno w' \<notin> {EAGAIN, EBADF, EFAULT, EINVAL}"
proof (cases "pending w > 0")
  case True
  then show ?thesis using r by (intro disjI2) (auto simp: disk_read_def disk_io_defs)
next
  case np: False
  show ?thesis
  proof (cases "\<exists>c. lookup w p = Some (File c)")
    case True
    then obtain c where c: "lookup w p = Some (File c)" by blast
    define m where "m = min n (max 1 (chunk k))"
    have m: "0 < m" "m \<le> n" using n by (auto simp: m_def)
    have eq: "buf = take m (drop off c)" "rc = int (length buf)"
        "w' = w\<lparr>handles := (fd, p, off + length buf) # filter (\<lambda>(h, _). h \<noteq> fd) (handles w)\<rparr>"
      using r np fd c by (auto simp: disk_read_def Let_def m_def handle_map_def)
    have "buf = take (length buf) (drop off c)" unfolding eq(1) by (rule take_length_take[symmetric])
    moreover have "length buf \<le> n" "buf = [] \<longrightarrow> length c \<le> off" using m by (auto simp: eq(1))
    ultimately show ?thesis using c eq(2,3) by (intro disjI1 exI[of _ c]) simp
  next
    case False
    then have "rc = - 1 \<and> w' = w\<lparr>disk_errno := EISDIR\<rparr>"
      using r np fd by (auto simp: disk_read_def handle_map_def split: option.splits node.splits)
    then show ?thesis by simp
  qed
qed

lemma disk_file_tree:
  assumes "links k = []"
  shows "file_tree (disk_api k) lookup (\<lambda>p. p \<notin> set (protected k)) handle_map pending"
proof (intro file_tree.intro file_tree_axioms.intro disk_directory_tree assms)
  fix w :: disk and w' p rc fd excl n buf off c blksize
  note fresh = fresh_handle(2)[of w]
  show "fd \<noteq> - 1 \<and> handle_map w fd = None \<and> lookup w p \<noteq> None \<and> lookup w' = lookup w
        \<and> handle_map w' = (handle_map w)(fd \<mapsto> (p, 0)) \<and> pending w' \<le> pending w
      \<or> fd = - 1 \<and> lookup w' = lookup w \<and> handle_map w' = handle_map w \<and> pending w' \<le> pending w
        \<and> (fs_errno (disk_api k) w' = EINTR \<longrightarrow> pending w' < pending w)"
    if "os_open_read (disk_api k) p w = (fd, w')"
    using that fresh by (auto simp: disk_open_read_def disk_io_defs split: if_splits)
  show "fd \<noteq> - 1 \<and> handle_map w fd = None \<and> lookup w p \<noteq> Some Dir \<and> (excl \<longrightarrow> lookup w p = None)
        \<and> lookup w' = (lookup w)(p \<mapsto> File []) \<and> handle_map w' = (handle_map w)(fd \<mapsto> (p, 0)) \<and> pending w' \<le> pending w
      \<or> fd = - 1 \<and> lookup w' = lookup w \<and> handle_map w' = handle_map w \<and> pending w' \<le> pending w
        \<and> (fs_errno (disk_api k) w' = EINTR \<longrightarrow> pending w' < pending w)"
    if "os_open_write (disk_api k) p excl w = (fd, w')"
    using that fresh by (auto simp: disk_open_write_def disk_io_defs split: if_splits)
  show "lookup w' = lookup w \<and> handle_map w' = handle_map w \<and> pending w' \<le> pending w
        \<and> (rc = 0 \<and> blksize > 0 \<or> rc = - 1 \<and> fs_errno (disk_api k) w' \<noteq> EINTR)"
    if "os_fstat (disk_api k) fd w = ((rc, blksize), w')" "handle_map w fd \<noteq> None"
    using that by simp
  show "(\<exists>c. lookup w p = Some (File c) \<and> rc = int (length buf) \<and> length buf \<le> n \<and> buf = take (length buf) (drop off c)
         \<and> (buf = [] \<longrightarrow> length c \<le> off) \<and> lookup w' = lookup w \<and> handle_map w' = (handle_map w)(fd \<mapsto> (p, off + length buf)) \<and> pending w' \<le> pending w)
      \<or> rc = - 1 \<and> lookup w' = lookup w \<and> handle_map w' = handle_map w \<and> pending w' \<le> pending w
         \<and> (fs_errno (disk_api k) w' = EINTR \<longrightarrow> pending w' < pending w) \<and> fs_errno (disk_api k) w' \<notin> {EAGAIN, EBADF, EFAULT, EINVAL}"
    if "os_read (disk_api k) fd n w = (rc, buf, w')" "handle_map w fd = Some (p, off)" "n > 0"
    using disk_read_cases[OF that(1)[simplified] that(2,3)] by simp
  show "0 \<le> rc \<and> rc \<le> int (length buf) \<and> lookup w' = (lookup w)(p \<mapsto> File (c @ take (nat rc) buf)) \<and> handle_map w' = handle_map w \<and> pending w' \<le> pending w
      \<or> rc = - 1 \<and> lookup w' = lookup w \<and> handle_map w' = handle_map w \<and> pending w' \<le> pending w
         \<and> (fs_errno (disk_api k) w' = EINTR \<longrightarrow> pending w' < pending w) \<and> fs_errno (disk_api k) w' \<notin> {EAGAIN, EBADF}"
    if "os_write (disk_api k) fd buf w = (rc, w')" "handle_map w fd = Some (p, off)" "lookup w p = Some (File c)" "buf \<noteq> []"
    using that by (auto simp: disk_write_def disk_io_defs split: if_splits)
  show "lookup w' = lookup w \<and> handle_map w' = handle_map w \<and> pending w' \<le> pending w
        \<and> (rc = 0 \<or> rc = - 1 \<and> (fs_errno (disk_api k) w' = EINTR \<longrightarrow> pending w' < pending w))"
    if "os_fsync (disk_api k) fd w = (rc, w')" "handle_map w fd \<noteq> None"
    using that by (auto simp: disk_io_defs split: if_splits)
  show "lookup w' = lookup w \<and> handle_map w' = (handle_map w)(fd := None) \<and> pending w' \<le> pending w
        \<and> (rc = 0 \<or> rc = - 1 \<and> fs_errno (disk_api k) w' \<noteq> EBADF)"
    if "os_close (disk_api k) fd w = (rc, w')" "handle_map w fd \<noteq> None"
    using that by auto
qed


interpretation plain_disk: file_tree "disk_api \<lparr>protected = P, links = [], chunk = n, depth = m\<rparr>" lookup "\<lambda>p. p \<notin> set P" handle_map pending
  for P n m
  using disk_file_tree[of "\<lparr>protected = P, links = [], chunk = n, depth = m\<rparr>"] by simp

lemma closed_disk:
  assumes "list_all (\<lambda>q. length q \<le> 1 \<or> lookup w (butlast q) = Some Dir) (map fst (nodes w))"
  shows "closed (lookup w)"
  unfolding closed_def
proof (intro allI impI)
  fix p n assume p: "lookup w (p @ [n]) \<noteq> None \<and> p \<noteq> []"
  then have "p @ [n] \<in> fst ` set (nodes w)" unfolding lookup_def by (metis map_of_eq_None_iff)
  then have "length (p @ [n]) \<le> 1 \<or> lookup w (butlast (p @ [n])) = Some Dir" using assms by (fastforce simp: list_all_iff)
  then show "lookup w p = Some Dir" using p by simp
qed

section \<open>Evaluation\<close>

lemma fs_retry_eval:
  "f w = (rc, w') \<Longrightarrow> rc \<noteq> - 1 \<or> fs_errno api w' \<noteq> EINTR \<Longrightarrow> fs_retry api f w = Some (Ret rc w')"
  "f w = (- 1, w') \<Longrightarrow> fs_errno api w' = EINTR \<Longrightarrow> fs_retry api f w = fs_retry api f w'"
  by (auto simp: fs_retry_def call_blocking_def TEMP_FAILURE_RETRY.simps[of _ _ w])

lemma read_retry_eval:
  "os_read api fd n w = (rc, buf, w') \<Longrightarrow> rc \<noteq> - 1 \<or> fs_errno api w' \<noteq> EINTR \<Longrightarrow> read_retry api fd n w = Some (Ret (rc, buf) w')"
  "os_read api fd n w = (- 1, [], w') \<Longrightarrow> fs_errno api w' = EINTR \<Longrightarrow> read_retry api fd n w = read_retry api fd n w'"
  by (auto simp: read_retry_def call_blocking_def TEMP_FAILURE_RETRY.simps[of _ _ "([], w)"])

lemma write_all_eval:
  "fs_retry api (os_write api fd rest) w = Some (Ret n w') \<Longrightarrow> 0 < n \<Longrightarrow> n = int (length rest) \<Longrightarrow> write_all api fd rest w = Some (Ret () w')"
  "fs_retry api (os_write api fd rest) w = Some (Ret n w') \<Longrightarrow> 0 < n \<Longrightarrow> n < int (length rest) \<Longrightarrow> write_all api fd rest w = write_all api fd (drop (nat n) rest) w'"
  by (subst write_all.simps; simp)+

lemma copy_loop_eval:
  "read_retry api src n w = Some (Ret (0, buf) w') \<Longrightarrow> copy_loop api src dst n w = Some (Ret () w')"
  "read_retry api src n w = Some (Ret (rc, buf) w') \<Longrightarrow> rc > 0 \<Longrightarrow> write_all api dst buf w' = Some (Ret () w'')
    \<Longrightarrow> copy_loop api src dst n w = copy_loop api src dst n w''"
  by (subst copy_loop.simps; simp)+

lemma weak_congs:
  "m = m' \<Longrightarrow> bind m k = bind m' k" "m = m' \<Longrightarrow> catch m h = catch m' h" "m = m' \<Longrightarrow> scoped m d = scoped m' d"
  by simp_all

lemma scoped_run:
  "body s = Some (Ret a s1) \<Longrightarrow> dtor s1 = Some (Ret () s2) \<Longrightarrow> scoped body dtor s = Some (Ret a s2)"
  "body s = Some (Exc e s1) \<Longrightarrow> dtor s1 = Some (Ret () s2) \<Longrightarrow> scoped body dtor s = Some (Exc e s2)"
  by (simp_all add: scoped_def)

lemmas file_evals = fs_retry_eval read_retry_eval write_all_eval copy_loop_eval CopyFile_def copy_from_def copy_opened_def close_quietly_def scoped_run
  IsValidPath_def disk_open_read_def disk_open_write_def disk_read_def disk_write_def interrupted_def fail_with_def new_handle_def fresh_def
  lookup_def put_def

lemma walk_eval:
  "walk ents [] = Some []"
  "walk ents (p # ps) = Option.bind (walk ents (ps @ map (\<lambda>name. p @ [name]) (ents p))) (\<lambda>rest. Some (p # rest))"
  by (subst walk.simps; simp)+

lemma copy_queue_eval:
  "copy_queue api fail [] acc w = Some (Ret acc w)"
  "qt_exists api s w \<Longrightarrow> copy_directory api fail s d acc w = Some (Ret acc' w') \<Longrightarrow>
     copy_queue api fail ((s, d) # rest) acc w = copy_queue api fail (rest @ map (\<lambda>name. (s @ [name], d @ [name])) (qt_dirs api s w')) acc' w'"
  "\<not> qt_exists api s w \<Longrightarrow>
     copy_queue api fail ((s, d) # rest) acc w = copy_queue api fail rest (False, errc_MakeErrorCode errc_no_such_file_or_directory) w"
  by (subst copy_queue.simps; simp)+

lemma MakeDirectory_eval:
  assumes "IsValidPath p True" "os_mkdir api p w = (rc, w')" "rc \<noteq> 0 \<Longrightarrow> fs_errno api w' \<noteq> EINTR"
  shows "MakeDirectory api p failIfExists w = Some (if rc = 0 \<or> \<not> failIfExists \<and> fs_errno api w' = EEXIST then Ret () w'
     else Exc (FilesystemExc (mk_code (fs_errno api w') SystemCategory)) w')"
  using assms by (cases "rc = 0") (auto simp: MakeDirectory_def fs_error_def)

lemma with_error_code_eval:
  "m w = Some (Ret u w') \<Longrightarrow> with_error_code m w = Some (Ret (True, ErrorCode_default) w')"
  "m w = Some (Exc e w') \<Longrightarrow> with_error_code m w = Some (Ret (False, code_of_exception e) w')"
  by (simp_all add: with_error_code_def)

lemmas tree_evals = walk_eval RemoveDirectoryRecursively_def DeleteFile_eval RemoveDirectory_eval disk_unlink_def disk_rmdir_def
  is_link_def resolve_parent_def resolve_def linked_def entries_def is_file_def del_def removal_code_def IsValidPath_def lookup_def fail_with_def Let_def
  copy_queue_eval copy_directory_def MakeDirectory_eval CopyDirectoryRecursively_def MakePath_def with_error_code_eval disk_mkdir_def put_def

end
