(* ===== verification/FileProperties.thy ===== *)
theory FileProperties
imports Disks
begin

text \<open>
  What \<open>RemoveDirectoryRecursively\<close>, \<open>CopyFile\<close> and \<open>CopyDirectoryRecursively\<close> do: under the contract of the file
  system, and evaluated where the contract ends (symbolic links) or the result is not what a caller expects.
\<close>

section \<open>Removing and copying\<close>


definition sample_disk :: disk where
  "sample_disk = \<lparr>nodes = [([''home''], Dir), ([''home'', ''a''], Dir), ([''home'', ''a'', ''b''], Dir),
      ([''home'', ''a'', ''f''], File [1, 2, 3, 4, 5, 6, 7]), ([''home'', ''a'', ''b'', ''g''], File [9]), ([''home'', ''keep''], File [8]), ([''home'', ''z''], Dir)],
     handles = [], pending = 3, disk_errno = 0\<rparr>"

lemma closed_sample: "closed (lookup sample_disk)"
  by (rule closed_disk) (simp add: sample_disk_def lookup_def)


text \<open>C16: \<open>CopyFile\<close> always returns, also when calls are interrupted or transfer only a part; the descriptors it opened are
  closed on every exit.  When it returns normally the destination holds the content of the source and, with
  \<open>failIfExists\<close>, did not exist; when it throws, either nothing changed or the destination holds a beginning of
  the source.  Nothing else changes.\<close>

theorem CopyFile_copies:
  assumes "file_tree api tree permits fds signals" "IsValidPath srcFileName True" "IsValidPath dstFileName True" "srcFileName \<noteq> dstFileName"
  shows "\<exists>w'. fds w' = fds w \<and>
    (CopyFile api srcFileName dstFileName failIfExists w = Some (Ret () w') \<and> (failIfExists \<longrightarrow> tree w dstFileName = None)
       \<and> (\<exists>c. tree w srcFileName = Some (File c) \<and> tree w' = (tree w)(dstFileName \<mapsto> File c))
     \<or> (\<exists>e. CopyFile api srcFileName dstFileName failIfExists w = Some (Exc e w'))
       \<and> (tree w' = tree w \<or> (failIfExists \<longrightarrow> tree w dstFileName = None)
          \<and> (\<exists>c k. tree w' = (tree w)(dstFileName \<mapsto> File (take k c)) \<and> (\<forall>c'. tree w srcFileName = Some (File c') \<longrightarrow> c' = c))))"
  using file_tree.CopyFile_outcome[OF assms(1-3), of failIfExists w] assms(4)
  unfolding file_tree.copies_def[OF assms(1)] by (simp only: if_True if_False simp_thms) blast

definition plain_config :: disk_config where
  "plain_config = \<lparr>protected = [], links = [], chunk = 2, depth = 9\<rparr>"

text \<open>Three signals, and two bytes at a time.\<close>

lemma CopyFile_sample:
  "\<exists>w'. CopyFile (disk_api plain_config) [''home'', ''a'', ''f''] [''home'', ''new''] False sample_disk = Some (Ret () w')
   \<and> lookup w' [''home'', ''new''] = Some (File [1, 2, 3, 4, 5, 6, 7])"
  by (simp add: file_evals sample_disk_def plain_config_def cong: weak_congs)

lemma CopyFile_copies_witness:
  "\<exists>w'. lookup w' [''home'', ''new''] = Some (File [1, 2, 3, 4, 5, 6, 7]) \<and> handle_map w' = handle_map sample_disk
    \<and> CopyFile (disk_api plain_config) [''home'', ''a'', ''f''] [''home'', ''new''] False sample_disk = Some (Ret () w')"
proof -
  have v: "IsValidPath [''home'', ''a'', ''f''] True" "IsValidPath [''home'', ''new''] True" "[''home'', ''a'', ''f''] \<noteq> [''home'', ''new'']"
    by (simp_all add: IsValidPath_def)
  show ?thesis
    using CopyFile_copies[OF plain_disk.file_tree_axioms[of "[]" 2 9, folded plain_config_def] v, of sample_disk False] CopyFile_sample by auto
qed

text \<open>Copying a file onto itself without \<open>failIfExists\<close> loses it: the destination is opened with \<open>O_TRUNC\<close> before
  anything is read, so whenever the call returns normally the file is empty; when it throws, the file is
  as it was or empty.\<close>

theorem CopyFile_onto_itself:
  assumes "file_tree api tree permits fds signals" "IsValidPath fileName True"
  shows "\<exists>w'. fds w' = fds w \<and>
    (CopyFile api fileName fileName False w = Some (Ret () w') \<and> tree w' = (tree w)(fileName \<mapsto> File [])
     \<or> (\<exists>e. CopyFile api fileName fileName False w = Some (Exc e w')) \<and> (tree w' = tree w \<or> tree w' = (tree w)(fileName \<mapsto> File [])))"
  using file_tree.CopyFile_outcome[OF assms(1,2,2), of False w] unfolding file_tree.copies_def[OF assms(1)] by auto

lemma CopyFile_onto_itself_sample:
  "\<exists>w'. CopyFile (disk_api plain_config) [''home'', ''keep''] [''home'', ''keep''] False sample_disk = Some (Ret () w')"
  by (simp add: file_evals sample_disk_def plain_config_def cong: weak_congs)

lemma CopyFile_onto_itself_witness:
  "\<exists>w'. CopyFile (disk_api plain_config) [''home'', ''keep''] [''home'', ''keep''] False sample_disk = Some (Ret () w')
    \<and> lookup sample_disk [''home'', ''keep''] = Some (File [8]) \<and> lookup w' [''home'', ''keep''] = Some (File [])"
proof -
  have "IsValidPath [''home'', ''keep''] True" "lookup sample_disk [''home'', ''keep''] = Some (File [8])"
    by (simp_all add: IsValidPath_def sample_disk_def lookup_def)
  then show ?thesis
    using CopyFile_onto_itself[OF plain_disk.file_tree_axioms[of "[]" 2 9, folded plain_config_def], of "[''home'', ''keep'']" sample_disk]
      CopyFile_onto_itself_sample by auto
qed

section \<open>What the callers may not expect\<close>

text \<open>A symbolic link to a directory is traversed: the files of the directory it points to are deleted although the
  directory lies elsewhere, and the link itself cannot be removed.\<close>

lemma RemoveDirectoryRecursively_follows_links:
  "\<exists>e w'. RemoveDirectoryRecursively (disk_api (plain_config\<lparr>links := [([''a'', ''l''], [''z''])]\<rparr>)) [''a''] True
     \<lparr>nodes = [([''a''], Dir), ([''z''], Dir), ([''z'', ''f''], File [1])], handles = [], pending = 0, disk_errno = 0\<rparr> = Some (Ret (False, e) w')
   \<and> nodes w' = [([''a''], Dir), ([''z''], Dir)]"
  by (simp add: tree_evals plain_config_def cong: weak_congs)

text \<open>\<open>MakeDirectory\<close> without \<open>failIfExists\<close> succeeds when a file has the name, and there is no directory then.\<close>

lemma MakeDirectory_over_a_file:
  assumes "IsValidPath p True" "lookup w p = Some (File c)"
  shows "MakeDirectory (disk_api k) p False w = Some (Ret () (w\<lparr>disk_errno := EEXIST\<rparr>))"
  using MakeDirectory_eval[OF assms(1), of "disk_api k" w "- 1" "w\<lparr>disk_errno := EEXIST\<rparr>" False] assms(2)
  by (simp add: disk_mkdir_def fail_with_def)

text \<open>The name of a file may contain a backslash on Unix; such a file is never deleted.\<close>

lemma DeleteFile_backslash:
  "CHR 0x5C \<in> set name \<Longrightarrow> DeleteFile api (path @ [name]) failIfNotExists w = Some (Exc InvalidArgument w)"
  by (simp add: DeleteFile_def IsValidPath_def)

section \<open>Copying a directory into itself\<close>

text \<open>A directory with a chain of subdirectories, each in the one before.\<close>

definition nest :: "string list \<Rightarrow> string \<Rightarrow> nat \<Rightarrow> path" where
  "nest p b j = p @ replicate j b"

definition chain :: "string \<Rightarrow> string \<Rightarrow> nat \<Rightarrow> path \<Rightarrow> node option" where
  "chain a b i p = (if \<exists>j \<le> i. p = nest [a] b j then Some Dir else None)"

lemma nest_simps: "nest p b j @ [b] = nest p b (Suc j)" "nest [a] b i = nest [a] b j \<longleftrightarrow> i = j" "length (nest [a] b j) = Suc j" "nest [a] b j \<noteq> []"
  "butlast (nest [a] b (Suc j)) = nest [a] b j"
  by (auto simp: nest_def replicate_append_same simp flip: replicate_append_same dest: arg_cong[of _ _ length])

lemma chain_below: "chain a b i (nest [a] b j @ [n]) = Some Dir \<longleftrightarrow> n = b \<and> j < i"
proof
  assume "chain a b i (nest [a] b j @ [n]) = Some Dir"
  then obtain l where l: "l \<le> i" "nest [a] b j @ [n] = nest [a] b l" by (auto simp: chain_def split: if_splits)
  have "length (nest [a] b j @ [n]) = length (nest [a] b l)" by (simp only: l(2))
  then have "l = Suc j" by (simp add: nest_def)
  then show "n = b \<and> j < i" using l by (simp add: nest_simps(1)[symmetric])
next
  assume "n = b \<and> j < i"
  then have "Suc j \<le> i" "nest [a] b j @ [n] = nest [a] b (Suc j)" by (simp_all add: nest_simps(1))
  then show "chain a b i (nest [a] b j @ [n]) = Some Dir" by (auto simp: chain_def)
qed

lemma distinct_single: "distinct xs \<Longrightarrow> set xs = {b} \<Longrightarrow> xs = [b]"
proof (cases xs)
  case (Cons x ys)
  assume "distinct xs" "set xs = {b}"
  then have "x = b" "set ys \<subseteq> {b}" "b \<notin> set ys" using Cons by auto
  then show ?thesis using Cons by (cases ys) auto
qed simp

lemma entries_chain:
  assumes "lookup w = chain a b i"
  shows "entries (\<lambda>x. x = Some Dir) (nest [a] b j) w = (if j < i then [b] else [])" "entries is_file (nest [a] b j) w = []"
proof -
  have "set (entries (\<lambda>x. x = Some Dir) (nest [a] b j) w) = {n. n = b \<and> j < i}"
    by (subst set_entries) (simp_all add: assms chain_below)
  moreover have "distinct (entries (\<lambda>x. x = Some Dir) (nest [a] b j) w)" by simp
  ultimately show "entries (\<lambda>x. x = Some Dir) (nest [a] b j) w = (if j < i then [b] else [])"
    using distinct_single[of "entries (\<lambda>x. x = Some Dir) (nest [a] b j) w" b] by (cases "j < i") simp_all
  have "\<not> is_file (lookup w q)" for q by (simp add: assms chain_def is_file_def)
  then show "entries is_file (nest [a] b j) w = []" by (simp add: entries_def)
qed

lemma chain_grows: "(chain a b i)(nest [a] b (Suc i) \<mapsto> Dir) = chain a b (Suc i)"
  by (auto simp: chain_def fun_eq_iff le_Suc_eq)

lemma IsValidPath_nest: "CHR 0x5C \<notin> set a \<Longrightarrow> CHR 0x5C \<notin> set b \<Longrightarrow> IsValidPath (nest [a] b j) True"
  by (auto simp: IsValidPath_def nest_def)

lemma copy_chain:
  assumes "lookup w = chain a b i" "links k = []" "i < depth k" "CHR 0x5C \<notin> set a" "CHR 0x5C \<notin> set b"
  shows "\<exists>e w'. copy_queue (disk_api k) fail [(nest [a] b i, nest [a] b (Suc i))] acc w = Some (Ret (False, e) w')
    \<and> lookup w' = chain a b (depth k - 1)"
  using assms(1,3)
proof (induction "depth k - i" arbitrary: i acc w rule: less_induct)
  case less
  note v = IsValidPath_nest[OF assms(4,5)]
  have ex: "qt_exists (disk_api k) (nest [a] b i) w" using less.prems assms(2) by (auto simp: chain_def)
  have new: "lookup w (nest [a] b (Suc i)) = None" "lookup w (nest [a] b i) = Some Dir" using less.prems by (auto simp: chain_def nest_simps)
  have files: "qt_files (disk_api k) (nest [a] b i) v = []" if "lookup v = chain a b j" for v j
    using entries_chain(2)[OF that] assms(2) by simp
  show ?case
  proof (cases "Suc i < depth k")
    case True
    let ?w = "put (nest [a] b (Suc i)) Dir w"
    have "os_mkdir (disk_api k) (nest [a] b (Suc i)) w = (0, ?w)" using new True by (simp add: disk_mkdir_def nest_simps)
    then have "MakeDirectory (disk_api k) (nest [a] b (Suc i)) False w = Some (Ret () ?w)"
      using MakeDirectory_eval[OF v] by fastforce
    moreover have l: "lookup ?w = chain a b (Suc i)" using less.prems(1) chain_grows by simp
    ultimately have "copy_directory (disk_api k) fail (nest [a] b i) (nest [a] b (Suc i)) acc w = Some (Ret acc ?w)"
      using files by (simp add: copy_directory_def with_error_code_eval)
    then have "copy_queue (disk_api k) fail [(nest [a] b i, nest [a] b (Suc i))] acc w
        = copy_queue (disk_api k) fail [(nest [a] b (Suc i), nest [a] b (Suc (Suc i)))] acc ?w"
      using copy_queue_eval(2)[OF ex, of fail "nest [a] b (Suc i)" acc acc ?w "[]"] entries_chain(1)[OF l, of i] assms(2)
      by (simp add: nest_simps(1))
    then show ?thesis using less.hyps[of "Suc i" ?w acc] l True by simp
  next
    case False
    let ?w = "w\<lparr>disk_errno := ENAMETOOLONG\<rparr>" and ?e = "mk_code ENAMETOOLONG SystemCategory"
    have "os_mkdir (disk_api k) (nest [a] b (Suc i)) w = (- 1, ?w)" using new False by (simp add: disk_mkdir_def nest_simps fail_with_def)
    then have "MakeDirectory (disk_api k) (nest [a] b (Suc i)) False w = Some (Exc (FilesystemExc ?e) ?w)"
      using MakeDirectory_eval[OF v] by fastforce
    moreover have l: "lookup ?w = chain a b i" using less.prems(1) by simp
    ultimately have "copy_directory (disk_api k) fail (nest [a] b i) (nest [a] b (Suc i)) acc w = Some (Ret (False, ?e) ?w)"
      using files[OF l] by (simp add: copy_directory_def with_error_code_eval)
    then have "copy_queue (disk_api k) fail [(nest [a] b i, nest [a] b (Suc i))] acc w = Some (Ret (False, ?e) ?w)"
      using copy_queue_eval(2)[OF ex, of fail "nest [a] b (Suc i)" acc "(False, ?e)" ?w "[]"] entries_chain(1)[OF l, of i] assms(2)
      by (simp add: copy_queue_eval(1))
    moreover have "depth k - 1 = i" using False less.prems(2) by simp
    ultimately show ?thesis using l by simp
  qed
qed

text \<open>Copying a directory into a new subdirectory of itself copies the copy as well, level below level: the loop ends
  only when the file system refuses a path that is too long, and leaves directories nested to that limit.\<close>

theorem CopyDirectoryRecursively_into_itself:
  assumes "CHR 0x5C \<notin> set a" "CHR 0x5C \<notin> set b" "limit \<ge> 2"
  shows "\<exists>e w'. CopyDirectoryRecursively (disk_api \<lparr>protected = P, links = [], chunk = n, depth = limit\<rparr>) [a] [a, b] True fail
      \<lparr>nodes = [([a], Dir)], handles = [], pending = s, disk_errno = 0\<rparr> = Some (Ret (False, e) w')
    \<and> (\<forall>j < limit. lookup w' (a # replicate j b) = Some Dir)"
proof -
  let ?k = "\<lparr>protected = P, links = [], chunk = n, depth = limit\<rparr>" and ?w = "\<lparr>nodes = [([a], Dir)], handles = [], pending = s, disk_errno = 0\<rparr>"
  have v: "IsValidPath [a] True" "IsValidPath [a, b] True" using assms by (auto simp: IsValidPath_def)
  let ?w1 = "?w\<lparr>disk_errno := EEXIST\<rparr>"
  let ?w2 = "put [a, b] Dir ?w1"
  have l1: "lookup ?w1 [a] = Some Dir" "lookup ?w1 [a, b] = None" by (simp_all add: lookup_def)
  have "MakeDirectory (disk_api ?k) [a] False ?w = Some (Ret () ?w1)"
    by (subst MakeDirectory_eval[OF v(1), of _ _ "- 1" ?w1]) (simp_all add: disk_mkdir_def fail_with_def lookup_def)
  moreover have mk: "MakeDirectory (disk_api ?k) [a, b] True ?w1 = Some (Ret () ?w2)"
    by (subst MakeDirectory_eval[OF v(2), of _ _ 0 ?w2]) (use assms(3) l1 in \<open>simp_all add: disk_mkdir_def\<close>)
  ultimately have "MakePath (disk_api ?k) [a, b] True ?w = Some (Ret () ?w2)"
    using v(2) by (simp add: MakePath_def)
  moreover have l: "lookup ?w2 = chain a b (Suc 0)"
    unfolding chain_grows[symmetric] by (auto simp: chain_def nest_def lookup_def put_def fun_eq_iff)
  ultimately have "CopyDirectoryRecursively (disk_api ?k) [a] [a, b] True fail ?w = copy_queue (disk_api ?k) fail [([a], [a, b])] (True, ErrorCode_default) ?w2"
    using v by (simp add: CopyDirectoryRecursively_def with_error_code_eval)
  moreover obtain acc w3 where "copy_queue (disk_api ?k) fail [([a], [a, b])] (True, ErrorCode_default) ?w2
      = copy_queue (disk_api ?k) fail [(nest [a] b 1, nest [a] b 2)] acc w3" "lookup w3 = chain a b 1"
  proof -
    let ?w3 = "?w2\<lparr>disk_errno := EEXIST\<rparr>"
    have l3: "lookup ?w3 = chain a b (Suc 0)" using l by simp
    have "MakeDirectory (disk_api ?k) [a, b] False ?w2 = Some (Ret () ?w3)"
      by (subst MakeDirectory_eval[OF v(2), of _ _ "- 1" ?w3]) (simp_all add: disk_mkdir_def fail_with_def)
    then have "copy_directory (disk_api ?k) fail [a] [a, b] (True, ErrorCode_default) ?w2 = Some (Ret (True, ErrorCode_default) ?w3)"
      using entries_chain(2)[OF l3, of 0] by (simp add: copy_directory_def with_error_code_eval nest_def)
    moreover have "qt_exists (disk_api ?k) [a] ?w2" using l by (simp add: chain_def nest_def)
    ultimately show thesis
      using copy_queue_eval(2)[of "disk_api ?k" "[a]" ?w2 fail "[a, b]" "(True, ErrorCode_default)" "(True, ErrorCode_default)" ?w3 "[]"]
        entries_chain(1)[OF l3, of 0] that[of "(True, ErrorCode_default)" ?w3] l3 by (simp add: nest_def numeral_2_eq_2)
  qed
  moreover obtain e w' where "copy_queue (disk_api ?k) fail [(nest [a] b 1, nest [a] b 2)] acc w3 = Some (Ret (False, e) w')"
      "lookup w' = chain a b (limit - 1)"
    using copy_chain[of w3 a b 1 ?k fail acc] \<open>lookup w3 = chain a b 1\<close> assms by (auto simp: numeral_2_eq_2)
  moreover have "chain a b (limit - 1) (a # replicate j b) = Some Dir" if "j < limit" for j
    using that by (auto simp: chain_def nest_def intro!: exI[of _ j])
  ultimately show ?thesis by auto
qed

lemma CopyDirectoryRecursively_into_itself_witness:
  "\<exists>e w'. CopyDirectoryRecursively (disk_api \<lparr>protected = [], links = [], chunk = 1, depth = 64\<rparr>) [''src''] [''src'', ''backup''] True True
      \<lparr>nodes = [([''src''], Dir)], handles = [], pending = 0, disk_errno = 0\<rparr> = Some (Ret (False, e) w')
    \<and> lookup w' (''src'' # replicate 63 ''backup'') = Some Dir"
proof -
  have "CHR 0x5C \<notin> set ''src''" "CHR 0x5C \<notin> set ''backup''" "(2 :: nat) \<le> 64" "(63 :: nat) < 64" by simp_all
  then show ?thesis using CopyDirectoryRecursively_into_itself[of "''src''" "''backup''" 64 "[]" 1 True 0] by metis
qed

end
