(* ===== verification/LanguageRuns.thy ===== *)
theory LanguageRuns
imports Languages "HOL-Library.List_Lexorder"
begin

text \<open>
  Translation files that compute, on which what Qt promises holds, and the properties of languages and translators.
\<close>

section \<open>Files\<close>

definition native_key :: "language_info \<Rightarrow> nat list" where
  "native_key info = map of_char (li_nativeName info)"

lemma qstring_less_key: "qstring_less a b = ((map of_char a :: nat list) < map of_char b)"
  by (induction a b rule: qstring_less.induct) (auto simp: Cons_less_Cons)

lemma li_less_key: "li_less a b = (native_key a < native_key b)"
  by (simp add: li_less_def native_key_def qstring_less_key)

text \<open>\<open>files\<close> gives the names of the locales that have a file and their native names; \<open>pt\<close> stands for \<open>pt_BR\<close>.\<close>

definition sample_lang :: "bool \<Rightarrow> (string \<times> string) list \<Rightarrow> lang_api" where
  "sample_lang ndebug files = \<lparr>la_ndebug = ndebug,
     qlocale = (\<lambda>n. if n = [] then CName else if n = ''en'' then GetCodeName else if n = ''pt'' then ''pt_BR'' else n),
     system_locale = ''ro_RO'', register_meta_type = True,
     qm_entries = (\<lambda>path prefix. map (\<lambda>(n, _). prefix @ n @ ''.qm'') files), tr_load = (\<lambda>file dir. True),
     tr_native = (\<lambda>file path. case List.find (\<lambda>(n, _). file = ''app_'' @ n) files of None \<Rightarrow> ''Other'' | Some (_, native) \<Rightarrow> native),
     qt_qm_dir = ''/qt'', qt_sort = (\<lambda>_. sort_key native_key)\<rparr>"

interpretation sample_lang: qt_languages "sample_lang ndebug files" for ndebug files
proof
  have "sorted_wrt (\<lambda>a b. native_key a \<le> native_key b) (sort_key native_key infos)" for infos
    using sorted_sort_key[of native_key infos] by (simp add: sorted_wrt_map)
  then show "sorted_wrt (\<lambda>a b. \<not> li_less b a) (qt_sort (sample_lang ndebug files) li_less infos)" for infos
    by (simp add: sample_lang_def li_less_key not_less)
qed (simp_all add: sample_lang_def GetCodeName_def)

lemma sample_lang_simps [simp]:
  "la_ndebug (sample_lang nd fs) = nd" "qlocale (sample_lang nd fs) n = (if n = [] then CName else if n = ''en'' then GetCodeName else if n = ''pt'' then ''pt_BR'' else n)"
  "system_locale (sample_lang nd fs) = ''ro_RO''" "qm_entries (sample_lang nd fs) path prefix = map (\<lambda>(n, _). prefix @ n @ ''.qm'') fs"
  "tr_load (sample_lang nd fs) file dir"
  "tr_native (sample_lang nd fs) file path = (case List.find (\<lambda>(n, _). file = ''app_'' @ n) fs of None \<Rightarrow> ''Other'' | Some (_, native) \<Rightarrow> native)"
  "qt_qm_dir (sample_lang nd fs) = ''/qt''" "qt_sort (sample_lang nd fs) lt = sort_key native_key"
  by (simp_all add: sample_lang_def)

section \<open>Properties\<close>

text \<open>C24: In every state that an application reaches, whichever calls throw and whichever files are missing, the installed
  translators are exactly those that could be loaded, in a fixed order, each from the file of the current language, and none
  when it is the language of the code.\<close>

theorem translators_match_language:
  assumes "qt_languages api" "lang_run api gui us s"
  shows "installed s = (if li_name (currentLanguageInfo s) = GetCodeName then [] else filter (\<lambda>t. loaded s t \<noteq> None) (translators gui))
    \<and> (\<forall>t \<in> set (installed s). loaded s t = Some (qm_file api t (li_name (currentLanguageInfo s))))"
  using qt_languages.lang_run_inv[OF assms] by (simp add: qt_languages.lang_inv_def[OF assms(1)])

text \<open>The constructor of an application never fails the argument checks of \<open>SetCurrentLanguageInfo\<close>: it sets the default
  language, which is supported, or throws because of a file and changes nothing, or fails an assertion in a debug build.\<close>

theorem application_sets_default_language:
  assumes "qt_languages api" "lang_run api gui us s"
  shows "(\<exists>s'. Application_ctor api gui (w, s) = Some (Ret () (w, s')) \<and> currentLanguageInfo s' = default_of api s
        \<and> currentLanguageInfo s' \<in> set (infos_of api s))
    \<or> Application_ctor api gui (w, s) = Some (Exc RuntimeError (w, s))
    \<or> \<not> la_ndebug api \<and> (\<exists>st. Application_ctor api gui (w, s) = Some (Term st))"
  using qt_languages.ctor_outcome[OF assms(1) qt_languages.lang_run_inv[OF assms], of w] qt_languages.default_supported[OF assms(1), of s]
  by (auto simp: qt_languages.aborts_def[OF assms(1)])


section \<open>Witnesses\<close>

abbreviation "romanian \<equiv> \<lparr>li_name = ''ro_RO'', li_nativeName = ''Romana''\<rparr>"

definition with_files :: lang_app where
  "with_files = first_lang_app\<lparr>qmPath := ''/qm'', qmNamePrefix := ''app_''\<rparr>"

definition in_romanian :: lang_app where
  "in_romanian = with_files\<lparr>currentLanguageInfo := romanian, installed := [Util_Translator, Base_Translator, Qt_Translator],
     loaded := (\<lambda>_. None)(Qt_Translator := Some (''qtbase_ro_RO'', ''/qt''), Base_Translator := Some (''tr_ro_RO'', '':/cppdevtk/base/res/tr''),
       Util_Translator := Some (''tr_ro_RO'', '':/cppdevtk/util/res/tr''))\<rparr>"

lemma li_eq_evals [simp]:
  "li_name a = li_name b \<Longrightarrow> li_nativeName a = li_nativeName b \<Longrightarrow> li_eq api a b st = Some (Ret True st)"
  "li_name a \<noteq> li_name b \<Longrightarrow> li_nativeName a \<noteq> li_nativeName b \<Longrightarrow> li_eq api a b st = Some (Ret False st)"
  "\<not> la_ndebug api \<Longrightarrow> li_name a \<noteq> li_name b \<Longrightarrow> li_nativeName a = li_nativeName b \<Longrightarrow> li_eq api a b st = Some (Term st)"
  by (simp_all add: li_eq_def)

lemma code_fields [simp]: "li_name code_info = ''en_US''" "li_nativeName code_info = ''English''" "GetCodeName = ''en_US''" "GetCodeNativeName = ''English''"
  by (simp_all add: code_info_def GetCodeName_def GetCodeNativeName_def)

abbreviation "one_file \<equiv> sample_lang False [(''ro_RO'', ''Romana'')]"

lemma with_files_simps [simp]: "qmPath with_files = ''/qm''" "qmNamePrefix with_files = ''app_''"
  by (simp_all add: with_files_def)

lemmas locale_evals = GetSupportedLocales_def locale_of_entry_def locale_format_def

lemmas sample_evals = sample_lang.code_eval[simplified code_fields] sample_lang.Set_eval sample_lang.C_eval

lemma sample_locales: "GetSupportedLocales one_file (w, with_files) = Some (Ret [''en_US'', ''ro_RO''] (w, with_files))"
  by (simp add: locale_evals)

lemma sample_loop: "infos_loop one_file ''/qm'' ''app_'' [''en_US'', ''ro_RO''] [] (w, with_files) = Some (Ret [code_info, romanian] (w, with_files))"
  by (simp add: sample_lang.code_eval sample_lang.Set_eval Let_def)

lemma sample_infos:
  "GetSupportedLanguageInfos one_file (w, with_files) = Some (Ret [code_info, romanian] (w, with_files))"
  by (simp add: GetSupportedLanguageInfos_def sample_locales sample_loop native_key_def del: infos_loop.simps)

lemma sample_setup: "Core_SetupTranslators one_file (w, with_files\<lparr>currentLanguageInfo := romanian\<rparr>) = Some (Ret True (w, in_romanian))"
  by (simp add: Core_SetupTranslators_def remove_translator_def load_translator_def sample_lang.code_eval in_romanian_def with_files_def first_lang_app_def)

lemma sample_set_language: "SetCurrentLanguageInfo one_file False romanian (w, with_files) = Some (Ret () (w, in_romanian))"
  by (simp add: SetCurrentLanguageInfo_def sample_lang.C_eval sample_infos sample_setup)

lemma sample_lang_run: "lang_run one_file False [Use_QmInfo ''/qm'' ''app_'', Use_Language romanian] in_romanian"
proof -
  have "lang_use one_file False (Use_QmInfo ''/qm'' ''app_'') ((), first_lang_app) = Some (Ret () ((), with_files))"
    by (simp add: SetQmInfo_def valid_qm_path_def with_files_def)
  from lang_run.returns[OF lang_run.start this] have one: "lang_run one_file False [Use_QmInfo ''/qm'' ''app_''] with_files" by simp
  have "lang_use one_file False (Use_Language romanian) ((), with_files) = Some (Ret () ((), in_romanian))"
    by (simp add: sample_set_language)
  from lang_run.returns[OF one this] show ?thesis by simp
qed

lemma translators_match_language_witness: "installed in_romanian = filter (\<lambda>t. loaded in_romanian t \<noteq> None) (translators False)"
  using translators_match_language[OF sample_lang.qt_languages_axioms sample_lang_run] by (simp add: in_romanian_def GetCodeName_def)

lemma application_sets_default_language_witness:
  "(\<exists>s'. Application_ctor one_file False ((), in_romanian) = Some (Ret () ((), s')))
    \<or> Application_ctor one_file False ((), in_romanian) = Some (Exc RuntimeError ((), in_romanian))
    \<or> (\<exists>st. Application_ctor one_file False ((), in_romanian) = Some (Term st))"
  using application_sets_default_language[OF sample_lang.qt_languages_axioms sample_lang_run, of "()"] by blast


section \<open>Findings\<close>

text \<open>Two languages with the same native name fail the assertion of \<open>operator==\<close> in a debug build.\<close>

abbreviation "two_files \<equiv> sample_lang False [(''pt_BR'', ''Portugues''), (''pt_PT'', ''Portugues'')]"

lemma two_locales: "GetSupportedLocales two_files (w, with_files) = Some (Ret [''en_US'', ''pt_BR'', ''pt_PT''] (w, with_files))"
  by (simp add: locale_evals)

lemma two_infos: "infos_loop two_files ''/qm'' ''app_'' [''en_US'', ''pt_BR'', ''pt_PT''] [] (w, with_files) = Some (Term (w, with_files))"
  by (simp add: sample_lang.code_eval sample_lang.Set_eval Let_def)

lemma same_native_name_aborts: "GetSupportedLanguageInfos two_files (w, with_files) = Some (Term (w, with_files))"
  by (simp add: GetSupportedLanguageInfos_def two_locales two_infos del: infos_loop.simps)

text \<open>A file for \<open>pt\<close> and one for \<open>pt_BR\<close> are the same locale to Qt: a debug build ends.\<close>

lemma same_locale_aborts:
  "GetSupportedLocales (sample_lang False [(''pt'', ''Portugues''), (''pt_BR'', ''Portugues'')]) (w, with_files) = Some (Term (w, with_files))"
  by (simp add: locale_evals)

end
