(* ===== verification/LanguageMenus.thy ===== *)
theory LanguageMenus
imports LanguageRuns
begin

text \<open>
  \<open>LanguageMenu\<close> (\<open>src/gui/language_menu.cpp\<close>): a menu with one checkable action for each language, in an exclusive group.

  An action is a number.  The functions of Qt on actions, the group and the menu are parameters on a state \<open>'q\<close>; what is documented of
  them is the locale \<open>action_menu\<close>.  The signal \<open>Triggered\<close> is the value of the slot that emits it.
\<close>

section \<open>The menu\<close>

record 'q menu_api =
  new_action :: "language_info \<Rightarrow> 'q \<Rightarrow> nat \<times> 'q"
  delete_action :: "nat \<Rightarrow> 'q \<Rightarrow> unit \<times> 'q"
  group_add :: "nat \<Rightarrow> 'q \<Rightarrow> unit \<times> 'q"
  group_remove :: "nat \<Rightarrow> 'q \<Rightarrow> unit \<times> 'q"
  menu_add :: "nat \<Rightarrow> 'q \<Rightarrow> unit \<times> 'q"
  menu_remove :: "nat \<Rightarrow> 'q \<Rightarrow> unit \<times> 'q"
  setChecked :: "nat \<Rightarrow> bool \<Rightarrow> 'q \<Rightarrow> unit \<times> 'q"
  group_actions :: "'q \<Rightarrow> nat list"
  menu_actions :: "'q \<Rightarrow> nat list"
  checkedAction :: "'q \<Rightarrow> nat option"
  action_data :: "nat \<Rightarrow> 'q \<Rightarrow> language_info"

type_synonym ('a, 'q) mprog = "(exn, 'a, 'q) prog"

definition qread :: "('q \<Rightarrow> 'a) \<Rightarrow> ('a, 'q) mprog" where
  "qread f = (\<lambda>q. Some (Ret (f q) q))"

lemma qread_app [simp]: "qread f q = Some (Ret (f q) q)"
  by (simp add: qread_def)

definition menu_GetCount :: "lang_api \<Rightarrow> 'q menu_api \<Rightarrow> (nat, 'q) mprog" where
  "menu_GetCount api mn = bind (qread (\<lambda>q. length (menu_actions mn q) = length (group_actions mn q))) (\<lambda>b.
     andthen (cpp_assert (la_ndebug api) b) (qread (\<lambda>q. length (group_actions mn q))))"

definition menu_GetLanguageInfos :: "lang_api \<Rightarrow> 'q menu_api \<Rightarrow> (language_info list, 'q) mprog" where
  "menu_GetLanguageInfos api mn = qread (\<lambda>q. qt_sort api li_less (map (\<lambda>a. action_data mn a q) (group_actions mn q)))"

definition GetCheckedLanguageInfo :: "lang_api \<Rightarrow> 'q menu_api \<Rightarrow> (language_info, 'q) mprog" where
  "GetCheckedLanguageInfo api mn = bind (qread (checkedAction mn)) (\<lambda>pAction. case pAction of None \<Rightarrow> GetCLanguageInfo api
     | Some a \<Rightarrow> qread (action_data mn a))"

text \<open>The loops over the actions of the group: the first action with the language.\<close>

fun find_action :: "lang_api \<Rightarrow> 'q menu_api \<Rightarrow> language_info \<Rightarrow> nat list \<Rightarrow> (nat option, 'q) mprog" where
  "find_action api mn info [] = ret None"
| "find_action api mn info (a # as) = bind (qread (action_data mn a)) (\<lambda>d. bind (li_eq api info d) (\<lambda>eq.
     if eq then ret (Some a) else find_action api mn info as))"

definition menu_AddLanguageInfo :: "lang_api \<Rightarrow> 'q menu_api \<Rightarrow> language_info \<Rightarrow> (unit, 'q) mprog" where
  "menu_AddLanguageInfo api mn info = bind (GetCLanguageInfo api) (\<lambda>c. bind (li_eq api info c) (\<lambda>isC. andthen (check (\<not> isC) InvalidArgument)
     (bind (qread (group_actions mn)) (\<lambda>kActions. bind (find_action api mn info kActions) (\<lambda>found. case found of Some _ \<Rightarrow> ret ()
        | None \<Rightarrow> bind (call (new_action mn info)) (\<lambda>a. andthen (call (group_add mn a)) (call (menu_add mn a))))))))"

definition remove_action :: "'q menu_api \<Rightarrow> nat \<Rightarrow> (unit, 'q) mprog" where
  "remove_action mn a = andthen (call (group_remove mn a)) (andthen (call (menu_remove mn a)) (call (delete_action mn a)))"

definition menu_RemoveLanguageInfo :: "lang_api \<Rightarrow> 'q menu_api \<Rightarrow> language_info \<Rightarrow> (unit, 'q) mprog" where
  "menu_RemoveLanguageInfo api mn info = bind (GetCLanguageInfo api) (\<lambda>c. bind (li_eq api info c) (\<lambda>isC. andthen (check (\<not> isC) InvalidArgument)
     (bind (qread (group_actions mn)) (\<lambda>kActions. bind (find_action api mn info kActions) (\<lambda>found. case found of Some a \<Rightarrow> remove_action mn a
        | None \<Rightarrow> ret ())))))"

fun remove_actions :: "'q menu_api \<Rightarrow> nat list \<Rightarrow> (unit, 'q) mprog" where
  "remove_actions mn [] = ret ()"
| "remove_actions mn (a # as) = andthen (remove_action mn a) (remove_actions mn as)"

definition menu_Clear :: "'q menu_api \<Rightarrow> (unit, 'q) mprog" where
  "menu_Clear mn = bind (qread (group_actions mn)) (remove_actions mn)"

definition SetCheckedLanguageInfo :: "lang_api \<Rightarrow> 'q menu_api \<Rightarrow> language_info \<Rightarrow> (unit, 'q) mprog" where
  "SetCheckedLanguageInfo api mn info = bind (GetCLanguageInfo api) (\<lambda>c. bind (li_eq api info c) (\<lambda>isC.
     bind (qread (checkedAction mn)) (\<lambda>pAction. if isC \<and> pAction \<noteq> None then call (setChecked mn (the pAction) False)
       else bind (qread (group_actions mn)) (\<lambda>kActions. bind (find_action api mn info kActions) (\<lambda>found. case found of None \<Rightarrow> ret ()
          | Some a \<Rightarrow> call (setChecked mn a True))))))"

text \<open>The user triggers an action, which checks it.\<close>

definition ConvertTriggered :: "lang_api \<Rightarrow> 'q menu_api \<Rightarrow> nat option \<Rightarrow> (language_info, 'q) mprog" where
  "ConvertTriggered api mn pAction = (case pAction of Some a \<Rightarrow> qread (action_data mn a) | None \<Rightarrow> GetCLanguageInfo api)"

section \<open>What Qt promises\<close>

locale action_menu =
  fixes mn :: "'q menu_api"
  assumes new: "new_action mn info q = (a, q') \<Longrightarrow> a \<notin> set (group_actions mn q) \<and> a \<notin> set (menu_actions mn q)
        \<and> group_actions mn q' = group_actions mn q \<and> menu_actions mn q' = menu_actions mn q \<and> checkedAction mn q' = checkedAction mn q
        \<and> action_data mn a q' = info \<and> (\<forall>b. b \<noteq> a \<longrightarrow> action_data mn b q' = action_data mn b q)"
    and group_add: "group_add mn a q = (u, q') \<Longrightarrow> group_actions mn q' = group_actions mn q @ [a] \<and> menu_actions mn q' = menu_actions mn q
        \<and> checkedAction mn q' = checkedAction mn q \<and> action_data mn b q' = action_data mn b q"
    and menu_add: "menu_add mn a q = (u, q') \<Longrightarrow> group_actions mn q' = group_actions mn q \<and> menu_actions mn q' = menu_actions mn q @ [a]
        \<and> checkedAction mn q' = checkedAction mn q \<and> action_data mn b q' = action_data mn b q"
    and group_remove: "group_remove mn a q = (u, q') \<Longrightarrow> group_actions mn q' = removeAll a (group_actions mn q) \<and> menu_actions mn q' = menu_actions mn q
        \<and> checkedAction mn q' = (if checkedAction mn q = Some a then None else checkedAction mn q) \<and> action_data mn b q' = action_data mn b q"
    and menu_remove: "menu_remove mn a q = (u, q') \<Longrightarrow> group_actions mn q' = group_actions mn q \<and> menu_actions mn q' = removeAll a (menu_actions mn q)
        \<and> checkedAction mn q' = checkedAction mn q \<and> action_data mn b q' = action_data mn b q"
    and delete: "delete_action mn a q = (u, q') \<Longrightarrow> a \<notin> set (group_actions mn q) \<Longrightarrow> a \<notin> set (menu_actions mn q) \<Longrightarrow>
        group_actions mn q' = group_actions mn q \<and> menu_actions mn q' = menu_actions mn q \<and> checkedAction mn q' = checkedAction mn q
        \<and> (b \<noteq> a \<longrightarrow> action_data mn b q' = action_data mn b q)"
    and setChecked: "setChecked mn a v q = (u, q') \<Longrightarrow> a \<in> set (group_actions mn q) \<Longrightarrow> group_actions mn q' = group_actions mn q
        \<and> menu_actions mn q' = menu_actions mn q \<and> checkedAction mn q' = (if v then Some a else if checkedAction mn q = Some a then None else checkedAction mn q)
        \<and> action_data mn b q' = action_data mn b q"
begin

text \<open>The languages of the menu, and the name of the checked one.\<close>

definition listed :: "'q \<Rightarrow> language_info list" where
  "listed q = map (\<lambda>a. action_data mn a q) (group_actions mn q)"

definition checked_name :: "'q \<Rightarrow> string option" where
  "checked_name q = map_option (\<lambda>a. li_name (action_data mn a q)) (checkedAction mn q)"

definition menu_inv :: "'q \<Rightarrow> bool" where
  "menu_inv q \<longleftrightarrow> menu_actions mn q = group_actions mn q \<and> distinct (group_actions mn q) \<and> distinct (map li_name (listed q))
     \<and> ''C'' \<notin> li_name ` set (listed q) \<and> set_option (checkedAction mn q) \<subseteq> set (group_actions mn q)"

lemma remove_action_eval:
  assumes "menu_inv q" "a \<in> set (group_actions mn q)"
  shows "\<exists>q'. remove_action mn a q = Some (Ret () q') \<and> menu_inv q' \<and> group_actions mn q' = removeAll a (group_actions mn q)
    \<and> listed q' = filter (\<lambda>i. li_name i \<noteq> li_name (action_data mn a q)) (listed q)
    \<and> checked_name q' = (if checked_name q = Some (li_name (action_data mn a q)) then None else checked_name q)"
proof -
  obtain q1 where 1: "group_remove mn a q = ((), q1)" by (metis surj_pair unit.exhaust)
  obtain q2 where 2: "menu_remove mn a q1 = ((), q2)" by (metis surj_pair unit.exhaust)
  obtain q3 where 3: "delete_action mn a q2 = ((), q3)" by (metis surj_pair unit.exhaust)
  note g = group_remove[OF 1] and m = menu_remove[OF 2]
  have "a \<notin> set (group_actions mn q2)" "a \<notin> set (menu_actions mn q2)" using g[of undefined] m[of undefined] by simp_all
  note d = delete[OF 3 this]
  have acts: "group_actions mn q3 = removeAll a (group_actions mn q)" "menu_actions mn q3 = removeAll a (menu_actions mn q)"
    "checkedAction mn q3 = (if checkedAction mn q = Some a then None else checkedAction mn q)" using g[of undefined] m[of undefined] d[of undefined] by auto
  have data: "action_data mn b q3 = action_data mn b q" if "b \<noteq> a" for b using g[of b] m[of b] d[of b] that by auto
  have inj: "inj_on (\<lambda>a. li_name (action_data mn a q)) (set (group_actions mn q))"
    using assms(1) by (simp add: menu_inv_def listed_def distinct_map comp_def)
  have same: "li_name (action_data mn b q) = li_name (action_data mn a q) \<longleftrightarrow> b = a" if "b \<in> set (group_actions mn q)" for b
    using inj_onD[OF inj _ that assms(2)] by auto
  have "removeAll a (group_actions mn q) = filter (\<lambda>b. li_name (action_data mn b q) \<noteq> li_name (action_data mn a q)) (group_actions mn q)"
    using same by (auto simp: removeAll_filter_not_eq intro!: filter_cong)
  then have listed: "listed q3 = filter (\<lambda>i. li_name i \<noteq> li_name (action_data mn a q)) (listed q)"
    unfolding listed_def acts(1) filter_map comp_def using data by (auto intro!: map_cong) (metis removeAll_id set_removeAll insertI1 Diff_iff data)+
  moreover have "checked_name q3 = (if checked_name q = Some (li_name (action_data mn a q)) then None else checked_name q)"
    using assms(1) same data acts(3) by (cases "checkedAction mn q") (auto simp: checked_name_def menu_inv_def)
  moreover have "menu_inv q3" using assms(1) listed unfolding menu_inv_def acts by (auto simp: distinct_map_filter removeAll_filter_not_eq)
  ultimately show ?thesis using 1 2 3 acts(1) by (auto simp: remove_action_def call_def)
qed

end

section \<open>Calls and what they mean\<close>

datatype menu_call = Menu_Add language_info | Menu_Remove language_info | Menu_Clear | Menu_Check language_info | User_Triggers nat

definition trigger :: "lang_api \<Rightarrow> 'q menu_api \<Rightarrow> nat \<Rightarrow> (language_info option, 'q) mprog" where
  "trigger api mn n = bind (qread (group_actions mn)) (\<lambda>as. if n < length as
     then andthen (call (setChecked mn (as ! n) True)) (bind (ConvertTriggered api mn (Some (as ! n))) (\<lambda>info. ret (Some info))) else ret None)"

fun call_menu :: "lang_api \<Rightarrow> 'q menu_api \<Rightarrow> menu_call \<Rightarrow> (unit, 'q) mprog" where
  "call_menu api mn (Menu_Add info) = menu_AddLanguageInfo api mn info"
| "call_menu api mn (Menu_Remove info) = menu_RemoveLanguageInfo api mn info"
| "call_menu api mn Menu_Clear = menu_Clear mn"
| "call_menu api mn (Menu_Check info) = SetCheckedLanguageInfo api mn info"
| "call_menu api mn (User_Triggers n) = andthen (trigger api mn n) (ret ())"

text \<open>A client that handles the exceptions of its calls.\<close>

fun menu_calls :: "lang_api \<Rightarrow> 'q menu_api \<Rightarrow> menu_call list \<Rightarrow> (unit, 'q) mprog" where
  "menu_calls api mn [] = ret ()"
| "menu_calls api mn (k # ks) = andthen (catch (call_menu api mn k) (\<lambda>_. ret ())) (menu_calls api mn ks)"

text \<open>On the languages of the menu and the name of the checked one.\<close>

fun menu_spec :: "menu_call \<Rightarrow> language_info list \<times> string option \<Rightarrow> language_info list \<times> string option" where
  "menu_spec (Menu_Add info) (xs, c) = (if li_name info \<in> insert ''C'' (li_name ` set xs) then xs else xs @ [info], c)"
| "menu_spec (Menu_Remove info) (xs, c) = (filter (\<lambda>i. li_name i \<noteq> li_name info) xs, if c = Some (li_name info) then None else c)"
| "menu_spec Menu_Clear (xs, c) = ([], None)"
| "menu_spec (Menu_Check info) (xs, c) = (xs, if li_name info = ''C'' then None else if li_name info \<in> li_name ` set xs then Some (li_name info) else c)"
| "menu_spec (User_Triggers n) (xs, c) = (xs, if n < length xs then Some (li_name (xs ! n)) else c)"

locale language_menu = qt_languages api + action_menu mn for api :: lang_api and mn :: "'q menu_api"
begin

definition C_lang :: language_info where
  "C_lang = \<lparr>li_name = ''C'', li_nativeName = ''C''\<rparr>"

lemma C_lang_eval: "GetCLanguageInfo api q = Some (Ret C_lang q)"
  using C_eval by (simp add: C_lang_def)

lemma C_lang_name [simp]: "li_name C_lang = ''C''"
  by (simp add: C_lang_def)

definition abs :: "'q \<Rightarrow> language_info list \<times> string option" where
  "abs q = (listed q, checked_name q)"

text \<open>A call with its exception handled.\<close>

definition becomes :: "(unit, 'q) mprog \<Rightarrow> 'q \<Rightarrow> ('q \<Rightarrow> bool) \<Rightarrow> bool" where
  "becomes m q Q \<longleftrightarrow> (\<exists>q'. catch m (\<lambda>_. ret ()) q = Some (Ret () q') \<and> Q q') \<or> aborts (m q) q"

lemma becomes_ret: "m q = Some (Ret () q') \<Longrightarrow> Q q' \<Longrightarrow> becomes m q Q"
  by (auto simp: becomes_def)

lemma becomes_C: "becomes (k C_lang) q Q \<Longrightarrow> becomes (bind (GetCLanguageInfo api) k) q Q"
  by (auto simp: becomes_def C_lang_eval catch_def)

lemma becomes_read: "becomes (k (f q)) q Q \<Longrightarrow> becomes (bind (qread f) k) q Q"
  by (auto simp: becomes_def qread_def catch_def)

lemma becomes_check: "(b \<Longrightarrow> becomes k q Q) \<Longrightarrow> (\<not> b \<Longrightarrow> Q q) \<Longrightarrow> becomes (andthen (check b e) k) q Q"
  by (cases b) (auto simp: becomes_def check_def catch_def)

lemma becomes_li_eq: "becomes (k (li_name a = li_name b)) q Q \<Longrightarrow> becomes (bind (li_eq api a b) k) q Q"
  using li_eq_outcome[of a b q] by (auto simp: becomes_def aborts_def catch_def)

lemma find_action_outcome:
  "(\<exists>r. find_action api mn info as q = Some (Ret r q) \<and> (case r of None \<Rightarrow> li_name info \<notin> (\<lambda>a. li_name (action_data mn a q)) ` set as
      | Some a \<Rightarrow> a \<in> set as \<and> li_name (action_data mn a q) = li_name info)) \<or> aborts (find_action api mn info as q) q"
proof (induction as)
  case (Cons a as)
  from li_eq_outcome[of info "action_data mn a q" q] show ?case
  proof
    assume eq: "li_eq api info (action_data mn a q) q = Some (Ret (li_name info = li_name (action_data mn a q)) q)"
    show ?thesis
    proof (cases "li_name info = li_name (action_data mn a q)")
      case True
      then show ?thesis using eq by (intro disjI1 exI[of _ "Some a"]) (simp add: qread_def)
    next
      case False
      then have "find_action api mn info (a # as) q = find_action api mn info as q" using eq by (simp add: qread_def)
      then show ?thesis using Cons.IH False by (auto split: option.splits)
    qed
  qed (simp add: qread_def aborts_def)
qed simp

lemma becomes_find:
  assumes "\<And>r. (case r of None \<Rightarrow> li_name info \<notin> (\<lambda>a. li_name (action_data mn a q)) ` set as
      | Some a \<Rightarrow> a \<in> set as \<and> li_name (action_data mn a q) = li_name info) \<Longrightarrow> becomes (k r) q Q"
  shows "becomes (bind (find_action api mn info as) k) q Q"
  using find_action_outcome[of info as q] assms by (fastforce simp: becomes_def aborts_def catch_def)

lemma new_eval:
  assumes "menu_inv q" "li_name info \<notin> li_name ` set (listed q)" "li_name info \<noteq> ''C''"
  shows "\<exists>q'. bind (call (new_action mn info)) (\<lambda>a. andthen (call (group_add mn a)) (call (menu_add mn a))) q = Some (Ret () q')
    \<and> menu_inv q' \<and> listed q' = listed q @ [info] \<and> checked_name q' = checked_name q"
proof -
  obtain a q1 where 1: "new_action mn info q = (a, q1)" by fastforce
  obtain q2 where 2: "group_add mn a q1 = ((), q2)" by (metis surj_pair unit.exhaust)
  obtain q3 where 3: "menu_add mn a q2 = ((), q3)" by (metis surj_pair unit.exhaust)
  note n = new[OF 1] and g = group_add[OF 2] and m = menu_add[OF 3]
  have acts: "group_actions mn q3 = group_actions mn q @ [a]" "menu_actions mn q3 = menu_actions mn q @ [a]" "checkedAction mn q3 = checkedAction mn q"
    using n g[of undefined] m[of undefined] by simp_all
  have data: "action_data mn b q3 = (if b = a then info else action_data mn b q)" for b using n g[of b] m[of b] by simp
  have listed: "listed q3 = listed q @ [info]" using n data by (auto simp: listed_def acts)
  have "checked_name q3 = checked_name q" using assms(1) n data acts(3) by (cases "checkedAction mn q") (auto simp: checked_name_def menu_inv_def)
  moreover have "menu_inv q3" using assms n listed unfolding menu_inv_def acts by (auto simp: acts)
  ultimately show ?thesis using 1 2 3 listed by (auto simp: call_def)
qed

lemma check_eval:
  assumes "menu_inv q" "a \<in> set (group_actions mn q)"
  shows "\<exists>q'. call (setChecked mn a v) q = Some (Ret () q') \<and> menu_inv q' \<and> listed q' = listed q \<and> action_data mn a q' = action_data mn a q
    \<and> checked_name q' = (if v then Some (li_name (action_data mn a q)) else if checkedAction mn q = Some a then None else checked_name q)"
proof -
  obtain q1 where 1: "setChecked mn a v q = ((), q1)" by (metis surj_pair unit.exhaust)
  note c = setChecked[OF 1 assms(2)]
  have "listed q1 = listed q" using c by (simp add: listed_def)
  then show ?thesis using assms 1 c by (auto simp: call_def menu_inv_def checked_name_def)
qed

text \<open>What a call does.\<close>

definition does :: "(unit, 'q) mprog \<Rightarrow> menu_call \<Rightarrow> bool" where
  "does m k \<longleftrightarrow> (\<forall>q. menu_inv q \<longrightarrow> becomes m q (\<lambda>q'. menu_inv q' \<and> abs q' = menu_spec k (abs q)))"

lemma names_of_actions: "(\<lambda>a. li_name (action_data mn a q)) ` set (group_actions mn q) = li_name ` set (listed q)"
  by (simp add: listed_def image_image)

lemma listed_name: "a \<in> set (group_actions mn q) \<Longrightarrow> li_name (action_data mn a q) \<in> li_name ` set (listed q)"
  by (simp add: listed_def)

lemma unlisted:
  assumes "menu_inv q" "n \<notin> li_name ` set (listed q)"
  shows "filter (\<lambda>i. li_name i \<noteq> n) (listed q) = listed q" "checked_name q \<noteq> Some n"
proof -
  show "filter (\<lambda>i. li_name i \<noteq> n) (listed q) = listed q" using assms(2) by (auto simp: filter_id_conv)
  show "checked_name q \<noteq> Some n"
    using assms listed_name[of _ q] by (cases "checkedAction mn q") (auto simp: menu_inv_def checked_name_def simp del: image_iff)
qed

lemma add_does: "does (menu_AddLanguageInfo api mn info) (Menu_Add info)"
  unfolding does_def menu_AddLanguageInfo_def
proof (intro allI impI becomes_C becomes_li_eq becomes_check becomes_read becomes_find, goal_cases)
  case (1 q r)
  show ?case
  proof (cases r)
    case None
    then show ?thesis using 1 new_eval[of q info] by (auto simp: names_of_actions abs_def intro: becomes_ret)
  next
    case (Some a)
    then have "li_name info \<in> li_name ` set (listed q)" using 1 listed_name[of a q] by simp
    then show ?thesis using 1 Some by (auto simp: abs_def intro: becomes_ret)
  qed
qed (simp add: abs_def)

lemma remove_does: "does (menu_RemoveLanguageInfo api mn info) (Menu_Remove info)"
  unfolding does_def menu_RemoveLanguageInfo_def
proof (intro allI impI becomes_C becomes_li_eq becomes_check becomes_read becomes_find, goal_cases)
  case (1 q r)
  show ?case
  proof (cases r)
    case None
    then have "li_name info \<notin> li_name ` set (listed q)" using 1 by (simp add: names_of_actions)
    from unlisted[OF 1(1) this] show ?thesis using 1 None by (auto simp: abs_def intro: becomes_ret)
  next
    case (Some a)
    then show ?thesis using 1 remove_action_eval[of q a] by (auto simp: abs_def intro: becomes_ret)
  qed
next
  case (2 q)
  then show ?case using unlisted[of q "''C''"] by (simp add: abs_def menu_inv_def)
qed

lemma clear_eval:
  assumes "menu_inv q" "set as = set (group_actions mn q)" "distinct as"
  shows "\<exists>q'. remove_actions mn as q = Some (Ret () q') \<and> menu_inv q' \<and> group_actions mn q' = []"
  using assms
proof (induction as arbitrary: q)
  case (Cons a as)
  from Cons.prems remove_action_eval[of q a] obtain q1 where "remove_action mn a q = Some (Ret () q1)" "menu_inv q1"
    "group_actions mn q1 = removeAll a (group_actions mn q)" by auto
  moreover from this have "set as = set (group_actions mn q1)" using Cons.prems(2,3) by auto
  ultimately show ?case using Cons.IH[of q1] Cons.prems(3) by auto
qed auto

lemma clear_does: "does (menu_Clear mn) Menu_Clear"
  unfolding does_def menu_Clear_def
proof (intro allI impI becomes_read, goal_cases)
  case (1 q)
  then have "distinct (group_actions mn q)" by (simp add: menu_inv_def)
  from clear_eval[OF 1 refl this] obtain q' where "remove_actions mn (group_actions mn q) q = Some (Ret () q')" "menu_inv q'" "group_actions mn q' = []" by blast
  moreover from this have "listed q' = [] \<and> checked_name q' = None" by (simp add: listed_def checked_name_def menu_inv_def)
  ultimately show ?case by (auto simp: abs_def intro: becomes_ret)
qed

lemma check_does: "does (SetCheckedLanguageInfo api mn info) (Menu_Check info)"
  unfolding does_def SetCheckedLanguageInfo_def
proof (intro allI impI becomes_C becomes_li_eq becomes_read, goal_cases)
  case (1 q)
  show ?case
  proof (cases "li_name info = ''C'' \<and> checkedAction mn q \<noteq> None")
    case True
    then obtain a where a: "checkedAction mn q = Some a" "a \<in> set (group_actions mn q)" using 1 by (auto simp: menu_inv_def)
    from check_eval[OF 1 a(2), of False] show ?thesis using True a by (auto simp: abs_def intro: becomes_ret)
  next
    case False
    have other: "becomes (case r of None \<Rightarrow> ret () | Some a \<Rightarrow> call (setChecked mn a True)) q (\<lambda>q'. menu_inv q' \<and> abs q' = menu_spec (Menu_Check info) (abs q))"
      if r: "case r of None \<Rightarrow> li_name info \<notin> (\<lambda>a. li_name (action_data mn a q)) ` set (group_actions mn q)
        | Some a \<Rightarrow> a \<in> set (group_actions mn q) \<and> li_name (action_data mn a q) = li_name info" for r
    proof (cases r)
      case None
      then show ?thesis using r 1 False by (auto simp: names_of_actions abs_def checked_name_def intro: becomes_ret)
    next
      case (Some a)
      then have a: "a \<in> set (group_actions mn q)" "li_name (action_data mn a q) = li_name info" "li_name info \<in> li_name ` set (listed q)"
        using r listed_name[of a q] by simp_all
      then have "li_name info \<noteq> ''C''" using 1 by (auto simp: menu_inv_def)
      then show ?thesis using check_eval[OF 1 a(1), of True] a Some by (auto simp: abs_def intro: becomes_ret)
    qed
    have "\<not> (li_name info = li_name C_lang \<and> checkedAction mn q \<noteq> None)" using False by simp
    then show ?thesis by (simp only: if_False) (intro becomes_read becomes_find other)
  qed
qed

lemma trigger_does: "does (andthen (trigger api mn n) (ret ())) (User_Triggers n)"
  unfolding does_def
proof (intro allI impI)
  fix q assume inv: "menu_inv q"
  show "becomes (andthen (trigger api mn n) (ret ())) q (\<lambda>q'. menu_inv q' \<and> abs q' = menu_spec (User_Triggers n) (abs q))"
  proof (cases "n < length (group_actions mn q)")
    case True
    then have "listed q ! n = action_data mn (group_actions mn q ! n) q" "n < length (listed q)" by (simp_all add: listed_def)
    moreover obtain q' where q': "(call (setChecked mn (group_actions mn q ! n) True) :: (unit, 'q) mprog) q = Some (Ret () q')" "menu_inv q'" "listed q' = listed q"
      "checked_name q' = Some (li_name (action_data mn (group_actions mn q ! n) q))" using check_eval[OF inv nth_mem[OF True], of True] by auto
    moreover have "trigger api mn n q = Some (Ret (Some (action_data mn (group_actions mn q ! n) q')) q')"
      using True q'(1) by (simp add: trigger_def ConvertTriggered_def)
    ultimately show ?thesis by (intro becomes_ret[of _ q q']) (simp_all add: abs_def)
  next
    case False
    then have "\<not> n < length (listed q)" by (simp add: listed_def)
    then show ?thesis using inv False by (auto simp: trigger_def abs_def intro!: becomes_ret)
  qed
qed

lemma call_does: "does (call_menu api mn k) k"
  by (cases k) (simp_all add: add_does remove_does clear_does check_does trigger_does del: menu_spec.simps)

lemma calls_do:
  assumes "menu_inv q"
  shows "(\<exists>q'. menu_calls api mn ks q = Some (Ret () q') \<and> menu_inv q' \<and> abs q' = fold menu_spec ks (abs q))
    \<or> (\<not> la_ndebug api \<and> (\<exists>q'. menu_calls api mn ks q = Some (Term q')))"
  using assms
proof (induction ks arbitrary: q)
  case (Cons k ks)
  have "becomes (call_menu api mn k) q (\<lambda>q'. menu_inv q' \<and> abs q' = menu_spec k (abs q))" using call_does Cons.prems by (auto simp: does_def)
  then show ?case
    unfolding becomes_def
  proof (elim disjE exE conjE)
    fix q1 assume 1: "catch (call_menu api mn k) (\<lambda>_. ret ()) q = Some (Ret () q1)" "menu_inv q1" "abs q1 = menu_spec k (abs q)"
    then show ?thesis using Cons.IH[OF 1(2)] by simp
  qed (auto simp: aborts_def)
qed simp

end

text \<open>A menu that computes.\<close>

record qmenu =
  q_group :: "nat list"
  q_menu :: "nat list"
  q_checked :: "nat option"
  q_data :: "nat \<Rightarrow> language_info"

definition fresh_action :: "qmenu \<Rightarrow> nat" where
  "fresh_action q = Suc (Max (set (0 # q_group q @ q_menu q)))"

definition sample_menu :: "qmenu menu_api" where
  "sample_menu = \<lparr>new_action = (\<lambda>info q. (fresh_action q, q\<lparr>q_data := (q_data q)(fresh_action q := info)\<rparr>)),
     delete_action = (\<lambda>a q. ((), q)), group_add = (\<lambda>a q. ((), q\<lparr>q_group := q_group q @ [a]\<rparr>)),
     group_remove = (\<lambda>a q. ((), q\<lparr>q_group := removeAll a (q_group q), q_checked := if q_checked q = Some a then None else q_checked q\<rparr>)),
     menu_add = (\<lambda>a q. ((), q\<lparr>q_menu := q_menu q @ [a]\<rparr>)), menu_remove = (\<lambda>a q. ((), q\<lparr>q_menu := removeAll a (q_menu q)\<rparr>)),
     setChecked = (\<lambda>a v q. ((), q\<lparr>q_checked := if v then Some a else if q_checked q = Some a then None else q_checked q\<rparr>)),
     group_actions = q_group, menu_actions = q_menu, checkedAction = q_checked, action_data = (\<lambda>a q. q_data q a)\<rparr>"

lemma fresh: "fresh_action q \<notin> set (q_group q)" "fresh_action q \<notin> set (q_menu q)"
proof -
  have "fresh_action q \<notin> set (0 # q_group q @ q_menu q)"
  proof
    assume "fresh_action q \<in> set (0 # q_group q @ q_menu q)"
    from Max_ge[OF finite_set this] show False unfolding fresh_action_def by (simp only: Suc_n_not_le_n)
  qed
  then show "fresh_action q \<notin> set (q_group q)" "fresh_action q \<notin> set (q_menu q)" by simp_all
qed

interpretation sample_menu: action_menu sample_menu
proof (unfold_locales, goal_cases)
  case (1 info q a q')
  then have "a = fresh_action q" by (simp add: sample_menu_def)
  then show ?case using 1 fresh[of q] by (auto simp: sample_menu_def)
qed (auto simp: sample_menu_def)

section \<open>Properties\<close>


definition lang_ro :: language_info where "lang_ro = \<lparr>li_name = ''ro_RO'', li_nativeName = ''Romana''\<rparr>"
definition lang_fr :: language_info where "lang_fr = \<lparr>li_name = ''fr_FR'', li_nativeName = ''Francais''\<rparr>"

definition first_qmenu :: qmenu where
  "first_qmenu = \<lparr>q_group = [], q_menu = [], q_checked = None, q_data = (\<lambda>_. lang_ro)\<rparr>"


end
