(* ===== verification/LockAlgorithms.thy ===== *)
theory LockAlgorithms
imports Locks
begin

text \<open>
  The deadlock-avoiding algorithms over several lockables
  (\<open>include/cppdevtk/base/generic_locking_algorithms.hpp\<close>): \<open>TryLock\<close>, \<open>detail::LockHelper\<close> and the nine
  overloads of \<open>Lock\<close>.

  The overloads of \<open>TryLock\<close> and \<open>LockHelper\<close> differ only in their arity and call the overload with
  one lockable less; they are one function over the list of the lockables after the second.  Each
  overload of \<open>Lock\<close> is its own definition: the body of its endless loop with the switch over the index
  of the lockable to block on (\<open>None\<close> leaves the loop by \<open>return\<close>, \<open>Some i\<close> goes round with the next
  index), and the loop.  They are proved equal to one generic algorithm, \<open>Lock_all\<close>.
\<close>

section \<open>TryLock and LockHelper\<close>

fun TryLock :: "('l, 'w, 'x) lock_ops_scheme \<Rightarrow> 'l \<Rightarrow> 'l \<Rightarrow> 'l list \<Rightarrow> (exn, int, 'w) prog" where
  "TryLock ops l1 l2 [] = with_try_lock ops l1
     (bind UniqueLock_OwnsLock (\<lambda>owns.
        if owns then bind (env (lk_try ops l2)) (\<lambda>b.
          if b then andthen UniqueLock_Release (ret (- 1)) else ret 1)
        else ret 0))"
| "TryLock ops l1 l2 (l3 # ls) = with_try_lock ops l1
     (bind UniqueLock_OwnsLock (\<lambda>owns.
        if owns then bind (env (TryLock ops l2 l3 ls)) (\<lambda>kIdx.
          if kIdx = - 1 then andthen UniqueLock_Release (ret kIdx) else ret (kIdx + 1))
        else ret 0))"

fun LockHelper :: "('l, 'w, 'x) lock_ops_scheme \<Rightarrow> 'l \<Rightarrow> 'l \<Rightarrow> 'l list \<Rightarrow> (exn, int, 'w) prog" where
  "LockHelper ops l1 l2 [] = with_unique_lock ops l1
     (bind (env (lk_try ops l2)) (\<lambda>b.
        if b then andthen UniqueLock_Release (ret (- 1)) else ret 1))"
| "LockHelper ops l1 l2 (l3 # ls) = with_unique_lock ops l1
     (bind (env (TryLock ops l2 l3 ls)) (\<lambda>kIdx.
        if kIdx = - 1 then andthen UniqueLock_Release (ret kIdx) else ret (kIdx + 1)))"

section \<open>Lock\<close>

text \<open>The endless \<open>do ... while (true)\<close>.\<close>

partial_function (option) do_forever :: "(int \<Rightarrow> (exn, int option, 'w) prog) \<Rightarrow> int \<Rightarrow> 'w \<Rightarrow> (exn, unit, 'w) res option" where
  [code]: "do_forever body i w = bind (body i) (\<lambda>r w'. case r of None \<Rightarrow> ret () w' | Some j \<Rightarrow> do_forever body j w') w"

text \<open>One case of the switch: lock with the helper, return on \<open>-1\<close>, else compute the next index.\<close>

definition lock_case :: "(exn, int, 'w) prog \<Rightarrow> (int \<Rightarrow> int) \<Rightarrow> (exn, int option, 'w) prog" where
  "lock_case helper next = bind helper (\<lambda>i. ret (if i = - 1 then None else Some (next i)))"

definition Lock2_body :: "('l, 'w, 'x) lock_ops_scheme \<Rightarrow> 'l \<Rightarrow> 'l \<Rightarrow> int \<Rightarrow> (exn, int option, 'w) prog" where
  "Lock2_body ops l1 l2 lockableIdx =
    (if lockableIdx = 0 then lock_case (LockHelper ops l1 l2 []) (\<lambda>i. i)
     else if lockableIdx = 1 then lock_case (LockHelper ops l2 l1 []) (\<lambda>i. (i + 1) mod 2)
     else ret (Some lockableIdx))"

definition Lock2 :: "('l, 'w, 'x) lock_ops_scheme \<Rightarrow> 'l \<Rightarrow> 'l \<Rightarrow> (exn, unit, 'w) prog" where
  "Lock2 ops l1 l2 = do_forever (Lock2_body ops l1 l2) 0"

definition Lock3_body :: "('l, 'w, 'x) lock_ops_scheme \<Rightarrow> 'l \<Rightarrow> 'l \<Rightarrow> 'l \<Rightarrow> int \<Rightarrow> (exn, int option, 'w) prog" where
  "Lock3_body ops l1 l2 l3 lockableIdx =
    (if lockableIdx = 0 then lock_case (LockHelper ops l1 l2 [l3]) (\<lambda>i. i)
     else if lockableIdx = 1 then lock_case (LockHelper ops l2 l3 [l1]) (\<lambda>i. (i + 1) mod 3)
     else if lockableIdx = 2 then lock_case (LockHelper ops l3 l1 [l2]) (\<lambda>i. (i + 2) mod 3)
     else ret (Some lockableIdx))"

definition Lock3 :: "('l, 'w, 'x) lock_ops_scheme \<Rightarrow> 'l \<Rightarrow> 'l \<Rightarrow> 'l \<Rightarrow> (exn, unit, 'w) prog" where
  "Lock3 ops l1 l2 l3 = do_forever (Lock3_body ops l1 l2 l3) 0"

definition Lock4_body :: "('l, 'w, 'x) lock_ops_scheme \<Rightarrow> 'l \<Rightarrow> 'l \<Rightarrow> 'l \<Rightarrow> 'l \<Rightarrow> int \<Rightarrow> (exn, int option, 'w) prog" where
  "Lock4_body ops l1 l2 l3 l4 lockableIdx =
    (if lockableIdx = 0 then lock_case (LockHelper ops l1 l2 [l3, l4]) (\<lambda>i. i)
     else if lockableIdx = 1 then lock_case (LockHelper ops l2 l3 [l4, l1]) (\<lambda>i. (i + 1) mod 4)
     else if lockableIdx = 2 then lock_case (LockHelper ops l3 l4 [l1, l2]) (\<lambda>i. (i + 2) mod 4)
     else if lockableIdx = 3 then lock_case (LockHelper ops l4 l1 [l2, l3]) (\<lambda>i. (i + 3) mod 4)
     else ret (Some lockableIdx))"

definition Lock4 :: "('l, 'w, 'x) lock_ops_scheme \<Rightarrow> 'l \<Rightarrow> 'l \<Rightarrow> 'l \<Rightarrow> 'l \<Rightarrow> (exn, unit, 'w) prog" where
  "Lock4 ops l1 l2 l3 l4 = do_forever (Lock4_body ops l1 l2 l3 l4) 0"

definition Lock5_body :: "('l, 'w, 'x) lock_ops_scheme \<Rightarrow> 'l \<Rightarrow> 'l \<Rightarrow> 'l \<Rightarrow> 'l \<Rightarrow> 'l \<Rightarrow> int \<Rightarrow> (exn, int option, 'w) prog" where
  "Lock5_body ops l1 l2 l3 l4 l5 lockableIdx =
    (if lockableIdx = 0 then lock_case (LockHelper ops l1 l2 [l3, l4, l5]) (\<lambda>i. i)
     else if lockableIdx = 1 then lock_case (LockHelper ops l2 l3 [l4, l5, l1]) (\<lambda>i. (i + 1) mod 5)
     else if lockableIdx = 2 then lock_case (LockHelper ops l3 l4 [l5, l1, l2]) (\<lambda>i. (i + 2) mod 5)
     else if lockableIdx = 3 then lock_case (LockHelper ops l4 l5 [l1, l2, l3]) (\<lambda>i. (i + 3) mod 5)
     else if lockableIdx = 4 then lock_case (LockHelper ops l5 l1 [l2, l3, l4]) (\<lambda>i. (i + 4) mod 5)
     else ret (Some lockableIdx))"

definition Lock5 :: "('l, 'w, 'x) lock_ops_scheme \<Rightarrow> 'l \<Rightarrow> 'l \<Rightarrow> 'l \<Rightarrow> 'l \<Rightarrow> 'l \<Rightarrow> (exn, unit, 'w) prog" where
  "Lock5 ops l1 l2 l3 l4 l5 = do_forever (Lock5_body ops l1 l2 l3 l4 l5) 0"

definition Lock6_body :: "('l, 'w, 'x) lock_ops_scheme \<Rightarrow> 'l \<Rightarrow> 'l \<Rightarrow> 'l \<Rightarrow> 'l \<Rightarrow> 'l \<Rightarrow> 'l \<Rightarrow> int \<Rightarrow> (exn, int option, 'w) prog" where
  "Lock6_body ops l1 l2 l3 l4 l5 l6 lockableIdx =
    (if lockableIdx = 0 then lock_case (LockHelper ops l1 l2 [l3, l4, l5, l6]) (\<lambda>i. i)
     else if lockableIdx = 1 then lock_case (LockHelper ops l2 l3 [l4, l5, l6, l1]) (\<lambda>i. (i + 1) mod 6)
     else if lockableIdx = 2 then lock_case (LockHelper ops l3 l4 [l5, l6, l1, l2]) (\<lambda>i. (i + 2) mod 6)
     else if lockableIdx = 3 then lock_case (LockHelper ops l4 l5 [l6, l1, l2, l3]) (\<lambda>i. (i + 3) mod 6)
     else if lockableIdx = 4 then lock_case (LockHelper ops l5 l6 [l1, l2, l3, l4]) (\<lambda>i. (i + 4) mod 6)
     else if lockableIdx = 5 then lock_case (LockHelper ops l6 l1 [l2, l3, l4, l5]) (\<lambda>i. (i + 5) mod 6)
     else ret (Some lockableIdx))"

definition Lock6 :: "('l, 'w, 'x) lock_ops_scheme \<Rightarrow> 'l \<Rightarrow> 'l \<Rightarrow> 'l \<Rightarrow> 'l \<Rightarrow> 'l \<Rightarrow> 'l \<Rightarrow> (exn, unit, 'w) prog" where
  "Lock6 ops l1 l2 l3 l4 l5 l6 = do_forever (Lock6_body ops l1 l2 l3 l4 l5 l6) 0"

definition Lock7_body :: "('l, 'w, 'x) lock_ops_scheme \<Rightarrow> 'l \<Rightarrow> 'l \<Rightarrow> 'l \<Rightarrow> 'l \<Rightarrow> 'l \<Rightarrow> 'l \<Rightarrow> 'l \<Rightarrow> int \<Rightarrow> (exn, int option, 'w) prog" where
  "Lock7_body ops l1 l2 l3 l4 l5 l6 l7 lockableIdx =
    (if lockableIdx = 0 then lock_case (LockHelper ops l1 l2 [l3, l4, l5, l6, l7]) (\<lambda>i. i)
     else if lockableIdx = 1 then lock_case (LockHelper ops l2 l3 [l4, l5, l6, l7, l1]) (\<lambda>i. (i + 1) mod 7)
     else if lockableIdx = 2 then lock_case (LockHelper ops l3 l4 [l5, l6, l7, l1, l2]) (\<lambda>i. (i + 2) mod 7)
     else if lockableIdx = 3 then lock_case (LockHelper ops l4 l5 [l6, l7, l1, l2, l3]) (\<lambda>i. (i + 3) mod 7)
     else if lockableIdx = 4 then lock_case (LockHelper ops l5 l6 [l7, l1, l2, l3, l4]) (\<lambda>i. (i + 4) mod 7)
     else if lockableIdx = 5 then lock_case (LockHelper ops l6 l7 [l1, l2, l3, l4, l5]) (\<lambda>i. (i + 5) mod 7)
     else if lockableIdx = 6 then lock_case (LockHelper ops l7 l1 [l2, l3, l4, l5, l6]) (\<lambda>i. (i + 6) mod 7)
     else ret (Some lockableIdx))"

definition Lock7 :: "('l, 'w, 'x) lock_ops_scheme \<Rightarrow> 'l \<Rightarrow> 'l \<Rightarrow> 'l \<Rightarrow> 'l \<Rightarrow> 'l \<Rightarrow> 'l \<Rightarrow> 'l \<Rightarrow> (exn, unit, 'w) prog" where
  "Lock7 ops l1 l2 l3 l4 l5 l6 l7 = do_forever (Lock7_body ops l1 l2 l3 l4 l5 l6 l7) 0"

definition Lock8_body :: "('l, 'w, 'x) lock_ops_scheme \<Rightarrow> 'l \<Rightarrow> 'l \<Rightarrow> 'l \<Rightarrow> 'l \<Rightarrow> 'l \<Rightarrow> 'l \<Rightarrow> 'l \<Rightarrow> 'l \<Rightarrow> int \<Rightarrow> (exn, int option, 'w) prog" where
  "Lock8_body ops l1 l2 l3 l4 l5 l6 l7 l8 lockableIdx =
    (if lockableIdx = 0 then lock_case (LockHelper ops l1 l2 [l3, l4, l5, l6, l7, l8]) (\<lambda>i. i)
     else if lockableIdx = 1 then lock_case (LockHelper ops l2 l3 [l4, l5, l6, l7, l8, l1]) (\<lambda>i. (i + 1) mod 8)
     else if lockableIdx = 2 then lock_case (LockHelper ops l3 l4 [l5, l6, l7, l8, l1, l2]) (\<lambda>i. (i + 2) mod 8)
     else if lockableIdx = 3 then lock_case (LockHelper ops l4 l5 [l6, l7, l8, l1, l2, l3]) (\<lambda>i. (i + 3) mod 8)
     else if lockableIdx = 4 then lock_case (LockHelper ops l5 l6 [l7, l8, l1, l2, l3, l4]) (\<lambda>i. (i + 4) mod 8)
     else if lockableIdx = 5 then lock_case (LockHelper ops l6 l7 [l8, l1, l2, l3, l4, l5]) (\<lambda>i. (i + 5) mod 8)
     else if lockableIdx = 6 then lock_case (LockHelper ops l7 l8 [l1, l2, l3, l4, l5, l6]) (\<lambda>i. (i + 6) mod 8)
     else if lockableIdx = 7 then lock_case (LockHelper ops l8 l1 [l2, l3, l4, l5, l6, l7]) (\<lambda>i. (i + 7) mod 8)
     else ret (Some lockableIdx))"

definition Lock8 :: "('l, 'w, 'x) lock_ops_scheme \<Rightarrow> 'l \<Rightarrow> 'l \<Rightarrow> 'l \<Rightarrow> 'l \<Rightarrow> 'l \<Rightarrow> 'l \<Rightarrow> 'l \<Rightarrow> 'l \<Rightarrow> (exn, unit, 'w) prog" where
  "Lock8 ops l1 l2 l3 l4 l5 l6 l7 l8 = do_forever (Lock8_body ops l1 l2 l3 l4 l5 l6 l7 l8) 0"

definition Lock9_body :: "('l, 'w, 'x) lock_ops_scheme \<Rightarrow> 'l \<Rightarrow> 'l \<Rightarrow> 'l \<Rightarrow> 'l \<Rightarrow> 'l \<Rightarrow> 'l \<Rightarrow> 'l \<Rightarrow> 'l \<Rightarrow> 'l \<Rightarrow> int \<Rightarrow> (exn, int option, 'w) prog" where
  "Lock9_body ops l1 l2 l3 l4 l5 l6 l7 l8 l9 lockableIdx =
    (if lockableIdx = 0 then lock_case (LockHelper ops l1 l2 [l3, l4, l5, l6, l7, l8, l9]) (\<lambda>i. i)
     else if lockableIdx = 1 then lock_case (LockHelper ops l2 l3 [l4, l5, l6, l7, l8, l9, l1]) (\<lambda>i. (i + 1) mod 9)
     else if lockableIdx = 2 then lock_case (LockHelper ops l3 l4 [l5, l6, l7, l8, l9, l1, l2]) (\<lambda>i. (i + 2) mod 9)
     else if lockableIdx = 3 then lock_case (LockHelper ops l4 l5 [l6, l7, l8, l9, l1, l2, l3]) (\<lambda>i. (i + 3) mod 9)
     else if lockableIdx = 4 then lock_case (LockHelper ops l5 l6 [l7, l8, l9, l1, l2, l3, l4]) (\<lambda>i. (i + 4) mod 9)
     else if lockableIdx = 5 then lock_case (LockHelper ops l6 l7 [l8, l9, l1, l2, l3, l4, l5]) (\<lambda>i. (i + 5) mod 9)
     else if lockableIdx = 6 then lock_case (LockHelper ops l7 l8 [l9, l1, l2, l3, l4, l5, l6]) (\<lambda>i. (i + 6) mod 9)
     else if lockableIdx = 7 then lock_case (LockHelper ops l8 l9 [l1, l2, l3, l4, l5, l6, l7]) (\<lambda>i. (i + 7) mod 9)
     else if lockableIdx = 8 then lock_case (LockHelper ops l9 l1 [l2, l3, l4, l5, l6, l7, l8]) (\<lambda>i. (i + 8) mod 9)
     else ret (Some lockableIdx))"

definition Lock9 :: "('l, 'w, 'x) lock_ops_scheme \<Rightarrow> 'l \<Rightarrow> 'l \<Rightarrow> 'l \<Rightarrow> 'l \<Rightarrow> 'l \<Rightarrow> 'l \<Rightarrow> 'l \<Rightarrow> 'l \<Rightarrow> 'l \<Rightarrow> (exn, unit, 'w) prog" where
  "Lock9 ops l1 l2 l3 l4 l5 l6 l7 l8 l9 = do_forever (Lock9_body ops l1 l2 l3 l4 l5 l6 l7 l8 l9) 0"

definition Lock10_body :: "('l, 'w, 'x) lock_ops_scheme \<Rightarrow> 'l \<Rightarrow> 'l \<Rightarrow> 'l \<Rightarrow> 'l \<Rightarrow> 'l \<Rightarrow> 'l \<Rightarrow> 'l \<Rightarrow> 'l \<Rightarrow> 'l \<Rightarrow> 'l \<Rightarrow> int \<Rightarrow> (exn, int option, 'w) prog" where
  "Lock10_body ops l1 l2 l3 l4 l5 l6 l7 l8 l9 l10 lockableIdx =
    (if lockableIdx = 0 then lock_case (LockHelper ops l1 l2 [l3, l4, l5, l6, l7, l8, l9, l10]) (\<lambda>i. i)
     else if lockableIdx = 1 then lock_case (LockHelper ops l2 l3 [l4, l5, l6, l7, l8, l9, l10, l1]) (\<lambda>i. (i + 1) mod 10)
     else if lockableIdx = 2 then lock_case (LockHelper ops l3 l4 [l5, l6, l7, l8, l9, l10, l1, l2]) (\<lambda>i. (i + 2) mod 10)
     else if lockableIdx = 3 then lock_case (LockHelper ops l4 l5 [l6, l7, l8, l9, l10, l1, l2, l3]) (\<lambda>i. (i + 3) mod 10)
     else if lockableIdx = 4 then lock_case (LockHelper ops l5 l6 [l7, l8, l9, l10, l1, l2, l3, l4]) (\<lambda>i. (i + 4) mod 10)
     else if lockableIdx = 5 then lock_case (LockHelper ops l6 l7 [l8, l9, l10, l1, l2, l3, l4, l5]) (\<lambda>i. (i + 5) mod 10)
     else if lockableIdx = 6 then lock_case (LockHelper ops l7 l8 [l9, l10, l1, l2, l3, l4, l5, l6]) (\<lambda>i. (i + 6) mod 10)
     else if lockableIdx = 7 then lock_case (LockHelper ops l8 l9 [l10, l1, l2, l3, l4, l5, l6, l7]) (\<lambda>i. (i + 7) mod 10)
     else if lockableIdx = 8 then lock_case (LockHelper ops l9 l10 [l1, l2, l3, l4, l5, l6, l7, l8]) (\<lambda>i. (i + 8) mod 10)
     else if lockableIdx = 9 then lock_case (LockHelper ops l10 l1 [l2, l3, l4, l5, l6, l7, l8, l9]) (\<lambda>i. (i + 9) mod 10)
     else ret (Some lockableIdx))"

definition Lock10 :: "('l, 'w, 'x) lock_ops_scheme \<Rightarrow> 'l \<Rightarrow> 'l \<Rightarrow> 'l \<Rightarrow> 'l \<Rightarrow> 'l \<Rightarrow> 'l \<Rightarrow> 'l \<Rightarrow> 'l \<Rightarrow> 'l \<Rightarrow> 'l \<Rightarrow> (exn, unit, 'w) prog" where
  "Lock10 ops l1 l2 l3 l4 l5 l6 l7 l8 l9 l10 = do_forever (Lock10_body ops l1 l2 l3 l4 l5 l6 l7 l8 l9 l10) 0"

section \<open>The generic algorithm\<close>

definition helper_of :: "('l, 'w, 'x) lock_ops_scheme \<Rightarrow> 'l list \<Rightarrow> (exn, int, 'w) prog" where
  "helper_of ops ls = LockHelper ops (ls ! 0) (ls ! 1) (drop 2 ls)"

definition Lock_all_body :: "('l, 'w, 'x) lock_ops_scheme \<Rightarrow> 'l list \<Rightarrow> int \<Rightarrow> (exn, int option, 'w) prog" where
  "Lock_all_body ops ls i =
    (if 0 \<le> i \<and> i < int (length ls)
     then lock_case (helper_of ops (rotate (nat i) ls)) (\<lambda>j. if i = 0 then j else (j + i) mod int (length ls))
     else ret (Some i))"

definition Lock_all :: "('l, 'w, 'x) lock_ops_scheme \<Rightarrow> 'l list \<Rightarrow> (exn, unit, 'w) prog" where
  "Lock_all ops ls = do_forever (Lock_all_body ops ls) 0"

lemma rotate_numeral: "rotate (numeral k) (x # xs) = rotate (pred_numeral k) (xs @ [x])"
  by (simp add: numeral_eq_Suc rotate_Suc flip: rotate_rotate) (metis One_nat_def rotate1.simps(2) rotate1_rotate_swap)

lemma Lock2_eq: "Lock2 ops l1 l2 = Lock_all ops [l1, l2]"
proof -
  have "Lock2_body ops l1 l2 i = Lock_all_body ops [l1, l2] i" for i
  proof (cases "0 \<le> i \<and> i < 2")
    case True
    then have "i \<in> {0, 1}" unfolding insert_iff empty_iff by presburger
    then show ?thesis
      by (auto simp: Lock2_body_def Lock_all_body_def helper_of_def rotate_numeral simp del: LockHelper.simps)
  qed (auto simp: Lock2_body_def Lock_all_body_def)
  then have "Lock2_body ops l1 l2 = Lock_all_body ops [l1, l2]" by (rule ext)
  then show ?thesis by (simp add: Lock2_def Lock_all_def)
qed

lemma Lock3_eq: "Lock3 ops l1 l2 l3 = Lock_all ops [l1, l2, l3]"
proof -
  have "Lock3_body ops l1 l2 l3 i = Lock_all_body ops [l1, l2, l3] i" for i
  proof (cases "0 \<le> i \<and> i < 3")
    case True
    then have "i \<in> {0, 1, 2}" unfolding insert_iff empty_iff by presburger
    then show ?thesis
      by (auto simp: Lock3_body_def Lock_all_body_def helper_of_def rotate_numeral simp del: LockHelper.simps)
  qed (auto simp: Lock3_body_def Lock_all_body_def)
  then have "Lock3_body ops l1 l2 l3 = Lock_all_body ops [l1, l2, l3]" by (rule ext)
  then show ?thesis by (simp add: Lock3_def Lock_all_def)
qed

lemma Lock4_eq: "Lock4 ops l1 l2 l3 l4 = Lock_all ops [l1, l2, l3, l4]"
proof -
  have "Lock4_body ops l1 l2 l3 l4 i = Lock_all_body ops [l1, l2, l3, l4] i" for i
  proof (cases "0 \<le> i \<and> i < 4")
    case True
    then have "i \<in> {0, 1, 2, 3}" unfolding insert_iff empty_iff by presburger
    then show ?thesis
      by (auto simp: Lock4_body_def Lock_all_body_def helper_of_def rotate_numeral simp del: LockHelper.simps)
  qed (auto simp: Lock4_body_def Lock_all_body_def)
  then have "Lock4_body ops l1 l2 l3 l4 = Lock_all_body ops [l1, l2, l3, l4]" by (rule ext)
  then show ?thesis by (simp add: Lock4_def Lock_all_def)
qed

lemma Lock5_eq: "Lock5 ops l1 l2 l3 l4 l5 = Lock_all ops [l1, l2, l3, l4, l5]"
proof -
  have "Lock5_body ops l1 l2 l3 l4 l5 i = Lock_all_body ops [l1, l2, l3, l4, l5] i" for i
  proof (cases "0 \<le> i \<and> i < 5")
    case True
    then have "i \<in> {0, 1, 2, 3, 4}" unfolding insert_iff empty_iff by presburger
    then show ?thesis
      by (auto simp: Lock5_body_def Lock_all_body_def helper_of_def rotate_numeral simp del: LockHelper.simps)
  qed (auto simp: Lock5_body_def Lock_all_body_def)
  then have "Lock5_body ops l1 l2 l3 l4 l5 = Lock_all_body ops [l1, l2, l3, l4, l5]" by (rule ext)
  then show ?thesis by (simp add: Lock5_def Lock_all_def)
qed

lemma Lock6_eq: "Lock6 ops l1 l2 l3 l4 l5 l6 = Lock_all ops [l1, l2, l3, l4, l5, l6]"
proof -
  have "Lock6_body ops l1 l2 l3 l4 l5 l6 i = Lock_all_body ops [l1, l2, l3, l4, l5, l6] i" for i
  proof (cases "0 \<le> i \<and> i < 6")
    case True
    then have "i \<in> {0, 1, 2, 3, 4, 5}" unfolding insert_iff empty_iff by presburger
    then show ?thesis
      by (auto simp: Lock6_body_def Lock_all_body_def helper_of_def rotate_numeral simp del: LockHelper.simps)
  qed (auto simp: Lock6_body_def Lock_all_body_def)
  then have "Lock6_body ops l1 l2 l3 l4 l5 l6 = Lock_all_body ops [l1, l2, l3, l4, l5, l6]" by (rule ext)
  then show ?thesis by (simp add: Lock6_def Lock_all_def)
qed

lemma Lock7_eq: "Lock7 ops l1 l2 l3 l4 l5 l6 l7 = Lock_all ops [l1, l2, l3, l4, l5, l6, l7]"
proof -
  have "Lock7_body ops l1 l2 l3 l4 l5 l6 l7 i = Lock_all_body ops [l1, l2, l3, l4, l5, l6, l7] i" for i
  proof (cases "0 \<le> i \<and> i < 7")
    case True
    then have "i \<in> {0, 1, 2, 3, 4, 5, 6}" unfolding insert_iff empty_iff by presburger
    then show ?thesis
      by (auto simp: Lock7_body_def Lock_all_body_def helper_of_def rotate_numeral simp del: LockHelper.simps)
  qed (auto simp: Lock7_body_def Lock_all_body_def)
  then have "Lock7_body ops l1 l2 l3 l4 l5 l6 l7 = Lock_all_body ops [l1, l2, l3, l4, l5, l6, l7]" by (rule ext)
  then show ?thesis by (simp add: Lock7_def Lock_all_def)
qed

lemma Lock8_eq: "Lock8 ops l1 l2 l3 l4 l5 l6 l7 l8 = Lock_all ops [l1, l2, l3, l4, l5, l6, l7, l8]"
proof -
  have "Lock8_body ops l1 l2 l3 l4 l5 l6 l7 l8 i = Lock_all_body ops [l1, l2, l3, l4, l5, l6, l7, l8] i" for i
  proof (cases "0 \<le> i \<and> i < 8")
    case True
    then have "i \<in> {0, 1, 2, 3, 4, 5, 6, 7}" unfolding insert_iff empty_iff by presburger
    then show ?thesis
      by (auto simp: Lock8_body_def Lock_all_body_def helper_of_def rotate_numeral simp del: LockHelper.simps)
  qed (auto simp: Lock8_body_def Lock_all_body_def)
  then have "Lock8_body ops l1 l2 l3 l4 l5 l6 l7 l8 = Lock_all_body ops [l1, l2, l3, l4, l5, l6, l7, l8]" by (rule ext)
  then show ?thesis by (simp add: Lock8_def Lock_all_def)
qed

lemma Lock9_eq: "Lock9 ops l1 l2 l3 l4 l5 l6 l7 l8 l9 = Lock_all ops [l1, l2, l3, l4, l5, l6, l7, l8, l9]"
proof -
  have "Lock9_body ops l1 l2 l3 l4 l5 l6 l7 l8 l9 i = Lock_all_body ops [l1, l2, l3, l4, l5, l6, l7, l8, l9] i" for i
  proof (cases "0 \<le> i \<and> i < 9")
    case True
    then have "i \<in> {0, 1, 2, 3, 4, 5, 6, 7, 8}" unfolding insert_iff empty_iff by presburger
    then show ?thesis
      by (auto simp: Lock9_body_def Lock_all_body_def helper_of_def rotate_numeral simp del: LockHelper.simps)
  qed (auto simp: Lock9_body_def Lock_all_body_def)
  then have "Lock9_body ops l1 l2 l3 l4 l5 l6 l7 l8 l9 = Lock_all_body ops [l1, l2, l3, l4, l5, l6, l7, l8, l9]" by (rule ext)
  then show ?thesis by (simp add: Lock9_def Lock_all_def)
qed

lemma Lock10_eq: "Lock10 ops l1 l2 l3 l4 l5 l6 l7 l8 l9 l10 = Lock_all ops [l1, l2, l3, l4, l5, l6, l7, l8, l9, l10]"
proof -
  have "Lock10_body ops l1 l2 l3 l4 l5 l6 l7 l8 l9 l10 i = Lock_all_body ops [l1, l2, l3, l4, l5, l6, l7, l8, l9, l10] i" for i
  proof (cases "0 \<le> i \<and> i < 10")
    case True
    then have "i \<in> {0, 1, 2, 3, 4, 5, 6, 7, 8, 9}" unfolding insert_iff empty_iff by presburger
    then show ?thesis
      by (auto simp: Lock10_body_def Lock_all_body_def helper_of_def rotate_numeral simp del: LockHelper.simps)
  qed (auto simp: Lock10_body_def Lock_all_body_def)
  then have "Lock10_body ops l1 l2 l3 l4 l5 l6 l7 l8 l9 l10 = Lock_all_body ops [l1, l2, l3, l4, l5, l6, l7, l8, l9, l10]" by (rule ext)
  then show ?thesis by (simp add: Lock10_def Lock_all_def)
qed

section \<open>Partial correctness\<close>

declare TryLock.simps [simp del] and LockHelper.simps [simp del]

lemma triple_do_forever:
  assumes body: "\<And>i. triple (I i) (body i) (\<lambda>r. case r of None \<Rightarrow> Q | Some j \<Rightarrow> I j) E"
  shows "triple (I i) (do_forever body i) (\<lambda>_. Q) E"
proof -
  have "b = body \<longrightarrow> I i w \<longrightarrow> (case r of Ret a w' \<Rightarrow> Q w' | Exc e w' \<Rightarrow> E e w' | Term _ \<Rightarrow> False)"
    if "do_forever b i w = Some r" for b i w r
  proof (rule do_forever.raw_induct[OF _ that])
    fix loop b i w r
    assume 1: "\<And>b i w r. loop b i w = Some r \<Longrightarrow> b = body \<longrightarrow> I i w \<longrightarrow>
          (case r of Ret a w' \<Rightarrow> Q w' | Exc e w' \<Rightarrow> E e w' | Term _ \<Rightarrow> False)"
      "bind (b i) (\<lambda>r w'. case r of None \<Rightarrow> ret () w' | Some j \<Rightarrow> loop b j w') w = Some r"
    show "b = body \<longrightarrow> I i w \<longrightarrow> (case r of Ret a w' \<Rightarrow> Q w' | Exc e w' \<Rightarrow> E e w' | Term _ \<Rightarrow> False)"
    proof (intro impI)
      assume b: "b = body" and I: "I i w"
      show "case r of Ret a w' \<Rightarrow> Q w' | Exc e w' \<Rightarrow> E e w' | Term _ \<Rightarrow> False"
      proof (cases "body i w")
        case None
        then show ?thesis using 1(2) b by (simp add: bind_simps)
      next
        case (Some s)
        show ?thesis
        proof (cases s)
          case (Ret x w')
          then have x: "case x of None \<Rightarrow> Q w' | Some j \<Rightarrow> I j w'"
            using triple_Ret[OF body I, of x w'] Some by (auto split: option.splits)
          show ?thesis
          proof (cases x)
            case None
            then show ?thesis using 1(2) Some Ret x b by auto
          next
            case (Some j)
            then have "loop body j w' = Some r" using 1(2) \<open>body i w = Some s\<close> Ret b by simp
            then show ?thesis using 1(1) x Some by simp
          qed
        next
          case (Exc e w')
          then show ?thesis using triple_Exc[OF body I, of e w'] 1(2) Some b by auto
        next
          case (Term w')
          then show ?thesis using triple_Term[OF body I, of w'] Some by simp
        qed
      qed
    qed
  qed
  then show ?thesis by (auto simp: triple_def)
qed

lemma triple_env_keep:
  "triple P m Q E \<Longrightarrow> triple (\<lambda>s. P (fst s) \<and> snd s = u) (env m) (\<lambda>a s. Q a (fst s) \<and> snd s = u) (\<lambda>e s. E e (fst s) \<and> snd s = u)"
  by (rule triple_env, rule triple_pre, rule triple_conseq[where P = P and Q = Q and E = E]) auto

text \<open>The result of an attempt on all of a list: \<open>-1\<close> and everything is held, or the index of the
  lockable that was not available and nothing more is held than before.\<close>

definition all_or_index :: "'l list \<Rightarrow> int \<Rightarrow> 'l multiset \<Rightarrow> int \<Rightarrow> 'l multiset \<Rightarrow> bool" where
  "all_or_index ls lo H i H' = (if i = - 1 then H' = mset ls + H else lo \<le> i \<and> i < int (length ls) \<and> H' = H)"

text \<open>The tail shared by the algorithms: with the first lockable owned by the lock object, attempt the
  rest and either keep everything or let the destructor give the first one back.\<close>

lemma attempt_rest:
  assumes "triple (\<lambda>w. held w = add_mset l H) m (\<lambda>i w. all_or_index ls 0 (add_mset l H) i (held w)) (\<lambda>_ w. held w = add_mset l H)"
  shows "triple (\<lambda>s. owned held H s \<and> snd s = \<lparr>pMutex = Some l, ownsLock = True\<rparr>)
     (bind (env m) (\<lambda>kIdx. if kIdx = - 1 then andthen UniqueLock_Release (ret kIdx) else ret (kIdx + 1)))
     (\<lambda>a s. \<exists>H'. owned held H' s \<and> all_or_index (l # ls) 1 H a H') (\<lambda>e s. \<exists>H'. owned held H' s \<and> H' = H)"
proof (rule triple_bind[where R = "\<lambda>i s. all_or_index ls 0 (add_mset l H) i (held (fst s)) \<and> snd s = \<lparr>pMutex = Some l, ownsLock = True\<rparr>"])
  show "triple (\<lambda>s. owned held H s \<and> snd s = \<lparr>pMutex = Some l, ownsLock = True\<rparr>) (env m)
     (\<lambda>i s. all_or_index ls 0 (add_mset l H) i (held (fst s)) \<and> snd s = \<lparr>pMutex = Some l, ownsLock = True\<rparr>)
     (\<lambda>e s. \<exists>H'. owned held H' s \<and> H' = H)"
    by (rule triple_conseq[OF triple_env_keep[OF assms, of "\<lparr>pMutex = Some l, ownsLock = True\<rparr>"]])
       (auto simp: owned_def)
next
  fix i
  show "triple (\<lambda>s. all_or_index ls 0 (add_mset l H) i (held (fst s)) \<and> snd s = \<lparr>pMutex = Some l, ownsLock = True\<rparr>)
     (if i = - 1 then andthen UniqueLock_Release (ret i) else ret (i + 1))
     (\<lambda>a s. \<exists>H'. owned held H' s \<and> all_or_index (l # ls) 1 H a H') (\<lambda>e s. \<exists>H'. owned held H' s \<and> H' = H)"
    by (auto simp: triple_def all_or_index_def owned_def UniqueLock_Release_def)
qed

lemma attempt_last:
  assumes "triple (\<lambda>w. held w = H) m (attempt held H l) (\<lambda>_ w. held w = H)"
  shows "triple (\<lambda>w. held w = H) (bind m (\<lambda>b. ret (if b then - 1 else 0)))
    (\<lambda>i w. all_or_index [l] 0 H i (held w)) (\<lambda>_ w. held w = H)"
  by (rule triple_bind[OF assms]) (auto simp: triple_def all_or_index_def)

lemma env_bind: "env (bind m k) = bind (env m) (\<lambda>a. env (k a))"
  by (rule ext) (auto simp: env_def bind_def split: Option.bind_splits res.splits prod.splits)

lemma env_ret: "env (ret a) = ret a"
  by (rule ext) (auto simp: env_def)

text \<open>The two-lockable base case has the shape of the general case.\<close>

lemma last_as_index:
  "bind (env m) (\<lambda>b. if b then andthen UniqueLock_Release (ret (- 1)) else ret 1)
    = bind (env (bind m (\<lambda>b. ret (if b then - 1 else 0))))
       (\<lambda>kIdx. if kIdx = - 1 then andthen UniqueLock_Release (ret kIdx) else ret ((kIdx::int) + 1))"
  by (simp only: env_bind env_ret bind_assoc bind_ret_left) (rule arg_cong[where f = "bind (env m)"], rule ext, simp add: ret_def)

lemma mset_rotate_eq: "mset (rotate n xs) = mset xs"
  by (simp add: rotate_drop_take) (metis append_take_drop_id mset_append union_commute)

lemma split_two: "2 \<le> length xs \<Longrightarrow> xs ! 0 # xs ! 1 # drop 2 xs = xs"
  by (cases xs; cases "tl xs") auto

context try_lockable begin

lemma try_first:
  assumes "triple (\<lambda>w. held w = add_mset l H) m (\<lambda>i w. all_or_index ls 0 (add_mset l H) i (held w)) (\<lambda>_ w. held w = add_mset l H)"
  shows "triple (\<lambda>w. held w = H)
    (with_try_lock ops l (bind UniqueLock_OwnsLock (\<lambda>owns. if owns
       then bind (env m) (\<lambda>kIdx. if kIdx = - 1 then andthen UniqueLock_Release (ret kIdx) else ret (kIdx + 1))
       else ret 0)))
    (\<lambda>i w. all_or_index (l # ls) 0 H i (held w)) (\<lambda>_ w. held w = H)"
proof (rule with_try_lock_triple[where Q = "\<lambda>a H'. all_or_index (l # ls) 0 H a H'" and E = "\<lambda>_ H'. H' = H"])
  fix b
  let ?rest = "bind (env m) (\<lambda>kIdx. if kIdx = - 1 then andthen UniqueLock_Release (ret kIdx) else ret (kIdx + 1))"
  have rest: "triple (\<lambda>s. owned held H s \<and> snd s = \<lparr>pMutex = Some l, ownsLock = True\<rparr>) ?rest
     (\<lambda>a s. \<exists>H'. owned held H' s \<and> all_or_index (l # ls) 0 H a H') (\<lambda>e s. \<exists>H'. owned held H' s \<and> H' = H)"
    by (rule triple_conseq[OF attempt_rest[OF assms]]) (auto simp: all_or_index_def)
  show "triple (\<lambda>s. owned held H s \<and> snd s = \<lparr>pMutex = Some l, ownsLock = b\<rparr>)
     (bind UniqueLock_OwnsLock (\<lambda>owns. if owns then ?rest else ret 0))
     (\<lambda>a s. \<exists>H'. owned held H' s \<and> all_or_index (l # ls) 0 H a H') (\<lambda>e s. \<exists>H'. owned held H' s \<and> H' = H)"
    unfolding UniqueLock_OwnsLock_def
    by (rule triple_bind_this, rule triple_if, rule triple_conseq[OF rest])
       (auto simp: triple_def all_or_index_def)
qed simp

lemma TryLock_spec:
  "triple (\<lambda>w. held w = H) (TryLock ops l1 l2 ls)
    (\<lambda>i w. all_or_index (l1 # l2 # ls) 0 H i (held w)) (\<lambda>_ w. held w = H)"
proof (induction ls arbitrary: l1 l2 H)
  case Nil
  show ?case
    unfolding TryLock.simps last_as_index
    by (rule try_first[OF attempt_last[OF try_spec]])
next
  case (Cons l3 ls)
  show ?case
    unfolding TryLock.simps by (rule try_first[OF Cons.IH])
qed

end

context lockable_at begin

lemma LockHelper_spec:
  "triple (\<lambda>w. held w = H0) (LockHelper ops l1 l2 ls)
    (\<lambda>i w. all_or_index (l1 # l2 # ls) 1 H0 i (held w)) (\<lambda>_ w. held w = H0)"
proof (cases ls)
  case Nil
  show ?thesis
    unfolding Nil LockHelper.simps last_as_index
    by (rule with_unique_lock_triple[where Q = "\<lambda>a. all_or_index [l1, l2] 1 H0 a" and E = "\<lambda>_ H'. H' = H0"])
       (use attempt_rest[OF attempt_last[OF try_spec]] in auto)
next
  case (Cons l3 ls')
  show ?thesis
    unfolding Cons LockHelper.simps
    by (rule with_unique_lock_triple[where Q = "\<lambda>a. all_or_index (l1 # l2 # l3 # ls') 1 H0 a" and E = "\<lambda>_ H'. H' = H0"])
       (use attempt_rest[OF TryLock_spec] in auto)
qed

lemma helper_of_spec:
  assumes "2 \<le> length ls"
  shows "triple (\<lambda>w. held w = H0) (helper_of ops ls) (\<lambda>i w. all_or_index ls 1 H0 i (held w)) (\<lambda>_ w. held w = H0)"
  using LockHelper_spec[of "ls ! 0" "ls ! 1" "drop 2 ls"] unfolding helper_of_def split_two[OF assms] .

text \<open>The index of the switch stays in range, and no round ends with more locks than it started with.\<close>

lemma Lock_all_body_spec:
  assumes "2 \<le> length ls"
  shows "triple (\<lambda>w. 0 \<le> i \<and> i < int (length ls) \<and> held w = H0) (Lock_all_body ops ls i)
    (\<lambda>r. case r of None \<Rightarrow> (\<lambda>w. held w = mset ls + H0) | Some j \<Rightarrow> (\<lambda>w. 0 \<le> j \<and> j < int (length ls) \<and> held w = H0))
    (\<lambda>_ w. held w = H0)"
proof (cases "0 \<le> i \<and> i < int (length ls)")
  case True
  have len: "2 \<le> length (rotate (nat i) ls)" using assms by simp
  have pos: "0 < int (length ls)" using True by linarith
  have range: "0 \<le> j mod int (length ls)" "j mod int (length ls) < int (length ls)" for j
    using pos_mod_sign[OF pos] pos_mod_bound[OF pos] by blast+
  have "triple (\<lambda>w. held w = H0) (lock_case (helper_of ops (rotate (nat i) ls)) (\<lambda>j. if i = 0 then j else (j + i) mod int (length ls)))
    (\<lambda>r. case r of None \<Rightarrow> (\<lambda>w. held w = mset ls + H0) | Some j \<Rightarrow> (\<lambda>w. 0 \<le> j \<and> j < int (length ls) \<and> held w = H0))
    (\<lambda>_ w. held w = H0)"
    unfolding lock_case_def
    by (rule triple_bind[OF helper_of_spec[OF len]]) (use True in \<open>auto simp: triple_def all_or_index_def mset_rotate_eq range\<close>)
  then show ?thesis
    using True by (simp add: Lock_all_body_def)
qed (auto simp: Lock_all_body_def triple_def)

lemma Lock_all_spec:
  assumes "2 \<le> length ls"
  shows "triple (\<lambda>w. held w = H0) (Lock_all ops ls) (\<lambda>_ w. held w = mset ls + H0) (\<lambda>_ w. held w = H0)"
  unfolding Lock_all_def
  by (rule triple_conseq[OF triple_do_forever[where I = "\<lambda>i w. 0 \<le> i \<and> i < int (length ls) \<and> held w = H0"]])
     (use Lock_all_body_spec[OF assms] assms in auto)

end

end
