(* ===== verification/LockProgress.thy ===== *)
theory LockProgress
imports LockAlgorithms PosixThreads
begin

text \<open>
  Progress of the locking algorithms, and the properties of the lock objects and of the algorithms.

  \<open>finite_contention\<close> is the contract of lockables under which waiting is bounded: every operation
  returns, and a counter bounds how often an attempt can still fail.
\<close>

locale finite_contention =
  fixes ops :: "('l, 'w, 'x) lock_ops_scheme" and held :: "'w \<Rightarrow> 'l multiset" and fails :: "'w \<Rightarrow> nat"
  assumes lock_returns: "l \<notin># held w \<Longrightarrow> \<exists>w'. lk_lock ops l w = Some (Ret () w')
      \<and> held w' = add_mset l (held w) \<and> fails w' \<le> fails w"
    and try_returns: "l \<notin># held w \<Longrightarrow> \<exists>b w'. lk_try ops l w = Some (Ret b w')
      \<and> held w' = (if b then add_mset l (held w) else held w) \<and> (if b then fails w' \<le> fails w else fails w' < fails w)"
    and unlock_returns: "l \<in># held w \<Longrightarrow> \<exists>w'. lk_unlock ops l w = Some (Ret () w')
      \<and> held w' = held w - {#l#} \<and> fails w' \<le> fails w"

section \<open>Evaluation of blocks with a lock object\<close>

lemma drop_object_eval: "m (w, obj) = Some (Ret a (w', obj')) \<Longrightarrow> drop_object m obj w = Some (Ret a w')"
  by (simp add: drop_object_def)

lemma scoped_eval:
  "body s = Some (Ret a s1) \<Longrightarrow> dtor s1 = Some (Ret () s2) \<Longrightarrow> scoped body dtor s = Some (Ret a s2)"
  by (simp add: scoped_def)

lemma UniqueLock_dtor_free: "\<not> ownsLock u \<Longrightarrow> UniqueLock_dtor ops (w, u) = Some (Ret () (w, u))"
  by (simp add: UniqueLock_dtor_def UniqueLock_OwnsLock_def)

lemma UniqueLock_dtor_owning:
  "lk_unlock ops m w = Some (Ret () w') \<Longrightarrow>
    UniqueLock_dtor ops (w, \<lparr>pMutex = Some m, ownsLock = True\<rparr>) = Some (Ret () (w', \<lparr>pMutex = Some m, ownsLock = False\<rparr>))"
  by (simp add: UniqueLock_dtor_def UniqueLock_OwnsLock_def UniqueLock_Unlock_def)

lemma with_try_lock_eval:
  assumes "lk_try ops l w = Some (Ret b w1)"
    and "body (w1, \<lparr>pMutex = Some l, ownsLock = b\<rparr>) = Some (Ret a (w2, u2))"
    and "UniqueLock_dtor ops (w2, u2) = Some (Ret () (w3, u3))"
  shows "with_try_lock ops l body w = Some (Ret a w3)"
  using assms
  by (simp add: with_try_lock_def local_object_def drop_object_eval scoped_eval UniqueLock_TryLock_def
      UniqueLock_defer_def)

lemma with_unique_lock_eval:
  assumes "lk_lock ops l w = Some (Ret () w1)"
    and "body (w1, \<lparr>pMutex = Some l, ownsLock = True\<rparr>) = Some (Ret a (w2, u2))"
    and "UniqueLock_dtor ops (w2, u2) = Some (Ret () (w3, u3))"
  shows "with_unique_lock ops l body w = Some (Ret a w3)"
  using assms
  by (simp add: with_unique_lock_def local_object_def drop_object_eval scoped_eval UniqueLock_Lock_def
      UniqueLock_defer_def)

text \<open>The shared tail, evaluated.\<close>

lemma rest_eval:
  assumes "m w = Some (Ret i w')"
  shows "bind (env m) (\<lambda>kIdx. if kIdx = - 1 then andthen UniqueLock_Release (ret kIdx) else ret (kIdx + 1))
      (w, \<lparr>pMutex = Some l, ownsLock = True\<rparr>) =
    Some (if i = - 1 then Ret i (w', UniqueLock_default) else Ret (i + 1) (w', \<lparr>pMutex = Some l, ownsLock = True\<rparr>))"
  using assms by (simp add: UniqueLock_Release_def UniqueLock_default_def)

section \<open>Termination\<close>

text \<open>A finished attempt: all or an index, and one failure less to come when it was an index.\<close>

definition attempt_done :: "('w \<Rightarrow> 'l multiset) \<Rightarrow> ('w \<Rightarrow> nat) \<Rightarrow> 'l list \<Rightarrow> int \<Rightarrow> 'w \<Rightarrow> int \<Rightarrow> 'w \<Rightarrow> bool" where
  "attempt_done held fails ls lo w i w' \<longleftrightarrow> all_or_index ls lo (held w) i (held w')
     \<and> fails w' \<le> fails w \<and> (i \<noteq> - 1 \<longrightarrow> fails w' < fails w)"

context finite_contention begin

lemma rest_done:
  assumes m: "\<exists>i w2. m w1 = Some (Ret i w2) \<and> attempt_done held fails ls 0 w1 i w2"
    and w1: "held w1 = add_mset l (held w)" "fails w1 \<le> fails w"
  shows "\<exists>i s w3 u3. bind (env m) (\<lambda>kIdx. if kIdx = - 1 then andthen UniqueLock_Release (ret kIdx) else ret (kIdx + 1))
      (w1, \<lparr>pMutex = Some l, ownsLock = True\<rparr>) = Some (Ret i s)
    \<and> UniqueLock_dtor ops s = Some (Ret () (w3, u3)) \<and> attempt_done held fails (l # ls) 1 w i w3"
proof -
  obtain i w2 where m: "m w1 = Some (Ret i w2)" and d: "attempt_done held fails ls 0 w1 i w2" using m by blast
  note e = rest_eval[where m = m and w = w1 and i = i and w' = w2 and l = l, OF m]
  show ?thesis
  proof (cases "i = - 1")
    case True
    have "UniqueLock_dtor ops (w2, UniqueLock_default) = Some (Ret () (w2, UniqueLock_default))"
      by (simp add: UniqueLock_dtor_free UniqueLock_default_def)
    moreover have "attempt_done held fails (l # ls) 1 w i w2"
      using d w1 True by (auto simp: attempt_done_def all_or_index_def)
    ultimately show ?thesis using e True by auto
  next
    case False
    then have h: "held w2 = add_mset l (held w)" and i: "0 \<le> i" "i < int (length ls)" and f: "fails w2 < fails w"
      using d w1 by (auto simp: attempt_done_def all_or_index_def)
    obtain w3 where u: "lk_unlock ops l w2 = Some (Ret () w3)" and w3: "held w3 = held w" "fails w3 \<le> fails w2"
      using unlock_returns[of l w2] h by auto
    have "attempt_done held fails (l # ls) 1 w (i + 1) w3"
      using i f w3 by (auto simp: attempt_done_def all_or_index_def)
    then show ?thesis
      using e False UniqueLock_dtor_owning[OF u]
      by (intro exI[of _ "i + 1"] exI[of _ "(w2, \<lparr>pMutex = Some l, ownsLock = True\<rparr>)"] exI[of _ w3]
          exI[of _ "\<lparr>pMutex = Some l, ownsLock = False\<rparr>"]) simp
  qed
qed

lemma last_done:
  assumes "l \<notin># held w"
  shows "\<exists>i w'. bind (lk_try ops l) (\<lambda>b. ret (if b then - 1 else 0)) w = Some (Ret i w')
    \<and> attempt_done held fails [l] 0 w i w'"
proof -
  obtain b w' where t: "lk_try ops l w = Some (Ret b w')" "held w' = (if b then add_mset l (held w) else held w)"
    "if b then fails w' \<le> fails w else fails w' < fails w"
    using try_returns[OF assms] by blast
  then show ?thesis
    by (cases b) (auto simp: attempt_done_def all_or_index_def)
qed

lemma try_first_done:
  assumes l: "l \<notin># held w"
    and m: "\<And>w1. held w1 = add_mset l (held w) \<Longrightarrow> \<exists>i w2. m w1 = Some (Ret i w2) \<and> attempt_done held fails ls 0 w1 i w2"
  shows "\<exists>i w'. with_try_lock ops l (bind UniqueLock_OwnsLock (\<lambda>owns. if owns
       then bind (env m) (\<lambda>kIdx. if kIdx = - 1 then andthen UniqueLock_Release (ret kIdx) else ret (kIdx + 1))
       else ret 0)) w = Some (Ret i w') \<and> attempt_done held fails (l # ls) 0 w i w'"
proof -
  obtain b w1 where t: "lk_try ops l w = Some (Ret b w1)" and h: "held w1 = (if b then add_mset l (held w) else held w)"
    and f: "if b then fails w1 \<le> fails w else fails w1 < fails w"
    using try_returns[OF l] by blast
  show ?thesis
  proof (cases b)
    case True
    then have w1: "held w1 = add_mset l (held w)" "fails w1 \<le> fails w" using h f by auto
    obtain i s w3 u3 where r: "bind (env m) (\<lambda>kIdx. if kIdx = - 1 then andthen UniqueLock_Release (ret kIdx) else ret (kIdx + 1))
        (w1, \<lparr>pMutex = Some l, ownsLock = True\<rparr>) = Some (Ret i s)"
      "UniqueLock_dtor ops s = Some (Ret () (w3, u3))" "attempt_done held fails (l # ls) 1 w i w3"
      using rest_done[where m = m and w = w and l = l and ls = ls, OF m[OF w1(1)] w1] by blast
    obtain w2 u2 where s: "s = (w2, u2)" by (cases s)
    have "attempt_done held fails (l # ls) 0 w i w3"
      using r(3) by (auto simp: attempt_done_def all_or_index_def)
    moreover have "with_try_lock ops l (bind UniqueLock_OwnsLock (\<lambda>owns. if owns
       then bind (env m) (\<lambda>kIdx. if kIdx = - 1 then andthen UniqueLock_Release (ret kIdx) else ret (kIdx + 1))
       else ret 0)) w = Some (Ret i w3)"
      by (rule with_try_lock_eval[OF t]) (use r True s in \<open>simp_all add: UniqueLock_OwnsLock_def\<close>)
    ultimately show ?thesis by blast
  next
    case False
    have "with_try_lock ops l (bind UniqueLock_OwnsLock (\<lambda>owns. if owns
       then bind (env m) (\<lambda>kIdx. if kIdx = - 1 then andthen UniqueLock_Release (ret kIdx) else ret (kIdx + 1))
       else ret 0)) w = Some (Ret 0 w1)"
      by (rule with_try_lock_eval[OF t _ UniqueLock_dtor_free]) (use False in \<open>simp_all add: UniqueLock_OwnsLock_def\<close>, simp)
    then show ?thesis
      using False h f by (auto simp: attempt_done_def all_or_index_def)
  qed
qed

lemma TryLock_done:
  assumes "distinct (l1 # l2 # ls)" "set (l1 # l2 # ls) \<inter> set_mset (held w) = {}"
  shows "\<exists>i w'. TryLock ops l1 l2 ls w = Some (Ret i w') \<and> attempt_done held fails (l1 # l2 # ls) 0 w i w'"
  using assms
proof (induction ls arbitrary: l1 l2 w)
  case Nil
  show ?case
    unfolding TryLock.simps last_as_index
    by (rule try_first_done[OF _ last_done]) (use Nil in auto)
next
  case (Cons l3 ls)
  show ?case
    unfolding TryLock.simps
    by (rule try_first_done[OF _ Cons.IH]) (use Cons.prems in auto)
qed

lemma LockHelper_done:
  assumes "distinct (l1 # l2 # ls)" "set (l1 # l2 # ls) \<inter> set_mset (held w) = {}"
  shows "\<exists>i w'. LockHelper ops l1 l2 ls w = Some (Ret i w') \<and> attempt_done held fails (l1 # l2 # ls) 1 w i w'"
proof -
  obtain w1 where t: "lk_lock ops l1 w = Some (Ret () w1)" and h: "held w1 = add_mset l1 (held w)" "fails w1 \<le> fails w"
    using lock_returns[of l1 w] assms by auto
  define m where "m = (case ls of [] \<Rightarrow> bind (lk_try ops l2) (\<lambda>b. ret (if b then - 1 else 0)) | l3 # ls' \<Rightarrow> TryLock ops l2 l3 ls')"
  have helper: "LockHelper ops l1 l2 ls = with_unique_lock ops l1
      (bind (env m) (\<lambda>kIdx. if kIdx = - 1 then andthen UniqueLock_Release (ret kIdx) else ret (kIdx + 1)))"
    by (cases ls) (simp_all add: LockHelper.simps last_as_index m_def)
  have "\<exists>i w2. m w1 = Some (Ret i w2) \<and> attempt_done held fails (l2 # ls) 0 w1 i w2"
    using assms h last_done[of l2 w1] TryLock_done[of l2 "hd ls" "tl ls" w1] by (cases ls) (auto simp: m_def)
  from rest_done[where m = m and w = w and ls = "l2 # ls", OF this h] obtain i s w3 u3 where
    r: "bind (env m) (\<lambda>kIdx. if kIdx = - 1 then andthen UniqueLock_Release (ret kIdx) else ret (kIdx + 1))
        (w1, \<lparr>pMutex = Some l1, ownsLock = True\<rparr>) = Some (Ret i s)"
      "UniqueLock_dtor ops s = Some (Ret () (w3, u3))" "attempt_done held fails (l1 # l2 # ls) 1 w i w3"
    by blast
  obtain w2 u2 where s: "s = (w2, u2)" by (cases s)
  have "LockHelper ops l1 l2 ls w = Some (Ret i w3)"
    unfolding helper by (rule with_unique_lock_eval[OF t]) (use r s in simp_all)
  then show ?thesis using r(3) by blast
qed

lemma Lock_all_loop_returns:
  assumes "2 \<le> length ls" "distinct ls" "set ls \<inter> set_mset (held w) = {}" "0 \<le> i" "i < int (length ls)"
  shows "\<exists>w'. do_forever (Lock_all_body ops ls) i w = Some (Ret () w') \<and> held w' = mset ls + held w"
  using assms(3-5)
proof (induction "fails w" arbitrary: w i rule: less_induct)
  case less
  let ?rs = "rotate (nat i) ls"
  have rs: "?rs ! 0 # ?rs ! 1 # drop 2 ?rs = ?rs"
    by (rule split_two) (use assms(1) in simp)
  obtain k w' where k: "helper_of ops ?rs w = Some (Ret k w')" and d: "attempt_done held fails ?rs 1 w k w'"
    using LockHelper_done[of "?rs ! 0" "?rs ! 1" "drop 2 ?rs" w] assms(2) less.prems(1)
    unfolding rs helper_of_def by auto
  let ?next = "if i = 0 then k else (k + i) mod int (length ls)"
  have body: "Lock_all_body ops ls i w = Some (Ret (if k = - 1 then None else Some ?next) w')"
    using less.prems k by (simp add: Lock_all_body_def lock_case_def)
  show ?case
  proof (cases "k = - 1")
    case True
    then show ?thesis
      using body d by (subst do_forever.simps) (simp add: attempt_done_def all_or_index_def mset_rotate_eq)
  next
    case False
    then have f: "fails w' < fails w" and h: "held w' = held w" and k: "1 \<le> k" "k < int (length ls)"
      using d by (auto simp: attempt_done_def all_or_index_def)
    have pos: "0 < int (length ls)" using less.prems by linarith
    have "0 \<le> ?next \<and> ?next < int (length ls)"
      using k pos_mod_sign[OF pos, of "k + i"] pos_mod_bound[OF pos, of "k + i"] by simp
    then show ?thesis
      using less.hyps[OF f, of ?next] less.prems h body False by (subst do_forever.simps) simp
  qed
qed

lemma Lock_all_returns:
  assumes "2 \<le> length ls" "distinct ls" "set ls \<inter> set_mset (held w) = {}"
  shows "\<exists>w'. Lock_all ops ls w = Some (Ret () w') \<and> held w' = mset ls + held w"
  unfolding Lock_all_def by (rule Lock_all_loop_returns) (use assms in auto)

end

section \<open>Properties of the lock objects\<close>

text \<open>The public operations of a lock object, for arbitrary client code: each call may throw, and the
  client goes on.\<close>

datatype unique_lock_call = CallLock | CallTryLock | CallTryLockFor int | CallTryLockUntil int | CallUnlock

fun run_call :: "('l, 'w, 'x) timed_lock_ops_scheme \<Rightarrow> unique_lock_call \<Rightarrow> (exn, unit, 'w \<times> 'l unique_lock) prog" where
  "run_call ops CallLock = UniqueLock_Lock ops"
| "run_call ops CallTryLock = andthen (UniqueLock_TryLock ops) (ret ())"
| "run_call ops (CallTryLockFor t) = andthen (UniqueLock_TryLockFor ops t) (ret ())"
| "run_call ops (CallTryLockUntil t) = andthen (UniqueLock_TryLockUntil ops t) (ret ())"
| "run_call ops CallUnlock = UniqueLock_Unlock ops"

fun run_calls :: "('l, 'w, 'x) timed_lock_ops_scheme \<Rightarrow> unique_lock_call list \<Rightarrow> (exn, unit, 'w \<times> 'l unique_lock) prog" where
  "run_calls ops [] = ret ()"
| "run_calls ops (c # cs) = andthen (catch (run_call ops c) (\<lambda>_. ret ())) (run_calls ops cs)"

lemma forget_result: "triple P m (\<lambda>_. Q) E \<Longrightarrow> triple P (andthen m (ret ())) (\<lambda>_. Q) E"
  by (rule triple_bind[where R = "\<lambda>_. Q"], assumption) (simp add: triple_def)

context timed_lockable begin

lemma timed_attempt_spec:
  assumes "\<And>l. triple (\<lambda>w. held w = H) (f l) (attempt held H l) (\<lambda>_ w. held w = H)"
  shows "triple (\<lambda>s. owned held H s \<and> snd s = u) (bind (this id) (\<lambda>u. case pMutex u of
      None \<Rightarrow> throw not_permitted
    | Some m \<Rightarrow> if ownsLock u then throw Deadlock
        else bind (env (f m)) (\<lambda>b. andthen (modify (ownsLock_update (\<lambda>_. b))) (this ownsLock))))
     (\<lambda>b s. owned held H s \<and> pMutex (snd s) = pMutex u \<and> ownsLock (snd s) = b)
     (\<lambda>_ s. owned held H s \<and> snd s = u)"
  using assms unfolding triple_def
  by (auto simp: owned_def bind_def env_def split: option.splits res.splits if_splits bind_splits) (fastforce)+

lemma run_call_spec:
  "triple (\<lambda>s. owned held H s \<and> pMutex (snd s) = p) (run_call ops c)
     (\<lambda>_ s. owned held H s \<and> pMutex (snd s) = p) (\<lambda>_ s. owned held H s \<and> pMutex (snd s) = p)"
proof (rule triple_pre)
  fix s0 assume s0: "owned held H s0 \<and> pMutex (snd s0) = p"
  show "triple (\<lambda>s. s = s0) (run_call ops c)
     (\<lambda>_ s. owned held H s \<and> pMutex (snd s) = p) (\<lambda>_ s. owned held H s \<and> pMutex (snd s) = p)"
  proof (cases c)
    case CallLock
    show ?thesis unfolding CallLock run_call.simps
      by (rule triple_conseq[OF at.UniqueLock_Lock_spec[of H "snd s0"]]) (use s0 in auto)
  next
    case CallTryLock
    show ?thesis unfolding CallTryLock run_call.simps
      by (rule forget_result, rule triple_conseq[OF UniqueLock_TryLock_spec[of H "snd s0"]]) (use s0 in auto)
  next
    case (CallTryLockFor t)
    show ?thesis unfolding CallTryLockFor run_call.simps UniqueLock_TryLockFor_def
      by (rule forget_result, rule triple_conseq[OF timed_attempt_spec[OF try_for_spec[where relTime = t], of H "snd s0"]]) (use s0 in auto)
  next
    case (CallTryLockUntil t)
    show ?thesis unfolding CallTryLockUntil run_call.simps UniqueLock_TryLockUntil_def
      by (rule forget_result, rule triple_conseq[OF timed_attempt_spec[OF try_until_spec[where absTime = t], of H "snd s0"]]) (use s0 in auto)
  next
    case CallUnlock
    show ?thesis unfolding CallUnlock run_call.simps
      by (rule triple_conseq[OF UniqueLock_Unlock_spec[of H "snd s0"]]) (use s0 in auto)
  qed
qed

lemma run_calls_spec:
  "triple (\<lambda>s. owned held H s \<and> pMutex (snd s) = p) (run_calls ops cs)
     (\<lambda>_ s. owned held H s \<and> pMutex (snd s) = p) (\<lambda>_ _. False)"
proof (induction cs)
  case (Cons c cs)
  show ?case
    unfolding run_calls.simps
    by (rule triple_bind[OF triple_catch[OF run_call_spec] Cons.IH]) (simp add: triple_def)
qed (simp add: triple_def)

end

text \<open>The concrete instance: the plain mutex over POSIX threads, whose waiting is bounded by the schedule
  of the other threads.\<close>

interpretation posix_progress: finite_contention "Mutex_ops (posix_api nd nr)" "pw_mine :: posix_world \<Rightarrow> nat multiset" "\<lambda>w. size (pw_others w)"
proof unfold_locales
  fix l :: nat and w :: posix_world
  assume l: "l \<notin># pw_mine w"
  show "\<exists>w'. lk_lock (Mutex_ops (posix_api nd nr)) l w = Some (Ret () w') \<and> pw_mine w' = add_mset l (pw_mine w)
      \<and> size (pw_others w') \<le> size (pw_others w)"
    using l by (auto simp: Mutex_ops_def Mutex_Lock_def posix_api_def posix_lock_def size_filter_mset_lesseq)
  show "\<exists>b w'. lk_try (Mutex_ops (posix_api nd nr)) l w = Some (Ret b w')
      \<and> pw_mine w' = (if b then add_mset l (pw_mine w) else pw_mine w)
      \<and> (if b then size (pw_others w') \<le> size (pw_others w) else size (pw_others w') < size (pw_others w))"
    using l by (cases "l \<in># pw_others w")
      (auto simp: Mutex_ops_def Mutex_TryLock_def posix_api_def posix_trylock_def size_Diff1_less)
next
  fix l :: nat and w :: posix_world
  assume "l \<in># pw_mine w"
  then show "\<exists>w'. lk_unlock (Mutex_ops (posix_api nd nr)) l w = Some (Ret () w') \<and> pw_mine w' = pw_mine w - {#l#}
      \<and> size (pw_others w') \<le> size (pw_others w)"
    by (auto simp: Mutex_ops_def Mutex_Unlock_def posix_api_def posix_unlock_def)
qed

text \<open>Whatever sequence of lock operations client code performs on a \<open>UniqueLock\<close>, and whichever of
  them throw, the destructor then leaves the thread holding exactly what it held before the object
  was made, and does not end the program.\<close>

theorem UniqueLock_calls_balanced:
  assumes "timed_lockable ops held"
    and "andthen (run_calls ops cs) (UniqueLock_dtor ops) (w, UniqueLock_defer m) = Some r"
  shows "\<exists>w' u. r = Ret () (w', u) \<and> held w' = held w"
proof -
  have try_lockable: "try_lockable ops held"
    using assms(1) lockable.axioms(1) timed_lockable.axioms(1) by blast
  have "triple (\<lambda>s. owned held (held w) s \<and> pMutex (snd s) = Some m) (andthen (run_calls ops cs) (UniqueLock_dtor ops))
      (\<lambda>_ s. held (fst s) = held w) (\<lambda>_ _. False)"
    by (rule triple_bind[OF timed_lockable.run_calls_spec[OF assms(1)]])
       (rule triple_conseq[OF try_lockable.UniqueLock_dtor_spec[OF try_lockable, of "held w"]], auto)
  moreover have "owned held (held w) (w, UniqueLock_defer m)"
    by (simp add: owned_def UniqueLock_defer_def)
  ultimately show ?thesis
    using assms(2) by (cases r) (fastforce simp: triple_def UniqueLock_defer_def)+
qed

theorem UniqueLock_calls_balanced_witness:
  "\<exists>w' u. andthen (run_calls (RecursiveTimedMutex_ops (posix_api True True)) [CallUnlock, CallLock, CallLock, CallTryLock])
      (UniqueLock_dtor (RecursiveTimedMutex_ops (posix_api True True))) (posix_idle, UniqueLock_defer 3)
    = Some (Ret () (w', u)) \<and> pw_mine w' = {#}"
proof -
  let ?ops = "RecursiveTimedMutex_ops (posix_api True True)"
  let ?m = "andthen (run_calls ?ops [CallUnlock, CallLock, CallLock, CallTryLock]) (UniqueLock_dtor ?ops)"
  have l: "timed_lockable ?ops pw_mine"
    using pthread_mutexes.RecursiveTimedMutex_lockable[OF posix.pthread_mutexes_axioms] .
  have "\<exists>r. ?m (posix_idle, UniqueLock_defer 3) = Some r"
    by (simp add: UniqueLock_Unlock_def UniqueLock_Lock_def UniqueLock_TryLock_def UniqueLock_dtor_def UniqueLock_OwnsLock_def
        UniqueLock_defer_def RecursiveTimedMutex_ops_def RecursiveTimedMutex_Lock_def RecursiveTimedMutex_Unlock_def
        posix_api_def posix_lock_def posix_unlock_def posix_idle_def)
  then obtain r where r: "?m (posix_idle, UniqueLock_defer 3) = Some r" by blast
  from UniqueLock_calls_balanced[OF l r] r show ?thesis by (auto simp: posix_idle_def)
qed

text \<open>Misuse of a \<open>UniqueLock\<close> is reported and has no other effect: locking without a mutex and unlocking
  without ownership throw \<open>LockException\<close> (operation not permitted), locking twice throws
  \<open>DeadlockException\<close>; the mutex is not touched and the object keeps its state.\<close>

theorem UniqueLock_misuse:
  "UniqueLock_Lock ops (w, \<lparr>pMutex = None, ownsLock = b\<rparr>) = Some (Exc not_permitted (w, \<lparr>pMutex = None, ownsLock = b\<rparr>))
   \<and> UniqueLock_TryLock ops (w, \<lparr>pMutex = None, ownsLock = b\<rparr>) = Some (Exc not_permitted (w, \<lparr>pMutex = None, ownsLock = b\<rparr>))
   \<and> UniqueLock_Lock ops (w, \<lparr>pMutex = Some m, ownsLock = True\<rparr>) = Some (Exc Deadlock (w, \<lparr>pMutex = Some m, ownsLock = True\<rparr>))
   \<and> UniqueLock_TryLock ops (w, \<lparr>pMutex = Some m, ownsLock = True\<rparr>) = Some (Exc Deadlock (w, \<lparr>pMutex = Some m, ownsLock = True\<rparr>))
   \<and> UniqueLock_Unlock ops (w, \<lparr>pMutex = p, ownsLock = False\<rparr>) = Some (Exc not_permitted (w, \<lparr>pMutex = p, ownsLock = False\<rparr>))"
  by (simp add: UniqueLock_Lock_def UniqueLock_TryLock_def UniqueLock_Unlock_def)

text \<open>A block guarded by a \<open>LockGuard\<close> runs holding the mutex and gives it up on the normal exit and when
  the block throws; when the lock itself throws nothing is held.\<close>

theorem LockGuard_block:
  assumes "lockable ops held"
    and "triple (\<lambda>w. held w = add_mset m H) body (\<lambda>_ w. held w = add_mset m H) (\<lambda>_ w. held w = add_mset m H)"
  shows "triple (\<lambda>w. held w = H) (with_guard ops m body) (\<lambda>_ w. held w = H) (\<lambda>_ w. held w = H)"
  by (rule triple_conseq[OF lockable_at.with_guard_triple[OF lockable.axioms_at[OF assms(1)], where Q = "\<lambda>_. H" and E = "\<lambda>_. H"]])
     (use assms(2) in auto)

theorem LockGuard_block_witness:
  "triple (\<lambda>w. pw_mine w = {#}) (with_guard (Mutex_ops (posix_api True True)) 4 (throw bad_alloc))
     (\<lambda>_ w. pw_mine w = {#}) (\<lambda>_ w. pw_mine w = {#})
   \<and> with_guard (Mutex_ops (posix_api True True)) 4 (throw bad_alloc) posix_idle
     = Some (Exc bad_alloc posix_idle :: (exn, unit, posix_world) res)"
proof
  show "triple (\<lambda>w. pw_mine w = {#}) (with_guard (Mutex_ops (posix_api True True)) 4 (throw bad_alloc))
     (\<lambda>_ w. pw_mine w = {#}) (\<lambda>_ w. pw_mine w = {#})"
    by (rule LockGuard_block[OF pthread_mutexes.Mutex_lockable[OF posix.pthread_mutexes_axioms]])
       (simp add: triple_def)
  show "with_guard (Mutex_ops (posix_api True True)) 4 (throw bad_alloc) posix_idle = Some (Exc bad_alloc posix_idle)"
    by (simp add: with_guard_def local_object_def drop_object_def scoped_def LockGuard_ctor_def LockGuard_dtor_def
        Mutex_ops_def Mutex_Lock_def Mutex_Unlock_def posix_api_def posix_lock_def posix_unlock_def posix_idle_def)
qed

section \<open>Properties of the algorithms\<close>


text \<open>Three mutexes, the third of them taken by another thread for two attempts.\<close>

definition busy_world :: posix_world where
  "busy_world = posix_idle\<lparr>pw_others := {#6, 6#}\<rparr>"


text \<open>C12: each of the nine overloads of \<open>Lock\<close> is the generic algorithm on the list of its arguments: in
  every case of every switch the lockables are passed in the order that starts at the index, and the
  next index is computed back to the order of the arguments.\<close>

theorem Lock_overloads:
  "Lock2 ops l1 l2 = Lock_all ops [l1, l2]
   \<and> Lock3 ops l1 l2 l3 = Lock_all ops [l1, l2, l3]
   \<and> Lock4 ops l1 l2 l3 l4 = Lock_all ops [l1, l2, l3, l4]
   \<and> Lock5 ops l1 l2 l3 l4 l5 = Lock_all ops [l1, l2, l3, l4, l5]
   \<and> Lock6 ops l1 l2 l3 l4 l5 l6 = Lock_all ops [l1, l2, l3, l4, l5, l6]
   \<and> Lock7 ops l1 l2 l3 l4 l5 l6 l7 = Lock_all ops [l1, l2, l3, l4, l5, l6, l7]
   \<and> Lock8 ops l1 l2 l3 l4 l5 l6 l7 l8 = Lock_all ops [l1, l2, l3, l4, l5, l6, l7, l8]
   \<and> Lock9 ops l1 l2 l3 l4 l5 l6 l7 l8 l9 = Lock_all ops [l1, l2, l3, l4, l5, l6, l7, l8, l9]
   \<and> Lock10 ops l1 l2 l3 l4 l5 l6 l7 l8 l9 l10 = Lock_all ops [l1, l2, l3, l4, l5, l6, l7, l8, l9, l10]"
  by (simp only: Lock2_eq Lock3_eq Lock4_eq Lock5_eq Lock6_eq Lock7_eq Lock8_eq Lock9_eq Lock10_eq)

text \<open>C1: \<open>Lock\<close> of several lockables returns only when all of them are held, and an exception leaves the
  thread with what it held before; and it never waits while holding anything it did not hold at the call:
  with a \<open>Lock\<close> operation that stops the program whenever it is called with more held, the program is
  never stopped.\<close>

theorem Lock_all_correct:
  assumes "lockable ops held" and "2 \<le> length ls"
  shows "(\<forall>w'. Lock_all ops ls w = Some (Ret () w') \<longrightarrow> held w' = mset ls + held w)
    \<and> (\<forall>e w'. Lock_all ops ls w = Some (Exc e w') \<longrightarrow> held w' = held w)
    \<and> (\<forall>w'. Lock_all (guarded held (held w) ops) ls w \<noteq> Some (Term w'))"
proof -
  have at: "lockable_at ops held (held w)" and g: "lockable_at (guarded held (held w) ops) held (held w)"
    using lockable.axioms_at[OF assms(1)] lockable.guarded_lockable_at[OF assms(1)] by blast+
  show ?thesis
    using triple_Ret[OF lockable_at.Lock_all_spec[OF at assms(2)], of w]
      triple_Exc[OF lockable_at.Lock_all_spec[OF at assms(2)], of w]
      triple_Term[OF lockable_at.Lock_all_spec[OF g assms(2)], of w] by blast
qed

text \<open>C11: when only finitely many attempts can fail, \<open>Lock\<close> of distinct lockables the thread does not hold
  returns, whatever the order in which the arguments are contended for.\<close>

theorem Lock_all_terminates:
  assumes "finite_contention ops held fails"
    and "2 \<le> length ls" "distinct ls" "set ls \<inter> set_mset (held w) = {}"
  shows "\<exists>w'. Lock_all ops ls w = Some (Ret () w') \<and> held w' = mset ls + held w"
  by (rule finite_contention.Lock_all_returns[OF assms])

theorem Lock_all_terminates_witness:
  "\<exists>w'. Lock3 (Mutex_ops (posix_api True True)) 4 5 6 busy_world = Some (Ret () w') \<and> pw_mine w' = {#4, 5, 6#}"
  using Lock_all_terminates[OF posix_progress.finite_contention_axioms, of "[4, 5, 6]" busy_world True True]
  by (simp add: Lock3_eq busy_world_def posix_idle_def)

theorem Lock_all_correct_witness:
  "\<exists>w'. Lock3 (Mutex_ops (posix_api True True)) 4 5 6 busy_world = Some (Ret () w') \<and> pw_mine w' = {#4, 5, 6#}
    \<and> (\<forall>v. Lock_all (guarded pw_mine {#} (Mutex_ops (posix_api True True))) [4, 5, 6] busy_world \<noteq> Some (Term v))"
proof -
  have l: "lockable (Mutex_ops (posix_api True True)) pw_mine"
    using pthread_mutexes.Mutex_lockable[OF posix.pthread_mutexes_axioms] .
  have idle: "pw_mine busy_world = {#}" by (simp add: busy_world_def posix_idle_def)
  obtain w' where "Lock_all (Mutex_ops (posix_api True True)) [4, 5, 6] busy_world = Some (Ret () w')"
    using posix_progress.Lock_all_returns[of "[4, 5, 6]" busy_world True True] idle by auto
  then show ?thesis
    using Lock_all_correct[OF l, of "[4, 5, 6]" busy_world] idle by (simp add: Lock3_eq)
qed

end
