(* ===== verification/LockingPtr.thy ===== *)
theory LockingPtr
imports Locks PosixThreads
begin

text \<open>
  \<open>ThreadSharedObjLockingPtr\<close> (\<open>include/cppdevtk/base/thread_shared_obj_locking_ptr.hpp\<close>): a pointer to
  an object shared between threads that holds the mutex of the object while it points to it.
  \<open>nd\<close> is false in a build with assertions.
\<close>

record ('o, 'l) locking_ptr =
  lp_obj :: "'o option"
  lp_mtx :: "'l option"

type_synonym ('o, 'l, 'w, 'a) lp_prog = "(exn, 'a, 'w \<times> ('o, 'l) locking_ptr) prog"

definition invalid_state :: exn where "invalid_state = mk_exn InvalidStateException"

definition LockingPtr_init :: "'o \<Rightarrow> 'l \<Rightarrow> ('o, 'l) locking_ptr" where
  "LockingPtr_init threadSharedObj threadSharedObjMtx = \<lparr>lp_obj = Some threadSharedObj, lp_mtx = Some threadSharedObjMtx\<rparr>"

definition LockingPtr_ctor :: "('l, 'w, 'x) lock_ops_scheme \<Rightarrow> ('o, 'l, 'w, unit) lp_prog" where
  "LockingPtr_ctor ops = bind (this lp_mtx) (\<lambda>mtx. case mtx of Some m \<Rightarrow> env (lk_lock ops m) | None \<Rightarrow> ret ())"

text \<open>\<open>operator*\<close> and \<open>operator->\<close> have the same body.\<close>

definition LockingPtr_deref :: "bool \<Rightarrow> ('o, 'l, 'w, 'o) lp_prog" where
  "LockingPtr_deref nd = bind (this id) (\<lambda>p. case lp_obj p of
      None \<Rightarrow> throw invalid_state
    | Some obj \<Rightarrow> andthen (cpp_assert nd (lp_mtx p \<noteq> None)) (ret obj))"

definition LockingPtr_Get :: "('o, 'l, 'w, 'o option) lp_prog" where
  "LockingPtr_Get = this lp_obj"

definition LockingPtr_Reset :: "('l, 'w, 'x) lock_ops_scheme \<Rightarrow> bool \<Rightarrow> ('o, 'l, 'w, unit) lp_prog" where
  "LockingPtr_Reset ops nd = bind (this id) (\<lambda>p. case lp_mtx p of
      None \<Rightarrow> cpp_assert nd (lp_obj p = None)
    | Some m \<Rightarrow> andthen (cpp_assert nd (lp_obj p \<noteq> None)) (andthen (env (lk_unlock ops m))
        (modify (\<lambda>p. p\<lparr>lp_obj := None, lp_mtx := None\<rparr>))))"

definition LockingPtr_Reset_to :: "('l, 'w, 'x) lock_ops_scheme \<Rightarrow> bool \<Rightarrow> 'o \<Rightarrow> 'l \<Rightarrow> ('o, 'l, 'w, unit) lp_prog" where
  "LockingPtr_Reset_to ops nd threadSharedObj threadSharedObjMtx = bind (this id) (\<lambda>p.
     if lp_mtx p = Some threadSharedObjMtx
     then (if lp_obj p = Some threadSharedObj then ret ()
           else modify (\<lambda>p. p\<lparr>lp_obj := Some threadSharedObj\<rparr>))
     else andthen (env (lk_lock ops threadSharedObjMtx)) (andthen (LockingPtr_Reset ops nd)
        (modify (\<lambda>p. p\<lparr>lp_obj := Some threadSharedObj, lp_mtx := Some threadSharedObjMtx\<rparr>))))"

definition LockingPtr_dtor :: "('l, 'w, 'x) lock_ops_scheme \<Rightarrow> bool \<Rightarrow> ('o, 'l, 'w, unit) lp_prog" where
  "LockingPtr_dtor ops nd = noexcept (LockingPtr_Reset ops nd)"

section \<open>Invariant\<close>

text \<open>The pointer is null together with its mutex, and the thread holds the mutex of a non-null one on top
  of \<open>H\<close>.\<close>

definition lp_inv :: "('w \<Rightarrow> 'l multiset) \<Rightarrow> 'l multiset \<Rightarrow> 'w \<times> ('o, 'l) locking_ptr \<Rightarrow> bool" where
  "lp_inv held H s = (case lp_mtx (snd s) of
      None \<Rightarrow> lp_obj (snd s) = None \<and> held (fst s) = H
    | Some m \<Rightarrow> lp_obj (snd s) \<noteq> None \<and> held (fst s) = add_mset m H)"

datatype ('o, 'l) locking_ptr_call = CallReset | CallResetTo 'o 'l | CallDeref

fun run_lp_call :: "('l, 'w, 'x) lock_ops_scheme \<Rightarrow> bool \<Rightarrow> ('o, 'l) locking_ptr_call \<Rightarrow> ('o, 'l, 'w, unit) lp_prog" where
  "run_lp_call ops nd CallReset = LockingPtr_Reset ops nd"
| "run_lp_call ops nd (CallResetTo o' m) = LockingPtr_Reset_to ops nd o' m"
| "run_lp_call ops nd CallDeref = andthen (LockingPtr_deref nd) (ret ())"

fun run_lp_calls :: "('l, 'w, 'x) lock_ops_scheme \<Rightarrow> bool \<Rightarrow> ('o, 'l) locking_ptr_call list \<Rightarrow> ('o, 'l, 'w, unit) lp_prog" where
  "run_lp_calls ops nd [] = ret ()"
| "run_lp_calls ops nd (c # cs) = andthen (catch (run_lp_call ops nd c) (\<lambda>_. ret ())) (run_lp_calls ops nd cs)"

context try_lockable begin

lemma lp_unlock:
  "triple (\<lambda>s. held (fst s) = H + {#m#} \<and> snd s = p) (env (lk_unlock ops m)) (\<lambda>_ s. held (fst s) = H \<and> snd s = p) (\<lambda>_ _. False)"
  by (rule triple_env, rule triple_pre, rule triple_conseq[OF unlock_spec]) auto

lemma LockingPtr_Reset_spec:
  "triple (lp_inv held H) (LockingPtr_Reset ops nd)
     (\<lambda>_ s. held (fst s) = H \<and> lp_obj (snd s) = None \<and> lp_mtx (snd s) = None) (\<lambda>_ _. False)"
  unfolding LockingPtr_Reset_def
proof (rule triple_bind_this)
  fix p :: "('c, 'l) locking_ptr"
  show "triple (\<lambda>s. lp_inv held H s \<and> snd s = p) (case lp_mtx (id p) of
      None \<Rightarrow> cpp_assert nd (lp_obj (id p) = None)
    | Some m \<Rightarrow> andthen (cpp_assert nd (lp_obj (id p) \<noteq> None)) (andthen (env (lk_unlock ops m))
        (modify (\<lambda>p. p\<lparr>lp_obj := None, lp_mtx := None\<rparr>))))
     (\<lambda>_ s. held (fst s) = H \<and> lp_obj (snd s) = None \<and> lp_mtx (snd s) = None) (\<lambda>_ _. False)"
  proof (cases "lp_mtx p")
    case (Some m)
    have "triple (\<lambda>s. lp_inv held H s \<and> snd s = p)
        (andthen (cpp_assert nd (lp_obj p \<noteq> None)) (andthen (env (lk_unlock ops m))
          (modify (\<lambda>p. p\<lparr>lp_obj := None, lp_mtx := None\<rparr>))))
        (\<lambda>_ s. held (fst s) = H \<and> lp_obj (snd s) = None \<and> lp_mtx (snd s) = None) (\<lambda>_ _. False)"
      by (rule triple_bind[where R = "\<lambda>_ s. held (fst s) = H + {#m#} \<and> snd s = p"],
          rule triple_cpp_assert, insert Some, (auto simp: lp_inv_def)[2],
          rule triple_bind[OF lp_unlock], rule triple_modify, simp)
    then show ?thesis using Some by simp
  qed (auto simp: triple_def lp_inv_def)
qed

end

context lockable begin

lemma run_lp_call_spec:
  "triple (lp_inv held H) (run_lp_call ops nd c) (\<lambda>_. lp_inv held H) (\<lambda>_. lp_inv held H)"
proof (cases c)
  case CallReset
  show ?thesis unfolding CallReset run_lp_call.simps
    by (rule triple_conseq[OF LockingPtr_Reset_spec]) (auto simp: lp_inv_def)
next
  case CallDeref
  show ?thesis unfolding CallDeref run_lp_call.simps
    by (auto simp: LockingPtr_deref_def triple_def lp_inv_def bind_def split: option.splits if_splits)
next
  case (CallResetTo obj m)
  have lock: "triple (\<lambda>s. lp_inv held H s \<and> snd s = p) (env (lk_lock ops m))
      (\<lambda>_ s. lp_inv held (add_mset m H) s) (\<lambda>_. lp_inv held H)" for p
  proof (rule triple_env, rule triple_pre)
    fix q w assume "lp_inv held H (w, q) \<and> snd (w, q) = p"
    then show "triple (\<lambda>w'. w' = w) (lk_lock ops m) (\<lambda>_ w. lp_inv held (add_mset m H) (w, q)) (\<lambda>_ w. lp_inv held H (w, q))"
      by (intro triple_conseq[OF lock_spec[of "held w" m]])
         (auto simp: lp_inv_def add_mset_commute split: option.splits)
  qed
  have switch: "triple (\<lambda>s. lp_inv held H s \<and> snd s = p) (andthen (env (lk_lock ops m)) (andthen (LockingPtr_Reset ops nd)
        (modify (\<lambda>p. p\<lparr>lp_obj := Some obj, lp_mtx := Some m\<rparr>)))) (\<lambda>_. lp_inv held H) (\<lambda>_. lp_inv held H)"
    for p
    by (rule triple_bind[OF lock], rule triple_bind[OF triple_conseq[OF LockingPtr_Reset_spec]],
        assumption, assumption, simp, rule triple_modify) (auto simp: lp_inv_def)
  show ?thesis unfolding CallResetTo run_lp_call.simps LockingPtr_Reset_to_def
    by (rule triple_bind_this, intro triple_if switch)
       (auto simp: triple_def lp_inv_def split: option.splits intro!: switch)
qed

lemma run_lp_calls_spec:
  "triple (lp_inv held H) (run_lp_calls ops nd cs) (\<lambda>_. lp_inv held H) (\<lambda>_ _. False)"
proof (induction cs)
  case (Cons c cs)
  show ?case
    unfolding run_lp_calls.simps
    by (rule triple_bind[OF triple_catch[OF run_lp_call_spec] Cons.IH]) (simp add: triple_def)
qed (simp add: triple_def)

end

section \<open>Properties\<close>

text \<open>From its construction on, through any sequence of \<open>Reset\<close>, re-targeting and dereferencing and
  whatever of it throws, the pointer is null exactly when it holds no mutex, and its destructor leaves the
  thread with exactly the locks it had before; no assertion fails and the program is not ended.\<close>

theorem LockingPtr_calls_balanced:
  assumes "lockable ops held"
    and "andthen (LockingPtr_ctor ops) (andthen (run_lp_calls ops nd cs) (LockingPtr_dtor ops nd))
           (w, LockingPtr_init obj m) = Some r"
  shows "\<exists>w' p. (r = Ret () (w', p) \<or> (\<exists>e. r = Exc e (w', p))) \<and> held w' = held w"
proof -
  have t: "try_lockable ops held" using assms(1) lockable.axioms(1) by blast
  have ctor: "triple (\<lambda>s. s = (w, LockingPtr_init obj m)) (LockingPtr_ctor ops)
      (\<lambda>_. lp_inv held (held w)) (\<lambda>_ s. held (fst s) = held w)"
    unfolding LockingPtr_ctor_def
  proof (rule triple_bind_this)
    fix p
    show "triple (\<lambda>s. s = (w, LockingPtr_init obj m) \<and> snd s = p)
        (case lp_mtx p of Some m \<Rightarrow> env (lk_lock ops m) | None \<Rightarrow> ret ())
        (\<lambda>_. lp_inv held (held w)) (\<lambda>_ s. held (fst s) = held w)"
    proof (cases "p = LockingPtr_init obj m")
      case True
      have "triple (\<lambda>s. s = (w, p)) (env (lk_lock ops m)) (\<lambda>_. lp_inv held (held w)) (\<lambda>_ s. held (fst s) = held w)"
        by (rule triple_env, rule triple_pre, rule triple_conseq[OF lockable.lock_spec[OF assms(1), of "held w" m]])
           (auto simp: lp_inv_def True LockingPtr_init_def)
      then show ?thesis by (simp add: True LockingPtr_init_def triple_def)
    qed (auto simp: triple_def)
  qed
  have "triple (\<lambda>s. s = (w, LockingPtr_init obj m))
      (andthen (LockingPtr_ctor ops) (andthen (run_lp_calls ops nd cs) (LockingPtr_dtor ops nd)))
      (\<lambda>_ s. held (fst s) = held w) (\<lambda>_ s. held (fst s) = held w)"
    unfolding LockingPtr_dtor_def
    by (rule triple_bind[OF ctor triple_bind[OF triple_conseq[OF lockable.run_lp_calls_spec[OF assms(1)]]]],
        assumption, assumption, simp,
        rule triple_conseq[OF triple_noexcept[OF try_lockable.LockingPtr_Reset_spec[OF t]]]) auto
  then show ?thesis
    using assms(2) by (cases r) (force simp: triple_def)+
qed

definition example_lp_run :: "(nat, nat, posix_world, unit) lp_prog" where
  "example_lp_run = andthen (LockingPtr_ctor (Mutex_ops (posix_api False True)))
     (andthen (run_lp_calls (Mutex_ops (posix_api False True)) False [CallDeref, CallResetTo 70 4, CallReset, CallDeref, CallResetTo 80 5])
       (LockingPtr_dtor (Mutex_ops (posix_api False True)) False))"

theorem LockingPtr_calls_balanced_witness:
  "\<exists>w' p. example_lp_run (posix_idle, LockingPtr_init 60 3) = Some (Ret () (w', p)) \<and> pw_mine w' = {#}"
proof -
  have l: "lockable (Mutex_ops (posix_api False True)) pw_mine"
    using pthread_mutexes.Mutex_lockable[OF posix.pthread_mutexes_axioms] .
  have "\<exists>s. example_lp_run (posix_idle, LockingPtr_init 60 3) = Some (Ret () s)"
    by (simp add: example_lp_run_def LockingPtr_ctor_def LockingPtr_deref_def LockingPtr_Reset_def LockingPtr_Reset_to_def
        LockingPtr_dtor_def LockingPtr_init_def Mutex_ops_def Mutex_Lock_def Mutex_Unlock_def posix_api_def
        posix_lock_def posix_unlock_def posix_idle_def)
  then obtain s where r: "example_lp_run (posix_idle, LockingPtr_init 60 3) = Some (Ret () s)" by blast
  show ?thesis
    using LockingPtr_calls_balanced[OF l r[unfolded example_lp_run_def]] r by (auto simp: posix_idle_def)
qed

end
