(* ===== verification/StringUtils.thy ===== *)
theory StringUtils
imports Prelude "HOL-Library.Word"
begin

text \<open>
  Character counting (\<open>include/cppdevtk/base/string_utils.hpp\<close>, \<open>src/base/string_utils.cpp\<close>).

  A \<open>QChar\<close> is a 16-bit code unit and a \<open>QString\<close> the list of its units.  The classification
  functions of \<open>QChar\<close> belong to Qt: they are the fields of \<open>qchar_api\<close>, passed to every definition
  that uses them.  \<open>latin1_documented\<close> is what Qt documents of \<open>QChar::toLatin1\<close>,
  \<open>categories_disjoint\<close> and \<open>case_is_letter\<close> what it documents of the Unicode categories.
\<close>

type_synonym qchar = "16 word"
type_synonym qstring = "qchar list"

record qchar_api =
  isLetter :: "qchar \<Rightarrow> bool"
  isUpper :: "qchar \<Rightarrow> bool"
  isLower :: "qchar \<Rightarrow> bool"
  isDigit :: "qchar \<Rightarrow> bool"
  isSymbol :: "qchar \<Rightarrow> bool"
  toLatin1 :: "qchar \<Rightarrow> 8 word"

section \<open>Operations\<close>

text \<open>\<open>IsAscii\<close> of a character, as it is compiled against Qt 5.\<close>

definition IsAscii_chr :: "('x) qchar_api_scheme \<Rightarrow> qchar \<Rightarrow> bool" where
  "IsAscii_chr api chr = (toLatin1 api chr \<noteq> 0)"

fun IsAscii :: "('x) qchar_api_scheme \<Rightarrow> qstring \<Rightarrow> bool" where
  "IsAscii api [] = True"
| "IsAscii api (c # str) = (if \<not> IsAscii_chr api c then False else IsAscii api str)"

definition IsLatin1_chr :: "('x) qchar_api_scheme \<Rightarrow> qchar \<Rightarrow> bool" where
  "IsLatin1_chr api chr = (toLatin1 api chr \<noteq> 0)"

fun IsLatin1 :: "('x) qchar_api_scheme \<Rightarrow> qstring \<Rightarrow> bool" where
  "IsLatin1 api [] = True"
| "IsLatin1 api (c # str) = (if \<not> IsLatin1_chr api c then False else IsLatin1 api str)"

text \<open>The loop that the counting functions share: an iterator over the string and a counter.\<close>

definition count_loop :: "(qchar \<Rightarrow> bool) \<Rightarrow> qstring \<Rightarrow> int" where
  "count_loop p str = foldl (\<lambda>count c. if p c then count + 1 else count) 0 str"

definition CountNonAscii :: "('x) qchar_api_scheme \<Rightarrow> qstring \<Rightarrow> int" where
  "CountNonAscii api str = count_loop (\<lambda>c. \<not> IsAscii_chr api c) str"

definition CountNonLatin1 :: "('x) qchar_api_scheme \<Rightarrow> qstring \<Rightarrow> int" where
  "CountNonLatin1 api str = count_loop (\<lambda>c. \<not> IsLatin1_chr api c) str"

definition CountLetters :: "('x) qchar_api_scheme \<Rightarrow> qstring \<Rightarrow> int" where
  "CountLetters api str = count_loop (isLetter api) str"

definition CountUpper :: "('x) qchar_api_scheme \<Rightarrow> qstring \<Rightarrow> int" where
  "CountUpper api str = count_loop (isUpper api) str"

definition CountLower :: "('x) qchar_api_scheme \<Rightarrow> qstring \<Rightarrow> int" where
  "CountLower api str = count_loop (isLower api) str"

definition CountDigits :: "('x) qchar_api_scheme \<Rightarrow> qstring \<Rightarrow> int" where
  "CountDigits api str = count_loop (isDigit api) str"

definition CountSymbols :: "('x) qchar_api_scheme \<Rightarrow> qstring \<Rightarrow> int" where
  "CountSymbols api str = count_loop (isSymbol api) str"

section \<open>What Qt documents\<close>

definition latin1_documented :: "('x) qchar_api_scheme \<Rightarrow> bool" where
  "latin1_documented api \<longleftrightarrow> (\<forall>c. toLatin1 api c = (if unat c \<le> 255 then ucast c else 0))"

definition categories_disjoint :: "('x) qchar_api_scheme \<Rightarrow> bool" where
  "categories_disjoint api \<longleftrightarrow> (\<forall>c. \<not> (isLetter api c \<and> isDigit api c) \<and> \<not> (isLetter api c \<and> isSymbol api c)
     \<and> \<not> (isDigit api c \<and> isSymbol api c))"

definition case_is_letter :: "('x) qchar_api_scheme \<Rightarrow> bool" where
  "case_is_letter api \<longleftrightarrow> (\<forall>c. (isUpper api c \<longrightarrow> isLetter api c) \<and> (isLower api c \<longrightarrow> isLetter api c)
     \<and> \<not> (isUpper api c \<and> isLower api c))"

text \<open>An instance, the ASCII part of the classification, for the witnesses.\<close>

definition ascii_api :: qchar_api where
  "ascii_api = \<lparr>
     isLetter = (\<lambda>c. 65 \<le> unat c \<and> unat c \<le> 90 \<or> 97 \<le> unat c \<and> unat c \<le> 122),
     isUpper = (\<lambda>c. 65 \<le> unat c \<and> unat c \<le> 90),
     isLower = (\<lambda>c. 97 \<le> unat c \<and> unat c \<le> 122),
     isDigit = (\<lambda>c. 48 \<le> unat c \<and> unat c \<le> 57),
     isSymbol = (\<lambda>c. unat c \<in> {36, 43, 60, 61, 62, 94, 96, 124, 126}),
     toLatin1 = (\<lambda>c. if unat c \<le> 255 then ucast c else 0)\<rparr>"

lemma ascii_api_documented: "latin1_documented ascii_api" "categories_disjoint ascii_api" "case_is_letter ascii_api"
  by (auto simp: latin1_documented_def categories_disjoint_def case_is_letter_def ascii_api_def)

section \<open>Lemmas\<close>

lemma foldl_count: "foldl (\<lambda>count c. if p c then count + 1 else count) k str = k + int (length (filter p str))"
  by (induction str arbitrary: k) simp_all

lemma count_loop_eq: "count_loop p str = int (length (filter p str))"
  by (simp add: count_loop_def foldl_count)

lemmas Count_defs = CountNonAscii_def CountNonLatin1_def CountLetters_def CountUpper_def CountLower_def
  CountDigits_def CountSymbols_def

lemma count_loop_append [simp]: "count_loop p (xs @ ys) = count_loop p xs + count_loop p ys"
  and count_loop_replicate [simp]: "count_loop p (replicate n c) = (if p c then int n else 0)"
  and count_loop_nonneg [simp]: "0 \<le> count_loop p xs"
  by (simp_all add: count_loop_eq)

lemma count_loop_zero: "count_loop p str = 0 \<longleftrightarrow> (\<forall>c\<in>set str. \<not> p c)"
  by (simp add: count_loop_eq filter_empty_conv)

lemma count_loop_disjoint3:
  assumes "\<And>c. \<not> (p c \<and> q c)" "\<And>c. \<not> (p c \<and> r c)" "\<And>c. \<not> (q c \<and> r c)"
  shows "count_loop p str + count_loop q str + count_loop r str \<le> int (length str)"
proof (induction str)
  case (Cons c str)
  then show ?case using assms[of c] by (simp add: count_loop_eq)
qed (simp add: count_loop_eq)

lemma IsAscii_iff: "IsAscii api str \<longleftrightarrow> (\<forall>c\<in>set str. IsAscii_chr api c)"
  by (induction str) simp_all

lemma IsLatin1_iff: "IsLatin1 api str \<longleftrightarrow> (\<forall>c\<in>set str. IsLatin1_chr api c)"
  by (induction str) simp_all

lemma toLatin1_nonzero:
  assumes "latin1_documented api"
  shows "toLatin1 api c \<noteq> 0 \<longleftrightarrow> 0 < unat c \<and> unat c \<le> 255"
proof -
  have "unat (ucast c :: 8 word) = unat c" if "unat c \<le> 255"
    using that by (simp add: unsigned_ucast_eq take_bit_nat_eq_self)
  then have "(ucast c :: 8 word) \<noteq> 0 \<longleftrightarrow> 0 < unat c" if "unat c \<le> 255"
    using that by (metis bot_nat_0.not_eq_extremum unat_0 unat_eq_zero)
  then show ?thesis using assms by (auto simp: latin1_documented_def)
qed

section \<open>Properties\<close>

text \<open>The character tests agree with the counters and are both the test of Latin-1.  With Qt's
  documented \<open>toLatin1\<close>, \<open>IsAscii\<close> accepts a string exactly when every unit is a non-zero Latin-1
  character, so the units 128 to 255, which are not ASCII, pass, and the counter of non-ASCII
  characters skips them; the string is accepted exactly when that counter is 0.\<close>

theorem IsAscii_is_latin1:
  assumes "latin1_documented api"
  shows "(IsAscii api str \<longleftrightarrow> (\<forall>c\<in>set str. 0 < unat c \<and> unat c \<le> 255))
    \<and> CountNonAscii api str = int (length (filter (\<lambda>c. c = 0 \<or> 255 < unat c) str))
    \<and> (CountNonAscii api str = 0 \<longleftrightarrow> IsAscii api str)
    \<and> CountNonLatin1 api str = CountNonAscii api str \<and> IsLatin1 api str = IsAscii api str"
proof -
  note lat = toLatin1_nonzero[OF assms]
  have ascii: "(\<not> IsAscii_chr api c) = (c = 0 \<or> 255 < unat c)" for c
    using lat[of c] by (auto simp: IsAscii_chr_def unat_eq_zero)
  have "IsAscii api str \<longleftrightarrow> (\<forall>c\<in>set str. 0 < unat c \<and> unat c \<le> 255)"
    by (auto simp: IsAscii_iff IsAscii_chr_def lat)
  moreover have "CountNonAscii api str = 0 \<longleftrightarrow> IsAscii api str"
    by (simp add: CountNonAscii_def count_loop_zero IsAscii_iff)
  moreover have "CountNonAscii api str = int (length (filter (\<lambda>c. c = 0 \<or> 255 < unat c) str))"
    by (simp add: CountNonAscii_def count_loop_eq ascii)
  moreover have "CountNonLatin1 api str = CountNonAscii api str" "IsLatin1 api str = IsAscii api str"
    by (simp_all add: CountNonAscii_def CountNonLatin1_def IsLatin1_chr_def IsAscii_chr_def IsLatin1_iff IsAscii_iff)
  ultimately show ?thesis by (intro conjI)
qed

theorem IsAscii_is_latin1_witness:
  "IsAscii ascii_api [0x63, 0xE9] \<and> CountNonAscii ascii_api [0x63, 0xE9, 0x416] = 1
   \<and> CountNonLatin1 ascii_api [0xE9] = 0 \<and> \<not> IsAscii ascii_api [0x416]"
proof -
  note ascii = IsAscii_is_latin1[OF ascii_api_documented(1)]
  have "IsAscii ascii_api [0x63, 0xE9]" using ascii by (simp del: IsAscii.simps)
  moreover have "CountNonAscii ascii_api [0x63, 0xE9, 0x416] = 1" using ascii by simp
  moreover have "CountNonLatin1 ascii_api [0xE9] = 0" using ascii by simp
  moreover have "\<not> IsAscii ascii_api [0x416]" using ascii by (simp del: IsAscii.simps)
  ultimately show ?thesis by simp
qed

end
