(* ===== verification/PasswordRequirements.thy ===== *)
theory PasswordRequirements
imports StringUtils TimeUtils
begin

text \<open>
  Password requirements (\<open>include/cppdevtk/util/password_requirements.hpp\<close>,
  \<open>src/util/password_requirements.cpp\<close>): the record of the class, \<open>Validate\<close> with the arithmetic of C
  \<open>int\<close> (a sum that overflows is undefined behaviour, the value \<open>None\<close>), the operations that set and
  clear the members and the text shown to the user.  \<open>password_policy\<close> states what the members mean
  for a password, as the documentation of the class does: a value that is not positive means no
  requirement.
\<close>

record password_requirements =
  unicode :: bool
  pwdMaxLen :: int
  pwdMinLen :: int
  pwdMinLetters :: int
  pwdMinUpper :: int
  pwdMinLower :: int
  pwdMinDigits :: int
  pwdMinSymbols :: int
  hintMaxLen :: int
  hintMinLen :: int
  hintNotEqual :: bool
  hintMinSimilarity :: int
  newOldNotEqual :: bool
  newOldMinSimilarity :: int

definition kQLineEditMaxLength :: int where
  "kQLineEditMaxLength = 32767"

text \<open>The default arguments of the constructor.\<close>

definition default_requirements :: password_requirements where
  "default_requirements = \<lparr>unicode = True, pwdMaxLen = 0, pwdMinLen = 8, pwdMinLetters = 2, pwdMinUpper = 1,
     pwdMinLower = 1, pwdMinDigits = 1, pwdMinSymbols = 1, hintMaxLen = 0, hintMinLen = 4, hintNotEqual = True,
     hintMinSimilarity = 2, newOldNotEqual = True, newOldMinSimilarity = 4\<rparr>"

section \<open>Validation of requirements\<close>

definition cpp_plus :: "int \<Rightarrow> int \<Rightarrow> int option" where
  "cpp_plus a b = (if int_value (a + b) then Some (a + b) else None)"

text \<open>The comparison of a minimum with the minimum length, when there is one, else with the maximum,
  and the one of a minimum for letters of one case.\<close>

definition exceeds_length :: "password_requirements \<Rightarrow> int \<Rightarrow> int \<Rightarrow> bool" where
  "exceeds_length args maxLen n = (if pwdMinLen args > 0 then n > pwdMinLen args else n > maxLen)"

definition exceeds_letters :: "password_requirements \<Rightarrow> int \<Rightarrow> int \<Rightarrow> bool" where
  "exceeds_letters args maxLen n = (if pwdMinLetters args > 0 then n > pwdMinLetters args
     else exceeds_length args maxLen n)"

definition Validate_sums :: "password_requirements \<Rightarrow> int \<Rightarrow> bool option" where
  "Validate_sums args maxLen =
    Option.bind (cpp_plus (pwdMinUpper args) (pwdMinLower args)) (\<lambda>kActualMinLetters.
    if kActualMinLetters > 0 \<and> exceeds_letters args maxLen kActualMinLetters then Some False
    else Option.bind (cpp_plus (pwdMinDigits args) (pwdMinSymbols args)) (\<lambda>actualMinLen.
    Option.bind (if pwdMinLetters args > 0 then cpp_plus actualMinLen (pwdMinLetters args)
      else Option.bind (cpp_plus (pwdMinUpper args) (pwdMinLower args)) (cpp_plus actualMinLen)) (\<lambda>actualMinLen.
    if actualMinLen > 0 \<and> exceeds_length args maxLen actualMinLen then Some False
    else Some True)))"

text \<open>The argument record bundles the fourteen arguments of the function.\<close>

definition Validate :: "password_requirements \<Rightarrow> bool option" where
  "Validate args =
    (if pwdMaxLen args > 0 \<and> pwdMaxLen args > kQLineEditMaxLength then Some False
     else let maxLen = (if pwdMaxLen args > 0 then pwdMaxLen args else kQLineEditMaxLength) in
     if pwdMinLen args > 0 \<and> pwdMinLen args > maxLen then Some False
     else if pwdMinLetters args > 0 \<and> exceeds_length args maxLen (pwdMinLetters args) then Some False
     else if pwdMinUpper args > 0 \<and> exceeds_letters args maxLen (pwdMinUpper args) then Some False
     else if pwdMinLower args > 0 \<and> exceeds_letters args maxLen (pwdMinLower args) then Some False
     else if pwdMinDigits args > 0 \<and> exceeds_length args maxLen (pwdMinDigits args) then Some False
     else if pwdMinSymbols args > 0 \<and> exceeds_length args maxLen (pwdMinSymbols args) then Some False
     else if hintMaxLen args > 0 \<and> hintMaxLen args > kQLineEditMaxLength then Some False
     else let hintMax = (if hintMaxLen args > 0 then hintMaxLen args else kQLineEditMaxLength) in
     if hintMinLen args > 0 \<and> hintMinLen args > hintMax then Some False
     else Validate_sums args maxLen)"

section \<open>Operations\<close>

text \<open>\<open>Set\<close>: the checked arguments become the members.  Undefined behaviour has no outcome.\<close>

definition Set_requirements :: "password_requirements \<Rightarrow> (exn, unit, 'w \<times> password_requirements) prog" where
  "Set_requirements args = (case Validate args of
     None \<Rightarrow> (\<lambda>_. None)
   | Some valid \<Rightarrow> andthen (check valid InvalidArgument) (modify (\<lambda>_. args)))"

definition Requirements_ctor :: "bool \<Rightarrow> password_requirements \<Rightarrow> (exn, unit, 'w \<times> password_requirements) prog" where
  "Requirements_ctor ndebug args =
     andthen (cpp_assert ndebug (Validate default_requirements = Some True)) (Set_requirements args)"

definition cleared_requirements :: password_requirements where
  "cleared_requirements = \<lparr>unicode = True, pwdMaxLen = 0, pwdMinLen = 0, pwdMinLetters = 0, pwdMinUpper = 0,
     pwdMinLower = 0, pwdMinDigits = 0, pwdMinSymbols = 0, hintMaxLen = 0, hintMinLen = 0, hintNotEqual = False,
     hintMinSimilarity = 0, newOldNotEqual = False, newOldMinSimilarity = 0\<rparr>"

definition Clear_requirements :: "(exn, unit, 'w \<times> password_requirements) prog" where
  "Clear_requirements = Set_requirements cleared_requirements"

definition ClearHint :: "(exn, unit, 'w \<times> password_requirements) prog" where
  "ClearHint = modify (\<lambda>r. r\<lparr>hintMaxLen := 0, hintMinLen := 0, hintNotEqual := False, hintMinSimilarity := 0\<rparr>)"

definition ClearNew :: "(exn, unit, 'w \<times> password_requirements) prog" where
  "ClearNew = modify (\<lambda>r. r\<lparr>newOldNotEqual := False, newOldMinSimilarity := 0\<rparr>)"

definition HasRequirements :: "password_requirements \<Rightarrow> bool" where
  "HasRequirements r \<longleftrightarrow> (\<not> unicode r \<or> pwdMaxLen r > 0 \<or> pwdMinLen r > 0 \<or> pwdMinLetters r > 0 \<or> pwdMinUpper r > 0
     \<or> pwdMinLower r > 0 \<or> pwdMinDigits r > 0 \<or> pwdMinSymbols r > 0 \<or> hintMaxLen r > 0
     \<or> hintMinLen r > 0 \<or> hintNotEqual r \<or> hintMinSimilarity r > 0 \<or> newOldNotEqual r \<or> newOldMinSimilarity r > 0)"

text \<open>\<open>ToString\<close>: the translated lines.  \<open>tr\<close> is the translation of a source text and \<open>arg\<close> the
  replacement of its \<open>%1\<close>, both of Qt.\<close>

definition line_if :: "(string \<Rightarrow> 's list) \<Rightarrow> bool \<Rightarrow> string \<Rightarrow> 's list" where
  "line_if tr b msg = (if b then tr msg else [])"

definition line_arg :: "(string \<Rightarrow> 's list) \<Rightarrow> ('s list \<Rightarrow> int \<Rightarrow> 's list) \<Rightarrow> int \<Rightarrow> string \<Rightarrow> 's list" where
  "line_arg tr arg n msg = (if n > 0 then arg (tr msg) n else [])"

definition ToString :: "(string \<Rightarrow> 's list) \<Rightarrow> ('s list \<Rightarrow> int \<Rightarrow> 's list) \<Rightarrow> password_requirements \<Rightarrow> 's list" where
  "ToString tr arg r = (if HasRequirements r then
       line_if tr (\<not> unicode r) ''- ASCII only\<newline>''
     @ line_arg tr arg (pwdMaxLen r) ''- maximum length: %1\<newline>''
     @ line_arg tr arg (pwdMinLen r) ''- minimum length: %1\<newline>''
     @ line_arg tr arg (pwdMinLetters r) ''- minimum number of letters: %1\<newline>''
     @ line_arg tr arg (pwdMinUpper r) ''- minimum number of upper case letters: %1\<newline>''
     @ line_arg tr arg (pwdMinLower r) ''- minimum number of lower case letters: %1\<newline>''
     @ line_arg tr arg (pwdMinDigits r) ''- minimum number of digits: %1\<newline>''
     @ line_arg tr arg (pwdMinSymbols r) ''- minimum number of symbols: %1\<newline>''
     @ line_arg tr arg (hintMaxLen r) ''- hint maximum length: %1\<newline>''
     @ line_arg tr arg (hintMinLen r) ''- hint minimum length: %1\<newline>''
     @ line_if tr (hintNotEqual r) ''- hint can not be equal with password\<newline>''
     @ line_arg tr arg (hintMinSimilarity r) ''- hint minimum similarity: %1\<newline>''
     @ line_if tr (newOldNotEqual r) ''- new password can not be equal with old password\<newline>''
     @ line_arg tr arg (newOldMinSimilarity r) ''- new password minimum similarity with old password: %1\<newline>''
     else tr ''There are no requirements.'')"

section \<open>The meaning of the requirements\<close>

definition effective_max :: "int \<Rightarrow> int" where
  "effective_max n = (if n > 0 then n else kQLineEditMaxLength)"

definition at_least :: "int \<Rightarrow> int \<Rightarrow> bool" where
  "at_least required actual \<longleftrightarrow> required \<le> 0 \<or> required \<le> actual"

definition password_policy :: "('x) qchar_api_scheme \<Rightarrow> password_requirements \<Rightarrow> qstring \<Rightarrow> bool" where
  "password_policy api r pwd \<longleftrightarrow>
     (unicode r \<or> CountNonAscii api pwd = 0)
   \<and> int (length pwd) \<le> effective_max (pwdMaxLen r)
   \<and> at_least (pwdMinLen r) (int (length pwd))
   \<and> at_least (pwdMinLetters r) (CountLetters api pwd)
   \<and> at_least (pwdMinUpper r) (CountUpper api pwd)
   \<and> at_least (pwdMinLower r) (CountLower api pwd)
   \<and> at_least (pwdMinDigits r) (CountDigits api pwd)
   \<and> at_least (pwdMinSymbols r) (CountSymbols api pwd)"

definition minimums_nonneg :: "password_requirements \<Rightarrow> bool" where
  "minimums_nonneg r \<longleftrightarrow> 0 \<le> pwdMinLen r \<and> 0 \<le> pwdMinLetters r \<and> 0 \<le> pwdMinUpper r \<and> 0 \<le> pwdMinLower r
     \<and> 0 \<le> pwdMinDigits r \<and> 0 \<le> pwdMinSymbols r"

text \<open>The letters a password must have, and the constraints on lengths in closed form.\<close>

definition letters_needed :: "password_requirements \<Rightarrow> int" where
  "letters_needed r = (if pwdMinLetters r > 0 then pwdMinLetters r else pwdMinUpper r + pwdMinLower r)"

definition length_available :: "password_requirements \<Rightarrow> int" where
  "length_available r = (if pwdMinLen r > 0 then pwdMinLen r else effective_max (pwdMaxLen r))"

definition consistent :: "password_requirements \<Rightarrow> bool" where
  "consistent r \<longleftrightarrow> effective_max (pwdMaxLen r) \<le> kQLineEditMaxLength \<and> pwdMinLen r \<le> effective_max (pwdMaxLen r)
     \<and> effective_max (hintMaxLen r) \<le> kQLineEditMaxLength \<and> hintMinLen r \<le> effective_max (hintMaxLen r)
     \<and> pwdMinUpper r + pwdMinLower r \<le> letters_needed r
     \<and> letters_needed r + pwdMinDigits r + pwdMinSymbols r \<le> length_available r"

section \<open>Lemmas\<close>

lemma cpp_plus_small: "- 1000000000 \<le> a \<Longrightarrow> a \<le> 1000000000 \<Longrightarrow> - 1000000000 \<le> b \<Longrightarrow> b \<le> 1000000000 \<Longrightarrow> cpp_plus a b = Some (a + b)"
  by (simp add: cpp_plus_def int_value_def)

lemma Validate_sums_eq:
  assumes nonneg: "minimums_nonneg r" and max: "maxLen \<le> kQLineEditMaxLength"
    and bounds: "pwdMinLen r \<le> maxLen" "pwdMinLetters r \<le> maxLen" "pwdMinUpper r \<le> maxLen" "pwdMinLower r \<le> maxLen"
      "pwdMinDigits r \<le> maxLen" "pwdMinSymbols r \<le> maxLen"
  shows "Validate_sums r maxLen = Some (pwdMinUpper r + pwdMinLower r \<le> letters_needed r
      \<and> letters_needed r + pwdMinDigits r + pwdMinSymbols r \<le> (if pwdMinLen r > 0 then pwdMinLen r else maxLen))"
proof -
  have "0 \<le> n \<Longrightarrow> n \<le> maxLen \<Longrightarrow> 0 \<le> m \<Longrightarrow> m \<le> maxLen \<Longrightarrow> cpp_plus n m = Some (n + m)" for n m
    using max by (intro cpp_plus_small) (simp_all add: kQLineEditMaxLength_def)
  then have up: "cpp_plus (pwdMinUpper r) (pwdMinLower r) = Some (pwdMinUpper r + pwdMinLower r)"
    and dig: "cpp_plus (pwdMinDigits r) (pwdMinSymbols r) = Some (pwdMinDigits r + pwdMinSymbols r)"
    using nonneg bounds by (simp_all add: minimums_nonneg_def)
  have all: "cpp_plus (pwdMinDigits r + pwdMinSymbols r) m = Some (pwdMinDigits r + pwdMinSymbols r + m)"
    if "0 \<le> m" "m \<le> 2 * maxLen" for m
    using nonneg bounds max that by (intro cpp_plus_small) (simp_all add: minimums_nonneg_def kQLineEditMaxLength_def)
  show ?thesis
  proof (cases "pwdMinLetters r > 0")
    case True
    then show ?thesis
      using nonneg bounds max all[of "pwdMinLetters r"] up dig
      by (auto simp: Validate_sums_def letters_needed_def exceeds_length_def exceeds_letters_def minimums_nonneg_def)
  next
    case False
    then show ?thesis
      using nonneg bounds max all[of "pwdMinUpper r + pwdMinLower r"] up dig
      by (auto simp: Validate_sums_def letters_needed_def exceeds_length_def exceeds_letters_def minimums_nonneg_def)
  qed
qed

lemma effective_max_pos: "0 < effective_max n"
  by (simp add: effective_max_def kQLineEditMaxLength_def)

lemma effective_max_rejects: "effective_max n \<le> kQLineEditMaxLength \<longleftrightarrow> \<not> (n > 0 \<and> n > kQLineEditMaxLength)"
  by (auto simp: effective_max_def)

lemma consistent_bounds:
  assumes "minimums_nonneg r" "consistent r"
  shows "\<not> exceeds_length r (effective_max (pwdMaxLen r)) (pwdMinLetters r)"
    "\<not> exceeds_letters r (effective_max (pwdMaxLen r)) (pwdMinUpper r)"
    "\<not> exceeds_letters r (effective_max (pwdMaxLen r)) (pwdMinLower r)"
    "\<not> exceeds_length r (effective_max (pwdMaxLen r)) (pwdMinDigits r)"
    "\<not> exceeds_length r (effective_max (pwdMaxLen r)) (pwdMinSymbols r)"
  using assms effective_max_pos[of "pwdMaxLen r"]
  by (auto simp: exceeds_length_def exceeds_letters_def consistent_def minimums_nonneg_def letters_needed_def
      length_available_def split: if_splits)

lemma accepted_bounds:
  assumes "minimums_nonneg r" "\<not> (pwdMinLen r > 0 \<and> pwdMinLen r > maxLen)" "0 < maxLen"
    "\<not> (pwdMinLetters r > 0 \<and> exceeds_length r maxLen (pwdMinLetters r))"
    "\<not> (pwdMinUpper r > 0 \<and> exceeds_letters r maxLen (pwdMinUpper r))"
    "\<not> (pwdMinLower r > 0 \<and> exceeds_letters r maxLen (pwdMinLower r))"
    "\<not> (pwdMinDigits r > 0 \<and> exceeds_length r maxLen (pwdMinDigits r))"
    "\<not> (pwdMinSymbols r > 0 \<and> exceeds_length r maxLen (pwdMinSymbols r))"
  shows "pwdMinLen r \<le> maxLen" "pwdMinLetters r \<le> maxLen" "pwdMinUpper r \<le> maxLen" "pwdMinLower r \<le> maxLen"
    "pwdMinDigits r \<le> maxLen" "pwdMinSymbols r \<le> maxLen"
  using assms by (auto simp: exceeds_length_def exceeds_letters_def minimums_nonneg_def split: if_splits)

lemma Validate_consistent:
  assumes "minimums_nonneg r"
  shows "Validate r = Some (consistent r)"
proof -
  let ?M = "effective_max (pwdMaxLen r)"
  have eff: "(if pwdMaxLen r > 0 then pwdMaxLen r else kQLineEditMaxLength) = ?M"
    "(if hintMaxLen r > 0 then hintMaxLen r else kQLineEditMaxLength) = effective_max (hintMaxLen r)"
    by (simp_all add: effective_max_def)
  show ?thesis
  proof (cases "consistent r")
    case True
    then have ok: "pwdMinLen r \<le> ?M" "?M \<le> kQLineEditMaxLength" "hintMinLen r \<le> effective_max (hintMaxLen r)"
      "effective_max (hintMaxLen r) \<le> kQLineEditMaxLength"
      by (simp_all add: consistent_def)
    note bounds = accepted_bounds[OF assms _ effective_max_pos]
    have "Validate_sums r ?M = Some True"
      using Validate_sums_eq[OF assms ok(2)] bounds consistent_bounds[OF assms True] ok True
      by (simp add: consistent_def length_available_def)
    moreover have "Validate r = Validate_sums r ?M"
      using consistent_bounds[OF assms True] ok
      by (auto simp: Validate_def eff effective_max_rejects)
    ultimately show ?thesis using True by simp
  next
    case False
    show ?thesis
    proof (rule ccontr)
      assume "Validate r \<noteq> Some (consistent r)"
      then have "Validate r \<noteq> Some False" using False by simp
      then have ok: "?M \<le> kQLineEditMaxLength" "\<not> (pwdMinLen r > 0 \<and> pwdMinLen r > ?M)"
          "\<not> (pwdMinLetters r > 0 \<and> exceeds_length r ?M (pwdMinLetters r))"
          "\<not> (pwdMinUpper r > 0 \<and> exceeds_letters r ?M (pwdMinUpper r))"
          "\<not> (pwdMinLower r > 0 \<and> exceeds_letters r ?M (pwdMinLower r))"
          "\<not> (pwdMinDigits r > 0 \<and> exceeds_length r ?M (pwdMinDigits r))"
          "\<not> (pwdMinSymbols r > 0 \<and> exceeds_length r ?M (pwdMinSymbols r))"
          "effective_max (hintMaxLen r) \<le> kQLineEditMaxLength"
          "\<not> (hintMinLen r > 0 \<and> hintMinLen r > effective_max (hintMaxLen r))"
        and sums: "Validate_sums r ?M \<noteq> Some False"
        unfolding Validate_def eff effective_max_rejects Let_def by presburger+
      note bounds = accepted_bounds[OF assms ok(2) effective_max_pos ok(3-7)]
      have "hintMinLen r \<le> effective_max (hintMaxLen r)"
        using ok(9) effective_max_pos[of "hintMaxLen r"] by linarith
      then have "consistent r"
        using Validate_sums_eq[OF assms ok(1) bounds] sums bounds(1) ok(1,8)
        by (simp add: consistent_def length_available_def)
      then show False using False by simp
    qed
  qed
qed

lemma default_requirements_valid: "Validate default_requirements = Some True"
  by (simp add: Validate_consistent minimums_nonneg_def default_requirements_def consistent_def effective_max_def
      kQLineEditMaxLength_def letters_needed_def length_available_def)

lemma cleared_requirements_valid: "Validate cleared_requirements = Some True"
  by (simp add: Validate_consistent minimums_nonneg_def cleared_requirements_def consistent_def effective_max_def
      kQLineEditMaxLength_def letters_needed_def length_available_def)

section \<open>Properties\<close>

text \<open>For minimums that are not negative the cascade of comparisons has no undefined behaviour and
  is equivalent to five inequalities: both maximums are at most the limit of a line edit, each minimum
  length is at most its maximum, the upper and lower case letters fit in the letters, and the letters,
  digits and symbols together fit in the minimum length (in the maximum when there is no minimum).\<close>

theorem Validate_closed_form:
  assumes "minimums_nonneg r"
  shows "Validate r = Some (
      pwdMaxLen r \<le> 32767 \<and> pwdMinLen r \<le> effective_max (pwdMaxLen r)
    \<and> hintMaxLen r \<le> 32767 \<and> hintMinLen r \<le> effective_max (hintMaxLen r)
    \<and> (0 < pwdMinLetters r \<longrightarrow> pwdMinUpper r + pwdMinLower r \<le> pwdMinLetters r)
    \<and> letters_needed r + pwdMinDigits r + pwdMinSymbols r
        \<le> (if 0 < pwdMinLen r then pwdMinLen r else effective_max (pwdMaxLen r)))"
  using Validate_consistent[OF assms]
  by (auto simp: consistent_def length_available_def effective_max_def kQLineEditMaxLength_def letters_needed_def)

theorem Validate_closed_form_witness:
  "Validate (default_requirements\<lparr>pwdMinDigits := 6\<rparr>) = Some False
   \<and> Validate (default_requirements\<lparr>pwdMinDigits := 5\<rparr>) = Some True"
proof -
  have "minimums_nonneg (default_requirements\<lparr>pwdMinDigits := 6\<rparr>)" "minimums_nonneg (default_requirements\<lparr>pwdMinDigits := 5\<rparr>)"
    by (simp_all add: minimums_nonneg_def default_requirements_def)
  then show ?thesis
    using Validate_closed_form[of "default_requirements\<lparr>pwdMinDigits := 6\<rparr>"]
      Validate_closed_form[of "default_requirements\<lparr>pwdMinDigits := 5\<rparr>"]
    by (simp add: default_requirements_def letters_needed_def effective_max_def kQLineEditMaxLength_def)
qed

text \<open>The password that meets accepted requirements: upper case letters, lower case letters that fill up
  the letters and the length, digits, symbols.\<close>

definition sample_password :: "password_requirements \<Rightarrow> qchar \<Rightarrow> qchar \<Rightarrow> qchar \<Rightarrow> qchar \<Rightarrow> qstring" where
  "sample_password r u l d s =
     replicate (nat (pwdMinUpper r)) u
   @ replicate (nat (letters_needed r - pwdMinUpper r)) l
   @ replicate (nat (pwdMinDigits r)) d
   @ replicate (nat (pwdMinSymbols r)) s
   @ replicate (nat (pwdMinLen r - (letters_needed r + pwdMinDigits r + pwdMinSymbols r))) l"

definition ascii_samples :: "('x) qchar_api_scheme \<Rightarrow> qchar \<Rightarrow> qchar \<Rightarrow> qchar \<Rightarrow> qchar \<Rightarrow> bool" where
  "ascii_samples api u l d s \<longleftrightarrow> isLetter api u \<and> isUpper api u \<and> isLetter api l \<and> isLower api l \<and> isDigit api d
     \<and> isSymbol api s \<and> (\<forall>c\<in>{u, l, d, s}. IsAscii_chr api c)"

lemma sample_password_policy:
  assumes nonneg: "minimums_nonneg r" and ok: "consistent r" and samples: "ascii_samples api u l d s"
  shows "password_policy api r (sample_password r u l d s)"
proof -
  have n: "0 \<le> pwdMinUpper r" "0 \<le> letters_needed r - pwdMinUpper r" "0 \<le> pwdMinDigits r" "0 \<le> pwdMinSymbols r"
    "pwdMinLower r \<le> letters_needed r - pwdMinUpper r" "pwdMinLetters r \<le> letters_needed r"
    using nonneg ok by (auto simp: minimums_nonneg_def consistent_def letters_needed_def)
  have c: "isLetter api u" "isUpper api u" "isLetter api l" "isLower api l" "isDigit api d" "isSymbol api s"
    "IsAscii_chr api u" "IsAscii_chr api l" "IsAscii_chr api d" "IsAscii_chr api s"
    using samples by (auto simp: ascii_samples_def)
  have len: "int (length (sample_password r u l d s)) = max (pwdMinLen r) (letters_needed r + pwdMinDigits r + pwdMinSymbols r)"
    using n by (simp add: sample_password_def)
  have "max (pwdMinLen r) (letters_needed r + pwdMinDigits r + pwdMinSymbols r) \<le> effective_max (pwdMaxLen r)"
    using ok by (auto simp: consistent_def length_available_def split: if_splits)
  moreover have "pwdMinLetters r \<le> CountLetters api (sample_password r u l d s)"
    "pwdMinUpper r \<le> CountUpper api (sample_password r u l d s)"
    "pwdMinLower r \<le> CountLower api (sample_password r u l d s)"
    "pwdMinDigits r \<le> CountDigits api (sample_password r u l d s)"
    "pwdMinSymbols r \<le> CountSymbols api (sample_password r u l d s)"
    "CountNonAscii api (sample_password r u l d s) = 0"
    using n c by (simp_all add: sample_password_def Count_defs)
  ultimately show ?thesis by (simp add: password_policy_def at_least_def len)
qed

text \<open>Requirements that \<open>Validate\<close> accepts can be met.  When no minimum is negative, \<open>Validate\<close>
  answers \<open>true\<close> and Qt knows an ASCII upper case letter, lower case letter, digit and symbol, there is a
  password that satisfies every requirement.\<close>

theorem Validate_accepts_satisfiable:
  assumes "minimums_nonneg r" and "Validate r = Some True" and "ascii_samples api u l d s"
  shows "\<exists>pwd. password_policy api r pwd"
proof
  show "password_policy api r (sample_password r u l d s)"
    using assms Validate_consistent[OF assms(1)] by (simp add: sample_password_policy)
qed

theorem Validate_accepts_satisfiable_witness:
  "\<exists>pwd. password_policy ascii_api (default_requirements\<lparr>unicode := False, pwdMaxLen := 8, pwdMinDigits := 5\<rparr>) pwd"
proof (rule Validate_accepts_satisfiable)
  let ?r = "default_requirements\<lparr>unicode := False, pwdMaxLen := 8, pwdMinDigits := 5\<rparr>"
  show nn: "minimums_nonneg ?r" by (simp add: minimums_nonneg_def default_requirements_def)
  show "Validate ?r = Some True"
    by (subst Validate_consistent[OF nn]) (simp add: default_requirements_def consistent_def effective_max_def
        kQLineEditMaxLength_def letters_needed_def length_available_def)
  show "ascii_samples ascii_api 65 97 48 43"
    by (simp add: ascii_samples_def ascii_api_def IsAscii_chr_def)
qed

text \<open>A negative minimum, which the documentation calls no requirement, is subtracted from the sum:
  \<open>Validate\<close> accepts a length of exactly 8 with 8 letters, 8 digits and \<open>-8\<close> symbols, which no password
  satisfies when Qt's categories are disjoint; with 0 symbols it rejects the same requirements.\<close>

theorem Validate_negative_minimum:
  assumes "categories_disjoint api"
  shows "Validate (cleared_requirements\<lparr>pwdMaxLen := 8, pwdMinLen := 8, pwdMinLetters := 8, pwdMinDigits := 8,
            pwdMinSymbols := -8\<rparr>) = Some True
    \<and> \<not> (\<exists>pwd. password_policy api (cleared_requirements\<lparr>pwdMaxLen := 8, pwdMinLen := 8, pwdMinLetters := 8,
            pwdMinDigits := 8, pwdMinSymbols := -8\<rparr>) pwd)
    \<and> Validate (cleared_requirements\<lparr>pwdMaxLen := 8, pwdMinLen := 8, pwdMinLetters := 8, pwdMinDigits := 8,
            pwdMinSymbols := 0\<rparr>) = Some False"
proof -
  have disj: "CountLetters api pwd + CountDigits api pwd + CountSymbols api pwd \<le> int (length pwd)" for pwd
    unfolding Count_defs using assms by (intro count_loop_disjoint3) (auto simp: categories_disjoint_def)
  have unmet: "\<not> password_policy api (cleared_requirements\<lparr>pwdMaxLen := 8, pwdMinLen := 8, pwdMinLetters := 8,
      pwdMinDigits := 8, pwdMinSymbols := -8\<rparr>) pwd" for pwd
  proof
    assume "password_policy api (cleared_requirements\<lparr>pwdMaxLen := 8, pwdMinLen := 8, pwdMinLetters := 8,
      pwdMinDigits := 8, pwdMinSymbols := -8\<rparr>) pwd"
    then have "int (length pwd) \<le> 8" "8 \<le> CountLetters api pwd" "8 \<le> CountDigits api pwd"
      by (simp_all add: password_policy_def cleared_requirements_def at_least_def effective_max_def)
    moreover have "0 \<le> CountSymbols api pwd" by (simp add: CountSymbols_def)
    ultimately show False using disj[of pwd] by linarith
  qed
  show ?thesis
    by (simp add: unmet) (simp add: Validate_def Validate_sums_def cleared_requirements_def exceeds_length_def
        exceeds_letters_def kQLineEditMaxLength_def cpp_plus_def int_value_def)
qed

theorem Validate_negative_minimum_witness:
  "\<not> (\<exists>pwd. password_policy ascii_api (cleared_requirements\<lparr>pwdMaxLen := 8, pwdMinLen := 8, pwdMinLetters := 8,
      pwdMinDigits := 8, pwdMinSymbols := -8\<rparr>) pwd)"
  using Validate_negative_minimum[OF ascii_api_documented(2)] by simp

section \<open>The class invariant\<close>

text \<open>One use of the operations of the class on an object.\<close>

datatype requirements_op = OpSet password_requirements | OpClear | OpClearHint | OpClearNew

fun run_requirements_op :: "requirements_op \<Rightarrow> (exn, unit, 'w \<times> password_requirements) prog" where
  "run_requirements_op (OpSet args) = Set_requirements args"
| "run_requirements_op OpClear = Clear_requirements"
| "run_requirements_op OpClearHint = ClearHint"
| "run_requirements_op OpClearNew = ClearNew"

text \<open>A caller that catches what an operation throws and goes on; \<open>None\<close> for undefined behaviour.\<close>

fun run_requirements_ops :: "requirements_op list \<Rightarrow> 'w \<times> password_requirements \<Rightarrow> ('w \<times> password_requirements) option" where
  "run_requirements_ops [] s = Some s"
| "run_requirements_ops (op # ops) s = Option.bind (run_requirements_op op s) (\<lambda>res. run_requirements_ops ops (res_state res))"

lemma Validate_True_iff:
  "Validate r = Some True \<longleftrightarrow>
     effective_max (pwdMaxLen r) \<le> kQLineEditMaxLength \<and> pwdMinLen r \<le> effective_max (pwdMaxLen r)
   \<and> \<not> (pwdMinLetters r > 0 \<and> exceeds_length r (effective_max (pwdMaxLen r)) (pwdMinLetters r))
   \<and> \<not> (pwdMinUpper r > 0 \<and> exceeds_letters r (effective_max (pwdMaxLen r)) (pwdMinUpper r))
   \<and> \<not> (pwdMinLower r > 0 \<and> exceeds_letters r (effective_max (pwdMaxLen r)) (pwdMinLower r))
   \<and> \<not> (pwdMinDigits r > 0 \<and> exceeds_length r (effective_max (pwdMaxLen r)) (pwdMinDigits r))
   \<and> \<not> (pwdMinSymbols r > 0 \<and> exceeds_length r (effective_max (pwdMaxLen r)) (pwdMinSymbols r))
   \<and> effective_max (hintMaxLen r) \<le> kQLineEditMaxLength \<and> hintMinLen r \<le> effective_max (hintMaxLen r)
   \<and> Validate_sums r (effective_max (pwdMaxLen r)) = Some True"
proof -
  have *: "pwdMinLen r \<le> effective_max (pwdMaxLen r) \<longleftrightarrow> \<not> (pwdMinLen r > 0 \<and> pwdMinLen r > effective_max (pwdMaxLen r))"
    "hintMinLen r \<le> effective_max (hintMaxLen r) \<longleftrightarrow> \<not> (hintMinLen r > 0 \<and> hintMinLen r > effective_max (hintMaxLen r))"
    using effective_max_pos[of "pwdMaxLen r"] effective_max_pos[of "hintMaxLen r"] by linarith+
  have nest: "(if b then Some False else x) = Some True \<longleftrightarrow> \<not> b \<and> x = Some True" for b x by simp
  show ?thesis
    unfolding Validate_def Let_def effective_max_def[symmetric] effective_max_rejects * nest by blast
qed

lemma Validate_ignores_new:
  "Validate r = Some True \<Longrightarrow> Validate (r\<lparr>newOldNotEqual := b, newOldMinSimilarity := n\<rparr>) = Some True"
  by (simp add: Validate_True_iff Validate_sums_def exceeds_length_def exceeds_letters_def cong: if_cong)

lemma Validate_without_hint:
  "Validate r = Some True \<Longrightarrow>
    Validate (r\<lparr>hintMaxLen := 0, hintMinLen := 0, hintNotEqual := b, hintMinSimilarity := n\<rparr>) = Some True"
  by (simp add: Validate_True_iff Validate_sums_def exceeds_length_def exceeds_letters_def effective_max_def
      kQLineEditMaxLength_def cong: if_cong)

lemma run_requirements_op_valid:
  assumes "Validate (snd s) = Some True" and "run_requirements_op op s = Some res"
  shows "Validate (snd (res_state res)) = Some True"
proof (cases s)
  case (Pair w r)
  show ?thesis
  proof (cases op)
    case (OpSet args)
    then show ?thesis
      using assms Pair by (cases "Validate args") (auto simp: Set_requirements_def check_def split: if_splits)
  qed (use assms Pair in \<open>auto simp: Clear_requirements_def Set_requirements_def cleared_requirements_valid ClearHint_def
      ClearNew_def Validate_ignores_new Validate_without_hint\<close>)
qed

lemma run_requirements_ops_valid:
  "run_requirements_ops ops s = Some s' \<Longrightarrow> Validate (snd s) = Some True \<Longrightarrow> Validate (snd s') = Some True"
proof (induction ops arbitrary: s)
  case (Cons op ops)
  then obtain res where "run_requirements_op op s = Some res" "run_requirements_ops ops (res_state res) = Some s'"
    by (auto simp: bind_eq_Some_conv)
  then show ?case using Cons.IH run_requirements_op_valid[OF Cons.prems(2)] by blast
qed simp

lemma Set_requirements_spec:
  "Validate args = Some v \<Longrightarrow>
    Set_requirements args (w, r) = Some (if v then Ret () (w, args) else Exc InvalidArgument (w, r))"
  by (cases v) (simp_all add: Set_requirements_def)

lemma Requirements_ctor_eq: "Requirements_ctor ndebug args = Set_requirements args"
  by (rule ext) (simp add: Requirements_ctor_def default_requirements_valid)

text \<open>The invariant of the class.  The constructor and \<open>Set\<close> either store exactly the arguments, when
  \<open>Validate\<close> accepts them, or throw \<open>InvalidArgumentException\<close> and leave the object as it was; the
  assertion of the constructor never fails; and whatever \<open>Set\<close>, \<open>Clear\<close>, \<open>ClearHint\<close> and \<open>ClearNew\<close> are
  called on a constructed object, its members are always ones that \<open>Validate\<close> accepts.\<close>

theorem requirements_always_valid:
  "(\<forall>args v w r. Validate args = Some v \<longrightarrow>
      Requirements_ctor ndebug args (w, r) = Some (if v then Ret () (w, args) else Exc InvalidArgument (w, r))
    \<and> Set_requirements args (w, r) = Some (if v then Ret () (w, args) else Exc InvalidArgument (w, r)))
   \<and> (\<forall>args w r s ops s'. Requirements_ctor ndebug args (w, r) = Some (Ret () s) \<longrightarrow>
        run_requirements_ops ops s = Some s' \<longrightarrow> Validate (snd s') = Some True)"
proof (intro conjI allI impI)
  fix args v and w :: 'a and r
  assume v: "Validate args = Some v"
  then show "Set_requirements args (w, r) = Some (if v then Ret () (w, args) else Exc InvalidArgument (w, r))"
    and "Requirements_ctor ndebug args (w, r) = Some (if v then Ret () (w, args) else Exc InvalidArgument (w, r))"
    by (simp_all add: Set_requirements_spec Requirements_ctor_eq)
next
  fix args r and w :: 'b and s ops s'
  assume ctor: "Requirements_ctor ndebug args (w, r) = Some (Ret () s)" and ops: "run_requirements_ops ops s = Some s'"
  have "Validate (snd s) = Some True"
    using ctor by (cases "Validate args") (auto simp: Requirements_ctor_eq Set_requirements_def check_def split: if_splits)
  with ops show "Validate (snd s') = Some True" by (rule run_requirements_ops_valid)
qed

theorem requirements_always_valid_witness:
  "Requirements_ctor False default_requirements ((), cleared_requirements) = Some (Ret () ((), default_requirements))
   \<and> Set_requirements (default_requirements\<lparr>pwdMinDigits := 6\<rparr>) ((), default_requirements)
       = Some (Exc InvalidArgument ((), default_requirements))
   \<and> Validate (snd (the (run_requirements_ops [OpClearNew, OpClearHint] ((), default_requirements)))) = Some True"
proof -
  note spec = requirements_always_valid[of False, where 'a = unit and 'b = unit]
  note outcome = spec[THEN conjunct1, rule_format] and valid = spec[THEN conjunct2, rule_format]
  note ctor = outcome[OF default_requirements_valid, THEN conjunct1, simplified if_True]
  have "minimums_nonneg (default_requirements\<lparr>pwdMinDigits := 6\<rparr>)"
    by (simp add: minimums_nonneg_def default_requirements_def)
  then have "Validate (default_requirements\<lparr>pwdMinDigits := 6\<rparr>) = Some False"
    by (subst Validate_consistent) (simp_all add: default_requirements_def consistent_def effective_max_def
        kQLineEditMaxLength_def letters_needed_def length_available_def)
  note reject = outcome[OF this, THEN conjunct2, simplified if_False]
  obtain s where "run_requirements_ops [OpClearNew, OpClearHint] ((), default_requirements) = Some s"
    by (simp add: ClearNew_def ClearHint_def)
  then have "Validate (snd (the (run_requirements_ops [OpClearNew, OpClearHint] ((), default_requirements)))) = Some True"
    using valid[OF ctor] by (metis option.sel)
  then show ?thesis using ctor reject by blast
qed

text \<open>Without requirements every password within the limit of a line edit meets the policy.\<close>

lemma no_requirements:
  "\<not> HasRequirements r \<Longrightarrow> password_policy api r pwd \<longleftrightarrow> int (length pwd) \<le> kQLineEditMaxLength"
  by (auto simp: HasRequirements_def password_policy_def at_least_def effective_max_def)

end
