(* ===== verification/EditDistance.thy ===== *)
theory EditDistance
imports Main
begin

text \<open>
  The string distance (\<open>src/util/damerau_levenshtein_distance.cpp\<close>): the matrix of the function as a list of
  rows, its loops in the order of the code, and the recursive distance it computes.  Matrix cells are C
  \<open>int\<close>s between 0 and the longer length plus 3, so their sums do not overflow.
\<close>

section \<open>The function\<close>

type_synonym matrix = "int list list"

definition set_cell :: "matrix \<Rightarrow> nat \<Rightarrow> nat \<Rightarrow> int \<Rightarrow> matrix" where
  "set_cell M i j x = M[i := (M ! i)[j := x]]"

text \<open>Steps 1 and 2: the matrix of \<open>n + 1\<close> rows of \<open>m + 1\<close> zeros, its first column, its first row.\<close>

definition init_matrix :: "nat \<Rightarrow> nat \<Rightarrow> matrix" where
  "init_matrix n m = (let
     matrix0 = replicate (n + 1) (replicate (m + 1) 0);
     matrix1 = foldl (\<lambda>M i. set_cell M i 0 (int i)) matrix0 [0..<n + 1]
     in foldl (\<lambda>M j. set_cell M 0 j (int j)) matrix1 [0..<m + 1])"

text \<open>Steps 5, 6 and 6A: the value of one cell.\<close>

definition cell_value :: "'c list \<Rightarrow> 'c list \<Rightarrow> matrix \<Rightarrow> nat \<Rightarrow> nat \<Rightarrow> int" where
  "cell_value source target M i j = (let
     s_i = source ! (i - 1);
     t_j = target ! (j - 1);
     cost = (if s_i = t_j then 0 else 1);
     above = M ! (i - 1) ! j;
     left = M ! i ! (j - 1);
     diag = M ! (i - 1) ! (j - 1);
     cell = min (above + 1) (min (left + 1) (diag + cost))
     in if i > 2 \<and> j > 2 then
          let trans = M ! (i - 2) ! (j - 2) + 1;
              trans = (if source ! (i - 2) \<noteq> t_j then trans + 1 else trans);
              trans = (if s_i \<noteq> target ! (j - 2) then trans + 1 else trans)
          in if cell > trans then trans else cell
        else cell)"

definition fill_row :: "'c list \<Rightarrow> 'c list \<Rightarrow> matrix \<Rightarrow> nat \<Rightarrow> matrix" where
  "fill_row source target M i =
     foldl (\<lambda>M j. set_cell M i j (cell_value source target M i j)) M [1..<length target + 1]"

definition DamerauLevenshteinDistance :: "'c list \<Rightarrow> 'c list \<Rightarrow> int" where
  "DamerauLevenshteinDistance source target =
     (let n = length source; m = length target in
      if n = 0 then int m
      else if m = 0 then int n
      else foldl (fill_row source target) (init_matrix n m) [1..<n + 1] ! n ! m)"

section \<open>The recursive distance\<close>

text \<open>\<open>dist g s t i j\<close>: the distance of the first \<open>i\<close> characters of \<open>s\<close> and the first \<open>j\<close> of \<open>t\<close>, where two
  neighbours may be exchanged when both prefixes have at least \<open>g\<close> characters.  \<open>g = 2\<close> is the optimal string
  alignment distance of the literature; the code has \<open>g = 3\<close>.\<close>

definition cost :: "'c \<Rightarrow> 'c \<Rightarrow> int" where
  "cost x y = (if x = y then 0 else 1)"

fun dist :: "nat \<Rightarrow> 'c list \<Rightarrow> 'c list \<Rightarrow> nat \<Rightarrow> nat \<Rightarrow> int" where
  "dist g s t 0 j = int j"
| "dist g s t (Suc i) 0 = int (Suc i)"
| "dist g s t (Suc i) (Suc j) =
     (let cell = min (dist g s t i (Suc j) + 1) (min (dist g s t (Suc i) j + 1) (dist g s t i j + cost (s ! i) (t ! j)))
      in if g \<le> Suc i \<and> g \<le> Suc j
         then min cell (dist g s t (i - 1) (j - 1) + 1 + cost (s ! (i - 1)) (t ! j) + cost (s ! i) (t ! (j - 1)))
         else cell)"

definition reference_distance :: "'c list \<Rightarrow> 'c list \<Rightarrow> int" where
  "reference_distance s t = dist 2 s t (length s) (length t)"

section \<open>The loops compute the recursive distance\<close>

definition filled :: "'c list \<Rightarrow> 'c list \<Rightarrow> nat \<Rightarrow> nat \<Rightarrow> matrix \<Rightarrow> bool" where
  "filled s t i j M \<longleftrightarrow> length M = length s + 1 \<and> (\<forall>a\<le>length s. length (M ! a) = length t + 1)
     \<and> (\<forall>a\<le>length s. \<forall>b\<le>length t. a = 0 \<or> b = 0 \<or> a < i \<or> a = i \<and> b < j \<longrightarrow> M ! a ! b = dist 3 s t a b)"

lemma set_cell_nth:
  assumes "i < length M" "j < length (M ! i)"
  shows "set_cell M i j x ! a = (if a = i then (M ! i)[j := x] else M ! a)"
    and "set_cell M i j x ! a ! b = (if a = i \<and> b = j then x else M ! a ! b)"
    and "length (set_cell M i j x) = length M"
  using assms by (auto simp: set_cell_def nth_list_update)

definition rect :: "nat \<Rightarrow> nat \<Rightarrow> matrix \<Rightarrow> bool" where
  "rect n m M \<longleftrightarrow> length M = n + 1 \<and> (\<forall>a\<le>n. length (M ! a) = m + 1)"

lemma rect_set_cell: "rect n m M \<Longrightarrow> i \<le> n \<Longrightarrow> j \<le> m \<Longrightarrow> rect n m (set_cell M i j x)"
  by (simp add: rect_def set_cell_def nth_list_update)

lemma rect_nth:
  "rect n m M \<Longrightarrow> i \<le> n \<Longrightarrow> j \<le> m \<Longrightarrow> set_cell M i j x ! a ! b = (if a = i \<and> b = j then x else M ! a ! b)"
  by (rule set_cell_nth(2)) (simp_all add: rect_def)

lemma first_column:
  assumes "rect n m M"
  shows "k \<le> n + 1 \<Longrightarrow> rect n m (foldl (\<lambda>M i. set_cell M i 0 (int i)) M [0..<k])
     \<and> (\<forall>a b. foldl (\<lambda>M i. set_cell M i 0 (int i)) M [0..<k] ! a ! b = (if b = 0 \<and> a < k then int a else M ! a ! b))"
  by (induction k) (auto simp: assms rect_set_cell rect_nth[where n = n and m = m] less_Suc_eq)

lemma first_row:
  assumes "rect n m M"
  shows "k \<le> m + 1 \<Longrightarrow> rect n m (foldl (\<lambda>M j. set_cell M 0 j (int j)) M [0..<k])
     \<and> (\<forall>a b. foldl (\<lambda>M j. set_cell M 0 j (int j)) M [0..<k] ! a ! b = (if a = 0 \<and> b < k then int b else M ! a ! b))"
  by (induction k) (auto simp: assms rect_set_cell rect_nth[where n = n and m = m] less_Suc_eq)

lemma init_matrix_nth:
  "rect n m (init_matrix n m)"
  "a \<le> n \<Longrightarrow> b \<le> m \<Longrightarrow> init_matrix n m ! a ! b = (if a = 0 then int b else if b = 0 then int a else 0)"
proof -
  let ?Z = "replicate (n + 1) (replicate (m + 1) 0) :: matrix"
  have "rect n m ?Z" by (auto simp: rect_def simp del: replicate_Suc)
  note col = first_column[OF this le_refl]
  note row = first_row[OF col[THEN conjunct1] le_refl]
  have "a \<le> n \<Longrightarrow> b \<le> m \<Longrightarrow> ?Z ! a ! b = 0" by (simp del: replicate_Suc)
  then show "rect n m (init_matrix n m)"
    "a \<le> n \<Longrightarrow> b \<le> m \<Longrightarrow> init_matrix n m ! a ! b = (if a = 0 then int b else if b = 0 then int a else 0)"
    using row[THEN conjunct1] row[THEN conjunct2, rule_format, of a b] col[THEN conjunct2, rule_format, of a b]
    unfolding init_matrix_def Let_def by simp_all
qed

lemma dist_0_right [simp]: "dist g s t i 0 = int i"
  by (cases i) simp_all

lemma filled_init: "filled s t 1 1 (init_matrix (length s) (length t))"
  using init_matrix_nth(1)[of "length s" "length t"]
  by (auto simp: filled_def rect_def init_matrix_nth(2) le_Suc_eq)

lemma cost_add: "(if x \<noteq> y then d + 1 else d) = d + cost x y"
  by (simp add: cost_def)

lemma cell_value_dist:
  assumes "filled s t i j M" and i: "1 \<le> i" "i \<le> length s" and j: "1 \<le> j" "j \<le> length t"
  shows "cell_value s t M i j = dist 3 s t i j"
proof -
  obtain i' j' where [simp]: "i = Suc i'" "j = Suc j'" using i j by (cases i; cases j) auto
  have M: "M ! a ! b = dist 3 s t a b" if "a \<le> i" "b \<le> j" "a < i \<or> b < j" for a b
  proof (cases "a < i")
    case False
    then show ?thesis using that assms by (auto simp: filled_def)
  qed (use that assms in \<open>simp add: filled_def\<close>)
  have "M ! i' ! Suc j' = dist 3 s t i' (Suc j')" "M ! Suc i' ! j' = dist 3 s t (Suc i') j'"
    "M ! i' ! j' = dist 3 s t i' j'" "M ! (i' - 1) ! (j' - 1) = dist 3 s t (i' - 1) (j' - 1)"
    by (rule M; simp; linarith)+
  moreover have "(if x < c then x else c) = min c x" for x c :: int by simp
  moreover have "Suc a - 2 = a - 1" "2 < Suc a \<longleftrightarrow> 3 \<le> Suc a" for a by auto
  ultimately show ?thesis
    by (simp only: cell_value_def Let_def dist.simps \<open>i = Suc i'\<close> \<open>j = Suc j'\<close> diff_Suc_1 cost_add cost_def[symmetric])
qed

lemma filled_step:
  assumes M: "filled s t i j M" and "1 \<le> i" "i \<le> length s" "1 \<le> j" "j \<le> length t"
  shows "filled s t i (Suc j) (set_cell M i j (cell_value s t M i j))"
proof -
  have "i < length M" "j < length (M ! i)" using assms by (simp_all add: filled_def)
  then show ?thesis
    using M assms(2,4) cell_value_dist[OF assms]
    by (auto simp: filled_def set_cell_nth less_Suc_eq)
qed

lemma filled_row_aux:
  assumes "filled s t i 1 M" "1 \<le> i" "i \<le> length s" "k \<le> length t"
  shows "filled s t i (Suc k) (foldl (\<lambda>M j. set_cell M i j (cell_value s t M i j)) M [1..<Suc k])"
  using assms(4)
proof (induction k)
  case (Suc k)
  then show ?case using filled_step[of s t i "Suc k"] assms(2,3) by simp
qed (use assms in simp)

lemma filled_row_end: "filled s t i (Suc (length t)) N \<Longrightarrow> filled s t (Suc i) 1 N"
  unfolding filled_def by (metis less_Suc_eq less_Suc_eq_le One_nat_def less_one)

lemma filled_row:
  "filled s t i 1 M \<Longrightarrow> 1 \<le> i \<Longrightarrow> i \<le> length s \<Longrightarrow> filled s t (Suc i) 1 (fill_row s t M i)"
  using filled_row_end[OF filled_row_aux[of s t i M "length t"]] by (simp add: fill_row_def del: upt_Suc)

lemma filled_rows:
  "k \<le> length s \<Longrightarrow> filled s t (Suc k) 1 (foldl (fill_row s t) (init_matrix (length s) (length t)) [1..<Suc k])"
proof (induction k)
  case (Suc k)
  then show ?case using filled_row[of s t "Suc k"] by simp
qed (use filled_init in simp)

lemma DamerauLevenshteinDistance_dist:
  "DamerauLevenshteinDistance s t = dist 3 s t (length s) (length t)"
proof (cases "s = [] \<or> t = []")
  case True
  then show ?thesis by (auto simp: DamerauLevenshteinDistance_def Let_def)
next
  case False
  then show ?thesis
    using filled_rows[of "length s" s t] by (simp add: DamerauLevenshteinDistance_def filled_def)
qed

section \<open>The recursive distance as a distance\<close>

definition min3 :: "int \<Rightarrow> int \<Rightarrow> int \<Rightarrow> int" where
  "min3 a b c = min a (min b c)"

lemma min3_swap: "min3 a b c = min3 b a c"
  and min3_le: "min3 a b c \<le> d \<longleftrightarrow> a \<le> d \<or> b \<le> d \<or> c \<le> d"
  and le_min3: "d \<le> min3 a b c \<longleftrightarrow> d \<le> a \<and> d \<le> b \<and> d \<le> c"
  by (auto simp: min3_def)

lemma cost_sym: "cost x y = cost y x"
  and cost_bounds: "0 \<le> cost x y" "cost x y \<le> 1"
  and cost_same [simp]: "cost x x = 0"
  and cost_pos: "cost x y \<le> 0 \<longleftrightarrow> x = y"
  by (auto simp: cost_def)

lemma dist_cell:
  "\<not> (g \<le> Suc i \<and> g \<le> Suc j) \<Longrightarrow> dist g s t (Suc i) (Suc j) =
     min3 (dist g s t i (Suc j) + 1) (dist g s t (Suc i) j + 1) (dist g s t i j + cost (s ! i) (t ! j))"
  by (cases "g \<le> Suc i"; cases "g \<le> Suc j"; simp add: dist.simps Let_def min3_def)

lemma dist_cell_trans:
  "g \<le> Suc i \<and> g \<le> Suc j \<Longrightarrow> dist g s t (Suc i) (Suc j) = min
     (min3 (dist g s t i (Suc j) + 1) (dist g s t (Suc i) j + 1) (dist g s t i j + cost (s ! i) (t ! j)))
     (dist g s t (i - 1) (j - 1) + 1 + cost (s ! (i - 1)) (t ! j) + cost (s ! i) (t ! (j - 1)))"
  by (simp add: dist.simps Let_def min3_def)

declare dist.simps(3) [simp del]

text \<open>Induction over the cells, with the two kinds of cells as cases.\<close>

lemma dist_induct [case_names row column cell transposed]:
  assumes "\<And>j. P 0 j" and "\<And>i. P (Suc i) 0"
    and "\<And>i j. P i (Suc j) \<Longrightarrow> P (Suc i) j \<Longrightarrow> P i j \<Longrightarrow> \<not> (g \<le> Suc i \<and> g \<le> Suc j) \<Longrightarrow> P (Suc i) (Suc j)"
    and "\<And>i j. P i (Suc j) \<Longrightarrow> P (Suc i) j \<Longrightarrow> P i j \<Longrightarrow> P (i - 1) (j - 1) \<Longrightarrow> g \<le> Suc i \<and> g \<le> Suc j \<Longrightarrow> P (Suc i) (Suc j)"
  shows "P i j"
proof (induction "i + j" arbitrary: i j rule: less_induct)
  case less
  show ?case
  proof (cases i; cases j)
    fix i' j' assume ij: "i = Suc i'" "j = Suc j'"
    have "P i' (Suc j')" "P (Suc i') j'" "P i' j'" "P (i' - 1) (j' - 1)"
      by (rule less; simp add: ij)+
    then show ?thesis unfolding ij using assms(3,4) by blast
  qed (use assms(1,2) in auto)
qed

lemma dist_nonneg: "0 \<le> dist g s t i j"
proof (induction i j rule: dist_induct[where g = g])
  case (cell i j)
  then show ?case
    using cost_bounds(1)[of "s ! i" "t ! j"] unfolding dist_cell[OF cell(4)] le_min3 by simp
next
  case (transposed i j)
  then show ?case
    using cost_bounds(1)[of "s ! i" "t ! j"] cost_bounds(1)[of "s ! (i - 1)" "t ! j"] cost_bounds(1)[of "s ! i" "t ! (j - 1)"]
    unfolding dist_cell_trans[OF transposed(5)] le_min3 min.bounded_iff by simp
qed simp_all

lemma dist_sym: "dist g s t i j = dist g t s j i"
proof (induction i j rule: dist_induct[where g = g])
  case (cell i j)
  then have sym: "\<not> (g \<le> Suc j \<and> g \<le> Suc i)" by blast
  show ?case
    unfolding dist_cell[OF cell(4)] dist_cell[OF sym] cell(1-3) by (simp only: min3_swap cost_sym)
next
  case (transposed i j)
  then have sym: "g \<le> Suc j \<and> g \<le> Suc i" by blast
  show ?case
    unfolding dist_cell_trans[OF transposed(5)] dist_cell_trans[OF sym] transposed(1-4)
    by (simp only: min3_swap cost_sym add.commute add.left_commute add.assoc)
qed simp_all

lemma dist_upper: "dist g s t i j \<le> int (max i j)"
proof (induction i j rule: dist_induct[where g = g])
  case (cell i j)
  then show ?case using cost_bounds(2)[of "s ! i" "t ! j"] unfolding dist_cell[OF cell(4)] min3_le by auto
next
  case (transposed i j)
  then show ?case using cost_bounds(2)[of "s ! i" "t ! j"]
    unfolding dist_cell_trans[OF transposed(5)] min_le_iff_disj min3_le by auto
qed simp_all

lemma dist_lower_aux: "int i - int j \<le> dist g s t i j"
proof (induction i j rule: dist_induct[where g = g])
  case (cell i j)
  then show ?case using cost_bounds(1)[of "s ! i" "t ! j"] unfolding dist_cell[OF cell(4)] le_min3 by simp
next
  case (transposed i j)
  then show ?case
    using cost_bounds(1)[of "s ! i" "t ! j"] cost_bounds(1)[of "s ! (i - 1)" "t ! j"] cost_bounds(1)[of "s ! i" "t ! (j - 1)"]
    unfolding dist_cell_trans[OF transposed(5)] le_min3 min.bounded_iff by simp linarith
qed simp_all

lemma dist_lower: "\<bar>int i - int j\<bar> \<le> dist g s t i j"
  using dist_lower_aux[of i j g s t] dist_lower_aux[of j i g t s] dist_sym[of g s t i j] by linarith

lemma dist_diag_le: "dist g s t (Suc i) (Suc j) \<le> dist g s t i j + cost (s ! i) (t ! j)"
  by (cases "g \<le> Suc i \<and> g \<le> Suc j") (simp_all add: dist_cell dist_cell_trans min_le_iff_disj min3_le)

lemma dist_left_le: "dist g s t (Suc i) (Suc j) \<le> dist g s t (Suc i) j + 1"
  by (cases "g \<le> Suc i \<and> g \<le> Suc j") (simp_all add: dist_cell dist_cell_trans min_le_iff_disj min3_le)

lemma dist_above_le: "dist g s t (Suc i) (Suc j) \<le> dist g s t i (Suc j) + 1"
  by (cases "g \<le> Suc i \<and> g \<le> Suc j") (simp_all add: dist_cell dist_cell_trans min_le_iff_disj min3_le)

lemma dist_trans_le:
  "g \<le> Suc i \<and> g \<le> Suc j \<Longrightarrow> dist g s t (Suc i) (Suc j)
     \<le> dist g s t (i - 1) (j - 1) + 1 + cost (s ! (i - 1)) (t ! j) + cost (s ! i) (t ! (j - 1))"
  by (simp add: dist_cell_trans)

lemma dist_equal: "take i s = take i t \<Longrightarrow> i \<le> length s \<Longrightarrow> i \<le> length t \<Longrightarrow> dist g s t i i \<le> 0"
proof (induction i)
  case (Suc i)
  then have "s ! i = t ! i" "take i s = take i t"
    by (simp_all add: take_Suc_conv_app_nth)
  with Suc dist_diag_le[of g s t i i] show ?case by simp
qed simp

lemma dist_zero_cell: "dist g s t (Suc i) (Suc j) \<le> 0 \<Longrightarrow> dist g s t i j \<le> 0 \<and> s ! i = t ! j"
  using dist_nonneg[of g s t i j] dist_nonneg[of g s t i "Suc j"] dist_nonneg[of g s t "Suc i" j]
    dist_nonneg[of g s t "i - 1" "j - 1"] cost_bounds(1)[of "s ! i" "t ! j"] cost_bounds(1)[of "s ! (i - 1)" "t ! j"]
    cost_bounds(1)[of "s ! i" "t ! (j - 1)"] cost_pos[of "s ! i" "t ! j"]
  by (cases "g \<le> Suc i \<and> g \<le> Suc j") (auto simp: dist_cell dist_cell_trans min_le_iff_disj min3_le)

lemma dist_zero: "dist g s t i j \<le> 0 \<Longrightarrow> i \<le> length s \<Longrightarrow> j \<le> length t \<Longrightarrow> i = j \<and> take i s = take j t"
proof (induction i arbitrary: j)
  case (Suc i)
  note outer = Suc
  show ?case
  proof (cases j)
    case (Suc j')
    then have "dist g s t i j' \<le> 0" "s ! i = t ! j'" using dist_zero_cell outer(2) by blast+
    moreover from this(1) have "i = j' \<and> take i s = take j' t" using outer(1)[of j'] outer(3,4) Suc by linarith
    then have "i = j'" and prefix: "take i s = take j' t" by blast+
    ultimately show ?thesis using outer(3,4) Suc prefix by (simp add: take_Suc_conv_app_nth del: take_Suc)
  qed (use outer(2) dist_lower[of "Suc i" 0 g s t] in simp)
qed simp

section \<open>Comparison with the optimal string alignment distance\<close>

lemma dist_reference_le: "dist 2 s t i j \<le> dist 3 s t i j"
proof (induction i j rule: dist_induct[where g = 3])
  case (cell i j)
  show ?case
    using cell(1-3) dist_above_le[of 2 s t i j] dist_left_le[of 2 s t i j] dist_diag_le[of 2 s t i j] unfolding dist_cell[OF cell(4)] le_min3 by linarith
next
  case (transposed i j)
  then have "2 \<le> Suc i \<and> 2 \<le> Suc j" by simp
  note trans = dist_trans_le[OF this, of s t]
  show ?case
    using transposed(1-4) trans dist_above_le[of 2 s t i j] dist_left_le[of 2 s t i j] dist_diag_le[of 2 s t i j]
    unfolding dist_cell_trans[OF transposed(5)] le_min3 min.bounded_iff by linarith
qed simp_all

text \<open>The cells where only the reference distance considers an exchange: one of the prefixes is the first
  two characters.  The exchange helps there only when both are and they are exchanged.\<close>

definition swapped_front :: "'c list \<Rightarrow> 'c list \<Rightarrow> bool" where
  "swapped_front s t \<longleftrightarrow> 2 \<le> length s \<and> 2 \<le> length t \<and> s ! 0 = t ! 1 \<and> s ! 1 = t ! 0 \<and> s ! 0 \<noteq> s ! 1"

lemma dist_wide:
  assumes "s ! 1 = t ! (j - 1)" "2 \<le> j"
  shows "dist 3 s t 2 (Suc j) \<le> int j"
proof -
  obtain j' where j: "j = Suc j'" "1 \<le> j'" using assms(2) by (cases j) auto
  have "dist 3 s t 2 (Suc j) \<le> dist 3 s t 2 j + 1"
    using dist_left_le[of 3 s t 1 j] by (simp add: numeral_2_eq_2)
  moreover have "dist 3 s t 2 j \<le> dist 3 s t 1 j'"
    using dist_diag_le[of 3 s t 1 j'] assms(1) by (simp add: numeral_2_eq_2 j)
  moreover have "dist 3 s t 1 j' \<le> int j'"
    using dist_upper[of 3 s t 1 j'] j(2) by simp
  ultimately show ?thesis by (simp add: j)
qed

lemma front_exchange:
  assumes "1 \<le> j"
  shows "dist 3 s t 2 (Suc j) \<le> int j + cost (s ! 0) (t ! j) + cost (s ! 1) (t ! (j - 1))
      + (if j = 1 \<and> s ! 0 = t ! 1 \<and> s ! 1 = t ! 0 \<and> s ! 0 \<noteq> s ! 1 then 1 else 0)"
proof (cases "s ! 0 = t ! j \<and> s ! 1 = t ! (j - 1)")
  case True
  consider "2 \<le> j" | "j = 1" "s ! 0 = s ! 1" | "j = 1" "s ! 0 \<noteq> s ! 1" using assms by fastforce
  then show ?thesis
  proof cases
    case 1
    then show ?thesis using dist_wide[of s t j] True by simp
  next
    case 2
    have "dist 3 s t 2 2 \<le> dist 3 s t 1 1" "dist 3 s t 1 1 \<le> dist 3 s t 0 0 + cost (s ! 0) (t ! 0)"
      using dist_diag_le[of 3 s t 1 1] dist_diag_le[of 3 s t 0 0] 2 True by (simp_all add: numeral_2_eq_2)
    then show ?thesis using 2 True by (simp add: numeral_2_eq_2)
  next
    case 3
    then show ?thesis using dist_upper[of 3 s t 2 2] True by (simp add: numeral_2_eq_2)
  qed
next
  case False
  then have "1 \<le> cost (s ! 0) (t ! j) + cost (s ! 1) (t ! (j - 1))" by (auto simp: cost_def)
  then show ?thesis using dist_upper[of 3 s t 2 "Suc j"] assms by auto
qed


lemma dist_eq_reference:
  assumes "\<not> swapped_front s t"
  shows "i \<le> length s \<Longrightarrow> j \<le> length t \<Longrightarrow> dist 3 s t i j \<le> dist 2 s t i j"
proof (induction i j rule: dist_induct[where g = 2])
  case (cell i j)
  have "\<not> (3 \<le> Suc i \<and> 3 \<le> Suc j)" using cell(4) by linarith
  then show ?case
    using cell(1-3,5,6) unfolding dist_cell[OF cell(4)] le_min3 by (simp add: dist_cell min3_le)
next
  case (transposed i j)
  have front: "dist 3 s t (Suc i) (Suc j) \<le> dist 2 s t (i - 1) (j - 1) + 1 + cost (s ! (i - 1)) (t ! j) + cost (s ! i) (t ! (j - 1))"
  proof (cases "3 \<le> Suc i \<and> 3 \<le> Suc j")
    case True
    have "dist 3 s t (i - 1) (j - 1) \<le> dist 2 s t (i - 1) (j - 1)"
      using transposed(6,7) by (intro transposed(4)) linarith+
    then show ?thesis using dist_trans_le[OF True, of s t] by linarith
  next
    case False
    with transposed(5) consider "i = 1" "1 \<le> j" | "j = 1" "1 \<le> i" by linarith
    then show ?thesis
    proof cases
      case 1
      have no: "\<not> (j = 1 \<and> s ! 0 = t ! 1 \<and> s ! 1 = t ! 0 \<and> s ! 0 \<noteq> s ! 1)"
        using assms 1 transposed(6,7) by (auto simp: swapped_front_def)
      have "dist 3 s t 2 (Suc j) \<le> int j + cost (s ! 0) (t ! j) + cost (s ! 1) (t ! (j - 1))"
        using front_exchange[OF 1(2), of s t] unfolding if_not_P[OF no] by simp
      then show ?thesis using 1 by (simp add: numeral_2_eq_2)
    next
      case 2
      have no: "\<not> (i = 1 \<and> t ! 0 = s ! 1 \<and> t ! 1 = s ! 0 \<and> t ! 0 \<noteq> t ! 1)"
        using assms 2 transposed(6,7) by (auto simp: swapped_front_def)
      have "dist 3 t s 2 (Suc i) \<le> int i + cost (t ! 0) (s ! i) + cost (t ! 1) (s ! (i - 1))"
        using front_exchange[OF 2(2), of t s] unfolding if_not_P[OF no] by simp
      then show ?thesis
        using 2 dist_sym[of 3 s t "Suc i" 2] cost_sym[of "t ! 0" "s ! i"] cost_sym[of "t ! 1" "s ! (i - 1)"]
        by (simp add: numeral_2_eq_2)
    qed
  qed
  then show ?case
    using transposed(1-3,6,7) dist_above_le[of 3 s t i j] dist_left_le[of 3 s t i j] dist_diag_le[of 3 s t i j]
    unfolding dist_cell_trans[OF transposed(5)] le_min3 min.bounded_iff by simp
qed simp_all

lemma dist_le_reference: "dist 3 s t i j \<le> dist 2 s t i j + 1"
proof (induction i j rule: dist_induct[where g = 2])
  case (cell i j)
  have "dist 3 s t (Suc i) (Suc j) - 1 \<le> dist 2 s t (Suc i) (Suc j)"
    using cell(1-3) dist_above_le[of 3 s t i j] dist_left_le[of 3 s t i j] dist_diag_le[of 3 s t i j]
    unfolding dist_cell[OF cell(4)] le_min3 by linarith
  then show ?case by linarith
next
  case (transposed i j)
  have "dist 3 s t (Suc i) (Suc j) \<le> dist 2 s t (i - 1) (j - 1) + 1 + cost (s ! (i - 1)) (t ! j) + cost (s ! i) (t ! (j - 1)) + 1"
  proof (cases "3 \<le> Suc i \<and> 3 \<le> Suc j")
    case True
    then show ?thesis using dist_trans_le[OF True, of s t] transposed(4) by simp
  next
    case False
    with transposed(5) consider "i = 1" "1 \<le> j" | "j = 1" "1 \<le> i" by linarith
    then have "int (max (Suc i) (Suc j)) \<le> dist 2 s t (i - 1) (j - 1) + 2" by cases auto
    then show ?thesis
      using dist_upper[of 3 s t "Suc i" "Suc j"] cost_bounds(1)[of "s ! (i - 1)" "t ! j"] cost_bounds(1)[of "s ! i" "t ! (j - 1)"]
      by linarith
  qed
  then have "dist 3 s t (Suc i) (Suc j) - 1 \<le> dist 2 s t (Suc i) (Suc j)"
    using transposed(1-3) dist_above_le[of 3 s t i j] dist_left_le[of 3 s t i j] dist_diag_le[of 3 s t i j]
    unfolding dist_cell_trans[OF transposed(5)] le_min3 min.bounded_iff by linarith
  then show ?case by linarith
qed simp_all

section \<open>Properties\<close>

text \<open>C36: the matrix algorithm computes the recursive edit distance in which an exchange of neighbours is
  considered from the third character on.  It is symmetric, 0 exactly for equal strings, at least the
  difference of the lengths and at most the longer length.\<close>

theorem DamerauLevenshteinDistance_correct:
  "DamerauLevenshteinDistance s t = dist 3 s t (length s) (length t)
   \<and> DamerauLevenshteinDistance s t = DamerauLevenshteinDistance t s
   \<and> (DamerauLevenshteinDistance s t = 0 \<longleftrightarrow> s = t)
   \<and> \<bar>int (length s) - int (length t)\<bar> \<le> DamerauLevenshteinDistance s t
   \<and> DamerauLevenshteinDistance s t \<le> int (max (length s) (length t))"
proof -
  have "dist 3 s t (length s) (length t) = 0 \<longleftrightarrow> s = t"
    using dist_zero[of 3 s t "length s" "length t"] dist_equal[of "length s" s t 3] dist_nonneg[of 3 s t "length s" "length t"]
    by (auto intro: antisym)
  then show ?thesis
    using dist_sym[of 3 s t "length s" "length t"] dist_lower[of "length s" "length t" 3 s t]
      dist_upper[of 3 s t "length s" "length t"]
    by (simp add: DamerauLevenshteinDistance_dist)
qed

text \<open>How the result relates to the optimal string alignment distance, which the comment of the code
  announces (\<open>transposition, in addition to deletion, insertion and substitution\<close>): never smaller, at most 1
  larger, and equal unless the second string starts with the first two characters of the first one
  exchanged.  For two such characters alone it is 2, where the distance is 1.\<close>

theorem DamerauLevenshteinDistance_transpositions:
  "reference_distance s t \<le> DamerauLevenshteinDistance s t
   \<and> DamerauLevenshteinDistance s t \<le> reference_distance s t + 1
   \<and> (\<not> swapped_front s t \<longrightarrow> DamerauLevenshteinDistance s t = reference_distance s t)
   \<and> (a \<noteq> b \<longrightarrow> DamerauLevenshteinDistance [a, b] [b, a] = 2 \<and> reference_distance [a, b] [b, a] = 1)"
proof -
  have "DamerauLevenshteinDistance [a, b] [b, a] = 2 \<and> reference_distance [a, b] [b, a] = 1" if "a \<noteq> b"
    using that by (simp add: DamerauLevenshteinDistance_dist reference_distance_def numeral_2_eq_2 numeral_3_eq_3
        dist.simps(3) cost_def)
  then show ?thesis
    using dist_reference_le[of s t "length s" "length t"] dist_le_reference[of s t "length s" "length t"]
      dist_eq_reference[of s t "length s" "length t"]
    by (auto simp: DamerauLevenshteinDistance_dist reference_distance_def intro: antisym)
qed

theorem DamerauLevenshteinDistance_transpositions_witness:
  "DamerauLevenshteinDistance [1::int, 2] [2, 1] = 2
   \<and> DamerauLevenshteinDistance [0::int, 1, 2] [0, 2, 1] = reference_distance [0::int, 1, 2] [0, 2, 1]"
proof -
  have "\<not> swapped_front [0::int, 1, 2] [0, 2, 1]" by (simp add: swapped_front_def)
  then show ?thesis
    using DamerauLevenshteinDistance_transpositions[of "[0::int, 1, 2]" "[0, 2, 1]" "1::int" 2] by simp
qed

end
