(* ===== verification/PasswordWidget.thy ===== *)
theory PasswordWidget
imports PasswordRequirements EditDistance
begin

text \<open>
  The widget that sets or changes a password (\<open>src/gui/password_widget.cpp\<close>).

  A line edit of Qt is the abstract value \<open>le_state\<close>, read and changed through \<open>line_edit_api\<close>, with the
  attributes the widget only writes (background colour, visibility, echo mode) beside it.  A message is
  the source text given to \<open>tr\<close> with the numbers given to \<open>arg\<close>.  Member functions run on the log of the
  \<open>ValidChanged\<close> signals emitted so far and the widget.  The caps lock widget, the style sheet files and
  the layout are not part of the state.
\<close>

section \<open>State\<close>

record ('e, 'x) line_edit_api = "qchar_api" +
  le_text :: "'e \<Rightarrow> qstring"
  le_setText :: "qstring \<Rightarrow> 'e \<Rightarrow> 'e"
  le_setMaxLength :: "int \<Rightarrow> 'e \<Rightarrow> 'e"

datatype echo_mode = Normal | Password

record ('e, 'c) line_edit =
  le_state :: 'e
  background :: "'c option"
  le_visible :: bool
  echoMode :: echo_mode

datatype Mode = pwmSetPassword | pwmChangePassword

type_synonym message = "string \<times> int list"

record ('e, 'c) password_widget =
  mode :: Mode
  isValid :: bool
  passwordRequirements :: password_requirements
  acceptableColor :: 'c
  intermediateColor :: 'c
  invalidColor :: 'c
  editOldPassword :: "('e, 'c) line_edit"
  editNewPassword :: "('e, 'c) line_edit"
  editConfirmNewPassword :: "('e, 'c) line_edit"
  editNewPasswordHint :: "('e, 'c) line_edit"
  labelPasswordInfo :: "('c \<times> message) option"
  labelOldPassword :: string
  labelNewPassword :: string
  labelConfirmNewPassword :: string
  labelNewPasswordHint :: string
  labelOldPasswordVisible :: bool
  labelNewPasswordHintVisible :: bool
  showCharactersChecked :: bool
  showRequirementsVisible :: bool

type_synonym ('e, 'c, 'a) widget_op = "(exn, 'a, bool list \<times> ('e, 'c) password_widget) prog"

section \<open>Reading, marking, messages\<close>

definition GetOldPassword :: "('e, 'x) line_edit_api \<Rightarrow> ('e, 'c, qstring) widget_op" where
  "GetOldPassword api = bind (this id) (\<lambda>w. andthen (check (mode w = pwmChangePassword) (mk_exn InvalidStateException))
     (ret (le_text api (le_state (editOldPassword w)))))"

definition GetNewPassword :: "('e, 'x) line_edit_api \<Rightarrow> ('e, 'c, qstring) widget_op" where
  "GetNewPassword api = this (\<lambda>w. le_text api (le_state (editNewPassword w)))"

definition GetConfirmNewPassword :: "('e, 'x) line_edit_api \<Rightarrow> ('e, 'c, qstring) widget_op" where
  "GetConfirmNewPassword api = this (\<lambda>w. le_text api (le_state (editConfirmNewPassword w)))"

definition GetNewPasswordHint :: "('e, 'x) line_edit_api \<Rightarrow> ('e, 'c, qstring) widget_op" where
  "GetNewPasswordHint api = this (\<lambda>w. le_text api (le_state (editNewPasswordHint w)))"

definition MarkLineEdit :: "'c \<Rightarrow> ('e, 'c) line_edit \<Rightarrow> ('e, 'c) line_edit" where
  "MarkLineEdit color e = e\<lparr>background := Some color\<rparr>"

type_synonym ('e, 'c) update = "('e, 'c) password_widget \<Rightarrow> ('e, 'c) password_widget"

definition MarkOldPasswordAcceptable :: "('e, 'c) update" where
  "MarkOldPasswordAcceptable w = w\<lparr>editOldPassword := MarkLineEdit (acceptableColor w) (editOldPassword w)\<rparr>"

definition MarkOldPasswordIntermediate :: "('e, 'c) update" where
  "MarkOldPasswordIntermediate w = w\<lparr>editOldPassword := MarkLineEdit (intermediateColor w) (editOldPassword w)\<rparr>"

definition MarkOldPasswordInvalid :: "('e, 'c) update" where
  "MarkOldPasswordInvalid w = w\<lparr>editOldPassword := MarkLineEdit (invalidColor w) (editOldPassword w)\<rparr>"

definition MarkNewPasswordAcceptable :: "('e, 'c) update" where
  "MarkNewPasswordAcceptable w = w\<lparr>editNewPassword := MarkLineEdit (acceptableColor w) (editNewPassword w)\<rparr>"

definition MarkNewPasswordIntermediate :: "('e, 'c) update" where
  "MarkNewPasswordIntermediate w = w\<lparr>editNewPassword := MarkLineEdit (intermediateColor w) (editNewPassword w)\<rparr>"

definition MarkNewPasswordInvalid :: "('e, 'c) update" where
  "MarkNewPasswordInvalid w = w\<lparr>editNewPassword := MarkLineEdit (invalidColor w) (editNewPassword w)\<rparr>"

definition MarkConfirmNewPasswordAcceptable :: "('e, 'c) update" where
  "MarkConfirmNewPasswordAcceptable w =
     w\<lparr>editConfirmNewPassword := MarkLineEdit (acceptableColor w) (editConfirmNewPassword w)\<rparr>"

definition MarkConfirmNewPasswordIntermediate :: "('e, 'c) update" where
  "MarkConfirmNewPasswordIntermediate w =
     w\<lparr>editConfirmNewPassword := MarkLineEdit (intermediateColor w) (editConfirmNewPassword w)\<rparr>"

definition MarkConfirmNewPasswordInvalid :: "('e, 'c) update" where
  "MarkConfirmNewPasswordInvalid w =
     w\<lparr>editConfirmNewPassword := MarkLineEdit (invalidColor w) (editConfirmNewPassword w)\<rparr>"

definition MarkNewPasswordHintAcceptable :: "('e, 'c) update" where
  "MarkNewPasswordHintAcceptable w =
     w\<lparr>editNewPasswordHint := MarkLineEdit (acceptableColor w) (editNewPasswordHint w)\<rparr>"

definition MarkNewPasswordHintIntermediate :: "('e, 'c) update" where
  "MarkNewPasswordHintIntermediate w =
     w\<lparr>editNewPasswordHint := MarkLineEdit (intermediateColor w) (editNewPasswordHint w)\<rparr>"

definition MarkNewPasswordHintInvalid :: "('e, 'c) update" where
  "MarkNewPasswordHintInvalid w =
     w\<lparr>editNewPasswordHint := MarkLineEdit (invalidColor w) (editNewPasswordHint w)\<rparr>"

definition SetValidationMessage :: "'c \<Rightarrow> message \<Rightarrow> ('e, 'c) update" where
  "SetValidationMessage color msg w = w\<lparr>labelPasswordInfo := Some (color, msg)\<rparr>"

definition SetAcceptableValidationMessage :: "message \<Rightarrow> ('e, 'c) update" where
  "SetAcceptableValidationMessage msg w = SetValidationMessage (acceptableColor w) msg w"

definition SetIntermediateValidationMessage :: "message \<Rightarrow> ('e, 'c) update" where
  "SetIntermediateValidationMessage msg w = SetValidationMessage (intermediateColor w) msg w"

definition SetInvalidValidationMessage :: "message \<Rightarrow> ('e, 'c) update" where
  "SetInvalidValidationMessage msg w = SetValidationMessage (invalidColor w) msg w"

text \<open>The block of a failed check: mark the field, and report it unless an earlier check has failed.\<close>

definition reject_with :: "('e, 'c) update \<Rightarrow> ('e, 'c) update \<Rightarrow> ('e, 'c) update" where
  "reject_with mark report w = (let w' = mark w in if isValid w' then (report w')\<lparr>isValid := False\<rparr> else w')"

section \<open>The checks of the four fields\<close>

definition check_old :: "('e, 'x) line_edit_api \<Rightarrow> qstring \<Rightarrow> ('e, 'c) update" where
  "check_old api oldPassword w =
    (let r = passwordRequirements w;
         invalid = (\<lambda>msg args. reject_with MarkOldPasswordInvalid (SetInvalidValidationMessage (msg, args)) w);
         kCountNonAscii = CountNonAscii api oldPassword;
         kPwdLen = int (length oldPassword);
         reqMaxLen = (if pwdMaxLen r \<le> 0 then kQLineEditMaxLength else pwdMaxLen r)
     in
     if \<not> unicode r \<and> kCountNonAscii > 0 then
       invalid ''Old password contains %1 non-ASCII characters.'' [kCountNonAscii]
     else if kPwdLen > reqMaxLen then
       invalid ''Old password length (%1) exceeds maximum (%2).'' [kPwdLen, reqMaxLen]
     else if pwdMinLen r > 0 \<and> kPwdLen < pwdMinLen r then
       reject_with MarkOldPasswordIntermediate
         (SetIntermediateValidationMessage (''Old password length (%1) is less than minimum (%2).'', [kPwdLen, pwdMinLen r])) w
     else if pwdMinLetters r > 0 \<and> CountLetters api oldPassword < pwdMinLetters r then
       invalid ''Old password number of letters (%1) is less than minimum (%2).'' [CountLetters api oldPassword, pwdMinLetters r]
     else if pwdMinUpper r > 0 \<and> CountUpper api oldPassword < pwdMinUpper r then
       invalid ''Old password number of upper case letters (%1) is less than minimum (%2).'' [CountUpper api oldPassword, pwdMinUpper r]
     else if pwdMinLower r > 0 \<and> CountLower api oldPassword < pwdMinLower r then
       invalid ''Old password number of lower case letters (%1) is less than minimum (%2).'' [CountLower api oldPassword, pwdMinLower r]
     else if pwdMinDigits r > 0 \<and> CountDigits api oldPassword < pwdMinDigits r then
       invalid ''Old password number of digits (%1) is less than minimum (%2).'' [CountDigits api oldPassword, pwdMinDigits r]
     else if pwdMinSymbols r > 0 \<and> CountSymbols api oldPassword < pwdMinSymbols r then
       invalid ''Old password number of symbols (%1) is less than minimum (%2).'' [CountSymbols api oldPassword, pwdMinSymbols r]
     else MarkOldPasswordAcceptable w)"

definition DoValidateOldPassword :: "bool \<Rightarrow> ('e, 'x) line_edit_api \<Rightarrow> ('e, 'c, unit) widget_op" where
  "DoValidateOldPassword ndebug api = bind (this mode) (\<lambda>m. andthen (cpp_assert ndebug (m = pwmChangePassword))
     (bind (GetOldPassword api) (\<lambda>oldPassword. modify (check_old api oldPassword))))"

text \<open>The new password alone; the result tells whether the function goes on.\<close>

definition check_new :: "('e, 'x) line_edit_api \<Rightarrow> qstring \<Rightarrow> ('e, 'c) password_widget \<Rightarrow> bool \<times> ('e, 'c) password_widget" where
  "check_new api newPassword w =
    (let r = passwordRequirements w;
         invalid = (\<lambda>msg args. (False, reject_with MarkNewPasswordInvalid (SetInvalidValidationMessage (msg, args)) w));
         kCountNonAscii = CountNonAscii api newPassword;
         kPwdLen = int (length newPassword);
         reqMaxLen = (if pwdMaxLen r \<le> 0 then kQLineEditMaxLength else pwdMaxLen r)
     in
     if \<not> unicode r \<and> kCountNonAscii > 0 then
       invalid ''Password contains %1 non-ASCII characters.'' [kCountNonAscii]
     else if kPwdLen > reqMaxLen then
       invalid ''Password length (%1) exceeds maximum permitted (%2).'' [kPwdLen, reqMaxLen]
     else if pwdMinLen r > 0 \<and> kPwdLen < pwdMinLen r then
       (False, reject_with MarkNewPasswordIntermediate
         (SetIntermediateValidationMessage (''Password length (%1) is less than minimum required (%2).'', [kPwdLen, pwdMinLen r])) w)
     else if pwdMinLetters r > 0 \<and> CountLetters api newPassword < pwdMinLetters r then
       invalid ''Password number of letters (%1) is less than minimum required (%2).'' [CountLetters api newPassword, pwdMinLetters r]
     else if pwdMinUpper r > 0 \<and> CountUpper api newPassword < pwdMinUpper r then
       invalid ''Password number of upper case letters (%1) is less than minimum required (%2).'' [CountUpper api newPassword, pwdMinUpper r]
     else if pwdMinLower r > 0 \<and> CountLower api newPassword < pwdMinLower r then
       invalid ''Password number of lower case letters (%1) is less than minimum required (%2).'' [CountLower api newPassword, pwdMinLower r]
     else if pwdMinDigits r > 0 \<and> CountDigits api newPassword < pwdMinDigits r then
       invalid ''Password number of digits (%1) is less than minimum required (%2).'' [CountDigits api newPassword, pwdMinDigits r]
     else if pwdMinSymbols r > 0 \<and> CountSymbols api newPassword < pwdMinSymbols r then
       invalid ''Password number of symbols (%1) is less than minimum required (%2).'' [CountSymbols api newPassword, pwdMinSymbols r]
     else if \<not> isValid w then (False, MarkNewPasswordIntermediate w)
     else (True, w))"

text \<open>The new password against the old one; the result tells whether the function goes on.\<close>

definition check_new_old :: "qstring \<Rightarrow> qstring \<Rightarrow> ('e, 'c) password_widget \<Rightarrow> bool \<times> ('e, 'c) password_widget" where
  "check_new_old newPassword oldPassword w =
    (let r = passwordRequirements w;
         invalid = (\<lambda>msg args. (False, reject_with MarkNewPasswordInvalid (SetInvalidValidationMessage (msg, args)) w));
         kNewOldSimilarity = DamerauLevenshteinDistance newPassword oldPassword
     in
     if newOldNotEqual r \<and> newPassword = oldPassword then
       invalid ''New password can not be equal with old password.'' []
     else if newOldMinSimilarity r > 0 \<and> kNewOldSimilarity < newOldMinSimilarity r then
       invalid ''New password similarity with old password (%1) is less than minimum allowed (%2).'' [kNewOldSimilarity, newOldMinSimilarity r]
     else (True, w))"

definition run_check :: "(('e, 'c) password_widget \<Rightarrow> bool \<times> ('e, 'c) password_widget) \<Rightarrow> ('e, 'c, bool) widget_op" where
  "run_check f = bind (this f) (\<lambda>(go_on, w'). andthen (modify (\<lambda>_. w')) (ret go_on))"

definition DoValidateNewPassword :: "('e, 'x) line_edit_api \<Rightarrow> ('e, 'c, unit) widget_op" where
  "DoValidateNewPassword api = bind (GetNewPassword api) (\<lambda>newPassword.
     bind (run_check (check_new api newPassword)) (\<lambda>go_on. if \<not> go_on then ret () else
     bind (this mode) (\<lambda>m.
     bind (if m = pwmChangePassword
           then bind (GetOldPassword api) (\<lambda>oldPassword. run_check (check_new_old newPassword oldPassword))
           else ret True) (\<lambda>go_on. if \<not> go_on then ret () else
     modify MarkNewPasswordAcceptable))))"

definition check_confirm_empty :: "qstring \<Rightarrow> ('e, 'c) password_widget \<Rightarrow> bool \<times> ('e, 'c) password_widget" where
  "check_confirm_empty confirmNewPassword w =
    (if pwdMinLen (passwordRequirements w) > 0 \<and> confirmNewPassword = [] then
       (False, reject_with MarkConfirmNewPasswordIntermediate
         (SetIntermediateValidationMessage (''Password confirmation in progress.'', [])) w)
     else if \<not> isValid w then (False, MarkConfirmNewPasswordIntermediate w)
     else (True, w))"

definition starts_with :: "qstring \<Rightarrow> qstring \<Rightarrow> bool" where
  "starts_with str prefix \<longleftrightarrow> take (length prefix) str = prefix"

definition check_confirm :: "qstring \<Rightarrow> qstring \<Rightarrow> ('e, 'c) update" where
  "check_confirm confirmNewPassword newPassword w =
    (if length confirmNewPassword < length newPassword then
       if starts_with newPassword confirmNewPassword then
         reject_with MarkConfirmNewPasswordIntermediate
           (SetIntermediateValidationMessage (''Password confirmation in progress.'', [])) w
       else
         reject_with MarkConfirmNewPasswordInvalid
           (SetInvalidValidationMessage (''Password does not start with confirmed password.'', [])) w
     else if confirmNewPassword \<noteq> newPassword then
       reject_with MarkConfirmNewPasswordInvalid
         (SetInvalidValidationMessage (''Confirmed password is not equal with password.'', [])) w
     else MarkConfirmNewPasswordAcceptable w)"

definition DoValidateConfirmNewPassword :: "('e, 'x) line_edit_api \<Rightarrow> ('e, 'c, unit) widget_op" where
  "DoValidateConfirmNewPassword api = bind (GetConfirmNewPassword api) (\<lambda>confirmNewPassword.
     bind (run_check (check_confirm_empty confirmNewPassword)) (\<lambda>go_on. if \<not> go_on then ret () else
     bind (GetNewPassword api) (\<lambda>newPassword. modify (check_confirm confirmNewPassword newPassword))))"

definition check_hint :: "('e, 'x) line_edit_api \<Rightarrow> qstring \<Rightarrow> ('e, 'c) password_widget \<Rightarrow> bool \<times> ('e, 'c) password_widget" where
  "check_hint api kNewPasswordHint w =
    (let r = passwordRequirements w;
         invalid = (\<lambda>msg args. (False, reject_with MarkNewPasswordHintInvalid (SetInvalidValidationMessage (msg, args)) w));
         kCountNonAscii = CountNonAscii api kNewPasswordHint;
         kPwdHintLen = int (length kNewPasswordHint);
         reqMaxLen = (if hintMaxLen r \<le> 0 then kQLineEditMaxLength else hintMaxLen r)
     in
     if \<not> unicode r \<and> kCountNonAscii > 0 then
       invalid ''Password hint contains %1 non-ASCII characters.'' [kCountNonAscii]
     else if kPwdHintLen > reqMaxLen then
       invalid ''Password hint length (%1) exceeds maximum allowed (%2).'' [kPwdHintLen, reqMaxLen]
     else if hintMinLen r > 0 \<and> kPwdHintLen < hintMinLen r then
       (False, reject_with MarkNewPasswordHintIntermediate
         (SetIntermediateValidationMessage (''Password hint length (%1) is less than minimum (%2).'', [kPwdHintLen, hintMinLen r])) w)
     else if \<not> isValid w then (False, MarkNewPasswordHintIntermediate w)
     else (True, w))"

definition check_hint_password :: "qstring \<Rightarrow> qstring \<Rightarrow> ('e, 'c) update" where
  "check_hint_password kNewPasswordHint newPassword w =
    (let r = passwordRequirements w;
         invalid = (\<lambda>msg args. reject_with MarkNewPasswordHintInvalid (SetInvalidValidationMessage (msg, args)) w);
         kHintSimilarity = DamerauLevenshteinDistance kNewPasswordHint newPassword
     in
     if hintNotEqual r \<and> kNewPasswordHint = newPassword then
       invalid ''Password hint can not be equal with password.'' []
     else if hintMinSimilarity r > 0 \<and> kHintSimilarity < hintMinSimilarity r then
       invalid ''Password hint similarity with password (%1) is less than minimum (%2).'' [kHintSimilarity, hintMinSimilarity r]
     else MarkNewPasswordHintAcceptable w)"

definition DoValidateNewPasswordHint :: "('e, 'x) line_edit_api \<Rightarrow> ('e, 'c, unit) widget_op" where
  "DoValidateNewPasswordHint api = bind (GetNewPasswordHint api) (\<lambda>kNewPasswordHint.
     bind (run_check (check_hint api kNewPasswordHint)) (\<lambda>go_on. if \<not> go_on then ret () else
     bind (GetNewPassword api) (\<lambda>newPassword. modify (check_hint_password kNewPasswordHint newPassword))))"

section \<open>Validation\<close>

definition DoValidate :: "bool \<Rightarrow> ('e, 'x) line_edit_api \<Rightarrow> ('e, 'c, unit) widget_op" where
  "DoValidate ndebug api =
     bind (this isValid) (\<lambda>valid. andthen (cpp_assert ndebug valid) (
     bind (this mode) (\<lambda>m. andthen (if m = pwmChangePassword then DoValidateOldPassword ndebug api else ret ()) (
     andthen (DoValidateNewPassword api) (
     andthen (DoValidateConfirmNewPassword api) (
     andthen (DoValidateNewPasswordHint api) (
     bind (this isValid) (\<lambda>valid. if valid then modify (SetAcceptableValidationMessage (''OK'', [])) else ret ())))))))) "

definition emit_ValidChanged :: "bool \<Rightarrow> ('e, 'c, unit) widget_op" where
  "emit_ValidChanged b = env (\<lambda>log. Some (Ret () (log @ [b])))"

definition PasswordWidget_Validate :: "bool \<Rightarrow> ('e, 'x) line_edit_api \<Rightarrow> ('e, 'c, bool) widget_op" where
  "PasswordWidget_Validate ndebug api =
     bind (this isValid) (\<lambda>kWasValid.
     andthen (modify (\<lambda>w. w\<lparr>isValid := True\<rparr>)) (
     andthen (DoValidate ndebug api) (
     bind (this isValid) (\<lambda>valid. andthen (if kWasValid \<noteq> valid then emit_ValidChanged valid else ret ()) (
     ret valid)))))"

section \<open>The meaning of a valid widget\<close>

datatype field = OldPassword | NewPassword | ConfirmNewPassword | NewPasswordHint

fun edit_of :: "field \<Rightarrow> ('e, 'c) password_widget \<Rightarrow> ('e, 'c) line_edit" where
  "edit_of OldPassword w = editOldPassword w"
| "edit_of NewPassword w = editNewPassword w"
| "edit_of ConfirmNewPassword w = editConfirmNewPassword w"
| "edit_of NewPasswordHint w = editNewPasswordHint w"

definition text_of :: "('e, 'x) line_edit_api \<Rightarrow> field \<Rightarrow> ('e, 'c) password_widget \<Rightarrow> qstring" where
  "text_of api f w = le_text api (le_state (edit_of f w))"

definition new_old_policy :: "password_requirements \<Rightarrow> qstring \<Rightarrow> qstring \<Rightarrow> bool" where
  "new_old_policy r new old \<longleftrightarrow> (newOldNotEqual r \<longrightarrow> new \<noteq> old)
     \<and> at_least (newOldMinSimilarity r) (DamerauLevenshteinDistance new old)"

definition hint_policy :: "('x) qchar_api_scheme \<Rightarrow> password_requirements \<Rightarrow> qstring \<Rightarrow> qstring \<Rightarrow> bool" where
  "hint_policy api r hint new \<longleftrightarrow> (unicode r \<or> CountNonAscii api hint = 0)
     \<and> int (length hint) \<le> effective_max (hintMaxLen r) \<and> at_least (hintMinLen r) (int (length hint))
     \<and> (hintNotEqual r \<longrightarrow> hint \<noteq> new) \<and> at_least (hintMinSimilarity r) (DamerauLevenshteinDistance hint new)"

definition widget_policy :: "('e, 'x) line_edit_api \<Rightarrow> ('e, 'c) password_widget \<Rightarrow> bool" where
  "widget_policy api w \<longleftrightarrow>
     (mode w = pwmChangePassword \<longrightarrow> password_policy api (passwordRequirements w) (text_of api OldPassword w)
        \<and> new_old_policy (passwordRequirements w) (text_of api NewPassword w) (text_of api OldPassword w))
   \<and> password_policy api (passwordRequirements w) (text_of api NewPassword w)
   \<and> text_of api ConfirmNewPassword w = text_of api NewPassword w
   \<and> hint_policy api (passwordRequirements w) (text_of api NewPasswordHint w) (text_of api NewPassword w)"

text \<open>What validation reads and never changes.\<close>

definition inputs where
  "inputs w = (mode w, passwordRequirements w, acceptableColor w, intermediateColor w, invalidColor w,
     \<lambda>f. le_state (edit_of f w))"

definition reported :: "field \<Rightarrow> ('e, 'c) password_widget \<Rightarrow> bool" where
  "reported f w \<longleftrightarrow> (\<exists>c msg. labelPasswordInfo w = Some (c, msg) \<and> background (edit_of f w) = Some c
     \<and> (c = intermediateColor w \<or> c = invalidColor w))"

definition stage_post :: "field \<Rightarrow> bool \<Rightarrow> ('e, 'c) password_widget \<Rightarrow> ('e, 'c) password_widget \<Rightarrow> bool" where
  "stage_post f ok w w' \<longleftrightarrow> inputs w' = inputs w \<and> isValid w' = (isValid w \<and> ok)
     \<and> (\<forall>g. g \<noteq> f \<longrightarrow> edit_of g w' = edit_of g w)
     \<and> (isValid w' \<longrightarrow> background (edit_of f w') = Some (acceptableColor w))
     \<and> (\<not> isValid w \<longrightarrow> labelPasswordInfo w' = labelPasswordInfo w)
     \<and> (isValid w \<and> \<not> isValid w' \<longrightarrow> reported f w')"

section \<open>Each stage decides its part of the policy\<close>

lemma all_fields: "(\<forall>g. P g) \<longleftrightarrow> P OldPassword \<and> P NewPassword \<and> P ConfirmNewPassword \<and> P NewPasswordHint"
  by (metis field.exhaust)

lemmas mark_defs = MarkOldPasswordAcceptable_def MarkOldPasswordIntermediate_def MarkOldPasswordInvalid_def
  MarkNewPasswordAcceptable_def MarkNewPasswordIntermediate_def MarkNewPasswordInvalid_def
  MarkConfirmNewPasswordAcceptable_def MarkConfirmNewPasswordIntermediate_def MarkConfirmNewPasswordInvalid_def
  MarkNewPasswordHintAcceptable_def MarkNewPasswordHintIntermediate_def MarkNewPasswordHintInvalid_def MarkLineEdit_def

lemmas message_defs = SetIntermediateValidationMessage_def SetInvalidValidationMessage_def SetValidationMessage_def

lemmas stage_defs = stage_post_def reported_def inputs_def all_fields fun_eq_iff

lemma stage_reject:
  "stage_post OldPassword False w (reject_with MarkOldPasswordInvalid (SetInvalidValidationMessage msg) w)"
  "stage_post OldPassword False w (reject_with MarkOldPasswordIntermediate (SetIntermediateValidationMessage msg) w)"
  "stage_post NewPassword False w (reject_with MarkNewPasswordInvalid (SetInvalidValidationMessage msg) w)"
  "stage_post NewPassword False w (reject_with MarkNewPasswordIntermediate (SetIntermediateValidationMessage msg) w)"
  "stage_post ConfirmNewPassword False w (reject_with MarkConfirmNewPasswordInvalid (SetInvalidValidationMessage msg) w)"
  "stage_post ConfirmNewPassword False w (reject_with MarkConfirmNewPasswordIntermediate (SetIntermediateValidationMessage msg) w)"
  "stage_post NewPasswordHint False w (reject_with MarkNewPasswordHintInvalid (SetInvalidValidationMessage msg) w)"
  "stage_post NewPasswordHint False w (reject_with MarkNewPasswordHintIntermediate (SetIntermediateValidationMessage msg) w)"
  by (cases "isValid w"; simp add: stage_defs reject_with_def Let_def mark_defs message_defs)+

lemma stage_accept:
  "stage_post OldPassword True w (MarkOldPasswordAcceptable w)"
  "stage_post NewPassword True w (MarkNewPasswordAcceptable w)"
  "stage_post ConfirmNewPassword True w (MarkConfirmNewPasswordAcceptable w)"
  "stage_post NewPasswordHint True w (MarkNewPasswordHintAcceptable w)"
  by (simp_all add: stage_defs mark_defs)

lemma stage_skip:
  "\<not> isValid w \<Longrightarrow> stage_post NewPassword ok w (MarkNewPasswordIntermediate w)"
  "\<not> isValid w \<Longrightarrow> stage_post ConfirmNewPassword ok w (MarkConfirmNewPasswordIntermediate w)"
  "\<not> isValid w \<Longrightarrow> stage_post NewPasswordHint ok w (MarkNewPasswordHintIntermediate w)"
  by (simp_all add: stage_defs mark_defs)

lemma stage_cong: "stage_post f b w w' \<Longrightarrow> b = ok \<Longrightarrow> stage_post f ok w w'"
  by simp

lemma at_least_iff: "at_least n k \<longleftrightarrow> \<not> (n > 0 \<and> k < n)"
  by (auto simp: at_least_def)

lemma ascii_iff: "(unicode r \<or> CountNonAscii api str = 0) \<longleftrightarrow> \<not> (\<not> unicode r \<and> CountNonAscii api str > 0)"
  using count_loop_nonneg[of "\<lambda>c. \<not> IsAscii_chr api c" str] unfolding CountNonAscii_def by linarith

lemma max_iff: "n \<le> effective_max m \<longleftrightarrow> \<not> n > (if m \<le> 0 then kQLineEditMaxLength else m)"
  by (auto simp: effective_max_def)

lemma password_policy_iff:
  "password_policy api r pwd \<longleftrightarrow>
     \<not> (\<not> unicode r \<and> CountNonAscii api pwd > 0)
   \<and> \<not> int (length pwd) > (if pwdMaxLen r \<le> 0 then kQLineEditMaxLength else pwdMaxLen r)
   \<and> \<not> (pwdMinLen r > 0 \<and> int (length pwd) < pwdMinLen r)
   \<and> \<not> (pwdMinLetters r > 0 \<and> CountLetters api pwd < pwdMinLetters r)
   \<and> \<not> (pwdMinUpper r > 0 \<and> CountUpper api pwd < pwdMinUpper r)
   \<and> \<not> (pwdMinLower r > 0 \<and> CountLower api pwd < pwdMinLower r)
   \<and> \<not> (pwdMinDigits r > 0 \<and> CountDigits api pwd < pwdMinDigits r)
   \<and> \<not> (pwdMinSymbols r > 0 \<and> CountSymbols api pwd < pwdMinSymbols r)"
  unfolding password_policy_def at_least_iff ascii_iff max_iff by (rule refl)

text \<open>The cascade of early returns, and a part of a function that may let it go on.\<close>

lemma stage_if:
  "stage_post f False w m \<Longrightarrow> stage_post f ok w m' \<Longrightarrow> stage_post f (\<not> b \<and> ok) w (if b then m else m')"
  "stage_post f False w m \<Longrightarrow> stage_post f True w m' \<Longrightarrow> stage_post f (\<not> b) w (if b then m else m')"
  by simp_all

definition check_post :: "field \<Rightarrow> bool \<Rightarrow> ('e, 'c) password_widget \<Rightarrow> bool \<times> ('e, 'c) password_widget \<Rightarrow> bool" where
  "check_post f ok w p \<longleftrightarrow> (if fst p then snd p = w \<and> ok else (\<forall>rest. stage_post f (ok \<and> rest) w (snd p)))"

lemma check_if:
  "stage_post f False w m \<Longrightarrow> check_post f ok w m' \<Longrightarrow> check_post f (\<not> b \<and> ok) w (if b then (False, m) else m')"
  "stage_post f False w m \<Longrightarrow> check_post f True w m' \<Longrightarrow> check_post f (\<not> b) w (if b then (False, m) else m')"
  by (auto simp: check_post_def)

lemma check_go_on: "check_post f True w (True, w)"
  by (simp add: check_post_def)

lemma check_skip:
  "check_post NewPassword True w (if \<not> isValid w then (False, MarkNewPasswordIntermediate w) else (True, w))"
  "check_post ConfirmNewPassword True w (if \<not> isValid w then (False, MarkConfirmNewPasswordIntermediate w) else (True, w))"
  "check_post NewPasswordHint True w (if \<not> isValid w then (False, MarkNewPasswordHintIntermediate w) else (True, w))"
  by (simp_all add: check_post_def stage_skip)

lemma check_old_stage: "stage_post OldPassword (password_policy api (passwordRequirements w) pwd) w (check_old api pwd w)"
  unfolding check_old_def Let_def password_policy_iff by (intro stage_if stage_reject stage_accept)

lemma check_new_post: "check_post NewPassword (password_policy api (passwordRequirements w) pwd) w (check_new api pwd w)"
  unfolding check_new_def Let_def password_policy_iff by (intro check_if check_skip stage_reject)

lemma check_new_old_post: "check_post NewPassword (new_old_policy (passwordRequirements w) new old) w (check_new_old new old w)"
proof -
  have "new_old_policy r new old \<longleftrightarrow> \<not> (newOldNotEqual r \<and> new = old)
      \<and> \<not> (newOldMinSimilarity r > 0 \<and> DamerauLevenshteinDistance new old < newOldMinSimilarity r)" for r
    by (auto simp: new_old_policy_def at_least_iff)
  then show ?thesis
    unfolding check_new_old_def Let_def by (simp only:) (intro check_if check_go_on stage_reject)
qed

lemma check_confirm_empty_post:
  "check_post ConfirmNewPassword (\<not> (pwdMinLen (passwordRequirements w) > 0 \<and> confirm = [])) w (check_confirm_empty confirm w)"
  unfolding check_confirm_empty_def by (intro check_if check_skip stage_reject)

lemma check_confirm_stage: "stage_post ConfirmNewPassword (confirm = new) w (check_confirm confirm new w)"
proof -
  have "length confirm < length new \<Longrightarrow> confirm \<noteq> new" by auto
  then show ?thesis by (simp add: check_confirm_def stage_reject stage_accept)
qed

lemma check_hint_post:
  "check_post NewPasswordHint ((unicode r \<or> CountNonAscii api hint = 0) \<and> int (length hint) \<le> effective_max (hintMaxLen r)
     \<and> at_least (hintMinLen r) (int (length hint))) w (check_hint api hint w)" if r: "r = passwordRequirements w"
  unfolding check_hint_def Let_def r at_least_iff ascii_iff max_iff by (intro check_if check_skip stage_reject)

lemma check_hint_password_stage:
  "stage_post NewPasswordHint ((hintNotEqual r \<longrightarrow> hint \<noteq> new)
     \<and> at_least (hintMinSimilarity r) (DamerauLevenshteinDistance hint new)) w (check_hint_password hint new w)"
  if r: "r = passwordRequirements w"
proof -
  have "(hintNotEqual r \<longrightarrow> hint \<noteq> new) \<and> at_least (hintMinSimilarity r) (DamerauLevenshteinDistance hint new)
    \<longleftrightarrow> \<not> (hintNotEqual r \<and> hint = new) \<and> \<not> (hintMinSimilarity r > 0 \<and> DamerauLevenshteinDistance hint new < hintMinSimilarity r)"
    by (auto simp: at_least_iff)
  then show ?thesis
    unfolding check_hint_password_def Let_def r by (simp only:) (intro stage_if stage_reject stage_accept)
qed

section \<open>The functions of the widget\<close>

lemma stage_post_text: "stage_post f ok w w' \<Longrightarrow> text_of api g w' = text_of api g w \<and> mode w' = mode w
    \<and> passwordRequirements w' = passwordRequirements w"
  by (auto simp: stage_post_def inputs_def text_of_def fun_eq_iff)

lemma run_check_app [simp]: "run_check f (log, w) = Some (Ret (fst (f w)) (log, snd (f w)))"
  by (simp add: run_check_def split_beta)

lemma getters_app [simp]:
  "mode w = pwmChangePassword \<Longrightarrow> GetOldPassword api (log, w) = Some (Ret (text_of api OldPassword w) (log, w))"
  "GetNewPassword api (log, w) = Some (Ret (text_of api NewPassword w) (log, w))"
  "GetConfirmNewPassword api (log, w) = Some (Ret (text_of api ConfirmNewPassword w) (log, w))"
  "GetNewPasswordHint api (log, w) = Some (Ret (text_of api NewPasswordHint w) (log, w))"
  by (simp_all add: GetOldPassword_def GetNewPassword_def GetConfirmNewPassword_def GetNewPasswordHint_def text_of_def)

lemma DoValidateOldPassword_stage:
  assumes "mode w = pwmChangePassword"
  shows "\<exists>w'. DoValidateOldPassword ndebug api (log, w) = Some (Ret () (log, w'))
    \<and> stage_post OldPassword (password_policy api (passwordRequirements w) (text_of api OldPassword w)) w w'"
  using assms check_old_stage by (simp add: DoValidateOldPassword_def)

definition new_ok :: "('e, 'x) line_edit_api \<Rightarrow> ('e, 'c) password_widget \<Rightarrow> bool" where
  "new_ok api w \<longleftrightarrow> password_policy api (passwordRequirements w) (text_of api NewPassword w)
     \<and> (mode w = pwmChangePassword \<longrightarrow>
          new_old_policy (passwordRequirements w) (text_of api NewPassword w) (text_of api OldPassword w))"

lemma DoValidateNewPassword_stage:
  "\<exists>w'. DoValidateNewPassword api (log, w) = Some (Ret () (log, w')) \<and> stage_post NewPassword (new_ok api w) w w'"
proof -
  let ?new = "text_of api NewPassword w" and ?old = "text_of api OldPassword w" and ?r = "passwordRequirements w"
  have post: "check_post NewPassword (password_policy api ?r ?new) w (check_new api ?new w)"
    by (rule check_new_post)
  show ?thesis
  proof (cases "fst (check_new api ?new w)")
    case False
    then show ?thesis using post by (simp add: DoValidateNewPassword_def check_post_def new_ok_def)
  next
    case True
    then have first: "snd (check_new api ?new w) = w" "password_policy api ?r ?new" using post by (simp_all add: check_post_def)
    show ?thesis
    proof (cases "mode w = pwmChangePassword")
      case False
      then show ?thesis using True first stage_accept(2) by (simp add: DoValidateNewPassword_def new_ok_def)
    next
      case change: True
      have post2: "check_post NewPassword (new_old_policy ?r ?new ?old) w (check_new_old ?new ?old w)"
        by (rule check_new_old_post)
      show ?thesis
      proof (cases "fst (check_new_old ?new ?old w)")
        case False
        then show ?thesis using True first change post2[unfolded check_post_def, simplified False if_False, rule_format, of True]
          by (simp add: DoValidateNewPassword_def new_ok_def)
      next
        case True2: True
        then show ?thesis using True first change post2 stage_accept(2)
          by (simp add: DoValidateNewPassword_def new_ok_def check_post_def)
      qed
    qed
  qed
qed

lemma DoValidateConfirmNewPassword_stage:
  assumes "isValid w \<Longrightarrow> pwdMinLen (passwordRequirements w) > 0 \<Longrightarrow> text_of api NewPassword w \<noteq> []"
  shows "\<exists>w'. DoValidateConfirmNewPassword api (log, w) = Some (Ret () (log, w'))
    \<and> stage_post ConfirmNewPassword (text_of api ConfirmNewPassword w = text_of api NewPassword w) w w'"
proof -
  let ?new = "text_of api NewPassword w" and ?confirm = "text_of api ConfirmNewPassword w"
  let ?ok = "\<not> (pwdMinLen (passwordRequirements w) > 0 \<and> ?confirm = [])"
  have post: "check_post ConfirmNewPassword ?ok w (check_confirm_empty ?confirm w)"
    by (rule check_confirm_empty_post)
  show ?thesis
  proof (cases "fst (check_confirm_empty ?confirm w)")
    case True
    then show ?thesis
      using post check_confirm_stage by (simp add: DoValidateConfirmNewPassword_def check_post_def)
  next
    case False
    let ?w' = "snd (check_confirm_empty ?confirm w)"
    have "stage_post ConfirmNewPassword (?ok \<and> ?confirm = ?new) w ?w'" using post False by (simp add: check_post_def)
    moreover have "isValid w \<Longrightarrow> (?ok \<and> ?confirm = ?new) = (?confirm = ?new)" using assms by auto
    ultimately have "stage_post ConfirmNewPassword (?confirm = ?new) w ?w'"
      by (cases "isValid w") (auto simp: stage_post_def)
    then show ?thesis using False by (simp add: DoValidateConfirmNewPassword_def)
  qed
qed

lemma DoValidateNewPasswordHint_stage:
  "\<exists>w'. DoValidateNewPasswordHint api (log, w) = Some (Ret () (log, w')) \<and> stage_post NewPasswordHint
     (hint_policy api (passwordRequirements w) (text_of api NewPasswordHint w) (text_of api NewPassword w)) w w'"
proof -
  let ?new = "text_of api NewPassword w" and ?hint = "text_of api NewPasswordHint w" and ?r = "passwordRequirements w"
  note post = check_hint_post[of ?r w api ?hint, OF refl]
  show ?thesis
  proof (cases "fst (check_hint api ?hint w)")
    case True
    then show ?thesis
      using post check_hint_password_stage[of ?r w ?hint ?new, OF refl]
      by (simp add: DoValidateNewPasswordHint_def check_post_def hint_policy_def)
  next
    case False
    then show ?thesis using post by (simp add: DoValidateNewPasswordHint_def check_post_def hint_policy_def)
  qed
qed

section \<open>Validation decides the policy\<close>

fun field_ok :: "('e, 'x) line_edit_api \<Rightarrow> ('e, 'c) password_widget \<Rightarrow> field \<Rightarrow> bool" where
  "field_ok api w OldPassword = password_policy api (passwordRequirements w) (text_of api OldPassword w)"
| "field_ok api w NewPassword = new_ok api w"
| "field_ok api w ConfirmNewPassword = (text_of api ConfirmNewPassword w = text_of api NewPassword w)"
| "field_ok api w NewPasswordHint =
     hint_policy api (passwordRequirements w) (text_of api NewPasswordHint w) (text_of api NewPassword w)"

text \<open>The validated fields, in the order of validation.\<close>

definition fields :: "Mode \<Rightarrow> field list" where
  "fields m = (if m = pwmChangePassword then [OldPassword] else []) @ [NewPassword, ConfirmNewPassword, NewPasswordHint]"

lemma widget_policy_fields: "widget_policy api w \<longleftrightarrow> (\<forall>f\<in>set (fields (mode w)). field_ok api w f)"
  by (auto simp: widget_policy_def fields_def new_ok_def)

definition progress :: "('e, 'x) line_edit_api \<Rightarrow> field list \<Rightarrow> ('e, 'c) password_widget \<Rightarrow> ('e, 'c) password_widget \<Rightarrow> bool" where
  "progress api fs w0 w \<longleftrightarrow> inputs w = inputs w0 \<and> isValid w = (\<forall>f\<in>set fs. field_ok api w0 f)
     \<and> (isValid w \<longrightarrow> (\<forall>f\<in>set fs. background (edit_of f w) = Some (acceptableColor w)))
     \<and> (\<not> isValid w \<longrightarrow> (\<exists>pre f post. fs = pre @ f # post \<and> (\<forall>g\<in>set pre. field_ok api w0 g) \<and> \<not> field_ok api w0 f \<and> reported f w))"

lemma inputs_eqD:
  assumes "inputs w = inputs w'"
  shows "mode w = mode w'" "passwordRequirements w = passwordRequirements w'" "acceptableColor w = acceptableColor w'"
    "intermediateColor w = intermediateColor w'" "invalidColor w = invalidColor w'" "text_of api f w = text_of api f w'"
    "field_ok api w f = field_ok api w' f"
proof -
  show eq: "mode w = mode w'" "passwordRequirements w = passwordRequirements w'" "acceptableColor w = acceptableColor w'"
    "intermediateColor w = intermediateColor w'" "invalidColor w = invalidColor w'"
    using assms by (simp_all add: inputs_def)
  have "le_state (edit_of f w) = le_state (edit_of f w')" for f
    using assms by (auto simp: inputs_def dest: fun_cong)
  then have texts: "text_of api f w = text_of api f w'" for f by (simp add: text_of_def)
  then show "text_of api f w = text_of api f w'" .
  show "field_ok api w f = field_ok api w' f" by (cases f) (simp_all add: eq texts new_ok_def)
qed

lemma progress_start: "progress api [] w (w\<lparr>isValid := True\<rparr>)"
proof -
  have "edit_of f (w\<lparr>isValid := True\<rparr>) = edit_of f w" for f by (cases f) simp_all
  then show ?thesis by (simp add: progress_def inputs_def)
qed

lemma progress_step:
  assumes "progress api fs w0 w" and stage: "stage_post f (field_ok api w f) w w'" and f: "f \<notin> set fs"
  shows "progress api (fs @ [f]) w0 w'"
proof -
  have w: "inputs w = inputs w0" "isValid w = (\<forall>f\<in>set fs. field_ok api w0 f)"
    using assms(1) by (simp_all add: progress_def)
  have w': "inputs w' = inputs w" "isValid w' = (isValid w \<and> field_ok api w0 f)" "g \<noteq> f \<Longrightarrow> edit_of g w' = edit_of g w" for g
    using stage inputs_eqD(7)[OF w(1), of api f] by (simp_all add: stage_post_def)
  note colors = inputs_eqD(3-5)[OF w'(1)]
  have "\<exists>pre g post. fs @ [f] = pre @ g # post \<and> (\<forall>g\<in>set pre. field_ok api w0 g) \<and> \<not> field_ok api w0 g \<and> reported g w'"
    if invalid: "\<not> isValid w'"
  proof (cases "isValid w")
    case True
    then have "reported f w'" "\<not> field_ok api w0 f" using stage invalid w'(2) by (simp_all add: stage_post_def)
    then show ?thesis using w(2) True by (intro exI[of _ fs] exI[of _ f] exI[of _ "[]"]) simp
  next
    case False
    then obtain pre g post where g: "fs = pre @ g # post" "\<forall>g\<in>set pre. field_ok api w0 g" "\<not> field_ok api w0 g" "reported g w"
      using assms(1) by (auto simp: progress_def)
    have "g \<noteq> f" using f g(1) by auto
    then have "reported g w'"
      using g(4) stage False w'(3)[of g] colors by (simp add: reported_def stage_post_def)
    then show ?thesis using g(1-3) by (intro exI[of _ pre] exI[of _ g] exI[of _ "post @ [f]"]) simp
  qed
  moreover have "background (edit_of g w') = Some (acceptableColor w')" if "isValid w'" "g \<in> set (fs @ [f])" for g
  proof (cases "g = f")
    case True
    then show ?thesis using that stage colors by (simp add: stage_post_def)
  next
    case False
    then show ?thesis using that assms(1) w'(2,3) colors by (simp add: progress_def)
  qed
  ultimately show ?thesis using w w'(1,2) by (auto simp: progress_def)
qed

lemma progress_new_nonempty:
  assumes "progress api fs w0 w" "NewPassword \<in> set fs" "isValid w" "pwdMinLen (passwordRequirements w) > 0"
  shows "text_of api NewPassword w \<noteq> []"
proof -
  have "field_ok api w0 NewPassword" "inputs w = inputs w0" using assms(1-3) by (simp_all add: progress_def del: field_ok.simps)
  then have "field_ok api w NewPassword" using inputs_eqD(7)[of w w0 api NewPassword] by blast
  then show ?thesis using assms(4) by (auto simp: new_ok_def password_policy_def at_least_def)
qed

lemma DoValidate_progress:
  assumes "progress api [] w0 w" "isValid w"
  shows "\<exists>w1. progress api (fields (mode w0)) w0 w1 \<and> DoValidate ndebug api (log, w)
     = Some (Ret () (log, if isValid w1 then SetAcceptableValidationMessage (''OK'', []) w1 else w1))"
proof -
  let ?pre = "if mode w0 = pwmChangePassword then [OldPassword] else []"
  have m: "mode w = mode w0" using inputs_eqD(1)[of w w0] assms(1) by (simp add: progress_def)
  obtain w1 where w1: "(if mode w = pwmChangePassword then DoValidateOldPassword ndebug api else ret ()) (log, w) = Some (Ret () (log, w1))"
      "progress api ?pre w0 w1"
  proof (cases "mode w = pwmChangePassword")
    case True
    then obtain w1 where "DoValidateOldPassword ndebug api (log, w) = Some (Ret () (log, w1))"
      "stage_post OldPassword (field_ok api w OldPassword) w w1"
      using DoValidateOldPassword_stage[of w ndebug api log] by auto
    then show ?thesis using that[of w1] progress_step[OF assms(1)] True m by simp
  qed (use that[of w] assms m in simp)
  obtain w2 where w2: "DoValidateNewPassword api (log, w1) = Some (Ret () (log, w2))" "stage_post NewPassword (new_ok api w1) w1 w2"
    using DoValidateNewPassword_stage by blast
  have p2: "progress api (?pre @ [NewPassword]) w0 w2"
    using w2(2) by (intro progress_step[OF w1(2)]) simp_all
  obtain w3 where w3: "DoValidateConfirmNewPassword api (log, w2) = Some (Ret () (log, w3))"
      "stage_post ConfirmNewPassword (field_ok api w2 ConfirmNewPassword) w2 w3"
    using DoValidateConfirmNewPassword_stage[of w2 api log] progress_new_nonempty[OF p2] by auto
  have p3: "progress api ((?pre @ [NewPassword]) @ [ConfirmNewPassword]) w0 w3"
    by (rule progress_step[OF p2 w3(2)]) simp
  obtain w4 where w4: "DoValidateNewPasswordHint api (log, w3) = Some (Ret () (log, w4))"
      "stage_post NewPasswordHint (field_ok api w3 NewPasswordHint) w3 w4"
    using DoValidateNewPasswordHint_stage[of api log w3] by auto
  have p4: "progress api (((?pre @ [NewPassword]) @ [ConfirmNewPassword]) @ [NewPasswordHint]) w0 w4"
    by (rule progress_step[OF p3 w4(2)]) simp
  have "DoValidate ndebug api (log, w)
     = Some (Ret () (log, if isValid w4 then SetAcceptableValidationMessage (''OK'', []) w4 else w4))"
    using w1(1) w2(1) w3(1) w4(1) assms(2) by (simp add: DoValidate_def)
  moreover have "((?pre @ [NewPassword]) @ [ConfirmNewPassword]) @ [NewPasswordHint] = fields (mode w0)"
    by (simp add: fields_def)
  ultimately show ?thesis using p4 by metis
qed

definition validated :: "('e, 'x) line_edit_api \<Rightarrow> ('e, 'c) password_widget \<Rightarrow> ('e, 'c) password_widget \<Rightarrow> bool" where
  "validated api w w' \<longleftrightarrow> inputs w' = inputs w \<and> isValid w' = widget_policy api w
    \<and> (widget_policy api w \<longrightarrow> labelPasswordInfo w' = Some (acceptableColor w, (''OK'', []))
        \<and> (\<forall>f\<in>set (fields (mode w)). background (edit_of f w') = Some (acceptableColor w)))
    \<and> (\<not> widget_policy api w \<longrightarrow> (\<exists>pre f post. fields (mode w) = pre @ f # post
        \<and> (\<forall>g\<in>set pre. field_ok api w g) \<and> \<not> field_ok api w f \<and> reported f w'))"

lemma Validate_validated:
  "\<exists>w'. PasswordWidget_Validate ndebug api (log, w) = Some (Ret (widget_policy api w)
       (log @ (if isValid w \<noteq> widget_policy api w then [widget_policy api w] else []), w')) \<and> validated api w w'"
proof -
  let ?w = "w\<lparr>isValid := True\<rparr>" and ?ok = "SetAcceptableValidationMessage (''OK'', [])"
  obtain w1 where p: "progress api (fields (mode w)) w w1"
    and run: "DoValidate ndebug api (log, ?w) = Some (Ret () (log, if isValid w1 then ?ok w1 else w1))"
    using DoValidate_progress[OF progress_start] by fastforce
  let ?w' = "if isValid w1 then ?ok w1 else w1"
  have valid: "isValid w1 = widget_policy api w" using p by (simp add: progress_def widget_policy_fields)
  have edits: "edit_of f (?ok w1) = edit_of f w1" for f
    by (cases f) (simp_all add: SetAcceptableValidationMessage_def SetValidationMessage_def)
  have ok: "isValid (?ok w1) = isValid w1" "inputs (?ok w1) = inputs w1"
      "labelPasswordInfo (?ok w1) = Some (acceptableColor w1, (''OK'', []))"
    unfolding inputs_def edits by (simp_all add: SetAcceptableValidationMessage_def SetValidationMessage_def)
  have "validated api w ?w'"
    using p valid ok edits inputs_eqD(3)[of w1 w] by (simp add: validated_def progress_def)
  moreover have "PasswordWidget_Validate ndebug api (log, w) = Some (Ret (widget_policy api w)
       (log @ (if isValid w \<noteq> widget_policy api w then [widget_policy api w] else []), ?w'))"
    using run ok(1) valid by (cases "widget_policy api w") (simp_all add: PasswordWidget_Validate_def emit_ValidChanged_def)
  ultimately show ?thesis by blast
qed

section \<open>The life of a widget\<close>

definition SetupStrings :: "('e, 'c) update" where
  "SetupStrings w = (if mode w = pwmChangePassword
     then w\<lparr>labelOldPassword := ''&Old Password:'', labelNewPassword := ''&New Password:'',
            labelConfirmNewPassword := ''Confirm New &Password:'', labelNewPasswordHint := ''New Password &Hint:''\<rparr>
     else w\<lparr>labelNewPassword := ''&Password:'',
            labelConfirmNewPassword := ''Confirm P&assword:'', labelNewPasswordHint := ''Password &Hint:''\<rparr>)"

definition on_edits :: "field set \<Rightarrow> (('e, 'c) line_edit \<Rightarrow> ('e, 'c) line_edit) \<Rightarrow> ('e, 'c) update" where
  "on_edits fs g w = w\<lparr>
     editOldPassword := (if OldPassword \<in> fs then g (editOldPassword w) else editOldPassword w),
     editNewPassword := (if NewPassword \<in> fs then g (editNewPassword w) else editNewPassword w),
     editConfirmNewPassword := (if ConfirmNewPassword \<in> fs then g (editConfirmNewPassword w) else editConfirmNewPassword w),
     editNewPasswordHint := (if NewPasswordHint \<in> fs then g (editNewPasswordHint w) else editNewPasswordHint w)\<rparr>"

definition Validate_after :: "bool \<Rightarrow> ('e, 'x) line_edit_api \<Rightarrow> ('e, 'c) update \<Rightarrow> ('e, 'c, unit) widget_op" where
  "Validate_after ndebug api f = andthen (modify f) (andthen (PasswordWidget_Validate ndebug api) (ret ()))"

definition SetMode :: "bool \<Rightarrow> ('e, 'x) line_edit_api \<Rightarrow> Mode \<Rightarrow> ('e, 'c, unit) widget_op" where
  "SetMode ndebug api m = Validate_after ndebug api (\<lambda>w.
     SetupStrings (on_edits {OldPassword} (\<lambda>e. e\<lparr>le_visible := (m = pwmChangePassword)\<rparr>)
       (w\<lparr>mode := m, labelOldPasswordVisible := (m = pwmChangePassword)\<rparr>)))"

definition SetRequirements :: "bool \<Rightarrow> ('e, 'x) line_edit_api \<Rightarrow> password_requirements \<Rightarrow> ('e, 'c, unit) widget_op" where
  "SetRequirements ndebug api r = Validate_after ndebug api (\<lambda>w. (let
     maxLength = (\<lambda>n e. e\<lparr>le_state := le_setMaxLength api (if n > 0 then n else kQLineEditMaxLength) (le_state e)\<rparr>)
     in SetupStrings (on_edits {NewPasswordHint} (maxLength (hintMaxLen r))
         (on_edits {OldPassword, NewPassword, ConfirmNewPassword} (maxLength (pwdMaxLen r))
           (w\<lparr>passwordRequirements := r, showRequirementsVisible := HasRequirements r\<rparr>)))))"

definition Clear :: "bool \<Rightarrow> ('e, 'x) line_edit_api \<Rightarrow> ('e, 'c, unit) widget_op" where
  "Clear ndebug api = Validate_after ndebug api (\<lambda>w. (on_edits UNIV (\<lambda>e. e\<lparr>le_state := le_setText api [] (le_state e)\<rparr>) w)
     \<lparr>labelPasswordInfo := None\<rparr>)"

definition SetAcceptableColor :: "bool \<Rightarrow> ('e, 'x) line_edit_api \<Rightarrow> 'c \<Rightarrow> ('e, 'c, unit) widget_op" where
  "SetAcceptableColor ndebug api c = Validate_after ndebug api (\<lambda>w. w\<lparr>acceptableColor := c\<rparr>)"

definition SetIntermediateColor :: "bool \<Rightarrow> ('e, 'x) line_edit_api \<Rightarrow> 'c \<Rightarrow> ('e, 'c, unit) widget_op" where
  "SetIntermediateColor ndebug api c = Validate_after ndebug api (\<lambda>w. w\<lparr>intermediateColor := c\<rparr>)"

definition SetInvalidColor :: "bool \<Rightarrow> ('e, 'x) line_edit_api \<Rightarrow> 'c \<Rightarrow> ('e, 'c, unit) widget_op" where
  "SetInvalidColor ndebug api c = Validate_after ndebug api (\<lambda>w. w\<lparr>invalidColor := c\<rparr>)"

text \<open>\<open>changeEvent\<close> for a change of language: \<open>retranslateUi\<close>, generated from the form, sets the labels.\<close>

definition LanguageChange :: "bool \<Rightarrow> ('e, 'x) line_edit_api \<Rightarrow> string \<Rightarrow> string \<Rightarrow> string \<Rightarrow> string \<Rightarrow> ('e, 'c, unit) widget_op" where
  "LanguageChange ndebug api old new confirm hint = Validate_after ndebug api (\<lambda>w. SetupStrings
     (w\<lparr>labelOldPassword := old, labelNewPassword := new, labelConfirmNewPassword := confirm, labelNewPasswordHint := hint\<rparr>))"

definition ShowCharacters :: "bool \<Rightarrow> ('e, 'c) update" where
  "ShowCharacters b w = on_edits {OldPassword, NewPassword, ConfirmNewPassword}
     (\<lambda>e. e\<lparr>echoMode := (if b then Normal else Password)\<rparr>) w"

text \<open>The check box emits \<open>toggled\<close>, which is connected to \<open>ShowCharacters\<close>, when its state changes.\<close>

definition SetShowCharactersChecked :: "bool \<Rightarrow> ('e, 'c, unit) widget_op" where
  "SetShowCharactersChecked b = modify (\<lambda>w. if showCharactersChecked w = b then w
     else ShowCharacters b (w\<lparr>showCharactersChecked := b\<rparr>))"

definition SetPasswordHintVisible :: "bool \<Rightarrow> ('e, 'c, unit) widget_op" where
  "SetPasswordHintVisible b = modify (\<lambda>w. on_edits {NewPasswordHint} (\<lambda>e. e\<lparr>le_visible := b\<rparr>)
     (w\<lparr>labelNewPasswordHintVisible := b\<rparr>))"

text \<open>The user edits the text of a field: its state becomes any other, and \<open>textEdited\<close> is connected to
  \<open>Validate\<close>.\<close>

definition UserEdit :: "bool \<Rightarrow> ('e, 'x) line_edit_api \<Rightarrow> field \<Rightarrow> 'e \<Rightarrow> ('e, 'c, unit) widget_op" where
  "UserEdit ndebug api f e = Validate_after ndebug api (on_edits {f} (\<lambda>le. le\<lparr>le_state := e\<rparr>))"

text \<open>The constructor, on the members as \<open>setupUi\<close> leaves them (\<open>w\<close>); \<open>registered\<close> tells whether the
  registration of the type of the mode succeeds.\<close>

definition PasswordWidget_ctor :: "bool \<Rightarrow> ('e, 'x) line_edit_api \<Rightarrow> bool \<Rightarrow> 'c \<Rightarrow> 'c \<Rightarrow> 'c \<Rightarrow> ('e, 'c, unit) widget_op" where
  "PasswordWidget_ctor ndebug api registered darkGreen darkYellow darkRed =
     andthen (modify (\<lambda>w. w\<lparr>mode := pwmChangePassword, isValid := False, passwordRequirements := default_requirements,
        acceptableColor := darkGreen, intermediateColor := darkYellow, invalidColor := darkRed\<rparr>)) (
     bind (this passwordRequirements) (\<lambda>r.
     andthen (cpp_assert ndebug (HasRequirements r)) (
     andthen (cpp_assert ndebug (pwdMaxLen r \<le> 0)) (
     andthen (cpp_assert ndebug (hintMaxLen r \<le> 0)) (
     andthen (check registered (mk_exn RuntimeException)) (
     andthen (modify SetupStrings) (
     bind (this (\<lambda>w. \<forall>f\<in>{OldPassword, NewPassword, ConfirmNewPassword}. echoMode (edit_of f w) = Password)) (\<lambda>hidden.
     andthen (cpp_assert ndebug hidden) (
     Clear ndebug api)))))))))"

datatype ('e, 'c) event =
    Ev_SetMode Mode | Ev_SetRequirements password_requirements | Ev_Clear
  | Ev_SetAcceptableColor 'c | Ev_SetIntermediateColor 'c | Ev_SetInvalidColor 'c
  | Ev_LanguageChange string string string string | Ev_SetShowCharactersChecked bool | Ev_SetPasswordHintVisible bool
  | Ev_UserEdit field 'e

fun handle :: "bool \<Rightarrow> ('e, 'x) line_edit_api \<Rightarrow> ('e, 'c) event \<Rightarrow> ('e, 'c, unit) widget_op" where
  "handle ndebug api (Ev_SetMode m) = SetMode ndebug api m"
| "handle ndebug api (Ev_SetRequirements r) = SetRequirements ndebug api r"
| "handle ndebug api Ev_Clear = Clear ndebug api"
| "handle ndebug api (Ev_SetAcceptableColor c) = SetAcceptableColor ndebug api c"
| "handle ndebug api (Ev_SetIntermediateColor c) = SetIntermediateColor ndebug api c"
| "handle ndebug api (Ev_SetInvalidColor c) = SetInvalidColor ndebug api c"
| "handle ndebug api (Ev_LanguageChange a b c d) = LanguageChange ndebug api a b c d"
| "handle ndebug api (Ev_SetShowCharactersChecked b) = SetShowCharactersChecked b"
| "handle ndebug api (Ev_SetPasswordHintVisible b) = SetPasswordHintVisible b"
| "handle ndebug api (Ev_UserEdit f e) = UserEdit ndebug api f e"

text \<open>The states of a widget and its log of signals, from construction on.\<close>

inductive reachable :: "bool \<Rightarrow> ('e, 'x) line_edit_api \<Rightarrow> bool list \<times> ('e, 'c) password_widget \<Rightarrow> bool"
  for ndebug api where
  constructed: "PasswordWidget_ctor ndebug api True g y r ([], w) = Some (Ret () s) \<Longrightarrow> reachable ndebug api s"
| handled: "reachable ndebug api s \<Longrightarrow> handle ndebug api ev s = Some (Ret () s') \<Longrightarrow> reachable ndebug api s'"

section \<open>The widget invariant\<close>

fun alternating :: "bool \<Rightarrow> bool list \<Rightarrow> bool" where
  "alternating b [] = True"
| "alternating b (x # xs) = (x = b \<and> alternating (\<not> b) xs)"

definition current :: "bool list \<Rightarrow> bool" where
  "current log = (if log = [] then False else last log)"

lemma alternating_snoc: "alternating b (log @ [x]) \<longleftrightarrow> alternating b log \<and> x = (if even (length log) then b else \<not> b)"
  by (induction log arbitrary: b) auto

lemma alternating_current: "alternating True log \<Longrightarrow> current log = odd (length log)"
  by (induction log rule: rev_induct) (auto simp: current_def alternating_snoc)

definition widget_inv :: "('e, 'x) line_edit_api \<Rightarrow> bool list \<times> ('e, 'c) password_widget \<Rightarrow> bool" where
  "widget_inv api s \<longleftrightarrow> isValid (snd s) = widget_policy api (snd s) \<and> alternating True (fst s) \<and> current (fst s) = isValid (snd s)"

lemma widget_policy_inputs: "inputs w = inputs w' \<Longrightarrow> widget_policy api w = widget_policy api w'"
  using inputs_eqD(1,7) by (metis widget_policy_fields)

lemma Validate_after_inv:
  assumes "alternating True log" "current log = isValid w" "isValid (f w) = isValid w"
  shows "\<exists>s'. Validate_after ndebug api f (log, w) = Some (Ret () s') \<and> widget_inv api s'"
proof -
  let ?ok = "widget_policy api (f w)"
  let ?log = "log @ (if isValid (f w) \<noteq> ?ok then [?ok] else [])"
  obtain w' where w': "PasswordWidget_Validate ndebug api (log, f w) = Some (Ret ?ok (?log, w'))" "validated api (f w) w'"
    using Validate_validated[of ndebug api log "f w"] by blast
  then have "isValid w' = ?ok" "widget_policy api w' = ?ok"
    using widget_policy_inputs by (auto simp: validated_def)
  moreover have "alternating True ?log"
    using assms alternating_current[OF assms(1)] by (auto simp: alternating_snoc)
  moreover have "current ?log = ?ok" using assms by (auto simp: current_def)
  ultimately show ?thesis using w'(1) by (auto simp: Validate_after_def widget_inv_def)
qed

lemma on_edits_simps [simp]:
  "isValid (on_edits fs g w) = isValid w" "mode (on_edits fs g w) = mode w"
  "passwordRequirements (on_edits fs g w) = passwordRequirements w"
  "isValid (SetupStrings w) = isValid w"
  "edit_of f (on_edits fs g w) = (if f \<in> fs then g (edit_of f w) else edit_of f w)"
  by (simp_all add: on_edits_def SetupStrings_def) (cases f; simp)

lemma policy_keeps:
  assumes "\<And>f. text_of api f w' = text_of api f w" "mode w' = mode w" "passwordRequirements w' = passwordRequirements w"
  shows "widget_policy api w' = widget_policy api w"
  by (simp add: widget_policy_def assms)

lemma on_edits_policy:
  assumes "\<And>e. le_state (g e) = le_state e"
  shows "widget_policy api (on_edits fs g w) = widget_policy api w"
  by (rule policy_keeps) (simp_all add: text_of_def assms)

lemma record_text:
  "text_of api f (w\<lparr>showCharactersChecked := b\<rparr>) = text_of api f w"
  "text_of api f (w\<lparr>labelNewPasswordHintVisible := b\<rparr>) = text_of api f w"
  by (cases f; simp add: text_of_def)+

lemma Validate_ops_inv:
  assumes log: "alternating True log" "current log = isValid w"
  shows "\<exists>s'. SetMode ndebug api m (log, w) = Some (Ret () s') \<and> widget_inv api s'"
    "\<exists>s'. SetRequirements ndebug api r (log, w) = Some (Ret () s') \<and> widget_inv api s'"
    "\<exists>s'. Clear ndebug api (log, w) = Some (Ret () s') \<and> widget_inv api s'"
    "\<exists>s'. SetAcceptableColor ndebug api c (log, w) = Some (Ret () s') \<and> widget_inv api s'"
    "\<exists>s'. SetIntermediateColor ndebug api c (log, w) = Some (Ret () s') \<and> widget_inv api s'"
    "\<exists>s'. SetInvalidColor ndebug api c (log, w) = Some (Ret () s') \<and> widget_inv api s'"
    "\<exists>s'. LanguageChange ndebug api l1 l2 l3 l4 (log, w) = Some (Ret () s') \<and> widget_inv api s'"
    "\<exists>s'. UserEdit ndebug api f e (log, w) = Some (Ret () s') \<and> widget_inv api s'"
  unfolding SetMode_def SetRequirements_def Clear_def SetAcceptableColor_def SetIntermediateColor_def
    SetInvalidColor_def LanguageChange_def UserEdit_def Let_def
  by (rule Validate_after_inv[OF log]; simp)+

lemma display_ops_inv:
  assumes "widget_inv api (log, w)"
  shows "\<exists>s'. SetShowCharactersChecked b (log, w) = Some (Ret () s') \<and> widget_inv api s'"
    and "\<exists>s'. SetPasswordHintVisible b (log, w) = Some (Ret () s') \<and> widget_inv api s'"
proof -
  have "widget_policy api (ShowCharacters b (w\<lparr>showCharactersChecked := b\<rparr>)) = widget_policy api w"
    unfolding ShowCharacters_def by (rule trans[OF on_edits_policy policy_keeps]; simp add: record_text)
  then show "\<exists>s'. SetShowCharactersChecked b (log, w) = Some (Ret () s') \<and> widget_inv api s'"
    using assms by (simp add: SetShowCharactersChecked_def widget_inv_def) (simp add: ShowCharacters_def)
  have "widget_policy api (on_edits {NewPasswordHint} (\<lambda>e. e\<lparr>le_visible := b\<rparr>) (w\<lparr>labelNewPasswordHintVisible := b\<rparr>))
      = widget_policy api w"
    by (rule trans[OF on_edits_policy policy_keeps]; simp add: record_text)
  then show "\<exists>s'. SetPasswordHintVisible b (log, w) = Some (Ret () s') \<and> widget_inv api s'"
    using assms by (simp add: SetPasswordHintVisible_def widget_inv_def)
qed

lemma handle_inv:
  assumes "widget_inv api (log, w)"
  shows "\<exists>s'. handle ndebug api ev (log, w) = Some (Ret () s') \<and> widget_inv api s'"
proof -
  have "alternating True log" "current log = isValid w" using assms by (simp_all add: widget_inv_def)
  note steps = Validate_ops_inv[OF this] and display = display_ops_inv[OF assms]
  show ?thesis by (cases ev; simp only: handle.simps; rule steps display)
qed

lemma ctor_inv:
  assumes "PasswordWidget_ctor ndebug api registered g y r ([], w) = Some res"
  shows "(\<exists>s. res = Ret () s \<and> widget_inv api s) \<or> (\<exists>s. res = Exc (mk_exn RuntimeException) s) \<or> (\<exists>s. res = Term s)"
proof -
  let ?w = "SetupStrings (w\<lparr>mode := pwmChangePassword, isValid := False, passwordRequirements := default_requirements,
        acceptableColor := g, intermediateColor := y, invalidColor := r\<rparr>)"
  have "HasRequirements default_requirements" "pwdMaxLen default_requirements \<le> 0" "hintMaxLen default_requirements \<le> 0"
    by (simp_all add: HasRequirements_def default_requirements_def)
  moreover obtain s' where "Clear ndebug api ([], ?w) = Some (Ret () s')" "widget_inv api s'"
    using Validate_ops_inv(3)[of "[]" ?w ndebug api] by (auto simp: current_def)
  ultimately show ?thesis
    using assms by (cases s'; cases registered; cases "ndebug \<or> (echoMode (editOldPassword ?w) = Password \<and>
      echoMode (editNewPassword ?w) = Password \<and> echoMode (editConfirmNewPassword ?w) = Password)")
      (auto simp: PasswordWidget_ctor_def)
qed

lemma reachable_inv: "reachable ndebug api s \<Longrightarrow> widget_inv api s"
proof (induction rule: reachable.induct)
  case (constructed g y r w s)
  then show ?case using ctor_inv by fastforce
next
  case (handled s ev s')
  then show ?case using handle_inv[of api "fst s" "snd s" ndebug ev] by auto
qed

section \<open>Properties\<close>

text \<open>\<open>Validate\<close> returns, always, whether the texts in the widget satisfy the whole policy: the
  requirements on the old password (when changing one) and on the new one, the new one against the old
  one, the confirmation, the hint.  It stores the answer, changes nothing validation reads, and emits
  \<open>ValidChanged\<close> exactly when the answer differs from the stored one.\<close>

theorem Validate_decides_policy:
  "\<exists>w'. PasswordWidget_Validate ndebug api (log, w) = Some (Ret (widget_policy api w)
       (log @ (if isValid w \<noteq> widget_policy api w then [widget_policy api w] else []), w'))
     \<and> isValid w' = widget_policy api w \<and> inputs w' = inputs w"
  using Validate_validated[of ndebug api log w] by (auto simp: validated_def)

text \<open>What the user sees after \<open>Validate\<close>.  When the policy holds the message is \<open>OK\<close> and every
  validated field has the acceptable colour; otherwise the message is about the first field, in the order
  old password, new password, confirmation, hint, whose own rule fails, and both the message and that
  field have the same colour, the intermediate or the invalid one.\<close>

theorem Validate_reports_first_failure:
  assumes "PasswordWidget_Validate ndebug api (log, w) = Some (Ret ok (log', w'))"
  shows "(ok \<longrightarrow> labelPasswordInfo w' = Some (acceptableColor w, (''OK'', []))
        \<and> (\<forall>f\<in>set (fields (mode w)). background (edit_of f w') = Some (acceptableColor w)))
    \<and> (\<not> ok \<longrightarrow> (\<exists>pre f post. fields (mode w) = pre @ f # post \<and> (\<forall>g\<in>set pre. field_ok api w g) \<and> \<not> field_ok api w f
        \<and> (\<exists>c msg. labelPasswordInfo w' = Some (c, msg) \<and> background (edit_of f w') = Some c
             \<and> (c = intermediateColor w \<or> c = invalidColor w))))"
proof -
  have v: "validated api w w'" "ok = widget_policy api w"
    using assms Validate_validated[of ndebug api log w] by auto
  then have "intermediateColor w' = intermediateColor w" "invalidColor w' = invalidColor w"
    by (simp_all add: validated_def inputs_eqD(4,5)[of w' w])
  then show ?thesis using v by (simp add: validated_def reported_def)
qed

text \<open>A widget on concrete texts, for the witnesses.\<close>

definition sample_api :: "(qstring, unit) line_edit_api" where
  "sample_api = \<lparr>isLetter = isLetter ascii_api, isUpper = isUpper ascii_api, isLower = isLower ascii_api,
     isDigit = isDigit ascii_api, isSymbol = isSymbol ascii_api, toLatin1 = toLatin1 ascii_api,
     le_text = (\<lambda>t. t), le_setText = (\<lambda>t _. t), le_setMaxLength = (\<lambda>n t. take (nat n) t), \<dots> = ()\<rparr>"

definition sample_edit :: "qstring \<Rightarrow> (qstring, nat) line_edit" where
  "sample_edit t = \<lparr>le_state = t, background = None, le_visible = True, echoMode = Password\<rparr>"

definition sample_widget :: "qstring \<Rightarrow> qstring \<Rightarrow> qstring \<Rightarrow> (qstring, nat) password_widget" where
  "sample_widget new confirm hint = \<lparr>mode = pwmSetPassword, isValid = False, passwordRequirements = cleared_requirements,
     acceptableColor = 0, intermediateColor = 1, invalidColor = 2, editOldPassword = sample_edit [],
     editNewPassword = sample_edit new, editConfirmNewPassword = sample_edit confirm, editNewPasswordHint = sample_edit hint,
     labelPasswordInfo = None, labelOldPassword = [], labelNewPassword = [], labelConfirmNewPassword = [],
     labelNewPasswordHint = [], labelOldPasswordVisible = True, labelNewPasswordHintVisible = True,
     showCharactersChecked = False, showRequirementsVisible = False\<rparr>"

lemma sample_policy: "widget_policy sample_api (sample_widget new confirm hint) \<longleftrightarrow>
    length new \<le> 32767 \<and> confirm = new \<and> length hint \<le> 32767"
  by (auto simp: widget_policy_def sample_widget_def text_of_def sample_edit_def sample_api_def password_policy_def
      hint_policy_def cleared_requirements_def at_least_def effective_max_def kQLineEditMaxLength_def)

theorem Validate_reports_first_failure_witness:
  "\<exists>log' w'. PasswordWidget_Validate False sample_api ([], sample_widget [65] [66] []) = Some (Ret False (log', w'))
     \<and> (\<exists>pre f post. fields pwmSetPassword = pre @ f # post \<and> \<not> field_ok sample_api (sample_widget [65] [66] []) f)"
proof -
  let ?w = "sample_widget [65] [66] []"
  have "\<not> widget_policy sample_api ?w" by (simp add: sample_policy)
  then obtain w' where run: "PasswordWidget_Validate False sample_api ([], ?w) = Some (Ret False ([], w'))"
    using Validate_validated[of False sample_api "[]" ?w] by (auto simp: sample_widget_def)
  have "mode ?w = pwmSetPassword" by (simp add: sample_widget_def)
  then show ?thesis using run Validate_reports_first_failure[OF run] by (simp del: field_ok.simps) blast
qed

text \<open>C14: the state machine of the widget.  In every state reached from the constructor by any sequence of
  calls of its public operations, edits of the user and language changes, \<open>IsValid()\<close> is the truth of the
  policy for the current texts, mode and requirements, the \<open>ValidChanged\<close> signals emitted alternate
  \<open>true, false, true\<close> and so on, and the last one is the current value (\<open>false\<close> when none was emitted);
  and every further operation returns normally to such a state.\<close>

theorem widget_invariant:
  assumes "reachable ndebug api s"
  shows "isValid (snd s) = widget_policy api (snd s) \<and> alternating True (fst s)
    \<and> isValid (snd s) = (fst s \<noteq> [] \<and> last (fst s))
    \<and> (\<exists>s'. handle ndebug api ev s = Some (Ret () s') \<and> reachable ndebug api s')"
proof -
  have inv: "widget_inv api s" by (rule reachable_inv[OF assms])
  obtain s' where s': "handle ndebug api ev s = Some (Ret () s')" using handle_inv[of api "fst s" "snd s" ndebug ev] inv by auto
  then have "reachable ndebug api s'" by (rule handled[OF assms])
  moreover have "isValid (snd s) = (fst s \<noteq> [] \<and> last (fst s))"
    using inv unfolding widget_inv_def by (metis current_def)
  ultimately show ?thesis using inv s' by (auto simp: widget_inv_def)
qed

theorem widget_invariant_witness:
  "\<exists>s s' :: bool list \<times> (qstring, nat) password_widget. reachable True sample_api s
     \<and> handle True sample_api (Ev_SetRequirements cleared_requirements) s = Some (Ret () s')
     \<and> isValid (snd s) = widget_policy sample_api (snd s)"
proof -
  let ?w = "sample_widget [65] [66] []"
  have "PasswordWidget_ctor True sample_api True 0 1 2 ([], ?w) \<noteq> None \<and>
      (\<forall>s. PasswordWidget_ctor True sample_api True 0 1 2 ([], ?w) \<noteq> Some (Exc (mk_exn RuntimeException) s)) \<and>
      (\<forall>s. PasswordWidget_ctor True sample_api True 0 1 2 ([], ?w) \<noteq> Some (Term s))"
    using Validate_ops_inv(3)[of "[]" "SetupStrings (?w\<lparr>mode := pwmChangePassword, isValid := False,
        passwordRequirements := default_requirements, acceptableColor := 0, intermediateColor := 1, invalidColor := 2\<rparr>)"
        True sample_api]
    by (auto simp: PasswordWidget_ctor_def current_def)
  then obtain s where "PasswordWidget_ctor True sample_api True 0 1 2 ([], ?w) = Some (Ret () s)"
    using ctor_inv[of True sample_api True 0 1 2 ?w] by fastforce
  then have "reachable True sample_api s" by (rule constructed)
  then show ?thesis
    using widget_invariant[of True sample_api s "Ev_SetRequirements cleared_requirements"] by blast
qed

end
