(* ===== verification/LoginWidget.thy ===== *)
theory LoginWidget
imports PasswordWidget
begin

text \<open>
  The login widget (\<open>src/gui/login_widget.cpp\<close>): one password field, validated for its characters and its
  length only, a hint label and a read-only check box.  Line edits, messages and signals are as in
  \<open>PasswordWidget\<close>; the log holds the \<open>ValidChanged\<close> signals.
\<close>

section \<open>State\<close>

record ('e, 'c) login_widget =
  readOnlyAllowed :: bool
  lw_requirements :: password_requirements
  lw_isValid :: bool
  isMarkPasswordColorEnabled :: bool
  lw_acceptableColor :: 'c
  lw_intermediateColor :: 'c
  lw_invalidColor :: 'c
  passwordHintTextColor :: 'c
  editPassword :: "('e, 'c) line_edit"
  passwordHint :: qstring
  hintLabelColor :: "'c option"
  hintVisible :: bool
  readOnlyVisible :: bool
  readOnlyChecked :: bool
  lw_showCharactersChecked :: bool

type_synonym ('e, 'c, 'a) login_op = "(exn, 'a, bool list \<times> ('e, 'c) login_widget) prog"
type_synonym ('e, 'c) login_update = "('e, 'c) login_widget \<Rightarrow> ('e, 'c) login_widget"

section \<open>Operations\<close>

definition mark_password :: "(('e, 'c) login_widget \<Rightarrow> 'c) \<Rightarrow> ('e, 'c) login_update" where
  "mark_password color w = w\<lparr>editPassword := (editPassword w)\<lparr>background :=
     (if isMarkPasswordColorEnabled w then Some (color w) else None)\<rparr>\<rparr>"

definition MarkPasswordAcceptable :: "('e, 'c) login_update" where
  "MarkPasswordAcceptable = mark_password lw_acceptableColor"

definition MarkPasswordIntermediate :: "('e, 'c) login_update" where
  "MarkPasswordIntermediate = mark_password lw_intermediateColor"

definition MarkPasswordInvalid :: "('e, 'c) login_update" where
  "MarkPasswordInvalid = mark_password lw_invalidColor"

definition lw_text :: "('e, 'x) line_edit_api \<Rightarrow> ('e, 'c) login_widget \<Rightarrow> qstring" where
  "lw_text api w = le_text api (le_state (editPassword w))"

definition check_login :: "('e, 'x) line_edit_api \<Rightarrow> qstring \<Rightarrow> ('e, 'c) login_update" where
  "check_login api password w =
    (let r = lw_requirements w;
         kPwdLen = int (length password);
         reqMaxLen = (if pwdMaxLen r \<le> 0 then kQLineEditMaxLength else pwdMaxLen r)
     in
     if \<not> unicode r \<and> CountNonAscii api password > 0 then (MarkPasswordInvalid w)\<lparr>lw_isValid := False\<rparr>
     else if kPwdLen > reqMaxLen then (MarkPasswordInvalid w)\<lparr>lw_isValid := False\<rparr>
     else if pwdMinLen r > 0 \<and> kPwdLen < pwdMinLen r then (MarkPasswordIntermediate w)\<lparr>lw_isValid := False\<rparr>
     else MarkPasswordAcceptable w)"

definition Login_DoValidate :: "bool \<Rightarrow> ('e, 'x) line_edit_api \<Rightarrow> ('e, 'c, unit) login_op" where
  "Login_DoValidate ndebug api = bind (this lw_isValid) (\<lambda>valid. andthen (cpp_assert ndebug valid) (
     bind (this (lw_text api)) (\<lambda>password. modify (check_login api password))))"

definition Login_Validate :: "bool \<Rightarrow> ('e, 'x) line_edit_api \<Rightarrow> ('e, 'c, bool) login_op" where
  "Login_Validate ndebug api =
     bind (this lw_isValid) (\<lambda>kWasValid.
     andthen (modify (\<lambda>w. w\<lparr>lw_isValid := True\<rparr>)) (
     andthen (Login_DoValidate ndebug api) (
     bind (this lw_isValid) (\<lambda>valid. andthen (if kWasValid \<noteq> valid then env (\<lambda>log. Some (Ret () (log @ [valid]))) else ret ()) (
     ret valid)))))"

definition Login_after :: "bool \<Rightarrow> ('e, 'x) line_edit_api \<Rightarrow> ('e, 'c) login_update \<Rightarrow> ('e, 'c, unit) login_op" where
  "Login_after ndebug api f = andthen (modify f) (andthen (Login_Validate ndebug api) (ret ()))"

text \<open>\<open>ClearNew\<close> and \<open>ClearHint\<close> of the requirements the widget keeps.\<close>

definition login_requirements :: "password_requirements \<Rightarrow> password_requirements" where
  "login_requirements r = r\<lparr>newOldNotEqual := False, newOldMinSimilarity := 0,
     hintMaxLen := 0, hintMinLen := 0, hintNotEqual := False, hintMinSimilarity := 0\<rparr>"

definition Login_SetRequirements :: "bool \<Rightarrow> ('e, 'x) line_edit_api \<Rightarrow> password_requirements \<Rightarrow> ('e, 'c, unit) login_op" where
  "Login_SetRequirements ndebug api r = Login_after ndebug api (\<lambda>w. (let r' = login_requirements r in
     w\<lparr>lw_requirements := r', editPassword := (editPassword w)\<lparr>le_state :=
       le_setMaxLength api (if pwdMaxLen r' > 0 then pwdMaxLen r' else kQLineEditMaxLength) (le_state (editPassword w))\<rparr>\<rparr>))"

definition Login_Clear :: "bool \<Rightarrow> ('e, 'x) line_edit_api \<Rightarrow> ('e, 'c, unit) login_op" where
  "Login_Clear ndebug api = Login_after ndebug api (\<lambda>w.
     w\<lparr>editPassword := (editPassword w)\<lparr>le_state := le_setText api [] (le_state (editPassword w))\<rparr>, passwordHint := []\<rparr>)"

definition Login_SetupStrings :: "('e, 'c) login_update" where
  "Login_SetupStrings w = w\<lparr>hintLabelColor := Some (passwordHintTextColor w)\<rparr>"

text \<open>The state that \<open>IsReadOnlyChecked\<close> and \<open>SetReadOnlyChecked\<close> require is checked.\<close>

definition IsReadOnlyChecked :: "('e, 'c, bool) login_op" where
  "IsReadOnlyChecked = bind (this id) (\<lambda>w. andthen (check (readOnlyAllowed w) (mk_exn InvalidStateException)) (ret (readOnlyChecked w)))"

definition SetReadOnlyChecked :: "bool \<Rightarrow> ('e, 'c, unit) login_op" where
  "SetReadOnlyChecked b = bind (this id) (\<lambda>w. andthen (check (readOnlyAllowed w) (mk_exn InvalidStateException))
     (modify (\<lambda>w. w\<lparr>readOnlyChecked := b\<rparr>)))"

definition SetReadOnlyAllowed :: "bool \<Rightarrow> ('e, 'c, unit) login_op" where
  "SetReadOnlyAllowed b = modify (\<lambda>w. w\<lparr>readOnlyAllowed := b, readOnlyVisible := b\<rparr>)"

definition LoginWidget_ctor :: "bool \<Rightarrow> ('e, 'x) line_edit_api \<Rightarrow> bool \<Rightarrow> 'c \<Rightarrow> 'c \<Rightarrow> 'c \<Rightarrow> 'c \<Rightarrow> ('e, 'c, unit) login_op" where
  "LoginWidget_ctor ndebug api ui_ok darkGreen darkYellow darkRed darkBlue =
     andthen (modify (\<lambda>w. w\<lparr>readOnlyAllowed := True, lw_requirements := default_requirements, lw_isValid := False,
        isMarkPasswordColorEnabled := True, lw_acceptableColor := darkGreen, lw_intermediateColor := darkYellow,
        lw_invalidColor := darkRed, passwordHintTextColor := darkBlue\<rparr>)) (
     bind (this lw_requirements) (\<lambda>r.
     andthen (cpp_assert ndebug (HasRequirements r)) (
     andthen (cpp_assert ndebug (pwdMaxLen r \<le> 0)) (
     andthen (modify (\<lambda>w. Login_SetupStrings (w\<lparr>lw_requirements := login_requirements (lw_requirements w)\<rparr>))) (
     andthen (cpp_assert ndebug ui_ok) (
     Login_Clear ndebug api))))))"

datatype ('e, 'c) login_event =
    Lg_SetRequirements password_requirements | Lg_Clear | Lg_SetMarkPasswordColorEnabled bool
  | Lg_SetAcceptableColor 'c | Lg_SetIntermediateColor 'c | Lg_SetInvalidColor 'c | Lg_SetPasswordHintTextColor 'c
  | Lg_SetPasswordHint qstring | Lg_SetPasswordHintVisible bool | Lg_SetReadOnlyAllowed bool | Lg_SetReadOnlyChecked bool
  | Lg_SetShowCharactersChecked bool | Lg_LanguageChange | Lg_UserEdit 'e

fun login_handle :: "bool \<Rightarrow> ('e, 'x) line_edit_api \<Rightarrow> ('e, 'c) login_event \<Rightarrow> ('e, 'c, unit) login_op" where
  "login_handle ndebug api (Lg_SetRequirements r) = Login_SetRequirements ndebug api r"
| "login_handle ndebug api Lg_Clear = Login_Clear ndebug api"
| "login_handle ndebug api (Lg_SetMarkPasswordColorEnabled b) = Login_after ndebug api (\<lambda>w. w\<lparr>isMarkPasswordColorEnabled := b\<rparr>)"
| "login_handle ndebug api (Lg_SetAcceptableColor c) = Login_after ndebug api (\<lambda>w. w\<lparr>lw_acceptableColor := c\<rparr>)"
| "login_handle ndebug api (Lg_SetIntermediateColor c) = Login_after ndebug api (\<lambda>w. w\<lparr>lw_intermediateColor := c\<rparr>)"
| "login_handle ndebug api (Lg_SetInvalidColor c) = Login_after ndebug api (\<lambda>w. w\<lparr>lw_invalidColor := c\<rparr>)"
| "login_handle ndebug api (Lg_SetPasswordHintTextColor c) = modify (\<lambda>w. Login_SetupStrings (w\<lparr>passwordHintTextColor := c\<rparr>))"
| "login_handle ndebug api (Lg_SetPasswordHint t) = modify (\<lambda>w. w\<lparr>passwordHint := t\<rparr>)"
| "login_handle ndebug api (Lg_SetPasswordHintVisible b) = modify (\<lambda>w. w\<lparr>hintVisible := b\<rparr>)"
| "login_handle ndebug api (Lg_SetReadOnlyAllowed b) = SetReadOnlyAllowed b"
| "login_handle ndebug api (Lg_SetReadOnlyChecked b) = SetReadOnlyChecked b"
| "login_handle ndebug api (Lg_SetShowCharactersChecked b) = modify (\<lambda>w. if lw_showCharactersChecked w = b then w
     else w\<lparr>lw_showCharactersChecked := b, editPassword := (editPassword w)\<lparr>echoMode := (if b then Normal else Password)\<rparr>\<rparr>)"
| "login_handle ndebug api Lg_LanguageChange = Login_after ndebug api Login_SetupStrings"
| "login_handle ndebug api (Lg_UserEdit e) = Login_after ndebug api (\<lambda>w. w\<lparr>editPassword := (editPassword w)\<lparr>le_state := e\<rparr>\<rparr>)"

text \<open>A caller that catches what an operation throws.\<close>

inductive login_reachable :: "bool \<Rightarrow> ('e, 'x) line_edit_api \<Rightarrow> bool list \<times> ('e, 'c) login_widget \<Rightarrow> bool"
  for ndebug api where
  login_constructed: "LoginWidget_ctor ndebug api ui_ok g y r b ([], w) = Some (Ret () s) \<Longrightarrow> login_reachable ndebug api s"
| login_handled: "login_reachable ndebug api s \<Longrightarrow> login_handle ndebug api ev s = Some res \<Longrightarrow> login_reachable ndebug api (res_state res)"

section \<open>The policy\<close>

definition login_policy :: "('e, 'x) line_edit_api \<Rightarrow> ('e, 'c) login_widget \<Rightarrow> bool" where
  "login_policy api w \<longleftrightarrow> (let r = lw_requirements w; p = lw_text api w in
     (unicode r \<or> CountNonAscii api p = 0) \<and> int (length p) \<le> effective_max (pwdMaxLen r) \<and> at_least (pwdMinLen r) (int (length p)))"

lemma check_login_spec:
  "lw_isValid (check_login api (lw_text api w) w) = (lw_isValid w \<and> login_policy api w)"
  "lw_text api (check_login api p w) = lw_text api w" "lw_requirements (check_login api p w) = lw_requirements w"
proof -
  have "login_policy api w \<longleftrightarrow> \<not> (\<not> unicode (lw_requirements w) \<and> CountNonAscii api (lw_text api w) > 0)
      \<and> \<not> int (length (lw_text api w)) > (if pwdMaxLen (lw_requirements w) \<le> 0 then kQLineEditMaxLength else pwdMaxLen (lw_requirements w))
      \<and> \<not> (pwdMinLen (lw_requirements w) > 0 \<and> int (length (lw_text api w)) < pwdMinLen (lw_requirements w))"
    unfolding login_policy_def Let_def ascii_iff max_iff at_least_iff by (rule refl)
  then show "lw_isValid (check_login api (lw_text api w) w) = (lw_isValid w \<and> login_policy api w)"
    by (simp add: check_login_def Let_def MarkPasswordInvalid_def MarkPasswordIntermediate_def MarkPasswordAcceptable_def mark_password_def)
  show "lw_text api (check_login api p w) = lw_text api w" "lw_requirements (check_login api p w) = lw_requirements w"
    by (simp_all add: check_login_def Let_def MarkPasswordInvalid_def MarkPasswordIntermediate_def MarkPasswordAcceptable_def
        mark_password_def lw_text_def)
qed

lemma login_policy_keeps:
  "lw_text api w' = lw_text api w \<Longrightarrow> lw_requirements w' = lw_requirements w \<Longrightarrow> login_policy api w' = login_policy api w"
  by (simp add: login_policy_def)

definition login_inv :: "('e, 'x) line_edit_api \<Rightarrow> bool list \<times> ('e, 'c) login_widget \<Rightarrow> bool" where
  "login_inv api s \<longleftrightarrow> lw_isValid (snd s) = login_policy api (snd s) \<and> alternating True (fst s) \<and> current (fst s) = lw_isValid (snd s)"

lemma Login_Validate_spec:
  "\<exists>w'. Login_Validate ndebug api (log, w) = Some (Ret (login_policy api w)
      (log @ (if lw_isValid w \<noteq> login_policy api w then [login_policy api w] else []), w'))
    \<and> lw_isValid w' = login_policy api w \<and> login_policy api w' = login_policy api w"
proof -
  let ?w = "w\<lparr>lw_isValid := True\<rparr>"
  let ?w' = "check_login api (lw_text api ?w) ?w"
  have "login_policy api ?w = login_policy api w" by (rule login_policy_keeps) (simp_all add: lw_text_def)
  moreover have "login_policy api ?w' = login_policy api ?w" by (rule login_policy_keeps) (simp_all add: check_login_spec)
  moreover have "lw_isValid ?w' = login_policy api ?w" by (simp add: check_login_spec(1))
  ultimately show ?thesis
    by (cases "login_policy api w") (auto simp: Login_Validate_def Login_DoValidate_def)
qed

lemma Login_after_inv:
  assumes "alternating True log" "current log = lw_isValid w" "lw_isValid (f w) = lw_isValid w"
  shows "\<exists>s'. Login_after ndebug api f (log, w) = Some (Ret () s') \<and> login_inv api s'"
proof -
  let ?ok = "login_policy api (f w)"
  let ?log = "log @ (if lw_isValid (f w) \<noteq> ?ok then [?ok] else [])"
  obtain w' where w': "Login_Validate ndebug api (log, f w) = Some (Ret ?ok (?log, w'))"
      "lw_isValid w' = ?ok" "login_policy api w' = ?ok"
    using Login_Validate_spec[of ndebug api log "f w"] by blast
  moreover have "alternating True ?log"
    using assms alternating_current[OF assms(1)] by (auto simp: alternating_snoc)
  moreover have "current ?log = ?ok" using assms by (auto simp: current_def)
  ultimately show ?thesis by (auto simp: Login_after_def login_inv_def)
qed

lemma login_after_res:
  assumes "login_inv api (log, w)" "lw_isValid (f w) = lw_isValid w"
  shows "\<exists>res. Login_after ndebug api f (log, w) = Some res \<and> login_inv api (res_state res)"
proof -
  have "alternating True log" "current log = lw_isValid w" using assms(1) by (simp_all add: login_inv_def)
  then obtain s' where "Login_after ndebug api f (log, w) = Some (Ret () s') \<and> login_inv api s'"
    using Login_after_inv[of log w f] assms(2) by blast
  then show ?thesis by auto
qed

lemma login_modify_res:
  assumes "login_inv api (log, w)" "lw_isValid (f w) = lw_isValid w" "lw_text api (f w) = lw_text api w" "lw_requirements (f w) = lw_requirements w"
  shows "\<exists>res. modify f (log, w) = Some res \<and> login_inv api (res_state res)"
  using assms login_policy_keeps[of api "f w" w] by (simp add: login_inv_def)

lemma SetReadOnlyChecked_res:
  assumes "login_inv api (log, w)"
  shows "\<exists>res. SetReadOnlyChecked b (log, w) = Some res \<and> login_inv api (res_state res)"
proof -
  have "login_policy api (w\<lparr>readOnlyChecked := b\<rparr>) = login_policy api w"
    by (rule login_policy_keeps) (simp_all add: lw_text_def)
  then show ?thesis
    using assms by (cases "readOnlyAllowed w") (simp_all add: SetReadOnlyChecked_def login_inv_def)
qed

lemma login_handle_inv:
  assumes inv: "login_inv api (log, w)"
  shows "\<exists>res. login_handle ndebug api ev (log, w) = Some res \<and> login_inv api (res_state res)"
  by (cases ev; simp only: login_handle.simps Login_SetRequirements_def Login_Clear_def SetReadOnlyAllowed_def;
      (rule SetReadOnlyChecked_res[OF inv] | (rule login_after_res[OF inv]; simp add: Let_def Login_SetupStrings_def)
       | (rule login_modify_res[OF inv]; simp add: lw_text_def Login_SetupStrings_def)))

lemma LoginWidget_ctor_inv:
  assumes "LoginWidget_ctor ndebug api ui_ok g y r b ([], w) = Some (Ret () s)"
  shows "login_inv api s"
proof -
  let ?w = "w\<lparr>readOnlyAllowed := True, lw_requirements := default_requirements, lw_isValid := False,
        isMarkPasswordColorEnabled := True, lw_acceptableColor := g, lw_intermediateColor := y,
        lw_invalidColor := r, passwordHintTextColor := b\<rparr>"
  let ?w1 = "Login_SetupStrings (?w\<lparr>lw_requirements := login_requirements (lw_requirements ?w)\<rparr>)"
  have "HasRequirements default_requirements" "pwdMaxLen default_requirements \<le> 0"
    by (simp_all add: HasRequirements_def default_requirements_def)
  moreover obtain s' where "Login_Clear ndebug api ([], ?w1) = Some (Ret () s')" "login_inv api s'"
    using Login_after_inv[of "[]" ?w1] by (force simp: Login_Clear_def Login_SetupStrings_def current_def)
  ultimately show ?thesis
    using assms by (cases "ndebug \<or> ui_ok") (simp_all add: LoginWidget_ctor_def)
qed

lemma login_reachable_inv: "login_reachable ndebug api s \<Longrightarrow> login_inv api s"
proof (induction rule: login_reachable.induct)
  case (login_constructed ui_ok g y r b w s)
  then show ?case by (rule LoginWidget_ctor_inv)
next
  case (login_handled s ev res)
  then show ?case using login_handle_inv[of api "fst s" "snd s" ndebug ev] by auto
qed

section \<open>Properties\<close>

text \<open>The login widget.  In every reachable state \<open>IsValid()\<close> is the truth of the policy for the
  current text (no forbidden character, a length within the bounds), the \<open>ValidChanged\<close> signals alternate
  starting with \<open>true\<close> and end with the current value; every operation terminates, and the only exception
  is the one for a read-only check that is not allowed, which changes nothing.\<close>

theorem login_widget_invariant:
  assumes "login_reachable ndebug api s"
  shows "lw_isValid (snd s) = login_policy api (snd s) \<and> alternating True (fst s)
    \<and> lw_isValid (snd s) = (fst s \<noteq> [] \<and> last (fst s))
    \<and> (\<exists>res. login_handle ndebug api ev s = Some res \<and> login_reachable ndebug api (res_state res))
    \<and> SetReadOnlyChecked b s = Some (if readOnlyAllowed (snd s) then Ret () (fst s, (snd s)\<lparr>readOnlyChecked := b\<rparr>)
         else Exc (mk_exn InvalidStateException) s)"
proof -
  have inv: "login_inv api s" by (rule login_reachable_inv[OF assms])
  obtain res where "login_handle ndebug api ev s = Some res" using login_handle_inv[of api "fst s" "snd s" ndebug ev] inv by auto
  moreover from this have "login_reachable ndebug api (res_state res)" by (rule login_handled[OF assms])
  moreover have "SetReadOnlyChecked b s = Some (if readOnlyAllowed (snd s) then Ret () (fst s, (snd s)\<lparr>readOnlyChecked := b\<rparr>)
         else Exc (mk_exn InvalidStateException) s)"
    by (cases s; cases "readOnlyAllowed (snd s)") (simp_all add: SetReadOnlyChecked_def)
  moreover have "lw_isValid (snd s) = (fst s \<noteq> [] \<and> last (fst s))"
    using inv unfolding login_inv_def by (metis current_def)
  ultimately show ?thesis using inv by (auto simp: login_inv_def)
qed

definition sample_login :: "(qstring, nat) login_widget" where
  "sample_login = \<lparr>readOnlyAllowed = False, lw_requirements = cleared_requirements, lw_isValid = False,
     isMarkPasswordColorEnabled = False, lw_acceptableColor = 0, lw_intermediateColor = 0, lw_invalidColor = 0,
     passwordHintTextColor = 0, editPassword = sample_edit [65], passwordHint = [], hintLabelColor = None, hintVisible = True,
     readOnlyVisible = True, readOnlyChecked = False, lw_showCharactersChecked = False\<rparr>"

theorem login_widget_invariant_witness:
  "\<exists>s :: bool list \<times> (qstring, nat) login_widget. login_reachable True sample_api s
     \<and> lw_isValid (snd s) = login_policy sample_api (snd s)"
proof -
  let ?w = "sample_login\<lparr>readOnlyAllowed := True, lw_requirements := default_requirements, lw_isValid := False,
        isMarkPasswordColorEnabled := True, lw_acceptableColor := 0, lw_intermediateColor := 1,
        lw_invalidColor := 2, passwordHintTextColor := 3\<rparr>"
  let ?w1 = "Login_SetupStrings (?w\<lparr>lw_requirements := login_requirements (lw_requirements ?w)\<rparr>)"
  obtain s where "Login_Clear True sample_api ([], ?w1) = Some (Ret () s)"
    using Login_after_inv[of "[]" ?w1] by (force simp: Login_Clear_def Login_SetupStrings_def current_def)
  then have "LoginWidget_ctor True sample_api True 0 1 2 3 ([], sample_login) = Some (Ret () s)"
    by (simp add: LoginWidget_ctor_def)
  then have "login_reachable True sample_api s" by (rule login_constructed)
  then show ?thesis using login_widget_invariant[of True sample_api s] by blast
qed

end
