(* ===== verification/MimeTypes.thy ===== *)
theory MimeTypes
imports Files Languages
begin

text \<open>
  \<open>MimeDatabase\<close> (\<open>src/util/mime_database.cpp\<close>): the type of a file by its extension and by its content, in an order of preference.

  The base class \<open>QMimeDatabase\<close> and \<open>QMimeType\<close> are parameters: types are abstract, and the lookups may read the file system and the
  device.  A \<open>MatchOrder\<close> is its number, a pointer that may be \<open>NULL\<close> an option, and \<open>Qt::CaseInsensitive\<close> ignores the case of ASCII
  letters.  The type with which the functions initialize their result is always replaced.
\<close>

section \<open>The database of Qt\<close>

record ('m, 'i, 'd, 'w) mime_api =
  mm_ndebug :: bool
  mime_name :: "'m \<Rightarrow> string"
  mime_inherits :: "'m \<Rightarrow> string \<Rightarrow> bool"
  info_filePath :: "'i \<Rightarrow> string"
  mimeTypeForFile :: "string \<Rightarrow> int \<Rightarrow> 'w \<Rightarrow> 'm \<times> 'w"
  mimeTypeForFileInfo :: "'i \<Rightarrow> int \<Rightarrow> 'w \<Rightarrow> 'm \<times> 'w"
  mimeTypeForDevice :: "'d \<Rightarrow> 'w \<Rightarrow> 'm \<times> 'w"
  mimeTypeForFileNameAndDevice :: "string \<Rightarrow> 'd \<Rightarrow> 'w \<Rightarrow> 'm \<times> 'w"
  mimeTypeForBytes :: "byte list \<Rightarrow> 'm"
  mimeTypeForFileNameAndBytes :: "string \<Rightarrow> byte list \<Rightarrow> 'm"

abbreviation (input) "MatchDefault \<equiv> 0 :: int"
abbreviation (input) "MatchExtension \<equiv> 1 :: int"
abbreviation (input) "MatchContent \<equiv> 2 :: int"

abbreviation (input) "moExtensionOverContent \<equiv> MatchDefault"
abbreviation (input) "moExtension \<equiv> MatchExtension"
abbreviation (input) "moContent \<equiv> MatchContent"
abbreviation (input) "moContentOverExtension \<equiv> 3 :: int"
abbreviation (input) "moContentIfInheritsExtension \<equiv> 4 :: int"
abbreviation (input) "moExtensionIfInheritsContent \<equiv> 5 :: int"
abbreviation (input) "moDefault \<equiv> moExtensionIfInheritsContent"

definition ascii_lower :: "char \<Rightarrow> char" where
  "ascii_lower c = (if 65 \<le> (of_char c :: nat) \<and> (of_char c :: nat) \<le> 90 then char_of (of_char c + 32 :: nat) else c)"

definition is_octet_stream :: "('m, 'i, 'd, 'w, 'x) mime_api_scheme \<Rightarrow> 'm \<Rightarrow> bool" where
  "is_octet_stream api m \<longleftrightarrow> map ascii_lower (mime_name api m) = map ascii_lower ''application/octet-stream''"

section \<open>The orders of preference\<close>

text \<open>Content before extension; and, of the two, the second type when it inherits the first and both are known.\<close>

definition content_over_extension :: "('m, 'i, 'd, 'w, 'x) mime_api_scheme \<Rightarrow> ('m, 'w) fprog \<Rightarrow> ('m, 'w) fprog \<Rightarrow> ('m, 'w) fprog" where
  "content_over_extension api content ext = bind content (\<lambda>mimeType. if is_octet_stream api mimeType then ext else ret mimeType)"

definition second_if_inherits :: "('m, 'i, 'd, 'w, 'x) mime_api_scheme \<Rightarrow> ('m, 'w) fprog \<Rightarrow> ('m, 'w) fprog \<Rightarrow> ('m, 'w) fprog" where
  "second_if_inherits api first second = bind first (\<lambda>mimeType. if \<not> is_octet_stream api mimeType
     then bind second (\<lambda>m. if \<not> is_octet_stream api m then (if mime_inherits api m (mime_name api mimeType) then ret m else ret mimeType) else ret mimeType)
     else ret mimeType)"

definition bad_match_order :: "('m, 'i, 'd, 'w, 'x) mime_api_scheme \<Rightarrow> ('m, 'w) fprog" where
  "bad_match_order api = andthen (cpp_assert (mm_ndebug api) False) (throw InvalidArgument)"

text \<open>The \<open>switch\<close> that the four functions share, over the lookups by both, by extension and by content.\<close>

definition by_order :: "('m, 'i, 'd, 'w, 'x) mime_api_scheme \<Rightarrow> ('m, 'w) fprog \<Rightarrow> ('m, 'w) fprog \<Rightarrow> ('m, 'w) fprog \<Rightarrow> int \<Rightarrow> ('m, 'w) fprog" where
  "by_order api both ext content matchOrder = (if matchOrder = moExtensionOverContent then both else if matchOrder = moExtension then ext
     else if matchOrder = moContent then content
     else if matchOrder = moContentOverExtension then content_over_extension api content ext
     else if matchOrder = moContentIfInheritsExtension then second_if_inherits api ext content
     else if matchOrder = moExtensionIfInheritsContent then second_if_inherits api content ext
     else bad_match_order api)"

definition MimeTypeForFile :: "('m, 'i, 'd, 'w, 'x) mime_api_scheme \<Rightarrow> string \<Rightarrow> int \<Rightarrow> ('m, 'w) fprog" where
  "MimeTypeForFile api fileName matchOrder = andthen (check (valid_qm_path fileName) InvalidArgument)
     (let by_mode = (\<lambda>m. call (mimeTypeForFile api fileName m)) in by_order api (by_mode MatchDefault) (by_mode MatchExtension) (by_mode MatchContent) matchOrder)"

definition MimeTypeForFile_info :: "('m, 'i, 'd, 'w, 'x) mime_api_scheme \<Rightarrow> 'i \<Rightarrow> int \<Rightarrow> ('m, 'w) fprog" where
  "MimeTypeForFile_info api fileInfo matchOrder = andthen (check (valid_qm_path (info_filePath api fileInfo)) InvalidArgument)
     (let by_mode = (\<lambda>m. call (mimeTypeForFileInfo api fileInfo m)) in by_order api (by_mode MatchDefault) (by_mode MatchExtension) (by_mode MatchContent) matchOrder)"

definition MimeTypeForFileNameAndData :: "('m, 'i, 'd, 'w, 'x) mime_api_scheme \<Rightarrow> string \<Rightarrow> 'd option \<Rightarrow> int \<Rightarrow> ('m, 'w) fprog" where
  "MimeTypeForFileNameAndData api fileName pDevice matchOrder = andthen (check (fileName = [] \<or> valid_qm_path fileName) InvalidArgument)
     (case pDevice of None \<Rightarrow> throw (mk_exn NullArgumentException)
      | Some device \<Rightarrow> by_order api (call (mimeTypeForFileNameAndDevice api fileName device)) (call (mimeTypeForFile api fileName MatchExtension))
          (call (mimeTypeForDevice api device)) matchOrder)"

definition MimeTypeForFileNameAndData_bytes :: "('m, 'i, 'd, 'w, 'x) mime_api_scheme \<Rightarrow> string \<Rightarrow> byte list \<Rightarrow> int \<Rightarrow> ('m, 'w) fprog" where
  "MimeTypeForFileNameAndData_bytes api fileName data matchOrder = andthen (check (fileName = [] \<or> valid_qm_path fileName) InvalidArgument)
     (by_order api (ret (mimeTypeForFileNameAndBytes api fileName data)) (call (mimeTypeForFile api fileName MatchExtension))
        (ret (mimeTypeForBytes api data)) matchOrder)"

lemmas mime_defs = MimeTypeForFile_def MimeTypeForFile_info_def MimeTypeForFileNameAndData_def MimeTypeForFileNameAndData_bytes_def

section \<open>What the orders give\<close>

text \<open>Of two types the second one when it inherits the first and both are known; and the type for an order.\<close>

definition preferred :: "('m, 'i, 'd, 'w, 'x) mime_api_scheme \<Rightarrow> 'm \<Rightarrow> 'm \<Rightarrow> 'm" where
  "preferred api a b = (if \<not> is_octet_stream api a \<and> \<not> is_octet_stream api b \<and> mime_inherits api b (mime_name api a) then b else a)"

definition chosen :: "('m, 'i, 'd, 'w, 'x) mime_api_scheme \<Rightarrow> 'm \<Rightarrow> 'm \<Rightarrow> 'm \<Rightarrow> int \<Rightarrow> 'm" where
  "chosen api both ext content order = (if order = moExtensionOverContent then both else if order = moExtension then ext else if order = moContent then content
     else if order = moContentOverExtension then if is_octet_stream api content then ext else content
     else if order = moContentIfInheritsExtension then preferred api ext content else preferred api content ext)"

definition finds :: "('m, 'w) fprog \<Rightarrow> 'm \<Rightarrow> bool" where
  "finds p m \<longleftrightarrow> (\<forall>w. \<exists>w'. p w = Some (Ret m w'))"

lemma by_order_finds:
  assumes "finds both b" "finds ext e" "finds content c" "0 \<le> order" "order \<le> 5"
  shows "finds (by_order api both ext content order) (chosen api b e c order)"
proof -
  obtain f g h where f: "\<And>w. both w = Some (Ret b (f w))" "\<And>w. ext w = Some (Ret e (g w))" "\<And>w. content w = Some (Ret c (h w))"
    using assms(1-3) unfolding finds_def by metis
  show ?thesis using assms(4,5)
    by (auto simp: finds_def by_order_def chosen_def preferred_def second_if_inherits_def content_over_extension_def f)
qed

text \<open>Every overload finds the type for its order.\<close>

theorem mime_orders_exact:
  assumes "0 \<le> order" "order \<le> 5" "valid_qm_path f" "info_filePath api i = f"
    and "\<And>m w. fst (mimeTypeForFile api f m w) = byFile m" "\<And>m w. fst (mimeTypeForFileInfo api i m w) = byFile m"
    and "\<And>w. fst (mimeTypeForDevice api d w) = byData" "\<And>w. fst (mimeTypeForFileNameAndDevice api f d w) = byBoth"
    and "mimeTypeForBytes api bytes = byData" "mimeTypeForFileNameAndBytes api f bytes = byBoth"
  shows "finds (MimeTypeForFile api f order) (chosen api (byFile MatchDefault) (byFile MatchExtension) (byFile MatchContent) order)
    \<and> finds (MimeTypeForFile_info api i order) (chosen api (byFile MatchDefault) (byFile MatchExtension) (byFile MatchContent) order)
    \<and> finds (MimeTypeForFileNameAndData api f (Some d) order) (chosen api byBoth (byFile MatchExtension) byData order)
    \<and> finds (MimeTypeForFileNameAndData_bytes api f bytes order) (chosen api byBoth (byFile MatchExtension) byData order)"
proof -
  have find: "finds (call g) m" if "\<And>w. fst (g w) = m" for g :: "'d \<Rightarrow> 'a \<times> 'd" and m
    using that by (auto simp: finds_def call_def split_beta)
  have here: "finds (ret m) m" for m :: 'a by (simp add: finds_def)
  have checked: "finds (andthen (check True e) p) m" if "finds p m" for e and p :: "('a, 'd) fprog" and m
    using that by (simp add: finds_def)
  show ?thesis using assms
    by (auto simp: mime_defs Let_def intro!: checked by_order_finds find here)
qed

text \<open>The default order never contradicts the content: the type is the one of the content or inherits it.\<close>

lemma default_fits_content: "chosen api both ext content moDefault = content \<or> mime_inherits api (chosen api both ext content moDefault) (mime_name api content)"
  by (simp add: chosen_def preferred_def)

text \<open>Every type inherits \<open>application/octet-stream\<close>.  All the same a type by extension is not preferred over a content without known type,
  as the default order says it would, nor a known content over an unknown extension in the other one.\<close>

lemma unknown_type_is_kept:
  assumes "is_octet_stream api t"
  shows "chosen api both ext t moDefault = t" "chosen api both t content moContentIfInheritsExtension = t"
  by (simp_all add: chosen_def preferred_def assms)

end
