(* ===== verification/StorageDevices.thy ===== *)
theory StorageDevices
imports Files Languages
begin

text \<open>
  Notification of storage devices through UDisks2 (\<open>src/gui/udisks2_device_notifier_lnx.cpp\<close>,
  \<open>udisks2_filesystem_block_device_lnx.cpp\<close>).

  The D-Bus calls of Qt are parameters on a state \<open>'w\<close>; what is documented of them is the locale \<open>system_bus\<close>.  A device is its object
  path; the answer of \<open>GetManagedObjects\<close> is a list of object paths with their interfaces, \<open>None\<close> when the call fails.  The signals of
  the notifier are kept in a list.
\<close>

section \<open>The bus and the notifier\<close>

datatype dbus_match = InterfacesAdded | InterfacesRemoved | PropertiesChanged string

datatype storage_event = StorageDeviceAdded string | StorageDeviceRemoved string | StorageDeviceMounted string | StorageDeviceUnmounted string

record 'w bus_api =
  bus_ndebug :: bool
  isConnected :: "'w \<Rightarrow> bool"
  bus_connect :: "dbus_match \<Rightarrow> 'w \<Rightarrow> bool \<times> 'w"
  bus_disconnect :: "dbus_match \<Rightarrow> 'w \<Rightarrow> bool \<times> 'w"
  GetManagedObjects :: "'w \<Rightarrow> (string \<times> string list) list option \<times> 'w"
  Device_property :: "string \<Rightarrow> 'w \<Rightarrow> string option \<times> 'w"

record notifier =
  udisks2FilesystemBlockDevices :: "string list"
  emitted :: "storage_event list"

type_synonym ('a, 'w) nprog = "(exn, 'a, 'w \<times> notifier) prog"

abbreviation (input) "BLOCK_DEVICES_PATH \<equiv> ''/org/freedesktop/UDisks2/block_devices/''"
abbreviation (input) "FILESYSTEM_INTERFACE \<equiv> ''org.freedesktop.UDisks2.Filesystem''"

definition DBusError :: exn where "DBusError = mk_exn DBusException"

definition must_be_connected :: "'w bus_api \<Rightarrow> (exn, unit, 'w) prog" where
  "must_be_connected api = (\<lambda>w. check (isConnected api w) DBusError w)"

definition must_connect :: "'w bus_api \<Rightarrow> dbus_match \<Rightarrow> (exn, unit, 'w) prog" where
  "must_connect api m = bind (call (bus_connect api m)) (\<lambda>ok. check ok DBusError)"

text \<open>A failed disconnection is only logged.\<close>

definition try_disconnect :: "'w bus_api \<Rightarrow> dbus_match \<Rightarrow> (exn, unit, 'w) prog" where
  "try_disconnect api m = andthen (call (bus_disconnect api m)) (ret ())"

section \<open>\<open>UDisks2FilesystemBlockDevice\<close>\<close>

definition BlockDevice_ctor :: "'w bus_api \<Rightarrow> string \<Rightarrow> (exn, unit, 'w) prog" where
  "BlockDevice_ctor api p = andthen (cpp_assert (bus_ndebug api) (prefix BLOCK_DEVICES_PATH p))
     (andthen (must_be_connected api) (must_connect api (PropertiesChanged p)))"

definition BlockDevice_dtor :: "'w bus_api \<Rightarrow> string \<Rightarrow> (exn, unit, 'w) prog" where
  "BlockDevice_dtor api p = (\<lambda>w. if isConnected api w then try_disconnect api (PropertiesChanged p) w else ret () w)"

text \<open>The signals of a device go on as those of the notifier.\<close>

definition signal :: "storage_event \<Rightarrow> (unit, 'w) nprog" where
  "signal e = modify (\<lambda>n. n\<lparr>emitted := emitted n @ [e]\<rparr>)"

definition OnPropertiesChanged :: "string \<Rightarrow> string \<Rightarrow> string list option \<Rightarrow> (unit, 'w) nprog" where
  "OnPropertiesChanged p interfaceName mountPoints = (if \<not> prefix FILESYSTEM_INTERFACE interfaceName then ret ()
     else case mountPoints of None \<Rightarrow> ret () | Some ms \<Rightarrow> if ms = [] then signal (StorageDeviceUnmounted p) else signal (StorageDeviceMounted p))"

definition GetDevice :: "'w bus_api \<Rightarrow> string \<Rightarrow> (exn, string, 'w) prog" where
  "GetDevice api p = andthen (cpp_assert (bus_ndebug api) (prefix BLOCK_DEVICES_PATH p))
     (bind (call (Device_property api p)) (\<lambda>r. case r of None \<Rightarrow> throw DBusError | Some d \<Rightarrow> ret d))"

section \<open>\<open>UDisks2DeviceNotifier\<close>\<close>

definition GetUDisks2FilesystemBlockDevicePaths :: "'w bus_api \<Rightarrow> (exn, string list, 'w) prog" where
  "GetUDisks2FilesystemBlockDevicePaths api = andthen (must_be_connected api) (bind (call (GetManagedObjects api)) (\<lambda>r. case r of
     None \<Rightarrow> throw DBusError | Some objects \<Rightarrow> ret (map fst (filter (\<lambda>(p, interfaces). FILESYSTEM_INTERFACE \<in> set interfaces) objects))))"

definition append_device :: "'w bus_api \<Rightarrow> string \<Rightarrow> (unit, 'w) nprog" where
  "append_device api p = andthen (env (BlockDevice_ctor api p))
     (modify (\<lambda>n. n\<lparr>udisks2FilesystemBlockDevices := udisks2FilesystemBlockDevices n @ [p]\<rparr>))"

fun append_devices :: "'w bus_api \<Rightarrow> string list \<Rightarrow> (unit, 'w) nprog" where
  "append_devices api [] = ret ()"
| "append_devices api (p # ps) = andthen (append_device api p) (append_devices api ps)"

fun delete_devices :: "'w bus_api \<Rightarrow> string list \<Rightarrow> (exn, unit, 'w) prog" where
  "delete_devices api [] = ret ()"
| "delete_devices api (p # ps) = andthen (BlockDevice_dtor api p) (delete_devices api ps)"

text \<open>What is undone at the end of the block when \<open>commit\<close> was not reached, and that is after an exception.\<close>

definition unless_commit :: "(unit, 'w) nprog \<Rightarrow> (exn, unit, 'w) prog \<Rightarrow> (unit, 'w) nprog" where
  "unless_commit m undo = catch m (\<lambda>e. andthen (env undo) (throw e))"

definition append_all :: "'w bus_api \<Rightarrow> string list \<Rightarrow> (unit, 'w) nprog" where
  "append_all api ps = catch (append_devices api ps) (\<lambda>e. bind (this udisks2FilesystemBlockDevices) (\<lambda>ds. andthen (env (delete_devices api ds)) (throw e)))"

definition Notifier_ctor :: "'w bus_api \<Rightarrow> (unit, 'w) nprog" where
  "Notifier_ctor api = andthen (env (must_be_connected api)) (andthen (env (must_connect api InterfacesAdded))
     (unless_commit (andthen (env (must_connect api InterfacesRemoved))
       (unless_commit (bind (env (GetUDisks2FilesystemBlockDevicePaths api)) (append_all api))
         (try_disconnect api InterfacesRemoved)))
       (try_disconnect api InterfacesAdded)))"

definition Notifier_dtor :: "'w bus_api \<Rightarrow> (unit, 'w) nprog" where
  "Notifier_dtor api = bind (this udisks2FilesystemBlockDevices) (\<lambda>ds. andthen (env (delete_devices api ds))
     (env (\<lambda>w. if isConnected api w then andthen (try_disconnect api InterfacesRemoved) (try_disconnect api InterfacesAdded) w else ret () w)))"

definition GetStorageDeviceName :: "'w bus_api \<Rightarrow> string \<Rightarrow> (exn, string, 'w) prog" where
  "GetStorageDeviceName api p = andthen (check (prefix BLOCK_DEVICES_PATH p) InvalidArgument) (GetDevice api p)"

fun device_with_name :: "'w bus_api \<Rightarrow> string \<Rightarrow> string list \<Rightarrow> (exn, string, 'w) prog" where
  "device_with_name api name [] = throw RuntimeError"
| "device_with_name api name (p # ps) = bind (GetDevice api p) (\<lambda>d. if d = name then ret p else device_with_name api name ps)"

definition GetStorageDeviceId :: "'w bus_api \<Rightarrow> string \<Rightarrow> (exn, string, 'w) prog" where
  "GetStorageDeviceId api name = andthen (cpp_assert (bus_ndebug api) (prefix ''/dev/'' name))
     (bind (GetUDisks2FilesystemBlockDevicePaths api) (device_with_name api name))"

definition OnInterfacesAdded :: "'w bus_api \<Rightarrow> string \<Rightarrow> string list \<Rightarrow> (unit, 'w) nprog" where
  "OnInterfacesAdded api p addedInterfaces = (if \<not> prefix BLOCK_DEVICES_PATH p then ret ()
     else if FILESYSTEM_INTERFACE \<notin> set addedInterfaces then ret ()
     else andthen (signal (StorageDeviceAdded p))
       (catch (bind (this udisks2FilesystemBlockDevices) (\<lambda>ds. andthen (cpp_assert (bus_ndebug api) (p \<notin> set ds)) (append_device api p)))
         (dispatch [(std_runtime_error, \<lambda>e. ret ())] throw)))"

definition OnInterfacesRemoved :: "'w bus_api \<Rightarrow> string \<Rightarrow> string list \<Rightarrow> (unit, 'w) nprog" where
  "OnInterfacesRemoved api p removedInterfaces = (if \<not> prefix BLOCK_DEVICES_PATH p then ret ()
     else if FILESYSTEM_INTERFACE \<notin> set removedInterfaces then ret ()
     else bind (this udisks2FilesystemBlockDevices) (\<lambda>ds. andthen (if p \<in> set ds then andthen (env (BlockDevice_dtor api p))
           (modify (\<lambda>n. n\<lparr>udisks2FilesystemBlockDevices := remove1 p ds\<rparr>)) else ret ())
         (andthen (cpp_assert (bus_ndebug api) (p \<in> set ds)) (signal (StorageDeviceRemoved p)))))"

section \<open>Messages\<close>

datatype bus_msg = Added_Msg string "string list" | Removed_Msg string "string list" | Properties_Msg string string "string list option"

fun deliver :: "string \<Rightarrow> string \<Rightarrow> string list option \<Rightarrow> string list \<Rightarrow> (unit, 'w) nprog" where
  "deliver p i ms [] = ret ()"
| "deliver p i ms (d # ds) = andthen (if d = p then OnPropertiesChanged p i ms else ret ()) (deliver p i ms ds)"

fun handle :: "'w bus_api \<Rightarrow> bus_msg \<Rightarrow> (unit, 'w) nprog" where
  "handle api (Added_Msg p interfaces) = OnInterfacesAdded api p interfaces"
| "handle api (Removed_Msg p interfaces) = OnInterfacesRemoved api p interfaces"
| "handle api (Properties_Msg p i ms) = bind (this udisks2FilesystemBlockDevices) (deliver p i ms)"

text \<open>The loop of events; an exception that leaves a slot is handled by the application.\<close>

fun handle_all :: "'w bus_api \<Rightarrow> bus_msg list \<Rightarrow> (unit, 'w) nprog" where
  "handle_all api [] = ret ()"
| "handle_all api (m # ms) = andthen (catch (handle api m) (\<lambda>_. ret ())) (handle_all api ms)"

definition first_notifier :: notifier where
  "first_notifier = \<lparr>udisks2FilesystemBlockDevices = [], emitted = []\<rparr>"

section \<open>What the bus promises: connections\<close>

lemma DBusError_no_std [simp]: "\<not> derived_from (exn_class DBusError) std_runtime_error"
  by (simp add: DBusError_def mk_exn_def derived_from.simps[of DBusException] derived_from.simps[of RuntimeException]
      derived_from.simps[of Exception] derived_from.simps[of std_exception])

locale system_bus =
  fixes api :: "'w bus_api"
    and conns :: "'w \<Rightarrow> dbus_match multiset"
  assumes connect: "bus_connect api m w = (ok, w') \<Longrightarrow> conns w' = (if ok then add_mset m (conns w) else conns w) \<and> (isConnected api w \<longrightarrow> isConnected api w')"
    and disconnect: "bus_disconnect api m w = (ok, w') \<Longrightarrow> isConnected api w \<Longrightarrow> m \<in># conns w \<Longrightarrow> conns w' = conns w - {#m#} \<and> isConnected api w'"
    and managed: "GetManagedObjects api w = (r, w') \<Longrightarrow> conns w' = conns w \<and> (isConnected api w \<longrightarrow> isConnected api w')"
begin

text \<open>Programs of the bus: how they may end, and what they do to the connections.\<close>

definition leaves :: "(exn, 'a, 'w) res option \<Rightarrow> dbus_match multiset \<Rightarrow> dbus_match multiset \<Rightarrow> bool" where
  "leaves r C D \<longleftrightarrow> (\<exists>w'. isConnected api w' \<and> ((\<exists>a. r = Some (Ret a w') \<and> conns w' = C) \<or> r = Some (Exc DBusError w') \<and> conns w' = D))
     \<or> (\<exists>w'. \<not> bus_ndebug api \<and> r = Some (Term w'))"

lemma must_connect_leaves:
  assumes "isConnected api w"
  shows "leaves (must_connect api m w) (add_mset m (conns w)) (conns w)"
proof (cases "bus_connect api m w")
  case (Pair ok w')
  then show ?thesis using connect[OF Pair] assms by (cases ok) (auto simp: leaves_def must_connect_def call_def)
qed

lemma try_disconnect_eval:
  assumes "isConnected api w" "m \<in># conns w"
  shows "\<exists>w'. try_disconnect api m w = Some (Ret () w') \<and> isConnected api w' \<and> conns w' = conns w - {#m#}"
  using disconnect[OF _ assms] by (cases "bus_disconnect api m w") (auto simp: try_disconnect_def call_def)

lemma BlockDevice_ctor_leaves:
  assumes "isConnected api w"
  shows "leaves (BlockDevice_ctor api p w) (add_mset (PropertiesChanged p) (conns w)) (conns w)"
proof -
  have "BlockDevice_ctor api p w = (if bus_ndebug api \<or> prefix BLOCK_DEVICES_PATH p then must_connect api (PropertiesChanged p) w else Some (Term w))"
    using assms by (simp add: BlockDevice_ctor_def must_be_connected_def cpp_assert_def bind_def check_def)
  then show ?thesis using must_connect_leaves[OF assms, of "PropertiesChanged p"] by (auto simp: leaves_def)
qed

lemma BlockDevice_dtor_eval:
  assumes "isConnected api w" "PropertiesChanged p \<in># conns w"
  shows "\<exists>w'. BlockDevice_dtor api p w = Some (Ret () w') \<and> isConnected api w' \<and> conns w' = conns w - {#PropertiesChanged p#}"
  using try_disconnect_eval[OF assms] assms(1) by (simp add: BlockDevice_dtor_def)

text \<open>The connections of the devices.\<close>

definition device_conns :: "string list \<Rightarrow> dbus_match multiset" where
  "device_conns ds = image_mset PropertiesChanged (mset ds)"

lemma device_conns_simps [simp]: "device_conns [] = {#}" "device_conns (d # ds) = add_mset (PropertiesChanged d) (device_conns ds)"
  "device_conns (ds @ es) = device_conns ds + device_conns es"
  by (simp_all add: device_conns_def)

lemma device_conns_remove: "p \<in> set ds \<Longrightarrow> device_conns ds = add_mset (PropertiesChanged p) (device_conns (remove1 p ds))"
  by (simp add: device_conns_def flip: image_mset_add_mset)

lemma delete_devices_eval:
  assumes "isConnected api w" "conns w = B + device_conns ds"
  shows "\<exists>w'. delete_devices api ds w = Some (Ret () w') \<and> isConnected api w' \<and> conns w' = B"
  using assms
proof (induction ds arbitrary: w)
  case (Cons d ds)
  then obtain w1 where w1: "BlockDevice_dtor api d w = Some (Ret () w1)" "isConnected api w1" "conns w1 = B + device_conns ds"
    using BlockDevice_dtor_eval[of w d] by auto
  then show ?case using Cons.IH[of w1] by auto
qed simp

text \<open>A notifier that holds exactly its own connections beside those of others.\<close>

definition holds :: "dbus_match multiset \<Rightarrow> 'w \<times> notifier \<Rightarrow> bool" where
  "holds B st \<longleftrightarrow> isConnected api (fst st) \<and> conns (fst st) = B + device_conns (udisks2FilesystemBlockDevices (snd st))"

lemma append_device_outcome:
  assumes "holds B (w, n)"
  shows "(\<exists>w'. holds B (w', n\<lparr>udisks2FilesystemBlockDevices := udisks2FilesystemBlockDevices n @ [p]\<rparr>)
        \<and> append_device api p (w, n) = Some (Ret () (w', n\<lparr>udisks2FilesystemBlockDevices := udisks2FilesystemBlockDevices n @ [p]\<rparr>)))
    \<or> (\<exists>w'. holds B (w', n) \<and> append_device api p (w, n) = Some (Exc DBusError (w', n)))
    \<or> (\<exists>st. \<not> bus_ndebug api \<and> append_device api p (w, n) = Some (Term st))"
  using BlockDevice_ctor_leaves[of w p] assms
  by (auto simp: append_device_def leaves_def holds_def env_def modify_def bind_def)

lemma append_devices_outcome:
  assumes "holds B (w, n)"
  shows "(\<exists>w'. holds B (w', n\<lparr>udisks2FilesystemBlockDevices := udisks2FilesystemBlockDevices n @ ps\<rparr>)
        \<and> append_devices api ps (w, n) = Some (Ret () (w', n\<lparr>udisks2FilesystemBlockDevices := udisks2FilesystemBlockDevices n @ ps\<rparr>)))
    \<or> (\<exists>st. holds B st \<and> append_devices api ps (w, n) = Some (Exc DBusError st))
    \<or> (\<exists>st. \<not> bus_ndebug api \<and> append_devices api ps (w, n) = Some (Term st))"
  using assms
proof (induction ps arbitrary: w n)
  case (Cons p ps)
  from append_device_outcome[OF Cons.prems, of p] show ?case
  proof (elim disjE exE conjE, goal_cases)
    case (1 w1)
    from Cons.IH[OF 1(1)] show ?case by (elim disjE exE conjE) (use 1(2) in auto)
  qed auto
qed auto

text \<open>Operations of the notifier, with an exception handled.\<close>

definition stays :: "dbus_match multiset \<Rightarrow> (unit, 'w) nprog \<Rightarrow> bool" where
  "stays B m \<longleftrightarrow> (\<forall>st. holds B st \<longrightarrow> (\<exists>st'. holds B st' \<and> (m st = Some (Ret () st') \<or> m st = Some (Exc DBusError st')))
     \<or> (\<exists>st'. \<not> bus_ndebug api \<and> m st = Some (Term st')))"

lemma staysI: "(\<And>st. holds B st \<Longrightarrow> (\<exists>st'. holds B st' \<and> (m st = Some (Ret () st') \<or> m st = Some (Exc DBusError st')))
     \<or> (\<exists>st'. \<not> bus_ndebug api \<and> m st = Some (Term st'))) \<Longrightarrow> stays B m"
  by (simp add: stays_def)

lemma stays_ret: "stays B (ret ())" "stays B (\<lambda>st. Some (Ret () st))"
  by (auto simp: stays_def)

lemma stays_throw: "stays B (throw DBusError)"
  by (auto simp: stays_def)

lemma stays_bind:
  assumes "stays B m" "stays B k"
  shows "stays B (andthen m k)"
proof (rule staysI)
  fix st assume "holds B st"
  with assms(1) consider st' where "holds B st'" "m st = Some (Ret () st')" | st' where "holds B st'" "m st = Some (Exc DBusError st')"
    | st' where "\<not> bus_ndebug api" "m st = Some (Term st')" unfolding stays_def by blast
  then show "(\<exists>st'. holds B st' \<and> (andthen m k st = Some (Ret () st') \<or> andthen m k st = Some (Exc DBusError st')))
     \<or> (\<exists>st'. \<not> bus_ndebug api \<and> andthen m k st = Some (Term st'))"
    by cases (use assms(2) in \<open>auto simp: stays_def\<close>)
qed

lemma stays_this: "(\<And>ds. stays B (k ds)) \<Longrightarrow> stays B (bind (this f) k)"
  by (simp add: stays_def this_def bind_def split_beta)

lemma stays_assert: "stays B (cpp_assert (bus_ndebug api) b)"
  by (auto simp: stays_def cpp_assert_def)

lemma stays_signal: "stays B (signal e)"
  by (auto simp: stays_def signal_def modify_def holds_def)

lemma stays_append: "stays B (append_device api p)"
proof (rule staysI)
  fix st :: "'w \<times> notifier" assume h: "holds B st"
  obtain w n where st: "st = (w, n)" by fastforce
  from append_device_outcome[OF h[unfolded st], of p] show "(\<exists>st'. holds B st' \<and> (append_device api p st = Some (Ret () st') \<or> append_device api p st = Some (Exc DBusError st')))
     \<or> (\<exists>st'. \<not> bus_ndebug api \<and> append_device api p st = Some (Term st'))" unfolding st by blast
qed

lemma stays_catch:
  assumes "stays B m" "stays B (h DBusError)"
  shows "stays B (catch m h)"
proof (rule staysI)
  fix st assume "holds B st"
  with assms(1) consider st' where "holds B st'" "m st = Some (Ret () st')" | st' where "holds B st'" "m st = Some (Exc DBusError st')"
    | st' where "\<not> bus_ndebug api" "m st = Some (Term st')" unfolding stays_def by blast
  then show "(\<exists>st'. holds B st' \<and> (catch m h st = Some (Ret () st') \<or> catch m h st = Some (Exc DBusError st')))
     \<or> (\<exists>st'. \<not> bus_ndebug api \<and> catch m h st = Some (Term st'))"
    by cases (use assms(2) in \<open>auto simp: stays_def catch_def\<close>)
qed

lemma OnInterfacesAdded_stays: "stays B (OnInterfacesAdded api p interfaces)"
  unfolding OnInterfacesAdded_def
  by (auto intro!: stays_ret stays_bind stays_signal stays_catch stays_this stays_assert stays_append stays_throw)

lemma remove_stays:
  assumes "\<And>ds. stays B (k ds)"
  shows "stays B (bind (this udisks2FilesystemBlockDevices) (\<lambda>ds. andthen (if p \<in> set ds then andthen (env (BlockDevice_dtor api p))
     (modify (\<lambda>n. n\<lparr>udisks2FilesystemBlockDevices := remove1 p ds\<rparr>)) else ret ()) (k ds)))" (is "stays B ?m")
proof (rule staysI)
  fix st :: "'w \<times> notifier" assume h: "holds B st"
  obtain w n where st: "st = (w, n)" by fastforce
  let ?ds = "udisks2FilesystemBlockDevices n"
  have "\<exists>st'. holds B st' \<and> ?m st = k ?ds st'"
  proof (cases "p \<in> set ?ds")
    case True
    then obtain w' where w': "BlockDevice_dtor api p w = Some (Ret () w')" "isConnected api w'" "conns w' = B + device_conns (remove1 p ?ds)"
      using BlockDevice_dtor_eval[of w p] h device_conns_remove[OF True] by (auto simp: st holds_def)
    let ?st = "(w', n\<lparr>udisks2FilesystemBlockDevices := remove1 p ?ds\<rparr>)"
    have "?m st = k ?ds ?st" using True w'(1) by (simp add: st env_def modify_def bind_def this_def)
    moreover have "holds B ?st" using w' by (simp add: holds_def)
    ultimately show ?thesis by blast
  qed (use h in \<open>auto simp: st this_def bind_def\<close>)
  then obtain st1 where 1: "holds B st1" "?m st = k ?ds st1" by blast
  show "(\<exists>st'. holds B st' \<and> (?m st = Some (Ret () st') \<or> ?m st = Some (Exc DBusError st'))) \<or> (\<exists>st'. \<not> bus_ndebug api \<and> ?m st = Some (Term st'))"
    unfolding 1(2) using assms[of ?ds] 1(1) by (simp only: stays_def)
qed

lemma deliver_stays: "stays B (deliver p i ms ds)"
  by (induction ds) (auto simp: OnPropertiesChanged_def intro!: stays_ret stays_bind stays_signal split: option.splits)

lemma handle_stays: "stays B (handle api msg)"
proof (cases msg)
  case (Added_Msg p interfaces)
  then show ?thesis by (simp add: OnInterfacesAdded_stays)
next
  case (Removed_Msg p interfaces)
  have "stays B (OnInterfacesRemoved api p interfaces)"
    unfolding OnInterfacesRemoved_def
    by (auto intro!: stays_ret remove_stays[where k = "\<lambda>ds. andthen (cpp_assert (bus_ndebug api) (p \<in> set ds)) (signal (StorageDeviceRemoved p))"]
        stays_bind stays_assert stays_signal)
  then show ?thesis using Removed_Msg by simp
next
  case (Properties_Msg p i ms)
  then show ?thesis by (auto intro!: stays_this deliver_stays)
qed

lemma handle_all_stays: "stays B (handle_all api msgs)"
  by (induction msgs) (auto intro!: stays_ret stays_bind stays_catch handle_stays)

lemma handle_all_no_exc: "holds B st \<Longrightarrow> handle_all api msgs st \<noteq> Some (Exc e st')"
proof (induction msgs arbitrary: st)
  case (Cons m msgs)
  then show ?case using handle_stays[of B m, unfolded stays_def, rule_format, OF Cons.prems] by (auto simp: catch_def)
qed simp

text \<open>The constructor keeps its connections, or gives all back before an exception.\<close>

lemma append_all_outcome:
  assumes "holds B (w, n)" "udisks2FilesystemBlockDevices n = []"
  shows "(\<exists>w'. holds B (w', n\<lparr>udisks2FilesystemBlockDevices := ps\<rparr>) \<and> append_all api ps (w, n) = Some (Ret () (w', n\<lparr>udisks2FilesystemBlockDevices := ps\<rparr>)))
    \<or> (\<exists>w' n'. isConnected api w' \<and> conns w' = B \<and> append_all api ps (w, n) = Some (Exc DBusError (w', n')))
    \<or> (\<exists>st. \<not> bus_ndebug api \<and> append_all api ps (w, n) = Some (Term st))"
  using append_devices_outcome[OF assms(1), of ps]
proof (elim disjE exE conjE, goal_cases)
  case (2 st)
  obtain w1 n1 where st: "st = (w1, n1)" by fastforce
  obtain w2 where "delete_devices api (udisks2FilesystemBlockDevices n1) w1 = Some (Ret () w2)" "isConnected api w2" "conns w2 = B"
    using delete_devices_eval[of w1 B "udisks2FilesystemBlockDevices n1"] 2(1) by (auto simp: st holds_def)
  then show ?case using 2(2) by (auto simp: append_all_def st catch_def env_def bind_def this_def)
qed (use assms(2) in \<open>auto simp: append_all_def catch_def\<close>)

lemma paths_outcome:
  assumes "isConnected api w"
  shows "\<exists>w'. isConnected api w' \<and> conns w' = conns w \<and> GetUDisks2FilesystemBlockDevicePaths api w = (case fst (GetManagedObjects api w) of
      None \<Rightarrow> Some (Exc DBusError w') | Some objects \<Rightarrow> Some (Ret (map fst (filter (\<lambda>(p, interfaces). FILESYSTEM_INTERFACE \<in> set interfaces) objects)) w'))"
proof (cases "GetManagedObjects api w")
  case (Pair r w')
  then show ?thesis using managed[OF Pair] assms
    by (auto simp: GetUDisks2FilesystemBlockDevicePaths_def must_be_connected_def call_def bind_def check_def split: option.splits)
qed

text \<open>The rest of the constructor, with \<open>undo\<close> for what was done before.\<close>

definition holds_or_undone :: "dbus_match multiset \<Rightarrow> dbus_match multiset \<Rightarrow> (exn, unit, 'w \<times> notifier) res option \<Rightarrow> bool" where
  "holds_or_undone B C r \<longleftrightarrow> (\<exists>st. holds B st \<and> r = Some (Ret () st)) \<or> (\<exists>w n. isConnected api w \<and> conns w = C \<and> r = Some (Exc DBusError (w, n)))
     \<or> (\<exists>st. \<not> bus_ndebug api \<and> r = Some (Term st))"

lemma undo_step:
  assumes "isConnected api w" "\<And>w'. isConnected api w' \<Longrightarrow> conns w' = add_mset m (conns w) \<Longrightarrow> holds_or_undone B (add_mset m (conns w)) (body (w', n))"
  shows "holds_or_undone B (conns w) (andthen (env (must_connect api m)) (unless_commit body (try_disconnect api m)) (w, n))"
  using must_connect_leaves[OF assms(1), of m] unfolding leaves_def
proof (elim disjE exE conjE, goal_cases)
  case (1 w' u)
  have run: "andthen (env (must_connect api m)) (unless_commit body (try_disconnect api m)) (w, n) = unless_commit body (try_disconnect api m) (w', n)"
    using 1(2) by (simp add: env_def)
  from assms(2)[OF 1(1,3), unfolded holds_or_undone_def] show ?case
    unfolding run
  proof (elim disjE exE conjE, goal_cases)
    case (2 w1 n1)
    from try_disconnect_eval[OF 2(1), of m] 2(2) obtain w2 where "try_disconnect api m w1 = Some (Ret () w2)" "isConnected api w2" "conns w2 = conns w" by auto
    then show ?case using 2(3) by (auto simp: unless_commit_def catch_def env_def holds_or_undone_def)
  qed (auto simp: unless_commit_def catch_def holds_or_undone_def)
qed (auto simp: env_def holds_or_undone_def)

lemma Notifier_ctor_outcome:
  assumes "isConnected api w" "conns w = B"
  shows "holds_or_undone (add_mset InterfacesRemoved (add_mset InterfacesAdded B)) B (Notifier_ctor api (w, first_notifier))"
proof -
  let ?B = "add_mset InterfacesRemoved (add_mset InterfacesAdded B)"
  have inner: "holds_or_undone ?B ?B (bind (env (GetUDisks2FilesystemBlockDevicePaths api)) (append_all api) (w2, first_notifier))"
    if w2: "isConnected api w2" "conns w2 = ?B" for w2
  proof -
    obtain w3 where w3: "isConnected api w3" "conns w3 = ?B" "GetUDisks2FilesystemBlockDevicePaths api w2 = (case fst (GetManagedObjects api w2) of
      None \<Rightarrow> Some (Exc DBusError w3) | Some objects \<Rightarrow> Some (Ret (map fst (filter (\<lambda>(p, interfaces). FILESYSTEM_INTERFACE \<in> set interfaces) objects)) w3))"
      using paths_outcome[OF w2(1)] w2(2) by metis
    have h: "holds ?B (w3, first_notifier)" "udisks2FilesystemBlockDevices first_notifier = []" using w3 by (simp_all add: holds_def first_notifier_def)
    show ?thesis
    proof (cases "fst (GetManagedObjects api w2)")
      case None
      then show ?thesis using w3 by (auto simp: env_def holds_or_undone_def)
    next
      case (Some objects)
      then have "bind (env (GetUDisks2FilesystemBlockDevicePaths api)) (append_all api) (w2, first_notifier)
        = append_all api (map fst (filter (\<lambda>(p, interfaces). FILESYSTEM_INTERFACE \<in> set interfaces) objects)) (w3, first_notifier)"
        using w3(3) by (simp add: env_def)
      then show ?thesis using append_all_outcome[OF h, of "map fst (filter (\<lambda>(p, interfaces). FILESYSTEM_INTERFACE \<in> set interfaces) objects)"]
        unfolding holds_or_undone_def by (simp only:) blast
    qed
  qed
  have "holds_or_undone ?B (conns w) (andthen (env (must_connect api InterfacesAdded))
     (unless_commit (andthen (env (must_connect api InterfacesRemoved))
       (unless_commit (bind (env (GetUDisks2FilesystemBlockDevicePaths api)) (append_all api)) (try_disconnect api InterfacesRemoved)))
       (try_disconnect api InterfacesAdded)) (w, first_notifier))"
  proof (rule undo_step[OF assms(1)])
    fix w1 assume 1: "isConnected api w1" "conns w1 = add_mset InterfacesAdded (conns w)"
    have "holds_or_undone ?B (conns w1) (andthen (env (must_connect api InterfacesRemoved))
       (unless_commit (bind (env (GetUDisks2FilesystemBlockDevicePaths api)) (append_all api)) (try_disconnect api InterfacesRemoved)) (w1, first_notifier))"
      by (rule undo_step[OF 1(1)]) (use inner 1(2) assms(2) in simp)
    then show "holds_or_undone ?B (add_mset InterfacesAdded (conns w)) (andthen (env (must_connect api InterfacesRemoved))
       (unless_commit (bind (env (GetUDisks2FilesystemBlockDevicePaths api)) (append_all api)) (try_disconnect api InterfacesRemoved)) (w1, first_notifier))"
      unfolding 1(2) .
  qed
  moreover have "env (must_be_connected api) (w, first_notifier) = Some (Ret () (w, first_notifier))"
    using assms(1) by (simp add: env_def must_be_connected_def check_def)
  ultimately show ?thesis using assms(2) by (simp add: Notifier_ctor_def)
qed

lemma Notifier_dtor_outcome:
  assumes "holds (add_mset InterfacesRemoved (add_mset InterfacesAdded B)) (w, n)"
  shows "\<exists>w'. Notifier_dtor api (w, n) = Some (Ret () (w', n)) \<and> conns w' = B"
proof -
  obtain w1 where 1: "delete_devices api (udisks2FilesystemBlockDevices n) w = Some (Ret () w1)" "isConnected api w1"
    "conns w1 = add_mset InterfacesRemoved (add_mset InterfacesAdded B)"
    using delete_devices_eval[of w _ "udisks2FilesystemBlockDevices n"] assms by (auto simp: holds_def)
  obtain w2 where 2: "try_disconnect api InterfacesRemoved w1 = Some (Ret () w2)" "isConnected api w2" "conns w2 = add_mset InterfacesAdded B"
    using try_disconnect_eval[OF 1(2), of InterfacesRemoved] 1(3) by auto
  obtain w3 where 3: "try_disconnect api InterfacesAdded w2 = Some (Ret () w3)" "conns w3 = B"
    using try_disconnect_eval[OF 2(2), of InterfacesAdded] 2(3) by auto
  show ?thesis using 1 2 3 by (simp add: Notifier_dtor_def env_def this_def)
qed

end

end
