(* ===== verification/DBusCalls.thy ===== *)
theory DBusCalls
imports StorageDevices "HOL-Library.Word"
begin

text \<open>
  Calls on D-Bus (\<open>src/util/dbus_utils.cpp\<close>): the test for a service and the properties of an object.

  A bus is one of two; an object is a bus, a service, a path and an interface.  The calls of Qt are parameters: what is asked of a bus
  is answered by the bus, \<open>None\<close> being an invalid \<open>QDBusReply\<close>.  A \<open>QVariant\<close> has the constructor of the type that Qt documents for
  each D-Bus type; \<open>double\<close> is its bits.  The numbers of the types are those of \<open>QMetaType\<close>, and as documented \<open>QVariant::type()\<close> is
  \<open>UserType\<close> only for registered types.  A release build may read the first argument of a reply without arguments, which is undefined;
  it is an invalid variant here; the conversion of a variant of another type, \<open>value<T>()\<close>, is a parameter.
\<close>

section \<open>Values and messages\<close>

datatype bus = SessionBus | SystemBus

record dbus_object =
  ob_bus :: bus
  ob_service :: string
  ob_path :: string
  ob_interface :: string

datatype variant = VInvalid | VBool bool | VByte byte | VInt16 "16 word" | VUInt16 "16 word" | VInt32 "32 word" | VUInt32 "32 word"
  | VInt64 "64 word" | VUInt64 "64 word" | VDouble "64 word" | VString string | VByteArray "byte list" | VStringList "string list"
  | VObjectPath string | VVariant variant

datatype dbus_reply = ErrorMessage | ReplyMessage "variant list" | OtherMessage

record 'w dbus =
  db_ndebug :: bool
  db_objectPathType :: int
  db_variantType :: int
  db_connected :: "bus \<Rightarrow> 'w \<Rightarrow> bool"
  db_interface :: "bus \<Rightarrow> 'w \<Rightarrow> bool"
  db_isServiceRegistered :: "bus \<Rightarrow> string \<Rightarrow> 'w \<Rightarrow> bool option \<times> 'w"
  db_isValid :: "dbus_object \<Rightarrow> 'w \<Rightarrow> bool \<times> 'w"
  db_toUInt :: "variant \<Rightarrow> 32 word"
  db_toULongLong :: "variant \<Rightarrow> 64 word"
  db_toBool :: "variant \<Rightarrow> bool"
  db_toString :: "variant \<Rightarrow> string"
  db_call :: "dbus_object \<Rightarrow> string \<Rightarrow> variant list \<Rightarrow> 'w \<Rightarrow> dbus_reply \<times> 'w"

abbreviation (input) "QMetaType_User \<equiv> 1024 :: int"

fun userType :: "('w, 'x) dbus_scheme \<Rightarrow> variant \<Rightarrow> int" where
  "userType api VInvalid = 0"
| "userType api (VBool b) = 1"
| "userType api (VInt32 n) = 2"
| "userType api (VUInt32 n) = 3"
| "userType api (VInt64 n) = 4"
| "userType api (VUInt64 n) = 5"
| "userType api (VDouble d) = 6"
| "userType api (VString s) = 10"
| "userType api (VStringList ss) = 11"
| "userType api (VByteArray bs) = 12"
| "userType api (VInt16 n) = 33"
| "userType api (VUInt16 n) = 36"
| "userType api (VByte n) = 37"
| "userType api (VObjectPath p) = db_objectPathType api"
| "userType api (VVariant v) = db_variantType api"

definition variant_type :: "('w, 'x) dbus_scheme \<Rightarrow> variant \<Rightarrow> int" where
  "variant_type api v = (if userType api v \<ge> QMetaType_User then QMetaType_User else userType api v)"

fun type_code :: "variant \<Rightarrow> string" where
  "type_code VInvalid = ''''"
| "type_code (VBool b) = ''b''"
| "type_code (VByte n) = ''y''"
| "type_code (VInt16 n) = ''n''"
| "type_code (VUInt16 n) = ''q''"
| "type_code (VInt32 n) = ''i''"
| "type_code (VUInt32 n) = ''u''"
| "type_code (VInt64 n) = ''x''"
| "type_code (VUInt64 n) = ''t''"
| "type_code (VDouble d) = ''d''"
| "type_code (VString s) = ''s''"
| "type_code (VByteArray bs) = ''ay''"
| "type_code (VStringList ss) = ''as''"
| "type_code (VObjectPath p) = ''o''"
| "type_code (VVariant v) = ''v''"

definition signature :: "variant list \<Rightarrow> string" where
  "signature args = concat (map type_code args)"

definition db_assert :: "('w, 'x) dbus_scheme \<Rightarrow> bool \<Rightarrow> (unit, 'w) fprog" where
  "db_assert api b = cpp_assert (db_ndebug api) b"

text \<open>The argument of a reply that is no error, with the assertions on it.\<close>

definition reply_arguments :: "dbus_reply \<Rightarrow> variant list" where
  "reply_arguments r = (case r of ReplyMessage args \<Rightarrow> args | _ \<Rightarrow> [])"

definition reply_arg :: "('w, 'x) dbus_scheme \<Rightarrow> string \<Rightarrow> dbus_reply \<Rightarrow> (variant, 'w) fprog" where
  "reply_arg api sig r = (let args = reply_arguments r; arg = (case args of [] \<Rightarrow> VInvalid | a # as \<Rightarrow> a) in
     andthen (db_assert api (r = ReplyMessage args)) (andthen (db_assert api (signature args = sig)) (andthen (db_assert api (length args = 1))
       (andthen (db_assert api (arg \<noteq> VInvalid)) (ret arg)))))"

section \<open>Services and properties\<close>

definition IsDBusServiceRegistered :: "('w, 'x) dbus_scheme \<Rightarrow> string \<Rightarrow> bus \<Rightarrow> (bool, 'w) fprog" where
  "IsDBusServiceRegistered api dbusServiceName dbusConnection = andthen (check (dbusServiceName \<noteq> []) EmptyArgument)
     (andthen (\<lambda>w. check (db_connected api dbusConnection w) InvalidArgument w)
     (andthen (\<lambda>w. check (db_interface api dbusConnection w) DBusError w)
     (bind (call (db_isServiceRegistered api dbusConnection dbusServiceName)) (\<lambda>reply. case reply of
        None \<Rightarrow> throw DBusError | Some b \<Rightarrow> ret b))))"

definition property_value :: "('w, 'x) dbus_scheme \<Rightarrow> dbus_reply \<Rightarrow> (variant, 'w) fprog" where
  "property_value api kReply = (if kReply = ErrorMessage then throw DBusError
     else bind (reply_arg api ''v'' kReply) (\<lambda>kReplyArg. andthen (db_assert api (variant_type api kReplyArg = QMetaType_User))
       (andthen (db_assert api (userType api kReplyArg = db_variantType api))
       (let kVariantReplyArg = (case kReplyArg of VVariant v \<Rightarrow> v | _ \<Rightarrow> VInvalid) in
        andthen (db_assert api (kVariantReplyArg \<noteq> VInvalid)) (ret kVariantReplyArg)))))"

definition GetDBusGenericProperty :: "('w, 'x) dbus_scheme \<Rightarrow> string \<Rightarrow> string \<Rightarrow> string \<Rightarrow> bus \<Rightarrow> string \<Rightarrow> (variant, 'w) fprog" where
  "GetDBusGenericProperty api service path interface connection property = andthen (check (service \<noteq> []) EmptyArgument)
     (andthen (check (path \<noteq> []) EmptyArgument) (andthen (check (interface \<noteq> []) EmptyArgument)
     (andthen (\<lambda>w. check (db_connected api connection w) InvalidArgument w) (andthen (check (property \<noteq> []) EmptyArgument)
     (let object = \<lparr>ob_bus = connection, ob_service = service, ob_path = path, ob_interface = ''org.freedesktop.DBus.Properties''\<rparr> in
      bind (call (db_isValid api object)) (\<lambda>valid. andthen (check valid DBusError)
        (bind (call (db_call api object ''Get'' [VString interface, VString property])) (property_value api))))))))"

text \<open>The properties with a type: a test of the type, and the value.\<close>

definition typed_property :: "('w, 'x) dbus_scheme \<Rightarrow> (variant \<Rightarrow> bool) \<Rightarrow> (variant \<Rightarrow> 'a) \<Rightarrow> string \<Rightarrow> string \<Rightarrow> string \<Rightarrow> bus \<Rightarrow> string \<Rightarrow> ('a, 'w) fprog" where
  "typed_property api isType val service path interface connection property =
     bind (GetDBusGenericProperty api service path interface connection property) (\<lambda>v. if \<not> isType v then throw DBusError else ret (val v))"

definition GetDBusObjectPathProperty :: "('w, 'x) dbus_scheme \<Rightarrow> string \<Rightarrow> string \<Rightarrow> string \<Rightarrow> bus \<Rightarrow> string \<Rightarrow> (string, 'w) fprog" where
  "GetDBusObjectPathProperty api = typed_property api (\<lambda>v. variant_type api v = QMetaType_User \<and> userType api v = db_objectPathType api)
     (\<lambda>v. case v of VObjectPath p \<Rightarrow> p | _ \<Rightarrow> [])"

definition GetDBusStringProperty :: "('w, 'x) dbus_scheme \<Rightarrow> string \<Rightarrow> string \<Rightarrow> string \<Rightarrow> bus \<Rightarrow> string \<Rightarrow> (string, 'w) fprog" where
  "GetDBusStringProperty api = typed_property api (\<lambda>v. variant_type api v = 10) (\<lambda>v. case v of VString s \<Rightarrow> s | _ \<Rightarrow> [])"

definition GetDBusBooleanProperty :: "('w, 'x) dbus_scheme \<Rightarrow> string \<Rightarrow> string \<Rightarrow> string \<Rightarrow> bus \<Rightarrow> string \<Rightarrow> (bool, 'w) fprog" where
  "GetDBusBooleanProperty api = typed_property api (\<lambda>v. variant_type api v = 1) (\<lambda>v. case v of VBool b \<Rightarrow> b | _ \<Rightarrow> False)"

definition GetDBusByteProperty :: "('w, 'x) dbus_scheme \<Rightarrow> string \<Rightarrow> string \<Rightarrow> string \<Rightarrow> bus \<Rightarrow> string \<Rightarrow> (byte, 'w) fprog" where
  "GetDBusByteProperty api = typed_property api (\<lambda>v. variant_type api v = QMetaType_User \<and> userType api v = 37) (\<lambda>v. case v of VByte n \<Rightarrow> n | _ \<Rightarrow> 0)"

definition GetDBusInt16Property :: "('w, 'x) dbus_scheme \<Rightarrow> string \<Rightarrow> string \<Rightarrow> string \<Rightarrow> bus \<Rightarrow> string \<Rightarrow> (16 word, 'w) fprog" where
  "GetDBusInt16Property api = typed_property api (\<lambda>v. variant_type api v = QMetaType_User \<and> userType api v = 33) (\<lambda>v. case v of VInt16 n \<Rightarrow> n | _ \<Rightarrow> 0)"

definition GetDBusUInt16Property :: "('w, 'x) dbus_scheme \<Rightarrow> string \<Rightarrow> string \<Rightarrow> string \<Rightarrow> bus \<Rightarrow> string \<Rightarrow> (16 word, 'w) fprog" where
  "GetDBusUInt16Property api = typed_property api (\<lambda>v. variant_type api v = QMetaType_User \<and> userType api v = 36) (\<lambda>v. case v of VUInt16 n \<Rightarrow> n | _ \<Rightarrow> 0)"

definition GetDBusInt32Property :: "('w, 'x) dbus_scheme \<Rightarrow> string \<Rightarrow> string \<Rightarrow> string \<Rightarrow> bus \<Rightarrow> string \<Rightarrow> (32 word, 'w) fprog" where
  "GetDBusInt32Property api = typed_property api (\<lambda>v. variant_type api v = 2) (\<lambda>v. case v of VInt32 n \<Rightarrow> n | _ \<Rightarrow> 0)"

definition GetDBusUInt32Property :: "('w, 'x) dbus_scheme \<Rightarrow> string \<Rightarrow> string \<Rightarrow> string \<Rightarrow> bus \<Rightarrow> string \<Rightarrow> (32 word, 'w) fprog" where
  "GetDBusUInt32Property api = typed_property api (\<lambda>v. variant_type api v = 3) (\<lambda>v. case v of VUInt32 n \<Rightarrow> n | _ \<Rightarrow> 0)"

definition GetDBusInt64Property :: "('w, 'x) dbus_scheme \<Rightarrow> string \<Rightarrow> string \<Rightarrow> string \<Rightarrow> bus \<Rightarrow> string \<Rightarrow> (64 word, 'w) fprog" where
  "GetDBusInt64Property api = typed_property api (\<lambda>v. variant_type api v = 4) (\<lambda>v. case v of VInt64 n \<Rightarrow> n | _ \<Rightarrow> 0)"

definition GetDBusUInt64Property :: "('w, 'x) dbus_scheme \<Rightarrow> string \<Rightarrow> string \<Rightarrow> string \<Rightarrow> bus \<Rightarrow> string \<Rightarrow> (64 word, 'w) fprog" where
  "GetDBusUInt64Property api = typed_property api (\<lambda>v. variant_type api v = 5) (\<lambda>v. case v of VUInt64 n \<Rightarrow> n | _ \<Rightarrow> 0)"

definition GetDBusDoubleProperty :: "('w, 'x) dbus_scheme \<Rightarrow> string \<Rightarrow> string \<Rightarrow> string \<Rightarrow> bus \<Rightarrow> string \<Rightarrow> (64 word, 'w) fprog" where
  "GetDBusDoubleProperty api = typed_property api (\<lambda>v. variant_type api v = 6) (\<lambda>v. case v of VDouble d \<Rightarrow> d | _ \<Rightarrow> 0)"

definition GetDBusByteArrayProperty :: "('w, 'x) dbus_scheme \<Rightarrow> string \<Rightarrow> string \<Rightarrow> string \<Rightarrow> bus \<Rightarrow> string \<Rightarrow> (byte list, 'w) fprog" where
  "GetDBusByteArrayProperty api = typed_property api (\<lambda>v. variant_type api v = 12) (\<lambda>v. case v of VByteArray bs \<Rightarrow> bs | _ \<Rightarrow> [])"

definition GetDBusStringArrayProperty :: "('w, 'x) dbus_scheme \<Rightarrow> string \<Rightarrow> string \<Rightarrow> string \<Rightarrow> bus \<Rightarrow> string \<Rightarrow> (string list, 'w) fprog" where
  "GetDBusStringArrayProperty api = typed_property api (\<lambda>v. variant_type api v = 11) (\<lambda>v. case v of VStringList ss \<Rightarrow> ss | _ \<Rightarrow> [])"

lemmas typed_property_defs = GetDBusObjectPathProperty_def GetDBusStringProperty_def GetDBusBooleanProperty_def GetDBusByteProperty_def
  GetDBusInt16Property_def GetDBusUInt16Property_def GetDBusInt32Property_def GetDBusUInt32Property_def GetDBusInt64Property_def
  GetDBusUInt64Property_def GetDBusDoubleProperty_def GetDBusByteArrayProperty_def GetDBusStringArrayProperty_def

section \<open>What the getters return\<close>

text \<open>The numbers of the registered types; and a connected bus with an object that answers with the value of a property.\<close>

definition registered_types :: "('w, 'x) dbus_scheme \<Rightarrow> bool" where
  "registered_types api \<longleftrightarrow> db_objectPathType api \<ge> QMetaType_User \<and> db_variantType api \<ge> QMetaType_User \<and> db_objectPathType api \<noteq> db_variantType api"

definition answers_property :: "('w, 'x) dbus_scheme \<Rightarrow> string \<Rightarrow> string \<Rightarrow> string \<Rightarrow> bus \<Rightarrow> string \<Rightarrow> variant \<Rightarrow> 'w \<Rightarrow> 'w \<Rightarrow> bool" where
  "answers_property api s p i c n v w w' \<longleftrightarrow> s \<noteq> [] \<and> p \<noteq> [] \<and> i \<noteq> [] \<and> n \<noteq> [] \<and> v \<noteq> VInvalid \<and> db_connected api c w
     \<and> (let object = \<lparr>ob_bus = c, ob_service = s, ob_path = p, ob_interface = ''org.freedesktop.DBus.Properties''\<rparr>;
            (valid, w1) = db_isValid api object w
        in valid \<and> db_call api object ''Get'' [VString i, VString n] w1 = (ReplyMessage [VVariant v], w'))"

lemma generic_answer:
  assumes "registered_types api" "answers_property api s p i c n v w w'"
  shows "GetDBusGenericProperty api s p i c n w = Some (Ret v w')"
  using assms by (simp add: GetDBusGenericProperty_def property_value_def reply_arg_def reply_arguments_def signature_def db_assert_def variant_type_def
      answers_property_def registered_types_def Let_def split: prod.splits)

lemma typed_answer:
  assumes "registered_types api" "answers_property api s p i c n v w w'"
  shows "typed_property api isType f s p i c n w = Some (if isType v then Ret (f v) w' else Exc DBusError w')"
  using generic_answer[OF assms] by (simp add: typed_property_def)

text \<open>A getter gives the value of a property of its type and throws \<open>DBusException\<close> for every other type.\<close>

theorem properties_typed:
  assumes "registered_types api" "answers_property api s p i c n v w w'"
  shows "GetDBusObjectPathProperty api s p i c n w = Some (case v of VObjectPath x \<Rightarrow> Ret x w' | _ \<Rightarrow> Exc DBusError w')
    \<and> GetDBusStringProperty api s p i c n w = Some (case v of VString x \<Rightarrow> Ret x w' | _ \<Rightarrow> Exc DBusError w')
    \<and> GetDBusBooleanProperty api s p i c n w = Some (case v of VBool x \<Rightarrow> Ret x w' | _ \<Rightarrow> Exc DBusError w')
    \<and> GetDBusInt32Property api s p i c n w = Some (case v of VInt32 x \<Rightarrow> Ret x w' | _ \<Rightarrow> Exc DBusError w')
    \<and> GetDBusUInt32Property api s p i c n w = Some (case v of VUInt32 x \<Rightarrow> Ret x w' | _ \<Rightarrow> Exc DBusError w')
    \<and> GetDBusInt64Property api s p i c n w = Some (case v of VInt64 x \<Rightarrow> Ret x w' | _ \<Rightarrow> Exc DBusError w')
    \<and> GetDBusUInt64Property api s p i c n w = Some (case v of VUInt64 x \<Rightarrow> Ret x w' | _ \<Rightarrow> Exc DBusError w')
    \<and> GetDBusDoubleProperty api s p i c n w = Some (case v of VDouble x \<Rightarrow> Ret x w' | _ \<Rightarrow> Exc DBusError w')
    \<and> GetDBusByteArrayProperty api s p i c n w = Some (case v of VByteArray x \<Rightarrow> Ret x w' | _ \<Rightarrow> Exc DBusError w')
    \<and> GetDBusStringArrayProperty api s p i c n w = Some (case v of VStringList x \<Rightarrow> Ret x w' | _ \<Rightarrow> Exc DBusError w')"
  using assms(1) unfolding typed_property_defs typed_answer[OF assms] registered_types_def variant_type_def
  by (cases v; simp)

text \<open>The types of bytes and 16 bit numbers are not registered ones: these three getters throw for every property.\<close>

lemma small_integers_always_throw:
  assumes "registered_types api" "answers_property api s p i c n v w w'"
  shows "GetDBusByteProperty api s p i c n w = Some (Exc DBusError w')" "GetDBusInt16Property api s p i c n w = Some (Exc DBusError w')"
    "GetDBusUInt16Property api s p i c n w = Some (Exc DBusError w')"
  using assms(1) unfolding typed_property_defs typed_answer[OF assms] registered_types_def variant_type_def
  by (cases v; simp)+

text \<open>Whether a service is registered, when the bus answers.\<close>

lemma registered_answer:
  assumes "n \<noteq> []" "db_connected api c w" "db_interface api c w" "db_isServiceRegistered api c n w = (Some b, w')"
  shows "IsDBusServiceRegistered api n c w = Some (Ret b w')"
  using assms by (simp add: IsDBusServiceRegistered_def)

end
