(* ===== verification/SessionManagers.thy ===== *)
theory SessionManagers
imports DBusCalls
begin

text \<open>
  \<open>SessionManager\<close> (\<open>src/gui/session_manager_lnx.cpp\<close>, \<open>session_manager_impl_lnx.cpp\<close>, \<open>logind_manager_lnx.hpp\<close>,
  \<open>console_kit_manager_lnx.hpp\<close>): ending the session or the system through the session manager of the desktop that is registered.
\<close>

abbreviation (input) "KDE_SM_SERVICE_NAME \<equiv> ''org.kde.ksmserver''"
abbreviation (input) "GNOME_SM_SERVICE_NAME \<equiv> ''org.gnome.SessionManager''"
abbreviation (input) "XFCE_SM_SERVICE_NAME \<equiv> ''org.xfce.SessionManager''"
abbreviation (input) "LXDE_SM_SERVICE_NAME \<equiv> ''org.lxde.SessionManager''"
abbreviation (input) "LXQT_SM_SERVICE_NAME \<equiv> ''org.lxqt.session''"

definition session_object :: "string \<Rightarrow> string \<Rightarrow> string \<Rightarrow> dbus_object" where
  "session_object s p i = \<lparr>ob_bus = SessionBus, ob_service = s, ob_path = p, ob_interface = i\<rparr>"

abbreviation (input) "kde_sm \<equiv> session_object KDE_SM_SERVICE_NAME ''/KSMServer'' ''org.kde.KSMServerInterface''"
abbreviation (input) "gnome_sm \<equiv> session_object GNOME_SM_SERVICE_NAME ''/org/gnome/SessionManager'' ''org.gnome.SessionManager''"
abbreviation (input) "xfce_sm \<equiv> session_object XFCE_SM_SERVICE_NAME ''/org/xfce/SessionManager'' ''org.xfce.SessionManager''"
abbreviation (input) "lxde_sm \<equiv> session_object LXDE_SM_SERVICE_NAME ''/org/lxde/SessionManager'' ''org.lxde.SessionManager''"
abbreviation (input) "lxqt_sm \<equiv> session_object LXQT_SM_SERVICE_NAME ''/LXQtSession'' ''org.lxqt.session''"

section \<open>The calls\<close>

text \<open>What the twelve functions share; the assertion asks the bus again, in a debug build.\<close>

definition assert_registered :: "('w, 'x) dbus_scheme \<Rightarrow> string \<Rightarrow> bus \<Rightarrow> (unit, 'w) fprog" where
  "assert_registered api n c = (if db_ndebug api then ret () else bind (IsDBusServiceRegistered api n c) (\<lambda>b. cpp_assert False b))"

definition sm_call :: "('w, 'x) dbus_scheme \<Rightarrow> dbus_object \<Rightarrow> string \<Rightarrow> variant list \<Rightarrow> (bool, 'w) fprog" where
  "sm_call api object member args = (\<lambda>w. if \<not> db_connected api SessionBus w then ret False w else
     andthen (assert_registered api (ob_service object) SessionBus) (bind (call (db_isValid api object)) (\<lambda>valid. if \<not> valid then ret False
       else bind (call (db_call api object member args)) (\<lambda>kReply. ret (kReply \<noteq> ErrorMessage)))) w)"

definition KdeSmLogout :: "('w, 'x) dbus_scheme \<Rightarrow> (bool, 'w) fprog" where
  "KdeSmLogout api = sm_call api kde_sm ''logout'' [VInt32 0, VInt32 3, VInt32 1]"

definition GnomeSmLogout :: "('w, 'x) dbus_scheme \<Rightarrow> (bool, 'w) fprog" where
  "GnomeSmLogout api = sm_call api gnome_sm ''Logout'' [VUInt32 1]"

definition XfceSmLogout :: "('w, 'x) dbus_scheme \<Rightarrow> (bool, 'w) fprog" where
  "XfceSmLogout api = sm_call api xfce_sm ''Logout'' [VBool False, VBool True]"

definition LxdeSmLogout :: "('w, 'x) dbus_scheme \<Rightarrow> (bool, 'w) fprog" where
  "LxdeSmLogout api = sm_call api lxde_sm ''Logout'' []"

definition LxqtSmLogout :: "('w, 'x) dbus_scheme \<Rightarrow> (bool, 'w) fprog" where
  "LxqtSmLogout api = sm_call api lxqt_sm ''logout'' []"

definition KdeSmShutdown :: "('w, 'x) dbus_scheme \<Rightarrow> (bool, 'w) fprog" where
  "KdeSmShutdown api = sm_call api kde_sm ''logout'' [VInt32 0, VInt32 2, VInt32 1]"

definition GnomeSmRequestShutdown :: "('w, 'x) dbus_scheme \<Rightarrow> (bool, 'w) fprog" where
  "GnomeSmRequestShutdown api = sm_call api gnome_sm ''RequestShutdown'' []"

definition GnomeSmShutdown :: "('w, 'x) dbus_scheme \<Rightarrow> (bool, 'w) fprog" where
  "GnomeSmShutdown api = sm_call api gnome_sm ''Shutdown'' []"

definition XfceSmShutdown :: "('w, 'x) dbus_scheme \<Rightarrow> (bool, 'w) fprog" where
  "XfceSmShutdown api = sm_call api xfce_sm ''Shutdown'' [VBool True]"

definition LxdeSmRequestShutdown :: "('w, 'x) dbus_scheme \<Rightarrow> (bool, 'w) fprog" where
  "LxdeSmRequestShutdown api = sm_call api lxde_sm ''RequestShutdown'' []"

definition LxdeSmShutdown :: "('w, 'x) dbus_scheme \<Rightarrow> (bool, 'w) fprog" where
  "LxdeSmShutdown api = sm_call api lxde_sm ''Shutdown'' []"

definition LxqtSmShutdown :: "('w, 'x) dbus_scheme \<Rightarrow> (bool, 'w) fprog" where
  "LxqtSmShutdown api = sm_call api lxqt_sm ''powerOff'' []"

definition if_registered :: "('w, 'x) dbus_scheme \<Rightarrow> string \<Rightarrow> (bool, 'w) fprog \<Rightarrow> (bool, 'w) fprog \<Rightarrow> (bool, 'w) fprog" where
  "if_registered api n yes no = bind (IsDBusServiceRegistered api n SessionBus) (\<lambda>b. if b then yes else no)"

definition Impl_Logout :: "('w, 'x) dbus_scheme \<Rightarrow> (bool, 'w) fprog" where
  "Impl_Logout api = (\<lambda>w. if \<not> db_connected api SessionBus w then ret False w else
     if_registered api KDE_SM_SERVICE_NAME (KdeSmLogout api)
     (if_registered api GNOME_SM_SERVICE_NAME (GnomeSmLogout api)
     (if_registered api XFCE_SM_SERVICE_NAME (XfceSmLogout api)
     (if_registered api LXDE_SM_SERVICE_NAME (LxdeSmLogout api)
     (if_registered api LXQT_SM_SERVICE_NAME (LxqtSmLogout api) (ret False))))) w)"

definition or_else :: "(bool, 'w) fprog \<Rightarrow> (bool, 'w) fprog \<Rightarrow> (bool, 'w) fprog" where
  "or_else p q = bind p (\<lambda>b. if b then ret True else q)"

definition Impl_Shutdown :: "('w, 'x) dbus_scheme \<Rightarrow> (bool, 'w) fprog" where
  "Impl_Shutdown api = (\<lambda>w. if \<not> db_connected api SessionBus w then ret False w else
     if_registered api KDE_SM_SERVICE_NAME (KdeSmShutdown api)
     (if_registered api GNOME_SM_SERVICE_NAME (or_else (GnomeSmRequestShutdown api) (GnomeSmShutdown api))
     (if_registered api XFCE_SM_SERVICE_NAME (XfceSmShutdown api)
     (if_registered api LXDE_SM_SERVICE_NAME (or_else (LxdeSmRequestShutdown api) (LxdeSmShutdown api))
     (if_registered api LXQT_SM_SERVICE_NAME (LxqtSmShutdown api) (ret False))))) w)"

lemmas sm_calls = KdeSmLogout_def GnomeSmLogout_def XfceSmLogout_def LxdeSmLogout_def LxqtSmLogout_def KdeSmShutdown_def GnomeSmRequestShutdown_def
  GnomeSmShutdown_def XfceSmShutdown_def LxdeSmRequestShutdown_def LxdeSmShutdown_def LxqtSmShutdown_def

section \<open>The managers of the system\<close>

datatype manager = LogindManager | ConsoleKitManager

abbreviation (input) "LOGIND_SERVICE_NAME \<equiv> ''org.freedesktop.login1''"
abbreviation (input) "CONSOLE_KIT_SERVICE_NAME \<equiv> ''org.freedesktop.ConsoleKit''"

definition logind_manager :: dbus_object where
  "logind_manager = \<lparr>ob_bus = SystemBus, ob_service = LOGIND_SERVICE_NAME, ob_path = ''/org/freedesktop/login1'', ob_interface = ''org.freedesktop.login1.Manager''\<rparr>"

definition console_kit_manager :: dbus_object where
  "console_kit_manager = \<lparr>ob_bus = SystemBus, ob_service = CONSOLE_KIT_SERVICE_NAME, ob_path = ''/org/freedesktop/ConsoleKit/Manager'',
     ob_interface = ''org.freedesktop.ConsoleKit.Manager''\<rparr>"

definition system_service_registered :: "('w, 'x) dbus_scheme \<Rightarrow> string \<Rightarrow> (bool, 'w) fprog" where
  "system_service_registered api n = (\<lambda>w. if \<not> db_connected api SystemBus w then throw DBusError w else IsDBusServiceRegistered api n SystemBus w)"

definition IsLogindServiceRegistered :: "('w, 'x) dbus_scheme \<Rightarrow> (bool, 'w) fprog" where
  "IsLogindServiceRegistered api = system_service_registered api LOGIND_SERVICE_NAME"

definition IsConsoleKitServiceRegistered :: "('w, 'x) dbus_scheme \<Rightarrow> (bool, 'w) fprog" where
  "IsConsoleKitServiceRegistered api = system_service_registered api CONSOLE_KIT_SERVICE_NAME"

definition IsSessionManagerServiceRegistered :: "('w, 'x) dbus_scheme \<Rightarrow> (bool, 'w) fprog" where
  "IsSessionManagerServiceRegistered api = or_else (IsLogindServiceRegistered api) (IsConsoleKitServiceRegistered api)"

definition Impl_ctor :: "('w, 'x) dbus_scheme \<Rightarrow> dbus_object \<Rightarrow> (unit, 'w) fprog" where
  "Impl_ctor api object = andthen (db_assert api (ob_service object \<noteq> [])) (andthen (db_assert api (ob_path object \<noteq> []))
     (andthen (db_assert api (ob_interface object \<noteq> [])) (bind (call (db_isValid api object)) (\<lambda>valid. check valid DBusError))))"

definition SessionManager_ctor :: "('w, 'x) dbus_scheme \<Rightarrow> (manager, 'w) fprog" where
  "SessionManager_ctor api = bind (IsLogindServiceRegistered api) (\<lambda>l. if l then andthen (Impl_ctor api logind_manager) (ret LogindManager)
     else bind (IsConsoleKitServiceRegistered api) (\<lambda>c. if c then andthen (Impl_ctor api console_kit_manager) (ret ConsoleKitManager) else throw DBusError))"

definition PowerOff :: "('w, 'x) dbus_scheme \<Rightarrow> bool \<Rightarrow> (bool, 'w) fprog" where
  "PowerOff api interactive = bind (call (db_call api logind_manager ''PowerOff'' [VBool interactive])) (\<lambda>kReply. ret (kReply \<noteq> ErrorMessage))"

definition Stop :: "('w, 'x) dbus_scheme \<Rightarrow> (bool, 'w) fprog" where
  "Stop api = bind (call (db_call api console_kit_manager ''Stop'' [])) (\<lambda>kReply. ret (kReply \<noteq> ErrorMessage))"

definition Logout :: "('w, 'x) dbus_scheme \<Rightarrow> manager \<Rightarrow> (bool, 'w) fprog" where
  "Logout api m = Impl_Logout api"

definition Shutdown :: "('w, 'x) dbus_scheme \<Rightarrow> manager \<Rightarrow> (bool, 'w) fprog" where
  "Shutdown api m = (case m of LogindManager \<Rightarrow> or_else (Impl_Shutdown api) (PowerOff api False) | ConsoleKitManager \<Rightarrow> or_else (Impl_Shutdown api) (Stop api))"

text \<open>The session of a process: the path of its object, from which the session is constructed.\<close>

definition path_argument :: "('w, 'x) dbus_scheme \<Rightarrow> dbus_reply \<Rightarrow> (string, 'w) fprog" where
  "path_argument api kReply = (if kReply = ErrorMessage then throw DBusError else bind (reply_arg api ''o'' kReply) (\<lambda>kReplyArg.
     andthen (db_assert api (variant_type api kReplyArg = QMetaType_User)) (andthen (db_assert api (userType api kReplyArg = db_objectPathType api))
       (let path = (case kReplyArg of VObjectPath p \<Rightarrow> p | _ \<Rightarrow> []) in andthen (db_assert api (path \<noteq> [])) (ret path)))))"

definition GetSessionByPID :: "('w, 'x) dbus_scheme \<Rightarrow> 32 word \<Rightarrow> (string, 'w) fprog" where
  "GetSessionByPID api pid = bind (call (db_call api logind_manager ''GetSessionByPID'' [VUInt32 pid])) (path_argument api)"

definition GetSessionForUnixProcess :: "('w, 'x) dbus_scheme \<Rightarrow> 32 word \<Rightarrow> (string, 'w) fprog" where
  "GetSessionForUnixProcess api pid = bind (call (db_call api console_kit_manager ''GetSessionForUnixProcess'' [VUInt32 pid])) (path_argument api)"

section \<open>A bus that does what it is asked\<close>

text \<open>The session bus is connected, answers which services are registered, and keeps the calls in a log.\<close>

type_synonym dbus_message = "dbus_object \<times> string \<times> variant list"

text \<open>The messages of a list up to the first one that is accepted.\<close>

fun sent :: "(dbus_message \<Rightarrow> bool) \<Rightarrow> dbus_message list \<Rightarrow> dbus_message list" where
  "sent accepts [] = []"
| "sent accepts (m # ms) = m # (if accepts m then [] else sent accepts ms)"

lemma sent_append: "sent accepts (ms @ ns) = sent accepts ms @ (if \<exists>m \<in> set ms. accepts m then [] else sent accepts ns)"
  by (induction ms) auto

locale session_bus =
  fixes api :: "('w, 'x) dbus_scheme" and log :: "'w \<Rightarrow> dbus_message list" and regs :: "string set" and accepts :: "dbus_message \<Rightarrow> bool"
  assumes connected: "db_connected api c w" "db_interface api c w"
    and isServiceRegistered: "db_isServiceRegistered api c n w = (r, w') \<Longrightarrow> r = Some (n \<in> regs) \<and> log w' = log w"
    and isValid: "db_isValid api ob w = (v, w') \<Longrightarrow> (ob_service ob \<in> regs \<longrightarrow> v) \<and> log w' = log w"
    and db_call: "db_call api ob m args w = (reply, w') \<Longrightarrow> (reply = ErrorMessage \<longleftrightarrow> \<not> accepts (ob, m, args)) \<and> log w' = log w @ [(ob, m, args)]"
begin

text \<open>A program that sends the messages of a list up to the first one that is accepted, and returns whether one was.\<close>

definition makes :: "(bool, 'w) fprog \<Rightarrow> dbus_message list \<Rightarrow> bool" where
  "makes p ms \<longleftrightarrow> (\<forall>w. \<exists>w'. p w = Some (Ret (\<exists>m \<in> set ms. accepts m) w') \<and> log w' = log w @ sent accepts ms)"

lemma makes_none: "makes (ret False) []"
  by (simp add: makes_def)

lemma registered: "n \<noteq> [] \<Longrightarrow> \<exists>w'. IsDBusServiceRegistered api n c w = Some (Ret (n \<in> regs) w') \<and> log w' = log w"
  using isServiceRegistered[of c n w] connected by (cases "db_isServiceRegistered api c n w") (simp add: registered_answer)

lemma makes_if_registered:
  assumes "n \<noteq> []" "n \<in> regs \<Longrightarrow> makes p ms" "n \<notin> regs \<Longrightarrow> makes q ns"
  shows "makes (if_registered api n p q) (if n \<in> regs then ms else ns)"
  unfolding makes_def
proof
  fix w
  obtain w1 where 1: "IsDBusServiceRegistered api n SessionBus w = Some (Ret (n \<in> regs) w1)" "log w1 = log w" using registered[OF assms(1)] by blast
  show "\<exists>w'. if_registered api n p q w = Some (Ret (\<exists>m \<in> set (if n \<in> regs then ms else ns). accepts m) w') \<and> log w' = log w @ sent accepts (if n \<in> regs then ms else ns)"
    using assms(2,3) 1 unfolding makes_def if_registered_def by (cases "n \<in> regs") fastforce+
qed

lemma makes_call:
  assumes "ob_service ob \<in> regs" "ob_service ob \<noteq> []"
  shows "makes (sm_call api ob m args) [(ob, m, args)]"
  unfolding makes_def
proof
  fix w
  obtain w1 where 1: "assert_registered api (ob_service ob) SessionBus w = Some (Ret () w1)" "log w1 = log w"
    using registered[OF assms(2), of SessionBus w] assms(1) by (cases "db_ndebug api") (auto simp: assert_registered_def)
  obtain v w2 where v: "db_isValid api ob w1 = (v, w2)" by fastforce
  obtain r w3 where r: "db_call api ob m args w2 = (r, w3)" by fastforce
  show "\<exists>w'. sm_call api ob m args w = Some (Ret (\<exists>x \<in> set [(ob, m, args)]. accepts x) w') \<and> log w' = log w @ sent accepts [(ob, m, args)]"
    using 1 v r isValid[OF v] db_call[OF r] assms(1) connected by (simp add: sm_call_def)
qed

lemma makes_or_else:
  assumes "makes p ms" "makes q ns"
  shows "makes (or_else p q) (ms @ ns)"
  unfolding makes_def
proof
  fix w
  obtain w1 where 1: "p w = Some (Ret (\<exists>x \<in> set ms. accepts x) w1)" "log w1 = log w @ sent accepts ms" using assms(1) unfolding makes_def by blast
  obtain w2 where 2: "q w1 = Some (Ret (\<exists>x \<in> set ns. accepts x) w2)" "log w2 = log w1 @ sent accepts ns" using assms(2) unfolding makes_def by blast
  show "\<exists>w'. or_else p q w = Some (Ret (\<exists>x \<in> set (ms @ ns). accepts x) w') \<and> log w' = log w @ sent accepts (ms @ ns)"
    using 1 2 by (cases "\<exists>x \<in> set ms. accepts x") (auto simp: or_else_def sent_append)
qed

lemma makes_or_else_single: "makes p [m] \<Longrightarrow> makes q ms \<Longrightarrow> makes (or_else p q) (m # ms)"
  using makes_or_else[of p "[m]" q ms] by simp

lemma makes_direct_call:
  assumes "p = bind (call (db_call api ob m args)) (\<lambda>kReply. ret (kReply \<noteq> ErrorMessage))"
  shows "makes p [(ob, m, args)]"
  unfolding makes_def
proof
  fix w
  obtain r w1 where r: "db_call api ob m args w = (r, w1)" by fastforce
  show "\<exists>w'. p w = Some (Ret (\<exists>x \<in> set [(ob, m, args)]. accepts x) w') \<and> log w' = log w @ sent accepts [(ob, m, args)]"
    using r db_call[OF r] by (simp add: assms)
qed

end

text \<open>The session managers in the order in which they are looked for, with the messages that end a session and those that end the system.\<close>

definition desktops :: "(string \<times> dbus_message list \<times> dbus_message list) list" where
  "desktops = [(KDE_SM_SERVICE_NAME, [(kde_sm, ''logout'', [VInt32 0, VInt32 3, VInt32 1])], [(kde_sm, ''logout'', [VInt32 0, VInt32 2, VInt32 1])]),
     (GNOME_SM_SERVICE_NAME, [(gnome_sm, ''Logout'', [VUInt32 1])], [(gnome_sm, ''RequestShutdown'', []), (gnome_sm, ''Shutdown'', [])]),
     (XFCE_SM_SERVICE_NAME, [(xfce_sm, ''Logout'', [VBool False, VBool True])], [(xfce_sm, ''Shutdown'', [VBool True])]),
     (LXDE_SM_SERVICE_NAME, [(lxde_sm, ''Logout'', [])], [(lxde_sm, ''RequestShutdown'', []), (lxde_sm, ''Shutdown'', [])]),
     (LXQT_SM_SERVICE_NAME, [(lxqt_sm, ''logout'', [])], [(lxqt_sm, ''powerOff'', [])])]"

definition of_desktop :: "string set \<Rightarrow> (string \<times> dbus_message list \<times> dbus_message list \<Rightarrow> dbus_message list) \<Rightarrow> dbus_message list" where
  "of_desktop regs f = (case List.find (\<lambda>d. fst d \<in> regs) desktops of None \<Rightarrow> [] | Some d \<Rightarrow> f d)"

definition manager_message :: "manager \<Rightarrow> dbus_message" where
  "manager_message m = (case m of LogindManager \<Rightarrow> (logind_manager, ''PowerOff'', [VBool False]) | ConsoleKitManager \<Rightarrow> (console_kit_manager, ''Stop'', []))"

context session_bus begin

lemma logout_makes: "makes (Impl_Logout api) (of_desktop regs (\<lambda>d. fst (snd d)))"
proof -
  have "Impl_Logout api = if_registered api KDE_SM_SERVICE_NAME (KdeSmLogout api) (if_registered api GNOME_SM_SERVICE_NAME (GnomeSmLogout api)
     (if_registered api XFCE_SM_SERVICE_NAME (XfceSmLogout api) (if_registered api LXDE_SM_SERVICE_NAME (LxdeSmLogout api)
     (if_registered api LXQT_SM_SERVICE_NAME (LxqtSmLogout api) (ret False)))))"
    by (rule ext) (simp add: Impl_Logout_def connected)
  moreover have "makes \<dots> (of_desktop regs (\<lambda>d. fst (snd d)))"
    unfolding of_desktop_def desktops_def sm_calls
    by (simp only: List.find.simps fst_conv snd_conv option.case if_distrib[of "case_option _ _"] cong: if_cong)
      (intro makes_if_registered makes_call makes_none; simp add: session_object_def)
  ultimately show ?thesis by simp
qed

lemma impl_shutdown_makes: "makes (Impl_Shutdown api) (of_desktop regs (\<lambda>d. snd (snd d)))"
proof -
  have "Impl_Shutdown api = if_registered api KDE_SM_SERVICE_NAME (KdeSmShutdown api)
     (if_registered api GNOME_SM_SERVICE_NAME (or_else (GnomeSmRequestShutdown api) (GnomeSmShutdown api))
     (if_registered api XFCE_SM_SERVICE_NAME (XfceSmShutdown api)
     (if_registered api LXDE_SM_SERVICE_NAME (or_else (LxdeSmRequestShutdown api) (LxdeSmShutdown api))
     (if_registered api LXQT_SM_SERVICE_NAME (LxqtSmShutdown api) (ret False)))))"
    by (rule ext) (simp add: Impl_Shutdown_def connected)
  moreover have "makes \<dots> (of_desktop regs (\<lambda>d. snd (snd d)))"
    unfolding of_desktop_def desktops_def sm_calls
    by (simp only: List.find.simps fst_conv snd_conv option.case if_distrib[of "case_option _ _"] cong: if_cong)
      (intro makes_if_registered makes_or_else_single makes_call makes_none; simp add: session_object_def)
  ultimately show ?thesis by simp
qed

lemma shutdown_makes: "makes (Shutdown api m) (of_desktop regs (\<lambda>d. snd (snd d)) @ [manager_message m])"
proof -
  have "makes (PowerOff api False) [manager_message LogindManager]" "makes (Stop api) [manager_message ConsoleKitManager]"
    unfolding manager_message_def manager.case by (rule makes_direct_call, simp add: PowerOff_def Stop_def)+
  then show ?thesis using makes_or_else[OF impl_shutdown_makes] by (cases m) (simp_all add: Shutdown_def)
qed

end

section \<open>A bus in memory\<close>

definition sample_bus :: "string set \<Rightarrow> (dbus_message \<Rightarrow> bool) \<Rightarrow> dbus_message list dbus" where
  "sample_bus regs accepts = \<lparr>db_ndebug = False, db_objectPathType = 1024, db_variantType = 1025, db_connected = (\<lambda>c w. True), db_interface = (\<lambda>c w. True),
     db_isServiceRegistered = (\<lambda>c n w. (Some (n \<in> regs), w)), db_isValid = (\<lambda>ob w. (ob_service ob \<in> regs, w)),
     db_toUInt = (\<lambda>v. 0), db_toULongLong = (\<lambda>v. 0), db_toBool = (\<lambda>v. False), db_toString = (\<lambda>v. []),
     db_call = (\<lambda>ob m args w. (if accepts (ob, m, args) then ReplyMessage [] else ErrorMessage, w @ [(ob, m, args)]))\<rparr>"

interpretation sample_bus: session_bus "sample_bus regs accepts" id regs accepts for regs accepts
  by unfold_locales (auto simp: sample_bus_def split: if_splits)

section \<open>Properties\<close>

text \<open>C34: Ending the session or the system, whatever is registered and whichever calls are refused: the messages of the first registered
  desktop, and for the system that of the manager after them, are sent in order up to the first one that is accepted; the result is
  whether one was, and nothing throws or fails an assertion.\<close>

theorem session_manager_messages:
  assumes "session_bus api log regs accepts"
  shows "(let ms = of_desktop regs (\<lambda>d. fst (snd d)) in \<exists>w'. Logout api m w = Some (Ret (\<exists>x \<in> set ms. accepts x) w') \<and> log w' = log w @ sent accepts ms)
    \<and> (let ms = of_desktop regs (\<lambda>d. snd (snd d)) @ [manager_message m] in
        \<exists>w'. Shutdown api m w = Some (Ret (\<exists>x \<in> set ms. accepts x) w') \<and> log w' = log w @ sent accepts ms)"
  using session_bus.logout_makes[OF assms] session_bus.shutdown_makes[OF assms, of m] unfolding session_bus.makes_def[OF assms] Logout_def Let_def by simp

lemma session_manager_messages_witness:
  "\<exists>w'. Shutdown (sample_bus {GNOME_SM_SERVICE_NAME, LXQT_SM_SERVICE_NAME} (\<lambda>m. fst (snd m) = ''PowerOff'')) LogindManager []
     = Some (Ret True w') \<and> map (fst \<circ> snd) w' = [''RequestShutdown'', ''Shutdown'', ''PowerOff'']"
  using session_manager_messages[OF sample_bus.session_bus_axioms, of "{GNOME_SM_SERVICE_NAME, LXQT_SM_SERVICE_NAME}" "\<lambda>m. fst (snd m) = ''PowerOff''" LogindManager "[]"]
  by (auto simp: of_desktop_def desktops_def manager_message_def Let_def)

text \<open>Without a connection to the session bus nothing is asked of the desktop.\<close>

lemma no_session_bus: "\<not> db_connected api SessionBus w \<Longrightarrow> Logout api m w = Some (Ret False w) \<and> Impl_Shutdown api w = Some (Ret False w)"
  by (simp add: Logout_def Impl_Logout_def Impl_Shutdown_def)

end
