(* ===== verification/Sessions.thy ===== *)
theory Sessions
imports SessionManagers
begin

text \<open>
  Sessions on Linux (\<open>src/gui/session_lnx.cpp\<close>, \<open>session_impl_lnx.cpp\<close>, \<open>logind_session_lnx.cpp\<close>,
  \<open>console_kit_session_lnx.cpp\<close>) and the screensaver (\<open>screensaver_lnx.cpp\<close>).

  To the calls of \<open>DBusCalls\<close> come the connections to signals, the clock in milliseconds, the parsing of dates and the idle time of X11.
  A session is its kind and its path; the signals it emits are kept in a list.  Connections between objects of the program do not fail.
\<close>

section \<open>The idle time\<close>

record 'w session_api = "'w dbus" +
  se_connect :: "dbus_object \<Rightarrow> string \<Rightarrow> 'w \<Rightarrow> bool \<times> 'w"
  se_disconnect :: "dbus_object \<Rightarrow> string \<Rightarrow> 'w \<Rightarrow> bool \<times> 'w"
  se_now :: "'w \<Rightarrow> int"
  se_fromISODate :: "string \<Rightarrow> int option"
  x_display :: "'w \<Rightarrow> bool"
  x_queryExtension :: "'w \<Rightarrow> bool \<times> 'w"
  x_allocInfo :: "'w \<Rightarrow> bool \<times> 'w"
  x_queryInfo :: "'w \<Rightarrow> 64 word option \<times> 'w"
  x_freeInfo :: "bool \<Rightarrow> 'w \<Rightarrow> unit \<times> 'w"

abbreviation (input) "cinnamon_saver \<equiv> session_object ''org.cinnamon.ScreenSaver'' ''/org/cinnamon/ScreenSaver'' ''org.cinnamon.ScreenSaver''"
abbreviation (input) "mate_saver \<equiv> session_object ''org.mate.ScreenSaver'' ''/org/mate/ScreenSaver'' ''org.mate.ScreenSaver''"
abbreviation (input) "mutter_monitor \<equiv> session_object ''org.gnome.Mutter.IdleMonitor'' ''/org/gnome/Mutter/IdleMonitor/Core'' ''org.gnome.Mutter.IdleMonitor''"
abbreviation (input) "gnome_saver \<equiv> session_object ''org.gnome.ScreenSaver'' ''/org/gnome/ScreenSaver'' ''org.gnome.ScreenSaver''"
abbreviation (input) "freedesktop_saver \<equiv> session_object ''org.freedesktop.ScreenSaver'' ''/ScreenSaver'' ''org.freedesktop.ScreenSaver''"
abbreviation (input) "kde_saver \<equiv> session_object ''org.kde.screensaver'' ''/ScreenSaver'' ''org.freedesktop.ScreenSaver''"

definition to_uint :: "('w, 'x) dbus_scheme \<Rightarrow> variant \<Rightarrow> 32 word" where
  "to_uint api v = (case v of VUInt32 n \<Rightarrow> n | _ \<Rightarrow> db_toUInt api v)"

definition to_ulonglong :: "('w, 'x) dbus_scheme \<Rightarrow> variant \<Rightarrow> 64 word" where
  "to_ulonglong api v = (case v of VUInt64 n \<Rightarrow> n | _ \<Rightarrow> db_toULongLong api v)"

definition to_bool :: "('w, 'x) dbus_scheme \<Rightarrow> variant \<Rightarrow> bool" where
  "to_bool api v = (case v of VBool b \<Rightarrow> b | _ \<Rightarrow> db_toBool api v)"

definition to_string :: "('w, 'x) dbus_scheme \<Rightarrow> variant \<Rightarrow> string" where
  "to_string api v = (case v of VString s \<Rightarrow> s | _ \<Rightarrow> db_toString api v)"

text \<open>A reply with one argument of a type.\<close>

definition reply_value :: "('w, 'x) dbus_scheme \<Rightarrow> string \<Rightarrow> int \<Rightarrow> (variant \<Rightarrow> 'a) \<Rightarrow> dbus_reply \<Rightarrow> ('a, 'w) fprog" where
  "reply_value api sig t val r = bind (reply_arg api sig r) (\<lambda>a. andthen (db_assert api (variant_type api a = t)) (ret (val a)))"

text \<open>One source of the idle time; \<open>None\<close> when it is not there or refuses.\<close>

definition idle_source :: "('w, 'x) dbus_scheme \<Rightarrow> dbus_object \<Rightarrow> string \<Rightarrow> (dbus_reply \<Rightarrow> ('a, 'w) fprog) \<Rightarrow> ('a option, 'w) fprog" where
  "idle_source api object member val = (\<lambda>w. if \<not> db_connected api SessionBus w then ret None w else
     bind (IsDBusServiceRegistered api (ob_service object) SessionBus) (\<lambda>registered. if \<not> registered then ret None
       else bind (call (db_isValid api object)) (\<lambda>valid. if \<not> valid then ret None
       else bind (call (db_call api object member [])) (\<lambda>kReply. if kReply = ErrorMessage then ret None
       else bind (val kReply) (\<lambda>t. ret (Some t))))) w)"

definition CinnamonScreenSaverGetSessionIdleTime :: "('w, 'x) dbus_scheme \<Rightarrow> (32 word option, 'w) fprog" where
  "CinnamonScreenSaverGetSessionIdleTime api = idle_source api cinnamon_saver ''GetSessionIdleTime'' (reply_value api ''u'' 3 (to_uint api))"

definition MateScreenSaverGetSessionIdleTime :: "('w, 'x) dbus_scheme \<Rightarrow> (32 word option, 'w) fprog" where
  "MateScreenSaverGetSessionIdleTime api = idle_source api mate_saver ''GetSessionIdleTime'' (reply_value api ''u'' 3 (to_uint api))"

definition GnomeMutterIdleMonitorGetIdletime :: "('w, 'x) dbus_scheme \<Rightarrow> (64 word option, 'w) fprog" where
  "GnomeMutterIdleMonitorGetIdletime api = idle_source api mutter_monitor ''GetIdletime'' (reply_value api ''t'' 5 (to_ulonglong api))"

definition GnomeScreenSaverGetSessionIdleTime :: "('w, 'x) dbus_scheme \<Rightarrow> (32 word option, 'w) fprog" where
  "GnomeScreenSaverGetSessionIdleTime api = idle_source api gnome_saver ''GetSessionIdleTime'' (reply_value api ''u'' 3 (to_uint api))"

definition FreedesktopScreenSaverGetSessionIdleTime :: "('w, 'x) dbus_scheme \<Rightarrow> (32 word option, 'w) fprog" where
  "FreedesktopScreenSaverGetSessionIdleTime api = idle_source api freedesktop_saver ''GetSessionIdleTime'' (reply_value api ''u'' 3 (to_uint api))"

text \<open>\<open>x_freeInfo\<close> frees the pointer, or \<open>NULL\<close> (\<open>False\<close>): the deleter of a \<open>shared_ptr\<close> runs for that too.\<close>

definition XScreenSaverInfoGetIdle :: "('w, 'x) session_api_scheme \<Rightarrow> (64 word, 'w) fprog" where
  "XScreenSaverInfoGetIdle api = (\<lambda>w. if \<not> x_display api w then throw RuntimeError w else
     bind (call (x_queryExtension api)) (\<lambda>available. if \<not> available then throw RuntimeError
       else bind (call (x_allocInfo api)) (\<lambda>allocated. scoped (if \<not> allocated then throw bad_alloc
         else bind (call (x_queryInfo api)) (\<lambda>info. case info of None \<Rightarrow> throw RuntimeError | Some idle \<Rightarrow> ret idle)) (call (x_freeInfo api allocated)))) w)"

definition or_source :: "('a option, 'w) fprog \<Rightarrow> ('a \<Rightarrow> 'b) \<Rightarrow> ('b, 'w) fprog \<Rightarrow> ('b, 'w) fprog" where
  "or_source m convert next = bind m (\<lambda>r. case r of Some t \<Rightarrow> ret (convert t) | None \<Rightarrow> next)"

definition GetIdleTime :: "('w, 'x) session_api_scheme \<Rightarrow> (64 word, 'w) fprog" where
  "GetIdleTime api = or_source (CinnamonScreenSaverGetSessionIdleTime api) ucast (or_source (MateScreenSaverGetSessionIdleTime api) ucast
     (or_source (GnomeMutterIdleMonitorGetIdletime api) id (or_source (GnomeScreenSaverGetSessionIdleTime api) ucast
     (or_source (FreedesktopScreenSaverGetSessionIdleTime api) ucast (XScreenSaverInfoGetIdle api)))))"

section \<open>Sessions\<close>

datatype session_event = Activated | Deactivated

definition session_of :: "manager \<Rightarrow> string \<Rightarrow> dbus_object" where
  "session_of m p = (case m of LogindManager \<Rightarrow> \<lparr>ob_bus = SystemBus, ob_service = LOGIND_SERVICE_NAME, ob_path = p, ob_interface = ''org.freedesktop.login1.Session''\<rparr>
     | ConsoleKitManager \<Rightarrow> \<lparr>ob_bus = SystemBus, ob_service = CONSOLE_KIT_SERVICE_NAME, ob_path = p, ob_interface = ''org.freedesktop.ConsoleKit.Session''\<rparr>)"

definition properties_of :: "dbus_object \<Rightarrow> dbus_object" where
  "properties_of ob = ob\<lparr>ob_interface := ''org.freedesktop.DBus.Properties''\<rparr>"

definition connect_to :: "('w, 'x) session_api_scheme \<Rightarrow> dbus_object \<Rightarrow> string \<Rightarrow> (unit, 'w) fprog" where
  "connect_to api ob sig = bind (call (se_connect api ob sig)) (\<lambda>ok. check ok DBusError)"

text \<open>A failed disconnection is only logged.\<close>

definition disconnect_from :: "('w, 'x) session_api_scheme \<Rightarrow> dbus_object \<Rightarrow> string \<Rightarrow> (unit, 'w) fprog" where
  "disconnect_from api ob sig = andthen (call (se_disconnect api ob sig)) (ret ())"

definition undone :: "(unit, 'w) fprog \<Rightarrow> (unit, 'w) fprog \<Rightarrow> (unit, 'w) fprog" where
  "undone m undo = catch m (\<lambda>e. andthen undo (throw e))"

definition bus_there :: "('w, 'x) dbus_scheme \<Rightarrow> (unit, 'w) fprog" where
  "bus_there api = (\<lambda>w. check (db_connected api SystemBus w) DBusError w)"

definition Session_Impl_ctor :: "('w, 'x) dbus_scheme \<Rightarrow> dbus_object \<Rightarrow> (unit, 'w) fprog" where
  "Session_Impl_ctor api object = andthen (db_assert api (ob_service object \<noteq> [])) (andthen (db_assert api (ob_path object \<noteq> []))
     (andthen (db_assert api (ob_interface object \<noteq> [])) (bind (call (db_isValid api object)) (\<lambda>valid. check valid DBusError))))"

definition LogindSession_ctor :: "('w, 'x) session_api_scheme \<Rightarrow> string \<Rightarrow> (unit, 'w) fprog" where
  "LogindSession_ctor api p = (let ob = session_of LogindManager p in andthen (Session_Impl_ctor api ob) (bind (call (db_isValid api (properties_of ob))) (\<lambda>propertiesValid.
     andthen (check (p \<noteq> []) EmptyArgument) (andthen (bus_there api) (andthen (connect_to api ob ''Lock'')
       (undone (andthen (connect_to api ob ''Unlock'')
         (undone (andthen (check propertiesValid DBusError) (connect_to api (properties_of ob) ''PropertiesChanged''))
           (disconnect_from api ob ''Unlock'')))
         (disconnect_from api ob ''Lock'')))))))"

definition LogindSession_dtor :: "('w, 'x) session_api_scheme \<Rightarrow> string \<Rightarrow> (unit, 'w) fprog" where
  "LogindSession_dtor api p = (let ob = session_of LogindManager p in andthen (disconnect_from api ob ''Lock'')
     (andthen (disconnect_from api ob ''Unlock'') (disconnect_from api (properties_of ob) ''PropertiesChanged'')))"

definition ConsoleKitSession_ctor :: "('w, 'x) session_api_scheme \<Rightarrow> string \<Rightarrow> (unit, 'w) fprog" where
  "ConsoleKitSession_ctor api p = (let ob = session_of ConsoleKitManager p in andthen (Session_Impl_ctor api ob) (andthen (check (p \<noteq> []) EmptyArgument)
     (andthen (bus_there api) (andthen (connect_to api ob ''ActiveChanged'')
       (undone (andthen (connect_to api ob ''Lock'')
         (undone (connect_to api ob ''Unlock'') (disconnect_from api ob ''Lock'')))
         (disconnect_from api ob ''ActiveChanged''))))))"

definition ConsoleKitSession_dtor :: "('w, 'x) session_api_scheme \<Rightarrow> string \<Rightarrow> (unit, 'w) fprog" where
  "ConsoleKitSession_dtor api p = (let ob = session_of ConsoleKitManager p in (\<lambda>w. if \<not> db_connected api SystemBus w then ret () w
     else andthen (disconnect_from api ob ''Unlock'') (andthen (disconnect_from api ob ''Lock'') (disconnect_from api ob ''ActiveChanged'')) w))"

text \<open>Calls that only succeed or fail.\<close>

definition call_ok :: "('w, 'x) dbus_scheme \<Rightarrow> dbus_object \<Rightarrow> string \<Rightarrow> variant list \<Rightarrow> (bool, 'w) fprog" where
  "call_ok api ob member args = bind (call (db_call api ob member args)) (\<lambda>kReply. ret (kReply \<noteq> ErrorMessage))"

definition Logind_Activate :: "('w, 'x) dbus_scheme \<Rightarrow> string \<Rightarrow> (bool, 'w) fprog" where
  "Logind_Activate api p = call_ok api (session_of LogindManager p) ''Activate'' []"

definition Logind_Lock :: "('w, 'x) dbus_scheme \<Rightarrow> string \<Rightarrow> (bool, 'w) fprog" where
  "Logind_Lock api p = call_ok api (session_of LogindManager p) ''Lock'' []"

definition Logind_Unlock :: "('w, 'x) dbus_scheme \<Rightarrow> string \<Rightarrow> (bool, 'w) fprog" where
  "Logind_Unlock api p = call_ok api (session_of LogindManager p) ''Unlock'' []"

definition ConsoleKit_Activate :: "('w, 'x) dbus_scheme \<Rightarrow> string \<Rightarrow> (bool, 'w) fprog" where
  "ConsoleKit_Activate api p = call_ok api (session_of ConsoleKitManager p) ''Activate'' []"

definition ConsoleKit_Lock :: "('w, 'x) dbus_scheme \<Rightarrow> string \<Rightarrow> (bool, 'w) fprog" where
  "ConsoleKit_Lock api p = call_ok api (session_of ConsoleKitManager p) ''Lock'' []"

definition ConsoleKit_Unlock :: "('w, 'x) dbus_scheme \<Rightarrow> string \<Rightarrow> (bool, 'w) fprog" where
  "ConsoleKit_Unlock api p = call_ok api (session_of ConsoleKitManager p) ''Unlock'' []"

text \<open>The properties of a session: those of logind are properties, those of ConsoleKit calls.\<close>

definition logind_property :: "(string \<Rightarrow> string \<Rightarrow> string \<Rightarrow> bus \<Rightarrow> string \<Rightarrow> ('a, 'w) fprog) \<Rightarrow> string \<Rightarrow> string \<Rightarrow> ('a, 'w) fprog" where
  "logind_property getter p name = (let ob = session_of LogindManager p in getter (ob_service ob) (ob_path ob) (ob_interface ob) (ob_bus ob) name)"

definition ck_call :: "('w, 'x) dbus_scheme \<Rightarrow> string \<Rightarrow> string \<Rightarrow> (dbus_reply \<Rightarrow> ('a, 'w) fprog) \<Rightarrow> ('a, 'w) fprog" where
  "ck_call api p member val = bind (call (db_call api (session_of ConsoleKitManager p) member [])) (\<lambda>kReply.
     if kReply = ErrorMessage then throw DBusError else val kReply)"

definition Logind_GetId :: "('w, 'x) dbus_scheme \<Rightarrow> string \<Rightarrow> (string, 'w) fprog" where
  "Logind_GetId api p = logind_property (GetDBusStringProperty api) p ''Id''"

definition Logind_GetType :: "('w, 'x) dbus_scheme \<Rightarrow> string \<Rightarrow> (string, 'w) fprog" where
  "Logind_GetType api p = logind_property (GetDBusStringProperty api) p ''Type''"

definition Logind_GetUser :: "('w, 'x) dbus_scheme \<Rightarrow> string \<Rightarrow> (32 word, 'w) fprog" where
  "Logind_GetUser api p = logind_property (GetDBusUInt32Property api) p ''User''"

definition Logind_GetRemoteHost :: "('w, 'x) dbus_scheme \<Rightarrow> string \<Rightarrow> (string, 'w) fprog" where
  "Logind_GetRemoteHost api p = logind_property (GetDBusStringProperty api) p ''RemoteHost''"

definition Logind_IsActive :: "('w, 'x) dbus_scheme \<Rightarrow> string \<Rightarrow> (bool, 'w) fprog" where
  "Logind_IsActive api p = logind_property (GetDBusBooleanProperty api) p ''Active''"

definition Logind_IsRemote :: "('w, 'x) dbus_scheme \<Rightarrow> string \<Rightarrow> (bool, 'w) fprog" where
  "Logind_IsRemote api p = logind_property (GetDBusBooleanProperty api) p ''Remote''"

definition Logind_GetIdleHint :: "('w, 'x) dbus_scheme \<Rightarrow> string \<Rightarrow> (bool, 'w) fprog" where
  "Logind_GetIdleHint api p = andthen (bus_there api) (logind_property (GetDBusBooleanProperty api) p ''IdleHint'')"

definition ConsoleKit_GetId :: "('w, 'x) dbus_scheme \<Rightarrow> string \<Rightarrow> (string, 'w) fprog" where
  "ConsoleKit_GetId api p = ck_call api p ''GetId'' (path_argument api)"

definition ConsoleKit_GetIdleHint :: "('w, 'x) dbus_scheme \<Rightarrow> string \<Rightarrow> (bool, 'w) fprog" where
  "ConsoleKit_GetIdleHint api p = ck_call api p ''GetSystemIdleHint'' (reply_value api ''b'' 1 (to_bool api))"

definition ConsoleKit_GetSessionType :: "('w, 'x) dbus_scheme \<Rightarrow> string \<Rightarrow> (string, 'w) fprog" where
  "ConsoleKit_GetSessionType api p = ck_call api p ''GetSessionType'' (reply_value api ''s'' 10 (to_string api))"

definition ConsoleKit_GetUnixUser :: "('w, 'x) dbus_scheme \<Rightarrow> string \<Rightarrow> (32 word, 'w) fprog" where
  "ConsoleKit_GetUnixUser api p = ck_call api p ''GetUnixUser'' (reply_value api ''u'' 3 (to_uint api))"

definition ConsoleKit_GetRemoteHostName :: "('w, 'x) dbus_scheme \<Rightarrow> string \<Rightarrow> (string, 'w) fprog" where
  "ConsoleKit_GetRemoteHostName api p = ck_call api p ''GetRemoteHostName'' (reply_value api ''s'' 10 (to_string api))"

definition ConsoleKit_IsActive :: "('w, 'x) dbus_scheme \<Rightarrow> string \<Rightarrow> (bool, 'w) fprog" where
  "ConsoleKit_IsActive api p = ck_call api p ''IsActive'' (reply_value api ''b'' 1 (to_bool api))"

definition ConsoleKit_IsLocal :: "('w, 'x) dbus_scheme \<Rightarrow> string \<Rightarrow> (bool, 'w) fprog" where
  "ConsoleKit_IsLocal api p = ck_call api p ''IsLocal'' (reply_value api ''b'' 1 (to_bool api))"

definition ConsoleKit_IsRemote :: "('w, 'x) dbus_scheme \<Rightarrow> string \<Rightarrow> (bool, 'w) fprog" where
  "ConsoleKit_IsRemote api p = bind (ConsoleKit_IsLocal api p) (\<lambda>isLocal. ret (\<not> isLocal))"

definition Session_GetId :: "('w, 'x) dbus_scheme \<Rightarrow> manager \<Rightarrow> string \<Rightarrow> (string, 'w) fprog" where
  "Session_GetId api m p = (case m of LogindManager \<Rightarrow> Logind_GetId api p | ConsoleKitManager \<Rightarrow> ConsoleKit_GetId api p)"

text \<open>The time since a moment, never negative.\<close>

definition idle_since :: "('w, 'x) session_api_scheme \<Rightarrow> int \<Rightarrow> (64 word, 'w) fprog" where
  "idle_since api since = (\<lambda>w. let kIdleTime = se_now api w - since in ret (word_of_int (if kIdleTime \<ge> 0 then kIdleTime else 0)) w)"

definition DoGetIdleSinceHint :: "('w, 'x) dbus_scheme \<Rightarrow> string \<Rightarrow> (64 word, 'w) fprog" where
  "DoGetIdleSinceHint api p = andthen (bus_there api) (logind_property (GetDBusUInt64Property api) p ''IdleSinceHint'')"

definition DoGetSystemIdleSinceHint :: "('w, 'x) dbus_scheme \<Rightarrow> string \<Rightarrow> (string, 'w) fprog" where
  "DoGetSystemIdleSinceHint api p = ck_call api p ''GetSystemIdleSinceHint'' (reply_value api ''s'' 10 (to_string api))"

definition Logind_GetIdleSinceHint :: "('w, 'x) session_api_scheme \<Rightarrow> string \<Rightarrow> (64 word, 'w) fprog" where
  "Logind_GetIdleSinceHint api p = bind (DoGetIdleSinceHint api p) (\<lambda>us. idle_since api (int (unat us div 1000)))"

definition ConsoleKit_GetIdleSinceHint :: "('w, 'x) session_api_scheme \<Rightarrow> string \<Rightarrow> (64 word, 'w) fprog" where
  "ConsoleKit_GetIdleSinceHint api p = bind (DoGetSystemIdleSinceHint api p) (\<lambda>t. andthen (db_assert api (t \<noteq> []))
     (andthen (db_assert api (se_fromISODate api t \<noteq> None)) (idle_since api (case se_fromISODate api t of Some ms \<Rightarrow> ms | None \<Rightarrow> 0))))"

section \<open>\<open>Session\<close>\<close>

definition Impl_dtor :: "('w, 'x) session_api_scheme \<Rightarrow> manager \<Rightarrow> string \<Rightarrow> (unit, 'w) fprog" where
  "Impl_dtor api m p = (case m of LogindManager \<Rightarrow> LogindSession_dtor api p | ConsoleKitManager \<Rightarrow> ConsoleKitSession_dtor api p)"

text \<open>The constructor returns the identifier; when it throws, the implementation is destroyed.\<close>

definition Session_ctor :: "('w, 'x) session_api_scheme \<Rightarrow> string \<Rightarrow> string \<Rightarrow> (manager \<times> string, 'w) fprog" where
  "Session_ctor api service p = andthen (db_assert api (service = LOGIND_SERVICE_NAME \<or> service = CONSOLE_KIT_SERVICE_NAME)) (andthen (db_assert api (p \<noteq> []))
     (let m = (if service = LOGIND_SERVICE_NAME then LogindManager else ConsoleKitManager) in
      andthen (case m of LogindManager \<Rightarrow> LogindSession_ctor api p | ConsoleKitManager \<Rightarrow> ConsoleKitSession_ctor api p)
       (catch (bind (Session_GetId api m p) (\<lambda>kId. andthen (db_assert api (kId \<noteq> [])) (ret (m, kId))))
         (\<lambda>e. andthen (Impl_dtor api m p) (throw e)))))"

definition OnActiveChanged :: "bool \<Rightarrow> (exn, unit, 'w \<times> session_event list) prog" where
  "OnActiveChanged isActive = modify (\<lambda>es. es @ [if isActive then Activated else Deactivated])"

definition OnDBusPropertiesChanged :: "('w, 'x) dbus_scheme \<Rightarrow> string \<Rightarrow> (string \<rightharpoonup> variant) \<Rightarrow> (exn, unit, 'w \<times> session_event list) prog" where
  "OnDBusPropertiesChanged api interfaceName changedProperties = andthen (cpp_assert (db_ndebug api) (interfaceName = ''org.freedesktop.login1.Session''))
     (case changedProperties ''Active'' of None \<Rightarrow> ret ()
      | Some kValue \<Rightarrow> andthen (cpp_assert (db_ndebug api) (kValue \<noteq> VInvalid)) (andthen (cpp_assert (db_ndebug api) (variant_type api kValue = 1))
          (OnActiveChanged (to_bool api kValue))))"

section \<open>Connections\<close>

text \<open>The connections of a session, and a system bus that stays connected and keeps the connections that were made.\<close>

definition own_connections :: "manager \<Rightarrow> string \<Rightarrow> (dbus_object \<times> string) set" where
  "own_connections m p = (let ob = session_of m p in case m of LogindManager \<Rightarrow> {(ob, ''Lock''), (ob, ''Unlock''), (properties_of ob, ''PropertiesChanged'')}
     | ConsoleKitManager \<Rightarrow> {(ob, ''ActiveChanged''), (ob, ''Lock''), (ob, ''Unlock'')})"

locale signal_bus =
  fixes api :: "('w, 'x) session_api_scheme" and connections :: "'w \<Rightarrow> (dbus_object \<times> string) set"
  assumes connected: "db_connected api SystemBus w"
    and se_connect: "se_connect api ob s w = (ok, w') \<Longrightarrow> connections w' = (if ok then insert (ob, s) (connections w) else connections w)"
    and se_disconnect: "connections (snd (se_disconnect api ob s w)) = connections w - {(ob, s)}"
    and calls: "connections (snd (db_isValid api ob w)) = connections w" "connections (snd (db_call api ob m args w)) = connections w"
      "connections (snd (db_isServiceRegistered api c n w)) = connections w"
begin

text \<open>A program that makes the connections of a set, or none when it throws.\<close>

definition adds :: "('a, 'w) fprog \<Rightarrow> (dbus_object \<times> string) set \<Rightarrow> bool" where
  "adds p S \<longleftrightarrow> (\<forall>w. connections w \<inter> S = {} \<longrightarrow> (\<exists>a w'. p w = Some (Ret a w') \<and> connections w' = connections w \<union> S)
     \<or> (\<exists>e w'. p w = Some (Exc e w') \<and> connections w' = connections w) \<or> (\<exists>w'. p w = Some (Term w')))"

lemma adds_cases:
  assumes "adds p S" "connections w \<inter> S = {}"
  obtains a w' where "p w = Some (Ret a w')" "connections w' = connections w \<union> S"
    | e w' where "p w = Some (Exc e w')" "connections w' = connections w" | w' where "p w = Some (Term w')"
  using assms unfolding adds_def by meson

lemma adds_basic: "adds (ret a) {}" "adds (throw e) S" "adds (check b e) {}" "adds (cpp_assert nd b) {}"
  by (auto simp: adds_def)

lemma adds_call: "(\<And>w. connections (snd (f w)) = connections w) \<Longrightarrow> adds (call f) {}"
  by (auto simp: adds_def call_def split_beta)

lemma adds_bind:
  assumes "adds p {}" "\<And>a. adds (q a) S"
  shows "adds (bind p q) S"
  unfolding adds_def
proof (intro allI impI)
  fix w assume w: "connections w \<inter> S = {}"
  have e: "connections w \<inter> {} = {}" by simp
  show "(\<exists>a w'. bind p q w = Some (Ret a w') \<and> connections w' = connections w \<union> S)
     \<or> (\<exists>e w'. bind p q w = Some (Exc e w') \<and> connections w' = connections w) \<or> (\<exists>w'. bind p q w = Some (Term w'))"
  proof (cases rule: adds_cases[OF assms(1) e])
    case (1 a w1)
    then have i: "connections w1 \<inter> S = {}" using w by simp
    show ?thesis by (cases rule: adds_cases[OF assms(2)[of a] i]) (use 1 in auto)
  qed auto
qed

lemma adds_connect: "adds (connect_to api ob s) {(ob, s)}"
  unfolding adds_def
proof (intro allI impI)
  fix w
  obtain ok w1 where c: "se_connect api ob s w = (ok, w1)" by fastforce
  show "(\<exists>a w'. connect_to api ob s w = Some (Ret a w') \<and> connections w' = connections w \<union> {(ob, s)})
     \<or> (\<exists>e w'. connect_to api ob s w = Some (Exc e w') \<and> connections w' = connections w) \<or> (\<exists>w'. connect_to api ob s w = Some (Term w'))"
    using c se_connect[OF c] by (cases ok) (auto simp: connect_to_def)
qed

lemma disconnect: "\<exists>w'. disconnect_from api ob s w = Some (Ret () w') \<and> connections w' = connections w - {(ob, s)}"
  using se_disconnect[of ob s w] by (auto simp: disconnect_from_def call_def split_beta)

lemma adds_nested:
  assumes "adds q S" "(ob, s) \<notin> S"
  shows "adds (andthen (connect_to api ob s) (undone q (disconnect_from api ob s))) (insert (ob, s) S)"
  unfolding adds_def
proof (intro allI impI)
  fix w assume w: "connections w \<inter> insert (ob, s) S = {}"
  let ?p = "andthen (connect_to api ob s) (undone q (disconnect_from api ob s))"
  obtain ok w1 where c: "se_connect api ob s w = (ok, w1)" by fastforce
  show "(\<exists>a w'. ?p w = Some (Ret a w') \<and> connections w' = connections w \<union> insert (ob, s) S)
     \<or> (\<exists>e w'. ?p w = Some (Exc e w') \<and> connections w' = connections w) \<or> (\<exists>w'. ?p w = Some (Term w'))"
  proof (cases ok)
    case True
    then have w1: "connections w1 = insert (ob, s) (connections w)" using se_connect[OF c] by simp
    then have i: "connections w1 \<inter> S = {}" using w assms(2) by auto
    show ?thesis
    proof (cases rule: adds_cases[OF assms(1) i])
      case (2 e w2)
      obtain w3 where "disconnect_from api ob s w2 = Some (Ret () w3)" "connections w3 = connections w2 - {(ob, s)}" using disconnect by blast
      then show ?thesis using 2 c True w1 w by (auto simp: connect_to_def undone_def)
    qed (use c True w1 in \<open>auto simp: connect_to_def undone_def\<close>)
  qed (use c se_connect[OF c] in \<open>auto simp: connect_to_def\<close>)
qed

lemmas adds_intros = adds_bind adds_basic adds_call adds_nested adds_connect

lemma adds_check_connected: "adds (bus_there api) {}"
  using connected by (auto simp: adds_def bus_there_def)

lemma adds_Impl_ctor: "adds (Session_Impl_ctor api ob) {}"
  unfolding Session_Impl_ctor_def db_assert_def by (intro adds_intros) (simp_all add: calls)

lemma logind_ctor: "adds (LogindSession_ctor api p) (own_connections LogindManager p)"
  unfolding LogindSession_ctor_def own_connections_def Let_def manager.case
  by (intro adds_intros adds_Impl_ctor adds_check_connected) (simp_all add: calls properties_of_def session_of_def)

lemma console_kit_ctor: "adds (ConsoleKitSession_ctor api p) (own_connections ConsoleKitManager p)"
  unfolding ConsoleKitSession_ctor_def own_connections_def Let_def manager.case
  by (intro adds_intros adds_Impl_ctor adds_check_connected) (simp_all add: calls session_of_def)

lemma destructor: "\<exists>w'. Impl_dtor api m p w = Some (Ret () w') \<and> connections w' = connections w - own_connections m p"
proof -
  have three: "\<exists>w'. andthen (disconnect_from api a s) (andthen (disconnect_from api b t) (disconnect_from api c u)) w = Some (Ret () w')
    \<and> connections w' = connections w - {(a, s), (b, t), (c, u)}" for a b c s t u
  proof -
    obtain w1 where 1: "disconnect_from api a s w = Some (Ret () w1)" "connections w1 = connections w - {(a, s)}" using disconnect by blast
    obtain w2 where 2: "disconnect_from api b t w1 = Some (Ret () w2)" "connections w2 = connections w1 - {(b, t)}" using disconnect by blast
    obtain w3 where 3: "disconnect_from api c u w2 = Some (Ret () w3)" "connections w3 = connections w2 - {(c, u)}" using disconnect by blast
    show ?thesis using 1 2 3 by (intro exI[of _ w3]) auto
  qed
  show ?thesis
  proof (cases m)
    case LogindManager
    then show ?thesis using three unfolding Impl_dtor_def LogindSession_dtor_def own_connections_def Let_def by simp
  next
    case ConsoleKitManager
    have "own_connections m p = {(session_of m p, ''Unlock''), (session_of m p, ''Lock''), (session_of m p, ''ActiveChanged'')}"
      using ConsoleKitManager unfolding own_connections_def Let_def by auto
    then show ?thesis using ConsoleKitManager connected three unfolding Impl_dtor_def ConsoleKitSession_dtor_def Let_def by simp
  qed
qed

lemma adds_reads: "adds (\<lambda>w. check (b w) e w) {}"
  by (auto simp: adds_def)

lemma adds_generic: "adds (GetDBusGenericProperty api s q i c n) {}"
  unfolding GetDBusGenericProperty_def property_value_def reply_arg_def db_assert_def Let_def
  by (intro adds_intros adds_reads) (auto simp: calls intro!: adds_intros)

lemma adds_GetId: "adds (Session_GetId api m p) {}"
proof (cases m)
  case LogindManager
  then show ?thesis unfolding Session_GetId_def Logind_GetId_def logind_property_def GetDBusStringProperty_def typed_property_def Let_def
    by (auto intro!: adds_intros adds_generic)
next
  case ConsoleKitManager
  then show ?thesis unfolding Session_GetId_def ConsoleKit_GetId_def ck_call_def path_argument_def reply_arg_def db_assert_def Let_def
    by (auto simp: calls intro!: adds_intros)
qed

text \<open>A constructor, and the rest after which the object is destroyed again when it throws.\<close>

lemma adds_or_destroy:
  assumes "adds c (own_connections m p)" "adds q {}"
  shows "adds (andthen c (catch q (\<lambda>e. andthen (Impl_dtor api m p) (throw e)))) (own_connections m p)"
  unfolding adds_def
proof (intro allI impI)
  let ?S = "own_connections m p" and ?p = "andthen c (catch q (\<lambda>e. andthen (Impl_dtor api m p) (throw e)))"
  fix w assume w: "connections w \<inter> ?S = {}"
  show "(\<exists>a w'. ?p w = Some (Ret a w') \<and> connections w' = connections w \<union> ?S)
     \<or> (\<exists>e w'. ?p w = Some (Exc e w') \<and> connections w' = connections w) \<or> (\<exists>w'. ?p w = Some (Term w'))"
  proof (cases rule: adds_cases[OF assms(1) w])
    case (1 a w1)
    have i: "connections w1 \<inter> {} = {}" by simp
    show ?thesis
    proof (cases rule: adds_cases[OF assms(2) i])
      case (2 e w2)
      obtain w3 where "Impl_dtor api m p w2 = Some (Ret () w3)" "connections w3 = connections w2 - ?S" using destructor by blast
      then show ?thesis using 1 2 w by auto
    qed (use 1 in auto)
  qed auto
qed

lemma session_ctor:
  "adds (Session_ctor api service p) (own_connections (if service = LOGIND_SERVICE_NAME then LogindManager else ConsoleKitManager) p)"
proof -
  have id: "adds (bind (Session_GetId api m p) (\<lambda>kId. andthen (db_assert api (kId \<noteq> [])) (ret (m, kId)))) {}" for m
    unfolding db_assert_def by (intro adds_intros adds_GetId)
  have ctor: "adds (case m of LogindManager \<Rightarrow> LogindSession_ctor api p | ConsoleKitManager \<Rightarrow> ConsoleKitSession_ctor api p) (own_connections m p)" for m
    using logind_ctor console_kit_ctor by (cases m) simp_all
  have asserted: "adds q S \<Longrightarrow> adds (andthen (db_assert api b) q) S" for b S and q :: "('a, 'w) fprog"
    unfolding db_assert_def by (rule adds_bind[OF adds_basic(4)])
  show ?thesis unfolding Session_ctor_def Let_def by (rule asserted[OF asserted[OF adds_or_destroy[OF ctor id]]])
qed

end

text \<open>The constructor of a session makes its three connections, which the destructor gives back; when it throws, whichever connection,
  property or call was refused, none is left.\<close>

theorem session_gives_back_connections:
  assumes "signal_bus api connections" "m = (if service = LOGIND_SERVICE_NAME then LogindManager else ConsoleKitManager)"
    and "connections w \<inter> own_connections m p = {}"
  shows "(\<exists>kId w1 w2. Session_ctor api service p w = Some (Ret kId w1) \<and> connections w1 = connections w \<union> own_connections m p
        \<and> Impl_dtor api m p w1 = Some (Ret () w2) \<and> connections w2 = connections w)
    \<or> (\<exists>e w1. Session_ctor api service p w = Some (Exc e w1) \<and> connections w1 = connections w)
    \<or> (\<exists>w1. Session_ctor api service p w = Some (Term w1))"
proof (cases rule: signal_bus.adds_cases[OF assms(1) signal_bus.session_ctor[OF assms(1), of service p, folded assms(2)] assms(3)])
  case (1 kId w1)
  obtain w2 where "Impl_dtor api m p w1 = Some (Ret () w2)" "connections w2 = connections w1 - own_connections m p"
    using signal_bus.destructor[OF assms(1)] by blast
  moreover have "connections w \<union> own_connections m p - own_connections m p = connections w" using assms(3) by auto
  ultimately show ?thesis using 1 by auto
qed auto

section \<open>Sources of the idle time\<close>

context session_bus begin

lemma idle_source_absent:
  assumes "ob_service ob \<noteq> []" "ob_service ob \<notin> regs"
  shows "\<exists>w'. idle_source api ob member val w = Some (Ret None w') \<and> log w' = log w"
  using registered[OF assms(1), of SessionBus w] assms(2) connected by (auto simp: idle_source_def)

lemma or_source_absent:
  assumes "\<And>w. \<exists>w'. p w = Some (Ret None w') \<and> log w' = log w"
  shows "\<exists>w'. or_source p convert q w = q w' \<and> log w' = log w"
  using assms[of w] by (auto simp: or_source_def)

end

text \<open>Without any of the five services the idle time is that of X11, and no message was sent.\<close>

lemma idle_time_of_x11:
  assumes "session_bus api log regs accepts"
    and "regs \<inter> {''org.cinnamon.ScreenSaver'', ''org.mate.ScreenSaver'', ''org.gnome.Mutter.IdleMonitor'', ''org.gnome.ScreenSaver'', ''org.freedesktop.ScreenSaver''} = {}"
  shows "\<exists>w'. GetIdleTime api w = XScreenSaverInfoGetIdle api w' \<and> log w' = log w"
proof -
  have skip: "\<exists>w'. or_source (idle_source api (session_object s p i) member val) convert q w = r w' \<and> log w' = log w"
    if there: "s \<noteq> []" "s \<notin> regs" and rest: "\<And>w. \<exists>w'. q w = r w' \<and> log w' = log w" for s p i member convert q r w and val :: "dbus_reply \<Rightarrow> ('e, 'a) fprog"
  proof -
    have "\<exists>w'. idle_source api (session_object s p i) member val w = Some (Ret None w') \<and> log w' = log w" for w
      by (rule session_bus.idle_source_absent[OF assms(1)]) (use there in \<open>simp_all add: session_object_def\<close>)
    from session_bus.or_source_absent[OF assms(1) this, of convert q w]
    obtain w1 where "or_source (idle_source api (session_object s p i) member val) convert q w = q w1" "log w1 = log w" by blast
    then show ?thesis using rest[of w1] by auto
  qed
  have absent: "''org.cinnamon.ScreenSaver'' \<notin> regs" "''org.mate.ScreenSaver'' \<notin> regs" "''org.gnome.Mutter.IdleMonitor'' \<notin> regs"
    "''org.gnome.ScreenSaver'' \<notin> regs" "''org.freedesktop.ScreenSaver'' \<notin> regs" using assms(2) by auto
  show ?thesis
    unfolding GetIdleTime_def CinnamonScreenSaverGetSessionIdleTime_def MateScreenSaverGetSessionIdleTime_def GnomeMutterIdleMonitorGetIdletime_def
      GnomeScreenSaverGetSessionIdleTime_def FreedesktopScreenSaverGetSessionIdleTime_def
    by (intro skip absent) auto
qed

section \<open>The screensaver\<close>

text \<open>The object is the interface that was chosen, \<open>None\<close> before construction and after \<open>Uninit\<close>; its operations are called in between.\<close>

definition choose_saver :: "('w, 'x) dbus_scheme \<Rightarrow> (dbus_object, 'w) fprog" where
  "choose_saver api = (let if_there = (\<lambda>ob next. bind (IsDBusServiceRegistered api (ob_service ob) SessionBus) (\<lambda>b. if b then ret ob else next)) in
     if_there kde_saver (if_there cinnamon_saver (if_there mate_saver (if_there gnome_saver (if_there freedesktop_saver (throw DBusError))))))"

definition ScreenSaver_ctor :: "('w, 'x) session_api_scheme \<Rightarrow> bool \<Rightarrow> (exn, unit, 'w \<times> dbus_object option) prog" where
  "ScreenSaver_ctor api qApp = andthen (check qApp LogicError) (andthen (env (\<lambda>w. check (db_connected api SessionBus w) DBusError w))
     (bind (env (choose_saver api)) (\<lambda>ob. andthen (env (bind (call (db_isValid api ob)) (\<lambda>valid. check valid DBusError)))
       (andthen (env (connect_to api ob ''ActiveChanged'')) (modify (\<lambda>_. Some ob))))))"

definition ScreenSaver_Uninit :: "('w, 'x) session_api_scheme \<Rightarrow> (exn, unit, 'w \<times> dbus_object option) prog" where
  "ScreenSaver_Uninit api = bind (this id) (\<lambda>i. case i of None \<Rightarrow> ret ()
     | Some ob \<Rightarrow> andthen (env (\<lambda>w. if db_connected api SessionBus w then disconnect_from api ob ''ActiveChanged'' w else ret () w)) (modify (\<lambda>_. None)))"

definition ScreenSaver_dtor :: "('w, 'x) dbus_scheme \<Rightarrow> (exn, unit, 'w \<times> dbus_object option) prog" where
  "ScreenSaver_dtor api = bind (this id) (\<lambda>i. cpp_assert (db_ndebug api) (i = None))"

definition ScreenSaver_Lock :: "('w, 'x) dbus_scheme \<Rightarrow> dbus_object \<Rightarrow> (bool, 'w) fprog" where
  "ScreenSaver_Lock api ob = call_ok api ob ''Lock'' (if ob_service ob \<noteq> ''org.cinnamon.ScreenSaver'' then [] else [VString []])"

definition ScreenSaver_SetActive :: "('w, 'x) dbus_scheme \<Rightarrow> dbus_object \<Rightarrow> bool \<Rightarrow> (bool, 'w) fprog" where
  "ScreenSaver_SetActive api ob active = call_ok api ob ''SetActive'' [VBool active]"

definition ScreenSaver_IsActive :: "('w, 'x) dbus_scheme \<Rightarrow> dbus_object \<Rightarrow> (bool, 'w) fprog" where
  "ScreenSaver_IsActive api ob = bind (call (db_call api ob ''IsActive'' [])) (\<lambda>kReply.
     if kReply = ErrorMessage then throw DBusError else reply_value api ''b'' 1 (to_bool api) kReply)"

definition IsScreenSaverServiceRegistered :: "('w, 'x) dbus_scheme \<Rightarrow> (bool, 'w) fprog" where
  "IsScreenSaverServiceRegistered api = (\<lambda>w. if \<not> db_connected api SessionBus w then throw DBusError w else
     (let there = (\<lambda>ob. IsDBusServiceRegistered api (ob_service ob) SessionBus) in
      or_else (there kde_saver) (or_else (there cinnamon_saver) (or_else (there mate_saver) (or_else (there gnome_saver) (there freedesktop_saver))))) w)"

text \<open>The first one that is registered is chosen; there is one exactly when the static function says so.\<close>

abbreviation (input) "savers \<equiv> [kde_saver, cinnamon_saver, mate_saver, gnome_saver, freedesktop_saver]"

lemma saver_services: "ob \<in> set savers \<Longrightarrow> ob_service ob \<noteq> []"
  by (auto simp: session_object_def)

context session_bus begin

lemma if_saver:
  assumes "ob_service ob \<noteq> []" "\<And>w. \<exists>w'. q w = Some (case r of None \<Rightarrow> Exc DBusError w' | Some x \<Rightarrow> Ret x w') \<and> log w' = log w"
  shows "\<exists>w'. bind (IsDBusServiceRegistered api (ob_service ob) SessionBus) (\<lambda>b. if b then ret ob else q) w
    = Some (case (if ob_service ob \<in> regs then Some ob else r) of None \<Rightarrow> Exc DBusError w' | Some x \<Rightarrow> Ret x w') \<and> log w' = log w"
proof -
  obtain w1 where 1: "IsDBusServiceRegistered api (ob_service ob) SessionBus w = Some (Ret (ob_service ob \<in> regs) w1)" "log w1 = log w"
    using registered[OF assms(1)] by blast
  then show ?thesis using assms(2)[of w1] by auto
qed

lemma choose_saver_finds: "\<exists>w'. choose_saver api w = Some (case List.find (\<lambda>ob. ob_service ob \<in> regs) savers of None \<Rightarrow> Exc DBusError w' | Some ob \<Rightarrow> Ret ob w')
  \<and> log w' = log w"
  unfolding choose_saver_def Let_def List.find.simps by (intro if_saver) (auto simp: session_object_def)

end

section \<open>Connections in memory\<close>

definition sample_signals :: "(dbus_object \<times> string) set \<Rightarrow> ((dbus_object \<times> string) set) session_api" where
  "sample_signals refused = \<lparr>db_ndebug = False, db_objectPathType = 1024, db_variantType = 1025, db_connected = (\<lambda>c w. True), db_interface = (\<lambda>c w. True),
     db_isServiceRegistered = (\<lambda>c n w. (Some True, w)), db_isValid = (\<lambda>ob w. (True, w)),
     db_toUInt = (\<lambda>v. 0), db_toULongLong = (\<lambda>v. 0), db_toBool = (\<lambda>v. False), db_toString = (\<lambda>v. []),
     db_call = (\<lambda>ob m args w. (ReplyMessage [VVariant (VString ''c2'')], w)),
     se_connect = (\<lambda>ob s w. if (ob, s) \<in> refused then (False, w) else (True, insert (ob, s) w)), se_disconnect = (\<lambda>ob s w. (True, w - {(ob, s)})),
     se_now = (\<lambda>w. 0), se_fromISODate = (\<lambda>t. None), x_display = (\<lambda>w. False), x_queryExtension = (\<lambda>w. (False, w)), x_allocInfo = (\<lambda>w. (False, w)),
     x_queryInfo = (\<lambda>w. (None, w)), x_freeInfo = (\<lambda>b w. ((), w))\<rparr>"

interpretation sample_signals: signal_bus "sample_signals refused" id for refused
  by unfold_locales (auto simp: sample_signals_def split: if_splits)

end
