(* ===== verification/PowerNotifiers.thy ===== *)
theory PowerNotifiers
imports Sessions
begin

text \<open>
  \<open>PowerNotifier\<close> (\<open>src/gui/power_notifier_lnx.cpp\<close>) on logind (\<open>logind_power_notifier_lnx.cpp\<close>) or UPower
  (\<open>upower_notifier_lnx.cpp\<close>), over the bus of \<open>Sessions\<close>.  The object is the implementation it has, \<open>None\<close> before construction and after
  \<open>Uninit\<close>; an implementation is its kind.
\<close>

datatype power_impl = LogindPowerNotifier | UPowerNotifier

datatype power_event = Sleeping | Resuming

definition upower :: dbus_object where
  "upower = \<lparr>ob_bus = SystemBus, ob_service = ''org.freedesktop.UPower'', ob_path = ''/org/freedesktop/UPower'', ob_interface = ''org.freedesktop.UPower''\<rparr>"

section \<open>The implementations\<close>

definition LogindPowerNotifier_ctor :: "('w, 'x) session_api_scheme \<Rightarrow> (unit, 'w) fprog" where
  "LogindPowerNotifier_ctor api = andthen (bus_there api) (connect_to api logind_manager ''PrepareForSleep'')"

definition LogindPowerNotifier_dtor :: "('w, 'x) session_api_scheme \<Rightarrow> (unit, 'w) fprog" where
  "LogindPowerNotifier_dtor api = (\<lambda>w. if db_connected api SystemBus w then disconnect_from api logind_manager ''PrepareForSleep'' w else ret () w)"

definition OnPrepareForSleep :: "bool \<Rightarrow> power_event" where
  "OnPrepareForSleep start = (if start then Sleeping else Resuming)"

definition UPowerNotifier_ctor :: "('w, 'x) session_api_scheme \<Rightarrow> (unit, 'w) fprog" where
  "UPowerNotifier_ctor api = andthen (bus_there api) (andthen (connect_to api upower ''Sleeping'')
     (bind (call (se_connect api upower ''Resuming'')) (\<lambda>ok. if \<not> ok then andthen (disconnect_from api upower ''Sleeping'') (throw DBusError) else ret ())))"

definition UPowerNotifier_dtor :: "('w, 'x) session_api_scheme \<Rightarrow> (unit, 'w) fprog" where
  "UPowerNotifier_dtor api = (\<lambda>w. if db_connected api SystemBus w
     then andthen (disconnect_from api upower ''Resuming'') (disconnect_from api upower ''Sleeping'') w else ret () w)"

definition IsUPowerServiceRegistered :: "('w, 'x) dbus_scheme \<Rightarrow> (bool, 'w) fprog" where
  "IsUPowerServiceRegistered api = system_service_registered api ''org.freedesktop.UPower''"

definition Power_IsLogindServiceRegistered :: "('w, 'x) dbus_scheme \<Rightarrow> (bool, 'w) fprog" where
  "Power_IsLogindServiceRegistered api = system_service_registered api LOGIND_SERVICE_NAME"

section \<open>\<open>PowerNotifier\<close>\<close>

definition IsPowerNotifierServiceRegistered :: "('w, 'x) dbus_scheme \<Rightarrow> (bool, 'w) fprog" where
  "IsPowerNotifierServiceRegistered api = or_else (Power_IsLogindServiceRegistered api) (IsUPowerServiceRegistered api)"

definition PowerNotifier_ctor :: "('w, 'x) session_api_scheme \<Rightarrow> bool \<Rightarrow> (power_impl, 'w) fprog" where
  "PowerNotifier_ctor api qApp = andthen (check qApp LogicError) (bind (Power_IsLogindServiceRegistered api) (\<lambda>l.
     if l then andthen (LogindPowerNotifier_ctor api) (ret LogindPowerNotifier)
     else bind (IsUPowerServiceRegistered api) (\<lambda>u. if u then andthen (UPowerNotifier_ctor api) (ret UPowerNotifier) else throw DBusError)))"

definition power_dtor :: "('w, 'x) session_api_scheme \<Rightarrow> power_impl \<Rightarrow> (unit, 'w) fprog" where
  "power_dtor api i = (case i of LogindPowerNotifier \<Rightarrow> LogindPowerNotifier_dtor api | UPowerNotifier \<Rightarrow> UPowerNotifier_dtor api)"

definition PowerNotifier_Uninit :: "('w, 'x) session_api_scheme \<Rightarrow> (exn, unit, 'w \<times> power_impl option) prog" where
  "PowerNotifier_Uninit api = bind (this id) (\<lambda>i. case i of None \<Rightarrow> ret () | Some i \<Rightarrow> andthen (modify (\<lambda>_. None)) (env (power_dtor api i)))"

definition PowerNotifier_dtor :: "('w, 'x) dbus_scheme \<Rightarrow> (exn, unit, 'w \<times> power_impl option) prog" where
  "PowerNotifier_dtor api = bind (this id) (\<lambda>i. cpp_assert (db_ndebug api) (i = None))"

section \<open>Its connections\<close>

definition power_connections :: "power_impl \<Rightarrow> (dbus_object \<times> string) set" where
  "power_connections i = (case i of LogindPowerNotifier \<Rightarrow> {(logind_manager, ''PrepareForSleep'')} | UPowerNotifier \<Rightarrow> {(upower, ''Sleeping''), (upower, ''Resuming'')})"

context signal_bus begin

lemma upower_ctor: "adds (UPowerNotifier_ctor api) (power_connections UPowerNotifier)"
proof -
  have "andthen (connect_to api upower ''Sleeping'') (bind (call (se_connect api upower ''Resuming'')) (\<lambda>ok.
      if \<not> ok then andthen (disconnect_from api upower ''Sleeping'') (throw DBusError) else ret ()))
    = andthen (connect_to api upower ''Sleeping'') (undone (connect_to api upower ''Resuming'') (disconnect_from api upower ''Sleeping''))"
    by (auto simp: fun_eq_iff connect_to_def undone_def bind_def catch_def call_def check_def split: res.splits option.splits prod.splits)
  moreover have "adds \<dots> (power_connections UPowerNotifier)"
    unfolding power_connections_def power_impl.case by (intro adds_intros) simp
  ultimately show ?thesis unfolding UPowerNotifier_ctor_def by (intro adds_bind[OF adds_check_connected]) simp
qed

lemma logind_power_ctor: "adds (LogindPowerNotifier_ctor api) (power_connections LogindPowerNotifier)"
  unfolding LogindPowerNotifier_ctor_def power_connections_def power_impl.case by (intro adds_bind adds_check_connected adds_connect)

lemma power_dtor_removes: "\<exists>w'. power_dtor api i w = Some (Ret () w') \<and> connections w' = connections w - power_connections i"
proof (cases i)
  case LogindPowerNotifier
  then show ?thesis using disconnect[of logind_manager "''PrepareForSleep''" w] connected
    by (auto simp: power_dtor_def LogindPowerNotifier_dtor_def power_connections_def)
next
  case UPowerNotifier
  obtain w1 where 1: "disconnect_from api upower ''Resuming'' w = Some (Ret () w1)" "connections w1 = connections w - {(upower, ''Resuming'')}" using disconnect by blast
  obtain w2 where 2: "disconnect_from api upower ''Sleeping'' w1 = Some (Ret () w2)" "connections w2 = connections w1 - {(upower, ''Sleeping'')}" using disconnect by blast
  show ?thesis using UPowerNotifier 1 2 connected by (auto simp: power_dtor_def UPowerNotifier_dtor_def power_connections_def)
qed

lemma service_keeps: "adds (system_service_registered api n) {}"
proof -
  have eq: "system_service_registered api n = IsDBusServiceRegistered api n SystemBus"
    by (rule ext) (simp add: system_service_registered_def connected)
  have answer: "adds (case r of None \<Rightarrow> throw DBusError | Some b \<Rightarrow> ret b) {}" for r :: "bool option"
    by (cases r) (simp_all add: adds_basic)
  show ?thesis unfolding eq IsDBusServiceRegistered_def
    by (rule adds_bind[OF adds_basic(3) adds_bind[OF adds_reads adds_bind[OF adds_reads adds_bind[OF adds_call]]]]) (simp_all add: calls answer)
qed

text \<open>The constructor makes the connections of the implementation it chooses, or none when it throws.\<close>

lemma power_ctor:
  assumes "connections w \<inter> (power_connections LogindPowerNotifier \<union> power_connections UPowerNotifier) = {}"
  shows "(\<exists>i w'. PowerNotifier_ctor api qApp w = Some (Ret i w') \<and> connections w' = connections w \<union> power_connections i)
    \<or> (\<exists>e w'. PowerNotifier_ctor api qApp w = Some (Exc e w') \<and> connections w' = connections w) \<or> (\<exists>w'. PowerNotifier_ctor api qApp w = Some (Term w'))"
proof -
  have e: "connections v \<inter> {} = {}" for v by simp
  have built: "(\<exists>i' w'. andthen c (ret i) v = Some (Ret i' w') \<and> connections w' = connections v \<union> power_connections i')
    \<or> (\<exists>e w'. andthen c (ret i) v = Some (Exc e w') \<and> connections w' = connections v) \<or> (\<exists>w'. andthen c (ret i) v = Some (Term w'))"
    if "adds c (power_connections i)" "connections v \<inter> power_connections i = {}" for c :: "(unit, 'w) fprog" and i v
    by (cases rule: adds_cases[OF that]) auto
  show ?thesis
  proof (cases qApp)
    case True
    show ?thesis
    proof (cases rule: adds_cases[OF service_keeps[of LOGIND_SERVICE_NAME] e[of w]])
      case (1 l w1)
      show ?thesis
      proof (cases l)
        case True
        then show ?thesis using built[OF logind_power_ctor, of w1] 1 assms \<open>qApp\<close> by (auto simp: PowerNotifier_ctor_def Power_IsLogindServiceRegistered_def)
      next
        case False
        note l = 1 False
        show ?thesis
        proof (cases rule: adds_cases[OF service_keeps[of "''org.freedesktop.UPower''"] e[of w1]])
          case (1 u w2)
          have "connections w2 \<inter> power_connections UPowerNotifier = {}" using 1 l assms by auto
          from built[OF upower_ctor this] show ?thesis using 1 l \<open>qApp\<close>
            by (cases u) (auto simp: PowerNotifier_ctor_def Power_IsLogindServiceRegistered_def IsUPowerServiceRegistered_def)
        qed (use l \<open>qApp\<close> in \<open>auto simp: PowerNotifier_ctor_def Power_IsLogindServiceRegistered_def IsUPowerServiceRegistered_def\<close>)
      qed
    qed (use True in \<open>auto simp: PowerNotifier_ctor_def Power_IsLogindServiceRegistered_def\<close>)
  qed (simp add: PowerNotifier_ctor_def)
qed

lemma power_uninit: "\<exists>w'. PowerNotifier_Uninit api (w, Some i) = Some (Ret () (w', None)) \<and> connections w' = connections w - power_connections i"
  using power_dtor_removes[of i w] by (auto simp: PowerNotifier_Uninit_def)

end

text \<open>After \<open>Uninit\<close> nothing of a notifier is left on the bus, and its destructor passes the assertion.\<close>

theorem power_notifier_gives_back:
  assumes "signal_bus api connections" "connections w \<inter> (power_connections LogindPowerNotifier \<union> power_connections UPowerNotifier) = {}"
    and "PowerNotifier_ctor api qApp w = Some (Ret i w1)"
  shows "\<exists>w2. andthen (PowerNotifier_Uninit api) (PowerNotifier_dtor api) (w1, Some i) = Some (Ret () (w2, None)) \<and> connections w2 = connections w"
proof -
  have "connections w1 = connections w \<union> power_connections i" using signal_bus.power_ctor[OF assms(1,2), of qApp] assms(3) by auto
  moreover obtain w2 where "PowerNotifier_Uninit api (w1, Some i) = Some (Ret () (w2, None))" "connections w2 = connections w1 - power_connections i"
    using signal_bus.power_uninit[OF assms(1)] by blast
  moreover have "connections w \<inter> power_connections i = {}" using assms(2) by (cases i) auto
  ultimately show ?thesis by (intro exI[of _ w2]) (auto simp: PowerNotifier_dtor_def)
qed

end
