(* ===== verification/SemaphoreSteps.thy ===== *)
theory SemaphoreSteps
imports Main
begin

text \<open>
  The semaphore built on a mutex and a condition variable (\<open>src/base/semaphore.cpp\<close>), as an
  interleaving of any number of threads.

  Every thread is at a program point of \<open>Notify\<close>, \<open>Wait\<close>, \<open>TryWait\<close> or \<open>WaitFor\<close>; \<open>advance\<close> is the step from
  each point, one statement of the source, and \<open>sem_step\<close> interleaves the threads.  Waiting on the
  condition variable releases the mutex; a waiting thread is woken by \<open>NotifyOne\<close>, spuriously or by its
  timeout, and then takes the mutex again.  With interruption compiled in (\<open>ip\<close>) the interruption
  points of the source throw when the thread has a pending request, which other threads may make at any
  time, and the destructor of the \<open>UniqueLock\<close> gives up the mutex.  Locking does not fail.
\<close>

section \<open>Program points\<close>

datatype wait_kind = Plain | Timed

datatype pc =
    Idle
  | Notify_Lock | Notify_Inc | Notify_One | Notify_Unlock
  | Wait_Point1 wait_kind | WaitFor_Now | Wait_Lock wait_kind | Wait_Point2 wait_kind | Wait_Test wait_kind
  | Cv_Enter wait_kind | Cv_Waiting wait_kind | Cv_Woken wait_kind bool | Cv_Exit wait_kind bool
  | WaitFor_Timeout | Wait_Dec wait_kind | Wait_Point3 wait_kind | Wait_Unlock bool
  | Try_Lock | Try_Test
  | Unwind bool

text \<open>What a step means for the history of the semaphore.\<close>

datatype effect = Nothing | Posted | Acquired | Refused | Interrupted bool

text \<open>The points where a thread holds the mutex, the threads that have taken a token and not returned
  yet, and the points an operation starts from.\<close>

fun critical :: "pc \<Rightarrow> bool" where
  "critical Notify_Inc = True" | "critical Notify_One = True" | "critical Notify_Unlock = True"
| "critical (Wait_Point2 k) = True" | "critical (Wait_Test k) = True" | "critical (Cv_Enter k) = True"
| "critical (Cv_Exit k t) = True" | "critical WaitFor_Timeout = True" | "critical (Wait_Dec k) = True"
| "critical (Wait_Point3 k) = True" | "critical (Wait_Unlock b) = True" | "critical Try_Test = True"
| "critical (Unwind b) = True" | "critical _ = False"

fun has_token :: "pc \<Rightarrow> bool" where
  "has_token (Wait_Point3 k) = True" | "has_token (Wait_Unlock b) = b" | "has_token (Unwind b) = b" | "has_token _ = False"

text \<open>\<open>WaitFor_Now\<close> is \<open>WaitFor\<close> with a time that is not positive, which calls \<open>TryWait\<close>.\<close>

fun entry :: "pc \<Rightarrow> bool" where
  "entry Notify_Lock = True" | "entry (Wait_Point1 k) = True" | "entry WaitFor_Now = True" | "entry Try_Lock = True"
| "entry _ = False"

section \<open>Steps of one thread\<close>

text \<open>The state a step sees and changes: \<open>cnt_\<close>, whether \<open>mutex_\<close> is locked, the request of the thread.\<close>

type_synonym local_state = "nat \<times> bool \<times> bool"

definition lock_to :: "pc \<Rightarrow> local_state \<Rightarrow> (pc \<times> local_state \<times> effect) option" where
  "lock_to p s = (case s of (cnt, locked, req) \<Rightarrow> if locked then None else Some (p, (cnt, True, req), Nothing))"

definition point_to :: "bool \<Rightarrow> pc \<Rightarrow> (pc \<times> effect) \<Rightarrow> local_state \<Rightarrow> (pc \<times> local_state \<times> effect) option" where
  "point_to ip p thrown s = (case s of (cnt, locked, req) \<Rightarrow>
     if ip \<and> req then Some (fst thrown, (cnt, locked, False), snd thrown) else Some (p, s, Nothing))"

fun advance :: "bool \<Rightarrow> pc \<Rightarrow> local_state \<Rightarrow> (pc \<times> local_state \<times> effect) option" where
  "advance ip Notify_Lock s = lock_to Notify_Inc s"
| "advance ip Notify_Inc (cnt, locked, req) = Some (Notify_One, (cnt + 1, locked, req), Posted)"
| "advance ip Notify_Unlock (cnt, locked, req) = Some (Idle, (cnt, False, req), Nothing)"
| "advance ip (Wait_Point1 k) s = point_to ip (Wait_Lock k) (Idle, Interrupted False) s"
| "advance ip WaitFor_Now s = point_to ip Try_Lock (Idle, Interrupted False) s"
| "advance ip (Wait_Lock k) s = lock_to (Wait_Point2 k) s"
| "advance ip (Wait_Point2 k) s = point_to ip (Wait_Test k) (Unwind False, Nothing) s"
| "advance ip (Wait_Test k) (cnt, locked, req) =
     Some (if cnt = 0 then Cv_Enter k else Wait_Dec k, (cnt, locked, req), Nothing)"
| "advance ip (Cv_Enter k) (cnt, locked, req) =
     (if ip \<and> req then Some (Unwind False, (cnt, locked, False), Nothing)
      else Some (Cv_Waiting k, (cnt, False, req), Nothing))"
| "advance ip (Cv_Woken k timeout) s = lock_to (Cv_Exit k timeout) s"
| "advance ip (Cv_Exit k timeout) s =
     point_to ip (if k = Timed \<and> timeout then WaitFor_Timeout else Wait_Test k) (Unwind False, Nothing) s"
| "advance ip WaitFor_Timeout (cnt, locked, req) =
     Some (if cnt = 0 then Wait_Unlock False else Wait_Dec Timed, (cnt, locked, req), Nothing)"
| "advance ip (Wait_Dec k) (cnt, locked, req) = Some (Wait_Point3 k, (cnt - 1, locked, req), Nothing)"
| "advance ip (Wait_Point3 k) s = point_to ip (Wait_Unlock True) (Unwind True, Nothing) s"
| "advance ip (Wait_Unlock b) (cnt, locked, req) = Some (Idle, (cnt, False, req), if b then Acquired else Refused)"
| "advance ip Try_Lock s = lock_to Try_Test s"
| "advance ip Try_Test (cnt, locked, req) =
     Some (Wait_Unlock (cnt > 0), (cnt - (if cnt > 0 then 1 else 0), locked, req), Nothing)"
| "advance ip (Unwind token) (cnt, locked, req) = Some (Idle, (cnt, False, req), Interrupted token)"
| "advance ip _ s = None"

section \<open>The system\<close>

record sem_state =
  cnt :: nat
  locked :: bool
  threads :: "(pc \<times> bool) list"
  posted :: nat
  acquired :: nat
  lost :: nat

definition sem_init :: "nat \<Rightarrow> nat \<Rightarrow> sem_state" where
  "sem_init n c = \<lparr>cnt = c, locked = False, threads = replicate n (Idle, False), posted = 0, acquired = 0, lost = 0\<rparr>"

definition record_effect :: "effect \<Rightarrow> sem_state \<Rightarrow> sem_state" where
  "record_effect ev s = (case ev of
      Posted \<Rightarrow> s\<lparr>posted := posted s + 1\<rparr> | Acquired \<Rightarrow> s\<lparr>acquired := acquired s + 1\<rparr>
    | Interrupted token \<Rightarrow> s\<lparr>lost := lost s + (if token then 1 else 0)\<rparr> | _ \<Rightarrow> s)"

definition set_thread :: "nat \<Rightarrow> pc \<times> bool \<Rightarrow> sem_state \<Rightarrow> sem_state" where
  "set_thread i p s = s\<lparr>threads := (threads s)[i := p]\<rparr>"

inductive sem_step :: "bool \<Rightarrow> sem_state \<Rightarrow> sem_state \<Rightarrow> bool" for ip :: bool where
  start: "i < length (threads s) \<Longrightarrow> threads s ! i = (Idle, req) \<Longrightarrow> entry p \<Longrightarrow> sem_step ip s (set_thread i (p, req) s)"
| own: "i < length (threads s) \<Longrightarrow> threads s ! i = (p, req) \<Longrightarrow>
    advance ip p (cnt s, locked s, req) = Some (p', (cnt', locked', req'), ev) \<Longrightarrow>
    sem_step ip s (record_effect ev (set_thread i (p', req') (s\<lparr>cnt := cnt', locked := locked'\<rparr>)))"
| notify_one: "i < length (threads s) \<Longrightarrow> j < length (threads s) \<Longrightarrow> threads s ! i = (Notify_One, req) \<Longrightarrow>
    threads s ! j = (Cv_Waiting k, req') \<Longrightarrow>
    sem_step ip s (set_thread j (Cv_Woken k False, req') (set_thread i (Notify_Unlock, req) s))"
| notify_none: "i < length (threads s) \<Longrightarrow> threads s ! i = (Notify_One, req) \<Longrightarrow>
    \<forall>(p, r) \<in> set (threads s). \<forall>k. p \<noteq> Cv_Waiting k \<Longrightarrow>
    sem_step ip s (set_thread i (Notify_Unlock, req) s)"
| wake: "i < length (threads s) \<Longrightarrow> threads s ! i = (Cv_Waiting k, req) \<Longrightarrow>
    sem_step ip s (set_thread i (Cv_Woken k timeout, req) s)"
| request: "i < length (threads s) \<Longrightarrow> threads s ! i = (p, req) \<Longrightarrow> sem_step ip s (set_thread i (p, True) s)"

inductive sem_reach :: "bool \<Rightarrow> nat \<Rightarrow> nat \<Rightarrow> sem_state \<Rightarrow> bool" for ip n c where
  init: "sem_reach ip n c (sem_init n c)"
| step: "sem_reach ip n c s \<Longrightarrow> sem_step ip s s' \<Longrightarrow> sem_reach ip n c s'"

section \<open>Counting threads\<close>

definition at_points :: "(pc \<Rightarrow> bool) \<Rightarrow> sem_state \<Rightarrow> nat" where
  "at_points P s = length (filter (P \<circ> fst) (threads s))"

lemma length_filter_update:
  "i < length xs \<Longrightarrow> length (filter P (xs[i := y])) + (if P (xs ! i) then 1 else 0) = length (filter P xs) + (if P y then 1 else 0)"
proof (induction xs arbitrary: i)
  case (Cons x xs)
  then show ?case by (cases i) auto
qed simp

lemma at_points_set_thread:
  "i < length (threads s) \<Longrightarrow> at_points P (set_thread i q s) + (if P (fst (threads s ! i)) then 1 else 0)
     = at_points P s + (if P (fst q) then 1 else 0)"
  using length_filter_update[of i "threads s" "P \<circ> fst" q] by (simp add: at_points_def set_thread_def)

lemma set_thread_simps [simp]:
  "cnt (set_thread i q s) = cnt s" "locked (set_thread i q s) = locked s" "posted (set_thread i q s) = posted s"
  "acquired (set_thread i q s) = acquired s" "lost (set_thread i q s) = lost s"
  "threads (set_thread i q s) = (threads s)[i := q]"
  by (simp_all add: set_thread_def)

lemma record_effect_simps [simp]:
  "cnt (record_effect ev s) = cnt s" "locked (record_effect ev s) = locked s" "threads (record_effect ev s) = threads s"
  "at_points P (record_effect ev s) = at_points P s"
  by (cases ev; simp add: record_effect_def at_points_def)+

lemma at_points_fields [simp]: "at_points P (s\<lparr>cnt := a, locked := b\<rparr>) = at_points P s"
  by (simp add: at_points_def)

lemma at_points_pos: "i < length (threads s) \<Longrightarrow> P (fst (threads s ! i)) \<Longrightarrow> 0 < at_points P s"
  using nth_mem by (force simp: at_points_def filter_empty_conv)

lemma at_points_one:
  "at_points P s \<le> 1 \<Longrightarrow> i < length (threads s) \<Longrightarrow> j < length (threads s) \<Longrightarrow> P (fst (threads s ! i)) \<Longrightarrow>
     P (fst (threads s ! j)) \<Longrightarrow> i = j"
proof (rule ccontr)
  assume le: "at_points P s \<le> 1" and ij: "i < length (threads s)" "j < length (threads s)"
    and P: "P (fst (threads s ! i))" "P (fst (threads s ! j))" and ne: "i \<noteq> j"
  have "card {k. k < length (threads s) \<and> (P \<circ> fst) (threads s ! k)} = at_points P s"
    by (simp add: at_points_def length_filter_conv_card)
  moreover have "card {i, j} \<le> card {k. k < length (threads s) \<and> (P \<circ> fst) (threads s ! k)}"
    by (rule card_mono) (use ij P in auto)
  ultimately show False using le ne by simp
qed

section \<open>The invariant\<close>

definition at_dec :: "pc \<Rightarrow> bool" where
  "at_dec p \<longleftrightarrow> (\<exists>k. p = Wait_Dec k)"

definition unwinding :: "pc \<Rightarrow> bool" where
  "unwinding p \<longleftrightarrow> (\<exists>b. p = Unwind b)"

definition sem_inv :: "bool \<Rightarrow> nat \<Rightarrow> sem_state \<Rightarrow> bool" where
  "sem_inv ip c s \<longleftrightarrow>
     at_points critical s = (if locked s then 1 else 0)
   \<and> cnt s + at_points has_token s + acquired s + lost s = c + posted s
   \<and> (0 < at_points at_dec s \<longrightarrow> 0 < cnt s)
   \<and> (\<not> ip \<longrightarrow> lost s = 0 \<and> at_points unwinding s = 0)"

text \<open>What one step of a thread does to each part of it.\<close>

lemmas advance_cases = lock_to_def point_to_def at_dec_def unwinding_def

lemma advance_lock:
  assumes "advance ip p (n, l, req) = Some (p', (n', l', req'), ev)"
  shows "critical p \<longrightarrow> l \<Longrightarrow> l' \<longleftrightarrow> critical p' \<or> \<not> critical p \<and> l" and "\<not> critical p \<longrightarrow> critical p' \<longrightarrow> \<not> l"
    and "\<not> critical p \<longrightarrow> n' = n"
  subgoal using assms by (cases p) (auto simp: advance_cases split: if_splits)
  subgoal using assms by (cases p) (auto simp: advance_cases split: if_splits)
  subgoal using assms by (cases p) (auto simp: advance_cases split: if_splits)
  done

lemma advance_dec:
  assumes "advance ip p (n, l, req) = Some (p', (n', l', req'), ev)" "at_dec p'"
  shows "0 < n'"
  using assms by (cases p) (auto simp: advance_cases split: if_splits)

lemma advance_uninterrupted:
  assumes "advance False p (n, l, req) = Some (p', (n', l', req'), ev)" "\<not> unwinding p"
  shows "ev \<noteq> Interrupted True \<and> \<not> unwinding p'"
  using assms by (cases p) (auto simp: advance_cases split: if_splits)

lemma advance_tokens:
  assumes "advance ip p (n, l, req) = Some (p', (n', l', req'), ev)" "at_dec p \<Longrightarrow> 0 < n"
  shows "n' + (if has_token p' then 1 else 0) + (if ev = Acquired then 1 else 0) + (if ev = Interrupted True then 1 else 0)
      = n + (if has_token p then 1 else 0) + (if ev = Posted then 1 else 0)"
  using assms by (cases p) (auto simp: advance_cases split: if_splits)

text \<open>Moves that keep a thread in its class.\<close>

definition same_class :: "pc \<Rightarrow> pc \<Rightarrow> bool" where
  "same_class p q \<longleftrightarrow> critical p = critical q \<and> has_token p = has_token q \<and> at_dec p = at_dec q \<and> unwinding p = unwinding q"

lemma at_points_move:
  "i < length (threads s) \<Longrightarrow> threads s ! i = (p, r) \<Longrightarrow> P p = P q \<Longrightarrow> at_points P (set_thread i (q, r') s) = at_points P s"
  using at_points_set_thread[of i s P "(q, r')"] by (cases "P q") simp_all

lemma sem_inv_move:
  "sem_inv ip c s \<Longrightarrow> i < length (threads s) \<Longrightarrow> threads s ! i = (p, r) \<Longrightarrow> same_class p q \<Longrightarrow> sem_inv ip c (set_thread i (q, r') s)"
  by (simp add: sem_inv_def same_class_def at_points_move)

lemma critical_le: "sem_inv ip c s \<Longrightarrow> at_points critical s \<le> 1"
  by (simp add: sem_inv_def)

lemma holder_locked: "sem_inv ip c s \<Longrightarrow> i < length (threads s) \<Longrightarrow> critical (fst (threads s ! i)) \<Longrightarrow> locked s"
  using at_points_pos[of i s critical] by (simp add: sem_inv_def split: if_splits)

lemma at_dec_critical: "at_dec p \<Longrightarrow> critical p"
  by (auto simp: at_dec_def)

lemma at_points_posE:
  assumes "0 < at_points P s"
  obtains i where "i < length (threads s)" "P (fst (threads s ! i))"
  using assms by (auto simp: at_points_def in_set_conv_nth filter_empty_conv)

lemma sem_inv_own:
  assumes inv: "sem_inv ip c s" and i: "i < length (threads s)" "threads s ! i = (p, req)"
    and a: "advance ip p (cnt s, locked s, req) = Some (p', (cnt', locked', req'), ev)"
  shows "sem_inv ip c (record_effect ev (set_thread i (p', req') (s\<lparr>cnt := cnt', locked := locked'\<rparr>)))" (is "sem_inv ip c ?s'")
proof -
  let ?s = "s\<lparr>cnt := cnt', locked := locked'\<rparr>"
  have moved: "at_points P ?s' + (if P p then 1 else 0) = at_points P s + (if P p' then 1 else 0)" for P
    using at_points_set_thread[of i ?s P "(p', req')"] i by simp
  have hold: "critical p \<longrightarrow> locked s"
    using holder_locked[OF inv i(1)] i(2) by simp
  have dec: "at_dec p \<Longrightarrow> 0 < cnt s"
    using inv at_points_pos[of i s at_dec] i by (simp add: sem_inv_def)
  have lock: "locked' \<longleftrightarrow> critical p' \<or> \<not> critical p \<and> locked s" "\<not> critical p \<longrightarrow> critical p' \<longrightarrow> \<not> locked s"
      "\<not> critical p \<longrightarrow> cnt' = cnt s"
    using advance_lock[OF a] hold by auto
  have "at_points critical ?s' = (if locked' then 1 else 0)"
    using moved[of critical] lock(1,2) hold inv by (auto simp: sem_inv_def split: if_splits)
  moreover have "cnt' + at_points has_token ?s' + acquired ?s' + lost ?s' = c + posted ?s'"
  proof -
    have "acquired ?s' = acquired s + (if ev = Acquired then 1 else 0)"
      "lost ?s' = lost s + (if ev = Interrupted True then 1 else 0)" "posted ?s' = posted s + (if ev = Posted then 1 else 0)"
      by (cases ev; simp add: record_effect_def)+
    then show ?thesis
      using moved[of has_token] advance_tokens[OF a dec] inv by (simp add: sem_inv_def split: if_splits)
  qed
  moreover have "0 < cnt'" if some: "0 < at_points at_dec ?s'"
  proof (cases "at_dec p'")
    case True then show ?thesis using advance_dec[OF a] by simp
  next
    case False
    obtain j where j: "j < length (threads s)" "at_dec (fst (threads ?s' ! j))"
      using some by (rule at_points_posE) simp
    then have ji: "j \<noteq> i" "at_dec (fst (threads s ! j))" using False i(1) by (auto simp: nth_list_update split: if_splits)
    then have "\<not> critical p"
      using at_points_one[OF critical_le[OF inv] i(1) j(1)] at_dec_critical[OF ji(2)] i(2) by auto
    then have "cnt' = cnt s" using lock(3) by simp
    then show ?thesis
      using inv at_points_pos[of j s at_dec] j(1) ji(2) by (simp add: sem_inv_def)
  qed
  moreover have "lost ?s' = 0 \<and> at_points unwinding ?s' = 0" if "\<not> ip"
  proof -
    have u: "\<not> unwinding p" using inv that at_points_pos[of i s unwinding] i by (auto simp: sem_inv_def)
    then have "ev \<noteq> Interrupted True \<and> \<not> unwinding p'" using advance_uninterrupted[of p] a that by simp
    then show ?thesis
      using moved[of unwinding] u inv that by (cases ev) (auto simp: sem_inv_def record_effect_def split: if_splits)
  qed
  ultimately show ?thesis by (simp add: sem_inv_def)
qed

lemma same_class_points [simp]:
  "entry p \<Longrightarrow> same_class Idle p" "same_class Notify_One Notify_Unlock"
  "same_class (Cv_Waiting k) (Cv_Woken k t)" "same_class p p"
  by (cases p; simp add: same_class_def at_dec_def unwinding_def)+

lemma sem_inv_step: "sem_step ip s s' \<Longrightarrow> sem_inv ip c s \<Longrightarrow> sem_inv ip c s'"
proof (induction rule: sem_step.induct)
  case (notify_one i s j req k req')
  then have "sem_inv ip c (set_thread i (Notify_Unlock, req) s)" by (simp add: sem_inv_move)
  moreover have "i \<noteq> j" using notify_one by auto
  ultimately show ?case
    using notify_one by (intro sem_inv_move[of _ _ _ j "Cv_Waiting k" req']) simp_all
qed (auto intro: sem_inv_move sem_inv_own)

lemma sem_inv_init: "sem_inv ip c (sem_init n c)"
  by (simp add: sem_inv_def sem_init_def at_points_def at_dec_def unwinding_def)

lemma sem_reach_inv: "sem_reach ip n c s \<Longrightarrow> sem_inv ip c s"
  by (induction rule: sem_reach.induct) (auto intro: sem_inv_init sem_inv_step)

section \<open>Wake-ups\<close>

text \<open>Threads asleep, threads that will look at the counter or notify before they sleep or return, and
  threads that have just seen the counter empty.\<close>

fun asleep :: "pc \<Rightarrow> bool" where
  "asleep (Cv_Waiting k) = True" | "asleep _ = False"

fun looking :: "pc \<Rightarrow> bool" where
  "looking Notify_One = True" | "looking (Cv_Woken k t) = True" | "looking (Cv_Exit k t) = True"
| "looking WaitFor_Timeout = True" | "looking (Wait_Test k) = True" | "looking (Wait_Dec k) = True" | "looking _ = False"

fun seen_empty :: "pc \<Rightarrow> bool" where
  "seen_empty (Cv_Enter k) = True" | "seen_empty _ = False"

definition wake_inv :: "sem_state \<Rightarrow> bool" where
  "wake_inv s \<longleftrightarrow> (0 < at_points asleep s \<longrightarrow> cnt s \<le> at_points looking s) \<and> (0 < at_points seen_empty s \<longrightarrow> cnt s = 0)"

lemma advance_wake:
  assumes "advance False p (n, l, req) = Some (p', (n', l', req'), ev)" "at_dec p \<longrightarrow> 0 < n" "seen_empty p \<longrightarrow> n = 0"
  shows "n' = 0 \<or> (asleep p' \<longrightarrow> asleep p) \<and> n' + (if looking p then 1 else 0) \<le> n + (if looking p' then 1 else 0)"
    and "seen_empty p' \<longrightarrow> n' = 0"
  subgoal using assms by (cases p) (auto simp: advance_cases split: if_splits)
  subgoal using assms by (cases p) (auto simp: advance_cases split: if_splits)
  done

lemma seen_empty_critical: "seen_empty p \<Longrightarrow> critical p"
  by (cases p) simp_all

lemma wake_inv_own:
  assumes inv: "sem_inv False c s" "wake_inv s" and i: "i < length (threads s)" "threads s ! i = (p, req)"
    and a: "advance False p (cnt s, locked s, req) = Some (p', (cnt', locked', req'), ev)"
  shows "wake_inv (record_effect ev (set_thread i (p', req') (s\<lparr>cnt := cnt', locked := locked'\<rparr>)))" (is "wake_inv ?s'")
proof -
  let ?s = "s\<lparr>cnt := cnt', locked := locked'\<rparr>"
  have moved: "at_points P ?s' + (if P p then 1 else 0) = at_points P s + (if P p' then 1 else 0)" for P
    using at_points_set_thread[of i ?s P "(p', req')"] i by simp
  have dec: "at_dec p \<longrightarrow> 0 < cnt s"
    using inv(1) at_points_pos[of i s at_dec] i by (simp add: sem_inv_def)
  have empty: "seen_empty p \<longrightarrow> cnt s = 0"
    using inv(2) at_points_pos[of i s seen_empty] i by (simp add: wake_inv_def)
  note w = advance_wake[OF a dec empty]
  have "cnt' \<le> at_points looking ?s'" if "0 < at_points asleep ?s'"
    using w(1) moved[of asleep] moved[of looking] that inv(2) by (auto simp: wake_inv_def split: if_splits)
  moreover have "cnt' = 0" if some: "0 < at_points seen_empty ?s'"
  proof (cases "seen_empty p'")
    case True then show ?thesis using w(2) by simp
  next
    case False
    obtain j where j: "j < length (threads s)" "seen_empty (fst (threads ?s' ! j))"
      using some by (rule at_points_posE) simp
    then have ji: "j \<noteq> i" "seen_empty (fst (threads s ! j))" using False i(1) by (auto simp: nth_list_update split: if_splits)
    then have "\<not> critical p"
      using at_points_one[OF critical_le[OF inv(1)] i(1) j(1)] seen_empty_critical[OF ji(2)] i(2) by auto
    then have "cnt' = cnt s" using advance_lock(3)[OF a] by simp
    then show ?thesis
      using inv(2) at_points_pos[of j s seen_empty] j(1) ji(2) by (simp add: wake_inv_def)
  qed
  ultimately show ?thesis by (simp add: wake_inv_def)
qed

lemma no_sleeper:
  assumes "\<forall>(p, r) \<in> set (threads s). \<forall>k. p \<noteq> Cv_Waiting k"
  shows "at_points asleep s = 0"
proof (rule ccontr)
  assume "at_points asleep s \<noteq> 0"
  then obtain i where "i < length (threads s)" "asleep (fst (threads s ! i))" using at_points_posE[of asleep s] by blast
  then show False using assms nth_mem[of i "threads s"] by (cases "threads s ! i"; cases "fst (threads s ! i)") force+
qed

lemma at_points_change:
  "i < length (threads s) \<Longrightarrow> threads s ! i = (p, r) \<Longrightarrow>
     at_points P (set_thread i (q, r') s) + (if P p then 1 else 0) = at_points P s + (if P q then 1 else 0)"
  using at_points_set_thread[of i s P "(q, r')"] by simp

lemma entry_quiet: "entry p \<Longrightarrow> \<not> asleep p \<and> \<not> looking p \<and> \<not> seen_empty p"
  by (cases p) simp_all

lemma wake_inv_step: "sem_step False s s' \<Longrightarrow> sem_inv False c s \<Longrightarrow> wake_inv s \<Longrightarrow> wake_inv s'"
proof (induction rule: sem_step.induct)
  case (start i s req p)
  then show ?case
    using entry_quiet[of p] at_points_move[OF start(1,2), of asleep p req] at_points_move[OF start(1,2), of looking p req]
      at_points_move[OF start(1,2), of seen_empty p req] by (simp add: wake_inv_def)
next
  case (notify_one i s j req k req')
  have ij: "i \<noteq> j" using notify_one by auto
  let ?t = "set_thread i (Notify_Unlock, req) s"
  have "at_points P (set_thread j (Cv_Woken k False, req') ?t) + (if P (Cv_Waiting k) then 1 else 0)
      = at_points P ?t + (if P (Cv_Woken k False) then 1 else 0)" for P
    using ij notify_one by (intro at_points_change) simp_all
  from this[of asleep] this[of looking] this[of seen_empty]
    at_points_change[OF notify_one(1,3), of asleep Notify_Unlock req] at_points_change[OF notify_one(1,3), of looking Notify_Unlock req]
    at_points_change[OF notify_one(1,3), of seen_empty Notify_Unlock req]
  show ?case using notify_one.prems by (auto simp: wake_inv_def)
next
  case (notify_none i s req)
  then show ?case
    using no_sleeper[OF notify_none(3)] at_points_change[OF notify_none(1,2), of asleep Notify_Unlock req]
      at_points_change[OF notify_none(1,2), of seen_empty Notify_Unlock req] by (simp add: wake_inv_def)
next
  case (wake i s k req timeout)
  then show ?case
    using at_points_change[OF wake(1,2), of asleep "Cv_Woken k timeout" req] at_points_change[OF wake(1,2), of looking "Cv_Woken k timeout" req]
      at_points_change[OF wake(1,2), of seen_empty "Cv_Woken k timeout" req] by (auto simp: wake_inv_def)
next
  case (request i s p req)
  then show ?case
    using at_points_change[OF request(1,2), of _ p True] by (simp add: wake_inv_def)
qed (auto intro: wake_inv_own)

lemma sem_reach_wake: "sem_reach False n c s \<Longrightarrow> wake_inv s"
proof (induction rule: sem_reach.induct)
  case init
  then show ?case by (simp add: wake_inv_def sem_init_def at_points_def)
qed (auto intro: wake_inv_step sem_reach_inv)

section \<open>Progress\<close>

definition runnable :: "bool \<Rightarrow> sem_state \<Rightarrow> nat \<Rightarrow> bool" where
  "runnable ip s i \<longleftrightarrow> i < length (threads s) \<and> (case threads s ! i of (p, req) \<Rightarrow>
     p = Notify_One \<or> advance ip p (cnt s, locked s, req) \<noteq> None)"

lemma advance_enabled:
  "p \<noteq> Idle \<Longrightarrow> \<not> asleep p \<Longrightarrow> p \<noteq> Notify_One \<Longrightarrow> l \<longrightarrow> critical p \<Longrightarrow> advance ip p (n, l, req) \<noteq> None"
  by (cases p) (auto simp: lock_to_def point_to_def)

lemma some_runnable:
  assumes inv: "sem_inv ip c s" and i: "i < length (threads s)" "threads s ! i = (p, req)" "p \<noteq> Idle" "\<not> asleep p"
  shows "\<exists>j. runnable ip s j"
proof (cases "locked s")
  case True
  then have "0 < at_points critical s" using inv by (simp add: sem_inv_def)
  then obtain j where j: "j < length (threads s)" "critical (fst (threads s ! j))" by (rule at_points_posE)
  obtain q r where q: "threads s ! j = (q, r)" by (cases "threads s ! j")
  have "q \<noteq> Idle" "\<not> asleep q" using j(2) q by (cases q; simp)+
  then have "runnable ip s j"
    using j q advance_enabled[where p = q and l = "locked s" and ip = ip and n = "cnt s" and req = r]
    by (cases "q = Notify_One") (auto simp: runnable_def)
  then show ?thesis ..
next
  case False
  then have "runnable ip s i"
    using i advance_enabled[where p = p and l = "locked s" and ip = ip and n = "cnt s" and req = req]
    by (cases "p = Notify_One") (auto simp: runnable_def)
  then show ?thesis ..
qed

section \<open>Runs\<close>

text \<open>An executable run: threads start operations, step, and are asked to interrupt.\<close>

datatype action = Start nat pc | Own nat | Request nat

fun run_action :: "bool \<Rightarrow> action \<Rightarrow> sem_state \<Rightarrow> sem_state option" where
  "run_action ip (Start i p) s = (if i < length (threads s) \<and> fst (threads s ! i) = Idle \<and> entry p
     then Some (set_thread i (p, snd (threads s ! i)) s) else None)"
| "run_action ip (Own i) s = (if i < length (threads s) then
     (case advance ip (fst (threads s ! i)) (cnt s, locked s, snd (threads s ! i)) of None \<Rightarrow> None
      | Some (p', (cnt', locked', req'), ev) \<Rightarrow>
          Some (record_effect ev (set_thread i (p', req') (s\<lparr>cnt := cnt', locked := locked'\<rparr>)))) else None)"
| "run_action ip (Request i) s = (if i < length (threads s) then Some (set_thread i (fst (threads s ! i), True) s) else None)"

fun run_actions :: "bool \<Rightarrow> action list \<Rightarrow> sem_state \<Rightarrow> sem_state option" where
  "run_actions ip [] s = Some s"
| "run_actions ip (a # as) s = Option.bind (run_action ip a s) (run_actions ip as)"

lemma run_action_step: "run_action ip a s = Some s' \<Longrightarrow> sem_step ip s s'"
proof (cases a)
  case (Start i p)
  moreover assume "run_action ip a s = Some s'"
  ultimately show ?thesis by (cases "threads s ! i") (auto split: if_splits intro: sem_step.start)
next
  case (Own i)
  moreover assume "run_action ip a s = Some s'"
  ultimately show ?thesis by (cases "threads s ! i") (auto split: if_splits option.splits intro: sem_step.own)
next
  case (Request i)
  moreover assume "run_action ip a s = Some s'"
  ultimately show ?thesis by (cases "threads s ! i") (auto split: if_splits intro: sem_step.request)
qed

lemma run_actions_reach: "sem_reach ip n c s \<Longrightarrow> run_actions ip as s = Some s' \<Longrightarrow> sem_reach ip n c s'"
proof (induction as arbitrary: s)
  case (Cons a as)
  then obtain t where t: "run_action ip a s = Some t" "run_actions ip as t = Some s'"
    by (cases "run_action ip a s") auto
  from Cons.IH[OF sem_reach.step[OF Cons.prems(1) run_action_step[OF t(1)]] t(2)] show ?case .
qed simp

section \<open>Properties\<close>


definition sample_run :: "action list" where
  "sample_run = [Start 0 Notify_Lock, Start 1 (Wait_Point1 Plain), Own 0, Own 0, Own 1, Start 2 Try_Lock]"


text \<open>C8: without interruption no wake-up is lost.  When the counter is positive while a thread sleeps on the
  condition variable, another thread has been woken, or is about to look at the counter or to notify; and
  in every reachable state where some operation is neither finished nor asleep, some thread can step.\<close>

theorem semaphore_no_lost_wakeup:
  assumes "sem_reach False n c s"
  shows "(0 < at_points asleep s \<longrightarrow> cnt s \<le> at_points looking s)
    \<and> ((\<exists>i p req. i < length (threads s) \<and> threads s ! i = (p, req) \<and> p \<noteq> Idle \<and> \<not> asleep p) \<longrightarrow> (\<exists>j. runnable False s j))"
  using sem_reach_wake[OF assms] some_runnable[OF sem_reach_inv[OF assms]] by (auto simp: wake_inv_def)

theorem semaphore_no_lost_wakeup_witness:
  "\<exists>s. run_actions False sample_run (sem_init 3 1) = Some s \<and> (\<exists>j. runnable False s j)"
proof -
  define s where "s = the (run_actions False sample_run (sem_init 3 1))"
  have r: "run_actions False sample_run (sem_init 3 1) = Some s" "length (threads s) = 3" "threads s ! 0 = (Notify_One, False)"
    by (simp_all add: s_def sample_run_def sem_init_def set_thread_def record_effect_def lock_to_def point_to_def numeral_3_eq_3)
  have "sem_reach False 3 1 s" by (rule run_actions_reach[OF sem_reach.init r(1)])
  from semaphore_no_lost_wakeup[OF this] r show ?thesis
    by (metis asleep.simps(5) pc.distinct(5) zero_less_numeral)
qed

definition losing_run :: "action list" where
  "losing_run = [Start 0 (Wait_Point1 Plain), Own 0, Own 0, Own 0, Own 0, Own 0, Request 0, Own 0, Own 0]"

text \<open>An interruption can lose a token.  \<open>Wait\<close> has an interruption point after it has taken the token: a
  thread interrupted there throws, although the counter has been decremented, and nobody gets the token.
  The semaphore is left empty with no call running.\<close>

theorem interrupted_wait_loses_token:
  "\<exists>s. sem_reach True 1 1 s \<and> threads s = [(Idle, False)] \<and> cnt s = 0 \<and> acquired s = 0 \<and> lost s = 1 \<and> posted s = 0"
proof -
  define s where "s = the (run_actions True losing_run (sem_init 1 1))"
  have r: "run_actions True losing_run (sem_init 1 1) = Some s" "threads s = [(Idle, False)]" "cnt s = 0" "acquired s = 0"
    "lost s = 1" "posted s = 0"
    by (simp_all add: s_def losing_run_def sem_init_def set_thread_def record_effect_def lock_to_def point_to_def)
  have "sem_reach True 1 1 s" by (rule run_actions_reach[OF sem_reach.init r(1)])
  with r show ?thesis by blast
qed

end
