(* ===== verification/Semaphores.thy ===== *)
theory Semaphores
imports Interruption
begin

text \<open>
  The semaphore on POSIX unnamed semaphores (\<open>src/base/semaphore_pthread.cpp\<close>, \<open>Semaphore::WaitUntil\<close> of
  \<open>include/cppdevtk/base/semaphore.hpp\<close>).  The functions of \<open>semaphore.h\<close> are parameters; they return \<open>-1\<close> and
  set \<open>errno\<close> when they fail.  \<open>balance\<close> counts the tokens this thread has posted minus those it has taken.
\<close>

record 'w sem_api = "'w clock_api" +
  sem_ndebug :: bool
  os_sem_init :: "nat \<Rightarrow> 'w \<Rightarrow> int \<times> 'w"
  os_sem_destroy :: "'w \<Rightarrow> int \<times> 'w"
  os_sem_post :: "'w \<Rightarrow> int \<times> 'w"
  os_sem_wait :: "'w \<Rightarrow> (int \<times> 'w) option"
  os_sem_trywait :: "'w \<Rightarrow> int \<times> 'w"
  os_sem_timedwait :: "timespec \<Rightarrow> 'w \<Rightarrow> (int \<times> 'w) option"

definition GetLastSystemErrorCode :: "('w, 'x) clock_api_scheme \<Rightarrow> 'w \<Rightarrow> ErrorCode" where
  "GetLastSystemErrorCode api w = mk_code (os_errno api w) SystemCategory"

text \<open>What follows a failed call: its error code is read and translated.\<close>

definition on_last_error :: "('w, 'x) sem_api_scheme \<Rightarrow> (ErrorCode \<Rightarrow> (exn, 'a, 'w) prog) \<Rightarrow> (exn, 'a, 'w) prog" where
  "on_last_error api k = (\<lambda>w. k (GetLastSystemErrorCode api w) w)"

abbreviation sem_assert :: "('w, 'x) sem_api_scheme \<Rightarrow> bool \<Rightarrow> (exn, unit, 'w) prog" where
  "sem_assert api b \<equiv> cpp_assert (sem_ndebug api) b"

section \<open>Operations\<close>

definition Semaphore_ctor :: "('w, 'x) sem_api_scheme \<Rightarrow> nat \<Rightarrow> (exn, unit, 'w) prog" where
  "Semaphore_ctor api cnt = bind (call (os_sem_init api cnt)) (\<lambda>kRetCode.
     if kRetCode \<noteq> ESUCCESS then on_last_error api (\<lambda>e.
       andthen (sem_assert api (ec_value e \<noteq> EINTR)) (andthen (sem_assert api (ec_value e \<noteq> EINVAL))
         (andthen (sem_assert api (ec_value e \<noteq> ENOSYS)) (throw (LockExc e)))))
     else ret ())"

definition Semaphore_dtor :: "('w, 'x) sem_api_scheme \<Rightarrow> (exn, unit, 'w) prog" where
  "Semaphore_dtor api = noexcept (bind (call (os_sem_destroy api)) (\<lambda>kRetCode.
     if kRetCode \<noteq> ESUCCESS then on_last_error api (\<lambda>e.
       andthen (sem_assert api (ec_value e \<noteq> EINTR)) (andthen (sem_assert api (ec_value e \<noteq> EINVAL))
         (andthen (sem_assert api (ec_value e \<noteq> ENOSYS)) (andthen (sem_assert api (ec_value e \<noteq> EBUSY)) (sem_assert api False)))))
     else ret ()))"

definition Notify :: "('w, 'x) sem_api_scheme \<Rightarrow> (exn, unit, 'w) prog" where
  "Notify api = bind (call (os_sem_post api)) (\<lambda>kRetCode.
     if kRetCode \<noteq> ESUCCESS then on_last_error api (\<lambda>e.
       andthen (sem_assert api (ec_value e \<noteq> EINTR)) (andthen (sem_assert api (ec_value e \<noteq> EINVAL))
         (andthen (sem_assert api (ec_value e \<noteq> ENOSYS)) (throw (LockExc e)))))
     else ret ())"

definition Semaphore_Wait :: "('w, 'x) sem_api_scheme \<Rightarrow> (exn, unit, 'w) prog" where
  "Semaphore_Wait api = bind (call_blocking (TEMP_FAILURE_RETRY (os_errno api) (os_sem_wait api))) (\<lambda>kRetCode.
     if kRetCode \<noteq> ESUCCESS then on_last_error api (\<lambda>e.
       if ec_value e = EDEADLK then throw Deadlock
       else andthen (sem_assert api (ec_value e \<noteq> EINVAL)) (andthen (sem_assert api (ec_value e \<noteq> ENOSYS)) (throw (LockExc e))))
     else ret ())"

definition TryWait :: "('w, 'x) sem_api_scheme \<Rightarrow> (exn, bool, 'w) prog" where
  "TryWait api = bind (call_blocking (TEMP_FAILURE_RETRY (os_errno api) (\<lambda>w. Some (os_sem_trywait api w)))) (\<lambda>kRetCode.
     if kRetCode = ESUCCESS then ret True
     else on_last_error api (\<lambda>e.
       if ec_value e = EAGAIN then ret False
       else if ec_value e = EDEADLK then throw Deadlock
       else andthen (sem_assert api (ec_value e \<noteq> EINVAL)) (andthen (sem_assert api (ec_value e \<noteq> ENOSYS)) (throw (LockExc e)))))"

definition Semaphore_WaitFor :: "('w, 'x) sem_api_scheme \<Rightarrow> int \<Rightarrow> (exn, bool, 'w) prog" where
  "Semaphore_WaitFor api relTime = (if relTime \<le> 0 then TryWait api
     else bind (RelTimeToAbsTime api relTime) (\<lambda>kAbsTime.
       bind (call_blocking (TEMP_FAILURE_RETRY (os_errno api) (os_sem_timedwait api kAbsTime))) (\<lambda>kRetCode.
         if kRetCode = ESUCCESS then ret True
         else on_last_error api (\<lambda>e.
           if ec_value e = ETIMEDOUT then ret False
           else if ec_value e = EDEADLK then throw Deadlock
           else andthen (sem_assert api (ec_value e \<noteq> EINVAL)) (throw (LockExc e))))))"

definition Semaphore_WaitUntil :: "('w, 'x) sem_api_scheme \<Rightarrow> int \<Rightarrow> (exn, bool, 'w) prog" where
  "Semaphore_WaitUntil api absTime = bind (GetCurrentTime api) (\<lambda>kCurrTime.
     let kSeconds = absTime - kCurrTime in
     if kSeconds \<le> 0 then TryWait api else Semaphore_WaitFor api (to_int (kSeconds * 1000)))"

section \<open>The contract\<close>

text \<open>What the documentation of \<open>semaphore.h\<close> says of valid semaphores: a call takes or posts one token, or fails
  with an error code and does neither.\<close>

definition failed :: "('w, 'x) sem_api_scheme \<Rightarrow> int set \<Rightarrow> int \<Rightarrow> 'w \<Rightarrow> bool" where
  "failed api excluded rc w \<longleftrightarrow> rc = - 1 \<and> os_errno api w \<notin> excluded"

locale semaphore_os =
  fixes api :: "('w, 'x) sem_api_scheme" and balance :: "'w \<Rightarrow> int"
  assumes post_law: "os_sem_post api w = (rc, w') \<Longrightarrow>
      rc = ESUCCESS \<and> balance w' = balance w + 1 \<or> failed api {EINTR, EINVAL, ENOSYS} rc w' \<and> balance w' = balance w"
    and wait_law: "os_sem_wait api w = Some (rc, w') \<Longrightarrow>
      rc = ESUCCESS \<and> balance w' = balance w - 1 \<or> failed api {EINVAL, ENOSYS} rc w' \<and> balance w' = balance w"
    and trywait_law: "os_sem_trywait api w = (rc, w') \<Longrightarrow>
      rc = ESUCCESS \<and> balance w' = balance w - 1 \<or> failed api {EINVAL, ENOSYS} rc w' \<and> balance w' = balance w"
    and timedwait_law: "os_sem_timedwait api t w = Some (rc, w') \<Longrightarrow> normalized t \<Longrightarrow>
      rc = ESUCCESS \<and> balance w' = balance w - 1 \<or> failed api {EINVAL} rc w' \<and> balance w' = balance w"
    and sem_time_law: "os_time api w = (n, w') \<Longrightarrow> balance w' = balance w"
    and sem_clock_law: "os_clock_gettime api w = ((rc, t), w') \<Longrightarrow> balance w' = balance w \<and> (rc = ESUCCESS \<longrightarrow> normalized t)"

text \<open>The contract of a counting semaphore, as its clients use it.\<close>

locale counting_semaphore =
  fixes notify wait :: "(exn, unit, 'w) prog" and try_wait :: "(exn, bool, 'w) prog" and wait_for :: "int \<Rightarrow> (exn, bool, 'w) prog"
    and balance :: "'w \<Rightarrow> int"
  assumes notify_spec: "triple (\<lambda>w. balance w = B) notify (\<lambda>_ w. balance w = B + 1) (\<lambda>_ w. balance w = B)"
    and wait_spec: "triple (\<lambda>w. balance w = B) wait (\<lambda>_ w. balance w = B - 1) (\<lambda>_ w. balance w = B)"
    and try_wait_spec: "triple (\<lambda>w. balance w = B) try_wait (\<lambda>b w. balance w = B - (if b then 1 else 0)) (\<lambda>_ w. balance w = B)"
    and wait_for_spec: "triple (\<lambda>w. balance w = B) (wait_for t) (\<lambda>b w. balance w = B - (if b then 1 else 0)) (\<lambda>_ w. balance w = B)"
begin

text \<open>A client that takes a token for a while gives it back.\<close>

lemma bracket:
  assumes body: "\<And>B. triple (\<lambda>w. balance w = B) body (\<lambda>_ w. balance w = B) (\<lambda>_ _. False)"
  shows "triple (\<lambda>w. balance w = B) (andthen wait (andthen body notify)) (\<lambda>_ w. balance w = B)
    (\<lambda>_ w. balance w = B \<or> balance w = B - 1)"
proof (rule triple_bind)
  show "triple (\<lambda>w. balance w = B) wait (\<lambda>_ w. balance w = B - 1) (\<lambda>_ w. balance w = B \<or> balance w = B - 1)"
    by (rule triple_conseq[OF wait_spec]) auto
  show "triple (\<lambda>w. balance w = B - 1) (andthen body notify) (\<lambda>_ w. balance w = B) (\<lambda>_ w. balance w = B \<or> balance w = B - 1)"
    by (rule triple_bind[OF triple_conseq[OF body[of "B - 1"]] triple_conseq[OF notify_spec[of "B - 1"]]]) auto
qed

end

text \<open>The errors a wait may report: an interrupted call is never one of them.\<close>

definition sem_error :: "exn \<Rightarrow> bool" where
  "sem_error e \<longleftrightarrow> e = Deadlock \<or> (\<exists>c. e = LockExc c \<and> ec_value c \<noteq> EINTR)"

lemma if_not_swap: "(if a \<noteq> b then x else y) = (if a = b then y else x)"
  by simp

context semaphore_os begin

lemma retry_call:
  assumes "\<And>w rc w'. balance w = B \<Longrightarrow> expr w = Some (rc, w') \<Longrightarrow>
      rc = ESUCCESS \<and> balance w' = balance w - 1 \<or> failed api X rc w' \<and> balance w' = balance w"
  shows "triple (\<lambda>w. balance w = B) (call_blocking (TEMP_FAILURE_RETRY (os_errno api) expr))
    (\<lambda>rc w. rc = ESUCCESS \<and> balance w = B - 1 \<or> failed api (insert EINTR X) rc w \<and> balance w = B) E"
proof (rule triple_call_blocking)
  fix w rc w' assume w: "balance w = B" and r: "TEMP_FAILURE_RETRY (os_errno api) expr w = Some (rc, w')"
  let ?Q = "\<lambda>rc w. rc = ESUCCESS \<and> balance w = B - 1 \<or> failed api X rc w \<and> balance w = B"
  have step: "if rc = - 1 \<and> os_errno api s' = EINTR then balance s' = B else ?Q rc s'"
    if "balance s = B" "expr s = Some (rc, s')" for s rc s'
    using assms[OF that] that by auto
  have "?Q (fst (rc, w')) (snd (rc, w')) \<and> \<not> (fst (rc, w') = - 1 \<and> os_errno api (snd (rc, w')) = EINTR)"
    by (rule retry_result[where I = "\<lambda>w. balance w = B" and Q = ?Q, OF r]) (rule w, rule step)
  then show "rc = ESUCCESS \<and> balance w' = B - 1 \<or> failed api (insert EINTR X) rc w' \<and> balance w' = B"
    by (auto simp: failed_def)
qed

lemma on_last_error_spec:
  assumes "\<And>e. ec_value e \<notin> X \<Longrightarrow> triple (\<lambda>w. balance w = B) (k e) Q E"
  shows "triple (\<lambda>w. failed api X rc w \<and> balance w = B) (on_last_error api k) Q E"
proof (rule triple_pre)
  fix w assume w: "failed api X rc w \<and> balance w = B"
  have "triple (\<lambda>w. balance w = B) (k (GetLastSystemErrorCode api w)) Q E"
    using w by (intro assms) (simp add: GetLastSystemErrorCode_def failed_def mk_code_def)
  then show "triple (\<lambda>w'. w' = w) (on_last_error api k) Q E"
    by (rule triple_at_state[rotated]) (use w in \<open>simp_all add: on_last_error_def\<close>)
qed

lemma split_call:
  assumes "triple (\<lambda>w. balance w = C) m Q E" "triple (\<lambda>w. failed api X rc w \<and> balance w = B) m' Q E"
  shows "triple (\<lambda>w. rc = ESUCCESS \<and> balance w = C \<or> failed api X rc w \<and> balance w = B) (if rc = ESUCCESS then m else m') Q E"
  using assms by (cases "rc = ESUCCESS") (auto simp: triple_def failed_def)

lemma Notify_spec: "triple (\<lambda>w. balance w = B) (Notify api) (\<lambda>_ w. balance w = B + 1) (\<lambda>e w. balance w = B \<and> sem_error e)"
proof -
  have "triple (\<lambda>w. balance w = B) (call (os_sem_post api))
    (\<lambda>rc w. rc = ESUCCESS \<and> balance w = B + 1 \<or> failed api {EINTR, EINVAL, ENOSYS} rc w \<and> balance w = B) E" for E
    by (rule triple_call) (auto dest: post_law)
  then have "triple (\<lambda>w. balance w = B) (bind (call (os_sem_post api)) (\<lambda>kRetCode. if kRetCode = ESUCCESS then ret ()
      else on_last_error api (\<lambda>e. andthen (sem_assert api (ec_value e \<noteq> EINTR)) (andthen (sem_assert api (ec_value e \<noteq> EINVAL))
         (andthen (sem_assert api (ec_value e \<noteq> ENOSYS)) (throw (LockExc e)))))))
      (\<lambda>_ w. balance w = B + 1) (\<lambda>e w. balance w = B \<and> sem_error e)"
    by (rule triple_bind, intro split_call triple_ret on_last_error_spec) (auto simp: triple_def sem_error_def)
  then show ?thesis by (simp only: Notify_def if_not_swap)
qed

lemma Wait_spec: "triple (\<lambda>w. balance w = B) (Semaphore_Wait api) (\<lambda>_ w. balance w = B - 1) (\<lambda>e w. balance w = B \<and> sem_error e)"
  unfolding Semaphore_Wait_def if_not_swap
proof (rule triple_bind[OF retry_call[where X = "{EINVAL, ENOSYS}"]])
  show "rc = ESUCCESS \<and> balance w' = balance w - 1 \<or> failed api {EINVAL, ENOSYS} rc w' \<and> balance w' = balance w"
    if "os_sem_wait api w = Some (rc, w')" for w rc w' using wait_law[OF that] .
qed (intro split_call triple_ret on_last_error_spec; auto simp: triple_def sem_error_def)

lemma TryWait_spec:
  "triple (\<lambda>w. balance w = B) (TryWait api) (\<lambda>b w. balance w = B - (if b then 1 else 0)) (\<lambda>e w. balance w = B \<and> sem_error e)"
  unfolding TryWait_def
proof (rule triple_bind[OF retry_call[where X = "{EINVAL, ENOSYS}"]])
  show "rc = ESUCCESS \<and> balance w' = balance w - 1 \<or> failed api {EINVAL, ENOSYS} rc w' \<and> balance w' = balance w"
    if "Some (os_sem_trywait api w) = Some (rc, w')" for w rc w' using trywait_law[of w rc w'] that by simp
qed (intro split_call triple_ret on_last_error_spec; auto simp: triple_def sem_error_def)

text \<open>The clock may fail too, with a \<open>SystemException\<close>.\<close>

lemma deadline:
  assumes "0 < relTime"
  shows "triple (\<lambda>w. balance w = B) (RelTimeToAbsTime api relTime) (\<lambda>t w. balance w = B \<and> normalized t)
    (\<lambda>e w. balance w = B \<and> (\<exists>c. e = SystemExc c))"
  unfolding triple_def
proof (intro allI impI)
  fix w r assume w: "balance w = B" and r: "RelTimeToAbsTime api relTime w = Some r"
  obtain rc now w' where c: "os_clock_gettime api w = ((rc, now), w')" by (metis prod.exhaust)
  show "case r of Ret t w' \<Rightarrow> balance w' = B \<and> normalized t | Exc e w' \<Rightarrow> balance w' = B \<and> (\<exists>c. e = SystemExc c) | Term _ \<Rightarrow> False"
  proof (cases "rc = ESUCCESS")
    case True
    then show ?thesis using RelTimeToAbsTime_exact[of api w now w' relTime] c sem_clock_law[OF c] assms r w by auto
  next
    case False
    then show ?thesis using sem_clock_law[OF c] c r w by (auto simp: RelTimeToAbsTime_def)
  qed
qed

lemma WaitFor_spec:
  "triple (\<lambda>w. balance w = B) (Semaphore_WaitFor api relTime) (\<lambda>b w. balance w = B - (if b then 1 else 0))
     (\<lambda>e w. balance w = B \<and> (sem_error e \<or> (\<exists>c. e = SystemExc c)))"
proof (cases "relTime \<le> 0")
  case True
  show ?thesis using triple_conseq[OF TryWait_spec[of B]] True by (simp add: Semaphore_WaitFor_def)
next
  case False
  let ?E = "\<lambda>e w. balance w = B \<and> (sem_error e \<or> (\<exists>c. e = SystemExc c))"
  have wait: "triple (\<lambda>w. balance w = B \<and> normalized t)
       (bind (call_blocking (TEMP_FAILURE_RETRY (os_errno api) (os_sem_timedwait api t))) (\<lambda>kRetCode.
         if kRetCode = ESUCCESS then ret True
         else on_last_error api (\<lambda>e.
           if ec_value e = ETIMEDOUT then ret False
           else if ec_value e = EDEADLK then throw Deadlock
           else andthen (sem_assert api (ec_value e \<noteq> EINVAL)) (throw (LockExc e)))))
       (\<lambda>b w. balance w = B - (if b then 1 else 0)) ?E" for t
  proof (cases "normalized t")
    case True
    have "triple (\<lambda>w. balance w = B) (bind (call_blocking (TEMP_FAILURE_RETRY (os_errno api) (os_sem_timedwait api t))) (\<lambda>kRetCode.
         if kRetCode = ESUCCESS then ret True
         else on_last_error api (\<lambda>e.
           if ec_value e = ETIMEDOUT then ret False
           else if ec_value e = EDEADLK then throw Deadlock
           else andthen (sem_assert api (ec_value e \<noteq> EINVAL)) (throw (LockExc e)))))
       (\<lambda>b w. balance w = B - (if b then 1 else 0)) ?E"
    proof (rule triple_bind[OF retry_call[where X = "{EINVAL}"]])
      show "rc = ESUCCESS \<and> balance w' = balance w - 1 \<or> failed api {EINVAL} rc w' \<and> balance w' = balance w"
        if "os_sem_timedwait api t w = Some (rc, w')" for w rc w' using timedwait_law[OF that True] .
    qed (intro split_call triple_ret on_last_error_spec; auto simp: triple_def sem_error_def)
    then show ?thesis by (rule triple_conseq) auto
  qed (simp add: triple_def)
  have "triple (\<lambda>w. balance w = B) (RelTimeToAbsTime api relTime) (\<lambda>t w. balance w = B \<and> normalized t) ?E"
    by (rule triple_conseq[OF deadline]) (use False in auto)
  from triple_bind[OF this wait] show ?thesis using False by (simp add: Semaphore_WaitFor_def)
qed

lemma WaitUntil_spec:
  "triple (\<lambda>w. balance w = B) (Semaphore_WaitUntil api absTime) (\<lambda>b w. balance w = B - (if b then 1 else 0)) (\<lambda>_ w. balance w = B)"
proof -
  have "triple (\<lambda>w. balance w = B) (GetCurrentTime api) (\<lambda>_ w. balance w = B) (\<lambda>_ w. balance w = B)"
    by (auto simp: triple_def GetCurrentTime_def Let_def split: prod.splits dest: sem_time_law)
  moreover have "triple (\<lambda>w. balance w = B) (if absTime - now \<le> 0 then TryWait api else Semaphore_WaitFor api (to_int ((absTime - now) * 1000)))
      (\<lambda>b w. balance w = B - (if b then 1 else 0)) (\<lambda>_ w. balance w = B)" for now
    by (intro triple_if; rule triple_conseq[OF TryWait_spec] triple_conseq[OF WaitFor_spec]; auto)
  ultimately show ?thesis unfolding Semaphore_WaitUntil_def Let_def by (rule triple_bind)
qed

end

sublocale semaphore_os \<subseteq> counting_semaphore "Notify api" "Semaphore_Wait api" "TryWait api" "Semaphore_WaitFor api" balance
proof
  show "triple (\<lambda>w. balance w = B) (Notify api) (\<lambda>_ w. balance w = B + 1) (\<lambda>_ w. balance w = B)" for B
    by (rule triple_conseq[OF Notify_spec]) auto
  show "triple (\<lambda>w. balance w = B) (Semaphore_Wait api) (\<lambda>_ w. balance w = B - 1) (\<lambda>_ w. balance w = B)" for B
    by (rule triple_conseq[OF Wait_spec]) auto
  show "triple (\<lambda>w. balance w = B) (TryWait api) (\<lambda>b w. balance w = B - (if b then 1 else 0)) (\<lambda>_ w. balance w = B)" for B
    by (rule triple_conseq[OF TryWait_spec]) auto
  show "triple (\<lambda>w. balance w = B) (Semaphore_WaitFor api t) (\<lambda>b w. balance w = B - (if b then 1 else 0)) (\<lambda>_ w. balance w = B)" for B t
    by (rule triple_conseq[OF WaitFor_spec]) auto
qed

section \<open>An instance\<close>

text \<open>A semaphore with \<open>sw_tokens\<close> tokens whose next \<open>sw_signals\<close> waits a signal interrupts.\<close>

record sem_world =
  sw_tokens :: nat
  sw_signals :: nat
  sw_errno :: int
  sw_balance :: int

definition sample_take :: "int \<Rightarrow> sem_world \<Rightarrow> int \<times> sem_world" where
  "sample_take err w = (if sw_signals w > 0 then (- 1, w\<lparr>sw_signals := sw_signals w - 1, sw_errno := EINTR\<rparr>)
     else if sw_tokens w > 0 then (0, w\<lparr>sw_tokens := sw_tokens w - 1, sw_balance := sw_balance w - 1\<rparr>)
     else (- 1, w\<lparr>sw_errno := err\<rparr>))"

definition sample_sem :: "bool \<Rightarrow> sem_world sem_api" where
  "sample_sem nd = \<lparr>os_time = \<lambda>w. (1000, w), os_clock_gettime = \<lambda>w. ((0, \<lparr>tv_sec = 1000, tv_nsec = 0\<rparr>), w), os_errno = sw_errno,
     sem_ndebug = nd, os_sem_init = \<lambda>n w. (0, w\<lparr>sw_tokens := n\<rparr>), os_sem_destroy = \<lambda>w. (0, w),
     os_sem_post = \<lambda>w. if sw_tokens w < 2147483647 then (0, w\<lparr>sw_tokens := sw_tokens w + 1, sw_balance := sw_balance w + 1\<rparr>)
       else (- 1, w\<lparr>sw_errno := EOVERFLOW\<rparr>),
     os_sem_wait = \<lambda>w. if sw_signals w = 0 \<and> sw_tokens w = 0 then None else Some (sample_take EAGAIN w),
     os_sem_trywait = sample_take EAGAIN, os_sem_timedwait = \<lambda>t w. Some (sample_take ETIMEDOUT w)\<rparr>"

interpretation sample_sem: semaphore_os "sample_sem nd" sw_balance
  by unfold_locales (auto simp: sample_sem_def sample_take_def failed_def normalized_def split: if_splits)

section \<open>Properties\<close>

text \<open>C7: for every implementation of the POSIX calls that behaves as documented the operations refine a
  counter: \<open>Notify\<close> adds one token, a wait that succeeds takes one, and every other outcome - no token in
  time, or an exception - takes none.  The exceptions of \<open>Wait\<close> and \<open>TryWait\<close> are \<open>DeadlockException\<close> or
  \<open>LockException\<close>, never for an interrupted call, and no operation ends the program.\<close>

theorem semaphore_refines_counter:
  assumes "semaphore_os api balance"
  shows "triple (\<lambda>w. balance w = B) (Notify api) (\<lambda>_ w. balance w = B + 1) (\<lambda>e w. balance w = B \<and> sem_error e)
    \<and> triple (\<lambda>w. balance w = B) (Semaphore_Wait api) (\<lambda>_ w. balance w = B - 1) (\<lambda>e w. balance w = B \<and> sem_error e)
    \<and> triple (\<lambda>w. balance w = B) (TryWait api) (\<lambda>b w. balance w = B - (if b then 1 else 0)) (\<lambda>e w. balance w = B \<and> sem_error e)
    \<and> triple (\<lambda>w. balance w = B) (Semaphore_WaitFor api relTime) (\<lambda>b w. balance w = B - (if b then 1 else 0))
        (\<lambda>e w. balance w = B \<and> (sem_error e \<or> (\<exists>c. e = SystemExc c)))
    \<and> triple (\<lambda>w. balance w = B) (Semaphore_WaitUntil api absTime) (\<lambda>b w. balance w = B - (if b then 1 else 0)) (\<lambda>_ w. balance w = B)"
  using semaphore_os.Notify_spec[OF assms] semaphore_os.Wait_spec[OF assms] semaphore_os.TryWait_spec[OF assms]
    semaphore_os.WaitFor_spec[OF assms] semaphore_os.WaitUntil_spec[OF assms] by blast

theorem semaphore_refines_counter_witness:
  "\<exists>w'. TryWait (sample_sem False) \<lparr>sw_tokens = 1, sw_signals = 2, sw_errno = 0, sw_balance = 0\<rparr> = Some (Ret True w') \<and> sw_balance w' = - 1"
proof -
  let ?w = "\<lparr>sw_tokens = 1, sw_signals = 2, sw_errno = 0, sw_balance = 0\<rparr>"
  let ?r = "TEMP_FAILURE_RETRY sw_errno (\<lambda>w. Some (sample_take EAGAIN w))"
  have "?r \<lparr>sw_tokens = 1, sw_signals = 0, sw_errno = EINTR, sw_balance = 0\<rparr>
      = Some (0, \<lparr>sw_tokens = 0, sw_signals = 0, sw_errno = EINTR, sw_balance = - 1\<rparr>)"
    by (subst TEMP_FAILURE_RETRY.simps) (simp add: sample_take_def)
  then have "?r \<lparr>sw_tokens = 1, sw_signals = 1, sw_errno = EINTR, sw_balance = 0\<rparr>
      = Some (0, \<lparr>sw_tokens = 0, sw_signals = 0, sw_errno = EINTR, sw_balance = - 1\<rparr>)"
    by (subst TEMP_FAILURE_RETRY.simps) (simp add: sample_take_def)
  then have "?r ?w = Some (0, \<lparr>sw_tokens = 0, sw_signals = 0, sw_errno = EINTR, sw_balance = - 1\<rparr>)"
    by (subst TEMP_FAILURE_RETRY.simps) (simp add: sample_take_def numeral_2_eq_2)
  then have r: "TryWait (sample_sem False) ?w = Some (Ret True \<lparr>sw_tokens = 0, sw_signals = 0, sw_errno = EINTR, sw_balance = - 1\<rparr>)"
    by (simp add: TryWait_def sample_sem_def)
  have "triple (\<lambda>w. sw_balance w = 0) (TryWait (sample_sem False)) (\<lambda>b w. sw_balance w = 0 - (if b then 1 else 0))
      (\<lambda>e w. sw_balance w = 0 \<and> sem_error e)"
    using semaphore_refines_counter[OF sample_sem.semaphore_os_axioms] by blast
  from triple_Ret[OF this _ r] r show ?thesis by simp
qed

end
