(* ===== verification/Singletons.thy ===== *)
theory Singletons
imports Prelude
begin

text \<open>
  Singletons and the end of the program (\<open>include/cppdevtk/base/singletons.hpp\<close>), for compilers where the initialization of
  local statics is thread safe: \<open>MeyersSingleton\<close> (which \<open>Singleton\<close> then equals), \<open>PhoenixSingleton\<close> and
  \<open>ThreadSafePhoenixSingleton\<close>.

  The end of the program runs the destructors of local statics and the functions given to \<open>atexit\<close>, the last one first.
  A client is an object with static storage whose destructor uses the singleton.  The constructor of the class \<open>T\<close> and
  \<open>atexit\<close> may fail: the parameters say in which of their calls.
\<close>

section \<open>Storage and the end of the program\<close>

datatype serror = T_Error | Atexit_Failed

datatype handler = Static_Instance | Static_Mutex | Destroy_Handler | Client

datatype pevent = Constructed | Destructed

record singleton_api =
  ctor_fails :: "nat \<Rightarrow> bool"
  atexit_fails :: "nat \<Rightarrow> bool"

record storage =
  initialized :: bool
  handlers :: "handler list"
  attempts :: nat
  history :: "pevent list"

record phoenix = storage +
  pInstance :: bool
  destroyed :: bool
  registrations :: nat

type_synonym ('a, 's) sprog = "(serror, 'a, unit \<times> 's) prog"

text \<open>Whether an object lives in the storage; \<open>None\<close> after one was constructed over another or destroyed twice.\<close>

definition life_step :: "pevent \<Rightarrow> bool option \<Rightarrow> bool option" where
  "life_step e b = (case (e, b) of (Constructed, Some False) \<Rightarrow> Some True | (Destructed, Some True) \<Rightarrow> Some False | _ \<Rightarrow> None)"

definition life :: "pevent list \<Rightarrow> bool option" where
  "life es = fold life_step es (Some False)"

definition construct_at :: "singleton_api \<Rightarrow> (unit, 's storage_scheme) sprog" where
  "construct_at api = bind (this attempts) (\<lambda>n. andthen (modify (\<lambda>s. s\<lparr>attempts := Suc n\<rparr>))
     (if ctor_fails api n then throw T_Error else modify (\<lambda>s. s\<lparr>history := history s @ [Constructed]\<rparr>)))"

text \<open>A local static: a construction that throws is tried again when the control comes there again.\<close>

definition local_static :: "(unit, 's storage_scheme) sprog \<Rightarrow> (unit, 's storage_scheme) sprog" where
  "local_static ctor = bind (this initialized) (\<lambda>i. if i then ret ()
     else andthen ctor (modify (\<lambda>s. s\<lparr>initialized := True, handlers := Static_Instance # handlers s\<rparr>)))"

definition push_handler :: "handler \<Rightarrow> (unit, 's storage_scheme) sprog" where
  "push_handler h = modify (\<lambda>s. s\<lparr>handlers := h # handlers s\<rparr>)"

partial_function (option) run_exit :: "(handler \<Rightarrow> (unit, 's storage_scheme) sprog) \<Rightarrow> (unit, 's storage_scheme) sprog" where
  "run_exit f st = (case handlers (snd st) of [] \<Rightarrow> Some (Ret () st)
     | h # hs \<Rightarrow> (case noexcept (f h) (fst st, (snd st)\<lparr>handlers := hs\<rparr>) of None \<Rightarrow> None
        | Some (Ret _ st') \<Rightarrow> run_exit f st' | Some (Exc e st') \<Rightarrow> Some (Exc e st') | Some (Term st') \<Rightarrow> Some (Term st')))"

section \<open>\<open>MeyersSingleton\<close>\<close>

definition Meyers_GetInstance :: "singleton_api \<Rightarrow> (unit, 's storage_scheme) sprog" where
  "Meyers_GetInstance api = local_static (construct_at api)"

definition Meyers_dtor :: "(unit, 's storage_scheme) sprog" where
  "Meyers_dtor = modify (\<lambda>s. s\<lparr>history := history s @ [Destructed]\<rparr>)"

section \<open>\<open>PhoenixSingleton\<close>\<close>

text \<open>The destructor of \<open>T\<close> ends with the one of its base; a constructor of \<open>T\<close> that throws runs that one too.\<close>

definition Phoenix_dtor :: "(unit, 's phoenix_scheme) sprog" where
  "Phoenix_dtor = modify (\<lambda>s. s\<lparr>pInstance := False, destroyed := True\<rparr>)"

definition Phoenix_construct :: "singleton_api \<Rightarrow> (unit, 's phoenix_scheme) sprog" where
  "Phoenix_construct api = catch (construct_at api) (\<lambda>e. andthen Phoenix_dtor (throw e))"

definition Phoenix_destruct :: "(unit, 's phoenix_scheme) sprog" where
  "Phoenix_destruct = andthen (modify (\<lambda>s. s\<lparr>history := history s @ [Destructed]\<rparr>)) Phoenix_dtor"

definition Create :: "singleton_api \<Rightarrow> (unit, 's phoenix_scheme) sprog" where
  "Create api = andthen (local_static (Phoenix_construct api)) (modify (\<lambda>s. s\<lparr>pInstance := True\<rparr>))"

definition Destroy :: "(unit, 's phoenix_scheme) sprog" where
  "Destroy = Phoenix_destruct"

definition ReCreate :: "singleton_api \<Rightarrow> (unit, 's phoenix_scheme) sprog" where
  "ReCreate api = andthen (Create api) (andthen (Phoenix_construct api) (bind (this registrations) (\<lambda>n.
     andthen (modify (\<lambda>s. s\<lparr>registrations := Suc n\<rparr>))
     (andthen (if atexit_fails api n then andthen Destroy (throw Atexit_Failed) else push_handler Destroy_Handler)
       (modify (\<lambda>s. s\<lparr>destroyed := False\<rparr>))))))"

definition GetInstance :: "singleton_api \<Rightarrow> (unit, 's phoenix_scheme) sprog" where
  "GetInstance api = bind (this pInstance) (\<lambda>p. if p then ret ()
     else bind (this destroyed) (\<lambda>d. if d then ReCreate api else Create api))"

section \<open>\<open>ThreadSafePhoenixSingleton\<close>\<close>

text \<open>The same with a mutex that is a local static of \<open>GetMutexRef\<close>; locking it after its destruction is counted.\<close>

datatype mutex_life = Not_Initialized | Living | Dead

record ts_phoenix = phoenix +
  mutex :: mutex_life
  deadLocks :: nat

definition GetMutexRef :: "(unit, 's ts_phoenix_scheme) sprog" where
  "GetMutexRef = bind (this mutex) (\<lambda>m. if m = Not_Initialized
     then andthen (modify (\<lambda>s. s\<lparr>mutex := Living\<rparr>)) (push_handler Static_Mutex) else ret ())"

definition lock_mutex :: "(unit, 's ts_phoenix_scheme) sprog" where
  "lock_mutex = modify (\<lambda>s. if mutex s = Dead then s\<lparr>deadLocks := Suc (deadLocks s)\<rparr> else s)"

definition TS_GetInstance :: "singleton_api \<Rightarrow> (unit, 's ts_phoenix_scheme) sprog" where
  "TS_GetInstance api = andthen GetMutexRef (andthen lock_mutex (GetInstance api))"

section \<open>Programs\<close>

text \<open>The program uses the singleton and registers clients in some order, handles exceptions, and ends.\<close>

datatype suse = Use | Register_Client

fun main_run :: "(unit, 's storage_scheme) sprog \<Rightarrow> suse list \<Rightarrow> (unit, 's storage_scheme) sprog" where
  "main_run get [] = ret ()"
| "main_run get (Use # us) = andthen (catch get (\<lambda>_. ret ())) (main_run get us)"
| "main_run get (Register_Client # us) = andthen (push_handler Client) (main_run get us)"

definition run_program :: "(unit, 's storage_scheme) sprog \<Rightarrow> (handler \<Rightarrow> (unit, 's storage_scheme) sprog) \<Rightarrow> suse list \<Rightarrow> (unit, 's storage_scheme) sprog" where
  "run_program get f us = andthen (main_run get us) (run_exit f)"

fun Meyers_handler :: "singleton_api \<Rightarrow> handler \<Rightarrow> (unit, 's storage_scheme) sprog" where
  "Meyers_handler api Client = Meyers_GetInstance api"
| "Meyers_handler api _ = Meyers_dtor"

fun Phoenix_handler :: "singleton_api \<Rightarrow> handler \<Rightarrow> (unit, 's phoenix_scheme) sprog" where
  "Phoenix_handler api Client = GetInstance api"
| "Phoenix_handler api Destroy_Handler = Destroy"
| "Phoenix_handler api _ = Phoenix_destruct"

fun TS_handler :: "singleton_api \<Rightarrow> handler \<Rightarrow> (unit, 's ts_phoenix_scheme) sprog" where
  "TS_handler api Client = TS_GetInstance api"
| "TS_handler api Static_Mutex = modify (\<lambda>s. s\<lparr>mutex := Dead\<rparr>)"
| "TS_handler api h = Phoenix_handler api h"

definition storage_start :: storage where
  "storage_start = \<lparr>initialized = False, handlers = [], attempts = 0, history = []\<rparr>"

definition phoenix_start :: phoenix where
  "phoenix_start = storage.extend storage_start \<lparr>pInstance = False, destroyed = False, registrations = 0\<rparr>"

definition ts_start :: ts_phoenix where
  "ts_start = phoenix.extend phoenix_start \<lparr>mutex = Not_Initialized, deadLocks = 0\<rparr>"

section \<open>Runs to the end of the program\<close>

text \<open>How often exit handlers may still run.\<close>

definition weight :: "handler list \<Rightarrow> nat" where
  "weight hs = (\<Sum>h \<leftarrow> hs. if h = Client then 3 else 1)"

lemma weight_simps [simp]: "weight [] = 0" "weight (h # hs) = (if h = Client then 3 else 1) + weight hs"
  by (simp_all add: weight_def)

lemma run_exit_steps:
  "handlers s = [] \<Longrightarrow> run_exit f (u, s) = Some (Ret () (u, s))"
  "handlers s = h # hs \<Longrightarrow> f h (u, s\<lparr>handlers := hs\<rparr>) = Some (Ret () st) \<Longrightarrow> run_exit f (u, s) = run_exit f st"
  by (subst run_exit.simps; simp add: noexcept_def catch_def)+

text \<open>The contract of a singleton: \<open>J\<close> holds during the main program and \<open>I\<close> at its end.\<close>

locale exit_program =
  fixes get :: "(unit, 's storage_scheme) sprog"
    and f :: "handler \<Rightarrow> (unit, 's storage_scheme) sprog"
    and J I :: "'s storage_scheme \<Rightarrow> bool"
  assumes get_ok: "J s \<Longrightarrow> \<exists>s'. J s' \<and> (get ((), s) = Some (Ret () ((), s')) \<or> (\<exists>e. get ((), s) = Some (Exc e ((), s'))))"
    and client_ok: "J s \<Longrightarrow> J (s\<lparr>handlers := Client # handlers s\<rparr>)"
    and ending: "J s \<Longrightarrow> I s"
    and handler_ok: "I s \<Longrightarrow> handlers s = h # hs \<Longrightarrow> \<exists>s'. I s' \<and> (f h ((), s\<lparr>handlers := hs\<rparr>) = Some (Ret () ((), s')) \<and> weight (handlers s') < weight (h # hs)
        \<or> (\<exists>e. f h ((), s\<lparr>handlers := hs\<rparr>) = Some (Exc e ((), s'))))"
begin

lemma main_returns: "J s \<Longrightarrow> \<exists>s'. J s' \<and> main_run get us ((), s) = Some (Ret () ((), s'))"
proof (induction us arbitrary: s)
  case (Cons u us)
  show ?case
  proof (cases u)
    case Use
    obtain s' where "J s'" "get ((), s) = Some (Ret () ((), s')) \<or> (\<exists>e. get ((), s) = Some (Exc e ((), s')))" using get_ok[OF Cons.prems] by blast
    then show ?thesis using Cons.IH[of s'] Use by (auto simp: catch_def)
  qed (use Cons.IH[OF client_ok[OF Cons.prems]] in \<open>simp add: push_handler_def modify_def\<close>)
qed simp

lemma exit_ends: "I s \<Longrightarrow> \<exists>s'. I s' \<and> (run_exit f ((), s) = Some (Ret () ((), s')) \<and> handlers s' = [] \<or> run_exit f ((), s) = Some (Term ((), s')))"
proof (induction "weight (handlers s)" arbitrary: s rule: less_induct)
  case less
  show ?case
  proof (cases "handlers s")
    case Nil
    then show ?thesis using less.prems by (auto simp: run_exit.simps)
  next
    case (Cons h hs)
    from handler_ok[OF less.prems Cons] obtain s' where s': "I s'"
      "f h ((), s\<lparr>handlers := hs\<rparr>) = Some (Ret () ((), s')) \<and> weight (handlers s') < weight (h # hs)
        \<or> (\<exists>e. f h ((), s\<lparr>handlers := hs\<rparr>) = Some (Exc e ((), s')))" by blast
    from s'(2) show ?thesis
    proof (elim disjE conjE exE)
      assume r: "f h ((), s\<lparr>handlers := hs\<rparr>) = Some (Ret () ((), s'))" "weight (handlers s') < weight (h # hs)"
      then have "run_exit f ((), s) = run_exit f ((), s')" using Cons by (subst run_exit.simps) (simp add: noexcept_def catch_def)
      then show ?thesis using less.hyps[of s'] s'(1) r(2) Cons by simp
    next
      fix e assume "f h ((), s\<lparr>handlers := hs\<rparr>) = Some (Exc e ((), s'))"
      then have "run_exit f ((), s) = Some (Term ((), s'))" using Cons by (subst run_exit.simps) (simp add: noexcept_def catch_def)
      then show ?thesis using s'(1) by blast
    qed
  qed
qed

lemma program_ends:
  assumes "J s"
  shows "\<exists>s'. I s' \<and> (run_program get f us ((), s) = Some (Ret () ((), s')) \<and> handlers s' = [] \<or> run_program get f us ((), s) = Some (Term ((), s')))"
proof -
  obtain s' where "J s'" "main_run get us ((), s) = Some (Ret () ((), s'))" using main_returns[OF assms] by blast
  then show ?thesis using exit_ends[OF ending[of s']] by (simp add: run_program_def)
qed

end

section \<open>The invariant of the phoenix\<close>

definition owners :: "handler list \<Rightarrow> nat" where
  "owners hs = length (filter (\<lambda>h. h = Static_Instance \<or> h = Destroy_Handler) hs)"

lemma owners_simps [simp]: "owners [] = 0" "owners (h # hs) = (if h = Static_Instance \<or> h = Destroy_Handler then 1 else 0) + owners hs"
  "owners (xs @ ys) = owners xs + owners ys"
  by (simp_all add: owners_def)

lemma life_snoc [simp]: "life [] = Some False" "life (es @ [e]) = life_step e (life es)"
  by (simp_all add: life_def)

text \<open>An object lives exactly when the pointer is set, and then exactly one handler will destroy it.\<close>

definition phoenix_inv :: "singleton_api \<Rightarrow> 's phoenix_scheme \<Rightarrow> bool" where
  "phoenix_inv api s \<longleftrightarrow> \<not> ctor_fails api 0 \<and> life (history s) = Some (pInstance s) \<and> (destroyed s \<longleftrightarrow> initialized s \<and> \<not> pInstance s)
     \<and> (pInstance s \<longrightarrow> initialized s) \<and> (\<not> initialized s \<longrightarrow> attempts s = 0) \<and> owners (handlers s) = (if pInstance s then 1 else 0)"

lemmas phoenix_defs = GetInstance_def Create_def ReCreate_def local_static_def Phoenix_construct_def construct_at_def Phoenix_dtor_def
  Phoenix_destruct_def Destroy_def push_handler_def catch_def this_def modify_def bind_def

text \<open>What \<open>GetInstance\<close> does to such a state.\<close>

definition got :: "singleton_api \<Rightarrow> 's phoenix_scheme \<Rightarrow> 's phoenix_scheme" where
  "got api s = (if pInstance s then s
     else if \<not> destroyed s then s\<lparr>attempts := 1, history := history s @ [Constructed], initialized := True, handlers := Static_Instance # handlers s, pInstance := True\<rparr>
     else if ctor_fails api (attempts s) then s\<lparr>attempts := Suc (attempts s)\<rparr>
     else if atexit_fails api (registrations s) then s\<lparr>attempts := Suc (attempts s), history := (history s @ [Constructed]) @ [Destructed], registrations := Suc (registrations s)\<rparr>
     else s\<lparr>attempts := Suc (attempts s), history := history s @ [Constructed], handlers := Destroy_Handler # handlers s,
       pInstance := True, destroyed := False, registrations := Suc (registrations s)\<rparr>)"

definition got_instance :: "singleton_api \<Rightarrow> 's phoenix_scheme \<Rightarrow> bool" where
  "got_instance api s \<longleftrightarrow> (destroyed s \<longrightarrow> \<not> ctor_fails api (attempts s) \<and> \<not> atexit_fails api (registrations s))"

lemma GetInstance_eval:
  assumes "phoenix_inv api s"
  shows "if got_instance api s then GetInstance api ((), s) = Some (Ret () ((), got api s))
    else \<exists>e. GetInstance api ((), s) = Some (Exc e ((), got api s))"
  using assms by (cases s rule: phoenix.cases_scheme) (auto simp: phoenix_inv_def phoenix_defs got_def got_instance_def split: if_splits)

lemma got_inv:
  assumes "phoenix_inv api s"
  shows "phoenix_inv api (got api s)" and "got_instance api s \<Longrightarrow> pInstance (got api s)"
  using assms by (auto simp: phoenix_inv_def got_def got_instance_def life_step_def simp del: append_assoc)

lemma destruct_inv:
  assumes "phoenix_inv api s" "handlers s = h # hs" "h = Static_Instance \<or> h = Destroy_Handler"
  shows "\<exists>s'. Phoenix_destruct ((), s\<lparr>handlers := hs\<rparr>) = Some (Ret () ((), s')) \<and> phoenix_inv api s'
    \<and> s' = s\<lparr>handlers := hs, history := history s @ [Destructed], pInstance := False, destroyed := True\<rparr>"
  using assms by (auto simp: phoenix_inv_def phoenix_defs life_step_def split: if_splits)

lemma phoenix_handler_ok:
  assumes "phoenix_inv api s" "handlers s = h # hs" "h \<noteq> Static_Mutex"
  shows "\<exists>s'. phoenix_inv api s' \<and> (Static_Mutex \<in> set (handlers s') \<longrightarrow> Static_Mutex \<in> set hs)
    \<and> (Phoenix_handler api h ((), s\<lparr>handlers := hs\<rparr>) = Some (Ret () ((), s')) \<and> weight (handlers s') < weight (h # hs)
        \<or> (\<exists>e. Phoenix_handler api h ((), s\<lparr>handlers := hs\<rparr>) = Some (Exc e ((), s'))))"
proof (cases "h = Client")
  case True
  let ?s = "s\<lparr>handlers := hs\<rparr>"
  have inv: "phoenix_inv api ?s" using assms True by (simp add: phoenix_inv_def)
  have "Static_Mutex \<in> set (handlers (got api ?s)) \<longrightarrow> Static_Mutex \<in> set hs" "weight (handlers (got api ?s)) < weight (h # hs)"
    using True by (auto simp: got_def)
  then show ?thesis using GetInstance_eval[OF inv] got_inv(1)[OF inv] True by (cases "got_instance api ?s") auto
next
  case False
  then have "h = Static_Instance \<or> h = Destroy_Handler" using assms(3) by (cases h) auto
  with destruct_inv[OF assms(1,2) this] show ?thesis by (auto simp: Destroy_def)
qed

interpretation phoenix: exit_program "GetInstance api" "Phoenix_handler api"
  "\<lambda>s :: 's phoenix_scheme. phoenix_inv api s \<and> Static_Mutex \<notin> set (handlers s)"
  "\<lambda>s :: 's phoenix_scheme. phoenix_inv api s \<and> Static_Mutex \<notin> set (handlers s)" for api
proof (unfold_locales, goal_cases)
  case (1 s)
  moreover have "Static_Mutex \<notin> set (handlers (got api s))" using 1 by (auto simp: got_def)
  ultimately show ?case using GetInstance_eval[of api s] got_inv(1)[of api s] by (cases "got_instance api s") auto
next
  case (2 s)
  then show ?case by (simp add: phoenix_inv_def)
next
  case (4 s h hs)
  then have "h \<noteq> Static_Mutex" "Static_Mutex \<notin> set hs" by auto
  then show ?case using phoenix_handler_ok[of api s h hs] 4 by blast
qed simp

lemma phoenix_start_inv: "\<not> ctor_fails api 0 \<Longrightarrow> phoenix_inv api phoenix_start \<and> Static_Mutex \<notin> set (handlers phoenix_start)"
  by (simp add: phoenix_inv_def phoenix_start_def storage_start_def phoenix.defs storage.defs)

section \<open>The invariant of the thread safe phoenix\<close>

definition constructions :: "pevent list \<Rightarrow> nat" where
  "constructions es = length (filter (\<lambda>e. e = Constructed) es)"

lemma constructions_simps [simp]: "constructions [] = 0" "constructions (es @ [e]) = constructions es + (if e = Constructed then 1 else 0)"
  by (simp_all add: constructions_def)

text \<open>While the mutex lives its destruction directly follows that of the static instance.\<close>

fun mutex_follows :: "handler list \<Rightarrow> bool" where
  "mutex_follows [] = False"
| "mutex_follows (Static_Instance # hs) = (\<exists>ys. hs = Static_Mutex # ys)"
| "mutex_follows (Static_Mutex # hs) = False"
| "mutex_follows (h # hs) = mutex_follows hs"

lemma follows_owner: "mutex_follows hs \<Longrightarrow> owners hs \<noteq> 0"
  by (induction hs rule: mutex_follows.induct) auto

definition ts_inv :: "singleton_api \<Rightarrow> 's ts_phoenix_scheme \<Rightarrow> bool" where
  "ts_inv api s \<longleftrightarrow> phoenix_inv api s
     \<and> (mutex s = Not_Initialized \<longrightarrow> \<not> initialized s \<and> Static_Mutex \<notin> set (handlers s))
     \<and> (mutex s = Living \<longrightarrow> initialized s \<and> (if destroyed s then \<exists>ys. handlers s = Static_Mutex # ys else mutex_follows (handlers s)))
     \<and> (deadLocks s = 0 \<longrightarrow> constructions (history s) = (if initialized s then 1 else 0))"

lemma got_keeps [simp]: "mutex (got api s) = mutex s" "deadLocks (got api s) = deadLocks s"
  by (simp_all add: got_def)

definition locked :: "'s ts_phoenix_scheme \<Rightarrow> 's ts_phoenix_scheme" where
  "locked s = (if mutex s = Not_Initialized then s\<lparr>mutex := Living, handlers := Static_Mutex # handlers s\<rparr>
     else if mutex s = Dead then s\<lparr>deadLocks := Suc (deadLocks s)\<rparr> else s)"

lemma TS_GetInstance_eval: "TS_GetInstance api ((), s) = GetInstance api ((), locked s)"
  by (simp add: TS_GetInstance_def GetMutexRef_def lock_mutex_def push_handler_def locked_def this_def modify_def bind_def)

lemma locked_inv: "phoenix_inv api s \<Longrightarrow> phoenix_inv api (locked s)"
  by (simp add: phoenix_inv_def locked_def)

lemma ts_got:
  assumes "ts_inv api s" "destroyed s \<Longrightarrow> mutex s \<noteq> Living"
  shows "ts_inv api (got api (locked s))"
proof -
  have p: "phoenix_inv api (got api (locked s))" using assms(1) by (simp add: ts_inv_def locked_inv got_inv)
  show ?thesis
  proof (cases "mutex s")
    case Not_Initialized
    then have "\<not> initialized s" "Static_Mutex \<notin> set (handlers s)" "\<not> pInstance s" "\<not> destroyed s"
      using assms(1) by (auto simp: ts_inv_def phoenix_inv_def)
    then show ?thesis using p Not_Initialized assms(1) unfolding ts_inv_def by (auto simp: locked_def got_def)
  next
    case Living
    then have "initialized s" "\<not> destroyed s" "pInstance s" using assms by (auto simp: ts_inv_def phoenix_inv_def)
    then have "got api (locked s) = s" using Living by (simp add: locked_def got_def)
    then show ?thesis using assms(1) by simp
  next
    case Dead
    then have "mutex (got api (locked s)) = Dead" "deadLocks (got api (locked s)) \<noteq> 0" by (simp_all add: locked_def)
    then show ?thesis using p unfolding ts_inv_def by simp
  qed
qed

text \<open>The handlers.  Only clients and the two statics are run before the mutex is dead.\<close>

lemma ts_client:
  assumes "ts_inv api s" "handlers s = Client # hs"
  shows "ts_inv api (s\<lparr>handlers := hs\<rparr>)" and "destroyed s \<Longrightarrow> mutex s \<noteq> Living"
  using assms by (auto simp: ts_inv_def phoenix_inv_def split: if_splits)

lemma ts_owner:
  assumes "ts_inv api s" "handlers s = h # hs" "h = Static_Instance \<or> h = Destroy_Handler"
  shows "ts_inv api (s\<lparr>handlers := hs, history := history s @ [Destructed], pInstance := False, destroyed := True\<rparr>)"
proof -
  have p: "phoenix_inv api (s\<lparr>handlers := hs, history := history s @ [Destructed], pInstance := False, destroyed := True\<rparr>)"
    using destruct_inv[OF _ assms(2,3)] assms(1) by (auto simp: ts_inv_def)
  have owner: "pInstance s" "initialized s" "\<not> destroyed s" "owners hs = 0" using assms by (auto simp: ts_inv_def phoenix_inv_def split: if_splits)
  then show ?thesis using assms p follows_owner[of hs] unfolding ts_inv_def by (auto split: if_splits)
qed

lemma ts_mutex:
  assumes "ts_inv api s" "handlers s = Static_Mutex # hs"
  shows "ts_inv api (s\<lparr>handlers := hs, mutex := Dead\<rparr>)"
  using assms by (simp add: ts_inv_def phoenix_inv_def)

interpretation ts: exit_program "TS_GetInstance api" "TS_handler api"
  "\<lambda>s :: 's ts_phoenix_scheme. ts_inv api s \<and> \<not> destroyed s" "ts_inv api :: 's ts_phoenix_scheme \<Rightarrow> bool" for api
proof (unfold_locales, goal_cases)
  case (1 s)
  have "phoenix_inv api (locked s)" using 1 by (simp add: ts_inv_def locked_inv)
  moreover have "\<not> destroyed (got api (locked s))" "got_instance api (locked s)" using 1 by (auto simp: got_def got_instance_def locked_def)
  ultimately show ?case using GetInstance_eval[of api "locked s"] ts_got[of api s] 1 by (auto simp: TS_GetInstance_eval)
next
  case (2 s)
  then show ?case by (auto simp: ts_inv_def phoenix_inv_def)
next
  case (4 s h hs)
  show ?case
  proof (cases h)
    case Client
    let ?s = "s\<lparr>handlers := hs\<rparr>"
    note c = ts_client[OF 4(1) 4(2)[unfolded Client]]
    have "phoenix_inv api (locked ?s)" using c(1) by (simp add: ts_inv_def locked_inv)
    moreover have "weight (handlers (got api (locked ?s))) < weight (h # hs)"
      using c Client by (auto simp: got_def locked_def ts_inv_def phoenix_inv_def)
    ultimately show ?thesis using GetInstance_eval[of api "locked ?s"] ts_got[OF c(1)] c(2) Client
      by (cases "got_instance api (locked ?s)") (auto simp: TS_GetInstance_eval)
  next
    case Static_Mutex
    then show ?thesis using ts_mutex[of api s hs] 4 by (auto simp: modify_def)
  qed (use 4 destruct_inv[of api s h hs] ts_owner[of api s h hs] in \<open>auto simp: Destroy_def ts_inv_def\<close>)
qed auto

lemma ts_start_inv: "\<not> ctor_fails api 0 \<Longrightarrow> ts_inv api ts_start \<and> \<not> destroyed ts_start"
  by (simp add: ts_inv_def phoenix_inv_def ts_start_def phoenix_start_def storage_start_def ts_phoenix.defs phoenix.defs storage.defs)

section \<open>Properties\<close>


definition reliable :: singleton_api where
  "reliable = \<lparr>ctor_fails = (\<lambda>_. False), atexit_fails = (\<lambda>_. False)\<rparr>"


text \<open>When it fails, the base's destructor has set \<open>destroyed_\<close>: the next use initializes the local static and constructs a second
  object over it, and both are destroyed.\<close>

lemma phoenix_failed_first_construction:
  assumes "ctor_fails api 0" "\<not> ctor_fails api 1" "\<not> ctor_fails api 2" "\<not> atexit_fails api 0"
  shows "\<exists>s. run_program (GetInstance api) (Phoenix_handler api) [Use, Use] ((), phoenix_start) = Some (Ret () ((), s))
    \<and> history s = [Constructed, Constructed, Destructed, Destructed]"
proof -
  have "\<exists>s. main_run (GetInstance api) [Use, Use] ((), phoenix_start) = Some (Ret () ((), s))
      \<and> handlers s = [Destroy_Handler, Static_Instance] \<and> history s = [Constructed, Constructed]"
    using assms by (simp add: phoenix_defs phoenix_start_def storage_start_def phoenix.defs storage.defs numeral_2_eq_2)
  moreover have "Phoenix_destruct ((), s) = Some (Ret () ((), s\<lparr>history := history s @ [Destructed], pInstance := False, destroyed := True\<rparr>))" for s :: phoenix
    by (simp add: phoenix_defs)
  ultimately show ?thesis by (auto simp: run_program_def run_exit_steps Destroy_def)
qed

text \<open>The mutex of a \<open>ThreadSafePhoenixSingleton\<close> is a local static itself and is destroyed right after the instance: every program
  ends, and in one in which a second instance is created \<open>GetInstance()\<close> has locked the destroyed mutex.\<close>

theorem thread_safe_phoenix_locks_dead_mutex:
  assumes "\<not> ctor_fails api 0"
  shows "\<exists>s. (run_program (TS_GetInstance api) (TS_handler api) us ((), ts_start) = Some (Ret () ((), s))
      \<or> run_program (TS_GetInstance api) (TS_handler api) us ((), ts_start) = Some (Term ((), s)))
    \<and> life (history s) \<noteq> None \<and> (constructions (history s) \<ge> 2 \<longrightarrow> deadLocks s > 0)"
proof -
  obtain s where s: "ts_inv api s" "run_program (TS_GetInstance api) (TS_handler api) us ((), ts_start) = Some (Ret () ((), s))
      \<or> run_program (TS_GetInstance api) (TS_handler api) us ((), ts_start) = Some (Term ((), s))"
    using ts.program_ends[OF ts_start_inv[OF assms]] by blast
  have "life (history s) \<noteq> None \<and> (constructions (history s) \<ge> 2 \<longrightarrow> deadLocks s > 0)"
    using s(1) by (cases "deadLocks s = 0") (auto simp: ts_inv_def phoenix_inv_def)
  with s(2) show ?thesis by blast
qed

text \<open>A client that was registered before the first use.\<close>

lemma sample_ts_run:
  "\<exists>s. run_program (TS_GetInstance reliable) (TS_handler reliable) [Register_Client, Use] ((), ts_start) = Some (Ret () ((), s))
    \<and> history s = [Constructed, Destructed, Constructed, Destructed]"
  by (simp add: run_program_def run_exit_steps TS_GetInstance_eval locked_def phoenix_defs ts_start_def
      phoenix_start_def storage_start_def ts_phoenix.defs phoenix.defs storage.defs reliable_def)

lemma thread_safe_phoenix_locks_dead_mutex_witness:
  "\<exists>s. run_program (TS_GetInstance reliable) (TS_handler reliable) [Register_Client, Use] ((), ts_start) = Some (Ret () ((), s)) \<and> deadLocks s > 0"
  using thread_safe_phoenix_locks_dead_mutex[of reliable "[Register_Client, Use]"] sample_ts_run by (auto simp: reliable_def constructions_def)

text \<open>A \<open>MeyersSingleton\<close> is constructed at most once and then destroyed; a client that runs later gets the dead object.\<close>

definition meyers_inv :: "'s storage_scheme \<Rightarrow> bool" where
  "meyers_inv s \<longleftrightarrow> set (handlers s) \<subseteq> {Static_Instance, Client} \<and> owners (handlers s) \<le> 1
     \<and> history s = (if \<not> initialized s then [] else if owners (handlers s) = 1 then [Constructed] else [Constructed, Destructed])
     \<and> (\<not> initialized s \<longrightarrow> owners (handlers s) = 0)"

interpretation meyers: exit_program "Meyers_GetInstance api" "Meyers_handler api" "meyers_inv" "meyers_inv" for api
proof (unfold_locales, goal_cases)
  case (1 s)
  then show ?case by (cases "initialized s"; cases "ctor_fails api (attempts s)")
    (auto simp: meyers_inv_def Meyers_GetInstance_def local_static_def construct_at_def this_def modify_def bind_def split: if_splits)
next
  case (4 s h hs)
  then show ?case by (cases h; cases "initialized s"; cases "ctor_fails api (attempts s)")
    (auto simp: meyers_inv_def Meyers_GetInstance_def Meyers_dtor_def local_static_def construct_at_def this_def modify_def bind_def split: if_splits)
qed (auto simp: meyers_inv_def)

lemma meyers_at_most_once:
  "\<exists>s. (run_program (Meyers_GetInstance api) (Meyers_handler api) us ((), storage_start) = Some (Ret () ((), s)) \<and> history s \<in> {[], [Constructed, Destructed]}
    \<or> run_program (Meyers_GetInstance api) (Meyers_handler api) us ((), storage_start) = Some (Term ((), s)))"
proof -
  have "meyers_inv storage_start" by (simp add: meyers_inv_def storage_start_def)
  from meyers.program_ends[OF this, of api us] show ?thesis by (auto simp: meyers_inv_def split: if_splits)
qed

end
