(* ===== verification/StorageRuns.thy ===== *)
theory StorageRuns
imports StorageDevices
begin

text \<open>
  The notifier of storage devices together with the service it listens to: the devices it keeps follow those of the service, when no device
  comes or goes while it is constructed; and what happens when one does, or when the bus refuses a connection.
\<close>

section \<open>The service and the notifier\<close>

text \<open>The state: the bus and the notifier, the file systems of the service, the messages that are not handled yet.\<close>

type_synonym 'w usystem = "('w \<times> notifier) \<times> string list \<times> bus_msg list"

definition is_device_msg :: "string \<Rightarrow> string list \<Rightarrow> bool" where
  "is_device_msg p interfaces \<longleftrightarrow> prefix BLOCK_DEVICES_PATH p \<and> FILESYSTEM_INTERFACE \<in> set interfaces"

inductive ustep :: "'w bus_api \<Rightarrow> 'w usystem \<Rightarrow> 'w usystem \<Rightarrow> bool" for api where
  appears: "is_device_msg p interfaces \<Longrightarrow> p \<notin> set present \<Longrightarrow> ustep api (st, present, msgs) (st, present @ [p], msgs @ [Added_Msg p interfaces])"
| vanishes: "is_device_msg p interfaces \<Longrightarrow> p \<in> set present \<Longrightarrow> ustep api (st, present, msgs) (st, remove1 p present, msgs @ [Removed_Msg p interfaces])"
| other_added: "\<not> is_device_msg p interfaces \<Longrightarrow> ustep api (st, present, msgs) (st, present, msgs @ [Added_Msg p interfaces])"
| other_removed: "\<not> is_device_msg p interfaces \<Longrightarrow> ustep api (st, present, msgs) (st, present, msgs @ [Removed_Msg p interfaces])"
| changes: "ustep api (st, present, msgs) (st, present, msgs @ [Properties_Msg p i ms])"
| handles: "handle api msg st = Some (Ret () st') \<Longrightarrow> ustep api (st, present, msg # msgs) (st', present, msgs)"

inductive_cases ustepE: "ustep api (st, present, msgs) c"

text \<open>The devices after messages were handled, and those that were announced.\<close>

fun after_msg :: "bus_msg \<Rightarrow> string list \<Rightarrow> string list" where
  "after_msg (Added_Msg p interfaces) ds = (if is_device_msg p interfaces then ds @ [p] else ds)"
| "after_msg (Removed_Msg p interfaces) ds = (if is_device_msg p interfaces then remove1 p ds else ds)"
| "after_msg (Properties_Msg p i ms) ds = ds"

fun expected :: "bus_msg list \<Rightarrow> string list \<Rightarrow> bool" where
  "expected [] ds = True"
| "expected (msg # msgs) ds = ((case msg of Added_Msg p interfaces \<Rightarrow> is_device_msg p interfaces \<longrightarrow> p \<notin> set ds
     | Removed_Msg p interfaces \<Rightarrow> is_device_msg p interfaces \<longrightarrow> p \<in> set ds | _ \<Rightarrow> True) \<and> expected msgs (after_msg msg ds))"

fun announced_step :: "storage_event \<Rightarrow> string list \<Rightarrow> string list" where
  "announced_step (StorageDeviceAdded p) ds = ds @ [p]"
| "announced_step (StorageDeviceRemoved p) ds = remove1 p ds"
| "announced_step _ ds = ds"

definition announced :: "storage_event list \<Rightarrow> string list \<Rightarrow> string list" where
  "announced es ds = fold announced_step es ds"

lemma expected_snoc: "expected (msgs @ [m]) ds \<longleftrightarrow> expected msgs ds \<and> expected [m] (fold after_msg msgs ds)"
  by (induction msgs arbitrary: ds) auto

locale working_bus = system_bus api conns for api :: "'w bus_api" and conns :: "'w \<Rightarrow> dbus_match multiset" +
  assumes works: "isConnected api w" "fst (bus_connect api m w)"
begin

lemma BlockDevice_ctor_works: "prefix BLOCK_DEVICES_PATH p \<Longrightarrow> \<exists>w'. BlockDevice_ctor api p w = Some (Ret () w')"
  using works(2)[of "PropertiesChanged p" w]
  by (cases "bus_connect api (PropertiesChanged p) w")
    (auto simp: BlockDevice_ctor_def cpp_assert_def must_be_connected_def works(1) check_def must_connect_def call_def bind_def)

lemma BlockDevice_dtor_works: "\<exists>w'. BlockDevice_dtor api p w = Some (Ret () w')"
  by (cases "bus_disconnect api (PropertiesChanged p) w") (auto simp: BlockDevice_dtor_def try_disconnect_def call_def)

text \<open>Handling the next message that was expected.\<close>

definition reacts :: "bus_msg \<Rightarrow> 'w \<Rightarrow> notifier \<Rightarrow> bool" where
  "reacts msg w n \<longleftrightarrow> (\<exists>w' es. handle api msg (w, n) = Some (Ret () (w', n\<lparr>udisks2FilesystemBlockDevices := after_msg msg (udisks2FilesystemBlockDevices n), emitted := emitted n @ es\<rparr>))
     \<and> announced es (udisks2FilesystemBlockDevices n) = after_msg msg (udisks2FilesystemBlockDevices n))"

lemma announced_append [simp]: "announced (es @ fs) ds = announced fs (announced es ds)" "announced [] ds = ds"
  by (simp_all add: announced_def)

lemma deliver_eval:
  "\<exists>es. deliver p i ms ds (w, n) = Some (Ret () (w, n\<lparr>emitted := emitted n @ es\<rparr>)) \<and> (\<forall>ds. announced es ds = ds)"
proof (induction ds arbitrary: n)
  case (Cons d ds)
  have "\<exists>es. (if d = p then OnPropertiesChanged p i ms else ret ()) (w, n) = Some (Ret () (w, n\<lparr>emitted := emitted n @ es\<rparr>)) \<and> (\<forall>ds. announced es ds = ds)"
    by (cases n) (auto simp: OnPropertiesChanged_def signal_def modify_def announced_def intro: exI[of _ "[]"] split: option.splits)
  then obtain es where es: "(if d = p then OnPropertiesChanged p i ms else ret ()) (w, n) = Some (Ret () (w, n\<lparr>emitted := emitted n @ es\<rparr>))" "\<And>ds. announced es ds = ds" by blast
  obtain fs where fs: "deliver p i ms ds (w, n\<lparr>emitted := emitted n @ es\<rparr>) = Some (Ret () (w, n\<lparr>emitted := (emitted n @ es) @ fs\<rparr>))" "\<And>ds. announced fs ds = ds"
    using Cons.IH[of "n\<lparr>emitted := emitted n @ es\<rparr>"] by auto
  have "deliver p i ms (d # ds) (w, n) = Some (Ret () (w, n\<lparr>emitted := emitted n @ (es @ fs)\<rparr>))"
    using es(1) fs(1) by (simp only: deliver.simps bind_simps append_assoc)
  then show ?case using es(2) fs(2) by (intro exI[of _ "es @ fs"]) simp
qed (auto intro!: exI[of _ "[]"])

lemma handle_expected:
  assumes "expected [msg] (udisks2FilesystemBlockDevices n)"
  shows "reacts msg w n"
proof (cases msg)
  case (Added_Msg p interfaces)
  show ?thesis
  proof (cases "is_device_msg p interfaces")
    case True
    then obtain w' where "BlockDevice_ctor api p w = Some (Ret () w')" using BlockDevice_ctor_works[of p w] by (auto simp: is_device_msg_def)
    then have "handle api msg (w, n) = Some (Ret () (w', n\<lparr>udisks2FilesystemBlockDevices := udisks2FilesystemBlockDevices n @ [p], emitted := emitted n @ [StorageDeviceAdded p]\<rparr>))"
      using Added_Msg True assms by (simp add: is_device_msg_def OnInterfacesAdded_def append_device_def signal_def this_def modify_def env_def cpp_assert_def bind_def catch_def)
    then show ?thesis using Added_Msg True by (auto simp: reacts_def announced_def)
  next
    case False
    then show ?thesis using Added_Msg by (auto simp: reacts_def is_device_msg_def OnInterfacesAdded_def intro!: exI[of _ w] exI[of _ "[]"])
  qed
next
  case (Removed_Msg p interfaces)
  show ?thesis
  proof (cases "is_device_msg p interfaces")
    case True
    obtain w' where "BlockDevice_dtor api p w = Some (Ret () w')" using BlockDevice_dtor_works by blast
    then have "handle api msg (w, n) = Some (Ret () (w', n\<lparr>udisks2FilesystemBlockDevices := remove1 p (udisks2FilesystemBlockDevices n), emitted := emitted n @ [StorageDeviceRemoved p]\<rparr>))"
      using Removed_Msg True assms by (simp add: is_device_msg_def OnInterfacesRemoved_def signal_def this_def modify_def env_def cpp_assert_def bind_def)
    then show ?thesis using Removed_Msg True by (auto simp: reacts_def announced_def)
  next
    case False
    then show ?thesis using Removed_Msg by (auto simp: reacts_def is_device_msg_def OnInterfacesRemoved_def intro!: exI[of _ w] exI[of _ "[]"])
  qed
next
  case (Properties_Msg p i ms)
  obtain es where "deliver p i ms (udisks2FilesystemBlockDevices n) (w, n) = Some (Ret () (w, n\<lparr>emitted := emitted n @ es\<rparr>))" "\<forall>ds. announced es ds = ds"
    using deliver_eval[of p i ms "udisks2FilesystemBlockDevices n" w n] by blast
  then show ?thesis using Properties_Msg by (auto simp: reacts_def this_def bind_def intro!: exI[of _ w] exI[of _ es])
qed

text \<open>The invariant: the messages that wait turn the devices of the notifier into those of the service.\<close>

definition usystem_inv :: "string list \<Rightarrow> 'w usystem \<Rightarrow> bool" where
  "usystem_inv first s = (case s of (st, present, msgs) \<Rightarrow> expected msgs (udisks2FilesystemBlockDevices (snd st))
     \<and> fold after_msg msgs (udisks2FilesystemBlockDevices (snd st)) = present \<and> announced (emitted (snd st)) first = udisks2FilesystemBlockDevices (snd st))"

lemma ustep_inv:
  assumes "ustep api s s'" "usystem_inv first s"
  shows "usystem_inv first s'"
  using assms
proof (induction rule: ustep.induct)
  case (handles msg st st' present msgs)
  obtain w n where st: "st = (w, n)" by fastforce
  have "expected [msg] (udisks2FilesystemBlockDevices n)" using handles.prems by (simp add: usystem_inv_def st)
  from handle_expected[OF this, of w] show ?case using handles by (auto simp: reacts_def usystem_inv_def st)
qed (auto simp: usystem_inv_def expected_snoc)

lemma usystem_reachable: "(ustep api)\<^sup>*\<^sup>* s s' \<Longrightarrow> usystem_inv first s \<Longrightarrow> usystem_inv first s'"
  by (induction rule: rtranclp_induct) (auto intro: ustep_inv)

lemma usystem_handles:
  assumes "usystem_inv first ((w, n), present, msg # msgs)"
  shows "\<exists>st'. handle api msg (w, n) = Some (Ret () st')"
  using handle_expected[of msg n w] assms by (auto simp: usystem_inv_def reacts_def)

lemma must_connect_works: "\<exists>w'. must_connect api m w = Some (Ret () w')"
  using works(2)[of m w] by (cases "bus_connect api m w") (auto simp: must_connect_def call_def)

lemma append_devices_work:
  assumes "\<forall>p \<in> set ps. prefix BLOCK_DEVICES_PATH p"
  shows "\<exists>w'. append_devices api ps (w, n) = Some (Ret () (w', n\<lparr>udisks2FilesystemBlockDevices := udisks2FilesystemBlockDevices n @ ps\<rparr>))"
  using assms
proof (induction ps arbitrary: w n)
  case (Cons p ps)
  obtain w1 where "BlockDevice_ctor api p w = Some (Ret () w1)" using BlockDevice_ctor_works[of p w] Cons.prems by auto
  then have "append_device api p (w, n) = Some (Ret () (w1, n\<lparr>udisks2FilesystemBlockDevices := udisks2FilesystemBlockDevices n @ [p]\<rparr>))"
    by (simp add: append_device_def env_def modify_def)
  then show ?case using Cons.IH[of w1 "n\<lparr>udisks2FilesystemBlockDevices := udisks2FilesystemBlockDevices n @ [p]\<rparr>"] Cons.prems by auto
qed simp

lemma ctor_works:
  assumes "\<And>w. fst (GetManagedObjects api w) = Some objects"
    and "ps = map fst (filter (\<lambda>(p, interfaces). FILESYSTEM_INTERFACE \<in> set interfaces) objects)" "\<forall>p \<in> set ps. prefix BLOCK_DEVICES_PATH p"
  shows "\<exists>w'. Notifier_ctor api (w, first_notifier) = Some (Ret () (w', \<lparr>udisks2FilesystemBlockDevices = ps, emitted = []\<rparr>))"
proof -
  obtain w1 where 1: "must_connect api InterfacesAdded w = Some (Ret () w1)" using must_connect_works by blast
  obtain w2 where 2: "must_connect api InterfacesRemoved w1 = Some (Ret () w2)" using must_connect_works by blast
  obtain w3 where 3: "GetUDisks2FilesystemBlockDevicePaths api w2 = Some (Ret ps w3)"
    using paths_outcome[OF works(1), of w2] assms(1)[of w2] assms(2) by auto
  obtain w4 where 4: "append_devices api ps (w3, first_notifier) = Some (Ret () (w4, \<lparr>udisks2FilesystemBlockDevices = ps, emitted = []\<rparr>))"
    using append_devices_work[OF assms(3), of w3 first_notifier] by (auto simp: first_notifier_def)
  show ?thesis using 1 2 3 4
    by (simp add: Notifier_ctor_def must_be_connected_def works(1) check_def env_def unless_commit_def append_all_def catch_def)
qed

end

text \<open>A bus that computes, with matches it refuses.\<close>

definition sample_bus :: "bool \<Rightarrow> (dbus_match \<Rightarrow> bool) \<Rightarrow> (string \<times> string list) list \<Rightarrow> dbus_match list bus_api" where
  "sample_bus ndebug refuses objects = \<lparr>bus_ndebug = ndebug, isConnected = (\<lambda>w. True),
     bus_connect = (\<lambda>m w. if refuses m then (False, w) else (True, m # w)), bus_disconnect = (\<lambda>m w. (m \<in> set w, remove1 m w)),
     GetManagedObjects = (\<lambda>w. (Some objects, w)), Device_property = (\<lambda>p w. (None, w))\<rparr>"

interpretation sample_bus: system_bus "sample_bus ndebug refuses objects" mset for ndebug refuses objects
  by unfold_locales (auto simp: sample_bus_def split: if_splits)

interpretation sample_working_bus: working_bus "sample_bus ndebug (\<lambda>_. False) objects" mset for ndebug objects
  by unfold_locales (auto simp: sample_bus_def)

section \<open>Properties\<close>

text \<open>C27: A notifier that was constructed, handled any messages and was destroyed, and one whose constructor threw, have given back every
  connection to the bus, whichever connections the bus refused and whether \<open>GetManagedObjects\<close> failed; only assertions can end a debug
  build.\<close>

theorem notifier_gives_back_connections:
  assumes "system_bus api conns" "isConnected api w" "run = andthen (Notifier_ctor api) (andthen (handle_all api msgs) (Notifier_dtor api))"
  shows "(\<exists>w' n. conns w' = conns w \<and> (run (w, first_notifier) = Some (Ret () (w', n)) \<or> run (w, first_notifier) = Some (Exc DBusError (w', n))))
    \<or> (\<not> bus_ndebug api \<and> (\<exists>st. run (w, first_notifier) = Some (Term st)))"
proof -
  note l = assms(1)
  let ?B = "add_mset InterfacesRemoved (add_mset InterfacesAdded (conns w))"
  from system_bus.Notifier_ctor_outcome[OF l assms(2) refl] show ?thesis
    unfolding system_bus.holds_or_undone_def[OF l]
  proof (elim disjE exE conjE, goal_cases)
    case (1 st)
    from system_bus.handle_all_stays[OF l, of ?B msgs, unfolded system_bus.stays_def[OF l], rule_format, OF 1(1)] show ?case
    proof (elim disjE exE conjE, goal_cases)
      case (1 st1)
      obtain w1 n1 where st1: "st1 = (w1, n1)" by fastforce
      from system_bus.Notifier_dtor_outcome[OF l 1(1)[unfolded st1]] obtain w2 where "Notifier_dtor api (w1, n1) = Some (Ret () (w2, n1))" "conns w2 = conns w" by blast
      then show ?case using 1(2) \<open>Notifier_ctor api (w, first_notifier) = Some (Ret () st)\<close> st1 assms(3) by auto
    qed (use 1 assms(3) in \<open>auto dest: system_bus.handle_all_no_exc[OF l]\<close>)
  qed (use assms(3) in auto)
qed

definition disk :: string where "disk = ''/org/freedesktop/UDisks2/block_devices/sdb1''"

lemma prefix_disk [simp]: "prefix BLOCK_DEVICES_PATH disk"
  by (simp add: disk_def)

lemma notifier_gives_back_connections_witness:
  "\<exists>w' n. mset w' = {#} \<and> (andthen (Notifier_ctor (sample_bus True (\<lambda>m. m = PropertiesChanged disk) [])) (andthen
      (handle_all (sample_bus True (\<lambda>m. m = PropertiesChanged disk) []) [Added_Msg disk [FILESYSTEM_INTERFACE]])
      (Notifier_dtor (sample_bus True (\<lambda>m. m = PropertiesChanged disk) []))) ([], first_notifier) = Some (Ret () (w', n))
    \<or> andthen (Notifier_ctor (sample_bus True (\<lambda>m. m = PropertiesChanged disk) [])) (andthen
      (handle_all (sample_bus True (\<lambda>m. m = PropertiesChanged disk) []) [Added_Msg disk [FILESYSTEM_INTERFACE]])
      (Notifier_dtor (sample_bus True (\<lambda>m. m = PropertiesChanged disk) []))) ([], first_notifier) = Some (Exc DBusError (w', n)))"
  using notifier_gives_back_connections[OF sample_bus.system_bus_axioms[of True "\<lambda>m. m = PropertiesChanged disk" "[]"] _ refl, of "[]"
      "[Added_Msg disk [FILESYSTEM_INTERFACE]]"]
  by (simp add: sample_bus_def)



section \<open>Findings\<close>

text \<open>A device that appears between the connections and the answer of the service is in the answer and announced by a message too: a debug build
  ends, a release build keeps two objects for it and passes each of its signals on twice.\<close>

lemma device_during_construction:
  assumes "working_bus api conns" "is_device_msg p interfaces" "udisks2FilesystemBlockDevices n = [p]"
  shows "\<exists>w' n'. handle api (Added_Msg p interfaces) (w, n) = Some (if bus_ndebug api then Ret () (w', n') else Term (w', n'))
    \<and> (bus_ndebug api \<longrightarrow> udisks2FilesystemBlockDevices n' = [p, p]
      \<and> handle api (Properties_Msg p FILESYSTEM_INTERFACE (Some [])) (w', n')
          = Some (Ret () (w', n'\<lparr>emitted := emitted n' @ [StorageDeviceUnmounted p, StorageDeviceUnmounted p]\<rparr>)))"
proof -
  note l = assms(1)
  obtain w' where w': "BlockDevice_ctor api p w = Some (Ret () w')" using working_bus.BlockDevice_ctor_works[OF l, of p w] assms(2) by (auto simp: is_device_msg_def)
  let ?n' = "n\<lparr>udisks2FilesystemBlockDevices := [p, p], emitted := emitted n @ [StorageDeviceAdded p]\<rparr>"
  show ?thesis
  proof (cases "bus_ndebug api")
    case True
    then have "handle api (Added_Msg p interfaces) (w, n) = Some (Ret () (w', ?n'))"
      using w' assms(2,3) by (simp add: is_device_msg_def OnInterfacesAdded_def append_device_def signal_def this_def modify_def env_def cpp_assert_def bind_def catch_def)
    moreover have "handle api (Properties_Msg p FILESYSTEM_INTERFACE (Some [])) (w', ?n')
        = Some (Ret () (w', ?n'\<lparr>emitted := emitted ?n' @ [StorageDeviceUnmounted p, StorageDeviceUnmounted p]\<rparr>))"
      by (simp add: OnPropertiesChanged_def signal_def this_def modify_def bind_def)
    ultimately show ?thesis using True by (intro exI[of _ w'] exI[of _ ?n']) simp
  next
    case False
    then show ?thesis using assms(2,3)
      by (simp add: is_device_msg_def OnInterfacesAdded_def signal_def this_def modify_def cpp_assert_def bind_def catch_def)
  qed
qed

text \<open>\<open>DBusException\<close> is no \<open>std::runtime_error\<close>: when the bus refuses the connection for a new device, which was announced already, the
  exception leaves the slot, and its removal ends a debug build.\<close>

lemma refused_device_throws:
  assumes "is_device_msg p interfaces" "isConnected api w" "bus_connect api (PropertiesChanged p) w = (False, w')" "p \<notin> set (udisks2FilesystemBlockDevices n)"
  shows "handle api (Added_Msg p interfaces) (w, n) = Some (Exc DBusError (w', n\<lparr>emitted := emitted n @ [StorageDeviceAdded p]\<rparr>))"
    and "\<not> bus_ndebug api \<Longrightarrow> \<exists>st. handle api (Removed_Msg p interfaces) (w', n) = Some (Term st)"
  using assms by (simp_all add: is_device_msg_def OnInterfacesAdded_def OnInterfacesRemoved_def append_device_def BlockDevice_ctor_def must_be_connected_def
      must_connect_def call_def check_def signal_def this_def modify_def env_def cpp_assert_def bind_def catch_def)

end
