(* ===== verification/SystemLibraries.thy ===== *)
theory SystemLibraries
imports MountPoints
begin

text \<open>
  The name of the user (\<open>src/util/get_user_name_unx.cpp\<close>) and libraries that are loaded at run time
  (\<open>dynamic_loader_unx.cpp\<close>, \<open>dynamic_library.cpp\<close>, \<open>dynamic_library_unx.cpp\<close>).

  The functions of the system are parameters; a handle or the address of a symbol that is \<open>NULL\<close> is \<open>None\<close>.  A buffer is its size, and
  growing it may fail.
\<close>

section \<open>The name of the user\<close>

record 'w passwd_api =
  os_getuid :: "'w \<Rightarrow> nat"
  os_sysconf :: "'w \<Rightarrow> int"
  buf_resize :: "nat \<Rightarrow> 'w \<Rightarrow> bool \<times> 'w"
  os_getpwuid_r :: "nat \<Rightarrow> nat \<Rightarrow> 'w \<Rightarrow> (int \<times> string option) \<times> 'w"

definition resize_to :: "('w, 'x) passwd_api_scheme \<Rightarrow> nat \<Rightarrow> (unit, 'w) fprog" where
  "resize_to api n = bind (call (buf_resize api n)) (\<lambda>ok. check ok bad_alloc)"

partial_function (option) getpw_loop :: "('w, 'x) passwd_api_scheme \<Rightarrow> nat \<Rightarrow> nat \<Rightarrow> 'w \<Rightarrow> (exn, int \<times> string option, 'w) res option" where
  [code]: "getpw_loop api kUid bufSize w = bind (call (os_getpwuid_r api kUid bufSize)) (\<lambda>(retCode, pResult) w.
     if retCode = ERANGE then bind (resize_to api (bufSize * 2)) (\<lambda>_. getpw_loop api kUid (bufSize * 2)) w
     else if retCode = EINTR then getpw_loop api kUid bufSize w else ret (retCode, pResult) w) w"

definition GetUserName :: "('w, 'x) passwd_api_scheme \<Rightarrow> (string, 'w) fprog" where
  "GetUserName api = (\<lambda>w. let kUid = os_getuid api w; bufSize = (if os_sysconf api w = - 1 then 1024 else nat (os_sysconf api w)) in
     andthen (resize_to api bufSize) (bind (getpw_loop api kUid bufSize) (\<lambda>(retCode, pResult).
       if retCode \<noteq> ESUCCESS then ret [] else case pResult of None \<Rightarrow> ret [] | Some name \<Rightarrow> ret name)) w)"

text \<open>A password file with a record of a size for the user; interruptions are finitely many and memory suffices.\<close>

locale passwd_file =
  fixes api :: "('w, 'x) passwd_api_scheme" and uid needed :: nat and name :: "string option" and interrupts :: "'w \<Rightarrow> nat"
  assumes getuid: "os_getuid api w = uid"
    and sysconf: "os_sysconf api w = - 1 \<or> os_sysconf api w > 0"
    and getpwuid_r: "os_getpwuid_r api uid n w = ((rc, r), w') \<Longrightarrow> (rc = EINTR \<and> interrupts w' < interrupts w)
      \<or> interrupts w' \<le> interrupts w \<and> (if n < needed then rc = ERANGE else rc = ESUCCESS \<and> r = name)"
    and resize: "buf_resize api n w = (ok, w') \<Longrightarrow> ok \<and> interrupts w' \<le> interrupts w"
begin

lemma loop_returns:
  assumes "0 < n"
  shows "\<exists>w'. getpw_loop api uid n w = Some (Ret (ESUCCESS, name) w')"
  using assms
proof (induction "interrupts w + (needed - n)" arbitrary: n w rule: less_induct)
  case less
  obtain rc r w1 where g: "os_getpwuid_r api uid n w = ((rc, r), w1)" by (metis surj_pair)
  consider (again) "rc = EINTR" "interrupts w1 < interrupts w" | (small) "interrupts w1 \<le> interrupts w" "n < needed" "rc = ERANGE"
    | (found) "rc = ESUCCESS" "r = name" using getpwuid_r[OF g] by (auto split: if_splits)
  then show ?case
  proof cases
    case again
    then obtain w2 where "getpw_loop api uid n w1 = Some (Ret (ESUCCESS, name) w2)" using less.hyps[of w1 n] less.prems by auto
    then show ?thesis using again g by (subst getpw_loop.simps) simp
  next
    case small
    obtain ok w2 where b: "buf_resize api (n * 2) w1 = (ok, w2)" by fastforce
    then have 2: "ok" "interrupts w2 \<le> interrupts w" using resize[OF b] small by auto
    then have "interrupts w2 + (needed - n * 2) < interrupts w + (needed - n)" using small less.prems by linarith
    then obtain w3 where "getpw_loop api uid (n * 2) w2 = Some (Ret (ESUCCESS, name) w3)" using less.hyps[of w2 "n * 2"] less.prems by auto
    then show ?thesis using small g b 2 by (subst getpw_loop.simps) (simp add: resize_to_def)
  next
    case found
    then show ?thesis using g by (subst getpw_loop.simps) simp
  qed
qed

lemma name_returned: "\<exists>w'. GetUserName api w = Some (Ret (case name of None \<Rightarrow> [] | Some n \<Rightarrow> n) w')"
proof -
  let ?n = "if os_sysconf api w = - 1 then 1024 else nat (os_sysconf api w)"
  have n: "0 < ?n" using sysconf[of w] by auto
  obtain ok w1 where b: "buf_resize api ?n w = (ok, w1)" by fastforce
  then have ok: ok using resize[OF b] by simp
  obtain w2 where "getpw_loop api uid ?n w1 = Some (Ret (ESUCCESS, name) w2)" using loop_returns[OF n] by blast
  then show ?thesis using b ok getuid[of w] by (cases name) (simp_all add: GetUserName_def resize_to_def Let_def)
qed

end

text \<open>However small the first buffer is and however often the call is interrupted, the name of the user is returned, and the empty name for
  a user without record.\<close>

theorem user_name_returned:
  assumes "passwd_file api uid needed name interrupts"
  shows "\<exists>w'. GetUserName api w = Some (Ret (case name of None \<Rightarrow> [] | Some n \<Rightarrow> n) w')"
  by (rule passwd_file.name_returned[OF assms])

text \<open>A password file in memory, whose state is the number of interruptions to come.\<close>

definition sample_passwd :: "nat \<Rightarrow> string option \<Rightarrow> nat passwd_api" where
  "sample_passwd needed name = \<lparr>os_getuid = (\<lambda>w. 1000), os_sysconf = (\<lambda>w. 16), buf_resize = (\<lambda>n w. (True, w)),
     os_getpwuid_r = (\<lambda>u n w. if w > 0 then ((EINTR, None), w - 1) else if n < needed then ((ERANGE, None), w) else ((ESUCCESS, name), w))\<rparr>"

interpretation sample_passwd: passwd_file "sample_passwd needed name" 1000 needed name id for needed name
  by unfold_locales (auto simp: sample_passwd_def split: if_splits)

lemma user_name_of_sample: "\<exists>w'. GetUserName (sample_passwd 5000 (Some ''ana'')) 7 = Some (Ret ''ana'' w')"
  using user_name_returned[OF sample_passwd.passwd_file_axioms, of 5000 "Some ''ana''" 7] by simp

section \<open>Libraries\<close>

record 'w dl_api =
  dl_ndebug :: bool
  os_dlopen :: "string \<Rightarrow> 'w \<Rightarrow> nat option \<times> 'w"
  os_dlsym :: "nat \<Rightarrow> string \<Rightarrow> 'w \<Rightarrow> nat option \<times> 'w"
  os_dlclose :: "nat \<Rightarrow> 'w \<Rightarrow> int \<times> 'w"

record dynamic_library =
  handle :: nat
  autoUnload :: bool

definition DynamicLoader_Load :: "('w, 'x) dl_api_scheme \<Rightarrow> string \<Rightarrow> (nat, 'w) fprog" where
  "DynamicLoader_Load api dynLibName = andthen (check (valid_qm_path dynLibName) InvalidArgument)
     (bind (call (os_dlopen api dynLibName)) (\<lambda>h. case h of None \<Rightarrow> throw DynamicLoaderError | Some h \<Rightarrow> ret h))"

definition DynamicLoader_Unload :: "('w, 'x) dl_api_scheme \<Rightarrow> nat option \<Rightarrow> (unit, 'w) fprog" where
  "DynamicLoader_Unload api dynLibHandle = (case dynLibHandle of None \<Rightarrow> throw (mk_exn NullArgumentException)
     | Some h \<Rightarrow> bind (call (os_dlclose api h)) (\<lambda>rc. check (rc = 0) DynamicLoaderError))"

definition DynamicLibrary_ctor :: "('w, 'x) dl_api_scheme \<Rightarrow> string \<Rightarrow> (dynamic_library, 'w) fprog" where
  "DynamicLibrary_ctor api dynLibName = bind (DynamicLoader_Load api dynLibName) (\<lambda>h. ret \<lparr>handle = h, autoUnload = True\<rparr>)"

definition DynamicLibrary_dtor :: "('w, 'x) dl_api_scheme \<Rightarrow> dynamic_library \<Rightarrow> (unit, 'w) fprog" where
  "DynamicLibrary_dtor api lib = (if autoUnload lib then catch (DynamicLoader_Unload api (Some (handle lib)))
     (dispatch [(std_exception, \<lambda>exc. cpp_assert (dl_ndebug api) False)] throw) else ret ())"

definition LoadSymbol :: "('w, 'x) dl_api_scheme \<Rightarrow> dynamic_library \<Rightarrow> string \<Rightarrow> (nat, 'w) fprog" where
  "LoadSymbol api lib symbolName = andthen (check (valid_qm_path symbolName) InvalidArgument)
     (bind (call (os_dlsym api (handle lib) symbolName)) (\<lambda>a. case a of None \<Rightarrow> throw DynamicLoaderError | Some a \<Rightarrow> ret a))"

definition GetAutoUnload :: "dynamic_library \<Rightarrow> bool" where
  "GetAutoUnload lib = autoUnload lib"

definition SetAutoUnload :: "bool \<Rightarrow> dynamic_library \<Rightarrow> dynamic_library" where
  "SetAutoUnload v lib = lib\<lparr>autoUnload := v\<rparr>"

text \<open>A destructor does not throw: a library that cannot be unloaded ends a debug build.\<close>

lemma destructor_outcome:
  "DynamicLibrary_dtor api lib w = Some (if \<not> autoUnload lib then Ret () w else let (rc, w') = os_dlclose api (handle lib) w in
     if rc = 0 \<or> dl_ndebug api then Ret () w' else Term w')"
proof -
  obtain rc w' where c: "os_dlclose api (handle lib) w = (rc, w')" by fastforce
  have std: "derived_from (exn_class DynamicLoaderError) std_exception" by (simp add: derived_from_iff DynamicLoaderError_def mk_exn_def)
  show ?thesis using c std by (cases "rc = 0") (simp_all add: DynamicLibrary_dtor_def DynamicLoader_Unload_def)
qed

end
