(* ===== verification/ThreadSteps.thy ===== *)
theory ThreadSteps
imports Exceptions
begin

text \<open>
  The life of threads (\<open>src/base/thread.cpp\<close>, \<open>thread_data.hpp\<close>, \<open>thread_unx.cpp\<close>) as an interleaving.

  A parent thread owns any number of \<open>Thread\<close> objects and calls their operations; every started object has
  a child thread that runs \<open>Thread::Run\<close>.  Parent and child share a \<open>ThreadData\<close> through \<open>shared_ptr\<close>: the
  pointer \<open>pData_\<close> of the object, the local \<open>pTmpData\<close> of the running operation and the local \<open>pData\<close> of
  \<open>Run\<close>.  \<open>refs\<close> is its reference count; the data is gone when it is 0.

  A program point is a statement of the source; \<open>padv\<close> is the step of the parent from each point,
  \<open>cadv\<close> that of a child, and \<open>tstep\<close> interleaves them.  A \<open>choice\<close> resolves what the source leaves to the
  environment: the result of \<open>pthread_create\<close>, an interruption of the parent, a timeout, how the main
  function ends.  Locking does not fail.  The parent is none of the children, so that the tests for joining
  oneself are never met, and exceptions are propagated as in C++11.  What other threads see of an operation
  on an object without data is nothing, so such calls are not steps.
\<close>

section \<open>Shared data and program points\<close>

datatype who = Parent | Child

datatype join_kind = Join | JoinInDtor | JoinFor bool

text \<open>\<open>JoinFor b\<close> is \<open>TryJoinFor\<close> with a positive time when \<open>b\<close>; \<open>Until_Check b\<close> is \<open>TryJoinUntil\<close> with a deadline
  in the future when \<open>b\<close>.\<close>

datatype ppc =
    P_Idle
  | Start_Copy | Start_Lock | Start_Read | Start_Unlock bool | Start_Create | Start_SetHandle
  | Wait_Lock | Wait_Test | Wait_Sleep | Wait_Woken | Wait_Unlock | Start_Finish
  | Join_Check join_kind | Join_Point join_kind | Join_Copy join_kind | Join_Lock join_kind | Join_Test join_kind
  | Join_Sleep join_kind | Join_Woken join_kind bool | Join_Awake join_kind bool | Join_Unlock join_kind bool | Join_Unwind
  | Join_Reset bool | Join_Result bool
  | Try_Check | Try_Copy | Try_Lock | Try_Read | Try_Unlock bool
  | Until_Check bool | Until_Point bool
  | Detach_Check | Detach_Copy | Detach_Lock | Detach_Set | Detach_Unlock | Detach_Reset
  | Request_Check bool | Request_Lock bool | Request_Set bool | Request_Unlock bool
  | Dtor_Check | Dtor_Members | Leave

datatype cpc =
    C_None | C_Share | C_Start_Lock | C_Start_Set | C_Start_Notify | C_Start_Unlock
  | C_Main | C_Point_Lock | C_Point_Read | C_Point_Unlock | C_SetRet int | C_SetExc exn
  | C_End_Lock | C_End_Test | C_End_Notify | C_End_Unlock bool | C_Detached | C_Leave bool | C_Done bool

text \<open>The members of \<open>ThreadData\<close> and its parts, the child, and for the statements: how the main function
  ended, whether the data was made for a detached thread and whether \<open>Detach\<close> was called.\<close>

record tdata =
  refs :: nat
  nativeHandle :: bool
  started :: bool
  startedMtx :: "who option"
  joinedOrDetached :: bool
  joinedOrDetachedMtx :: "who option"
  interruptionRequested :: bool
  interruptionRequestedMtx :: "who option"
  retCode :: int
  exceptionPtr :: "exn option"
  child :: cpc
  outcome :: "(exn + int) option"
  born_detached :: bool
  detach_called :: bool

definition ThreadData_ctor :: "bool \<Rightarrow> tdata" where
  "ThreadData_ctor detached = \<lparr>refs = 1, nativeHandle = False, started = False, startedMtx = None,
     joinedOrDetached = detached, joinedOrDetachedMtx = None, interruptionRequested = False,
     interruptionRequestedMtx = None, retCode = 1, exceptionPtr = None, child = C_None, outcome = None,
     born_detached = detached, detach_called = False\<rparr>"

datatype choice = Go | Fail | Interrupt | Timeout | Return int | Throw exn

definition result_of :: "tdata \<Rightarrow> exn + int" where
  "result_of d = (case exceptionPtr d of Some e \<Rightarrow> Inl e | None \<Rightarrow> Inr (retCode d))"

section \<open>Steps of the parent\<close>

text \<open>A step gives the next point, whether \<open>pData_\<close> of the object still points to the data, the data and what
  a join delivered.\<close>

type_synonym parent_move = "ppc \<times> bool \<times> tdata \<times> (exn + int) option"

definition move :: "ppc \<Rightarrow> tdata \<Rightarrow> parent_move option" where
  "move p d = Some (p, True, d, None)"

definition when_free :: "who option \<Rightarrow> 'a option \<Rightarrow> 'a option" where
  "when_free m r = (if m = None then r else None)"

definition copy_ptr :: "tdata \<Rightarrow> tdata" where
  "copy_ptr d = d\<lparr>refs := refs d + 1\<rparr>"

definition drop_ptr :: "tdata \<Rightarrow> tdata" where
  "drop_ptr d = d\<lparr>refs := refs d - 1\<rparr>"

text \<open>An interruption point of the parent: it may throw unless interruption is disabled.\<close>

definition point :: "join_kind \<Rightarrow> choice \<Rightarrow> ppc \<Rightarrow> ppc \<Rightarrow> ppc option" where
  "point k c p thrown = (if c = Go then Some p else if c = Interrupt \<and> k \<noteq> JoinInDtor then Some thrown else None)"

fun after_join_point :: "join_kind \<Rightarrow> ppc" where
  "after_join_point (JoinFor False) = Try_Check" | "after_join_point k = Join_Copy k"

fun padv :: "ppc \<Rightarrow> choice \<Rightarrow> bool \<Rightarrow> tdata \<Rightarrow> parent_move option" where
  "padv Start_Copy c detached d = move Start_Lock (copy_ptr d)"
| "padv Start_Lock c detached d = when_free (startedMtx d) (move Start_Read (d\<lparr>startedMtx := Some Parent\<rparr>))"
| "padv Start_Read c detached d = move (Start_Unlock (started d)) d"
| "padv (Start_Unlock b) c detached d = move (if b then Leave else Start_Create) (d\<lparr>startedMtx := None\<rparr>)"
| "padv Start_Create c detached d =
     (if c = Fail then move Leave d else move Start_SetHandle (d\<lparr>child := C_Share\<rparr>))"
| "padv Start_SetHandle c detached d = move Wait_Lock (d\<lparr>nativeHandle := True\<rparr>)"
| "padv Wait_Lock c detached d = when_free (startedMtx d) (move Wait_Test (d\<lparr>startedMtx := Some Parent\<rparr>))"
| "padv Wait_Test c detached d =
     (if started d then move Wait_Unlock d else move Wait_Sleep (d\<lparr>startedMtx := None\<rparr>))"
| "padv Wait_Sleep c detached d = move Wait_Woken d"
| "padv Wait_Woken c detached d = when_free (startedMtx d) (move Wait_Test (d\<lparr>startedMtx := Some Parent\<rparr>))"
| "padv Wait_Unlock c detached d = move Start_Finish (d\<lparr>startedMtx := None\<rparr>)"
| "padv Start_Finish c detached d =
     (if detached then Some (Leave, False, drop_ptr d, None) else move Leave d)"
| "padv (Join_Check k) c detached d = move (if nativeHandle d then Join_Point k else P_Idle) d"
| "padv (Join_Point k) c detached d = Option.bind (point k c (after_join_point k) P_Idle) (\<lambda>p. move p d)"
| "padv (Join_Copy k) c detached d = move (Join_Lock k) (copy_ptr d)"
| "padv (Join_Lock k) c detached d =
     when_free (joinedOrDetachedMtx d) (move (Join_Test k) (d\<lparr>joinedOrDetachedMtx := Some Parent\<rparr>))"
| "padv (Join_Test k) c detached d =
     (if joinedOrDetached d then move (Join_Unlock k True) d
      else Option.bind (point k c (Join_Sleep k) Join_Unwind)
        (\<lambda>p. move p (if c = Go then d\<lparr>joinedOrDetachedMtx := None\<rparr> else d)))"
| "padv (Join_Sleep k) c detached d = move (Join_Woken k (c = Timeout)) d"
| "padv (Join_Woken k timeout) c detached d =
     when_free (joinedOrDetachedMtx d) (move (Join_Awake k timeout) (d\<lparr>joinedOrDetachedMtx := Some Parent\<rparr>))"
| "padv (Join_Awake k timeout) c detached d = Option.bind
     (point k c (if timeout \<and> k = JoinFor True then Join_Unlock k (joinedOrDetached d) else Join_Test k) Join_Unwind)
     (\<lambda>p. move p d)"
| "padv (Join_Unlock k b) c detached d =
     move (if b then Join_Reset (k = JoinInDtor) else Leave) (d\<lparr>joinedOrDetachedMtx := None\<rparr>)"
| "padv Join_Unwind c detached d = move Leave (d\<lparr>joinedOrDetachedMtx := None\<rparr>)"
| "padv (Join_Reset dtor) c detached d = Some (Join_Result dtor, False, drop_ptr d, None)"
| "padv (Join_Result dtor) c detached d = Some (Leave, True, d, if dtor then None else Some (result_of d))"
| "padv Try_Check c detached d = move (if nativeHandle d then Try_Copy else P_Idle) d"
| "padv Try_Copy c detached d = move Try_Lock (copy_ptr d)"
| "padv Try_Lock c detached d =
     when_free (joinedOrDetachedMtx d) (move Try_Read (d\<lparr>joinedOrDetachedMtx := Some Parent\<rparr>))"
| "padv Try_Read c detached d = move (Try_Unlock (joinedOrDetached d)) d"
| "padv (Try_Unlock b) c detached d = move (if b then Join_Reset False else Leave) (d\<lparr>joinedOrDetachedMtx := None\<rparr>)"
| "padv (Until_Check future) c detached d = move (if nativeHandle d then Until_Point future else P_Idle) d"
| "padv (Until_Point future) c detached d =
     Option.bind (point Join c (if future then Join_Check (JoinFor True) else Try_Check) P_Idle) (\<lambda>p. move p d)"
| "padv Detach_Check c detached d = move (if nativeHandle d then Detach_Copy else P_Idle) d"
| "padv Detach_Copy c detached d = move Detach_Lock (copy_ptr d)"
| "padv Detach_Lock c detached d =
     when_free (joinedOrDetachedMtx d) (move Detach_Set (d\<lparr>joinedOrDetachedMtx := Some Parent\<rparr>))"
| "padv Detach_Set c detached d = move Detach_Unlock (d\<lparr>joinedOrDetached := True, detach_called := True\<rparr>)"
| "padv Detach_Unlock c detached d = move Detach_Reset (d\<lparr>joinedOrDetachedMtx := None\<rparr>)"
| "padv Detach_Reset c detached d = Some (Leave, False, drop_ptr d, None)"
| "padv (Request_Check dtor) c detached d = move (if nativeHandle d then Request_Lock dtor else P_Idle) d"
| "padv (Request_Lock dtor) c detached d =
     when_free (interruptionRequestedMtx d) (move (Request_Set dtor) (d\<lparr>interruptionRequestedMtx := Some Parent\<rparr>))"
| "padv (Request_Set dtor) c detached d = move (Request_Unlock dtor) (d\<lparr>interruptionRequested := True\<rparr>)"
| "padv (Request_Unlock dtor) c detached d =
     move (if dtor then Join_Check JoinInDtor else P_Idle) (d\<lparr>interruptionRequestedMtx := None\<rparr>)"
| "padv Dtor_Check c detached d = move (if nativeHandle d then Request_Check True else Dtor_Members) d"
| "padv Dtor_Members c detached d = Some (P_Idle, False, drop_ptr d, None)"
| "padv Leave c detached d = move P_Idle (drop_ptr d)"
| "padv P_Idle c detached d = None"

text \<open>Where the operations start: \<open>Start\<close>, \<open>Join\<close>, \<open>TryJoin\<close>, \<open>TryJoinFor\<close>, \<open>TryJoinUntil\<close>, \<open>Detach\<close>,
  \<open>RequestInterruption\<close> and the destructor.\<close>

fun entry :: "ppc \<Rightarrow> bool" where
  "entry Start_Copy = True" | "entry (Join_Check k) = (k \<noteq> JoinInDtor)" | "entry Try_Check = True"
| "entry (Until_Check b) = True" | "entry Detach_Check = True" | "entry (Request_Check b) = (\<not> b)"
| "entry Dtor_Check = True" | "entry _ = False"

section \<open>Steps of a child\<close>

datatype effect = Quiet | Notifies_Start | Notifies_Join | Terminates

text \<open>A detached thread whose main function threw ends the process, unless it was interrupted.\<close>

definition ends_process :: "exn option \<Rightarrow> bool" where
  "ends_process e = (case e of Some e \<Rightarrow> \<not> derived_from (exn_class e) ThreadInterruptedException | None \<Rightarrow> False)"

fun cadv :: "cpc \<Rightarrow> choice \<Rightarrow> tdata \<Rightarrow> (tdata \<times> effect) option" where
  "cadv C_Share c d = Some ((copy_ptr d)\<lparr>child := C_Start_Lock\<rparr>, Quiet)"
| "cadv C_Start_Lock c d = when_free (startedMtx d) (Some (d\<lparr>startedMtx := Some Child, child := C_Start_Set\<rparr>, Quiet))"
| "cadv C_Start_Set c d = Some (d\<lparr>started := True, child := C_Start_Notify\<rparr>, Quiet)"
| "cadv C_Start_Notify c d = Some (d\<lparr>child := C_Start_Unlock\<rparr>, Notifies_Start)"
| "cadv C_Start_Unlock c d = Some (d\<lparr>startedMtx := None, child := C_Main\<rparr>, Quiet)"
| "cadv C_Main c d = (case c of
      Go \<Rightarrow> Some (d\<lparr>child := C_Point_Lock\<rparr>, Quiet)
    | Return r \<Rightarrow> Some (d\<lparr>child := C_SetRet r, outcome := Some (Inr r)\<rparr>, Quiet)
    | Throw e \<Rightarrow> Some (d\<lparr>child := C_SetExc e, outcome := Some (Inl e)\<rparr>, Quiet)
    | _ \<Rightarrow> None)"
| "cadv C_Point_Lock c d = when_free (interruptionRequestedMtx d)
     (Some (d\<lparr>interruptionRequestedMtx := Some Child, child := C_Point_Read\<rparr>, Quiet))"
| "cadv C_Point_Read c d = Some (d\<lparr>interruptionRequested := False, child := C_Point_Unlock\<rparr>, Quiet)"
| "cadv C_Point_Unlock c d = Some (d\<lparr>interruptionRequestedMtx := None, child := C_Main\<rparr>, Quiet)"
| "cadv (C_SetRet r) c d = Some (d\<lparr>retCode := r, child := C_End_Lock\<rparr>, Quiet)"
| "cadv (C_SetExc e) c d = Some (d\<lparr>exceptionPtr := Some e, child := C_End_Lock\<rparr>, Quiet)"
| "cadv C_End_Lock c d = when_free (joinedOrDetachedMtx d)
     (Some (d\<lparr>joinedOrDetachedMtx := Some Child, child := C_End_Test\<rparr>, Quiet))"
| "cadv C_End_Test c d = Some (if joinedOrDetached d then d\<lparr>child := C_End_Unlock False\<rparr>
      else d\<lparr>joinedOrDetached := True, child := C_End_Notify\<rparr>, Quiet)"
| "cadv C_End_Notify c d = Some (d\<lparr>child := C_End_Unlock True\<rparr>, Notifies_Join)"
| "cadv (C_End_Unlock b) c d = Some (d\<lparr>joinedOrDetachedMtx := None, child := if b then C_Leave True else C_Detached\<rparr>, Quiet)"
| "cadv C_Detached c d = Some (d\<lparr>child := C_Leave False\<rparr>, if ends_process (exceptionPtr d) then Terminates else Quiet)"
| "cadv (C_Leave b) c d = Some ((drop_ptr d)\<lparr>child := C_Done b\<rparr>, Quiet)"
| "cadv C_None c d = None"
| "cadv (C_Done b) c d = None"

section \<open>The system\<close>

text \<open>\<open>objs\<close> are the \<open>Thread\<close> objects: \<open>kAttributes_.GetDetached()\<close> and \<open>pData_\<close>.  \<open>frame\<close> is the point of the
  parent, the object and the data of its running operation.  \<open>dangling\<close> records an access to data that is
  gone, \<open>delivered\<close> what joins returned or rethrew.\<close>

record tsys =
  objs :: "(bool \<times> nat option) list"
  heap :: "tdata list"
  frame :: "ppc \<times> nat \<times> nat"
  delivered :: "(nat \<times> (exn + int)) list"
  dangling :: bool
  terminated :: bool

definition no_threads :: tsys where
  "no_threads = \<lparr>objs = [], heap = [], frame = (P_Idle, 0, 0), delivered = [], dangling = False, terminated = False\<rparr>"

definition Thread_ctor :: "bool \<Rightarrow> tsys \<Rightarrow> tsys" where
  "Thread_ctor detached s = s\<lparr>objs := objs s @ [(detached, Some (length (heap s)))], heap := heap s @ [ThreadData_ctor detached]\<rparr>"

definition Thread_Swap :: "nat \<Rightarrow> nat \<Rightarrow> tsys \<Rightarrow> tsys" where
  "Thread_Swap i j s = s\<lparr>objs := (objs s)[i := (fst (objs s ! i), snd (objs s ! j)), j := (fst (objs s ! j), snd (objs s ! i))]\<rparr>"

definition parent_step :: "choice \<Rightarrow> tsys \<Rightarrow> tsys option" where
  "parent_step c s = (case frame s of (p, i, k) \<Rightarrow> (case padv p c (fst (objs s ! i)) (heap s ! k) of None \<Rightarrow> None
     | Some (p', keeps, d', out) \<Rightarrow> Some (s\<lparr>frame := (p', i, k), heap := (heap s)[k := d'],
         objs := if keeps then objs s else (objs s)[i := (fst (objs s ! i), None)],
         delivered := (case out of None \<Rightarrow> delivered s | Some r \<Rightarrow> (k, r) # delivered s),
         dangling := dangling s \<or> refs (heap s ! k) = 0\<rparr>)))"

fun woken :: "effect \<Rightarrow> ppc \<Rightarrow> ppc" where
  "woken Notifies_Start Wait_Sleep = Wait_Woken"
| "woken Notifies_Join (Join_Sleep k) = Join_Woken k False"
| "woken _ p = p"

definition child_step :: "nat \<Rightarrow> choice \<Rightarrow> tsys \<Rightarrow> tsys option" where
  "child_step k c s = (case cadv (child (heap s ! k)) c (heap s ! k) of None \<Rightarrow> None
     | Some (d', ev) \<Rightarrow> Some (s\<lparr>heap := (heap s)[k := d'],
         frame := (if snd (snd (frame s)) = k then (woken ev (fst (frame s)), snd (frame s)) else frame s),
         dangling := dangling s \<or> refs (heap s ! k) = 0,
         terminated := (ev = Terminates)\<rparr>))"

text \<open>\<open>sw\<close> tells whether objects with different attributes may be swapped.\<close>

inductive tstep :: "bool \<Rightarrow> tsys \<Rightarrow> tsys \<Rightarrow> bool" for sw :: bool where
  construct: "\<not> terminated s \<Longrightarrow> fst (frame s) = P_Idle \<Longrightarrow> tstep sw s (Thread_ctor detached s)"
| swap: "\<not> terminated s \<Longrightarrow> fst (frame s) = P_Idle \<Longrightarrow> i < length (objs s) \<Longrightarrow> j < length (objs s) \<Longrightarrow>
    sw \<or> fst (objs s ! i) = fst (objs s ! j) \<Longrightarrow> tstep sw s (Thread_Swap i j s)"
| call: "\<not> terminated s \<Longrightarrow> fst (frame s) = P_Idle \<Longrightarrow> i < length (objs s) \<Longrightarrow> snd (objs s ! i) = Some k \<Longrightarrow> entry p \<Longrightarrow>
    tstep sw s (s\<lparr>frame := (p, i, k)\<rparr>)"
| parent: "\<not> terminated s \<Longrightarrow> fst (frame s) \<noteq> P_Idle \<Longrightarrow> parent_step c s = Some s' \<Longrightarrow> tstep sw s s'"
| child: "\<not> terminated s \<Longrightarrow> k < length (heap s) \<Longrightarrow> child_step k c s = Some s' \<Longrightarrow> tstep sw s s'"

inductive treach :: "bool \<Rightarrow> tsys \<Rightarrow> bool" for sw :: bool where
  init: "treach sw no_threads"
| step: "treach sw s \<Longrightarrow> tstep sw s s' \<Longrightarrow> treach sw s'"

end
