(* ===== verification/ThreadLife.thy ===== *)
theory ThreadLife
imports ThreadSteps
begin

text \<open>
  Invariants of the interleaving of \<open>ThreadSteps\<close>: the lifetime of the shared data, the handshake of
  \<open>Start\<close>, joining, and what becomes of results and exceptions.
\<close>

section \<open>Invariants of one thread\<close>

text \<open>Seen from one data: \<open>p\<close> is the point of the parent when its running operation is on this data and
  \<open>P_Idle\<close> otherwise; \<open>pd\<close> tells whether an object points to the data.\<close>

fun holds_tmp :: "ppc \<Rightarrow> bool" where
  "holds_tmp P_Idle = False" | "holds_tmp Start_Copy = False" | "holds_tmp (Join_Check k) = False"
| "holds_tmp (Join_Point k) = False" | "holds_tmp (Join_Copy k) = False" | "holds_tmp Try_Check = False"
| "holds_tmp Try_Copy = False" | "holds_tmp (Until_Check b) = False" | "holds_tmp (Until_Point b) = False"
| "holds_tmp Detach_Check = False" | "holds_tmp Detach_Copy = False" | "holds_tmp (Request_Check b) = False"
| "holds_tmp (Request_Lock b) = False" | "holds_tmp (Request_Set b) = False" | "holds_tmp (Request_Unlock b) = False"
| "holds_tmp Dtor_Check = False" | "holds_tmp Dtor_Members = False" | "holds_tmp _ = True"

fun without_object :: "ppc \<Rightarrow> bool" where
  "without_object P_Idle = True" | "without_object (Join_Result b) = True" | "without_object Leave = True" | "without_object _ = False"

fun child_holds :: "cpc \<Rightarrow> bool" where
  "child_holds C_None = False" | "child_holds C_Share = False" | "child_holds (C_Done b) = False" | "child_holds _ = True"

definition life_inv :: "bool \<Rightarrow> ppc \<Rightarrow> tdata \<Rightarrow> bool" where
  "life_inv pd p d \<longleftrightarrow> refs d = of_bool pd + of_bool (holds_tmp p) + of_bool (child_holds (child d))
     \<and> (without_object p \<or> pd) \<and> (\<forall>b. p = Join_Result b \<longrightarrow> \<not> pd)"

text \<open>The handshake of \<open>Start\<close>.\<close>

fun waiting_start :: "ppc \<Rightarrow> bool" where
  "waiting_start Start_SetHandle = True" | "waiting_start Wait_Lock = True" | "waiting_start Wait_Test = True"
| "waiting_start Wait_Sleep = True" | "waiting_start Wait_Woken = True" | "waiting_start _ = False"

fun has_started :: "cpc \<Rightarrow> bool" where
  "has_started C_None = False" | "has_started C_Share = False" | "has_started C_Start_Lock = False"
| "has_started C_Start_Set = False" | "has_started _ = True"

fun parent_in_start :: "ppc \<Rightarrow> bool" where
  "parent_in_start Start_Read = True" | "parent_in_start (Start_Unlock b) = True" | "parent_in_start Wait_Test = True"
| "parent_in_start Wait_Unlock = True" | "parent_in_start _ = False"

fun child_in_start :: "cpc \<Rightarrow> bool" where
  "child_in_start C_Start_Set = True" | "child_in_start C_Start_Notify = True" | "child_in_start C_Start_Unlock = True"
| "child_in_start _ = False"

definition start_inv :: "ppc \<Rightarrow> tdata \<Rightarrow> bool" where
  "start_inv p d \<longleftrightarrow> started d = has_started (child d)
     \<and> (child d \<noteq> C_None \<and> \<not> started d \<longrightarrow> waiting_start p)
     \<and> (nativeHandle d \<longleftrightarrow> child d \<noteq> C_None \<and> p \<noteq> Start_SetHandle)
     \<and> (waiting_start p \<longrightarrow> child d \<noteq> C_None)
     \<and> (p = Wait_Unlock \<or> p = Start_Finish \<longrightarrow> started d)
     \<and> (p = Start_Unlock False \<or> p = Start_Create \<longrightarrow> child d = C_None)
     \<and> (startedMtx d = Some Parent \<longleftrightarrow> parent_in_start p)
     \<and> (startedMtx d = Some Child \<longleftrightarrow> child_in_start (child d))
     \<and> (p = Wait_Sleep \<and> started d \<longrightarrow> child d = C_Start_Notify)"

lemmas padv_simps = move_def when_free_def point_def copy_ptr_def drop_ptr_def

lemma after_join_point_cases: "after_join_point k = Try_Check \<or> after_join_point k = Join_Copy k"
  by (cases k rule: after_join_point.cases) auto

lemma holds_tmp_after [simp]: "\<not> holds_tmp (after_join_point k)" "\<not> without_object (after_join_point k)"
    "\<not> waiting_start (after_join_point k)" "\<not> parent_in_start (after_join_point k)" "after_join_point k \<noteq> Start_SetHandle"
    "after_join_point k \<noteq> Wait_Unlock" "after_join_point k \<noteq> Start_Finish" "after_join_point k \<noteq> Start_Create"
    "after_join_point k \<noteq> Start_Unlock b" "after_join_point k \<noteq> Wait_Sleep" "after_join_point k \<noteq> Join_Result b"
  using after_join_point_cases[of k] by auto

lemma woken_simps [simp]:
  "woken Quiet p = p" "woken Terminates p = p" "holds_tmp (woken ev p) = holds_tmp p"
  "without_object (woken ev p) = without_object p" "waiting_start (woken ev p) = waiting_start p"
  "parent_in_start (woken ev p) = parent_in_start p"
  "woken ev p = Start_SetHandle \<longleftrightarrow> p = Start_SetHandle" "woken ev p = Wait_Unlock \<longleftrightarrow> p = Wait_Unlock"
  "woken ev p = Start_Finish \<longleftrightarrow> p = Start_Finish" "woken ev p = Start_Create \<longleftrightarrow> p = Start_Create"
  "woken ev p = Start_Unlock b \<longleftrightarrow> p = Start_Unlock b" "woken Notifies_Join p = Wait_Sleep \<longleftrightarrow> p = Wait_Sleep"
  "woken Notifies_Start p \<noteq> Wait_Sleep" "woken ev p = Join_Result b \<longleftrightarrow> p = Join_Result b"
  by (cases ev; cases p; simp)+

lemma who_simps [simp]: "m \<noteq> Parent \<longleftrightarrow> m = Child" "m \<noteq> Child \<longleftrightarrow> m = Parent"
  by (cases m; simp)+

lemma padv_start:
  assumes "padv p c a d = Some (p', keeps, d', out)" "start_inv p d"
  shows "start_inv p' d'"
  using assms
  by (cases p; clarsimp simp: padv_simps bind_eq_Some_conv split: if_split_asm; auto simp: start_inv_def)

lemma cadv_start:
  assumes "cadv (child d) c d = Some (d', ev)" "start_inv p d"
  shows "start_inv (woken ev p) d'"
  using assms
  by (cases "child d"; clarsimp simp: padv_simps split: if_split_asm choice.split_asm; auto simp: start_inv_def)

lemma padv_life:
  assumes "padv p c a d = Some (p', keeps, d', out)" "start_inv p d" "life_inv pd p d"
  shows "life_inv (pd \<and> keeps) p' d'"
  using assms
  by (cases p; clarsimp simp: padv_simps bind_eq_Some_conv split: if_split_asm; auto simp: life_inv_def start_inv_def)

lemma cadv_life:
  assumes "cadv (child d) c d = Some (d', ev)" "life_inv pd p d"
  shows "life_inv pd (woken ev p) d'"
  using assms
  by (cases "child d"; clarsimp simp: padv_simps split: if_split_asm choice.split_asm; auto simp: life_inv_def)

text \<open>The mutexes of joining and of the interruption, and the wake-up of a joining parent.\<close>

fun parent_in_join :: "ppc \<Rightarrow> bool" where
  "parent_in_join (Join_Test k) = True" | "parent_in_join (Join_Awake k t) = True" | "parent_in_join (Join_Unlock k b) = True"
| "parent_in_join Join_Unwind = True" | "parent_in_join Try_Read = True" | "parent_in_join (Try_Unlock b) = True"
| "parent_in_join Detach_Set = True" | "parent_in_join Detach_Unlock = True" | "parent_in_join _ = False"

fun child_in_join :: "cpc \<Rightarrow> bool" where
  "child_in_join C_End_Test = True" | "child_in_join C_End_Notify = True" | "child_in_join (C_End_Unlock b) = True"
| "child_in_join _ = False"

fun parent_in_request :: "ppc \<Rightarrow> bool" where
  "parent_in_request (Request_Set b) = True" | "parent_in_request (Request_Unlock b) = True" | "parent_in_request _ = False"

fun child_in_point :: "cpc \<Rightarrow> bool" where
  "child_in_point C_Point_Read = True" | "child_in_point C_Point_Unlock = True" | "child_in_point _ = False"

fun sleeps_in_join :: "ppc \<Rightarrow> bool" where
  "sleeps_in_join (Join_Sleep k) = True" | "sleeps_in_join _ = False"

definition join_inv :: "ppc \<Rightarrow> tdata \<Rightarrow> bool" where
  "join_inv p d \<longleftrightarrow> (joinedOrDetachedMtx d = Some Parent \<longleftrightarrow> parent_in_join p)
     \<and> (joinedOrDetachedMtx d = Some Child \<longleftrightarrow> child_in_join (child d))
     \<and> (interruptionRequestedMtx d = Some Parent \<longleftrightarrow> parent_in_request p)
     \<and> (interruptionRequestedMtx d = Some Child \<longleftrightarrow> child_in_point (child d))
     \<and> (sleeps_in_join p \<and> joinedOrDetached d \<longrightarrow> child d = C_End_Notify)"

lemma after_join_point_simps [simp]:
  "\<not> parent_in_join (after_join_point k)" "\<not> parent_in_request (after_join_point k)" "\<not> sleeps_in_join (after_join_point k)"
  using after_join_point_cases[of k] by auto

lemma woken_join [simp]:
  "parent_in_join (woken ev p) = parent_in_join p" "parent_in_request (woken ev p) = parent_in_request p"
  "sleeps_in_join (woken Notifies_Start p) = sleeps_in_join p" "\<not> sleeps_in_join (woken Notifies_Join p)"
  by (cases ev; cases p; simp)+

lemma padv_join:
  assumes "padv p c a d = Some (p', keeps, d', out)" "start_inv p d" "join_inv p d"
  shows "join_inv p' d'"
  using assms
  by (cases p; clarsimp simp: padv_simps bind_eq_Some_conv split: if_split_asm; auto simp: join_inv_def start_inv_def)

lemma cadv_join:
  assumes "cadv (child d) c d = Some (d', ev)" "join_inv p d"
  shows "join_inv (woken ev p) d'"
  using assms
  by (cases "child d"; clarsimp simp: padv_simps split: if_split_asm choice.split_asm; auto simp: join_inv_def)

text \<open>How the main function ended, and who set \<open>joinedOrDetached_\<close>.\<close>

fun main_ended :: "cpc \<Rightarrow> bool" where
  "main_ended (C_SetRet r) = True" | "main_ended (C_SetExc e) = True" | "main_ended C_End_Lock = True" | "main_ended C_End_Test = True"
| "main_ended C_End_Notify = True" | "main_ended (C_End_Unlock b) = True" | "main_ended C_Detached = True"
| "main_ended (C_Leave b) = True" | "main_ended (C_Done b) = True" | "main_ended _ = False"

fun result_set :: "cpc \<Rightarrow> bool" where
  "result_set (C_SetRet r) = False" | "result_set (C_SetExc e) = False" | "result_set p = main_ended p"

fun joined_by_child :: "cpc \<Rightarrow> bool" where
  "joined_by_child C_End_Notify = True" | "joined_by_child (C_End_Unlock b) = b" | "joined_by_child (C_Leave b) = b"
| "joined_by_child (C_Done b) = b" | "joined_by_child _ = False"

fun found_detached :: "cpc \<Rightarrow> bool" where
  "found_detached (C_End_Unlock b) = (\<not> b)" | "found_detached C_Detached = True" | "found_detached (C_Leave b) = (\<not> b)"
| "found_detached (C_Done b) = (\<not> b)" | "found_detached _ = False"

fun survived_detached :: "cpc \<Rightarrow> bool" where
  "survived_detached (C_Leave b) = (\<not> b)" | "survived_detached (C_Done b) = (\<not> b)" | "survived_detached _ = False"

definition end_inv :: "tdata \<Rightarrow> bool" where
  "end_inv d \<longleftrightarrow> (outcome d = None \<longleftrightarrow> \<not> main_ended (child d))
     \<and> (\<forall>r. child d = C_SetRet r \<longrightarrow> outcome d = Some (Inr r))
     \<and> (\<forall>e. child d = C_SetExc e \<longrightarrow> outcome d = Some (Inl e))
     \<and> (\<not> result_set (child d) \<longrightarrow> exceptionPtr d = None)
     \<and> (result_set (child d) \<longrightarrow> outcome d = Some (result_of d))
     \<and> (joinedOrDetached d \<longleftrightarrow> born_detached d \<or> detach_called d \<or> joined_by_child (child d))
     \<and> (found_detached (child d) \<longrightarrow> born_detached d \<or> detach_called d)"

definition fate_inv :: "tdata \<Rightarrow> bool" where
  "fate_inv d \<longleftrightarrow> (survived_detached (child d) \<longrightarrow> \<not> ends_process (exceptionPtr d))"

lemma result_set_ended: "result_set c \<Longrightarrow> main_ended c"
  by (cases c) auto

lemma joined_by_child_set: "joined_by_child c \<Longrightarrow> result_set c"
  by (cases c) auto

lemma result_of_simps [simp]:
  "result_of (d\<lparr>refs := n\<rparr>) = result_of d" "result_of (d\<lparr>nativeHandle := b\<rparr>) = result_of d" "result_of (d\<lparr>started := b\<rparr>) = result_of d"
  "result_of (d\<lparr>startedMtx := m\<rparr>) = result_of d" "result_of (d\<lparr>joinedOrDetached := b\<rparr>) = result_of d"
  "result_of (d\<lparr>joinedOrDetachedMtx := m\<rparr>) = result_of d" "result_of (d\<lparr>interruptionRequested := b\<rparr>) = result_of d"
  "result_of (d\<lparr>interruptionRequestedMtx := m\<rparr>) = result_of d" "result_of (d\<lparr>child := cp\<rparr>) = result_of d"
  "result_of (d\<lparr>detach_called := b\<rparr>) = result_of d" "result_of (d\<lparr>exceptionPtr := Some e\<rparr>) = Inl e"
  "exceptionPtr d = None \<Longrightarrow> result_of (d\<lparr>retCode := r\<rparr>) = Inr r"
  by (simp_all add: result_of_def split: option.splits)

lemma padv_end:
  assumes "padv p c a d = Some (p', keeps, d', out)" "start_inv p d" "end_inv d"
  shows "end_inv d'"
  using assms
  by (cases p; clarsimp simp: padv_simps bind_eq_Some_conv split: if_split_asm; auto simp: start_inv_def end_inv_def)

lemma cadv_end:
  assumes "cadv (child d) c d = Some (d', ev)" "end_inv d"
  shows "end_inv d'"
  using assms
  by (cases "child d"; clarsimp simp: padv_simps split: if_split_asm choice.split_asm; auto simp: end_inv_def)

lemma padv_fate: "padv p c a d = Some (p', keeps, d', out) \<Longrightarrow> start_inv p d \<Longrightarrow> fate_inv d \<Longrightarrow> fate_inv d'"
  by (cases p; clarsimp simp: padv_simps bind_eq_Some_conv split: if_split_asm; auto simp: start_inv_def fate_inv_def)

lemma cadv_fate: "cadv (child d) c d = Some (d', ev) \<Longrightarrow> ev \<noteq> Terminates \<Longrightarrow> fate_inv d \<Longrightarrow> fate_inv d'"
  by (cases "child d"; clarsimp simp: padv_simps split: if_split_asm choice.split_asm; auto simp: fate_inv_def)

text \<open>Joining, when only objects with the same attributes are swapped.\<close>

fun joining :: "ppc \<Rightarrow> bool" where
  "joining (Join_Point k) = True" | "joining (Join_Copy k) = True" | "joining (Join_Lock k) = True" | "joining (Join_Test k) = True"
| "joining (Join_Sleep k) = True" | "joining (Join_Woken k t) = True" | "joining (Join_Awake k t) = True"
| "joining (Join_Unlock k b) = True" | "joining Join_Unwind = True" | "joining (Join_Reset b) = True"
| "joining Try_Copy = True" | "joining Try_Lock = True" | "joining Try_Read = True" | "joining (Try_Unlock b) = True"
| "joining _ = False"

fun joined_seen :: "ppc \<Rightarrow> bool" where
  "joined_seen (Join_Unlock k b) = b" | "joined_seen (Join_Reset b) = True" | "joined_seen (Join_Result b) = True"
| "joined_seen (Try_Unlock b) = b" | "joined_seen _ = False"

definition owner_inv :: "bool \<Rightarrow> bool \<Rightarrow> ppc \<Rightarrow> tdata \<Rightarrow> bool" where
  "owner_inv a pd p d \<longleftrightarrow> (pd \<longrightarrow> born_detached d = a)
     \<and> (pd \<and> detach_called d \<longrightarrow> p = Detach_Unlock \<or> p = Detach_Reset)
     \<and> (pd \<and> born_detached d \<and> child d \<noteq> C_None \<longrightarrow> waiting_start p \<or> p = Wait_Unlock \<or> p = Start_Finish)
     \<and> (joining p \<longrightarrow> nativeHandle d)
     \<and> (joined_seen p \<longrightarrow> joined_by_child (child d))"

lemma after_join_point_owner [simp]:
  "joining (after_join_point k) = (after_join_point k = Join_Copy k \<or> joining Try_Check)" "\<not> joined_seen (after_join_point k)"
  "after_join_point k \<noteq> Detach_Unlock" "after_join_point k \<noteq> Detach_Reset"
  using after_join_point_cases[of k] by auto

lemma woken_owner [simp]:
  "joining (woken ev p) = joining p" "joined_seen (woken ev p) = joined_seen p"
  "woken ev p = Detach_Unlock \<longleftrightarrow> p = Detach_Unlock" "woken ev p = Detach_Reset \<longleftrightarrow> p = Detach_Reset"
  by (cases ev; cases p; simp)+

lemma padv_owner:
  assumes step: "padv p c a d = Some (p', keeps, d', out)" and inv: "start_inv p d" "life_inv pd p d" "end_inv d"
    and owner: "owner_inv a pd p d"
  shows "owner_inv a (pd \<and> keeps) p' d'"
proof -
  have joined: "joinedOrDetached d \<longleftrightarrow> born_detached d \<or> detach_called d \<or> joined_by_child (child d)"
    using inv(3) by (simp add: end_inv_def)
  have handle: "p \<noteq> Start_SetHandle \<Longrightarrow> child d \<noteq> C_None \<longleftrightarrow> nativeHandle d" "p = Start_Create \<Longrightarrow> \<not> nativeHandle d"
    using inv(1) by (auto simp: start_inv_def)
  have pd: "\<not> without_object p \<Longrightarrow> pd" "p = Join_Result b \<Longrightarrow> \<not> pd" for b
    using inv(2) by (auto simp: life_inv_def)
  show ?thesis
    using step owner joined handle pd
    by (cases p; clarsimp simp: padv_simps bind_eq_Some_conv split: if_split_asm; simp add: owner_inv_def)
qed

lemma cadv_owner:
  assumes "cadv (child d) c d = Some (d', ev)" "start_inv p d" "end_inv d" "owner_inv a pd p d"
  shows "owner_inv a pd (woken ev p) d'"
  using assms
  by (cases "child d"; clarsimp simp: padv_simps split: if_split_asm choice.split_asm;
      auto simp: owner_inv_def start_inv_def end_inv_def)

text \<open>What stays once the main function has ended.\<close>

lemma padv_outcome: "padv p c a d = Some (p', keeps, d', out) \<Longrightarrow> start_inv p d \<Longrightarrow>
    outcome d' = outcome d \<and> (joined_by_child (child d) \<longrightarrow> joined_by_child (child d'))"
  by (cases p; clarsimp simp: padv_simps bind_eq_Some_conv split: if_split_asm; auto simp: start_inv_def)

lemma cadv_outcome: "cadv (child d) c d = Some (d', ev) \<Longrightarrow> joined_by_child (child d) \<Longrightarrow>
    outcome d' = outcome d \<and> joined_by_child (child d')"
  by (cases "child d"; clarsimp simp: padv_simps split: if_split_asm choice.split_asm)

lemma padv_drops: "padv p c a d = Some (p', False, d', out) \<Longrightarrow> \<not> without_object p"
  by (cases p) (simp_all add: padv_simps bind_eq_Some_conv split: if_split_asm)

lemma padv_out: "padv p c a d = Some (p', keeps, d', Some r) \<Longrightarrow> p = Join_Result False \<and> p' = Leave \<and> keeps \<and> d' = d \<and> r = result_of d"
  by (cases p) (auto simp: padv_simps bind_eq_Some_conv split: if_split_asm)

lemma padv_object: "padv p c a d = Some (p', keeps, d', out) \<Longrightarrow> without_object p' \<or> keeps \<and> \<not> without_object p"
  by (cases p) (auto simp: padv_simps bind_eq_Some_conv split: if_split_asm)

end
