(* ===== verification/ThreadSystem.thy ===== *)
theory ThreadSystem
imports ThreadLife
begin

text \<open>
  The invariants of all threads together, and the properties of \<open>Thread\<close>: the shared data is alive whenever
  it is used and released at the end, a join delivers what the main function of its thread produced, no
  wake-up is lost, and an exception of a detached thread ends the process.  Objects made with different
  attributes must not be swapped.
\<close>

section \<open>Invariants of the system\<close>

definition point_on :: "tsys \<Rightarrow> nat \<Rightarrow> ppc" where
  "point_on s k = (if snd (snd (frame s)) = k then fst (frame s) else P_Idle)"

definition owned :: "tsys \<Rightarrow> nat \<Rightarrow> bool" where
  "owned s k \<longleftrightarrow> (\<exists>i < length (objs s). snd (objs s ! i) = Some k)"

definition cell_inv :: "tsys \<Rightarrow> nat \<Rightarrow> bool" where
  "cell_inv s k \<longleftrightarrow> start_inv (point_on s k) (heap s ! k) \<and> life_inv (owned s k) (point_on s k) (heap s ! k)
     \<and> join_inv (point_on s k) (heap s ! k) \<and> end_inv (heap s ! k)"

definition shape_inv :: "tsys \<Rightarrow> bool" where
  "shape_inv s \<longleftrightarrow> (\<forall>i < length (objs s). \<forall>k. snd (objs s ! i) = Some k \<longrightarrow> k < length (heap s))
     \<and> (\<forall>i < length (objs s). \<forall>j < length (objs s). \<forall>k. snd (objs s ! i) = Some k \<and> snd (objs s ! j) = Some k \<longrightarrow> i = j)
     \<and> (case frame s of (p, i, k) \<Rightarrow> p \<noteq> P_Idle \<longrightarrow> i < length (objs s) \<and> k < length (heap s)
          \<and> (without_object p \<or> snd (objs s ! i) = Some k))"

definition sys_inv :: "tsys \<Rightarrow> bool" where
  "sys_inv s \<longleftrightarrow> shape_inv s \<and> \<not> dangling s \<and> (\<forall>k < length (heap s). cell_inv s k)
     \<and> (\<not> terminated s \<longrightarrow> (\<forall>k < length (heap s). fate_inv (heap s ! k)))"

lemma parent_stepE:
  assumes "parent_step c s = Some s'"
  obtains p i k p' keeps d' out where "frame s = (p, i, k)" "padv p c (fst (objs s ! i)) (heap s ! k) = Some (p', keeps, d', out)"
    "frame s' = (p', i, k)" "heap s' = (heap s)[k := d']"
    "objs s' = (if keeps then objs s else (objs s)[i := (fst (objs s ! i), None)])"
    "delivered s' = (case out of None \<Rightarrow> delivered s | Some r \<Rightarrow> (k, r) # delivered s)"
    "dangling s' \<longleftrightarrow> dangling s \<or> refs (heap s ! k) = 0" "terminated s' = terminated s"
  using assms by (auto simp: parent_step_def split: prod.splits option.splits)

lemma child_stepE:
  assumes "child_step k c s = Some s'"
  obtains d' ev where "cadv (child (heap s ! k)) c (heap s ! k) = Some (d', ev)" "heap s' = (heap s)[k := d']"
    "\<forall>j. point_on s' j = (if j = k then woken ev (point_on s k) else point_on s j)" "snd (frame s') = snd (frame s)"
    "fst (frame s') = P_Idle \<longleftrightarrow> fst (frame s) = P_Idle" "without_object (fst (frame s')) = without_object (fst (frame s))"
    "objs s' = objs s" "delivered s' = delivered s"
    "dangling s' \<longleftrightarrow> dangling s \<or> refs (heap s ! k) = 0" "terminated s' \<longleftrightarrow> ev = Terminates"
proof -
  have idle: "woken ev p = P_Idle \<longleftrightarrow> p = P_Idle" for ev p by (cases ev; cases p; simp)
  show thesis
    using assms that by (auto simp: child_step_def point_on_def idle split: prod.splits option.splits)
qed

lemma alive_parent: "life_inv pd p d \<Longrightarrow> p \<noteq> P_Idle \<Longrightarrow> refs d \<noteq> 0"
  by (cases p) (auto simp: life_inv_def)

lemma alive_child: "life_inv pd p d \<Longrightarrow> start_inv p d \<Longrightarrow> cadv (child d) c d = Some (d', ev) \<Longrightarrow> refs d \<noteq> 0"
proof (cases "child_holds (child d)")
  case False
  assume inv: "life_inv pd p d" "start_inv p d" and step: "cadv (child d) c d = Some (d', ev)"
  from False step have "child d = C_Share" by (cases "child d") auto
  then have "waiting_start p" using inv(2) by (auto simp: start_inv_def)
  then show ?thesis using inv(1) by (cases p) (auto simp: life_inv_def)
qed (auto simp: life_inv_def)


lemma owned_object:
  "shape_inv s \<Longrightarrow> frame s = (p, i, k) \<Longrightarrow> p \<noteq> P_Idle \<Longrightarrow> \<not> without_object p \<Longrightarrow> owned s k"
  by (auto simp: shape_inv_def owned_def)

text \<open>\<open>a\<close> is the attribute of the object that points to the data, when one does.\<close>

definition attribute_is :: "tsys \<Rightarrow> nat \<Rightarrow> bool \<Rightarrow> bool" where
  "attribute_is s k a \<longleftrightarrow> (\<forall>i < length (objs s). snd (objs s ! i) = Some k \<longrightarrow> fst (objs s ! i) = a)"

lemma attribute_unique:
  "shape_inv s \<Longrightarrow> i < length (objs s) \<Longrightarrow> snd (objs s ! i) = Some k \<Longrightarrow> attribute_is s k a \<longleftrightarrow> a = fst (objs s ! i)"
  by (auto simp: attribute_is_def shape_inv_def)

lemma attribute_exists:
  assumes "shape_inv s"
  shows "\<exists>a. attribute_is s k a"
proof (cases "owned s k")
  case True
  then show ?thesis using attribute_unique[OF assms] by (auto simp: owned_def)
qed (auto simp: owned_def attribute_is_def)

text \<open>Resetting \<open>pData_\<close> of the object that points to \<open>k\<close>.\<close>

lemma reset_object:
  assumes shape: "shape_inv s" and i: "i < length (objs s)" "snd (objs s ! i) = Some k"
    and s': "objs s' = (objs s)[i := (fst (objs s ! i), None)]"
  shows "owned s' j \<longleftrightarrow> owned s j \<and> j \<noteq> k" and "j \<noteq> k \<Longrightarrow> attribute_is s' j a \<longleftrightarrow> attribute_is s j a"
proof -
  have at_i: "x < length (objs s) \<Longrightarrow> snd (objs s ! x) = Some k \<longleftrightarrow> x = i" for x
    using shape i by (auto simp: shape_inv_def)
  have snd': "x < length (objs s) \<Longrightarrow> snd (objs s' ! x) = Some j \<longleftrightarrow> snd (objs s ! x) = Some j \<and> j \<noteq> k" for x j
    by (cases "x = i") (use i in \<open>simp add: s'\<close>, use at_i[of x] in \<open>auto simp: s'\<close>)
  have fst': "x < length (objs s) \<Longrightarrow> fst (objs s' ! x) = fst (objs s ! x)" for x
    using i by (cases "x = i") (auto simp: s')
  have len: "length (objs s') = length (objs s)" by (simp add: s')
  show "owned s' j \<longleftrightarrow> owned s j \<and> j \<noteq> k" using snd' by (auto simp: owned_def len)
  show "j \<noteq> k \<Longrightarrow> attribute_is s' j a \<longleftrightarrow> attribute_is s j a" using snd' fst' by (auto simp: attribute_is_def len)
qed

lemma sys_inv_parent:
  assumes inv: "sys_inv s" and run: "\<not> terminated s" "fst (frame s) \<noteq> P_Idle" and step: "parent_step c s = Some s'"
  shows "sys_inv s'"
proof -
  from step obtain p i k p' keeps d' out where f: "frame s = (p, i, k)"
      and adv: "padv p c (fst (objs s ! i)) (heap s ! k) = Some (p', keeps, d', out)"
      and s': "frame s' = (p', i, k)" "heap s' = (heap s)[k := d']"
        "objs s' = (if keeps then objs s else (objs s)[i := (fst (objs s ! i), None)])"
        "delivered s' = (case out of None \<Rightarrow> delivered s | Some r \<Rightarrow> (k, r) # delivered s)"
        "dangling s' \<longleftrightarrow> dangling s \<or> refs (heap s ! k) = 0" "terminated s' = terminated s"
    by (rule parent_stepE)
  have p: "p \<noteq> P_Idle" using run(2) f by simp
  have shape: "i < length (objs s)" "k < length (heap s)" "without_object p \<or> snd (objs s ! i) = Some k"
    using inv p f by (auto simp: sys_inv_def shape_inv_def)
  have cell: "cell_inv s k" and fate: "fate_inv (heap s ! k)" using inv shape run by (auto simp: sys_inv_def)
  have on: "point_on s k = p" "point_on s' k = p'" "j \<noteq> k \<Longrightarrow> point_on s' j = point_on s j" for j
    using f s' by (auto simp: point_on_def)
  have k: "start_inv p (heap s ! k)" "life_inv (owned s k) p (heap s ! k)" "join_inv p (heap s ! k)" "end_inv (heap s ! k)"
    using cell by (simp_all add: cell_inv_def on)
  have drops: "\<not> keeps \<Longrightarrow> snd (objs s ! i) = Some k"
    using padv_drops adv shape(3) by (cases keeps) auto
  have own: "owned s' j \<longleftrightarrow> owned s j \<and> (keeps \<or> j \<noteq> k)" for j
  proof (cases keeps)
    case False
    with inv shape drops s' show ?thesis by (simp add: sys_inv_def reset_object(1)[of s i k s'])
  qed (simp add: owned_def s')
  have "start_inv p' d'" "life_inv (owned s k \<and> keeps) p' d'" "join_inv p' d'" "end_inv d'" "fate_inv d'"
    using padv_start[OF adv] padv_life[OF adv] padv_join[OF adv] padv_end[OF adv] padv_fate[OF adv] k fate by blast+
  then have "cell_inv s' j" if "j < length (heap s)" for j
    using inv that shape(2) by (cases "j = k") (auto simp: cell_inv_def on own s' sys_inv_def)
  moreover have "fate_inv (heap s' ! j)" if "j < length (heap s)" for j
    using inv that run shape(2) \<open>fate_inv d'\<close> by (cases "j = k") (auto simp: s' sys_inv_def)
  moreover have "shape_inv s'"
    using inv shape padv_object[OF adv] drops
    by (auto simp: shape_inv_def sys_inv_def s' nth_list_update split: if_splits)
  moreover have "\<not> dangling s'"
    using inv alive_parent[OF k(2) p] by (simp add: s' sys_inv_def)
  ultimately show ?thesis by (simp add: sys_inv_def s')
qed

lemma sys_inv_child:
  assumes inv: "sys_inv s" and run: "\<not> terminated s" "k < length (heap s)" and step: "child_step k c s = Some s'"
  shows "sys_inv s'"
proof -
  from step obtain d' ev where adv: "cadv (child (heap s ! k)) c (heap s ! k) = Some (d', ev)"
      and s': "heap s' = (heap s)[k := d']" "\<forall>j. point_on s' j = (if j = k then woken ev (point_on s k) else point_on s j)"
        "snd (frame s') = snd (frame s)" "fst (frame s') = P_Idle \<longleftrightarrow> fst (frame s) = P_Idle"
        "without_object (fst (frame s')) = without_object (fst (frame s))" "objs s' = objs s" "delivered s' = delivered s"
        "dangling s' \<longleftrightarrow> dangling s \<or> refs (heap s ! k) = 0" "terminated s' \<longleftrightarrow> ev = Terminates"
    by (rule child_stepE)
  have cell: "cell_inv s k" and fate: "fate_inv (heap s ! k)" using inv run by (auto simp: sys_inv_def)
  have own: "owned s' j = owned s j" for j by (simp add: owned_def s')
  have new: "start_inv (woken ev (point_on s k)) d'" "life_inv (owned s k) (woken ev (point_on s k)) d'"
      "join_inv (woken ev (point_on s k)) d'" "end_inv d'" "ev \<noteq> Terminates \<Longrightarrow> fate_inv d'"
    using cadv_start[OF adv] cadv_life[OF adv] cadv_join[OF adv] cadv_end[OF adv] cadv_fate[OF adv] cell fate by (auto simp: cell_inv_def)
  have "cell_inv s' j" if "j < length (heap s)" for j
    using inv that new run by (cases "j = k") (auto simp: cell_inv_def own s' sys_inv_def)
  moreover have "fate_inv (heap s' ! j)" if "j < length (heap s)" "\<not> terminated s'" for j
    using inv that run new by (cases "j = k") (auto simp: s' sys_inv_def)
  moreover have "shape_inv s'"
  proof -
    obtain p i j where f: "frame s = (p, i, j)" by (cases "frame s")
    obtain p' where f': "frame s' = (p', i, j)" using s'(3) f by (cases "frame s'") auto
    show ?thesis using inv s'(4,5) by (auto simp: shape_inv_def sys_inv_def s' f f')
  qed
  moreover have "\<not> dangling s'"
    using inv alive_child[OF _ _ adv] cell by (auto simp: s' sys_inv_def cell_inv_def)
  ultimately show ?thesis by (simp add: sys_inv_def s')
qed

lemma sys_inv_construct:
  assumes inv: "sys_inv s" and idle: "fst (frame s) = P_Idle"
  shows "sys_inv (Thread_ctor detached s)"
proof -
  let ?s' = "Thread_ctor detached s"
  have on: "point_on ?s' k = P_Idle" "point_on s k = P_Idle" for k using idle by (simp_all add: point_on_def Thread_ctor_def)
  have own: "owned ?s' k \<longleftrightarrow> owned s k \<or> k = length (heap s)" for k
    by (simp add: owned_def Thread_ctor_def nth_append Ex_less_Suc cong: conj_cong) auto
  have new: "\<not> owned s (length (heap s))" using inv by (auto simp: owned_def sys_inv_def shape_inv_def)
  have "cell_inv ?s' k" if "k < length (heap ?s')" for k
    using inv that on own new
    by (cases "k < length (heap s)")
      (auto simp: cell_inv_def sys_inv_def Thread_ctor_def nth_append ThreadData_ctor_def start_inv_def life_inv_def join_inv_def end_inv_def less_Suc_eq)
  moreover have "fate_inv (heap ?s' ! k)" if "k < length (heap ?s')" "\<not> terminated s" for k
    using inv that by (auto simp: sys_inv_def Thread_ctor_def nth_append ThreadData_ctor_def fate_inv_def less_Suc_eq)
  moreover have "shape_inv ?s'"
    using inv idle by (auto simp: shape_inv_def sys_inv_def Thread_ctor_def nth_append less_Suc_eq split: prod.splits if_splits)
  ultimately show ?thesis using inv by (simp add: sys_inv_def Thread_ctor_def)
qed

definition swapped :: "nat \<Rightarrow> nat \<Rightarrow> nat \<Rightarrow> nat" where
  "swapped i j x = (if x = i then j else if x = j then i else x)"

lemma Swap_objs:
  "i < length (objs s) \<Longrightarrow> j < length (objs s) \<Longrightarrow> x < length (objs s) \<Longrightarrow>
     objs (Thread_Swap i j s) ! x = (fst (objs s ! x), snd (objs s ! swapped i j x))"
  by (auto simp: Thread_Swap_def swapped_def nth_list_update)

lemma Swap_fields [simp]:
  "heap (Thread_Swap i j s) = heap s" "frame (Thread_Swap i j s) = frame s" "dangling (Thread_Swap i j s) = dangling s"
  "terminated (Thread_Swap i j s) = terminated s" "delivered (Thread_Swap i j s) = delivered s"
  "length (objs (Thread_Swap i j s)) = length (objs s)"
  by (simp_all add: Thread_Swap_def)

lemma swapped_simps [simp]:
  "swapped i j (swapped i j x) = x" "swapped i j x = swapped i j y \<longleftrightarrow> x = y"
  "i < n \<Longrightarrow> j < n \<Longrightarrow> swapped i j x < n \<longleftrightarrow> x < n"
  by (auto simp: swapped_def)

lemma Swap_owned: "i < length (objs s) \<Longrightarrow> j < length (objs s) \<Longrightarrow> owned (Thread_Swap i j s) k = owned s k"
  unfolding owned_def using Swap_objs[of i s j] by (metis Swap_fields(6) snd_conv swapped_simps(1,3))

lemma sys_inv_swap:
  assumes inv: "sys_inv s" and idle: "fst (frame s) = P_Idle" and ij: "i < length (objs s)" "j < length (objs s)"
  shows "sys_inv (Thread_Swap i j s)"
proof -
  have old: "x < length (objs s) \<Longrightarrow> snd (objs s ! x) = Some k \<Longrightarrow> k < length (heap s)"
    "x < length (objs s) \<Longrightarrow> y < length (objs s) \<Longrightarrow> snd (objs s ! x) = Some k \<Longrightarrow> snd (objs s ! y) = Some k \<Longrightarrow> x = y" for x y k
    using inv by (simp_all add: sys_inv_def shape_inv_def)
  have new: "x < length (objs s) \<Longrightarrow> swapped i j x < length (objs s) \<and> snd (objs (Thread_Swap i j s) ! x) = snd (objs s ! swapped i j x)" for x
    using ij by (simp add: Swap_objs)
  have "shape_inv (Thread_Swap i j s)"
    unfolding shape_inv_def Swap_fields
  proof (intro conjI allI impI)
    fix x k assume "x < length (objs s)" "snd (objs (Thread_Swap i j s) ! x) = Some k"
    then show "k < length (heap s)" using new[of x] old(1)[of "swapped i j x" k] by simp
  next
    fix x y k assume "x < length (objs s)" "y < length (objs s)"
      and "snd (objs (Thread_Swap i j s) ! x) = Some k \<and> snd (objs (Thread_Swap i j s) ! y) = Some k"
    then have "swapped i j x = swapped i j y" using new[of x] new[of y] by (intro old(2)[of _ _ k]) simp_all
    then show "x = y" by simp
  qed (use idle in \<open>auto split: prod.splits\<close>)
  moreover have "cell_inv (Thread_Swap i j s) k = cell_inv s k" for k
    by (simp add: cell_inv_def point_on_def Swap_owned[OF ij])
  ultimately show ?thesis using inv by (simp add: sys_inv_def)
qed

lemma entry_move:
  assumes "entry p"
  shows "start_inv P_Idle d \<Longrightarrow> start_inv p d" "join_inv P_Idle d \<Longrightarrow> join_inv p d" "life_inv True P_Idle d \<Longrightarrow> life_inv True p d"
    and "owner_inv a True P_Idle d \<Longrightarrow> owner_inv a True p d"
  using assms by (cases p; auto simp: start_inv_def join_inv_def life_inv_def owner_inv_def)+

lemma sys_inv_call:
  assumes inv: "sys_inv s" and idle: "fst (frame s) = P_Idle" and i: "i < length (objs s)" "snd (objs s ! i) = Some k" and p: "entry p"
  shows "sys_inv (s\<lparr>frame := (p, i, k)\<rparr>)"
proof -
  have on: "point_on s j = P_Idle" "point_on (s\<lparr>frame := (p, i, k)\<rparr>) j = (if j = k then p else P_Idle)" for j
    using idle by (simp_all add: point_on_def)
  have own: "owned (s\<lparr>frame := (p, i, k)\<rparr>) j = owned s j" "owned s k" for j using i by (auto simp: owned_def)
  have "cell_inv (s\<lparr>frame := (p, i, k)\<rparr>) j" if "j < length (heap s)" for j
    using inv that entry_move[OF p] own(2) by (auto simp: sys_inv_def cell_inv_def on own(1))
  moreover have "shape_inv (s\<lparr>frame := (p, i, k)\<rparr>)"
    using inv i by (auto simp: sys_inv_def shape_inv_def)
  ultimately show ?thesis using inv by (simp add: sys_inv_def)
qed

lemma sys_inv_step: "tstep sw s s' \<Longrightarrow> sys_inv s \<Longrightarrow> sys_inv s'"
  by (induction rule: tstep.induct)
    (blast intro: sys_inv_construct sys_inv_swap sys_inv_call sys_inv_parent sys_inv_child)+

lemma treach_inv: "treach sw s \<Longrightarrow> sys_inv s"
proof (induction rule: treach.induct)
  case init show ?case by (simp add: sys_inv_def shape_inv_def no_threads_def)
qed (rule sys_inv_step)

section \<open>Joins\<close>

definition owners_inv :: "tsys \<Rightarrow> bool" where
  "owners_inv s \<longleftrightarrow> (\<forall>k < length (heap s). \<forall>a. attribute_is s k a \<longrightarrow> owner_inv a (owned s k) (point_on s k) (heap s ! k))"

definition delivered_ok :: "tsys \<Rightarrow> nat \<times> (exn + int) \<Rightarrow> bool" where
  "delivered_ok s = (\<lambda>(k, r). k < length (heap s) \<and> \<not> owned s k \<and> (point_on s k = P_Idle \<or> point_on s k = Leave)
     \<and> outcome (heap s ! k) = Some r \<and> joined_by_child (child (heap s ! k)))"

definition joins_inv :: "tsys \<Rightarrow> bool" where
  "joins_inv s \<longleftrightarrow> owners_inv s \<and> distinct (map fst (delivered s)) \<and> (\<forall>x \<in> set (delivered s). delivered_ok s x)"

text \<open>A point that does not refer to an object does not depend on its attribute.\<close>

lemma padv_attribute: "without_object p \<Longrightarrow> padv p c a d = padv p c a' d"
  by (cases p) auto

lemma parent_step_view:
  assumes inv: "sys_inv s" and run: "\<not> terminated s" "fst (frame s) \<noteq> P_Idle" and step: "parent_step c s = Some s'"
  obtains p i k p' keeps d' out where "frame s = (p, i, k)" "i < length (objs s)" "k < length (heap s)"
    "\<forall>a. attribute_is s k a \<longrightarrow> padv p c a (heap s ! k) = Some (p', keeps, d', out)"
    "heap s' = (heap s)[k := d']" "point_on s k = p" "point_on s' k = p'" "\<forall>j. j \<noteq> k \<longrightarrow> point_on s' j = point_on s j"
    "\<forall>j. owned s' j \<longleftrightarrow> owned s j \<and> (keeps \<or> j \<noteq> k)" "\<forall>j a. j \<noteq> k \<or> keeps \<longrightarrow> attribute_is s' j a = attribute_is s j a"
    "\<exists>a. attribute_is s k a" "\<not> keeps \<longrightarrow> \<not> owned s' k"
    "delivered s' = (case out of None \<Rightarrow> delivered s | Some r \<Rightarrow> (k, r) # delivered s)"
proof -
  from step obtain p i k p' keeps d' out where f: "frame s = (p, i, k)"
      and adv: "padv p c (fst (objs s ! i)) (heap s ! k) = Some (p', keeps, d', out)"
      and s': "frame s' = (p', i, k)" "heap s' = (heap s)[k := d']"
        "objs s' = (if keeps then objs s else (objs s)[i := (fst (objs s ! i), None)])"
        "delivered s' = (case out of None \<Rightarrow> delivered s | Some r \<Rightarrow> (k, r) # delivered s)"
        "dangling s' \<longleftrightarrow> dangling s \<or> refs (heap s ! k) = 0" "terminated s' = terminated s"
    by (rule parent_stepE)
  have p: "p \<noteq> P_Idle" using run(2) f by simp
  have shape: "i < length (objs s)" "k < length (heap s)" "without_object p \<or> snd (objs s ! i) = Some k" "shape_inv s"
    using inv p f by (auto simp: sys_inv_def shape_inv_def)
  have at_i: "\<not> keeps \<Longrightarrow> snd (objs s ! i) = Some k" using padv_drops adv shape(3) by (cases keeps) auto
  have "owned s' j \<longleftrightarrow> owned s j \<and> (keeps \<or> j \<noteq> k)" for j
  proof (cases keeps)
    case False
    with shape at_i s' show ?thesis by (simp add: reset_object(1)[of s i k s'])
  qed (simp add: owned_def s')
  moreover have "attribute_is s' j a = attribute_is s j a" if "j \<noteq> k \<or> keeps" for j a
  proof (cases keeps)
    case False
    with shape at_i s' that show ?thesis by (simp add: reset_object(2)[of s i k s'])
  qed (simp add: attribute_is_def s')
  moreover have "\<exists>a. attribute_is s k a" by (rule attribute_exists[OF shape(4)])
  moreover have "padv p c a (heap s ! k) = Some (p', keeps, d', out)" if "attribute_is s k a" for a
    using adv shape that padv_attribute[of p c a "heap s ! k" "fst (objs s ! i)"] by (auto simp: attribute_is_def)
  ultimately show thesis
    using f shape s' that[of p i k p' keeps d' out] by (auto simp: point_on_def)
qed

lemma joins_inv_parent:
  assumes inv: "sys_inv s" "joins_inv s" and run: "\<not> terminated s" "fst (frame s) \<noteq> P_Idle" and step: "parent_step c s = Some s'"
  shows "joins_inv s'"
proof -
  from inv(1) run step obtain p i k p' keeps d' out where f: "frame s = (p, i, k)" "i < length (objs s)" "k < length (heap s)"
    and adv: "\<forall>a. attribute_is s k a \<longrightarrow> padv p c a (heap s ! k) = Some (p', keeps, d', out)"
    and s': "heap s' = (heap s)[k := d']" "point_on s k = p" "point_on s' k = p'" "\<forall>j. j \<noteq> k \<longrightarrow> point_on s' j = point_on s j"
    "\<forall>j. owned s' j \<longleftrightarrow> owned s j \<and> (keeps \<or> j \<noteq> k)" "\<forall>j a. j \<noteq> k \<or> keeps \<longrightarrow> attribute_is s' j a = attribute_is s j a"
    and some: "\<exists>a. attribute_is s k a" "\<not> keeps \<longrightarrow> \<not> owned s' k"
    and out: "delivered s' = (case out of None \<Rightarrow> delivered s | Some r \<Rightarrow> (k, r) # delivered s)"
    by (rule parent_step_view)
  have cell: "start_inv p (heap s ! k)" "life_inv (owned s k) p (heap s ! k)" "end_inv (heap s ! k)"
  proof -
    have "cell_inv s k" using inv(1) f run by (simp add: sys_inv_def)
    then show "start_inv p (heap s ! k)" "life_inv (owned s k) p (heap s ! k)" "end_inv (heap s ! k)"
      by (simp_all add: cell_inv_def s')
  qed
  obtain a0 where a0: "attribute_is s k a0" using some(1) by blast
  have owner: "attribute_is s k a \<Longrightarrow> owner_inv a (owned s' k) p' d'" for a
    using padv_owner[OF adv[rule_format] cell, of a] inv(2) f(3) by (auto simp: joins_inv_def owners_inv_def s')
  have "owner_inv a (owned s' k) p' d'" if "attribute_is s' k a" for a
  proof (cases keeps)
    case True then show ?thesis using owner that s'(6) by simp
  next
    case False
    then show ?thesis using owner[OF a0] some(2)[rule_format] by (simp add: owner_inv_def)
  qed
  note at_k = this
  have "owners_inv s'"
    unfolding owners_inv_def
  proof (intro allI impI)
    fix j a assume j: "j < length (heap s')" "attribute_is s' j a"
    show "owner_inv a (owned s' j) (point_on s' j) (heap s' ! j)"
    proof (cases "j = k")
      case True then show ?thesis using at_k j(2) f(3) by (simp add: s')
    next
      case False
      then show ?thesis using inv(2) j s' by (simp add: joins_inv_def owners_inv_def)
    qed
  qed
  moreover have old: "delivered_ok s' x" if "x \<in> set (delivered s)" for x
  proof -
    obtain j r where x: "x = (j, r)" by (cases x)
    have ok: "delivered_ok s (j, r)" using that inv(2) by (simp add: joins_inv_def x)
    show ?thesis
    proof (cases "j = k")
      case True
      then have "p = Leave" using ok run(2) f(1) by (auto simp: delivered_ok_def s')
      then have "p' = P_Idle \<and> keeps \<and> out = None \<and> d' = drop_ptr (heap s ! k)" using adv[rule_format, OF a0] by (auto simp: padv_simps)
      then show ?thesis using ok True f(3) by (auto simp: delivered_ok_def x s' drop_ptr_def)
    next
      case False
      then show ?thesis using ok f(3) by (auto simp: delivered_ok_def x s')
    qed
  qed
  moreover have "distinct (map fst (delivered s')) \<and> (\<forall>x \<in> set (delivered s'). delivered_ok s' x)"
  proof (cases out)
    case None
    then show ?thesis using inv(2) old by (simp add: out joins_inv_def)
  next
    case (Some r)
    then have p: "p = Join_Result False" "p' = Leave" "keeps" "d' = heap s ! k" "r = result_of (heap s ! k)"
      using padv_out[OF adv[rule_format, OF a0, unfolded Some]] by auto
    have fresh: "k \<notin> fst ` set (delivered s)"
      using inv(2) p by (fastforce simp: joins_inv_def delivered_ok_def s')
    have "joined_by_child (child (heap s ! k))"
      using inv(2) f(3) a0 p by (auto simp: joins_inv_def owners_inv_def owner_inv_def s')
    then have "delivered_ok s' (k, r)"
      using cell(2,3) f(3) p joined_by_child_set
      by (auto simp: delivered_ok_def s' life_inv_def end_inv_def)
    then show ?thesis using fresh inv(2) old Some by (simp add: out joins_inv_def)
  qed
  ultimately show ?thesis by (simp add: joins_inv_def)
qed

lemma joins_inv_child:
  assumes inv: "sys_inv s" "joins_inv s" and run: "\<not> terminated s" "k < length (heap s)" and step: "child_step k c s = Some s'"
  shows "joins_inv s'"
proof -
  from step obtain d' ev where adv: "cadv (child (heap s ! k)) c (heap s ! k) = Some (d', ev)"
      and s': "heap s' = (heap s)[k := d']" "\<forall>j. point_on s' j = (if j = k then woken ev (point_on s k) else point_on s j)"
        "snd (frame s') = snd (frame s)" "fst (frame s') = P_Idle \<longleftrightarrow> fst (frame s) = P_Idle"
        "without_object (fst (frame s')) = without_object (fst (frame s))" "objs s' = objs s" "delivered s' = delivered s"
        "dangling s' \<longleftrightarrow> dangling s \<or> refs (heap s ! k) = 0" "terminated s' \<longleftrightarrow> ev = Terminates"
    by (rule child_stepE)
  have same: "owned s' j = owned s j" "attribute_is s' j a = attribute_is s j a" for j a
    by (simp_all add: owned_def attribute_is_def s')
  have cell: "start_inv (point_on s k) (heap s ! k)" "end_inv (heap s ! k)"
    using inv(1) run by (simp_all add: sys_inv_def cell_inv_def)
  have "owner_inv a (owned s k) (woken ev (point_on s k)) d'" if "attribute_is s k a" for a
    using cadv_owner[OF adv cell] inv(2) run(2) that by (auto simp: joins_inv_def owners_inv_def)
  then have "owners_inv s'"
    using inv(2) run(2) by (simp add: owners_inv_def joins_inv_def same s' nth_list_update)
  moreover have "delivered_ok s' x" if "x \<in> set (delivered s)" for x
  proof -
    obtain j r where x: "x = (j, r)" by (cases x)
    have ok: "delivered_ok s (j, r)" using that inv(2) by (simp add: joins_inv_def x)
    have "woken ev P_Idle = P_Idle" "woken ev Leave = Leave" by (cases ev; simp)+
    then show ?thesis
      using ok cadv_outcome[OF adv] run(2) by (cases "j = k") (auto simp: delivered_ok_def x s' same)
  qed
  ultimately show ?thesis using inv(2) by (simp add: joins_inv_def s')
qed

lemma joins_inv_construct:
  assumes inv: "sys_inv s" "joins_inv s" and idle: "fst (frame s) = P_Idle"
  shows "joins_inv (Thread_ctor detached s)"
proof -
  let ?s' = "Thread_ctor detached s"
  have on: "point_on ?s' k = P_Idle" "point_on s k = P_Idle" for k using idle by (simp_all add: point_on_def Thread_ctor_def)
  have own: "owned ?s' k \<longleftrightarrow> owned s k \<or> k = length (heap s)" for k
    by (simp add: owned_def Thread_ctor_def nth_append Ex_less_Suc cong: conj_cong) auto
  have attr: "attribute_is ?s' k a \<longleftrightarrow> attribute_is s k a \<and> (k = length (heap s) \<longrightarrow> detached = a)" for k a
    by (auto simp add: attribute_is_def Thread_ctor_def nth_append less_Suc_eq)
  have heap: "heap ?s' = heap s @ [ThreadData_ctor detached]" by (simp add: Thread_ctor_def)
  have "owner_inv a (owned ?s' k) P_Idle (heap ?s' ! k)" if "k < length (heap ?s')" "attribute_is ?s' k a" for k a
  proof (cases "k < length (heap s)")
    case True
    then have "owner_inv a (owned s k) (point_on s k) (heap s ! k)" "k \<noteq> length (heap s)"
      using inv(2) that(2) by (auto simp: joins_inv_def owners_inv_def attr)
    then show ?thesis using True by (simp add: own on heap nth_append)
  next
    case False
    then have k: "k = length (heap s)" using that(1) by (simp add: heap)
    then have a: "a = detached" using that(2) by (simp add: attr)
    show ?thesis unfolding a k by (simp add: heap owner_inv_def ThreadData_ctor_def)
  qed
  then have "owners_inv ?s'" by (simp add: owners_inv_def on)
  moreover have "delivered_ok ?s' x" if "delivered_ok s x" for x
    using that by (auto simp: delivered_ok_def own on heap nth_append)
  ultimately show ?thesis using inv(2) by (simp add: joins_inv_def) (simp add: Thread_ctor_def)
qed

lemma joins_inv_swap:
  assumes inv: "joins_inv s" and ij: "i < length (objs s)" "j < length (objs s)" "fst (objs s ! i) = fst (objs s ! j)"
  shows "joins_inv (Thread_Swap i j s)"
proof -
  let ?s' = "Thread_Swap i j s"
  have "fst (objs s ! swapped i j x) = fst (objs s ! x)" for x using ij(3) by (simp add: swapped_def)
  then have "attribute_is ?s' k a = attribute_is s k a" for k a
    unfolding attribute_is_def using Swap_objs[OF ij(1,2)] ij
    by (metis Swap_fields(6) fst_conv snd_conv swapped_simps(1,3))
  moreover have "point_on ?s' k = point_on s k" for k by (simp add: point_on_def)
  ultimately show ?thesis
    using inv by (simp add: joins_inv_def owners_inv_def delivered_ok_def Swap_owned[OF ij(1,2)])
qed

lemma joins_inv_call:
  assumes inv: "joins_inv s" and idle: "fst (frame s) = P_Idle" and i: "i < length (objs s)" "snd (objs s ! i) = Some k" and p: "entry p"
  shows "joins_inv (s\<lparr>frame := (p, i, k)\<rparr>)"
proof -
  let ?s' = "s\<lparr>frame := (p, i, k)\<rparr>"
  have on: "point_on s j = P_Idle" "point_on ?s' j = (if j = k then p else P_Idle)" for j
    using idle by (simp_all add: point_on_def)
  have own: "owned ?s' j = owned s j" "owned s k" "attribute_is ?s' j a = attribute_is s j a" for j a
    using i by (auto simp: owned_def attribute_is_def)
  have "owners_inv ?s'"
    using inv entry_move(4)[OF p] own(2) by (auto simp: owners_inv_def joins_inv_def own(1,3) on)
  moreover have "delivered_ok ?s' x" if "delivered_ok s x" for x
    using that own(2) by (auto simp: delivered_ok_def own on)
  ultimately show ?thesis using inv by (simp add: joins_inv_def)
qed

lemma joins_inv_step: "tstep False s s' \<Longrightarrow> sys_inv s \<Longrightarrow> joins_inv s \<Longrightarrow> joins_inv s'"
  by (induction rule: tstep.induct)
    (blast intro: joins_inv_construct joins_inv_swap joins_inv_call joins_inv_parent joins_inv_child)+

lemma treach_joins: "treach False s \<Longrightarrow> joins_inv s"
proof (induction rule: treach.induct)
  case init show ?case by (simp add: joins_inv_def owners_inv_def no_threads_def)
next
  case (step s s') then show ?case using joins_inv_step treach_inv by blast
qed

section \<open>The end of the process\<close>

definition ended_by_detached :: "tsys \<Rightarrow> bool" where
  "ended_by_detached s \<longleftrightarrow> (\<exists>k < length (heap s). \<exists>e. outcome (heap s ! k) = Some (Inl e) \<and> ends_process (Some e)
     \<and> (born_detached (heap s ! k) \<or> detach_called (heap s ! k)))"

lemma cadv_terminates:
  "cadv (child d) c d = Some (d', Terminates) \<Longrightarrow> end_inv d \<Longrightarrow>
     \<exists>e. outcome d' = Some (Inl e) \<and> ends_process (Some e) \<and> (born_detached d' \<or> detach_called d')"
  by (cases "child d"; clarsimp simp: padv_simps split: if_split_asm choice.split_asm)
    (auto simp: end_inv_def result_of_def ends_process_def split: option.splits)

lemma terminated_step: "tstep sw s s' \<Longrightarrow> sys_inv s \<Longrightarrow> terminated s' \<Longrightarrow> ended_by_detached s'"
proof (induction rule: tstep.induct)
  case (child s k c s')
  from child(3) obtain d' ev where adv: "cadv (child (heap s ! k)) c (heap s ! k) = Some (d', ev)"
      and s': "heap s' = (heap s)[k := d']" "terminated s' \<longleftrightarrow> ev = Terminates"
    by (auto elim: child_stepE)
  have "end_inv (heap s ! k)" using child by (simp add: sys_inv_def cell_inv_def)
  then show ?case
    using cadv_terminates[of "heap s ! k" c d'] adv s' child(2,5) by (auto simp: ended_by_detached_def)
qed (auto elim!: parent_stepE simp: Thread_ctor_def)

lemma treach_terminated: "treach sw s \<Longrightarrow> terminated s \<Longrightarrow> ended_by_detached s"
proof (induction rule: treach.induct)
  case init then show ?case by (simp add: no_threads_def)
next
  case (step s s') then show ?case using terminated_step treach_inv by blast
qed

section \<open>Runs\<close>

datatype thread_call = Construct bool | Swap nat nat | Call nat ppc | Step choice | Run nat choice

fun thread_action :: "bool \<Rightarrow> thread_call \<Rightarrow> tsys \<Rightarrow> tsys option" where
  "thread_action sw (Construct detached) s = (if fst (frame s) = P_Idle then Some (Thread_ctor detached s) else None)"
| "thread_action sw (Swap i j) s = (if fst (frame s) = P_Idle \<and> i < length (objs s) \<and> j < length (objs s)
     \<and> (sw \<or> fst (objs s ! i) = fst (objs s ! j)) then Some (Thread_Swap i j s) else None)"
| "thread_action sw (Call i p) s = (if fst (frame s) = P_Idle \<and> i < length (objs s) \<and> entry p
     then map_option (\<lambda>k. s\<lparr>frame := (p, i, k)\<rparr>) (snd (objs s ! i)) else None)"
| "thread_action sw (Step c) s = (if fst (frame s) \<noteq> P_Idle then parent_step c s else None)"
| "thread_action sw (Run k c) s = (if k < length (heap s) then child_step k c s else None)"

fun thread_actions :: "bool \<Rightarrow> thread_call list \<Rightarrow> tsys \<Rightarrow> tsys option" where
  "thread_actions sw [] s = Some s"
| "thread_actions sw (a # as) s = (if terminated s then None else Option.bind (thread_action sw a s) (thread_actions sw as))"

lemma thread_action_step: "\<not> terminated s \<Longrightarrow> thread_action sw a s = Some s' \<Longrightarrow> tstep sw s s'"
  by (cases a) (auto intro: tstep.intros split: if_split_asm)

lemma thread_actions_reach: "treach sw s \<Longrightarrow> thread_actions sw as s = Some s' \<Longrightarrow> treach sw s'"
proof (induction as arbitrary: s)
  case (Cons a as)
  from Cons.prems(2) obtain t where "\<not> terminated s" "thread_action sw a s = Some t" "thread_actions sw as t = Some s'"
    by (auto simp: bind_eq_Some_conv split: if_split_asm)
  then show ?case using Cons.IH Cons.prems(1) thread_action_step treach.step by blast
qed simp

definition sample_start :: "nat \<Rightarrow> nat \<Rightarrow> thread_call list" where
  "sample_start i k = Call i Start_Copy # replicate 5 (Step Go) @ replicate 5 (Run k Go) @ replicate 6 (Step Go)"

text \<open>Made for the witnesses: a thread is started and joined, and its main function returns 7 while the parent
  sleeps; and an object that had been swapped with one made for a detached thread is joined.\<close>

definition sample_join :: "thread_call list" where
  "sample_join = [Construct False] @ sample_start 0 0 @ [Call 0 (Join_Check Join)] @ replicate 5 (Step Go)
     @ [Run 0 (Return 7)] @ replicate 5 (Run 0 Go) @ replicate 7 (Step Go) @ [Run 0 Go]"

definition sample_swap :: "thread_call list" where
  "sample_swap = [Construct True, Construct False, Swap 0 1] @ sample_start 1 0 @ [Call 1 (Join_Check Join)] @ replicate 9 (Step Go)"

lemmas run_simps = sample_join_def sample_swap_def sample_start_def no_threads_def numeral_eq_Suc Thread_ctor_def ThreadData_ctor_def Thread_Swap_def
  parent_step_def child_step_def padv_simps result_of_def

text \<open>When the parent cannot step, a child holds the mutex it waits for.\<close>

lemma parent_blocked:
  assumes "padv p Go a d = None" "p \<noteq> P_Idle" "start_inv p d" "join_inv p d"
  shows "child_in_start (child d) \<or> child_in_join (child d) \<or> child_in_point (child d)"
  using assms
  by (cases p; clarsimp simp: padv_simps bind_eq_None_conv split: if_split_asm; auto simp: start_inv_def join_inv_def)

lemma child_holder_steps:
  "child_in_start (child d) \<or> child_in_join (child d) \<or> child_in_point (child d) \<Longrightarrow> child d \<noteq> C_Main \<and> cadv (child d) Go d \<noteq> None"
  by (cases "child d") auto

section \<open>Properties\<close>

text \<open>C2: the data that parent and child share lives exactly as long as it is used.  However operations, children
  and swaps of objects interleave, no step ever touches data whose reference count is 0, and the count is
  the number of pointers there are: that of the object, that of the running operation and that of the child.
  A joinable thread has started once the operation that started it has returned.\<close>

theorem thread_data_lifetime:
  assumes "treach sw s"
  shows "\<not> dangling s \<and> (\<forall>k < length (heap s).
       refs (heap s ! k) = card {i. i < length (objs s) \<and> snd (objs s ! i) = Some k}
         + of_bool (holds_tmp (point_on s k)) + of_bool (child_holds (child (heap s ! k)))
     \<and> (nativeHandle (heap s ! k) \<and> point_on s k = P_Idle \<longrightarrow> has_started (child (heap s ! k))))"
proof -
  have inv: "sys_inv s" using assms by (rule treach_inv)
  have "card {i. i < length (objs s) \<and> snd (objs s ! i) = Some k} = of_bool (owned s k)" for k
  proof (cases "owned s k")
    case True
    then obtain i where i: "i < length (objs s)" "snd (objs s ! i) = Some k" by (auto simp: owned_def)
    then have "{i. i < length (objs s) \<and> snd (objs s ! i) = Some k} = {i}" using inv by (auto simp: sys_inv_def shape_inv_def)
    then show ?thesis using True by simp
  qed (auto simp: owned_def)
  moreover have "has_started (child (heap s ! k))" if "k < length (heap s)" "nativeHandle (heap s ! k)" "point_on s k = P_Idle" for k
    using inv that by (auto simp: sys_inv_def cell_inv_def start_inv_def)
  ultimately show ?thesis using inv by (auto simp: sys_inv_def cell_inv_def life_inv_def)
qed

theorem thread_data_lifetime_witness:
  "\<exists>s. treach False s \<and> refs (heap s ! 0) = 0 \<and> \<not> dangling s \<and> delivered s = [(0, Inr 7)]"
proof -
  define s where "s = the (thread_actions False sample_join no_threads)"
  have r: "thread_actions False sample_join no_threads = Some s" "refs (heap s ! 0) = 0" "delivered s = [(0, Inr 7)]"
    by (simp_all add: s_def run_simps)
  have "treach False s" by (rule thread_actions_reach[OF treach.init r(1)])
  then show ?thesis using thread_data_lifetime[of False s] r by blast
qed



text \<open>C9: the hand-shakes of \<open>Start\<close> and of joins lose no wake-up and cannot block for ever.  A parent asleep on
  a condition that holds has not been notified yet because the child is just about to; and when the parent
  cannot step, the child of its operation holds a mutex, is not in its main function and can step.\<close>

theorem thread_handshakes_progress:
  assumes "treach sw s" and "\<not> terminated s" "frame s = (p, i, k)" "p \<noteq> P_Idle"
  shows "(p = Wait_Sleep \<and> started (heap s ! k) \<longrightarrow> child (heap s ! k) = C_Start_Notify)
     \<and> (sleeps_in_join p \<and> joinedOrDetached (heap s ! k) \<longrightarrow> child (heap s ! k) = C_End_Notify)
     \<and> (parent_step Go s = None \<longrightarrow> child (heap s ! k) \<noteq> C_Main \<and> child_step k Go s \<noteq> None)"
proof -
  have inv: "sys_inv s" using assms(1) by (rule treach_inv)
  then have "k < length (heap s)" using assms by (auto simp: sys_inv_def shape_inv_def)
  then have cell: "start_inv p (heap s ! k)" "join_inv p (heap s ! k)"
    using inv assms(3) by (auto simp: sys_inv_def cell_inv_def point_on_def)
  have "child (heap s ! k) \<noteq> C_Main \<and> child_step k Go s \<noteq> None" if "parent_step Go s = None"
  proof -
    have "padv p Go (fst (objs s ! i)) (heap s ! k) = None"
      using that assms(3) by (auto simp: parent_step_def split: option.splits)
    then have "child (heap s ! k) \<noteq> C_Main \<and> cadv (child (heap s ! k)) Go (heap s ! k) \<noteq> None"
      using parent_blocked assms(4) cell child_holder_steps by blast
    then show ?thesis by (auto simp: child_step_def)
  qed
  then show ?thesis using cell by (auto simp: start_inv_def join_inv_def)
qed

theorem thread_handshakes_progress_witness:
  "\<exists>s. treach False s \<and> frame s = (Join_Sleep Join, 0, 0) \<and> joinedOrDetached (heap s ! 0) \<and> child (heap s ! 0) = C_End_Notify"
proof -
  define s where "s = the (thread_actions False (take 28 sample_join) no_threads)"
  have r: "thread_actions False (take 28 sample_join) no_threads = Some s" "frame s = (Join_Sleep Join, 0, 0)" "\<not> terminated s"
      "joinedOrDetached (heap s ! 0)"
    by (simp_all add: s_def run_simps)
  have "treach False s" by (rule thread_actions_reach[OF treach.init r(1)])
  then show ?thesis using thread_handshakes_progress[of False s "Join_Sleep Join" 0 0] r by auto
qed


definition sample_abort :: "thread_call list" where
  "sample_abort = [Construct True] @ sample_start 0 0 @ [Run 0 (Throw (mk_exn RuntimeException))] @ replicate 5 (Run 0 Go)"

lemma runtime_not_interrupted [simp]: "ends_process (Some (mk_exn RuntimeException))" "\<not> ends_process (Some ThreadInterrupted)"
  by (simp_all add: ends_process_def mk_exn_def ThreadInterrupted_def mk_exn_ec_def derived_from_iff)


text \<open>Swapping objects made with different attributes breaks joining.  \<open>Swap\<close> exchanges the data but not the
  attributes, and data made for a detached thread counts as joined from the start: a join of the joinable
  object that received it returns at once, with a return code nobody set, while the main function runs.\<close>

theorem swapped_join_does_not_wait:
  "\<exists>s. treach True s \<and> delivered s = [(0, Inr 1)] \<and> child (heap s ! 0) = C_Main \<and> outcome (heap s ! 0) = None"
proof -
  define s where "s = the (thread_actions True sample_swap no_threads)"
  have r: "thread_actions True sample_swap no_threads = Some s" "delivered s = [(0, Inr 1)]" "child (heap s ! 0) = C_Main"
      "outcome (heap s ! 0) = None"
    by (simp_all add: s_def run_simps)
  have "treach True s" by (rule thread_actions_reach[OF treach.init r(1)])
  with r show ?thesis by blast
qed

text \<open>An exception is lost when \<open>Detach\<close> is called after the thread has ended: nobody ends the process.\<close>

lemma late_detach_drops_exception:
  "\<exists>s. treach False s \<and> \<not> terminated s \<and> delivered s = [] \<and> refs (heap s ! 0) = 0 \<and> detach_called (heap s ! 0)
     \<and> outcome (heap s ! 0) = Some (Inl (mk_exn RuntimeException))"
proof -
  define as where "as = [Construct False] @ sample_start 0 0 @ [Run 0 (Throw (mk_exn RuntimeException))] @ replicate 6 (Run 0 Go)
    @ [Call 0 Detach_Check] @ replicate 7 (Step Go)"
  define s where "s = the (thread_actions False as no_threads)"
  have r: "thread_actions False as no_threads = Some s" "\<not> terminated s" "delivered s = []" "refs (heap s ! 0) = 0"
      "detach_called (heap s ! 0)" "outcome (heap s ! 0) = Some (Inl (mk_exn RuntimeException))"
    by (simp_all add: s_def as_def run_simps)
  have "treach False s" by (rule thread_actions_reach[OF treach.init r(1)])
  with r show ?thesis by blast
qed

end
