(* ===== verification/Selections.thy ===== *)
theory Selections
imports LanguageRuns
begin

text \<open>
  Widgets that select from a combo box: \<open>LanguageWidget\<close> (\<open>src/gui/language_widget.cpp\<close>) and
  \<open>TimedComputerManagementWidget\<close> (\<open>src/gui/timed_computer_management_widget.cpp\<close>).

  A \<open>QComboBox\<close> is its items and its current index; its operations are parameters that return whether \<open>currentIndexChanged\<close> was
  emitted.  What Qt documents of them is the locale \<open>combo_box\<close>: the signal is emitted whenever the index changes.  Signals a widget
  emits are kept in a list.
\<close>

section \<open>Combo boxes\<close>

record 'd combo =
  cb_items :: "'d list"
  cb_index :: int

record 'd combo_api =
  cb_addItem :: "'d \<Rightarrow> 'd combo \<Rightarrow> 'd combo \<times> bool"
  cb_removeItem :: "int \<Rightarrow> 'd combo \<Rightarrow> 'd combo \<times> bool"
  cb_setCurrentIndex :: "int \<Rightarrow> 'd combo \<Rightarrow> 'd combo \<times> bool"
  cb_clear :: "'d combo \<Rightarrow> 'd combo \<times> bool"

definition cb_valid :: "'d combo \<Rightarrow> bool" where
  "cb_valid c \<longleftrightarrow> - 1 \<le> cb_index c \<and> cb_index c < int (length (cb_items c))"

definition cb_current :: "'d combo \<Rightarrow> 'd option" where
  "cb_current c = (if cb_index c = - 1 then None else Some (cb_items c ! nat (cb_index c)))"

record 'd combo_widget =
  combo :: "'d combo"

text \<open>An operation on the combo box, and the slot connected to its signal.\<close>

definition on_combo :: "('d combo \<Rightarrow> 'd combo \<times> bool) \<Rightarrow> (int \<Rightarrow> (exn, unit, 'w \<times> ('d, 'x) combo_widget_scheme) prog)
    \<Rightarrow> (exn, unit, 'w \<times> ('d, 'x) combo_widget_scheme) prog" where
  "on_combo f changed = bind (this combo) (\<lambda>c. andthen (modify (\<lambda>s. s\<lparr>combo := fst (f c)\<rparr>))
     (if snd (f c) then changed (cb_index (fst (f c))) else ret ()))"

locale combo_box =
  fixes cb :: "'d combo_api"
  assumes add: "cb_items (fst (cb_addItem cb x c)) = cb_items c @ [x]"
      "cb_items c \<noteq> [] \<Longrightarrow> cb_index (fst (cb_addItem cb x c)) = cb_index c"
      "cb_items c = [] \<Longrightarrow> cb_index (fst (cb_addItem cb x c)) \<in> {0, cb_index c}"
    and remove: "0 \<le> i \<Longrightarrow> i < int (length (cb_items c)) \<Longrightarrow> cb_items (fst (cb_removeItem cb i c)) = take (nat i) (cb_items c) @ drop (nat i + 1) (cb_items c)"
      "\<not> (0 \<le> i \<and> i < int (length (cb_items c))) \<Longrightarrow> cb_removeItem cb i c = (c, False)"
      "cb_valid c \<Longrightarrow> cb_valid (fst (cb_removeItem cb i c))"
    and setCurrentIndex: "cb_items (fst (cb_setCurrentIndex cb i c)) = cb_items c"
      "- 1 \<le> i \<Longrightarrow> i < int (length (cb_items c)) \<Longrightarrow> cb_index (fst (cb_setCurrentIndex cb i c)) = i"
    and clear: "cb_items (fst (cb_clear cb c)) = []" "cb_index (fst (cb_clear cb c)) = - 1"
    and signals: "cb_index (fst (cb_addItem cb x c)) \<noteq> cb_index c \<Longrightarrow> snd (cb_addItem cb x c)"
      "cb_index (fst (cb_removeItem cb i c)) \<noteq> cb_index c \<Longrightarrow> snd (cb_removeItem cb i c)"
      "cb_index (fst (cb_setCurrentIndex cb i c)) \<noteq> cb_index c \<Longrightarrow> snd (cb_setCurrentIndex cb i c)"
      "cb_index (fst (cb_clear cb c)) \<noteq> cb_index c \<Longrightarrow> snd (cb_clear cb c)"
begin

text \<open>An operation after which the index is valid, and which signals when the current item is another one.\<close>

definition signals_changes :: "('d combo \<Rightarrow> 'd combo \<times> bool) \<Rightarrow> 'd combo \<Rightarrow> bool" where
  "signals_changes f c \<longleftrightarrow> cb_valid (fst (f c)) \<and> (\<not> snd (f c) \<longrightarrow> cb_current (fst (f c)) = cb_current c)"

lemma add_signals: "cb_valid c \<Longrightarrow> signals_changes (cb_addItem cb x) c"
  using add(1)[of x c] add(2)[of c x] add(3)[of c x] signals(1)[of x c]
  by (cases "cb_items c = []") (auto simp: signals_changes_def cb_valid_def cb_current_def nth_append)

lemma set_signals: "- 1 \<le> i \<Longrightarrow> i < int (length (cb_items c)) \<Longrightarrow> signals_changes (cb_setCurrentIndex cb i) c"
  using setCurrentIndex(1)[of i c] setCurrentIndex(2)[of i c] signals(3)[of i c] by (auto simp: signals_changes_def cb_valid_def cb_current_def)

lemma clear_signals: "signals_changes (cb_clear cb) c"
  using clear[of c] signals(4)[of c] by (auto simp: signals_changes_def cb_valid_def cb_current_def)

end

text \<open>A combo box that computes.\<close>

definition sample_combo :: "'d combo_api" where
  "sample_combo = \<lparr>cb_addItem = (\<lambda>x c. (\<lparr>cb_items = cb_items c @ [x], cb_index = if cb_items c = [] then 0 else cb_index c\<rparr>, cb_items c = [] \<and> cb_index c \<noteq> 0)),
     cb_removeItem = (\<lambda>i c. if 0 \<le> i \<and> i < int (length (cb_items c))
        then (let xs = take (nat i) (cb_items c) @ drop (nat i + 1) (cb_items c);
                  j = (if i < cb_index c \<or> cb_index c = i \<and> i = int (length xs) then cb_index c - 1 else cb_index c)
              in (\<lparr>cb_items = xs, cb_index = j\<rparr>, i \<le> cb_index c))
        else (c, False)),
     cb_setCurrentIndex = (\<lambda>i c. let j = (if 0 \<le> i \<and> i < int (length (cb_items c)) then i else - 1) in (c\<lparr>cb_index := j\<rparr>, cb_index c \<noteq> j)),
     cb_clear = (\<lambda>c. (\<lparr>cb_items = [], cb_index = - 1\<rparr>, cb_index c \<noteq> - 1))\<rparr>"

interpretation sample_combo: combo_box "sample_combo :: 'd combo_api"
proof (unfold_locales, goal_cases)
  case (6 c i)
  then show ?case by (auto simp: sample_combo_def cb_valid_def Let_def)
qed (auto simp: sample_combo_def Let_def split: if_splits)

section \<open>\<open>LanguageWidget\<close>\<close>

record language_widget = "language_info combo_widget" +
  announced :: "language_info list"

type_synonym ('a, 'w) lwprog = "(exn, 'a, 'w \<times> language_widget) prog"

definition ConvertCurrentChanged :: "lang_api \<Rightarrow> int \<Rightarrow> (unit, 'w) lwprog" where
  "ConvertCurrentChanged api index = bind (if index \<noteq> - 1 then this (\<lambda>s. cb_items (combo s) ! nat index) else GetCLanguageInfo api)
     (\<lambda>info. modify (\<lambda>s. s\<lparr>announced := announced s @ [info]\<rparr>))"

definition GetCount :: "(int, 'w) lwprog" where
  "GetCount = this (\<lambda>s. int (length (cb_items (combo s))))"

definition GetLanguageInfos :: "lang_api \<Rightarrow> (language_info list, 'w) lwprog" where
  "GetLanguageInfos api = this (\<lambda>s. qt_sort api li_less (cb_items (combo s)))"

definition GetCurrentLanguageInfo :: "lang_api \<Rightarrow> (language_info, 'w) lwprog" where
  "GetCurrentLanguageInfo api = bind (this (\<lambda>s. cb_index (combo s))) (\<lambda>kCurrentIndex.
     if kCurrentIndex \<noteq> - 1 then this (\<lambda>s. cb_items (combo s) ! nat kCurrentIndex) else GetCLanguageInfo api)"

definition AddLanguageInfo :: "lang_api \<Rightarrow> language_info combo_api \<Rightarrow> language_info \<Rightarrow> (unit, 'w) lwprog" where
  "AddLanguageInfo api cb info = bind (GetCLanguageInfo api) (\<lambda>c. bind (li_eq api info c) (\<lambda>isC. andthen (check (\<not> isC) InvalidArgument)
     (on_combo (cb_addItem cb info) (ConvertCurrentChanged api))))"

text \<open>\<open>findData\<close> of Qt compares with the registered operator.\<close>

fun find_data :: "lang_api \<Rightarrow> language_info \<Rightarrow> language_info list \<Rightarrow> int \<Rightarrow> (exn, int, 's) prog" where
  "find_data api info [] k = ret (- 1)"
| "find_data api info (y # ys) k = bind (li_eq api y info) (\<lambda>eq. if eq then ret k else find_data api info ys (k + 1))"

definition findData :: "lang_api \<Rightarrow> language_info \<Rightarrow> (int, 'w) lwprog" where
  "findData api info = bind (this (\<lambda>s. cb_items (combo s))) (\<lambda>infos. find_data api info infos 0)"

definition RemoveLanguageInfo :: "lang_api \<Rightarrow> language_info combo_api \<Rightarrow> language_info \<Rightarrow> (unit, 'w) lwprog" where
  "RemoveLanguageInfo api cb info = bind (GetCLanguageInfo api) (\<lambda>c. bind (li_eq api info c) (\<lambda>isC. andthen (check (\<not> isC) InvalidArgument)
     (bind (findData api info) (\<lambda>kIdx. if kIdx \<noteq> - 1 then on_combo (cb_removeItem cb kIdx) (ConvertCurrentChanged api) else ret ()))))"

definition ClearLanguages :: "lang_api \<Rightarrow> language_info combo_api \<Rightarrow> (unit, 'w) lwprog" where
  "ClearLanguages api cb = on_combo (cb_clear cb) (ConvertCurrentChanged api)"

definition SelectLanguageInfo :: "lang_api \<Rightarrow> language_info combo_api \<Rightarrow> language_info \<Rightarrow> (unit, 'w) lwprog" where
  "SelectLanguageInfo api cb info = bind (GetCLanguageInfo api) (\<lambda>c. bind (li_eq api info c) (\<lambda>isC.
     if isC then on_combo (cb_setCurrentIndex cb (- 1)) (ConvertCurrentChanged api)
     else bind (findData api info) (\<lambda>kIdx. if kIdx \<noteq> - 1 then on_combo (cb_setCurrentIndex cb kIdx) (ConvertCurrentChanged api) else ret ())))"

datatype language_call = Add_Language language_info | Remove_Language language_info | Select_Language language_info | Clear_Languages

fun call_language :: "lang_api \<Rightarrow> language_info combo_api \<Rightarrow> language_call \<Rightarrow> (unit, 'w) lwprog" where
  "call_language api cb (Add_Language info) = AddLanguageInfo api cb info"
| "call_language api cb (Remove_Language info) = RemoveLanguageInfo api cb info"
| "call_language api cb (Select_Language info) = SelectLanguageInfo api cb info"
| "call_language api cb Clear_Languages = ClearLanguages api cb"

text \<open>A client that handles the exceptions of its calls.\<close>

fun language_calls :: "lang_api \<Rightarrow> language_info combo_api \<Rightarrow> language_call list \<Rightarrow> (unit, 'w) lwprog" where
  "language_calls api cb [] = ret ()"
| "language_calls api cb (k # ks) = andthen (catch (call_language api cb k) (\<lambda>_. ret ())) (language_calls api cb ks)"

definition first_language_widget :: language_widget where
  "first_language_widget = combo_widget.extend \<lparr>combo = \<lparr>cb_items = [], cb_index = - 1\<rparr>\<rparr> \<lparr>announced = []\<rparr>"

section \<open>What it announces\<close>

definition C_info :: language_info where
  "C_info = \<lparr>li_name = ''C'', li_nativeName = ''C''\<rparr>"

definition selected :: "language_widget \<Rightarrow> language_info" where
  "selected s = (case cb_current (combo s) of None \<Rightarrow> C_info | Some info \<Rightarrow> info)"

text \<open>The items after a call.\<close>

fun items_after :: "language_call \<Rightarrow> language_info list \<Rightarrow> language_info list \<Rightarrow> bool" where
  "items_after (Add_Language info) xs ys = (ys = (if li_name info = ''C'' then xs else xs @ [info]))"
| "items_after (Remove_Language info) xs ys = (if li_name info \<in> li_name ` set xs \<and> li_name info \<noteq> ''C''
     then \<exists>us v vs. xs = us @ v # vs \<and> li_name v = li_name info \<and> ys = us @ vs else ys = xs)"
| "items_after (Select_Language info) xs ys = (ys = xs)"
| "items_after Clear_Languages xs ys = (ys = [])"

fun languages_after :: "language_call list \<Rightarrow> language_info list \<Rightarrow> language_info list \<Rightarrow> bool" where
  "languages_after [] xs ys = (ys = xs)"
| "languages_after (k # ks) xs ys = (\<exists>zs. items_after k xs zs \<and> languages_after ks zs ys)"

definition removes :: "language_call \<Rightarrow> bool" where
  "removes k \<longleftrightarrow> (\<exists>info. k = Remove_Language info)"

locale language_selection = qt_languages api + combo_box cb for api :: lang_api and cb :: "language_info combo_api"
begin

lemma C_info_eval: "GetCLanguageInfo api st = Some (Ret C_info st)"
  using C_eval by (simp add: C_info_def)

lemma current_eval: "GetCurrentLanguageInfo api (w, s) = Some (Ret (selected s) (w, s))"
  by (simp add: GetCurrentLanguageInfo_def this_def bind_def C_info_eval selected_def cb_current_def)

lemma convert_eval:
  "ConvertCurrentChanged api (cb_index (combo s)) (w, s) = Some (Ret () (w, s\<lparr>announced := announced s @ [selected s]\<rparr>))"
  by (simp add: ConvertCurrentChanged_def this_def modify_def bind_def C_info_eval selected_def cb_current_def)

text \<open>The combo box after an operation, and what was announced.\<close>

definition changed :: "(language_info combo \<Rightarrow> language_info combo \<times> bool) \<Rightarrow> language_widget \<Rightarrow> language_widget" where
  "changed f s = (let s' = s\<lparr>combo := fst (f (combo s))\<rparr> in if snd (f (combo s)) then s'\<lparr>announced := announced s @ [selected s']\<rparr> else s')"

lemma on_combo_eval: "on_combo f (ConvertCurrentChanged api) (w, s) = Some (Ret () (w, changed f s))"
  using convert_eval[of "s\<lparr>combo := fst (f (combo s))\<rparr>" w]
  by (simp add: on_combo_def changed_def this_def modify_def bind_def Let_def)

definition in_step :: "language_widget \<Rightarrow> bool" where
  "in_step s \<longleftrightarrow> cb_valid (combo s) \<and> last (C_info # announced s) = selected s"

lemma changed_in_step:
  assumes "in_step s" "signals_changes f (combo s)"
  shows "in_step (changed f s)"
  using assms by (auto simp: in_step_def changed_def signals_changes_def selected_def Let_def)

lemma find_outcome:
  "(\<exists>j. find_data api info infos k st = Some (Ret j st) \<and> (if li_name info \<in> li_name ` set infos
      then k \<le> j \<and> j < k + int (length infos) \<and> li_name (infos ! nat (j - k)) = li_name info else j = - 1))
    \<or> aborts (find_data api info infos k st) st"
proof (induction infos arbitrary: k)
  case (Cons y infos)
  from li_eq_outcome[of y info st] show ?case
  proof
    assume y: "li_eq api y info st = Some (Ret (li_name y = li_name info) st)"
    show ?thesis
    proof (cases "li_name y = li_name info")
      case True
      then show ?thesis using y by (intro disjI1 exI[of _ k]) auto
    next
      case False
      have nth: "j \<ge> k + 1 \<Longrightarrow> (y # infos) ! nat (j - k) = infos ! nat (j - (k + 1))" for j
        by (cases "nat (j - k)") (auto simp: nat_diff_distrib' intro!: arg_cong[of _ _ "(!) infos"])
      from Cons.IH[of "k + 1"] show ?thesis
      proof
        assume "aborts (find_data api info infos (k + 1) st) st"
        then show ?thesis using y False by (simp add: aborts_def)
      next
        assume "\<exists>j. find_data api info infos (k + 1) st = Some (Ret j st) \<and> (if li_name info \<in> li_name ` set infos
          then k + 1 \<le> j \<and> j < k + 1 + int (length infos) \<and> li_name (infos ! nat (j - (k + 1))) = li_name info else j = - 1)"
        then obtain j where j: "find_data api info infos (k + 1) st = Some (Ret j st)" "if li_name info \<in> li_name ` set infos
          then k + 1 \<le> j \<and> j < k + 1 + int (length infos) \<and> li_name (infos ! nat (j - (k + 1))) = li_name info else j = - 1" by blast
        then show ?thesis using y False nth[of j] by (intro disjI1 exI[of _ j]) (auto split: if_splits)
      qed
    qed
  qed (simp add: aborts_def)
qed simp

lemma findData_outcome:
  "(\<exists>j. findData api info (w, s) = Some (Ret j (w, s)) \<and> (if li_name info \<in> li_name ` set (cb_items (combo s))
      then 0 \<le> j \<and> j < int (length (cb_items (combo s))) \<and> li_name (cb_items (combo s) ! nat j) = li_name info else j = - 1))
    \<or> aborts (findData api info (w, s)) (w, s)"
proof -
  have "findData api info (w, s) = find_data api info (cb_items (combo s)) 0 (w, s)" by (simp add: findData_def this_def)
  then show ?thesis using find_outcome[of info "cb_items (combo s)" 0 "(w, s)"] by (simp only: add_0 diff_zero)
qed

text \<open>A call, with its exception handled: it is in step unless something was removed, or an assertion ended the program.\<close>

definition goes_on :: "(unit, 'w) lwprog \<Rightarrow> 'w \<Rightarrow> language_widget \<Rightarrow> (language_widget \<Rightarrow> bool) \<Rightarrow> bool" where
  "goes_on m w s Q \<longleftrightarrow> (\<exists>s'. catch m (\<lambda>_. ret ()) (w, s) = Some (Ret () (w, s')) \<and> Q s') \<or> aborts (m (w, s)) (w, s)"

lemma goes_on_ret: "m (w, s) = Some (Ret () (w, s')) \<Longrightarrow> Q s' \<Longrightarrow> goes_on m w s Q"
  by (auto simp: goes_on_def)

lemma goes_on_exc: "m (w, s) = Some (Exc e (w, s)) \<Longrightarrow> Q s \<Longrightarrow> goes_on m w s Q"
  by (auto simp: goes_on_def)

lemma goes_on_bind:
  assumes "m (w, s) = Some (Ret a (w, s)) \<and> R a \<or> aborts (m (w, s)) (w, s)" "R a \<Longrightarrow> goes_on (k a) w s Q"
  shows "goes_on (bind m k) w s Q"
  using assms by (auto simp: goes_on_def aborts_def catch_def)

lemma goes_on_li_eq: "goes_on (k (li_name a = li_name b)) w s Q \<Longrightarrow> goes_on (bind (li_eq api a b) k) w s Q"
  using goes_on_bind[where R = "\<lambda>_. True", of "li_eq api a b" w s "li_name a = li_name b" k Q] li_eq_outcome[of a b "(w, s)"] by simp

lemma goes_on_C: "goes_on (k C_info) w s Q \<Longrightarrow> goes_on (bind (GetCLanguageInfo api) k) w s Q"
  by (auto simp: goes_on_def C_info_eval catch_def)

lemma goes_on_check: "(b \<Longrightarrow> goes_on k w s Q) \<Longrightarrow> (\<not> b \<Longrightarrow> Q s) \<Longrightarrow> goes_on (andthen (check b e) k) w s Q"
  by (cases b) (auto simp: goes_on_def check_def catch_def)

lemma goes_on_find:
  assumes "\<And>j. (if li_name info \<in> li_name ` set (cb_items (combo s))
      then 0 \<le> j \<and> j < int (length (cb_items (combo s))) \<and> li_name (cb_items (combo s) ! nat j) = li_name info else j = - 1) \<Longrightarrow> goes_on (k j) w s Q"
  shows "goes_on (bind (findData api info) k) w s Q"
  using findData_outcome[of info w s]
proof
  assume "aborts (findData api info (w, s)) (w, s)"
  then show ?thesis by (simp add: goes_on_def aborts_def)
next
  assume "\<exists>j. findData api info (w, s) = Some (Ret j (w, s)) \<and> (if li_name info \<in> li_name ` set (cb_items (combo s))
      then 0 \<le> j \<and> j < int (length (cb_items (combo s))) \<and> li_name (cb_items (combo s) ! nat j) = li_name info else j = - 1)"
  then obtain j where "findData api info (w, s) = Some (Ret j (w, s))" "goes_on (k j) w s Q" using assms by blast
  then show ?thesis by (auto simp: goes_on_def catch_def)
qed

lemma changed_simps [simp]: "combo (changed f s) = fst (f (combo s))"
  by (simp add: changed_def Let_def)

lemma goes_on_combo: "Q (changed f s) \<Longrightarrow> goes_on (on_combo f (ConvertCurrentChanged api)) w s Q"
  by (rule goes_on_ret[of _ w s "changed f s"]) (simp_all only: on_combo_eval)

lemma C_name [simp]: "li_name C_info = ''C''"
  by (simp add: C_info_def)

lemma add_outcome:
  "goes_on (AddLanguageInfo api cb info) w s (\<lambda>s'. items_after (Add_Language info) (cb_items (combo s)) (cb_items (combo s'))
     \<and> (cb_valid (combo s) \<longrightarrow> cb_valid (combo s')) \<and> (in_step s \<longrightarrow> in_step s'))"
  unfolding AddLanguageInfo_def
  by (intro goes_on_C goes_on_li_eq goes_on_check goes_on_combo)
    (use add(1)[of info "combo s"] add_signals[of "combo s" info] changed_in_step[of s "cb_addItem cb info"] in \<open>auto simp: in_step_def signals_changes_def\<close>)

lemma select_outcome:
  "goes_on (SelectLanguageInfo api cb info) w s (\<lambda>s'. cb_items (combo s') = cb_items (combo s)
     \<and> (cb_valid (combo s) \<longrightarrow> cb_valid (combo s')) \<and> (in_step s \<longrightarrow> in_step s')
     \<and> (li_name info \<in> insert ''C'' (li_name ` set (cb_items (combo s))) \<longrightarrow> li_name (selected s') = li_name info)
     \<and> (li_name info \<notin> insert ''C'' (li_name ` set (cb_items (combo s))) \<longrightarrow> s' = s))"
proof -
  let ?Q = "\<lambda>s'. cb_items (combo s') = cb_items (combo s)
     \<and> (cb_valid (combo s) \<longrightarrow> cb_valid (combo s')) \<and> (in_step s \<longrightarrow> in_step s')
     \<and> (li_name info \<in> insert ''C'' (li_name ` set (cb_items (combo s))) \<longrightarrow> li_name (selected s') = li_name info)
     \<and> (li_name info \<notin> insert ''C'' (li_name ` set (cb_items (combo s))) \<longrightarrow> s' = s)"
  have sel: "?Q (changed (cb_setCurrentIndex cb i) s)" if "- 1 \<le> i" "i < int (length (cb_items (combo s)))"
    "li_name info = (if i = - 1 then ''C'' else li_name (cb_items (combo s) ! nat i))" for i
    using setCurrentIndex(1)[of i "combo s"] setCurrentIndex(2)[OF that(1,2)] set_signals[OF that(1,2)] changed_in_step[of s "cb_setCurrentIndex cb i"] that
    by (auto simp: selected_def cb_current_def in_step_def signals_changes_def)
  show ?thesis
    unfolding SelectLanguageInfo_def
  proof (intro goes_on_C goes_on_li_eq, cases "li_name info = li_name C_info", goal_cases)
    case 1
    then show ?case using sel[of "- 1"] by (simp add: goes_on_combo)
  next
    case 2
    have ret: "goes_on (ret ()) w s ?Q" if "li_name info \<notin> insert ''C'' (li_name ` set (cb_items (combo s)))"
      using that by (intro goes_on_ret[of _ w s s]) simp_all
    show ?case using 2 sel ret by (auto intro!: goes_on_find goes_on_combo split: if_splits)
  qed
qed

lemma clear_outcome:
  "goes_on (ClearLanguages api cb) w s (\<lambda>s'. cb_items (combo s') = [] \<and> cb_valid (combo s') \<and> (in_step s \<longrightarrow> in_step s'))"
  unfolding ClearLanguages_def
  by (intro goes_on_combo) (use clear[of "combo s"] clear_signals[of "combo s"] changed_in_step[of s "cb_clear cb"] in \<open>auto simp: in_step_def signals_changes_def\<close>)

lemma remove_outcome:
  "goes_on (RemoveLanguageInfo api cb info) w s (\<lambda>s'. items_after (Remove_Language info) (cb_items (combo s)) (cb_items (combo s'))
     \<and> (cb_valid (combo s) \<longrightarrow> cb_valid (combo s')))"
proof -
  let ?Q = "\<lambda>s'. items_after (Remove_Language info) (cb_items (combo s)) (cb_items (combo s')) \<and> (cb_valid (combo s) \<longrightarrow> cb_valid (combo s'))"
  let ?xs = "cb_items (combo s)"
  have rem: "?Q (changed (cb_removeItem cb j) s)"
    if "0 \<le> j" "j < int (length ?xs)" "li_name (?xs ! nat j) = li_name info" "li_name info \<noteq> ''C''" for j
  proof -
    have "?xs = take (nat j) ?xs @ ?xs ! nat j # drop (nat j + 1) ?xs" using that(1,2) id_take_nth_drop[of "nat j" ?xs] by (simp add: nat_less_iff)
    moreover have "li_name info \<in> li_name ` set ?xs" using that(1-3) by (metis imageI nth_mem nat_less_iff)
    ultimately have "items_after (Remove_Language info) ?xs (take (nat j) ?xs @ drop (nat j + 1) ?xs)" using that(3,4) by (simp, metis)
    then show ?thesis using remove(1)[OF that(1,2)] remove(3)[of "combo s" j] by simp
  qed
  show ?thesis
    unfolding RemoveLanguageInfo_def
  proof (intro goes_on_C goes_on_li_eq goes_on_check goes_on_find, goal_cases)
    case (1 j)
    show ?case
    proof (cases "j = - 1")
      case True
      then have "li_name info \<notin> li_name ` set ?xs" using 1 by (auto split: if_splits)
      then show ?thesis using True goes_on_ret[of "ret ()" w s s ?Q] by simp
    next
      case False
      then have "0 \<le> j" "j < int (length ?xs)" "li_name (?xs ! nat j) = li_name info" "li_name info \<noteq> ''C''"
        using 1 by (auto split: if_splits)
      from goes_on_combo[of ?Q, OF rem[OF this]] show ?thesis using False by (simp only: if_True not_False_eq_True)
    qed
  qed simp
qed

lemma goes_on_mono: "goes_on m w s Q \<Longrightarrow> (\<And>s'. Q s' \<Longrightarrow> R s') \<Longrightarrow> goes_on m w s R"
  by (auto simp: goes_on_def)

definition kept :: "bool \<Rightarrow> language_widget \<Rightarrow> bool" where
  "kept removed s \<longleftrightarrow> cb_valid (combo s) \<and> (\<not> removed \<longrightarrow> in_step s)"

lemma call_outcome:
  assumes "kept r s"
  shows "goes_on (call_language api cb k) w s (\<lambda>s'. items_after k (cb_items (combo s)) (cb_items (combo s')) \<and> kept (r \<or> removes k) s')"
proof (cases k)
  case (Add_Language info)
  then show ?thesis using assms by (auto simp: kept_def intro!: goes_on_mono[OF add_outcome])
next
  case (Remove_Language info)
  then show ?thesis using assms by (auto simp: kept_def removes_def simp del: items_after.simps intro!: goes_on_mono[OF remove_outcome])
next
  case (Select_Language info)
  then show ?thesis using assms by (auto simp: kept_def intro!: goes_on_mono[OF select_outcome])
next
  case Clear_Languages
  then show ?thesis using assms by (auto simp: kept_def intro!: goes_on_mono[OF clear_outcome])
qed

lemma calls_outcome:
  assumes "kept r s"
  shows "(\<exists>s'. language_calls api cb ks (w, s) = Some (Ret () (w, s')) \<and> languages_after ks (cb_items (combo s)) (cb_items (combo s'))
      \<and> kept (r \<or> (\<exists>k \<in> set ks. removes k)) s')
    \<or> (\<not> la_ndebug api \<and> (\<exists>st. language_calls api cb ks (w, s) = Some (Term st)))"
  using assms
proof (induction ks arbitrary: r s)
  case (Cons k ks)
  from call_outcome[OF Cons.prems, of k w] show ?case
    unfolding goes_on_def
  proof (elim disjE exE conjE)
    fix s1 assume 1: "catch (call_language api cb k) (\<lambda>_. ret ()) (w, s) = Some (Ret () (w, s1))"
      "items_after k (cb_items (combo s)) (cb_items (combo s1))" "kept (r \<or> removes k) s1"
    then have "language_calls api cb (k # ks) (w, s) = language_calls api cb ks (w, s1)" by simp
    note run = this
    from Cons.IH[OF 1(3)] show ?thesis
    proof (elim disjE exE conjE)
      fix s' assume s': "language_calls api cb ks (w, s1) = Some (Ret () (w, s'))" "languages_after ks (cb_items (combo s1)) (cb_items (combo s'))"
        "kept ((r \<or> removes k) \<or> (\<exists>k \<in> set ks. removes k)) s'"
      have "languages_after (k # ks) (cb_items (combo s)) (cb_items (combo s'))" using 1(2) s'(2) by (auto simp del: items_after.simps)
      moreover have "kept (r \<or> (\<exists>k \<in> set (k # ks). removes k)) s'" using s'(3) by (simp add: disj_assoc)
      ultimately show ?thesis using run s'(1) by auto
    qed (use run in auto)
  qed (auto simp: aborts_def)
qed auto

lemma first_kept: "kept False first_language_widget"
  by (simp add: kept_def in_step_def selected_def first_language_widget_def cb_valid_def cb_current_def combo_widget.defs)

lemma selected_listed: "kept r s \<Longrightarrow> selected s \<in> insert C_info (set (cb_items (combo s)))"
  by (auto simp: kept_def selected_def cb_current_def cb_valid_def)

end

section \<open>Properties\<close>

text \<open>Whatever calls are made on a \<open>LanguageWidget\<close>, its list is what was added, less one entry of the name for each removal; its current
  language is one of them or C; and as long as nothing was removed the last language announced by its signal is the current one.
  Only an assertion on native names can end a debug build.\<close>

theorem language_widget_announces:
  assumes "qt_languages api" "combo_box cb"
  shows "(\<exists>s. language_calls api cb ks (w, first_language_widget) = Some (Ret () (w, s)) \<and> languages_after ks [] (cb_items (combo s))
      \<and> GetCurrentLanguageInfo api (w, s) = Some (Ret (selected s) (w, s)) \<and> selected s \<in> insert C_info (set (cb_items (combo s)))
      \<and> ((\<forall>k \<in> set ks. \<not> removes k) \<longrightarrow> last (C_info # announced s) = selected s))
    \<or> (\<not> la_ndebug api \<and> (\<exists>st. language_calls api cb ks (w, first_language_widget) = Some (Term st)))"
proof -
  note l = language_selection.intro[OF assms]
  have first: "cb_items (combo first_language_widget) = []" by (simp add: first_language_widget_def combo_widget.defs)
  from language_selection.calls_outcome[OF l language_selection.first_kept[OF l], of ks w] show ?thesis
    unfolding first
  proof (elim disjE exE conjE, goal_cases)
    case (1 s)
    then show ?thesis using language_selection.current_eval[OF l, of w s] language_selection.selected_listed[OF l 1(3)]
      by (auto simp: language_selection.kept_def[OF l] language_selection.in_step_def[OF l])
  qed simp
qed

definition ro :: language_info where "ro = \<lparr>li_name = ''ro_RO'', li_nativeName = ''Romana''\<rparr>"
definition fr :: language_info where "fr = \<lparr>li_name = ''fr_FR'', li_nativeName = ''Francais''\<rparr>"

lemma language_widget_announces_witness:
  "\<exists>s. language_calls (sample_lang True []) sample_combo [Add_Language ro, Add_Language fr, Select_Language fr] ((), first_language_widget) = Some (Ret () ((), s))
    \<and> cb_items (combo s) = [ro, fr] \<and> last (C_info # announced s) = selected s"
  using language_widget_announces[OF sample_lang.qt_languages_axioms[of True "[]"] sample_combo.combo_box_axioms,
      of "[Add_Language ro, Add_Language fr, Select_Language fr]" "()"]
  by (auto simp: removes_def ro_def fr_def)

end
