(* ===== verification/TimedWidgets.thy ===== *)
theory TimedWidgets
imports Selections
begin

text \<open>
  \<open>TimedComputerManagementWidget\<close> (\<open>src/gui/timed_computer_management_widget.cpp\<close>): the list of timeouts in a combo box, the method in a
  group of radio buttons, of which one is always checked.

  \<open>QString::number\<close> and \<open>QString::toInt\<close> are parameters; \<open>None\<close> is a failed conversion, which gives 0.  A method is its number.
\<close>

record text_api =
  tx_ndebug :: bool
  qs_number :: "int \<Rightarrow> string"
  qs_toInt :: "string \<Rightarrow> int option"

record timed_widget = "string combo_widget" +
  boxChecked :: bool
  radio :: int
  toggles :: "bool list"
  methodChanges :: "int list"
  timeoutChanges :: "int list"

type_synonym ('a, 'w) twprog = "(exn, 'a, 'w \<times> timed_widget) prog"

abbreviation (input) "cmmNone \<equiv> 0 :: int"
abbreviation (input) "cmmShutdownComputer \<equiv> 1 :: int"
abbreviation (input) "cmmLockComputer \<equiv> 2 :: int"
abbreviation (input) "cmmLogoutUser \<equiv> 3 :: int"

definition OutOfRange :: exn where "OutOfRange = mk_exn OutOfRangeException"

section \<open>The method\<close>

definition GetCurrentMethod :: "text_api \<Rightarrow> (int, 'w) twprog" where
  "GetCurrentMethod tx = bind (this radio) (\<lambda>r. if r = cmmNone then ret cmmNone else if r = cmmLockComputer then ret cmmLockComputer
     else if r = cmmLogoutUser then ret cmmLogoutUser else andthen (cpp_assert (tx_ndebug tx) (r = cmmShutdownComputer)) (ret cmmShutdownComputer))"

definition OnMethodRadioButtonToggled :: "text_api \<Rightarrow> bool \<Rightarrow> (unit, 'w) twprog" where
  "OnMethodRadioButtonToggled tx checked = (let changed = (\<lambda>m. modify (\<lambda>s. s\<lparr>methodChanges := methodChanges s @ [m]\<rparr>)) in
     if \<not> checked then ret () else bind (this radio) (\<lambda>r. if r = cmmNone then changed cmmNone else if r = cmmLockComputer then changed cmmLockComputer
     else if r = cmmLogoutUser then changed cmmLogoutUser
     else andthen (cpp_assert (tx_ndebug tx) (r = cmmShutdownComputer)) (changed cmmShutdownComputer)))"

text \<open>Checking a button unchecks the one that was checked; both signal.\<close>

definition check_radio :: "text_api \<Rightarrow> int \<Rightarrow> (unit, 'w) twprog" where
  "check_radio tx m = bind (this radio) (\<lambda>old. if old = m then ret () else andthen (modify (\<lambda>s. s\<lparr>radio := m\<rparr>))
     (andthen (OnMethodRadioButtonToggled tx False) (OnMethodRadioButtonToggled tx True)))"

definition SetCurrentMethod :: "text_api \<Rightarrow> int \<Rightarrow> (unit, 'w) twprog" where
  "SetCurrentMethod tx m = andthen (check (cmmNone \<le> m \<and> m \<le> cmmLogoutUser) OutOfRange) (check_radio tx m)"

definition IsChecked :: "(bool, 'w) twprog" where
  "IsChecked = this boxChecked"

definition SetChecked :: "bool \<Rightarrow> (unit, 'w) twprog" where
  "SetChecked v = modify (\<lambda>s. if boxChecked s = v then s else s\<lparr>boxChecked := v, toggles := toggles s @ [v]\<rparr>)"

section \<open>The timeouts\<close>

definition OnCurrentTimeoutIndexChanged :: "text_api \<Rightarrow> string \<Rightarrow> (unit, 'w) twprog" where
  "OnCurrentTimeoutIndexChanged tx t = (let convOk = (qs_toInt tx t \<noteq> None); kTimeout = (case qs_toInt tx t of None \<Rightarrow> 0 | Some n \<Rightarrow> n) in
     andthen (cpp_assert (tx_ndebug tx) convOk) (modify (\<lambda>s. s\<lparr>timeoutChanges := timeoutChanges s @ [kTimeout]\<rparr>)))"

text \<open>The signal with the text of the item, which is empty when there is none.\<close>

definition index_changed :: "text_api \<Rightarrow> int \<Rightarrow> (unit, 'w) twprog" where
  "index_changed tx i = bind (this (\<lambda>s. if i = - 1 then [] else cb_items (combo s) ! nat i)) (OnCurrentTimeoutIndexChanged tx)"

definition AddTimeout :: "text_api \<Rightarrow> string combo_api \<Rightarrow> int \<Rightarrow> (unit, 'w) twprog" where
  "AddTimeout tx cb timeout = on_combo (cb_addItem cb (qs_number tx timeout)) (index_changed tx)"

fun AddTimeouts :: "text_api \<Rightarrow> string combo_api \<Rightarrow> int list \<Rightarrow> (unit, 'w) twprog" where
  "AddTimeouts tx cb [] = ret ()"
| "AddTimeouts tx cb (t # ts) = andthen (AddTimeout tx cb t) (AddTimeouts tx cb ts)"

definition GetTimeoutCount :: "(int, 'w) twprog" where
  "GetTimeoutCount = this (\<lambda>s. int (length (cb_items (combo s))))"

definition GetTimeout :: "text_api \<Rightarrow> int \<Rightarrow> (int, 'w) twprog" where
  "GetTimeout tx i = bind GetTimeoutCount (\<lambda>n. andthen (check (0 \<le> i \<and> i < n) OutOfRange)
     (bind (this (\<lambda>s. qs_toInt tx (cb_items (combo s) ! nat i))) (\<lambda>r. andthen (cpp_assert (tx_ndebug tx) (r \<noteq> None))
       (ret (case r of None \<Rightarrow> 0 | Some t \<Rightarrow> t)))))"

definition RemoveTimeoutItem :: "text_api \<Rightarrow> string combo_api \<Rightarrow> int \<Rightarrow> (unit, 'w) twprog" where
  "RemoveTimeoutItem tx cb i = on_combo (cb_removeItem cb i) (index_changed tx)"

definition GetCurrentTimeoutIndex :: "(int, 'w) twprog" where
  "GetCurrentTimeoutIndex = this (\<lambda>s. cb_index (combo s))"

definition SetCurrentTimeoutIndex :: "text_api \<Rightarrow> string combo_api \<Rightarrow> int \<Rightarrow> (unit, 'w) twprog" where
  "SetCurrentTimeoutIndex tx cb i = on_combo (cb_setCurrentIndex cb i) (index_changed tx)"

definition GetCurrentTimeout :: "text_api \<Rightarrow> (int, 'w) twprog" where
  "GetCurrentTimeout tx = bind GetCurrentTimeoutIndex (GetTimeout tx)"

definition RemoveCurrentTimeoutItem :: "text_api \<Rightarrow> string combo_api \<Rightarrow> (unit, 'w) twprog" where
  "RemoveCurrentTimeoutItem tx cb = bind GetCurrentTimeoutIndex (RemoveTimeoutItem tx cb)"

fun find_text :: "string \<Rightarrow> string list \<Rightarrow> int \<Rightarrow> int" where
  "find_text t [] k = - 1"
| "find_text t (x # xs) k = (if x = t then k else find_text t xs (k + 1))"

definition SetCurrentTimeout :: "text_api \<Rightarrow> string combo_api \<Rightarrow> int \<Rightarrow> (unit, 'w) twprog" where
  "SetCurrentTimeout tx cb timeout = bind (this (\<lambda>s. find_text (qs_number tx timeout) (cb_items (combo s)) 0)) (SetCurrentTimeoutIndex tx cb)"

definition ClearTimeout :: "text_api \<Rightarrow> string combo_api \<Rightarrow> (unit, 'w) twprog" where
  "ClearTimeout tx cb = on_combo (cb_clear cb) (index_changed tx)"

section \<open>How they behave\<close>

lemma SetCurrentMethod_sets:
  assumes "0 \<le> m" "m \<le> 3"
  shows "SetCurrentMethod tx m (w, s) = Some (Ret () (w, if radio s = m then s else s\<lparr>radio := m, methodChanges := methodChanges s @ [m]\<rparr>))"
    and "GetCurrentMethod tx (w, s\<lparr>radio := m\<rparr>) = Some (Ret m (w, s\<lparr>radio := m\<rparr>))"
proof -
  have "m = 0 \<or> m = 1 \<or> m = 2 \<or> m = 3" using assms by linarith
  then show "SetCurrentMethod tx m (w, s) = Some (Ret () (w, if radio s = m then s else s\<lparr>radio := m, methodChanges := methodChanges s @ [m]\<rparr>))"
    "GetCurrentMethod tx (w, s\<lparr>radio := m\<rparr>) = Some (Ret m (w, s\<lparr>radio := m\<rparr>))"
    by (auto simp: SetCurrentMethod_def GetCurrentMethod_def check_radio_def OnMethodRadioButtonToggled_def this_def modify_def cpp_assert_def)
qed

lemma find_text_index:
  "if t \<in> set xs then k \<le> find_text t xs k \<and> find_text t xs k < k + int (length xs) \<and> xs ! nat (find_text t xs k - k) = t else find_text t xs k = - 1"
proof (induction xs arbitrary: k)
  case (Cons x xs)
  have nth: "j \<ge> k + 1 \<Longrightarrow> (x # xs) ! nat (j - k) = xs ! nat (j - (k + 1))" for j
    by (cases "nat (j - k)") (auto simp: nat_diff_distrib' intro!: arg_cong[of _ _ "(!) xs"])
  show ?case using Cons.IH[of "k + 1"] nth[of "find_text t xs (k + 1)"] by (auto split: if_splits)
qed simp

locale timeout_box = combo_box cb for cb :: "string combo_api" +
  fixes tx :: text_api
  assumes number: "qs_toInt tx (qs_number tx t) = Some t"
    and no_number: "qs_toInt tx [] = None"
begin

text \<open>A timeout that is in the list becomes the current one and is announced.\<close>

lemma set_present:
  assumes "qs_number tx t \<in> set (cb_items (combo s))"
  shows "\<exists>s'. SetCurrentTimeout tx cb t (w, s) = Some (Ret () (w, s')) \<and> GetCurrentTimeout tx (w, s') = Some (Ret t (w, s'))
    \<and> timeoutChanges s' \<in> {timeoutChanges s, timeoutChanges s @ [t]}"
proof -
  let ?j = "find_text (qs_number tx t) (cb_items (combo s)) 0" and ?c = "combo s"
  have j: "0 \<le> ?j" "?j < int (length (cb_items ?c))" "cb_items ?c ! nat ?j = qs_number tx t"
    using find_text_index[of "qs_number tx t" "cb_items ?c" 0] assms by simp_all
  have c: "cb_items (fst (cb_setCurrentIndex cb ?j ?c)) = cb_items ?c" "cb_index (fst (cb_setCurrentIndex cb ?j ?c)) = ?j"
    using setCurrentIndex(1)[of ?j ?c] setCurrentIndex(2)[of ?j ?c] j by simp_all
  have get: "GetCurrentTimeout tx (w, s') = Some (Ret t (w, s'))" if "combo s' = fst (cb_setCurrentIndex cb ?j ?c)" for s'
    using that c j number[of t] by (simp add: GetCurrentTimeout_def GetCurrentTimeoutIndex_def GetTimeout_def GetTimeoutCount_def this_def cpp_assert_def)
  have set: "SetCurrentTimeout tx cb t (w, s) = Some (Ret () (w, let s' = s\<lparr>combo := fst (cb_setCurrentIndex cb ?j ?c)\<rparr> in
      if snd (cb_setCurrentIndex cb ?j ?c) then s'\<lparr>timeoutChanges := timeoutChanges s @ [t]\<rparr> else s'))"
    using c j number[of t] by (simp add: SetCurrentTimeout_def SetCurrentTimeoutIndex_def on_combo_def index_changed_def
        OnCurrentTimeoutIndexChanged_def this_def modify_def cpp_assert_def Let_def)
  then show ?thesis by (auto simp: Let_def intro!: get)
qed

text \<open>When the current timeout goes away the slot gets an empty text, which is no number.\<close>

lemma announce_none:
  assumes "cb_index (combo s) \<noteq> - 1" "cb_index (fst (f (combo s))) = - 1" "cb_index (fst (f (combo s))) \<noteq> cb_index (combo s) \<Longrightarrow> snd (f (combo s))"
  shows "on_combo f (index_changed tx) (w, s) = (let s' = s\<lparr>combo := fst (f (combo s))\<rparr> in
    if tx_ndebug tx then Some (Ret () (w, s'\<lparr>timeoutChanges := timeoutChanges s @ [0]\<rparr>)) else Some (Term (w, s')))"
proof -
  have "snd (f (combo s))" using assms by simp
  then show ?thesis using assms(2) no_number
    by (simp add: on_combo_def index_changed_def OnCurrentTimeoutIndexChanged_def this_def modify_def cpp_assert_def bind_def Let_def)
qed

end

text \<open>Numbers that compute.\<close>

definition unary :: text_api where
  "unary = \<lparr>tx_ndebug = False, qs_number = (\<lambda>n. (if n < 0 then CHR ''-'' else CHR ''+'') # replicate (nat \<bar>n\<bar>) CHR ''1''),
     qs_toInt = (\<lambda>t. case t of [] \<Rightarrow> None | c # cs \<Rightarrow> Some (if c = CHR ''-'' then - int (length cs) else int (length cs)))\<rparr>"

interpretation unary_timeouts: timeout_box sample_combo unary
  by unfold_locales (simp_all add: unary_def)

section \<open>Properties\<close>

text \<open>Clearing the timeouts, or choosing one that is not in the list, while there is a current timeout ends a debug build: the combo box
  signals an empty text, which is no number.  A release build announces the timeout 0, which nobody added.\<close>

theorem lost_timeout_aborts:
  assumes "timeout_box cb tx" "cb_index (combo s) \<noteq> - 1" "qs_number tx t \<notin> set (cb_items (combo s))"
    and "m = ClearTimeout tx cb \<or> m = SetCurrentTimeout tx cb t"
  shows "\<exists>s'. cb_index (combo s') = - 1 \<and> m (w, s) = Some (if tx_ndebug tx then Ret () (w, s') else Term (w, s'))
    \<and> (tx_ndebug tx \<longrightarrow> timeoutChanges s' = timeoutChanges s @ [0])"
proof -
  note c = timeout_box.axioms(1)[OF assms(1)]
  have lost: "\<exists>s'. cb_index (combo s') = - 1 \<and> on_combo f (index_changed tx) (w, s) = Some (if tx_ndebug tx then Ret () (w, s') else Term (w, s'))
    \<and> (tx_ndebug tx \<longrightarrow> timeoutChanges s' = timeoutChanges s @ [0])"
    if f: "cb_index (fst (f (combo s))) = - 1" "cb_index (fst (f (combo s))) \<noteq> cb_index (combo s) \<Longrightarrow> snd (f (combo s))" for f
    using timeout_box.announce_none[OF assms(1,2), of f w] f
    by (cases "tx_ndebug tx") (auto simp: Let_def)
  have "find_text (qs_number tx t) (cb_items (combo s)) 0 = - 1" using find_text_index[of "qs_number tx t" "cb_items (combo s)" 0] assms(3) by simp
  then have "SetCurrentTimeout tx cb t (w, s) = on_combo (cb_setCurrentIndex cb (- 1)) (index_changed tx) (w, s)"
    by (simp add: SetCurrentTimeout_def SetCurrentTimeoutIndex_def this_def)
  then show ?thesis
    using lost[of "cb_setCurrentIndex cb (- 1)"] lost[of "cb_clear cb"] combo_box.setCurrentIndex(2)[OF c, of "- 1" "combo s"]
      combo_box.signals(3)[OF c, of _ "combo s"] combo_box.signals(4)[OF c, of "combo s"] combo_box.clear(2)[OF c, of "combo s"] assms(4) by (auto simp: ClearTimeout_def)
qed

definition one_timeout :: timed_widget where
  "one_timeout = combo_widget.extend \<lparr>combo = \<lparr>cb_items = [''+11111''], cb_index = 0\<rparr>\<rparr>
     \<lparr>boxChecked = False, radio = 0, toggles = [], methodChanges = [], timeoutChanges = []\<rparr>"

lemma lost_timeout_aborts_witness:
  "\<exists>s'. ClearTimeout unary sample_combo ((), one_timeout) = Some (Term ((), s'))"
proof -
  have "cb_index (combo one_timeout) \<noteq> - 1" "qs_number unary 2 \<notin> set (cb_items (combo one_timeout))"
    by (simp_all add: one_timeout_def combo_widget.defs unary_def numeral_eq_Suc)
  from lost_timeout_aborts[OF unary_timeouts.timeout_box_axioms this, of "ClearTimeout unary sample_combo" "()"] show ?thesis by (auto simp: unary_def)
qed

end
