(* ===== verification/CustomWizard.thy ===== *)
theory CustomWizard
imports Exceptions "HOL-Library.Word"
begin

unbundle bit_operations_syntax

text \<open>
  The wizard with its own look (\<open>src/gui/custom_wizard.cpp\<close>, \<open>include/cppdevtk/gui/custom_wizard.hpp\<close>): pages on a
  stack, a current page, the pages visited before it and the pages that were initialized.

  The pages are objects of classes outside the repository: what they answer and do is in \<open>wiz_api\<close>.  So are two
  things of Qt that its documentation leaves open: the order in which a \<open>QSet\<close> is iterated, and whether
  \<open>setCurrentIndex(-1)\<close> of a \<open>QStackedWidget\<close> leaves no widget current (\<open>wz_deselects\<close>) or does nothing, as the
  sources of Qt 4 and 5 have it.  The virtual calls and the signals are logged in \<open>calls\<close>.
\<close>

section \<open>The state\<close>

datatype wcall = Init int | Cleanup int | PageAdded int | CurrentIdChanged int

record 'w wiz_api =
  wz_ndebug :: bool
  wz_deselects :: bool
  pg_title :: "nat \<Rightarrow> 'w \<Rightarrow> string"
  pg_subTitle :: "nat \<Rightarrow> 'w \<Rightarrow> string"
  pg_isComplete :: "nat \<Rightarrow> 'w \<Rightarrow> bool"
  pg_nextId :: "nat \<Rightarrow> 'w \<Rightarrow> int"
  pg_validate :: "nat \<Rightarrow> 'w \<Rightarrow> bool \<times> 'w"
  pg_initialize :: "nat \<Rightarrow> 'w \<Rightarrow> 'w"
  pg_cleanup :: "nat \<Rightarrow> 'w \<Rightarrow> 'w"
  qset_order :: "int set \<Rightarrow> int list"

record wizard =
  pages :: "nat list"
  current :: int
  options :: "32 word"
  wz_startId :: int
  initializedPageIds :: "int set"
  prevPages :: "int list"
  wz_title :: string
  wz_subtitle :: string
  subtitleVisible :: bool
  backEnabled :: bool
  nextEnabled :: bool
  cancelVisible :: bool
  helpVisible :: bool
  shown :: bool
  dialogResult :: "bool option"
  calls :: "wcall list"

abbreviation (input) "IndependentPages \<equiv> (1 :: 32 word)"
abbreviation (input) "IgnoreSubTitles \<equiv> (2 :: 32 word)"
abbreviation (input) "NoCancelButton \<equiv> (0x200 :: 32 word)"
abbreviation (input) "HaveHelpButton \<equiv> (0x800 :: 32 word)"

definition NullArgument :: exn where "NullArgument = mk_exn NullArgumentException"
definition InvalidState :: exn where "InvalidState = mk_exn InvalidStateException"

type_synonym ('a, 'w) wprog = "(exn, 'a, 'w \<times> wizard) prog"

definition pageCount :: "wizard \<Rightarrow> int" where "pageCount s = int (length (pages s))"

definition page_at :: "int \<Rightarrow> wizard \<Rightarrow> nat option" where
  "page_at i s = (if 0 \<le> i \<and> i < pageCount s then Some (pages s ! nat i) else None)"

definition currentPage :: "wizard \<Rightarrow> nat option" where "currentPage s = page_at (current s) s"

definition log_call :: "wcall \<Rightarrow> (unit, 'w) wprog" where
  "log_call c = modify (\<lambda>s. s\<lparr>calls := calls s @ [c]\<rparr>)"

section \<open>Pages and buttons\<close>

definition getPage :: "int \<Rightarrow> (nat option, 'w) wprog" where
  "getPage i = andthen (check (i = - 1 \<or> i \<ge> 0) InvalidArgument) (this (page_at i))"

definition updateButtonStates :: "('w, 'x) wiz_api_scheme \<Rightarrow> (unit, 'w) wprog" where
  "updateButtonStates api = (\<lambda>(w, s). Some (Ret () (w, s\<lparr>backEnabled := current s > 0,
     nextEnabled := (case currentPage s of None \<Rightarrow> False | Some p \<Rightarrow> pg_isComplete api p w),
     cancelVisible := (options s AND NoCancelButton = 0), helpVisible := (options s AND HaveHelpButton \<noteq> 0)\<rparr>)))"

text \<open>\<open>QStackedWidget::setCurrentIndex\<close> and the slots connected to its signal.\<close>

definition set_index :: "('w, 'x) wiz_api_scheme \<Rightarrow> int \<Rightarrow> (unit, 'w) wprog" where
  "set_index api i = bind (this (\<lambda>s. (current s, pageCount s))) (\<lambda>(old, n).
     if i = old \<or> \<not> (0 \<le> i \<and> i < n \<or> i = - 1 \<and> wz_deselects api) then ret ()
     else andthen (modify (\<lambda>s. s\<lparr>current := i\<rparr>)) (andthen (updateButtonStates api) (log_call (CurrentIdChanged i))))"

definition setPage :: "('w, 'x) wiz_api_scheme \<Rightarrow> int \<Rightarrow> nat option \<Rightarrow> (unit, 'w) wprog" where
  "setPage api pageId p = (case p of None \<Rightarrow> throw NullArgument | Some q \<Rightarrow>
     bind (this pages) (\<lambda>ps. andthen (check (q \<notin> set ps) InvalidArgument) (andthen (check (pageId = int (length ps)) InvalidArgument)
     (andthen (modify (\<lambda>s. s\<lparr>pages := pages s @ [q]\<rparr>)) (andthen (if ps = [] then set_index api 0 else ret ())
     (andthen (modify (\<lambda>s. if wz_startId s = - 1 then s\<lparr>wz_startId := pageId\<rparr> else s)) (log_call (PageAdded pageId))))))))"

definition addPage :: "('w, 'x) wiz_api_scheme \<Rightarrow> nat option \<Rightarrow> (int, 'w) wprog" where
  "addPage api p = (case p of None \<Rightarrow> throw NullArgument | Some q \<Rightarrow>
     bind (this id) (\<lambda>s. andthen (check (q \<notin> set (pages s)) InvalidArgument)
       (andthen (setPage api (pageCount s) p) (ret (pageCount s)))))"

definition setStartId :: "('w, 'x) wiz_api_scheme \<Rightarrow> int \<Rightarrow> (unit, 'w) wprog" where
  "setStartId api pageId = andthen (check (pageId = - 1 \<or> pageId \<ge> 0) InvalidArgument)
     (bind (this pageCount) (\<lambda>n. andthen (cpp_assert (wz_ndebug api) (n > 0))
     (let i = if pageId = - 1 then 0 else pageId in bind (getPage i) (\<lambda>p. andthen (cpp_assert (wz_ndebug api) (p \<noteq> None))
        (modify (\<lambda>s. s\<lparr>wz_startId := i\<rparr>))))))"

definition getStartId :: "('w, 'x) wiz_api_scheme \<Rightarrow> (int, 'w) wprog" where
  "getStartId api = bind (this id) (\<lambda>s. andthen
     (cpp_assert (wz_ndebug api) (wz_startId s = - 1 \<or> 0 \<le> wz_startId s \<and> wz_startId s < pageCount s)) (ret (wz_startId s)))"

definition validateCurrentPage :: "('w, 'x) wiz_api_scheme \<Rightarrow> (bool, 'w) wprog" where
  "validateCurrentPage api = bind (this currentPage) (\<lambda>p. case p of None \<Rightarrow> ret True | Some q \<Rightarrow> env (call (pg_validate api q)))"

definition next_id :: "('w, 'x) wiz_api_scheme \<Rightarrow> 'w \<Rightarrow> wizard \<Rightarrow> int" where
  "next_id api w s = (case currentPage s of None \<Rightarrow> - 1 | Some p \<Rightarrow> pg_nextId api p w)"

definition next_id_ok :: "int \<Rightarrow> wizard \<Rightarrow> bool" where
  "next_id_ok i s \<longleftrightarrow> i = - 1 \<or> (0 < i \<and> i < pageCount s) \<and> i > current s"

definition nextId :: "('w, 'x) wiz_api_scheme \<Rightarrow> (int, 'w) wprog" where
  "nextId api = (\<lambda>(w, s). andthen (cpp_assert (wz_ndebug api) (next_id_ok (next_id api w s) s)) (ret (next_id api w s)) (w, s))"

definition setOptions :: "('w, 'x) wiz_api_scheme \<Rightarrow> 32 word \<Rightarrow> (unit, 'w) wprog" where
  "setOptions api opts = bind (this options) (\<lambda>old. if old XOR opts = 0 then ret ()
     else andthen (modify (\<lambda>s. s\<lparr>options := opts, subtitleVisible := (opts AND IgnoreSubTitles = 0)\<rparr>)) (updateButtonStates api))"

definition setOption :: "('w, 'x) wiz_api_scheme \<Rightarrow> 32 word \<Rightarrow> bool \<Rightarrow> (unit, 'w) wprog" where
  "setOption api opt on = bind (this options) (\<lambda>old. if (old AND opt = 0) \<noteq> (\<not> on) then setOptions api (old XOR opt) else ret ())"

section \<open>Switching pages\<close>

text \<open>The virtual calls.  A null page is asserted not to occur, and has no meaning when assertions are off.\<close>

definition initializePage :: "('w, 'x) wiz_api_scheme \<Rightarrow> int \<Rightarrow> (unit, 'w) wprog" where
  "initializePage api i = bind (getPage i) (\<lambda>p. case p of None \<Rightarrow> cpp_assert False False
     | Some q \<Rightarrow> andthen (log_call (Init i)) (env (call (\<lambda>w. ((), pg_initialize api q w)))))"

definition cleanupPage :: "('w, 'x) wiz_api_scheme \<Rightarrow> int \<Rightarrow> (unit, 'w) wprog" where
  "cleanupPage api i = bind (getPage i) (\<lambda>p. case p of None \<Rightarrow> cpp_assert False False
     | Some q \<Rightarrow> andthen (log_call (Cleanup i)) (env (call (\<lambda>w. ((), pg_cleanup api q w)))))"

definition setTitle :: "string \<Rightarrow> (unit, 'w) wprog" where
  "setTitle msg = modify (\<lambda>s. s\<lparr>wz_title := msg\<rparr>)"

definition setSubtitle :: "string \<Rightarrow> (unit, 'w) wprog" where
  "setSubtitle msg = bind (this options) (\<lambda>opts. andthen (check (opts AND IgnoreSubTitles = 0) InvalidState) (modify (\<lambda>s. s\<lparr>wz_subtitle := msg\<rparr>)))"

definition show_titles :: "('w, 'x) wiz_api_scheme \<Rightarrow> (unit, 'w) wprog" where
  "show_titles api = (\<lambda>(w, s). case currentPage s of None \<Rightarrow> cpp_assert False False (w, s)
     | Some p \<Rightarrow> andthen (setTitle (pg_title api p w))
         (if options s AND IgnoreSubTitles = 0 then setSubtitle (pg_subTitle api p w) else ret ()) (w, s))"

definition go_forward :: "('w, 'x) wiz_api_scheme \<Rightarrow> int \<Rightarrow> int \<Rightarrow> (unit, 'w) wprog" where
  "go_forward api old pageId = andthen (bind (this initializedPageIds) (\<lambda>ids. if pageId \<in> ids then ret ()
       else andthen (modify (\<lambda>s. s\<lparr>initializedPageIds := insert pageId (initializedPageIds s)\<rparr>)) (initializePage api pageId)))
     (modify (\<lambda>s. s\<lparr>prevPages := prevPages s @ [old]\<rparr>))"

definition go_backward :: "('w, 'x) wiz_api_scheme \<Rightarrow> int \<Rightarrow> (unit, 'w) wprog" where
  "go_backward api old = bind (this options) (\<lambda>opts. if opts AND IndependentPages = 0
     then andthen (cleanupPage api old) (modify (\<lambda>s. s\<lparr>initializedPageIds := initializedPageIds s - {old}\<rparr>)) else ret ())"

definition switchToPage :: "('w, 'x) wiz_api_scheme \<Rightarrow> int \<Rightarrow> (unit, 'w) wprog" where
  "switchToPage api pageId = bind (this pageCount) (\<lambda>n. andthen (check (n > 0) InvalidState)
     (andthen (check (pageId = - 1 \<or> 0 \<le> pageId \<and> pageId < n) InvalidArgument)
     (let i = if pageId = - 1 then 0 else pageId in
      andthen (bind (this current) (\<lambda>old. if old = i then ret ()
        else andthen (if old < i then go_forward api old i else go_backward api old) (set_index api i))) (show_titles api))))"

fun cleanup_each :: "('w, 'x) wiz_api_scheme \<Rightarrow> int list \<Rightarrow> (unit, 'w) wprog" where
  "cleanup_each api [] = ret ()"
| "cleanup_each api (i # ids) = andthen (cleanupPage api i) (cleanup_each api ids)"

definition reset :: "('w, 'x) wiz_api_scheme \<Rightarrow> (unit, 'w) wprog" where
  "reset api = bind (this id) (\<lambda>s. if current s = - 1 then ret ()
     else andthen (cleanup_each api (qset_order api (initializedPageIds s)))
       (andthen (modify (\<lambda>s. s\<lparr>initializedPageIds := {}, prevPages := []\<rparr>)) (set_index api (- 1))))"

definition restart :: "('w, 'x) wiz_api_scheme \<Rightarrow> (unit, 'w) wprog" where
  "restart api = andthen (reset api) (bind (getStartId api) (switchToPage api))"

definition setVisible :: "('w, 'x) wiz_api_scheme \<Rightarrow> bool \<Rightarrow> (unit, 'w) wprog" where
  "setVisible api visible = andthen (if visible then bind (this current) (\<lambda>i. if i = - 1 then restart api else switchToPage api i) else ret ())
     (modify (\<lambda>s. s\<lparr>shown := visible\<rparr>))"

text \<open>\<open>accept()\<close> and \<open>reject()\<close> of the dialog call \<open>done\<close>, which hides the dialog.\<close>

definition wz_done :: "('w, 'x) wiz_api_scheme \<Rightarrow> bool \<Rightarrow> (unit, 'w) wprog" where
  "wz_done api accepted = bind (if \<not> accepted then andthen (reset api) (ret True) else validateCurrentPage api) (\<lambda>go.
     if \<not> go then ret () else andthen (setVisible api False) (modify (\<lambda>s. s\<lparr>dialogResult := Some accepted\<rparr>)))"

definition wz_back :: "('w, 'x) wiz_api_scheme \<Rightarrow> (unit, 'w) wprog" where
  "wz_back api = bind (this prevPages) (\<lambda>ps. if ps = [] then switchToPage api (- 1)
     else andthen (modify (\<lambda>s. s\<lparr>prevPages := butlast ps\<rparr>)) (switchToPage api (last ps)))"

text \<open>The validation stands inside an assertion: in a release build it is not run.\<close>

definition wz_next :: "('w, 'x) wiz_api_scheme \<Rightarrow> (unit, 'w) wprog" where
  "wz_next api = bind (this id) (\<lambda>s. andthen (cpp_assert (wz_ndebug api) (0 \<le> current s \<and> current s < pageCount s))
     (andthen (if wz_ndebug api then ret () else bind (validateCurrentPage api) (cpp_assert False))
     (bind (nextId api) (\<lambda>kNextId. if kNextId = - 1 then wz_done api True
        else andthen (cpp_assert (wz_ndebug api) (kNextId > current s \<and> 0 < kNextId \<and> kNextId < pageCount s)) (switchToPage api kNextId)))))"

definition wizard_ctor :: wizard where
  "wizard_ctor = \<lparr>pages = [], current = - 1, options = 0, wz_startId = - 1, initializedPageIds = {}, prevPages = [], wz_title = [],
     wz_subtitle = [], subtitleVisible = True, backEnabled = False, nextEnabled = False, cancelVisible = True, helpVisible = False,
     shown = False, dialogResult = None, calls = []\<rparr>"

section \<open>Runs\<close>

datatype wuse = AddPage "nat option" | SetPage int "nat option" | SetStartId int | SetOptions "32 word" | SetOption "32 word" bool
  | SetVisible bool | Back | Next | Accept | Reject | Restart | CompleteChanged

fun wizard_use :: "('w, 'x) wiz_api_scheme \<Rightarrow> wuse \<Rightarrow> (unit, 'w) wprog" where
  "wizard_use api (AddPage p) = andthen (addPage api p) (ret ())"
| "wizard_use api (SetPage i p) = setPage api i p"
| "wizard_use api (SetStartId i) = setStartId api i"
| "wizard_use api (SetOptions opts) = setOptions api opts"
| "wizard_use api (SetOption opt on) = setOption api opt on"
| "wizard_use api (SetVisible b) = setVisible api b"
| "wizard_use api Back = wz_back api"
| "wizard_use api Next = wz_next api"
| "wizard_use api Accept = wz_done api True"
| "wizard_use api Reject = wz_done api False"
| "wizard_use api Restart = restart api"
| "wizard_use api CompleteChanged = updateButtonStates api"

text \<open>What the assertions ask of a call: pages answer \<open>nextId()\<close> with a later page, and the start page exists.\<close>

fun asserted :: "('w, 'x) wiz_api_scheme \<Rightarrow> wuse \<Rightarrow> 'w \<times> wizard \<Rightarrow> bool" where
  "asserted api Next (w, s) \<longleftrightarrow> current s \<noteq> - 1 \<and> (\<forall>w'. next_id_ok (next_id api w' s) s)"
| "asserted api (SetStartId i) (w, s) \<longleftrightarrow> pageCount s > 0 \<and> i < pageCount s"
| "asserted api u st \<longleftrightarrow> True"

inductive wizard_run :: "('w, 'x) wiz_api_scheme \<Rightarrow> 'w \<Rightarrow> wuse list \<Rightarrow> 'w \<times> wizard \<Rightarrow> bool" for api w0 where
  start: "wizard_run api w0 [] (w0, wizard_ctor)"
| returns: "wizard_run api w0 us st \<Longrightarrow> asserted api u st \<Longrightarrow> wizard_use api u st = Some (Ret () st') \<Longrightarrow> wizard_run api w0 (us @ [u]) st'"
| throws: "wizard_run api w0 us st \<Longrightarrow> asserted api u st \<Longrightarrow> wizard_use api u st = Some (Exc e st') \<Longrightarrow> wizard_run api w0 (us @ [u]) st'"

section \<open>Invariants\<close>

text \<open>The pages that are initialized according to the calls; \<open>None\<close> when a page is initialized twice in a row or
  cleaned up without having been initialized.\<close>

fun replay_step :: "wcall \<Rightarrow> int set option \<Rightarrow> int set option" where
  "replay_step (Init i) (Some S) = (if i \<in> S then None else Some (insert i S))"
| "replay_step (Cleanup i) (Some S) = (if i \<in> S then Some (S - {i}) else None)"
| "replay_step c r = r"

definition replay :: "wcall list \<Rightarrow> int set option" where
  "replay cs = fold replay_step cs (Some {})"

lemma replay_append [simp]: "replay (cs @ ds) = fold replay_step ds (replay cs)"
  by (simp add: replay_def)

definition well_formed :: "('w, 'x) wiz_api_scheme \<Rightarrow> wizard \<Rightarrow> bool" where
  "well_formed api s \<longleftrightarrow> current s \<in> {- 1..<pageCount s} \<and> (current s = - 1 \<longrightarrow> pages s = [] \<or> wz_deselects api)
     \<and> distinct (pages s) \<and> (if pages s = [] then wz_startId s = - 1 else 0 \<le> wz_startId s \<and> wz_startId s < pageCount s)
     \<and> initializedPageIds s \<subseteq> {0..<pageCount s} \<and> sorted_wrt (<) (prevPages s @ [current s]) \<and> set (prevPages s) \<subseteq> {- 1..<pageCount s}
     \<and> backEnabled s = (current s > 0) \<and> cancelVisible s = (options s AND NoCancelButton = 0)
     \<and> helpVisible s = (options s AND HaveHelpButton \<noteq> 0) \<and> subtitleVisible s = (options s AND IgnoreSubTitles = 0)"

definition logged :: "wizard \<Rightarrow> bool" where
  "logged s \<longleftrightarrow> replay (calls s) = Some (initializedPageIds s) \<and> (\<forall>i \<in> set (current s # prevPages s). i > 0 \<longrightarrow> i \<in> initializedPageIds s)"

definition wz_inv :: "('w, 'x) wiz_api_scheme \<Rightarrow> wizard \<Rightarrow> bool" where
  "wz_inv api s \<longleftrightarrow> well_formed api s \<and> (wz_deselects api \<longrightarrow> logged s)"

lemmas inv_defs = wz_inv_def well_formed_def logged_def

text \<open>The states the parts of \<open>switchToPage\<close> lead to.\<close>

definition titled :: "('w, 'x) wiz_api_scheme \<Rightarrow> 'w \<Rightarrow> wizard \<Rightarrow> wizard" where
  "titled api w s = s\<lparr>wz_title := pg_title api (the (currentPage s)) w,
     wz_subtitle := (if options s AND IgnoreSubTitles = 0 then pg_subTitle api (the (currentPage s)) w else wz_subtitle s)\<rparr>"

definition chosen :: "('w, 'x) wiz_api_scheme \<Rightarrow> 'w \<Rightarrow> int \<Rightarrow> wizard \<Rightarrow> wizard" where
  "chosen api w i s = s\<lparr>current := i, backEnabled := i > 0,
     nextEnabled := (case page_at i s of None \<Rightarrow> False | Some p \<Rightarrow> pg_isComplete api p w),
     cancelVisible := (options s AND NoCancelButton = 0), helpVisible := (options s AND HaveHelpButton \<noteq> 0), calls := calls s @ [CurrentIdChanged i]\<rparr>"

lemma pageCount_update [simp]:
  "pageCount (s\<lparr>calls := cs\<rparr>) = pageCount s" "pageCount (s\<lparr>initializedPageIds := ids\<rparr>) = pageCount s"
  "pageCount (s\<lparr>prevPages := ps\<rparr>) = pageCount s" "pageCount (s\<lparr>shown := b\<rparr>) = pageCount s" "pageCount (s\<lparr>dialogResult := r\<rparr>) = pageCount s"
  by (simp_all add: pageCount_def)

lemma inv_titled [simp]: "wz_inv api (titled api' w s) = wz_inv api s"
  by (simp add: inv_defs titled_def pageCount_def)

lemma current_titled [simp]: "current (titled api' w s) = current s"
  by (simp add: titled_def)

lemma set_index_eval:
  assumes "i \<noteq> current s" "0 \<le> i \<and> i < pageCount s \<or> i = - 1 \<and> wz_deselects api"
  shows "set_index api i (w, s) = Some (Ret () (w, chosen api w i s))"
proof -
  have p: "currentPage (s\<lparr>current := i\<rparr>) = page_at i s" by (simp add: currentPage_def page_at_def pageCount_def)
  show ?thesis using assms by (auto simp: set_index_def updateButtonStates_def log_call_def chosen_def p)
qed

lemma set_index_same: "i = current s \<or> i = - 1 \<and> \<not> wz_deselects api \<Longrightarrow> set_index api i (w, s) = Some (Ret () (w, s))"
  by (auto simp: set_index_def)

lemma page_at_valid: "0 \<le> i \<Longrightarrow> i < pageCount s \<Longrightarrow> page_at i s = Some (pages s ! nat i)"
  by (simp add: page_at_def)

lemma show_titles_eval:
  "0 \<le> current s \<Longrightarrow> current s < pageCount s \<Longrightarrow> show_titles api (w, s) = Some (Ret () (w, titled api w s))"
  by (simp add: show_titles_def currentPage_def page_at_valid setTitle_def setSubtitle_def titled_def)

lemma initializePage_eval: "0 \<le> i \<Longrightarrow> i < pageCount s \<Longrightarrow>
  initializePage api i (w, s) = Some (Ret () (pg_initialize api (pages s ! nat i) w, s\<lparr>calls := calls s @ [Init i]\<rparr>))"
  by (simp add: initializePage_def getPage_def page_at_valid log_call_def)

lemma cleanupPage_eval: "0 \<le> i \<Longrightarrow> i < pageCount s \<Longrightarrow>
  cleanupPage api i (w, s) = Some (Ret () (pg_cleanup api (pages s ! nat i) w, s\<lparr>calls := calls s @ [Cleanup i]\<rparr>))"
  by (simp add: cleanupPage_def getPage_def page_at_valid log_call_def)

definition forwarded :: "int \<Rightarrow> wizard \<Rightarrow> wizard" where
  "forwarded i s = (if i \<in> initializedPageIds s then s
     else s\<lparr>initializedPageIds := insert i (initializedPageIds s), calls := calls s @ [Init i]\<rparr>)\<lparr>prevPages := prevPages s @ [current s]\<rparr>"

definition backwarded :: "wizard \<Rightarrow> wizard" where
  "backwarded s = (if options s AND IndependentPages = 0
     then s\<lparr>calls := calls s @ [Cleanup (current s)], initializedPageIds := initializedPageIds s - {current s}\<rparr> else s)"

lemma go_forward_eval: "0 \<le> i \<Longrightarrow> i < pageCount s \<Longrightarrow> go_forward api (current s) i (w, s) =
   Some (Ret () (if i \<in> initializedPageIds s then w else pg_initialize api (pages s ! nat i) w, forwarded i s))"
  by (simp add: go_forward_def initializePage_eval pageCount_def forwarded_def)

lemma go_backward_eval: "0 \<le> current s \<Longrightarrow> current s < pageCount s \<Longrightarrow> go_backward api (current s) (w, s) =
   Some (Ret () (if options s AND IndependentPages = 0 then pg_cleanup api (pages s ! nat (current s)) w else w, backwarded s))"
  by (simp add: go_backward_def cleanupPage_eval backwarded_def)

lemma chosen_simps [simp]:
  "pages (chosen api w i s) = pages s" "current (chosen api w i s) = i" "options (chosen api w i s) = options s"
  "wz_startId (chosen api w i s) = wz_startId s" "initializedPageIds (chosen api w i s) = initializedPageIds s"
  "prevPages (chosen api w i s) = prevPages s" "subtitleVisible (chosen api w i s) = subtitleVisible s"
  "backEnabled (chosen api w i s) = (i > 0)" "cancelVisible (chosen api w i s) = (options s AND NoCancelButton = 0)"
  "helpVisible (chosen api w i s) = (options s AND HaveHelpButton \<noteq> 0)" "calls (chosen api w i s) = calls s @ [CurrentIdChanged i]"
  "pageCount (chosen api w i s) = pageCount s"
  by (simp_all add: chosen_def pageCount_def)

lemma forwarded_simps [simp]:
  "pages (forwarded i s) = pages s" "current (forwarded i s) = current s" "options (forwarded i s) = options s"
  "wz_startId (forwarded i s) = wz_startId s" "initializedPageIds (forwarded i s) = insert i (initializedPageIds s)"
  "prevPages (forwarded i s) = prevPages s @ [current s]" "subtitleVisible (forwarded i s) = subtitleVisible s"
  "calls (forwarded i s) = calls s @ (if i \<in> initializedPageIds s then [] else [Init i])" "pageCount (forwarded i s) = pageCount s"
  by (auto simp: forwarded_def pageCount_def)

lemma backwarded_simps [simp]:
  "pages (backwarded s) = pages s" "current (backwarded s) = current s" "options (backwarded s) = options s"
  "wz_startId (backwarded s) = wz_startId s" "prevPages (backwarded s) = prevPages s" "subtitleVisible (backwarded s) = subtitleVisible s"
  "initializedPageIds (backwarded s) = (if options s AND IndependentPages = 0 then initializedPageIds s - {current s} else initializedPageIds s)"
  "calls (backwarded s) = calls s @ (if options s AND IndependentPages = 0 then [Cleanup (current s)] else [])" "pageCount (backwarded s) = pageCount s"
  by (simp_all add: backwarded_def pageCount_def)

lemma page_index: "wz_inv api s \<Longrightarrow> current s \<noteq> - 1 \<Longrightarrow> 0 \<le> current s \<and> current s < pageCount s"
  by (auto simp: inv_defs)

lemma nothing_before: "well_formed api s \<Longrightarrow> current s = - 1 \<Longrightarrow> prevPages s = []"
  by (cases "prevPages s") (auto simp: well_formed_def)

lemma inv_forward:
  assumes "wz_inv api s" "current s < i" "0 \<le> i" "i < pageCount s"
  shows "wz_inv api (chosen api w i (forwarded i s))"
proof -
  have wf: "well_formed api s" and l: "wz_deselects api \<Longrightarrow> logged s" using assms(1) by (simp_all add: wz_inv_def)
  have "sorted_wrt (<) ((prevPages s @ [current s]) @ [i])" "current s \<in> {- 1..<pageCount s}"
    using wf assms(2,4) by (auto simp: well_formed_def sorted_wrt_append)
  then have "well_formed api (chosen api w i (forwarded i s))"
    using wf assms(3,4) unfolding well_formed_def by simp
  moreover have "logged (chosen api w i (forwarded i s))" if "wz_deselects api"
    using l[OF that] by (cases "i \<in> initializedPageIds s") (auto simp: logged_def)
  ultimately show ?thesis by (simp add: wz_inv_def)
qed

lemma inv_backward:
  assumes "wz_inv api s" "i < current s" "0 \<le> i" "\<forall>j \<in> set (prevPages s). j < i" "wz_deselects api \<longrightarrow> i > 0 \<longrightarrow> i \<in> initializedPageIds s"
  shows "wz_inv api (chosen api w i (backwarded s))"
proof -
  have wf: "well_formed api s" and l: "wz_deselects api \<Longrightarrow> logged s" using assms(1) by (simp_all add: wz_inv_def)
  have "initializedPageIds (backwarded s) \<subseteq> {0..<pageCount s}" "sorted_wrt (<) (prevPages s @ [i])" "i < pageCount s"
    using wf assms(2-4) by (auto simp: well_formed_def sorted_wrt_append)
  then have "well_formed api (chosen api w i (backwarded s))"
    using wf assms(3) unfolding well_formed_def by simp
  moreover have "logged (chosen api w i (backwarded s))" if "wz_deselects api"
  proof -
    have "current s \<in> initializedPageIds s" using l[OF that] assms(2,3) by (auto simp: logged_def)
    moreover have "j \<noteq> current s" if "j \<in> set (i # prevPages s)" for j using that assms(2,4) by auto
    ultimately show ?thesis using l[OF that] assms(5) that by (auto simp: logged_def)
  qed
  ultimately show ?thesis by (simp add: wz_inv_def)
qed

text \<open>\<open>switchToPage\<close> to a page that exists; the target of a step back is not before a page remembered.\<close>

lemma switchToPage_inv:
  assumes inv: "wz_inv api s" and i: "0 \<le> i" "i < pageCount s"
    and behind: "i < current s \<Longrightarrow> (\<forall>j \<in> set (prevPages s). j < i) \<and> (wz_deselects api \<longrightarrow> i > 0 \<longrightarrow> i \<in> initializedPageIds s)"
  shows "\<exists>w' s'. switchToPage api i (w, s) = Some (Ret () (w', s')) \<and> wz_inv api s' \<and> current s' = i"
proof -
  have run: "switchToPage api i (w, s) = andthen (bind (this current) (\<lambda>old. if old = i then ret ()
        else andthen (if old < i then go_forward api old i else go_backward api old) (set_index api i))) (show_titles api) (w, s)"
    using i by (simp add: switchToPage_def)
  consider "current s = i" | "current s < i" | "i < current s" by linarith
  then show ?thesis
  proof cases
    case 1
    then show ?thesis using run i inv by (simp add: show_titles_eval)
  next
    case 2
    then show ?thesis using run i inv_forward[OF inv 2 i]
      by (simp add: go_forward_eval set_index_eval show_titles_eval)
  next
    case 3
    then have c: "0 \<le> current s" "current s < pageCount s" using page_index[OF inv] i by auto
    show ?thesis using run i c 3 inv_backward[OF inv 3 i(1)] behind[OF 3]
      by (simp add: go_backward_eval set_index_eval show_titles_eval)
  qed
qed

text \<open>What \<open>next()\<close> does after the validation.\<close>

definition next_tail :: "('w, 'x) wiz_api_scheme \<Rightarrow> wizard \<Rightarrow> (unit, 'w) wprog" where
  "next_tail api s = bind (nextId api) (\<lambda>kNextId. if kNextId = - 1 then wz_done api True
     else andthen (cpp_assert (wz_ndebug api) (kNextId > current s \<and> 0 < kNextId \<and> kNextId < pageCount s)) (switchToPage api kNextId))"

lemma next_tail_eval:
  "next_id_ok (next_id api w s) s \<Longrightarrow> next_tail api s (w, s) =
    (if next_id api w s = - 1 then wz_done api True else switchToPage api (next_id api w s)) (w, s)"
  by (auto simp: next_tail_def nextId_def next_id_ok_def)

text \<open>Resetting cleans up every page that was initialized.\<close>

locale hash_set =
  fixes api :: "('w, 'x) wiz_api_scheme"
  assumes order: "finite S \<Longrightarrow> set (qset_order api S) = S \<and> distinct (qset_order api S)"
begin

lemma cleanup_each_eval:
  assumes "set ids \<subseteq> {0..<pageCount s}"
  shows "\<exists>w'. cleanup_each api ids (w, s) = Some (Ret () (w', s\<lparr>calls := calls s @ map Cleanup ids\<rparr>))"
  using assms
proof (induction ids arbitrary: w s)
  case (Cons i ids)
  have c: "cleanupPage api i (w, s) = Some (Ret () (pg_cleanup api (pages s ! nat i) w, s\<lparr>calls := calls s @ [Cleanup i]\<rparr>))"
    using Cons.prems by (intro cleanupPage_eval) auto
  have "set ids \<subseteq> {0..<pageCount (s\<lparr>calls := calls s @ [Cleanup i]\<rparr>)}" using Cons.prems by (simp add: pageCount_def)
  from Cons.IH[OF this, of "pg_cleanup api (pages s ! nat i) w"] show ?case using c by auto
qed simp

lemma replay_cleanup: "distinct ids \<Longrightarrow> set ids \<subseteq> S \<Longrightarrow> fold replay_step (map Cleanup ids) (Some S) = Some (S - set ids)"
proof (induction ids arbitrary: S)
  case (Cons i ids)
  then have "set ids \<subseteq> S - {i}" "distinct ids" "i \<in> S" by auto
  then show ?case using Cons.IH[of "S - {i}"] by (simp add: Diff_insert2[symmetric])
qed simp

definition reset_state :: "'w \<Rightarrow> wizard \<Rightarrow> wizard" where
  "reset_state w s = (let s1 = s\<lparr>calls := calls s @ map Cleanup (qset_order api (initializedPageIds s)), initializedPageIds := {}, prevPages := []\<rparr> in
     if wz_deselects api then chosen api w (- 1) s1 else s1)"

lemma reset_eval:
  assumes inv: "wz_inv api s" and c: "current s \<noteq> - 1"
  shows "\<exists>w'. reset api (w, s) = Some (Ret () (w', reset_state w' s)) \<and> wz_inv api (reset_state w' s)"
proof -
  have sub: "initializedPageIds s \<subseteq> {0..<pageCount s}" using inv by (simp add: inv_defs)
  then have "finite (initializedPageIds s)" by (rule finite_subset) simp
  note o = order[OF this]
  obtain w' where cl: "cleanup_each api (qset_order api (initializedPageIds s)) (w, s)
      = Some (Ret () (w', s\<lparr>calls := calls s @ map Cleanup (qset_order api (initializedPageIds s))\<rparr>))"
    using cleanup_each_eval[of "qset_order api (initializedPageIds s)" s w] o sub by auto
  have run: "reset api (w, s) = Some (Ret () (w', reset_state w' s))"
    using c cl by (cases "wz_deselects api") (simp_all add: reset_def reset_state_def set_index_eval set_index_same)
  have "well_formed api s" using inv by (simp add: wz_inv_def)
  then have wf: "well_formed api (reset_state w' s)"
  proof (cases "wz_deselects api")
    case True
    then show ?thesis using \<open>well_formed api s\<close> unfolding well_formed_def reset_state_def Let_def by simp
  next
    case False
    then show ?thesis using \<open>well_formed api s\<close> unfolding well_formed_def reset_state_def Let_def by simp
  qed
  have "logged (reset_state w' s)" if "wz_deselects api"
  proof -
    have "fold replay_step (map Cleanup (qset_order api (initializedPageIds s))) (Some (initializedPageIds s)) = Some {}"
      using replay_cleanup[of "qset_order api (initializedPageIds s)" "initializedPageIds s"] o by simp
    then show ?thesis using inv that by (simp add: wz_inv_def logged_def reset_state_def)
  qed
  then show ?thesis using run wf by (auto simp: wz_inv_def)
qed

text \<open>How an operation may end: it returns in a state with the invariant, or it throws and has changed nothing.\<close>

definition ends_well :: "(exn, 'a, 'w \<times> wizard) res option \<Rightarrow> wizard \<Rightarrow> bool" where
  "ends_well r s \<longleftrightarrow> (\<exists>a w' s'. r = Some (Ret a (w', s')) \<and> wz_inv api s') \<or> (\<exists>e w'. r = Some (Exc e (w', s)))"

lemma ends_Ret [intro]: "r = Some (Ret a (w', s')) \<Longrightarrow> wz_inv api s' \<Longrightarrow> ends_well r s"
  and ends_Exc [intro]: "r = Some (Exc e (w', s)) \<Longrightarrow> ends_well r s"
  by (auto simp: ends_well_def)

lemma switch_ends:
  assumes "wz_inv api s" "0 \<le> i" "i < pageCount s"
    "i < current s \<Longrightarrow> (\<forall>j \<in> set (prevPages s). j < i) \<and> (wz_deselects api \<longrightarrow> i > 0 \<longrightarrow> i \<in> initializedPageIds s)"
  shows "ends_well (switchToPage api i (w, s)) s0"
  using switchToPage_inv[of api s i w, OF assms(1-3)] assms(4) by (auto simp: ends_well_def)

lemma restart_ends:
  assumes inv: "wz_inv api s"
  shows "ends_well (restart api (w, s)) s"
proof (cases "pages s = []")
  case True
  then have "current s = - 1" "wz_startId s = - 1" using inv by (auto simp: inv_defs pageCount_def)
  then show ?thesis using True
    by (intro ends_Exc[where e = InvalidState and w' = w]) (simp add: restart_def reset_def getStartId_def switchToPage_def pageCount_def)
next
  case False
  obtain w1 s1 where r: "reset api (w, s) = Some (Ret () (w1, s1))" "wz_inv api s1" "prevPages s1 = []" "wz_startId s1 = wz_startId s"
      "pages s1 = pages s" "wz_deselects api \<longrightarrow> current s1 = - 1"
  proof (cases "current s = - 1")
    case True
    then have "prevPages s = []" using inv nothing_before by (auto simp: wz_inv_def)
    then show ?thesis using that[of w s] True inv by (simp add: reset_def)
  next
    case c: False
    obtain w' where "reset api (w, s) = Some (Ret () (w', reset_state w' s))" "wz_inv api (reset_state w' s)"
      using reset_eval[OF inv c] by blast
    then show ?thesis using that[of w' "reset_state w' s"] by (simp add: reset_state_def Let_def)
  qed
  have i: "0 \<le> wz_startId s1" "wz_startId s1 < pageCount s1" using inv False r(4,5) by (auto simp: inv_defs pageCount_def)
  have run: "restart api (w, s) = switchToPage api (wz_startId s1) (w1, s1)"
    using r(1) i by (simp add: restart_def getStartId_def)
  show ?thesis unfolding run by (rule switch_ends[OF r(2) i]) (use r(3,6) i in auto)
qed

lemma hide_eval: "setVisible api False (w, s) = Some (Ret () (w, s\<lparr>shown := False\<rparr>))"
  by (simp add: setVisible_def)

lemma inv_shown [simp]: "wz_inv api (s\<lparr>shown := b\<rparr>) = wz_inv api s" "wz_inv api (s\<lparr>dialogResult := r\<rparr>) = wz_inv api s"
  by (simp_all add: inv_defs pageCount_def)

lemma setVisible_ends:
  assumes inv: "wz_inv api s"
  shows "ends_well (setVisible api b (w, s)) s"
proof -
  have "ends_well ((if current s = - 1 then restart api else switchToPage api (current s)) (w, s)) s"
    using restart_ends[OF inv, of w] page_index[OF inv] switch_ends[OF inv, of "current s" w s] by simp
  then show ?thesis using inv by (auto simp: setVisible_def ends_well_def)
qed

lemma validate_eval: "\<exists>b w'. validateCurrentPage api (w, s) = Some (Ret b (w', s))"
proof (cases "currentPage s")
  case (Some p)
  obtain b w' where "pg_validate api p w = (b, w')" by fastforce
  then show ?thesis using Some by (simp add: validateCurrentPage_def)
qed (auto simp: validateCurrentPage_def)

lemma done_ends:
  assumes inv: "wz_inv api s"
  shows "ends_well (wz_done api acc (w, s)) s0"
proof (cases acc)
  case True
  obtain b w' where "validateCurrentPage api (w, s) = Some (Ret b (w', s))" using validate_eval by blast
  then show ?thesis using True inv by (cases b) (auto simp: wz_done_def hide_eval ends_well_def)
next
  case False
  show ?thesis
  proof (cases "current s = - 1")
    case True
    then show ?thesis using False inv by (auto simp: wz_done_def reset_def hide_eval ends_well_def)
  next
    case c: False
    obtain w' where "reset api (w, s) = Some (Ret () (w', reset_state w' s))" "wz_inv api (reset_state w' s)"
      using reset_eval[OF inv c] by blast
    then show ?thesis using False by (auto simp: wz_done_def hide_eval ends_well_def)
  qed
qed

lemma back_ends:
  assumes inv: "wz_inv api s"
  shows "ends_well (wz_back api (w, s)) s"
proof (cases "prevPages s" rule: rev_cases)
  case Nil
  show ?thesis
  proof (cases "pages s = []")
    case True
    then show ?thesis using Nil by (intro ends_Exc[where e = InvalidState and w' = w]) (simp add: wz_back_def switchToPage_def pageCount_def)
  next
    case False
    then have "0 < pageCount s" by (simp add: pageCount_def)
    moreover from this have "wz_back api (w, s) = switchToPage api 0 (w, s)" using Nil by (simp add: wz_back_def switchToPage_def)
    ultimately show ?thesis using switch_ends[OF inv, of 0 w s] Nil by simp
  qed
next
  case (snoc ps i)
  let ?s = "s\<lparr>prevPages := ps\<rparr>" and ?i = "if i = - 1 then 0 else i"
  have wf: "sorted_wrt (<) (ps @ [i, current s])" "i \<in> {- 1..<pageCount s}" using inv snoc by (auto simp: inv_defs)
  then have c: "current s \<noteq> - 1" "i < current s" "\<forall>j \<in> set ps. j < i" by (auto simp: sorted_wrt_append)
  have "well_formed api s" "wz_deselects api \<longrightarrow> logged s" using inv by (simp_all add: wz_inv_def)
  then have "well_formed api ?s" "wz_deselects api \<longrightarrow> logged ?s"
    using snoc by (simp_all add: well_formed_def logged_def sorted_wrt_append)
  then have inv': "wz_inv api ?s" by (simp add: wz_inv_def)
  have i: "0 \<le> ?i" "?i < pageCount ?s" using wf(2) page_index[OF inv c(1)] by (auto simp: pageCount_def)
  from i have "0 < pageCount s" by simp
  then have "wz_back api (w, s) = switchToPage api ?i (w, ?s)" using snoc wf(2) by (simp add: wz_back_def switchToPage_def)
  moreover have "(\<forall>j \<in> set (prevPages ?s). j < ?i) \<and> (wz_deselects api \<longrightarrow> ?i > 0 \<longrightarrow> ?i \<in> initializedPageIds ?s)"
    using c(3) inv snoc by (auto simp: inv_defs)
  ultimately show ?thesis using switch_ends[OF inv' i, of w s] by simp
qed

lemma setPage_ends:
  assumes inv: "wz_inv api s"
  shows "ends_well (setPage api i p (w, s)) s"
proof (cases "\<exists>q. p = Some q \<and> q \<notin> set (pages s) \<and> i = pageCount s")
  case False
  then show ?thesis by (cases p; cases "the p \<in> set (pages s)") (auto simp: setPage_def pageCount_def ends_well_def)
next
  case True
  then obtain q where q: "p = Some q" "q \<notin> set (pages s)" "i = pageCount s" by blast
  have wf: "well_formed api s" and l: "wz_deselects api \<longrightarrow> logged s" using inv by (simp_all add: wz_inv_def)
  let ?s1 = "s\<lparr>pages := pages s @ [q]\<rparr>"
  show ?thesis
  proof (cases "pages s = []")
    case e: True
    then have c: "current s = - 1" "wz_startId s = - 1" "i = 0" "pageCount s = 0" "initializedPageIds s = {}"
      using wf q(3) by (auto simp: well_formed_def pageCount_def)
    have p: "prevPages s = []" by (rule nothing_before[OF wf c(1)])
    let ?s2 = "(chosen api w 0 ?s1)\<lparr>wz_startId := 0, calls := calls s @ [CurrentIdChanged 0, PageAdded 0]\<rparr>"
    have "set_index api 0 (w, ?s1) = Some (Ret () (w, chosen api w 0 ?s1))"
      using c by (intro set_index_eval) (simp_all add: pageCount_def e)
    then have "setPage api i p (w, s) = Some (Ret () (w, ?s2))"
      using q c e by (simp add: setPage_def log_call_def)
    moreover have "wz_inv api ?s2"
      using wf l c p e by (simp add: wz_inv_def well_formed_def logged_def pageCount_def)
    ultimately show ?thesis by blast
  next
    case False
    then have st: "wz_startId s \<noteq> - 1" using wf by (auto simp: well_formed_def)
    let ?s2 = "?s1\<lparr>calls := calls s @ [PageAdded i]\<rparr>"
    have "setPage api i p (w, s) = Some (Ret () (w, ?s2))"
      using q False st by (simp add: setPage_def log_call_def pageCount_def)
    moreover have "well_formed api ?s2"
    proof -
      have "{0..<pageCount s} \<subseteq> {0..<pageCount ?s2}" "{- 1..<pageCount s} \<subseteq> {- 1..<pageCount ?s2}" by (auto simp: pageCount_def)
      then have "initializedPageIds s \<subseteq> {0..<pageCount ?s2}" "set (prevPages s) \<subseteq> {- 1..<pageCount ?s2}" "current s \<in> {- 1..<pageCount ?s2}"
        "wz_startId s < pageCount ?s2"
        using wf False unfolding well_formed_def by (blast, blast, blast, simp add: pageCount_def)
      then show ?thesis using wf q(2) False unfolding well_formed_def by (simp del: atLeastLessThan_iff)
    qed
    moreover have "wz_deselects api \<longrightarrow> logged ?s2" using l by (simp add: logged_def)
    ultimately show ?thesis by (intro ends_Ret) (simp_all add: wz_inv_def)
  qed
qed

lemma addPage_ends:
  assumes inv: "wz_inv api s"
  shows "ends_well (andthen (addPage api p) (ret ()) (w, s)) s"
proof (cases "\<exists>q. p = Some q \<and> q \<notin> set (pages s)")
  case False
  then show ?thesis by (cases p) (auto simp: addPage_def ends_well_def)
next
  case True
  then show ?thesis using setPage_ends[OF inv, of "pageCount s" p w] by (auto simp: addPage_def ends_well_def)
qed

lemma setOptions_ends:
  assumes inv: "wz_inv api s"
  shows "ends_well (setOptions api opts (w, s)) s0"
proof (cases "options s XOR opts = 0")
  case True
  then show ?thesis using inv by (auto simp: setOptions_def)
next
  case False
  then show ?thesis using inv
    by (auto simp: setOptions_def updateButtonStates_def ends_well_def wz_inv_def well_formed_def logged_def pageCount_def split: if_splits)
qed

lemma update_ends: "wz_inv api s \<Longrightarrow> ends_well (updateButtonStates api (w, s)) s0"
  by (simp add: updateButtonStates_def ends_well_def inv_defs pageCount_def split: if_splits)

lemma setStartId_ends:
  assumes "wz_inv api s" "pageCount s > 0" "i < pageCount s"
  shows "ends_well (setStartId api i (w, s)) s"
proof (cases "i = - 1 \<or> i \<ge> 0")
  case False
  then show ?thesis by (auto simp: setStartId_def ends_well_def)
next
  case True
  let ?i = "if i = - 1 then 0 else i"
  have "0 \<le> ?i" "?i < pageCount s" using True assms(2,3) by auto
  then have "setStartId api i (w, s) = Some (Ret () (w, s\<lparr>wz_startId := ?i\<rparr>))" "wz_inv api (s\<lparr>wz_startId := ?i\<rparr>)"
    using True assms by (auto simp: setStartId_def getPage_def page_at_valid inv_defs pageCount_def)
  then show ?thesis by blast
qed

lemma next_ends:
  assumes inv: "wz_inv api s" and a: "current s \<noteq> - 1" "\<forall>w'. next_id_ok (next_id api w' s) s"
  shows "ends_well (wz_next api (w, s)) s \<or> \<not> wz_ndebug api \<and> (\<exists>w'. validateCurrentPage api (w, s) = Some (Ret False (w', s)) \<and>
    wz_next api (w, s) = Some (Term (w', s)))"
proof -
  note c = page_index[OF inv a(1)]
  have go: "ends_well (next_tail api s (w', s)) s" for w'
    using done_ends[OF inv, of True w' s] switch_ends[OF inv, of "next_id api w' s" w' s] c a(2) next_tail_eval[of api w' s]
    by (auto simp: next_id_ok_def)
  obtain b w' where v: "validateCurrentPage api (w, s) = Some (Ret b (w', s))" using validate_eval by blast
  show ?thesis using c v go[of w] go[of w'] by (cases "wz_ndebug api"; cases b) (simp_all add: wz_next_def next_tail_def)
qed

lemma use_ends:
  assumes inv: "wz_inv api s" and a: "asserted api u (w, s)"
  shows "ends_well (wizard_use api u (w, s)) s \<or> u = Next \<and> \<not> wz_ndebug api \<and> (\<exists>w'. validateCurrentPage api (w, s) = Some (Ret False (w', s)) \<and>
    wizard_use api u (w, s) = Some (Term (w', s)))"
proof (cases u)
  case (SetOption opt on)
  then show ?thesis using setOptions_ends[OF inv, of "options s XOR opt" w s] inv by (auto simp: setOption_def)
qed (use inv a addPage_ends setPage_ends setOptions_ends update_ends setStartId_ends next_ends setVisible_ends back_ends done_ends restart_ends in auto)

lemma run_inv: "wizard_run api w0 us st \<Longrightarrow> wz_inv api (snd st)"
proof (induction rule: wizard_run.induct)
  case start
  then show ?case by (simp add: inv_defs wizard_ctor_def pageCount_def replay_def)
next
  case (returns us st u st')
  then show ?case using use_ends[of "snd st" u "fst st"] by (auto simp: ends_well_def)
next
  case (throws us st u e st')
  then show ?case using use_ends[of "snd st" u "fst st"] by (auto simp: ends_well_def)
qed

end

end
