(* ===== verification/WizardRuns.thy ===== *)
theory WizardRuns
imports CustomWizard
begin

text \<open>
  Pages that compute, for the witnesses, and the properties of the wizard.
\<close>

section \<open>Pages\<close>

text \<open>Pages that lead from the first to the second, valid while the state is positive.\<close>

definition sample_pages :: "bool \<Rightarrow> bool \<Rightarrow> int wiz_api" where
  "sample_pages ndebug deselects = \<lparr>wz_ndebug = ndebug, wz_deselects = deselects, pg_title = (\<lambda>p _. if p = 5 then ''first'' else ''second''),
     pg_subTitle = (\<lambda>p _. []), pg_isComplete = (\<lambda>_ _. True), pg_nextId = (\<lambda>p _. if p = 5 then 1 else - 1),
     pg_validate = (\<lambda>_ w. (w > 0, w)), pg_initialize = (\<lambda>_ w. w), pg_cleanup = (\<lambda>_ w. w),
     qset_order = sorted_list_of_set\<rparr>"

lemma sample_pages_simps [simp]:
  "wz_ndebug (sample_pages nd ds) = nd" "wz_deselects (sample_pages nd ds) = ds" "pg_title (sample_pages nd ds) p w = (if p = 5 then ''first'' else ''second'')"
  "pg_subTitle (sample_pages nd ds) p w = []" "pg_isComplete (sample_pages nd ds) p w"
  "pg_nextId (sample_pages nd ds) p w = (if p = 5 then 1 else - 1)" "pg_validate (sample_pages nd ds) p w = (w > 0, w)"
  "pg_initialize (sample_pages nd ds) p w = w" "pg_cleanup (sample_pages nd ds) p w = w"
  "qset_order (sample_pages nd ds) = sorted_list_of_set"
  by (simp_all add: sample_pages_def)

interpretation sample_pages: hash_set "sample_pages nd ds" for nd ds
  by standard simp

section \<open>Back and next\<close>

context hash_set
begin

lemma forward_then_back:
  assumes inv: "wz_inv api s" and c: "0 \<le> current s" and i: "current s < i" "i < pageCount s"
    and r: "switchToPage api i (w, s) = Some (Ret () (w', s'))"
  shows "\<exists>w'' s''. wz_back api (w', s') = Some (Ret () (w'', s'')) \<and> current s'' = current s \<and> prevPages s'' = prevPages s
    \<and> initializedPageIds s'' = (if options s AND IndependentPages = 0 then initializedPageIds s - {i} else insert i (initializedPageIds s))
    \<and> wz_title s'' = pg_title api (pages s ! nat (current s)) w''"
proof -
  define s1 where "s1 = chosen api w' i (forwarded i s)"
  have s': "s' = titled api w' s1"
    using r c i by (clarsimp simp: switchToPage_def go_forward_eval set_index_eval show_titles_eval s1_def)
  have f: "current s' = i" "prevPages s' = prevPages s @ [current s]" "options s' = options s" "pages s' = pages s"
      "initializedPageIds s' = insert i (initializedPageIds s)"
    by (simp_all add: s' s1_def titled_def)
  have n: "pageCount s' = pageCount s" by (simp add: pageCount_def f)
  let ?p = "s'\<lparr>prevPages := prevPages s\<rparr>"
  have cp: "current ?p = i" "pages ?p = pages s" "options ?p = options s" "initializedPageIds ?p = insert i (initializedPageIds s)" "pageCount ?p = pageCount s"
    using f n by simp_all
  obtain w2 where gb: "go_backward api i (w', ?p) = Some (Ret () (w2, backwarded ?p))"
    using go_backward_eval[of ?p api w'] c i cp by fastforce
  have ix: "set_index api (current s) (w2, backwarded ?p) = Some (Ret () (w2, chosen api w2 (current s) (backwarded ?p)))"
    using c i cp by (intro set_index_eval) simp_all
  let ?q = "chosen api w2 (current s) (backwarded ?p)"
  have "show_titles api (w2, ?q) = Some (Ret () (w2, titled api w2 ?q))"
    using c i cp by (intro show_titles_eval) simp_all
  then have "wz_back api (w', s') = Some (Ret () (w2, titled api w2 ?q))"
    using c i cp gb ix f n by (simp add: wz_back_def switchToPage_def Let_def)
  moreover have "currentPage ?q = Some (pages s ! nat (current s))"
    using c i cp by (simp add: currentPage_def page_at_def)
  ultimately show ?thesis using f i by (auto simp: titled_def)
qed

lemma next_then_back:
  assumes run: "wizard_run api w0 us (w, s)" and a: "asserted api Next (w, s)"
    and r: "wz_next api (w, s) = Some (Ret () (w', s'))" and moved: "current s' \<noteq> current s"
  shows "\<exists>w'' s''. wz_back api (w', s') = Some (Ret () (w'', s'')) \<and> current s'' = current s \<and> prevPages s'' = prevPages s
    \<and> initializedPageIds s'' = (if options s AND IndependentPages = 0 then initializedPageIds s - {current s'} else insert (current s') (initializedPageIds s))
    \<and> wz_title s'' = pg_title api (pages s ! nat (current s)) w''"
proof -
  have inv: "wz_inv api s" using run_inv[OF run] by simp
  have c: "0 \<le> current s" "current s < pageCount s" using page_index[OF inv] a by auto
  obtain b w1 where v: "validateCurrentPage api (w, s) = Some (Ret b (w1, s))" using validate_eval by blast
  have stay: "current s' = current s" if "wz_done api True (w2, s) = Some (Ret () (w', s'))" for w2
  proof -
    obtain b' w3 where "validateCurrentPage api (w2, s) = Some (Ret b' (w3, s))" using validate_eval by blast
    then show ?thesis using that by (cases b') (auto simp: wz_done_def hide_eval)
  qed
  obtain w2 where w2: "next_id api w2 s \<noteq> - 1" "switchToPage api (next_id api w2 s) (w2, s) = Some (Ret () (w', s'))"
    using r v c moved stay a next_tail_eval[of api w s] next_tail_eval[of api w1 s]
    by (cases "wz_ndebug api"; cases b) (auto simp: wz_next_def next_tail_def[symmetric] split: if_splits)
  have i: "current s < next_id api w2 s" "next_id api w2 s < pageCount s" using a w2(1) by (auto simp: next_id_ok_def)
  have eq: "current s' = next_id api w2 s"
    using switchToPage_inv[of api s "next_id api w2 s" w2, OF inv] c i w2(2) by auto
  show ?thesis unfolding eq by (rule forward_then_back[OF inv c(1) i w2(2)])
qed

text \<open>What canceling and reopening does when \<open>setCurrentIndex(-1)\<close> does nothing.\<close>

lemma cancel_and_reopen:
  assumes run: "wizard_run api w0 us (w, s)" and q: "\<not> wz_deselects api" "pages s \<noteq> []"
  shows "\<exists>w1 s1 s2. wz_done api False (w, s) = Some (Ret () (w1, s1)) \<and> setVisible api True (w1, s1) = Some (Ret () (w1, s2))
    \<and> current s2 = current s \<and> initializedPageIds s2 = {} \<and> calls s2 = calls s @ map Cleanup (qset_order api (initializedPageIds s))"
proof -
  have inv: "wz_inv api s" using run_inv[OF run] by simp
  then have c: "current s \<noteq> - 1" using q by (auto simp: inv_defs)
  obtain w1 where r: "reset api (w, s) = Some (Ret () (w1, reset_state w1 s))" using reset_eval[OF inv c] by blast
  let ?s1 = "(reset_state w1 s)\<lparr>shown := False, dialogResult := Some False\<rparr>"
  have s1: "current ?s1 = current s" "pageCount ?s1 = pageCount s" "initializedPageIds ?s1 = {}" "calls ?s1 = calls s @ map Cleanup (qset_order api (initializedPageIds s))"
    using q(1) by (simp_all add: reset_state_def)
  have "wz_done api False (w, s) = Some (Ret () (w1, ?s1))" using r by (simp add: wz_done_def hide_eval)
  moreover have "switchToPage api (current s) (w1, ?s1) = Some (Ret () (w1, titled api w1 ?s1))"
    using page_index[OF inv c] s1 by (simp add: switchToPage_def show_titles_eval Let_def)
  then have "setVisible api True (w1, ?s1) = Some (Ret () (w1, (titled api w1 ?s1)\<lparr>shown := True\<rparr>))"
    using c s1(1) by (simp add: setVisible_def)
  ultimately show ?thesis using s1
    by (intro exI[of _ w1] exI[of _ ?s1] exI[of _ "(titled api w1 ?s1)\<lparr>shown := True\<rparr>"]) (simp add: titled_def)
qed

end

section \<open>Properties\<close>

text \<open>C20: In every state that calls on a wizard reach, the current page, the start page, the pages visited before it (in
  strictly increasing order, all before the current one) and the initialized pages exist, the pages differ, and the buttons and
  the subtitle are shown as the current page and the options say.\<close>

theorem wizard_well_formed:
  assumes "hash_set api" "wizard_run api w0 us (w, s)"
  shows "well_formed api s"
  using hash_set.run_inv[OF assms] by (simp add: wz_inv_def)



text \<open>C23: \<open>back()\<close> after \<open>next()\<close> shows the same page again, with its title and with the same pages before it; the page left is
  cleaned up unless pages are independent.\<close>

theorem wizard_back_undoes_next:
  assumes "hash_set api" "wizard_run api w0 us (w, s)" "asserted api Next (w, s)"
    and "wz_next api (w, s) = Some (Ret () (w', s'))" "current s' \<noteq> current s"
  shows "\<exists>w'' s''. wz_back api (w', s') = Some (Ret () (w'', s'')) \<and> current s'' = current s \<and> prevPages s'' = prevPages s
    \<and> initializedPageIds s'' = (if options s AND IndependentPages = 0 then initializedPageIds s - {current s'} else insert (current s') (initializedPageIds s))
    \<and> wz_title s'' = pg_title api (pages s ! nat (current s)) w''"
  by (rule hash_set.next_then_back[OF assms])

text \<open>If \<open>setCurrentIndex(-1)\<close> does nothing, canceling cleans up all pages and leaves the current one where it is: when the
  wizard is shown again, it shows that page, which is not initialized any more and is not initialized again.\<close>

theorem wizard_reopens_uninitialized:
  assumes "hash_set api" "wizard_run api w0 us (w, s)" "\<not> wz_deselects api" "pages s \<noteq> []"
  shows "\<exists>w1 s1 s2. wz_done api False (w, s) = Some (Ret () (w1, s1)) \<and> setVisible api True (w1, s1) = Some (Ret () (w1, s2))
    \<and> current s2 = current s \<and> initializedPageIds s2 = {} \<and> calls s2 = calls s @ map Cleanup (qset_order api (initializedPageIds s))"
  by (rule hash_set.cancel_and_reopen[OF assms])

section \<open>Witnesses\<close>

definition two_pages :: "bool \<Rightarrow> wizard" where
  "two_pages second = \<lparr>pages = [5, 6], current = (if second then 1 else 0), options = 0, wz_startId = 0,
     initializedPageIds = (if second then {1} else {}), prevPages = (if second then [0] else []), wz_title = (if second then ''second'' else []),
     wz_subtitle = [], subtitleVisible = True, backEnabled = second, nextEnabled = True, cancelVisible = True,
     helpVisible = False, shown = False, dialogResult = None,
     calls = [CurrentIdChanged 0, PageAdded 0, PageAdded 1] @ (if second then [Init 1, CurrentIdChanged 1] else [])\<rparr>"

lemmas wz_evals = addPage_def setPage_def set_index_def updateButtonStates_def log_call_def pageCount_def page_at_def currentPage_def
  switchToPage_def go_forward_def initializePage_def getPage_def show_titles_def setTitle_def setSubtitle_def wz_next_def nextId_def
  next_id_def next_id_ok_def validateCurrentPage_def wizard_ctor_def two_pages_def

lemma sample_first: "wizard_run (sample_pages nd ds) 1 [AddPage (Some 5), AddPage (Some 6)] (1, two_pages False)"
proof -
  let ?one = "(two_pages False)\<lparr>pages := [5], calls := [CurrentIdChanged 0, PageAdded 0]\<rparr>"
  have "wizard_use (sample_pages nd ds) (AddPage (Some 5)) (1, wizard_ctor) = Some (Ret () (1, ?one))"
    by (simp add: wz_evals)
  then have "wizard_run (sample_pages nd ds) 1 ([] @ [AddPage (Some 5)]) (1, ?one)"
    by (intro wizard_run.returns[OF wizard_run.start]) simp_all
  then have one: "wizard_run (sample_pages nd ds) 1 [AddPage (Some 5)] (1, ?one)" by simp
  have "wizard_use (sample_pages nd ds) (AddPage (Some 6)) (1, ?one) = Some (Ret () (1, two_pages False))"
    by (simp add: wz_evals)
  then have "wizard_run (sample_pages nd ds) 1 ([AddPage (Some 5)] @ [AddPage (Some 6)]) (1, two_pages False)"
    by (intro wizard_run.returns[OF one]) simp_all
  then show ?thesis by simp
qed

lemma sample_asserted: "asserted (sample_pages nd ds) Next (1, two_pages False)"
  by (simp add: wz_evals)

lemma sample_next: "wz_next (sample_pages nd ds) (1, two_pages False) = Some (Ret () (1, two_pages True))"
  by (simp add: wz_evals)

lemma sample_second: "wizard_run (sample_pages nd ds) 1 [AddPage (Some 5), AddPage (Some 6), Next] (1, two_pages True)"
  using wizard_run.returns[OF sample_first sample_asserted, where st' = "(1, two_pages True)"] sample_next by simp

lemma wizard_well_formed_witness: "well_formed (sample_pages False False) (two_pages True) \<and> current (two_pages True) = 1"
  using wizard_well_formed[OF sample_pages.hash_set_axioms sample_second] by (simp add: two_pages_def)



lemma wizard_back_undoes_next_witness:
  "\<exists>w'' s''. wz_back (sample_pages True False) (1, two_pages True) = Some (Ret () (w'', s'')) \<and> current s'' = 0 \<and> initializedPageIds s'' = {}"
proof -
  have "current (two_pages True) \<noteq> current (two_pages False)" by (simp add: two_pages_def)
  from wizard_back_undoes_next[OF sample_pages.hash_set_axioms sample_first sample_asserted sample_next this]
  show ?thesis by (fastforce simp: two_pages_def)
qed

lemma wizard_reopens_uninitialized_witness:
  "\<exists>w1 s1 s2. wz_done (sample_pages True False) False (1, two_pages True) = Some (Ret () (w1, s1))
    \<and> setVisible (sample_pages True False) True (w1, s1) = Some (Ret () (w1, s2)) \<and> current s2 = 1 \<and> Init 1 \<notin> set (drop 4 (calls s2))"
proof -
  have "\<not> wz_deselects (sample_pages True False)" "pages (two_pages True) \<noteq> []" by (simp_all add: two_pages_def)
  from wizard_reopens_uninitialized[OF sample_pages.hash_set_axioms sample_second this]
  show ?thesis by (elim exE conjE) (intro exI conjI, assumption+, simp_all add: two_pages_def)
qed

section \<open>Findings\<close>

text \<open>In a release build \<open>next()\<close> goes on from a page that is not valid: the validation stands in an assertion.\<close>

lemma next_skips_validation:
  "wz_next (sample_pages True ds) (0, two_pages False) = Some (Ret () (0, two_pages True))"
  by (simp add: wz_evals)

text \<open>The first page added becomes the current one at once, so that showing the wizard neither initializes it nor goes to the
  page given to \<open>setStartId\<close>.\<close>

lemma startId_ignored:
  "\<exists>s'. setVisible (sample_pages nd ds) True (1, (two_pages False)\<lparr>wz_startId := 1\<rparr>) = Some (Ret () (1, s'))
    \<and> current s' = 0 \<and> shown s' \<and> calls s' = calls (two_pages False)"
  by (simp add: setVisible_def wz_evals)

text \<open>If \<open>setCurrentIndex(-1)\<close> does nothing, restarting on the second page cleans that page up twice.\<close>

lemma restart_cleans_twice:
  "\<exists>s'. restart (sample_pages nd False) (1, two_pages True) = Some (Ret () (1, s'))
    \<and> calls s' = calls (two_pages True) @ [Cleanup 1, Cleanup 1, CurrentIdChanged 0] \<and> replay (calls s') = None"
  by (simp add: restart_def reset_def getStartId_def cleanupPage_def go_backward_def wz_evals replay_def)

text \<open>If it leaves no page current and the start page is not the first, restarting remembers \<open>-1\<close> as a page, and \<open>back()\<close>
  then shows the first page, which was never initialized.\<close>

lemma restart_then_back:
  "\<exists>s1 s2. restart (sample_pages nd True) (1, (two_pages False)\<lparr>wz_startId := 1\<rparr>) = Some (Ret () (1, s1)) \<and> prevPages s1 = [- 1]
    \<and> wz_back (sample_pages nd True) (1, s1) = Some (Ret () (1, s2)) \<and> current s2 = 0 \<and> Init 0 \<notin> set (calls s2)"
  by (simp add: restart_def reset_def getStartId_def cleanupPage_def go_backward_def wz_back_def wz_evals)

end
