(* ===== verification/Spec2Isabelle.thy ===== *)
theory Spec2Isabelle
imports Anys Applications ByteArrays Cancelables ConditionVariables DiskSpaceWidgets ErrorMessages Factories FileProperties LanguageMenus LockProgress LockingPtr LoginWidget MimeTypes PowerNotifiers SemaphoreSteps Semaphores Singletons StorageRuns SystemLibraries ThreadSystem TimedWidgets WizardRuns
begin

text \<open>
  CppDevTk: a verification library for the core of a C++ development toolkit.

  The toolkit has three libraries.  \<open>base\<close> (\<open>include/cppdevtk/base\<close>, \<open>src/base\<close>) holds errors, exceptions,
  time, mutexes, locks, semaphores, threads and small data types; \<open>util\<close> (\<open>src/util\<close>) builds on it with
  requirements of passwords, distances of strings, translations between \<open>errno\<close> and exceptions, files
  and applications; \<open>gui\<close> (\<open>src/gui\<close>) holds Qt widgets that use both.  The model fixes one configuration:
  Linux, POSIX threads, Qt 5, thread interruption enabled.

  \<^bold>\<open>How C++ is modelled\<close> (theory \<open>Prelude\<close>).  An operation with effects is a function
  \<open>'w \<Rightarrow> ('e, 'a, 'w) res option\<close> from the state it runs in to \<open>None\<close> (it never returns) or the way it ended:
  \<open>Ret\<close> a value, \<open>Exc\<close> an exception, \<open>Term\<close> a call of \<open>std::terminate\<close>, each with the state reached.
  \<open>bind\<close>, \<open>throw\<close>, \<open>catch_all\<close>, \<open>noexcept\<close> and \<open>scoped\<close> (the run of a destructor at the end of a block, on
  the normal exit and during unwinding) are the control flow of the language.  Operating system and Qt
  functions are fields of records of parameters; what is documented of them stands in locales, which are
  interpreted on concrete functions in \<open>PosixThreads\<close> and in the witnesses.  Assertions are active when the
  parameter \<open>nd\<close> (\<open>NDEBUG\<close>) is false.

  \<^bold>\<open>Theories and the code they model.\<close>
  \<^item> \<open>ErrorCodes\<close>: \<open>ErrorCode\<close>, \<open>ErrorCondition\<close>, the categories and the Linux tables that map system errors to
    conditions (\<open>error_code.hpp\<close>, \<open>error_condition.hpp\<close>, \<open>error_category_unx.cpp\<close>, \<open>error_code_lnx.hpp\<close>).  Shown:
    equality of a code and a condition is equality of their values; both overloads of the comparison agree;
    the order of codes is total.
  \<^item> \<open>ErrorMessages\<close>: \<open>GetMessage\<close> with \<open>errno\<close> and the message locale as state.  Shown: \<open>errno\<close> survives; the
    locale does not.
  \<^item> \<open>Exceptions\<close>: the class hierarchy and the two translations between exceptions and \<open>errno\<close>
    (\<open>throw_exception_from_errno.cpp\<close>, \<open>set_errno_from_exception.cpp\<close>).  Shown: they are inverse on \<open>errno\<close> values.
  \<^item> \<open>TimeUtils\<close>: \<open>GetCurrentTime\<close>, \<open>RelTimeToAbsTime\<close> (\<open>time_utils.cpp\<close>).
  \<^item> \<open>Lockable\<close>: the interface of mutexes and its contracts as locales, seen from one thread: the multiset of
    lockables held.  \<open>Mutexes\<close>: the six classes of \<open>mutex_pthread.cpp\<close> over abstract pthread functions.
    \<open>PosixThreads\<close>: a concrete model of those functions; each mutex class is shown to meet the contract.
  \<^item> \<open>Locks\<close>, \<open>LockAlgorithms\<close>, \<open>LockProgress\<close>: \<open>LockGuard\<close>, \<open>UniqueLock\<close> (\<open>locks.hpp\<close>), the variadic \<open>TryLock\<close> and
    the nine overloads of \<open>Lock\<close> (\<open>generic_locking_algorithms.hpp\<close>).  Their endless loops are
    \<open>partial_function (option)\<close>, so that not returning is a value; termination is shown for lockables on which
    only finitely many attempts fail.  \<open>LockingPtr\<close>: \<open>thread_shared_obj_locking_ptr.hpp\<close>.
  \<^item> \<open>Interruption\<close>: what a thread keeps for its interruption, the interruption points, the guards that disable
    and restore it, \<open>SleepFor\<close> (\<open>thread_data.hpp\<close>, \<open>thread.cpp\<close>, \<open>thread_unx.cpp\<close>).  The locale
    \<open>interruptible_threads\<close> says what other threads may do while this one does not hold a mutex.
    \<open>ConditionVariables\<close>: waiting with and without time and predicate (\<open>condition_variable.cpp\<close>,
    \<open>condition_variable.hpp\<close>, \<open>condition_variable_pthread.cpp\<close>).  Shown: waits are balanced on every exit.
  \<^item> \<open>Semaphores\<close>: the semaphore over POSIX calls (\<open>semaphore_pthread.cpp\<close>) refines a counter.
    \<open>SemaphoreSteps\<close>: the one over a mutex and a condition variable (\<open>semaphore.cpp\<close>) as an interleaving of
    threads.  Shown: tokens are conserved, the mutex excludes, no wake-up is lost.
  \<^item> \<open>ThreadSteps\<close>: \<open>Thread\<close> and \<open>Thread::Run\<close> (\<open>thread.cpp\<close>, \<open>thread_data.hpp\<close>) as an interleaving of a parent that
    owns any number of objects with their children, down to single lock, wait, notify and \<open>shared_ptr\<close>
    operations.  \<open>ThreadLife\<close>: its invariants, per shared data.  \<open>ThreadSystem\<close>: no use after free, joins deliver
    the outcome of the main function once, no wake-up is lost, when the process ends.
  \<^item> \<open>Retry\<close>: \<open>TEMP_FAILURE_RETRY\<close>.  \<open>Files\<close>: deleting, copying and making files and directories, singly and
    recursively (\<open>filesystem_utils.cpp\<close>, \<open>filesystem_utils_unx.cpp\<close>) over abstract system calls.  \<open>FileTrees\<close> and
    \<open>FileCopies\<close>: the contract of a file system and of open files as locales, and the operations under it.
    \<open>Disks\<close>: a file system that computes and keeps the contracts.  \<open>FileProperties\<close>: removing a tree deletes
    nothing else and as much as it may, copying is exact whatever is interrupted or partial, and what goes
    wrong with links and with a copy onto or into itself.
  \<^item> \<open>SignalsWatcher\<close>: watching POSIX signals through a socket pair (\<open>posix_signals_watcher_unx.cpp\<close>,
    \<open>socket_pair_unx.cpp\<close>), with the contract of sockets and signal actions.  \<open>SignalRuns\<close>: a system that computes, and
    the properties of runs: what the watcher owns, and that no signal is lost.  \<open>Applications\<close>: quitting on termination
    signals (\<open>core_application_base_unx.cpp\<close>) on top of the watcher, and what its block-exit objects do wrong.
  \<^item> \<open>Optionals\<close>: \<open>optional.hpp\<close> over an explicit heap with failing allocation, copying and destruction; a
    simulation relates it to option values.
  \<^item> \<open>StringUtils\<close>, \<open>PasswordRequirements\<close>: counters of characters and the arithmetic that decides whether
    requirements are consistent (\<open>string_utils.cpp\<close>, \<open>password_requirements.cpp\<close>), with C \<open>int\<close> overflow as \<open>None\<close>.
  \<^item> \<open>EditDistance\<close>: \<open>damerau_levenshtein_distance.cpp\<close>, the loops over the matrix against a recursive distance.
  \<^item> \<open>PasswordWidget\<close>, \<open>LoginWidget\<close>: the state of the widgets, their validation cascades, operations and signals
    (\<open>password_widget.cpp\<close>, \<open>login_widget.cpp\<close>); invariants over all reachable states.
  \<^item> \<open>CustomWizard\<close>: pages and navigation of the wizard (\<open>custom_wizard.cpp\<close>) over the pages of the client and for both
    readings of \<open>setCurrentIndex(-1)\<close> of Qt.  \<open>WizardRuns\<close>: its state is consistent after every sequence of calls, pages
    are initialized and cleaned up in alternation, back undoes next, and where this fails.
  \<^item> \<open>Languages\<close>: \<open>LanguageInfo\<close> (\<open>language_info.cpp\<close>), supported languages, the current one and its translators
    (\<open>core_application_base.cpp\<close>, \<open>src/gui/application_base.cpp\<close>).  \<open>LanguageRuns\<close>: the installed translators are those of the
    current language in every reachable state, the default language is supported, and two sets of files that end a debug build.
  \<^item> \<open>LanguageMenus\<close> (\<open>language_menu.cpp\<close>), \<open>Selections\<close> (\<open>language_widget.cpp\<close>), \<open>TimedWidgets\<close>
    (\<open>timed_computer_management_widget.cpp\<close>): widgets that select, over actions and combo boxes of Qt with what is documented of
    them as locales.  The menu refines a list with a checked name; the language widget announces what is current.
  \<^item> \<open>Cancelables\<close>: \<open>ClassicCancelable\<close> (\<open>cancelable.hpp\<close>) as an interleaving of threads: assignments that respect an
    order of the objects return, two that cross may not.
  \<^item> \<open>Singletons\<close>: the singletons of \<open>singletons.hpp\<close> up to the end of the program, with clients whose destructors use
    them.  A phoenix has one life at a time if its first construction succeeds; the thread safe one locks a dead mutex.
  \<^item> \<open>Anys\<close>: \<open>any.hpp\<close> on the heap of \<open>Optionals\<close>.  \<open>Factories\<close>: \<open>factory.hpp\<close>.  \<open>ByteArrays\<close>: \<open>dynamic_byte_array.cpp\<close>.
  \<^item> \<open>MountPoints\<close>: the table of mounted file systems, devices by \<open>libudev\<close>, space and localized names
    (\<open>filesystem_utils_lnx.cpp\<close>, \<open>filesystem_utils_unx.cpp\<close>), with the contracts of the table and of \<open>libudev\<close> as
    locales.  \<open>MountRuns\<close>: systems that compute, what the functions return, that references and files are given back.
  \<^item> \<open>StorageDevices\<close>: the notifier of storage devices on UDisks2 (\<open>udisks2_device_notifier_lnx.cpp\<close>,
    \<open>udisks2_filesystem_block_device_lnx.cpp\<close>) over the D-Bus calls of Qt.  \<open>StorageRuns\<close>: the notifier with the service, as steps;
    it follows the service and gives back its connections, and what a device does that appears at the wrong moment.
  \<^item> \<open>DiskSpaceWidgets\<close> (\<open>disk_space_widget.cpp\<close>): the space and the mount point of a path on a progress bar, with the roundings of
    \<open>double\<close>.  \<open>MimeTypes\<close> (\<open>mime_database.cpp\<close>): the type of a file by extension and content, in six orders of preference.

  \<^item> \<open>DBusCalls\<close> (\<open>dbus_utils.cpp\<close>): services and properties on D-Bus over the calls of Qt; a getter gives a property of its type
    and refuses every other.  \<open>SessionManagers\<close> (\<open>session_manager_impl_lnx.cpp\<close> and the managers of logind and ConsoleKit): which
    messages end the session or the system.  \<open>Sessions\<close> (\<open>session_impl_lnx.cpp\<close>, \<open>logind_session_lnx.cpp\<close>,
    \<open>console_kit_session_lnx.cpp\<close>, \<open>screensaver_lnx.cpp\<close>): sessions give back their connections, idle time, screensavers.
    \<open>PowerNotifiers\<close>: the notifiers of \<open>power_notifier_lnx.cpp\<close> on logind and UPower, likewise.
  \<^item> \<open>SystemLibraries\<close>: \<open>get_user_name_unx.cpp\<close>, whose growing buffer returns the name, and \<open>dynamic_library.cpp\<close>.

  \<^bold>\<open>Bounds and fuel.\<close>  No definition uses fuel: loops are structural recursions, or \<open>partial_function (option)\<close>
  with a separate theorem that they return.  Times are integers where they cannot leave 64 bits and 32-bit
  conversions are written out (\<open>to_int\<close>, \<open>cpp_plus\<close>).

  \<^bold>\<open>Not modelled.\<close>  Vendored code (JsonCpp, TinyXML-2, qzip, QtCopyDialog, StackWalker), the implementations for
  other platforms (\<open>_win\<close>, \<open>_mac\<close>, \<open>_qt\<close>, \<open>_std\<close>), logging, stack traces and streaming operators, the storage
  notifier on UDisks1, and the layout of widgets, which is calls of Qt.  What is left beside that forwards
  to Qt or to the mutex it is given (futures, lockables, services), or is the exception propagation of the
  standard library in this configuration.
\<close>

end
